(* ===== verification/Prelude.thy ===== *)
theory Prelude
  imports Main "HOL-Library.Word" "HOL-Library.Monad_Syntax"
begin

text \<open>
  Shared vocabulary of the development: the machine integer types of the C code, the Ruby
  values and exceptions that the bindings exchange with the VM, the interface of the
  hardware-independent queues, and the generic lemmas on lists, options and words that
  the component theories use.
\<close>

unbundle bit_operations_syntax

section \<open>Machine integers\<close>

type_synonym u8 = "8 word"
type_synonym u16 = "16 word"
type_synonym u32 = "32 word"
type_synonym u64 = "64 word"
type_synonym bytes = "8 word list"

text \<open>
  \<open>sdiff32 a b\<close> is the C expression \<open>(int32_t)(a - b)\<close> on \<open>uint32_t\<close> operands.
\<close>

definition sdiff32 :: "u32 \<Rightarrow> u32 \<Rightarrow> int" where
  "sdiff32 a b = sint (a - b)"

text \<open>C's \<open>/\<close> and \<open>%\<close> on signed integers truncate towards zero.\<close>

definition c_div :: "int \<Rightarrow> int \<Rightarrow> int" where
  "c_div a b = sgn a * sgn b * (\<bar>a\<bar> div \<bar>b\<bar>)"

definition c_mod :: "int \<Rightarrow> int \<Rightarrow> int" where
  "c_mod a b = a - c_div a b * b"

section \<open>Ruby values and exceptions\<close>

text \<open>
  The values a binding receives from the VM or returns to it. A float is kept as the
  bit pattern of its IEEE representation: the code only passes floats to arithmetic of
  the platform, which is a parameter where it is used. \<open>VObj\<close> is a reference to a
  Ruby object the code treats as opaque.
\<close>

datatype mrb_value =
    VNil
  | VFalse
  | VTrue
  | VInt int
  | VFloat u64
  | VStr bytes
  | VSym string
  | VArray "mrb_value list"
  | VHash "(mrb_value \<times> mrb_value) list"
  | VObj nat

datatype rb_error =
    ArgumentError string
  | TypeError string
  | RuntimeError string
  | IOError string
  | EOFError string
  | StandardError string
  | NoMemoryError string

text \<open>A method either raises (\<open>Inl\<close>) or returns a value (\<open>Inr\<close>).\<close>

type_synonym 'a rb_result = "rb_error + 'a"

text \<open>The receiver, which is the return value of a mruby/c method that does not set another one.\<close>

definition mrbc_self :: mrb_value where "mrbc_self = VObj 0"

text \<open>A string literal as the bytes of a Ruby string, and the origins of a seek.\<close>

definition str_value :: "string \<Rightarrow> mrb_value" where
  "str_value s = VStr (map of_char s)"

definition SEEK_SET :: int where "SEEK_SET = 0"
definition SEEK_CUR :: int where "SEEK_CUR = 1"
definition SEEK_END :: int where "SEEK_END = 2"

section \<open>Collections of simplification rules\<close>

named_theorems queue_simps \<open>shape and membership of linked task queues\<close>
named_theorems frame_simps \<open>fields an operation leaves unchanged\<close>

section \<open>Lists\<close>

lemma takeWhile_dropWhile_set:
  "set (takeWhile P xs) \<union> set (dropWhile P xs) = set xs"
  by (metis set_append takeWhile_dropWhile_id)

lemma distinct_takeWhile_dropWhile:
  "distinct xs \<Longrightarrow> distinct (takeWhile P xs) \<and> distinct (dropWhile P xs)
     \<and> set (takeWhile P xs) \<inter> set (dropWhile P xs) = {}"
  by (metis distinct_append takeWhile_dropWhile_id)

lemma filter_neq_id: "x \<notin> set xs \<Longrightarrow> filter (\<lambda>y. y \<noteq> x) xs = xs"
  by (induction xs) auto

lemma filter_neq_split:
  "distinct (xs @ x # ys) \<Longrightarrow> filter (\<lambda>y. y \<noteq> x) (xs @ x # ys) = xs @ ys"
  by (auto simp: filter_neq_id)

section \<open>Arrays\<close>

text \<open>Array accesses: \<open>None\<close> is an index out of range, undefined behaviour in C.\<close>

definition arr_get :: "'a list \<Rightarrow> nat \<Rightarrow> 'a option" where
  "arr_get xs i = (if i < length xs then Some (xs ! i) else None)"

definition arr_set :: "'a list \<Rightarrow> nat \<Rightarrow> 'a \<Rightarrow> 'a list option" where
  "arr_set xs i v = (if i < length xs then Some (xs[i := v]) else None)"

lemma arr_get_Some [simp]: "i < length xs \<Longrightarrow> arr_get xs i = Some (xs ! i)"
  by (simp add: arr_get_def)

lemma arr_set_Some [simp]: "i < length xs \<Longrightarrow> arr_set xs i v = Some (xs[i := v])"
  by (simp add: arr_set_def)

lemma arr_set_eq_Some: "arr_set xs i v = Some ys \<longleftrightarrow> i < length xs \<and> ys = xs[i := v]"
  by (auto simp: arr_set_def)

lemma arr_get_eq_Some: "arr_get xs i = Some y \<longleftrightarrow> i < length xs \<and> y = xs ! i"
  by (auto simp: arr_get_def)

text \<open>A copy into the array behind a pointer, \<open>off\<close> bytes from its start.\<close>

definition copy_into :: "bytes \<Rightarrow> nat \<Rightarrow> bytes \<Rightarrow> bytes option" where
  "copy_into dst off src =
     (if off + length src \<le> length dst
      then Some (take off dst @ src @ drop (off + length src) dst) else None)"

definition copy_from :: "bytes \<Rightarrow> nat \<Rightarrow> nat \<Rightarrow> bytes option" where
  "copy_from src off n =
     (if off + n \<le> length src then Some (take n (drop off src)) else None)"

section \<open>Arguments in mruby/c\<close>

text \<open>\<open>args\<close> are the arguments \<^verbatim>\<open>v[1]\<close>, \<^verbatim>\<open>v[2]\<close>, \dots; \<^verbatim>\<open>GET_INT_ARG\<close> reads the integer
  member of the value, which is 32 bits wide.\<close>

definition GET_INT_ARG :: "mrb_value list \<Rightarrow> nat \<Rightarrow> u32 option" where
  "GET_INT_ARG args n = do {
     v \<leftarrow> arr_get args (n - 1);
     (case v of VInt i \<Rightarrow> Some (word_of_int i) | _ \<Rightarrow> None)
   }"

text \<open>The conversion to C's \<^verbatim>\<open>int\<close> and to \<^verbatim>\<open>mrbc_int_t\<close>.\<close>

definition c_int :: "int \<Rightarrow> int" where
  "c_int i = sint (word_of_int i :: u32)"

lemma c_int_small [simp]: "- (2 ^ 31) \<le> i \<Longrightarrow> i < 2 ^ 31 \<Longrightarrow> c_int i = i"
  by (simp add: c_int_def signed_of_int signed_take_bit_int_eq_self)

section \<open>Calendar dates\<close>

text \<open>The fields of \<^verbatim>\<open>struct tm\<close>.\<close>

record tm =
  tm_sec :: int
  tm_min :: int
  tm_hour :: int
  tm_mday :: int
  tm_mon :: int
  tm_year :: int

section \<open>Loops\<close>

text \<open>A \<^verbatim>\<open>for\<close> loop over a list of indices whose body may be undefined.\<close>

fun for_each :: "('a \<Rightarrow> 's \<Rightarrow> 's option) \<Rightarrow> 'a list \<Rightarrow> 's \<Rightarrow> 's option" where
  "for_each f [] s = Some s"
| "for_each f (x # xs) s = do { s \<leftarrow> f x s; for_each f xs s }"

lemma for_each_total:
  assumes "\<And>x s. x \<in> set xs \<Longrightarrow> f x s = Some (g x s)"
  shows "for_each f xs s = Some (foldl (\<lambda>s x. g x s) s xs)"
  using assms by (induction xs arbitrary: s) auto

section \<open>Signed differences of tick counters\<close>

lemma sdiff32_eq:
  assumes "- (2 ^ 31) \<le> x" and "x < 2 ^ 31" and "a - b = (word_of_int x :: u32)"
  shows "sdiff32 a b = x"
  using assms unfolding sdiff32_def by (simp add: signed_of_int signed_take_bit_int_eq_self)

lemma sdiff32_word: "a = b + word_of_int (sdiff32 a b)"
  by (simp add: sdiff32_def)

lemma sdiff32_range: "- (2 ^ 31) \<le> sdiff32 a b" "sdiff32 a b < 2 ^ 31"
  using sint_ge [of "a - b"] sint_lt [of "a - b"] by (auto simp: sdiff32_def)

lemma sdiff32_self [simp]: "sdiff32 a a = 0"
  by (simp add: sdiff32_def)

text \<open>
  The difference of two counters measured from a third one, when both lie within
  \<open>2 ^ 30\<close> ticks of it.
\<close>

lemma sdiff32_via:
  assumes "- (2 ^ 30) \<le> sdiff32 a c" "sdiff32 a c \<le> 2 ^ 30"
    and "- (2 ^ 30) < sdiff32 b c" "sdiff32 b c \<le> 2 ^ 30"
  shows "sdiff32 a b = sdiff32 a c - sdiff32 b c"
proof (rule sdiff32_eq)
  have "a - b = (a - c) - (b - c)" by simp
  also have "\<dots> = word_of_int (sdiff32 a c) - word_of_int (sdiff32 b c)"
    by (simp add: sdiff32_def)
  finally show "a - b = word_of_int (sdiff32 a c - sdiff32 b c)" by simp
qed (use assms in auto)

lemma sdiff32_Suc:
  assumes "- (2 ^ 31) < sdiff32 a c"
  shows "sdiff32 a (c + 1) = sdiff32 a c - 1"
proof (rule sdiff32_eq)
  have "a - (c + 1) = (a - c) - 1" by simp
  also have "\<dots> = word_of_int (sdiff32 a c) - word_of_int 1"
    by (simp add: sdiff32_def)
  finally show "a - (c + 1) = word_of_int (sdiff32 a c - 1)" by simp
qed (use assms sdiff32_range [of a c] in auto)

lemma sdiff32_plus:
  assumes "0 \<le> x" "x < 2 ^ 31"
  shows "sdiff32 (c + word_of_int x) c = x"
  by (rule sdiff32_eq) (use assms in auto)

end
