(* ===== verification/TaskQueue.thy ===== *)
theory TaskQueue
  imports Prelude
begin

text \<open>
  The task control block and the four task queues of
  \<^verbatim>\<open>mrbgems/picoruby-mruby/include/task.h\<close> and \<^verbatim>\<open>src/task.c\<close>:
  \<open>q_insert_task\<close> and \<open>q_delete_task\<close> on singly linked lists of TCBs, and the proof that
  they implement insertion and deletion in four disjoint lists ordered by effective priority.

  A TCB is named by its address, a \<open>tid\<close>; a null pointer is \<open>None\<close>. The fields of the TCBs
  are kept in the map \<open>m_tcb\<close>, except the link \<open>next\<close>, which has a map \<open>m_next\<close> of its own
  so that an update of a link visibly leaves the other fields alone. A result \<open>None\<close> stands
  for undefined behaviour of the C code: a loop over a cyclic list that does not end, a null
  pointer read, an array index out of range.
\<close>

section \<open>Data\<close>

type_synonym tid = nat

subsection \<open>Status and reason codes\<close>

abbreviation (input) TASKSTATUS_DORMANT :: u8 where "TASKSTATUS_DORMANT \<equiv> 0x00"
abbreviation (input) TASKSTATUS_READY :: u8 where "TASKSTATUS_READY \<equiv> 0x02"
abbreviation (input) TASKSTATUS_RUNNING :: u8 where "TASKSTATUS_RUNNING \<equiv> 0x03"
abbreviation (input) TASKSTATUS_WAITING :: u8 where "TASKSTATUS_WAITING \<equiv> 0x04"
abbreviation (input) TASKSTATUS_SUSPENDED :: u8 where "TASKSTATUS_SUSPENDED \<equiv> 0x08"

abbreviation (input) TASKREASON_NONE :: u8 where "TASKREASON_NONE \<equiv> 0x00"
abbreviation (input) TASKREASON_SLEEP :: u8 where "TASKREASON_SLEEP \<equiv> 0x01"
abbreviation (input) TASKREASON_MUTEX :: u8 where "TASKREASON_MUTEX \<equiv> 0x02"
abbreviation (input) TASKREASON_JOIN :: u8 where "TASKREASON_JOIN \<equiv> 0x04"

subsection \<open>Execution contexts\<close>

text \<open>
  The part of the VM's \<open>struct mrb_context\<close> that \<^verbatim>\<open>task.c\<close> reads and writes: the value
  stack, the call-info array, the current call info (an index into the array) and the
  status. The field \<open>ci_u\<close> is the union of the environment (with its length) and the
  target class of a call info.
\<close>

datatype ci_union = U_NULL | U_CLASS nat | U_ENV nat

record RProc =
  p_id :: nat
  p_nregs :: nat
  p_nlocals :: nat

record mrb_callinfo =
  ci_proc :: "RProc option"
  ci_u :: ci_union
  ci_stack :: bool

datatype ctx_status = MRB_TASK_CREATED | MRB_TASK_STOPPED | MRB_TASK_OTHER

record mrb_context =
  c_stbase :: "mrb_value list option"
  c_cibase :: "mrb_callinfo list option"
  c_ci :: "nat option"
  c_status :: ctx_status

record RTcb =
  t_priority :: u8
  t_priority_preemption :: u8
  t_timeslice :: u8
  t_status :: u8
  t_reason :: u8
  t_name :: mrb_value
  t_wakeup_tick :: u32
  t_tcb_join :: "tid option"
  t_flag_permanence :: u8
  t_context_id :: u8
  t_task :: mrb_value
  t_value :: mrb_value
  t_c :: mrb_context

text \<open>
  The scheduler's state inside \<open>mrb_state\<close>: \<open>mrb->task\<close> (the four queues, the tick counter,
  the next wake-up tick, the switching flag), the current context \<open>mrb->c\<close> (\<open>None\<close> is the
  root context), the pending exception, whether the incremental collector is idle, the
  context list, the static counter of \<open>mrb_tcb_new\<close>, the warnings printed so far, the
  instance variable \<^verbatim>\<open>@name\<close> of each Task object, the top-level object and the class
  \<^verbatim>\<open>Object\<close>.
\<close>

record mrb_state =
  m_tcb :: "tid \<Rightarrow> RTcb"
  m_next :: "tid \<Rightarrow> tid option"
  m_queues :: "nat \<Rightarrow> tid option"
  m_tick :: u32
  m_wakeup_tick :: u32
  m_switching :: bool
  m_c :: "tid option"
  m_exc :: "mrb_value option"
  m_gc_idle :: bool
  m_c_list :: "tid option list"
  m_c_list_capa :: nat
  m_context_id :: u8
  m_warnings :: "string list"
  m_iv_name :: "tid \<Rightarrow> mrb_value"
  m_top_self :: mrb_value
  m_object_class :: nat

abbreviation upd_tcb :: "tid \<Rightarrow> (RTcb \<Rightarrow> RTcb) \<Rightarrow> mrb_state \<Rightarrow> mrb_state" where
  "upd_tcb t f s \<equiv> s\<lparr>m_tcb := (m_tcb s)(t := f (m_tcb s t))\<rparr>"

abbreviation status_of :: "mrb_state \<Rightarrow> tid \<Rightarrow> u8" where
  "status_of s t \<equiv> t_status (m_tcb s t)"

abbreviation pprio :: "(tid \<Rightarrow> RTcb) \<Rightarrow> tid \<Rightarrow> u8" where
  "pprio tcb t \<equiv> t_priority_preemption (tcb t)"

section \<open>The queue operations\<close>

definition conv_tbl :: "nat list" where
  "conv_tbl = [0, 1, 2, 0, 3]"

definition q_index :: "u8 \<Rightarrow> nat option" where
  "q_index st = (let i = unat st div 2 in
     if i < length conv_tbl then Some (conv_tbl ! i) else None)"

text \<open>The search loop of \<open>q_insert_task\<close>: the element after which the task goes.\<close>

partial_function (option) q_find_slot ::
  "(tid \<Rightarrow> tid option) \<Rightarrow> (tid \<Rightarrow> RTcb) \<Rightarrow> u8 \<Rightarrow> tid \<Rightarrow> tid option" where
  "q_find_slot nxt tcb prio p =
     (case nxt p of
        None \<Rightarrow> Some p
      | Some n \<Rightarrow> if prio < pprio tcb n then Some p else q_find_slot nxt tcb prio n)"

definition q_insert_task :: "mrb_state \<Rightarrow> tid \<Rightarrow> mrb_state option" where
  "q_insert_task s t = do {
     q \<leftarrow> q_index (status_of s t);
     let prio = pprio (m_tcb s) t;
     case m_queues s q of
       None \<Rightarrow> Some (s\<lparr>m_next := (m_next s)(t := None), m_queues := (m_queues s)(q := Some t)\<rparr>)
     | Some h \<Rightarrow>
         if prio < pprio (m_tcb s) h
         then Some (s\<lparr>m_next := (m_next s)(t := Some h), m_queues := (m_queues s)(q := Some t)\<rparr>)
         else do {
           p \<leftarrow> q_find_slot (m_next s) (m_tcb s) prio h;
           Some (s\<lparr>m_next := (m_next s)(t := m_next s p, p := Some t)\<rparr>)
         }
   }"

text \<open>The search loop of \<open>q_delete_task\<close>: the predecessor of \<open>t\<close>, \<open>Some None\<close> if it has none.\<close>

partial_function (option) q_find_prev ::
  "(tid \<Rightarrow> tid option) \<Rightarrow> tid \<Rightarrow> tid option \<Rightarrow> tid option option" where
  "q_find_prev nxt t p =
     (case p of
        None \<Rightarrow> Some None
      | Some q \<Rightarrow> if nxt q = Some t then Some (Some q) else q_find_prev nxt t (nxt q))"

text \<open>
  A task that is not in the queue of its status is left alone: the assertion at the end of
  the function is compiled out of release builds.
\<close>

definition q_delete_task :: "mrb_state \<Rightarrow> tid \<Rightarrow> mrb_state option" where
  "q_delete_task s t = do {
     q \<leftarrow> q_index (status_of s t);
     if m_queues s q = Some t
     then Some (s\<lparr>m_queues := (m_queues s)(q := m_next s t), m_next := (m_next s)(t := None)\<rparr>)
     else do {
       prev \<leftarrow> q_find_prev (m_next s) t (m_queues s q);
       case prev of
         None \<Rightarrow> Some s
       | Some p \<Rightarrow> Some (s\<lparr>m_next := (m_next s)(p := m_next s t, t := None)\<rparr>)
     }
   }"

text \<open>Walking a queue along the links, as the loops over a queue do.\<close>

partial_function (option) q_walk :: "(tid \<Rightarrow> tid option) \<Rightarrow> tid option \<Rightarrow> tid list option" where
  "q_walk nxt p =
     (case p of
        None \<Rightarrow> Some []
      | Some x \<Rightarrow> do { xs \<leftarrow> q_walk nxt (nxt x); Some (x # xs) })"

definition q_list :: "mrb_state \<Rightarrow> nat \<Rightarrow> tid list option" where
  "q_list s i = q_walk (m_next s) (m_queues s i)"

section \<open>Linked lists\<close>

primrec linked :: "(tid \<Rightarrow> tid option) \<Rightarrow> tid option \<Rightarrow> tid list \<Rightarrow> bool" where
  "linked h p [] \<longleftrightarrow> p = None"
| "linked h p (x # xs) \<longleftrightarrow> p = Some x \<and> linked h (h x) xs"

lemma linked_None [simp]: "linked h None xs \<longleftrightarrow> xs = []"
  by (cases xs) auto

lemma linked_Some: "linked h (Some x) xs \<longleftrightarrow> (\<exists>ys. xs = x # ys \<and> linked h (h x) ys)"
  by (cases xs) auto

lemma linked_frame: "(\<And>x. x \<in> set xs \<Longrightarrow> h' x = h x) \<Longrightarrow> linked h' p xs = linked h p xs"
  by (induction xs arbitrary: p) auto

lemma linked_unique: "linked h p xs \<Longrightarrow> linked h p ys \<Longrightarrow> xs = ys"
  by (induction xs arbitrary: p ys) (auto simp: linked_Some)

lemma linked_insert:
  "linked h p (A @ y # B) \<Longrightarrow> distinct (A @ y # B) \<Longrightarrow> t \<notin> set (A @ y # B) \<Longrightarrow>
   linked (h(t := h y, y := Some t)) p (A @ y # t # B)"
proof (induction A arbitrary: p)
  case Nil
  let ?h = "h(t := h y, y := Some t)"
  have "linked ?h (h y) B = linked h (h y) B"
    by (rule linked_frame) (use Nil in auto)
  moreover have "?h y = Some t" and "?h t = h y"
    using Nil by auto
  ultimately show ?case
    using Nil by (simp del: fun_upd_apply)
next
  case (Cons a A)
  then show ?case by auto
qed

lemma linked_delete:
  "linked h p (A @ y # t # B) \<Longrightarrow> distinct (A @ y # t # B) \<Longrightarrow>
   linked (h(y := h t, t := None)) p (A @ y # B)"
proof (induction A arbitrary: p)
  case Nil
  let ?h = "h(y := h t, t := None)"
  have "linked ?h (h t) B = linked h (h t) B"
    by (rule linked_frame) (use Nil in auto)
  moreover have "?h y = h t"
    using Nil by auto
  ultimately show ?case
    using Nil by (simp del: fun_upd_apply)
next
  case (Cons a A)
  then show ?case by auto
qed

lemma linked_next: "linked h p (A @ y # z # B) \<Longrightarrow> h y = Some z"
  by (induction A arbitrary: p) auto

lemma linked_q_walk: "linked h p xs \<Longrightarrow> q_walk h p = Some xs"
  by (induction xs arbitrary: p) (auto simp: q_walk.simps)

lemma q_walk_linked:
  assumes "q_walk h p = Some xs"
  shows "linked h p xs"
proof (rule q_walk.raw_induct [where P = "\<lambda>h p xs. linked h p xs", OF _ assms])
  fix f and nxt :: "tid \<Rightarrow> tid option" and p xs
  assume "\<And>nxt p xs. f nxt p = Some xs \<Longrightarrow> linked nxt p xs"
    and "(case p of None \<Rightarrow> Some [] | Some x \<Rightarrow> do { xs \<leftarrow> f nxt (nxt x); Some (x # xs) }) = Some xs"
  then show "linked nxt p xs"
    by (fastforce split: option.splits bind_splits)
qed

subsection \<open>The search loops\<close>

lemma q_find_slot_spec:
  "linked nxt (nxt p) xs \<Longrightarrow>
   q_find_slot nxt tcb prio p = Some (last (p # takeWhile (\<lambda>u. pprio tcb u \<le> prio) xs))"
proof (induction xs arbitrary: p)
  case Nil
  then show ?case by (simp add: q_find_slot.simps)
next
  case (Cons x xs)
  then show ?case by (subst q_find_slot.simps) (auto simp: not_le)
qed

lemma q_find_prev_spec:
  "linked nxt (nxt p) xs \<Longrightarrow> t \<in> set xs \<Longrightarrow> distinct (p # xs) \<Longrightarrow>
   q_find_prev nxt t (Some p) = Some (Some (last (p # takeWhile (\<lambda>u. u \<noteq> t) xs)))"
proof (induction xs arbitrary: p)
  case Nil
  then show ?case by simp
next
  case (Cons x xs)
  then show ?case by (subst q_find_prev.simps) auto
qed

lemma q_find_prev_none:
  "linked nxt (nxt p) xs \<Longrightarrow> t \<notin> set xs \<Longrightarrow> q_find_prev nxt t (Some p) = Some None"
proof (induction xs arbitrary: p)
  case Nil
  then show ?case by (simp add: q_find_prev.simps)
next
  case (Cons x xs)
  then show ?case by (subst q_find_prev.simps) auto
qed

section \<open>Abstraction: four disjoint lists\<close>

text \<open>
  \<open>rep s Q\<close>: the links of \<open>s\<close> represent the lists \<open>Q 0\<close> (dormant), \<open>Q 1\<close> (ready and
  running), \<open>Q 2\<close> (waiting) and \<open>Q 3\<close> (suspended), and every task is in the list its status
  selects, which makes the lists disjoint.
\<close>

definition rep :: "mrb_state \<Rightarrow> (nat \<Rightarrow> tid list) \<Rightarrow> bool" where
  "rep s Q \<longleftrightarrow> (\<forall>i<4. linked (m_next s) (m_queues s i) (Q i) \<and> distinct (Q i)
     \<and> (\<forall>t\<in>set (Q i). q_index (status_of s t) = Some i))"

definition queued :: "(nat \<Rightarrow> tid list) \<Rightarrow> tid \<Rightarrow> bool" where
  "queued Q t \<longleftrightarrow> (\<exists>i<4. t \<in> set (Q i))"

definition task_ins :: "(tid \<Rightarrow> RTcb) \<Rightarrow> tid \<Rightarrow> tid list \<Rightarrow> tid list" where
  "task_ins tcb t xs =
     takeWhile (\<lambda>u. pprio tcb u \<le> pprio tcb t) xs @ t #
     dropWhile (\<lambda>u. pprio tcb u \<le> pprio tcb t) xs"

definition same_but_links :: "mrb_state \<Rightarrow> mrb_state \<Rightarrow> bool" where
  "same_but_links s s' \<longleftrightarrow> (\<exists>nxt qs. s' = s\<lparr>m_next := nxt, m_queues := qs\<rparr>)"

lemma same_but_linksI [intro]:
  "s' = s\<lparr>m_next := nxt, m_queues := qs\<rparr> \<Longrightarrow> same_but_links s s'"
  by (auto simp: same_but_links_def)

lemma same_but_linksD [frame_simps]:
  assumes "same_but_links s s'"
  shows "m_tcb s' = m_tcb s" "m_tick s' = m_tick s" "m_wakeup_tick s' = m_wakeup_tick s"
    "m_switching s' = m_switching s" "m_c s' = m_c s" "m_exc s' = m_exc s"
    "m_gc_idle s' = m_gc_idle s" "m_c_list s' = m_c_list s"
    "m_c_list_capa s' = m_c_list_capa s" "m_context_id s' = m_context_id s"
    "m_warnings s' = m_warnings s" "m_iv_name s' = m_iv_name s"
    "m_top_self s' = m_top_self s" "m_object_class s' = m_object_class s"
  using assms by (auto simp: same_but_links_def)

lemma q_index_simps [simp]:
  "q_index 0 = Some 0" "q_index 2 = Some 1" "q_index 3 = Some 1"
  "q_index 4 = Some 2" "q_index 8 = Some 3"
  by (simp_all add: q_index_def conv_tbl_def)

lemma q_index_less: "q_index st = Some i \<Longrightarrow> i < 4"
proof -
  assume a: "q_index st = Some i"
  then have "i = conv_tbl ! (unat st div 2)" and "unat st div 2 < length conv_tbl"
    by (auto simp: q_index_def Let_def split: if_splits)
  then have "i \<in> set conv_tbl" by (auto intro: nth_mem)
  then show ?thesis by (auto simp: conv_tbl_def)
qed

lemma repD:
  assumes "rep s Q" "i < 4"
  shows "linked (m_next s) (m_queues s i) (Q i)" "distinct (Q i)"
    "t \<in> set (Q i) \<Longrightarrow> q_index (status_of s t) = Some i"
  using assms by (auto simp: rep_def)

lemma rep_index: "rep s Q \<Longrightarrow> i < 4 \<Longrightarrow> t \<in> set (Q i) \<Longrightarrow> q_index (status_of s t) = Some j \<Longrightarrow> i = j"
  by (simp add: repD)

lemma rep_disjoint: "rep s Q \<Longrightarrow> i < 4 \<Longrightarrow> j < 4 \<Longrightarrow> t \<in> set (Q i) \<Longrightarrow> t \<in> set (Q j) \<Longrightarrow> i = j"
  by (metis repD(3) rep_index)

lemma rep_q_list: "rep s Q \<Longrightarrow> i < 4 \<Longrightarrow> q_list s i = Some (Q i)"
  by (simp add: q_list_def linked_q_walk repD)

lemma rep_unique: "rep s Q \<Longrightarrow> rep s Q' \<Longrightarrow> i < 4 \<Longrightarrow> Q i = Q' i"
  by (metis linked_unique repD(1))

lemma set_task_ins [simp]: "set (task_ins tcb t xs) = insert t (set xs)"
  using takeWhile_dropWhile_set [of _ xs] by (auto simp: task_ins_def)

lemma distinct_task_ins: "distinct xs \<Longrightarrow> t \<notin> set xs \<Longrightarrow> distinct (task_ins tcb t xs)"
  using distinct_takeWhile_dropWhile [of xs] takeWhile_dropWhile_set [of _ xs]
  by (fastforce simp: task_ins_def)

lemma rep_update:
  assumes "rep s Q" "m_tcb s' = m_tcb s"
    and "linked (m_next s') (m_queues s' i) xs" "distinct xs"
    and "\<And>u. u \<in> set xs \<Longrightarrow> q_index (status_of s u) = Some i"
    and "\<And>j. j < 4 \<Longrightarrow> j \<noteq> i \<Longrightarrow> m_queues s' j = m_queues s j"
    and "\<And>j x. j < 4 \<Longrightarrow> j \<noteq> i \<Longrightarrow> x \<in> set (Q j) \<Longrightarrow> m_next s' x = m_next s x"
  shows "rep s' (Q(i := xs))"
proof (unfold rep_def, intro allI impI)
  fix j :: nat
  assume "j < 4"
  show "linked (m_next s') (m_queues s' j) ((Q(i := xs)) j) \<and> distinct ((Q(i := xs)) j)
     \<and> (\<forall>t\<in>set ((Q(i := xs)) j). q_index (status_of s' t) = Some j)"
  proof (cases "j = i")
    case True
    with assms show ?thesis by auto
  next
    case False
    with assms \<open>j < 4\<close> have "linked (m_next s') (m_queues s' j) (Q j)"
      using linked_frame [of "Q j" "m_next s'" "m_next s"] by (simp add: repD(1))
    with False assms(1,2) \<open>j < 4\<close> show ?thesis by (auto simp: repD)
  qed
qed

section \<open>Insertion and deletion implement the abstract operations\<close>

lemma q_insert_slot:
  assumes l: "linked h (Some x) (x # xs)" and d: "distinct (x # xs)" and t: "t \<notin> set (x # xs)"
    and x: "pprio tcb x \<le> pprio tcb t"
  obtains y where "q_find_slot h tcb (pprio tcb t) x = Some y" and "y \<in> set (x # xs)"
    and "linked (h(t := h y, y := Some t)) (Some x) (task_ins tcb t (x # xs))"
proof -
  define P where "P = (\<lambda>u. pprio tcb u \<le> pprio tcb t)"
  define y where "y = last (x # takeWhile P xs)"
  define A where "A = butlast (x # takeWhile P xs)"
  have split: "x # xs = A @ y # dropWhile P xs"
    by (metis A_def y_def append.assoc append_Cons append_Nil append_butlast_last_id
        list.distinct(1) takeWhile_dropWhile_id)
  have ins: "task_ins tcb t (x # xs) = A @ y # t # dropWhile P xs"
    using x unfolding task_ins_def P_def [symmetric]
    by (metis A_def y_def P_def append.assoc append_Cons append_Nil append_butlast_last_id
        dropWhile.simps(2) list.distinct(1) takeWhile.simps(2))
  from l have "q_find_slot h tcb (pprio tcb t) x = Some y"
    by (simp add: q_find_slot_spec y_def P_def)
  moreover have "y \<in> set (x # xs)"
    by (simp add: split)
  moreover have "linked (h(t := h y, y := Some t)) (Some x) (task_ins tcb t (x # xs))"
    unfolding ins by (rule linked_insert) (use l d t split in auto)
  ultimately show thesis by (rule that)
qed

lemma q_insert_rep:
  assumes r: "rep s Q" and i: "q_index (status_of s t) = Some i" and t: "\<not> queued Q t"
  obtains s' where "q_insert_task s t = Some s'" and "same_but_links s s'"
    and "rep s' (Q(i := task_ins (m_tcb s) t (Q i)))"
proof -
  let ?p = "pprio (m_tcb s) t"
  have i4: "i < 4" using i by (rule q_index_less)
  have tQ: "t \<notin> set (Q j)" if "j < 4" for j
    using t that by (auto simp: queued_def)
  have lQ: "linked (m_next s) (m_queues s i) (Q i)" and dQ: "distinct (Q i)"
    using r i4 by (auto simp: repD)
  have st: "q_index (status_of s u) = Some i" if "u \<in> set (task_ins (m_tcb s) t (Q i))" for u
    using that r i i4 by (auto simp: repD)
  have di: "distinct (task_ins (m_tcb s) t (Q i))"
    using dQ tQ [OF i4] by (rule distinct_task_ins)
  have sep: "y \<notin> set (Q j)" if "j < 4" "j \<noteq> i" "y \<in> set (Q i)" for j y
    using rep_disjoint [OF r] that i4 by blast
  show thesis
  proof (cases "m_queues s i")
    case None
    let ?s = "s\<lparr>m_next := (m_next s)(t := None), m_queues := (m_queues s)(i := Some t)\<rparr>"
    from None lQ have Q: "Q i = []" by simp
    have "rep ?s (Q(i := task_ins (m_tcb s) t (Q i)))"
      by (rule rep_update [OF r _ _ di st]) (use Q tQ in \<open>auto simp: task_ins_def\<close>)
    with None i show thesis
      by (intro that [of ?s] same_but_linksI [where nxt = "m_next ?s" and qs = "m_queues ?s"])
        (simp_all add: q_insert_task_def)
  next
    case (Some h)
    with lQ obtain xs where Q: "Q i = h # xs" by (auto simp: linked_Some)
    show thesis
    proof (cases "?p < pprio (m_tcb s) h")
      case True
      let ?s = "s\<lparr>m_next := (m_next s)(t := Some h), m_queues := (m_queues s)(i := Some t)\<rparr>"
      have ins: "task_ins (m_tcb s) t (Q i) = t # Q i"
        using True Q by (auto simp: task_ins_def)
      have "linked (m_next ?s) (Some h) (Q i) = linked (m_next s) (Some h) (Q i)"
        by (rule linked_frame) (use tQ [OF i4] in auto)
      with lQ Some have l: "linked (m_next ?s) (m_queues ?s i) (task_ins (m_tcb s) t (Q i))"
        unfolding ins by simp
      have "rep ?s (Q(i := task_ins (m_tcb s) t (Q i)))"
        by (rule rep_update [OF r _ l di st]) (use tQ in auto)
      with Some True i show thesis
        by (intro that [of ?s] same_but_linksI [where nxt = "m_next ?s" and qs = "m_queues ?s"])
        (simp_all add: q_insert_task_def)
    next
      case False
      obtain y where y: "q_find_slot (m_next s) (m_tcb s) ?p h = Some y" "y \<in> set (Q i)"
        and l: "linked ((m_next s)(t := m_next s y, y := Some t)) (Some h) (task_ins (m_tcb s) t (Q i))"
        using q_insert_slot [of "m_next s" h xs t "m_tcb s"] lQ Some dQ tQ [OF i4] False Q
        by (auto simp: not_less)
      let ?s = "s\<lparr>m_next := (m_next s)(t := m_next s y, y := Some t)\<rparr>"
      have "rep ?s (Q(i := task_ins (m_tcb s) t (Q i)))"
        by (rule rep_update [OF r _ _ di st]) (use l Some tQ sep y(2) in auto)
      with Some False i y show thesis
        by (intro that [of ?s] same_but_linksI [where nxt = "m_next ?s" and qs = "m_queues ?s"])
        (simp_all add: q_insert_task_def)
    qed
  qed
qed

lemma q_delete_rep:
  assumes r: "rep s Q" and i: "q_index (status_of s t) = Some i" and t: "t \<in> set (Q i)"
  obtains s' where "q_delete_task s t = Some s'" and "same_but_links s s'"
    and "rep s' (Q(i := filter (\<lambda>u. u \<noteq> t) (Q i)))"
proof -
  have i4: "i < 4" using i by (rule q_index_less)
  have lQ: "linked (m_next s) (m_queues s i) (Q i)" and dQ: "distinct (Q i)"
    using r i4 by (auto simp: repD)
  have sep: "u \<notin> set (Q j)" if "j < 4" "j \<noteq> i" "u \<in> set (Q i)" for j u
    using rep_disjoint [OF r] that i4 by blast
  have st: "q_index (status_of s u) = Some i" if "u \<in> set (filter (\<lambda>u. u \<noteq> t) (Q i))" for u
    using that r i4 by (auto simp: repD)
  have di: "distinct (filter (\<lambda>u. u \<noteq> t) (Q i))"
    using dQ by simp
  show thesis
  proof (cases "m_queues s i = Some t")
    case True
    let ?s = "s\<lparr>m_queues := (m_queues s)(i := m_next s t), m_next := (m_next s)(t := None)\<rparr>"
    from True lQ obtain xs where Q: "Q i = t # xs" by (auto simp: linked_Some)
    have fil: "filter (\<lambda>u. u \<noteq> t) (Q i) = xs"
      using dQ Q by (simp add: filter_neq_id)
    have "linked (m_next ?s) (m_next s t) xs = linked (m_next s) (m_next s t) xs"
      by (rule linked_frame) (use dQ Q in auto)
    with lQ Q have l: "linked (m_next ?s) (m_queues ?s i) (filter (\<lambda>u. u \<noteq> t) (Q i))"
      unfolding fil by simp
    have "rep ?s (Q(i := filter (\<lambda>u. u \<noteq> t) (Q i)))"
      by (rule rep_update [OF r _ l di st]) (use t sep in auto)
    with True i show thesis
      by (intro that [of ?s] same_but_linksI [where nxt = "m_next ?s" and qs = "m_queues ?s"])
        (simp_all add: q_delete_task_def)
  next
    case False
    from t obtain h xs where Q: "Q i = h # xs" by (cases "Q i") auto
    with False lQ t have h: "m_queues s i = Some h" and xs: "t \<in> set xs" "h \<noteq> t" by auto
    define y where "y = last (h # takeWhile (\<lambda>u. u \<noteq> t) xs)"
    define A where "A = butlast (h # takeWhile (\<lambda>u. u \<noteq> t) xs)"
    obtain B where B: "dropWhile (\<lambda>u. u \<noteq> t) xs = t # B"
      using xs(1) by (metis (mono_tags, lifting) dropWhile_eq_Nil_conv hd_dropWhile list.exhaust_sel)
    have Ay: "A @ [y] = h # takeWhile (\<lambda>u. u \<noteq> t) xs"
      by (simp add: A_def y_def)
    have "Q i = (h # takeWhile (\<lambda>u. u \<noteq> t) xs) @ dropWhile (\<lambda>u. u \<noteq> t) xs"
      by (simp add: Q)
    then have split: "Q i = A @ y # t # B"
      unfolding Ay [symmetric] B by simp
    have prev: "q_find_prev (m_next s) t (m_queues s i) = Some (Some y)"
      using lQ dQ xs(1) unfolding h y_def Q by (simp add: q_find_prev_spec)
    let ?s = "s\<lparr>m_next := (m_next s)(y := m_next s t, t := None)\<rparr>"
    have "linked (m_next ?s) (m_queues ?s i) (A @ y # B)"
      using linked_delete [OF lQ [unfolded split] dQ [unfolded split]] by simp
    moreover have "filter (\<lambda>u. u \<noteq> t) (Q i) = A @ y # B"
      using dQ filter_neq_split [of "A @ [y]" t B] unfolding split by simp
    ultimately have l: "linked (m_next ?s) (m_queues ?s i) (filter (\<lambda>u. u \<noteq> t) (Q i))"
      by simp
    have "y \<in> set (Q i)" by (simp add: split)
    have "rep ?s (Q(i := filter (\<lambda>u. u \<noteq> t) (Q i)))"
      by (rule rep_update [OF r _ l di st])
        (use t sep \<open>y \<in> set (Q i)\<close> in auto)
    with False i prev show thesis
      by (intro that [of ?s] same_but_linksI [where nxt = "m_next ?s" and qs = "m_queues ?s"])
        (simp_all add: q_delete_task_def)
  qed
qed

text \<open>A task that is in no queue is left alone by a deletion.\<close>

lemma q_delete_absent:
  assumes r: "rep s Q" and i: "q_index (status_of s t) = Some i" and t: "\<not> queued Q t"
  shows "q_delete_task s t = Some s"
proof -
  have i4: "i < 4" using i by (rule q_index_less)
  with r t have lQ: "linked (m_next s) (m_queues s i) (Q i)" and tQ: "t \<notin> set (Q i)"
    by (auto simp: repD queued_def)
  have "q_find_prev (m_next s) t (m_queues s i) = Some None"
  proof (cases "m_queues s i")
    case None
    then show ?thesis by (simp add: q_find_prev.simps)
  next
    case (Some h)
    with lQ tQ show ?thesis by (auto simp: linked_Some q_find_prev_none)
  qed
  moreover have "m_queues s i \<noteq> Some t"
    using lQ tQ by (auto simp: linked_Some)
  ultimately show ?thesis using i by (simp add: q_delete_task_def)
qed

section \<open>Moving a task between queues\<close>

text \<open>
  Every operation of the scheduler takes a task out of its queue, changes its fields and
  inserts it again. \<open>requeue\<close> is the abstract effect, and \<open>requeue_rep\<close> the one lemma the
  operations rest on.
\<close>

definition requeue ::
  "(tid \<Rightarrow> RTcb) \<Rightarrow> tid \<Rightarrow> nat \<Rightarrow> nat \<Rightarrow> (nat \<Rightarrow> tid list) \<Rightarrow> (nat \<Rightarrow> tid list)" where
  "requeue tcb t i j Q =
     (let Q' = Q(i := filter (\<lambda>u. u \<noteq> t) (Q i)) in Q'(j := task_ins tcb t (Q' j)))"

lemma rep_cong:
  fixes s s' :: mrb_state
  assumes "m_tcb s' = m_tcb s" "m_next s' = m_next s" "m_queues s' = m_queues s"
  shows "rep s' Q = rep s Q"
  using assms by (simp add: rep_def)

lemma rep_upd_tcb:
  assumes "rep s Q" and "m_tcb s' = (m_tcb s)(t := c)"
    and "m_next s' = m_next s" "m_queues s' = m_queues s"
    and "\<not> queued Q t \<or> q_index (t_status c) = q_index (status_of s t)"
  shows "rep s' Q"
  using assms by (fastforce simp: rep_def queued_def)

lemma queued_in: "t \<in> set (Q i) \<Longrightarrow> i < 4 \<Longrightarrow> queued Q t"
  by (auto simp: queued_def)

lemma not_queued_removed:
  assumes "rep s Q" "i < 4" "t \<in> set (Q i)"
  shows "\<not> queued (Q(i := filter (\<lambda>u. u \<noteq> t) (Q i))) t"
  using rep_disjoint [OF assms(1) _ assms(2) _ assms(3)] by (auto simp: queued_def)

lemma rep_queued_index: "rep s Q \<Longrightarrow> queued Q t \<Longrightarrow> q_index (status_of s t) = Some i \<Longrightarrow> t \<in> set (Q i)"
  by (metis queued_def rep_index)

lemma requeue_rep:
  assumes r: "rep s Q" and q: "queued Q t" and i: "q_index (status_of s t) = Some i"
    and j: "q_index (t_status c) = Some j"
  obtains s1 where "q_delete_task s t = Some s1" and "same_but_links s s1"
    and "\<And>s1' :: mrb_state. m_tcb s1' = (m_tcb s)(t := c) \<Longrightarrow> m_next s1' = m_next s1 \<Longrightarrow>
      m_queues s1' = m_queues s1 \<Longrightarrow> \<exists>s2. q_insert_task s1' t = Some s2 \<and>
        same_but_links s1' s2 \<and> rep s2 (requeue ((m_tcb s)(t := c)) t i j Q)"
proof -
  have i4: "i < 4" using i by (rule q_index_less)
  have t: "t \<in> set (Q i)" using r q i by (rule rep_queued_index)
  obtain s1 where s1: "q_delete_task s t = Some s1" "same_but_links s s1"
      "rep s1 (Q(i := filter (\<lambda>u. u \<noteq> t) (Q i)))"
    using q_delete_rep [OF r i t] .
  let ?Q = "Q(i := filter (\<lambda>u. u \<noteq> t) (Q i))"
  have nq: "\<not> queued ?Q t" using r i4 t by (rule not_queued_removed)
  show thesis
  proof (rule that [OF s1(1,2)])
    fix s1' :: mrb_state
    assume s1': "m_tcb s1' = (m_tcb s)(t := c)" "m_next s1' = m_next s1" "m_queues s1' = m_queues s1"
    have "rep s1' ?Q"
      by (rule rep_upd_tcb [OF s1(3) _ s1'(2,3), of t c])
        (use s1' s1(2) nq in \<open>simp_all add: frame_simps\<close>)
    moreover have "q_index (status_of s1' t) = Some j"
      using j s1'(1) by simp
    ultimately show "\<exists>s2. q_insert_task s1' t = Some s2 \<and> same_but_links s1' s2 \<and>
        rep s2 (requeue ((m_tcb s)(t := c)) t i j Q)"
      using nq by (rule q_insert_rep) (simp add: requeue_def s1'(1))
  qed
qed

lemma requeue_other: "k \<noteq> i \<Longrightarrow> k \<noteq> j \<Longrightarrow> requeue tcb t i j Q k = Q k"
  by (simp add: requeue_def)

lemma set_requeue:
  "set (requeue tcb t i j Q k) =
     (if k = j then insert t (set (Q k)) else if k = i then set (Q k) - {t} else set (Q k))"
  by (auto simp: requeue_def)

lemma in_requeue: "u \<noteq> t \<Longrightarrow> u \<in> set (requeue tcb t i j Q k) \<longleftrightarrow> u \<in> set (Q k)"
  by (simp add: set_requeue)

lemma queued_requeue: "j < 4 \<Longrightarrow> queued (requeue tcb t i j Q) u \<longleftrightarrow> u = t \<or> queued Q u"
  by (cases "u = t") (auto simp: queued_def in_requeue, auto simp: set_requeue)

section \<open>Order of a queue\<close>

text \<open>
  A queue is ordered by effective priority, the running task apart: \<open>Task.pass\<close> changes the
  effective priority of the running task in place, and the task is put back in order when
  it gives up the CPU. While it is out of order its effective priority is 1.
\<close>

abbreviation prio_sorted :: "(tid \<Rightarrow> RTcb) \<Rightarrow> tid list \<Rightarrow> bool" where
  "prio_sorted tcb xs \<equiv> sorted (map (pprio tcb) xs)"

definition q_sorted :: "(tid \<Rightarrow> RTcb) \<Rightarrow> tid list \<Rightarrow> bool" where
  "q_sorted tcb xs \<longleftrightarrow>
     prio_sorted tcb (filter (\<lambda>u. t_status (tcb u) \<noteq> TASKSTATUS_RUNNING) xs) \<and>
     (prio_sorted tcb xs \<or>
      (\<forall>u\<in>set xs. t_status (tcb u) = TASKSTATUS_RUNNING \<longrightarrow> pprio tcb u = 1))"

lemma sorted_split_ins:
  assumes "prio_sorted tcb (A @ B)" and "\<And>u. u \<in> set A \<Longrightarrow> pprio tcb u \<le> p"
    and "\<And>u. u \<in> set B \<Longrightarrow> p \<le> pprio tcb u" and "pprio tcb t = p"
  shows "prio_sorted tcb (A @ t # B)"
  using assms by (auto simp: sorted_append)

lemma prio_sorted_dropWhile:
  assumes "prio_sorted tcb xs" and "u \<in> set (dropWhile (\<lambda>u. pprio tcb u \<le> p) xs)"
  shows "p < pprio tcb u"
proof -
  let ?P = "\<lambda>u. pprio tcb u \<le> p"
  obtain y ys where D: "dropWhile ?P xs = y # ys"
    using assms(2) by (cases "dropWhile ?P xs") auto
  then have "p < pprio tcb y"
    by (metis hd_dropWhile list.distinct(1) list.sel(1) not_le)
  moreover have "map (pprio tcb) (dropWhile ?P xs) = dropWhile (\<lambda>q. q \<le> p) (map (pprio tcb) xs)"
    by (simp add: dropWhile_map comp_def)
  then have "prio_sorted tcb (dropWhile ?P xs)"
    using assms(1) by (simp add: sorted_dropWhile)
  ultimately show ?thesis
    using assms(2) D by auto
qed

lemma prio_sorted_takeWhile:
  "u \<in> set (takeWhile (\<lambda>u. pprio tcb u \<le> p) xs) \<Longrightarrow> pprio tcb u \<le> p"
  by (auto dest: set_takeWhileD)

lemma prio_sorted_task_ins:
  assumes "prio_sorted tcb xs"
  shows "prio_sorted tcb (task_ins tcb t xs)"
  unfolding task_ins_def
proof (rule sorted_split_ins)
  show "prio_sorted tcb (takeWhile (\<lambda>u. pprio tcb u \<le> pprio tcb t) xs @
      dropWhile (\<lambda>u. pprio tcb u \<le> pprio tcb t) xs)"
    using assms by simp
qed (use prio_sorted_takeWhile prio_sorted_dropWhile [OF assms] in \<open>auto intro: less_imp_le\<close>)

text \<open>
  Inserting a task that is not running keeps the order, also when the running task is out
  of order: its effective priority is then 1, so that only a task of priority 0 stops in
  front of it, and no task behind it has a smaller one.
\<close>

lemma q_sorted_task_ins:
  assumes q: "q_sorted tcb xs" and t: "t_status (tcb t) \<noteq> TASKSTATUS_RUNNING"
  shows "q_sorted tcb (task_ins tcb t xs)"
proof (cases "prio_sorted tcb xs")
  case True
  then have "prio_sorted tcb (task_ins tcb t xs)" by (rule prio_sorted_task_ins)
  then show ?thesis
    by (auto simp: q_sorted_def sorted_filter)
next
  case False
  let ?R = "\<lambda>u. t_status (tcb u) \<noteq> TASKSTATUS_RUNNING"
  let ?P = "\<lambda>u. pprio tcb u \<le> pprio tcb t"
  let ?A = "filter ?R (takeWhile ?P xs)" and ?B = "filter ?R (dropWhile ?P xs)"
  from q False have run: "\<And>u. u \<in> set xs \<Longrightarrow> \<not> ?R u \<Longrightarrow> pprio tcb u = 1"
    and srt: "prio_sorted tcb (filter ?R xs)" by (auto simp: q_sorted_def)
  have AB: "?A @ ?B = filter ?R xs"
    by (metis filter_append takeWhile_dropWhile_id)
  have "pprio tcb t \<le> pprio tcb u" if u: "u \<in> set ?B" for u
  proof (cases "dropWhile ?P xs")
    case Nil
    with u show ?thesis by simp
  next
    case (Cons y ys)
    then have y: "pprio tcb t < pprio tcb y" and "y \<in> set xs"
      using hd_dropWhile [of ?P xs] set_dropWhileD [of y ?P xs] by auto
    show ?thesis
    proof (cases "?R y")
      case True
      then have "?B = y # filter ?R ys" by (simp add: Cons)
      with srt AB u have "pprio tcb y \<le> pprio tcb u"
        by (auto simp: sorted_append simp flip: AB)
      with y show ?thesis by (simp add: less_imp_le)
    next
      case False
      with y run \<open>y \<in> set xs\<close> have "pprio tcb t < 1" by simp
      then show ?thesis by (simp add: word_less_1)
    qed
  qed
  then have "prio_sorted tcb (?A @ t # ?B)"
    by (intro sorted_split_ins [of _ _ _ "pprio tcb t"])
      (use srt AB prio_sorted_takeWhile in auto)
  with t run show ?thesis
    unfolding q_sorted_def by (auto simp: task_ins_def dest: set_takeWhileD set_dropWhileD)
qed

lemma q_sorted_filter:
  assumes "q_sorted tcb xs"
  shows "q_sorted tcb (filter P xs)"
proof -
  let ?R = "\<lambda>u. t_status (tcb u) \<noteq> TASKSTATUS_RUNNING"
  have "filter ?R (filter P xs) = filter P (filter ?R xs)"
    by (simp add: conj_commute)
  with assms show ?thesis
    by (auto simp: q_sorted_def sorted_filter simp del: filter_filter)
qed

lemma q_sorted_cong:
  assumes "\<And>u. u \<in> set xs \<Longrightarrow> tcb' u = tcb u"
  shows "q_sorted tcb' xs = q_sorted tcb xs"
proof -
  have "filter (\<lambda>u. t_status (tcb' u) \<noteq> TASKSTATUS_RUNNING) xs =
      filter (\<lambda>u. t_status (tcb u) \<noteq> TASKSTATUS_RUNNING) xs"
    using assms by (auto intro: filter_cong)
  moreover have "map (pprio tcb') (filter P xs) = map (pprio tcb) (filter P xs)" for P
    using assms by simp
  moreover have "map (pprio tcb') xs = map (pprio tcb) xs"
    using assms by simp
  ultimately show ?thesis
    using assms by (simp only: q_sorted_def) simp
qed

end
