(* ===== verification/Scheduler.thy ===== *)
theory Scheduler
  imports TaskQueue
begin

text \<open>
  The scheduler of \<^verbatim>\<open>mrbgems/picoruby-mruby/src/task.c\<close>: the tick interrupt, creation and
  deletion of tasks, the dispatch loop of \<open>mrb_tasks_run\<close>, the operations that a running task
  performs (sleep, suspend, resume, terminate, join, pass, stop) and the methods of the
  class \<^verbatim>\<open>Task\<close>. \<open>mrb_task_disable_irq\<close> and \<open>mrb_task_enable_irq\<close> bracket the queue updates in the
  code, so that the tick interrupt happens between operations and never inside one; each
  operation is therefore one step of the state.

  The virtual machine, the garbage collector and the idle routine of the board are not in
  this repository: \<open>mrb_vm_exec\<close>, \<open>mrb_incremental_gc\<close> and \<open>hal_idle_cpu\<close> are parameters.
  Task handles (the Ruby objects that wrap a TCB) are identified with the TCB's address.
\<close>

section \<open>The tick interrupt\<close>

definition MRB_TICK_UNIT :: int where "MRB_TICK_UNIT = 4"
definition MRB_TIMESLICE_TICK_COUNT :: u8 where "MRB_TIMESLICE_TICK_COUNT = 3"

definition preempt_running_task :: "mrb_state \<Rightarrow> mrb_state option" where
  "preempt_running_task s = do {
     ready \<leftarrow> q_list s 1;
     Some (if \<exists>t\<in>set ready. status_of s t = TASKSTATUS_RUNNING
           then s\<lparr>m_switching := True\<rparr> else s)
   }"

abbreviation (input) sleeping :: "(tid \<Rightarrow> RTcb) \<Rightarrow> tid \<Rightarrow> bool" where
  "sleeping tcb t \<equiv> t_reason (tcb t) = TASKREASON_SLEEP"

definition make_ready :: "RTcb \<Rightarrow> RTcb" where
  "make_ready c = c\<lparr>t_status := TASKSTATUS_READY, t_reason := TASKREASON_NONE\<rparr>"

text \<open>The loop of \<open>mrb_tick\<close> over the waiting queue; \<open>sw\<close> is the local \<open>task_switch\<close>.\<close>

partial_function (option) tick_scan ::
  "tid option \<Rightarrow> bool \<Rightarrow> mrb_state \<Rightarrow> (mrb_state \<times> bool) option" where
  "tick_scan p sw s =
     (case p of
        None \<Rightarrow> Some (s, sw)
      | Some t \<Rightarrow>
          let nx = m_next s t in
          if \<not> sleeping (m_tcb s) t then tick_scan nx sw s
          else if sdiff32 (t_wakeup_tick (m_tcb s t)) (m_tick s) < 0 then
            do {
              s \<leftarrow> q_delete_task s t;
              s \<leftarrow> q_insert_task (upd_tcb t make_ready s) t;
              tick_scan nx True s
            }
          else if sdiff32 (t_wakeup_tick (m_tcb s t)) (m_wakeup_tick s) < 0 then
            tick_scan nx sw (s\<lparr>m_wakeup_tick := t_wakeup_tick (m_tcb s t)\<rparr>)
          else tick_scan nx sw s)"

text \<open>The time slice of the task at the head of the ready queue.\<close>

definition tick_timeslice :: "mrb_state \<Rightarrow> mrb_state" where
  "tick_timeslice s =
     (case m_queues s 1 of
        None \<Rightarrow> s
      | Some t \<Rightarrow>
          if 0 < t_timeslice (m_tcb s t) then
            let n = t_timeslice (m_tcb s t) - 1;
                s = upd_tcb t (t_timeslice_update (\<lambda>_. n)) s
            in if n = 0 then s\<lparr>m_switching := True\<rparr> else s
          else s)"

definition mrb_tick :: "mrb_state \<Rightarrow> mrb_state option" where
  "mrb_tick s = do {
     let s = s\<lparr>m_tick := m_tick s + 1\<rparr>;
     let s = tick_timeslice s;
     if sdiff32 (m_wakeup_tick s) (m_tick s) < 0 then do {
       let s = s\<lparr>m_wakeup_tick := m_tick s + 65536\<rparr>;
       (s, task_switch) \<leftarrow> tick_scan (m_queues s 2) False s;
       if task_switch then preempt_running_task s else Some s
     } else Some s
   }"

section \<open>Creating and deleting tasks\<close>

text \<open>
  \<open>mrb_calloc\<close> gives a zeroed block at an address chosen by the allocator, the argument
  \<open>addr\<close> (\<open>None\<close> when it fails). A zeroed \<open>mrb_value\<close> is not a string: \<open>VFalse\<close>.
\<close>

definition zero_context :: mrb_context where
  "zero_context = \<lparr>c_stbase = None, c_cibase = None, c_ci = None, c_status = MRB_TASK_CREATED\<rparr>"

definition zero_tcb :: RTcb where
  "zero_tcb = \<lparr>t_priority = 0, t_priority_preemption = 0, t_timeslice = 0, t_status = 0,
     t_reason = 0, t_name = VFalse, t_wakeup_tick = 0, t_tcb_join = None,
     t_flag_permanence = 0, t_context_id = 0, t_task = VFalse, t_value = VFalse,
     t_c = zero_context\<rparr>"

definition mrb_tcb_new ::
  "tid option \<Rightarrow> u8 \<Rightarrow> int \<Rightarrow> mrb_state \<Rightarrow> tid option \<times> mrb_state" where
  "mrb_tcb_new addr task_status prio s =
     (case addr of
        None \<Rightarrow> (None, s)
      | Some t \<Rightarrow>
          let cid = m_context_id s + 1
          in (Some t, s\<lparr>m_context_id := cid, m_next := (m_next s)(t := None),
                m_tcb := (m_tcb s)(t := zero_tcb\<lparr>t_priority := word_of_int prio,
                  t_priority_preemption := word_of_int prio, t_status := task_status,
                  t_context_id := cid\<rparr>)\<rparr>))"

definition cleanup_context :: "mrb_context \<Rightarrow> mrb_context" where
  "cleanup_context c = c\<lparr>c_stbase := None, c_cibase := None\<rparr>"

definition ci_zero :: mrb_callinfo where
  "ci_zero = \<lparr>ci_proc = None, ci_u = U_NULL, ci_stack = False\<rparr>"

abbreviation upd_ctx :: "tid \<Rightarrow> (mrb_context \<Rightarrow> mrb_context) \<Rightarrow> mrb_state \<Rightarrow> mrb_state" where
  "upd_ctx t f s \<equiv> upd_tcb t (\<lambda>c. c\<lparr>t_c := f (t_c c)\<rparr>) s"

text \<open>
  Resetting a context writes the target class of its first call info; a context without
  call infos (\<open>cibase\<close> null) is a null pointer write.
\<close>

definition mrb_task_reset_context :: "tid \<Rightarrow> mrb_state \<Rightarrow> mrb_state option" where
  "mrb_task_reset_context t s =
     (case c_cibase (t_c (m_tcb s t)) of
        Some (ci # cis) \<Rightarrow>
          Some (upd_ctx t (\<lambda>c. c\<lparr>c_ci := Some 0, c_status := MRB_TASK_CREATED,
            c_cibase := Some (ci\<lparr>ci_u := U_CLASS (m_object_class s)\<rparr> # cis)\<rparr>) s)
      | _ \<Rightarrow> None)"

text \<open>
  The memory of the call infos is not initialised by \<open>mrb_malloc\<close>; the first one is written
  below, the others before they are read.
\<close>

definition TASK_STACK_INIT_SIZE :: nat where "TASK_STACK_INIT_SIZE = 64"
definition TASK_CI_INIT_SIZE :: nat where "TASK_CI_INIT_SIZE = 8"

definition mrb_task_init_context ::
  "tid \<Rightarrow> RProc \<Rightarrow> mrb_state \<Rightarrow> (rb_error option \<times> mrb_state) option" where
  "mrb_task_init_context t proc s = do {
     let s = upd_ctx t cleanup_context s;
     if TASK_STACK_INIT_SIZE < p_nregs proc \<and> 1024 < p_nregs proc
     then Some (Some (RuntimeError ''Task stack size too large''), s)
     else do {
       let slen = TASK_STACK_INIT_SIZE +
         (if TASK_STACK_INIT_SIZE < p_nregs proc then p_nregs proc else 0);
       let s = upd_ctx t (\<lambda>c. c\<lparr>
         c_stbase := Some (m_top_self s # replicate (slen - 1) VNil),
         c_cibase := Some (replicate TASK_CI_INIT_SIZE ci_zero)\<rparr>) s;
       s \<leftarrow> mrb_task_reset_context t s;
       let ci = ci_zero\<lparr>ci_u := U_CLASS (m_object_class s), ci_proc := Some proc, ci_stack := True\<rparr>;
       Some (None, upd_ctx t (\<lambda>c. c\<lparr>c_cibase := map_option (\<lambda>cis. cis[0 := ci]) (c_cibase c)\<rparr>) s)
     }
   }"

definition mrb_task_proc_set :: "tid \<Rightarrow> RProc \<Rightarrow> mrb_state \<Rightarrow> mrb_state option" where
  "mrb_task_proc_set t proc s =
     (case (c_cibase (t_c (m_tcb s t)), c_ci (t_c (m_tcb s t))) of
        (Some cis, Some i) \<Rightarrow>
          if i < length cis then
            let cis = (case ci_u (cis ! 0) of
                  U_ENV n \<Rightarrow> if n < p_nlocals proc
                    then cis[0 := (cis ! 0)\<lparr>ci_u := U_ENV (p_nlocals proc)\<rparr>] else cis
                | _ \<Rightarrow> cis)
            in Some (upd_ctx t (\<lambda>c. c\<lparr>c_cibase := Some (cis[i := (cis ! i)\<lparr>ci_proc := Some proc\<rparr>])\<rparr>) s)
          else None
      | _ \<Rightarrow> None)"

definition TASK_LIST_UNIT_SIZE :: nat where "TASK_LIST_UNIT_SIZE = 5"
definition TASK_LIST_MAX_SIZE :: nat where "TASK_LIST_MAX_SIZE = 100"
definition MRB_TASK_DEFAULT_PRIORITY :: int where "MRB_TASK_DEFAULT_PRIORITY = 128"

text \<open>
  Growing the context list; \<open>list_ok\<close> tells whether the allocation of the list succeeds.
\<close>

definition c_list_add :: "bool \<Rightarrow> tid \<Rightarrow> mrb_state \<Rightarrow> rb_error option \<times> mrb_state" where
  "c_list_add list_ok t s =
     (if m_c_list_capa s = 0 then
        if \<not> list_ok then (Some (RuntimeError ''Failed to allocate context list''), s)
        else (None, s\<lparr>m_c_list := [None, Some t], m_c_list_capa := TASK_LIST_UNIT_SIZE\<rparr>)
      else if m_c_list_capa s \<le> length (m_c_list s) then
        let new_capa = m_c_list_capa s + TASK_LIST_UNIT_SIZE;
            s = (if TASK_LIST_MAX_SIZE < new_capa
                 then s\<lparr>m_warnings := m_warnings s @ [''Too many tasks'']\<rparr> else s)
        in if \<not> list_ok then (Some (RuntimeError ''Failed to reallocate context list''), s)
           else (None, s\<lparr>m_c_list := m_c_list s @ [Some t], m_c_list_capa := new_capa\<rparr>)
      else (None, s\<lparr>m_c_list := m_c_list s @ [Some t]\<rparr>))"

text \<open>
  \<open>prio\<close> is the Ruby argument: nil selects the default, an Integer is truncated to eight
  bits when it is stored, anything else raises.
\<close>

definition mrb_create_task ::
  "tid option \<Rightarrow> bool \<Rightarrow> RProc \<Rightarrow> mrb_value \<Rightarrow> mrb_value \<Rightarrow> mrb_value \<Rightarrow> mrb_state \<Rightarrow>
   (mrb_value rb_result \<times> mrb_state) option" where
  "mrb_create_task addr list_ok proc name prio top_self s =
     (case (case prio of VNil \<Rightarrow> Inr MRB_TASK_DEFAULT_PRIORITY | VInt i \<Rightarrow> Inr i
            | _ \<Rightarrow> Inl (TypeError ''priority must be an Integer'')) of
        Inl e \<Rightarrow> Some (Inl e, s)
      | Inr p \<Rightarrow>
          (case mrb_tcb_new addr TASKSTATUS_READY p s of
             (None, s) \<Rightarrow> None
           | (Some t, s) \<Rightarrow> do {
               let nm = (if name = VNil then VStr (map (\<lambda>c. of_nat (of_char c)) ''(noname)'') else name);
               let s = s\<lparr>m_iv_name := (m_iv_name s)(t := nm)\<rparr>;
               (err, s) \<leftarrow> mrb_task_init_context t proc s;
               case err of
                 Some e \<Rightarrow> Some (Inl e, s)
               | None \<Rightarrow> do {
                   let s = upd_tcb t (t_task_update (\<lambda>_. VObj t)) s;
                   let s = (if top_self = VNil then s else
                     upd_ctx t (\<lambda>c. c\<lparr>c_stbase := map_option (\<lambda>st. st[0 := top_self]) (c_stbase c)\<rparr>) s);
                   case c_list_add list_ok t s of
                     (Some e, s) \<Rightarrow> Some (Inl e, s)
                   | (None, s) \<Rightarrow> do {
                       s \<leftarrow> q_insert_task s t;
                       s \<leftarrow> (if status_of s t AND TASKSTATUS_READY \<noteq> 0
                             then preempt_running_task s else Some s);
                       Some (Inr (VObj t), s)
                     }
                 }
             }))"

definition mrb_delete_task :: "tid \<Rightarrow> mrb_state \<Rightarrow> (bool \<times> mrb_state) option" where
  "mrb_delete_task t s =
     (if status_of s t \<noteq> TASKSTATUS_DORMANT then Some (False, s)
      else do { s \<leftarrow> q_delete_task s t; Some (True, s) })"

section \<open>The dispatch loop\<close>

text \<open>Before the VM runs: the task at the head of the ready queue becomes the running one.\<close>

definition tasks_dispatch :: "tid \<Rightarrow> mrb_state \<Rightarrow> mrb_state" where
  "tasks_dispatch t s =
     (upd_tcb t (\<lambda>c. c\<lparr>t_status := TASKSTATUS_RUNNING,
        t_timeslice := MRB_TIMESLICE_TICK_COUNT\<rparr>) s)\<lparr>m_c := Some t\<rparr>"

text \<open>After the VM has returned the value \<open>v\<close>: record the result, clear the switching flag.\<close>

definition tasks_record :: "tid \<Rightarrow> mrb_value \<Rightarrow> mrb_state \<Rightarrow> mrb_state" where
  "tasks_record t v s =
     (let s = upd_tcb t (t_value_update (\<lambda>_. v)) s;
          s = (case m_exc s of
                 None \<Rightarrow> s
               | Some e \<Rightarrow> upd_ctx t (c_status_update (\<lambda>_. MRB_TASK_STOPPED))
                   (upd_tcb t (t_value_update (\<lambda>_. e)) s))
      in s\<lparr>m_switching := False\<rparr>)"

text \<open>The task is done: it becomes dormant, and the tasks that joined it wake up.\<close>

partial_function (option) join_scan :: "tid option \<Rightarrow> tid \<Rightarrow> mrb_state \<Rightarrow> mrb_state option" where
  "join_scan p t s =
     (case p of
        None \<Rightarrow> Some s
      | Some u \<Rightarrow>
          let nx = m_next s u in
          if t_reason (m_tcb s u) = TASKREASON_JOIN \<and> t_tcb_join (m_tcb s u) = Some t then
            do {
              s \<leftarrow> q_delete_task s u;
              s \<leftarrow> q_insert_task (upd_tcb u make_ready s) u;
              join_scan nx t s
            }
          else join_scan nx t s)"

definition join_suspended :: "tid \<Rightarrow> mrb_state \<Rightarrow> mrb_state option" where
  "join_suspended t s = do {
     us \<leftarrow> q_list s 3;
     Some (s\<lparr>m_tcb := (\<lambda>u. if u \<in> set us \<and> t_reason (m_tcb s u) = TASKREASON_JOIN
                \<and> t_tcb_join (m_tcb s u) = Some t
              then (m_tcb s u)\<lparr>t_reason := TASKREASON_NONE\<rparr> else m_tcb s u)\<rparr>)
   }"

definition tasks_finish :: "tid \<Rightarrow> mrb_state \<Rightarrow> mrb_state option" where
  "tasks_finish t s = do {
     s \<leftarrow> q_delete_task s t;
     s \<leftarrow> q_insert_task (upd_tcb t (t_status_update (\<lambda>_. TASKSTATUS_DORMANT)) s) t;
     s \<leftarrow> join_scan (m_queues s 2) t s;
     join_suspended t s
   }"

definition MAX_GC_STEPS_PER_TICK :: nat where "MAX_GC_STEPS_PER_TICK = 5"

fun gc_steps :: "(mrb_state \<Rightarrow> mrb_state) \<Rightarrow> nat \<Rightarrow> mrb_state \<Rightarrow> mrb_state" where
  "gc_steps mrb_incremental_gc 0 s = s"
| "gc_steps mrb_incremental_gc (Suc n) s =
     (if m_gc_idle s then s else gc_steps mrb_incremental_gc n (mrb_incremental_gc s))"

text \<open>A task that used up its slice goes behind the tasks of its priority.\<close>

definition tasks_switch :: "tid \<Rightarrow> mrb_state \<Rightarrow> mrb_state option" where
  "tasks_switch t s =
     (if status_of s t = TASKSTATUS_RUNNING then do {
        let s = upd_tcb t (t_status_update (\<lambda>_. TASKSTATUS_READY)) s;
        s \<leftarrow> q_delete_task s t;
        q_insert_task s t
      } else Some s)"

definition all_queues_empty :: "mrb_state \<Rightarrow> bool" where
  "all_queues_empty s \<longleftrightarrow> m_queues s 1 = None \<and> m_queues s 2 = None \<and> m_queues s 3 = None"

text \<open>
  One round of \<open>mrb_tasks_run\<close> (with \<open>MRB_SCHEDULER_EXIT\<close>, the default of \<^verbatim>\<open>hal.h\<close>): the
  returned value is \<open>Some ret\<close> when the loop ends after this round. \<open>ret\<close> is the local
  variable of the same name.
\<close>

definition tasks_round ::
  "(mrb_state \<Rightarrow> mrb_state \<times> mrb_value) \<Rightarrow> (mrb_state \<Rightarrow> mrb_state) \<Rightarrow> (mrb_state \<Rightarrow> mrb_state)
   \<Rightarrow> mrb_value \<Rightarrow> mrb_state \<Rightarrow> (bool \<times> mrb_value \<times> mrb_state) option" where
  "tasks_round mrb_vm_exec mrb_incremental_gc hal_idle_cpu ret s =
     (case m_queues s 1 of
        None \<Rightarrow> Some (False, ret, hal_idle_cpu s)
      | Some t \<Rightarrow>
          let (s, v) = mrb_vm_exec (tasks_dispatch t s);
              s = tasks_record t v s
          in if c_status (t_c (m_tcb s t)) = MRB_TASK_STOPPED then do {
               s \<leftarrow> tasks_finish t s;
               let ret = (case m_exc s of Some e \<Rightarrow> e | None \<Rightarrow> ret);
               Some (all_queues_empty s, ret, s)
             }
             else do {
               let s = gc_steps mrb_incremental_gc MAX_GC_STEPS_PER_TICK s;
               s \<leftarrow> tasks_switch t s;
               Some (False, ret, s)
             })"

partial_function (option) tasks_loop ::
  "(mrb_state \<Rightarrow> mrb_state \<times> mrb_value) \<Rightarrow> (mrb_state \<Rightarrow> mrb_state) \<Rightarrow> (mrb_state \<Rightarrow> mrb_state)
   \<Rightarrow> mrb_value \<Rightarrow> mrb_state \<Rightarrow> (mrb_value \<times> mrb_state) option" where
  "tasks_loop vm gc idle ret s = do {
     (stop, ret, s) \<leftarrow> tasks_round vm gc idle ret s;
     if stop then Some (ret, s) else tasks_loop vm gc idle ret s
   }"

definition mrb_tasks_run ::
  "(mrb_state \<Rightarrow> mrb_state \<times> mrb_value) \<Rightarrow> (mrb_state \<Rightarrow> mrb_state) \<Rightarrow> (mrb_state \<Rightarrow> mrb_state)
   \<Rightarrow> mrb_state \<Rightarrow> (mrb_value \<times> mrb_state) option" where
  "mrb_tasks_run vm gc idle s =
     (if all_queues_empty s then Some (VNil, s) else tasks_loop vm gc idle VNil s)"

section \<open>Operations on tasks\<close>

text \<open>The tick at which a sleep of \<open>ms\<close> milliseconds that starts at tick \<open>now\<close> is over.\<close>

definition wakeup_after :: "u32 \<Rightarrow> int \<Rightarrow> u32" where
  "wakeup_after now ms = word_of_int (uint now + c_div ms MRB_TICK_UNIT +
     (if c_mod ms MRB_TICK_UNIT \<noteq> 0 then 1 else 0))"

text \<open>\<open>sleep_ms_impl\<close> acts on the task at the head of the ready queue.\<close>

definition sleep_ms_impl :: "int \<Rightarrow> mrb_state \<Rightarrow> mrb_state option" where
  "sleep_ms_impl ms s =
     (case m_queues s 1 of
        None \<Rightarrow> None
      | Some t \<Rightarrow> do {
          s \<leftarrow> q_delete_task s t;
          let w = wakeup_after (m_tick s) ms;
          let s = upd_tcb t (\<lambda>c. c\<lparr>t_status := TASKSTATUS_WAITING,
            t_reason := TASKREASON_SLEEP, t_wakeup_tick := w\<rparr>) s;
          let s = (if sdiff32 w (m_wakeup_tick s) < 0 then s\<lparr>m_wakeup_tick := w\<rparr> else s);
          s \<leftarrow> q_insert_task s t;
          Some (s\<lparr>m_switching := True\<rparr>)
        })"

definition mrb_suspend_task :: "tid \<Rightarrow> mrb_state \<Rightarrow> mrb_state option" where
  "mrb_suspend_task t s =
     (if status_of s t = TASKSTATUS_SUSPENDED then Some s
      else do {
        s \<leftarrow> q_delete_task s t;
        s \<leftarrow> q_insert_task (upd_tcb t (t_status_update (\<lambda>_. TASKSTATUS_SUSPENDED)) s) t;
        Some (s\<lparr>m_switching := True\<rparr>)
      })"

definition mrb_resume_task :: "tid \<Rightarrow> mrb_state \<Rightarrow> mrb_state option" where
  "mrb_resume_task t s =
     (if status_of s t \<noteq> TASKSTATUS_SUSPENDED then Some s
      else do {
        let to_ready = (t_reason (m_tcb s t) = 0);
        s \<leftarrow> (if to_ready then preempt_running_task s else Some s);
        s \<leftarrow> q_delete_task s t;
        let st = (if to_ready then TASKSTATUS_READY else TASKSTATUS_WAITING);
        s \<leftarrow> q_insert_task (upd_tcb t (t_status_update (\<lambda>_. st)) s) t;
        Some (if t_reason (m_tcb s t) AND TASKREASON_SLEEP \<noteq> 0 \<and>
                 sdiff32 (t_wakeup_tick (m_tcb s t)) (m_wakeup_tick s) < 0
              then s\<lparr>m_wakeup_tick := t_wakeup_tick (m_tcb s t)\<rparr> else s)
      })"

definition mrb_terminate_task :: "tid \<Rightarrow> mrb_state \<Rightarrow> mrb_state option" where
  "mrb_terminate_task t s =
     (if status_of s t = TASKSTATUS_DORMANT then Some s
      else do {
        s \<leftarrow> q_delete_task s t;
        q_insert_task (upd_tcb t (t_status_update (\<lambda>_. TASKSTATUS_DORMANT)) s) t
      })"

definition mrb_stop_task :: "tid \<Rightarrow> mrb_state \<Rightarrow> bool \<times> mrb_state" where
  "mrb_stop_task t s =
     (if c_status (t_c (m_tcb s t)) = MRB_TASK_STOPPED then (False, s)
      else (True, upd_ctx t (c_status_update (\<lambda>_. MRB_TASK_STOPPED)) s))"

section \<open>Methods\<close>

text \<open>
  \<open>sleep\<close>: without an argument the head of the ready queue is suspended until it is
  resumed. A float argument is converted to milliseconds by the platform's floating-point
  arithmetic, the parameter \<open>float_ms\<close> for \<^verbatim>\<open>(mrb_int)(mrb_float(sec) * 1000)\<close>.
\<close>

definition mrb_sleep ::
  "(u64 \<Rightarrow> int) \<Rightarrow> mrb_value option \<Rightarrow> mrb_state \<Rightarrow> (mrb_value rb_result \<times> mrb_state) option" where
  "mrb_sleep float_ms arg s =
     (case arg of
        None \<Rightarrow>
          (case m_queues s 1 of
             None \<Rightarrow> None
           | Some t \<Rightarrow> do { s \<leftarrow> mrb_suspend_task t s; Some (Inr VNil, s) })
      | Some (VInt n) \<Rightarrow> do { s \<leftarrow> sleep_ms_impl (n * 1000) s; Some (Inr (VInt n), s) }
      | Some (VFloat f) \<Rightarrow> do { s \<leftarrow> sleep_ms_impl (float_ms f) s; Some (Inr (VFloat f), s) }
      | Some v \<Rightarrow> Some (Inl (TypeError ''integer or float required but %S''), s))"

definition mrb_sleep_ms :: "mrb_value \<Rightarrow> mrb_state \<Rightarrow> (mrb_value rb_result \<times> mrb_state) option" where
  "mrb_sleep_ms ms s =
     (case ms of
        VInt n \<Rightarrow> do { s \<leftarrow> sleep_ms_impl n s; Some (Inr ms, s) }
      | _ \<Rightarrow> Some (Inl (TypeError ''integer required but %S''), s))"

text \<open>
  \<open>Task.new\<close>: \<open>name\<close> and \<open>priority\<close> are keyword arguments, \<open>None\<close> when not given.
\<close>

definition mrb_task_s_new ::
  "tid option \<Rightarrow> bool \<Rightarrow> RProc \<Rightarrow> mrb_value option \<Rightarrow> mrb_value option \<Rightarrow> mrb_value \<Rightarrow> mrb_state
   \<Rightarrow> (mrb_value rb_result \<times> mrb_state) option" where
  "mrb_task_s_new addr list_ok proc name prio object_class s =
     mrb_create_task addr list_ok proc
       (case name of None \<Rightarrow> VNil | Some v \<Rightarrow> v) (case prio of None \<Rightarrow> VNil | Some v \<Rightarrow> v)
       object_class s"

definition all_tasks :: "mrb_state \<Rightarrow> tid list option" where
  "all_tasks s = do {
     q0 \<leftarrow> q_list s 0; q1 \<leftarrow> q_list s 1; q2 \<leftarrow> q_list s 2; q3 \<leftarrow> q_list s 3;
     Some (q0 @ q1 @ q2 @ q3)
   }"

definition mrb_task_s_list :: "mrb_state \<Rightarrow> mrb_value option" where
  "mrb_task_s_list s = do { ts \<leftarrow> all_tasks s; Some (VArray (map (\<lambda>t. t_task (m_tcb s t)) ts)) }"

definition mrb_task_s_pass :: "mrb_state \<Rightarrow> mrb_state option" where
  "mrb_task_s_pass s =
     (case m_c s of
        None \<Rightarrow> None
      | Some t \<Rightarrow> Some (upd_tcb t (\<lambda>c. c\<lparr>t_timeslice := 0, t_priority_preemption := 1\<rparr>) s))"

definition mrb_task_s_current :: "mrb_state \<Rightarrow> mrb_value option" where
  "mrb_task_s_current s = map_option (\<lambda>t. t_task (m_tcb s t)) (m_c s)"

text \<open>
  \<open>Task.get\<close> compares the argument with the TCB's \<open>name\<close> field. Comparing with a value
  that is not a string reads a string header that is not there: \<open>None\<close>.
\<close>

fun task_get_scan :: "(tid \<Rightarrow> RTcb) \<Rightarrow> bytes \<Rightarrow> tid list \<Rightarrow> mrb_value option" where
  "task_get_scan tcb name [] = Some VNil"
| "task_get_scan tcb name (t # ts) =
     (case t_name (tcb t) of
        VStr n \<Rightarrow> if n = name then Some (t_task (tcb t)) else task_get_scan tcb name ts
      | _ \<Rightarrow> None)"

definition mrb_task_s_get :: "bytes \<Rightarrow> mrb_state \<Rightarrow> mrb_value option" where
  "mrb_task_s_get name s = do { ts \<leftarrow> all_tasks s; task_get_scan (m_tcb s) name ts }"

definition mrb_task_value :: "tid \<Rightarrow> mrb_state \<Rightarrow> mrb_value" where
  "mrb_task_value t s = t_value (m_tcb s t)"

definition status_name :: "u8 \<Rightarrow> string" where
  "status_name st =
     (if st = TASKSTATUS_RUNNING then ''RUNNING''
      else if st = TASKSTATUS_READY then ''READY''
      else if st = TASKSTATUS_WAITING then ''WAITING''
      else if st = TASKSTATUS_SUSPENDED then ''SUSPENDED''
      else if st = TASKSTATUS_DORMANT then ''DORMANT''
      else ''UNKNOWN'')"

definition mrb_task_status :: "tid \<Rightarrow> mrb_state \<Rightarrow> mrb_value" where
  "mrb_task_status t s = VSym (status_name (status_of s t))"

text \<open>
  \<open>inspect\<close> prints into a buffer of 64 bytes: \<open>None\<close> when the text and its terminator do
  not fit. \<open>ptr_text\<close> is the C library's rendering of the TCB's address.
\<close>

definition mrb_task_inspect :: "(tid \<Rightarrow> string) \<Rightarrow> tid \<Rightarrow> string \<Rightarrow> mrb_state \<Rightarrow> string option" where
  "mrb_task_inspect ptr_text t name s =
     (let txt = ''#<Task:'' @ ptr_text t @ '' '' @ name @ '':'' @ status_name (status_of s t) @ ''>''
      in if length txt < 64 then Some txt else None)"

definition mrb_task_priority :: "tid \<Rightarrow> mrb_state \<Rightarrow> mrb_value" where
  "mrb_task_priority t s = VInt (uint (t_priority (m_tcb s t)))"

definition mrb_task_priority_set :: "tid \<Rightarrow> int \<Rightarrow> mrb_state \<Rightarrow> mrb_value \<times> mrb_state" where
  "mrb_task_priority_set t n s =
     (let s = upd_tcb t (t_priority_update (\<lambda>_. word_of_int n)) s
      in (VInt (uint (t_priority (m_tcb s t))), s))"

definition mrb_task_join :: "tid \<Rightarrow> mrb_state \<Rightarrow> (unit rb_result \<times> mrb_state) option" where
  "mrb_task_join t s =
     (case m_c s of
        None \<Rightarrow> None
      | Some cur \<Rightarrow>
          if t = cur then Some (Inl (RuntimeError ''Cannot join to self''), s)
          else if status_of s t = TASKSTATUS_DORMANT then Some (Inr (), s)
          else do {
            s \<leftarrow> q_delete_task s cur;
            s \<leftarrow> q_insert_task (upd_tcb cur (\<lambda>c. c\<lparr>t_status := TASKSTATUS_WAITING,
              t_reason := TASKREASON_JOIN, t_tcb_join := Some t\<rparr>) s) cur;
            Some (Inr (), s\<lparr>m_switching := True\<rparr>)
          })"

text \<open>
  \<open>Task.stat\<close>: one hash per task. \<open>ctx_off\<close> is the offset of the field \<open>c\<close> in a TCB; pointers
  are truncated to 32 bits.
\<close>

definition reason_name :: "u8 \<Rightarrow> string" where
  "reason_name r =
     (if r = TASKREASON_NONE then ''NONE'' else if r = TASKREASON_SLEEP then ''SLEEP''
      else if r = TASKREASON_JOIN then ''JOIN'' else if r = TASKREASON_MUTEX then ''MUTEX''
      else ''UNKNOWN'')"

definition ptr32 :: "nat \<Rightarrow> mrb_value" where
  "ptr32 p = VInt (uint (of_nat p :: u32))"

definition task_stat :: "nat \<Rightarrow> mrb_state \<Rightarrow> tid \<Rightarrow> mrb_value" where
  "task_stat ctx_off s t = (let c = m_tcb s t in VHash
     [(VSym ''c_id'', VInt (uint (t_context_id c))),
      (VSym ''c_ptr'', ptr32 (t + ctx_off)),
      (VSym ''c_status'', VSym (case c_status (t_c c) of
         MRB_TASK_CREATED \<Rightarrow> ''CREATED'' | MRB_TASK_STOPPED \<Rightarrow> ''STOPPED'' | _ \<Rightarrow> ''UNKNOWN'')),
      (VSym ''ptr'', ptr32 t),
      (VSym ''name'', t_name c),
      (VSym ''priority'', VInt (uint (t_priority_preemption c))),
      (VSym ''status'', VSym (status_name (t_status c))),
      (VSym ''reason'', VSym (reason_name (t_reason c))),
      (VSym ''timeslice'', VInt (uint (t_timeslice c))),
      (VSym ''wakeup_tick'', VInt (uint (t_wakeup_tick c)))])"

definition mrb_stat_sub :: "nat \<Rightarrow> mrb_state \<Rightarrow> nat \<Rightarrow> mrb_value option" where
  "mrb_stat_sub ctx_off s i = do { ts \<leftarrow> q_list s i; Some (VArray (map (task_stat ctx_off s) ts)) }"

definition mrb_task_s_stat :: "nat \<Rightarrow> mrb_state \<Rightarrow> mrb_value option" where
  "mrb_task_s_stat ctx_off s = do {
     dormant \<leftarrow> mrb_stat_sub ctx_off s 0;
     ready \<leftarrow> mrb_stat_sub ctx_off s 1;
     waiting \<leftarrow> mrb_stat_sub ctx_off s 2;
     suspended \<leftarrow> mrb_stat_sub ctx_off s 3;
     Some (VHash
       [(VSym ''tick'', VInt (uint (m_tick s))),
        (VSym ''wakeup_tick'', VInt (uint (m_wakeup_tick s))),
        (VSym ''dormant'', dormant), (VSym ''ready'', ready),
        (VSym ''waiting'', waiting), (VSym ''suspended'', suspended)])
   }"

text \<open>The state after \<open>mrb_picoruby_mruby_gem_init\<close>, on an \<open>mrb_state\<close> that holds no task.\<close>

definition scheduler_init :: "mrb_state \<Rightarrow> mrb_state" where
  "scheduler_init s = s\<lparr>m_queues := (\<lambda>i. if i < 4 then None else m_queues s i),
     m_switching := False, m_wakeup_tick := 65536, m_tick := 0\<rparr>"

end
