(* ===== verification/SchedInv.thy ===== *)
theory SchedInv
  imports Scheduler
begin

text \<open>
  The invariant of the scheduler and its preservation, one lemma per operation. \<open>sched_invp pr s Q\<close>
  says that the links of \<open>s\<close> represent the queues \<open>Q\<close>, that only the task of the current
  context is running, and that the reason of a task fits its queue: a ready or running task
  waits for nothing, a waiting task sleeps or joins. When \<open>pr\<close> holds it says besides that the
  ready, the waiting and the suspended queue are in order; \<open>pr\<close> is a parameter because
  \<open>Task.pass\<close> changes the priority of a task in place and keeps the order only when the task
  is running or dormant. The dormant queue, of which nothing depends on the order, is left
  out. \<open>sched_inv\<close> is the full invariant.
\<close>

section \<open>The invariant\<close>

definition reason_ok :: "nat \<Rightarrow> RTcb \<Rightarrow> bool" where
  "reason_ok i c \<longleftrightarrow> t_reason c \<in> {TASKREASON_NONE, TASKREASON_SLEEP, TASKREASON_JOIN} \<and>
     (i = 1 \<longrightarrow> t_reason c = TASKREASON_NONE) \<and> (i = 2 \<longrightarrow> t_reason c \<noteq> TASKREASON_NONE)"

definition sched_invp :: "bool \<Rightarrow> mrb_state \<Rightarrow> (nat \<Rightarrow> tid list) \<Rightarrow> bool" where
  "sched_invp pr s Q \<longleftrightarrow> rep s Q \<and>
     (pr \<longrightarrow> (\<forall>i<4. 0 < i \<longrightarrow> q_sorted (m_tcb s) (Q i))) \<and>
     (\<forall>t. queued Q t \<longrightarrow> status_of s t = TASKSTATUS_RUNNING \<longrightarrow> m_c s = Some t) \<and>
     (\<forall>i<4. \<forall>t\<in>set (Q i). reason_ok i (m_tcb s t))"

abbreviation sched_inv :: "mrb_state \<Rightarrow> (nat \<Rightarrow> tid list) \<Rightarrow> bool" where
  "sched_inv \<equiv> sched_invp True"

lemma sched_invI:
  assumes "rep s Q" "\<And>i. i < 4 \<Longrightarrow> 0 < i \<Longrightarrow> pr \<Longrightarrow> q_sorted (m_tcb s) (Q i)"
    and "\<And>t. queued Q t \<Longrightarrow> status_of s t = TASKSTATUS_RUNNING \<Longrightarrow> m_c s = Some t"
    and "\<And>i t. i < 4 \<Longrightarrow> t \<in> set (Q i) \<Longrightarrow> reason_ok i (m_tcb s t)"
  shows "sched_invp pr s Q"
  using assms by (simp add: sched_invp_def)

lemma sched_invD:
  assumes "sched_invp pr s Q"
  shows "rep s Q" "i < 4 \<Longrightarrow> 0 < i \<Longrightarrow> pr \<Longrightarrow> q_sorted (m_tcb s) (Q i)"
    "queued Q t \<Longrightarrow> status_of s t = TASKSTATUS_RUNNING \<Longrightarrow> m_c s = Some t"
    "i < 4 \<Longrightarrow> t \<in> set (Q i) \<Longrightarrow> reason_ok i (m_tcb s t)"
  using assms by (simp_all add: sched_invp_def)

lemma sched_inv_q_list: "sched_invp pr s Q \<Longrightarrow> i < 4 \<Longrightarrow> q_list s i = Some (Q i)"
  by (simp add: sched_invD rep_q_list)

lemma sched_inv_cong:
  fixes s s' :: mrb_state
  assumes "m_tcb s' = m_tcb s" "m_next s' = m_next s" "m_queues s' = m_queues s" "m_c s' = m_c s"
  shows "sched_invp pr s' Q = sched_invp pr s Q"
  using assms rep_cong [of s' s] by (simp add: sched_invp_def)

lemma sched_inv_head: "sched_invp pr s Q \<Longrightarrow> m_queues s 1 = (case Q 1 of [] \<Rightarrow> None | t # _ \<Rightarrow> Some t)"
  using repD(1) [OF sched_invD(1), of pr s Q 1] by (cases "Q 1") auto

text \<open>Changing fields of a task that neither order, status nor reason depends on.\<close>

lemma sched_inv_upd_field:
  assumes inv: "sched_invp pr s Q"
    and tcb: "m_tcb s' = (m_tcb s)(t := c)" "m_next s' = m_next s" "m_queues s' = m_queues s"
      "m_c s' = m_c s"
    and c: "t_status c = status_of s t" "t_priority_preemption c = pprio (m_tcb s) t"
      "t_reason c = t_reason (m_tcb s t)"
  shows "sched_invp pr s' Q"
proof (rule sched_invI)
  show "rep s' Q"
    by (rule rep_upd_tcb [OF sched_invD(1) [OF inv] tcb(1-3)]) (simp add: c)
  have st: "t_status (m_tcb s' u) = status_of s u" and pp: "pprio (m_tcb s') u = pprio (m_tcb s) u" for u
    using tcb(1) c by auto
  show "q_sorted (m_tcb s') (Q i)" if "i < 4" "0 < i" pr for i
    using sched_invD(2) [OF inv that] by (simp add: q_sorted_def st pp)
  show "m_c s' = Some u" if "queued Q u" "status_of s' u = TASKSTATUS_RUNNING" for u
    using sched_invD(3) [OF inv] that st tcb(4) by simp
  show "reason_ok i (m_tcb s' u)" if "i < 4" "u \<in> set (Q i)" for i u
    using sched_invD(4) [OF inv that] tcb(1) c by (auto simp: reason_ok_def)
qed

section \<open>Moving a task\<close>

lemma requeue_sorted:
  assumes inv: "sched_invp pr s Q" and k: "k < 4" "0 < k" pr and c: "t_status c \<noteq> TASKSTATUS_RUNNING"
    and t: "\<And>k. k < 4 \<Longrightarrow> k \<noteq> i \<Longrightarrow> t \<notin> set (Q k)" and i: "i < 4" and j: "j < 4"
  shows "q_sorted ((m_tcb s)(t := c)) (requeue ((m_tcb s)(t := c)) t i j Q k)"
proof -
  let ?tcb = "(m_tcb s)(t := c)" and ?Q = "Q(i := filter (\<lambda>u. u \<noteq> t) (Q i))"
  have srt: "q_sorted ?tcb (?Q l)" if "l < 4" "0 < l" for l
  proof -
    have "q_sorted (m_tcb s) (?Q l)"
      using sched_invD(2) [OF inv that k(3)] by (auto intro: q_sorted_filter)
    moreover have "t \<notin> set (?Q l)"
      using t [OF that(1)] by auto
    ultimately show ?thesis
      by (subst q_sorted_cong [of _ _ "m_tcb s"]) auto
  qed
  show ?thesis
    using srt [OF k(1,2)] c k(2) by (cases "k = j") (auto simp: requeue_def Let_def intro!: q_sorted_task_ins)
qed

lemma requeue_inv:
  assumes inv: "sched_invp pr s Q" and q: "queued Q t" and i: "q_index (status_of s t) = Some i"
    and j: "q_index (t_status c) = Some j" and c: "t_status c \<noteq> TASKSTATUS_RUNNING" "reason_ok j c"
    and s': "m_tcb s' = (m_tcb s)(t := c)" "m_c s' = m_c s"
    and r: "rep s' (requeue ((m_tcb s)(t := c)) t i j Q)"
  shows "sched_invp pr s' (requeue ((m_tcb s)(t := c)) t i j Q)"
proof (rule sched_invI [OF r])
  have ij: "i < 4" "j < 4" using i j by (auto dest: q_index_less)
  have ti: "t \<in> set (Q i)" using rep_queued_index sched_invD(1) inv q i by blast
  have t: "t \<notin> set (Q k)" if "k < 4" "k \<noteq> i" for k
    using rep_disjoint [OF sched_invD(1) [OF inv]] ij ti that by blast
  show "q_sorted (m_tcb s') (requeue ((m_tcb s)(t := c)) t i j Q k)" if "k < 4" "0 < k" pr for k
    unfolding s'(1) by (rule requeue_sorted [OF inv that c(1) t ij])
  show "m_c s' = Some u" if "queued (requeue ((m_tcb s)(t := c)) t i j Q) u"
    "status_of s' u = TASKSTATUS_RUNNING" for u
    using that s' c(1) ij sched_invD(3) [OF inv, of u] by (auto simp: queued_requeue split: if_splits)
  show "reason_ok k (m_tcb s' u)" if "k < 4" "u \<in> set (requeue ((m_tcb s)(t := c)) t i j Q k)" for k u
    using that s'(1) c(2) t sched_invD(4) [OF inv, of k u]
    by (auto simp: set_requeue split: if_splits)
qed

text \<open>
  The step shared by the operations: take a task out, give it the fields \<open>c\<close>, put it back.
  Between the two the operation may change any part of the state but the queues.
\<close>

lemma move_ok:
  assumes inv: "sched_invp pr s Q" and q: "queued Q t" and i: "q_index (status_of s t) = Some i"
    and j: "q_index (t_status c) = Some j" and c: "t_status c \<noteq> TASKSTATUS_RUNNING" "reason_ok j c"
  obtains s1 where "q_delete_task s t = Some s1" and "same_but_links s s1"
    and "\<And>s1' :: mrb_state. m_tcb s1' = (m_tcb s)(t := c) \<Longrightarrow> m_next s1' = m_next s1 \<Longrightarrow>
      m_queues s1' = m_queues s1 \<Longrightarrow> m_c s1' = m_c s \<Longrightarrow>
      \<exists>s2. q_insert_task s1' t = Some s2 \<and> same_but_links s1' s2 \<and>
        sched_invp pr s2 (requeue ((m_tcb s)(t := c)) t i j Q)"
proof -
  obtain s1 where s1: "q_delete_task s t = Some s1" "same_but_links s s1"
    and ins: "\<And>s1' :: mrb_state. m_tcb s1' = (m_tcb s)(t := c) \<Longrightarrow> m_next s1' = m_next s1 \<Longrightarrow>
      m_queues s1' = m_queues s1 \<Longrightarrow> \<exists>s2. q_insert_task s1' t = Some s2 \<and>
        same_but_links s1' s2 \<and> rep s2 (requeue ((m_tcb s)(t := c)) t i j Q)"
    using requeue_rep [OF sched_invD(1) [OF inv] q i j] by blast
  show thesis
  proof (rule that [OF s1])
    fix s1' :: mrb_state
    assume s1': "m_tcb s1' = (m_tcb s)(t := c)" "m_next s1' = m_next s1"
      "m_queues s1' = m_queues s1" "m_c s1' = m_c s"
    from ins [OF s1'(1-3)] obtain s2 where s2: "q_insert_task s1' t = Some s2"
      "same_but_links s1' s2" "rep s2 (requeue ((m_tcb s)(t := c)) t i j Q)" by blast
    from s2(2) s1' have "m_tcb s2 = (m_tcb s)(t := c)" "m_c s2 = m_c s"
      by (simp_all add: frame_simps)
    then have "sched_invp pr s2 (requeue ((m_tcb s)(t := c)) t i j Q)"
      by (rule requeue_inv [OF inv q i j c _ _ s2(3)])
    with s2 show "\<exists>s2. q_insert_task s1' t = Some s2 \<and> same_but_links s1' s2 \<and>
        sched_invp pr s2 (requeue ((m_tcb s)(t := c)) t i j Q)" by blast
  qed
qed

lemma queued_status:
  assumes "sched_invp pr s Q" "queued Q t"
  obtains i where "i < 4" "q_index (status_of s t) = Some i" "t \<in> set (Q i)"
  using assms sched_invD(1) repD(3) by (metis queued_def)

lemma same_but_links_upd:
  assumes "same_but_links s s1" "same_but_links (upd_tcb t f s1) s2"
  shows "same_but_links (upd_tcb t f s) s2"
proof -
  obtain nxt qs where s1: "s1 = s\<lparr>m_next := nxt, m_queues := qs\<rparr>"
    using assms(1) by (auto simp: same_but_links_def)
  obtain nxt' qs' where "s2 = (upd_tcb t f s1)\<lparr>m_next := nxt', m_queues := qs'\<rparr>"
    using assms(2) unfolding same_but_links_def by blast
  then have "s2 = (upd_tcb t f s)\<lparr>m_next := nxt', m_queues := qs'\<rparr>"
    by (simp add: s1)
  then show ?thesis by (rule same_but_linksI)
qed

lemma move_same:
  assumes inv: "sched_invp pr s Q" and q: "queued Q t" and j: "q_index (t_status c) = Some j"
    and c: "t_status c \<noteq> TASKSTATUS_RUNNING" "reason_ok j c" and f: "f (m_tcb s t) = c"
  obtains s1 s2 Q' where "q_delete_task s t = Some s1" "q_insert_task (upd_tcb t f s1) t = Some s2"
    "same_but_links s s1" "same_but_links (upd_tcb t f s) s2" "sched_invp pr s2 Q'"
    "\<And>i. q_index (status_of s t) = Some i \<Longrightarrow> Q' = requeue ((m_tcb s)(t := c)) t i j Q"
proof -
  obtain i where i: "q_index (status_of s t) = Some i"
    using queued_status [OF inv q] by blast
  obtain s1 where s1: "q_delete_task s t = Some s1" "same_but_links s s1"
    and ins: "\<And>s1' :: mrb_state. m_tcb s1' = (m_tcb s)(t := c) \<Longrightarrow> m_next s1' = m_next s1 \<Longrightarrow>
      m_queues s1' = m_queues s1 \<Longrightarrow> m_c s1' = m_c s \<Longrightarrow>
      \<exists>s2. q_insert_task s1' t = Some s2 \<and> same_but_links s1' s2 \<and>
        sched_invp pr s2 (requeue ((m_tcb s)(t := c)) t i j Q)"
    using move_ok [OF inv q i j c] by metis
  obtain s2 where s2: "q_insert_task (upd_tcb t f s1) t = Some s2"
    "same_but_links (upd_tcb t f s1) s2" "sched_invp pr s2 (requeue ((m_tcb s)(t := c)) t i j Q)"
    using ins [of "upd_tcb t f s1"] s1(2) f by (auto simp: frame_simps)
  have "same_but_links (upd_tcb t f s) s2"
    using s1(2) s2(2) by (rule same_but_links_upd)
  with s1 s2 i show thesis
    by (intro that [of s1 s2 "requeue ((m_tcb s)(t := c)) t i j Q"]) simp_all
qed

section \<open>The tick interrupt\<close>

lemma preempt_running_task_eq:
  assumes "sched_invp pr s Q"
  shows "preempt_running_task s = Some (s\<lparr>m_switching :=
    m_switching s \<or> (\<exists>t\<in>set (Q 1). status_of s t = TASKSTATUS_RUNNING)\<rparr>)"
  using sched_inv_q_list [OF assms, of 1] by (simp add: preempt_running_task_def)

lemma sched_inv_switching: "sched_invp pr (s\<lparr>m_switching := b\<rparr>) Q = sched_invp pr s Q"
  by (rule sched_inv_cong) simp_all

lemma sched_inv_clock: "sched_invp pr (s\<lparr>m_tick := k\<rparr>) Q = sched_invp pr s Q"
  "sched_invp pr (s\<lparr>m_wakeup_tick := w\<rparr>) Q = sched_invp pr s Q"
  by (rule sched_inv_cong; simp)+

lemma tick_timeslice_inv: "sched_invp pr s Q \<Longrightarrow> sched_invp pr (tick_timeslice s) Q"
  unfolding tick_timeslice_def
  by (auto simp: Let_def sched_inv_switching split: option.splits
      intro: sched_inv_upd_field [where s = s])

definition same_wait :: "RTcb \<Rightarrow> RTcb \<Rightarrow> bool" where
  "same_wait c c' \<longleftrightarrow> t_status c' = t_status c \<and> t_reason c' = t_reason c \<and>
     t_wakeup_tick c' = t_wakeup_tick c \<and> t_tcb_join c' = t_tcb_join c \<and>
     t_priority_preemption c' = t_priority_preemption c"

lemma tick_timeslice_frame [frame_simps]:
  "m_tick (tick_timeslice s) = m_tick s" "m_wakeup_tick (tick_timeslice s) = m_wakeup_tick s"
  "m_queues (tick_timeslice s) = m_queues s" "m_next (tick_timeslice s) = m_next s"
  "m_c (tick_timeslice s) = m_c s"
  "same_wait (m_tcb s t) (m_tcb (tick_timeslice s) t)"
  by (auto simp: tick_timeslice_def Let_def same_wait_def split: option.splits)

subsection \<open>Waking the tasks that are due\<close>

definition due :: "mrb_state \<Rightarrow> tid \<Rightarrow> bool" where
  "due s t \<longleftrightarrow> sleeping (m_tcb s) t \<and> sdiff32 (t_wakeup_tick (m_tcb s t)) (m_tick s) < 0"

definition wake_min :: "mrb_state \<Rightarrow> u32 \<Rightarrow> tid list \<Rightarrow> u32" where
  "wake_min s w ts = foldl (\<lambda>w t. if sleeping (m_tcb s) t \<and> \<not> due s t \<and>
     sdiff32 (t_wakeup_tick (m_tcb s t)) w < 0 then t_wakeup_tick (m_tcb s t) else w) w ts"

lemma wake_min_simps [simp]:
  "wake_min s w [] = w"
  "wake_min s w (t # ts) = wake_min s (if sleeping (m_tcb s) t \<and> \<not> due s t \<and>
     sdiff32 (t_wakeup_tick (m_tcb s t)) w < 0 then t_wakeup_tick (m_tcb s t) else w) ts"
  by (simp_all add: wake_min_def)

lemma wake_min_cong:
  assumes "\<And>t. t \<in> set ts \<Longrightarrow> m_tcb s' t = m_tcb s t" "m_tick s' = m_tick s"
  shows "wake_min s' w ts = wake_min s w ts"
  using assms by (induction ts arbitrary: w) (simp_all add: due_def)

lemma linked_suffix: "linked h p (A @ x # B) \<Longrightarrow> linked h (Some x) (x # B)"
  by (induction A arbitrary: p) auto

lemma linked_rest:
  assumes "linked h p ts" and "linked h' q (A @ ts)"
  shows "linked h' p ts"
  using assms by (cases ts) (auto dest: linked_suffix)

lemma reason_ok_make_ready: "reason_ok 1 (make_ready c)"
  by (simp add: reason_ok_def make_ready_def)

lemma wake_one:
  assumes inv: "sched_invp pr s Q" and t: "t \<in> set (Q 2)"
  obtains s1 s2 where "q_delete_task s t = Some s1"
    "q_insert_task (upd_tcb t make_ready s1) t = Some s2"
    "same_but_links (upd_tcb t make_ready s) s2"
    "sched_invp pr s2 (requeue ((m_tcb s)(t := make_ready (m_tcb s t))) t 2 1 Q)"
proof -
  have q: "queued Q t" using queued_in [of t Q 2] t by simp
  have i: "q_index (status_of s t) = Some 2"
    using repD(3) [OF sched_invD(1) [OF inv], of 2 t] t by simp
  have c: "q_index (t_status (make_ready (m_tcb s t))) = Some 1"
    "t_status (make_ready (m_tcb s t)) \<noteq> TASKSTATUS_RUNNING"
    by (simp_all add: make_ready_def)
  show thesis
    by (rule move_same [where f = make_ready and c = "make_ready (m_tcb s t)" and j = 1,
        OF inv q c reason_ok_make_ready refl])
      (use i that in auto)
qed

text \<open>What the scan of the waiting queue does, started anywhere in the queue.\<close>

lemma tick_scan_spec:
  "sched_invp pr s Q \<Longrightarrow> Q 2 = pre @ ts \<Longrightarrow> linked (m_next s) p ts \<Longrightarrow>
   \<exists>s' Q'. tick_scan p sw s = Some (s', sw \<or> (\<exists>t\<in>set ts. due s t)) \<and> sched_invp pr s' Q' \<and>
     m_tcb s' = (\<lambda>u. if u \<in> set ts \<and> due s u then make_ready (m_tcb s u) else m_tcb s u) \<and>
     Q' 2 = pre @ filter (\<lambda>u. \<not> due s u) ts \<and>
     set (Q' 1) = set (Q 1) \<union> {u \<in> set ts. due s u} \<and> Q' 0 = Q 0 \<and> Q' 3 = Q 3 \<and>
     m_wakeup_tick s' = wake_min s (m_wakeup_tick s) ts \<and>
     m_tick s' = m_tick s \<and> m_switching s' = m_switching s \<and> m_c s' = m_c s"
proof (induction ts arbitrary: p pre s Q sw)
  case Nil
  then show ?case by (intro exI [of _ s] exI [of _ Q]) (auto simp: tick_scan.simps)
next
  case (Cons t ts)
  have p: "p = Some t" and l: "linked (m_next s) (m_next s t) ts"
    using Cons.prems(3) by auto
  have d: "distinct (pre @ t # ts)"
    using repD(2) [OF sched_invD(1) [OF Cons.prems(1)], of 2] Cons.prems(2) by simp
  show ?case
  proof (cases "due s t")
    case True
    let ?tcb = "(m_tcb s)(t := make_ready (m_tcb s t))"
    have t2: "t \<in> set (Q 2)" using Cons.prems(2) by simp
    obtain s1 s2 where s1: "q_delete_task s t = Some s1"
      and s2: "q_insert_task (upd_tcb t make_ready s1) t = Some s2"
        "same_but_links (upd_tcb t make_ready s) s2"
      and inv: "sched_invp pr s2 (requeue ?tcb t 2 1 Q)"
      using wake_one [OF Cons.prems(1) t2] .
    have Q2: "requeue ?tcb t 2 1 Q 2 = pre @ ts"
      using d filter_neq_split [of pre t ts] by (simp add: requeue_def Cons.prems(2))
    have "linked (m_next s2) (m_next s t) ts"
      using l repD(1) [OF sched_invD(1) [OF inv], of 2] Q2 by (auto intro: linked_rest)
    from Cons.IH [OF inv Q2 this, of True] obtain s' Q' where
      IH: "tick_scan (m_next s t) True s2 = Some (s', True)" "sched_invp pr s' Q'"
        "m_tcb s' = (\<lambda>u. if u \<in> set ts \<and> due s2 u then make_ready (m_tcb s2 u) else m_tcb s2 u)"
        "Q' 2 = pre @ filter (\<lambda>u. \<not> due s2 u) ts"
        "set (Q' 1) = set (requeue ?tcb t 2 1 Q 1) \<union> {u \<in> set ts. due s2 u}"
        "Q' 0 = requeue ?tcb t 2 1 Q 0" "Q' 3 = requeue ?tcb t 2 1 Q 3"
        "m_wakeup_tick s' = wake_min s2 (m_wakeup_tick s2) ts"
        "m_tick s' = m_tick s2" "m_switching s' = m_switching s2" "m_c s' = m_c s2"
      by (simp only: simp_thms) blast
    have fr: "m_tcb s2 = ?tcb" "m_tick s2 = m_tick s" "m_wakeup_tick s2 = m_wakeup_tick s"
      "m_switching s2 = m_switching s" "m_c s2 = m_c s"
      using s2(2) by (simp_all add: frame_simps)
    have due2: "due s2 u = due s u" if "u \<in> set ts" for u
      using that d fr by (auto simp: due_def)
    have "tick_scan p sw s = tick_scan (m_next s t) True s2"
      using True s1 s2(1) by (simp add: p tick_scan.simps [of "Some t" sw s] due_def)
    moreover have "filter (\<lambda>u. \<not> due s2 u) ts = filter (\<lambda>u. \<not> due s u) ts"
      using due2 by (auto intro: filter_cong)
    moreover have "{u \<in> set ts. due s2 u} = {u \<in> set ts. due s u}"
      using due2 by auto
    moreover have "m_tcb s' = (\<lambda>u. if u \<in> set (t # ts) \<and> due s u
        then make_ready (m_tcb s u) else m_tcb s u)"
      using IH(3) due2 True d fr(1) by (auto simp: fun_eq_iff)
    moreover have "wake_min s2 (m_wakeup_tick s) ts = wake_min s (m_wakeup_tick s) ts"
      by (rule wake_min_cong) (use fr d in auto)
    ultimately show ?thesis
      using IH(1,2,4-11) fr True
      by (intro exI [of _ s'] exI [of _ Q']) (auto simp: requeue_other set_requeue)
  next
    case False
    define w where "w = (if sleeping (m_tcb s) t \<and>
      sdiff32 (t_wakeup_tick (m_tcb s t)) (m_wakeup_tick s) < 0
      then t_wakeup_tick (m_tcb s t) else m_wakeup_tick s)"
    let ?s = "s\<lparr>m_wakeup_tick := w\<rparr>"
    have inv: "sched_invp pr ?s Q" using Cons.prems(1) by (simp add: sched_inv_clock)
    have due2: "due ?s u = due s u" for u by (simp add: due_def)
    have "tick_scan p sw s = tick_scan (m_next s t) sw ?s"
      using False by (auto simp: p tick_scan.simps [of "Some t" sw s] due_def w_def Let_def)
    moreover have "wake_min ?s w ts = wake_min s (m_wakeup_tick s) (t # ts)"
      using False by (auto simp: w_def intro: wake_min_cong)
    moreover obtain s' Q' where
      "tick_scan (m_next s t) sw ?s = Some (s', sw \<or> (\<exists>u\<in>set ts. due ?s u))" "sched_invp pr s' Q'"
        "m_tcb s' = (\<lambda>u. if u \<in> set ts \<and> due ?s u then make_ready (m_tcb ?s u) else m_tcb ?s u)"
        "Q' 2 = (pre @ [t]) @ filter (\<lambda>u. \<not> due ?s u) ts"
        "set (Q' 1) = set (Q 1) \<union> {u \<in> set ts. due ?s u}" "Q' 0 = Q 0" "Q' 3 = Q 3"
        "m_wakeup_tick s' = wake_min ?s (m_wakeup_tick ?s) ts"
        "m_tick s' = m_tick ?s" "m_switching s' = m_switching ?s" "m_c s' = m_c ?s"
      using Cons.IH [of ?s Q "pre @ [t]" "m_next s t" sw] inv Cons.prems(2) l
      by (simp only: append_assoc append_Cons append_Nil simp_thms) auto
    moreover have "(\<lambda>u. if u \<in> set ts \<and> due s u then make_ready (m_tcb s u) else m_tcb s u) =
        (\<lambda>u. if u \<in> set (t # ts) \<and> due s u then make_ready (m_tcb s u) else m_tcb s u)"
      using False by (auto simp: fun_eq_iff)
    ultimately show ?thesis
      using False by (intro exI [of _ s'] exI [of _ Q'] conjI) (simp_all add: due2, auto)
  qed
qed

end
