(* ===== verification/SchedTick.thy ===== *)
theory SchedTick
  imports SchedInv
begin

text \<open>
  The tick interrupt on represented queues. \<open>mrb_tick\<close> looks at the waiting queue only when
  the tick passes \<open>wakeup_tick\<close>; the invariant \<open>timed\<close> says that no sleeping task is due
  before that tick, so that the shortcut loses no wake-up, and it is preserved by the tick.
  The last section follows a sleeping task through any number of ticks.
\<close>

section \<open>One tick\<close>

definition due_next :: "mrb_state \<Rightarrow> tid \<Rightarrow> bool" where
  "due_next s t \<longleftrightarrow> sleeping (m_tcb s) t \<and> sdiff32 (t_wakeup_tick (m_tcb s t)) (m_tick s + 1) < 0"

definition tick_start :: "mrb_state \<Rightarrow> mrb_state" where
  "tick_start s = tick_timeslice (s\<lparr>m_tick := m_tick s + 1\<rparr>)"

lemma tick_start_frame [simp]:
  "m_tick (tick_start s) = m_tick s + 1" "m_wakeup_tick (tick_start s) = m_wakeup_tick s"
  "m_queues (tick_start s) = m_queues s" "m_next (tick_start s) = m_next s"
  "m_c (tick_start s) = m_c s"
  by (simp_all add: tick_start_def frame_simps)

lemma tick_start_wait: "same_wait (m_tcb s t) (m_tcb (tick_start s) t)"
  using tick_timeslice_frame(6) [of "s\<lparr>m_tick := m_tick s + 1\<rparr>" t] by (simp add: tick_start_def)

lemma tick_start_tcb [simp]:
  "t_reason (m_tcb (tick_start s) t) = t_reason (m_tcb s t)"
  "t_wakeup_tick (m_tcb (tick_start s) t) = t_wakeup_tick (m_tcb s t)"
  "status_of (tick_start s) t = status_of s t"
  using tick_start_wait [of s t] by (simp_all add: same_wait_def)

lemma tick_start_inv: "sched_invp pr s Q \<Longrightarrow> sched_invp pr (tick_start s) Q"
  by (simp add: tick_start_def tick_timeslice_inv sched_inv_clock)

lemma mrb_tick_eq:
  "mrb_tick s = (let s = tick_start s in
     if sdiff32 (m_wakeup_tick s) (m_tick s) < 0 then do {
       (s, task_switch) \<leftarrow> tick_scan (m_queues s 2) False (s\<lparr>m_wakeup_tick := m_tick s + 65536\<rparr>);
       if task_switch then preempt_running_task s else Some s
     } else Some s)"
  by (simp add: mrb_tick_def tick_start_def Let_def)

text \<open>
  The shape of the state after a tick: the tasks \<open>W\<close> were woken up, all other tasks wait as
  before.
\<close>

definition ticked :: "bool \<Rightarrow> mrb_state \<Rightarrow> (nat \<Rightarrow> tid list) \<Rightarrow> tid set \<Rightarrow> mrb_state \<Rightarrow> (nat \<Rightarrow> tid list) \<Rightarrow> bool" where
  "ticked pr s Q W s' Q' \<longleftrightarrow> sched_invp pr s' Q' \<and> m_tick s' = m_tick s + 1 \<and> m_c s' = m_c s \<and>
     Q' 2 = filter (\<lambda>u. u \<notin> W) (Q 2) \<and> set (Q' 1) = set (Q 1) \<union> W \<and> Q' 0 = Q 0 \<and> Q' 3 = Q 3 \<and>
     (\<forall>u\<in>W. status_of s' u = TASKSTATUS_READY \<and> t_reason (m_tcb s' u) = TASKREASON_NONE) \<and>
     (\<forall>u. u \<notin> W \<longrightarrow> same_wait (m_tcb s u) (m_tcb s' u))"

lemma tick_late:
  assumes inv: "sched_invp pr s Q" and late: "sdiff32 (m_wakeup_tick s) (m_tick s + 1) < 0"
  shows "\<exists>s' Q'. mrb_tick s = Some s' \<and> ticked pr s Q {u \<in> set (Q 2). due_next s u} s' Q' \<and>
    m_wakeup_tick s' = wake_min (s\<lparr>m_tick := m_tick s + 1\<rparr>) (m_tick s + 1 + 65536) (Q 2)"
proof -
  define w where "w = m_tick (tick_start s) + 65536"
  let ?s = "(tick_start s)\<lparr>m_wakeup_tick := w\<rparr>"
  let ?W = "{u \<in> set (Q 2). due_next s u}"
  have inv': "sched_invp pr ?s Q" using inv by (simp add: tick_start_inv sched_inv_clock)
  have due: "due ?s u = due_next s u" for u by (simp add: due_def due_next_def)
  have "Q 2 = [] @ Q 2" by simp
  moreover have "linked (m_next ?s) (m_queues s 2) (Q 2)"
    using repD(1) [OF sched_invD(1) [OF inv'], of 2] by simp
  ultimately obtain s' Q' where
    r: "tick_scan (m_queues s 2) False ?s = Some (s', False \<or> (\<exists>t\<in>set (Q 2). due ?s t))"
      "sched_invp pr s' Q'"
      "m_tcb s' = (\<lambda>u. if u \<in> set (Q 2) \<and> due ?s u then make_ready (m_tcb ?s u) else m_tcb ?s u)"
      "Q' 2 = [] @ filter (\<lambda>u. \<not> due ?s u) (Q 2)"
      "set (Q' 1) = set (Q 1) \<union> {u \<in> set (Q 2). due ?s u}" "Q' 0 = Q 0" "Q' 3 = Q 3"
      "m_wakeup_tick s' = wake_min ?s (m_wakeup_tick ?s) (Q 2)"
      "m_tick s' = m_tick ?s" "m_switching s' = m_switching ?s" "m_c s' = m_c ?s"
    using tick_scan_spec [OF inv', of "[]" "Q 2" "m_queues s 2" False] by blast
  have wm: "wake_min ?s w ts = wake_min (s\<lparr>m_tick := m_tick s + 1\<rparr>) w ts" for w ts
    by (induction ts arbitrary: w) (simp_all add: due_def)
  let ?r = "s'\<lparr>m_switching := m_switching s' \<or> (\<exists>t\<in>set (Q' 1). status_of s' t = TASKSTATUS_RUNNING)\<rparr>"
  have T: "ticked pr s Q ?W s'' Q'" if "s'' = s' \<or> s'' = ?r" for s''
    using that r(2-7,9,11) tick_start_wait [of s] sched_inv_switching
    by (auto simp: ticked_def due make_ready_def intro: filter_cong)
  have wk: "m_wakeup_tick s'' = wake_min (s\<lparr>m_tick := m_tick s + 1\<rparr>) (m_tick s + 1 + 65536) (Q 2)"
    if "s'' = s' \<or> s'' = ?r" for s''
    using that r(8) wm [of w] by (auto simp: w_def)
  have tick: "mrb_tick s = (if \<exists>t\<in>set (Q 2). due ?s t then preempt_running_task s' else Some s')"
    using late r(1) unfolding mrb_tick_eq Let_def w_def [symmetric] by simp
  show ?thesis
  proof (cases "\<exists>t\<in>set (Q 2). due ?s t")
    case True
    then have "mrb_tick s = Some ?r"
      using tick preempt_running_task_eq [OF r(2)] by simp
    with T [of ?r] wk [of ?r] show ?thesis by blast
  next
    case False
    then have "mrb_tick s = Some s'" using tick by simp
    with T [of s'] wk [of s'] show ?thesis by blast
  qed
qed

lemma tick_early:
  assumes inv: "sched_invp pr s Q" and "\<not> sdiff32 (m_wakeup_tick s) (m_tick s + 1) < 0"
  shows "mrb_tick s = Some (tick_start s)" "ticked pr s Q {} (tick_start s) Q"
  using assms tick_start_wait [of s]
  by (simp_all add: mrb_tick_eq Let_def ticked_def tick_start_inv)

lemma tick_inv:
  assumes "sched_invp pr s Q"
  shows "\<exists>s' Q'. mrb_tick s = Some s' \<and> sched_invp pr s' Q' \<and> m_c s' = m_c s"
  using tick_late [OF assms] tick_early [OF assms]
  by (cases "sdiff32 (m_wakeup_tick s) (m_tick s + 1) < 0") (auto simp: ticked_def)

section \<open>No wake-up is lost\<close>

definition tick_diff :: "mrb_state \<Rightarrow> u32 \<Rightarrow> int" where
  "tick_diff s w = sdiff32 w (m_tick s)"

definition timed :: "mrb_state \<Rightarrow> (nat \<Rightarrow> tid list) \<Rightarrow> bool" where
  "timed s Q \<longleftrightarrow> - (2 ^ 30) < tick_diff s (m_wakeup_tick s) \<and> tick_diff s (m_wakeup_tick s) \<le> 2 ^ 30 \<and>
     (\<forall>t\<in>set (Q 2). sleeping (m_tcb s) t \<longrightarrow>
        tick_diff s (m_wakeup_tick s) \<le> tick_diff s (t_wakeup_tick (m_tcb s t)) \<and>
        tick_diff s (t_wakeup_tick (m_tcb s t)) \<le> 2 ^ 30)"

lemma timedI:
  assumes "- (2 ^ 30) < tick_diff s (m_wakeup_tick s)" "tick_diff s (m_wakeup_tick s) \<le> 2 ^ 30"
    and "\<And>t. t \<in> set (Q 2) \<Longrightarrow> sleeping (m_tcb s) t \<Longrightarrow>
      tick_diff s (m_wakeup_tick s) \<le> tick_diff s (t_wakeup_tick (m_tcb s t)) \<and>
        tick_diff s (t_wakeup_tick (m_tcb s t)) \<le> 2 ^ 30"
  shows "timed s Q"
  using assms by (simp add: timed_def)

lemma timedD:
  assumes "timed s Q"
  shows "- (2 ^ 30) < tick_diff s (m_wakeup_tick s)" "tick_diff s (m_wakeup_tick s) \<le> 2 ^ 30"
    "t \<in> set (Q 2) \<Longrightarrow> sleeping (m_tcb s) t \<Longrightarrow>
      tick_diff s (m_wakeup_tick s) \<le> tick_diff s (t_wakeup_tick (m_tcb s t)) \<and>
      tick_diff s (t_wakeup_tick (m_tcb s t)) \<le> 2 ^ 30"
  using assms by (simp_all add: timed_def)

lemma wake_min_le:
  "0 \<le> sdiff32 w (m_tick s) \<Longrightarrow> sdiff32 w (m_tick s) \<le> 2 ^ 30 \<Longrightarrow>
   (\<And>t. t \<in> set ts \<Longrightarrow> sleeping (m_tcb s) t \<Longrightarrow> sdiff32 (t_wakeup_tick (m_tcb s t)) (m_tick s) \<le> 2 ^ 30) \<Longrightarrow>
   0 \<le> sdiff32 (wake_min s w ts) (m_tick s) \<and>
   sdiff32 (wake_min s w ts) (m_tick s) \<le> sdiff32 w (m_tick s) \<and>
   (\<forall>t\<in>set ts. sleeping (m_tcb s) t \<longrightarrow> \<not> due s t \<longrightarrow>
     sdiff32 (wake_min s w ts) (m_tick s) \<le> sdiff32 (t_wakeup_tick (m_tcb s t)) (m_tick s))"
proof (induction ts arbitrary: w)
  case Nil
  then show ?case by simp
next
  case (Cons t ts)
  let ?wk = "t_wakeup_tick (m_tcb s t)"
  show ?case
  proof (cases "sleeping (m_tcb s) t \<and> \<not> due s t")
    case True
    have wk: "0 \<le> sdiff32 ?wk (m_tick s)" "sdiff32 ?wk (m_tick s) \<le> 2 ^ 30"
      using True Cons.prems(3) [of t] by (auto simp: due_def)
    have less: "sdiff32 ?wk w < 0 \<longleftrightarrow> sdiff32 ?wk (m_tick s) < sdiff32 w (m_tick s)"
      using sdiff32_via [of ?wk "m_tick s" w] wk Cons.prems(1,2) by simp
    show ?thesis
      using Cons.IH [of "if sdiff32 ?wk w < 0 then ?wk else w"] Cons.prems wk True less
      by (auto split: if_splits)
  next
    case False
    then show ?thesis using Cons.IH [of w] Cons.prems by auto
  qed
qed

lemma tick_diff_Suc:
  assumes "m_tick s' = m_tick s + 1" "- (2 ^ 30) < tick_diff s w"
  shows "tick_diff s' w = tick_diff s w - 1"
  using assms sdiff32_Suc [of w "m_tick s"] by (simp add: tick_diff_def)

lemma due_next_diff:
  assumes "- (2 ^ 30) < tick_diff s (t_wakeup_tick (m_tcb s t))"
  shows "due_next s t \<longleftrightarrow> sleeping (m_tcb s) t \<and> tick_diff s (t_wakeup_tick (m_tcb s t)) \<le> 0"
  using assms sdiff32_Suc [of "t_wakeup_tick (m_tcb s t)" "m_tick s"]
  by (auto simp: due_next_def tick_diff_def)

text \<open>
  The interrupt wakes exactly the sleeping tasks that are due, whether it scans the queue or
  not, and keeps \<open>timed\<close>.
\<close>

lemma tick_wakes:
  assumes inv: "sched_invp pr s Q" and tm: "timed s Q"
  shows "\<exists>s' Q'. mrb_tick s = Some s' \<and> ticked pr s Q {u \<in> set (Q 2). due_next s u} s' Q' \<and> timed s' Q' \<and>
    0 \<le> tick_diff s' (m_wakeup_tick s')"
proof (cases "sdiff32 (m_wakeup_tick s) (m_tick s + 1) < 0")
  case True
  let ?s = "s\<lparr>m_tick := m_tick s + 1\<rparr>"
  let ?W = "{u \<in> set (Q 2). due_next s u}"
  obtain s' Q' where r: "mrb_tick s = Some s'" "ticked pr s Q ?W s' Q'"
    "m_wakeup_tick s' = wake_min ?s (m_tick s + 1 + 65536) (Q 2)"
    using tick_late [OF inv True] by blast
  have due: "due ?s u = due_next s u" for u by (simp add: due_def due_next_def)
  have start: "sdiff32 (m_tick s + 1 + 65536) (m_tick s + 1) = 65536"
    using sdiff32_plus [of 65536 "m_tick s + 1"] by simp
  have sl: "sdiff32 (t_wakeup_tick (m_tcb s t)) (m_tick s + 1) \<le> 2 ^ 30"
    if "t \<in> set (Q 2)" "sleeping (m_tcb s) t" for t
    using timedD(1) [OF tm] timedD(3) [OF tm that] tick_diff_Suc [of ?s s "t_wakeup_tick (m_tcb s t)"]
    by (simp add: tick_diff_def)
  have min: "0 \<le> tick_diff s' (m_wakeup_tick s')" "tick_diff s' (m_wakeup_tick s') \<le> 65536"
    "\<And>t. t \<in> set (Q 2) \<Longrightarrow> sleeping (m_tcb s) t \<Longrightarrow> \<not> due_next s t \<Longrightarrow>
      tick_diff s' (m_wakeup_tick s') \<le> tick_diff s' (t_wakeup_tick (m_tcb s t))"
    using wake_min_le [of "m_tick s + 1 + 65536" ?s "Q 2"] start sl r(2,3)
    by (simp_all add: due ticked_def tick_diff_def)
  have "timed s' Q'"
  proof (rule timedI)
    show "- (2 ^ 30) < tick_diff s' (m_wakeup_tick s')" "tick_diff s' (m_wakeup_tick s') \<le> 2 ^ 30"
      using min by simp_all
    fix t assume t: "t \<in> set (Q' 2)" "sleeping (m_tcb s') t"
    then have u: "t \<in> set (Q 2)" "\<not> due_next s t" "same_wait (m_tcb s t) (m_tcb s' t)"
      using r(2) by (auto simp: ticked_def)
    with t(2) have v: "sleeping (m_tcb s) t" "t_wakeup_tick (m_tcb s' t) = t_wakeup_tick (m_tcb s t)"
      by (simp_all add: same_wait_def)
    show "tick_diff s' (m_wakeup_tick s') \<le> tick_diff s' (t_wakeup_tick (m_tcb s' t)) \<and>
        tick_diff s' (t_wakeup_tick (m_tcb s' t)) \<le> 2 ^ 30"
      using min(3) [OF u(1) v(1) u(2)] sl [OF u(1) v(1)] r(2) v(2)
      by (simp add: ticked_def tick_diff_def)
  qed
  with r min show ?thesis by blast
next
  case False
  have d: "tick_diff (tick_start s) w = tick_diff s w - 1" if "- (2 ^ 30) < tick_diff s w" for w
    using that by (simp add: tick_diff_Suc)
  have low: "0 \<le> tick_diff (tick_start s) (m_wakeup_tick s)"
    using False by (simp add: tick_diff_def)
  have none: "{u \<in> set (Q 2). due_next s u} = {}"
  proof -
    have "\<not> due_next s u" if u: "u \<in> set (Q 2)" for u
    proof
      assume "due_next s u"
      then have "sleeping (m_tcb s) u" by (simp add: due_next_def)
      from timedD(3) [OF tm u this] \<open>due_next s u\<close> timedD(1) [OF tm] low d [of "m_wakeup_tick s"]
      show False by (simp add: due_next_diff)
    qed
    then show ?thesis by blast
  qed
  have "timed (tick_start s) Q"
  proof (rule timedI)
    show "- (2 ^ 30) < tick_diff (tick_start s) (m_wakeup_tick (tick_start s))"
      "tick_diff (tick_start s) (m_wakeup_tick (tick_start s)) \<le> 2 ^ 30"
      using timedD(1,2) [OF tm] low d [of "m_wakeup_tick s"] by simp_all
    fix t assume t: "t \<in> set (Q 2)" "sleeping (m_tcb (tick_start s)) t"
    then show "tick_diff (tick_start s) (m_wakeup_tick (tick_start s)) \<le>
        tick_diff (tick_start s) (t_wakeup_tick (m_tcb (tick_start s) t)) \<and>
        tick_diff (tick_start s) (t_wakeup_tick (m_tcb (tick_start s) t)) \<le> 2 ^ 30"
      using timedD(1) [OF tm] timedD(3) [OF tm t(1)] d [of "m_wakeup_tick s"]
        d [of "t_wakeup_tick (m_tcb s t)"] by simp
  qed
  with tick_early [OF inv False] low show ?thesis unfolding none by (intro exI) auto
qed

section \<open>A task that sleeps\<close>

fun ticks :: "nat \<Rightarrow> mrb_state \<Rightarrow> mrb_state option" where
  "ticks 0 s = Some s"
| "ticks (Suc n) s = do { s \<leftarrow> mrb_tick s; ticks n s }"

text \<open>A task that is not due for \<open>d\<close> ticks sleeps through the first \<open>d\<close> and wakes up at the next.\<close>

lemma ticks_sleep:
  assumes "sched_invp pr s Q" "timed s Q" "t \<in> set (Q 2)" "sleeping (m_tcb s) t"
    and "tick_diff s (t_wakeup_tick (m_tcb s t)) = int d" "n \<le> d"
  shows "\<exists>s' Q'. ticks n s = Some s' \<and> sched_invp pr s' Q' \<and> timed s' Q' \<and> t \<in> set (Q' 2) \<and>
    sleeping (m_tcb s') t \<and> status_of s' t = status_of s t \<and>
    tick_diff s' (t_wakeup_tick (m_tcb s' t)) = int (d - n) \<and> m_c s' = m_c s"
  using assms
proof (induction n arbitrary: s Q d)
  case 0
  then show ?case by auto
next
  case (Suc n)
  obtain s1 Q1 where t1: "mrb_tick s = Some s1" "ticked pr s Q {u \<in> set (Q 2). due_next s u} s1 Q1"
    "timed s1 Q1"
    using tick_wakes [OF Suc.prems(1,2)] by blast
  have nd: "\<not> due_next s t"
    using Suc.prems(5,6) due_next_diff [of s t] by simp
  then have sw: "same_wait (m_tcb s t) (m_tcb s1 t)" and inv1: "sched_invp pr s1 Q1" and q1: "t \<in> set (Q1 2)"
    and c1: "m_c s1 = m_c s"
    using t1(2) Suc.prems(3) by (auto simp: ticked_def)
  have "tick_diff s1 (t_wakeup_tick (m_tcb s1 t)) = int (d - 1)"
    using tick_diff_Suc [of s1 s "t_wakeup_tick (m_tcb s t)"] t1(2) Suc.prems(5,6) sw
    by (simp add: ticked_def same_wait_def)
  moreover have n: "n \<le> d - 1" using Suc.prems(6) by simp
  ultimately obtain s2 Q2 where "ticks n s1 = Some s2 \<and> sched_invp pr s2 Q2 \<and> timed s2 Q2 \<and> t \<in> set (Q2 2) \<and>
    sleeping (m_tcb s2) t \<and> status_of s2 t = status_of s1 t \<and>
    tick_diff s2 (t_wakeup_tick (m_tcb s2 t)) = int (d - 1 - n) \<and> m_c s2 = m_c s1"
    using Suc.IH [OF inv1 t1(3) q1 _ _ n] Suc.prems(4) sw unfolding same_wait_def
    by (simp del: of_nat_diff) blast
  with t1(1) c1 sw show ?case
    by (intro exI [of _ s2] exI [of _ Q2]) (simp add: same_wait_def)
qed

lemma ticks_add: "ticks (m + n) s = do { s \<leftarrow> ticks m s; ticks n s }"
  by (induction m arbitrary: s) (auto split: bind_splits simp: bind_eq_Some_conv)

lemma ticks_wake:
  assumes "sched_invp pr s Q" "timed s Q" "t \<in> set (Q 2)" "sleeping (m_tcb s) t"
    and "tick_diff s (t_wakeup_tick (m_tcb s t)) = int d"
  shows "\<exists>s' Q'. ticks (Suc d) s = Some s' \<and> sched_invp pr s' Q' \<and> timed s' Q' \<and> t \<in> set (Q' 1) \<and>
    status_of s' t = TASKSTATUS_READY \<and> t_reason (m_tcb s' t) = TASKREASON_NONE"
proof -
  obtain s1 Q1 where r: "ticks d s = Some s1" "sched_invp pr s1 Q1" "timed s1 Q1" "t \<in> set (Q1 2)"
    "sleeping (m_tcb s1) t" "tick_diff s1 (t_wakeup_tick (m_tcb s1 t)) = 0"
    using ticks_sleep [OF assms, of d] by auto
  obtain s2 Q2 where t2: "mrb_tick s1 = Some s2" "ticked pr s1 Q1 {u \<in> set (Q1 2). due_next s1 u} s2 Q2"
    "timed s2 Q2"
    using tick_wakes [OF r(2,3)] by blast
  have "due_next s1 t"
    using r(5,6) due_next_diff [of s1 t] by simp
  with t2(2) r(4) have "sched_invp pr s2 Q2" "t \<in> set (Q2 1)" "status_of s2 t = TASKSTATUS_READY"
    "t_reason (m_tcb s2 t) = TASKREASON_NONE"
    by (auto simp: ticked_def)
  moreover have "ticks (Suc d) s = Some s2"
    using ticks_add [of d 1 s] r(1) t2(1) by simp
  ultimately show ?thesis using t2(3) by blast
qed

end
