(* ===== verification/SchedOps.thy ===== *)
theory SchedOps
  imports SchedTick
begin

text \<open>
  The operations of the scheduler keep \<open>sched_invp\<close> and, apart from the bounds a tick count
  needs, \<open>timed\<close>; each lemma also says which task went where. The last section collects the
  operations in a step relation and states the invariant of every reachable state.
\<close>

section \<open>Moving one task\<close>

definition moved :: "mrb_state \<Rightarrow> (nat \<Rightarrow> tid list) \<Rightarrow> tid \<Rightarrow> RTcb \<Rightarrow> (nat \<Rightarrow> tid list) \<Rightarrow> bool" where
  "moved s Q t c Q' \<longleftrightarrow> (\<exists>i j. q_index (status_of s t) = Some i \<and> q_index (t_status c) = Some j \<and>
     Q' = requeue ((m_tcb s)(t := c)) t i j Q)"

lemma moved_queued: "moved s Q t c Q' \<Longrightarrow> queued Q' u \<longleftrightarrow> u = t \<or> queued Q u"
  by (auto simp: moved_def queued_requeue q_index_less)

lemma moved_in: "moved s Q t c Q' \<Longrightarrow> q_index (t_status c) = Some j \<Longrightarrow> t \<in> set (Q' j)"
  by (auto simp: moved_def set_requeue)

lemma moved_other: "moved s Q t c Q' \<Longrightarrow> u \<noteq> t \<Longrightarrow> u \<in> set (Q' k) \<longleftrightarrow> u \<in> set (Q k)"
  by (auto simp: moved_def in_requeue)

text \<open>
  The result of a move: invariant, queues and frame. \<open>tcb_ok\<close> are the contents a moved TCB
  may have.
\<close>

definition tcb_ok :: "RTcb \<Rightarrow> bool" where
  "tcb_ok c \<longleftrightarrow> (t_status c = TASKSTATUS_DORMANT \<and> reason_ok 0 c) \<or>
     (t_status c = TASKSTATUS_READY \<and> reason_ok 1 c) \<or>
     (t_status c = TASKSTATUS_WAITING \<and> reason_ok 2 c) \<or>
     (t_status c = TASKSTATUS_SUSPENDED \<and> reason_ok 3 c)"

definition move_res ::
  "bool \<Rightarrow> mrb_state \<Rightarrow> (nat \<Rightarrow> tid list) \<Rightarrow> tid \<Rightarrow> RTcb \<Rightarrow> mrb_state \<Rightarrow> (nat \<Rightarrow> tid list) \<Rightarrow> bool" where
  "move_res pr s Q t c s' Q' \<longleftrightarrow> sched_invp pr s' Q' \<and> moved s Q t c Q' \<and>
     same_but_links (s\<lparr>m_tcb := (m_tcb s)(t := c)\<rparr>) s'"

lemma move_resD:
  assumes "move_res pr s Q t c s' Q'"
  shows "sched_invp pr s' Q'" "moved s Q t c Q'" "m_tcb s' = (m_tcb s)(t := c)" "m_tick s' = m_tick s"
    "m_wakeup_tick s' = m_wakeup_tick s" "m_c s' = m_c s" "m_switching s' = m_switching s"
    "m_exc s' = m_exc s" "m_gc_idle s' = m_gc_idle s"
    "\<And>u. queued Q' u \<longleftrightarrow> u = t \<or> queued Q u" "\<And>u k. u \<noteq> t \<Longrightarrow> u \<in> set (Q' k) \<longleftrightarrow> u \<in> set (Q k)"
    "\<And>j. q_index (t_status c) = Some j \<Longrightarrow> t \<in> set (Q' j)"
  using assms by (auto simp: move_res_def frame_simps moved_queued moved_other moved_in)

lemma move_task:
  assumes inv: "sched_invp pr s Q" and q: "queued Q t" and c: "tcb_ok c" and f: "f (m_tcb s t) = c"
  shows "\<exists>s1 s2 Q'. q_delete_task s t = Some s1 \<and> q_insert_task (upd_tcb t f s1) t = Some s2 \<and>
    move_res pr s Q t c s2 Q'"
proof -
  obtain i where i: "q_index (status_of s t) = Some i"
    using queued_status [OF inv q] by blast
  obtain j where j: "q_index (t_status c) = Some j" "t_status c \<noteq> TASKSTATUS_RUNNING" "reason_ok j c"
    using c by (auto simp: tcb_ok_def)
  show ?thesis
    by (rule move_same [where f = f, OF inv q j f]) (use i j f in \<open>auto simp: moved_def move_res_def\<close>)
qed

lemma queued_reason:
  assumes "sched_invp pr s Q" "queued Q t"
  shows "t_reason (m_tcb s t) \<in> {TASKREASON_NONE, TASKREASON_SLEEP, TASKREASON_JOIN}"
  using assms sched_invD(4) [OF assms(1)] by (auto simp: queued_def reason_ok_def)

lemma sleeping_bound:
  assumes "timed s Q" and "m_tick s' = m_tick s" "m_wakeup_tick s' = m_wakeup_tick s"
    and tcb: "m_tcb s' = (m_tcb s)(t := c)" and mv: "moved s Q t c Q'"
    and c: "t_status c = TASKSTATUS_WAITING \<Longrightarrow> t_reason c = TASKREASON_SLEEP \<Longrightarrow>
      tick_diff s (m_wakeup_tick s) \<le> tick_diff s (t_wakeup_tick c) \<and>
      tick_diff s (t_wakeup_tick c) \<le> 2 ^ 30"
    and st: "t_status c \<in> {TASKSTATUS_DORMANT, TASKSTATUS_READY, TASKSTATUS_WAITING, TASKSTATUS_SUSPENDED}"
    and dis: "t \<in> set (Q 2) \<Longrightarrow> q_index (status_of s t) = Some 2"
  shows "timed s' Q'"
proof (rule timedI)
  show "- (2 ^ 30) < tick_diff s' (m_wakeup_tick s')" "tick_diff s' (m_wakeup_tick s') \<le> 2 ^ 30"
    using assms(1-3) by (simp_all add: timed_def tick_diff_def)
  fix u assume u: "u \<in> set (Q' 2)" "sleeping (m_tcb s') u"
  show "tick_diff s' (m_wakeup_tick s') \<le> tick_diff s' (t_wakeup_tick (m_tcb s' u)) \<and>
      tick_diff s' (t_wakeup_tick (m_tcb s' u)) \<le> 2 ^ 30"
  proof (cases "u = t")
    case True
    obtain i j where ij: "q_index (status_of s t) = Some i" "q_index (t_status c) = Some j"
      "Q' = requeue ((m_tcb s)(t := c)) t i j Q"
      using mv by (auto simp: moved_def)
    have "t_status c = TASKSTATUS_WAITING"
      using u(1) ij st dis True by (auto simp: set_requeue split: if_splits)
    with u(2) c True tcb assms(2,3) show ?thesis by (simp add: tick_diff_def)
  next
    case False
    then have "u \<in> set (Q 2)" using u(1) mv by (simp add: moved_other)
    with False u(2) assms(1-4) show ?thesis by (simp add: timed_def tick_diff_def)
  qed
qed

lemma timed_move:
  assumes inv: "sched_invp pr s Q" and "timed s Q" and mv: "move_res pr s Q t c s' Q'"
    and c: "tcb_ok c" "t_status c = TASKSTATUS_WAITING \<longrightarrow> t_reason c \<noteq> TASKREASON_SLEEP"
  shows "timed s' Q'"
  using move_resD [OF mv] c repD(3) [OF sched_invD(1) [OF inv], of 2 t]
  by (intro sleeping_bound [OF assms(2)]) (auto simp: tcb_ok_def)

lemma timed_cong:
  assumes "m_tick s' = m_tick s" "m_wakeup_tick s' = m_wakeup_tick s"
    and "\<And>t. t \<in> set (Q 2) \<Longrightarrow> t_reason (m_tcb s' t) = t_reason (m_tcb s t)"
      "\<And>t. t \<in> set (Q 2) \<Longrightarrow> t_wakeup_tick (m_tcb s' t) = t_wakeup_tick (m_tcb s t)"
  shows "timed s' Q \<longleftrightarrow> timed s Q"
  using assms by (auto simp: timed_def tick_diff_def)

section \<open>The operations of a running task\<close>

lemma terminate_ok:
  assumes inv: "sched_invp pr s Q" and q: "queued Q t"
  shows "\<exists>s' Q'. mrb_terminate_task t s = Some s' \<and> sched_invp pr s' Q' \<and> (timed s Q \<longrightarrow> timed s' Q') \<and>
    t \<in> set (Q' 0) \<and> status_of s' t = TASKSTATUS_DORMANT \<and> m_c s' = m_c s \<and>
    queued Q' = queued Q"
proof (cases "status_of s t = TASKSTATUS_DORMANT")
  case True
  then show ?thesis
    using inv rep_queued_index [OF sched_invD(1) [OF inv] q] by (auto simp: mrb_terminate_task_def)
next
  case False
  let ?c = "(m_tcb s t)\<lparr>t_status := TASKSTATUS_DORMANT\<rparr>"
  have c: "tcb_ok ?c"
    using queued_reason [OF inv q] by (auto simp: tcb_ok_def reason_ok_def)
  obtain s1 s2 Q' where "q_delete_task s t = Some s1"
    "q_insert_task (upd_tcb t (t_status_update (\<lambda>_. TASKSTATUS_DORMANT)) s1) t = Some s2"
    and r: "move_res pr s Q t ?c s2 Q'"
    using move_task [OF inv q c, of "t_status_update (\<lambda>_. TASKSTATUS_DORMANT)"] by auto
  then show ?thesis
    using False move_resD [OF r] q timed_move [OF inv _ r c]
    by (intro exI [of _ s2] exI [of _ Q']) (auto simp: mrb_terminate_task_def)
qed

lemma suspend_ok:
  assumes inv: "sched_invp pr s Q" and q: "queued Q t"
  shows "\<exists>s' Q'. mrb_suspend_task t s = Some s' \<and> sched_invp pr s' Q' \<and> (timed s Q \<longrightarrow> timed s' Q') \<and>
    t \<in> set (Q' 3) \<and> status_of s' t = TASKSTATUS_SUSPENDED \<and>
    t_reason (m_tcb s' t) = t_reason (m_tcb s t) \<and>
    t_wakeup_tick (m_tcb s' t) = t_wakeup_tick (m_tcb s t) \<and> m_c s' = m_c s \<and> queued Q' = queued Q"
proof (cases "status_of s t = TASKSTATUS_SUSPENDED")
  case True
  then show ?thesis
    using inv rep_queued_index [OF sched_invD(1) [OF inv] q] by (auto simp: mrb_suspend_task_def)
next
  case False
  let ?c = "(m_tcb s t)\<lparr>t_status := TASKSTATUS_SUSPENDED\<rparr>"
  have c: "tcb_ok ?c"
    using queued_reason [OF inv q] by (auto simp: tcb_ok_def reason_ok_def)
  obtain s1 s2 Q' where "q_delete_task s t = Some s1"
    "q_insert_task (upd_tcb t (t_status_update (\<lambda>_. TASKSTATUS_SUSPENDED)) s1) t = Some s2"
    and r: "move_res pr s Q t ?c s2 Q'"
    using move_task [OF inv q c, of "t_status_update (\<lambda>_. TASKSTATUS_SUSPENDED)"] by auto
  moreover have "timed (s2\<lparr>m_switching := True\<rparr>) Q' \<longleftrightarrow> timed s2 Q'"
    by (rule timed_cong) auto
  ultimately show ?thesis
    using False move_resD [OF r] q timed_move [OF inv _ r c]
    by (intro exI [of _ "s2\<lparr>m_switching := True\<rparr>"] exI [of _ Q'])
      (auto simp: mrb_suspend_task_def sched_inv_switching)
qed

lemma join_ok:
  assumes inv: "sched_invp pr s Q" and q: "queued Q cur" and c: "m_c s = Some cur"
    and t: "t \<noteq> cur" "status_of s t \<noteq> TASKSTATUS_DORMANT"
  shows "\<exists>s' Q'. mrb_task_join t s = Some (Inr (), s') \<and> sched_invp pr s' Q' \<and>
    (timed s Q \<longrightarrow> timed s' Q') \<and> cur \<in> set (Q' 2) \<and> status_of s' cur = TASKSTATUS_WAITING \<and>
    t_reason (m_tcb s' cur) = TASKREASON_JOIN \<and> t_tcb_join (m_tcb s' cur) = Some t \<and>
    m_c s' = m_c s \<and> queued Q' = queued Q \<and> m_switching s'"
proof -
  let ?f = "\<lambda>c. c\<lparr>t_status := TASKSTATUS_WAITING, t_reason := TASKREASON_JOIN, t_tcb_join := Some t\<rparr>"
  have ok: "tcb_ok (?f (m_tcb s cur))"
    by (auto simp: tcb_ok_def reason_ok_def)
  obtain s1 s2 Q' where "q_delete_task s cur = Some s1"
    "q_insert_task (upd_tcb cur ?f s1) cur = Some s2"
    and r: "move_res pr s Q cur (?f (m_tcb s cur)) s2 Q'"
    using move_task [OF inv q ok, of ?f] by auto
  moreover have "timed (s2\<lparr>m_switching := True\<rparr>) Q' \<longleftrightarrow> timed s2 Q'"
    by (rule timed_cong) auto
  ultimately show ?thesis
    using c t move_resD [OF r] q timed_move [OF inv _ r ok]
    by (intro exI [of _ "s2\<lparr>m_switching := True\<rparr>"] exI [of _ Q'])
      (auto simp: mrb_task_join_def sched_inv_switching)
qed

text \<open>
  \<open>Task.pass\<close> changes the effective priority in place, whatever the status of the task is. The
  order survives when the task is running, and when it is dormant, as it is after it has
  terminated itself.
\<close>

lemma pass_sorted:
  assumes inv: "sched_invp True s Q" and c: "m_c s = Some t" and i: "i < 4" "0 < i"
    and st: "status_of s t \<in> {TASKSTATUS_RUNNING, TASKSTATUS_DORMANT}"
  shows "q_sorted ((m_tcb s)(t := (m_tcb s t)\<lparr>t_timeslice := 0, t_priority_preemption := 1\<rparr>)) (Q i)"
    (is "q_sorted ?tcb _")
proof (cases "status_of s t = TASKSTATUS_RUNNING")
  case False
  then have "t \<notin> set (Q i)"
    using st i repD(3) [OF sched_invD(1) [OF inv], of i t] by auto
  then have "q_sorted ?tcb (Q i) = q_sorted (m_tcb s) (Q i)"
    by (intro q_sorted_cong) auto
  with sched_invD(2) [OF inv i] show ?thesis by simp
next
  case True
  have "filter (\<lambda>u. t_status (?tcb u) \<noteq> TASKSTATUS_RUNNING) (Q i) = filter (\<lambda>u. status_of s u \<noteq> TASKSTATUS_RUNNING) (Q i)"
    by (auto intro: filter_cong)
  moreover have "map (pprio ?tcb) (filter (\<lambda>u. status_of s u \<noteq> TASKSTATUS_RUNNING) (Q i)) =
      map (pprio (m_tcb s)) (filter (\<lambda>u. status_of s u \<noteq> TASKSTATUS_RUNNING) (Q i))"
    using True by auto
  moreover have ut: "u = t" if "u \<in> set (Q i)" "status_of s u = TASKSTATUS_RUNNING" for u
    using sched_invD(3) [OF inv _ that(2)] queued_in [of u Q i] that(1) i c by simp
  have "pprio ?tcb u = 1" if u: "u \<in> set (Q i)" "t_status (?tcb u) = TASKSTATUS_RUNNING" for u
  proof -
    have "status_of s u = TASKSTATUS_RUNNING" using u(2) True by (cases "u = t") simp_all
    with u(1) have "u = t" by (rule ut)
    then show ?thesis by simp
  qed
  ultimately show ?thesis
    using sched_invD(2) [OF inv i] unfolding q_sorted_def by (simp only: simp_thms) blast
qed

lemma pass_ok:
  assumes inv: "sched_invp pr s Q" and c: "m_c s = Some t"
    and st: "pr \<Longrightarrow> status_of s t \<in> {TASKSTATUS_RUNNING, TASKSTATUS_DORMANT}"
  shows "\<exists>s'. mrb_task_s_pass s = Some s' \<and> sched_invp pr s' Q \<and> (timed s Q \<longrightarrow> timed s' Q) \<and> m_c s' = m_c s"
proof -
  let ?s = "upd_tcb t (\<lambda>c. c\<lparr>t_timeslice := 0, t_priority_preemption := 1\<rparr>) s"
  have "rep ?s Q"
    by (rule rep_upd_tcb [OF sched_invD(1) [OF inv]]) auto
  moreover have "q_sorted (m_tcb ?s) (Q i)" if "i < 4" "0 < i" pr for i
    using pass_sorted [of s Q t i] inv c st that by simp
  moreover have "m_c ?s = Some u" if "queued Q u" "status_of ?s u = TASKSTATUS_RUNNING" for u
    using sched_invD(3) [OF inv that(1)] that(2) by (auto split: if_splits)
  moreover have "reason_ok i (m_tcb ?s u)" if "i < 4" "u \<in> set (Q i)" for i u
    using sched_invD(4) [OF inv that] by (auto simp: reason_ok_def)
  ultimately have "sched_invp pr ?s Q" by (intro sched_invI)
  moreover have "timed ?s Q = timed s Q" by (rule timed_cong) auto
  ultimately show ?thesis by (simp add: mrb_task_s_pass_def c)
qed

text \<open>Operations that change fields the queues do not depend on.\<close>

lemma upd_field_ok:
  assumes inv: "sched_invp pr s Q"
    and tcb: "\<exists>c. m_tcb s' = (m_tcb s)(t := c) \<and> t_status c = status_of s t \<and>
      t_priority_preemption c = pprio (m_tcb s) t \<and> t_reason c = t_reason (m_tcb s t) \<and>
      t_wakeup_tick c = t_wakeup_tick (m_tcb s t)"
    and fr: "m_next s' = m_next s" "m_queues s' = m_queues s" "m_c s' = m_c s"
      "m_tick s' = m_tick s" "m_wakeup_tick s' = m_wakeup_tick s"
  shows "sched_invp pr s' Q \<and> timed s' Q = timed s Q"
proof
  show "sched_invp pr s' Q"
    using tcb fr by (metis sched_inv_upd_field [OF inv])
  show "timed s' Q = timed s Q"
    by (rule timed_cong) (use tcb fr in auto)
qed

lemma upd_same [simp]: "f(x := c) = f(x := d) \<longleftrightarrow> c = d"
  by (metis fun_upd_same)

lemma priority_set_ok:
  assumes "sched_invp pr s Q"
  shows "sched_invp pr (snd (mrb_task_priority_set t n s)) Q \<and>
    timed (snd (mrb_task_priority_set t n s)) Q = timed s Q"
  by (rule upd_field_ok [OF assms, of _ t]) (auto simp: mrb_task_priority_set_def Let_def)

lemma stop_ok:
  assumes "sched_invp pr s Q"
  shows "sched_invp pr (snd (mrb_stop_task t s)) Q \<and> timed (snd (mrb_stop_task t s)) Q = timed s Q"
proof (cases "c_status (t_c (m_tcb s t)) = MRB_TASK_STOPPED")
  case True
  with assms show ?thesis by (simp add: mrb_stop_task_def)
next
  case False
  show ?thesis
    by (rule upd_field_ok [OF assms, of _ t]) (auto simp: mrb_stop_task_def False)
qed

lemma record_ok:
  assumes "sched_invp pr s Q"
  shows "sched_invp pr (tasks_record t v s) Q \<and> timed (tasks_record t v s) Q = timed s Q"
  by (rule upd_field_ok [OF assms, of _ t]) (auto simp: tasks_record_def Let_def split: option.splits)

section \<open>Sleeping and waking up\<close>

text \<open>
  The tick computed for a sleep of \<open>ms\<close> milliseconds: \<open>ms / 4\<close> rounded up from now, in the
  arithmetic of the 32-bit tick counter.
\<close>

lemma wakeup_after_ceil:
  assumes "0 \<le> ms"
  shows "wakeup_after now ms = now + word_of_int ((ms + 3) div 4)"
proof -
  have "c_div ms 4 + (if c_mod ms 4 \<noteq> 0 then 1 else 0) = (ms + 3) div 4"
  proof -
    have "c_div ms 4 = ms div 4" using assms by (cases "ms = 0") (simp_all add: c_div_def)
    moreover have "c_mod ms 4 = ms mod 4"
      using calculation by (simp add: c_mod_def minus_div_mult_eq_mod)
    moreover have "ms div 4 + (if ms mod 4 \<noteq> 0 then 1 else 0) = (ms + 3) div 4"
      by presburger
    ultimately show ?thesis by simp
  qed
  then show ?thesis
    by (simp add: wakeup_after_def MRB_TICK_UNIT_def algebra_simps)
qed

lemma wakeup_after_diff:
  assumes "0 \<le> ms" "ms \<le> 2 ^ 32"
  shows "sdiff32 (wakeup_after now ms) now = (ms + 3) div 4"
  using assms by (simp add: wakeup_after_ceil sdiff32_plus)

lemma wakeup_same: "m_wakeup_tick (s :: mrb_state) = w \<Longrightarrow> s\<lparr>m_tcb := X, m_wakeup_tick := w\<rparr> = s\<lparr>m_tcb := X\<rparr>"
  by auto

lemma sleep_ok:
  assumes inv: "sched_invp pr s Q" and h: "Q 1 = t # ts"
  shows "\<exists>s' Q'. sleep_ms_impl ms s = Some s' \<and> sched_invp pr s' Q' \<and> t \<in> set (Q' 2) \<and>
    status_of s' t = TASKSTATUS_WAITING \<and> t_reason (m_tcb s' t) = TASKREASON_SLEEP \<and>
    t_wakeup_tick (m_tcb s' t) = wakeup_after (m_tick s) ms \<and> m_tick s' = m_tick s \<and>
    m_c s' = m_c s \<and> queued Q' = queued Q \<and> m_switching s' \<and>
    m_wakeup_tick s' = (if sdiff32 (wakeup_after (m_tick s) ms) (m_wakeup_tick s) < 0
      then wakeup_after (m_tick s) ms else m_wakeup_tick s) \<and>
    (\<forall>u. u \<noteq> t \<longrightarrow> m_tcb s' u = m_tcb s u) \<and> (\<forall>u k. u \<noteq> t \<longrightarrow> u \<in> set (Q' k) \<longleftrightarrow> u \<in> set (Q k))"
proof -
  let ?w = "wakeup_after (m_tick s) ms"
  let ?f = "\<lambda>c. c\<lparr>t_status := TASKSTATUS_WAITING, t_reason := TASKREASON_SLEEP, t_wakeup_tick := ?w\<rparr>"
  let ?c = "?f (m_tcb s t)"
  define wt where "wt = (if sdiff32 ?w (m_wakeup_tick s) < 0 then ?w else m_wakeup_tick s)"
  have q: "queued Q t" using h queued_in [of t Q 1] by simp
  obtain i where i: "q_index (status_of s t) = Some i"
    using queued_status [OF inv q] by blast
  have j: "q_index (t_status ?c) = Some 2" "t_status ?c \<noteq> TASKSTATUS_RUNNING" "reason_ok 2 ?c"
    by (simp_all add: reason_ok_def)
  let ?Q = "requeue ((m_tcb s)(t := ?c)) t i 2 Q"
  obtain s1 where s1: "q_delete_task s t = Some s1" "same_but_links s s1"
    and ins: "\<And>s1' :: mrb_state. m_tcb s1' = (m_tcb s)(t := ?c) \<Longrightarrow> m_next s1' = m_next s1 \<Longrightarrow>
      m_queues s1' = m_queues s1 \<Longrightarrow> m_c s1' = m_c s \<Longrightarrow>
      \<exists>s2. q_insert_task s1' t = Some s2 \<and> same_but_links s1' s2 \<and> sched_invp pr s2 ?Q"
    using move_ok [OF inv q i j] by metis
  let ?s1 = "(upd_tcb t ?f s1)\<lparr>m_wakeup_tick := wt\<rparr>"
  have fr: "m_tcb s1 = m_tcb s" "m_tick s1 = m_tick s" "m_wakeup_tick s1 = m_wakeup_tick s" "m_c s1 = m_c s"
    using s1(2) by (simp_all add: frame_simps)
  obtain s2 where s2: "q_insert_task ?s1 t = Some s2" "same_but_links ?s1 s2" "sched_invp pr s2 ?Q"
    using ins [of ?s1] fr by auto
  have "sleep_ms_impl ms s = Some (s2\<lparr>m_switching := True\<rparr>)"
    using s1(1) s2(1) sched_inv_head [OF inv] h fr
    by (cases "sdiff32 ?w (m_wakeup_tick s) < 0") (simp_all add: sleep_ms_impl_def Let_def wt_def wakeup_same)
  moreover have "sched_invp pr (s2\<lparr>m_switching := True\<rparr>) ?Q"
    using s2(3) by (simp add: sched_inv_switching)
  moreover have "m_tcb s2 = (m_tcb s)(t := ?c)" "m_tick s2 = m_tick s" "m_c s2 = m_c s" "m_wakeup_tick s2 = wt"
    using s2(2) fr by (simp_all add: frame_simps)
  ultimately show ?thesis
    using q by (intro exI [of _ "s2\<lparr>m_switching := True\<rparr>"] exI [of _ ?Q])
      (auto simp: set_requeue queued_requeue wt_def fun_eq_iff)
qed

lemma sleep_timed:
  assumes tm: "timed s Q" and ms: "0 \<le> ms" "ms \<le> 2 ^ 32 - 4"
    and s': "m_tick s' = m_tick s" "t_wakeup_tick (m_tcb s' t) = wakeup_after (m_tick s) ms"
      "m_wakeup_tick s' = (if sdiff32 (wakeup_after (m_tick s) ms) (m_wakeup_tick s) < 0
        then wakeup_after (m_tick s) ms else m_wakeup_tick s)"
      "\<forall>u. u \<noteq> t \<longrightarrow> m_tcb s' u = m_tcb s u" "\<forall>u k. u \<noteq> t \<longrightarrow> u \<in> set (Q' k) \<longleftrightarrow> u \<in> set (Q k)"
  shows "timed s' Q'"
proof -
  let ?w = "wakeup_after (m_tick s) ms" and ?d = "(ms + 3) div 4"
  have d: "tick_diff s ?w = ?d" "0 \<le> ?d" "?d \<le> 2 ^ 30"
    using ms by (simp_all add: tick_diff_def wakeup_after_diff)
  have less: "sdiff32 ?w (m_wakeup_tick s) < 0 \<longleftrightarrow> ?d < tick_diff s (m_wakeup_tick s)"
    using sdiff32_via [of ?w "m_tick s" "m_wakeup_tick s"] d timedD(1,2) [OF tm]
    by (simp add: tick_diff_def)
  have td: "tick_diff s' w = tick_diff s w" for w by (simp add: tick_diff_def s'(1))
  have wk: "tick_diff s (m_wakeup_tick s') = min ?d (tick_diff s (m_wakeup_tick s))"
    using less d(1) s'(3) by auto
  show ?thesis
  proof (rule timedI, unfold td wk)
    show "- (2 ^ 30) < min ?d (tick_diff s (m_wakeup_tick s))"
      "min ?d (tick_diff s (m_wakeup_tick s)) \<le> 2 ^ 30"
      using d timedD(1,2) [OF tm] by auto
    fix u assume u: "u \<in> set (Q' 2)" "sleeping (m_tcb s') u"
    show "min ?d (tick_diff s (m_wakeup_tick s)) \<le> tick_diff s (t_wakeup_tick (m_tcb s' u)) \<and>
        tick_diff s (t_wakeup_tick (m_tcb s' u)) \<le> 2 ^ 30"
    proof (cases "u = t")
      case True
      then show ?thesis using d s'(2) by simp
    next
      case False
      then show ?thesis using u s'(4,5) timedD(3) [OF tm, of u] by auto
    qed
  qed
qed

lemma resume_ok:
  assumes inv: "sched_invp pr s Q" and q: "queued Q t" and st: "status_of s t = TASKSTATUS_SUSPENDED"
  shows "\<exists>s' Q'. mrb_resume_task t s = Some s' \<and> sched_invp pr s' Q' \<and> queued Q' = queued Q \<and>
    m_c s' = m_c s \<and> m_tick s' = m_tick s \<and>
    (t_reason (m_tcb s t) = TASKREASON_NONE \<longrightarrow> t \<in> set (Q' 1) \<and> status_of s' t = TASKSTATUS_READY) \<and>
    (t_reason (m_tcb s t) \<noteq> TASKREASON_NONE \<longrightarrow> t \<in> set (Q' 2) \<and> status_of s' t = TASKSTATUS_WAITING) \<and>
    t_reason (m_tcb s' t) = t_reason (m_tcb s t) \<and>
    (timed s Q \<longrightarrow> (sleeping (m_tcb s) t \<longrightarrow> - (2 ^ 30) < tick_diff s (t_wakeup_tick (m_tcb s t)) \<and>
      tick_diff s (t_wakeup_tick (m_tcb s t)) \<le> 2 ^ 30) \<longrightarrow> timed s' Q')"
proof -
  let ?ready = "t_reason (m_tcb s t) = TASKREASON_NONE"
  define st' :: u8 where "st' = (if ?ready then TASKSTATUS_READY else TASKSTATUS_WAITING)"
  let ?f = "t_status_update (\<lambda>_. st')" and ?c = "(m_tcb s t)\<lparr>t_status := st'\<rparr>"
  let ?w = "t_wakeup_tick (m_tcb s t)"
  define s0 where "s0 = (if ?ready then the (preempt_running_task s) else s)"
  have s0: "(if ?ready then preempt_running_task s else Some s) = Some s0" "sched_invp pr s0 Q"
    "m_tcb s0 = m_tcb s" "m_tick s0 = m_tick s" "m_wakeup_tick s0 = m_wakeup_tick s" "m_c s0 = m_c s"
    using inv by (simp_all add: s0_def preempt_running_task_eq sched_inv_switching)
  have r3: "t_reason (m_tcb s t) \<in> {TASKREASON_NONE, TASKREASON_SLEEP, TASKREASON_JOIN}"
    by (rule queued_reason [OF inv q])
  then have c: "tcb_ok ?c"
    by (auto simp: tcb_ok_def reason_ok_def st'_def)
  then obtain s1 s2 Q' where m: "q_delete_task s0 t = Some s1" "q_insert_task (upd_tcb t ?f s1) t = Some s2"
    and r: "move_res pr s0 Q t ?c s2 Q'"
    using move_task [OF s0(2) q c, of ?f] s0(3) by auto
  let ?early = "sleeping (m_tcb s) t \<and> sdiff32 ?w (m_wakeup_tick s) < 0"
  let ?s' = "if ?early then s2\<lparr>m_wakeup_tick := ?w\<rparr> else s2"
  have fr: "m_tcb s2 = (m_tcb s)(t := ?c)" "m_tick s2 = m_tick s" "m_wakeup_tick s2 = m_wakeup_tick s"
    "m_c s2 = m_c s" "sched_invp pr s2 Q'"
    using move_resD [OF r] s0 by simp_all
  have "t_reason (m_tcb s t) AND TASKREASON_SLEEP \<noteq> 0 \<longleftrightarrow> sleeping (m_tcb s) t"
    using r3 by auto
  then have run: "mrb_resume_task t s = Some ?s'"
    using st m s0(1,3) fr by (simp add: mrb_resume_task_def Let_def st'_def)
  have "timed ?s' Q'" if tm: "timed s Q" and b: "sleeping (m_tcb s) t \<longrightarrow> - (2 ^ 30) < tick_diff s ?w \<and> tick_diff s ?w \<le> 2 ^ 30"
  proof (rule timedI)
    have td: "tick_diff ?s' w = tick_diff s w" for w using fr by (simp add: tick_diff_def)
    have early: "?early \<longleftrightarrow> sleeping (m_tcb s) t \<and> tick_diff s ?w < tick_diff s (m_wakeup_tick s)"
      using sdiff32_via [of ?w "m_tick s" "m_wakeup_tick s"] b timedD(1,2) [OF tm]
      by (auto simp: tick_diff_def)
    have wk: "m_wakeup_tick ?s' = (if ?early then ?w else m_wakeup_tick s)" using fr by simp
    have tcb: "m_tcb ?s' = (m_tcb s)(t := ?c)" using fr by simp
    show "- (2 ^ 30) < tick_diff ?s' (m_wakeup_tick ?s')" "tick_diff ?s' (m_wakeup_tick ?s') \<le> 2 ^ 30"
      unfolding td wk using b timedD(1,2) [OF tm] by auto
    fix u assume u: "u \<in> set (Q' 2)" "sleeping (m_tcb ?s') u"
    show "tick_diff ?s' (m_wakeup_tick ?s') \<le> tick_diff ?s' (t_wakeup_tick (m_tcb ?s' u)) \<and>
        tick_diff ?s' (t_wakeup_tick (m_tcb ?s' u)) \<le> 2 ^ 30"
    proof (cases "u = t")
      case True
      then show ?thesis using u b early unfolding td wk tcb by auto
    next
      case False
      then have "u \<in> set (Q 2)" "sleeping (m_tcb s) u"
        using u move_resD(11) [OF r, of u 2] unfolding tcb by simp_all
      then show ?thesis unfolding td wk tcb using timedD(3) [OF tm, of u] False early by auto
    qed
  qed
  then show ?thesis
    using run fr move_resD(10,12) [OF r] q sched_inv_clock(2)
    by (intro exI [of _ ?s'] exI [of _ Q']) (auto simp: st'_def)
qed

end
