(* ===== verification/SchedRun.thy ===== *)
theory SchedRun
  imports SchedOps
begin

text \<open>
  The dispatch loop: what a round of \<open>mrb_tasks_run\<close> does before and after the virtual machine
  runs the task at the head of the ready queue, the creation of tasks, and the step relation
  of the whole scheduler with the invariant of its reachable states.
\<close>

section \<open>The end of a task\<close>

lemma less_4_iff: "i < 4 \<longleftrightarrow> i = 0 \<or> i = 1 \<or> i = 2 \<or> i = (3 :: nat)"
  by auto

definition joiner :: "mrb_state \<Rightarrow> tid \<Rightarrow> tid \<Rightarrow> bool" where
  "joiner s t u \<longleftrightarrow> t_reason (m_tcb s u) = TASKREASON_JOIN \<and> t_tcb_join (m_tcb s u) = Some t"

lemma join_scan_spec:
  "sched_invp pr s Q \<Longrightarrow> Q 2 = pre @ ts \<Longrightarrow> linked (m_next s) p ts \<Longrightarrow>
   \<exists>s' Q'. join_scan p t s = Some s' \<and> sched_invp pr s' Q' \<and>
     m_tcb s' = (\<lambda>u. if u \<in> set ts \<and> joiner s t u then make_ready (m_tcb s u) else m_tcb s u) \<and>
     Q' 2 = pre @ filter (\<lambda>u. \<not> joiner s t u) ts \<and>
     set (Q' 1) = set (Q 1) \<union> {u \<in> set ts. joiner s t u} \<and> Q' 0 = Q 0 \<and> Q' 3 = Q 3 \<and>
     m_wakeup_tick s' = m_wakeup_tick s \<and> m_tick s' = m_tick s \<and> m_c s' = m_c s \<and>
     m_exc s' = m_exc s"
proof (induction ts arbitrary: p pre s Q)
  case Nil
  then show ?case by (intro exI [of _ s] exI [of _ Q]) (auto simp: join_scan.simps)
next
  case (Cons u ts)
  have p: "p = Some u" and l: "linked (m_next s) (m_next s u) ts"
    using Cons.prems(3) by auto
  have d: "distinct (pre @ u # ts)"
    using repD(2) [OF sched_invD(1) [OF Cons.prems(1)], of 2] Cons.prems(2) by simp
  show ?case
  proof (cases "joiner s t u")
    case True
    let ?tcb = "(m_tcb s)(u := make_ready (m_tcb s u))"
    have t2: "u \<in> set (Q 2)" using Cons.prems(2) by simp
    obtain s1 s2 where s1: "q_delete_task s u = Some s1"
      and s2: "q_insert_task (upd_tcb u make_ready s1) u = Some s2"
        "same_but_links (upd_tcb u make_ready s) s2"
      and inv: "sched_invp pr s2 (requeue ?tcb u 2 1 Q)"
      using wake_one [OF Cons.prems(1) t2] .
    have Q2: "requeue ?tcb u 2 1 Q 2 = pre @ ts"
      using d filter_neq_split [of pre u ts] by (simp add: requeue_def Cons.prems(2))
    have "linked (m_next s2) (m_next s u) ts"
      using l repD(1) [OF sched_invD(1) [OF inv], of 2] Q2 by (auto intro: linked_rest)
    from Cons.IH [OF inv Q2 this] obtain s' Q' where
      IH: "join_scan (m_next s u) t s2 = Some s'" "sched_invp pr s' Q'"
        "m_tcb s' = (\<lambda>v. if v \<in> set ts \<and> joiner s2 t v then make_ready (m_tcb s2 v) else m_tcb s2 v)"
        "Q' 2 = pre @ filter (\<lambda>v. \<not> joiner s2 t v) ts"
        "set (Q' 1) = set (requeue ?tcb u 2 1 Q 1) \<union> {v \<in> set ts. joiner s2 t v}"
        "Q' 0 = requeue ?tcb u 2 1 Q 0" "Q' 3 = requeue ?tcb u 2 1 Q 3"
        "m_wakeup_tick s' = m_wakeup_tick s2"
        "m_tick s' = m_tick s2" "m_c s' = m_c s2" "m_exc s' = m_exc s2"
      by blast
    have fr: "m_tcb s2 = ?tcb" "m_tick s2 = m_tick s" "m_wakeup_tick s2 = m_wakeup_tick s"
      "m_c s2 = m_c s" "m_exc s2 = m_exc s"
      using s2(2) by (simp_all add: frame_simps)
    have j2: "joiner s2 t v = joiner s t v" if "v \<in> set ts" for v
      using that d fr by (auto simp: joiner_def)
    have "join_scan p t s = join_scan (m_next s u) t s2"
      using True s1 s2(1) by (simp add: p join_scan.simps [of "Some u" t s] joiner_def)
    moreover have "filter (\<lambda>v. \<not> joiner s2 t v) ts = filter (\<lambda>v. \<not> joiner s t v) ts"
      using j2 by (auto intro: filter_cong)
    moreover have "{v \<in> set ts. joiner s2 t v} = {v \<in> set ts. joiner s t v}"
      using j2 by auto
    moreover have "m_tcb s' = (\<lambda>v. if v \<in> set (u # ts) \<and> joiner s t v
        then make_ready (m_tcb s v) else m_tcb s v)"
      using IH(3) j2 True d fr(1) by (auto simp: fun_eq_iff)
    ultimately show ?thesis
      using IH(1,2,4-11) fr True
      by (intro exI [of _ s'] exI [of _ Q']) (auto simp: requeue_other set_requeue)
  next
    case False
    then have "join_scan p t s = join_scan (m_next s u) t s"
      by (auto simp: p join_scan.simps [of "Some u" t s] joiner_def Let_def)
    moreover have "Q 2 = (pre @ [u]) @ ts" using Cons.prems(2) by simp
    moreover have "(\<lambda>v. if v \<in> set ts \<and> joiner s t v then make_ready (m_tcb s v) else m_tcb s v) =
        (\<lambda>v. if v \<in> set (u # ts) \<and> joiner s t v then make_ready (m_tcb s v) else m_tcb s v)"
      using False by (auto simp: fun_eq_iff)
    moreover have "{v \<in> set (u # ts). joiner s t v} = {v \<in> set ts. joiner s t v}"
      using False by auto
    ultimately show ?thesis
      using Cons.IH [OF Cons.prems(1) _ l, of "pre @ [u]"] False by simp
  qed
qed

lemma join_suspended_ok:
  assumes inv: "sched_invp pr s Q"
  shows "\<exists>s'. join_suspended t s = Some s' \<and> sched_invp pr s' Q \<and> timed s' Q = timed s Q \<and>
    m_tcb s' = (\<lambda>u. if u \<in> set (Q 3) \<and> joiner s t u then (m_tcb s u)\<lparr>t_reason := TASKREASON_NONE\<rparr>
      else m_tcb s u) \<and> m_c s' = m_c s \<and> m_tick s' = m_tick s \<and> m_queues s' = m_queues s \<and>
    m_exc s' = m_exc s"
proof -
  let ?tcb = "\<lambda>u. if u \<in> set (Q 3) \<and> joiner s t u then (m_tcb s u)\<lparr>t_reason := TASKREASON_NONE\<rparr> else m_tcb s u"
  let ?s = "s\<lparr>m_tcb := ?tcb\<rparr>"
  have st: "t_status (?tcb u) = status_of s u" and pp: "pprio ?tcb u = pprio (m_tcb s) u" for u
    by simp_all
  have "rep ?s Q"
    using sched_invD(1) [OF inv] st by (simp add: rep_def)
  moreover have "q_sorted ?tcb xs = q_sorted (m_tcb s) xs" for xs
    unfolding q_sorted_def st pp ..
  moreover have "reason_ok i (?tcb u)" if "i < 4" "u \<in> set (Q i)" for i u
    using sched_invD(4) [OF inv that] rep_disjoint [OF sched_invD(1) [OF inv] that(1), of 3 u] that(2)
    by (auto simp: reason_ok_def)
  ultimately have "sched_invp pr ?s Q"
    using sched_invD(2,3) [OF inv] st by (intro sched_invI) simp_all
  moreover have "timed ?s Q = timed s Q"
    using rep_disjoint [OF sched_invD(1) [OF inv], of 2 3] by (intro timed_cong) auto
  moreover have "join_suspended t s = Some ?s"
    using sched_inv_q_list [OF inv, of 3] by (simp add: join_suspended_def joiner_def)
  ultimately show ?thesis by simp
qed

lemma queued_iff: "queued Q u \<longleftrightarrow> u \<in> set (Q 0) \<or> u \<in> set (Q 1) \<or> u \<in> set (Q 2) \<or> u \<in> set (Q 3)"
  by (simp add: queued_def less_4_iff conj_disj_distribR ex_disj_distrib)

text \<open>Waking the joiners of a task that is in neither of the queues they are in.\<close>

lemma wake_joiners_ok:
  assumes inv: "sched_invp pr s Q" and t: "t \<notin> set (Q 2)"
  shows "\<exists>s1 s' Q'. join_scan (m_queues s 2) t s = Some s1 \<and> join_suspended t s1 = Some s' \<and>
    sched_invp pr s' Q' \<and> (timed s Q \<longrightarrow> timed s' Q') \<and> m_c s' = m_c s \<and> m_exc s' = m_exc s \<and>
    Q' 2 = filter (\<lambda>u. \<not> joiner s t u) (Q 2) \<and> set (Q' 1) = set (Q 1) \<union> {u \<in> set (Q 2). joiner s t u} \<and>
    Q' 0 = Q 0 \<and> Q' 3 = Q 3 \<and>
    m_tcb s' = (\<lambda>u. if u \<in> set (Q 2) \<and> joiner s t u then make_ready (m_tcb s u)
      else if u \<in> set (Q 3) \<and> joiner s t u then (m_tcb s u)\<lparr>t_reason := TASKREASON_NONE\<rparr>
      else m_tcb s u)"
proof -
  have l: "linked (m_next s) (m_queues s 2) (Q 2)"
    using repD(1) [OF sched_invD(1) [OF inv], of 2] by simp
  have "Q 2 = [] @ Q 2" by simp
  from join_scan_spec [OF inv this l, of t] obtain s1 Q1 where
    j: "join_scan (m_queues s 2) t s = Some s1" "sched_invp pr s1 Q1"
    "m_tcb s1 = (\<lambda>u. if u \<in> set (Q 2) \<and> joiner s t u then make_ready (m_tcb s u) else m_tcb s u)"
    "Q1 2 = filter (\<lambda>u. \<not> joiner s t u) (Q 2)"
    "set (Q1 1) = set (Q 1) \<union> {u \<in> set (Q 2). joiner s t u}" "Q1 0 = Q 0" "Q1 3 = Q 3"
    "m_wakeup_tick s1 = m_wakeup_tick s" "m_tick s1 = m_tick s" "m_c s1 = m_c s" "m_exc s1 = m_exc s"
    by (simp only: append_Nil) blast
  have tm: "timed s Q \<longrightarrow> timed s1 Q1"
    using j(3,4,8,9) by (auto simp: timed_def tick_diff_def joiner_def)
  obtain s2 where e: "join_suspended t s1 = Some s2" "sched_invp pr s2 Q1" "timed s2 Q1 = timed s1 Q1"
    "m_tcb s2 = (\<lambda>u. if u \<in> set (Q1 3) \<and> joiner s1 t u then (m_tcb s1 u)\<lparr>t_reason := TASKREASON_NONE\<rparr>
      else m_tcb s1 u)" "m_c s2 = m_c s1" "m_exc s2 = m_exc s1"
    using join_suspended_ok [OF j(2)] by blast
  have "u \<notin> set (Q 2)" if "u \<in> set (Q 3)" for u
    using rep_disjoint [OF sched_invD(1) [OF inv], of 2 3 u] that by auto
  then have "m_tcb s2 = (\<lambda>u. if u \<in> set (Q 2) \<and> joiner s t u then make_ready (m_tcb s u)
      else if u \<in> set (Q 3) \<and> joiner s t u then (m_tcb s u)\<lparr>t_reason := TASKREASON_NONE\<rparr>
      else m_tcb s u)"
    using e(4) j(3,7) by (auto simp: fun_eq_iff joiner_def)
  with j e tm show ?thesis
    by (intro exI [of _ s1] exI [of _ s2] exI [of _ Q1]) simp
qed

text \<open>
  Finishing a task: it becomes dormant, every task that waits to join it becomes ready, every
  suspended task that would wait for it will be ready when it is resumed, and no other task
  changes.
\<close>

definition finished :: "mrb_state \<Rightarrow> (nat \<Rightarrow> tid list) \<Rightarrow> tid \<Rightarrow> mrb_state \<Rightarrow> (nat \<Rightarrow> tid list) \<Rightarrow> bool" where
  "finished s Q t s' Q' \<longleftrightarrow> t \<in> set (Q' 0) \<and> status_of s' t = TASKSTATUS_DORMANT \<and>
    (\<forall>u. u \<noteq> t \<longrightarrow> u \<in> set (Q 2) \<longrightarrow> joiner s t u \<longrightarrow>
       u \<in> set (Q' 1) \<and> status_of s' u = TASKSTATUS_READY \<and> t_reason (m_tcb s' u) = TASKREASON_NONE) \<and>
    (\<forall>u. u \<noteq> t \<longrightarrow> u \<in> set (Q 3) \<longrightarrow> joiner s t u \<longrightarrow>
       u \<in> set (Q' 3) \<and> status_of s' u = status_of s u \<and> t_reason (m_tcb s' u) = TASKREASON_NONE) \<and>
    (\<forall>u i. i < 4 \<longrightarrow> u \<noteq> t \<longrightarrow> u \<in> set (Q i) \<longrightarrow> \<not> (joiner s t u \<and> i \<ge> 2) \<longrightarrow>
       u \<in> set (Q' i) \<and> m_tcb s' u = m_tcb s u)"

lemma finish_ok:
  assumes inv: "sched_invp pr s Q" and q: "queued Q t"
  shows "\<exists>s' Q'. tasks_finish t s = Some s' \<and> sched_invp pr s' Q' \<and> (timed s Q \<longrightarrow> timed s' Q') \<and>
    queued Q' = queued Q \<and> m_c s' = m_c s \<and> m_exc s' = m_exc s \<and>
    t_value (m_tcb s' t) = t_value (m_tcb s t) \<and> finished s Q t s' Q'"
proof -
  let ?f = "t_status_update (\<lambda>_. TASKSTATUS_DORMANT)" and ?c = "(m_tcb s t)\<lparr>t_status := TASKSTATUS_DORMANT\<rparr>"
  have c: "tcb_ok ?c"
    using queued_reason [OF inv q] by (auto simp: tcb_ok_def reason_ok_def)
  obtain s1 s2 Q2 where m: "q_delete_task s t = Some s1" "q_insert_task (upd_tcb t ?f s1) t = Some s2"
    and r: "move_res pr s Q t ?c s2 Q2"
    using move_task [OF inv q c, of ?f] by auto
  note mv = move_resD [OF r] and rep2 = sched_invD(1) [OF move_resD(1) [OF r]]
  have t: "t \<in> set (Q2 0)" "t \<notin> set (Q2 2)" "t \<notin> set (Q2 3)"
    using mv(12) [of 0] rep_disjoint [OF rep2, of 0 2 t] rep_disjoint [OF rep2, of 0 3 t] by auto
  obtain s3 s4 Q3 where w: "join_scan (m_queues s2 2) t s2 = Some s3" "join_suspended t s3 = Some s4"
    "sched_invp pr s4 Q3" "timed s2 Q2 \<longrightarrow> timed s4 Q3" "m_c s4 = m_c s2" "m_exc s4 = m_exc s2"
    "Q3 2 = filter (\<lambda>u. \<not> joiner s2 t u) (Q2 2)"
    "set (Q3 1) = set (Q2 1) \<union> {u \<in> set (Q2 2). joiner s2 t u}" "Q3 0 = Q2 0" "Q3 3 = Q2 3"
    "m_tcb s4 = (\<lambda>u. if u \<in> set (Q2 2) \<and> joiner s2 t u then make_ready (m_tcb s2 u)
      else if u \<in> set (Q2 3) \<and> joiner s2 t u then (m_tcb s2 u)\<lparr>t_reason := TASKREASON_NONE\<rparr>
      else m_tcb s2 u)"
    using wake_joiners_ok [OF mv(1) t(2)] by blast
  have j2: "joiner s2 t u = joiner s t u" if "u \<noteq> t" for u
    using that mv(3) by (simp add: joiner_def)
  have tcb4: "m_tcb s4 u = (if u \<in> set (Q 2) \<and> joiner s t u then make_ready (m_tcb s u)
      else if u \<in> set (Q 3) \<and> joiner s t u then (m_tcb s u)\<lparr>t_reason := TASKREASON_NONE\<rparr>
      else m_tcb s u)" if "u \<noteq> t" for u
    unfolding w(11) mv(3) using that j2 mv(11) by simp
  have dis: "j = i" if "i < 4" "j < 4" "u \<in> set (Q i)" "u \<in> set (Q j)" for u i j
    using rep_disjoint [OF sched_invD(1) [OF inv]] that by blast
  have "u \<in> set (Q3 i) \<and> m_tcb s4 u = m_tcb s u"
    if "i < 4" "u \<noteq> t" "u \<in> set (Q i)" "\<not> (joiner s t u \<and> i \<ge> 2)" for u i
    using that dis [of i 2 u] dis [of i 3 u] w(7-10) j2 mv(11) tcb4 by (auto simp: less_4_iff)
  moreover have "u \<notin> set (Q 2)" if "u \<in> set (Q 3)" for u
    using dis [of 2 3 u] that by auto
  ultimately have "finished s Q t s4 Q3"
    unfolding finished_def using w(8-11) t mv(3,11) j2 tcb4 by (auto simp: make_ready_def)
  moreover have "queued Q3 u = queued Q2 u" for u
    using w(7-10) by (auto simp: queued_iff)
  then have "queued Q3 u = queued Q u" for u
    using mv(10) q by auto
  moreover have "m_tcb s4 t = ?c"
    unfolding w(11) using t mv(3) by simp
  ultimately show ?thesis
    using m w(1-6) mv(6,8) timed_move [OF inv _ r c]
    by (intro exI [of _ s4] exI [of _ Q3]) (auto simp: tasks_finish_def)
qed

section \<open>Dispatching and switching\<close>

definition no_running :: "mrb_state \<Rightarrow> (nat \<Rightarrow> tid list) \<Rightarrow> bool" where
  "no_running s Q \<longleftrightarrow> (\<forall>t. queued Q t \<longrightarrow> status_of s t \<noteq> TASKSTATUS_RUNNING)"

lemma no_running_sorted:
  assumes "sched_invp pr s Q" "no_running s Q" "i < 4" "0 < i" pr
  shows "prio_sorted (m_tcb s) (Q i)"
proof -
  have "filter (\<lambda>u. status_of s u \<noteq> TASKSTATUS_RUNNING) (Q i) = Q i"
    using assms(2,3) queued_in [of _ Q i] by (auto simp: no_running_def filter_id_conv)
  then show ?thesis
    using sched_invD(2) [OF assms(1,3,4,5)] by (simp add: q_sorted_def)
qed

lemma dispatch_ok:
  assumes inv: "sched_invp pr s Q" and nr: "no_running s Q" and h: "Q 1 = t # ts"
  shows "sched_invp pr (tasks_dispatch t s) Q \<and> timed (tasks_dispatch t s) Q = timed s Q"
proof
  let ?s = "tasks_dispatch t s"
  have tcb: "m_tcb ?s = (m_tcb s)(t := (m_tcb s t)\<lparr>t_status := TASKSTATUS_RUNNING,
      t_timeslice := MRB_TIMESLICE_TICK_COUNT\<rparr>)"
    and fr: "m_next ?s = m_next s" "m_queues ?s = m_queues s" "m_c ?s = Some t"
    by (simp_all add: tasks_dispatch_def)
  have t1: "q_index (status_of s t) = Some 1"
    using repD(3) [OF sched_invD(1) [OF inv], of 1 t] h by simp
  show "sched_invp pr ?s Q"
  proof (rule sched_invI)
    show "rep ?s Q"
      by (rule rep_upd_tcb [OF sched_invD(1) [OF inv] tcb fr(1,2)]) (simp add: t1)
    have pp: "pprio (m_tcb ?s) u = pprio (m_tcb s) u" for u by (simp add: tcb)
    show "q_sorted (m_tcb ?s) (Q i)" if "i < 4" "0 < i" pr for i
      using no_running_sorted [OF inv nr that] by (simp add: q_sorted_def pp sorted_filter)
    show "m_c ?s = Some u" if "queued Q u" "status_of ?s u = TASKSTATUS_RUNNING" for u
      using that nr fr(3) tcb by (auto simp: no_running_def split: if_splits)
    show "reason_ok i (m_tcb ?s u)" if "i < 4" "u \<in> set (Q i)" for i u
      using sched_invD(4) [OF inv that] by (auto simp: tcb reason_ok_def)
  qed
  show "timed ?s Q = timed s Q"
    by (rule timed_cong) (auto simp: tasks_dispatch_def)
qed

text \<open>The task at the head of the ready queue has the highest priority.\<close>

lemma dispatch_highest:
  assumes "sched_inv s Q" "no_running s Q" "Q 1 = t # ts" "u \<in> set (Q 1)"
  shows "pprio (m_tcb s) t \<le> pprio (m_tcb s) u"
  using no_running_sorted [OF assms(1,2), of 1] assms(3,4) by auto

lemma q_delete_upd:
  assumes "q_index (t_status (f (m_tcb s t))) = q_index (status_of s t)"
  shows "q_delete_task (upd_tcb t f s) t = map_option (upd_tcb t f) (q_delete_task s t)"
  using assms by (auto simp: q_delete_task_def bind_eq_None_conv split: option.splits bind_splits)

lemma switch_ok:
  assumes inv: "sched_invp pr s Q" and q: "queued Q t"
  shows "\<exists>s' Q'. tasks_switch t s = Some s' \<and> sched_invp pr s' Q' \<and> (timed s Q \<longrightarrow> timed s' Q') \<and>
    queued Q' = queued Q \<and> m_c s' = m_c s \<and> status_of s' t \<noteq> TASKSTATUS_RUNNING \<and>
    (\<forall>u. u \<noteq> t \<longrightarrow> m_tcb s' u = m_tcb s u) \<and> t_value (m_tcb s' t) = t_value (m_tcb s t) \<and>
    (status_of s t = TASKSTATUS_RUNNING \<longrightarrow> status_of s' t = TASKSTATUS_READY \<and>
      Q' 1 = task_ins (m_tcb s) t (filter (\<lambda>u. u \<noteq> t) (Q 1)))"
proof (cases "status_of s t = TASKSTATUS_RUNNING")
  case False
  with inv show ?thesis by (auto simp: tasks_switch_def)
next
  case True
  let ?f = "t_status_update (\<lambda>_. TASKSTATUS_READY)" and ?c = "(m_tcb s t)\<lparr>t_status := TASKSTATUS_READY\<rparr>"
  have t1: "t \<in> set (Q 1)"
    using rep_queued_index [OF sched_invD(1) [OF inv] q] True by simp
  then have c: "tcb_ok ?c"
    using sched_invD(4) [OF inv, of 1 t] by (auto simp: tcb_ok_def reason_ok_def)
  obtain s1 s2 Q' where m: "q_delete_task s t = Some s1" "q_insert_task (upd_tcb t ?f s1) t = Some s2"
    and r: "move_res pr s Q t ?c s2 Q'"
    using move_task [OF inv q c, of ?f] by auto
  have "q_delete_task (upd_tcb t ?f s) t = Some (upd_tcb t ?f s1)"
    using q_delete_upd [of ?f s t] True m(1) by simp
  with m(2) True have run: "tasks_switch t s = Some s2"
    by (simp add: tasks_switch_def)
  have "Q' = requeue ((m_tcb s)(t := ?c)) t 1 1 Q"
    using move_resD(2) [OF r] True by (simp add: moved_def)
  then have "Q' 1 = task_ins ((m_tcb s)(t := ?c)) t (filter (\<lambda>u. u \<noteq> t) (Q 1))"
    by (simp add: requeue_def)
  also have "\<dots> = task_ins (m_tcb s) t (filter (\<lambda>u. u \<noteq> t) (Q 1))"
    unfolding task_ins_def by (auto intro!: arg_cong2 [where f = append] takeWhile_cong dropWhile_cong)
  finally show ?thesis
    using run move_resD [OF r] q timed_move [OF inv _ r c]
    by (intro exI [of _ s2] exI [of _ Q']) (auto simp: fun_eq_iff)
qed

section \<open>Creating and deleting tasks\<close>

definition new_context :: "mrb_state \<Rightarrow> RProc \<Rightarrow> mrb_context" where
  "new_context s proc = \<lparr>c_stbase = Some (m_top_self s # replicate (TASK_STACK_INIT_SIZE +
       (if TASK_STACK_INIT_SIZE < p_nregs proc then p_nregs proc else 0) - 1) VNil),
     c_cibase = Some (\<lparr>ci_proc = Some proc, ci_u = U_CLASS (m_object_class s), ci_stack = True\<rparr> #
       replicate (TASK_CI_INIT_SIZE - 1) ci_zero),
     c_ci = Some 0, c_status = MRB_TASK_CREATED\<rparr>"

lemma init_context_eq:
  "mrb_task_init_context t proc s =
     (if 1024 < p_nregs proc
      then Some (Some (RuntimeError ''Task stack size too large''), upd_ctx t cleanup_context s)
      else Some (None, upd_ctx t (\<lambda>_. new_context s proc) s))"
proof -
  have ci: "replicate TASK_CI_INIT_SIZE ci_zero = ci_zero # replicate (TASK_CI_INIT_SIZE - 1) ci_zero"
    by (simp add: TASK_CI_INIT_SIZE_def numeral_eq_Suc)
  show ?thesis
    unfolding mrb_task_init_context_def mrb_task_reset_context_def Let_def ci
    by (simp add: new_context_def cleanup_context_def ci_zero_def TASK_STACK_INIT_SIZE_def)
qed

lemma rep_fresh:
  assumes r: "rep s Q" and t: "\<not> queued Q t" and "m_tcb s' = (m_tcb s)(t := c)"
    and "m_next s' = (m_next s)(t := None)" "m_queues s' = m_queues s"
  shows "rep s' Q"
proof (unfold rep_def, intro allI impI conjI ballI)
  fix i :: nat assume i: "i < 4"
  then have ti: "t \<notin> set (Q i)" using t by (auto simp: queued_def)
  then have "linked (m_next s') p (Q i) = linked (m_next s) p (Q i)" for p
    using assms(4) by (intro linked_frame) auto
  then show "linked (m_next s') (m_queues s' i) (Q i)"
    using repD(1) [OF r i] assms(5) by simp
  show "distinct (Q i)" by (rule repD(2) [OF r i])
  fix u assume "u \<in> set (Q i)"
  with ti repD(3) [OF r i this] assms(3) show "q_index (status_of s' u) = Some i" by auto
qed

lemma insert_new:
  assumes inv: "sched_invp pr s Q" and t: "\<not> queued Q t"
    and s0: "m_tcb s0 = (m_tcb s)(t := c)" "m_next s0 = (m_next s)(t := None)"
      "m_queues s0 = m_queues s" "m_c s0 = m_c s"
    and c: "t_status c = TASKSTATUS_READY" "t_reason c = TASKREASON_NONE"
  shows "\<exists>s'. q_insert_task s0 t = Some s' \<and> same_but_links s0 s' \<and>
    sched_invp pr s' (Q(1 := task_ins (m_tcb s0) t (Q 1)))"
proof -
  have r: "rep s0 Q" by (rule rep_fresh [OF sched_invD(1) [OF inv] t s0(1-3)])
  obtain s' where s': "q_insert_task s0 t = Some s'" "same_but_links s0 s'"
    "rep s' (Q(1 := task_ins (m_tcb s0) t (Q 1)))"
    using q_insert_rep [OF r _ t, of 1] s0(1) c(1) by auto
  let ?Q = "Q(1 := task_ins (m_tcb s0) t (Q 1))"
  have fr: "m_tcb s' = (m_tcb s)(t := c)" "m_c s' = m_c s"
    using s'(2) s0 by (simp_all add: frame_simps)
  have tQ: "t \<notin> set (Q i)" if "i < 4" for i using t that by (auto simp: queued_def)
  have srt: "q_sorted (m_tcb s0) (Q i)" if "i < 4" "0 < i" pr for i
    using sched_invD(2) [OF inv that] tQ [OF that(1)] s0(1)
    by (subst q_sorted_cong [of _ _ "m_tcb s"]) auto
  have "sched_invp pr s' ?Q"
  proof (rule sched_invI [OF s'(3)])
    show "q_sorted (m_tcb s') (?Q i)" if "i < 4" "0 < i" pr for i
      using srt [OF that] srt [OF _ _ that(3), of 1] s0(1) fr(1) c(1) q_sorted_task_ins [of "m_tcb s0" "Q 1" t]
      by (cases "i = 1") simp_all
    show "m_c s' = Some u" if "queued ?Q u" "status_of s' u = TASKSTATUS_RUNNING" for u
      using that fr c(1) sched_invD(3) [OF inv, of u]
      by (auto simp: queued_iff split: if_splits)
    show "reason_ok i (m_tcb s' u)" if "i < 4" "u \<in> set (?Q i)" for i u
      using that fr c sched_invD(4) [OF inv, of i u] tQ [of i]
      by (cases "u = t") (auto simp: reason_ok_def split: if_splits)
  qed
  with s' show ?thesis by blast
qed

text \<open>The state in which \<open>mrb_create_task\<close> inserts the new task.\<close>

definition new_task_state ::
  "tid \<Rightarrow> RProc \<Rightarrow> mrb_value \<Rightarrow> int \<Rightarrow> mrb_value \<Rightarrow> mrb_state \<Rightarrow> mrb_state" where
  "new_task_state t proc name n top_self s =
     (let c = new_context s proc;
          c = (if top_self = VNil then c else c\<lparr>c_stbase := map_option (\<lambda>st. st[0 := top_self]) (c_stbase c)\<rparr>)
      in snd (c_list_add True t (s\<lparr>m_context_id := m_context_id s + 1,
        m_next := (m_next s)(t := None),
        m_iv_name := (m_iv_name s)(t := if name = VNil
          then VStr (map (\<lambda>c. of_nat (of_char c)) ''(noname)'') else name),
        m_tcb := (m_tcb s)(t := zero_tcb\<lparr>t_priority := word_of_int n,
          t_priority_preemption := word_of_int n, t_status := TASKSTATUS_READY,
          t_context_id := m_context_id s + 1, t_c := c, t_task := VObj t\<rparr>)\<rparr>)))"

lemma c_list_add_True: "fst (c_list_add True t s) = None"
  by (simp add: c_list_add_def Let_def)

lemma c_list_add_frame [simp]:
  "m_tcb (snd (c_list_add b t s)) = m_tcb s" "m_next (snd (c_list_add b t s)) = m_next s"
  "m_queues (snd (c_list_add b t s)) = m_queues s" "m_c (snd (c_list_add b t s)) = m_c s"
  "m_tick (snd (c_list_add b t s)) = m_tick s"
  "m_wakeup_tick (snd (c_list_add b t s)) = m_wakeup_tick s"
  by (simp_all add: c_list_add_def Let_def)

lemma create_eq:
  assumes "p_nregs proc \<le> 1024"
    and "prio = VInt n \<or> prio = VNil \<and> n = MRB_TASK_DEFAULT_PRIORITY"
  shows "mrb_create_task (Some t) True proc name prio top_self s = do {
      s1 \<leftarrow> q_insert_task (new_task_state t proc name n top_self s) t;
      s1 \<leftarrow> (if status_of s1 t AND TASKSTATUS_READY \<noteq> 0 then preempt_running_task s1 else Some s1);
      Some (Inr (VObj t), s1) }"
proof -
  have split: "(case c_list_add True t x of (Some e, s) \<Rightarrow> f e s | (None, s) \<Rightarrow> g s) =
      g (snd (c_list_add True t x))" for x f and g :: "mrb_state \<Rightarrow> 'a"
    using c_list_add_True [of t x] by (cases "c_list_add True t x") auto
  have comm: "c\<lparr>t_c := x, t_task := y\<rparr> = c\<lparr>t_task := y, t_c := x\<rparr>" for c x y
    by simp
  have p: "(case prio of VNil \<Rightarrow> Inr MRB_TASK_DEFAULT_PRIORITY | VInt i \<Rightarrow> Inr i
      | _ \<Rightarrow> Inl (TypeError ''priority must be an Integer'')) = Inr n"
    using assms(2) by auto
  show ?thesis
    unfolding mrb_create_task_def p mrb_tcb_new_def init_context_eq Let_def sum.case option.case
      prod.case split
    using assms(1)
    by (auto simp: new_task_state_def Let_def split new_context_def comm)
qed

text \<open>
  \<open>mrb_create_task\<close> on a fresh TCB: the new task is ready, behind the tasks of its priority,
  with the truncated priority.
\<close>

lemma create_ok:
  assumes inv: "sched_invp pr s Q" and t: "\<not> queued Q t" and proc: "p_nregs proc \<le> 1024"
    and prio: "prio = VInt n \<or> prio = VNil \<and> n = MRB_TASK_DEFAULT_PRIORITY"
  shows "\<exists>s' Q'. mrb_create_task (Some t) True proc name prio top_self s = Some (Inr (VObj t), s') \<and>
    sched_invp pr s' Q' \<and> (timed s Q \<longrightarrow> timed s' Q') \<and> m_c s' = m_c s \<and>
    Q' = Q(1 := task_ins (m_tcb s') t (Q 1)) \<and> status_of s' t = TASKSTATUS_READY \<and>
    t_priority (m_tcb s' t) = word_of_int n \<and> pprio (m_tcb s') t = word_of_int n \<and>
    (\<forall>u. u \<noteq> t \<longrightarrow> m_tcb s' u = m_tcb s u)"
proof -
  let ?s0 = "new_task_state t proc name n top_self s"
  let ?Q = "Q(1 := task_ins (m_tcb ?s0) t (Q 1))"
  define c where "c = m_tcb ?s0 t"
  have s0: "m_tcb ?s0 = (m_tcb s)(t := c)" "m_next ?s0 = (m_next s)(t := None)"
      "m_queues ?s0 = m_queues s" "m_c ?s0 = m_c s" "m_tick ?s0 = m_tick s"
      "m_wakeup_tick ?s0 = m_wakeup_tick s"
    by (simp_all add: new_task_state_def Let_def c_def)
  have c: "t_status c = TASKSTATUS_READY" "t_reason c = TASKREASON_NONE"
      "t_priority c = word_of_int n" "t_priority_preemption c = word_of_int n"
    by (simp_all add: new_task_state_def Let_def c_def zero_tcb_def)
  obtain s1 where s1: "q_insert_task ?s0 t = Some s1" "same_but_links ?s0 s1" "sched_invp pr s1 ?Q"
    using insert_new [OF inv t s0(1-4) c(1,2)] by blast
  have fr: "m_tcb s1 = (m_tcb s)(t := c)" "m_c s1 = m_c s" "m_tick s1 = m_tick s"
      "m_wakeup_tick s1 = m_wakeup_tick s"
    using s1(2) s0 by (simp_all add: frame_simps)
  let ?s = "s1\<lparr>m_switching := m_switching s1 \<or> (\<exists>t\<in>set (?Q 1). status_of s1 t = TASKSTATUS_RUNNING)\<rparr>"
  have "mrb_create_task (Some t) True proc name prio top_self s = Some (Inr (VObj t), ?s)"
    unfolding create_eq [OF proc prio] using s1(1) preempt_running_task_eq [OF s1(3)] fr(1) c(1) by simp
  moreover have "t \<notin> set (Q 2)" using t by (simp add: queued_iff)
  then have "timed ?s ?Q = timed s Q"
    using fr by (auto simp: timed_def tick_diff_def)
  ultimately show ?thesis
    using s1(3) fr c s0(1) sched_inv_switching by (intro exI [of _ ?s] exI [of _ ?Q]) simp
qed

text \<open>A type error changes nothing, an oversized program nothing of the queues.\<close>

lemma create_type_error:
  assumes "\<forall>n. prio \<noteq> VInt n" "prio \<noteq> VNil"
  shows "mrb_create_task addr b proc name prio top_self s =
    Some (Inl (TypeError ''priority must be an Integer''), s)"
  using assms by (cases prio) (simp_all add: mrb_create_task_def)

lemma create_too_large:
  assumes "1024 < p_nregs proc" and "prio = VInt n \<or> prio = VNil"
  shows "\<exists>s'. mrb_create_task (Some t) b proc name prio top_self s =
      Some (Inl (RuntimeError ''Task stack size too large''), s') \<and> m_queues s' = m_queues s \<and>
    (\<forall>u. u \<noteq> t \<longrightarrow> m_tcb s' u = m_tcb s u \<and> m_next s' u = m_next s u)"
  using assms by (auto simp: mrb_create_task_def mrb_tcb_new_def init_context_eq Let_def)

text \<open>
  Whatever the arguments, a creation on a fresh TCB is defined; when it raises, the queues are
  as before.
\<close>

lemma c_list_add_room:
  assumes "\<not> (m_c_list_capa s = 0 \<or> m_c_list_capa s \<le> length (m_c_list s))"
  shows "c_list_add b t s = (None, s\<lparr>m_c_list := m_c_list s @ [Some t]\<rparr>)"
  using assms by (simp add: c_list_add_def)

lemma c_list_add_full:
  assumes "m_c_list_capa s = 0 \<or> m_c_list_capa s \<le> length (m_c_list s)"
  obtains e s' where "c_list_add False t s = (Some e, s')" "m_tcb s' = m_tcb s" "m_next s' = m_next s"
    "m_queues s' = m_queues s" "m_c s' = m_c s" "m_tick s' = m_tick s" "m_wakeup_tick s' = m_wakeup_tick s"
proof (cases "m_c_list_capa s = 0")
  case True
  then have "c_list_add False t s = (Some (RuntimeError ''Failed to allocate context list''), s)"
    by (simp add: c_list_add_def)
  then show thesis by (rule that) simp_all
next
  case False
  define s1 where "s1 = (if TASK_LIST_MAX_SIZE < m_c_list_capa s + TASK_LIST_UNIT_SIZE
    then s\<lparr>m_warnings := m_warnings s @ [''Too many tasks'']\<rparr> else s)"
  have "c_list_add False t s = (Some (RuntimeError ''Failed to reallocate context list''), s1)"
    using assms False by (simp add: c_list_add_def Let_def s1_def)
  then show thesis by (rule that) (simp_all add: s1_def)
qed

lemma create_raises:
  assumes prio: "prio = VInt n \<or> prio = VNil" and bad: "1024 < p_nregs proc \<or>
    \<not> list_ok \<and> (m_c_list_capa s = 0 \<or> m_c_list_capa s \<le> length (m_c_list s))"
  shows "\<exists>e s' c. mrb_create_task (Some t) list_ok proc name prio top_self s = Some (Inl e, s') \<and>
    m_tcb s' = (m_tcb s)(t := c) \<and> m_next s' = (m_next s)(t := None) \<and> m_queues s' = m_queues s \<and>
    m_c s' = m_c s \<and> m_tick s' = m_tick s \<and> m_wakeup_tick s' = m_wakeup_tick s"
proof (cases "1024 < p_nregs proc")
  case True
  with prio show ?thesis
    by (auto simp: mrb_create_task_def mrb_tcb_new_def init_context_eq Let_def)
next
  case False
  obtain k where p: "(case prio of VNil \<Rightarrow> Inr MRB_TASK_DEFAULT_PRIORITY | VInt i \<Rightarrow> Inr i
      | _ \<Rightarrow> Inl (TypeError ''priority must be an Integer'')) = Inr k"
    using prio by auto
  obtain x c where x: "mrb_create_task (Some t) list_ok proc name prio top_self s =
      (case c_list_add list_ok t x of (Some e, s) \<Rightarrow> Some (Inl e, s)
       | (None, s) \<Rightarrow> do { s \<leftarrow> q_insert_task s t;
           s \<leftarrow> (if status_of s t AND TASKSTATUS_READY \<noteq> 0 then preempt_running_task s else Some s);
           Some (Inr (VObj t), s) })"
    "m_tcb x = (m_tcb s)(t := c)" "m_next x = (m_next s)(t := None)" "m_queues x = m_queues s"
    "m_c x = m_c s" "m_tick x = m_tick s" "m_wakeup_tick x = m_wakeup_tick s"
    "m_c_list_capa x = m_c_list_capa s" "m_c_list x = m_c_list s"
    unfolding mrb_create_task_def p mrb_tcb_new_def init_context_eq Let_def sum.case option.case prod.case
    using False by (cases "top_self = VNil") auto
  from False bad x(8,9) have "\<not> list_ok" "m_c_list_capa x = 0 \<or> m_c_list_capa x \<le> length (m_c_list x)"
    by auto
  from c_list_add_full [OF this(2), of t] this(1) x show ?thesis by fastforce
qed

lemma create_room:
  assumes "p_nregs proc \<le> 1024" "\<not> (m_c_list_capa s = 0 \<or> m_c_list_capa s \<le> length (m_c_list s))"
    and "prio = VInt n \<or> prio = VNil"
  shows "mrb_create_task (Some t) list_ok proc name prio top_self s =
    mrb_create_task (Some t) True proc name prio top_self s"
  using assms by (auto simp: mrb_create_task_def mrb_tcb_new_def init_context_eq Let_def c_list_add_room)

text \<open>What a creation leaves: \<open>t\<close> may have become a ready task, all other tasks are as before.\<close>

definition created :: "mrb_state \<Rightarrow> (nat \<Rightarrow> tid list) \<Rightarrow> tid \<Rightarrow> mrb_state \<Rightarrow> (nat \<Rightarrow> tid list) \<Rightarrow> bool" where
  "created s Q t s' Q' \<longleftrightarrow> (timed s Q \<longrightarrow> timed s' Q') \<and> m_c s' = m_c s \<and>
     (\<forall>u. u \<noteq> t \<longrightarrow> queued Q' u = queued Q u \<and> m_tcb s' u = m_tcb s u) \<and>
     (queued Q' t \<longrightarrow> status_of s' t = TASKSTATUS_READY)"

lemma create_total:
  assumes inv: "sched_invp pr s Q" and t: "\<not> queued Q t"
  shows "\<exists>r s' Q'. mrb_create_task (Some t) list_ok proc name prio top_self s = Some (r, s') \<and>
    sched_invp pr s' Q' \<and> created s Q t s' Q'"
proof (cases "\<exists>n. prio = VInt n \<or> prio = VNil \<and> n = MRB_TASK_DEFAULT_PRIORITY")
  case False
  then have "mrb_create_task (Some t) list_ok proc name prio top_self s =
      Some (Inl (TypeError ''priority must be an Integer''), s)"
    by (intro create_type_error) auto
  with inv t show ?thesis by (auto simp: created_def)
next
  case True
  then obtain n where n: "prio = VInt n \<or> prio = VNil \<and> n = MRB_TASK_DEFAULT_PRIORITY" by blast
  show ?thesis
  proof (cases "1024 < p_nregs proc \<or>
      \<not> list_ok \<and> (m_c_list_capa s = 0 \<or> m_c_list_capa s \<le> length (m_c_list s))")
    case True
    obtain e s' c where r: "mrb_create_task (Some t) list_ok proc name prio top_self s = Some (Inl e, s')"
      "m_tcb s' = (m_tcb s)(t := c)" "m_next s' = (m_next s)(t := None)" "m_queues s' = m_queues s"
      "m_c s' = m_c s" "m_tick s' = m_tick s" "m_wakeup_tick s' = m_wakeup_tick s"
      using create_raises [OF _ True] n by blast
    have tQ: "u \<noteq> t" if "i < 4" "u \<in> set (Q i)" for i u using t that by (auto simp: queued_def)
    have "q_sorted (m_tcb s') (Q i)" if "i < 4" "0 < i" pr for i
      using sched_invD(2) [OF inv that] tQ [OF that(1)] r(2)
      by (subst q_sorted_cong [of _ _ "m_tcb s"]) auto
    then have "sched_invp pr s' Q"
      using rep_fresh [OF sched_invD(1) [OF inv] t r(2,3,4)] sched_invD(3,4) [OF inv] r(2,5) t tQ
      by (intro sched_invI) (auto split: if_splits)
    moreover have "timed s' Q = timed s Q"
      using r(2,6,7) tQ [of 2] by (intro timed_cong) auto
    ultimately show ?thesis
      using r t by (intro exI [of _ "Inl e"] exI [of _ s'] exI [of _ Q]) (simp add: created_def)
  next
    case False
    then have "mrb_create_task (Some t) list_ok proc name prio top_self s =
        mrb_create_task (Some t) True proc name prio top_self s"
      using n by (cases list_ok) (auto intro: create_room)
    moreover obtain s' where "mrb_create_task (Some t) True proc name prio top_self s = Some (Inr (VObj t), s')"
      "sched_invp pr s' (Q(1 := task_ins (m_tcb s') t (Q 1)))"
      "timed s Q \<longrightarrow> timed s' (Q(1 := task_ins (m_tcb s') t (Q 1)))" "m_c s' = m_c s"
      "status_of s' t = TASKSTATUS_READY" "\<forall>u. u \<noteq> t \<longrightarrow> m_tcb s' u = m_tcb s u"
      using create_ok [OF inv t _ n, of proc name top_self] False by auto
    ultimately show ?thesis
      by (intro exI [of _ "Inr (VObj t)"] exI [of _ s'] exI [of _ "Q(1 := task_ins (m_tcb s') t (Q 1))"])
        (auto simp: created_def queued_iff)
  qed
qed

text \<open>The operations of the sandbox on the context of a task leave the queues alone.\<close>

lemma context_ok:
  assumes inv: "sched_invp pr s Q" and op: "mrb_task_init_context t proc s = Some (e, s') \<or>
    mrb_task_reset_context t s = Some s' \<or> mrb_task_proc_set t proc s = Some s'"
  shows "sched_invp pr s' Q \<and> timed s' Q = timed s Q \<and> m_c s' = m_c s"
proof -
  obtain f where "s' = upd_ctx t f s"
    using op by (auto simp: init_context_eq mrb_task_reset_context_def mrb_task_proc_set_def Let_def
        split: if_splits option.splits list.splits)
  with upd_field_ok [OF inv, of s' t] show ?thesis by simp
qed

lemma delete_ok:
  assumes inv: "sched_invp pr s Q" and t: "status_of s t = TASKSTATUS_DORMANT" "queued Q t"
  shows "\<exists>s' Q'. mrb_delete_task t s = Some (True, s') \<and> sched_invp pr s' Q' \<and> (timed s Q \<longrightarrow> timed s' Q') \<and>
    \<not> queued Q' t \<and> (\<forall>u. u \<noteq> t \<longrightarrow> queued Q' u = queued Q u) \<and> m_c s' = m_c s"
proof -
  have t0: "t \<in> set (Q 0)" "q_index (status_of s t) = Some 0"
    using rep_queued_index [OF sched_invD(1) [OF inv] t(2)] t(1) by simp_all
  let ?Q = "Q(0 := filter (\<lambda>u. u \<noteq> t) (Q 0))"
  obtain s' where s': "q_delete_task s t = Some s'" "same_but_links s s'" "rep s' ?Q"
    using q_delete_rep [OF sched_invD(1) [OF inv] t0(2,1)] by blast
  have fr: "m_tcb s' = m_tcb s" "m_c s' = m_c s" "m_tick s' = m_tick s" "m_wakeup_tick s' = m_wakeup_tick s"
    using s'(2) by (simp_all add: frame_simps)
  have "sched_invp pr s' ?Q"
    using s'(3) fr sched_invD(2-4) [OF inv]
    by (intro sched_invI) (auto simp: q_sorted_filter queued_iff split: if_splits)
  moreover have "\<not> queued ?Q t"
    using rep_disjoint [OF sched_invD(1) [OF inv], of 0 _ t] t0(1) by (auto simp: queued_def)
  moreover have "timed s' ?Q = timed s Q"
    using fr by (simp add: timed_def tick_diff_def)
  ultimately show ?thesis
    using s'(1) fr t(1) by (intro exI [of _ s'] exI [of _ ?Q]) (auto simp: mrb_delete_task_def queued_iff)
qed

section \<open>The scheduler as a transition system\<close>

text \<open>
  The processor is either in the dispatch loop or in the virtual machine, which runs the task
  of the current context. The tick interrupt may come in both modes. In the machine the task
  may call the operations of the scheduler in any order and with any arguments; a handle of a
  task is a Task object, whose TCB is in one of the queues. The one exception is
  \<open>mrb_delete_task\<close>, which is no method and is called nowhere in the repository: a task does not
  delete itself. A run consists of operations that return or raise: an operation that is
  undefined for the C code (\<open>None\<close>) has no successor, and \<open>scheduler_operations_defined\<close> says
  which they are.

  Two properties of a program are not enforced by the code, and are assumptions a theorem may
  name in the set \<open>A\<close> of a run:
  \<^item> \<open>Prompt\<close>: a task calls \<open>Task.pass\<close> only while it is running or after it has terminated
    itself, but not after it was suspended or put to sleep. The virtual machine makes this so
    when it returns as soon as the switching flag is set, which these operations do (and
    \<open>mrb_terminate_task\<close> does not).
  \<^item> \<open>InTime\<close>: no sleep is negative or longer than \<open>2 ^ 32 - 4\<close> ms, and a task that was
    suspended in its sleep is resumed within \<open>2 ^ 30\<close> ticks of its wake-up tick, so that the
    signed comparison of ticks tells past and future apart.
\<close>

datatype assumption = Prompt | InTime

datatype cpu_mode = Loop | Vm tid

definition listed :: "mrb_state \<Rightarrow> tid \<Rightarrow> bool" where
  "listed s t \<longleftrightarrow> (case all_tasks s of None \<Rightarrow> False | Some ts \<Rightarrow> t \<in> set ts)"

definition pass_prompt :: "mrb_state \<Rightarrow> tid \<Rightarrow> bool" where
  "pass_prompt s t \<longleftrightarrow> status_of s t \<in> {TASKSTATUS_RUNNING, TASKSTATUS_DORMANT}"

definition resume_in_time :: "mrb_state \<Rightarrow> tid \<Rightarrow> bool" where
  "resume_in_time s t \<longleftrightarrow> (sleeping (m_tcb s) t \<longrightarrow>
     - (2 ^ 30) < tick_diff s (t_wakeup_tick (m_tcb s t)) \<and>
     tick_diff s (t_wakeup_tick (m_tcb s t)) \<le> 2 ^ 30)"

inductive vm_step :: "assumption set \<Rightarrow> tid \<Rightarrow> mrb_state \<Rightarrow> mrb_state \<Rightarrow> bool" for A t where
  vm_tick: "mrb_tick s = Some s' \<Longrightarrow> vm_step A t s s'"
| vm_create: "\<not> listed s u \<Longrightarrow>
    mrb_create_task (Some u) list_ok proc name prio top_self s = Some (r, s') \<Longrightarrow> vm_step A t s s'"
| vm_init_context: "mrb_task_init_context u proc s = Some (e, s') \<Longrightarrow> vm_step A t s s'"
| vm_reset_context: "mrb_task_reset_context u s = Some s' \<Longrightarrow> vm_step A t s s'"
| vm_proc_set: "mrb_task_proc_set u proc s = Some s' \<Longrightarrow> vm_step A t s s'"
| vm_sleep: "(InTime \<in> A \<longrightarrow> 0 \<le> ms \<and> ms \<le> 2 ^ 32 - 4) \<Longrightarrow> sleep_ms_impl ms s = Some s' \<Longrightarrow>
    vm_step A t s s'"
| vm_suspend: "listed s u \<Longrightarrow> mrb_suspend_task u s = Some s' \<Longrightarrow> vm_step A t s s'"
| vm_resume: "listed s u \<Longrightarrow> (InTime \<in> A \<longrightarrow> resume_in_time s u) \<Longrightarrow> mrb_resume_task u s = Some s' \<Longrightarrow>
    vm_step A t s s'"
| vm_terminate: "listed s u \<Longrightarrow> mrb_terminate_task u s = Some s' \<Longrightarrow> vm_step A t s s'"
| vm_stop: "mrb_stop_task u s = (b, s') \<Longrightarrow> vm_step A t s s'"
| vm_join: "mrb_task_join u s = Some (r, s') \<Longrightarrow> vm_step A t s s'"
| vm_pass: "(Prompt \<in> A \<longrightarrow> pass_prompt s t) \<Longrightarrow> mrb_task_s_pass s = Some s' \<Longrightarrow> vm_step A t s s'"
| vm_priority: "mrb_task_priority_set u n s = (v, s') \<Longrightarrow> vm_step A t s s'"
| vm_delete: "u \<noteq> t \<Longrightarrow> mrb_delete_task u s = Some (b, s') \<Longrightarrow> vm_step A t s s'"

text \<open>The invariant of a run: order and timing are part of it when they are assumed.\<close>

definition sched_ok :: "assumption set \<Rightarrow> mrb_state \<Rightarrow> (nat \<Rightarrow> tid list) \<Rightarrow> bool" where
  "sched_ok A s Q \<longleftrightarrow> sched_invp (Prompt \<in> A) s Q \<and> (InTime \<in> A \<longrightarrow> timed s Q)"

definition vm_inv :: "assumption set \<Rightarrow> tid \<Rightarrow> mrb_state \<Rightarrow> bool" where
  "vm_inv A t s \<longleftrightarrow> (\<exists>Q. sched_ok A s Q \<and> m_c s = Some t \<and> queued Q t)"

lemma sched_okD: "sched_ok A s Q \<Longrightarrow> sched_invp (Prompt \<in> A) s Q"
  by (simp add: sched_ok_def)

lemma sched_ok_step:
  assumes "sched_ok A s Q" "sched_invp (Prompt \<in> A) s' Q'" "timed s Q \<longrightarrow> timed s' Q'"
  shows "sched_ok A s' Q'"
  using assms by (simp add: sched_ok_def)

lemma listed_queued: "sched_invp pr s Q \<Longrightarrow> listed s u \<longleftrightarrow> queued Q u"
  by (simp add: listed_def all_tasks_def sched_inv_q_list queued_iff)

lemma vm_invI: "sched_ok A s Q \<Longrightarrow> m_c s = Some t \<Longrightarrow> queued Q t \<Longrightarrow> vm_inv A t s"
  by (auto simp: vm_inv_def)

lemma head_cons:
  assumes "sched_invp pr s Q" "m_queues s 1 = Some h"
  obtains ts where "Q 1 = h # ts"
  using repD(1) [OF sched_invD(1) [OF assms(1)], of 1] assms(2) by (auto simp: linked_Some)

lemma tick_shape:
  assumes "sched_invp pr s Q"
  shows "\<exists>s' Q' W. mrb_tick s = Some s' \<and> ticked pr s Q W s' Q' \<and> W \<subseteq> set (Q 2) \<and>
    (timed s Q \<longrightarrow> timed s' Q')"
proof (cases "timed s Q")
  case True
  then show ?thesis using tick_wakes [OF assms True] by blast
next
  case False
  then show ?thesis
    using tick_late [OF assms] tick_early [OF assms]
    by (cases "sdiff32 (m_wakeup_tick s) (m_tick s + 1) < 0") blast+
qed

lemma tick_queued:
  assumes "sched_invp pr s Q"
  shows "\<exists>s' Q'. mrb_tick s = Some s' \<and> sched_invp pr s' Q' \<and> m_c s' = m_c s \<and> queued Q' = queued Q \<and>
    (timed s Q \<longrightarrow> timed s' Q') \<and> (no_running s Q \<longrightarrow> no_running s' Q')"
proof -
  have "queued Q' = queued Q \<and> (no_running s Q \<longrightarrow> no_running s' Q')"
    if "ticked pr s Q W s' Q'" "W \<subseteq> set (Q 2)" for s' Q' W
  proof
    show q: "queued Q' = queued Q"
      using that by (auto simp: ticked_def queued_iff fun_eq_iff)
    show "no_running s Q \<longrightarrow> no_running s' Q'"
      unfolding no_running_def q
    proof (intro impI allI)
      fix u assume "\<forall>t. queued Q t \<longrightarrow> status_of s t \<noteq> TASKSTATUS_RUNNING" "queued Q u"
      with that show "status_of s' u \<noteq> TASKSTATUS_RUNNING"
        by (cases "u \<in> W") (auto simp: ticked_def same_wait_def)
    qed
  qed
  with tick_shape [OF assms] show ?thesis unfolding ticked_def by metis
qed

lemma delete_any:
  assumes inv: "sched_invp pr s Q"
  shows "\<exists>b s' Q'. mrb_delete_task t s = Some (b, s') \<and> sched_invp pr s' Q' \<and>
    (timed s Q \<longrightarrow> timed s' Q') \<and> m_c s' = m_c s \<and> (\<forall>u. u \<noteq> t \<longrightarrow> queued Q' u = queued Q u)"
proof (cases "status_of s t = TASKSTATUS_DORMANT \<and> queued Q t")
  case True
  then show ?thesis using delete_ok [OF inv, of t] by blast
next
  case False
  then have "\<exists>b. mrb_delete_task t s = Some (b, s)"
    using q_delete_absent [OF sched_invD(1) [OF inv], of t 0] by (auto simp: mrb_delete_task_def)
  with inv show ?thesis by blast
qed

lemma vm_step_inv:
  assumes "vm_step A t s s'" and "vm_inv A t s"
  shows "vm_inv A t s'"
proof -
  obtain Q where ok: "sched_ok A s Q" and c: "m_c s = Some t" and q: "queued Q t"
    using assms(2) by (auto simp: vm_inv_def)
  note inv = sched_okD [OF ok] and go = vm_invI [OF sched_ok_step [OF ok]]
  note qQ = listed_queued [OF inv, THEN iffD1]
  from assms(1) show ?thesis
  proof cases
    case vm_tick
    then show ?thesis using tick_queued [OF inv] c q by (auto intro: go)
  next
    case (vm_create u list_ok proc name prio top_self r)
    then have "\<not> queued Q u" using listed_queued [OF inv] by simp
    with vm_create(2) create_total [OF inv this, of list_ok proc name prio top_self] c q
    show ?thesis by (fastforce simp: created_def intro: go)
  next
    case (vm_init_context u proc e)
    then show ?thesis using context_ok [OF inv, of u proc e s'] c q by (auto intro: go)
  next
    case (vm_reset_context u)
    then show ?thesis using context_ok [OF inv, of u _ _ s'] c q by (auto intro: go)
  next
    case (vm_proc_set u proc)
    then show ?thesis using context_ok [OF inv, of u proc _ s'] c q by (auto intro: go)
  next
    case (vm_sleep ms)
    then obtain h where "m_queues s 1 = Some h" by (auto simp: sleep_ms_impl_def split: option.splits)
    then obtain ts where h: "Q 1 = h # ts" using head_cons [OF inv] by blast
    obtain Q' where r: "sched_invp (Prompt \<in> A) s' Q'" "m_c s' = m_c s" "queued Q' = queued Q"
      "m_tick s' = m_tick s" "t_wakeup_tick (m_tcb s' h) = wakeup_after (m_tick s) ms"
      "m_wakeup_tick s' = (if sdiff32 (wakeup_after (m_tick s) ms) (m_wakeup_tick s) < 0
        then wakeup_after (m_tick s) ms else m_wakeup_tick s)"
      "\<forall>u. u \<noteq> h \<longrightarrow> m_tcb s' u = m_tcb s u" "\<forall>u k. u \<noteq> h \<longrightarrow> u \<in> set (Q' k) \<longleftrightarrow> u \<in> set (Q k)"
      using vm_sleep(2) sleep_ok [OF inv h, of ms] by auto
    have "sched_ok A s' Q'"
      using ok r(1) vm_sleep(1) sleep_timed [OF _ _ _ r(4-8)] by (auto simp: sched_ok_def)
    with r c q show ?thesis by (auto intro: vm_invI)
  next
    case (vm_suspend u)
    then show ?thesis using suspend_ok [OF inv qQ] c q by (fastforce intro: go)
  next
    case (vm_resume u)
    show ?thesis
    proof (cases "status_of s u = TASKSTATUS_SUSPENDED")
      case True
      obtain Q' where "sched_invp (Prompt \<in> A) s' Q'" "queued Q' = queued Q" "m_c s' = m_c s"
        "timed s Q \<longrightarrow> resume_in_time s u \<longrightarrow> timed s' Q'"
        using vm_resume(3) resume_ok [OF inv qQ [OF vm_resume(1)] True] unfolding resume_in_time_def by auto
      with ok c q vm_resume(2) show ?thesis by (auto simp: sched_ok_def intro!: vm_invI)
    next
      case False
      with vm_resume assms(2) show ?thesis by (simp add: mrb_resume_task_def)
    qed
  next
    case (vm_terminate u)
    then show ?thesis using terminate_ok [OF inv qQ] c q by (fastforce intro: go)
  next
    case (vm_stop u b)
    moreover have "m_c (snd (mrb_stop_task u s)) = m_c s" by (simp add: mrb_stop_task_def)
    ultimately show ?thesis using stop_ok [OF inv, of u] c q by (auto intro: go)
  next
    case (vm_join u r)
    show ?thesis
    proof (cases "u = t \<or> status_of s u = TASKSTATUS_DORMANT")
      case True
      with vm_join c assms(2) show ?thesis by (auto simp: mrb_task_join_def split: if_splits)
    next
      case False
      with vm_join show ?thesis using join_ok [OF inv q c, of u] c q by (auto intro: go)
    qed
  next
    case vm_pass
    then show ?thesis using pass_ok [OF inv c] c q by (fastforce simp: pass_prompt_def intro: go)
  next
    case (vm_priority u n v)
    moreover have "m_c (snd (mrb_task_priority_set u n s)) = m_c s"
      by (simp add: mrb_task_priority_set_def Let_def)
    ultimately show ?thesis using priority_set_ok [OF inv, of u n] c q by (auto intro: go)
  next
    case (vm_delete u b)
    with delete_any [OF inv, of u] c q show ?thesis by (fastforce intro: go)
  qed
qed

text \<open>
  The loop: the main program may create tasks before it enters the loop; dispatch hands the
  head of the ready queue to the machine; when the machine returns, with any value and at any
  time, the result is recorded and the task finished or switched.
\<close>

inductive sched_step ::
  "assumption set \<Rightarrow> cpu_mode \<times> mrb_state \<Rightarrow> cpu_mode \<times> mrb_state \<Rightarrow> bool" for A where
  idle_tick: "mrb_tick s = Some s' \<Longrightarrow> sched_step A (Loop, s) (Loop, s')"
| main_create: "\<not> listed s u \<Longrightarrow>
    mrb_create_task (Some u) list_ok proc name prio top_self s = Some (r, s') \<Longrightarrow>
    sched_step A (Loop, s) (Loop, s')"
| dispatch: "m_queues s 1 = Some t \<Longrightarrow> sched_step A (Loop, s) (Vm t, tasks_dispatch t s)"
| vm: "vm_step A t s s' \<Longrightarrow> sched_step A (Vm t, s) (Vm t, s')"
| finish: "s1 = tasks_record t v s \<Longrightarrow> c_status (t_c (m_tcb s1 t)) = MRB_TASK_STOPPED \<Longrightarrow>
    tasks_finish t s1 = Some s' \<Longrightarrow> sched_step A (Vm t, s) (Loop, s')"
| switch: "s1 = tasks_record t v s \<Longrightarrow> c_status (t_c (m_tcb s1 t)) \<noteq> MRB_TASK_STOPPED \<Longrightarrow>
    tasks_switch t s1 = Some s' \<Longrightarrow> sched_step A (Vm t, s) (Loop, s')"

inductive_cases loop_stepE: "sched_step A (Loop, s) ms"
inductive_cases vm_stepE: "sched_step A (Vm t, s) ms"
inductive_simps vm_to_vm_iff: "sched_step A (Vm t, s) (Vm u, s')"

inductive sched_reach :: "assumption set \<Rightarrow> mrb_state \<Rightarrow> cpu_mode \<times> mrb_state \<Rightarrow> bool" for A s where
  reach_init: "sched_reach A s (Loop, scheduler_init s)"
| reach_step: "sched_reach A s c \<Longrightarrow> sched_step A c c' \<Longrightarrow> sched_reach A s c'"

fun mode_inv :: "assumption set \<Rightarrow> cpu_mode \<times> mrb_state \<Rightarrow> bool" where
  "mode_inv A (Loop, s) = (\<exists>Q. sched_ok A s Q \<and> no_running s Q)"
| "mode_inv A (Vm t, s) = vm_inv A t s"

lemma init_inv: "mode_inv A (Loop, scheduler_init s)"
proof -
  have "sched_invp pr (scheduler_init s) (\<lambda>_. [])" "no_running (scheduler_init s) (\<lambda>_. [])"
    "timed (scheduler_init s) (\<lambda>_. [])" for pr
    by (auto simp: sched_invp_def rep_def scheduler_init_def q_sorted_def queued_def no_running_def
        timed_def tick_diff_def sdiff32_def)
  then show ?thesis by (auto simp: sched_ok_def)
qed

lemma dispatch_inv:
  assumes "sched_ok A s Q" "no_running s Q" "m_queues s 1 = Some t"
  shows "vm_inv A t (tasks_dispatch t s)"
proof -
  note inv = sched_okD [OF assms(1)]
  obtain ts where h: "Q 1 = t # ts" using head_cons [OF inv assms(3)] .
  moreover have "m_c (tasks_dispatch t s) = Some t" by (simp add: tasks_dispatch_def)
  moreover have "queued Q t" using h by (simp add: queued_iff)
  ultimately show ?thesis
    using dispatch_ok [OF inv assms(2) h] assms(1) by (auto simp: sched_ok_def intro!: vm_invI)
qed

lemma record_inv: "vm_inv A t s \<Longrightarrow> vm_inv A t (tasks_record t v s)"
proof -
  have "m_c (tasks_record t v s) = m_c s"
    by (simp add: tasks_record_def Let_def split: option.splits)
  then show "vm_inv A t s \<Longrightarrow> vm_inv A t (tasks_record t v s)"
    using record_ok by (fastforce simp: vm_inv_def sched_ok_def)
qed

lemma leave_no_running:
  assumes "sched_invp pr s Q" "m_c s = Some t" "status_of s t \<noteq> TASKSTATUS_RUNNING"
  shows "no_running s Q"
  using sched_invD(3) [OF assms(1)] assms(2,3) by (auto simp: no_running_def)

lemma finish_inv:
  assumes "vm_inv A t s"
  shows "\<exists>s'. tasks_finish t s = Some s' \<and> mode_inv A (Loop, s') \<and> m_exc s' = m_exc s \<and>
    t_value (m_tcb s' t) = t_value (m_tcb s t) \<and> status_of s' t = TASKSTATUS_DORMANT"
proof -
  obtain Q where Q: "sched_ok A s Q" "m_c s = Some t" "queued Q t"
    using assms by (auto simp: vm_inv_def)
  from finish_ok [OF sched_okD [OF Q(1)] Q(3)] obtain s' Q' where r: "tasks_finish t s = Some s'"
    "sched_invp (Prompt \<in> A) s' Q'" "timed s Q \<longrightarrow> timed s' Q'" "m_c s' = m_c s" "m_exc s' = m_exc s"
    "t_value (m_tcb s' t) = t_value (m_tcb s t)" "status_of s' t = TASKSTATUS_DORMANT"
    unfolding finished_def by blast
  moreover have "no_running s' Q'"
    using leave_no_running [OF r(2), of t] r(4,7) Q(2) by simp
  ultimately show ?thesis using sched_ok_step [OF Q(1) r(2,3)] by auto
qed

lemma switch_inv:
  assumes "vm_inv A t s"
  shows "\<exists>s'. tasks_switch t s = Some s' \<and> mode_inv A (Loop, s') \<and>
    t_value (m_tcb s' t) = t_value (m_tcb s t) \<and> status_of s' t \<noteq> TASKSTATUS_RUNNING"
proof -
  obtain Q where Q: "sched_ok A s Q" "m_c s = Some t" "queued Q t"
    using assms by (auto simp: vm_inv_def)
  from switch_ok [OF sched_okD [OF Q(1)] Q(3)] obtain s' Q' where r: "tasks_switch t s = Some s'"
    "sched_invp (Prompt \<in> A) s' Q'" "timed s Q \<longrightarrow> timed s' Q'" "m_c s' = m_c s"
    "status_of s' t \<noteq> TASKSTATUS_RUNNING" "t_value (m_tcb s' t) = t_value (m_tcb s t)"
    by blast
  moreover have "no_running s' Q'"
    using leave_no_running [OF r(2), of t] r(4,5) Q(2) by simp
  ultimately show ?thesis using sched_ok_step [OF Q(1) r(2,3)] by auto
qed

lemma created_no_running:
  assumes "no_running s Q" "created s Q u s' Q'"
  shows "no_running s' Q'"
  unfolding no_running_def
proof (intro allI impI)
  fix v assume "queued Q' v"
  with assms show "status_of s' v \<noteq> TASKSTATUS_RUNNING"
    by (cases "v = u") (auto simp: no_running_def created_def)
qed

lemma sched_step_inv:
  assumes "sched_step A c c'" "mode_inv A c"
  shows "mode_inv A c'"
  using assms
proof cases
  case (idle_tick s s')
  with assms(2) obtain Q where Q: "sched_ok A s Q" "no_running s Q" by auto
  with tick_queued [OF sched_okD [OF Q(1)]] idle_tick show ?thesis
    by (auto intro: sched_ok_step [OF Q(1)])
next
  case (main_create s u list_ok proc name prio top_self r s')
  with assms(2) obtain Q where Q: "sched_ok A s Q" "no_running s Q" by auto
  note inv = sched_okD [OF Q(1)]
  from main_create inv have "\<not> queued Q u" by (simp add: listed_queued)
  then obtain Q' where r: "sched_invp (Prompt \<in> A) s' Q'" "created s Q u s' Q'"
    using create_total [OF inv, of u list_ok proc name prio top_self] main_create(4) by auto
  then have "sched_ok A s' Q'"
    by (intro sched_ok_step [OF Q(1)]) (simp_all add: created_def)
  with created_no_running [OF Q(2) r(2)] main_create show ?thesis by auto
next
  case (dispatch s t)
  with assms(2) show ?thesis by (auto intro: dispatch_inv)
next
  case (vm t s s')
  with assms(2) show ?thesis by (simp add: vm_step_inv)
next
  case (finish s1 t v s s')
  with assms(2) finish_inv [OF record_inv, of A t s v] show ?thesis by auto
next
  case (switch s1 t v s s')
  with assms(2) switch_inv [OF record_inv, of A t s v] show ?thesis by auto
qed

lemma sched_reach_inv: "sched_reach A s c \<Longrightarrow> mode_inv A c"
  by (induction rule: sched_reach.induct) (auto intro: sched_step_inv simp del: mode_inv.simps simp: init_inv)

section \<open>One round of the loop\<close>

text \<open>
  What a round needs of its environment: the machine touches the scheduler's state only
  through operations of the running task that are defined, under the assumptions \<open>A\<close>; the
  collector touches only its own state, and the idle routine lets ticks pass.
\<close>

definition vm_conform :: "assumption set \<Rightarrow> (mrb_state \<Rightarrow> mrb_state \<times> mrb_value) \<Rightarrow> bool" where
  "vm_conform A vm \<longleftrightarrow> (\<forall>s t. m_c s = Some t \<longrightarrow> (vm_step A t)\<^sup>*\<^sup>* s (fst (vm s)))"

definition gc_conform :: "(mrb_state \<Rightarrow> mrb_state) \<Rightarrow> bool" where
  "gc_conform gc \<longleftrightarrow> (\<forall>s. \<exists>b. gc s = s\<lparr>m_gc_idle := b\<rparr>)"

definition idle_conform :: "(mrb_state \<Rightarrow> mrb_state) \<Rightarrow> bool" where
  "idle_conform idle \<longleftrightarrow> (\<forall>s. \<exists>n. ticks n s = Some (idle s))"

lemma vm_steps_inv: "(vm_step A t)\<^sup>*\<^sup>* s s' \<Longrightarrow> vm_inv A t s \<Longrightarrow> vm_inv A t s'"
  by (induction rule: rtranclp_induct) (auto intro: vm_step_inv)

lemma gc_steps_eq:
  assumes "gc_conform gc"
  shows "\<exists>b. gc_steps gc n s = s\<lparr>m_gc_idle := b\<rparr>"
proof (induction n arbitrary: s)
  case 0
  show ?case by (simp, metis mrb_state.surjective mrb_state.update_convs(9))
next
  case (Suc n)
  obtain b where "gc s = s\<lparr>m_gc_idle := b\<rparr>" using assms by (auto simp: gc_conform_def)
  with Suc [of "gc s"] show ?case
    by (auto, metis mrb_state.surjective mrb_state.update_convs(9))
qed

lemma vm_inv_gc: "vm_inv A t (s\<lparr>m_gc_idle := b\<rparr>) = vm_inv A t s"
  by (simp add: vm_inv_def sched_ok_def sched_inv_cong [of "s\<lparr>m_gc_idle := b\<rparr>" s]
      timed_cong [of "s\<lparr>m_gc_idle := b\<rparr>" s])

lemma ticks_mode:
  "mode_inv A (Loop, s) \<Longrightarrow> ticks n s = Some s' \<Longrightarrow> mode_inv A (Loop, s')"
proof (induction n arbitrary: s)
  case (Suc n)
  then obtain s1 where "mrb_tick s = Some s1" "ticks n s1 = Some s'"
    by (auto simp: bind_eq_Some_conv)
  with Suc show ?case
    by (metis sched_step_inv idle_tick)
qed simp

lemma tasks_record_simps [simp]:
  "t_value (m_tcb (tasks_record t v s) t) = (case m_exc s of None \<Rightarrow> v | Some e \<Rightarrow> e)"
  "c_status (t_c (m_tcb (tasks_record t v s) t)) =
     (if m_exc s = None then c_status (t_c (m_tcb s t)) else MRB_TASK_STOPPED)"
  "m_exc (tasks_record t v s) = m_exc s"
  by (simp_all add: tasks_record_def Let_def split: option.split)

text \<open>
  What a round does with the task it dispatches, which the machine leaves in state \<open>s1\<close> with
  the value \<open>v\<close>: its value is \<open>v\<close> or the pending exception, it does not run any more, and it is
  dormant when it has stopped or raised.
\<close>

definition round_result ::
  "tid \<Rightarrow> mrb_value \<Rightarrow> mrb_state \<Rightarrow> mrb_value \<Rightarrow> mrb_value \<Rightarrow> mrb_state \<Rightarrow> bool" where
  "round_result t ret s1 v ret' s' \<longleftrightarrow>
     t_value (m_tcb s' t) = (case m_exc s1 of None \<Rightarrow> v | Some e \<Rightarrow> e) \<and>
     ret' = (case m_exc s1 of None \<Rightarrow> ret | Some e \<Rightarrow> e) \<and>
     status_of s' t \<noteq> TASKSTATUS_RUNNING \<and>
     (m_exc s1 \<noteq> None \<or> c_status (t_c (m_tcb s1 t)) = MRB_TASK_STOPPED \<longrightarrow>
        status_of s' t = TASKSTATUS_DORMANT)"

lemma round_task:
  assumes env: "vm_conform A vm" "gc_conform gc" and inv: "mode_inv A (Loop, s)"
    and h: "m_queues s 1 = Some t" and vm: "vm (tasks_dispatch t s) = (s1, v)"
  shows "\<exists>stop ret' s'. tasks_round vm gc idle ret s = Some (stop, ret', s') \<and> mode_inv A (Loop, s') \<and>
    round_result t ret s1 v ret' s' \<and> (stop \<longrightarrow> all_queues_empty s')"
proof -
  let ?s2 = "tasks_record t v s1"
  have "m_c (tasks_dispatch t s) = Some t" by (simp add: tasks_dispatch_def)
  then have "(vm_step A t)\<^sup>*\<^sup>* (tasks_dispatch t s) s1"
    using env(1) vm by (metis fst_conv vm_conform_def)
  then have "vm_inv A t s1"
    using vm_steps_inv dispatch_inv [OF _ _ h] inv by auto
  then have s2: "vm_inv A t ?s2" by (rule record_inv)
  show ?thesis
  proof (cases "c_status (t_c (m_tcb ?s2 t)) = MRB_TASK_STOPPED")
    case True
    obtain s' where s': "tasks_finish t ?s2 = Some s'" "mode_inv A (Loop, s')" "m_exc s' = m_exc s1"
      "t_value (m_tcb s' t) = (case m_exc s1 of None \<Rightarrow> v | Some e \<Rightarrow> e)" "status_of s' t = TASKSTATUS_DORMANT"
      using finish_inv [OF s2] by auto
    let ?ret = "case m_exc s1 of None \<Rightarrow> ret | Some e \<Rightarrow> e"
    have "tasks_round vm gc idle ret s = Some (all_queues_empty s', ?ret, s')"
      using h vm True s'(1,3) by (simp add: tasks_round_def Let_def del: tasks_record_simps)
    moreover have "round_result t ret s1 v ?ret s'"
      using s' by (simp add: round_result_def)
    ultimately show ?thesis using s'(2) by blast
  next
    case False
    obtain b where gc: "gc_steps gc MAX_GC_STEPS_PER_TICK ?s2 = ?s2\<lparr>m_gc_idle := b\<rparr>"
      using gc_steps_eq [OF env(2)] by blast
    have "vm_inv A t (?s2\<lparr>m_gc_idle := b\<rparr>)" using s2 by (simp add: vm_inv_gc)
    from switch_inv [OF this] obtain s' where s': "tasks_switch t (?s2\<lparr>m_gc_idle := b\<rparr>) = Some s'"
      "mode_inv A (Loop, s')" "t_value (m_tcb s' t) = (case m_exc s1 of None \<Rightarrow> v | Some e \<Rightarrow> e)"
      "status_of s' t \<noteq> TASKSTATUS_RUNNING"
      by auto
    have ne: "m_exc s1 = None" "c_status (t_c (m_tcb s1 t)) \<noteq> MRB_TASK_STOPPED"
      using False by (auto split: if_splits)
    have "tasks_round vm gc idle ret s = Some (False, ret, s')"
      using h vm False gc s'(1) by (simp add: tasks_round_def Let_def del: tasks_record_simps)
    moreover have "round_result t ret s1 v ret s'"
      using s' ne by (simp add: round_result_def)
    ultimately show ?thesis using s'(2) by blast
  qed
qed

lemma round_idle:
  assumes "idle_conform idle" "mode_inv A (Loop, s)" "m_queues s 1 = None"
  shows "tasks_round vm gc idle ret s = Some (False, ret, idle s)" "mode_inv A (Loop, idle s)"
  using assms ticks_mode [OF assms(2)]
  by (auto simp: tasks_round_def idle_conform_def simp del: mode_inv.simps)

lemma round_ok:
  assumes env: "vm_conform A vm" "gc_conform gc" "idle_conform idle" and inv: "mode_inv A (Loop, s)"
  shows "\<exists>stop ret' s'. tasks_round vm gc idle ret s = Some (stop, ret', s') \<and> mode_inv A (Loop, s') \<and>
    (\<forall>t. m_queues s 1 = Some t \<longrightarrow>
       round_result t ret (fst (vm (tasks_dispatch t s))) (snd (vm (tasks_dispatch t s))) ret' s') \<and>
    (stop \<longrightarrow> all_queues_empty s')"
proof (cases "m_queues s 1")
  case None
  with round_idle [OF env(3) inv] show ?thesis by auto
next
  case (Some t)
  with round_task [OF env(1,2) inv Some prod.collapse [symmetric], of idle ret] show ?thesis by auto
qed

lemma loop_result:
  assumes "tasks_loop vm gc idle ret s = Some r"
    and "vm_conform A vm" "gc_conform gc" "idle_conform idle" "mode_inv A (Loop, s)"
  shows "all_queues_empty (snd r) \<and> mode_inv A (Loop, snd r)"
proof -
  let ?P = "\<lambda>vm gc idle ret s r. vm_conform A vm \<longrightarrow> gc_conform gc \<longrightarrow> idle_conform idle \<longrightarrow>
    mode_inv A (Loop, s) \<longrightarrow> all_queues_empty (snd r) \<and> mode_inv A (Loop, snd r)"
  have "?P vm gc idle ret s r"
  proof (rule tasks_loop.raw_induct [where P = ?P, OF _ assms(1)], intro impI)
    fix f vm gc idle ret s r
    assume IH: "\<And>vm gc idle ret s r. f vm gc idle ret s = Some r \<Longrightarrow> ?P vm gc idle ret s r"
      and run: "do { (stop, ret, s) \<leftarrow> tasks_round vm gc idle ret s;
        if stop then Some (ret, s) else f vm gc idle ret s } = Some r"
      and env: "vm_conform A vm" "gc_conform gc" "idle_conform idle" "mode_inv A (Loop, s)"
    obtain stop ret' s' where "tasks_round vm gc idle ret s = Some (stop, ret', s')"
      "mode_inv A (Loop, s')" "stop \<longrightarrow> all_queues_empty s'"
      using round_ok [OF env] by blast
    with run env IH show "all_queues_empty (snd r) \<and> mode_inv A (Loop, snd r)"
      by (cases stop) auto
  qed
  with assms(2-5) show ?thesis by blast
qed

end
