(* ===== verification/TaskProps.thy ===== *)
theory TaskProps
  imports SchedRun
begin

text \<open>
  The properties of the task scheduler, stated over the operations of \<^verbatim>\<open>task.c\<close>, each with a
  concrete instance on a small state.
\<close>

section \<open>A concrete state\<close>

text \<open>
  Three tasks: 10 runs, 20 is ready and has a lower priority, 30 waits for 10 to end.
\<close>

definition blank_state :: mrb_state where
  "blank_state = \<lparr>m_tcb = (\<lambda>_. zero_tcb), m_next = (\<lambda>_. None), m_queues = (\<lambda>_. None), m_tick = 7,
     m_wakeup_tick = 0, m_switching = False, m_c = None, m_exc = None, m_gc_idle = True,
     m_c_list = [], m_c_list_capa = 0, m_context_id = 0, m_warnings = [], m_iv_name = (\<lambda>_. VNil),
     m_top_self = VObj 1, m_object_class = 2\<rparr>"

definition demo_state :: mrb_state where
  "demo_state = (scheduler_init blank_state)\<lparr>
     m_tcb := (\<lambda>_. zero_tcb)
       (10 := zero_tcb\<lparr>t_priority := 5, t_priority_preemption := 5, t_status := TASKSTATUS_RUNNING\<rparr>,
        20 := zero_tcb\<lparr>t_priority := 9, t_priority_preemption := 9, t_status := TASKSTATUS_READY\<rparr>,
        30 := zero_tcb\<lparr>t_status := TASKSTATUS_WAITING, t_reason := TASKREASON_JOIN, t_tcb_join := Some 10\<rparr>),
     m_next := (\<lambda>_. None)(10 := Some 20),
     m_queues := (\<lambda>_. None)(1 := Some 10, 2 := Some 30), m_c := Some 10\<rparr>"

definition demo_queues :: "nat \<Rightarrow> tid list" where
  "demo_queues = (\<lambda>_. [])(1 := [10, 20], 2 := [30])"

lemma demo_inv: "sched_inv demo_state demo_queues"
  by (auto simp: sched_invp_def rep_def demo_state_def demo_queues_def scheduler_init_def blank_state_def
      zero_tcb_def queued_iff less_4_iff q_sorted_def reason_ok_def)

lemma demo_timed: "timed demo_state demo_queues"
  by (simp add: timed_def demo_state_def demo_queues_def scheduler_init_def blank_state_def
      zero_tcb_def tick_diff_def sdiff32_def)

section \<open>Invariants of every reachable state\<close>

text \<open>C1: In every state that a run of the scheduler can reach, whatever operations the tasks
  perform, with whatever arguments, and whenever the tick interrupt comes (as long as no
  operation was undefined; C2 says which can be), the links of the four task queues are lists
  without cycles, no task is in two queues or twice in one, every task is in the queue its
  status selects, and only the task of the current context can be running, and only while the
  virtual machine runs it. If besides no task calls \<open>Task.pass\<close> after it was suspended or
  put to sleep (\<open>Prompt\<close>), the tasks of the ready, the waiting and the suspended queue that do
  not run are in the order of their effective priorities; the dormant queue need not be, since
  a task that has terminated itself may still pass.\<close>

theorem scheduler_queues_wellformed:
  assumes "sched_reach A s0 (m, s)"
  shows "\<exists>Q. (\<forall>i<4. q_list s i = Some (Q i) \<and> distinct (Q i) \<and>
      (\<forall>j<4. j \<noteq> i \<longrightarrow> set (Q i) \<inter> set (Q j) = {}) \<and>
      (\<forall>t\<in>set (Q i). q_index (status_of s t) = Some i) \<and>
      (\<forall>t\<in>set (Q i). status_of s t = TASKSTATUS_RUNNING \<longrightarrow> m = Vm t \<and> m_c s = Some t) \<and>
      (Prompt \<in> A \<longrightarrow> 0 < i \<longrightarrow>
         prio_sorted (m_tcb s) (filter (\<lambda>t. status_of s t \<noteq> TASKSTATUS_RUNNING) (Q i))))"
proof -
  obtain Q where ok: "sched_ok A s Q" and r: "m = Loop \<longrightarrow> no_running s Q"
    and v: "\<And>t. m = Vm t \<Longrightarrow> m_c s = Some t"
    using sched_reach_inv [OF assms] by (cases m) (auto simp: vm_inv_def)
  note inv = sched_okD [OF ok]
  have run: "m = Vm t \<and> m_c s = Some t" if "i < 4" "t \<in> set (Q i)" "status_of s t = TASKSTATUS_RUNNING" for i t
    using sched_invD(3) [OF inv _ that(3)] queued_in [of t Q i] that(1,2) r v that(3)
    by (cases m) (auto simp: no_running_def)
  have dis: "set (Q i) \<inter> set (Q j) = {}" if "i < 4" "j < 4" "j \<noteq> i" for i j
    using rep_disjoint [OF sched_invD(1) [OF inv] that(1,2)] that(3) by blast
  show ?thesis
    using sched_inv_q_list [OF inv] repD(2,3) [OF sched_invD(1) [OF inv]] sched_invD(2) [OF inv] dis run
    by (intro exI [of _ Q]) (auto simp: q_sorted_def)
qed

text \<open>Reachable states with one task: ready, dispatched, asleep, terminated.\<close>

lemma loop_reachable:
  "\<exists>s. sched_reach A blank_state (Loop, s) \<and> m_queues s 1 = Some 10 \<and>
     sched_inv s ((\<lambda>_. [])(1 := [10])) \<and> no_running s ((\<lambda>_. [])(1 := [10]))"
proof -
  let ?s = "scheduler_init blank_state" and ?proc = "\<lparr>p_id = 1, p_nregs = 4, p_nlocals = 2\<rparr>"
  have inv: "sched_inv ?s (\<lambda>_. [])"
    by (auto simp: sched_invp_def rep_def scheduler_init_def q_sorted_def queued_def)
  have nq: "\<not> queued (\<lambda>_. []) (10 :: tid)" by (simp add: queued_def)
  obtain s1 Q1 where c: "mrb_create_task (Some 10) True ?proc VNil VNil (VObj 2) ?s = Some (Inr (VObj 10), s1)"
    "sched_inv s1 Q1" "Q1 = (\<lambda>_. [])(1 := task_ins (m_tcb s1) 10 [])" "status_of s1 10 = TASKSTATUS_READY"
    using create_ok [OF inv nq, of ?proc VNil _ VNil "VObj 2"] by auto
  have "sched_step A (Loop, ?s) (Loop, s1)"
    by (rule main_create [OF _ c(1)]) (use nq in \<open>simp add: listed_queued [OF inv]\<close>)
  then have "sched_reach A blank_state (Loop, s1)"
    by (rule reach_step [OF reach_init])
  moreover have "m_queues s1 1 = Some 10"
    using sched_inv_head [OF c(2)] c(3) by (simp add: task_ins_def)
  moreover have "Q1 = (\<lambda>_. [])(1 := [10])" using c(3) by (simp add: task_ins_def)
  ultimately show ?thesis using c(2,4) by (auto simp: no_running_def queued_iff)
qed

lemma vm_reachable:
  "\<exists>s. sched_reach A blank_state (Vm 10, s) \<and> sched_inv s ((\<lambda>_. [])(1 := [10]))"
proof -
  obtain s where s: "sched_reach A blank_state (Loop, s)" "m_queues s 1 = Some 10"
    "sched_inv s ((\<lambda>_. [])(1 := [10]))" "no_running s ((\<lambda>_. [])(1 := [10]))"
    using loop_reachable by blast
  have "sched_inv (tasks_dispatch 10 s) ((\<lambda>_. [])(1 := [10]))"
    using dispatch_ok [OF s(3,4), of 10 "[]"] by simp
  moreover have "sched_reach A blank_state (Vm 10, tasks_dispatch 10 s)"
    by (rule reach_step [OF s(1) dispatch [OF s(2)]])
  ultimately show ?thesis by blast
qed

lemma asleep_reachable:
  "\<exists>s. sched_reach A blank_state (Vm 10, s) \<and> status_of s 10 = TASKSTATUS_WAITING"
proof -
  obtain s where s: "sched_reach A blank_state (Vm 10, s)" "sched_inv s ((\<lambda>_. [])(1 := [10]))"
    using vm_reachable by blast
  from sleep_ok [OF s(2), of 10 "[]" 0] obtain s' where
    "sleep_ms_impl 0 s = Some s'" "status_of s' 10 = TASKSTATUS_WAITING" by auto
  moreover from this(1) have "sched_step A (Vm 10, s) (Vm 10, s')"
    by (intro vm vm_sleep [of A 0]) simp_all
  ultimately show ?thesis using reach_step [OF s(1)] by blast
qed

lemma scheduler_queues_wellformed_witness:
  "\<exists>s ts. sched_reach {Prompt} blank_state (Vm 10, s) \<and> q_list s 1 = Some ts \<and> distinct ts"
proof -
  obtain s where s: "sched_reach {Prompt} blank_state (Vm 10, s)" using vm_reachable by blast
  from scheduler_queues_wellformed [OF s] obtain Q where "q_list s 1 = Some (Q 1)" "distinct (Q 1)"
    by fastforce
  with s show ?thesis by blast
qed

text \<open>C2: In every reachable state in which the virtual machine runs a task, these operations are
  defined, that is, their loops over the queues end and they read no null pointer: the tick
  interrupt; creating a task on a fresh control block (with any arguments, errors included);
  deleting, joining and changing the priority of any task; suspending, resuming and
  terminating a task that is in a queue; \<open>Task.pass\<close>, \<open>Task.current\<close>, \<open>Task.list\<close> and
  \<open>Task.stat\<close>; and, when the ready queue is not empty, sleeping. The ready queue is not empty
  while the current task is running, but it can be once the task has terminated itself: then
  \<open>sleep\<close> reads a null pointer (\<open>sleep_after_terminate\<close>). \<open>Task.get\<close> is left out: it reads a
  name that is never set.\<close>

theorem scheduler_operations_defined:
  assumes "sched_reach A s0 (Vm t, s)"
  shows "(\<exists>s'. mrb_tick s = Some s') \<and>
    (\<forall>u list_ok proc name prio top_self. \<not> listed s u \<longrightarrow>
       (\<exists>r s'. mrb_create_task (Some u) list_ok proc name prio top_self s = Some (r, s'))) \<and>
    (\<forall>u. \<exists>b s'. mrb_delete_task u s = Some (b, s')) \<and>
    (\<forall>u. \<exists>r s'. mrb_task_join u s = Some (r, s')) \<and>
    (\<forall>u. listed s u \<longrightarrow> (\<exists>s'. mrb_suspend_task u s = Some s') \<and> (\<exists>s'. mrb_resume_task u s = Some s') \<and>
      (\<exists>s'. mrb_terminate_task u s = Some s')) \<and>
    (\<exists>s'. mrb_task_s_pass s = Some s') \<and> (\<exists>v. mrb_task_s_current s = Some v) \<and>
    (\<exists>v. mrb_task_s_list s = Some v) \<and> (\<forall>off. \<exists>v. mrb_task_s_stat off s = Some v) \<and>
    (m_queues s 1 \<noteq> None \<longrightarrow> (\<forall>ms. \<exists>s'. sleep_ms_impl ms s = Some s') \<and>
      (\<forall>fl. \<exists>r s'. mrb_sleep fl None s = Some (r, s'))) \<and>
    (status_of s t = TASKSTATUS_RUNNING \<longrightarrow> m_queues s 1 \<noteq> None)"
proof -
  obtain Q where ok: "sched_ok A s Q" and c: "m_c s = Some t" and q: "queued Q t"
    using sched_reach_inv [OF assms] by (auto simp: vm_inv_def)
  note inv = sched_okD [OF ok]
  have "\<exists>r s'. mrb_task_join u s = Some (r, s')" for u
    using join_ok [OF inv q c, of u] by (cases "u = t \<or> status_of s u = TASKSTATUS_DORMANT")
      (auto simp: mrb_task_join_def c)
  moreover have "\<exists>s'. mrb_resume_task u s = Some s'" if "listed s u" for u
    using resume_ok [OF inv, of u] that listed_queued [OF inv, of u]
    by (cases "status_of s u = TASKSTATUS_SUSPENDED") (auto simp: mrb_resume_task_def)
  moreover have "(\<forall>ms. \<exists>s'. sleep_ms_impl ms s = Some s') \<and> (\<forall>fl. \<exists>r s'. mrb_sleep fl None s = Some (r, s'))"
    if ne: "m_queues s 1 \<noteq> None"
  proof -
    obtain h where h: "m_queues s 1 = Some h" using ne by blast
    then obtain ts where ts: "Q 1 = h # ts" using head_cons [OF inv] by blast
    have "\<exists>s'. mrb_suspend_task h s = Some s'"
      using suspend_ok [OF inv, of h] ts by (auto simp: queued_iff)
    with h show ?thesis using sleep_ok [OF inv ts] by (auto simp: mrb_sleep_def) blast
  qed
  moreover have "m_queues s 1 \<noteq> None" if "status_of s t = TASKSTATUS_RUNNING"
    using rep_queued_index [OF sched_invD(1) [OF inv] q, of 1] that sched_inv_head [OF inv]
    by (cases "Q 1") auto
  moreover have "\<exists>v. mrb_task_s_list s = Some v" "\<exists>v. mrb_task_s_stat off s = Some v" for off
    using sched_inv_q_list [OF inv]
    by (simp_all add: mrb_task_s_list_def all_tasks_def mrb_task_s_stat_def mrb_stat_sub_def)
  moreover have "\<exists>s'. mrb_tick s = Some s'" "\<exists>s'. mrb_task_s_pass s = Some s'"
    "\<exists>v. mrb_task_s_current s = Some v"
    using tick_inv [OF inv] by (auto simp: mrb_task_s_pass_def mrb_task_s_current_def c)
  moreover have "\<exists>s'. mrb_suspend_task u s = Some s'" "\<exists>s'. mrb_terminate_task u s = Some s'"
    if "listed s u" for u
    using suspend_ok [OF inv, of u] terminate_ok [OF inv, of u] that listed_queued [OF inv, of u] by auto
  moreover have "\<exists>b s'. mrb_delete_task u s = Some (b, s')" for u
    using delete_any [OF inv] by blast
  moreover have "\<exists>r s'. mrb_create_task (Some u) list_ok proc name prio top_self s = Some (r, s')"
    if "\<not> listed s u" for u list_ok proc name prio top_self
    using create_total [OF inv, of u] that listed_queued [OF inv, of u] by blast
  ultimately show ?thesis by (simp only: simp_thms) blast
qed

lemma scheduler_operations_defined_witness:
  "\<exists>s s'. sched_reach {} blank_state (Vm 10, s) \<and> mrb_tick s = Some s'"
proof -
  obtain s where s: "sched_reach {} blank_state (Vm 10, s)" using vm_reachable by blast
  from scheduler_operations_defined [OF s] obtain s' where "mrb_tick s = Some s'" by (elim conjE exE)
  with s show ?thesis by blast
qed

text \<open>A task that is alone, terminates itself and then sleeps reads a null pointer.\<close>

lemma sleep_after_terminate:
  "\<exists>s. sched_reach A blank_state (Vm 10, s) \<and> status_of s 10 = TASKSTATUS_DORMANT \<and>
     (\<forall>ms. sleep_ms_impl ms s = None)"
proof -
  obtain s where s: "sched_reach A blank_state (Vm 10, s)" "sched_inv s ((\<lambda>_. [])(1 := [10]))"
    using vm_reachable by blast
  have q: "queued ((\<lambda>_. [])(1 := [10])) (10 :: tid)" by (simp add: queued_iff)
  obtain s' Q' where r: "mrb_terminate_task 10 s = Some s'" "sched_inv s' Q'" "10 \<in> set (Q' 0)"
    "status_of s' 10 = TASKSTATUS_DORMANT" "queued Q' = queued ((\<lambda>_. [])(1 := [10]))"
    using terminate_ok [OF s(2) q] by blast
  have "u = 10" if "u \<in> set (Q' 1)" for u
    using that fun_cong [OF r(5), of u] by (auto simp: queued_iff split: if_splits)
  then have "Q' 1 = []"
    using rep_disjoint [OF sched_invD(1) [OF r(2)], of 0 1 10] r(3) by (cases "Q' 1") auto
  then have "m_queues s' 1 = None" using sched_inv_head [OF r(2)] by simp
  moreover have "sched_reach A blank_state (Vm 10, s')"
    using s(1) r(1) q by (auto intro!: reach_step [OF s(1)] vm vm_terminate simp: listed_queued [OF s(2)])
  ultimately show ?thesis using r(4) by (auto simp: sleep_ms_impl_def)
qed









section \<open>Scheduling policy\<close>

text \<open>C8: The task that the loop dispatches has the highest priority (the smallest number) of
  all ready tasks, in every state that is reached with \<open>Task.pass\<close> called only by tasks that
  are running or have terminated themselves.\<close>

theorem dispatched_task_is_highest:
  assumes "sched_reach A s0 (Loop, s)" "Prompt \<in> A" "m_queues s 1 = Some t"
  shows "\<exists>ready. q_list s 1 = Some ready \<and> (\<forall>u\<in>set ready. pprio (m_tcb s) t \<le> pprio (m_tcb s) u)"
proof -
  obtain Q where inv: "sched_inv s Q" "no_running s Q"
    using sched_reach_inv [OF assms(1)] assms(2) by (auto simp: sched_ok_def)
  obtain ts where "Q 1 = t # ts" using head_cons [OF inv(1) assms(3)] .
  with dispatch_highest [OF inv this] sched_inv_q_list [OF inv(1), of 1] show ?thesis by simp
qed

lemma dispatched_task_is_highest_witness:
  "\<exists>s ready. sched_reach {Prompt} blank_state (Loop, s) \<and> q_list s 1 = Some ready \<and>
     (\<forall>u\<in>set ready. pprio (m_tcb s) 10 \<le> pprio (m_tcb s) u)"
  using loop_reachable [of "{Prompt}"] dispatched_task_is_highest by blast

text \<open>C7: A running task that gives up the processor is put behind every ready task of its own
  or a higher priority and in front of every task of a lower one, and the order of the other
  tasks does not change: tasks of one priority take turns.\<close>

theorem round_robin:
  assumes "sched_inv s Q" "queued Q t" "status_of s t = TASKSTATUS_RUNNING"
  shows "\<exists>s' A B. tasks_switch t s = Some s' \<and> q_list s' 1 = Some (A @ t # B) \<and>
    A @ B = filter (\<lambda>u. u \<noteq> t) (Q 1) \<and> status_of s' t = TASKSTATUS_READY \<and>
    (\<forall>u\<in>set A. pprio (m_tcb s) u \<le> pprio (m_tcb s) t) \<and>
    (\<forall>u\<in>set B. pprio (m_tcb s) t < pprio (m_tcb s) u)"
proof -
  let ?R = "filter (\<lambda>u. u \<noteq> t) (Q 1)" and ?P = "\<lambda>u. pprio (m_tcb s) u \<le> pprio (m_tcb s) t"
  have "status_of s u = TASKSTATUS_RUNNING \<longleftrightarrow> u = t" if "u \<in> set (Q 1)" for u
    using sched_invD(3) [OF assms(1), of u] sched_invD(3) [OF assms(1,2,3)] assms(3) that
    by (auto simp: queued_iff)
  then have "?R = filter (\<lambda>u. status_of s u \<noteq> TASKSTATUS_RUNNING) (Q 1)"
    by (auto intro: filter_cong)
  then have srt: "prio_sorted (m_tcb s) ?R"
    using sched_invD(2) [OF assms(1), of 1] by (simp add: q_sorted_def)
  obtain s' Q' where r: "tasks_switch t s = Some s'" "sched_inv s' Q'" "status_of s' t = TASKSTATUS_READY"
    "Q' 1 = task_ins (m_tcb s) t ?R"
    using switch_ok [OF assms(1,2)] assms(3) by blast
  have "q_list s' 1 = Some (takeWhile ?P ?R @ t # dropWhile ?P ?R)"
    using sched_inv_q_list [OF r(2), of 1] r(4) by (simp add: task_ins_def)
  moreover have "?P u" if "u \<in> set (takeWhile ?P ?R)" for u
    using that by (rule prio_sorted_takeWhile)
  moreover have "pprio (m_tcb s) t < pprio (m_tcb s) u" if "u \<in> set (dropWhile ?P ?R)" for u
    using srt that by (rule prio_sorted_dropWhile)
  ultimately show ?thesis
    using r(1,3) by (intro exI [of _ s'] exI [of _ "takeWhile ?P ?R"] exI [of _ "dropWhile ?P ?R"]) simp
qed

lemma round_robin_witness: "\<exists>s'. tasks_switch 10 demo_state = Some s' \<and> status_of s' 10 = TASKSTATUS_READY"
proof -
  have "queued demo_queues 10" "status_of demo_state 10 = TASKSTATUS_RUNNING"
    by (simp_all add: queued_iff demo_queues_def demo_state_def)
  from round_robin [OF demo_inv this] show ?thesis by blast
qed

section \<open>Sleeping and waking up\<close>

text \<open>C4: A task that sleeps for \<open>ms\<close> milliseconds waits through \<open>ms / 4\<close> (rounded up) ticks
  and is ready after the next one, also when the 32-bit tick counter wraps around in between.\<close>

theorem sleep_wakes_on_time:
  assumes "sched_inv s Q" "timed s Q" "Q 1 = t # ts" and "0 \<le> ms" "ms \<le> 2 ^ 32 - 4"
  shows "\<exists>s1. sleep_ms_impl ms s = Some s1 \<and>
    (\<forall>n \<le> nat ((ms + 3) div 4). \<exists>s2. ticks n s1 = Some s2 \<and> status_of s2 t = TASKSTATUS_WAITING) \<and>
    (\<exists>s2 ready. ticks (Suc (nat ((ms + 3) div 4))) s1 = Some s2 \<and> status_of s2 t = TASKSTATUS_READY \<and>
      q_list s2 1 = Some ready \<and> t \<in> set ready)"
proof -
  obtain s1 Q1 where s1: "sleep_ms_impl ms s = Some s1" "sched_inv s1 Q1" "t \<in> set (Q1 2)"
    "status_of s1 t = TASKSTATUS_WAITING" "sleeping (m_tcb s1) t"
    "t_wakeup_tick (m_tcb s1 t) = wakeup_after (m_tick s) ms" "m_tick s1 = m_tick s"
    "m_wakeup_tick s1 = (if sdiff32 (wakeup_after (m_tick s) ms) (m_wakeup_tick s) < 0
      then wakeup_after (m_tick s) ms else m_wakeup_tick s)"
    "\<forall>u. u \<noteq> t \<longrightarrow> m_tcb s1 u = m_tcb s u" "\<forall>u k. u \<noteq> t \<longrightarrow> u \<in> set (Q1 k) \<longleftrightarrow> u \<in> set (Q k)"
    using sleep_ok [OF assms(1,3), of ms] by blast
  have tm: "timed s1 Q1"
    by (rule sleep_timed [OF assms(2,4,5) s1(7,6,8,9,10)])
  have d: "tick_diff s1 (t_wakeup_tick (m_tcb s1 t)) = int (nat ((ms + 3) div 4))"
    using assms(4,5) s1(6,7) by (simp add: tick_diff_def wakeup_after_diff)
  show ?thesis
    using s1(1,4) ticks_sleep [OF s1(2) tm s1(3,5) d] ticks_wake [OF s1(2) tm s1(3,5) d]
      sched_inv_q_list [of _ _ _ 1] by (intro exI [of _ s1]) fastforce
qed

lemma sleep_wakes_on_time_witness:
  "\<exists>s1 s2. sleep_ms_impl 10 demo_state = Some s1 \<and> ticks 4 s1 = Some s2 \<and> status_of s2 10 = TASKSTATUS_READY"
proof -
  have "demo_queues 1 = 10 # [20]" by (simp add: demo_queues_def)
  from sleep_wakes_on_time [OF demo_inv demo_timed this, of 10] show ?thesis
    by (auto simp: numeral_eq_Suc)
qed

text \<open>C5: In every reachable state, the tick interrupt wakes exactly the sleeping tasks whose time
  is up: the ready queue gains them, the waiting queue keeps the others in order, although the
  interrupt looks at the queue only when the tick has passed \<^verbatim>\<open>wakeup_tick\<close>, which all
  operations keep early enough. The runs are those in which no sleep is negative or longer
  than \<open>2 ^ 32 - 4\<close> ms and a task that was suspended in its sleep is resumed within \<open>2 ^ 30\<close> ticks
  of its wake-up tick (\<open>InTime\<close>).\<close>

theorem tick_wakes_exactly_due:
  assumes "sched_reach A s0 (m, s)" "InTime \<in> A"
  shows "\<exists>s' Q ready. (\<forall>i<4. q_list s i = Some (Q i)) \<and> mrb_tick s = Some s' \<and> m_tick s' = m_tick s + 1 \<and>
    q_list s' 2 = Some (filter (\<lambda>t. \<not> due_next s t) (Q 2)) \<and>
    q_list s' 1 = Some ready \<and> set ready = set (Q 1) \<union> {t \<in> set (Q 2). due_next s t} \<and>
    q_list s' 0 = Some (Q 0) \<and> q_list s' 3 = Some (Q 3)"
proof -
  obtain Q where "sched_ok A s Q"
    using sched_reach_inv [OF assms(1)] by (cases m) (auto simp: vm_inv_def)
  then have inv: "sched_invp (Prompt \<in> A) s Q" and tm: "timed s Q"
    using assms(2) by (simp_all add: sched_ok_def)
  let ?W = "{u \<in> set (Q 2). due_next s u}"
  obtain s' Q' where r: "mrb_tick s = Some s'" "ticked (Prompt \<in> A) s Q ?W s' Q'"
    using tick_wakes [OF inv tm] by blast
  have "filter (\<lambda>u. u \<notin> ?W) (Q 2) = filter (\<lambda>t. \<not> due_next s t) (Q 2)"
    by (auto intro: filter_cong)
  moreover have "sched_invp (Prompt \<in> A) s' Q'" using r(2) by (simp add: ticked_def)
  note sched_inv_q_list [OF this]
  ultimately show ?thesis using r sched_inv_q_list [OF inv]
    by (intro exI [of _ s'] exI [of _ Q] exI [of _ "Q' 1"]) (simp add: ticked_def)
qed

lemma tick_wakes_exactly_due_witness:
  "\<exists>s s'. sched_reach {InTime} blank_state (Vm 10, s) \<and> status_of s 10 = TASKSTATUS_WAITING \<and>
     mrb_tick s = Some s' \<and> m_tick s' = m_tick s + 1"
  using asleep_reachable [of "{InTime}"] tick_wakes_exactly_due by blast

section \<open>Join, suspend, resume\<close>

text \<open>C6: When a task ends it becomes dormant, every task waiting to join it becomes ready,
  every suspended task that waited for it waits for nothing any more, and all other tasks
  stay in their queues with their fields unchanged.\<close>

theorem finish_wakes_joiners:
  assumes "sched_inv s Q" "queued Q t"
  shows "\<exists>s' Q'. tasks_finish t s = Some s' \<and> (\<forall>i<4. q_list s' i = Some (Q' i)) \<and>
    t \<in> set (Q' 0) \<and> status_of s' t = TASKSTATUS_DORMANT \<and>
    (\<forall>u\<in>set (Q 2). u \<noteq> t \<longrightarrow> joiner s t u \<longrightarrow> u \<in> set (Q' 1) \<and> status_of s' u = TASKSTATUS_READY) \<and>
    (\<forall>u\<in>set (Q 3). u \<noteq> t \<longrightarrow> joiner s t u \<longrightarrow> u \<in> set (Q' 3) \<and> t_reason (m_tcb s' u) = TASKREASON_NONE) \<and>
    (\<forall>i<4. \<forall>u\<in>set (Q i). u \<noteq> t \<longrightarrow> \<not> (joiner s t u \<and> i \<ge> 2) \<longrightarrow> u \<in> set (Q' i) \<and> m_tcb s' u = m_tcb s u)"
proof -
  obtain s' Q' where "tasks_finish t s = Some s'" "sched_inv s' Q'" "finished s Q t s' Q'"
    using finish_ok [OF assms] by blast
  then show ?thesis
    using sched_inv_q_list [of _ s' Q'] by (intro exI [of _ s'] exI [of _ Q']) (simp add: finished_def)
qed

lemma finish_wakes_joiners_witness:
  "\<exists>s'. tasks_finish 10 demo_state = Some s' \<and> status_of s' 30 = TASKSTATUS_READY"
proof -
  have "queued demo_queues 10" "30 \<in> set (demo_queues 2)" "joiner demo_state 10 30"
    by (simp_all add: queued_iff demo_queues_def demo_state_def joiner_def)
  with finish_wakes_joiners [OF demo_inv, of 10] show ?thesis by fastforce
qed

text \<open>Suspending a task and resuming it takes it back to where it was: a task that was
  ready or running is ready, a task that was waiting (to sleep or to join) waits again for the
  same reason.\<close>

theorem suspend_resume_roundtrip:
  assumes "sched_inv s Q" "t \<in> set (Q i)" "i = 1 \<or> i = 2"
    and "status_of s t \<noteq> TASKSTATUS_SUSPENDED"
  shows "\<exists>s1 s2 q. mrb_suspend_task t s = Some s1 \<and> status_of s1 t = TASKSTATUS_SUSPENDED \<and>
    mrb_resume_task t s1 = Some s2 \<and> q_list s2 i = Some q \<and> t \<in> set q \<and>
    status_of s2 t = (if i = 1 then TASKSTATUS_READY else TASKSTATUS_WAITING) \<and>
    t_reason (m_tcb s2 t) = t_reason (m_tcb s t)"
proof -
  have q: "queued Q t" using assms(2,3) by (auto simp: queued_iff)
  obtain s1 Q1 where s1: "mrb_suspend_task t s = Some s1" "sched_inv s1 Q1" "t \<in> set (Q1 3)"
    "status_of s1 t = TASKSTATUS_SUSPENDED" "t_reason (m_tcb s1 t) = t_reason (m_tcb s t)"
    "queued Q1 = queued Q"
    using suspend_ok [OF assms(1) q] by blast
  have "t_reason (m_tcb s t) = TASKREASON_NONE \<longleftrightarrow> i = 1"
    using sched_invD(4) [OF assms(1), of i t] assms(2,3) by (auto simp: reason_ok_def)
  moreover obtain s2 Q2 where "mrb_resume_task t s1 = Some s2" "sched_inv s2 Q2"
    "t_reason (m_tcb s1 t) = TASKREASON_NONE \<longrightarrow> t \<in> set (Q2 1) \<and> status_of s2 t = TASKSTATUS_READY"
    "t_reason (m_tcb s1 t) \<noteq> TASKREASON_NONE \<longrightarrow> t \<in> set (Q2 2) \<and> status_of s2 t = TASKSTATUS_WAITING"
    "t_reason (m_tcb s2 t) = t_reason (m_tcb s1 t)"
    using resume_ok [OF s1(2) _ s1(4)] s1(6) q by auto
  ultimately show ?thesis
    using s1 sched_inv_q_list [of _ s2 Q2 i] assms(3)
    by (intro exI [of _ s1] exI [of _ s2] exI [of _ "Q2 i"]) auto
qed

lemma suspend_resume_roundtrip_witness:
  "\<exists>s1 s2. mrb_suspend_task 30 demo_state = Some s1 \<and> mrb_resume_task 30 s1 = Some s2 \<and>
    status_of s2 30 = TASKSTATUS_WAITING"
proof -
  have "30 \<in> set (demo_queues 2)" "status_of demo_state 30 \<noteq> TASKSTATUS_SUSPENDED"
    by (simp_all add: demo_queues_def demo_state_def)
  from suspend_resume_roundtrip [OF demo_inv this(1) _ this(2)] show ?thesis by auto
qed

text \<open>Creating a task on a fresh control block makes it ready, behind the ready tasks of its
  priority; the priority is the argument truncated to eight bits, 128 without one.\<close>

theorem create_task_enqueues:
  assumes "sched_inv s Q" "\<not> queued Q t" "p_nregs proc \<le> 1024"
    and "prio = VInt n \<or> prio = VNil \<and> n = MRB_TASK_DEFAULT_PRIORITY"
  shows "\<exists>s'. mrb_create_task (Some t) True proc name prio top_self s = Some (Inr (VObj t), s') \<and>
    q_list s' 1 = Some (task_ins (m_tcb s') t (Q 1)) \<and> (\<forall>i<4. i \<noteq> 1 \<longrightarrow> q_list s' i = Some (Q i)) \<and>
    pprio (m_tcb s') t = word_of_int n \<and> status_of s' t = TASKSTATUS_READY \<and>
    (\<forall>u. u \<noteq> t \<longrightarrow> m_tcb s' u = m_tcb s u)"
proof -
  obtain s' Q' where r: "mrb_create_task (Some t) True proc name prio top_self s = Some (Inr (VObj t), s')"
    "sched_inv s' Q'" "Q' = Q(1 := task_ins (m_tcb s') t (Q 1))" "status_of s' t = TASKSTATUS_READY"
    "pprio (m_tcb s') t = word_of_int n" "\<forall>u. u \<noteq> t \<longrightarrow> m_tcb s' u = m_tcb s u"
    using create_ok [OF assms, of name top_self] by blast
  then show ?thesis
    using sched_inv_q_list [OF r(2)] by (intro exI [of _ s']) auto
qed

lemma create_task_enqueues_witness:
  "\<exists>s'. mrb_create_task (Some 40) True \<lparr>p_id = 1, p_nregs = 4, p_nlocals = 2\<rparr> VNil (VInt 261) VNil demo_state =
      Some (Inr (VObj 40), s') \<and> pprio (m_tcb s') 40 = 5"
proof -
  have "\<not> queued demo_queues 40" by (simp add: queued_iff demo_queues_def)
  from create_task_enqueues [OF demo_inv this, of "\<lparr>p_id = 1, p_nregs = 4, p_nlocals = 2\<rparr>" "VInt 261" 261 VNil VNil]
  show ?thesis by auto
qed

end
