(* ===== verification/RingBuffer.thy ===== *)
theory RingBuffer
  imports Prelude
begin

text \<open>
  Ring buffers. PicoRuby has three of them, written independently: the packet queue of the
  sound generator (\<^verbatim>\<open>picoruby-psg/ports/common/psg.c\<close>), the event queue of the interrupt
  handler (\<^verbatim>\<open>picoruby-irq/ports/rp2040/irq.c\<close>) and the receive buffer of the UART
  (\<^verbatim>\<open>picoruby-uart/src/uart.c\<close>). This theory holds the index arithmetic they share and the
  interface they provide to their clients, as a locale that each of them interprets.
\<close>

section \<open>Contents of a ring\<close>

text \<open>
  The elements from the read index \<open>h\<close> up to the write index \<open>t\<close>, in the order they leave the
  ring. One slot stays free, so that equal indices mean an empty ring.
\<close>

definition ring_list :: "'a list \<Rightarrow> nat \<Rightarrow> nat \<Rightarrow> 'a list" where
  "ring_list buf h t = map (\<lambda>i. buf ! ((h + i) mod length buf))
     [0..<(t + length buf - h) mod length buf]"

lemma length_ring_list: "length (ring_list buf h t) = (t + length buf - h) mod length buf"
  by (simp add: ring_list_def)

lemma ring_list_empty [simp]: "h < length buf \<Longrightarrow> ring_list buf h h = []"
  by (simp add: ring_list_def)

lemma ring_distance:
  fixes h t n :: nat
  assumes "h < n" "t < n"
  shows "(t + n - h) mod n = (if h \<le> t then t - h else t + n - h)"
proof (cases "h \<le> t")
  case True
  then have "t + n - h = (t - h) + n" by linarith
  then have "(t + n - h) mod n = (t - h) mod n" by (metis mod_add_self2)
  then show ?thesis using True assms by simp
next
  case False
  then show ?thesis using assms by simp
qed

lemma ring_empty_iff: "h < length buf \<Longrightarrow> t < length buf \<Longrightarrow> ring_list buf h t = [] \<longleftrightarrow> h = t"
  by (auto simp: length_ring_list ring_distance simp flip: length_0_conv)

lemma mod_Suc_if: "t < n \<Longrightarrow> Suc t mod n = (if Suc t = n then 0 else Suc t)"
  by (simp add: mod_Suc)

lemma Suc_mod_less: "t < n \<Longrightarrow> Suc t mod n < n"
  by (simp add: mod_Suc)

lemma ring_full_iff:
  assumes "h < length buf" "t < length buf"
  shows "Suc t mod length buf = h \<longleftrightarrow> length (ring_list buf h t) = length buf - 1"
  using assms by (auto simp: length_ring_list ring_distance mod_Suc_if split: if_splits)

lemma ring_length_le:
  assumes "h < length buf"
  shows "length (ring_list buf h t) \<le> length buf - 1"
proof -
  have "(t + length buf - h) mod length buf < length buf" using assms by (intro mod_less_divisor) linarith
  then show ?thesis by (simp add: length_ring_list)
qed

lemma ring_push:
  assumes h: "h < length buf" "t < length buf" and room: "Suc t mod length buf \<noteq> h"
  shows "ring_list (buf[t := x]) h (Suc t mod length buf) = ring_list buf h t @ [x]"
proof -
  let ?n = "length buf" and ?d = "(t + length buf - h) mod length buf"
  have d: "(Suc t mod ?n + ?n - h) mod ?n = Suc ?d"
    using ring_distance [OF h(1) Suc_mod_less [OF h(2)]] ring_distance [OF h] h room
    by (auto simp: mod_Suc_if split: if_splits)
  have last: "(h + ?d) mod ?n = t"
    using h by (auto simp: ring_distance)
  have "(h + i) mod ?n \<noteq> t" if "i < ?d" for i
  proof -
    have "h + i < ?n \<and> (h + i) mod ?n = h + i \<or> ?n \<le> h + i \<and> (h + i) mod ?n = h + i - ?n"
      using that h ring_distance [OF h] by (auto simp: mod_if [of "h + i"] split: if_splits)
    then show ?thesis
      using that h ring_distance [OF h] by (auto split: if_splits)
  qed
  then have "buf[t := x] ! ((h + i) mod ?n) = buf ! ((h + i) mod ?n)" if "i < ?d" for i
    using that by (metis nth_list_update_neq)
  then have "map (\<lambda>i. buf[t := x] ! ((h + i) mod ?n)) [0..<?d] = map (\<lambda>i. buf ! ((h + i) mod ?n)) [0..<?d]"
    by (auto intro!: map_cong)
  then show ?thesis
    using last h by (simp add: ring_list_def d)
qed

lemma ring_pop:
  assumes "h < length buf" "t < length buf" "h \<noteq> t"
  shows "ring_list buf h t = buf ! h # ring_list buf (Suc h mod length buf) t"
proof -
  let ?n = "length buf" and ?d = "(t + length buf - h) mod length buf"
  have d: "?d = Suc ((t + ?n - Suc h mod ?n) mod ?n)"
    using assms by (auto simp: ring_distance mod_Suc_if Suc_mod_less split: if_splits)
  have "(h + Suc i) mod ?n = (Suc h mod ?n + i) mod ?n" for i
    by (metis add_Suc_shift mod_add_left_eq)
  then show ?thesis
    using assms unfolding ring_list_def d map_upt_Suc by simp
qed

text \<open>The C code reduces indices with a bit mask.\<close>

lemma nat_and_mask: "(i :: nat) AND (2 ^ n - Suc 0) = i mod 2 ^ n"
  by (metis One_nat_def mask_eq_exp_minus_1 take_bit_eq_mask take_bit_eq_mod)

section \<open>The interface of a bounded queue\<close>

text \<open>
  \<open>enq x s\<close> tells whether the element was taken, \<open>deq s\<close> delivers the oldest element if there
  is one; \<open>None\<close> is undefined behaviour of the code. \<open>cap s\<close> is the number of elements the
  queue can hold.
\<close>

definition enq_all :: "('a \<Rightarrow> 's \<Rightarrow> (bool \<times> 's) option) \<Rightarrow> 'a list \<Rightarrow> 's \<Rightarrow> 's option" where
  "enq_all enq xs s = foldl (\<lambda>s x. s \<bind> (\<lambda>s. map_option snd (enq x s))) (Some s) xs"

fun deq_n :: "('s \<Rightarrow> ('a option \<times> 's) option) \<Rightarrow> nat \<Rightarrow> 's \<Rightarrow> ('a list \<times> 's) option" where
  "deq_n deq 0 s = Some ([], s)"
| "deq_n deq (Suc n) s = do {
     (x, s) \<leftarrow> deq s;
     (xs, s) \<leftarrow> deq_n deq n s;
     Some ((case x of None \<Rightarrow> xs | Some x \<Rightarrow> x # xs), s)
   }"

lemma enq_all_Cons:
  "enq_all enq (x # xs) s = (case enq x s of None \<Rightarrow> None | Some (b, s') \<Rightarrow> enq_all enq xs s')"
proof -
  have "foldl (\<lambda>s x. s \<bind> (\<lambda>s. map_option snd (enq x s))) None xs = None" for xs
    by (induction xs) simp_all
  then show ?thesis by (auto simp: enq_all_def split: option.splits)
qed

locale bounded_fifo =
  fixes inv :: "'s \<Rightarrow> bool" and contents :: "'s \<Rightarrow> 'a list" and cap :: "'s \<Rightarrow> nat"
    and enq :: "'a \<Rightarrow> 's \<Rightarrow> (bool \<times> 's) option" and deq :: "'s \<Rightarrow> ('a option \<times> 's) option"
  assumes enq_room: "inv s \<Longrightarrow> length (contents s) < cap s \<Longrightarrow>
      \<exists>s'. enq x s = Some (True, s') \<and> inv s' \<and> contents s' = contents s @ [x] \<and> cap s' = cap s"
    and deq_Nil: "inv s \<Longrightarrow> contents s = [] \<Longrightarrow> deq s = Some (None, s)"
    and deq_Cons: "inv s \<Longrightarrow> contents s = x # xs \<Longrightarrow>
      \<exists>s'. deq s = Some (Some x, s') \<and> inv s' \<and> contents s' = xs \<and> cap s' = cap s"
begin

lemma enq_all_room:
  "inv s \<Longrightarrow> length (contents s) + length xs \<le> cap s \<Longrightarrow>
   \<exists>s'. enq_all enq xs s = Some s' \<and> inv s' \<and> contents s' = contents s @ xs \<and> cap s' = cap s"
proof (induction xs arbitrary: s)
  case Nil
  then show ?case by (simp add: enq_all_def)
next
  case (Cons x xs)
  obtain s1 where "enq x s = Some (True, s1)" "inv s1" "contents s1 = contents s @ [x]" "cap s1 = cap s"
    using enq_room [OF Cons.prems(1), of x] Cons.prems(2) by auto
  with Cons.IH [of s1] Cons.prems(2) show ?case by (auto simp: enq_all_Cons)
qed

lemma deq_n_take:
  "inv s \<Longrightarrow> \<exists>s'. deq_n deq n s = Some (take n (contents s), s') \<and> inv s' \<and>
     contents s' = drop n (contents s) \<and> cap s' = cap s"
proof (induction n arbitrary: s)
  case 0
  then show ?case by simp
next
  case (Suc n)
  show ?case
  proof (cases "contents s")
    case Nil
    with deq_Nil [OF Suc.prems] Suc.IH [OF Suc.prems] show ?thesis by auto
  next
    case (Cons x xs)
    then obtain s1 where s1: "deq s = Some (Some x, s1)" "inv s1" "contents s1 = xs" "cap s1 = cap s"
      using deq_Cons [OF Suc.prems] by blast
    with Suc.IH [OF s1(2)] Cons show ?thesis by auto
  qed
qed

text \<open>What was put in comes out in the same order.\<close>

lemma fifo:
  assumes "inv s" "contents s = []" "length xs \<le> cap s"
  shows "\<exists>s1 s2. enq_all enq xs s = Some s1 \<and> deq_n deq (length xs) s1 = Some (xs, s2) \<and>
    contents s2 = []"
  using enq_all_room [OF assms(1), of xs] assms(2,3) deq_n_take [of _ "length xs"] by fastforce

end

text \<open>A queue that refuses an element when it is full.\<close>

locale refusing_fifo = bounded_fifo +
  assumes enq_full: "inv s \<Longrightarrow> length (contents s) = cap s \<Longrightarrow> enq x s = Some (False, s)"
    and len_cap: "inv s \<Longrightarrow> length (contents s) \<le> cap s"
begin

lemma enq_all_take:
  "inv s \<Longrightarrow> \<exists>s'. enq_all enq xs s = Some s' \<and> inv s' \<and> contents s' = take (cap s) (contents s @ xs) \<and>
     cap s' = cap s"
proof (induction xs arbitrary: s)
  case Nil
  then show ?case using len_cap [OF Nil] by (simp add: enq_all_def)
next
  case (Cons x xs)
  show ?case
  proof (cases "length (contents s) = cap s")
    case True
    with enq_full [OF Cons.prems True] Cons.IH [OF Cons.prems] show ?thesis
      by (auto simp: enq_all_Cons)
  next
    case False
    then obtain s1 where "enq x s = Some (True, s1)" "inv s1" "contents s1 = contents s @ [x]" "cap s1 = cap s"
      using enq_room [OF Cons.prems, of x] len_cap [OF Cons.prems] by auto
    with Cons.IH [of s1] show ?thesis by (auto simp: enq_all_Cons)
  qed
qed

end

end
