(* ===== verification/Irq.thy ===== *)
theory Irq
  imports RingBuffer
begin

text \<open>
  GPIO interrupts: \<^verbatim>\<open>picoruby-irq/ports/rp2040/irq.c\<close> (handler table, debouncing, event
  queue) and the bindings of the module \<^verbatim>\<open>IRQ\<close> for both virtual machines
  (\<^verbatim>\<open>src/mruby/irq.c\<close>, \<^verbatim>\<open>src/mrubyc/irq.c\<close>). The calls to the GPIO driver of the SDK are
  kept in the log \<open>gpio_calls\<close>; the SDK's four interrupt mask bits are parameters.
\<close>

section \<open>Data\<close>

definition MAX_IRQ_HANDLERS :: nat where "MAX_IRQ_HANDLERS = 16"
definition IRQ_EVENT_QUEUE_SIZE :: nat where "IRQ_EVENT_QUEUE_SIZE = 2 ^ 5"

record mrb_irq_handler =
  h_pin :: int
  h_event_mask :: u32
  h_enabled :: bool
  h_debounce_ms :: u32
  h_last_event_time :: u32
  h_last_event_type :: u32

record irq_event =
  e_irq_id :: int
  e_event_type :: int

record irq_state =
  irq_handlers :: "mrb_irq_handler list"
  event_queue :: "irq_event list"
  queue_head :: nat
  queue_tail :: nat
  next_irq_id :: int
  gpio_calls :: "(int \<times> u32 \<times> bool) list"

definition zero_handler :: mrb_irq_handler where
  "zero_handler = \<lparr>h_pin = 0, h_event_mask = 0, h_enabled = False, h_debounce_ms = 0,
     h_last_event_time = 0, h_last_event_type = 0\<rparr>"

definition IRQ_init :: "irq_state \<Rightarrow> irq_state" where
  "IRQ_init s = s\<lparr>irq_handlers := replicate MAX_IRQ_HANDLERS zero_handler,
     event_queue := replicate IRQ_EVENT_QUEUE_SIZE \<lparr>e_irq_id = 0, e_event_type = 0\<rparr>,
     queue_head := 0, queue_tail := 0, next_irq_id := 1\<rparr>"

section \<open>The event queue\<close>

text \<open>The end of the interrupt callback; the result tells whether the event was queued.\<close>

definition irq_enqueue :: "irq_event \<Rightarrow> irq_state \<Rightarrow> bool \<times> irq_state" where
  "irq_enqueue e s =
     (let next_tail = (queue_tail s + 1) AND (IRQ_EVENT_QUEUE_SIZE - 1)
      in if next_tail \<noteq> queue_head s
         then (True, s\<lparr>event_queue := (event_queue s)[queue_tail s := e], queue_tail := next_tail\<rparr>)
         else (False, s))"

definition IRQ_peek_event :: "irq_state \<Rightarrow> irq_event option \<times> irq_state" where
  "IRQ_peek_event s =
     (if queue_head s = queue_tail s then (None, s)
      else (Some (event_queue s ! queue_head s),
            s\<lparr>queue_head := (queue_head s + 1) AND (IRQ_EVENT_QUEUE_SIZE - 1)\<rparr>))"

section \<open>The interrupt callback\<close>

text \<open>
  Whether handler \<open>i\<close> takes the interrupt: enabled, for this pin and one of these events, and
  not debounced. \<open>now\<close> is the time in milliseconds.
\<close>

definition irq_matches :: "u32 \<Rightarrow> u32 \<Rightarrow> mrb_irq_handler \<Rightarrow> bool" where
  "irq_matches gpio events h \<longleftrightarrow> h_enabled h \<and> (word_of_int (h_pin h) :: u32) = gpio \<and>
     events AND h_event_mask h \<noteq> 0"

definition irq_debounced :: "u32 \<Rightarrow> u32 \<Rightarrow> mrb_irq_handler \<Rightarrow> bool" where
  "irq_debounced now events h \<longleftrightarrow> 0 < h_debounce_ms h \<and>
     now - h_last_event_time h < h_debounce_ms h \<and> events = h_last_event_type h"

definition irq_find :: "u32 \<Rightarrow> u32 \<Rightarrow> u32 \<Rightarrow> mrb_irq_handler list \<Rightarrow> nat option" where
  "irq_find now gpio events hs =
     find (\<lambda>i. irq_matches gpio events (hs ! i) \<and> \<not> irq_debounced now events (hs ! i))
       [0..<MAX_IRQ_HANDLERS]"

text \<open>
  \<open>us\<close> is what \<^verbatim>\<open>time_us_32()\<close> of the SDK returns, a counter of microseconds that wraps after
  about 71 minutes.
\<close>

definition irq_ms :: "u32 \<Rightarrow> u32" where
  "irq_ms us = us div 1000"

definition gpio_irq_callback :: "u32 \<Rightarrow> u32 \<Rightarrow> u32 \<Rightarrow> irq_state \<Rightarrow> irq_state" where
  "gpio_irq_callback us gpio events s =
     (let now = irq_ms us in
      case irq_find now gpio events (irq_handlers s) of
        None \<Rightarrow> s
      | Some i \<Rightarrow>
          let h = (irq_handlers s ! i)\<lparr>h_last_event_time := now, h_last_event_type := events\<rparr>;
              s = s\<lparr>irq_handlers := (irq_handlers s)[i := h]\<rparr>
          in snd (irq_enqueue \<lparr>e_irq_id = int i + 1, e_event_type = sint events\<rparr> s))"

section \<open>Registration\<close>

definition irq_event_mask :: "u32 \<times> u32 \<times> u32 \<times> u32 \<Rightarrow> int \<Rightarrow> u32" where
  "irq_event_mask masks event_type = (case masks of (low, high, fall, rise) \<Rightarrow>
     (if event_type AND 1 \<noteq> 0 then low else 0) OR (if event_type AND 2 \<noteq> 0 then high else 0) OR
     (if event_type AND 4 \<noteq> 0 then fall else 0) OR (if event_type AND 8 \<noteq> 0 then rise else 0))"

definition IRQ_register_gpio ::
  "u32 \<times> u32 \<times> u32 \<times> u32 \<Rightarrow> int \<Rightarrow> int \<Rightarrow> u32 \<Rightarrow> irq_state \<Rightarrow> int \<times> irq_state" where
  "IRQ_register_gpio masks pin event_type debounce_ms s =
     (case find (\<lambda>i. \<not> h_enabled (irq_handlers s ! i)) [0..<MAX_IRQ_HANDLERS] of
        None \<Rightarrow> (-1, s)
      | Some slot \<Rightarrow>
          let mask = irq_event_mask masks event_type
          in (int slot + 1,
              s\<lparr>gpio_calls := gpio_calls s @ [(pin, mask, True)],
                irq_handlers := (irq_handlers s)[slot := \<lparr>h_pin = pin, h_event_mask = mask,
                  h_enabled = True, h_debounce_ms = debounce_ms, h_last_event_time = 0,
                  h_last_event_type = 0\<rparr>]\<rparr>))"

definition IRQ_unregister_gpio :: "int \<Rightarrow> irq_state \<Rightarrow> bool \<times> irq_state" where
  "IRQ_unregister_gpio irq_id s =
     (let slot = irq_id - 1 in
      if slot < 0 \<or> int MAX_IRQ_HANDLERS \<le> slot \<or> \<not> h_enabled (irq_handlers s ! nat slot)
      then (False, s)
      else let h = irq_handlers s ! nat slot
           in (h_enabled h, s\<lparr>gpio_calls := gpio_calls s @ [(h_pin h, h_event_mask h, False)],
                irq_handlers := (irq_handlers s)[nat slot := zero_handler]\<rparr>))"

section \<open>Bindings\<close>

text \<open>
  \<open>None\<close> in the mruby binding: the option \<open>debounce\<close> is neither nil nor an Integer, and the
  VM reads another member of the value.
\<close>

definition mrb_s_register_gpio ::
  "u32 \<times> u32 \<times> u32 \<times> u32 \<Rightarrow> int \<Rightarrow> int \<Rightarrow> (mrb_value \<times> mrb_value) list \<Rightarrow> irq_state
   \<Rightarrow> (mrb_value rb_result \<times> irq_state) option" where
  "mrb_s_register_gpio masks pin event_type opts s = do {
     debounce_ms \<leftarrow> (case map_of opts (VSym ''debounce'') of
        None \<Rightarrow> Some 0 | Some VNil \<Rightarrow> Some 0 | Some (VInt n) \<Rightarrow> Some (word_of_int n) | _ \<Rightarrow> None);
     let (irq_id, s) = IRQ_register_gpio masks (c_int pin) (c_int event_type) debounce_ms s;
     Some (if irq_id < 0 then Inl (RuntimeError ''Failed to register GPIO IRQ'') else Inr (VInt irq_id), s)
   }"

definition mrb_s_unregister_gpio :: "int \<Rightarrow> irq_state \<Rightarrow> mrb_value \<times> irq_state" where
  "mrb_s_unregister_gpio irq_id s =
     (let (prev, s) = IRQ_unregister_gpio (c_int irq_id) s in (if prev then VTrue else VFalse, s))"

text \<open>Without an event the second element is the uninitialised local \<open>event_type\<close>.\<close>

definition mrb_s_peek_event :: "int \<Rightarrow> irq_state \<Rightarrow> mrb_value \<times> irq_state" where
  "mrb_s_peek_event uninit s =
     (case IRQ_peek_event s of
        (Some e, s) \<Rightarrow> (VArray [VInt (e_irq_id e), VInt (e_event_type e)], s)
      | (None, s) \<Rightarrow> (VArray [VNil, VInt uninit], s))"

definition c_register_gpio ::
  "u32 \<times> u32 \<times> u32 \<times> u32 \<Rightarrow> mrb_value list \<Rightarrow> irq_state \<Rightarrow> mrb_value rb_result \<times> irq_state" where
  "c_register_gpio masks args s =
     (case args of
        [VInt pin, VInt event_type, opts] \<Rightarrow>
          let debounce_ms = (case opts of
                VHash kvs \<Rightarrow> (case map_of kvs (VSym ''debounce'') of Some (VInt n) \<Rightarrow> word_of_int n | _ \<Rightarrow> 0)
              | _ \<Rightarrow> 0);
              (irq_id, s) = IRQ_register_gpio masks (c_int pin) (c_int event_type) debounce_ms s
          in (if irq_id < 0 then Inl (RuntimeError ''Failed to register GPIO IRQ'') else Inr (VInt irq_id), s)
      | [_, _, _] \<Rightarrow> (Inl (ArgumentError ''pin and event_type must be integers''), s)
      | _ \<Rightarrow> (Inl (ArgumentError ''wrong number of arguments''), s))"

definition c_unregister_gpio :: "mrb_value list \<Rightarrow> irq_state \<Rightarrow> mrb_value rb_result \<times> irq_state" where
  "c_unregister_gpio args s =
     (case args of
        [VInt irq_id] \<Rightarrow>
          let (prev, s) = IRQ_unregister_gpio (c_int irq_id) s in (Inr (if prev then VTrue else VFalse), s)
      | [_] \<Rightarrow> (Inl (ArgumentError ''irq_id must be integer''), s)
      | _ \<Rightarrow> (Inl (ArgumentError ''wrong number of arguments''), s))"

definition c_peek_event :: "int \<Rightarrow> irq_state \<Rightarrow> mrb_value \<times> irq_state" where
  "c_peek_event uninit s =
     (case IRQ_peek_event s of
        (Some e, s) \<Rightarrow> (VArray [VInt (e_irq_id e), VInt (e_event_type e)], s)
      | (None, s) \<Rightarrow> (VArray [VNil, VInt uninit], s))"

section \<open>The queue implements the interface\<close>

definition irq_wf :: "irq_state \<Rightarrow> bool" where
  "irq_wf s \<longleftrightarrow> length (irq_handlers s) = MAX_IRQ_HANDLERS \<and>
     length (event_queue s) = IRQ_EVENT_QUEUE_SIZE \<and>
     queue_head s < IRQ_EVENT_QUEUE_SIZE \<and> queue_tail s < IRQ_EVENT_QUEUE_SIZE"

definition irq_events :: "irq_state \<Rightarrow> irq_event list" where
  "irq_events s = ring_list (event_queue s) (queue_head s) (queue_tail s)"

definition irq_enq :: "irq_event \<Rightarrow> irq_state \<Rightarrow> (bool \<times> irq_state) option" where
  "irq_enq e s = Some (irq_enqueue e s)"

definition irq_deq :: "irq_state \<Rightarrow> (irq_event option \<times> irq_state) option" where
  "irq_deq s = Some (IRQ_peek_event s)"

lemma irq_index [simp]: "i AND (IRQ_EVENT_QUEUE_SIZE - Suc 0) = i mod IRQ_EVENT_QUEUE_SIZE"
  unfolding IRQ_EVENT_QUEUE_SIZE_def by (rule nat_and_mask)

lemma irq_wf_init: "irq_wf (IRQ_init s)" "irq_events (IRQ_init s) = []"
  by (simp_all add: irq_wf_def IRQ_init_def MAX_IRQ_HANDLERS_def IRQ_EVENT_QUEUE_SIZE_def irq_events_def)

interpretation iq: refusing_fifo irq_wf irq_events "\<lambda>_. IRQ_EVENT_QUEUE_SIZE - 1" irq_enq irq_deq
proof
  fix s e x xs
  assume wf: "irq_wf s"
  have n: "queue_head s < length (event_queue s)" "queue_tail s < length (event_queue s)"
    "length (event_queue s) = IRQ_EVENT_QUEUE_SIZE" "0 < IRQ_EVENT_QUEUE_SIZE"
    using wf by (auto simp: irq_wf_def)
  note full = ring_full_iff [OF n(1,2)]
  show "length (irq_events s) \<le> IRQ_EVENT_QUEUE_SIZE - 1"
    using ring_length_le [OF n(1)] n(3) by (simp add: irq_events_def)
  show "irq_enq e s = Some (False, s)" if "length (irq_events s) = IRQ_EVENT_QUEUE_SIZE - 1"
    using that full n(3) by (simp add: irq_enq_def irq_enqueue_def irq_events_def)
  show "\<exists>s'. irq_enq e s = Some (True, s') \<and> irq_wf s' \<and> irq_events s' = irq_events s @ [e] \<and>
      IRQ_EVENT_QUEUE_SIZE - 1 = IRQ_EVENT_QUEUE_SIZE - 1"
    if "length (irq_events s) < IRQ_EVENT_QUEUE_SIZE - 1"
  proof -
    have room: "Suc (queue_tail s) mod IRQ_EVENT_QUEUE_SIZE \<noteq> queue_head s"
      using that full n(3) by (auto simp: irq_events_def)
    with ring_push [OF n(1,2), of e] n wf show ?thesis
      by (simp add: irq_enq_def irq_enqueue_def irq_events_def irq_wf_def)
  qed
  show "irq_deq s = Some (None, s)" if "irq_events s = []"
    using that ring_empty_iff [OF n(1,2)] by (simp add: irq_deq_def IRQ_peek_event_def irq_events_def)
  show "\<exists>s'. irq_deq s = Some (Some x, s') \<and> irq_wf s' \<and> irq_events s' = xs \<and>
      IRQ_EVENT_QUEUE_SIZE - 1 = IRQ_EVENT_QUEUE_SIZE - 1"
    if "irq_events s = x # xs"
  proof -
    have "queue_head s \<noteq> queue_tail s" using that ring_empty_iff [OF n(1,2)] by (auto simp: irq_events_def)
    with ring_pop [OF n(1,2)] that n wf show ?thesis
      by (auto simp: irq_deq_def IRQ_peek_event_def irq_events_def irq_wf_def)
  qed
qed

lemma irq_enqueue_events:
  assumes "irq_wf s"
  shows "irq_wf (snd (irq_enqueue e s)) \<and> irq_events (snd (irq_enqueue e s)) =
    take 31 (irq_events s @ [e])"
proof -
  have n: "IRQ_EVENT_QUEUE_SIZE - 1 = 31" by (simp add: IRQ_EVENT_QUEUE_SIZE_def)
  show ?thesis
    using iq.enq_all_take [OF assms, of "[e]"] unfolding n by (simp add: enq_all_def irq_enq_def)
qed

lemma irq_enqueue_handlers [simp]: "irq_handlers (snd (irq_enqueue e s)) = irq_handlers s"
  by (simp add: irq_enqueue_def Let_def)

section \<open>Properties\<close>

text \<open>The events of the interrupt handler come out of \<^verbatim>\<open>IRQ.peek_event\<close> in the order in which
  they were queued; the queue holds 31 events and drops the newest when it is full.\<close>

theorem irq_queue_fifo:
  "\<exists>s1 s2. enq_all irq_enq es (IRQ_init s) = Some s1 \<and>
    deq_n irq_deq n s1 = Some (take n (take 31 es), s2)"
proof -
  obtain s1 where "enq_all irq_enq es (IRQ_init s) = Some s1" "irq_wf s1" "irq_events s1 = take 31 es"
    using iq.enq_all_take [OF irq_wf_init(1) [of s], of es]
    by (auto simp: irq_wf_init IRQ_EVENT_QUEUE_SIZE_def)
  then show ?thesis using iq.deq_n_take [of s1 n] by auto
qed

lemma find_upt_unique:
  assumes "i < n" "P i" "\<And>j. j < n \<Longrightarrow> j \<noteq> i \<Longrightarrow> \<not> P j"
  shows "find P [0..<n] = Some i"
  using assms by (auto simp: find_Some_iff intro!: exI [of _ i])

lemma callback_single:
  assumes wf: "irq_wf s" and i: "i < MAX_IRQ_HANDLERS" "irq_matches gpio events (irq_handlers s ! i)"
    and only: "\<And>j. j < MAX_IRQ_HANDLERS \<Longrightarrow> j \<noteq> i \<Longrightarrow> \<not> irq_matches gpio events (irq_handlers s ! j)"
  shows "gpio_irq_callback us gpio events s = (if irq_debounced (irq_ms us) events (irq_handlers s ! i) then s
    else snd (irq_enqueue \<lparr>e_irq_id = int i + 1, e_event_type = sint events\<rparr>
      (s\<lparr>irq_handlers := (irq_handlers s)[i := (irq_handlers s ! i)
        \<lparr>h_last_event_time := irq_ms us, h_last_event_type := events\<rparr>]\<rparr>)))"
proof (cases "irq_debounced (irq_ms us) events (irq_handlers s ! i)")
  case True
  have "\<not> (irq_matches gpio events (irq_handlers s ! j) \<and> \<not> irq_debounced (irq_ms us) events (irq_handlers s ! j))"
    if "j < MAX_IRQ_HANDLERS" for j
    using only [OF that] True by (cases "j = i") auto
  then have "irq_find (irq_ms us) gpio events (irq_handlers s) = None"
    by (auto simp: irq_find_def find_None_iff)
  with True show ?thesis by (simp add: gpio_irq_callback_def Let_def)
next
  case False
  then have "irq_find (irq_ms us) gpio events (irq_handlers s) = Some i"
    unfolding irq_find_def using i only by (intro find_upt_unique) auto
  with False show ?thesis by (simp add: gpio_irq_callback_def Let_def)
qed

text \<open>The same interrupt twice, in the arithmetic of the counter.\<close>

lemma irq_debounce_words:
  assumes wf: "irq_wf s" and i: "i < MAX_IRQ_HANDLERS" "irq_matches gpio events (irq_handlers s ! i)"
    and only: "\<forall>j<MAX_IRQ_HANDLERS. j \<noteq> i \<longrightarrow> \<not> irq_matches gpio events (irq_handlers s ! j)"
    and first: "\<not> irq_debounced (irq_ms t1) events (irq_handlers s ! i)"
  shows "let s1 = gpio_irq_callback t1 gpio events s; s2 = gpio_irq_callback t2 gpio events s1;
      e = \<lparr>e_irq_id = int i + 1, e_event_type = sint events\<rparr>; d = h_debounce_ms (irq_handlers s ! i)
    in irq_events s1 = take 31 (irq_events s @ [e]) \<and>
      irq_events s2 = (if irq_ms t2 - irq_ms t1 < d then irq_events s1 else take 31 (irq_events s1 @ [e]))"
proof -
  let ?h = "(irq_handlers s ! i)\<lparr>h_last_event_time := irq_ms t1, h_last_event_type := events\<rparr>"
  let ?s = "s\<lparr>irq_handlers := (irq_handlers s)[i := ?h]\<rparr>"
  let ?e = "\<lparr>e_irq_id = int i + 1, e_event_type = sint events\<rparr>"
  let ?s1 = "snd (irq_enqueue ?e ?s)"
  have len: "i < length (irq_handlers s)" using wf i(1) by (simp add: irq_wf_def)
  have ev: "irq_events (x\<lparr>irq_handlers := hs\<rparr>) = irq_events x" for x hs by (simp add: irq_events_def)
  have wfh: "irq_wf (x\<lparr>irq_handlers := hs\<rparr>)" if "irq_wf x" "length hs = MAX_IRQ_HANDLERS" for x hs
    using that by (simp add: irq_wf_def)
  have s1: "gpio_irq_callback t1 gpio events s = ?s1"
    using callback_single [OF wf i] only first by simp
  have e1: "irq_wf ?s1" "irq_events ?s1 = take 31 (irq_events s @ [?e])"
    using irq_enqueue_events [OF wfh [OF wf], of "(irq_handlers s)[i := ?h]" ?e] wf
    by (simp_all add: ev irq_wf_def)
  have m: "irq_matches gpio events (irq_handlers ?s1 ! j) = irq_matches gpio events (irq_handlers s ! j)" for j
    using len by (cases "j = i") (simp_all add: irq_matches_def)
  have deb: "irq_debounced (irq_ms t2) events (irq_handlers ?s1 ! i) \<longleftrightarrow> irq_ms t2 - irq_ms t1 < h_debounce_ms (irq_handlers s ! i)"
    using len by (auto simp: irq_debounced_def word_gt_0 intro: ccontr)
  have mi: "irq_matches gpio events (irq_handlers ?s1 ! i)"
    and mo: "\<And>j. j < MAX_IRQ_HANDLERS \<Longrightarrow> j \<noteq> i \<Longrightarrow> \<not> irq_matches gpio events (irq_handlers ?s1 ! j)"
    unfolding m using i(2) only by auto
  note second = callback_single [OF e1(1) i(1) mi mo, of t2]
  have "irq_events (gpio_irq_callback t2 gpio events ?s1) =
      (if irq_ms t2 - irq_ms t1 < h_debounce_ms (irq_handlers s ! i) then irq_events ?s1 else take 31 (irq_events ?s1 @ [?e]))"
  proof (cases "irq_ms t2 - irq_ms t1 < h_debounce_ms (irq_handlers s ! i)")
    case True
    then have "gpio_irq_callback t2 gpio events ?s1 = ?s1"
      using second deb by presburger
    with True show ?thesis by (simp only: if_True)
  next
    case False
    let ?h2 = "(irq_handlers ?s1 ! i)\<lparr>h_last_event_time := irq_ms t2, h_last_event_type := events\<rparr>"
    have "irq_wf (?s1\<lparr>irq_handlers := (irq_handlers ?s1)[i := ?h2]\<rparr>)"
      using e1(1) by (intro wfh) (simp_all add: irq_wf_def)
    note r = irq_enqueue_events [OF this, of ?e, THEN conjunct2, unfolded ev]
    have "gpio_irq_callback t2 gpio events ?s1 =
        snd (irq_enqueue ?e (?s1\<lparr>irq_handlers := (irq_handlers ?s1)[i := ?h2]\<rparr>))"
      using second deb False by presburger
    with r False show ?thesis by (simp only: if_False)
  qed
  then show ?thesis using e1(2) s1 by (simp add: Let_def)
qed

lemma irq_ms_diff:
  assumes "t1 \<le> t2"
  shows "irq_ms t2 - irq_ms t1 < d \<longleftrightarrow> unat t2 div 1000 - unat t1 div 1000 < unat d"
proof -
  have "unat t1 div 1000 \<le> unat t2 div 1000"
    using assms by (simp add: word_le_nat_alt div_le_mono)
  then have "irq_ms t1 \<le> irq_ms t2"
    by (simp add: irq_ms_def word_le_nat_alt unat_div_distrib)
  then show ?thesis
    by (simp add: irq_ms_def word_less_nat_alt unat_sub unat_div_distrib)
qed

text \<open>C9: Debouncing. When a single handler listens to the pin, an interrupt that is not debounced
  queues one event with the handler's id; the same interrupt at a later reading of the
  microsecond counter, which has not wrapped in between, is ignored if the two readings are
  less than \<^verbatim>\<open>debounce_ms\<close> apart in whole milliseconds, and queues another event otherwise.
  Queueing an event means that it is appended while the queue holds fewer than 31 events; an
  event that finds the queue full is dropped. (After a wrap of the counter, every 71 minutes,
  the repetition is not ignored: \<open>irq_debounce_wraps\<close>.)\<close>

theorem irq_debounce:
  assumes wf: "irq_wf s" and i: "i < MAX_IRQ_HANDLERS" "irq_matches gpio events (irq_handlers s ! i)"
    and only: "\<forall>j<MAX_IRQ_HANDLERS. j \<noteq> i \<longrightarrow> \<not> irq_matches gpio events (irq_handlers s ! j)"
    and first: "\<not> irq_debounced (irq_ms us1) events (irq_handlers s ! i)" and later: "us1 \<le> us2"
  shows "let s1 = gpio_irq_callback us1 gpio events s; s2 = gpio_irq_callback us2 gpio events s1;
      e = \<lparr>e_irq_id = int i + 1, e_event_type = sint events\<rparr>; d = h_debounce_ms (irq_handlers s ! i);
      queue = (\<lambda>evs. if length evs < 31 then evs @ [e] else evs)
    in irq_events s1 = queue (irq_events s) \<and>
      irq_events s2 = (if unat us2 div 1000 - unat us1 div 1000 < unat d
        then irq_events s1 else queue (irq_events s1))"
proof -
  have short: "take 31 (evs @ [e]) = (if length evs < 31 then evs @ [e] else evs)"
    if "length evs \<le> 31" for evs :: "irq_event list" and e
    using that by auto
  have l: "length (irq_events s) \<le> 31"
    using iq.len_cap [OF wf] by (simp add: IRQ_EVENT_QUEUE_SIZE_def)
  note w = irq_debounce_words [OF wf i only first, of us2, unfolded Let_def irq_ms_diff [OF later]]
  have "length (irq_events (gpio_irq_callback us1 gpio events s)) \<le> 31"
    using w by simp
  with w l show ?thesis by (simp only: Let_def short)
qed

text \<open>
  When the counter of microseconds wraps, the milliseconds go from 4294967 back to 0, although
  the code subtracts them as if they wrapped at \<open>2 ^ 32\<close>: their difference across the wrap is
  huge, and an interrupt that repeats within the time is taken again.
\<close>

lemma irq_debounce_wraps:
  assumes "us2 < us1" "irq_ms us2 \<noteq> irq_ms us1" "h_debounce_ms h \<le> 2 ^ 31" "h_last_event_time h = irq_ms us1"
  shows "\<not> irq_debounced (irq_ms us2) events h"
proof -
  have u: "uint (irq_ms us) = uint us div 1000" for us
    by (simp add: irq_ms_def uint_div_distrib)
  have "uint us1 < 2 ^ 32"
    using uint_lt2p [of us1] by simp
  with assms(1) have le: "uint (irq_ms us2) \<le> uint (irq_ms us1)" "uint (irq_ms us1) \<le> 4294967"
    unfolding u by (simp_all add: word_less_def zdiv_mono1)
  moreover have "uint (irq_ms us2) \<noteq> uint (irq_ms us1)"
    using assms(2) by (simp add: word_uint_eq_iff)
  ultimately have lt: "uint (irq_ms us2) < uint (irq_ms us1)" by simp
  define x y where "x = uint (irq_ms us1)" and "y = uint (irq_ms us2)"
  have xy: "y < x" "x \<le> 4294967" "0 \<le> y"
    using lt le by (simp_all add: x_def y_def)
  have "uint (irq_ms us2 - irq_ms us1) = (y - x) mod 4294967296"
    by (simp add: uint_word_ariths x_def y_def)
  also have "\<dots> = (y - x + 4294967296) mod 4294967296"
    by simp
  also have "\<dots> = y - x + 4294967296"
    by (rule mod_pos_pos_trivial) (use xy in linarith)+
  finally have "2 ^ 31 \<le> irq_ms us2 - irq_ms us1"
    using xy by (simp add: word_le_def)
  with assms(3,4) show ?thesis
    by (auto simp: irq_debounced_def)
qed

definition irq_demo :: irq_state where
  "irq_demo = snd (IRQ_register_gpio (1, 2, 4, 8) 15 4 50 (IRQ_init \<lparr>irq_handlers = [], event_queue = [],
     queue_head = 3, queue_tail = 9, next_irq_id = 7, gpio_calls = []\<rparr>))"

lemma irq_debounce_witness:
  "irq_events (gpio_irq_callback 1030500 15 4 (gpio_irq_callback 1000900 15 4 irq_demo)) =
     [\<lparr>e_irq_id = 1, e_event_type = 4\<rparr>]"
proof -
  have d: "irq_demo = (IRQ_init \<lparr>irq_handlers = [], event_queue = [], queue_head = 3, queue_tail = 9,
      next_irq_id = 7, gpio_calls = []\<rparr>)\<lparr>gpio_calls := [(15, 4, True)], irq_handlers :=
        (replicate MAX_IRQ_HANDLERS zero_handler)[0 := \<lparr>h_pin = 15, h_event_mask = 4, h_enabled = True,
          h_debounce_ms = 50, h_last_event_time = 0, h_last_event_type = 0\<rparr>]\<rparr>"
    by (simp add: irq_demo_def IRQ_register_gpio_def IRQ_init_def MAX_IRQ_HANDLERS_def upt_rec
        zero_handler_def irq_event_mask_def Let_def)
  have wf: "irq_wf irq_demo" "irq_events irq_demo = []"
    by (simp_all add: d irq_wf_def IRQ_init_def irq_events_def IRQ_EVENT_QUEUE_SIZE_def)
  have "\<forall>j<MAX_IRQ_HANDLERS. j \<noteq> 0 \<longrightarrow> \<not> irq_matches 15 4 (irq_handlers irq_demo ! j)"
    "irq_matches 15 4 (irq_handlers irq_demo ! 0)" "\<not> irq_debounced (irq_ms 1000900) 4 (irq_handlers irq_demo ! 0)"
    "h_debounce_ms (irq_handlers irq_demo ! 0) = 50" "0 < MAX_IRQ_HANDLERS"
    by (simp_all add: d irq_matches_def irq_debounced_def irq_ms_def zero_handler_def MAX_IRQ_HANDLERS_def nth_Cons')
  with irq_debounce [OF wf(1), of 0 15 4 1000900 1030500] wf(2) show ?thesis by (simp add: Let_def)
qed

text \<open>Registration takes the lowest free slot and returns its number plus one; it fails only
  when all sixteen slots are in use. Unregistering that id succeeds, frees the slot and
  leaves every other handler alone, so that the next registration gets the same id.\<close>

theorem irq_register_unregister:
  assumes "irq_wf s" "IRQ_register_gpio masks pin ev deb s = (irq_id, s1)"
  shows "(irq_id = -1 \<and> s1 = s \<and> (\<forall>i<MAX_IRQ_HANDLERS. h_enabled (irq_handlers s ! i))) \<or>
    (\<exists>slot s2. slot < MAX_IRQ_HANDLERS \<and> irq_id = int slot + 1 \<and> \<not> h_enabled (irq_handlers s ! slot) \<and>
      (\<forall>i < slot. h_enabled (irq_handlers s ! i)) \<and> h_enabled (irq_handlers s1 ! slot) \<and>
      (\<forall>i. i \<noteq> slot \<longrightarrow> irq_handlers s1 ! i = irq_handlers s ! i) \<and>
      IRQ_unregister_gpio irq_id s1 = (True, s2) \<and>
      irq_handlers s2 = (irq_handlers s)[slot := zero_handler] \<and>
      fst (IRQ_register_gpio masks2 pin2 ev2 deb2 s2) = irq_id)"
proof (cases "find (\<lambda>i. \<not> h_enabled (irq_handlers s ! i)) [0..<MAX_IRQ_HANDLERS]")
  case None
  then have "\<forall>i<MAX_IRQ_HANDLERS. h_enabled (irq_handlers s ! i)"
    by (auto simp: find_None_iff)
  moreover from None assms(2) have "irq_id = -1" "s1 = s" by (simp_all add: IRQ_register_gpio_def)
  ultimately show ?thesis by simp
next
  case (Some slot)
  then have slot: "slot < MAX_IRQ_HANDLERS" "\<not> h_enabled (irq_handlers s ! slot)"
    "\<forall>i < slot. h_enabled (irq_handlers s ! i)"
    by (auto simp: find_Some_iff)
  have len: "length (irq_handlers s) = MAX_IRQ_HANDLERS" using assms(1) by (simp add: irq_wf_def)
  let ?hs = "(irq_handlers s)[slot := zero_handler]"
  have "find (\<lambda>i. \<not> h_enabled (?hs ! i)) [0..<MAX_IRQ_HANDLERS] = Some slot"
    unfolding find_Some_iff
    using slot len by (intro exI [of _ slot]) (auto simp: zero_handler_def)
  then have again: "fst (IRQ_register_gpio masks2 pin2 ev2 deb2 x) = int slot + 1" if "irq_handlers x = ?hs" for x
    using that by (simp add: IRQ_register_gpio_def Let_def)
  show ?thesis
    using assms(2) Some slot len again
    by (intro disjI2 exI [of _ slot]) (auto simp: IRQ_register_gpio_def IRQ_unregister_gpio_def Let_def)
qed

lemma irq_register_unregister_witness:
  "\<exists>s. irq_wf s \<and> fst (IRQ_register_gpio (1, 2, 4, 8) 15 4 50 s) = 1 \<and>
     fst (IRQ_unregister_gpio 1 (snd (IRQ_register_gpio (1, 2, 4, 8) 15 4 50 s))) = True"
proof -
  let ?s = "IRQ_init irq_demo"
  obtain j s1 where r: "IRQ_register_gpio (1, 2, 4, 8) 15 4 50 ?s = (j, s1)" by force
  have j: "j = 1" using r by (simp add: IRQ_register_gpio_def IRQ_init_def MAX_IRQ_HANDLERS_def upt_rec
        zero_handler_def Let_def)
  from irq_register_unregister [OF irq_wf_init(1) r, of "(1, 2, 4, 8)" 3 4 5] j
  have "fst (IRQ_unregister_gpio 1 s1)" by auto
  then show ?thesis
    using irq_wf_init(1) [of irq_demo] r j by (intro exI [of _ ?s]) simp
qed

text \<open>The two virtual machines register alike: on integer arguments and an option hash whose
  \<^verbatim>\<open>debounce\<close> is absent, nil or an Integer, the mruby/c method does what the mruby method does.\<close>

theorem irq_bindings_agree:
  assumes "map_of opts (VSym ''debounce'') \<in> {None, Some VNil} \<union> range (Some \<circ> VInt)"
  shows "mrb_s_register_gpio masks pin ev opts s =
    Some (c_register_gpio masks [VInt pin, VInt ev, VHash opts] s)"
  using assms by (auto simp: mrb_s_register_gpio_def c_register_gpio_def split_beta Let_def)

lemma irq_bindings_agree_witness:
  "mrb_s_register_gpio (1, 2, 4, 8) 15 4 [(VSym ''debounce'', VInt 50)] irq_demo =
     Some (c_register_gpio (1, 2, 4, 8) [VInt 15, VInt 4, VHash [(VSym ''debounce'', VInt 50)]] irq_demo)"
  by (rule irq_bindings_agree) simp

end
