(* ===== verification/Psg.thy ===== *)
theory Psg
  imports RingBuffer
begin

text \<open>
  The sound generator \<^verbatim>\<open>picoruby-psg\<close>: registers and envelopes of an AY-3-8910 like chip,
  packet dispatch, packet queue and sample computation (\<^verbatim>\<open>ports/common/psg.c\<close>), the packet
  timer, the render loop of core 1 and the audio callback (\<^verbatim>\<open>ports/rp2040/psg_port.c\<close>), and the
  methods of \<^verbatim>\<open>PSG::Driver\<close> (\<^verbatim>\<open>src/psg.c\<close>). The critical sections make every operation one
  step of the state. The three channels are lists of length three; an index that the code
  takes from a packet is checked by \<open>arr_set\<close>.
\<close>

section \<open>Data\<close>

record psg_packet =
  pk_tick :: u32
  pk_op :: u8
  pk_reg :: u8
  pk_val :: u8
  pk_arg :: u8

record psg_regs =
  tone_period :: "u16 list"
  noise_period :: u8
  mixer :: u8
  volume :: "u8 list"
  envelope_period :: u16
  envelope_shape :: u8

record psg_t =
  p_r :: psg_regs
  tone_inc :: "u32 list"
  tone_phase :: "u32 list"
  noise_shift :: u32
  noise_cnt :: u32
  env_cnt :: "u16 list"
  env_level :: "u8 list"
  env_dir :: "u8 list"
  env_running :: "bool list"
  env_continue :: "u8 list"
  env_attack :: "u8 list"
  env_alternate :: "u8 list"
  env_hold :: "u8 list"
  legato :: "bool list"
  lfo_phase :: "u16 list"
  lfo_inc :: "u16 list"
  lfo_depth :: "u8 list"
  mute_mask :: u8
  pan :: "u8 list"
  timbre :: "u8 list"

record psg_ringbuf =
  rb_head :: u16
  rb_tail :: u16
  rb_buf :: "psg_packet list option"

definition PSG_PACKET_QUEUE_LEN :: nat where "PSG_PACKET_QUEUE_LEN = 2 ^ 8"
definition PSG_PACKET_QUEUE_MASK :: u16 where "PSG_PACKET_QUEUE_MASK = 255"
definition SAMPLE_RATE :: nat where "SAMPLE_RATE = 22050"
definition CHIP_CLOCK :: nat where "CHIP_CLOCK = 2000000"
definition MAX_SAMPLE_WIDTH :: u32 where "MAX_SAMPLE_WIDTH = 4095"
definition MAX_LFO_DEPTH :: u8 where "MAX_LFO_DEPTH = 127"

abbreviation (input) PSG_PKT_REG_WRITE :: u8 where "PSG_PKT_REG_WRITE \<equiv> 0"
abbreviation (input) PSG_PKT_LFO_SET :: u8 where "PSG_PKT_LFO_SET \<equiv> 1"
abbreviation (input) PSG_PKT_CH_MUTE :: u8 where "PSG_PKT_CH_MUTE \<equiv> 2"
abbreviation (input) PSG_PKT_PAN_SET :: u8 where "PSG_PKT_PAN_SET \<equiv> 3"
abbreviation (input) PSG_PKT_TIMBRE_SET :: u8 where "PSG_PKT_TIMBRE_SET \<equiv> 4"
abbreviation (input) PSG_PKT_LEGATO_SET :: u8 where "PSG_PKT_LEGATO_SET \<equiv> 5"

section \<open>Registers\<close>

definition calc_inc :: "u16 \<Rightarrow> u32" where
  "calc_inc period = (if period = 0 then 0
     else let f = CHIP_CLOCK div (32 * unat period) in of_nat (f * 2 ^ 32 div SAMPLE_RATE))"

definition update_tone_inc :: "nat \<Rightarrow> psg_t \<Rightarrow> psg_t" where
  "update_tone_inc tr s = s\<lparr>tone_inc := (tone_inc s)[tr := calc_inc (tone_period (p_r s) ! tr)]\<rparr>"

definition RESET_ENVELOPE :: "nat \<Rightarrow> psg_t \<Rightarrow> psg_t" where
  "RESET_ENVELOPE tr s = s\<lparr>env_dir := (env_dir s)[tr := env_attack s ! tr],
     env_level := (env_level s)[tr := if env_attack s ! tr \<noteq> 0 then 0 else 15],
     env_running := (env_running s)[tr := True], env_cnt := (env_cnt s)[tr := 0]\<rparr>"

definition write_period_lsb :: "nat \<Rightarrow> u8 \<Rightarrow> psg_t \<Rightarrow> psg_t" where
  "write_period_lsb tr val s = s\<lparr>p_r := (p_r s)\<lparr>tone_period := (tone_period (p_r s))
     [tr := ((tone_period (p_r s) ! tr) AND 0x0F00) OR ucast val]\<rparr>\<rparr>"

definition write_period_msb :: "nat \<Rightarrow> u8 \<Rightarrow> psg_t \<Rightarrow> psg_t" where
  "write_period_msb tr val s =
     (let s = s\<lparr>p_r := (p_r s)\<lparr>tone_period := (tone_period (p_r s))
            [tr := ((tone_period (p_r s) ! tr) AND 0x00FF) OR push_bit 8 (ucast (val AND 0x0F))]\<rparr>\<rparr>;
          s = update_tone_inc tr s
      in if (volume (p_r s) ! tr) AND 0x10 \<noteq> 0 \<and> \<not> legato s ! tr then RESET_ENVELOPE tr s else s)"

definition write_shape :: "u8 \<Rightarrow> psg_t \<Rightarrow> psg_t" where
  "write_shape val s =
     (let s = s\<lparr>p_r := (p_r s)\<lparr>envelope_shape := val AND 0x0F\<rparr>\<rparr>
      in foldl (\<lambda>s tr. RESET_ENVELOPE tr (s\<lparr>
           env_continue := (env_continue s)[tr := drop_bit 3 val AND 1],
           env_attack := (env_attack s)[tr := drop_bit 2 val AND 1],
           env_alternate := (env_alternate s)[tr := drop_bit 1 val AND 1],
           env_hold := (env_hold s)[tr := val AND 1]\<rparr>)) s [0, 1, 2])"

definition PSG_write_reg :: "u8 \<Rightarrow> u8 \<Rightarrow> psg_t \<Rightarrow> psg_t" where
  "PSG_write_reg reg val s =
     (if reg = 0 then write_period_lsb 0 val s
      else if reg = 1 then write_period_msb 0 val s
      else if reg = 2 then write_period_lsb 1 val s
      else if reg = 3 then write_period_msb 1 val s
      else if reg = 4 then write_period_lsb 2 val s
      else if reg = 5 then write_period_msb 2 val s
      else if reg = 6 then s\<lparr>p_r := (p_r s)\<lparr>noise_period := val AND 0x1F\<rparr>\<rparr>
      else if reg = 7 then s\<lparr>p_r := (p_r s)\<lparr>mixer := val AND 0x3F\<rparr>\<rparr>
      else if reg = 8 \<or> reg = 9 \<or> reg = 10 then
        s\<lparr>p_r := (p_r s)\<lparr>volume := (volume (p_r s))[unat (reg - 8) := val AND 0x1F]\<rparr>\<rparr>
      else if reg = 11 then
        s\<lparr>p_r := (p_r s)\<lparr>envelope_period := (envelope_period (p_r s) AND 0xFF00) OR ucast val\<rparr>\<rparr>
      else if reg = 12 then
        s\<lparr>p_r := (p_r s)\<lparr>envelope_period := (envelope_period (p_r s) AND 0x00FF) OR push_bit 8 (ucast val)\<rparr>\<rparr>
      else if reg = 13 then write_shape val s
      else s)"

section \<open>Packets\<close>

text \<open>
  The track of a packet is \<^verbatim>\<open>reg & 0x03\<close>, which may be 3, past the end of the channel arrays.
\<close>

definition PSG_process_packet :: "psg_packet \<Rightarrow> psg_t \<Rightarrow> psg_t option" where
  "PSG_process_packet pkt s =
     (let tr = unat (pk_reg pkt AND 0x03) in
      if pk_op pkt = PSG_PKT_REG_WRITE then Some (PSG_write_reg (pk_reg pkt) (pk_val pkt) s)
      else if pk_op pkt = PSG_PKT_LFO_SET then
        if MAX_LFO_DEPTH < pk_val pkt then Some s
        else do {
          depths \<leftarrow> arr_set (lfo_depth s) tr (pk_val pkt);
          incs \<leftarrow> arr_set (lfo_inc s) tr (of_nat (unat (pk_arg pkt) * 65536 div 1000));
          Some (s\<lparr>lfo_depth := depths, lfo_inc := incs\<rparr>)
        }
      else if pk_op pkt = PSG_PKT_CH_MUTE then
        Some (if pk_val pkt \<noteq> 0 then s\<lparr>mute_mask := mute_mask s OR push_bit tr 1\<rparr>
              else s\<lparr>mute_mask := mute_mask s AND NOT (push_bit tr 1)\<rparr>)
      else if pk_op pkt = PSG_PKT_PAN_SET then
        do { p \<leftarrow> arr_set (pan s) tr (pk_val pkt AND 0x0F); Some (s\<lparr>pan := p\<rparr>) }
      else if pk_op pkt = PSG_PKT_TIMBRE_SET then
        do { t \<leftarrow> arr_set (timbre s) tr (pk_val pkt); Some (s\<lparr>timbre := t\<rparr>) }
      else if pk_op pkt = PSG_PKT_LEGATO_SET then
        do { l \<leftarrow> arr_set (legato s) tr (pk_val pkt \<noteq> 0); Some (s\<lparr>legato := l\<rparr>) }
      else Some s)"

section \<open>The packet queue\<close>

text \<open>\<open>None\<close>: the buffer is not allocated, or an index is out of range.\<close>

definition PSG_rb_push :: "psg_packet \<Rightarrow> psg_ringbuf \<Rightarrow> (bool \<times> psg_ringbuf) option" where
  "PSG_rb_push p rb =
     (let nxt = (rb_head rb + 1) AND PSG_PACKET_QUEUE_MASK in
      if nxt = rb_tail rb then Some (False, rb)
      else do {
        buf \<leftarrow> rb_buf rb;
        buf \<leftarrow> arr_set buf (unat (rb_head rb)) p;
        Some (True, rb\<lparr>rb_buf := Some buf, rb_head := nxt\<rparr>)
      })"

definition PSG_rb_peek :: "psg_ringbuf \<Rightarrow> psg_packet option option" where
  "PSG_rb_peek rb =
     (if rb_tail rb = rb_head rb then Some None
      else do { buf \<leftarrow> rb_buf rb; p \<leftarrow> arr_get buf (unat (rb_tail rb)); Some (Some p) })"

definition PSG_rb_pop :: "psg_ringbuf \<Rightarrow> psg_ringbuf" where
  "PSG_rb_pop rb = rb\<lparr>rb_tail := (rb_tail rb + 1) AND PSG_PACKET_QUEUE_MASK\<rparr>"

section \<open>Envelopes and low-frequency oscillators\<close>

text \<open>
  One iteration of the loop over the channels; \<open>True\<close> when the function returns from inside
  the loop.
\<close>

definition env_step :: "nat \<Rightarrow> psg_t \<Rightarrow> bool \<times> psg_t" where
  "env_step tr s =
     (if (volume (p_r s) ! tr) AND 0x10 = 0 then (False, s)
      else if \<not> env_running s ! tr \<or> envelope_period (p_r s) = 0 then (False, s)
      else let s = s\<lparr>env_cnt := (env_cnt s)[tr := env_cnt s ! tr + 1]\<rparr> in
      if env_cnt s ! tr < envelope_period (p_r s) then (False, s)
      else let s = s\<lparr>env_cnt := (env_cnt s)[tr := 0]\<rparr>; up = env_dir s ! tr \<noteq> 0 in
      if up \<and> env_level s ! tr < 15 then (True, s\<lparr>env_level := (env_level s)[tr := env_level s ! tr + 1]\<rparr>)
      else if \<not> up \<and> 0 < env_level s ! tr then (True, s\<lparr>env_level := (env_level s)[tr := env_level s ! tr - 1]\<rparr>)
      else if env_continue s ! tr = 0 then (True, s\<lparr>env_running := (env_running s)[tr := False]\<rparr>)
      else if env_hold s ! tr \<noteq> 0 then (True, s\<lparr>env_running := (env_running s)[tr := False]\<rparr>)
      else let dir = (if env_alternate s ! tr \<noteq> 0 then (env_dir s ! tr) XOR 1 else env_attack s ! tr) in
        (False, s\<lparr>env_dir := (env_dir s)[tr := dir],
           env_level := (env_level s)[tr := if dir \<noteq> 0 then 0 else 15]\<rparr>))"

fun env_loop :: "nat list \<Rightarrow> psg_t \<Rightarrow> psg_t" where
  "env_loop [] s = s"
| "env_loop (tr # trs) s = (let (ret, s) = env_step tr s in if ret then s else env_loop trs s)"

definition update_envelope :: "psg_t \<Rightarrow> psg_t" where
  "update_envelope s = env_loop [0, 1, 2] s"

definition PSG_tick_1ms :: "psg_t \<Rightarrow> psg_t" where
  "PSG_tick_1ms s = foldl (\<lambda>s tr. s\<lparr>lfo_phase := (lfo_phase s)[tr := lfo_phase s ! tr + lfo_inc s ! tr]\<rparr>)
     s [0, 1, 2]"

section \<open>Samples\<close>

definition vol_tab :: "u32 list" where
  "vol_tab = [0, 258, 307, 365, 434, 516, 613, 728, 865, 1029, 1223, 1453, 1727, 2052, 2439, 2899]"

definition pan_tab_l :: "u32 list" where
  "pan_tab_l = [4095, 4095, 4069, 3992, 3865, 3689, 3467, 3202, 2896, 2553, 2179, 1777, 1352, 911, 458, 0]"

definition pan_tab_r :: "u32 list" where
  "pan_tab_r = [0, 0, 458, 911, 1352, 1777, 2179, 2553, 2896, 3202, 3467, 3689, 3865, 3992, 4069, 4095]"

definition soft_clip :: "u32 \<Rightarrow> u32" where
  "soft_clip x = (if x \<le> 3600 then x
     else let d = x - 3600; y = 3600 + (drop_bit 3 d - drop_bit 7 d)
          in if MAX_SAMPLE_WIDTH < y then MAX_SAMPLE_WIDTH else y AND 0xFFFF)"

text \<open>The 17-bit noise shift register; \<open>noise_period + 1\<close> is computed in \<^verbatim>\<open>int\<close>.\<close>

definition noise_step :: "psg_t \<Rightarrow> psg_t" where
  "noise_step s =
     (let s = s\<lparr>noise_cnt := noise_cnt s + 1\<rparr> in
      if ucast (noise_period (p_r s)) + 1 \<le> noise_cnt s then
        let fb = (noise_shift s XOR drop_bit 3 (noise_shift s)) AND 1
        in s\<lparr>noise_shift := drop_bit 1 (noise_shift s) OR push_bit 16 fb, noise_cnt := 0\<rparr>
      else s)"

text \<open>
  The phase increment with vibrato. Right shifts of negative \<^verbatim>\<open>int32_t\<close> values round towards
  minus infinity, as \<open>div\<close> does; the product with the unsigned increment wraps around.
\<close>

definition vibrato_inc :: "nat \<Rightarrow> psg_t \<Rightarrow> u32" where
  "vibrato_inc tr s =
     (let depth = sint (lfo_depth s ! tr);
          ph = uint (lfo_phase s ! tr);
          tri = (if ph < 32768 then ph else 65535 - ph);
          cent = depth * tri div 2 ^ 15;
          frac = cent * 38 div 2 ^ 8
      in tone_inc s ! tr + drop_bit 16 (tone_inc s ! tr * word_of_int frac))"

definition phase_step :: "nat \<Rightarrow> psg_t \<Rightarrow> psg_t" where
  "phase_step tr s =
     (if tone_inc s ! tr \<noteq> 0
      then s\<lparr>tone_phase := (tone_phase s)[tr := tone_phase s ! tr + vibrato_inc tr s]\<rparr> else s)"

definition tone_amp :: "u8 \<Rightarrow> u32 \<Rightarrow> u32" where
  "tone_amp tim phase =
     (if tim = 1 then
        let idx = drop_bit 19 phase; idx = idx XOR drop_bit 12 idx; tri = idx AND 0x1FFF in drop_bit 1 tri
      else if tim = 2 then drop_bit 20 phase
      else if tim = 3 then 4095 - drop_bit 20 phase
      else if drop_bit 31 phase \<noteq> 0 then 4095 else 0)"

text \<open>What channel \<open>tr\<close> adds to the left and right sum; the tables are indexed by values that the code masks.\<close>

definition mix_track :: "bool \<Rightarrow> nat \<Rightarrow> psg_t \<Rightarrow> (u32 \<times> u32) option" where
  "mix_track noise_bit tr s =
     (let use_tone = mixer (p_r s) AND push_bit tr 1 = 0;
          use_noise = mixer (p_r s) AND push_bit (tr + 3) 1 = 0;
          amp = (if use_tone then tone_amp (timbre s ! tr) (tone_phase s ! tr) else 0);
          active_amp = (if use_noise \<and> noise_bit then 4095 else amp)
      in if mute_mask s AND push_bit tr 1 \<noteq> 0 then Some (0, 0)
         else if active_amp = 0 then Some (0, 0)
         else let vol = volume (p_r s) ! tr;
                  vol = (if vol AND 0x10 \<noteq> 0 then env_level s ! tr else vol) AND 0x0F
              in do {
                gain \<leftarrow> arr_get vol_tab (unat vol);
                let amp = drop_bit 12 (active_amp * gain);
                l \<leftarrow> arr_get pan_tab_l (unat (pan s ! tr));
                r \<leftarrow> arr_get pan_tab_r (unat (pan s ! tr));
                Some (drop_bit 12 (amp * l), drop_bit 12 (amp * r))
              })"

fun mix_loop :: "bool \<Rightarrow> nat list \<Rightarrow> u32 \<Rightarrow> u32 \<Rightarrow> psg_t \<Rightarrow> (u32 \<times> u32 \<times> psg_t) option" where
  "mix_loop noise_bit [] mix_l mix_r s = Some (mix_l, mix_r, s)"
| "mix_loop noise_bit (tr # trs) mix_l mix_r s = do {
     let s = phase_step tr s;
     (l, r) \<leftarrow> mix_track noise_bit tr s;
     mix_loop noise_bit trs (mix_l + l) (mix_r + r) s
   }"

definition PSG_calc_sample :: "psg_t \<Rightarrow> (u32 \<times> u32 \<times> psg_t) option" where
  "PSG_calc_sample s = do {
     let s = noise_step (update_envelope s);
     (mix_l, mix_r, s) \<leftarrow> mix_loop (noise_shift s AND 1 \<noteq> 0) [0, 1, 2] 0 0 s;
     Some (soft_clip mix_l, soft_clip mix_r, s)
   }"

fun PSG_render_block :: "nat \<Rightarrow> psg_t \<Rightarrow> (u32 list \<times> psg_t) option" where
  "PSG_render_block 0 s = Some ([], s)"
| "PSG_render_block (Suc n) s = do {
     (l, r, s) \<leftarrow> PSG_calc_sample s;
     (xs, s) \<leftarrow> PSG_render_block n s;
     Some ((push_bit 16 l OR r) # xs, s)
   }"

end
