(* ===== verification/PsgSys.thy ===== *)
theory PsgSys
  imports Psg
begin

text \<open>
  The sound generator as a system: the state that the two cores share, the packet timer and
  the render loop of core 1, the audio callback, and the methods of \<^verbatim>\<open>PSG::Driver\<close> that the
  Ruby program calls on core 0.
\<close>

section \<open>State\<close>

datatype psg_driver = Psg_drv_pwm | Psg_drv_mcp4922

text \<open>\<open>dac_out\<close> collects the samples written to the output driver, \<open>core1_fifo\<close> the pin numbers
  that core 1 receives when it starts.\<close>

record psg_sys =
  sy_psg :: psg_t
  sy_rb :: psg_ringbuf
  g_tick_ms :: u32
  psg_drv :: "psg_driver option"
  pcm_buf :: "u32 list"
  wr_idx :: u32
  rd_idx :: u32
  core1_alive :: bool
  core1_fifo :: "u8 list"
  dac_out :: "(u32 \<times> u32) list"

definition BUF_SAMPLES :: nat where "BUF_SAMPLES = 256"
definition BUF_MASK :: u32 where "BUF_MASK = 255"

section \<open>Core 1\<close>

partial_function (option) psg_process_packets :: "psg_sys \<Rightarrow> psg_sys option" where
  "psg_process_packets s =
     (case PSG_rb_peek (sy_rb s) of
        None \<Rightarrow> None
      | Some None \<Rightarrow> Some s
      | Some (Some pkt) \<Rightarrow>
          if 0 < sdiff32 (pk_tick pkt) (g_tick_ms s) then Some s
          else do {
            p \<leftarrow> PSG_process_packet pkt (sy_psg s);
            psg_process_packets (s\<lparr>g_tick_ms := g_tick_ms s - pk_tick pkt,
              sy_rb := PSG_rb_pop (sy_rb s), sy_psg := p\<rparr>)
          })"

definition tick_cb :: "psg_sys \<Rightarrow> psg_sys option" where
  "tick_cb s = do {
     s \<leftarrow> psg_process_packets (s\<lparr>g_tick_ms := g_tick_ms s + 1\<rparr>);
     Some (s\<lparr>sy_psg := PSG_tick_1ms (sy_psg s)\<rparr>)
   }"

fun pcm_write :: "nat \<Rightarrow> u32 list \<Rightarrow> u32 list \<Rightarrow> u32 list option" where
  "pcm_write i [] buf = Some buf"
| "pcm_write i (x # xs) buf = do { buf \<leftarrow> arr_set buf i x; pcm_write (Suc i) xs buf }"

definition render_to :: "nat \<Rightarrow> nat \<Rightarrow> psg_sys \<Rightarrow> psg_sys option" where
  "render_to pos n s = do {
     (xs, p) \<leftarrow> PSG_render_block n (sy_psg s);
     buf \<leftarrow> pcm_write pos xs (pcm_buf s);
     Some (s\<lparr>pcm_buf := buf, sy_psg := p\<rparr>)
   }"

text \<open>One turn of the endless loop of \<^verbatim>\<open>psg_core1_main\<close>.\<close>

definition core1_turn :: "psg_sys \<Rightarrow> psg_sys option" where
  "core1_turn s =
     (let used = unat ((wr_idx s - rd_idx s) AND BUF_MASK) in
      if BUF_SAMPLES div 2 \<le> BUF_SAMPLES - used then do {
        let dst_pos = unat (wr_idx s AND BUF_MASK);
        let first_len = min (BUF_SAMPLES - dst_pos) (BUF_SAMPLES div 2);
        s \<leftarrow> render_to dst_pos first_len s;
        s \<leftarrow> (if first_len < BUF_SAMPLES div 2
              then render_to 0 ((BUF_SAMPLES div 2 - first_len) div 2) s else Some s);
        Some (s\<lparr>wr_idx := wr_idx s + 128\<rparr>)
      } else Some s)"

section \<open>Audio callback\<close>

definition PSG_audio_cb :: "psg_sys \<Rightarrow> psg_sys option" where
  "PSG_audio_cb s =
     (if psg_drv s \<noteq> None \<and> (rd_idx s + 1) AND BUF_MASK \<noteq> wr_idx s then do {
        val \<leftarrow> arr_get (pcm_buf s) (unat (rd_idx s));
        Some (s\<lparr>rd_idx := (rd_idx s + 1) AND BUF_MASK,
          dac_out := dac_out s @ [(drop_bit 16 val, val AND 0xFFFF)]\<rparr>)
      } else Some s)"

section \<open>Start and stop\<close>

definition PSG_tick_start_core1 :: "u8 \<Rightarrow> u8 \<Rightarrow> psg_sys \<Rightarrow> psg_sys option" where
  "PSG_tick_start_core1 p1 p2 s = do {
     s \<leftarrow> render_to 0 BUF_SAMPLES s;
     let s = s\<lparr>wr_idx := of_nat BUF_SAMPLES\<rparr>;
     Some (if core1_alive s then s else s\<lparr>core1_fifo := core1_fifo s @ [p1, p2], core1_alive := True\<rparr>)
   }"

definition PSG_tick_stop_core1 :: "psg_sys \<Rightarrow> psg_sys" where
  "PSG_tick_stop_core1 s = s\<lparr>psg_drv := None, core1_alive := False\<rparr>"

text \<open>The state of a generator after \<^verbatim>\<open>memset\<close> and the settings of \<open>reset_psg\<close>.\<close>

definition psg_reset_state :: psg_t where
  "psg_reset_state = \<lparr>p_r = \<lparr>tone_period = [0, 0, 0], noise_period = 0, mixer = 0x38,
       volume = [15, 15, 15], envelope_period = 0, envelope_shape = 0\<rparr>,
     tone_inc = [0, 0, 0], tone_phase = [0, 0, 0], noise_shift = 0, noise_cnt = 0,
     env_cnt = [0, 0, 0], env_level = [0, 0, 0], env_dir = [0, 0, 0],
     env_running = [False, False, False], env_continue = [0, 0, 0], env_attack = [0, 0, 0],
     env_alternate = [0, 0, 0], env_hold = [0, 0, 0], legato = [False, False, False],
     lfo_phase = [0, 0, 0], lfo_inc = [0, 0, 0], lfo_depth = [0, 0, 0], mute_mask = 0x07,
     pan = [8, 8, 8], timbre = [0, 0, 0]\<rparr>"

text \<open>\<open>mem\<close> is the block that \<^verbatim>\<open>mrb_malloc\<close> returns, with whatever it holds.\<close>

definition reset_psg :: "psg_packet list \<Rightarrow> psg_sys \<Rightarrow> psg_sys" where
  "reset_psg mem s = s\<lparr>sy_rb := \<lparr>rb_head = 0, rb_tail = 0, rb_buf = Some mem\<rparr>, sy_psg := psg_reset_state\<rparr>"

section \<open>Methods of the driver class\<close>

definition mrb_driver_s_select_pwm :: "psg_packet list \<Rightarrow> int \<Rightarrow> int \<Rightarrow> psg_sys \<Rightarrow> (mrb_value \<times> psg_sys) option" where
  "mrb_driver_s_select_pwm mem left right s = do {
     let s = reset_psg mem (s\<lparr>psg_drv := Some Psg_drv_pwm\<rparr>);
     s \<leftarrow> PSG_tick_start_core1 (word_of_int left) (word_of_int right) s;
     Some (VNil, s)
   }"

definition mrb_driver_s_select_mcp4922 :: "psg_packet list \<Rightarrow> int \<Rightarrow> psg_sys \<Rightarrow> (mrb_value \<times> psg_sys) option" where
  "mrb_driver_s_select_mcp4922 mem ldac s = do {
     let s = reset_psg mem (s\<lparr>psg_drv := Some Psg_drv_mcp4922\<rparr>);
     s \<leftarrow> PSG_tick_start_core1 (word_of_int ldac) 0 s;
     Some (VNil, s)
   }"

definition mrb_driver_buffer_empty_p :: "psg_sys \<Rightarrow> mrb_value" where
  "mrb_driver_buffer_empty_p s = (if rb_head (sy_rb s) = rb_tail (sy_rb s) then VTrue else VFalse)"

definition mrb_driver_deinit :: "psg_sys \<Rightarrow> mrb_value \<times> psg_sys" where
  "mrb_driver_deinit s =
     (let s = PSG_tick_stop_core1 s in (VNil, s\<lparr>sy_rb := (sy_rb s)\<lparr>rb_buf := None\<rparr>\<rparr>))"

definition psg_send :: "psg_packet \<Rightarrow> psg_sys \<Rightarrow> (mrb_value \<times> psg_sys) option" where
  "psg_send p s = do {
     (ok, rb) \<leftarrow> PSG_rb_push p (sy_rb s);
     Some (if ok then VTrue else VFalse, s\<lparr>sy_rb := rb\<rparr>)
   }"

definition mk_packet :: "int \<Rightarrow> u8 \<Rightarrow> int \<Rightarrow> int \<Rightarrow> int \<Rightarrow> psg_packet" where
  "mk_packet tick op reg val arg = \<lparr>pk_tick = word_of_int tick, pk_op = op, pk_reg = word_of_int reg,
     pk_val = word_of_int val, pk_arg = word_of_int arg\<rparr>"

type_synonym psg_method = "psg_sys \<Rightarrow> (mrb_value rb_result \<times> psg_sys) option"

definition mrb_driver_send_reg :: "int \<Rightarrow> int \<Rightarrow> int \<Rightarrow> psg_method" where
  "mrb_driver_send_reg reg val tick_delay s =
     map_option (map_prod Inr id) (psg_send (mk_packet tick_delay PSG_PKT_REG_WRITE reg val 0) s)"

definition mrb_driver_set_lfo :: "int \<Rightarrow> int \<Rightarrow> int \<Rightarrow> int \<Rightarrow> psg_method" where
  "mrb_driver_set_lfo tr depth rate tick_delay s =
     map_option (map_prod Inr id) (psg_send (mk_packet tick_delay PSG_PKT_LFO_SET tr depth rate) s)"

definition mrb_driver_set_pan :: "int \<Rightarrow> int \<Rightarrow> int \<Rightarrow> psg_method" where
  "mrb_driver_set_pan tr p tick_delay s =
     (if tr < 0 \<or> 2 < tr \<or> p < 0 \<or> 15 < p
      then Some (Inl (ArgumentError ''Invalid track or pan value: %d, %d''), s)
      else map_option (map_prod Inr id) (psg_send (mk_packet tick_delay PSG_PKT_PAN_SET tr p 0) s))"

definition mrb_driver_set_timbre :: "int \<Rightarrow> int \<Rightarrow> int \<Rightarrow> psg_method" where
  "mrb_driver_set_timbre tr tim tick_delay s =
     (if tr < 0 \<or> 2 < tr then Some (Inl (ArgumentError ''Invalid track: %d (0-2 expected)''), s)
      else map_option (map_prod Inr id) (psg_send (mk_packet tick_delay PSG_PKT_TIMBRE_SET tr tim 0) s))"

definition mrb_driver_set_legato :: "int \<Rightarrow> int \<Rightarrow> int \<Rightarrow> psg_method" where
  "mrb_driver_set_legato tr leg tick_delay s =
     (if tr < 0 \<or> 2 < tr then Some (Inl (ArgumentError ''Invalid track: %d (0-2 expected)''), s)
      else map_option (map_prod Inr id) (psg_send (mk_packet tick_delay PSG_PKT_LEGATO_SET tr leg 0) s))"

definition mrb_driver_mute :: "int \<Rightarrow> int \<Rightarrow> int \<Rightarrow> psg_method" where
  "mrb_driver_mute tr flag tick_delay s =
     map_option (map_prod Inr id) (psg_send (mk_packet tick_delay PSG_PKT_CH_MUTE tr flag 0) s)"

section \<open>The packet queue implements the interface\<close>

definition psg_rb_wf :: "psg_ringbuf \<Rightarrow> bool" where
  "psg_rb_wf rb \<longleftrightarrow> (case rb_buf rb of None \<Rightarrow> False | Some buf \<Rightarrow> length buf = PSG_PACKET_QUEUE_LEN) \<and>
     unat (rb_head rb) < PSG_PACKET_QUEUE_LEN \<and> unat (rb_tail rb) < PSG_PACKET_QUEUE_LEN"

definition psg_packets :: "psg_ringbuf \<Rightarrow> psg_packet list" where
  "psg_packets rb = (case rb_buf rb of None \<Rightarrow> [] | Some buf \<Rightarrow>
     ring_list buf (unat (rb_tail rb)) (unat (rb_head rb)))"

definition psg_deq :: "psg_ringbuf \<Rightarrow> (psg_packet option \<times> psg_ringbuf) option" where
  "psg_deq rb = do {
     p \<leftarrow> PSG_rb_peek rb;
     Some (p, case p of None \<Rightarrow> rb | Some _ \<Rightarrow> PSG_rb_pop rb)
   }"

lemma psg_index:
  assumes "unat (i :: u16) < PSG_PACKET_QUEUE_LEN"
  shows "unat ((i + 1) AND PSG_PACKET_QUEUE_MASK) = Suc (unat i) mod PSG_PACKET_QUEUE_LEN"
proof -
  have "unat ((i + 1) AND PSG_PACKET_QUEUE_MASK) = unat (i + 1) AND (2 ^ 8 - Suc 0)"
    by (simp add: PSG_PACKET_QUEUE_MASK_def unsigned_and_eq)
  also have "\<dots> = unat (i + 1) mod 2 ^ 8" by (rule nat_and_mask)
  finally have "unat ((i + 1) AND PSG_PACKET_QUEUE_MASK) = unat (i + 1) mod 2 ^ 8" .
  moreover have "unat (i + 1) = Suc (unat i)"
    using assms by (simp add: PSG_PACKET_QUEUE_LEN_def unat_word_ariths)
  ultimately show ?thesis by (simp add: PSG_PACKET_QUEUE_LEN_def)
qed

interpretation pq: refusing_fifo psg_rb_wf psg_packets "\<lambda>_. PSG_PACKET_QUEUE_LEN - 1" PSG_rb_push psg_deq
proof
  fix s :: psg_ringbuf and e x :: psg_packet and xs
  assume wf: "psg_rb_wf s"
  then obtain buf where b: "rb_buf s = Some buf" "length buf = PSG_PACKET_QUEUE_LEN"
    by (auto simp: psg_rb_wf_def split: option.splits)
  have n: "unat (rb_tail s) < length buf" "unat (rb_head s) < length buf"
    using wf b by (auto simp: psg_rb_wf_def)
  note idx = psg_index [of "rb_head s"] psg_index [of "rb_tail s"]
  note full = ring_full_iff [OF n]
  have nxt: "(rb_head s + 1) AND PSG_PACKET_QUEUE_MASK = rb_tail s \<longleftrightarrow>
      Suc (unat (rb_head s)) mod length buf = unat (rb_tail s)"
    using idx(1) n(2) b(2) by (metis word_unat_eq_iff)
  have lt: "Suc i mod PSG_PACKET_QUEUE_LEN < PSG_PACKET_QUEUE_LEN" for i
    by (simp add: PSG_PACKET_QUEUE_LEN_def)
  show "length (psg_packets s) \<le> PSG_PACKET_QUEUE_LEN - 1"
    using ring_length_le [OF n(1)] b by (simp add: psg_packets_def)
  show "PSG_rb_push e s = Some (False, s)" if "length (psg_packets s) = PSG_PACKET_QUEUE_LEN - 1"
    using that full nxt b by (simp add: PSG_rb_push_def psg_packets_def)
  show "\<exists>s'. PSG_rb_push e s = Some (True, s') \<and> psg_rb_wf s' \<and> psg_packets s' = psg_packets s @ [e] \<and>
      PSG_PACKET_QUEUE_LEN - 1 = PSG_PACKET_QUEUE_LEN - 1"
    if "length (psg_packets s) < PSG_PACKET_QUEUE_LEN - 1"
  proof -
    have room: "Suc (unat (rb_head s)) mod length buf \<noteq> unat (rb_tail s)"
      using that full b by (auto simp: psg_packets_def)
    then show ?thesis
      using ring_push [OF n room, of e] idx(1) n nxt b wf lt
      by (simp add: PSG_rb_push_def psg_packets_def psg_rb_wf_def Let_def)
  qed
  show "psg_deq s = Some (None, s)" if "psg_packets s = []"
    using that ring_empty_iff [OF n] b
    by (simp add: psg_deq_def PSG_rb_peek_def psg_packets_def word_unat_eq_iff)
  show "\<exists>s'. psg_deq s = Some (Some x, s') \<and> psg_rb_wf s' \<and> psg_packets s' = xs \<and>
      PSG_PACKET_QUEUE_LEN - 1 = PSG_PACKET_QUEUE_LEN - 1"
    if "psg_packets s = x # xs"
  proof -
    have ne: "unat (rb_tail s) \<noteq> unat (rb_head s)"
      using that ring_empty_iff [OF n] b by (auto simp: psg_packets_def)
    then have "rb_tail s \<noteq> rb_head s" by auto
    then show ?thesis
      using ring_pop [OF n ne] that idx(2) n b wf lt
      by (auto simp: psg_deq_def PSG_rb_peek_def PSG_rb_pop_def psg_packets_def psg_rb_wf_def)
  qed
qed

end
