(* ===== verification/PsgProps.thy ===== *)
theory PsgProps
  imports PsgSys
begin

text \<open>
  Properties of the sound generator: the ranges of its registers are kept by every packet and
  every sample, samples fit twelve bits, packets leave the queue at the tick their delays add
  up to.
\<close>

section \<open>Ranges\<close>

definition chan_upto :: "'a :: len word \<Rightarrow> 'a word list \<Rightarrow> bool" where
  "chan_upto m xs \<longleftrightarrow> length xs = 3 \<and> (\<forall>v\<in>set xs. v \<le> m)"

lemma chan_update [simp, intro]: "chan_upto m xs \<Longrightarrow> v \<le> m \<Longrightarrow> chan_upto m (xs[i := v])"
  using set_update_subset_insert [of xs i v] by (auto simp: chan_upto_def)

lemma chan_nth: "chan_upto m xs \<Longrightarrow> i < 3 \<Longrightarrow> xs ! i \<le> m"
  by (auto simp: chan_upto_def)

lemma chan_length: "chan_upto m xs \<Longrightarrow> length xs = 3"
  by (simp add: chan_upto_def)

definition psg_inv :: "psg_t \<Rightarrow> bool" where
  "psg_inv s \<longleftrightarrow> chan_upto 4095 (tone_period (p_r s)) \<and> chan_upto 31 (volume (p_r s)) \<and>
     chan_upto 15 (env_level s) \<and> chan_upto 15 (pan s) \<and> chan_upto 127 (lfo_depth s) \<and>
     length (tone_inc s) = 3 \<and> length (tone_phase s) = 3 \<and> length (env_cnt s) = 3 \<and>
     length (env_dir s) = 3 \<and> length (env_running s) = 3 \<and>
     length (env_continue s) = 3 \<and> length (env_attack s) = 3 \<and> length (env_alternate s) = 3 \<and>
     length (env_hold s) = 3 \<and> length (legato s) = 3 \<and> length (lfo_phase s) = 3 \<and>
     length (lfo_inc s) = 3 \<and> length (timbre s) = 3 \<and>
     noise_period (p_r s) \<le> 31 \<and> mixer (p_r s) \<le> 63 \<and> envelope_shape (p_r s) \<le> 15"

lemma psg_inv_reset: "psg_inv psg_reset_state"
  by (simp add: psg_inv_def psg_reset_state_def chan_upto_def)

lemma or_le_ones:
  fixes x y :: u16
  assumes "\<And>n. bit x n \<Longrightarrow> n < 12" "\<And>n. bit y n \<Longrightarrow> n < 12"
  shows "x OR y \<le> 4095"
proof -
  have "take_bit 12 (x OR y) = x OR y"
    by (rule bit_word_eqI) (auto simp: bit_take_bit_iff bit_or_iff dest: assms)
  then have "unat (x OR y) < 2 ^ 12"
    by (metis take_bit_nat_less_exp unsigned_take_bit_eq)
  then show ?thesis by (simp add: word_le_nat_alt)
qed

lemma bit_and_bound:
  fixes x m :: "'a :: len word"
  assumes "bit (x AND m) n" "unat m < 2 ^ k"
  shows "n < k"
proof (rule ccontr)
  assume "\<not> n < k"
  then have "unat m < 2 ^ n"
    using assms(2) power_increasing [of k n "2 :: nat"] by linarith
  then have "\<not> bit (unat m) n" by (simp add: bit_iff_odd)
  moreover have "bit m n" using assms(1) by (simp add: bit_and_iff)
  then have "bit (unat m) n" by (simp add: bit_unsigned_iff bit_imp_le_length)
  ultimately show False by blast
qed

lemma period_lsb_le: "((x :: u16) AND 0x0F00) OR ucast (v :: u8) \<le> 4095"
proof (rule or_le_ones)
  show "bit (x AND 0x0F00) n \<Longrightarrow> n < 12" for n by (rule bit_and_bound, assumption) simp
  show "bit (ucast v :: u16) n \<Longrightarrow> n < 12" for n
    by (auto simp: bit_ucast_iff dest: bit_imp_le_length)
qed

lemma period_msb_le: "((x :: u16) AND 0x00FF) OR push_bit 8 (ucast ((v :: u8) AND 0x0F)) \<le> 4095"
proof (rule or_le_ones)
  show "bit (x AND 0x00FF) n \<Longrightarrow> n < 12" for n
    by (rule less_le_trans [OF bit_and_bound [where k = 8]], assumption) simp_all
  show "n < 12" if "bit (push_bit 8 (ucast (v AND 0x0F)) :: u16) n" for n
  proof -
    have "bit (v AND 0x0F) (n - 8)" "8 \<le> n"
      using that by (simp_all only: bit_push_bit_iff bit_ucast_iff)
    then show ?thesis using bit_and_bound [of v "0x0F" "n - 8" 4] by simp
  qed
qed

lemma write_reg_inv:
  assumes "psg_inv s"
  shows "psg_inv (PSG_write_reg reg val s)"
proof -
  have lsb: "psg_inv (write_period_lsb tr val s)" for tr
    using assms by (simp add: psg_inv_def write_period_lsb_def period_lsb_le)
  have reset: "psg_inv (RESET_ENVELOPE tr s')" if "psg_inv s'" for tr s'
    using that by (simp add: psg_inv_def RESET_ENVELOPE_def)
  have msb: "psg_inv (write_period_msb tr val s)" for tr
  proof -
    have "psg_inv (update_tone_inc tr (s\<lparr>p_r := (p_r s)\<lparr>tone_period := (tone_period (p_r s))
            [tr := ((tone_period (p_r s) ! tr) AND 0x00FF) OR push_bit 8 (ucast (val AND 0x0F))]\<rparr>\<rparr>))"
      using assms chan_update [OF _ period_msb_le] by (simp only: psg_inv_def update_tone_inc_def) simp
    then show ?thesis unfolding write_period_msb_def Let_def by (simp add: reset)
  qed
  have shape: "psg_inv (write_shape val s)"
  proof -
    have base: "psg_inv (s\<lparr>p_r := (p_r s)\<lparr>envelope_shape := val AND 0x0F\<rparr>\<rparr>)"
      using assms by (simp add: psg_inv_def word_and_le1)
    have upd: "psg_inv (x\<lparr>env_continue := (env_continue x)[tr := a], env_attack := (env_attack x)[tr := b],
        env_alternate := (env_alternate x)[tr := c], env_hold := (env_hold x)[tr := d]\<rparr>)"
      if "psg_inv x" for x tr a b c d
      using that by (simp add: psg_inv_def)
    show ?thesis unfolding write_shape_def Let_def foldl.simps by (intro reset upd base)
  qed
  show ?thesis
    unfolding PSG_write_reg_def
    using assms lsb msb shape by (simp add: psg_inv_def word_and_le1)
qed

text \<open>Packets that the code can process: a register write, a mute, or a track below 3.\<close>

definition packet_ok :: "psg_packet \<Rightarrow> bool" where
  "packet_ok p \<longleftrightarrow> pk_op p = PSG_PKT_REG_WRITE \<or> pk_op p = PSG_PKT_CH_MUTE \<or> pk_reg p AND 3 \<noteq> 3"

lemma track_less:
  assumes "(r :: u8) AND 3 \<noteq> 3"
  shows "unat (r AND 3) < 3"
proof -
  have "r AND 3 \<le> 3" by (rule word_and_le1)
  with assms have "r AND 3 < 3" by simp
  then show ?thesis by (simp add: word_less_nat_alt)
qed

lemma process_packet_inv:
  assumes "psg_inv s" "packet_ok p"
  shows "\<exists>s'. PSG_process_packet p s = Some s' \<and> psg_inv s'"
proof -
  consider "pk_op p = 0" | "pk_op p = 2" | "pk_op p \<noteq> 0" "pk_op p \<noteq> 2" by blast
  then show ?thesis
  proof cases
    case 1
    then show ?thesis using assms(1) by (simp add: PSG_process_packet_def write_reg_inv)
  next
    case 2
    then show ?thesis using assms(1) by (simp add: PSG_process_packet_def psg_inv_def Let_def)
  next
    case 3
    then have t: "unat (pk_reg p AND 3) < 3"
      using assms(2) track_less by (auto simp: packet_ok_def)
    have len: "length (lfo_depth s) = 3" "length (lfo_inc s) = 3" "length (pan s) = 3"
      "length (timbre s) = 3" "length (legato s) = 3"
      using assms(1) by (auto simp: psg_inv_def dest: chan_length)
    show ?thesis
      using assms(1) 3 t len
      by (simp add: PSG_process_packet_def Let_def psg_inv_def word_and_le1 MAX_LFO_DEPTH_def not_less)
  qed
qed

section \<open>Samples\<close>

lemma env_step_inv:
  assumes "psg_inv s"
  shows "psg_inv (snd (env_step tr s))"
proof -
  have up: "v < 15 \<Longrightarrow> v + 1 \<le> 15" for v :: u8
    by (rule inc_le)
  have down: "v \<le> 15 \<Longrightarrow> 0 < v \<Longrightarrow> v - 1 \<le> 15" for v :: u8
    by unat_arith
  have lv: "chan_upto 15 (env_level s)" using assms by (simp add: psg_inv_def)
  have le: "env_level s ! tr \<le> 15 \<or> 3 \<le> tr"
    using chan_nth [OF lv, of tr] by linarith
  have dn: "chan_upto 15 ((env_level s)[tr := env_level s ! tr - 1])" if "0 < env_level s ! tr"
  proof (cases "tr < 3")
    case True
    then show ?thesis using lv down that chan_nth [OF lv] by simp
  next
    case False
    then show ?thesis using lv chan_length [OF lv] by (simp add: list_update_beyond)
  qed
  show ?thesis
    unfolding env_step_def Let_def
    using assms up dn by (simp add: psg_inv_def)
qed

lemma update_envelope_inv: "psg_inv s \<Longrightarrow> psg_inv (update_envelope s)"
proof -
  have "psg_inv s \<Longrightarrow> psg_inv (env_loop trs s)" for trs
  proof (induction trs arbitrary: s)
    case (Cons tr trs)
    show ?case
      using Cons.IH [OF env_step_inv [OF Cons.prems]] env_step_inv [OF Cons.prems]
      by (auto simp: split_beta)
  qed simp
  then show "psg_inv s \<Longrightarrow> psg_inv (update_envelope s)" by (simp only: update_envelope_def)
qed

lemma noise_step_inv: "psg_inv s \<Longrightarrow> psg_inv (noise_step s)"
  by (simp add: noise_step_def Let_def psg_inv_def)

lemma phase_step_inv: "psg_inv s \<Longrightarrow> psg_inv (phase_step tr s)"
  by (simp add: phase_step_def psg_inv_def)

lemma tick_1ms_inv: "psg_inv s \<Longrightarrow> psg_inv (PSG_tick_1ms s)"
  by (simp add: PSG_tick_1ms_def psg_inv_def)

lemma soft_clip_le: "soft_clip x \<le> 4095"
proof (cases "x \<le> 3600")
  case True
  then have "soft_clip x \<le> 3600" by (simp add: soft_clip_def)
  then show ?thesis by (rule order_trans) simp
next
  case False
  let ?y = "3600 + (drop_bit 3 (x - 3600) - drop_bit 7 (x - 3600))"
  have "?y AND 0xFFFF \<le> 4095" if "\<not> 4095 < ?y"
    using that word_and_le2 [of ?y "0xFFFF"] by (meson linorder_not_less order_trans)
  then show ?thesis using False by (simp add: soft_clip_def Let_def MAX_SAMPLE_WIDTH_def)
qed

lemma mix_track_defined:
  assumes "psg_inv s" "tr < 3"
  shows "\<exists>l r. mix_track b tr s = Some (l, r)"
proof -
  have "(v :: u8) \<le> 15 \<Longrightarrow> unat v < 16" for v
    by (simp add: word_le_nat_alt)
  moreover have "(v :: u8) AND 0x0F \<le> 15" for v by (rule word_and_le1)
  moreover have "pan s ! tr \<le> 15" using assms chan_nth by (auto simp: psg_inv_def)
  moreover have "length vol_tab = 16" "length pan_tab_l = 16" "length pan_tab_r = 16"
    by (simp_all add: vol_tab_def pan_tab_l_def pan_tab_r_def)
  ultimately show ?thesis by (simp add: mix_track_def Let_def)
qed

lemma mix_loop_inv:
  "psg_inv s \<Longrightarrow> \<forall>tr\<in>set trs. tr < 3 \<Longrightarrow>
   \<exists>l' r' s'. mix_loop b trs l r s = Some (l', r', s') \<and> psg_inv s'"
proof (induction trs arbitrary: l r s)
  case Nil
  then show ?case by simp
next
  case (Cons tr trs)
  obtain dl dr where "mix_track b tr (phase_step tr s) = Some (dl, dr)"
    using mix_track_defined [OF phase_step_inv [OF Cons.prems(1)], of tr b tr] Cons.prems(2) by auto
  with Cons.IH [OF phase_step_inv [OF Cons.prems(1)], of "l + dl" "r + dr"] Cons.prems(2)
  show ?case by (simp add: Let_def)
qed

lemma calc_sample_ok:
  assumes "psg_inv s"
  shows "\<exists>l r s'. PSG_calc_sample s = Some (l, r, s') \<and> psg_inv s' \<and> l \<le> 4095 \<and> r \<le> 4095"
proof -
  let ?s = "noise_step (update_envelope s)"
  have "psg_inv ?s"
    using assms by (simp add: noise_step_inv update_envelope_inv)
  moreover have "\<forall>tr\<in>set [0, 1, 2 :: nat]. tr < 3" by simp
  ultimately obtain l r s' where
    "mix_loop (noise_shift ?s AND 1 \<noteq> 0) [0, 1, 2] 0 0 ?s = Some (l, r, s')" "psg_inv s'"
    using mix_loop_inv by blast
  then show ?thesis
    unfolding PSG_calc_sample_def Let_def by (simp only: bind.simps prod.case) (auto simp: soft_clip_le)
qed

text \<open>C11: From a generator in range, any number of samples is computed without reading a table out
  of bounds, and both channels of every sample fit the 12 bits of the output drivers.\<close>

theorem psg_samples_fit:
  assumes "psg_inv s"
  shows "\<exists>xs s'. PSG_render_block n s = Some (xs, s') \<and> length xs = n \<and> psg_inv s' \<and>
    (\<forall>x\<in>set xs. \<exists>l r. x = push_bit 16 l OR r \<and> l \<le> MAX_SAMPLE_WIDTH \<and> r \<le> MAX_SAMPLE_WIDTH)"
  using assms
proof (induction n arbitrary: s)
  case 0
  then show ?case by simp
next
  case (Suc n)
  obtain l r s1 where c: "PSG_calc_sample s = Some (l, r, s1)" "psg_inv s1" "l \<le> 4095" "r \<le> 4095"
    using calc_sample_ok [OF Suc.prems] by blast
  obtain xs s2 where "PSG_render_block n s1 = Some (xs, s2)" "length xs = n" "psg_inv s2"
    "\<forall>x\<in>set xs. \<exists>l r. x = push_bit 16 l OR r \<and> l \<le> MAX_SAMPLE_WIDTH \<and> r \<le> MAX_SAMPLE_WIDTH"
    using Suc.IH [OF c(2)] by blast
  with c show ?case by (auto simp: MAX_SAMPLE_WIDTH_def)
qed

lemma psg_samples_fit_witness: "\<exists>xs s'. PSG_render_block 256 psg_reset_state = Some (xs, s') \<and> length xs = 256"
  using psg_samples_fit [OF psg_inv_reset] by blast

section \<open>The packet timer\<close>

text \<open>
  Packets carry the delay since the packet before them. \<open>due_prefix T ps\<close> are the packets
  whose delays add up to at most \<open>T\<close>, \<open>delay ps\<close> is the sum of the delays.
\<close>

definition delay :: "psg_packet list \<Rightarrow> nat" where
  "delay ps = sum_list (map (unat \<circ> pk_tick) ps)"

fun due_prefix :: "nat \<Rightarrow> psg_packet list \<Rightarrow> psg_packet list" where
  "due_prefix T [] = []"
| "due_prefix T (p # ps) = (if unat (pk_tick p) \<le> T then p # due_prefix (T - unat (pk_tick p)) ps else [])"

lemma due_prefix_append: "\<exists>rest. ps = due_prefix T ps @ rest"
  by (induction T ps rule: due_prefix.induct) auto

lemma due_prefix_drop: "ps = due_prefix T ps @ drop (length (due_prefix T ps)) ps"
  using due_prefix_append [of ps T] by (metis append_eq_conv_conj)

lemma delay_due_prefix: "delay (due_prefix T ps) \<le> T"
  by (induction T ps rule: due_prefix.induct) (auto simp: delay_def)

lemma due_prefix_step:
  "T \<le> U \<Longrightarrow> due_prefix U ps = due_prefix T ps @
     due_prefix (U - delay (due_prefix T ps)) (drop (length (due_prefix T ps)) ps)"
proof (induction T ps arbitrary: U rule: due_prefix.induct)
  case (2 T p ps)
  show ?case
  proof (cases "unat (pk_tick p) \<le> T")
    case True
    with 2(2) have "due_prefix (U - unat (pk_tick p)) ps = due_prefix (T - unat (pk_tick p)) ps @
        due_prefix (U - unat (pk_tick p) - delay (due_prefix (T - unat (pk_tick p)) ps))
          (drop (length (due_prefix (T - unat (pk_tick p)) ps)) ps)"
      by (intro 2(1)) auto
    with True 2(2) show ?thesis by (simp add: delay_def)
  qed (simp add: delay_def)
qed (simp add: delay_def)

fun process_all :: "psg_packet list \<Rightarrow> psg_t \<Rightarrow> psg_t option" where
  "process_all [] s = Some s"
| "process_all (p # ps) s = do { s \<leftarrow> PSG_process_packet p s; process_all ps s }"

lemma process_all_inv:
  "psg_inv s \<Longrightarrow> \<forall>p\<in>set ps. packet_ok p \<Longrightarrow> \<exists>s'. process_all ps s = Some s' \<and> psg_inv s'"
proof (induction ps arbitrary: s)
  case (Cons p ps)
  from process_packet_inv [OF Cons.prems(1), of p] Cons show ?case by fastforce
qed simp

lemma due_iff:
  assumes "unat (d :: u32) < 2 ^ 31" "G < 2 ^ 31"
  shows "0 < sdiff32 d (of_nat G) \<longleftrightarrow> G < unat d"
proof -
  have "sdiff32 d (of_nat G) = int (unat d) - int G"
  proof (rule sdiff32_eq)
    show "d - of_nat G = word_of_int (int (unat d) - int G)" by simp
    have "int (unat d) < 2 ^ 31" "int G < 2 ^ 31"
      using assms by (simp_all only: of_nat_less_numeral_power_cancel_iff)
    then show "- (2 ^ 31) \<le> int (unat d) - int G" "int (unat d) - int G < 2 ^ 31"
      by linarith+
  qed
  then show ?thesis by linarith
qed

lemma psg_peek_Nil: "psg_rb_wf rb \<Longrightarrow> psg_packets rb = [] \<Longrightarrow> PSG_rb_peek rb = Some None"
  using pq.deq_Nil [of rb] by (auto simp: psg_deq_def bind_eq_Some_conv)

lemma psg_peek_Cons:
  assumes "psg_rb_wf rb" "psg_packets rb = p # ps"
  shows "PSG_rb_peek rb = Some (Some p)" "psg_rb_wf (PSG_rb_pop rb)" "psg_packets (PSG_rb_pop rb) = ps"
  using pq.deq_Cons [OF assms] by (auto simp: psg_deq_def bind_eq_Some_conv)

text \<open>One call of \<open>psg_process_packets\<close> executes the packets that are due, in order.\<close>

lemma process_packets_spec:
  "psg_rb_wf (sy_rb s) \<Longrightarrow> psg_packets (sy_rb s) = ps \<Longrightarrow> psg_inv (sy_psg s) \<Longrightarrow>
   \<forall>p\<in>set ps. packet_ok p \<and> unat (pk_tick p) < 2 ^ 31 \<Longrightarrow> g_tick_ms s = of_nat G \<Longrightarrow> G < 2 ^ 31 \<Longrightarrow>
   \<exists>s'. psg_process_packets s = Some s' \<and> psg_rb_wf (sy_rb s') \<and>
     psg_packets (sy_rb s') = drop (length (due_prefix G ps)) ps \<and>
     process_all (due_prefix G ps) (sy_psg s) = Some (sy_psg s') \<and> psg_inv (sy_psg s') \<and>
     g_tick_ms s' = of_nat (G - delay (due_prefix G ps))"
proof (induction ps arbitrary: s G)
  case Nil
  then show ?case
    using psg_peek_Nil [of "sy_rb s"] by (subst psg_process_packets.simps) (simp add: delay_def)
next
  case (Cons p ps)
  note peek = psg_peek_Cons [OF Cons.prems(1,2)]
  have due: "0 < sdiff32 (pk_tick p) (g_tick_ms s) \<longleftrightarrow> G < unat (pk_tick p)"
    using due_iff [of "pk_tick p" G] Cons.prems(4-6) by simp
  show ?case
  proof (cases "G < unat (pk_tick p)")
    case True
    then show ?thesis
      using peek due Cons.prems by (subst psg_process_packets.simps) (simp add: delay_def)
  next
    case False
    obtain t where t: "PSG_process_packet p (sy_psg s) = Some t" "psg_inv t"
      using process_packet_inv [OF Cons.prems(3), of p] Cons.prems(4) by auto
    let ?s = "s\<lparr>g_tick_ms := g_tick_ms s - pk_tick p, sy_rb := PSG_rb_pop (sy_rb s), sy_psg := t\<rparr>"
    have "g_tick_ms ?s = of_nat (G - unat (pk_tick p))"
      using False Cons.prems(5) by (simp add: of_nat_diff)
    then obtain s' where "psg_process_packets ?s = Some s'" "psg_rb_wf (sy_rb s')"
      "psg_packets (sy_rb s') = drop (length (due_prefix (G - unat (pk_tick p)) ps)) ps"
      "process_all (due_prefix (G - unat (pk_tick p)) ps) t = Some (sy_psg s')" "psg_inv (sy_psg s')"
      "g_tick_ms s' = of_nat (G - unat (pk_tick p) - delay (due_prefix (G - unat (pk_tick p)) ps))"
      using Cons.IH [of ?s "G - unat (pk_tick p)"] peek t Cons.prems(4) less_imp_diff_less [OF Cons.prems(6)] by auto
    moreover have "psg_process_packets s = psg_process_packets ?s"
      using peek(1) due False t(1) by (subst psg_process_packets.simps) simp
    ultimately show ?thesis using False t(1) by (simp add: delay_def)
  qed
qed

fun tick_cbs :: "nat \<Rightarrow> psg_sys \<Rightarrow> psg_sys option" where
  "tick_cbs 0 s = Some s"
| "tick_cbs (Suc n) s = do { s \<leftarrow> tick_cbs n s; tick_cb s }"

lemma due_prefix_set: "set (due_prefix T ps) \<subseteq> set ps" "set (drop n ps) \<subseteq> set ps"
  using due_prefix_append [of ps T] set_drop_subset [of n ps] by auto (metis UnCI set_append)

lemma process_all_append: "process_all (xs @ ys) s = do { s \<leftarrow> process_all xs s; process_all ys s }"
  by (induction xs arbitrary: s) (auto simp: Option.bind_assoc intro!: bind_option_cong)

lemma delay_append: "delay (xs @ ys) = delay xs + delay ys"
  by (simp add: delay_def)

text \<open>
  The reference: a packet is due at the sum of the delays up to its own, the millisecond after
  the start when that sum is 0. Millisecond by millisecond the packets that are due are executed
  in order, and then the 1 ms tick of the low frequency oscillators.
\<close>

definition packets_at :: "psg_packet list \<Rightarrow> nat \<Rightarrow> psg_packet list" where
  "packets_at ps n = map (nth ps) (filter (\<lambda>k. max 1 (delay (take (Suc k) ps)) = n) [0..<length ps])"

fun psg_schedule :: "nat \<Rightarrow> psg_packet list \<Rightarrow> psg_t \<Rightarrow> psg_t option" where
  "psg_schedule 0 ps t = Some t"
| "psg_schedule (Suc n) ps t = do {
     t \<leftarrow> psg_schedule n ps t;
     t \<leftarrow> process_all (packets_at ps (Suc n)) t;
     Some (PSG_tick_1ms t)
   }"

lemma due_prefix_iff:
  "k < length (due_prefix T ps) \<longleftrightarrow> k < length ps \<and> delay (take (Suc k) ps) \<le> T"
proof (induction T ps arbitrary: k rule: due_prefix.induct)
  case (2 T p ps)
  have cons: "delay (take (Suc k) (p # ps)) = unat (pk_tick p) + delay (take k ps)"
    by (simp add: delay_def)
  show ?case
  proof (cases k)
    case 0
    then show ?thesis by (simp add: delay_def)
  next
    case (Suc j)
    show ?thesis
    proof (cases "unat (pk_tick p) \<le> T")
      case True
      have "k < length (due_prefix T (p # ps)) \<longleftrightarrow> j < length ps \<and> delay (take (Suc j) ps) \<le> T - unat (pk_tick p)"
        using True 2 [OF True, of j] by (simp only: due_prefix.simps if_True Suc length_Cons Suc_less_eq)
      then show ?thesis unfolding cons using True by (simp only: Suc length_Cons Suc_less_eq) linarith
    next
      case False
      then show ?thesis unfolding cons by (simp add: not_le)
    qed
  qed
qed simp

lemma due_prefix_take: "take (length (due_prefix T ps)) ps = due_prefix T ps"
  by (induction T ps rule: due_prefix.induct) auto

lemma filter_interval:
  assumes "a \<le> b" "b \<le> n" "\<And>k. k < n \<Longrightarrow> P k \<longleftrightarrow> a \<le> k \<and> k < b"
  shows "filter P [0..<n] = [a..<b]"
proof -
  have "[0..<n] = [0..<a] @ [a..<b] @ [b..<n]"
    using assms(1,2) upt_add_eq_append [of 0 a "n - a"] upt_add_eq_append [of a b "n - b"] by simp
  moreover have "filter P [0..<a] = []" "filter P [a..<b] = [a..<b]" "filter P [b..<n] = []"
    using assms by (auto simp: filter_empty_conv filter_id_conv)
  ultimately show ?thesis by simp
qed

lemma length_due_prefix: "length (due_prefix T ps) \<le> length ps"
  by (induction T ps rule: due_prefix.induct) auto

lemma packets_at_due:
  assumes "l = (if n = 0 then 0 else length (due_prefix n ps))"
  shows "packets_at ps (Suc n) = drop l (due_prefix (Suc n) ps)"
proof -
  let ?u = "length (due_prefix (Suc n) ps)"
  have iff: "max 1 (delay (take (Suc k) ps)) = Suc n \<longleftrightarrow> l \<le> k \<and> k < ?u" if "k < length ps" for k
    using that due_prefix_iff [of k n ps] due_prefix_iff [of k "Suc n" ps] assms by auto
  have lu: "l \<le> ?u"
    using assms arg_cong [OF due_prefix_step [of n "Suc n" ps], of length] by simp
  have "packets_at ps (Suc n) = map (nth ps) [l..<?u]"
    unfolding packets_at_def using filter_interval [OF lu length_due_prefix iff] by simp
  also have "\<dots> = drop l (take ?u ps)"
    using lu length_due_prefix [of "Suc n" ps] by (intro nth_equalityI) auto
  finally show ?thesis using due_prefix_take [of "Suc n" ps] by simp
qed

text \<open>The state reached after \<open>N\<close> ticks, from the generator \<open>t0\<close>.\<close>

definition on_time :: "psg_packet list \<Rightarrow> psg_t \<Rightarrow> nat \<Rightarrow> psg_sys \<Rightarrow> bool" where
  "on_time ps t0 N s \<longleftrightarrow> psg_rb_wf (sy_rb s) \<and> psg_inv (sy_psg s) \<and>
     psg_schedule N ps t0 = Some (sy_psg s) \<and>
     psg_packets (sy_rb s) = drop (length (due_prefix N ps)) ps \<and>
     g_tick_ms s = of_nat (N - delay (due_prefix N ps))"

lemma tick_cb_step:
  assumes "psg_rb_wf (sy_rb s)" "psg_inv (sy_psg s)" "psg_packets (sy_rb s) = ps"
    and "\<forall>p\<in>set ps. packet_ok p \<and> unat (pk_tick p) < 2 ^ 31" "g_tick_ms s = of_nat G" "Suc G < 2 ^ 31"
  shows "\<exists>s'. tick_cb s = Some s' \<and> psg_rb_wf (sy_rb s') \<and> psg_inv (sy_psg s') \<and>
    (do { t \<leftarrow> process_all (due_prefix (Suc G) ps) (sy_psg s); Some (PSG_tick_1ms t) }) = Some (sy_psg s') \<and>
    psg_packets (sy_rb s') = drop (length (due_prefix (Suc G) ps)) ps \<and>
    g_tick_ms s' = of_nat (Suc G - delay (due_prefix (Suc G) ps))"
proof -
  have "g_tick_ms (s\<lparr>g_tick_ms := g_tick_ms s + 1\<rparr>) = of_nat (Suc G)"
    using assms(5) by simp
  with process_packets_spec [of "s\<lparr>g_tick_ms := g_tick_ms s + 1\<rparr>" ps "Suc G"] assms
  show ?thesis by (auto simp: tick_cb_def tick_1ms_inv)
qed

lemma on_time_step:
  assumes "on_time ps t0 N s" "0 < N" "\<forall>p\<in>set ps. packet_ok p \<and> unat (pk_tick p) < 2 ^ 31" "Suc N < 2 ^ 31"
  shows "\<exists>s'. tick_cb s = Some s' \<and> on_time ps t0 (Suc N) s'"
proof -
  let ?d = "due_prefix N ps" and ?r = "drop (length (due_prefix N ps)) ps"
  have split: "due_prefix (Suc N) ps = ?d @ due_prefix (Suc N - delay ?d) ?r"
    by (rule due_prefix_step) simp
  have at: "packets_at ps (Suc N) = due_prefix (Suc N - delay ?d) ?r"
    using packets_at_due [of "length ?d" N ps] assms(2) split by simp
  have le: "delay ?d \<le> N" by (rule delay_due_prefix)
  then have suc: "Suc (N - delay ?d) = Suc N - delay ?d" by simp
  have "\<forall>p\<in>set ?r. packet_ok p \<and> unat (pk_tick p) < 2 ^ 31"
    using assms(3) due_prefix_set(2) by blast
  moreover have "Suc (N - delay ?d) < 2 ^ 31" using assms(4) by linarith
  ultimately obtain s' where "tick_cb s = Some s'" "psg_rb_wf (sy_rb s')" "psg_inv (sy_psg s')"
    "(do { t \<leftarrow> process_all (due_prefix (Suc N - delay ?d) ?r) (sy_psg s); Some (PSG_tick_1ms t) }) = Some (sy_psg s')"
    "psg_packets (sy_rb s') = drop (length (due_prefix (Suc N - delay ?d) ?r)) ?r"
    "g_tick_ms s' = of_nat (Suc N - delay ?d - delay (due_prefix (Suc N - delay ?d) ?r))"
    using tick_cb_step [of s ?r "N - delay ?d"] assms(1) unfolding on_time_def suc by blast
  then show ?thesis
    using assms(1) by (simp add: on_time_def split at delay_append add.commute)
qed

text \<open>C10: Packets are executed on time: \<open>N\<close> milliseconds after the timer starts with a clock of
  0, the generator is in the state of the reference \<open>psg_schedule\<close>, in which every packet is
  executed by \<open>PSG_process_packet\<close> in the millisecond its delays add up to (the first one for a
  sum of 0), in order, each millisecond followed by the tick of the oscillators; the packets
  whose delays add up to at most \<open>N\<close> have left the queue, the others are still queued in order,
  and the clock holds the time since the last one. All delays and the running time are below
  \<open>2 ^ 31\<close> ms, and the packets are ones the code can execute (a track below 3).\<close>

theorem psg_packets_on_time:
  assumes "psg_rb_wf (sy_rb s)" "psg_packets (sy_rb s) = ps" "psg_inv (sy_psg s)"
    and "\<forall>p\<in>set ps. packet_ok p \<and> unat (pk_tick p) < 2 ^ 31" and "g_tick_ms s = 0" "0 < N" "N < 2 ^ 31"
  shows "\<exists>s'. tick_cbs N s = Some s' \<and> psg_schedule N ps (sy_psg s) = Some (sy_psg s') \<and>
    psg_rb_wf (sy_rb s') \<and> psg_inv (sy_psg s') \<and>
    psg_packets (sy_rb s') = drop (length (due_prefix N ps)) ps \<and>
    g_tick_ms s' = of_nat (N - delay (due_prefix N ps))"
proof -
  have "\<exists>s'. tick_cbs N s = Some s' \<and> on_time ps (sy_psg s) N s'"
    using assms(6,7)
  proof (induction N rule: nat_induct_non_zero)
    case 1
    show ?case
      using tick_cb_step [of s ps 0] packets_at_due [of 0 0 ps] assms(1-5) by (simp add: on_time_def)
  next
    case (Suc N)
    then obtain s1 where "tick_cbs N s = Some s1" "on_time ps (sy_psg s) N s1" by auto
    with on_time_step [of ps _ N s1] assms(4) Suc show ?case by auto
  qed
  then show ?thesis by (auto simp: on_time_def)
qed

definition demo_packet :: psg_packet where
  "demo_packet = \<lparr>pk_tick = 3, pk_op = 0, pk_reg = 7, pk_val = 0x3E, pk_arg = 0\<rparr>"

definition demo_sys :: psg_sys where
  "demo_sys = \<lparr>sy_psg = psg_reset_state,
     sy_rb = \<lparr>rb_head = 2, rb_tail = 0, rb_buf = Some (replicate 256 demo_packet)\<rparr>,
     g_tick_ms = 0, psg_drv = Some Psg_drv_pwm, pcm_buf = replicate 256 0, wr_idx = 256, rd_idx = 0,
     core1_alive = True, core1_fifo = [], dac_out = []\<rparr>"

lemma psg_packets_on_time_witness:
  "\<exists>s'. tick_cbs 5 demo_sys = Some s' \<and> psg_packets (sy_rb s') = [demo_packet] \<and>
     psg_schedule 5 [demo_packet, demo_packet] psg_reset_state = Some (sy_psg s')"
proof -
  have wf: "psg_rb_wf (sy_rb demo_sys)"
    by (simp add: demo_sys_def psg_rb_wf_def PSG_PACKET_QUEUE_LEN_def)
  have ps: "psg_packets (sy_rb demo_sys) = [demo_packet, demo_packet]"
    by (simp add: demo_sys_def psg_packets_def ring_list_def upt_rec)
  have inv: "psg_inv (sy_psg demo_sys)" by (simp add: demo_sys_def psg_inv_reset)
  have ok: "\<forall>p\<in>set [demo_packet, demo_packet]. packet_ok p \<and> unat (pk_tick p) < 2 ^ 31"
    by (simp add: demo_packet_def packet_ok_def)
  have "g_tick_ms demo_sys = 0" by (simp add: demo_sys_def)
  moreover have "sy_psg demo_sys = psg_reset_state" by (simp add: demo_sys_def)
  ultimately show ?thesis
    using psg_packets_on_time [OF wf ps inv ok, of 5] by (auto simp: demo_packet_def)
qed
section \<open>Registers and driver methods\<close>

lemma bit_mask12: "bit (0xF00 :: u16) n \<longleftrightarrow> n \<in> {8, 9, 10, 11}" "bit (0xFF :: u16) n \<longleftrightarrow> n < 8"
proof -
  have eqs: "(0xF00 :: u16) = push_bit 8 (mask 4)" "(0xFF :: u16) = mask 8"
    by (simp_all add: mask_eq_exp_minus_1)
  show "bit (0xF00 :: u16) n \<longleftrightarrow> n \<in> {8, 9, 10, 11}" "bit (0xFF :: u16) n \<longleftrightarrow> n < 8"
    unfolding eqs bit_push_bit_iff bit_mask_iff by auto
qed

lemma period_bytes:
  "((((x :: u16) AND 0xF00) OR ucast (l :: u8)) AND 0xFF) OR push_bit 8 (ucast ((m :: u8) AND 0xF)) =
   push_bit 8 (ucast (m AND 0xF)) OR ucast l"
  by (rule bit_word_eqI)
    (auto simp: bit_or_iff bit_and_iff bit_mask12 bit_ucast_iff bit_push_bit_iff
      simp del: bit_numeral_word_iff dest: bit_imp_le_length)

lemma write_period_lsb_sel:
  "volume (p_r (write_period_lsb tr v s)) = volume (p_r s)" "legato (write_period_lsb tr v s) = legato s"
  "tone_inc (write_period_lsb tr v s) = tone_inc s"
  "tone_period (p_r (write_period_lsb tr v s)) =
     (tone_period (p_r s))[tr := ((tone_period (p_r s) ! tr) AND 0x0F00) OR ucast v]"
  by (simp_all add: write_period_lsb_def)

lemma write_period_msb_sel:
  assumes "tr < length (tone_period (p_r s))"
  shows "tone_period (p_r (write_period_msb tr v s)) =
     (tone_period (p_r s))[tr := ((tone_period (p_r s) ! tr) AND 0x00FF) OR push_bit 8 (ucast (v AND 0x0F))]"
   "tone_inc (write_period_msb tr v s) = (tone_inc s)[tr := calc_inc (tone_period (p_r (write_period_msb tr v s)) ! tr)]"
  using assms by (simp_all add: write_period_msb_def Let_def update_tone_inc_def RESET_ENVELOPE_def)

text \<open>Writing the low and then the high period register of a channel sets the 12-bit period
  from the two bytes, derives the tone increment from it, and leaves the other channels alone.\<close>

theorem psg_period_write:
  fixes msb lsb :: u8
  assumes "psg_inv s" "tr < 3"
  defines "s' \<equiv> PSG_write_reg (of_nat (2 * tr + 1)) msb (PSG_write_reg (of_nat (2 * tr)) lsb s)"
  shows "tone_period (p_r s') = (tone_period (p_r s))[tr := push_bit 8 (ucast (msb AND 0x0F)) OR ucast lsb] \<and>
    tone_inc s' = (tone_inc s)[tr := calc_inc (push_bit 8 (ucast (msb AND 0x0F)) OR ucast lsb)]"
proof -
  have "tr = 0 \<or> tr = 1 \<or> tr = 2" using assms(2) by linarith
  then have s': "s' = write_period_msb tr msb (write_period_lsb tr lsb s)"
    unfolding s'_def PSG_write_reg_def by (elim disjE) simp_all
  have "length (tone_period (p_r s)) = 3" using assms(1) by (simp add: psg_inv_def chan_upto_def)
  with assms(2) show ?thesis
    unfolding s' by (simp_all add: write_period_msb_sel write_period_lsb_sel period_bytes)
qed

lemma psg_period_write_witness:
  "tone_inc (PSG_write_reg 3 0x01 (PSG_write_reg 2 0x1C psg_reset_state)) ! 1 = calc_inc 0x11C"
  using psg_period_write [OF psg_inv_reset, of 1 "0x01" "0x1C"] by (simp add: psg_reset_state_def)

text \<open>The packet queue is a queue: what the driver methods push comes out in order; it holds
  255 packets and refuses further ones without losing any.\<close>

theorem psg_queue_fifo:
  assumes "psg_rb_wf rb" "psg_packets rb = []"
  shows "\<exists>rb1 rb2. enq_all PSG_rb_push ps rb = Some rb1 \<and>
    deq_n psg_deq n rb1 = Some (take n (take 255 ps), rb2)"
proof -
  obtain rb1 where "enq_all PSG_rb_push ps rb = Some rb1" "psg_rb_wf rb1" "psg_packets rb1 = take 255 ps"
    using pq.enq_all_take [OF assms(1), of ps] assms(2) by (auto simp: PSG_PACKET_QUEUE_LEN_def)
  then show ?thesis using pq.deq_n_take [of rb1 n] by auto
qed

lemma empty_rb: "psg_rb_wf \<lparr>rb_head = 9, rb_tail = 9, rb_buf = Some (replicate 256 p)\<rparr>"
   "psg_packets \<lparr>rb_head = 9, rb_tail = 9, rb_buf = Some (replicate 256 p)\<rparr> = []"
  by (simp_all add: psg_rb_wf_def psg_packets_def PSG_PACKET_QUEUE_LEN_def)

lemma psg_queue_fifo_witness:
  "\<exists>rb1 rb2. enq_all PSG_rb_push [demo_packet, demo_packet\<lparr>pk_tick := 5\<rparr>]
      \<lparr>rb_head = 9, rb_tail = 9, rb_buf = Some (replicate 256 demo_packet)\<rparr> = Some rb1 \<and>
    deq_n psg_deq 4 rb1 = Some ([demo_packet, demo_packet\<lparr>pk_tick := 5\<rparr>], rb2)"
  using psg_queue_fifo [OF empty_rb, of "[demo_packet, demo_packet\<lparr>pk_tick := 5\<rparr>]" demo_packet 4] by simp

lemma track_ok: "0 \<le> tr \<Longrightarrow> tr \<le> 2 \<Longrightarrow> (word_of_int tr :: u8) AND 3 \<noteq> 3"
proof -
  assume "0 \<le> tr" "tr \<le> 2"
  then have "tr = 0 \<or> tr = 1 \<or> tr = 2" by linarith
  then show ?thesis by auto
qed

lemma psg_send_ok:
  assumes "psg_rb_wf (sy_rb s)" "length (psg_packets (sy_rb s)) < 255"
  shows "\<exists>rb. psg_send p s = Some (VTrue, s\<lparr>sy_rb := rb\<rparr>) \<and> psg_rb_wf rb \<and>
    psg_packets rb = psg_packets (sy_rb s) @ [p]"
  using pq.enq_room [OF assms(1), of p] assms(2) by (auto simp: psg_send_def PSG_PACKET_QUEUE_LEN_def)

definition queues_packet :: "psg_packet \<Rightarrow> psg_method \<Rightarrow> psg_sys \<Rightarrow> bool" where
  "queues_packet p meth s \<longleftrightarrow> packet_ok p \<and> (\<exists>s'. meth s = Some (Inr VTrue, s') \<and> psg_rb_wf (sy_rb s') \<and>
     psg_packets (sy_rb s') = psg_packets (sy_rb s) @ [p])"

definition raises_argument_error :: "psg_method \<Rightarrow> psg_sys \<Rightarrow> bool" where
  "raises_argument_error meth s \<longleftrightarrow> (\<exists>msg. meth s = Some (Inl (ArgumentError msg), s))"

lemma queues_sent:
  assumes "psg_rb_wf (sy_rb s)" "length (psg_packets (sy_rb s)) < 255" "packet_ok p"
    and "meth s = map_option (map_prod Inr id) (psg_send p s)"
  shows "queues_packet p meth s"
  using psg_send_ok [OF assms(1,2), of p] assms(3,4) by (auto simp: queues_packet_def)

text \<open>The methods that check their track either raise an ArgumentError and change nothing, or
  append one packet that the render core can execute without leaving the channel arrays.\<close>

theorem psg_methods_queue_valid_packets:
  assumes "psg_rb_wf (sy_rb s)" "length (psg_packets (sy_rb s)) < 255"
  shows "(if 0 \<le> tr \<and> tr \<le> 2 \<and> 0 \<le> v \<and> v \<le> 15
      then queues_packet (mk_packet d PSG_PKT_PAN_SET tr v 0) (mrb_driver_set_pan tr v d) s
      else raises_argument_error (mrb_driver_set_pan tr v d) s) \<and>
    (if 0 \<le> tr \<and> tr \<le> 2
      then queues_packet (mk_packet d PSG_PKT_TIMBRE_SET tr v 0) (mrb_driver_set_timbre tr v d) s \<and>
        queues_packet (mk_packet d PSG_PKT_LEGATO_SET tr v 0) (mrb_driver_set_legato tr v d) s
      else raises_argument_error (mrb_driver_set_timbre tr v d) s \<and>
        raises_argument_error (mrb_driver_set_legato tr v d) s)"
proof (intro conjI)
  have ok: "packet_ok (mk_packet d opc tr v 0)" if "0 \<le> tr" "tr \<le> 2" for opc
    using track_ok [OF that] by (simp add: packet_ok_def mk_packet_def)
  show "if 0 \<le> tr \<and> tr \<le> 2 \<and> 0 \<le> v \<and> v \<le> 15
      then queues_packet (mk_packet d PSG_PKT_PAN_SET tr v 0) (mrb_driver_set_pan tr v d) s
      else raises_argument_error (mrb_driver_set_pan tr v d) s"
    using queues_sent [OF assms ok, of "mrb_driver_set_pan tr v d" PSG_PKT_PAN_SET]
    by (auto simp: mrb_driver_set_pan_def raises_argument_error_def)
  show "if 0 \<le> tr \<and> tr \<le> 2
      then queues_packet (mk_packet d PSG_PKT_TIMBRE_SET tr v 0) (mrb_driver_set_timbre tr v d) s \<and>
        queues_packet (mk_packet d PSG_PKT_LEGATO_SET tr v 0) (mrb_driver_set_legato tr v d) s
      else raises_argument_error (mrb_driver_set_timbre tr v d) s \<and>
        raises_argument_error (mrb_driver_set_legato tr v d) s"
    using queues_sent [OF assms ok, of "mrb_driver_set_timbre tr v d" PSG_PKT_TIMBRE_SET]
      queues_sent [OF assms ok, of "mrb_driver_set_legato tr v d" PSG_PKT_LEGATO_SET]
    by (auto simp: mrb_driver_set_timbre_def mrb_driver_set_legato_def raises_argument_error_def)
qed

lemma psg_methods_queue_valid_packets_witness:
  "queues_packet (mk_packet 10 PSG_PKT_PAN_SET 2 7 0) (mrb_driver_set_pan 2 7 10) demo_sys \<and>
   raises_argument_error (mrb_driver_set_pan 3 7 10) demo_sys \<and>
   raises_argument_error (mrb_driver_set_legato 3 1 10) demo_sys"
proof -
  have "psg_packets (sy_rb demo_sys) = [demo_packet, demo_packet]" and wf: "psg_rb_wf (sy_rb demo_sys)"
    by (simp_all add: demo_sys_def psg_packets_def ring_list_def upt_rec psg_rb_wf_def PSG_PACKET_QUEUE_LEN_def)
  then have len: "length (psg_packets (sy_rb demo_sys)) < 255" by simp
  show ?thesis
    using psg_methods_queue_valid_packets [OF wf len, of 2 7 10]
      psg_methods_queue_valid_packets [OF wf len, of 3 7 10]
      psg_methods_queue_valid_packets [OF wf len, of 3 1 10] by simp
qed

end
