(* ===== verification/Uart.thy ===== *)
theory Uart
  imports RingBuffer
begin

text \<open>
  Serial ports: the receive buffer and the methods of the class \<^verbatim>\<open>UART\<close> for both virtual
  machines (\<^verbatim>\<open>picoruby-uart/src/uart.c\<close>, \<^verbatim>\<open>src/mruby/uart.c\<close>, \<^verbatim>\<open>src/mrubyc/uart.c\<close>) and the
  port with its receive interrupts (\<^verbatim>\<open>ports/rp2040/uart.c\<close>). \<open>None\<close> is undefined behaviour.
\<close>

section \<open>The receive buffer\<close>

record RingBuffer =
  rx_head :: int
  rx_tail :: int
  rx_size :: u32
  rx_mask :: int
  rx_data :: bytes

definition PICORUBY_UART_RX_BUFFER_SIZE :: int where "PICORUBY_UART_RX_BUFFER_SIZE = 1024"

text \<open>The loop of \<open>isPowerOfTwo\<close>; its end is proved below.\<close>

partial_function (option) power_of_two_loop :: "int \<Rightarrow> bool option" where
  "power_of_two_loop n =
     (if n = 1 then Some True
      else if c_mod n 2 \<noteq> 0 then Some False
      else power_of_two_loop (c_div n 2))"

definition isPowerOfTwo :: "int \<Rightarrow> bool option" where
  "isPowerOfTwo n = (if n = 0 then Some False else power_of_two_loop n)"

definition initializeBuffer :: "u32 \<Rightarrow> RingBuffer \<Rightarrow> (bool \<times> RingBuffer) option" where
  "initializeBuffer sz rb = do {
     ok \<leftarrow> isPowerOfTwo (sint sz);
     Some (if \<not> ok then (False, rb)
           else (True, rb\<lparr>rx_head := 0, rx_tail := 0, rx_size := sz, rx_mask := sint (sz - 1)\<rparr>))
   }"

definition bufferDataSize :: "RingBuffer \<Rightarrow> u32" where
  "bufferDataSize rb = word_of_int ((rx_tail rb - rx_head rb) AND rx_mask rb)"

definition clearBuffer :: "RingBuffer \<Rightarrow> RingBuffer" where
  "clearBuffer rb = rb\<lparr>rx_head := 0, rx_tail := 0\<rparr>"

definition bufferFreeSize :: "RingBuffer \<Rightarrow> u32" where
  "bufferFreeSize rb = rx_size rb - bufferDataSize rb"

text \<open>The loop of \<open>popBuffer\<close>; \<open>n\<close> bytes are left.\<close>

fun pop_loop :: "nat \<Rightarrow> nat \<Rightarrow> bytes \<Rightarrow> RingBuffer \<Rightarrow> (bytes \<times> RingBuffer) option" where
  "pop_loop 0 i popData rb = Some (popData, rb)"
| "pop_loop (Suc n) i popData rb = do {
     b \<leftarrow> arr_get (rx_data rb) (nat (rx_head rb));
     popData \<leftarrow> arr_set popData i b;
     pop_loop n (Suc i) popData (rb\<lparr>rx_head := (rx_head rb + 1) AND rx_mask rb\<rparr>)
   }"

definition popBuffer :: "RingBuffer \<Rightarrow> bytes \<Rightarrow> u32 \<Rightarrow> (bool \<times> bytes \<times> RingBuffer) option" where
  "popBuffer rb popData len =
     (if rx_size rb < len then Some (False, popData, rb)
      else if rx_tail rb = rx_head rb then Some (False, popData, rb)
      else let remaining = bufferDataSize rb;
               len = (if remaining < len then remaining else len)
           in map_option (Pair True) (pop_loop (unat len) 0 popData rb))"

fun search_loop :: "nat \<Rightarrow> nat \<Rightarrow> u8 \<Rightarrow> RingBuffer \<Rightarrow> int option" where
  "search_loop 0 i c rb = Some (- 1)"
| "search_loop (Suc n) i c rb = do {
     b \<leftarrow> arr_get (rx_data rb) (nat ((rx_head rb + int i) AND rx_mask rb));
     (if b = c then Some (int i) else search_loop n (Suc i) c rb)
   }"

definition searchCharBuffer :: "u8 \<Rightarrow> RingBuffer \<Rightarrow> int option" where
  "searchCharBuffer c rb = search_loop (unat (bufferDataSize rb)) 0 c rb"

definition UART_pushBuffer :: "u8 \<Rightarrow> RingBuffer \<Rightarrow> (bool \<times> RingBuffer) option" where
  "UART_pushBuffer ch rb =
     (if bufferFreeSize rb < 1 then Some (False, rb)
      else do {
        d \<leftarrow> arr_set (rx_data rb) (nat (rx_tail rb)) ch;
        Some (True, rb\<lparr>rx_data := d, rx_tail := (rx_tail rb + 1) AND rx_mask rb\<rparr>)
      })"

section \<open>The port\<close>

text \<open>
  Calls of the SDK with an effect outside the program are kept in a log; a unit is \<open>None\<close> when
  the code passes a null pointer. \<open>hw_fifo\<close> are the received bytes that the hardware holds:
  \<^verbatim>\<open>uart_is_readable\<close> tells whether there is one and \<^verbatim>\<open>uart_getc\<close> takes the oldest.
\<close>

datatype sdk_call =
    Sdk_uart_init "nat option" u32
  | Sdk_gpio_set_function u32
  | Sdk_irq_set_exclusive_handler nat
  | Sdk_irq_set_enabled nat
  | Sdk_uart_set_irq_enables "nat option"
  | Sdk_uart_set_baudrate "nat option" u32
  | Sdk_uart_set_hw_flow "nat option" bool bool
  | Sdk_uart_set_format "nat option" u32 u32 u8
  | Sdk_uart_write_blocking "nat option" bytes
  | Sdk_uart_set_break "nat option" bool
  | Sdk_sleep_ms u32
  | Sdk_uart_tx_wait_blocking "nat option"

text \<open>Receive buffers are shared by the Ruby object and the interrupt handler: \<open>rx_heap\<close> maps
  addresses to them.\<close>

record uart_sys =
  rx_heap :: "nat \<Rightarrow> RingBuffer option"
  rx_buffers :: "nat option list"
  hw_fifo :: "nat \<Rightarrow> bytes"
  sdk_log :: "sdk_call list"

definition sdk :: "sdk_call list \<Rightarrow> uart_sys \<Rightarrow> uart_sys" where
  "sdk cs s = s\<lparr>sdk_log := sdk_log s @ cs\<rparr>"

definition DEFAULT_BAUDRATE :: u32 where "DEFAULT_BAUDRATE = 115200"

definition UNIT_SELECT :: "int \<Rightarrow> nat option" where
  "UNIT_SELECT unit_num = (if unit_num = 0 then Some 0 else if unit_num = 1 then Some 1 else None)"

definition UART_unit_name_to_unit_num :: "string \<Rightarrow> int" where
  "UART_unit_name_to_unit_num name =
     (if name = ''RP2040_UART0'' then 0 else if name = ''RP2040_UART1'' then 1 else - 1)"

text \<open>\<open>on_uart0_rx\<close> and \<open>on_uart1_rx\<close> are \<open>on_uart_rx\<close> for unit 0 and 1; \<open>rx_drain\<close> is the loop.\<close>

fun rx_drain :: "bytes \<Rightarrow> RingBuffer \<Rightarrow> RingBuffer option" where
  "rx_drain [] rb = Some rb"
| "rx_drain (ch # fifo) rb = do { (ok, rb) \<leftarrow> UART_pushBuffer ch rb; rx_drain fifo rb }"

definition on_uart_rx :: "nat \<Rightarrow> uart_sys \<Rightarrow> uart_sys option" where
  "on_uart_rx u s =
     (if hw_fifo s u = [] then Some s
      else do {
        slot \<leftarrow> arr_get (rx_buffers s) u;
        p \<leftarrow> slot;
        rb \<leftarrow> rx_heap s p;
        rb \<leftarrow> rx_drain (hw_fifo s u) rb;
        Some (s\<lparr>rx_heap := (rx_heap s)(p := Some rb), hw_fifo := (hw_fifo s)(u := [])\<rparr>)
      })"

definition UART_init :: "int \<Rightarrow> u32 \<Rightarrow> u32 \<Rightarrow> nat \<Rightarrow> uart_sys \<Rightarrow> uart_sys" where
  "UART_init unit_num txd_pin rxd_pin p s =
     (let un = UNIT_SELECT unit_num;
          s = sdk [Sdk_uart_init un DEFAULT_BAUDRATE, Sdk_gpio_set_function txd_pin, Sdk_gpio_set_function rxd_pin] s;
          s = (if unit_num = 0 then sdk [Sdk_irq_set_exclusive_handler 0] (s\<lparr>rx_buffers := (rx_buffers s)[0 := Some p]\<rparr>)
               else if unit_num = 1 then sdk [Sdk_irq_set_exclusive_handler 1] (s\<lparr>rx_buffers := (rx_buffers s)[1 := Some p]\<rparr>)
               else s);
          irq = (if unit_num = 1 then 1 else 0)
      in sdk [Sdk_irq_set_enabled irq, Sdk_uart_set_irq_enables un] s)"

text \<open>The SDK reports the baud rate that it could set: \<open>actual\<close>.\<close>

definition UART_set_baudrate :: "(u32 \<Rightarrow> u32) \<Rightarrow> int \<Rightarrow> u32 \<Rightarrow> uart_sys \<Rightarrow> u32 \<times> uart_sys" where
  "UART_set_baudrate actual unit_num baudrate s =
     (actual baudrate, sdk [Sdk_uart_set_baudrate (UNIT_SELECT unit_num) baudrate] s)"

definition UART_set_flow_control :: "int \<Rightarrow> bool \<Rightarrow> bool \<Rightarrow> uart_sys \<Rightarrow> uart_sys" where
  "UART_set_flow_control unit_num cts rts s = sdk [Sdk_uart_set_hw_flow (UNIT_SELECT unit_num) cts rts] s"

definition UART_set_format :: "int \<Rightarrow> u32 \<Rightarrow> u32 \<Rightarrow> u8 \<Rightarrow> uart_sys \<Rightarrow> uart_sys" where
  "UART_set_format unit_num data_bits stop_bits parity s =
     sdk [Sdk_uart_set_format (UNIT_SELECT unit_num) data_bits stop_bits parity] s"

definition UART_set_function :: "u32 \<Rightarrow> uart_sys \<Rightarrow> uart_sys" where
  "UART_set_function pin s = sdk [Sdk_gpio_set_function pin] s"

definition UART_write_blocking :: "int \<Rightarrow> bytes \<Rightarrow> uart_sys \<Rightarrow> uart_sys" where
  "UART_write_blocking unit_num src s = sdk [Sdk_uart_write_blocking (UNIT_SELECT unit_num) src] s"

definition UART_break :: "int \<Rightarrow> u32 \<Rightarrow> uart_sys \<Rightarrow> uart_sys" where
  "UART_break unit_num interval s =
     (let un = UNIT_SELECT unit_num
      in sdk [Sdk_uart_set_break un True, Sdk_sleep_ms interval, Sdk_uart_set_break un False] s)"

definition UART_flush :: "int \<Rightarrow> uart_sys \<Rightarrow> uart_sys" where
  "UART_flush unit_num s = sdk [Sdk_uart_tx_wait_blocking (UNIT_SELECT unit_num)] s"

definition UART_clear_rx_buffer :: "int \<Rightarrow> uart_sys \<Rightarrow> uart_sys option" where
  "UART_clear_rx_buffer unit_num s = do {
     u \<leftarrow> UNIT_SELECT unit_num;
     Some (s\<lparr>hw_fifo := (hw_fifo s)(u := [])\<rparr>)
   }"

definition UART_is_readable :: "int \<Rightarrow> uart_sys \<Rightarrow> bool option" where
  "UART_is_readable unit_num s = do { u \<leftarrow> UNIT_SELECT unit_num; Some (hw_fifo s u \<noteq> []) }"

text \<open>The loop of \<open>UART_read_nonblocking\<close> stores a byte before it compares with \<open>maxlen\<close>.\<close>

fun read_nonblocking_loop :: "bytes \<Rightarrow> nat \<Rightarrow> nat \<Rightarrow> bytes \<Rightarrow> (bytes \<times> nat \<times> bytes) option" where
  "read_nonblocking_loop [] maxlen n dst = Some ([], n, dst)"
| "read_nonblocking_loop (c # fifo) maxlen n dst = do {
     dst \<leftarrow> arr_set dst n c;
     (if maxlen \<le> Suc n then Some (fifo, Suc n, dst)
      else read_nonblocking_loop fifo maxlen (Suc n) dst)
   }"

definition UART_read_nonblocking :: "int \<Rightarrow> bytes \<Rightarrow> nat \<Rightarrow> uart_sys \<Rightarrow> (nat \<times> bytes \<times> uart_sys) option" where
  "UART_read_nonblocking unit_num dst maxlen s = do {
     u \<leftarrow> UNIT_SELECT unit_num;
     (fifo, n, dst) \<leftarrow> read_nonblocking_loop (hw_fifo s u) maxlen 0 dst;
     Some (n, dst, s\<lparr>hw_fifo := (hw_fifo s)(u := fifo)\<rparr>)
   }"

definition UART_clear_tx_buffer :: "int \<Rightarrow> uart_sys \<Rightarrow> uart_sys" where
  "UART_clear_tx_buffer unit_num s = s"
section \<open>The methods for mruby\<close>

text \<open>
  A Ruby object of the class: its buffer (\<^verbatim>\<open>DATA_PTR\<close>, or the instance variable
  \<^verbatim>\<open>@rx_buffer\<close> in mruby/c) and its \<^verbatim>\<open>@unit_num\<close>. \<open>stack_array mem n\<close> is a local array
  of \<open>n\<close> bytes that holds what \<open>mem\<close> held; an array of \<open>2 ^ 31\<close> bytes or more does not fit
  the address space. An optional argument that is not given leaves its C variable unset;
  the value that the variable has by chance is then the argument of the definition.
\<close>

record uart_obj =
  obj_rx :: "nat option"
  obj_unit :: int

definition stack_array :: "bytes \<Rightarrow> int \<Rightarrow> bytes option" where
  "stack_array mem n = (if 0 \<le> n \<and> n < 2 ^ 31 then Some (take (nat n) (mem @ replicate (nat n) 0)) else None)"

definition get_rx :: "uart_obj \<Rightarrow> uart_sys \<Rightarrow> (nat \<times> RingBuffer) option" where
  "get_rx o1 s = do { p \<leftarrow> obj_rx o1; rb \<leftarrow> rx_heap s p; Some (p, rb) }"

definition put_rx :: "nat \<Rightarrow> RingBuffer \<Rightarrow> uart_sys \<Rightarrow> uart_sys" where
  "put_rx p rb s = s\<lparr>rx_heap := (rx_heap s)(p := Some rb)\<rparr>"

type_synonym 'a uart_result = "('a rb_result \<times> uart_sys) option"

text \<open>Take \<open>len\<close> bytes out of the buffer into a local array and make a string of it.\<close>

definition pop_string :: "bytes \<Rightarrow> u32 \<Rightarrow> nat \<times> RingBuffer \<Rightarrow> uart_sys \<Rightarrow> mrb_value uart_result" where
  "pop_string mem len = (\<lambda>(p, rb) s. do {
     buf \<leftarrow> stack_array mem (uint len);
     (ok, buf, rb) \<leftarrow> popBuffer rb buf len;
     Some (Inr (VStr buf), put_rx p rb s)
   })"

text \<open>The block returned by the allocator is at \<open>p\<close> and holds \<open>mem\<close>.\<close>

definition open_rx :: "nat \<Rightarrow> bytes \<Rightarrow> int \<Rightarrow> uart_sys \<Rightarrow> bool uart_result" where
  "open_rx p mem rx_buffer_size s = do {
     let n = (word_of_int rx_buffer_size :: u32);
     let rb = \<lparr>rx_head = 0, rx_tail = 0, rx_size = 0, rx_mask = 0, rx_data = take (unat n) (mem @ replicate (unat n) 0)\<rparr>;
     (ok, rb) \<leftarrow> initializeBuffer n rb;
     Some (if ok then (Inr True, put_rx p rb s)
           else (Inl (IOError ''UART: rx_buffer_size is not power of two''), s))
   }"

definition mrb_open_rx_buffer :: "nat \<Rightarrow> bytes \<Rightarrow> mrb_value \<Rightarrow> uart_obj \<Rightarrow> uart_sys \<Rightarrow> (uart_obj \<times> mrb_value) uart_result" where
  "mrb_open_rx_buffer p mem buffer_size o1 s = do {
     n \<leftarrow> (case buffer_size of VNil \<Rightarrow> Some PICORUBY_UART_RX_BUFFER_SIZE | VInt n \<Rightarrow> Some n | _ \<Rightarrow> None);
     (r, s) \<leftarrow> open_rx p mem n s;
     Some (case r of Inl e \<Rightarrow> Inl e | Inr _ \<Rightarrow> Inr (o1\<lparr>obj_rx := Some p\<rparr>, VTrue), s)
   }"

definition mrb_open_connection :: "string \<Rightarrow> int \<Rightarrow> int \<Rightarrow> uart_obj \<Rightarrow> uart_sys \<Rightarrow> mrb_value uart_result" where
  "mrb_open_connection unit_name txd_pin rxd_pin o1 s = do {
     let unit_num = UART_unit_name_to_unit_num unit_name;
     p \<leftarrow> obj_rx o1;
     Some (Inr (VInt unit_num), UART_init unit_num (word_of_int txd_pin) (word_of_int rxd_pin) p s)
   }"

definition mrb__set_baudrate :: "(u32 \<Rightarrow> u32) \<Rightarrow> int \<Rightarrow> uart_obj \<Rightarrow> uart_sys \<Rightarrow> mrb_value uart_result" where
  "mrb__set_baudrate actual baudrate o1 s =
     (let (r, s) = UART_set_baudrate actual (obj_unit o1) (word_of_int baudrate) s in Some (Inr (VInt (uint r)), s))"

definition mrb__set_flow_control :: "bool \<Rightarrow> bool \<Rightarrow> uart_obj \<Rightarrow> uart_sys \<Rightarrow> unit uart_result" where
  "mrb__set_flow_control cts rts o1 s = Some (Inr (), UART_set_flow_control (obj_unit o1) cts rts s)"

definition mrb__set_format :: "int \<Rightarrow> int \<Rightarrow> int \<Rightarrow> uart_obj \<Rightarrow> uart_sys \<Rightarrow> unit uart_result" where
  "mrb__set_format data_bits stop_bit parity o1 s =
     Some (Inr (), UART_set_format (obj_unit o1) (word_of_int data_bits) (word_of_int stop_bit) (word_of_int parity) s)"

definition mrb__set_function :: "int \<Rightarrow> uart_obj \<Rightarrow> uart_sys \<Rightarrow> unit uart_result" where
  "mrb__set_function pin o1 s = Some (Inr (), UART_set_function (word_of_int pin) s)"

text \<open>\<^verbatim>\<open>mrb_int\<close> has 64 bits, so that \<^verbatim>\<open>size_t\<close> is extended before it is compared.\<close>

definition mrb_uart_read :: "bytes \<Rightarrow> mrb_value \<Rightarrow> uart_obj \<Rightarrow> uart_sys \<Rightarrow> mrb_value uart_result" where
  "mrb_uart_read mem len_val o1 s = do {
     (p, rx) \<leftarrow> get_rx o1 s;
     let available_len = bufferDataSize rx;
     (if available_len = 0 then Some (Inr VNil, s)
      else case len_val of
        VInt len \<Rightarrow> (if uint available_len < len then Some (Inr VNil, s)
                     else pop_string mem (word_of_int len) (p, rx) s)
      | _ \<Rightarrow> pop_string mem available_len (p, rx) s)
   }"

definition mrb_readpartial :: "bytes \<Rightarrow> int \<Rightarrow> uart_obj \<Rightarrow> uart_sys \<Rightarrow> mrb_value uart_result" where
  "mrb_readpartial mem maxlen o1 s = do {
     (p, rx) \<leftarrow> get_rx o1 s;
     let available_len = bufferDataSize rx;
     (if available_len = 0 then Some (Inr VNil, s)
      else let maxlen = (if uint available_len < maxlen then uint available_len else maxlen)
           in pop_string mem (word_of_int maxlen) (p, rx) s)
   }"

definition mrb_bytes_available :: "uart_obj \<Rightarrow> uart_sys \<Rightarrow> mrb_value uart_result" where
  "mrb_bytes_available o1 s = do { (p, rx) \<leftarrow> get_rx o1 s; Some (Inr (VInt (uint (bufferDataSize rx))), s) }"

definition mrb_uart_write :: "bytes \<Rightarrow> uart_obj \<Rightarrow> uart_sys \<Rightarrow> mrb_value uart_result" where
  "mrb_uart_write str o1 s = Some (Inr (VInt (int (length str))), UART_write_blocking (obj_unit o1) str s)"

definition mrb_gets :: "bytes \<Rightarrow> uart_obj \<Rightarrow> uart_sys \<Rightarrow> mrb_value uart_result" where
  "mrb_gets mem o1 s = do {
     (p, rx) \<leftarrow> get_rx o1 s;
     pos \<leftarrow> searchCharBuffer 10 rx;
     (if pos < 0 then Some (Inr VNil, s) else pop_string mem (word_of_int (pos + 1)) (p, rx) s)
   }"

definition mrb_flush :: "uart_obj \<Rightarrow> uart_sys \<Rightarrow> unit uart_result" where
  "mrb_flush o1 s = Some (Inr (), UART_flush (obj_unit o1) s)"

definition mrb_clear_tx_buffer :: "uart_obj \<Rightarrow> uart_sys \<Rightarrow> unit uart_result" where
  "mrb_clear_tx_buffer o1 s = Some (Inr (), UART_clear_tx_buffer (obj_unit o1) s)"

definition mrb_clear_rx_buffer :: "uart_obj \<Rightarrow> uart_sys \<Rightarrow> unit uart_result" where
  "mrb_clear_rx_buffer o1 s = do {
     (p, rx) \<leftarrow> get_rx o1 s;
     s \<leftarrow> UART_clear_rx_buffer (obj_unit o1) (put_rx p (clearBuffer rx) s);
     Some (Inr (), s)
   }"

text \<open>The conversion of a float number of seconds to milliseconds is a parameter.\<close>

definition mrb_break :: "(u64 \<Rightarrow> u32) \<Rightarrow> mrb_value \<Rightarrow> uart_obj \<Rightarrow> uart_sys \<Rightarrow> unit uart_result" where
  "mrb_break float_ms break_ms_val o1 s =
     (let brk = (\<lambda>ms. Some (Inr (), UART_break (obj_unit o1) ms s))
      in case break_ms_val of
           VNil \<Rightarrow> brk 100
         | VFloat f \<Rightarrow> brk (float_ms f)
         | VInt i \<Rightarrow> brk (word_of_int i)
         | _ \<Rightarrow> Some (Inl (TypeError ''can't convert into time interval''), s))"

section \<open>The methods for mruby/c\<close>

definition wrong_number :: "string \<Rightarrow> rb_error" where
  "wrong_number n = ArgumentError (''wrong number of arguments. expected '' @ n)"

definition c_open_rx_buffer :: "nat \<Rightarrow> bytes \<Rightarrow> mrb_value list \<Rightarrow> uart_sys \<Rightarrow> mrb_value uart_result" where
  "c_open_rx_buffer p mem args s =
     (if length args \<noteq> 1 then Some (Inl (wrong_number ''1''), s)
      else do {
        n \<leftarrow> (if args ! 0 = VNil then Some (word_of_int PICORUBY_UART_RX_BUFFER_SIZE) else GET_INT_ARG args 1);
        (r, s) \<leftarrow> open_rx p mem (sint n) s;
        Some (case r of Inl e \<Rightarrow> Inl e | Inr _ \<Rightarrow> Inr (VObj p), s)
      })"

definition c_open_connection :: "string \<Rightarrow> mrb_value list \<Rightarrow> uart_sys \<Rightarrow> mrb_value uart_result" where
  "c_open_connection unit_name args s = do {
     let unit_num = UART_unit_name_to_unit_num unit_name;
     txd_pin \<leftarrow> GET_INT_ARG args 2;
     rxd_pin \<leftarrow> GET_INT_ARG args 3;
     rx_buffer \<leftarrow> arr_get args 3;
     (case rx_buffer of
        VObj p \<Rightarrow> Some (Inr (VInt unit_num), UART_init unit_num txd_pin rxd_pin p s)
      | _ \<Rightarrow> None)
   }"

definition c__set_baudrate :: "(u32 \<Rightarrow> u32) \<Rightarrow> mrb_value list \<Rightarrow> uart_obj \<Rightarrow> uart_sys \<Rightarrow> mrb_value uart_result" where
  "c__set_baudrate actual args o1 s = do {
     baudrate \<leftarrow> GET_INT_ARG args 1;
     let (r, s) = UART_set_baudrate actual (obj_unit o1) baudrate s;
     Some (Inr (VInt (sint r)), s)
   }"

definition c__set_flow_control :: "mrb_value list \<Rightarrow> uart_obj \<Rightarrow> uart_sys \<Rightarrow> unit uart_result" where
  "c__set_flow_control args o1 s = do {
     cts \<leftarrow> arr_get args 0;
     rts \<leftarrow> arr_get args 1;
     Some (Inr (), UART_set_flow_control (obj_unit o1) (cts = VTrue) (rts = VTrue) s)
   }"

definition c__set_format :: "mrb_value list \<Rightarrow> uart_obj \<Rightarrow> uart_sys \<Rightarrow> unit uart_result" where
  "c__set_format args o1 s = do {
     data_bits \<leftarrow> GET_INT_ARG args 1;
     stop_bits \<leftarrow> GET_INT_ARG args 2;
     parity \<leftarrow> GET_INT_ARG args 3;
     Some (Inr (), UART_set_format (obj_unit o1) data_bits stop_bits (ucast parity) s)
   }"

definition c__set_function :: "mrb_value list \<Rightarrow> uart_obj \<Rightarrow> uart_sys \<Rightarrow> unit uart_result" where
  "c__set_function args o1 s = do { pin \<leftarrow> GET_INT_ARG args 1; Some (Inr (), UART_set_function pin s) }"

definition c_read :: "bytes \<Rightarrow> mrb_value list \<Rightarrow> uart_obj \<Rightarrow> uart_sys \<Rightarrow> mrb_value uart_result" where
  "c_read mem args o1 s = do {
     (p, rx) \<leftarrow> get_rx o1 s;
     let available_len = bufferDataSize rx;
     (if available_len = 0 then Some (Inr VNil, s)
      else if length args = 1 then do {
        len \<leftarrow> GET_INT_ARG args 1;
        (if available_len < len then Some (Inr VNil, s) else pop_string mem len (p, rx) s)
      }
      else pop_string mem available_len (p, rx) s)
   }"

definition c_readpartial :: "bytes \<Rightarrow> mrb_value list \<Rightarrow> uart_obj \<Rightarrow> uart_sys \<Rightarrow> mrb_value uart_result" where
  "c_readpartial mem args o1 s =
     (if length args \<noteq> 1 then Some (Inl (wrong_number ''1''), s)
      else do {
        (p, rx) \<leftarrow> get_rx o1 s;
        let available_len = bufferDataSize rx;
        (if available_len = 0 then Some (Inr VNil, s)
         else do {
           maxlen \<leftarrow> GET_INT_ARG args 1;
           pop_string mem (if available_len < maxlen then available_len else maxlen) (p, rx) s
         })
      })"

definition c_bytes_available :: "uart_obj \<Rightarrow> uart_sys \<Rightarrow> mrb_value uart_result" where
  "c_bytes_available o1 s = do { (p, rx) \<leftarrow> get_rx o1 s; Some (Inr (VInt (sint (bufferDataSize rx))), s) }"

definition c_write :: "mrb_value list \<Rightarrow> uart_obj \<Rightarrow> uart_sys \<Rightarrow> mrb_value uart_result" where
  "c_write args o1 s =
     (case args of
        [VStr str] \<Rightarrow> Some (Inr (VInt (int (length str))), UART_write_blocking (obj_unit o1) str s)
      | [_] \<Rightarrow> Some (Inl (TypeError ''wrong argument type (expected String)''), s)
      | _ \<Rightarrow> Some (Inl (wrong_number ''1''), s))"

definition c_gets :: "bytes \<Rightarrow> mrb_value list \<Rightarrow> uart_obj \<Rightarrow> uart_sys \<Rightarrow> mrb_value uart_result" where
  "c_gets mem args o1 s =
     (if args \<noteq> [] then Some (Inl (wrong_number ''0''), s)
      else do {
        (p, rx) \<leftarrow> get_rx o1 s;
        pos \<leftarrow> searchCharBuffer 10 rx;
        (if pos < 0 then Some (Inr VNil, s) else pop_string mem (word_of_int (pos + 1)) (p, rx) s)
      })"

definition c_flush :: "uart_obj \<Rightarrow> uart_sys \<Rightarrow> unit uart_result" where
  "c_flush o1 s = Some (Inr (), UART_flush (obj_unit o1) s)"

definition c_clear_tx_buffer :: "uart_obj \<Rightarrow> uart_sys \<Rightarrow> unit uart_result" where
  "c_clear_tx_buffer o1 s = Some (Inr (), UART_clear_tx_buffer (obj_unit o1) s)"

definition c_clear_rx_buffer :: "uart_obj \<Rightarrow> uart_sys \<Rightarrow> unit uart_result" where
  "c_clear_rx_buffer o1 s = do {
     (p, rx) \<leftarrow> get_rx o1 s;
     s \<leftarrow> UART_clear_rx_buffer (obj_unit o1) (put_rx p (clearBuffer rx) s);
     Some (Inr (), s)
   }"

definition c_break :: "(u64 \<Rightarrow> u32) \<Rightarrow> mrb_value list \<Rightarrow> uart_obj \<Rightarrow> uart_sys \<Rightarrow> unit uart_result" where
  "c_break float_ms args o1 s =
     (let brk = (\<lambda>ms. Some (Inr (), UART_break (obj_unit o1) ms s))
      in case args of
           [] \<Rightarrow> brk 100
         | [VFloat f] \<Rightarrow> brk (float_ms f)
         | [VInt i] \<Rightarrow> brk (word_of_int i * 1000)
         | [_] \<Rightarrow> Some (Inl (TypeError ''can't convert into time interval''), s)
         | _ \<Rightarrow> Some (Inl (wrong_number ''0..1''), s))"

end
