(* ===== verification/UartProps.thy ===== *)
theory UartProps
  imports Uart
begin

text \<open>
  Properties of the serial ports: which buffer sizes are accepted, the receive buffer as a
  queue from the interrupt handler to the methods that read, what happens when it overflows,
  and where the bindings of the two virtual machines agree.
\<close>

section \<open>Buffer sizes\<close>

lemma c_half: "0 < n \<Longrightarrow> c_mod n 2 = n mod 2" "0 < n \<Longrightarrow> c_div n 2 = n div 2"
  by (simp_all add: c_mod_def c_div_def minus_div_mult_eq_mod)

lemma c_half_neg: "n < 0 \<Longrightarrow> c_div n 2 = - ((- n) div 2)"
  by (simp add: c_div_def)

lemma power_of_two_loop_pos:
  "power_of_two_loop (int (Suc n)) = Some (\<exists>k::nat. int (Suc n) = 2 ^ k)"
proof (induction n rule: less_induct)
  case (less n)
  let ?m = "int (Suc n)"
  consider "n = 0" | "odd ?m" "n \<noteq> 0" | "even ?m" by blast
  then show ?case
  proof cases
    case 1
    then show ?thesis by (subst power_of_two_loop.simps) (auto intro: exI [of _ 0])
  next
    case 2
    have "\<not> (\<exists>k::nat. ?m = 2 ^ k)"
    proof
      assume "\<exists>k::nat. ?m = 2 ^ k"
      then obtain k :: nat where k: "?m = 2 ^ k" by blast
      with 2 have "k = 0" by (metis even_numeral even_power neq0_conv)
      with k 2 show False by simp
    qed
    with 2 show ?thesis
      by (subst power_of_two_loop.simps) (simp only: c_half, auto simp: c_half mod_2_eq_odd)
  next
    case 3
    then obtain m where m: "n = Suc (2 * m)" by (auto elim!: evenE oddE)
    have eq: "(\<exists>k::nat. ?m = 2 ^ k) \<longleftrightarrow> (\<exists>k::nat. int (Suc m) = 2 ^ k)"
    proof
      assume "\<exists>k::nat. ?m = 2 ^ k"
      then obtain k :: nat where k: "?m = 2 ^ k" by blast
      with m obtain k' where "k = Suc k'" by (cases k) auto
      with k m have "int (Suc m) = 2 ^ k'" by simp
      then show "\<exists>k::nat. int (Suc m) = 2 ^ k" by blast
    next
      assume "\<exists>k::nat. int (Suc m) = 2 ^ k"
      then obtain k :: nat where "int (Suc m) = 2 ^ k" by blast
      with m have "?m = 2 ^ Suc k" by simp
      then show "\<exists>k::nat. ?m = 2 ^ k" by blast
    qed
    have "power_of_two_loop ?m = power_of_two_loop (int (Suc m))"
      using 3 m by (subst power_of_two_loop.simps) (simp add: c_half)
    with less.IH [of m] m eq show ?thesis by simp
  qed
qed

lemma power_of_two_loop_neg: "power_of_two_loop (- int (Suc n)) = Some False"
proof (induction n rule: less_induct)
  case (less n)
  let ?m = "- int (Suc n)"
  show ?case
  proof (cases "even (int (Suc n))")
    case True
    then obtain m where m: "n = Suc (2 * m)" by (auto elim!: evenE oddE)
    have "c_mod ?m 2 = 0" "c_div ?m 2 = - int (Suc m)"
      using m by (simp_all add: c_mod_def c_half_neg)
    with less.IH [of m] m show ?thesis
      by (subst power_of_two_loop.simps) simp
  next
    case False
    then have "c_mod ?m 2 \<noteq> 0" by (auto simp: c_mod_def c_half_neg elim!: oddE)
    then show ?thesis by (subst power_of_two_loop.simps) simp
  qed
qed

text \<open>The size check ends for every integer and accepts exactly the powers of two.\<close>

theorem uart_size_check: "isPowerOfTwo n = Some (\<exists>k::nat. n = 2 ^ k)"
proof -
  consider "n = 0" | m where "n = int (Suc m)" | m where "n = - int (Suc m)"
  proof (cases n)
    case (nonneg k)
    then show ?thesis using that by (cases k) auto
  next
    case (neg k)
    then show ?thesis using that by blast
  qed
  then show ?thesis
  proof cases
    case 1
    have "(0::int) \<noteq> 2 ^ k" for k :: nat by simp
    then show ?thesis using 1 by (simp add: isPowerOfTwo_def)
  next
    case 2
    then show ?thesis using power_of_two_loop_pos [of m] by (simp add: isPowerOfTwo_def)
  next
    case 3
    have "- int (Suc m) \<noteq> 2 ^ k" for k :: nat
      by (metis neg_less_0_iff_less of_nat_0_less_iff order_less_asym zero_less_Suc zero_less_numeral zero_less_power)
    then show ?thesis using 3 power_of_two_loop_neg [of m] by (auto simp: isPowerOfTwo_def)
  qed
qed
section \<open>The receive buffer is a queue\<close>

definition rx_wf :: "RingBuffer \<Rightarrow> bool" where
  "rx_wf rb \<longleftrightarrow> (\<exists>k\<le>30. unat (rx_size rb) = 2 ^ k \<and> rx_mask rb = 2 ^ k - 1 \<and> length (rx_data rb) = 2 ^ k \<and>
     0 \<le> rx_head rb \<and> rx_head rb < 2 ^ k \<and> 0 \<le> rx_tail rb \<and> rx_tail rb < 2 ^ k)"

definition rx_bytes :: "RingBuffer \<Rightarrow> bytes" where
  "rx_bytes rb = ring_list (rx_data rb) (nat (rx_head rb)) (nat (rx_tail rb))"

lemma int_and_mask: "(i :: int) AND (2 ^ k - 1) = i mod 2 ^ k"
  by (metis mask_eq_exp_minus_1 take_bit_eq_mask take_bit_eq_mod)

lemma nat_pow_less: "0 \<le> i \<Longrightarrow> i < 2 ^ k \<Longrightarrow> nat i < 2 ^ k"
  by (metis nat_less_iff of_nat_numeral of_nat_power)

lemma nat_Suc_mod: "0 \<le> i \<Longrightarrow> nat ((i + 1) mod 2 ^ k) = Suc (nat i) mod 2 ^ k"
  by (simp add: nat_mod_distrib Suc_nat_eq_nat_zadd1 nat_power_eq add.commute)

lemma rx_wf_dest:
  assumes "rx_wf rb"
  shows "nat (rx_head rb) < length (rx_data rb)" "nat (rx_tail rb) < length (rx_data rb)"
    "unat (rx_size rb) = length (rx_data rb)" "0 < length (rx_data rb)" "length (rx_data rb) < 2 ^ 31"
    "length (rx_bytes rb) < length (rx_data rb)"
    "rx_tail rb = rx_head rb \<longleftrightarrow> rx_bytes rb = []"
proof -
  obtain k where k: "k \<le> 30" "unat (rx_size rb) = 2 ^ k" "length (rx_data rb) = 2 ^ k"
    "0 \<le> rx_head rb" "rx_head rb < 2 ^ k" "0 \<le> rx_tail rb" "rx_tail rb < 2 ^ k"
    using assms unfolding rx_wf_def by blast
  show n: "nat (rx_head rb) < length (rx_data rb)" "nat (rx_tail rb) < length (rx_data rb)"
    using k nat_pow_less by simp_all
  show "unat (rx_size rb) = length (rx_data rb)" "0 < length (rx_data rb)" using k by simp_all
  have "(2::nat) ^ k \<le> 2 ^ 30" using k(1) by (intro power_increasing) auto
  then show "length (rx_data rb) < 2 ^ 31" using k(3) by simp
  show "length (rx_bytes rb) < length (rx_data rb)"
    unfolding rx_bytes_def length_ring_list using n(1) by (intro mod_less_divisor) linarith
  show "rx_tail rb = rx_head rb \<longleftrightarrow> rx_bytes rb = []"
    using ring_empty_iff [OF n] k(4-7) unfolding rx_bytes_def by (auto simp: eq_nat_nat_iff)
qed

lemma bufferDataSize_length:
  assumes "rx_wf rb"
  shows "bufferDataSize rb = of_nat (length (rx_bytes rb))" "unat (bufferDataSize rb) = length (rx_bytes rb)"
proof -
  obtain k where k: "rx_mask rb = 2 ^ k - 1" "length (rx_data rb) = 2 ^ k"
    "0 \<le> rx_head rb" "rx_head rb < 2 ^ k" "0 \<le> rx_tail rb" "rx_tail rb < 2 ^ k"
    using assms unfolding rx_wf_def by blast
  have "(rx_tail rb - rx_head rb) mod 2 ^ k = (rx_tail rb + 2 ^ k - rx_head rb) mod 2 ^ k"
    by (metis add_diff_eq diff_add_eq mod_add_self2)
  also have "\<dots> = int ((nat (rx_tail rb) + 2 ^ k - nat (rx_head rb)) mod 2 ^ k)"
    using k nat_pow_less [of "rx_head rb" k] by (simp add: zmod_int of_nat_diff less_imp_le trans_le_add2)
  finally have "(rx_tail rb - rx_head rb) AND rx_mask rb = int (length (rx_bytes rb))"
    by (simp add: k int_and_mask rx_bytes_def length_ring_list)
  then show "bufferDataSize rb = of_nat (length (rx_bytes rb))" by (simp add: bufferDataSize_def)
  then show "unat (bufferDataSize rb) = length (rx_bytes rb)"
    using rx_wf_dest(5,6) [OF assms] by (simp add: unsigned_of_nat take_bit_nat_eq_self)
qed

lemma push_always:
  assumes "rx_wf rb"
  shows "\<exists>rb'. UART_pushBuffer ch rb = Some (True, rb') \<and> rx_wf rb' \<and> rx_size rb' = rx_size rb \<and>
    rx_bytes rb' = (if length (rx_bytes rb) + 1 < unat (rx_size rb) then rx_bytes rb @ [ch] else [])"
proof -
  obtain k where k: "k \<le> 30" "unat (rx_size rb) = 2 ^ k" "rx_mask rb = 2 ^ k - 1" "length (rx_data rb) = 2 ^ k"
    "0 \<le> rx_head rb" "rx_head rb < 2 ^ k" "0 \<le> rx_tail rb" "rx_tail rb < 2 ^ k"
    using assms unfolding rx_wf_def by blast
  note d = rx_wf_dest [OF assms]
  let ?h = "nat (rx_head rb)" and ?t = "nat (rx_tail rb)" and ?n = "length (rx_data rb)"
  have free: "\<not> bufferFreeSize rb < 1"
  proof -
    have "unat (bufferFreeSize rb) = ?n - length (rx_bytes rb)"
      using d(3,6) bufferDataSize_length(2) [OF assms] unat_sub [of "bufferDataSize rb" "rx_size rb"]
      by (simp add: bufferFreeSize_def word_le_nat_alt)
    with d(6) show ?thesis by (simp add: word_less_nat_alt)
  qed
  let ?rb = "rb\<lparr>rx_data := (rx_data rb)[?t := ch], rx_tail := (rx_tail rb + 1) AND rx_mask rb\<rparr>"
  have tl: "nat (rx_tail ?rb) = Suc ?t mod ?n"
    using k by (simp add: int_and_mask nat_Suc_mod)
  have push: "UART_pushBuffer ch rb = Some (True, ?rb)"
    using free d(2) by (simp add: UART_pushBuffer_def)
  have "rx_wf ?rb"
    unfolding rx_wf_def by (rule exI [of _ k]) (use k in \<open>simp add: int_and_mask\<close>)
  moreover have "rx_bytes ?rb = (if length (rx_bytes rb) + 1 < ?n then rx_bytes rb @ [ch] else [])"
  proof (cases "Suc ?t mod ?n = ?h")
    case True
    then have "rx_bytes ?rb = []" using tl d(1) by (simp add: rx_bytes_def)
    moreover have "length (rx_bytes rb) = ?n - 1"
      using True ring_full_iff [OF d(1,2)] by (simp add: rx_bytes_def)
    ultimately show ?thesis by simp
  next
    case False
    then have "length (rx_bytes rb) \<noteq> ?n - 1"
      using ring_full_iff [OF d(1,2)] by (auto simp: rx_bytes_def)
    moreover have "rx_bytes ?rb = rx_bytes rb @ [ch]"
      using ring_push [OF d(1,2) False, of ch] tl by (simp add: rx_bytes_def)
    ultimately show ?thesis using d(6) by auto
  qed
  ultimately show ?thesis using push d(3) by simp
qed

lemma pop_loop_spec:
  "rx_wf rb \<Longrightarrow> n \<le> length (rx_bytes rb) \<Longrightarrow> i + n \<le> length buf \<Longrightarrow>
   \<exists>rb'. pop_loop n i buf rb = Some (take i buf @ take n (rx_bytes rb) @ drop (i + n) buf, rb') \<and>
     rx_wf rb' \<and> rx_size rb' = rx_size rb \<and> rx_bytes rb' = drop n (rx_bytes rb)"
proof (induction n arbitrary: i buf rb)
  case 0
  then show ?case by simp
next
  case (Suc n)
  obtain k where k: "k \<le> 30" "unat (rx_size rb) = 2 ^ k" "rx_mask rb = 2 ^ k - 1" "length (rx_data rb) = 2 ^ k"
    "0 \<le> rx_head rb" "rx_head rb < 2 ^ k" "0 \<le> rx_tail rb" "rx_tail rb < 2 ^ k"
    using Suc.prems(1) unfolding rx_wf_def by blast
  note d = rx_wf_dest [OF Suc.prems(1)]
  let ?rb = "rb\<lparr>rx_head := (rx_head rb + 1) AND rx_mask rb\<rparr>" and ?b = "rx_data rb ! nat (rx_head rb)"
  have wf: "rx_wf ?rb"
    unfolding rx_wf_def by (rule exI [of _ k]) (use k in \<open>simp add: int_and_mask\<close>)
  have "rx_tail rb \<noteq> rx_head rb" using d(7) Suc.prems(2) by auto
  then have "nat (rx_head rb) \<noteq> nat (rx_tail rb)" using k by auto
  moreover have "nat (rx_head ?rb) = Suc (nat (rx_head rb)) mod length (rx_data rb)"
    using k by (simp add: int_and_mask nat_Suc_mod)
  ultimately have bytes: "rx_bytes rb = ?b # rx_bytes ?rb"
    using ring_pop [OF d(1,2)] by (simp add: rx_bytes_def)
  obtain rb' where rb': "pop_loop n (Suc i) (buf[i := ?b]) ?rb =
      Some (take (Suc i) (buf[i := ?b]) @ take n (rx_bytes ?rb) @ drop (Suc i + n) (buf[i := ?b]), rb')"
    "rx_wf rb'" "rx_size rb' = rx_size rb" "rx_bytes rb' = drop n (rx_bytes ?rb)"
    using Suc.IH [OF wf, of "Suc i" "buf[i := ?b]"] Suc.prems(2,3) bytes by auto
  have "take (Suc i) (buf[i := ?b]) = take i buf @ [?b]"
    using Suc.prems(3) by (simp add: take_Suc_conv_app_nth)
  then show ?case
    using rb' d(1) Suc.prems(3) by (simp add: bytes)
qed

lemma popBuffer_spec:
  assumes "rx_wf rb" "rx_bytes rb \<noteq> []" "len \<le> rx_size rb" "unat len \<le> length buf"
  defines "n \<equiv> min (unat len) (length (rx_bytes rb))"
  shows "\<exists>rb'. popBuffer rb buf len = Some (True, take n (rx_bytes rb) @ drop n buf, rb') \<and>
     rx_wf rb' \<and> rx_size rb' = rx_size rb \<and> rx_bytes rb' = drop n (rx_bytes rb)"
proof -
  have "rx_tail rb \<noteq> rx_head rb" "\<not> rx_size rb < len"
    using rx_wf_dest(7) [OF assms(1)] assms(2,3) by auto
  moreover have "unat (if bufferDataSize rb < len then bufferDataSize rb else len) = n"
    using bufferDataSize_length(2) [OF assms(1)] by (auto simp: n_def word_less_nat_alt)
  moreover have le: "n \<le> length (rx_bytes rb)" "n \<le> length buf" using assms(4) by (simp_all add: n_def)
  moreover obtain rb' where "pop_loop n 0 buf rb = Some (take n (rx_bytes rb) @ drop n buf, rb')"
    "rx_wf rb'" "rx_size rb' = rx_size rb" "rx_bytes rb' = drop n (rx_bytes rb)"
    using pop_loop_spec [OF assms(1), of n 0 buf] le by (simp only: take_0 append_Nil add_0) blast
  ultimately show ?thesis by (simp add: popBuffer_def Let_def)
qed

definition rx_deq :: "RingBuffer \<Rightarrow> (u8 option \<times> RingBuffer) option" where
  "rx_deq rb = do {
     (ok, buf, rb) \<leftarrow> popBuffer rb [0] 1;
     Some (if ok then Some (hd buf) else None, rb)
   }"

interpretation rx: bounded_fifo rx_wf rx_bytes "\<lambda>rb. unat (rx_size rb) - 1" UART_pushBuffer rx_deq
proof
  fix s :: RingBuffer and x :: u8 and xs
  assume wf: "rx_wf s"
  note d = rx_wf_dest [OF wf]
  have one: "1 \<le> rx_size s" unfolding word_le_nat_alt using d(3,4) by (simp add: Suc_le_eq)
  show "\<exists>s'. UART_pushBuffer x s = Some (True, s') \<and> rx_wf s' \<and> rx_bytes s' = rx_bytes s @ [x] \<and>
      unat (rx_size s') - 1 = unat (rx_size s) - 1"
    if "length (rx_bytes s) < unat (rx_size s) - 1"
  proof -
    have "length (rx_bytes s) + 1 < unat (rx_size s)" using that by linarith
    with push_always [OF wf, of x] show ?thesis by auto
  qed
  show "rx_deq s = Some (None, s)" if "rx_bytes s = []"
    using that d(7) one by (simp add: rx_deq_def popBuffer_def not_less)
  show "\<exists>s'. rx_deq s = Some (Some x, s') \<and> rx_wf s' \<and> rx_bytes s' = xs \<and>
      unat (rx_size s') - 1 = unat (rx_size s) - 1"
    if "rx_bytes s = x # xs"
    using popBuffer_spec [OF wf, of 1 "[0]"] that one by (auto simp: rx_deq_def)
qed
section \<open>Receiving\<close>

lemma rx_drain_enq_all: "rx_drain xs rb = enq_all UART_pushBuffer xs rb"
proof (induction xs arbitrary: rb)
  case Nil
  then show ?case by (simp add: enq_all_def)
next
  case (Cons x xs)
  then show ?case by (auto simp: enq_all_Cons split: option.splits)
qed

lemma stack_array_length:
  "stack_array mem n = Some buf \<Longrightarrow> length buf = nat n" "0 \<le> n \<Longrightarrow> n < 2 ^ 31 \<Longrightarrow> \<exists>buf. stack_array mem n = Some buf"
  by (auto simp: stack_array_def split: if_splits)

lemma pop_string_spec:
  assumes "rx_wf rb" "rx_bytes rb \<noteq> []" "unat len \<le> length (rx_bytes rb)"
  shows "\<exists>rb'. pop_string mem len (p, rb) s = Some (Inr (VStr (take (unat len) (rx_bytes rb))), put_rx p rb' s) \<and>
    rx_wf rb' \<and> rx_size rb' = rx_size rb \<and> rx_bytes rb' = drop (unat len) (rx_bytes rb)"
proof -
  note d = rx_wf_dest [OF assms(1)]
  have "uint len < 2 ^ 31"
  proof -
    have "unat len < 2 ^ 31" using assms(3) d(5,6) by linarith
    then have "int (unat len) < 2 ^ 31" by (simp only: of_nat_less_numeral_power_cancel_iff)
    then show ?thesis by simp
  qed
  then obtain buf where sa: "stack_array mem (uint len) = Some buf"
    using stack_array_length(2) [of "uint len" mem] uint_ge_0 [of len] by blast
  then have buf: "stack_array mem (uint len) = Some buf" "length buf = unat len"
    using stack_array_length(1) [OF sa] by (simp_all add: unat_eq_nat_uint del: nat_uint_eq)
  have le: "len \<le> rx_size rb" using assms(3) d(3,6) by (simp add: word_le_nat_alt)
  from popBuffer_spec [OF assms(1,2) le, of buf] buf assms(3)
  show ?thesis by (auto simp: pop_string_def)
qed

lemma rx_nth:
  assumes "rx_wf rb" "i < length (rx_bytes rb)"
  shows "arr_get (rx_data rb) (nat ((rx_head rb + int i) AND rx_mask rb)) = Some (rx_bytes rb ! i)"
proof -
  obtain k where k: "rx_mask rb = 2 ^ k - 1" "length (rx_data rb) = 2 ^ k" "0 \<le> rx_head rb"
    using assms(1) unfolding rx_wf_def by blast
  have "nat ((rx_head rb + int i) mod 2 ^ k) = (nat (rx_head rb) + i) mod 2 ^ k"
    using k(3) by (simp add: nat_mod_distrib nat_add_distrib nat_power_eq)
  then show ?thesis
    using k assms(2) by (simp add: int_and_mask rx_bytes_def length_ring_list ring_list_def)
qed

lemma search_loop_spec:
  assumes "rx_wf rb"
  shows "i + n = length (rx_bytes rb) \<Longrightarrow> search_loop n i c rb =
    Some (if c \<in> set (drop i (rx_bytes rb)) then int (i + length (takeWhile (\<lambda>b. b \<noteq> c) (drop i (rx_bytes rb)))) else - 1)"
proof (induction n arbitrary: i)
  case 0
  then show ?case by simp
next
  case (Suc n)
  then have i: "i < length (rx_bytes rb)" by simp
  have "drop i (rx_bytes rb) = rx_bytes rb ! i # drop (Suc i) (rx_bytes rb)"
    using i by (simp add: Cons_nth_drop_Suc)
  with Suc.IH [of "Suc i"] Suc.prems rx_nth [OF assms i] show ?case by auto
qed

lemma searchCharBuffer_spec:
  assumes "rx_wf rb"
  shows "searchCharBuffer c rb = Some (if c \<in> set (rx_bytes rb)
    then int (length (takeWhile (\<lambda>b. b \<noteq> c) (rx_bytes rb))) else - 1)"
  using search_loop_spec [OF assms, of 0] bufferDataSize_length(2) [OF assms]
  by (simp add: searchCharBuffer_def)

lemma read_sizes:
  assumes "rx_wf rb"
  shows "bufferDataSize rb = 0 \<longleftrightarrow> rx_bytes rb = []" "uint (bufferDataSize rb) = int (length (rx_bytes rb))"
proof -
  show u: "uint (bufferDataSize rb) = int (length (rx_bytes rb))"
    using bufferDataSize_length(2) [OF assms] by (metis uint_nat)
  show "bufferDataSize rb = 0 \<longleftrightarrow> rx_bytes rb = []"
    using bufferDataSize_length(2) [OF assms] word_unat_eq_iff [of "bufferDataSize rb" 0] by auto
qed

lemma unat_small: "n < 2 ^ 31 \<Longrightarrow> unat (word_of_int (int n) :: u32) = n"
  by (simp add: unsigned_of_nat take_bit_nat_eq_self)

text \<open>C12: Bytes that the interrupt handler takes from the hardware, if they fit the buffer together
  with those that wait in it, are returned by \<^verbatim>\<open>read\<close> in the order of their arrival, and \<^verbatim>\<open>read(n)\<close>
  leaves the rest for the next call.\<close>

theorem uart_receive:
  assumes "rx_buffers s ! u = Some p" "u < length (rx_buffers s)" "rx_heap s p = Some rb" "rx_wf rb"
    and "length (rx_bytes rb) + length (hw_fifo s u) < unat (rx_size rb)"
    and "0 < n" "n \<le> length (rx_bytes rb) + length (hw_fifo s u)" "obj_rx o1 = Some p"
  shows "\<exists>s1 s2 rb2. on_uart_rx u s = Some s1 \<and> hw_fifo s1 u = [] \<and>
    mrb_uart_read mem (VInt (int n)) o1 s1 = Some (Inr (VStr (take n (rx_bytes rb @ hw_fifo s u))), s2) \<and>
    rx_heap s2 p = Some rb2 \<and> rx_wf rb2 \<and> rx_bytes rb2 = drop n (rx_bytes rb @ hw_fifo s u)"
proof -
  have "length (rx_bytes rb) + length (hw_fifo s u) \<le> unat (rx_size rb) - 1" using assms(5) by linarith
  then obtain rb1 where rb1: "rx_drain (hw_fifo s u) rb = Some rb1" "rx_wf rb1"
    "rx_bytes rb1 = rx_bytes rb @ hw_fifo s u"
    using rx.enq_all_room [OF assms(4), of "hw_fifo s u"] unfolding rx_drain_enq_all by blast
  have "\<exists>s1. on_uart_rx u s = Some s1 \<and> hw_fifo s1 u = [] \<and> rx_heap s1 p = Some rb1"
    using assms(1-3) rb1(1) by (cases "hw_fifo s u = []") (auto simp: on_uart_rx_def)
  then obtain s1 where s1: "on_uart_rx u s = Some s1" "hw_fifo s1 u = []" "rx_heap s1 p = Some rb1" by blast
  have n: "n \<le> length (rx_bytes rb1)" using assms(7) rb1(3) by simp
  have un: "unat (word_of_int (int n) :: u32) = n"
    using n rx_wf_dest(5,6) [OF rb1(2)] by (intro unat_small) linarith
  have ne: "rx_bytes rb1 \<noteq> []" using n assms(6) by auto
  obtain rb2 where "pop_string mem (word_of_int (int n)) (p, rb1) s1 =
      Some (Inr (VStr (take n (rx_bytes rb1))), put_rx p rb2 s1)" "rx_wf rb2" "rx_bytes rb2 = drop n (rx_bytes rb1)"
    using pop_string_spec [OF rb1(2) ne, of "word_of_int (int n)" mem p s1] n un by auto
  with s1 n ne assms(8) rb1 show ?thesis
    by (auto simp: mrb_uart_read_def get_rx_def read_sizes [OF rb1(2)] put_rx_def)
qed

text \<open>The receive buffer never refuses a byte; when bytes arrive and none is read, an empty
  buffer of size \<open>N\<close> holds only the last \<open>length xs mod N\<close> of them: each time it would be
  full it becomes empty and everything in it is lost.\<close>

theorem uart_overflow:
  assumes "rx_wf rb" "rx_bytes rb = []"
  shows "\<exists>rb'. rx_drain xs rb = Some rb' \<and> rx_wf rb' \<and> rx_size rb' = rx_size rb \<and>
    rx_bytes rb' = drop (length xs - length xs mod unat (rx_size rb)) xs"
proof (induction xs rule: rev_induct)
  case Nil
  then show ?case using assms by simp
next
  case (snoc x xs)
  let ?n = "unat (rx_size rb)"
  from snoc obtain rb' where rb': "rx_drain xs rb = Some rb'" "rx_wf rb'" "rx_size rb' = rx_size rb"
    "rx_bytes rb' = drop (length xs - length xs mod ?n) xs" by blast
  have app: "rx_drain (xs @ ys) rb = rx_drain xs rb \<bind> rx_drain ys" for ys
    by (induction xs arbitrary: rb) (auto intro!: bind_option_cong)
  have "length (rx_bytes rb') = length xs mod ?n" using rb'(4) by simp
  then have "rx_bytes rb' @ [x] = drop (Suc (length xs) - Suc (length xs) mod ?n) (xs @ [x])"
    if "length (rx_bytes rb') + 1 < ?n"
    using that rb'(4) by (simp add: mod_Suc)
  moreover have "[] = drop (Suc (length xs) - Suc (length xs) mod ?n) (xs @ [x])"
    if "\<not> length (rx_bytes rb') + 1 < ?n"
  proof -
    have "length xs mod ?n < ?n"
      using rx_wf_dest(3,4) [OF assms(1)] by (intro mod_less_divisor) linarith
    then have "Suc (length xs mod ?n) = ?n"
      using that \<open>length (rx_bytes rb') = length xs mod ?n\<close> by linarith
    then show ?thesis by (simp add: mod_Suc)
  qed
  ultimately show ?case
    using push_always [OF rb'(2), of x] rb'(1,3) by (auto simp: app split: if_splits)
qed

text \<open>\<^verbatim>\<open>gets\<close> returns the bytes up to and including the first newline and leaves the rest;
  without a newline it returns nil and leaves the buffer alone.\<close>

theorem uart_gets:
  assumes "obj_rx o1 = Some p" "rx_heap s p = Some rb" "rx_wf rb"
  shows "if 10 \<in> set (rx_bytes rb)
    then (\<exists>line rest rb'. rx_bytes rb = line @ 10 # rest \<and> 10 \<notin> set line \<and>
      mrb_gets mem o1 s = Some (Inr (VStr (line @ [10])), put_rx p rb' s) \<and> rx_wf rb' \<and> rx_bytes rb' = rest)
    else mrb_gets mem o1 s = Some (Inr VNil, s)"
proof (cases "10 \<in> set (rx_bytes rb)")
  case False
  then show ?thesis
    using assms searchCharBuffer_spec [OF assms(3), of 10] by (simp add: mrb_gets_def get_rx_def)
next
  case True
  define line where "line = takeWhile (\<lambda>b. b \<noteq> 10) (rx_bytes rb)"
  obtain rest where rest: "rx_bytes rb = line @ 10 # rest" "10 \<notin> set line"
  proof -
    obtain ys zs where "rx_bytes rb = ys @ 10 # zs" "10 \<notin> set ys"
      using True by (meson split_list_first)
    moreover from this have "line = ys" unfolding line_def by (auto simp: takeWhile_append)
    ultimately show ?thesis using that by blast
  qed
  have search: "searchCharBuffer 10 rb = Some (int (length line))"
    using searchCharBuffer_spec [OF assms(3), of 10] True by (simp add: line_def)
  have len: "length line + 1 \<le> length (rx_bytes rb)" using rest by simp
  have un: "unat (word_of_int (int (length line) + 1) :: u32) = length line + 1"
    using unat_small [of "length line + 1"] len rx_wf_dest(5,6) [OF assms(3)] by (simp add: algebra_simps)
  have ne: "rx_bytes rb \<noteq> []" using True by auto
  obtain rb' where "pop_string mem (word_of_int (int (length line) + 1)) (p, rb) s =
      Some (Inr (VStr (line @ [10])), put_rx p rb' s)" "rx_wf rb'" "rx_bytes rb' = rest"
    using pop_string_spec [OF assms(3) ne, of "word_of_int (int (length line) + 1)" mem p s] un len rest by auto
  then show ?thesis using True rest search assms by (auto simp: mrb_gets_def get_rx_def)
qed
section \<open>Two virtual machines\<close>

lemma small_int_arg: "GET_INT_ARG (VInt n # args) (Suc 0) = Some (word_of_int n)"
  by (simp add: GET_INT_ARG_def)

lemma arg_less:
  assumes "rx_wf rb" "0 \<le> n" "n < 2 ^ 31"
  shows "bufferDataSize rb < word_of_int n \<longleftrightarrow> uint (bufferDataSize rb) < n"
proof -
  have "uint (word_of_int n :: u32) = n"
    using assms(2,3) by (simp add: uint_word_of_int)
  then show ?thesis by (simp add: word_less_def)
qed

text \<open>For the arguments that both accept, the reading methods of the two virtual machines do the
  same: \<^verbatim>\<open>read\<close> with and without a length, \<^verbatim>\<open>readpartial\<close>, \<^verbatim>\<open>gets\<close>, \<^verbatim>\<open>bytes_available\<close>
  and \<^verbatim>\<open>clear_rx_buffer\<close>.\<close>

theorem uart_bindings_agree:
  assumes "get_rx o1 s = Some (p, rb)" "rx_wf rb" "0 \<le> n" "n < 2 ^ 31"
  shows "mrb_uart_read mem (VInt n) o1 s = c_read mem [VInt n] o1 s \<and>
    mrb_uart_read mem VNil o1 s = c_read mem [] o1 s \<and>
    mrb_readpartial mem n o1 s = c_readpartial mem [VInt n] o1 s \<and>
    mrb_gets mem o1 s = c_gets mem [] o1 s \<and>
    mrb_bytes_available o1 s = c_bytes_available o1 s \<and>
    mrb_clear_rx_buffer o1 s = c_clear_rx_buffer o1 s"
proof (intro conjI)
  note less = arg_less [OF assms(2-4)]
  show "mrb_uart_read mem (VInt n) o1 s = c_read mem [VInt n] o1 s"
    and "mrb_uart_read mem VNil o1 s = c_read mem [] o1 s"
    using assms(1) less by (simp_all add: mrb_uart_read_def c_read_def small_int_arg Let_def)
  show "mrb_readpartial mem n o1 s = c_readpartial mem [VInt n] o1 s"
    using assms(1) less by (simp add: mrb_readpartial_def c_readpartial_def small_int_arg Let_def)
  show "mrb_gets mem o1 s = c_gets mem [] o1 s"
    by (simp add: mrb_gets_def c_gets_def)
  have "length (rx_bytes rb) < 2 ^ 31" using rx_wf_dest(5,6) [OF assms(2)] by linarith
  then have "sint (bufferDataSize rb) = uint (bufferDataSize rb)"
    unfolding bufferDataSize_length(1) [OF assms(2)]
    by (simp add: signed_of_nat unsigned_of_nat signed_take_bit_int_eq_self take_bit_nat_eq_self)
  then show "mrb_bytes_available o1 s = c_bytes_available o1 s"
    using assms(1) by (simp add: mrb_bytes_available_def c_bytes_available_def)
  show "mrb_clear_rx_buffer o1 s = c_clear_rx_buffer o1 s"
    by (simp add: mrb_clear_rx_buffer_def c_clear_rx_buffer_def)
qed

text \<open>Where they differ: an integer argument of \<^verbatim>\<open>break\<close> is a number of milliseconds for mruby and
  of seconds for mruby/c; a negative length is undefined behaviour in mruby and nil in mruby/c.\<close>

lemma uart_break_units_differ:
  "mrb_break f (VInt 2) o1 s = Some (Inr (), UART_break (obj_unit o1) 2 s)"
  "c_break f [VInt 2] o1 s = Some (Inr (), UART_break (obj_unit o1) 2000 s)"
  by (simp_all add: mrb_break_def c_break_def)

lemma uart_read_negative_differs:
  assumes "get_rx o1 s = Some (p, rb)" "rx_wf rb" "rx_bytes rb \<noteq> []"
  shows "mrb_uart_read mem (VInt (- 1)) o1 s = None" "c_read mem [VInt (- 1)] o1 s = Some (Inr VNil, s)"
proof -
  have m: "uint (- 1 :: u32) = 2 ^ 32 - 1" by (simp add: unsigned_minus_1_eq_mask mask_eq_exp_minus_1)
  then have "uint (bufferDataSize rb) < uint (- 1 :: u32)"
    using read_sizes(2) [OF assms(2)] rx_wf_dest(5,6) [OF assms(2)] by simp
  then have "bufferDataSize rb < - 1" by (simp only: word_less_def)
  then show "c_read mem [VInt (- 1)] o1 s = Some (Inr VNil, s)"
    using assms read_sizes(1) [OF assms(2)] by (simp add: c_read_def small_int_arg)
  show "mrb_uart_read mem (VInt (- 1)) o1 s = None"
    using assms read_sizes [OF assms(2)] by (simp add: mrb_uart_read_def pop_string_def stack_array_def m)
qed

section \<open>Witnesses\<close>

definition demo_rx :: RingBuffer where
  "demo_rx = \<lparr>rx_head = 6, rx_tail = 6, rx_size = 8, rx_mask = 7, rx_data = [7, 7, 7, 7, 7, 7, 7, 7]\<rparr>"

definition demo_uart :: uart_sys where
  "demo_uart = \<lparr>rx_heap = [40 \<mapsto> demo_rx], rx_buffers = [Some 40, None],
     hw_fifo = (\<lambda>u. if u = 0 then [72, 105, 10, 33] else []), sdk_log = []\<rparr>"

definition demo_obj :: uart_obj where "demo_obj = \<lparr>obj_rx = Some 40, obj_unit = 0\<rparr>"

definition demo_line :: RingBuffer where
  "demo_line = \<lparr>rx_head = 6, rx_tail = 2, rx_size = 8, rx_mask = 7, rx_data = [10, 33, 7, 7, 7, 7, 72, 105]\<rparr>"

lemma demo_rx_wf: "rx_wf demo_rx" "rx_bytes demo_rx = []"
  by (auto simp: rx_wf_def demo_rx_def rx_bytes_def intro!: exI [of _ 3])

lemma demo_line_wf: "rx_wf demo_line" "rx_bytes demo_line = [72, 105, 10, 33]"
  by (auto simp: rx_wf_def demo_line_def rx_bytes_def ring_list_def upt_rec intro!: exI [of _ 3])

lemma uart_receive_witness:
  "\<exists>s1 s2. on_uart_rx 0 demo_uart = Some s1 \<and>
    mrb_uart_read [] (VInt 3) demo_obj s1 = Some (Inr (VStr [72, 105, 10]), s2)"
proof -
  have "rx_buffers demo_uart ! 0 = Some 40" "0 < length (rx_buffers demo_uart)"
    "rx_heap demo_uart 40 = Some demo_rx" "obj_rx demo_obj = Some 40"
    "hw_fifo demo_uart 0 = [72, 105, 10, 33]"
    by (simp_all add: demo_uart_def demo_obj_def)
  with uart_receive [of demo_uart 0 40 demo_rx 3 demo_obj "[]"] demo_rx_wf
  show ?thesis by (auto simp: demo_rx_def)
qed

lemma uart_overflow_witness:
  "\<exists>rb. rx_drain [1, 2, 3, 4, 5, 6, 7, 8, 9, 10] demo_rx = Some rb \<and> rx_bytes rb = [9, 10]"
  using uart_overflow [OF demo_rx_wf, of "[1, 2, 3, 4, 5, 6, 7, 8, 9, 10]"] by (auto simp: demo_rx_def)

lemma uart_gets_witness:
  "\<exists>s'. mrb_gets [] demo_obj (demo_uart\<lparr>rx_heap := [40 \<mapsto> demo_line]\<rparr>) = Some (Inr (VStr [72, 105, 10]), s')"
proof -
  have split: "rest = [33] \<and> line = [72, 105]" if "[72, 105, 10, 33 :: u8] = line @ 10 # rest" for line rest
    using that by (auto simp: Cons_eq_append_conv)
  show ?thesis
    using uart_gets [of demo_obj 40 "demo_uart\<lparr>rx_heap := [40 \<mapsto> demo_line]\<rparr>" demo_line "[]"] demo_line_wf
    by (auto simp: demo_obj_def dest: split)
qed

lemma uart_bindings_agree_witness:
  "mrb_uart_read [] (VInt 2) demo_obj (demo_uart\<lparr>rx_heap := [40 \<mapsto> demo_line]\<rparr>) =
   c_read [] [VInt 2] demo_obj (demo_uart\<lparr>rx_heap := [40 \<mapsto> demo_line]\<rparr>)"
  by (rule uart_bindings_agree [THEN conjunct1, of _ _ 40 demo_line])
    (simp_all add: get_rx_def demo_obj_def demo_line_wf)

end
