(* ===== verification/Codec.thy ===== *)
theory Codec
  imports Prelude
begin

text \<open>
  Base16, Base64 and CRC-32 (\<^verbatim>\<open>picoruby-base16\<close>, \<^verbatim>\<open>picoruby-base64\<close>, \<^verbatim>\<open>picoruby-crc\<close>), each with
  its bindings for both virtual machines. The mruby methods append to a string, the mruby/c
  methods store into an allocated array; \<open>mem\<close> is what the array holds before, and \<open>None\<close>
  is an access out of its bounds.
\<close>

text \<open>A run of assignments \<^verbatim>\<open>output[out_index++] = b\<close>.\<close>

fun store_run :: "nat \<Rightarrow> bytes \<Rightarrow> bytes \<Rightarrow> bytes option" where
  "store_run i [] out = Some out"
| "store_run i (b # bs) out = do { out \<leftarrow> arr_set out i b; store_run (Suc i) bs out }"

definition alloc :: "bytes \<Rightarrow> nat \<Rightarrow> bytes" where
  "alloc mem n = take n (mem @ replicate n 0)"

text \<open>\<^verbatim>\<open>mrb_str_cat_cstr\<close> appends the characters before the first NUL.\<close>

definition mrb_str_cat_cstr :: "bytes \<Rightarrow> bytes \<Rightarrow> bytes" where
  "mrb_str_cat_cstr str cstr = str @ takeWhile (\<lambda>b. b \<noteq> 0) cstr"

section \<open>Base16\<close>

definition base16chars :: bytes where
  "base16chars = [48, 49, 50, 51, 52, 53, 54, 55, 56, 57, 97, 98, 99, 100, 101, 102]"

definition base16_convert :: "u8 \<Rightarrow> u8" where
  "base16_convert n =
     (if 0x30 \<le> n \<and> n \<le> 0x39 then n - 0x30
      else if 0x41 \<le> n \<and> n \<le> 0x46 then n - 55
      else if 0x61 \<le> n \<and> n \<le> 0x66 then n - 87
      else 0)"

fun mrb_base16_encode_loop :: "bytes \<Rightarrow> bytes \<Rightarrow> bytes option" where
  "mrb_base16_encode_loop [] output = Some output"
| "mrb_base16_encode_loop (n # data) output = do {
     let n0 = drop_bit 4 n AND 15;
     let n1 = n AND 15;
     a \<leftarrow> arr_get base16chars (unat n0);
     b \<leftarrow> arr_get base16chars (unat n1);
     mrb_base16_encode_loop data (mrb_str_cat_cstr output [a, b, 0])
   }"

definition mrb_base16_s_encode :: "bytes \<Rightarrow> bytes option" where
  "mrb_base16_s_encode data = mrb_base16_encode_loop data []"

text \<open>The number of decoded bytes, and the byte at \<open>index\<close>; an odd input is read as if a 0 followed.\<close>

definition base16_out_size :: "bytes \<Rightarrow> nat" where
  "base16_out_size data = length data div 2 + (if length data mod 2 = 1 then 1 else 0)"

definition base16_pair :: "bytes \<Rightarrow> nat \<Rightarrow> (u8 \<times> u8) option" where
  "base16_pair data index = do {
     a \<leftarrow> arr_get data (index * 2);
     n1 \<leftarrow> (if index * 2 + 1 < length data then map_option base16_convert (arr_get data (index * 2 + 1)) else Some 0);
     Some (base16_convert a, n1)
   }"

fun mrb_base16_decode_loop :: "nat \<Rightarrow> nat \<Rightarrow> bytes \<Rightarrow> bytes \<Rightarrow> bytes option" where
  "mrb_base16_decode_loop 0 index data output = Some output"
| "mrb_base16_decode_loop (Suc n) index data output = do {
     (n0, n1) \<leftarrow> base16_pair data index;
     mrb_base16_decode_loop n (Suc index) data (mrb_str_cat_cstr output [push_bit 4 n0 OR n1, 0])
   }"

definition mrb_base16_s_decode :: "bytes \<Rightarrow> bytes option" where
  "mrb_base16_s_decode data = mrb_base16_decode_loop (base16_out_size data) 0 data []"

fun c_base16_encode_loop :: "bytes \<Rightarrow> nat \<Rightarrow> bytes \<Rightarrow> bytes option" where
  "c_base16_encode_loop [] index output = Some output"
| "c_base16_encode_loop (n # data) index output = do {
     let n0 = drop_bit 4 n AND 15;
     let n1 = n AND 15;
     a \<leftarrow> arr_get base16chars (unat n0);
     b \<leftarrow> arr_get base16chars (unat n1);
     output \<leftarrow> arr_set output (index * 2) a;
     output \<leftarrow> arr_set output (index * 2 + 1) b;
     c_base16_encode_loop data (Suc index) output
   }"

definition c_base16_encode :: "bytes \<Rightarrow> mrb_value \<Rightarrow> mrb_value rb_result option" where
  "c_base16_encode mem input =
     (case input of
        VStr data \<Rightarrow> map_option (Inr \<circ> VStr) (c_base16_encode_loop data 0 (alloc mem (length data * 2)))
      | _ \<Rightarrow> Some (Inl (TypeError ''wrong type of argument'')))"

fun c_base16_decode_loop :: "nat \<Rightarrow> nat \<Rightarrow> bytes \<Rightarrow> bytes \<Rightarrow> bytes option" where
  "c_base16_decode_loop 0 index data output = Some output"
| "c_base16_decode_loop (Suc n) index data output = do {
     (n0, n1) \<leftarrow> base16_pair data index;
     output \<leftarrow> arr_set output index (push_bit 4 n0 + n1);
     c_base16_decode_loop n (Suc index) data output
   }"

definition c_base16_decode :: "bytes \<Rightarrow> mrb_value \<Rightarrow> mrb_value rb_result option" where
  "c_base16_decode mem input =
     (case input of
        VStr data \<Rightarrow> map_option (Inr \<circ> VStr)
          (c_base16_decode_loop (base16_out_size data) 0 data (alloc mem (base16_out_size data)))
      | _ \<Rightarrow> Some (Inl (TypeError ''wrong type of argument'')))"

section \<open>Base64\<close>

definition base64chars :: bytes where
  "base64chars = map of_nat ([65..<91] @ [97..<123] @ [48..<58] @ [43, 47])"

definition base64_convert :: "u8 \<Rightarrow> u8" where
  "base64_convert n =
     (if 0x30 \<le> n \<and> n \<le> 0x39 then n + 4
      else if 0x41 \<le> n \<and> n \<le> 0x5a then n - 65
      else if 0x61 \<le> n \<and> n \<le> 0x7a then n - 71
      else if n = 0x2b then 62
      else if n = 0x2f then 63
      else 0)"

text \<open>The four characters of a group; the code computes all of them, also when the group is short.\<close>

definition base64_group :: "u32 \<Rightarrow> (u8 \<times> u8 \<times> u8 \<times> u8) option" where
  "base64_group n = do {
     let n0 = (ucast (drop_bit 18 n) :: u8) AND 63;
     let n1 = (ucast (drop_bit 12 n) :: u8) AND 63;
     let n2 = (ucast (drop_bit 6 n) :: u8) AND 63;
     let n3 = (ucast n :: u8) AND 63;
     a \<leftarrow> arr_get base64chars (unat n0);
     b \<leftarrow> arr_get base64chars (unat n1);
     c \<leftarrow> arr_get base64chars (unat n2);
     d \<leftarrow> arr_get base64chars (unat n3);
     Some (a, b, c, d)
   }"

text \<open>The 24 bits of a group of up to three bytes, missing ones read as 0.\<close>

definition base64_word :: "bytes \<Rightarrow> u32" where
  "base64_word g =
     (let n = push_bit 16 (ucast (g ! 0));
          n = (if 1 < length g then n + push_bit 8 (ucast (g ! 1)) else n)
      in if 2 < length g then n + ucast (g ! 2) else n)"

text \<open>The loops take three bytes at a time: \<open>data\<close> is the rest of the input.\<close>

function mrb_base64_encode_loop :: "bytes \<Rightarrow> bytes \<Rightarrow> bytes option" where
  "mrb_base64_encode_loop data output =
     (if data = [] then Some output
      else do {
        (a, b, c, d) \<leftarrow> base64_group (base64_word data);
        mrb_base64_encode_loop (drop 3 data) (mrb_str_cat_cstr output
          [a, b, if 1 < length data then c else 61, if 2 < length data then d else 61, 0])
      })"
  by pat_completeness auto
termination by (relation "measure (length \<circ> fst)") auto

definition mrb_base64_s_encode :: "bytes \<Rightarrow> bytes option" where
  "mrb_base64_s_encode data = mrb_base64_encode_loop data []"

function c_base64_encode_loop :: "bytes \<Rightarrow> nat \<Rightarrow> bytes \<Rightarrow> (nat \<times> bytes) option" where
  "c_base64_encode_loop data out_index output =
     (if data = [] then Some (out_index, output)
      else do {
        (a, b, c, d) \<leftarrow> base64_group (base64_word data);
        let run = [a, b] @ (if 1 < length data then [c] else []) @ (if 2 < length data then [d] else []);
        output \<leftarrow> store_run out_index run output;
        c_base64_encode_loop (drop 3 data) (out_index + length run) output
      })"
  by pat_completeness auto
termination by (relation "measure (length \<circ> fst)") auto

definition base64_padding :: "nat \<Rightarrow> bytes" where
  "base64_padding in_size = (let padding = in_size mod 3 in if 0 < padding then replicate (3 - padding) 61 else [])"

definition c_base64_encode :: "bytes \<Rightarrow> mrb_value \<Rightarrow> mrb_value rb_result option" where
  "c_base64_encode mem input =
     (case input of
        VStr data \<Rightarrow> do {
          let out_size = (length data + 2) div 3 * 4 + 1;
          (out_index, output) \<leftarrow> c_base64_encode_loop data 0 (alloc mem out_size);
          output \<leftarrow> store_run out_index (base64_padding (length data)) output;
          Some (Inr (VStr (take (out_size - 1) output)))
        }
      | _ \<Rightarrow> Some (Inl (TypeError ''wrong type of argument'')))"

text \<open>The state of the decoders: collected bits, number of collected characters, output.\<close>

fun mrb_base64_decode_loop :: "bytes \<Rightarrow> u32 \<Rightarrow> nat \<Rightarrow> bytes \<Rightarrow> rb_error + (u32 \<times> nat \<times> bytes)" where
  "mrb_base64_decode_loop [] buf iter output = Inr (buf, iter, output)"
| "mrb_base64_decode_loop (x # data) buf iter output =
     (if x = 61 then Inr (buf, iter, output)
      else let c = base64_convert x in
      if c = 255 then Inl (ArgumentError ''Invalid base64 character'')
      else let buf = push_bit 6 buf OR ucast c; iter = iter + 1 in
      if iter = 4 then mrb_base64_decode_loop data 0 0
        (output @ [ucast (drop_bit 16 buf), ucast (drop_bit 8 buf), ucast buf])
      else mrb_base64_decode_loop data buf iter output)"

definition base64_rest :: "u32 \<Rightarrow> nat \<Rightarrow> bytes" where
  "base64_rest buf iter =
     (if iter = 3 then [ucast (drop_bit 10 buf), ucast (drop_bit 2 buf)]
      else if iter = 2 then [ucast (drop_bit 4 buf)] else [])"

definition mrb_base64_s_decode :: "bytes \<Rightarrow> bytes rb_result" where
  "mrb_base64_s_decode data =
     (case mrb_base64_decode_loop data 0 0 [] of
        Inl e \<Rightarrow> Inl e
      | Inr (buf, iter, output) \<Rightarrow> Inr (output @ base64_rest buf iter))"

fun c_base64_decode_loop :: "bytes \<Rightarrow> u32 \<Rightarrow> nat \<Rightarrow> nat \<Rightarrow> bytes \<Rightarrow> (u32 \<times> nat \<times> nat \<times> bytes) option" where
  "c_base64_decode_loop [] buf iter out_index output = Some (buf, iter, out_index, output)"
| "c_base64_decode_loop (x # data) buf iter out_index output =
     (if x = 61 then Some (buf, iter, out_index, output)
      else let buf = push_bit 6 buf OR ucast (base64_convert x); iter = iter + 1 in
      if iter = 4 then do {
        output \<leftarrow> store_run out_index [ucast (drop_bit 16 buf), ucast (drop_bit 8 buf), ucast buf] output;
        c_base64_decode_loop data 0 0 (out_index + 3) output
      }
      else c_base64_decode_loop data buf iter out_index output)"

definition c_base64_decode :: "bytes \<Rightarrow> mrb_value \<Rightarrow> mrb_value rb_result option" where
  "c_base64_decode mem input =
     (case input of
        VStr data \<Rightarrow> do {
          (buf, iter, out_index, output) \<leftarrow>
            c_base64_decode_loop data 0 0 0 (alloc mem ((length data + 3) div 4 * 3 + 1));
          let run = base64_rest buf iter;
          output \<leftarrow> store_run out_index run output;
          Some (Inr (VStr (take (out_index + length run) output)))
        }
      | _ \<Rightarrow> Some (Inl (TypeError ''wrong type of argument'')))"

section \<open>CRC-32\<close>

definition crc_shift :: "u32 \<Rightarrow> u32" where
  "crc_shift crc_value =
     (if crc_value AND 1 \<noteq> 0 then drop_bit 1 crc_value XOR 0xEDB88320 else drop_bit 1 crc_value)"

definition crc_byte :: "u32 \<Rightarrow> u8 \<Rightarrow> u32" where
  "crc_byte crc_value b = (crc_shift ^^ 8) (crc_value XOR ucast b)"

definition generate_crc32 :: "bytes \<Rightarrow> u32 \<Rightarrow> u32" where
  "generate_crc32 str crc = NOT (foldl crc_byte (NOT crc) str)"

text \<open>Optional arguments that are not given are \<open>None\<close>. \<open>bytes_at a n\<close> is the memory of the machine.\<close>

definition mrb_crc_s_crc32 :: "bytes option \<Rightarrow> int option \<Rightarrow> mrb_value" where
  "mrb_crc_s_crc32 string crc =
     (case string of None \<Rightarrow> VInt 0
      | Some str \<Rightarrow> VInt (uint (generate_crc32 str (word_of_int (case crc of None \<Rightarrow> 0 | Some c \<Rightarrow> c)))))"

definition mrb_crc_s_crc32_from_address ::
    "(u32 \<Rightarrow> nat \<Rightarrow> bytes) \<Rightarrow> int \<Rightarrow> int \<Rightarrow> int option \<Rightarrow> mrb_value rb_result" where
  "mrb_crc_s_crc32_from_address bytes_at address len crc =
     (if address = 0 then Inl (ArgumentError ''Address must not be NULL'')
      else Inr (VInt (uint (generate_crc32 (bytes_at (word_of_int address) (unat (word_of_int len :: u32)))
        (word_of_int (case crc of None \<Rightarrow> 0 | Some c \<Rightarrow> c))))))"

text \<open>An integer of mruby/c has 32 bits: the checksum comes back as a signed number.\<close>

definition c_crc_crc32 :: "mrb_value list \<Rightarrow> mrb_value rb_result option" where
  "c_crc_crc32 args = do {
     string \<leftarrow> arr_get args 0;
     crc \<leftarrow> (if length args < 2 then Some 0 else case args ! 1 of VInt c \<Rightarrow> Some c | _ \<Rightarrow> None);
     Some (case string of
        VNil \<Rightarrow> Inr (VInt 0)
      | VStr str \<Rightarrow> Inr (VInt (sint (generate_crc32 str (word_of_int crc))))
      | _ \<Rightarrow> Inl (TypeError ''Expected a String type for the first argument''))
   }"

definition c_crc_crc32_from_address :: "(u32 \<Rightarrow> nat \<Rightarrow> bytes) \<Rightarrow> int list \<Rightarrow> mrb_value rb_result option" where
  "c_crc_crc32_from_address bytes_at args = do {
     address \<leftarrow> arr_get args 0;
     (if (word_of_int address :: u32) = 0 then Some (Inl (ArgumentError ''Address must not be NULL''))
      else do {
        len \<leftarrow> arr_get args 1;
        let crc = (if length args < 3 then 0 else args ! 2);
        Some (Inr (VInt (sint (generate_crc32 (bytes_at (word_of_int address) (unat (word_of_int len :: u32)))
          (word_of_int crc)))))
      })
   }"

end
