(* ===== verification/CodecProps.thy ===== *)
theory CodecProps
  imports Codec
begin

text \<open>
  Properties of the codecs: round trips, agreement of the two virtual machines, absence of
  stores out of bounds, and what the checksum detects.
\<close>

section \<open>Stores into arrays\<close>

lemma store_run_spec:
  "i + length bs \<le> length out \<Longrightarrow> store_run i bs out = Some (take i out @ bs @ drop (i + length bs) out)"
proof (induction bs arbitrary: i out)
  case Nil
  then show ?case by simp
next
  case (Cons b bs)
  then have i: "i < length out" by simp
  have "store_run (Suc i) bs (out[i := b]) =
      Some (take (Suc i) (out[i := b]) @ bs @ drop (Suc i + length bs) (out[i := b]))"
    using Cons.prems by (intro Cons.IH) simp
  moreover have "take (Suc i) (out[i := b]) = take i out @ [b]"
    using i by (simp add: take_Suc_conv_app_nth)
  ultimately show ?case using i by simp
qed

lemma length_alloc [simp]: "length (alloc mem n) = n"
  by (simp add: alloc_def)

section \<open>Base16\<close>

definition enc16 :: "u8 \<Rightarrow> bytes" where
  "enc16 n = [base16chars ! unat (drop_bit 4 n AND 15), base16chars ! unat (n AND 15)]"

lemma length_base16chars [simp]: "length base16chars = 16"
  by (simp add: base16chars_def)

lemma unat_and_15: "unat ((n :: u8) AND 15) < 16"
proof -
  have "n AND 15 \<le> 15" by (rule word_and_le1)
  then have "unat (n AND 15) \<le> 15" by (simp add: word_le_nat_alt)
  then show ?thesis by simp
qed

lemma all_base16: "\<forall>i\<in>set [0..<16]. base16_convert (base16chars ! i) = of_nat i \<and> base16chars ! i \<noteq> 0"
  by (simp add: base16_convert_def base16chars_def upt_rec)

lemma convert_base16:
  "base16_convert (base16chars ! unat (n AND 15)) = n AND 15" "base16chars ! unat ((n :: u8) AND 15) \<noteq> 0"
  using all_base16 unat_and_15 [of n] by auto

lemma nibbles: "push_bit 4 (drop_bit 4 n AND 15) OR (n AND 15) = (n :: u8)"
  "push_bit 4 (drop_bit 4 n AND 15) + (n AND 15) = (n :: u8)"
proof -
  have m: "(15 :: u8) = mask 4" by (simp add: mask_eq_exp_minus_1)
  show "push_bit 4 (drop_bit 4 n AND 15) OR (n AND 15) = n"
    unfolding m by (rule bit_word_eqI) (auto simp: bit_or_iff bit_push_bit_iff bit_and_iff bit_drop_bit_eq bit_mask_iff)
  moreover have "push_bit 4 (drop_bit 4 n AND 15) + (n AND 15) = push_bit 4 (drop_bit 4 n AND 15) OR (n AND 15)"
    unfolding m by (rule disjunctive_add) (auto simp: bit_push_bit_iff bit_and_iff bit_mask_iff)
  ultimately show "push_bit 4 (drop_bit 4 n AND 15) + (n AND 15) = n" by simp
qed

lemma mrb_encode_spec: "mrb_base16_s_encode xs = Some (concat (map enc16 xs))"
proof -
  have "mrb_base16_encode_loop xs out = Some (out @ concat (map enc16 xs))" for out
    by (induction xs arbitrary: out)
      (auto simp: unat_and_15 mrb_str_cat_cstr_def enc16_def convert_base16)
  then show ?thesis by (simp add: mrb_base16_s_encode_def)
qed

lemma c_encode_loop_spec:
  "length out = 2 * (i + length xs) \<Longrightarrow>
   c_base16_encode_loop xs i out = Some (take (2 * i) out @ concat (map enc16 xs))"
proof (induction xs arbitrary: i out)
  case Nil
  then show ?case by simp
next
  case (Cons x xs)
  let ?a = "base16chars ! unat (drop_bit 4 x AND 15)" and ?b = "base16chars ! unat (x AND 15)"
  let ?out = "out[i * 2 := ?a, i * 2 + 1 := ?b]"
  have "take (2 * Suc i) ?out = take (2 * i) out @ [?a, ?b]"
    using Cons.prems by (simp add: take_Suc_conv_app_nth mult.commute)
  then show ?case
    using Cons.IH [of ?out "Suc i"] Cons.prems by (simp add: unat_and_15 enc16_def)
qed

lemma enc16_length: "length (concat (map enc16 xs)) = 2 * length xs"
  by (induction xs) (auto simp: enc16_def)

lemma enc16_nth:
  "i < length xs \<Longrightarrow> concat (map enc16 xs) ! (2 * i) = base16chars ! unat (drop_bit 4 (xs ! i) AND 15) \<and>
     concat (map enc16 xs) ! (Suc (2 * i)) = base16chars ! unat (xs ! i AND 15)"
  by (induction xs arbitrary: i) (auto simp: enc16_def nth_Cons split: nat.splits)

lemma base16_pair_enc:
  assumes "i < length xs"
  shows "base16_pair (concat (map enc16 xs)) i = Some (drop_bit 4 (xs ! i) AND 15, xs ! i AND 15)"
  using enc16_nth [OF assms] assms
  by (simp add: base16_pair_def enc16_length mult.commute [of i] convert_base16)

lemma mrb_decode_loop_enc:
  "i + n = length xs \<Longrightarrow> mrb_base16_decode_loop n i (concat (map enc16 xs)) out =
     Some (out @ filter (\<lambda>b. b \<noteq> 0) (drop i xs))"
proof (induction n arbitrary: i out)
  case 0
  then show ?case by simp
next
  case (Suc n)
  then have "drop i xs = xs ! i # drop (Suc i) xs" by (simp add: Cons_nth_drop_Suc)
  with Suc base16_pair_enc [of i xs] show ?case by (simp add: mrb_str_cat_cstr_def nibbles [simplified])
qed

lemma c_decode_loop_enc:
  "i + n = length xs \<Longrightarrow> length out = length xs \<Longrightarrow>
   c_base16_decode_loop n i (concat (map enc16 xs)) out = Some (take i out @ drop i xs)"
proof (induction n arbitrary: i out)
  case 0
  then show ?case by simp
next
  case (Suc n)
  then have "drop i xs = xs ! i # drop (Suc i) xs" "take (Suc i) (out[i := xs ! i]) = take i out @ [xs ! i]"
    by (simp_all add: Cons_nth_drop_Suc take_Suc_conv_app_nth)
  with Suc base16_pair_enc [of i xs] show ?case by (simp add: nibbles [simplified])
qed

lemma base16_out_size_enc: "base16_out_size (concat (map enc16 xs)) = length xs"
  by (simp add: base16_out_size_def enc16_length)

text \<open>Base16 round trip. Both virtual machines encode alike; mruby/c decodes what was encoded.
  The mruby decoder appends each byte as a C string and so loses the zero bytes.\<close>

theorem base16_roundtrip:
  "\<exists>cs. mrb_base16_s_encode xs = Some cs \<and> c_base16_encode mem (VStr xs) = Some (Inr (VStr cs)) \<and>
     c_base16_decode mem' (VStr cs) = Some (Inr (VStr xs)) \<and>
     mrb_base16_s_decode cs = Some (filter (\<lambda>b. b \<noteq> 0) xs)"
proof -
  let ?cs = "concat (map enc16 xs)"
  have "c_base16_encode mem (VStr xs) = Some (Inr (VStr ?cs))"
    using c_encode_loop_spec [of "alloc mem (length xs * 2)" 0 xs] by (simp add: c_base16_encode_def)
  moreover have "c_base16_decode mem' (VStr ?cs) = Some (Inr (VStr xs))"
    using c_decode_loop_enc [of 0 "length xs" xs "alloc mem' (length xs)"]
    by (simp add: c_base16_decode_def base16_out_size_enc)
  moreover have "mrb_base16_s_decode ?cs = Some (filter (\<lambda>b. b \<noteq> 0) xs)"
    using mrb_decode_loop_enc [of 0 "length xs" xs "[]"]
    by (simp add: mrb_base16_s_decode_def base16_out_size_enc)
  ultimately show ?thesis using mrb_encode_spec by blast
qed
section \<open>Base64\<close>

definition char64 :: "u8 \<Rightarrow> u8" where
  "char64 n = base64chars ! unat (n AND 63)"

lemma length_base64chars [simp]: "length base64chars = 64"
  by (simp add: base64chars_def)

lemma unat_and_63: "unat ((n :: u8) AND 63) < 64"
proof -
  have "n AND 63 \<le> 63" by (rule word_and_le1)
  then have "unat (n AND 63) \<le> 63" by (simp add: word_le_nat_alt)
  then show ?thesis by simp
qed

lemma all_base64: "\<forall>i\<in>set [0..<64]. base64_convert (base64chars ! i) = of_nat i \<and>
    base64chars ! i \<noteq> 0 \<and> base64chars ! i \<noteq> 61"
  by (simp add: base64chars_def upt_rec base64_convert_def)

lemma convert_base64: "base64_convert (char64 n) = n AND 63" "char64 n \<noteq> 0" "char64 n \<noteq> 61"
  using all_base64 unat_and_63 [of n] by (auto simp: char64_def)

lemma and_63_neq_255: "(n :: u8) AND 63 \<noteq> 255"
proof
  assume "n AND 63 = 255"
  moreover have "n AND 63 \<le> 63" by (rule word_and_le1)
  ultimately show False by simp
qed

lemma base64_group_chars:
  "base64_group n = Some (char64 (ucast (drop_bit 18 n)), char64 (ucast (drop_bit 12 n)),
     char64 (ucast (drop_bit 6 n)), char64 (ucast n))"
  by (simp add: base64_group_def char64_def unat_and_63)

lemma convert_le_63: "base64_convert x \<noteq> 255"
  unfolding base64_convert_def by (auto simp: word_le_nat_alt; unat_arith)
definition chars64 :: "bytes \<Rightarrow> bytes" where
  "chars64 g = (let n = base64_word g in
     [char64 (ucast (drop_bit 18 n)), char64 (ucast (drop_bit 12 n)), char64 (ucast (drop_bit 6 n)), char64 (ucast n)])"

text \<open>The encoding without and with padding.\<close>

fun enc64u :: "bytes \<Rightarrow> bytes" where
  "enc64u [] = []"
| "enc64u [x] = take 2 (chars64 [x])"
| "enc64u [x, y] = take 3 (chars64 [x, y])"
| "enc64u (x # y # z # xs) = chars64 [x, y, z] @ enc64u xs"

definition enc64 :: "bytes \<Rightarrow> bytes" where
  "enc64 xs = enc64u xs @ base64_padding (length xs)"

lemma base64_word_group: "base64_word (x # y # z # xs) = base64_word [x, y, z]"
  by (simp add: base64_word_def)

lemma padding_simps [simp]:
  "base64_padding 0 = []" "base64_padding (Suc 0) = [61, 61]" "base64_padding (Suc (Suc 0)) = [61]"
  "base64_padding (Suc (Suc (Suc n))) = base64_padding n"
proof -
  have "Suc (Suc (Suc n)) mod 3 = n mod 3" by presburger
  then show "base64_padding (Suc (Suc (Suc n))) = base64_padding n" by (simp only: base64_padding_def)
qed (simp_all add: base64_padding_def numeral_2_eq_2)

declare mrb_base64_encode_loop.simps [simp del] c_base64_encode_loop.simps [simp del]

lemma mrb_encode64_step:
  "mrb_base64_encode_loop (x # xs) out = mrb_base64_encode_loop (drop 2 xs) (out @
     (let cs = chars64 (x # xs) in [cs ! 0, cs ! 1, if xs = [] then 61 else cs ! 2, if length xs < 2 then 61 else cs ! 3]))"
proof -
  have "drop 3 (x # xs) = drop 2 xs" by (simp add: numeral_3_eq_3 numeral_2_eq_2)
  then show ?thesis
    by (subst mrb_base64_encode_loop.simps)
      (auto simp: base64_group_chars mrb_str_cat_cstr_def chars64_def Let_def convert_base64 not_less)
qed

lemma mrb_encode64_loop_Nil: "mrb_base64_encode_loop [] out = Some out"
  by (subst mrb_base64_encode_loop.simps) simp

lemma chars64_list: "\<exists>a b c d. chars64 g = [a, b, c, d]"
  by (simp add: chars64_def Let_def)

lemma length_chars64 [simp]: "length (chars64 g) = 4"
  by (simp add: chars64_def Let_def)

lemma chars64_group: "chars64 (x # y # z # xs) = chars64 [x, y, z]"
  by (simp only: chars64_def base64_word_group [of x y z xs])

lemma mrb_encode64_loop_spec: "mrb_base64_encode_loop xs out = Some (out @ enc64 xs)"
proof (induction xs arbitrary: out rule: enc64u.induct)
  case 1
  show ?case by (simp add: mrb_encode64_loop_Nil enc64_def)
next
  case (2 x)
  obtain a b c d where "chars64 [x] = [a, b, c, d]" using chars64_list by blast
  then show ?case by (simp add: mrb_encode64_step mrb_encode64_loop_Nil enc64_def)
next
  case (3 x y)
  obtain a b c d where "chars64 [x, y] = [a, b, c, d]" using chars64_list by blast
  then show ?case by (simp add: mrb_encode64_step mrb_encode64_loop_Nil enc64_def)
next
  case (4 x y z xs)
  obtain a b c d where "chars64 [x, y, z] = [a, b, c, d]" using chars64_list by blast
  with 4 show ?case by (simp add: mrb_encode64_step enc64_def chars64_group [of x y z xs])
qed

lemma c_encode64_step:
  assumes "i + n \<le> length out" "n = (if xs = [] then 2 else if length xs < 2 then 3 else 4)"
  shows "c_base64_encode_loop (x # xs) i out =
    c_base64_encode_loop (drop 2 xs) (i + n) (take i out @ take n (chars64 (x # xs)) @ drop (i + n) out)"
proof -
  have d: "drop 3 (x # xs) = drop 2 xs" by (simp add: numeral_3_eq_3 numeral_2_eq_2)
  obtain a b c e where cs: "chars64 (x # xs) = [a, b, c, e]" using chars64_list by blast
  then have g: "base64_group (base64_word (x # xs)) = Some (a, b, c, e)"
    by (simp add: base64_group_chars chars64_def Let_def)
  have run: "[a, b] @ (if 1 < length (x # xs) then [c] else []) @ (if 2 < length (x # xs) then [e] else []) =
      take n (chars64 (x # xs))"
    using assms(2) by (auto simp: cs not_less)
  have "length (take n (chars64 (x # xs))) = n" using assms(2) by simp
  moreover from this have "store_run i (take n (chars64 (x # xs))) out =
      Some (take i out @ take n (chars64 (x # xs)) @ drop (i + n) out)"
    using store_run_spec [of i "take n (chars64 (x # xs))" out] assms(1) by simp
  ultimately show ?thesis
    by (subst c_base64_encode_loop.simps) (simp only: g d run bind.simps Let_def prod.case list.distinct if_False)
qed

lemma c_encode64_loop_Nil: "c_base64_encode_loop [] i out = Some (i, out)"
  by (subst c_base64_encode_loop.simps) simp

lemma c_encode64_loop_spec:
  "i + length (enc64u xs) \<le> length out \<Longrightarrow> c_base64_encode_loop xs i out =
     Some (i + length (enc64u xs), take i out @ enc64u xs @ drop (i + length (enc64u xs)) out)"
proof (induction xs arbitrary: i out rule: enc64u.induct)
  case 1
  then show ?case by (simp add: c_encode64_loop_Nil)
next
  case (2 x)
  then show ?case using c_encode64_step [of i 2 out "[]" x] by (simp add: c_encode64_loop_Nil)
next
  case (3 x y)
  then show ?case using c_encode64_step [of i 3 out "[y]" x] by (simp add: c_encode64_loop_Nil)
next
  case (4 x y z xs)
  then show ?case using c_encode64_step [of i 4 out "y # z # xs" x] by (simp add: chars64_group [of x y z xs] ac_simps)
qed

lemma length_enc64: "length (enc64u xs) + length (base64_padding (length xs)) = (length xs + 2) div 3 * 4"
proof (induction xs rule: enc64u.induct)
  case (4 x y z xs)
  have "(length (x # y # z # xs) + 2) div 3 = Suc ((length xs + 2) div 3)" by simp
  with 4 show ?case by simp
qed simp_all

lemma c_encode64_spec: "c_base64_encode mem (VStr xs) = Some (Inr (VStr (enc64 xs)))"
proof -
  let ?n = "(length xs + 2) div 3 * 4 + 1" and ?u = "enc64u xs" and ?p = "base64_padding (length xs)"
  have len: "length ?u + length ?p = ?n - 1" using length_enc64 by simp
  let ?out = "?u @ drop (length ?u) (alloc mem ?n)"
  have "c_base64_encode_loop xs 0 (alloc mem ?n) = Some (length ?u, ?out)"
    using c_encode64_loop_spec [of 0 xs "alloc mem ?n"] len by simp
  moreover have "store_run (length ?u) ?p ?out = Some (?u @ ?p @ drop (length ?u + length ?p) ?out)"
    using len by (subst store_run_spec) auto
  ultimately show ?thesis
    using len by (simp add: c_base64_encode_def enc64_def Let_def)
qed
text \<open>Decoding a group of four characters.\<close>

lemma dec_step:
  "iter < 3 \<Longrightarrow> mrb_base64_decode_loop (char64 n # cs) buf iter out =
     mrb_base64_decode_loop cs (push_bit 6 buf OR ucast (n AND 63)) (Suc iter) out"
  by (simp add: convert_base64 and_63_neq_255)
definition w3 :: "u8 \<Rightarrow> u8 \<Rightarrow> u8 \<Rightarrow> u32" where
  "w3 x y z = push_bit 16 (ucast x) OR push_bit 8 (ucast y) OR ucast z"

lemma add_is_or:
  "push_bit 16 (ucast (x :: u8)) + push_bit 8 (ucast (y :: u8)) = (push_bit 16 (ucast x) OR push_bit 8 (ucast y) :: u32)"
  "w3 x y 0 + ucast (z :: u8) = w3 x y z"
proof -
  show "push_bit 16 (ucast x) + push_bit 8 (ucast y) = (push_bit 16 (ucast x) OR push_bit 8 (ucast y) :: u32)"
    by (rule disjunctive_add) (auto simp: bit_push_bit_iff bit_ucast_iff dest: bit_imp_le_length)
  have "w3 x y 0 + ucast z = w3 x y 0 OR ucast z"
    by (rule disjunctive_add) (auto simp: w3_def bit_or_iff bit_push_bit_iff bit_ucast_iff dest: bit_imp_le_length)
  then show "w3 x y 0 + ucast z = w3 x y z" by (simp add: w3_def or.assoc)
qed

lemma base64_word_w3:
  "base64_word [x, y, z] = w3 x y z" "base64_word [x, y] = w3 x y 0" "base64_word [x] = w3 x 0 0"
proof -
  show "base64_word [x, y] = w3 x y 0" "base64_word [x] = w3 x 0 0"
    by (simp_all add: base64_word_def add_is_or(1)) (simp_all add: w3_def)
  show "base64_word [x, y, z] = w3 x y z"
    using add_is_or(2) [of x y z] by (simp add: base64_word_def add_is_or(1) w3_def)
qed

lemma high_bit: "8 \<le> k \<Longrightarrow> \<not> bit (v :: u8) k"
  using bit_imp_le_length [of v k] by auto

lemma w3_bytes:
  "ucast (drop_bit 16 (w3 x y z)) = x" "ucast (drop_bit 8 (w3 x y z)) = y" "ucast (w3 x y z) = z"
  "take_bit 24 (w3 x y z) = w3 x y z"
  by (auto intro!: bit_word_eqI simp: w3_def bit_or_iff bit_push_bit_iff bit_ucast_iff bit_drop_bit_eq bit_take_bit_iff high_bit)

lemma six_bits: "(ucast ((ucast (w :: u32) :: u8) AND 63) :: u32) = take_bit 6 w"
proof -
  have m: "(63 :: u8) = mask 6" by (simp add: mask_eq_exp_minus_1)
  show ?thesis unfolding m
    by (rule bit_word_eqI) (auto simp: bit_ucast_iff bit_and_iff bit_mask_iff bit_take_bit_iff)
qed

lemma next_six: "push_bit 6 (drop_bit (k + 6) w) OR take_bit 6 (drop_bit k w) = drop_bit k (w :: u32)"
proof -
  have "push_bit 6 (drop_bit 6 v) OR take_bit 6 v = v" for v :: u32
    by (rule bit_word_eqI) (auto simp: bit_or_iff bit_push_bit_iff bit_drop_bit_eq bit_take_bit_iff)
  from this [of "drop_bit k w"] show ?thesis by (simp add: add.commute)
qed

lemma collect_six:
  assumes "take_bit 24 n = (n :: u32)"
  shows "push_bit 6 0 OR take_bit 6 (drop_bit 18 n) = drop_bit 18 n"
    "push_bit 6 (drop_bit 18 n) OR take_bit 6 (drop_bit 12 n) = drop_bit 12 n"
    "push_bit 6 (drop_bit 12 n) OR take_bit 6 (drop_bit 6 n) = drop_bit 6 n"
    "push_bit 6 (drop_bit 6 n) OR take_bit 6 n = n"
proof -
  have "take_bit 6 (drop_bit 18 n) = drop_bit 18 (take_bit 24 n)" by (simp add: take_bit_drop_bit)
  then show "push_bit 6 0 OR take_bit 6 (drop_bit 18 n) = drop_bit 18 n" by (simp add: assms)
qed (use next_six [of 12 n] next_six [of 6 n] next_six [of 0 n] in simp_all)

lemma char_61: "mrb_base64_decode_loop (61 # cs) buf iter out = Inr (buf, iter, out)"
  by simp

declare mrb_base64_decode_loop.simps(2) [simp del]

lemma dec_groups:
  assumes n: "base64_word g = n" "take_bit 24 n = n"
  shows "mrb_base64_decode_loop (take 2 (chars64 g) @ cs) 0 0 out =
      mrb_base64_decode_loop cs (drop_bit 12 n) 2 out"
    "mrb_base64_decode_loop (take 3 (chars64 g) @ cs) 0 0 out =
      mrb_base64_decode_loop cs (drop_bit 6 n) 3 out"
    "mrb_base64_decode_loop (chars64 g @ cs) 0 0 out =
      mrb_base64_decode_loop cs 0 0 (out @ [ucast (drop_bit 16 n), ucast (drop_bit 8 n), ucast n])"
proof -
  note c = collect_six [OF n(2)]
  have one: "mrb_base64_decode_loop (char64 (ucast (drop_bit 18 n)) # ds) 0 0 out =
      mrb_base64_decode_loop ds (drop_bit 18 n) 1 out" for ds
    by (subst dec_step) (simp_all add: six_bits c(1) [simplified])
  have two: "mrb_base64_decode_loop (char64 (ucast (drop_bit 12 n)) # ds) (drop_bit 18 n) 1 out =
      mrb_base64_decode_loop ds (drop_bit 12 n) 2 out" for ds
    by (subst dec_step) (simp_all only: six_bits c(2), simp_all add: numeral_2_eq_2)
  have three: "mrb_base64_decode_loop (char64 (ucast (drop_bit 6 n)) # ds) (drop_bit 12 n) 2 out =
      mrb_base64_decode_loop ds (drop_bit 6 n) 3 out" for ds
    by (subst dec_step) (simp_all only: six_bits c(3), simp_all)
  show "mrb_base64_decode_loop (take 2 (chars64 g) @ cs) 0 0 out =
      mrb_base64_decode_loop cs (drop_bit 12 n) 2 out"
    "mrb_base64_decode_loop (take 3 (chars64 g) @ cs) 0 0 out =
      mrb_base64_decode_loop cs (drop_bit 6 n) 3 out"
    by (simp_all add: chars64_def n(1) Let_def one two [simplified] three)
  have "mrb_base64_decode_loop (char64 (ucast n) # cs) (drop_bit 6 n) 3 out =
      mrb_base64_decode_loop cs 0 0 (out @ [ucast (drop_bit 16 n), ucast (drop_bit 8 n), ucast n])"
    by (simp add: mrb_base64_decode_loop.simps(2) convert_base64 and_63_neq_255 six_bits c(4) Let_def)
  then show "mrb_base64_decode_loop (chars64 g @ cs) 0 0 out =
      mrb_base64_decode_loop cs 0 0 (out @ [ucast (drop_bit 16 n), ucast (drop_bit 8 n), ucast n])"
    by (simp add: chars64_def n(1) Let_def one two [simplified] three)
qed

lemma decode_enc64:
  "case mrb_base64_decode_loop (enc64 xs) 0 0 out of Inl e \<Rightarrow> False
   | Inr (buf, iter, out') \<Rightarrow> out' @ base64_rest buf iter = out @ xs"
proof (induction xs arbitrary: out rule: enc64u.induct)
  case 1
  show ?case by (simp add: enc64_def base64_rest_def)
next
  case (2 x)
  show ?case
    using dec_groups(1) [OF base64_word_w3(3) [of x] w3_bytes(4), where cs = "[61, 61]" and out = out] w3_bytes(1) [of x 0 0]
    by (simp add: enc64_def char_61 base64_rest_def)
next
  case (3 x y)
  show ?case
    using dec_groups(2) [OF base64_word_w3(2) [of x y] w3_bytes(4), where cs = "[61]" and out = out] w3_bytes(1,2) [of x y 0]
    by (simp add: enc64_def char_61 base64_rest_def)
next
  case (4 x y z xs)
  show ?case
    using dec_groups(3) [OF base64_word_w3(1) [of x y z] w3_bytes(4), where cs = "enc64 xs" and out = out] 4 [of "out @ [x, y, z]"]
    by (simp add: enc64_def w3_bytes split: sum.splits prod.splits)
qed

text \<open>C13: Base64 round trip: both virtual machines encode alike, and the mruby decoder gives the bytes
  that were encoded, without an error.\<close>

theorem base64_roundtrip:
  "\<exists>cs. mrb_base64_s_encode xs = Some cs \<and> c_base64_encode mem (VStr xs) = Some (Inr (VStr cs)) \<and>
     length cs = (length xs + 2) div 3 * 4 \<and> mrb_base64_s_decode cs = Inr xs"
proof -
  have "mrb_base64_s_decode (enc64 xs) = Inr xs"
    using decode_enc64 [where xs = xs and out = "[]"] by (auto simp: mrb_base64_s_decode_def split: sum.splits)
  then show ?thesis
    using mrb_encode64_loop_spec [of xs "[]"] c_encode64_spec [of mem xs] length_enc64 [of xs]
    by (auto simp: mrb_base64_s_encode_def enc64_def)
qed
declare store_run.simps [simp del]

lemma decode_loops_agree:
  "iter < 4 \<Longrightarrow> 4 * i + 3 * (iter + length cs) \<le> 4 * length arr \<Longrightarrow>
   \<exists>buf' iter' ds. mrb_base64_decode_loop cs buf iter out = Inr (buf', iter', out @ ds) \<and>
     c_base64_decode_loop cs buf iter i arr =
       Some (buf', iter', i + length ds, take i arr @ ds @ drop (i + length ds) arr) \<and>
     4 * length ds + 3 * iter' \<le> 3 * (iter + length cs)"
proof (induction cs arbitrary: buf iter i arr out)
  case Nil
  then show ?case by simp
next
  case (Cons x cs)
  let ?buf = "push_bit 6 buf OR ucast (base64_convert x)"
  show ?case
  proof (cases "x = 61")
    case True
    then show ?thesis by (simp add: mrb_base64_decode_loop.simps)
  next
    case False
    show ?thesis
    proof (cases "iter = 3")
      case True
      define run :: bytes where "run = [ucast (drop_bit 16 ?buf), ucast (drop_bit 8 ?buf), ucast ?buf]"
      have len: "length run = 3" by (simp add: run_def)
      define arr' where "arr' = take i arr @ run @ drop (i + 3) arr"
      have fits: "i + 3 \<le> length arr" using Cons.prems(2) True by simp
      have store: "store_run i run arr = Some arr'"
        using fits len by (subst store_run_spec) (simp_all add: arr'_def)
      have arr': "length arr' = length arr" "take (i + 3) arr' = take i arr @ run" "drop (i + 3 + n) arr' = drop (i + 3 + n) arr" for n
        using fits len by (simp_all add: arr'_def ac_simps)
      have "4 * (i + 3) + 3 * (0 + length cs) \<le> 4 * length arr'" using Cons.prems(2) True arr'(1) by simp
      then obtain buf' iter' ds where IH:
        "mrb_base64_decode_loop cs 0 0 (out @ run) = Inr (buf', iter', (out @ run) @ ds)"
        "c_base64_decode_loop cs 0 0 (i + 3) arr' =
           Some (buf', iter', i + 3 + length ds, (take i arr @ run) @ ds @ drop (i + 3 + length ds) arr)"
        "4 * length ds + 3 * iter' \<le> 3 * (0 + length cs)"
        using Cons.IH [of 0 "i + 3" arr' 0 "out @ run"] unfolding arr'(2,3) by (metis zero_less_numeral)
      have "mrb_base64_decode_loop (x # cs) buf iter out = mrb_base64_decode_loop cs 0 0 (out @ run)"
        "c_base64_decode_loop (x # cs) buf iter i arr = c_base64_decode_loop cs 0 0 (i + 3) arr'"
        using False True store
        by (simp_all add: mrb_base64_decode_loop.simps convert_le_63 Let_def run_def [symmetric] del: drop_bit_or)
      then show ?thesis
        using IH True len
        by (intro exI [of _ buf'] exI [of _ iter'] exI [of _ "run @ ds"]) (simp add: add.assoc)
    next
      case ne: False
      then have "iter + 1 < 4" "4 * i + 3 * (iter + 1 + length cs) \<le> 4 * length arr"
        using Cons.prems by simp_all
      from Cons.IH [OF this, of ?buf out] False ne show ?thesis
        by (auto simp: mrb_base64_decode_loop.simps convert_le_63 Let_def)
    qed
  qed
qed

text \<open>The Base64 decoders of the two virtual machines agree on every input, also on characters
  outside the alphabet and on incomplete groups; neither raises an error, and mruby/c stays
  inside the array it allocates.\<close>

theorem base64_decoders_agree:
  "\<exists>xs. mrb_base64_s_decode cs = Inr xs \<and> c_base64_decode mem (VStr cs) = Some (Inr (VStr xs))"
proof -
  let ?n = "(length cs + 3) div 4 * 3 + 1"
  have "length cs \<le> (length cs + 3) div 4 * 4" by linarith
  then have cap: "3 * length cs + 4 \<le> 4 * ?n" by simp
  obtain buf iter ds where d: "mrb_base64_decode_loop cs 0 0 [] = Inr (buf, iter, ds)"
    "c_base64_decode_loop cs 0 0 0 (alloc mem ?n) = Some (buf, iter, length ds, ds @ drop (length ds) (alloc mem ?n))"
    "4 * length ds + 3 * iter \<le> 3 * length cs"
    using decode_loops_agree [of 0 0 cs "alloc mem ?n" 0 "[]"] cap by auto
  let ?run = "base64_rest buf iter"
  have "length ?run \<le> 2" "?run \<noteq> [] \<Longrightarrow> 2 \<le> iter" by (auto simp: base64_rest_def split: if_splits)
  then have "length ds + length ?run \<le> ?n" using d(3) cap by (cases "?run = []") auto
  then have "store_run (length ds) ?run (ds @ drop (length ds) (alloc mem ?n)) =
      Some (ds @ ?run @ drop (length ds + length ?run) (ds @ drop (length ds) (alloc mem ?n)))"
    by (subst store_run_spec) auto
  then show ?thesis
    using d(1,2) by (simp add: mrb_base64_s_decode_def c_base64_decode_def Let_def)
qed
section \<open>CRC-32\<close>

text \<open>The checksum as a shift register that takes one bit at a time, least significant first.\<close>

definition crc_bit :: "u32 \<Rightarrow> bool \<Rightarrow> u32" where
  "crc_bit c b = (if bit c 0 \<noteq> b then drop_bit 1 c XOR 0xEDB88320 else drop_bit 1 c)"

definition byte_bits :: "u8 \<Rightarrow> bool list" where
  "byte_bits b = map (bit b) [0..<8]"

lemma and_1_bit: "(x :: u32) AND 1 \<noteq> 0 \<longleftrightarrow> bit x 0"
  by (simp add: and_one_eq odd_iff_mod_2_eq_one bit_0)

lemma crc_shift_xor: "crc_shift (d XOR e) = crc_bit d (bit e 0) XOR drop_bit 1 e"
  unfolding crc_shift_def crc_bit_def and_1_bit bit_xor_iff drop_bit_xor
  by (auto simp: ac_simps)

lemma crc_shifts_xor:
  "(crc_shift ^^ k) (d XOR e) = foldl crc_bit d (map (bit e) [0..<k]) XOR drop_bit k e"
proof (induction k)
  case (Suc k)
  have "bit (drop_bit k e) 0 = bit e k" by (simp add: bit_drop_bit_eq)
  with Suc show ?case by (simp add: crc_shift_xor del: bit_0)
qed simp

lemma crc_byte_bits: "crc_byte c b = foldl crc_bit c (byte_bits b)"
proof -
  have "drop_bit 8 (ucast b :: u32) = 0"
    by (rule bit_word_eqI) (auto simp: bit_drop_bit_eq bit_ucast_iff high_bit)
  moreover have "map (bit (ucast b :: u32)) [0..<8] = map (bit b) [0..<8]"
    by (rule map_cong) (auto simp: bit_ucast_iff)
  ultimately show ?thesis by (simp only: crc_byte_def crc_shifts_xor byte_bits_def xor.right_neutral)
qed

text \<open>C14: The byte-wise computation is the bit-serial CRC with the reversed polynomial
  \<^verbatim>\<open>0xEDB88320\<close>: the register takes the bits of the message, each byte from its lowest bit.\<close>

theorem crc32_bitserial:
  "generate_crc32 str crc = NOT (foldl crc_bit (NOT crc) (concat (map byte_bits str)))"
proof -
  have "foldl crc_byte c str = foldl crc_bit c (concat (map byte_bits str))" for c
    by (induction str arbitrary: c) (simp_all add: crc_byte_bits)
  then show ?thesis by (simp add: generate_crc32_def)
qed

text \<open>Checksums can be computed piecewise: the value returned for a first part, passed as the second
  argument, gives for the next part the checksum of the whole; in both virtual machines, although
  mruby/c returns it as a signed number.\<close>

theorem crc32_incremental:
  "\<exists>v v'. mrb_crc_s_crc32 (Some xs) crc = VInt v \<and>
     mrb_crc_s_crc32 (Some ys) (Some v) = mrb_crc_s_crc32 (Some (xs @ ys)) crc \<and>
     c_crc_crc32 [VStr xs, VInt n] = Some (Inr (VInt v')) \<and>
     c_crc_crc32 [VStr ys, VInt v'] = c_crc_crc32 [VStr (xs @ ys), VInt n]"
  by (auto simp: mrb_crc_s_crc32_def c_crc_crc32_def generate_crc32_def)

lemma xor_cancel: "(x :: u32) XOR p = y XOR p \<Longrightarrow> x = y" "p XOR x = p XOR y \<Longrightarrow> x = y"
proof -
  have c: "(z XOR p) XOR p = z" for z by (simp add: xor.assoc)
  then show right: "x XOR p = y XOR p \<Longrightarrow> x = y" by metis
  show "p XOR x = p XOR y \<Longrightarrow> x = y"
    unfolding xor.commute [of p] by (rule right)
qed

lemma crc_bit_inj:
  assumes "crc_bit c b = crc_bit c' b"
  shows "c = c'"
proof -
  have top: "bit (crc_bit c b) 31 \<longleftrightarrow> bit c 0 \<noteq> b" for c
    unfolding crc_bit_def by (auto simp: bit_xor_iff bit_drop_bit_eq dest: bit_imp_le_length)
  then have zero: "bit c 0 = bit c' 0" using assms by metis
  then have "drop_bit 1 c = drop_bit 1 c'"
    using assms by (auto simp: crc_bit_def split: if_splits dest: xor_cancel)
  then have "bit c (Suc n) = bit c' (Suc n)" for n
    by (metis bit_drop_bit_eq comp_def plus_1_eq_Suc)
  with zero show ?thesis by (intro bit_word_eqI) (metis not0_implies_Suc)
qed

lemma crc_bits_inj: "foldl crc_bit c bs = foldl crc_bit c' bs \<Longrightarrow> c = c'"
  by (induction bs arbitrary: c c') (auto dest: crc_bit_inj)

lemma crc_byte_inj:
  "crc_byte c b = crc_byte c' b \<Longrightarrow> c = c'" "crc_byte c a = crc_byte c b \<Longrightarrow> a = b"
proof -
  show "crc_byte c b = crc_byte c' b \<Longrightarrow> c = c'"
    unfolding crc_byte_bits by (rule crc_bits_inj)
  assume eq: "crc_byte c a = crc_byte c b"
  have shift: "crc_shift x = crc_bit x False" for x
    using crc_shift_xor [of x 0] by simp
  have "(crc_shift ^^ k) x = (crc_shift ^^ k) y \<Longrightarrow> x = y" for k x y
    by (induction k) (auto simp: shift dest: crc_bit_inj)
  from this [OF eq [unfolded crc_byte_def]] have "ucast a = (ucast b :: u32)"
    by (rule xor_cancel(2))
  then show "a = b"
    by (metis w3_bytes(3) w3_def)
qed

text \<open>A single wrong byte is always detected: two strings that differ in exactly one byte have
  different checksums.\<close>

theorem crc32_detects_wrong_byte:
  assumes "a \<noteq> b"
  shows "generate_crc32 (xs @ a # ys) crc \<noteq> generate_crc32 (xs @ b # ys) crc"
proof -
  have "foldl crc_byte c zs = foldl crc_byte c' zs \<Longrightarrow> c = c'" for c c' zs
    by (induction zs arbitrary: c c') (auto dest: crc_byte_inj(1))
  moreover have "crc_byte c a \<noteq> crc_byte c b" for c
    using assms crc_byte_inj(2) by blast
  ultimately show ?thesis by (auto simp: generate_crc32_def)
qed

lemma crc32_detects_wrong_byte_witness:
  "generate_crc32 [1, 2, 3] 0 \<noteq> generate_crc32 [1, 7, 3] 0"
  using crc32_detects_wrong_byte [of 2 7 "[1]" "[3]" 0] by simp

text \<open>The check value of CRC-32: the checksum of the digits 1 to 9.\<close>

lemma crc32_check_value: "generate_crc32 [49, 50, 51, 52, 53, 54, 55, 56, 57] 0 = 0xCBF43926"
proof -
  have eight: "(crc_shift ^^ 8) x = crc_shift (crc_shift (crc_shift (crc_shift (crc_shift (crc_shift (crc_shift (crc_shift x)))))))" for x
    by (simp add: eval_nat_numeral)
  show ?thesis by (simp add: generate_crc32_def crc_byte_def eight crc_shift_def)
qed

end
