(* ===== verification/Vram.thy ===== *)
theory Vram
  imports Prelude
begin

text \<open>
  The frame buffer \<^verbatim>\<open>picoruby-vram\<close>: pages of a display with one bit for each pixel, the
  drawing operations, and the methods of the class \<^verbatim>\<open>VRAM\<close> for both virtual machines
  (\<^verbatim>\<open>src/mruby/vram.c\<close>, \<^verbatim>\<open>src/mrubyc/vram.c\<close>). Both files hold a copy of the drawing code
  that differs in the width of the integers and in how arguments are read. Coordinates are
  integers without bounds here; the theory of the properties gives the range in which the
  computations of the line drawing fit 32 bits. Drawing goes through the function pointer
  \<^verbatim>\<open>page->set_pixel\<close>, the parameter \<open>sp\<close> of the drawing operations.
\<close>

section \<open>Pages\<close>

record display_page =
  pg_x :: int
  pg_y :: int
  pg_w :: int
  pg_h :: int
  pg_buffer :: bytes
  pg_dirty :: bool

record display =
  d_w :: int
  d_h :: int
  d_pages :: "display_page list"

type_synonym set_pixel_fn = "int \<Rightarrow> int \<Rightarrow> u32 \<Rightarrow> display_page \<Rightarrow> display_page"

definition mono_page_set_pixel :: set_pixel_fn where
  "mono_page_set_pixel x y color page =
     (if x < 0 \<or> pg_w page \<le> x \<or> y < 0 \<or> pg_h page \<le> y then page
      else let byte_idx = x + c_div y 8 * pg_w page; bit_idx = nat (c_mod y 8) in
      if byte_idx < 0 \<or> int (length (pg_buffer page)) \<le> byte_idx then page
      else let b = pg_buffer page ! nat byte_idx;
               b' = (if color \<noteq> 0 then b OR push_bit bit_idx 1 else b AND NOT (push_bit bit_idx 1))
           in page\<lparr>pg_buffer := (pg_buffer page)[nat byte_idx := b'], pg_dirty := True\<rparr>)"

definition mono_page_get_pixel :: "display_page \<Rightarrow> int \<Rightarrow> int \<Rightarrow> u32" where
  "mono_page_get_pixel page x y =
     (if x < 0 \<or> pg_w page \<le> x \<or> y < 0 \<or> pg_h page \<le> y then 0
      else let byte_idx = x + c_div y 8 * pg_w page; bit_idx = nat (c_mod y 8) in
      if byte_idx < 0 \<or> int (length (pg_buffer page)) \<le> byte_idx then 0
      else ucast (drop_bit bit_idx (pg_buffer page ! nat byte_idx) AND 1))"

definition mono_page_fill :: "u32 \<Rightarrow> display_page \<Rightarrow> display_page" where
  "mono_page_fill color page = page\<lparr>
     pg_buffer := replicate (length (pg_buffer page)) (if color \<noteq> 0 then 0xFF else 0), pg_dirty := True\<rparr>"

definition mrubyc_mono_page_set_pixel :: set_pixel_fn where
  "mrubyc_mono_page_set_pixel x y color page =
     (if x < 0 \<or> pg_w page \<le> x \<or> y < 0 \<or> pg_h page \<le> y then page
      else let byte_idx = x + c_div y 8 * pg_w page; bit_idx = nat (c_mod y 8) in
      if byte_idx < 0 \<or> int (length (pg_buffer page)) \<le> byte_idx then page
      else let b = pg_buffer page ! nat byte_idx;
               b' = (if color \<noteq> 0 then b OR push_bit bit_idx 1 else b AND NOT (push_bit bit_idx 1))
           in page\<lparr>pg_buffer := (pg_buffer page)[nat byte_idx := b'], pg_dirty := True\<rparr>)"

definition mrubyc_mono_page_get_pixel :: "display_page \<Rightarrow> int \<Rightarrow> int \<Rightarrow> u32" where
  "mrubyc_mono_page_get_pixel page x y =
     (if x < 0 \<or> pg_w page \<le> x \<or> y < 0 \<or> pg_h page \<le> y then 0
      else let byte_idx = x + c_div y 8 * pg_w page; bit_idx = nat (c_mod y 8) in
      if byte_idx < 0 \<or> int (length (pg_buffer page)) \<le> byte_idx then 0
      else ucast (drop_bit bit_idx (pg_buffer page ! nat byte_idx) AND 1))"

definition mrubyc_mono_page_fill :: "u32 \<Rightarrow> display_page \<Rightarrow> display_page" where
  "mrubyc_mono_page_fill color page = page\<lparr>
     pg_buffer := replicate (length (pg_buffer page)) (if color \<noteq> 0 then 0xFF else 0), pg_dirty := True\<rparr>"

section \<open>Drawing\<close>

text \<open>The loop that finds the page of a point and draws there.\<close>

definition on_page :: "int \<Rightarrow> int \<Rightarrow> display_page \<Rightarrow> bool" where
  "on_page x y page \<longleftrightarrow> pg_x page \<le> x \<and> x < pg_x page + pg_w page \<and> pg_y page \<le> y \<and> y < pg_y page + pg_h page"

fun put_pixel :: "set_pixel_fn \<Rightarrow> int \<Rightarrow> int \<Rightarrow> u32 \<Rightarrow> display_page list \<Rightarrow> display_page list" where
  "put_pixel sp x y color [] = []"
| "put_pixel sp x y color (page # pages) =
     (if on_page x y page then sp (x - pg_x page) (y - pg_y page) color page # pages
      else page # put_pixel sp x y color pages)"

text \<open>The loop of Bresenham's algorithm.\<close>

partial_function (option) line_loop ::
    "set_pixel_fn \<Rightarrow> int \<Rightarrow> int \<Rightarrow> int \<Rightarrow> int \<Rightarrow> int \<Rightarrow> int \<Rightarrow> u32 \<Rightarrow> int \<Rightarrow> int \<Rightarrow> int \<Rightarrow> display_page list
     \<Rightarrow> display_page list option" where
  "line_loop sp x1 y1 dx dy sx sy color x y err pages =
     (let pages = put_pixel sp x y color pages in
      if x = x1 \<and> y = y1 then Some pages
      else let e2 = 2 * err;
               (err, x) = (if - dy < e2 then (err - dy, x + sx) else (err, x));
               (err, y) = (if e2 < dx then (err + dx, y + sy) else (err, y))
           in line_loop sp x1 y1 dx dy sx sy color x y err pages)"

definition draw_line :: "set_pixel_fn \<Rightarrow> int \<Rightarrow> int \<Rightarrow> int \<Rightarrow> int \<Rightarrow> u32 \<Rightarrow> display \<Rightarrow> display option" where
  "draw_line sp x0 y0 x1 y1 color disp = do {
     let dx = (if x0 < x1 then x1 - x0 else x0 - x1);
     let dy = (if y0 < y1 then y1 - y0 else y0 - y1);
     let sx = (if x0 < x1 then 1 else - 1);
     let sy = (if y0 < y1 then 1 else - 1);
     pages \<leftarrow> line_loop sp x1 y1 dx dy sx sy color x0 y0 (dx - dy) (d_pages disp);
     Some (disp\<lparr>d_pages := pages\<rparr>)
   }"

text \<open>The points of a rectangle in the order of the two loops.\<close>

definition rect_points :: "int \<Rightarrow> int \<Rightarrow> (int \<times> int) list" where
  "rect_points w h = concat (map (\<lambda>i. map (\<lambda>j. (j, i)) [0..w - 1]) [0..h - 1])"

definition draw_rect :: "set_pixel_fn \<Rightarrow> int \<Rightarrow> int \<Rightarrow> int \<Rightarrow> int \<Rightarrow> u32 \<Rightarrow> display \<Rightarrow> display" where
  "draw_rect sp x y w h color disp = disp\<lparr>d_pages :=
     foldl (\<lambda>pages (j, i). put_pixel sp (x + j) (y + i) color pages) (d_pages disp) (rect_points w h)\<rparr>"

definition set_pixel :: "set_pixel_fn \<Rightarrow> int \<Rightarrow> int \<Rightarrow> u32 \<Rightarrow> display \<Rightarrow> display" where
  "set_pixel sp x y color disp = disp\<lparr>d_pages := put_pixel sp x y color (d_pages disp)\<rparr>"

text \<open>A row of a bitmap is an integer of 64 bits; a shift by 64 or more is undefined.\<close>

definition bitmap_pixel :: "int \<Rightarrow> u64 \<Rightarrow> int \<Rightarrow> u32 option" where
  "bitmap_pixel width row_data img_x =
     (if 64 \<le> width - 1 - img_x then None
      else Some (ucast (drop_bit (nat (width - 1 - img_x)) row_data AND 1)))"

definition draw_bitmap ::
    "set_pixel_fn \<Rightarrow> int \<Rightarrow> int \<Rightarrow> int \<Rightarrow> int \<Rightarrow> mrb_value list \<Rightarrow> display \<Rightarrow> display option" where
  "draw_bitmap sp x y width height rows disp =
     (if width \<le> 0 \<or> height \<le> 0 then Some disp
      else do {
        pages \<leftarrow> for_each (\<lambda>img_y pages.
          case rows ! nat img_y of
            VInt row \<Rightarrow> for_each (\<lambda>img_x pages. do {
              pixel \<leftarrow> bitmap_pixel width (word_of_int row) img_x;
              Some (put_pixel sp (x + img_x) (y + img_y) pixel pages)
            }) [0..width - 1] pages
          | _ \<Rightarrow> Some pages)
          [0..min height (int (length rows)) - 1] (d_pages disp);
        Some (disp\<lparr>d_pages := pages\<rparr>)
      })"

definition byte_pixel :: "int \<Rightarrow> bytes \<Rightarrow> int \<Rightarrow> int \<Rightarrow> u32" where
  "byte_pixel width image_data img_x img_y =
     (let byte_idx = img_y * c_div (width + 7) 8 + c_div img_x 8; bit_idx = 7 - c_mod img_x 8 in
      if byte_idx < int (length image_data)
      then ucast (drop_bit (nat bit_idx) (image_data ! nat byte_idx) AND 1) else 0)"

definition draw_bytes :: "set_pixel_fn \<Rightarrow> int \<Rightarrow> int \<Rightarrow> int \<Rightarrow> int \<Rightarrow> bytes \<Rightarrow> display \<Rightarrow> display" where
  "draw_bytes sp x y width height image_data disp =
     (if width \<le> 0 \<or> height \<le> 0 then disp
      else disp\<lparr>d_pages := foldl (\<lambda>pages (img_x, img_y).
          put_pixel sp (x + img_x) (y + img_y) (byte_pixel width image_data img_x img_y) pages)
        (d_pages disp) (rect_points width height)\<rparr>)"

text \<open>The loop over the pages of \<open>pages\<close> and \<open>dirty_pages\<close>; page widths of 0 divide by zero.\<close>

fun pages_loop :: "bool \<Rightarrow> bool \<Rightarrow> int \<Rightarrow> int \<Rightarrow> display_page list \<Rightarrow> (mrb_value list \<times> display_page list) option" where
  "pages_loop dirty clear_dirty w i [] = Some ([], [])"
| "pages_loop dirty clear_dirty w i (page # pages) =
     (if \<not> dirty \<or> pg_dirty page then
        if pg_w page = 0 \<or> c_div w (pg_w page) = 0 then None
        else let cols = c_div w (pg_w page);
                 entry = VArray [VInt (c_mod i cols), VInt (c_div i cols), VStr (pg_buffer page)] in do {
          (entries, pages) \<leftarrow> pages_loop dirty clear_dirty w (i + 1) pages;
          Some (entry # entries, (if clear_dirty then page\<lparr>pg_dirty := False\<rparr> else page) # pages)
        }
      else do {
        (entries, pages) \<leftarrow> pages_loop dirty clear_dirty w (i + 1) pages;
        Some (entries, page # pages)
      })"

definition pages_sub :: "bool \<Rightarrow> bool \<Rightarrow> display \<Rightarrow> (mrb_value \<times> display) option" where
  "pages_sub dirty clear_dirty disp = do {
     (entries, pages) \<leftarrow> pages_loop dirty clear_dirty (d_w disp) 0 (d_pages disp);
     Some (VArray entries, disp\<lparr>d_pages := pages\<rparr>)
   }"

text \<open>A new display; \<open>fl\<close> is the function pointer \<^verbatim>\<open>page->fill\<close>. Numbers of pages that are not
  positive divide by zero, ask the allocator for a negative size or leave the pages
  uninitialised; a negative size of the page buffer is an error of the allocator.\<close>

definition new_display :: "(u32 \<Rightarrow> display_page \<Rightarrow> display_page) \<Rightarrow> int \<Rightarrow> int \<Rightarrow> int \<Rightarrow> int \<Rightarrow> display option" where
  "new_display fl w h cols rows =
     (if cols \<le> 0 \<or> rows \<le> 0 then None
      else let page_w = c_div w cols; page_h = c_div h rows; page_size = page_w * c_div (page_h + 7) 8 in
      if page_size < 0 then None
      else Some \<lparr>d_w = w, d_h = h, d_pages = map (\<lambda>(tx, ty). fl 0 \<lparr>pg_x = tx * page_w, pg_y = ty * page_h,
          pg_w = page_w, pg_h = page_h, pg_buffer = replicate (nat page_size) 0, pg_dirty = False\<rparr>)
        (rect_points cols rows)\<rparr>)"

section \<open>The methods for mruby\<close>

definition mrb_vram_s_new :: "int \<Rightarrow> int \<Rightarrow> int \<Rightarrow> int \<Rightarrow> display option" where
  "mrb_vram_s_new w h cols rows = new_display mono_page_fill w h cols rows"

definition mrb_vram_pages_sub :: "bool option \<Rightarrow> bool \<Rightarrow> display \<Rightarrow> (mrb_value \<times> display) option" where
  "mrb_vram_pages_sub clear_dirty dirty disp = pages_sub dirty (clear_dirty \<noteq> Some False) disp"

definition mrb_vram_pages :: "bool option \<Rightarrow> display \<Rightarrow> (mrb_value \<times> display) option" where
  "mrb_vram_pages clear_dirty disp = mrb_vram_pages_sub clear_dirty False disp"

definition mrb_vram_dirty_pages :: "bool option \<Rightarrow> display \<Rightarrow> (mrb_value \<times> display) option" where
  "mrb_vram_dirty_pages clear_dirty disp = mrb_vram_pages_sub clear_dirty True disp"

definition mrb_vram_draw_line :: "int \<Rightarrow> int \<Rightarrow> int \<Rightarrow> int \<Rightarrow> int \<Rightarrow> display \<Rightarrow> display option" where
  "mrb_vram_draw_line x0 y0 x1 y1 color disp = draw_line mono_page_set_pixel x0 y0 x1 y1 (word_of_int color) disp"

definition mrb_vram_draw_rect :: "int \<Rightarrow> int \<Rightarrow> int \<Rightarrow> int \<Rightarrow> int \<Rightarrow> display \<Rightarrow> display option" where
  "mrb_vram_draw_rect x y w h color disp = Some (draw_rect mono_page_set_pixel x y w h (word_of_int color) disp)"

definition mrb_vram_set_pixel :: "int \<Rightarrow> int \<Rightarrow> int \<Rightarrow> display \<Rightarrow> display option" where
  "mrb_vram_set_pixel x y color disp = Some (set_pixel mono_page_set_pixel x y (word_of_int color) disp)"

definition mrb_vram_fill :: "int \<Rightarrow> display \<Rightarrow> display option" where
  "mrb_vram_fill color disp = Some (disp\<lparr>d_pages := map (mono_page_fill (word_of_int color)) (d_pages disp)\<rparr>)"

definition mrb_vram_erase :: "int \<Rightarrow> int \<Rightarrow> int \<Rightarrow> int \<Rightarrow> display \<Rightarrow> display option" where
  "mrb_vram_erase x y w h disp = Some (draw_rect mono_page_set_pixel x y w h 0 disp)"

definition mrb_vram_draw_bitmap :: "mrb_value list \<Rightarrow> display \<Rightarrow> (unit rb_result \<times> display) option" where
  "mrb_vram_draw_bitmap kw_values disp =
     (case kw_values of
        [VInt x, VInt y, VInt width, VInt height, VArray rows] \<Rightarrow>
          map_option (Pair (Inr ())) (draw_bitmap mono_page_set_pixel x y width height rows disp)
      | _ \<Rightarrow> Some (Inl (ArgumentError ''Invalid arguments for draw_bitmap''), disp))"

definition mrb_vram_draw_bytes :: "mrb_value list \<Rightarrow> display \<Rightarrow> (unit rb_result \<times> display) option" where
  "mrb_vram_draw_bytes kw_values disp =
     (case kw_values of
        [VInt x, VInt y, VInt width, VInt height, VStr image_data] \<Rightarrow>
          Some (Inr (), draw_bytes mono_page_set_pixel x y width height image_data disp)
      | _ \<Rightarrow> Some (Inl (ArgumentError ''Invalid arguments for draw_bytes''), disp))"

section \<open>The methods for mruby/c\<close>

text \<open>An integer argument as C's \<^verbatim>\<open>int\<close>, and a keyword argument, nil when it is absent.\<close>

definition c_int_arg :: "mrb_value list \<Rightarrow> nat \<Rightarrow> int option" where
  "c_int_arg args n = map_option sint (GET_INT_ARG args n)"

definition c_kwarg :: "(mrb_value \<times> mrb_value) list \<Rightarrow> string \<Rightarrow> mrb_value" where
  "c_kwarg kvs name = (case map_of kvs (VSym name) of None \<Rightarrow> VNil | Some v \<Rightarrow> v)"

definition c_vram_new :: "(mrb_value \<times> mrb_value) list \<Rightarrow> display rb_result option" where
  "c_vram_new kvs =
     (case (c_kwarg kvs ''w'', c_kwarg kvs ''h'', c_kwarg kvs ''cols'', c_kwarg kvs ''rows'') of
        (VInt w, VInt h, VInt cols, VInt rows) \<Rightarrow>
          map_option Inr (new_display mrubyc_mono_page_fill (c_int w) (c_int h) (c_int cols) (c_int rows))
      | _ \<Rightarrow> Some (Inl (ArgumentError ''Invalid arguments for VRAM.new'')))"

definition vram_pages_sub :: "mrb_value list \<Rightarrow> bool \<Rightarrow> display \<Rightarrow> (mrb_value \<times> display) option" where
  "vram_pages_sub args dirty disp =
     (let clear_dirty = (args = [] \<or> hd args \<noteq> VFalse) in pages_sub dirty clear_dirty disp)"

definition c_vram_pages :: "mrb_value list \<Rightarrow> display \<Rightarrow> (mrb_value \<times> display) option" where
  "c_vram_pages args disp = vram_pages_sub args False disp"

definition c_vram_dirty_pages :: "mrb_value list \<Rightarrow> display \<Rightarrow> (mrb_value \<times> display) option" where
  "c_vram_dirty_pages args disp = vram_pages_sub args True disp"

definition c_vram_set_pixel :: "mrb_value list \<Rightarrow> display \<Rightarrow> display option" where
  "c_vram_set_pixel args disp = do {
     x \<leftarrow> c_int_arg args 1;
     y \<leftarrow> c_int_arg args 2;
     color \<leftarrow> GET_INT_ARG args 3;
     Some (set_pixel mrubyc_mono_page_set_pixel x y color disp)
   }"

definition c_vram_draw_line :: "mrb_value list \<Rightarrow> display \<Rightarrow> display option" where
  "c_vram_draw_line args disp = do {
     x0 \<leftarrow> c_int_arg args 1;
     y0 \<leftarrow> c_int_arg args 2;
     x1 \<leftarrow> c_int_arg args 3;
     y1 \<leftarrow> c_int_arg args 4;
     color \<leftarrow> GET_INT_ARG args 5;
     draw_line mrubyc_mono_page_set_pixel x0 y0 x1 y1 color disp
   }"

definition c_vram_draw_rect :: "mrb_value list \<Rightarrow> display \<Rightarrow> display option" where
  "c_vram_draw_rect args disp = do {
     x \<leftarrow> c_int_arg args 1;
     y \<leftarrow> c_int_arg args 2;
     w \<leftarrow> c_int_arg args 3;
     h \<leftarrow> c_int_arg args 4;
     color \<leftarrow> GET_INT_ARG args 5;
     Some (draw_rect mrubyc_mono_page_set_pixel x y w h color disp)
   }"

definition c_vram_fill :: "mrb_value list \<Rightarrow> display \<Rightarrow> display option" where
  "c_vram_fill args disp = do {
     color \<leftarrow> GET_INT_ARG args 1;
     Some (disp\<lparr>d_pages := map (mrubyc_mono_page_fill color) (d_pages disp)\<rparr>)
   }"

definition c_vram_erase :: "mrb_value list \<Rightarrow> display \<Rightarrow> display option" where
  "c_vram_erase args disp = do {
     x \<leftarrow> c_int_arg args 1;
     y \<leftarrow> c_int_arg args 2;
     w \<leftarrow> c_int_arg args 3;
     h \<leftarrow> c_int_arg args 4;
     Some (draw_rect mrubyc_mono_page_set_pixel x y w h 0 disp)
   }"

definition c_vram_draw_bitmap :: "(mrb_value \<times> mrb_value) list \<Rightarrow> display \<Rightarrow> (unit rb_result \<times> display) option" where
  "c_vram_draw_bitmap kvs disp =
     (case (c_kwarg kvs ''x'', c_kwarg kvs ''y'', c_kwarg kvs ''w'', c_kwarg kvs ''h'', c_kwarg kvs ''data'') of
        (VInt x, VInt y, VInt width, VInt height, VArray rows) \<Rightarrow>
          map_option (Pair (Inr ())) (draw_bitmap mrubyc_mono_page_set_pixel (c_int x) (c_int y) (c_int width) (c_int height) rows disp)
      | _ \<Rightarrow> Some (Inl (ArgumentError ''Invalid arguments for draw_bitmap''), disp))"

definition c_vram_draw_bytes :: "(mrb_value \<times> mrb_value) list \<Rightarrow> display \<Rightarrow> (unit rb_result \<times> display) option" where
  "c_vram_draw_bytes kvs disp =
     (case (c_kwarg kvs ''x'', c_kwarg kvs ''y'', c_kwarg kvs ''w'', c_kwarg kvs ''h'', c_kwarg kvs ''data'') of
        (VInt x, VInt y, VInt width, VInt height, VStr image_data) \<Rightarrow>
          Some (Inr (), draw_bytes mrubyc_mono_page_set_pixel (c_int x) (c_int y) (c_int width) (c_int height) image_data disp)
      | _ \<Rightarrow> Some (Inl (ArgumentError ''Invalid arguments for draw_bytes''), disp))"

end
