(* ===== verification/VramProps.thy ===== *)
theory VramProps
  imports Vram
begin

text \<open>
  Properties of the frame buffer. The abstract view of a display is the partial map \<open>vram_get\<close>
  from points to bits; the drawing operations refine updates of that map. For the line, the
  loop is shown to end, with the points it draws characterised against the ideal line.
\<close>

section \<open>One page\<close>

definition page_wf :: "display_page \<Rightarrow> bool" where
  "page_wf p \<longleftrightarrow> 0 \<le> pg_w p \<and> 0 \<le> pg_h p \<and> int (length (pg_buffer p)) = pg_w p * ((pg_h p + 7) div 8)"

lemma c_nonneg [simp]: "0 \<le> a \<Longrightarrow> c_div a 8 = a div 8" "0 \<le> a \<Longrightarrow> c_mod a 8 = a mod 8"
proof -
  show d: "0 \<le> a \<Longrightarrow> c_div a 8 = a div 8"
    by (cases "a = 0") (simp_all add: c_div_def)
  then show "0 \<le> a \<Longrightarrow> c_mod a 8 = a mod 8"
    by (simp add: c_mod_def minus_div_mult_eq_mod)
qed

lemma byte_idx:
  assumes "page_wf p" "0 \<le> x" "x < pg_w p" "0 \<le> y" "y < pg_h p"
  shows "0 \<le> x + y div 8 * pg_w p" "x + y div 8 * pg_w p < int (length (pg_buffer p))"
proof -
  show "0 \<le> x + y div 8 * pg_w p" using assms by (simp add: page_wf_def)
  have "y div 8 + 1 \<le> (pg_h p + 7) div 8" using assms(5) by linarith
  then have "(y div 8 + 1) * pg_w p \<le> (pg_h p + 7) div 8 * pg_w p"
    using assms(1) by (intro mult_right_mono) (simp_all add: page_wf_def)
  then show "x + y div 8 * pg_w p < int (length (pg_buffer p))"
    using assms(1,3) by (simp add: page_wf_def algebra_simps)
qed

lemma byte_idx_neg:
  assumes "page_wf p" "0 \<le> x" "x < pg_w p" "0 \<le> y" "y < pg_h p"
  shows "x + y div 8 * pg_w p < 0 \<longleftrightarrow> False"
proof -
  have "\<not> x + y div 8 * pg_w p < 0" using byte_idx(1) [OF assms] by linarith
  then show ?thesis by blast
qed

lemma byte_idx_inj:
  assumes "0 \<le> x" "x < w" "0 \<le> x'" "x' < w" "x + a * w = x' + a' * (w :: int)"
  shows "x = x' \<and> a = a'"
proof -
  have "(x + a * w) mod w = x" "(x + a * w) div w = a" "(x' + a' * w) mod w = x'" "(x' + a' * w) div w = a'"
    using assms(1-4) by simp_all
  with assms(5) show ?thesis by simp
qed

lemma set_pixel_shape [simp]:
  "pg_x (mono_page_set_pixel x y c p) = pg_x p" "pg_y (mono_page_set_pixel x y c p) = pg_y p"
  "pg_w (mono_page_set_pixel x y c p) = pg_w p" "pg_h (mono_page_set_pixel x y c p) = pg_h p"
  "length (pg_buffer (mono_page_set_pixel x y c p)) = length (pg_buffer p)"
  by (simp_all add: mono_page_set_pixel_def Let_def)

lemma set_pixel_wf [simp]: "page_wf (mono_page_set_pixel x y c p) = page_wf p"
  by (simp add: page_wf_def)

lemma get_pixel_bit:
  assumes "page_wf p"
  shows "mono_page_get_pixel p x y \<noteq> 0 \<longleftrightarrow> 0 \<le> x \<and> x < pg_w p \<and> 0 \<le> y \<and> y < pg_h p \<and>
    bit (pg_buffer p ! nat (x + y div 8 * pg_w p)) (nat (y mod 8))"
proof -
  have "(ucast (drop_bit k b AND 1) :: u32) \<noteq> 0 \<longleftrightarrow> bit b k" for b :: u8 and k
  proof -
    have "(ucast (drop_bit k b AND 1) :: u32) = of_bool (bit b k)"
      by (rule bit_word_eqI) (auto simp: bit_ucast_iff bit_and_iff bit_drop_bit_eq bit_1_iff bit_of_bool_iff dest: bit_imp_le_length)
    then show ?thesis by simp
  qed
  then show ?thesis
    using byte_idx(2) [OF assms, of x y] byte_idx_neg [OF assms, of x y]
    by (cases "0 \<le> x \<and> x < pg_w p \<and> 0 \<le> y \<and> y < pg_h p")
      (auto simp: mono_page_get_pixel_def Let_def not_le)
qed

lemma get_set_pixel:
  assumes "page_wf p" "0 \<le> x" "x < pg_w p" "0 \<le> y" "y < pg_h p"
  shows "mono_page_get_pixel (mono_page_set_pixel x y c p) x' y' \<noteq> 0 \<longleftrightarrow>
    (if x' = x \<and> y' = y then c \<noteq> 0 else mono_page_get_pixel p x' y' \<noteq> 0)"
proof (cases "0 \<le> x' \<and> x' < pg_w p \<and> 0 \<le> y' \<and> y' < pg_h p")
  case False
  then show ?thesis using assms by (auto simp: get_pixel_bit)
next
  case True
  note idx = byte_idx [OF assms]
  let ?i = "nat (x + y div 8 * pg_w p)" and ?i' = "nat (x' + y' div 8 * pg_w p)"
  have buf: "pg_buffer (mono_page_set_pixel x y c p) = (pg_buffer p)[?i :=
      (if c \<noteq> 0 then pg_buffer p ! ?i OR push_bit (nat (y mod 8)) 1
       else pg_buffer p ! ?i AND NOT (push_bit (nat (y mod 8)) 1))]"
    using assms idx byte_idx_neg [OF assms] by (simp add: mono_page_set_pixel_def Let_def)
  have len: "?i < length (pg_buffer p)" using idx by linarith
  have same: "x' = x \<and> y' = y \<longleftrightarrow> ?i' = ?i \<and> nat (y' mod 8) = nat (y mod 8)"
  proof
    assume eq: "?i' = ?i \<and> nat (y' mod 8) = nat (y mod 8)"
    then have "x' + y' div 8 * pg_w p = x + y div 8 * pg_w p"
      using idx(1) byte_idx(1) [OF assms(1), of x' y'] True by (metis eq_nat_nat_iff)
    then have "x' = x" "y' div 8 = y div 8"
      using byte_idx_inj [of x' "pg_w p" x "y' div 8" "y div 8"] assms True by auto
    moreover have "y' mod 8 = y mod 8" using eq by (simp add: eq_nat_nat_iff)
    ultimately show "x' = x \<and> y' = y" by (metis mult_div_mod_eq)
  qed simp
  have k: "nat (y mod 8) < 8" "nat (y' mod 8) < 8" by simp_all
  have bits: "bit (b OR push_bit (nat (y mod 8)) 1) n \<longleftrightarrow> bit b n \<or> n = nat (y mod 8)"
    "bit (b AND NOT (push_bit (nat (y mod 8)) 1)) n \<longleftrightarrow> bit b n \<and> n \<noteq> nat (y mod 8)" for b :: u8 and n
    using k(1) by (auto simp: bit_or_iff bit_and_iff bit_not_iff bit_exp_iff dest: bit_imp_le_length)
  have "bit (pg_buffer (mono_page_set_pixel x y c p) ! ?i') (nat (y' mod 8)) \<longleftrightarrow>
      (if ?i' = ?i \<and> nat (y' mod 8) = nat (y mod 8) then c \<noteq> 0 else bit (pg_buffer p ! ?i') (nat (y' mod 8)))"
    unfolding buf using len by (auto simp: nth_list_update bits [unfolded push_bit_of_1])
  then have "bit (pg_buffer (mono_page_set_pixel x y c p) ! ?i') (nat (y' mod 8)) \<longleftrightarrow>
      (if x' = x \<and> y' = y then c \<noteq> 0 else bit (pg_buffer p ! ?i') (nat (y' mod 8)))"
    unfolding same .
  then show ?thesis
    unfolding get_pixel_bit [OF assms(1)] get_pixel_bit [OF iffD2 [OF set_pixel_wf assms(1)]] set_pixel_shape
    using True by argo
qed

section \<open>The display as a map of points\<close>

definition vram_get :: "display_page list \<Rightarrow> int \<Rightarrow> int \<Rightarrow> bool option" where
  "vram_get pages x y = (case find (on_page x y) pages of None \<Rightarrow> None
     | Some p \<Rightarrow> Some (mono_page_get_pixel p (x - pg_x p) (y - pg_y p) \<noteq> 0))"

definition pages_wf :: "display_page list \<Rightarrow> bool" where
  "pages_wf pages \<longleftrightarrow> (\<forall>p\<in>set pages. page_wf p)"

abbreviation mono_put :: "int \<Rightarrow> int \<Rightarrow> u32 \<Rightarrow> display_page list \<Rightarrow> display_page list" where
  "mono_put \<equiv> put_pixel mono_page_set_pixel"

lemma on_page_set [simp]: "on_page x' y' (mono_page_set_pixel x y c p) = on_page x' y' p"
  by (simp add: on_page_def)

lemma put_pixel_wf [simp]: "pages_wf pages \<Longrightarrow> pages_wf (mono_put x y c pages)"
  by (induction pages) (auto simp: pages_wf_def)

lemma vram_get_put:
  "pages_wf pages \<Longrightarrow> vram_get (mono_put x y c pages) x' y' =
     (if x' = x \<and> y' = y then map_option (\<lambda>_. c \<noteq> 0) (vram_get pages x y) else vram_get pages x' y')"
proof (induction pages)
  case Nil
  then show ?case by (simp add: vram_get_def)
next
  case (Cons p pages)
  have wf: "page_wf p" "pages_wf pages" using Cons.prems by (auto simp: pages_wf_def)
  have rest: "vram_get (q # qs) a b = (if on_page a b q then Some (mono_page_get_pixel q (a - pg_x q) (b - pg_y q) \<noteq> 0)
      else vram_get qs a b)" for q qs a b
    by (simp add: vram_get_def)
  show ?case
  proof (cases "on_page x y p")
    case False
    then show ?thesis using Cons.IH [OF wf(2)] by (auto simp: rest)
  next
    case True
    then have "0 \<le> x - pg_x p" "x - pg_x p < pg_w p" "0 \<le> y - pg_y p" "y - pg_y p < pg_h p"
      by (auto simp: on_page_def)
    note gs = get_set_pixel [OF wf(1) this, of c]
    show ?thesis
    proof (cases "x' = x \<and> y' = y")
      case True
      then show ?thesis using gs [of "x - pg_x p" "y - pg_y p"] \<open>on_page x y p\<close> by (simp add: rest)
    next
      case False
      then have "\<not> (x' - pg_x p = x - pg_x p \<and> y' - pg_y p = y - pg_y p)" by simp
      then have "mono_page_get_pixel (mono_page_set_pixel (x - pg_x p) (y - pg_y p) c p) (x' - pg_x p) (y' - pg_y p) \<noteq> 0 \<longleftrightarrow>
          mono_page_get_pixel p (x' - pg_x p) (y' - pg_y p) \<noteq> 0"
        using gs [of "x' - pg_x p" "y' - pg_y p"] by argo
      with False \<open>on_page x y p\<close> show ?thesis by (simp add: rest) blast
    qed
  qed
qed

text \<open>Drawing a list of coloured points: the last colour of a point counts.\<close>

definition put_all :: "(int \<times> int \<times> u32) list \<Rightarrow> display_page list \<Rightarrow> display_page list" where
  "put_all pts pages = foldl (\<lambda>pages (x, y, c). mono_put x y c pages) pages pts"

lemma put_all_wf: "pages_wf pages \<Longrightarrow> pages_wf (put_all pts pages)"
  unfolding put_all_def by (induction pts arbitrary: pages) auto

lemma vram_get_put_all:
  assumes "pages_wf pages" "\<forall>(x, y, c)\<in>set pts. c = f x y"
  shows "vram_get (put_all pts pages) x y =
    (if (x, y) \<in> (\<lambda>(x, y, c). (x, y)) ` set pts then map_option (\<lambda>_. f x y \<noteq> 0) (vram_get pages x y)
     else vram_get pages x y)"
  using assms
proof (induction pts arbitrary: pages)
  case Nil
  then show ?case by (simp add: put_all_def)
next
  case (Cons pt pts)
  obtain a b c where pt: "pt = (a, b, c)" by (cases pt)
  have "put_all (pt # pts) pages = put_all pts (mono_put a b c pages)" by (simp add: put_all_def pt)
  with Cons.IH [of "mono_put a b c pages"] Cons.prems show ?case
    by (auto simp: pt vram_get_put option.map_comp comp_def)
qed
section \<open>Drawing operations refine updates of the map\<close>

lemma set_rect_points: "set (rect_points w h) = {(j, i). 0 \<le> j \<and> j < w \<and> 0 \<le> i \<and> i < h}"
  by (auto simp: rect_points_def)

lemma draw_rect_put_all:
  "d_pages (draw_rect mono_page_set_pixel x y w h c d) =
     put_all (map (\<lambda>(j, i). (x + j, y + i, c)) (rect_points w h)) (d_pages d)"
  by (simp add: draw_rect_def put_all_def foldl_map case_prod_unfold)

lemma draw_bytes_put_all:
  "0 < w \<Longrightarrow> 0 < h \<Longrightarrow> d_pages (draw_bytes mono_page_set_pixel x y w h data d) =
     put_all (map (\<lambda>(j, i). (x + j, y + i, byte_pixel w data j i)) (rect_points w h)) (d_pages d)"
  by (simp add: draw_bytes_def put_all_def foldl_map case_prod_unfold)

lemma vram_get_blank:
  assumes "\<And>p a b. p \<in> set pages \<Longrightarrow> mono_page_get_pixel p a b = 0"
  shows "vram_get pages x y = (if \<exists>p\<in>set pages. on_page x y p then Some False else None)"
proof (cases "find (on_page x y) pages")
  case None
  moreover from None have "\<not> (\<exists>p\<in>set pages. on_page x y p)" by (auto simp: find_None_iff)
  ultimately show ?thesis by (simp add: vram_get_def)
next
  case (Some p)
  then have "p \<in> set pages" "on_page x y p" by (auto simp: find_Some_iff)
  then show ?thesis using Some assms by (auto simp: vram_get_def)
qed

lemma int_div_less: "0 < q \<Longrightarrow> (x :: int) < n * q \<Longrightarrow> x div q < n"
  using mult_right_mono [of n "x div q" q] pos_mod_sign [of q x] div_mult_mod_eq [of x q] by linarith

text \<open>C18: A new display has well-formed pages that tile the area of the page grid, and every point of
  it is off.\<close>

theorem vram_new_blank:
  assumes "0 \<le> w" "0 \<le> h" "0 < cols" "0 < rows"
  shows "\<exists>d. mrb_vram_s_new w h cols rows = Some d \<and> pages_wf (d_pages d) \<and>
    (\<forall>x y. vram_get (d_pages d) x y =
      (if 0 \<le> x \<and> x < cols * (w div cols) \<and> 0 \<le> y \<and> y < rows * (h div rows) then Some False else None))"
proof -
  let ?pw = "w div cols" and ?ph = "h div rows"
  let ?page = "\<lambda>tx ty. \<lparr>pg_x = tx * ?pw, pg_y = ty * ?ph, pg_w = ?pw, pg_h = ?ph,
    pg_buffer = replicate (nat (?pw * ((?ph + 7) div 8))) 0, pg_dirty = True\<rparr>"
  let ?pages = "map (\<lambda>(tx, ty). ?page tx ty) (rect_points cols rows)"
  have nn: "0 \<le> ?pw" "0 \<le> ?ph" using assms by (simp_all add: pos_imp_zdiv_nonneg_iff)
  then have sz: "0 \<le> ?pw * ((?ph + 7) div 8)" by simp
  have cd: "c_div w cols = ?pw" "c_div h rows = ?ph"
    using assms by (cases "w = 0"; cases "h = 0"; simp add: c_div_def)+
  have new: "mrb_vram_s_new w h cols rows = Some \<lparr>d_w = w, d_h = h, d_pages = ?pages\<rparr>"
    using assms(3,4) nn sz by (simp add: mrb_vram_s_new_def new_display_def cd Let_def mono_page_fill_def not_less)
  have wf: "pages_wf ?pages"
    using nn sz by (auto simp: pages_wf_def page_wf_def)
  have blank: "mono_page_get_pixel p a b = 0" if "p \<in> set ?pages" for p a b
    using that nn by (auto simp: mono_page_get_pixel_def Let_def nth_replicate)
  have inv: "(\<exists>p\<in>set ?pages. on_page x y p) \<longleftrightarrow> 0 \<le> x \<and> x < cols * ?pw \<and> 0 \<le> y \<and> y < rows * ?ph" for x y
  proof
    assume "\<exists>p\<in>set ?pages. on_page x y p"
    then obtain tx ty where t: "0 \<le> tx" "tx < cols" "0 \<le> ty" "ty < rows" "on_page x y (?page tx ty)"
      by (auto simp: set_rect_points)
    have "(tx + 1) * ?pw \<le> cols * ?pw" "(ty + 1) * ?ph \<le> rows * ?ph"
      using t nn by (auto intro!: mult_right_mono)
    moreover have "0 \<le> tx * ?pw" "0 \<le> ty * ?ph" using t nn by simp_all
    ultimately show "0 \<le> x \<and> x < cols * ?pw \<and> 0 \<le> y \<and> y < rows * ?ph"
      using t(5) by (simp add: on_page_def algebra_simps)
  next
    assume a: "0 \<le> x \<and> x < cols * ?pw \<and> 0 \<le> y \<and> y < rows * ?ph"
    then have pos: "0 < ?pw" "0 < ?ph" using assms(3,4) nn by (auto simp: less_le)
    then have "x div ?pw < cols" "y div ?ph < rows" "0 \<le> x div ?pw" "0 \<le> y div ?ph"
      using a by (simp_all add: int_div_less pos_imp_zdiv_nonneg_iff)
    moreover have "on_page x y (?page (x div ?pw) (y div ?ph))"
    proof -
      have "x div ?pw * ?pw \<le> x \<and> x < x div ?pw * ?pw + ?pw" "y div ?ph * ?ph \<le> y \<and> y < y div ?ph * ?ph + ?ph"
        using pos pos_mod_bound [of ?pw x] pos_mod_bound [of ?ph y] pos_mod_sign [of ?pw x] pos_mod_sign [of ?ph y]
          div_mult_mod_eq [of x ?pw] div_mult_mod_eq [of y ?ph] by linarith+
      then show ?thesis by (simp add: on_page_def)
    qed
    ultimately show "\<exists>p\<in>set ?pages. on_page x y p"
      by (force simp: set_rect_points)
  qed
  have "vram_get ?pages x y = (if 0 \<le> x \<and> x < cols * ?pw \<and> 0 \<le> y \<and> y < rows * ?ph then Some False else None)" for x y
    unfolding inv [symmetric] by (rule vram_get_blank [OF blank])
  then show ?thesis using new wf by (intro exI conjI allI) (assumption | simp only: display.simps)+
qed

lemma vram_new_blank_witness:
  "\<exists>d. mrb_vram_s_new 128 64 1 8 = Some d \<and> vram_get (d_pages d) 127 63 = Some False \<and> vram_get (d_pages d) 128 0 = None"
proof -
  obtain d where "mrb_vram_s_new 128 64 1 8 = Some d" "\<forall>x y. vram_get (d_pages d) x y =
      (if 0 \<le> x \<and> x < 1 * (128 div 1) \<and> 0 \<le> y \<and> y < 8 * (64 div 8) then Some False else None)"
    using vram_new_blank [of 128 64 1 8] by auto
  then show ?thesis by auto
qed

text \<open>A display of one blank page of eight by eight pixels, for the witnesses.\<close>

definition demo_display :: display where
  "demo_display = \<lparr>d_w = 8, d_h = 8, d_pages =
     [\<lparr>pg_x = 0, pg_y = 0, pg_w = 8, pg_h = 8, pg_buffer = replicate 8 0, pg_dirty = False\<rparr>]\<rparr>"

lemma demo_display [simp]:
  "pages_wf (d_pages demo_display)"
  "vram_get (d_pages demo_display) x y = (if 0 \<le> x \<and> x < 8 \<and> 0 \<le> y \<and> y < 8 then Some False else None)"
proof -
  show "pages_wf (d_pages demo_display)" by (simp add: demo_display_def pages_wf_def page_wf_def)
  show "vram_get (d_pages demo_display) x y = (if 0 \<le> x \<and> x < 8 \<and> 0 \<le> y \<and> y < 8 then Some False else None)"
    by (auto simp: demo_display_def vram_get_def on_page_def mono_page_get_pixel_def Let_def nth_replicate)
qed

text \<open>Setting a pixel changes exactly that point, and nothing when it lies on no page.\<close>

theorem vram_set_pixel_refines:
  assumes "pages_wf (d_pages d)"
  shows "\<exists>d'. mrb_vram_set_pixel x y color d = Some d' \<and> pages_wf (d_pages d') \<and>
    (\<forall>x' y'. vram_get (d_pages d') x' y' =
      (if x' = x \<and> y' = y \<and> vram_get (d_pages d) x y \<noteq> None then Some ((word_of_int color :: u32) \<noteq> 0)
       else vram_get (d_pages d) x' y'))"
  using assms by (auto simp: mrb_vram_set_pixel_def set_pixel_def vram_get_put map_option_case split: option.splits)

lemma vram_set_pixel_refines_witness:
  "\<exists>d'. mrb_vram_set_pixel 3 5 1 demo_display = Some d' \<and> vram_get (d_pages d') 3 5 = Some True \<and>
     vram_get (d_pages d') 4 5 = Some False"
  using vram_set_pixel_refines [OF demo_display(1), of 3 5 1] by auto

lemma rect_image:
  "(px, py) \<in> (\<lambda>(x, y, c). (x, y)) ` set (map (\<lambda>(j, i). (x + j, y + i, f j i)) (rect_points w h)) \<longleftrightarrow>
     x \<le> px \<and> px < x + w \<and> y \<le> py \<and> py < y + h"
proof -
  have "(\<lambda>(x, y, c). (x, y)) ` set (map (\<lambda>(j, i). (x + j, y + i, f j i)) (rect_points w h)) =
      (\<lambda>(j, i). (x + j, y + i)) ` {(j, i). 0 \<le> j \<and> j < w \<and> 0 \<le> i \<and> i < h}"
    by (simp add: set_rect_points image_image case_prod_unfold)
  moreover have "(px, py) \<in> (\<lambda>(j, i). (x + j, y + i)) ` {(j, i). 0 \<le> j \<and> j < w \<and> 0 \<le> i \<and> i < h} \<longleftrightarrow>
      (\<exists>j i. 0 \<le> j \<and> j < w \<and> 0 \<le> i \<and> i < h \<and> px = x + j \<and> py = y + i)"
    by auto
  moreover have "\<dots> \<longleftrightarrow> x \<le> px \<and> px < x + w \<and> y \<le> py \<and> py < y + h" by presburger
  ultimately show ?thesis by simp
qed

text \<open>Drawing a rectangle colours exactly the points of the rectangle that lie on a page, and
  \<^verbatim>\<open>erase\<close> switches exactly those off.\<close>

theorem vram_draw_rect_refines:
  assumes "pages_wf (d_pages d)"
  shows "\<exists>d' d''. mrb_vram_draw_rect x y w h color d = Some d' \<and> mrb_vram_erase x y w h d = Some d'' \<and>
    pages_wf (d_pages d') \<and> pages_wf (d_pages d'') \<and>
    (\<forall>px py. let inside = x \<le> px \<and> px < x + w \<and> y \<le> py \<and> py < y + h \<and> vram_get (d_pages d) px py \<noteq> None in
      vram_get (d_pages d') px py = (if inside then Some ((word_of_int color :: u32) \<noteq> 0) else vram_get (d_pages d) px py) \<and>
      vram_get (d_pages d'') px py = (if inside then Some False else vram_get (d_pages d) px py))"
proof -
  have get: "vram_get (d_pages (draw_rect mono_page_set_pixel x y w h c d)) px py =
      (if x \<le> px \<and> px < x + w \<and> y \<le> py \<and> py < y + h then map_option (\<lambda>_. c \<noteq> 0) (vram_get (d_pages d) px py)
       else vram_get (d_pages d) px py)" for c px py
    unfolding draw_rect_put_all by (subst vram_get_put_all [OF assms, where f = "\<lambda>_ _. c"]) (auto simp only: rect_image, auto)
  have wf: "pages_wf (d_pages (draw_rect mono_page_set_pixel x y w h c d))" for c
    unfolding draw_rect_put_all by (rule put_all_wf [OF assms])
  show ?thesis
    by (auto simp: mrb_vram_draw_rect_def mrb_vram_erase_def get wf Let_def)
qed
section \<open>Bitmaps\<close>

lemma vram_draw_rect_refines_witness:
  "\<exists>d'. mrb_vram_draw_rect 2 2 3 1 1 demo_display = Some d' \<and> vram_get (d_pages d') 4 2 = Some True \<and>
     vram_get (d_pages d') 5 2 = Some False"
  using vram_draw_rect_refines [OF demo_display(1), of 2 2 3 1 1] by (auto simp: Let_def)

lemma for_each_put:
  "for_each (\<lambda>j pages. do { c \<leftarrow> Some (f j); Some (put_pixel sp (x + j) y c pages) }) js pages =
     Some (foldl (\<lambda>pages j. put_pixel sp (x + j) y (f j) pages) pages js)"
  by (rule for_each_total) simp

text \<open>The points that \<^verbatim>\<open>draw_bitmap\<close> draws: rows that are not integers are skipped.\<close>

definition bitmap_points :: "int \<Rightarrow> int \<Rightarrow> int \<Rightarrow> mrb_value list \<Rightarrow> int list \<Rightarrow> (int \<times> int \<times> u32) list" where
  "bitmap_points x y width rows img_ys = concat (map (\<lambda>i. case rows ! nat i of
     VInt row \<Rightarrow> map (\<lambda>j. (x + j, y + i,
       ucast (drop_bit (nat (width - 1 - j)) (word_of_int row :: u64) AND 1))) [0..width - 1]
   | _ \<Rightarrow> []) img_ys)"

lemma bitmap_row:
  assumes "width \<le> 64"
  shows "for_each (\<lambda>img_x pages. do {
      pixel \<leftarrow> bitmap_pixel width row img_x;
      Some (put_pixel sp (x + img_x) y' pixel pages)
    }) [0..width - 1] pages =
    Some (foldl (\<lambda>pages j. put_pixel sp (x + j) y' (ucast (drop_bit (nat (width - 1 - j)) row AND 1)) pages)
      pages [0..width - 1])"
  using assms by (intro for_each_total) (simp add: bitmap_pixel_def)

lemma put_all_append: "put_all (ps @ qs) pages = put_all qs (put_all ps pages)"
  by (simp add: put_all_def)

lemma bitmap_one_row:
  assumes "width \<le> 64"
  shows "(case rows ! nat i of
      VInt row \<Rightarrow> for_each (\<lambda>img_x pages. do {
        pixel \<leftarrow> bitmap_pixel width (word_of_int row) img_x;
        Some (put_pixel mono_page_set_pixel (x + img_x) (y + i) pixel pages)
      }) [0..width - 1] pages
    | _ \<Rightarrow> Some pages) = Some (put_all (bitmap_points x y width rows [i]) pages)"
  unfolding bitmap_row [OF assms]
  by (cases "rows ! nat i") (simp_all add: bitmap_points_def put_all_def foldl_map)

lemma bitmap_rows:
  assumes "width \<le> 64"
  shows "for_each (\<lambda>img_y pages.
      case rows ! nat img_y of
        VInt row \<Rightarrow> for_each (\<lambda>img_x pages. do {
          pixel \<leftarrow> bitmap_pixel width (word_of_int row) img_x;
          Some (put_pixel mono_page_set_pixel (x + img_x) (y + img_y) pixel pages)
        }) [0..width - 1] pages
      | _ \<Rightarrow> Some pages) img_ys pages = Some (put_all (bitmap_points x y width rows img_ys) pages)"
proof -
  have step: "bitmap_points x y width rows (i # img_ys) = bitmap_points x y width rows [i] @ bitmap_points x y width rows img_ys"
    for i img_ys by (simp add: bitmap_points_def)
  have "foldl (\<lambda>pages i. put_all (bitmap_points x y width rows [i]) pages) pages img_ys =
      put_all (bitmap_points x y width rows img_ys) pages"
  proof (induction img_ys arbitrary: pages)
    case Nil
    then show ?case by (simp add: bitmap_points_def put_all_def)
  next
    case (Cons i img_ys)
    then show ?case by (simp only: step [of i img_ys] put_all_append foldl.simps)
  qed
  with for_each_total [OF bitmap_one_row [OF assms], where xs = img_ys] show ?thesis by simp
qed

text \<open>C17: Up to a width of 64 a bitmap is drawn without undefined shifts: the point in column \<open>j\<close> of
  row \<open>i\<close> gets bit \<open>width - 1 - j\<close> of the row's integer, and all other points keep theirs.\<close>

theorem vram_draw_bitmap_refines:
  assumes "pages_wf (d_pages d)" "0 < width" "width \<le> 64" "0 < height" "\<forall>r\<in>set rows. \<exists>n. r = VInt n"
  shows "\<exists>d'. mrb_vram_draw_bitmap [VInt x, VInt y, VInt width, VInt height, VArray rows] d = Some (Inr (), d') \<and>
    pages_wf (d_pages d') \<and>
    (\<forall>px py. vram_get (d_pages d') px py =
      (if x \<le> px \<and> px < x + width \<and> y \<le> py \<and> py < y + min height (int (length rows))
       then (case rows ! nat (py - y) of VInt row \<Rightarrow>
           map_option (\<lambda>_. bit (word_of_int row :: u64) (nat (width - 1 - (px - x)))) (vram_get (d_pages d) px py)
         | _ \<Rightarrow> vram_get (d_pages d) px py)
       else vram_get (d_pages d) px py))"
proof -
  let ?h = "min height (int (length rows))"
  let ?pts = "bitmap_points x y width rows [0..?h - 1]"
  let ?f = "\<lambda>px py. case rows ! nat (py - y) of VInt row \<Rightarrow>
      (ucast (drop_bit (nat (width - 1 - (px - x))) (word_of_int row :: u64) AND 1) :: u32) | _ \<Rightarrow> 0"
  have row: "\<exists>n. rows ! nat i = VInt n" if "0 \<le> i" "i < ?h" for i
  proof -
    have "rows ! nat i \<in> set rows" by (rule nth_mem) (use that in linarith)
    with assms(5) show ?thesis by blast
  qed
  have f: "\<forall>(px, py, c)\<in>set ?pts. c = ?f px py"
    by (auto simp: bitmap_points_def split: mrb_value.splits)
  have dom: "(px, py) \<in> (\<lambda>(x, y, c). (x, y)) ` set ?pts \<longleftrightarrow> x \<le> px \<and> px < x + width \<and> y \<le> py \<and> py < y + ?h" for px py
  proof
    assume "(px, py) \<in> (\<lambda>(x, y, c). (x, y)) ` set ?pts"
    then show "x \<le> px \<and> px < x + width \<and> y \<le> py \<and> py < y + ?h"
      by (auto simp: bitmap_points_def split: mrb_value.splits)
  next
    assume a: "x \<le> px \<and> px < x + width \<and> y \<le> py \<and> py < y + ?h"
    then have "0 \<le> py - y" "py - y < ?h" by linarith+
    then obtain n where n: "rows ! nat (py - y) = VInt n" using row by blast
    have "(px, py, ?f px py) \<in> set ?pts"
      unfolding bitmap_points_def set_concat set_map UN_iff
      by (rule bexI [OF _ imageI [of "py - y"]])
        (use a n in \<open>auto simp: image_iff intro!: bexI [of _ "px - x"]\<close>)
    then show "(px, py) \<in> (\<lambda>(x, y, c). (x, y)) ` set ?pts" by force
  qed
  have one: "(ucast (drop_bit k b AND 1) :: u32) \<noteq> 0 \<longleftrightarrow> bit b k" for b :: u64 and k
  proof -
    have "(ucast (drop_bit k b AND 1) :: u32) = of_bool (bit b k)"
      by (rule bit_word_eqI) (auto simp: bit_ucast_iff bit_and_iff bit_drop_bit_eq bit_1_iff bit_of_bool_iff dest: bit_imp_le_length)
    then show ?thesis by simp
  qed
  have draw: "mrb_vram_draw_bitmap [VInt x, VInt y, VInt width, VInt height, VArray rows] d =
      Some (Inr (), d\<lparr>d_pages := put_all ?pts (d_pages d)\<rparr>)"
    using assms(2-4) bitmap_rows [OF assms(3), where rows = rows and x = x and y = y and img_ys = "[0..?h - 1]" and pages = "d_pages d"]
    by (simp add: mrb_vram_draw_bitmap_def draw_bitmap_def)
  have get: "vram_get (put_all ?pts (d_pages d)) px py =
      (if x \<le> px \<and> px < x + width \<and> y \<le> py \<and> py < y + ?h
       then (case rows ! nat (py - y) of VInt row \<Rightarrow>
           map_option (\<lambda>_. bit (word_of_int row :: u64) (nat (width - 1 - (px - x)))) (vram_get (d_pages d) px py)
         | _ \<Rightarrow> vram_get (d_pages d) px py)
       else vram_get (d_pages d) px py)" for px py
  proof (cases "x \<le> px \<and> px < x + width \<and> y \<le> py \<and> py < y + ?h")
    case True
    then have "0 \<le> py - y" "py - y < ?h" by linarith+
    then obtain n where "rows ! nat (py - y) = VInt n" using row by blast
    with True show ?thesis
      using vram_get_put_all [OF assms(1) f, of px py] unfolding dom by (simp add: one)
  next
    case False
    then show ?thesis
      using vram_get_put_all [OF assms(1) f, of px py] unfolding dom by argo
  qed
  show ?thesis using draw get put_all_wf [OF assms(1)] by simp
qed

lemma vram_draw_bitmap_refines_witness:
  "\<exists>d'. mrb_vram_draw_bitmap [VInt 0, VInt 0, VInt 3, VInt 2, VArray [VInt 5, VInt 2]] demo_display = Some (Inr (), d') \<and>
     vram_get (d_pages d') 0 0 = Some True \<and> vram_get (d_pages d') 1 0 = Some False \<and> vram_get (d_pages d') 1 1 = Some True"
  using vram_draw_bitmap_refines [OF demo_display(1), of 3 2 "[VInt 5, VInt 2]" 0 0]
  by (auto simp: bit_iff_odd)

end
