(* ===== verification/VramLine.thy ===== *)
theory VramLine
  imports VramProps
begin

text \<open>
  The line drawing: the loop of Bresenham's algorithm ends, and the points that it draws are
  connected and lie within half a pixel of the ideal line. \<open>i\<close> and \<open>j\<close> count the steps in
  the two directions; the error term of the code is \<open>(j + 1) * dx - (i + 1) * dy\<close>.
\<close>

section \<open>The steps\<close>

definition line_err :: "int \<Rightarrow> int \<Rightarrow> int \<Rightarrow> int \<Rightarrow> int" where
  "line_err dx dy i j = (j + 1) * dx - (i + 1) * dy"

definition next_i :: "int \<Rightarrow> int \<Rightarrow> int \<Rightarrow> int \<Rightarrow> int" where
  "next_i dx dy i j = (if - dy < 2 * line_err dx dy i j then i + 1 else i)"

definition next_j :: "int \<Rightarrow> int \<Rightarrow> int \<Rightarrow> int \<Rightarrow> int" where
  "next_j dx dy i j = (if 2 * line_err dx dy i j < dx then j + 1 else j)"

fun line_ij :: "int \<Rightarrow> int \<Rightarrow> nat \<Rightarrow> int \<Rightarrow> int \<Rightarrow> (int \<times> int) list" where
  "line_ij dx dy 0 i j = [(i, j)]"
| "line_ij dx dy (Suc n) i j = (i, j) # line_ij dx dy n (next_i dx dy i j) (next_j dx dy i j)"

lemma line_err_step:
  "line_err dx dy (next_i dx dy i j) (next_j dx dy i j) =
     (let e = line_err dx dy i j; e' = (if - dy < 2 * e then e - dy else e) in if 2 * e < dx then e' + dx else e')"
  by (auto simp: line_err_def next_i_def next_j_def Let_def algebra_simps)

lemma next_swap: "next_i dy dx j i = next_j dx dy i j" "next_j dy dx j i = next_i dx dy i j"
  by (auto simp: next_i_def next_j_def line_err_def algebra_simps)

lemma line_loop_steps:
  assumes end_pt: "\<And>i j. R 0 i j \<Longrightarrow> i = dx \<and> j = dy"
    and step: "\<And>n i j. R (Suc n) i j \<Longrightarrow> \<not> (i = dx \<and> j = dy) \<and> R n (next_i dx dy i j) (next_j dx dy i j)"
    and sx: "sx = 1 \<or> sx = - 1" and sy: "sy = 1 \<or> sy = - 1"
  shows "R n i j \<Longrightarrow> line_loop sp (x0 + sx * dx) (y0 + sy * dy) dx dy sx sy c (x0 + sx * i) (y0 + sy * j)
      (line_err dx dy i j) pages =
    Some (foldl (\<lambda>pages (i, j). put_pixel sp (x0 + sx * i) (y0 + sy * j) c pages) pages (line_ij dx dy n i j))"
proof (induction n arbitrary: i j pages)
  case 0
  then show ?case using end_pt by (subst line_loop.simps) auto
next
  case (Suc n)
  let ?i = "next_i dx dy i j" and ?j = "next_j dx dy i j" and ?e = "line_err dx dy i j"
  have ne: "\<not> (x0 + sx * i = x0 + sx * dx \<and> y0 + sy * j = y0 + sy * dy)"
    using step [OF Suc.prems] sx sy by auto
  have x: "x0 + sx * ?i = (if - dy < 2 * ?e then x0 + sx * i + sx else x0 + sx * i)"
    and y: "y0 + sy * ?j = (if 2 * ?e < dx then y0 + sy * j + sy else y0 + sy * j)"
    by (simp_all add: next_i_def next_j_def algebra_simps)
  have "line_loop sp (x0 + sx * dx) (y0 + sy * dy) dx dy sx sy c (x0 + sx * i) (y0 + sy * j) ?e pages =
      line_loop sp (x0 + sx * dx) (y0 + sy * dy) dx dy sx sy c (x0 + sx * ?i) (y0 + sy * ?j) (line_err dx dy ?i ?j)
        (put_pixel sp (x0 + sx * i) (y0 + sy * j) c pages)"
    unfolding x y line_err_step
    by (subst line_loop.simps) (use ne in \<open>simp only: Let_def if_False split: if_splits\<close>, auto)
  also have "\<dots> = Some (foldl (\<lambda>pages (i, j). put_pixel sp (x0 + sx * i) (y0 + sy * j) c pages)
      (put_pixel sp (x0 + sx * i) (y0 + sy * j) c pages) (line_ij dx dy n ?i ?j))"
    using Suc.IH step [OF Suc.prems] by blast
  finally show ?case by simp
qed

section \<open>The invariant\<close>

text \<open>For a line that is wider than high: after \<open>i\<close> steps the point is within half a pixel.\<close>

definition line_inv :: "int \<Rightarrow> int \<Rightarrow> int \<Rightarrow> int \<Rightarrow> bool" where
  "line_inv dx dy i j \<longleftrightarrow> 0 \<le> dy \<and> dy \<le> dx \<and> 0 \<le> i \<and> i \<le> dx \<and> 0 \<le> j \<and> j \<le> dy \<and>
     2 * (i * dy) \<le> 2 * (j * dx) + dx \<and> 2 * (j * dx) \<le> 2 * (i * dy) + dx"

lemma line_inv_start: "0 \<le> dy \<Longrightarrow> dy \<le> dx \<Longrightarrow> line_inv dx dy 0 0"
  by (simp add: line_inv_def)

lemma line_inv_end: "line_inv dx dy dx j \<Longrightarrow> j = dy"
proof -
  assume inv: "line_inv dx dy dx j"
  show "j = dy"
  proof (cases "dx = 0")
    case True
    then show ?thesis using inv by (auto simp: line_inv_def)
  next
    case False
    then have dx: "0 < dx" using inv by (auto simp: line_inv_def)
    have "dx * (2 * dy) \<le> dx * (2 * j + 1)" using inv by (simp add: line_inv_def algebra_simps)
    then have "2 * dy \<le> 2 * j + 1" using dx by (simp only: mult_le_cancel_left_pos)
    then show ?thesis using inv by (simp add: line_inv_def)
  qed
qed

lemma line_inv_x_step:
  assumes inv: "line_inv dx dy i j" and i: "i < dx"
  shows "next_i dx dy i j = i + 1"
proof -
  have "2 * (i * dy) \<noteq> 2 * (j * dx) + dx" if "dy = dx"
  proof
    assume "2 * (i * dy) = 2 * (j * dx) + dx"
    then have "dx * (2 * i) = dx * (2 * j + 1)" using that by (simp add: algebra_simps)
    then have "2 * i = 2 * j + 1" using i inv by (simp add: line_inv_def)
    then show False by presburger
  qed
  then have "- dy < 2 * line_err dx dy i j"
    using inv i by (cases "dy = dx") (auto simp: line_inv_def line_err_def algebra_simps)
  then show ?thesis by (simp add: next_i_def)
qed

lemma line_inv_step:
  assumes inv: "line_inv dx dy i j" and i: "i < dx"
  shows "line_inv dx dy (i + 1) (next_j dx dy i j)"
proof (cases "2 * line_err dx dy i j < dx")
  case True
  then have lt: "2 * (j * dx) + dx < 2 * (i * dy) + 2 * dy"
    by (simp add: line_err_def algebra_simps)
  have "(i + 1) * dy \<le> dx * dy" using i inv by (intro mult_right_mono) (auto simp: line_inv_def)
  then have "dx * (2 * j + 1) < dx * (2 * dy)" using lt by (simp add: algebra_simps)
  then have "2 * j + 1 < 2 * dy" using i inv by (simp add: line_inv_def)
  then show ?thesis using inv i lt True by (simp add: line_inv_def next_j_def algebra_simps)
next
  case False
  then show ?thesis using inv i by (auto simp: line_inv_def next_j_def line_err_def algebra_simps)
qed

text \<open>The invariant for both directions; \<open>n\<close> steps are left.\<close>

definition line_rel :: "int \<Rightarrow> int \<Rightarrow> nat \<Rightarrow> int \<Rightarrow> int \<Rightarrow> bool" where
  "line_rel dx dy n i j \<longleftrightarrow> (if dy \<le> dx then line_inv dx dy i j \<and> int n = dx - i
     else line_inv dy dx j i \<and> int n = dy - j)"

lemma line_rel_end: "line_rel dx dy 0 i j \<Longrightarrow> i = dx \<and> j = dy"
  using line_inv_end [of dx dy j] line_inv_end [of dy dx i] by (auto simp: line_rel_def split: if_splits)

lemma line_rel_step:
  assumes "line_rel dx dy (Suc n) i j"
  shows "\<not> (i = dx \<and> j = dy)" "line_rel dx dy n (next_i dx dy i j) (next_j dx dy i j)"
proof -
  show "\<not> (i = dx \<and> j = dy)" using assms by (auto simp: line_rel_def split: if_splits)
  show "line_rel dx dy n (next_i dx dy i j) (next_j dx dy i j)"
  proof (cases "dy \<le> dx")
    case True
    then have "line_inv dx dy i j" "int (Suc n) = dx - i" using assms by (simp_all add: line_rel_def)
    with line_inv_step [of dx dy i j] line_inv_x_step [of dx dy i j] True show ?thesis by (simp add: line_rel_def)
  next
    case False
    then have "line_inv dy dx j i" "int (Suc n) = dy - j" using assms by (simp_all add: line_rel_def)
    with line_inv_step [of dy dx j i] line_inv_x_step [of dy dx j i] False next_swap [of dy dx j i]
    show ?thesis by (simp add: line_rel_def)
  qed
qed

lemma line_rel_near: "line_rel dx dy n i j \<Longrightarrow> \<bar>2 * (i * dy - j * dx)\<bar> \<le> max dx dy"
  by (auto simp: line_rel_def line_inv_def algebra_simps split: if_splits)

lemma line_rel_box: "line_rel dx dy n i j \<Longrightarrow> 0 \<le> i \<and> i \<le> dx \<and> 0 \<le> j \<and> j \<le> dy"
  by (auto simp: line_rel_def line_inv_def split: if_splits)

lemma line_ij_props:
  assumes "line_rel dx dy n i j"
  shows "length (line_ij dx dy n i j) = Suc n" "hd (line_ij dx dy n i j) = (i, j)"
    "last (line_ij dx dy n i j) = (dx, dy)"
    "\<forall>(a, b)\<in>set (line_ij dx dy n i j). \<exists>m. line_rel dx dy m a b"
    "\<forall>k<n. \<exists>a b. line_ij dx dy n i j ! k = (a, b) \<and> line_ij dx dy n i j ! Suc k = (next_i dx dy a b, next_j dx dy a b)"
  using assms
proof (induction n arbitrary: i j)
  case 0
  {
    case 3
    then show ?case using line_rel_end by simp
  next
    case 4
    then show ?case by auto
  }
next
  case (Suc n)
  note nxt = line_rel_step(2)
  have ne: "line_ij dx dy n a b \<noteq> []" for a b by (cases n) simp_all
  {
    case 1
    show ?case using Suc.IH(1) [OF nxt [OF 1]] by simp
  next
    case 2
    show ?case by simp
  next
    case 3
    show ?case using Suc.IH(3) [OF nxt [OF 3]] ne by simp
  next
    case 4
    then show ?case using Suc.IH(4) [OF nxt [OF 4]] by auto
  next
    case 5
    have "line_ij dx dy n (next_i dx dy i j) (next_j dx dy i j) ! 0 = (next_i dx dy i j, next_j dx dy i j)"
      using Suc.IH(2) [OF nxt [OF 5]] ne hd_conv_nth by metis
    then show ?case
      using Suc.IH(5) [OF nxt [OF 5]] by (auto simp: nth_Cons' less_Suc_eq_0_disj)
  }
qed simp_all
section \<open>The line\<close>

lemma line_no_overflow:
  assumes "line_rel dx dy n i j" "dx \<le> 2 ^ 29" "dy \<le> 2 ^ 29"
  shows "\<bar>2 * line_err dx dy i j\<bar> < 2 ^ 31"
proof -
  have "2 * line_err dx dy i j = 2 * dx - 2 * dy - 2 * (i * dy - j * dx)"
    by (simp add: line_err_def algebra_simps)
  moreover have "0 \<le> dx" "0 \<le> dy" using line_rel_box [OF assms(1)] by linarith+
  moreover have "\<bar>2 * (i * dy - j * dx)\<bar> \<le> 2 ^ 29"
    using line_rel_near [OF assms(1)] assms(2,3) by (auto simp: max_def split: if_splits)
  ultimately show ?thesis using assms(2,3) by (simp add: abs_if split: if_splits)
qed

text \<open>The points that are drawn, in order.\<close>

definition line_points :: "int \<Rightarrow> int \<Rightarrow> int \<Rightarrow> int \<Rightarrow> (int \<times> int) list" where
  "line_points x0 y0 x1 y1 =
     map (\<lambda>(i, j). (x0 + (if x0 < x1 then 1 else - 1) * i, y0 + (if y0 < y1 then 1 else - 1) * j))
       (line_ij \<bar>x1 - x0\<bar> \<bar>y1 - y0\<bar> (nat (max \<bar>x1 - x0\<bar> \<bar>y1 - y0\<bar>)) 0 0)"

lemma line_rel_start: "0 \<le> dx \<Longrightarrow> 0 \<le> dy \<Longrightarrow> line_rel dx dy (nat (max dx dy)) 0 0"
  using line_inv_start [of dy dx] line_inv_start [of dx dy] by (simp add: line_rel_def max_def)

lemma line_drawn:
  "mrb_vram_draw_line x0 y0 x1 y1 color d =
     Some (d\<lparr>d_pages := put_all (map (\<lambda>(x, y). (x, y, word_of_int color)) (line_points x0 y0 x1 y1)) (d_pages d)\<rparr>)"
proof -
  define dx dy where "dx = \<bar>x1 - x0\<bar>" and "dy = \<bar>y1 - y0\<bar>"
  define sx sy :: int where "sx = (if x0 < x1 then 1 else - 1)" and "sy = (if y0 < y1 then 1 else - 1)"
  define n where "n = nat (max dx dy)"
  let ?ij = "line_ij dx dy n 0 0"
  have s: "sx = 1 \<or> sx = - 1" "sy = 1 \<or> sy = - 1" by (auto simp: sx_def sy_def)
  have x1: "x1 = x0 + sx * dx" and y1: "y1 = y0 + sy * dy" by (auto simp: sx_def sy_def dx_def dy_def)
  have rel: "line_rel dx dy n 0 0" unfolding n_def by (rule line_rel_start) (simp_all add: dx_def dy_def)
  have pts: "line_points x0 y0 x1 y1 = map (\<lambda>(i, j). (x0 + sx * i, y0 + sy * j)) ?ij"
    by (simp add: line_points_def dx_def dy_def sx_def sy_def n_def)
  have "line_loop mono_page_set_pixel x1 y1 dx dy sx sy (word_of_int color) x0 y0 (dx - dy) (d_pages d) =
      Some (foldl (\<lambda>pages (i, j). mono_put (x0 + sx * i) (y0 + sy * j) (word_of_int color) pages) (d_pages d) ?ij)"
    using line_loop_steps [where R = "line_rel dx dy" and dx = dx and dy = dy and n = n and i = 0 and j = 0
        and sx = sx and sy = sy and ?x0.0 = x0 and ?y0.0 = y0 and c = "word_of_int color"
        and pages = "d_pages d" and sp = mono_page_set_pixel, OF line_rel_end _ s rel] line_rel_step
    by (simp add: line_err_def x1 y1)
  also have "\<dots> = Some (put_all (map (\<lambda>(x, y). (x, y, word_of_int color)) (line_points x0 y0 x1 y1)) (d_pages d))"
    by (simp add: put_all_def foldl_map case_prod_unfold pts)
  finally have loop: "line_loop mono_page_set_pixel x1 y1 dx dy sx sy (word_of_int color) x0 y0 (dx - dy) (d_pages d) = \<dots>" .
  have dxy: "dx = (if x0 < x1 then x1 - x0 else x0 - x1)" "dy = (if y0 < y1 then y1 - y0 else y0 - y1)"
    by (auto simp: dx_def dy_def)
  show ?thesis
    unfolding mrb_vram_draw_line_def draw_line_def Let_def dxy [symmetric] sx_def [symmetric] sy_def [symmetric] loop
    by simp
qed

text \<open>C16: The line drawing ends and draws \<open>max |dx| |dy| + 1\<close> points from the first to the last end
  point, each next to the one before and within half a pixel of the ideal line.\<close>

theorem vram_line_bresenham:
  "\<exists>pts d'. mrb_vram_draw_line x0 y0 x1 y1 color d = Some d' \<and>
     d_pages d' = put_all (map (\<lambda>(x, y). (x, y, word_of_int color)) pts) (d_pages d) \<and>
     length pts = Suc (nat (max \<bar>x1 - x0\<bar> \<bar>y1 - y0\<bar>)) \<and> hd pts = (x0, y0) \<and> last pts = (x1, y1) \<and>
     (\<forall>(x, y)\<in>set pts. \<bar>2 * ((x - x0) * (y1 - y0) - (y - y0) * (x1 - x0))\<bar> \<le> max \<bar>x1 - x0\<bar> \<bar>y1 - y0\<bar>) \<and>
     (\<forall>k<length pts - 1. \<bar>fst (pts ! Suc k) - fst (pts ! k)\<bar> \<le> 1 \<and> \<bar>snd (pts ! Suc k) - snd (pts ! k)\<bar> \<le> 1)"
proof -
  define dx dy where "dx = \<bar>x1 - x0\<bar>" and "dy = \<bar>y1 - y0\<bar>"
  define sx sy :: int where "sx = (if x0 < x1 then 1 else - 1)" and "sy = (if y0 < y1 then 1 else - 1)"
  define n where "n = nat (max dx dy)"
  define at where "at = (\<lambda>(i, j). (x0 + sx * i, y0 + sy * j))"
  let ?ij = "line_ij dx dy n 0 0"
  have s: "sx = 1 \<or> sx = - 1" "sy = 1 \<or> sy = - 1" by (auto simp: sx_def sy_def)
  have x1: "x1 = x0 + sx * dx" and y1: "y1 = y0 + sy * dy" by (auto simp: sx_def sy_def dx_def dy_def)
  have nn: "0 \<le> dx" "0 \<le> dy" by (simp_all add: dx_def dy_def)
  have rel: "line_rel dx dy n 0 0" unfolding n_def by (rule line_rel_start) (use nn in simp_all)
  have pts: "line_points x0 y0 x1 y1 = map at ?ij"
    by (simp add: line_points_def dx_def dy_def sx_def sy_def n_def at_def)
  note props = line_ij_props [OF rel]
  have ne: "?ij \<noteq> []" using props(1) by auto
  have near: "\<bar>2 * ((x - x0) * (y1 - y0) - (y - y0) * (x1 - x0))\<bar> \<le> max \<bar>x1 - x0\<bar> \<bar>y1 - y0\<bar>"
    if mem: "(x, y) \<in> set (map at ?ij)" for x y
  proof -
    obtain i j where ij: "(i, j) \<in> set ?ij" "x = x0 + sx * i" "y = y0 + sy * j" using mem by (auto simp: at_def)
    then obtain m where "line_rel dx dy m i j" using props(4) by blast
    then have "\<bar>2 * (i * dy - j * dx)\<bar> \<le> max dx dy" by (rule line_rel_near)
    moreover have "(x - x0) * (y1 - y0) - (y - y0) * (x1 - x0) = (sx * sy) * (i * dy - j * dx)"
      unfolding ij(2,3) x1 y1 by (simp add: algebra_simps)
    moreover have "sx * sy = 1 \<or> sx * sy = - 1" using s by auto
    ultimately show ?thesis unfolding dx_def [symmetric] dy_def [symmetric] by auto
  qed
  have adj: "\<bar>fst (map at ?ij ! Suc k) - fst (map at ?ij ! k)\<bar> \<le> 1 \<and> \<bar>snd (map at ?ij ! Suc k) - snd (map at ?ij ! k)\<bar> \<le> 1"
    if "k < length (map at ?ij) - 1" for k
  proof -
    have k: "k < n" using that props(1) by simp
    then obtain a b where "?ij ! k = (a, b)" "?ij ! Suc k = (next_i dx dy a b, next_j dx dy a b)"
      using props(5) by blast
    with k props(1) s show ?thesis by (auto simp: at_def next_i_def next_j_def algebra_simps)
  qed
  have len: "length (map at ?ij) = Suc (nat (max \<bar>x1 - x0\<bar> \<bar>y1 - y0\<bar>))"
    using props(1) by (simp add: n_def dx_def dy_def)
  have hd_last: "hd (map at ?ij) = (x0, y0)" "last (map at ?ij) = (x1, y1)"
    using ne props(2,3) by (simp_all add: hd_map last_map at_def x1 y1)
  show ?thesis
    by (rule exI [of _ "map at ?ij"], rule exI, intro conjI ballI allI impI, rule line_drawn [unfolded pts])
      (use len hd_last near adj pts in \<open>simp_all only: display.simps display.update_convs case_prod_unfold prod.collapse\<close>, auto)
qed

lemma vram_line_bresenham_witness:
  "\<exists>pts d'. mrb_vram_draw_line 0 0 5 2 1 demo_display = Some d' \<and> length pts = 6 \<and> hd pts = (0, 0) \<and> last pts = (5, 2) \<and>
     d_pages d' = put_all (map (\<lambda>(x, y). (x, y, 1)) pts) (d_pages demo_display)"
  using vram_line_bresenham [of 0 0 5 2 1 demo_display] by fastforce

end
