(* ===== verification/VramPages.thy ===== *)
theory VramPages
  imports VramLine
begin

text \<open>
  The dirty flags of the frame buffer. A driver copies the pages that \<^verbatim>\<open>dirty_pages\<close> reports to
  the screen; whatever is drawn between two calls, every page whose content has changed is
  reported. (The strings that are reported are the buffers themselves; their value here is the content
  at the time of the call.) The drawing methods are the step relation \<open>vram_draw\<close>. The last section compares
  the methods of the two virtual machines.
\<close>

section \<open>What drawing does to a page\<close>

definition page_kept :: "display_page \<Rightarrow> display_page \<Rightarrow> bool" where
  "page_kept p p' \<longleftrightarrow> pg_x p' = pg_x p \<and> pg_y p' = pg_y p \<and> pg_w p' = pg_w p \<and> pg_h p' = pg_h p \<and>
     length (pg_buffer p') = length (pg_buffer p) \<and>
     (pg_dirty p \<longrightarrow> pg_dirty p') \<and> (pg_buffer p' \<noteq> pg_buffer p \<longrightarrow> pg_dirty p')"

abbreviation pages_kept :: "display_page list \<Rightarrow> display_page list \<Rightarrow> bool" where
  "pages_kept \<equiv> list_all2 page_kept"

lemma page_kept_refl [simp]: "page_kept p p"
  by (simp add: page_kept_def)

lemma page_kept_trans: "page_kept p q \<Longrightarrow> page_kept q r \<Longrightarrow> page_kept p r"
  by (auto simp: page_kept_def)

lemma pages_kept_refl [simp]: "pages_kept ps ps"
  by (simp add: list.rel_refl)

lemma pages_kept_trans: "pages_kept ps qs \<Longrightarrow> pages_kept qs rs \<Longrightarrow> pages_kept ps rs"
  by (rule list_all2_trans [of page_kept page_kept page_kept]) (auto intro: page_kept_trans)

lemma set_pixel_kept [simp]: "page_kept p (mono_page_set_pixel x y c p)"
  by (auto simp: page_kept_def mono_page_set_pixel_def Let_def)

lemma fill_kept [simp]: "page_kept p (mono_page_fill c p)"
  by (auto simp: page_kept_def mono_page_fill_def)

lemma put_pixel_kept [simp]: "pages_kept ps (mono_put x y c ps)"
  by (induction ps) auto

lemma foldl_kept: "(\<And>p ps. pages_kept ps (f ps p)) \<Longrightarrow> pages_kept ps (foldl f ps pts)"
  by (induction pts arbitrary: ps) (auto intro: pages_kept_trans)

lemma for_each_kept:
  assumes "\<And>i ps ps'. f i ps = Some ps' \<Longrightarrow> pages_kept ps ps'"
  shows "for_each f is ps = Some ps' \<Longrightarrow> pages_kept ps ps'"
proof (induction "is" arbitrary: ps)
  case (Cons i "is")
  then obtain qs where "f i ps = Some qs" "for_each f is qs = Some ps'" by (auto split: Option.bind_splits)
  then show ?case using assms Cons.IH by (blast intro: pages_kept_trans)
qed simp

lemma put_all_kept [simp]: "pages_kept ps (put_all pts ps)"
  unfolding put_all_def by (rule foldl_kept) (simp add: case_prod_unfold)

lemma bitmap_kept:
  "draw_bitmap mono_page_set_pixel x y w h rows d = Some d' \<Longrightarrow> d_w d' = d_w d \<and> pages_kept (d_pages d) (d_pages d')"
  by (auto simp: draw_bitmap_def split: if_splits Option.bind_splits mrb_value.splits
      elim!: for_each_kept [rotated])

section \<open>The drawing methods as steps\<close>

inductive vram_draw :: "display \<Rightarrow> display \<Rightarrow> bool" where
  set_pixel: "mrb_vram_set_pixel x y c d = Some d' \<Longrightarrow> vram_draw d d'"
| line: "mrb_vram_draw_line x0 y0 x1 y1 c d = Some d' \<Longrightarrow> vram_draw d d'"
| rect: "mrb_vram_draw_rect x y w h c d = Some d' \<Longrightarrow> vram_draw d d'"
| erase: "mrb_vram_erase x y w h d = Some d' \<Longrightarrow> vram_draw d d'"
| fill: "mrb_vram_fill c d = Some d' \<Longrightarrow> vram_draw d d'"
| bitmap: "mrb_vram_draw_bitmap kws d = Some (r, d') \<Longrightarrow> vram_draw d d'"
| bytes: "mrb_vram_draw_bytes kws d = Some (r, d') \<Longrightarrow> vram_draw d d'"

inductive_cases vram_drawE: "vram_draw d d'"

lemma vram_draw_kept: "vram_draw d d' \<Longrightarrow> d_w d' = d_w d \<and> pages_kept (d_pages d) (d_pages d')"
proof (induction rule: vram_draw.induct)
  case (set_pixel x y c d d')
  then show ?case by (auto simp: mrb_vram_set_pixel_def Vram.set_pixel_def)
next
  case (line x0 y0 x1 y1 c d d')
  then show ?case by (auto simp: line_drawn)
next
  case (rect x y w h c d d')
  then show ?case by (auto simp: mrb_vram_draw_rect_def draw_rect_def intro!: foldl_kept)
next
  case (erase x y w h d d')
  then show ?case by (auto simp: mrb_vram_erase_def draw_rect_def intro!: foldl_kept)
next
  case (fill c d d')
  then show ?case by (auto simp: mrb_vram_fill_def list_all2_conv_all_nth)
next
  case (bitmap kws d r d')
  then show ?case
    by (auto simp: mrb_vram_draw_bitmap_def dest: bitmap_kept split: list.splits mrb_value.splits)
next
  case (bytes kws d r d')
  then show ?case
    by (auto simp: mrb_vram_draw_bytes_def draw_bytes_def intro!: foldl_kept split: list.splits mrb_value.splits if_splits)
qed

lemma vram_draws_kept:
  "vram_draw\<^sup>*\<^sup>* d d' \<Longrightarrow> d_w d' = d_w d \<and> pages_kept (d_pages d) (d_pages d')"
  by (induction rule: rtranclp_induct) (auto dest: vram_draw_kept intro: pages_kept_trans)

section \<open>The pages that are reported\<close>

definition page_entry :: "int \<Rightarrow> int \<Rightarrow> display_page \<Rightarrow> mrb_value" where
  "page_entry w i p = VArray [VInt (c_mod i (c_div w (pg_w p))), VInt (c_div i (c_div w (pg_w p))), VStr (pg_buffer p)]"

lemma pages_loop_dirty:
  assumes "\<forall>p\<in>set pages. pg_w p \<noteq> 0 \<and> c_div w (pg_w p) \<noteq> 0"
  shows "pages_loop True True w i pages =
    Some (map (\<lambda>k. page_entry w (i + int k) (pages ! k)) (filter (\<lambda>k. pg_dirty (pages ! k)) [0..<length pages]),
      map (\<lambda>p. p\<lparr>pg_dirty := False\<rparr>) pages)"
  using assms
proof (induction pages arbitrary: i)
  case (Cons p pages)
  have "[0..<length (p # pages)] = 0 # map Suc [0..<length pages]"
    by (simp add: upt_conv_Cons map_Suc_upt del: upt_Suc)
  moreover have "i + int (Suc k) = i + 1 + int k" for k by simp
  moreover have "pages_loop True True w (i + 1) pages =
      Some (map (\<lambda>k. page_entry w (i + 1 + int k) (pages ! k)) (filter (\<lambda>k. pg_dirty (pages ! k)) [0..<length pages]),
        map (\<lambda>p. p\<lparr>pg_dirty := False\<rparr>) pages)"
    using Cons by simp
  moreover have "pg_w p \<noteq> 0 \<and> c_div w (pg_w p) \<noteq> 0" using Cons.prems by simp
  ultimately show ?case
    by (simp add: filter_map comp_def Let_def page_entry_def [symmetric] del: upt_Suc of_nat_Suc)
      (simp add: ac_simps)
qed simp

lemma dirty_pages_result:
  assumes "\<forall>p\<in>set (d_pages d). pg_w p \<noteq> 0 \<and> c_div (d_w d) (pg_w p) \<noteq> 0"
  shows "mrb_vram_dirty_pages None d =
    Some (VArray (map (\<lambda>k. page_entry (d_w d) (int k) (d_pages d ! k))
        (filter (\<lambda>k. pg_dirty (d_pages d ! k)) [0..<length (d_pages d)])),
      d\<lparr>d_pages := map (\<lambda>p. p\<lparr>pg_dirty := False\<rparr>) (d_pages d)\<rparr>)"
  using pages_loop_dirty [OF assms, of 0]
  by (simp add: mrb_vram_dirty_pages_def mrb_vram_pages_sub_def pages_sub_def)

text \<open>
  Every page whose content has changed since a call of \<open>dirty_pages\<close> is reported by the next one,
  with the position that the code computes from its index and the widths of display and page.
\<close>

lemma vram_dirty_reported:
  assumes "\<forall>p\<in>set (d_pages d0). 0 < pg_w p \<and> pg_w p \<le> d_w d0"
  shows "\<exists>e0 d1. mrb_vram_dirty_pages None d0 = Some (e0, d1) \<and>
    (\<forall>d2. vram_draw\<^sup>*\<^sup>* d1 d2 \<longrightarrow> (\<exists>es d3. mrb_vram_dirty_pages None d2 = Some (VArray es, d3) \<and>
      map pg_buffer (d_pages d3) = map pg_buffer (d_pages d2) \<and> (\<forall>p\<in>set (d_pages d3). \<not> pg_dirty p) \<and>
      (\<forall>k<length (d_pages d2). let p = d_pages d2 ! k; cols = d_w d0 div pg_w p in
         pg_buffer p \<noteq> pg_buffer (d_pages d0 ! k) \<longrightarrow>
         VArray [VInt (int k mod cols), VInt (int k div cols), VStr (pg_buffer p)] \<in> set es)))"
proof -
  have div_pos: "c_div w v = w div v \<and> 0 < w div v" if "0 < v" "v \<le> w" for w v
    using that by (simp add: c_div_def pos_imp_zdiv_pos_iff)
  have nz: "pg_w p \<noteq> 0 \<and> c_div (d_w d0) (pg_w p) \<noteq> 0" if "0 < pg_w p" "pg_w p \<le> d_w d0" for p
    using div_pos [OF that] that by linarith
  define d1 where "d1 = d0\<lparr>d_pages := map (\<lambda>p. p\<lparr>pg_dirty := False\<rparr>) (d_pages d0)\<rparr>"
  obtain e0 where e0: "mrb_vram_dirty_pages None d0 = Some (e0, d1)"
    using dirty_pages_result [of d0] assms nz unfolding d1_def by blast
  have "\<exists>es d3. mrb_vram_dirty_pages None d2 = Some (VArray es, d3) \<and>
      map pg_buffer (d_pages d3) = map pg_buffer (d_pages d2) \<and> (\<forall>p\<in>set (d_pages d3). \<not> pg_dirty p) \<and>
      (\<forall>k<length (d_pages d2). let p = d_pages d2 ! k; cols = d_w d0 div pg_w p in
         pg_buffer p \<noteq> pg_buffer (d_pages d0 ! k) \<longrightarrow>
         VArray [VInt (int k mod cols), VInt (int k div cols), VStr (pg_buffer p)] \<in> set es)"
    if draws: "vram_draw\<^sup>*\<^sup>* d1 d2" for d2
  proof -
    note kept = vram_draws_kept [OF draws]
    have len: "length (d_pages d2) = length (d_pages d0)"
      using kept by (auto simp: d1_def dest!: list_all2_lengthD)
    have w: "d_w d2 = d_w d0" using kept by (simp add: d1_def)
    have page: "pg_w (d_pages d2 ! k) = pg_w (d_pages d0 ! k) \<and>
        (pg_buffer (d_pages d2 ! k) \<noteq> pg_buffer (d_pages d0 ! k) \<longrightarrow> pg_dirty (d_pages d2 ! k))"
      if "k < length (d_pages d2)" for k
      using kept that len by (auto simp: d1_def list_all2_conv_all_nth page_kept_def)
    have size: "0 < pg_w (d_pages d2 ! k) \<and> pg_w (d_pages d2 ! k) \<le> d_w d2" if "k < length (d_pages d2)" for k
      using page [OF that] assms that by (simp add: len w)
    let ?es = "map (\<lambda>k. page_entry (d_w d2) (int k) (d_pages d2 ! k))
        (filter (\<lambda>k. pg_dirty (d_pages d2 ! k)) [0..<length (d_pages d2)])"
    have "\<forall>p\<in>set (d_pages d2). pg_w p \<noteq> 0 \<and> c_div (d_w d2) (pg_w p) \<noteq> 0"
      using nz size by (metis w in_set_conv_nth)
    note res = dirty_pages_result [OF this]
    have entry: "VArray [VInt (int k mod (d_w d0 div pg_w p)), VInt (int k div (d_w d0 div pg_w p)), VStr (pg_buffer p)] \<in> set ?es"
      if "k < length (d_pages d2)" "p = d_pages d2 ! k" "pg_buffer p \<noteq> pg_buffer (d_pages d0 ! k)" for k p
    proof -
      have "c_div (d_w d2) (pg_w p) = d_w d0 div pg_w p" "0 < d_w d0 div pg_w p"
        using div_pos size [OF that(1)] that(2) w by auto
      moreover from this have "c_div (int k) (d_w d0 div pg_w p) = int k div (d_w d0 div pg_w p)"
        by (cases "k = 0") (simp_all add: c_div_def)
      ultimately have "page_entry (d_w d2) (int k) p =
          VArray [VInt (int k mod (d_w d0 div pg_w p)), VInt (int k div (d_w d0 div pg_w p)), VStr (pg_buffer p)]"
        by (simp add: page_entry_def c_mod_def minus_div_mult_eq_mod)
      then show ?thesis using that page [OF that(1)] by force
    qed
    show ?thesis
      by (rule exI, rule exI, intro conjI allI impI, rule res) (use entry in \<open>auto simp: Let_def\<close>)
  qed
  with e0 show ?thesis by blast
qed

section \<open>The page grid\<close>

text \<open>
  Which page a display of \<open>VRAM.new\<close> has at which index. Neither drawing nor reading the pages
  changes the geometry.
\<close>

lemma rect_points_Suc: "rect_points c (int (Suc n)) = rect_points c (int n) @ map (\<lambda>j. (j, int n)) [0..c - 1]"
  by (simp add: rect_points_def upto_rec2)

lemma rect_points_nth:
  assumes "0 < c"
  shows "length (rect_points c (int n)) = nat c * n \<and>
    (\<forall>k < nat c * n. rect_points c (int n) ! k = (int k mod c, int k div c))"
proof (induction n)
  case 0
  then show ?case by (simp add: rect_points_def)
next
  case (Suc n)
  have "rect_points c (int (Suc n)) ! k = (int k mod c, int k div c)" if k: "k < nat c * Suc n" for k
  proof (cases "k < nat c * n")
    case True
    then show ?thesis using Suc.IH by (simp add: rect_points_Suc nth_append del: of_nat_Suc)
  next
    case False
    define j where "j = k - nat c * n"
    have j: "int k = int j + c * int n" "j < nat c"
      using False k assms by (auto simp: j_def of_nat_diff)
    then have "int k mod c = int j" "int k div c = int n"
      using assms by (auto simp: div_add1_eq)
    then show ?thesis
      using False Suc.IH j(2) by (simp add: rect_points_Suc nth_append j_def [symmetric] del: of_nat_Suc)
  qed
  moreover have "length (rect_points c (int (Suc n))) = nat c * Suc n"
    using Suc.IH assms by (simp add: rect_points_Suc del: of_nat_Suc)
  ultimately show ?case by blast
qed

definition page_grid :: "int \<Rightarrow> int \<Rightarrow> int \<Rightarrow> int \<Rightarrow> display \<Rightarrow> bool" where
  "page_grid w h cols rows d \<longleftrightarrow> d_w d = w \<and> (\<forall>k<length (d_pages d). let p = d_pages d ! k in
     pg_w p = w div cols \<and> pg_h p = h div rows \<and>
     pg_x p = (int k mod cols) * pg_w p \<and> pg_y p = (int k div cols) * pg_h p)"

definition same_geometry :: "display_page \<Rightarrow> display_page \<Rightarrow> bool" where
  "same_geometry p p' \<longleftrightarrow> pg_x p' = pg_x p \<and> pg_y p' = pg_y p \<and> pg_w p' = pg_w p \<and> pg_h p' = pg_h p"

lemma new_grid:
  assumes "mrb_vram_s_new w h cols rows = Some d" "0 < w" "0 < h"
  shows "page_grid w h cols rows d"
proof -
  have pos: "0 < cols" "0 < rows" using assms(1)
    by (auto simp: mrb_vram_s_new_def new_display_def split: if_splits)
  have cd: "c_div w cols = w div cols" "c_div h rows = h div rows"
    using assms(2,3) pos by (simp_all add: c_div_def)
  have r: "rect_points cols rows ! k = (int k mod cols, int k div cols)" if "k < length (rect_points cols rows)" for k
    using rect_points_nth [OF pos(1), of "nat rows"] pos(2) that by simp
  show ?thesis
    using assms(1) r by (auto simp: mrb_vram_s_new_def new_display_def cd page_grid_def mono_page_fill_def Let_def
        split: if_splits)
qed

lemma grid_kept:
  assumes "page_grid w h cols rows d" "d_w d' = d_w d" "list_all2 same_geometry (d_pages d) (d_pages d')"
  shows "page_grid w h cols rows d'"
  using assms by (auto simp: page_grid_def list_all2_conv_all_nth same_geometry_def Let_def)

lemma pages_loop_geometry:
  "pages_loop dirty clear w i ps = Some (es, ps') \<Longrightarrow> list_all2 same_geometry ps ps'"
  by (induction dirty clear w i ps arbitrary: es ps' rule: pages_loop.induct)
    (auto simp: same_geometry_def Let_def split: if_splits Option.bind_splits)

inductive vram_call :: "display \<Rightarrow> display \<Rightarrow> bool" where
  drawing: "vram_draw d d' \<Longrightarrow> vram_call d d'"
| pages: "mrb_vram_pages c d = Some (v, d') \<Longrightarrow> vram_call d d'"
| dirty_pages: "mrb_vram_dirty_pages c d = Some (v, d') \<Longrightarrow> vram_call d d'"

lemma pages_sub_geometry:
  "pages_sub dirty clear d = Some (v, d') \<Longrightarrow> d_w d' = d_w d \<and> list_all2 same_geometry (d_pages d) (d_pages d')"
  by (auto simp: pages_sub_def dest: pages_loop_geometry split: Option.bind_splits)

lemma vram_call_grid: "vram_call d d' \<Longrightarrow> page_grid w h cols rows d \<Longrightarrow> page_grid w h cols rows d'"
proof (induction rule: vram_call.induct)
  case (drawing d d')
  then show ?case
    using vram_draw_kept [of d d'] by (auto intro!: grid_kept [of _ _ _ _ d] simp: page_kept_def same_geometry_def
        elim!: list_all2_mono)
next
  case (pages c d v d')
  then show ?case
    using pages_sub_geometry by (auto intro!: grid_kept [of _ _ _ _ d] simp: mrb_vram_pages_def mrb_vram_pages_sub_def)
next
  case (dirty_pages c d v d')
  then show ?case
    using pages_sub_geometry by (auto intro!: grid_kept [of _ _ _ _ d] simp: mrb_vram_dirty_pages_def mrb_vram_pages_sub_def)
qed

lemma vram_calls_grid: "vram_call\<^sup>*\<^sup>* d d' \<Longrightarrow> page_grid w h cols rows d \<Longrightarrow> page_grid w h cols rows d'"
  by (induction rule: rtranclp_induct) (auto dest: vram_call_grid)

text \<open>C15: A screen that is updated from \<^verbatim>\<open>dirty_pages\<close> keeps up. For a display made by \<open>VRAM.new\<close>
  with at least one pixel per page in each direction, after any calls of its methods: a call of
  \<open>dirty_pages\<close> is defined, and after it and any drawing, the next call reports every page whose
  content has changed since, with the column and the row at which the page lies in the page
  grid, and clears all flags. The number of columns must be the one that the code computes
  again from the width of a page, \<open>w div (w div cols) = cols\<close>, as it is when the columns divide the
  width; otherwise the reported positions are wrong (\<open>vram_cols_recomputed\<close>).\<close>

theorem vram_dirty_sync:
  assumes "mrb_vram_s_new w h cols rows = Some dn" "cols \<le> w" "rows \<le> h" "w div (w div cols) = cols"
    and "vram_call\<^sup>*\<^sup>* dn d0"
  shows "\<exists>e0 d1. mrb_vram_dirty_pages None d0 = Some (e0, d1) \<and>
    (\<forall>d2. vram_draw\<^sup>*\<^sup>* d1 d2 \<longrightarrow> (\<exists>es d3. mrb_vram_dirty_pages None d2 = Some (VArray es, d3) \<and>
      map pg_buffer (d_pages d3) = map pg_buffer (d_pages d2) \<and> (\<forall>p\<in>set (d_pages d3). \<not> pg_dirty p) \<and>
      (\<forall>k<length (d_pages d2). let p = d_pages d2 ! k in
         pg_buffer p \<noteq> pg_buffer (d_pages d0 ! k) \<longrightarrow>
         VArray [VInt (pg_x p div pg_w p), VInt (pg_y p div pg_h p), VStr (pg_buffer p)] \<in> set es)))"
proof -
  have pos: "0 < cols" "0 < rows" using assms(1)
    by (auto simp: mrb_vram_s_new_def new_display_def split: if_splits)
  then have wh: "0 < w" "0 < h" "0 < w div cols" "0 < h div rows"
    using assms(2,3) by (simp_all add: pos_imp_zdiv_pos_iff)
  have grid: "page_grid w h cols rows d0"
    by (rule vram_calls_grid [OF assms(5) new_grid [OF assms(1) wh(1,2)]])
  have le: "w div cols \<le> w"
    using wh(1) pos(1) zdiv_mono2 [of w 1 cols] by simp
  have "\<forall>p\<in>set (d_pages d0). 0 < pg_w p \<and> pg_w p \<le> d_w d0"
    using grid wh le by (auto simp: page_grid_def in_set_conv_nth Let_def)
  from vram_dirty_reported [OF this] obtain e0 d1 where d1: "mrb_vram_dirty_pages None d0 = Some (e0, d1)"
    and next1: "\<And>d2. vram_draw\<^sup>*\<^sup>* d1 d2 \<Longrightarrow> \<exists>es d3. mrb_vram_dirty_pages None d2 = Some (VArray es, d3) \<and>
      map pg_buffer (d_pages d3) = map pg_buffer (d_pages d2) \<and> (\<forall>p\<in>set (d_pages d3). \<not> pg_dirty p) \<and>
      (\<forall>k<length (d_pages d2). let p = d_pages d2 ! k; cols = d_w d0 div pg_w p in
         pg_buffer p \<noteq> pg_buffer (d_pages d0 ! k) \<longrightarrow>
         VArray [VInt (int k mod cols), VInt (int k div cols), VStr (pg_buffer p)] \<in> set es)"
    by blast
  have pos_eq: "d_w d0 div pg_w p = cols \<and> pg_x p div pg_w p = int k mod cols \<and> pg_y p div pg_h p = int k div cols"
    if "vram_draw\<^sup>*\<^sup>* d1 d2" "k < length (d_pages d2)" "p = d_pages d2 ! k" for d2 k p
  proof -
    have "vram_call\<^sup>*\<^sup>* d1 d2"
      using that(1) by (rule rtranclp_mono [THEN predicate2D, rotated]) (auto intro: vram_call.drawing)
    then have "page_grid w h cols rows d2"
      using vram_calls_grid vram_call_grid [OF vram_call.dirty_pages [OF d1] grid] by blast
    with that(2,3) wh grid assms(4) show ?thesis by (auto simp: page_grid_def Let_def)
  qed
  show ?thesis
    using d1 next1 pos_eq unfolding Let_def by (intro exI [of _ e0] exI [of _ d1]) (metis (no_types, lifting))
qed

lemma vram_dirty_sync_witness:
  "\<exists>dn e0 d1. mrb_vram_s_new 8 8 1 1 = Some dn \<and> mrb_vram_dirty_pages None dn = Some (e0, d1) \<and>
     (\<forall>d2. mrb_vram_fill 1 d1 = Some d2 \<longrightarrow> (\<exists>es d3. mrb_vram_dirty_pages None d2 = Some (VArray es, d3) \<and>
        VArray [VInt 0, VInt 0, VStr (replicate 8 0xFF)] \<in> set es))"
proof -
  let ?p = "\<lparr>pg_x = 0, pg_y = 0, pg_w = 8, pg_h = 8, pg_buffer = replicate 8 0, pg_dirty = True\<rparr>"
  let ?dn = "\<lparr>d_w = 8, d_h = 8, d_pages = [?p]\<rparr>"
  have dn: "mrb_vram_s_new 8 8 1 1 = Some ?dn"
    by (simp add: mrb_vram_s_new_def new_display_def rect_points_def c_div_def mono_page_fill_def)
  obtain e0 d1 where d1: "mrb_vram_dirty_pages None ?dn = Some (e0, d1)"
    and sync: "\<And>d2. vram_draw\<^sup>*\<^sup>* d1 d2 \<Longrightarrow> \<exists>es d3. mrb_vram_dirty_pages None d2 = Some (VArray es, d3) \<and>
      (\<forall>k<length (d_pages d2). let p = d_pages d2 ! k in
         pg_buffer p \<noteq> pg_buffer (d_pages ?dn ! k) \<longrightarrow>
         VArray [VInt (pg_x p div pg_w p), VInt (pg_y p div pg_h p), VStr (pg_buffer p)] \<in> set es)"
    using vram_dirty_sync [OF dn, of ?dn] by fastforce
  have pages: "d_pages d1 = [?p\<lparr>pg_dirty := False\<rparr>]"
    using d1 dirty_pages_result [of ?dn] by (auto simp: c_div_def)
  have "\<exists>es d3. mrb_vram_dirty_pages None d2 = Some (VArray es, d3) \<and>
      VArray [VInt 0, VInt 0, VStr (replicate 8 0xFF)] \<in> set es" if fill: "mrb_vram_fill 1 d1 = Some d2" for d2
  proof -
    have "d_pages d2 = [mono_page_fill 1 (?p\<lparr>pg_dirty := False\<rparr>)]"
      using fill pages by (auto simp: mrb_vram_fill_def)
    then show ?thesis
      using sync [OF r_into_rtranclp [of vram_draw, OF vram_draw.fill [OF fill]]]
      by (auto simp: Let_def mono_page_fill_def)
  qed
  with dn d1 show ?thesis by blast
qed

text \<open>When the number of columns does not divide the width, positions are computed with another
  number of columns: here 4 columns were asked for, and the page in row 1, column 0 is reported
  as row 0, column 4.\<close>

lemma vram_cols_recomputed:
  "map_option (\<lambda>d. (pg_x (d_pages d ! 4), pg_y (d_pages d ! 4))) (mrb_vram_s_new 7 16 4 2) = Some (0, 8)"
  "page_entry 7 4 \<lparr>pg_x = 0, pg_y = 8, pg_w = 1, pg_h = 8, pg_buffer = [0], pg_dirty = True\<rparr> = VArray [VInt 4, VInt 0, VStr [0]]"
  by (simp_all add: mrb_vram_s_new_def new_display_def rect_points_def c_div_def mono_page_fill_def upto_rec1
      page_entry_def c_mod_def)

section \<open>The two virtual machines\<close>

lemma mono_eq [simp]:
  "mrubyc_mono_page_set_pixel = mono_page_set_pixel" "mrubyc_mono_page_get_pixel = mono_page_get_pixel"
  "mrubyc_mono_page_fill = mono_page_fill"
  by (intro ext, simp add: mrubyc_mono_page_set_pixel_def mono_page_set_pixel_def
        mrubyc_mono_page_get_pixel_def mono_page_get_pixel_def mrubyc_mono_page_fill_def mono_page_fill_def)+

lemma c_int_arg_eq: "0 < n \<Longrightarrow> n \<le> length args \<Longrightarrow> args ! (n - 1) = VInt i \<Longrightarrow> c_int_arg args n = Some (c_int i)"
  by (simp add: c_int_arg_def GET_INT_ARG_def c_int_def)

text \<open>With arguments of 32 bits the drawing methods of the two virtual machines do the same.\<close>

lemma vram_bindings_agree:
  assumes "\<forall>i\<in>{x, y, w, h, color}. - (2 ^ 31) \<le> i \<and> i < 2 ^ 31"
  shows "c_vram_set_pixel [VInt x, VInt y, VInt color] d = mrb_vram_set_pixel x y color d"
    and "c_vram_draw_line [VInt x, VInt y, VInt w, VInt h, VInt color] d = mrb_vram_draw_line x y w h color d"
    and "c_vram_draw_rect [VInt x, VInt y, VInt w, VInt h, VInt color] d = mrb_vram_draw_rect x y w h color d"
    and "c_vram_erase [VInt x, VInt y, VInt w, VInt h] d = mrb_vram_erase x y w h d"
    and "c_vram_fill [VInt color] d = mrb_vram_fill color d"
  using assms by (simp_all add: c_vram_set_pixel_def mrb_vram_set_pixel_def c_vram_draw_line_def mrb_vram_draw_line_def
      c_vram_draw_rect_def mrb_vram_draw_rect_def c_vram_erase_def mrb_vram_erase_def c_vram_fill_def mrb_vram_fill_def
      c_int_arg_eq GET_INT_ARG_def)

end
