(* ===== verification/Fonts.thy ===== *)
theory Fonts
  imports Prelude
begin

text \<open>
  The bitmap fonts \<^verbatim>\<open>picoruby-shinonome\<close> (Japanese, 12 and 16 pixels, zoom 1 to 4) and
  \<^verbatim>\<open>picoruby-terminus\<close> (ASCII, four sizes), with their methods for both virtual machines. The
  tables of glyphs and of JIS codes are generated when the gem is built; they are the record
  \<open>fonts\<close>, a parameter. A text is a C string: its bytes with the terminating NUL. \<open>None\<close> is a
  read out of a table, through a null pointer, or behind the NUL.
\<close>

record fonts =
  f_ascii_12 :: bytes
  f_ascii_16 :: bytes
  f_maru12 :: "bytes option list"
  f_go12 :: "bytes option list"
  f_min12 :: "bytes option list"
  f_go16 :: "bytes option list"
  f_min16 :: "bytes option list"
  f_unicode2jis :: "(u16 \<times> u16) list"

section \<open>Characters\<close>

text \<open>The result is the code point and what \<^verbatim>\<open>*p\<close> points to afterwards.\<close>

definition utf8_to_unicode :: "bytes \<Rightarrow> (u32 \<times> bytes) option" where
  "utf8_to_unicode p = do {
     s0 \<leftarrow> arr_get p 0;
     if s0 < 0x80 then Some (ucast s0, drop 1 p)
     else if s0 AND 0xE0 = 0xC0 then do {
       s1 \<leftarrow> arr_get p 1;
       Some (push_bit 6 (ucast (s0 AND 0x1F)) OR ucast (s1 AND 0x3F), drop 2 p)
     }
     else if s0 AND 0xF0 = 0xE0 then do {
       s1 \<leftarrow> arr_get p 1;
       s2 \<leftarrow> arr_get p 2;
       Some (push_bit 12 (ucast (s0 AND 0x0F)) OR push_bit 6 (ucast (s1 AND 0x3F)) OR ucast (s2 AND 0x3F), drop 3 p)
     }
     else Some (0xFFFD, drop 1 p)
   }"

lemma utf8_shorter: "utf8_to_unicode p = Some (c, p') \<Longrightarrow> length p' < length p"
  by (auto simp: utf8_to_unicode_def arr_get_def split: if_splits Option.bind_splits)

lemma c_div_2: "left \<le> right \<Longrightarrow> left \<le> c_div (left + right) 2 \<and> c_div (left + right) 2 \<le> right"
  by (cases "left + right" "0 :: int" rule: linorder_cases) (auto simp: c_div_def)

text \<open>The binary search in the table of JIS codes.\<close>

function jis_search :: "(u16 \<times> u16) list \<Rightarrow> u16 \<Rightarrow> int \<Rightarrow> int \<Rightarrow> u16 option" where
  "jis_search unicode2jis unicode left right =
     (if left \<le> right then
        let mid = c_div (left + right) 2 in
        if mid < 0 \<or> int (length unicode2jis) \<le> mid then None
        else if fst (unicode2jis ! nat mid) = unicode then Some (snd (unicode2jis ! nat mid))
        else if fst (unicode2jis ! nat mid) < unicode then jis_search unicode2jis unicode (mid + 1) right
        else jis_search unicode2jis unicode left (mid - 1)
      else Some 0)"
  by pat_completeness auto
termination
  by (relation "measure (\<lambda>(_, _, left, right). nat (right + 1 - left))")
    (use c_div_2 in \<open>fastforce simp: Let_def\<close>)+

definition unicode_to_jis :: "(u16 \<times> u16) list \<Rightarrow> u16 \<Rightarrow> u16 option" where
  "unicode_to_jis unicode2jis unicode = jis_search unicode2jis unicode 0 (int (length unicode2jis) - 1)"

section \<open>Zooming\<close>

definition expand_bits :: "u64 \<Rightarrow> nat \<Rightarrow> nat \<Rightarrow> u64" where
  "expand_bits src bit_count scale = foldl (\<lambda>dst i.
     let bit = drop_bit (bit_count - 1 - i) src AND 1; dst = push_bit scale dst
     in if bit \<noteq> 0 then dst OR (push_bit scale 1 - 1) else dst) 0 [0..<bit_count]"

text \<open>The widths that are passed are at most 64.\<close>

definition GET_BIT :: "u64 \<Rightarrow> nat \<Rightarrow> nat \<Rightarrow> u64" where
  "GET_BIT row x w = drop_bit (w - 1 - x) row AND 1"

definition SET_BIT :: "u64 \<Rightarrow> nat \<Rightarrow> nat \<Rightarrow> u64" where
  "SET_BIT row x w = row OR push_bit (w - 1 - x) 1"

definition smooth_pixel :: "u64 list \<Rightarrow> nat \<Rightarrow> nat \<times> nat \<Rightarrow> u64 list \<Rightarrow> u64 list option" where
  "smooth_pixel input w = (\<lambda>(y, x) tmp. do {
     r0 \<leftarrow> arr_get input y;
     r1 \<leftarrow> arr_get input (y + 1);
     let a = GET_BIT r0 x w; b = GET_BIT r0 (x + 1) w; c = GET_BIT r1 x w; d = GET_BIT r1 (x + 1) w in
     if a \<noteq> 0 \<and> d \<noteq> 0 \<and> b = 0 \<and> c = 0 \<or> b \<noteq> 0 \<and> c \<noteq> 0 \<and> a = 0 \<and> d = 0 then do {
       t \<leftarrow> arr_get tmp (y + 1);
       arr_set tmp (y + 1) (SET_BIT t (x + 1) w)
     } else Some tmp
   })"

definition smooth_edges :: "u64 list \<Rightarrow> nat \<Rightarrow> nat \<Rightarrow> u64 list option" where
  "smooth_edges input w h =
     (if length input < h then None
      else do {
        tmp \<leftarrow> for_each (smooth_pixel input w)
          (concat (map (\<lambda>y. map (Pair y) [0..<w - 1]) [0..<h - 1])) (take h input);
        Some (tmp @ drop h input)
      })"

section \<open>Shinonome\<close>

text \<open>The \<open>n\<close> bytes of a glyph, all of which are read.\<close>

definition glyph_data :: "bytes \<Rightarrow> int \<Rightarrow> nat \<Rightarrow> bytes option" where
  "glyph_data table base n =
     (if 0 \<le> base \<and> nat base + n \<le> length table then Some (take n (drop (nat base) table)) else None)"

abbreviation data64 :: "bytes \<Rightarrow> nat \<Rightarrow> u64" where
  "data64 data i \<equiv> ucast (data ! i)"

definition ascii_12_rows :: "bytes \<Rightarrow> u64 list" where
  "ascii_12_rows data = concat (map (\<lambda>i.
     [drop_bit 2 (data64 data (i * 3)),
      push_bit 4 (data64 data (i * 3) AND 0x3) OR drop_bit 4 (data64 data (i * 3 + 1)),
      push_bit 2 (data64 data (i * 3 + 1) AND 0xF) OR drop_bit 6 (data64 data (i * 3 + 2)),
      data64 data (i * 3 + 2) AND 0x3F]) [0..<3])"

definition ascii_16_rows :: "bytes \<Rightarrow> u64 list" where
  "ascii_16_rows data = map (\<lambda>i. data64 data i) [0..<16]"

definition jis_12_rows :: "bytes \<Rightarrow> u64 list" where
  "jis_12_rows data = concat (map (\<lambda>i.
     [push_bit 4 (data64 data (i * 3)) OR drop_bit 4 (data64 data (i * 3 + 1)),
      push_bit 8 (data64 data (i * 3 + 1) AND 0xF) OR data64 data (i * 3 + 2)]) [0..<6])"

definition jis_16_rows :: "bytes \<Rightarrow> u64 list" where
  "jis_16_rows data = map (\<lambda>i. push_bit 8 (data64 data (i * 2)) OR data64 data (i * 2 + 1)) [0..<16]"

definition jis_row :: "bytes option list \<Rightarrow> u16 \<Rightarrow> bytes option" where
  "jis_row table jiscode =
     (let first_byte = uint (drop_bit 8 jiscode) in
      if first_byte < 0x21 \<or> int (length table) \<le> first_byte - 0x21 then None else table ! nat (first_byte - 0x21))"

text \<open>The result is the returned flag, the position, and the array \<^verbatim>\<open>lines\<close>: the width and the
  rows. The callers pass 12 or 16 as size, for which every element is written.\<close>

definition array_of_shinonome_sub ::
    "(u16 \<times> u16) list \<Rightarrow> bytes \<Rightarrow> nat \<Rightarrow> bytes \<Rightarrow> bytes option list \<Rightarrow> (bool \<times> bytes \<times> u64 list) option" where
  "array_of_shinonome_sub unicode2jis p sz ascii_table jis208_table = do {
     (c, p) \<leftarrow> utf8_to_unicode p;
     if c < 0x80 then
       (if sz = 12 then do {
          data \<leftarrow> glyph_data ascii_table (uint ((c - 0x20) * 9)) 9;
          Some (True, p, of_nat (sz div 2) # ascii_12_rows data)
        }
        else if sz = 16 then do {
          data \<leftarrow> glyph_data ascii_table (uint ((c - 0x20) * 16)) 16;
          Some (True, p, of_nat (sz div 2) # ascii_16_rows data)
        }
        else None)
     else if c < 0x10000 then do {
       jiscode \<leftarrow> unicode_to_jis unicode2jis (ucast c);
       table \<leftarrow> jis_row jis208_table jiscode;
       let second_byte = uint (jiscode AND 0xFF);
       (if sz = 12 then do {
          data \<leftarrow> glyph_data table ((second_byte - 0x21) * 18) 18;
          Some (True, p, of_nat sz # jis_12_rows data)
        }
        else if sz = 16 then do {
          data \<leftarrow> glyph_data table ((second_byte - 0x21) * 32) 32;
          Some (True, p, of_nat sz # jis_16_rows data)
        }
        else None)
     }
     else Some (False, p, [])
   }"

lemma shinonome_sub_shorter:
  "array_of_shinonome_sub u p sz a j = Some (ok, p', lines) \<Longrightarrow> length p' < length p"
  by (auto simp: array_of_shinonome_sub_def Let_def split: if_splits Option.bind_splits dest!: utf8_shorter)

text \<open>Zooming of one character: every row is widened, repeated, and the edges are smoothed.\<close>

definition zoom_rows :: "nat \<Rightarrow> nat \<Rightarrow> u64 \<Rightarrow> u64 list \<Rightarrow> u64 list option" where
  "zoom_rows sz scale width rows =
     smooth_edges (concat (map (\<lambda>row. replicate scale (expand_bits row sz scale)) rows)) (unat width) (sz * scale)"

text \<open>What a character adds: its width, the widths of its columns, and its columns. \<open>conv\<close> is the
  conversion to an integer of the virtual machine. Without zoom \<^verbatim>\<open>output\<close> is not initialised and
  not read, the width being at most 16.\<close>

definition shinonome_char ::
    "(int \<Rightarrow> int) \<Rightarrow> nat \<Rightarrow> nat \<Rightarrow> u64 list \<Rightarrow> (int \<times> mrb_value list \<times> mrb_value list) option" where
  "shinonome_char conv sz scale lines = do {
     let width = hd lines * of_nat scale;
     let rows = tl lines;
     output \<leftarrow> (if 1 < scale then zoom_rows sz scale width rows else Some []);
     let low = map (\<lambda>o1. VInt (conv (uint (ucast o1 :: u32)))) output;
     let widths = (if 32 < width then [VInt (conv (uint (width - 32))), VInt 32] else [VInt (conv (uint width))]);
     let ch = (if scale = 1 then map (\<lambda>l. VInt (conv (uint l))) rows
       else if 32 < width then map (\<lambda>o1. VInt (conv (uint (ucast (drop_bit 32 o1) :: u32)))) output
       else low);
     Some (conv (uint width), widths, if 32 < width then [VArray ch, VArray low] else [VArray ch])
   }"

text \<open>The loop over the text; \<open>Inl\<close> is the exit for an invalid character.\<close>

function shinonome_text ::
    "(int \<Rightarrow> int) \<Rightarrow> (u16 \<times> u16) list \<Rightarrow> nat \<Rightarrow> nat \<Rightarrow> bytes \<Rightarrow> bytes option list \<Rightarrow> bytes \<Rightarrow>
     int \<Rightarrow> mrb_value list \<Rightarrow> mrb_value list \<Rightarrow> (unit + (int \<times> mrb_value list \<times> mrb_value list)) option" where
  "shinonome_text conv u sz scale ascii jis p total_width widths glyphs =
     (case arr_get p 0 of
        None \<Rightarrow> None
      | Some b \<Rightarrow>
          if b = 0 then Some (Inr (total_width, widths, glyphs))
          else (case array_of_shinonome_sub u p sz ascii jis of
              None \<Rightarrow> None
            | Some (ok, p', lines) \<Rightarrow>
                if \<not> ok then Some (Inl ())
                else (case shinonome_char conv sz scale lines of
                    None \<Rightarrow> None
                  | Some (w, ws, gs) \<Rightarrow>
                      shinonome_text conv u sz scale ascii jis p' (total_width + w) (widths @ ws) (glyphs @ gs))))"
  by pat_completeness auto
termination
  by (relation "measure (\<lambda>(_, _, _, _, _, _, p, _). length p)") (auto dest: shinonome_sub_shorter)

definition shinonome_result :: "nat \<Rightarrow> nat \<Rightarrow> int \<times> mrb_value list \<times> mrb_value list \<Rightarrow> mrb_value" where
  "shinonome_result sz scale = (\<lambda>(total_width, widths, glyphs).
     VArray [VInt (int (sz * scale)), VInt total_width, VArray widths, VArray glyphs])"

definition array_of_shinonome ::
    "fonts \<Rightarrow> bytes \<Rightarrow> int option \<Rightarrow> nat \<Rightarrow> bytes \<Rightarrow> bytes option list \<Rightarrow> mrb_value rb_result option" where
  "array_of_shinonome f text scale sz ascii_table jis208_table =
     (let scale = (case scale of None \<Rightarrow> 1 | Some s \<Rightarrow> s) in
      if scale < 1 \<or> 4 < scale then Some (Inl (ArgumentError ''Invalid scale. Expect 1..4''))
      else do {
        r \<leftarrow> shinonome_text id (f_unicode2jis f) sz (nat scale) ascii_table jis208_table (text @ [0]) 0 [] [];
        Some (case r of
            Inl _ \<Rightarrow> Inl (ArgumentError ''Invalid unicode'')
          | Inr r \<Rightarrow> Inr (shinonome_result sz (nat scale) r))
      })"

definition mrb_s_maru12 :: "fonts \<Rightarrow> bytes \<Rightarrow> int option \<Rightarrow> mrb_value rb_result option" where
  "mrb_s_maru12 f text scale = array_of_shinonome f text scale 12 (f_ascii_12 f) (f_maru12 f)"

definition mrb_s_go12 :: "fonts \<Rightarrow> bytes \<Rightarrow> int option \<Rightarrow> mrb_value rb_result option" where
  "mrb_s_go12 f text scale = array_of_shinonome f text scale 12 (f_ascii_12 f) (f_go12 f)"

definition mrb_s_min12 :: "fonts \<Rightarrow> bytes \<Rightarrow> int option \<Rightarrow> mrb_value rb_result option" where
  "mrb_s_min12 f text scale = array_of_shinonome f text scale 12 (f_ascii_12 f) (f_min12 f)"

definition mrb_s_go16 :: "fonts \<Rightarrow> bytes \<Rightarrow> int option \<Rightarrow> mrb_value rb_result option" where
  "mrb_s_go16 f text scale = array_of_shinonome f text scale 16 (f_ascii_16 f) (f_go16 f)"

definition mrb_s_min16 :: "fonts \<Rightarrow> bytes \<Rightarrow> int option \<Rightarrow> mrb_value rb_result option" where
  "mrb_s_min16 f text scale = array_of_shinonome f text scale 16 (f_ascii_16 f) (f_min16 f)"

text \<open>mruby/c: errors give nil. The text is the first argument.\<close>

definition c_text_arg :: "mrb_value list \<Rightarrow> bytes option" where
  "c_text_arg args = do {
     v \<leftarrow> arr_get args 0;
     (case v of VStr text \<Rightarrow> Some (text @ [0]) | _ \<Rightarrow> None)
   }"

definition c_array_of_shinonome ::
    "fonts \<Rightarrow> mrb_value list \<Rightarrow> nat \<Rightarrow> bytes \<Rightarrow> bytes option list \<Rightarrow> mrb_value option" where
  "c_array_of_shinonome f args sz ascii_table jis208_table = do {
     text \<leftarrow> c_text_arg args;
     scale \<leftarrow> (if 1 < length args then map_option sint (GET_INT_ARG args 2) else Some 1);
     if scale < 1 \<or> 4 < scale then Some VNil
     else do {
       r \<leftarrow> shinonome_text c_int (f_unicode2jis f) sz (nat scale) ascii_table jis208_table text 0 [] [];
       Some (case r of Inl _ \<Rightarrow> VNil | Inr r \<Rightarrow> shinonome_result sz (nat scale) r)
     }
   }"

definition c_s_maru12 :: "fonts \<Rightarrow> mrb_value list \<Rightarrow> mrb_value option" where
  "c_s_maru12 f args = c_array_of_shinonome f args 12 (f_ascii_12 f) (f_maru12 f)"

definition c_s_go12 :: "fonts \<Rightarrow> mrb_value list \<Rightarrow> mrb_value option" where
  "c_s_go12 f args = c_array_of_shinonome f args 12 (f_ascii_12 f) (f_go12 f)"

definition c_s_min12 :: "fonts \<Rightarrow> mrb_value list \<Rightarrow> mrb_value option" where
  "c_s_min12 f args = c_array_of_shinonome f args 12 (f_ascii_12 f) (f_min12 f)"

definition c_s_go16 :: "fonts \<Rightarrow> mrb_value list \<Rightarrow> mrb_value option" where
  "c_s_go16 f args = c_array_of_shinonome f args 16 (f_ascii_16 f) (f_go16 f)"

definition c_s_min16 :: "fonts \<Rightarrow> mrb_value list \<Rightarrow> mrb_value option" where
  "c_s_min16 f args = c_array_of_shinonome f args 16 (f_ascii_16 f) (f_min16 f)"

section \<open>Printing glyphs\<close>

text \<open>The test methods print two block characters or two underscores for each bit, and a newline
  after each row. The result is the text that is printed.\<close>

definition byte_bits_msb :: "u8 \<Rightarrow> bool list" where
  "byte_bits_msb b = map (\<lambda>j. drop_bit j b AND 1 \<noteq> 0) (rev [0..<8])"

definition print_bits :: "nat \<Rightarrow> bytes \<Rightarrow> bytes" where
  "print_bits cols data = snd (foldl (\<lambda>(pos, out) bit.
     let out = out @ (if bit then [0xE2, 0x96, 0x88, 0xE2, 0x96, 0x88] else [95, 95]); pos = pos + 1
     in (pos, if pos mod cols = 0 then out @ [10] else out)) (0 :: nat, []) (concat (map byte_bits_msb data)))"

definition print_ascii_12 :: "fonts \<Rightarrow> u8 \<Rightarrow> bytes option" where
  "print_ascii_12 f asciicode = map_option (print_bits 6) (glyph_data (f_ascii_12 f) ((uint asciicode - 0x20) * 9) 9)"

definition print_ascii_16 :: "fonts \<Rightarrow> u8 \<Rightarrow> bytes option" where
  "print_ascii_16 f asciicode = map_option (print_bits 8) (glyph_data (f_ascii_16 f) ((uint asciicode - 0x20) * 16) 16)"

definition print_jis208_12 :: "fonts \<Rightarrow> u16 \<Rightarrow> bytes option" where
  "print_jis208_12 f jiscode = do {
     table \<leftarrow> jis_row (f_maru12 f) jiscode;
     map_option (print_bits 12) (glyph_data table ((uint (jiscode AND 0xFF) - 0x21) * 18) 18)
   }"

definition print_jis208_16 :: "fonts \<Rightarrow> u16 \<Rightarrow> bytes option" where
  "print_jis208_16 f jiscode = do {
     table \<leftarrow> jis_row (f_go16 f) jiscode;
     map_option (print_bits 16) (glyph_data table ((uint (jiscode AND 0xFF) - 0x21) * 32) 32)
   }"

text \<open>\<open>unicode_text\<close> is the C library's rendering of \<^verbatim>\<open>"unicode: %04X\n"\<close>.\<close>

definition test_print_char :: "(u32 \<Rightarrow> bytes) \<Rightarrow> fonts \<Rightarrow> nat \<Rightarrow> u32 \<Rightarrow> bytes option" where
  "test_print_char unicode_text f sz c =
     (if c < 0x80 then (if sz = 12 then print_ascii_12 f (ucast c) else print_ascii_16 f (ucast c))
      else if c < 0x10000 then do {
        jis \<leftarrow> unicode_to_jis (f_unicode2jis f) (ucast c);
        if jis \<noteq> 0 then (if sz = 12 then print_jis208_12 f jis else print_jis208_16 f jis) else Some []
      }
      else Some (unicode_text c))"

function test_print :: "(u32 \<Rightarrow> bytes) \<Rightarrow> fonts \<Rightarrow> nat \<Rightarrow> bytes \<Rightarrow> bytes \<Rightarrow> bytes option" where
  "test_print unicode_text f sz p out =
     (case arr_get p 0 of
        None \<Rightarrow> None
      | Some b \<Rightarrow>
          if b = 0 then Some out
          else (case utf8_to_unicode p of
              None \<Rightarrow> None
            | Some (c, p') \<Rightarrow> (case test_print_char unicode_text f sz c of
                None \<Rightarrow> None
              | Some o1 \<Rightarrow> test_print unicode_text f sz p' (out @ o1))))"
  by pat_completeness auto
termination
  by (relation "measure (\<lambda>(_, _, _, p, _). length p)") (auto dest: utf8_shorter)

definition mrb_s_test12 :: "(u32 \<Rightarrow> bytes) \<Rightarrow> fonts \<Rightarrow> bytes \<Rightarrow> (mrb_value \<times> bytes) option" where
  "mrb_s_test12 unicode_text f text = map_option (Pair VNil) (test_print unicode_text f 12 (text @ [0]) [])"

definition mrb_s_test16 :: "(u32 \<Rightarrow> bytes) \<Rightarrow> fonts \<Rightarrow> bytes \<Rightarrow> (mrb_value \<times> bytes) option" where
  "mrb_s_test16 unicode_text f text = map_option (Pair VNil) (test_print unicode_text f 16 (text @ [0]) [])"

definition c_test_print :: "(u32 \<Rightarrow> bytes) \<Rightarrow> fonts \<Rightarrow> mrb_value list \<Rightarrow> nat \<Rightarrow> bytes option" where
  "c_test_print unicode_text f args sz = do { text \<leftarrow> c_text_arg args; test_print unicode_text f sz text [] }"

definition c_s_test12 :: "(u32 \<Rightarrow> bytes) \<Rightarrow> fonts \<Rightarrow> mrb_value list \<Rightarrow> (mrb_value \<times> bytes) option" where
  "c_s_test12 unicode_text f args = map_option (Pair VNil) (c_test_print unicode_text f args 12)"

definition c_s_test16 :: "(u32 \<Rightarrow> bytes) \<Rightarrow> fonts \<Rightarrow> mrb_value list \<Rightarrow> (mrb_value \<times> bytes) option" where
  "c_s_test16 unicode_text f args = map_option (Pair VNil) (c_test_print unicode_text f args 16)"

section \<open>Terminus\<close>

text \<open>Its file holds a copy of the decoder of UTF-8.\<close>

definition terminus_utf8_to_unicode :: "bytes \<Rightarrow> (u32 \<times> bytes) option" where
  "terminus_utf8_to_unicode p = do {
     s0 \<leftarrow> arr_get p 0;
     if s0 < 0x80 then Some (ucast s0, drop 1 p)
     else if s0 AND 0xE0 = 0xC0 then do {
       s1 \<leftarrow> arr_get p 1;
       Some (push_bit 6 (ucast (s0 AND 0x1F)) OR ucast (s1 AND 0x3F), drop 2 p)
     }
     else if s0 AND 0xF0 = 0xE0 then do {
       s1 \<leftarrow> arr_get p 1;
       s2 \<leftarrow> arr_get p 2;
       Some (push_bit 12 (ucast (s0 AND 0x0F)) OR push_bit 6 (ucast (s1 AND 0x3F)) OR ucast (s2 AND 0x3F), drop 3 p)
     }
     else Some (0xFFFD, drop 1 p)
   }"

text \<open>One step of the inner loop: the row so far, \<^verbatim>\<open>byte_idx\<close> and \<^verbatim>\<open>bit_idx\<close>.\<close>

definition terminus_bit :: "bytes \<Rightarrow> nat \<Rightarrow> u64 \<times> nat \<times> nat \<Rightarrow> nat \<Rightarrow> u64 \<times> nat \<times> nat" where
  "terminus_bit data w = (\<lambda>(line, byte_idx, bit_idx) x.
     if byte_idx < length data then
       let bit = drop_bit (7 - bit_idx) (data ! byte_idx) AND 1;
           line = (if bit \<noteq> 0 then line OR push_bit (w - 1 - x) 1 else line);
           bit_idx = bit_idx + 1
       in if 8 \<le> bit_idx then (line, byte_idx + 1, 0) else (line, byte_idx, bit_idx)
     else (line, byte_idx, bit_idx))"

fun terminus_rows :: "bytes \<Rightarrow> nat \<Rightarrow> nat \<Rightarrow> nat \<Rightarrow> nat \<Rightarrow> u64 list" where
  "terminus_rows data w 0 byte_idx bit_idx = []"
| "terminus_rows data w (Suc n) byte_idx bit_idx =
     (let (line, byte_idx, bit_idx) = foldl (terminus_bit data w) (0, byte_idx, bit_idx) [0..<w]
      in line # terminus_rows data w n byte_idx bit_idx)"

definition array_of_terminus_sub :: "bytes \<Rightarrow> nat \<Rightarrow> nat \<Rightarrow> bytes \<Rightarrow> (bool \<times> bytes \<times> u64 list) option" where
  "array_of_terminus_sub p w h ascii_table = do {
     (c, p) \<leftarrow> terminus_utf8_to_unicode p;
     if c < 0x20 \<or> 0x7E < c then Some (False, p, [])
     else do {
       let bytes_per_char = (w * h + 7) div 8;
       data \<leftarrow> glyph_data ascii_table (uint ((c - 0x20) * of_nat bytes_per_char)) bytes_per_char;
       Some (True, p, of_nat w # terminus_rows data w h 0 0)
     }
   }"

lemma terminus_utf8_eq: "terminus_utf8_to_unicode = utf8_to_unicode"
  by (rule ext) (simp add: terminus_utf8_to_unicode_def utf8_to_unicode_def)

lemma terminus_sub_shorter: "array_of_terminus_sub p w h t = Some (ok, p', lines) \<Longrightarrow> length p' < length p"
  by (auto simp: array_of_terminus_sub_def terminus_utf8_eq Let_def split: if_splits Option.bind_splits dest!: utf8_shorter)

text \<open>The four sizes; \<open>table\<close> is the generated table of that size.\<close>

definition array_of_terminus_6x12 :: "bytes \<Rightarrow> bytes \<Rightarrow> (bool \<times> bytes \<times> u64 list) option" where
  "array_of_terminus_6x12 table p = array_of_terminus_sub p 6 12 table"

definition array_of_terminus_8x16 :: "bytes \<Rightarrow> bytes \<Rightarrow> (bool \<times> bytes \<times> u64 list) option" where
  "array_of_terminus_8x16 table p = array_of_terminus_sub p 8 16 table"

definition array_of_terminus_12x24 :: "bytes \<Rightarrow> bytes \<Rightarrow> (bool \<times> bytes \<times> u64 list) option" where
  "array_of_terminus_12x24 table p = array_of_terminus_sub p 12 24 table"

definition array_of_terminus_16x32 :: "bytes \<Rightarrow> bytes \<Rightarrow> (bool \<times> bytes \<times> u64 list) option" where
  "array_of_terminus_16x32 table p = array_of_terminus_sub p 16 32 table"

text \<open>The loop over the text, with the function that reads a character. A text that does not get
  shorter would be read for ever: \<open>None\<close>; the functions above never do that.\<close>

function terminus_text ::
    "(int \<Rightarrow> int) \<Rightarrow> nat \<Rightarrow> (bytes \<Rightarrow> (bool \<times> bytes \<times> u64 list) option) \<Rightarrow> bytes \<Rightarrow>
     int \<Rightarrow> mrb_value list \<Rightarrow> mrb_value list \<Rightarrow> (unit + (int \<times> mrb_value list \<times> mrb_value list)) option" where
  "terminus_text conv w array_func p total_width widths glyphs =
     (case arr_get p 0 of
        None \<Rightarrow> None
      | Some b \<Rightarrow>
          if b = 0 then Some (Inr (total_width, widths, glyphs))
          else (case array_func p of
              None \<Rightarrow> None
            | Some (ok, p', lines) \<Rightarrow>
                if length p \<le> length p' then None
                else if \<not> ok then Some (Inl ())
                else terminus_text conv w array_func p' (total_width + int w) (widths @ [VInt (int w)])
                  (glyphs @ [VArray (map (\<lambda>l. VInt (conv (uint l))) (tl lines))])))"
  by pat_completeness auto
termination
  by (relation "measure (\<lambda>(_, _, _, p, _). length p)") auto

definition terminus_result :: "nat \<Rightarrow> int \<times> mrb_value list \<times> mrb_value list \<Rightarrow> mrb_value" where
  "terminus_result h = (\<lambda>(total_width, widths, glyphs).
     VArray [VInt (int h), VInt total_width, VArray widths, VArray glyphs])"

definition array_of_terminus ::
    "bytes \<Rightarrow> nat \<Rightarrow> nat \<Rightarrow> (bytes \<Rightarrow> (bool \<times> bytes \<times> u64 list) option) \<Rightarrow> mrb_value rb_result option" where
  "array_of_terminus text w h array_func = do {
     r \<leftarrow> terminus_text id w array_func (text @ [0]) 0 [] [];
     Some (case r of
         Inl _ \<Rightarrow> Inl (ArgumentError ''Invalid character (ASCII only)'')
       | Inr r \<Rightarrow> Inr (terminus_result h r))
   }"

definition c_array_of_terminus ::
    "mrb_value list \<Rightarrow> nat \<Rightarrow> nat \<Rightarrow> (bytes \<Rightarrow> (bool \<times> bytes \<times> u64 list) option) \<Rightarrow> mrb_value option" where
  "c_array_of_terminus args w h array_func = do {
     text \<leftarrow> c_text_arg args;
     r \<leftarrow> terminus_text c_int w array_func text 0 [] [];
     Some (case r of Inl _ \<Rightarrow> VNil | Inr r \<Rightarrow> terminus_result h r)
   }"

definition mrb_s_6x12 :: "bytes \<Rightarrow> bytes \<Rightarrow> mrb_value rb_result option" where
  "mrb_s_6x12 table text = array_of_terminus text 6 12 (array_of_terminus_6x12 table)"

definition mrb_s_8x16 :: "bytes \<Rightarrow> bytes \<Rightarrow> mrb_value rb_result option" where
  "mrb_s_8x16 table text = array_of_terminus text 8 16 (array_of_terminus_8x16 table)"

definition mrb_s_12x24 :: "bytes \<Rightarrow> bytes \<Rightarrow> mrb_value rb_result option" where
  "mrb_s_12x24 table text = array_of_terminus text 12 24 (array_of_terminus_12x24 table)"

definition mrb_s_16x32 :: "bytes \<Rightarrow> bytes \<Rightarrow> mrb_value rb_result option" where
  "mrb_s_16x32 table text = array_of_terminus text 16 32 (array_of_terminus_16x32 table)"

definition c_s_6x12 :: "bytes \<Rightarrow> mrb_value list \<Rightarrow> mrb_value option" where
  "c_s_6x12 table args = c_array_of_terminus args 6 12 (array_of_terminus_6x12 table)"

definition c_s_8x16 :: "bytes \<Rightarrow> mrb_value list \<Rightarrow> mrb_value option" where
  "c_s_8x16 table args = c_array_of_terminus args 8 16 (array_of_terminus_8x16 table)"

definition c_s_12x24 :: "bytes \<Rightarrow> mrb_value list \<Rightarrow> mrb_value option" where
  "c_s_12x24 table args = c_array_of_terminus args 12 24 (array_of_terminus_12x24 table)"

definition c_s_16x32 :: "bytes \<Rightarrow> mrb_value list \<Rightarrow> mrb_value option" where
  "c_s_16x32 table args = c_array_of_terminus args 16 32 (array_of_terminus_16x32 table)"

end
