(* ===== verification/FontProps.thy ===== *)
theory FontProps
  imports Fonts
begin

text \<open>
  Properties of the fonts: UTF-8 decoding inverts encoding, the binary search finds the JIS code,
  the rows of a glyph are the bit stream of its table entry, and the zoom multiplies every
  pixel and fills corners.
\<close>

section \<open>UTF-8\<close>

definition utf8_encode :: "u16 \<Rightarrow> bytes" where
  "utf8_encode c =
     (if c < 0x80 then [ucast c]
      else if c < 0x800 then [0xC0 OR take_bit 5 (ucast (drop_bit 6 c)), 0x80 OR take_bit 6 (ucast c)]
      else [0xE0 OR take_bit 4 (ucast (drop_bit 12 c)), 0x80 OR take_bit 6 (ucast (drop_bit 6 c)),
        0x80 OR take_bit 6 (ucast c)])"

lemma less_0x80_iff: "(v :: u8) < 0x80 \<longleftrightarrow> \<not> bit v 7"
proof -
  have "unat v < 256" using unsigned_less [of v, where 'a = nat] by simp
  moreover from this have "unat v div 128 = 1" if "\<not> unat v < 128"
    using that by (intro div_nat_eqI) simp_all
  ultimately have "unat v < 128 \<longleftrightarrow> even (unat v div 128)" by (cases "unat v < 128") simp_all
  moreover have "bit v 7 \<longleftrightarrow> bit (unat v) 7" by (simp add: bit_unsigned_iff)
  moreover have "bit (unat v) 7 \<longleftrightarrow> odd (unat v div 128)" by (simp add: bit_iff_odd)
  ultimately show ?thesis by (simp add: word_less_nat_alt)
qed

lemma lead_byte:
  "(0xC0 OR take_bit 5 (v :: u8)) AND 0xE0 = 0xC0" "(0xC0 OR take_bit 5 v) AND 0x1F = take_bit 5 v"
  "(0xE0 OR take_bit 4 v) AND 0xE0 = 0xE0" "(0xE0 OR take_bit 4 v) AND 0xF0 = 0xE0"
  "(0xE0 OR take_bit 4 v) AND 0x0F = take_bit 4 v" "(0x80 OR take_bit 6 v) AND 0x3F = take_bit 6 v"
proof -
  have m: "(0x1F :: u8) = mask 5" "(0x0F :: u8) = mask 4" "(0x3F :: u8) = mask 6"
    "(0xE0 :: u8) = NOT (mask 5)" "(0xF0 :: u8) = NOT (mask 4)"
    by (simp_all add: mask_eq_exp_minus_1)
  have z: "take_bit n v AND NOT (mask n) = 0" for n
    by (rule bit_word_eqI) (auto simp: bit_and_iff bit_take_bit_iff bit_not_iff bit_mask_iff)
  show "(0xC0 OR take_bit 5 v) AND 0xE0 = 0xC0"
    using z [of 5] by (simp add: bit.conj_disj_distrib2 m(4) [symmetric])
  show "(0xE0 OR take_bit 4 v) AND 0xF0 = 0xE0"
    using z [of 4] by (simp add: bit.conj_disj_distrib2 m(5) [symmetric])
  show "(0xE0 OR take_bit 4 v) AND 0xE0 = 0xE0"
    by (simp add: bit.conj_disj_distrib2)
  show "(0xC0 OR take_bit 5 v) AND 0x1F = take_bit 5 v" "(0xE0 OR take_bit 4 v) AND 0x0F = take_bit 4 v"
    "(0x80 OR take_bit 6 v) AND 0x3F = take_bit 6 v"
    unfolding m(1-3) take_bit_eq_mask [symmetric] by (simp_all add: take_bit_or)
qed

text \<open>UTF-8 decoding inverts encoding for every code point of 16 bits, and stops behind the character.\<close>

theorem utf8_roundtrip:
  "utf8_to_unicode (utf8_encode c @ rest) = Some (ucast c, rest)"
proof -
  have lt: "\<not> bit c k" if "unat c < 2 ^ n" "n \<le> k" for n k
  proof -
    have "unat c < 2 ^ k" using that by (rule less_le_trans [OF _ power_increasing]) simp
    then have "\<not> bit (unat c) k" by (simp add: bit_iff_odd)
    then show ?thesis by (simp add: bit_unsigned_iff)
  qed
  consider "c < 0x80" | "\<not> c < 0x80" "c < 0x800" | "\<not> c < 0x80" "\<not> c < 0x800" by blast
  then show ?thesis
  proof cases
    case 1
    then have u: "unat c < 2 ^ 7" by (simp add: word_less_nat_alt)
    then have "(ucast c :: u8) < 0x80" using lt [of 7 7] by (simp add: less_0x80_iff bit_ucast_iff)
    moreover have "k < 8" if "bit c k" for k using lt [OF u, of k] that by linarith
    then have "(ucast (ucast c :: u8) :: u32) = ucast c"
      by (intro bit_word_eqI) (auto simp: bit_ucast_iff)
    ultimately show ?thesis using 1 by (simp add: utf8_encode_def utf8_to_unicode_def)
  next
    case 2
    then have u: "unat c < 2 ^ 11" by (simp add: word_less_nat_alt)
    have "k < 11" if "bit c k" for k using lt [OF u, of k] that by linarith
    then have "(push_bit 6 (ucast (take_bit 5 (ucast (drop_bit 6 c) :: u8))) OR ucast (take_bit 6 (ucast c :: u8)) :: u32) = ucast c"
      by (intro bit_word_eqI) (fastforce simp: bit_or_iff bit_push_bit_iff bit_ucast_iff bit_take_bit_iff bit_drop_bit_eq)
    moreover have "\<not> (0xC0 OR take_bit 5 (ucast (drop_bit 6 c)) :: u8) < 0x80"
      by (simp add: less_0x80_iff bit_or_iff)
    ultimately show ?thesis using 2 by (simp add: utf8_encode_def utf8_to_unicode_def lead_byte)
  next
    case 3
    have "(push_bit 12 (ucast (take_bit 4 (ucast (drop_bit 12 c) :: u8))) OR
        push_bit 6 (ucast (take_bit 6 (ucast (drop_bit 6 c) :: u8))) OR ucast (take_bit 6 (ucast c :: u8)) :: u32) = ucast c"
    proof (rule bit_word_eqI)
      fix n :: nat
      show "bit (push_bit 12 (ucast (take_bit 4 (ucast (drop_bit 12 c) :: u8))) OR
          push_bit 6 (ucast (take_bit 6 (ucast (drop_bit 6 c) :: u8))) OR ucast (take_bit 6 (ucast c :: u8)) :: u32) n =
        bit (ucast c :: u32) n" if "n < LENGTH(32)"
        by (cases "n < 12")
          (auto simp: bit_or_iff bit_push_bit_iff bit_ucast_iff bit_take_bit_iff bit_drop_bit_eq dest: bit_imp_le_length)
    qed
    moreover have "\<not> (0xE0 OR take_bit 4 (ucast (drop_bit 12 c)) :: u8) < 0x80"
      by (simp add: less_0x80_iff bit_or_iff)
    ultimately show ?thesis using 3 by (simp add: utf8_encode_def utf8_to_unicode_def lead_byte)
  qed
qed

section \<open>JIS codes\<close>

declare jis_search.simps [simp del] terminus_text.simps [simp del]

lemma jis_search_spec:
  assumes "sorted_wrt (<) (map fst t)"
  shows "0 \<le> left \<Longrightarrow> right < int (length t) \<Longrightarrow> left \<le> right + 1 \<Longrightarrow>
    \<forall>i<length t. (int i < left \<longrightarrow> fst (t ! i) < u) \<and> (right < int i \<longrightarrow> u < fst (t ! i)) \<Longrightarrow>
    jis_search t u left right = Some (case map_of t u of None \<Rightarrow> 0 | Some j \<Rightarrow> j)"
  using assms
proof (induction t u left right rule: jis_search.induct)
  case (1 t u left right)
  show ?case
  proof (cases "left \<le> right")
    case False
    then have "u \<noteq> fst (t ! i)" if "i < length t" for i
      using 1 that by (metis less_irrefl not_less le_less_trans)
    then have "map_of t u = None" by (fastforce simp: map_of_eq_None_iff in_set_conv_nth)
    with False show ?thesis by (simp add: jis_search.simps)
  next
    case True
    define mid where "mid = c_div (left + right) 2"
    have mid: "left \<le> mid" "mid \<le> right" using c_div_2 [OF True] by (auto simp: mid_def)
    then have m: "\<not> mid < 0" "\<not> int (length t) \<le> mid" "nat mid < length t" using 1(3,4) by linarith+
    have mono: "fst (t ! i) < fst (t ! j)" if "i < j" "j < length t" for i j
      using 1(7) that by (simp add: sorted_wrt_iff_nth_less)
    have nm: "\<not> (mid < 0 \<or> int (length t) \<le> mid)" using m by blast
    note IH = 1(1,2) [OF True mid_def nm] and inv = 1(3-7)
    note step = jis_search.simps [of t u left right, unfolded Let_def, folded mid_def]
    consider "fst (t ! nat mid) = u" | "fst (t ! nat mid) < u" | "u < fst (t ! nat mid)" by fastforce
    then show ?thesis
    proof cases
      case 1
      have "distinct (map fst t)" using \<open>sorted_wrt (<) (map fst t)\<close> by (simp add: strict_sorted_iff)
      moreover have "(u, snd (t ! nat mid)) \<in> set t" using m(3) 1 by (metis nth_mem prod.collapse)
      ultimately have "map_of t u = Some (snd (t ! nat mid))" by simp
      with True m 1 show ?thesis by (simp add: step)
    next
      case 2
      have "fst (t ! i) < u" if "i < length t" "int i < mid + 1" for i
      proof -
        have "i < nat mid \<or> i = nat mid" using that m by linarith
        then show ?thesis using mono [of i "nat mid"] 2 m by (auto intro: less_trans)
      qed
      with inv have "\<forall>i<length t. (int i < mid + 1 \<longrightarrow> fst (t ! i) < u) \<and> (right < int i \<longrightarrow> u < fst (t ! i))" by blast
      moreover have "fst (t ! nat mid) \<noteq> u" using 2 by (rule less_imp_neq)
      ultimately show ?thesis using IH(1) 2 True m mid inv by (simp add: step)
    next
      case 3
      have "u < fst (t ! i)" if "i < length t" "mid - 1 < int i" for i
      proof -
        have "nat mid < i \<or> i = nat mid" using that m by linarith
        then show ?thesis using mono [of "nat mid" i] 3 that by (auto intro: less_trans)
      qed
      with inv have "\<forall>i<length t. (int i < left \<longrightarrow> fst (t ! i) < u) \<and> (mid - 1 < int i \<longrightarrow> u < fst (t ! i))" by blast
      moreover have "fst (t ! nat mid) \<noteq> u" "\<not> fst (t ! nat mid) < u" using 3 by (auto dest: less_asym)
      ultimately show ?thesis using IH(2) 3 True m mid inv by (simp add: step)
    qed
  qed
qed

text \<open>In a sorted table the binary search ends, stays in the table and finds the JIS code of the
  character, or gives 0 when it has none.\<close>

theorem jis_lookup:
  assumes "sorted_wrt (<) (map fst t)"
  shows "unicode_to_jis t u = Some (case map_of t u of None \<Rightarrow> 0 | Some j \<Rightarrow> j)"
  using jis_search_spec [OF assms, of 0 "int (length t) - 1" u] by (simp add: unicode_to_jis_def)

lemma jis_lookup_witness: "unicode_to_jis [(0x3042, 0x2422), (0x3044, 0x2424), (0x4E9C, 0x3021)] 0x4E9C = Some 0x3021"
  using jis_lookup [where t = "[(0x3042, 0x2422), (0x3044, 0x2424), (0x4E9C, 0x3021)]" and u = "0x4E9C"] by simp

section \<open>Glyphs\<close>

text \<open>A table entry is a stream of bits, from the highest bit of each byte. The rows of a glyph have
  its width as number of bits, the leftmost pixel being the highest.\<close>

definition glyph_bit :: "bytes \<Rightarrow> nat \<Rightarrow> bool" where
  "glyph_bit data k \<longleftrightarrow> bit (data ! (k div 8)) (7 - k mod 8)"

definition is_glyph :: "nat \<Rightarrow> nat \<Rightarrow> bytes \<Rightarrow> u64 list \<Rightarrow> bool" where
  "is_glyph w h data rows \<longleftrightarrow> length rows = h \<and>
     (\<forall>y<h. \<forall>k. bit (rows ! y) k \<longleftrightarrow> k < w \<and> glyph_bit data (y * w + (w - 1 - k)))"

lemma byte_bit: "bit (ucast (b :: u8) :: u64) k = bit b k"
  by (auto simp: bit_ucast_iff dest: bit_imp_le_length)

lemma byte_high: "8 \<le> k \<Longrightarrow> bit (b :: u8) k \<longleftrightarrow> False"
  by (auto dest: bit_imp_le_length)

lemma mask_bits:
  "(x :: u64) AND 3 = take_bit 2 x" "x AND 0xF = take_bit 4 x" "x AND 0x3F = take_bit 6 x"
  by (simp_all add: take_bit_eq_mask mask_eq_exp_minus_1)

lemmas glyph_bits = mask_bits bit_or_iff bit_push_bit_iff bit_drop_bit_eq bit_take_bit_iff byte_bit

lemma nth_concat_blocks:
  assumes "\<And>i. length (f i) = m" "i < n" "r < m"
  shows "concat (map f [0..<n]) ! (i * m + r) = f i ! r" "length (concat (map f [0..<n])) = n * m"
proof -
  show len: "length (concat (map f [0..<n])) = n * m" for n using assms(1) by (induction n) simp_all
  show "concat (map f [0..<n]) ! (i * m + r) = f i ! r" using assms(2)
  proof (induction n)
    case (Suc n)
    have "i * m + r < Suc i * m" using assms(3) by simp
    also have "Suc i * m \<le> n * m" if "i < n" using that by (intro mult_right_mono) simp_all
    finally show ?case using Suc len [of n] by (cases "i = n") (simp_all add: nth_append)
  qed simp
qed

lemma glyph_bit_block: "glyph_bit data (i * (n * 8) + j) = bit (data ! (i * n + j div 8)) (7 - j mod 8)"
proof -
  have "i * (n * 8) + j = (i * n) * 8 + j" by (simp add: algebra_simps)
  then show ?thesis by (simp only: glyph_bit_def div_mult_self3 mod_mult_self3)
qed

text \<open>Rows in blocks of \<open>m\<close> rows that take \<open>n\<close> bytes.\<close>

lemma is_glyph_blocks:
  assumes "\<And>i. length (f i) = m" "m * w = n * 8" "0 < m"
    and "\<And>i r k. r < m \<Longrightarrow> bit (f i ! r) k \<longleftrightarrow>
      k < w \<and> bit (data ! (i * n + (r * w + (w - 1 - k)) div 8)) (7 - (r * w + (w - 1 - k)) mod 8)"
  shows "is_glyph w (b * m) data (concat (map f [0..<b]))"
proof -
  have "bit (concat (map f [0..<b]) ! y) k \<longleftrightarrow> k < w \<and> glyph_bit data (y * w + (w - 1 - k))" if y: "y < b * m" for y k
  proof -
    define i r where "i = y div m" and "r = y mod m"
    have ir: "y = i * m + r" "r < m" "i < b"
      using y assms(3) by (simp_all add: i_def r_def less_mult_imp_div_less)
    have "y * w + (w - 1 - k) = i * (n * 8) + (r * w + (w - 1 - k))"
      by (simp add: ir(1) assms(2) [symmetric] algebra_simps)
    then have "glyph_bit data (y * w + (w - 1 - k)) =
        bit (data ! (i * n + (r * w + (w - 1 - k)) div 8)) (7 - (r * w + (w - 1 - k)) mod 8)"
      by (simp only: glyph_bit_block)
    then show ?thesis using assms(4) [OF ir(2)] nth_concat_blocks(1) [OF assms(1) ir(3,2)] by (simp add: ir(1))
  qed
  moreover have "length (concat (map f [0..<b])) = b * m"
    using assms(1) by (induction b) simp_all
  ultimately show ?thesis by (simp add: is_glyph_def)
qed

lemma less_4: "(r :: nat) < 4 \<longleftrightarrow> r = 0 \<or> r = 1 \<or> r = 2 \<or> r = 3" by auto
lemma less_6: "(r :: nat) < 6 \<longleftrightarrow> r = 0 \<or> r = 1 \<or> r = 2 \<or> r = 3 \<or> r = 4 \<or> r = 5" by auto

lemma ascii_12_glyph: "is_glyph 6 12 data (ascii_12_rows data)"
proof -
  have "is_glyph 6 (3 * 4) data (ascii_12_rows data)" unfolding ascii_12_rows_def
  proof (rule is_glyph_blocks [where n = 3])
    fix i r k :: nat
    assume "r < 4"
    then show "bit ([drop_bit 2 (data64 data (i * 3)),
        push_bit 4 (data64 data (i * 3) AND 3) OR drop_bit 4 (data64 data (i * 3 + 1)),
        push_bit 2 (data64 data (i * 3 + 1) AND 15) OR drop_bit 6 (data64 data (i * 3 + 2)),
        data64 data (i * 3 + 2) AND 63] ! r) k \<longleftrightarrow>
      k < 6 \<and> bit (data ! (i * 3 + (r * 6 + (6 - 1 - k)) div 8)) (7 - (r * 6 + (6 - 1 - k)) mod 8)"
    proof (cases "k < 6")
      case True
      with \<open>r < 4\<close> show ?thesis unfolding less_4 less_6 by (elim disjE; simp add: glyph_bits byte_high)
    next
      case False
      with \<open>r < 4\<close> show ?thesis unfolding less_4 by (elim disjE; simp add: glyph_bits byte_high)
    qed
  qed simp_all
  then show ?thesis by simp
qed

lemma bit_at:
  assumes "m = 8 * q + (7 - j)" "j < 8"
  shows "bit (data ! (b + m div 8)) (7 - m mod 8) = bit ((data :: bytes) ! (b + q)) j"
proof -
  define j' where "j' = 7 - j"
  have "m = 8 * q + j'" "j' < 8" using assms by (simp_all add: j'_def)
  then have "m div 8 = q" "m mod 8 = 7 - j" by (simp_all add: j'_def [symmetric])
  with assms(2) show ?thesis by simp
qed

lemma ascii_16_glyph: "is_glyph 8 16 data (ascii_16_rows data)"
proof -
  have "is_glyph 8 (16 * 1) data (concat (map (\<lambda>i. [data64 data i]) [0..<16]))"
  proof (rule is_glyph_blocks [where n = 1])
    fix i r k :: nat
    assume "r < 1"
    then show "bit ([data64 data i] ! r) k \<longleftrightarrow> k < 8 \<and> bit (data ! (i * 1 + (r * 8 + (8 - 1 - k)) div 8)) (7 - (r * 8 + (8 - 1 - k)) mod 8)"
      using bit_at [of "7 - k" 0 k data i] by (cases "k < 8") (simp_all add: byte_bit byte_high)
  qed simp_all
  then show ?thesis by (simp add: ascii_16_rows_def concat_map_singleton)
qed

lemma jis_12_glyph: "is_glyph 12 12 data (jis_12_rows data)"
proof -
  have "is_glyph 12 (6 * 2) data (jis_12_rows data)" unfolding jis_12_rows_def
  proof (rule is_glyph_blocks [where n = 3])
    fix i r k :: nat
    assume "r < 2"
    then have r: "r = 0 \<or> r = 1" by auto
    show "bit ([push_bit 4 (data64 data (i * 3)) OR drop_bit 4 (data64 data (i * 3 + 1)),
        push_bit 8 (data64 data (i * 3 + 1) AND 15) OR data64 data (i * 3 + 2)] ! r) k \<longleftrightarrow>
      k < 12 \<and> bit (data ! (i * 3 + (r * 12 + (12 - 1 - k)) div 8)) (7 - (r * 12 + (12 - 1 - k)) mod 8)"
      using r
    proof
      assume "r = 0"
      then show ?thesis
        using bit_at [of "11 - k" 1 "4 + k" data "i * 3"] bit_at [of "11 - k" 0 "k - 4" data "i * 3"]
        by (cases "k < 4"; cases "k < 12") (simp_all add: glyph_bits byte_high)
    next
      assume "r = 1"
      moreover have "k < 12 \<Longrightarrow> k - 8 < 4" by linarith
      ultimately show ?thesis
        using bit_at [of "23 - k" 2 k data "i * 3"] bit_at [of "23 - k" 1 "k - 8" data "i * 3"]
        by (cases "k < 8"; cases "k < 12") (simp_all add: glyph_bits byte_high)
    qed
  qed simp_all
  then show ?thesis by simp
qed

lemma jis_16_glyph: "is_glyph 16 16 data (jis_16_rows data)"
proof -
  have "is_glyph 16 (16 * 1) data (concat (map (\<lambda>i. [push_bit 8 (data64 data (i * 2)) OR data64 data (i * 2 + 1)]) [0..<16]))"
  proof (rule is_glyph_blocks [where n = 2])
    fix i r k :: nat
    assume "r < 1"
    then show "bit ([push_bit 8 (data64 data (i * 2)) OR data64 data (i * 2 + 1)] ! r) k \<longleftrightarrow>
      k < 16 \<and> bit (data ! (i * 2 + (r * 16 + (16 - 1 - k)) div 8)) (7 - (r * 16 + (16 - 1 - k)) mod 8)"
      using bit_at [of "15 - k" 1 k data "i * 2"] bit_at [of "15 - k" 0 "k - 8" data "i * 2"]
      by (cases "k < 8"; cases "k < 16") (simp_all add: glyph_bits byte_high)
  qed simp_all
  then show ?thesis by (simp add: jis_16_rows_def concat_map_singleton)
qed

text \<open>The loops of Terminus: \<^verbatim>\<open>byte_idx\<close> and \<^verbatim>\<open>bit_idx\<close> are quotient and remainder of the position.\<close>

lemma terminus_bit_step:
  assumes "p < 8 * length data"
  shows "terminus_bit data w (line, p div 8, p mod 8) x =
    (if glyph_bit data p then line OR push_bit (w - 1 - x) 1 else line, Suc p div 8, Suc p mod 8)"
proof -
  have b0: "v AND 1 = 0 \<longleftrightarrow> \<not> bit v 0" for v :: u8 by (simp add: and_one_eq mod_2_eq_odd bit_0)
  have "p div 8 < length data" using assms by linarith
  moreover have "8 \<le> p mod 8 + 1 \<Longrightarrow> Suc p div 8 = p div 8 + 1 \<and> Suc p mod 8 = 0"
    "\<not> 8 \<le> p mod 8 + 1 \<Longrightarrow> Suc p div 8 = p div 8 \<and> Suc p mod 8 = p mod 8 + 1"
    by (simp_all add: div_Suc mod_Suc)
  ultimately show ?thesis by (auto simp: terminus_bit_def glyph_bit_def b0 bit_drop_bit_eq Let_def simp del: bit_0)
qed

lemma terminus_row:
  assumes "w \<le> 64" "n \<le> w" "p + n \<le> 8 * length data"
  shows "\<exists>line. foldl (terminus_bit data w) (0, p div 8, p mod 8) [0..<n] = (line, (p + n) div 8, (p + n) mod 8) \<and>
    (\<forall>k. bit line k \<longleftrightarrow> w - n \<le> k \<and> k < w \<and> glyph_bit data (p + (w - 1 - k)))"
  using assms(2,3)
proof (induction n)
  case (Suc n)
  then obtain line where l: "foldl (terminus_bit data w) (0, p div 8, p mod 8) [0..<n] = (line, (p + n) div 8, (p + n) mod 8)"
    "\<And>k. bit line k \<longleftrightarrow> w - n \<le> k \<and> k < w \<and> glyph_bit data (p + (w - 1 - k))" by auto
  let ?line = "if glyph_bit data (p + n) then line OR push_bit (w - 1 - n) 1 else line"
  have "bit ?line k \<longleftrightarrow> w - Suc n \<le> k \<and> k < w \<and> glyph_bit data (p + (w - 1 - k))" for k
  proof -
    have one: "bit (push_bit (w - 1 - n) 1 :: u64) k \<longleftrightarrow> k = w - 1 - n"
      using Suc.prems(1) assms(1) by (auto simp: bit_exp_iff)
    show ?thesis
    proof (cases "k = w - 1 - n")
      case True
      then have "w - 1 - k = n" "\<not> w - n \<le> k" "k < w" "w - Suc n \<le> k" using Suc.prems(1) by auto
      with True one l(2) [of k] show ?thesis by (simp add: bit_or_iff del: push_bit_of_1)
    next
      case False
      then have "w - Suc n \<le> k \<longleftrightarrow> w - n \<le> k" using Suc.prems(1) by auto
      with False one l(2) [of k] show ?thesis by (simp add: bit_or_iff del: push_bit_of_1)
    qed
  qed
  moreover have "foldl (terminus_bit data w) (0, p div 8, p mod 8) [0..<Suc n] = (?line, (p + Suc n) div 8, (p + Suc n) mod 8)"
    using terminus_bit_step [of "p + n" data w line n] Suc.prems(2) by (simp add: l(1))
  ultimately show ?case by blast
qed simp

lemma terminus_rows_spec:
  assumes "w \<le> 64" "p + n * w \<le> 8 * length data"
  shows "length (terminus_rows data w n (p div 8) (p mod 8)) = n \<and>
    (\<forall>y<n. \<forall>k. bit (terminus_rows data w n (p div 8) (p mod 8) ! y) k \<longleftrightarrow>
       k < w \<and> glyph_bit data (p + y * w + (w - 1 - k)))"
  using assms(2)
proof (induction n arbitrary: p)
  case (Suc n)
  obtain line where l: "foldl (terminus_bit data w) (0, p div 8, p mod 8) [0..<w] = (line, (p + w) div 8, (p + w) mod 8)"
    "\<And>k. bit line k \<longleftrightarrow> k < w \<and> glyph_bit data (p + (w - 1 - k))"
    using terminus_row [OF assms(1) order_refl, of p data] Suc.prems by auto
  have "p + w + n * w \<le> 8 * length data" using Suc.prems by simp
  from Suc.IH [OF this] show ?case
    by (auto simp: l nth_Cons' algebra_simps less_Suc_eq_0_disj)
qed simp

lemma terminus_glyph:
  "w \<le> 64 \<Longrightarrow> h * w \<le> 8 * length data \<Longrightarrow> is_glyph w h data (terminus_rows data w h 0 0)"
  using terminus_rows_spec [of w 0 h data] by (simp add: is_glyph_def)

lemma is_glyph_take:
  assumes "is_glyph w h (take n data) rows" "w * h \<le> 8 * n"
  shows "is_glyph w h data rows"
proof -
  have "glyph_bit (take n data) (y * w + (w - 1 - k)) = glyph_bit data (y * w + (w - 1 - k))" if "k < w" "y < h" for y k
  proof -
    have "y * w + (w - 1 - k) < Suc y * w" using that(1) by simp
    also have "Suc y * w \<le> h * w" using that(2) by (intro mult_right_mono) simp_all
    finally have "(y * w + (w - 1 - k)) div 8 < n" using assms(2) by (simp add: less_mult_imp_div_less mult.commute)
    then show ?thesis by (simp add: glyph_bit_def)
  qed
  then show ?thesis using assms(1) by (auto simp: is_glyph_def)
qed

lemma terminus_sub_ascii:
  fixes c :: u8 and w h :: nat
  defines "n \<equiv> (w * h + 7) div 8"
  defines "base \<equiv> (unat c - 0x20) * n"
  assumes "w \<le> 64" "0x20 \<le> c" "c \<le> 0x7E" "95 * n \<le> length table" "n < 2 ^ 24"
  shows "\<exists>rows. array_of_terminus_sub (c # p) w h table = Some (True, p, of_nat w # rows) \<and>
    is_glyph w h (drop base table) rows"
proof -
  have u: "0x20 \<le> unat c" "unat c \<le> 0x7E" using assms(4,5) by (simp_all add: word_le_nat_alt)
  then have k: "unat c - 0x20 \<le> 94" by simp
  have c: "c < 0x80" using u by (simp add: word_less_nat_alt)
  have uc: "unat (ucast c :: u32) = unat c" using unsigned_less [of c, where 'a = nat] by (simp add: unsigned_ucast_eq take_bit_nat_eq_self)
  have le: "base \<le> 94 * n" unfolding base_def using k by (rule mult_le_mono1)
  have "(ucast c - 0x20 :: u32) * of_nat n = of_nat base"
    unfolding base_def using u(1) uc by (simp add: of_nat_diff)
  then have base: "unat ((ucast c - 0x20 :: u32) * of_nat n) = base"
    using le assms(7) by (simp add: unsigned_of_nat take_bit_nat_eq_self)
  have len: "base + n \<le> length table" using le assms(6) by simp
  have "\<not> (ucast c :: u32) < 0x20" "\<not> 0x7E < (ucast c :: u32)"
    using u uc by (simp_all add: word_less_nat_alt)
  then have "array_of_terminus_sub (c # p) w h table =
      Some (True, p, of_nat w # terminus_rows (take n (drop base table)) w h 0 0)"
    using c base len
    by (simp add: array_of_terminus_sub_def terminus_utf8_eq utf8_to_unicode_def glyph_data_def n_def [symmetric] Let_def)
  moreover have "is_glyph w h (drop base table) (terminus_rows (take n (drop base table)) w h 0 0)"
    by (rule is_glyph_take [where n = n], rule terminus_glyph)
      (use assms(3) len in \<open>simp_all add: n_def mult.commute\<close>)
  ultimately show ?thesis by blast
qed

text \<open>C19: In both fonts and all sizes, the rows of a glyph are the bits of its table entry in order:
  the pixel in column \<open>x\<close> of row \<open>y\<close> is bit \<open>y * w + x\<close> of the entry, counted from the highest bit of
  each byte, and no row has a bit outside its width. For Terminus this is stated for a whole text.\<close>

theorem font_glyph_bits:
  assumes "w \<le> 64" "\<forall>c\<in>set str. 0x20 \<le> c \<and> c \<le> 0x7E" "95 * ((w * h + 7) div 8) \<le> length table"
    "(w * h + 7) div 8 < 2 ^ 24"
  shows "is_glyph 6 12 data (ascii_12_rows data) \<and> is_glyph 8 16 data (ascii_16_rows data) \<and>
    is_glyph 12 12 data (jis_12_rows data) \<and> is_glyph 16 16 data (jis_16_rows data) \<and>
    (\<exists>glyphs. array_of_terminus str w h (\<lambda>p. array_of_terminus_sub p w h table) = Some (Inr (VArray
       [VInt (int h), VInt (int (w * length str)), VArray (replicate (length str) (VInt (int w))),
        VArray (map (\<lambda>rows. VArray (map (VInt \<circ> uint) rows)) glyphs)])) \<and>
      list_all2 (\<lambda>c. is_glyph w h (drop ((unat c - 0x20) * ((w * h + 7) div 8)) table)) str glyphs)"
proof -
  let ?f = "\<lambda>p. array_of_terminus_sub p w h table"
  let ?G = "\<lambda>c. is_glyph w h (drop ((unat c - 0x20) * ((w * h + 7) div 8)) table)"
  let ?ch = "\<lambda>rows :: u64 list. VArray (map (VInt \<circ> uint) rows)"
  have "\<exists>glyphs. terminus_text id w ?f (str @ [0]) total ws gs =
      Some (Inr (total + int (w * length str), ws @ replicate (length str) (VInt (int w)), gs @ map ?ch glyphs)) \<and>
    list_all2 ?G str glyphs" for total ws gs
    using assms(2)
  proof (induction str arbitrary: total ws gs)
    case (Cons c str)
    obtain rows where r: "?f (c # str @ [0]) = Some (True, str @ [0], of_nat w # rows)" "?G c rows"
      using terminus_sub_ascii [of w c h table "str @ [0]"] assms(1,3,4) Cons.prems by auto
    obtain glyphs where g: "terminus_text id w ?f (str @ [0]) (total + int w) (ws @ [VInt (int w)]) (gs @ [?ch rows]) =
        Some (Inr (total + int w + int (w * length str),
          (ws @ [VInt (int w)]) @ replicate (length str) (VInt (int w)), (gs @ [?ch rows]) @ map ?ch glyphs))"
      "list_all2 ?G str glyphs"
      using Cons by fastforce
    have "c \<noteq> 0" using Cons.prems by auto
    then have "terminus_text id w ?f ((c # str) @ [0]) total ws gs =
        terminus_text id w ?f (str @ [0]) (total + int w) (ws @ [VInt (int w)]) (gs @ [?ch rows])"
      using r(1) by (subst terminus_text.simps) (simp add: comp_def)
    then show ?case using r(2) g
      by (intro exI [of _ "rows # glyphs"]) (simp add: algebra_simps comp_def id_def)
  qed (simp add: terminus_text.simps)
  from this [of 0 "[]" "[]"] obtain glyphs where
    "terminus_text id w ?f (str @ [0]) 0 [] [] = Some (Inr (int (w * length str),
      replicate (length str) (VInt (int w)), map ?ch glyphs))" "list_all2 ?G str glyphs" by auto
  then show ?thesis
    using ascii_12_glyph ascii_16_glyph jis_12_glyph jis_16_glyph
    by (auto simp: array_of_terminus_def terminus_result_def)
qed

lemma font_glyph_bits_witness:
  "\<exists>g. mrb_s_8x16 (replicate 1520 0xFF) [65] = Some (Inr (VArray [VInt 16, VInt 8, VArray [VInt 8], VArray [g]]))"
  using font_glyph_bits [of 8 "[65]" 16 "replicate 1520 0xFF" "[]"]
  by (auto simp: mrb_s_8x16_def array_of_terminus_8x16_def [abs_def] list_all2_Cons1)

section \<open>Zoom\<close>

lemma expand_bits_spec:
  assumes "0 < s" "n * s \<le> 64"
  shows "bit (expand_bits src n s) k \<longleftrightarrow> k < n * s \<and> bit src (k div s)"
proof -
  let ?f = "\<lambda>dst i. let bit = drop_bit (n - 1 - i) src AND 1; dst = push_bit s dst
     in if bit \<noteq> 0 then dst OR (push_bit s 1 - 1) else (dst :: u64)"
  have b: "drop_bit j src AND 1 \<noteq> 0 \<longleftrightarrow> bit src j" for j
    by (simp add: and_one_eq bit_iff_odd_drop_bit mod_2_eq_odd)
  have "bit (foldl ?f 0 [0..<i]) k \<longleftrightarrow> k < i * s \<and> bit src (n - i + k div s)" if "i \<le> n" for i k
    using that
  proof (induction i arbitrary: k)
    case (Suc i)
    let ?d = "foldl ?f 0 [0..<i]"
    have ls: "Suc i * s \<le> 64" using Suc.prems assms(2) by (meson le_trans mult_le_mono1)
    have step: "foldl ?f 0 [0..<Suc i] = (if bit src (n - 1 - i) then push_bit s ?d OR mask s else push_bit s ?d)"
      by (simp add: b Let_def flip: mask_eq_exp_minus_1)
    show ?case
    proof (cases "k < s")
      case True
      then have "k div s = 0" "n - Suc i + k div s = n - 1 - i" by simp_all
      moreover have "k < 64" using True ls by simp
      ultimately show ?thesis using True unfolding step
        by (simp add: bit_or_iff bit_push_bit_iff bit_mask_iff)
    next
      case False
      then have d: "k div s = Suc ((k - s) div s)" using assms(1) by (simp add: le_div_geq)
      have "n - i + (k - s) div s = n - Suc i + k div s" using Suc.prems by (simp add: d)
      moreover have "k - s < i * s \<longleftrightarrow> k < Suc i * s" using False by auto
      moreover have "k < Suc i * s \<Longrightarrow> k < 64" using ls by linarith
      ultimately show ?thesis using False Suc.IH [of "k - s"] Suc.prems unfolding step
        by (auto simp: bit_or_iff bit_push_bit_iff bit_mask_iff)
    qed
  qed simp
  from this [of n k] show ?thesis by (simp add: expand_bits_def)
qed

text \<open>The effect of \<open>smooth_pixel\<close> at one position. The first of its two conditions sets a bit that is
  set already.\<close>

definition corner :: "u64 list \<Rightarrow> nat \<Rightarrow> nat \<Rightarrow> bool" where
  "corner input y k \<longleftrightarrow> bit (input ! y) k \<and> bit (input ! Suc y) (Suc k) \<and>
     \<not> bit (input ! y) (Suc k) \<and> \<not> bit (input ! Suc y) k"

definition smoothed :: "u64 list \<Rightarrow> nat \<Rightarrow> (nat \<times> nat) set \<Rightarrow> nat \<Rightarrow> nat \<Rightarrow> bool" where
  "smoothed input w S y k \<longleftrightarrow> bit (input ! y) k \<or>
     0 < y \<and> k + 1 < w \<and> (y - 1, w - 2 - k) \<in> S \<and> corner input (y - 1) k"

lemma GET_BIT_iff: "GET_BIT row x w \<noteq> 0 \<longleftrightarrow> bit row (w - 1 - x)"
  by (simp add: GET_BIT_def and_one_eq bit_iff_odd_drop_bit mod_2_eq_odd)

lemma smooth_pixel_step:
  assumes "Suc y < length input" "Suc x < w" "w \<le> 64" "length tmp = length input"
    and "\<forall>y<length input. \<forall>k. bit (tmp ! y) k \<longleftrightarrow> smoothed input w S y k"
  shows "\<exists>tmp'. smooth_pixel input w (y, x) tmp = Some tmp' \<and> length tmp' = length input \<and>
    (\<forall>y'<length input. \<forall>k. bit (tmp' ! y') k \<longleftrightarrow> smoothed input w (insert (y, x) S) y' k)"
proof -
  define k where "k = w - 2 - x"
  have k: "w - 1 - x = Suc k" "w - 1 - Suc x = k" "k + 1 < w" "w - 2 - k = x" "k < 64"
    using assms(2,3) by (simp_all add: k_def)
  have kx: "k' + 1 < w \<Longrightarrow> w - 2 - k' = x \<longleftrightarrow> k' = k" for k' using assms(2) by (auto simp: k_def)
  have set: "bit (SET_BIT t (Suc x) w) k' \<longleftrightarrow> bit t k' \<or> k' = k" for t k'
    using k by (auto simp: SET_BIT_def bit_or_iff bit_exp_iff)
  have ins: "smoothed input w (insert (y, x) S) y' k' \<longleftrightarrow> smoothed input w S y' k' \<or> y' = Suc y \<and> k' = k \<and> corner input y k" for y' k'
    using kx [of k'] k(3,4) by (cases y') (auto simp: smoothed_def)
  let ?other = "bit (input ! y) (Suc k) \<and> bit (input ! Suc y) k \<and> \<not> bit (input ! y) k \<and> \<not> bit (input ! Suc y) (Suc k)"
  have step: "smooth_pixel input w (y, x) tmp =
      Some (if ?other \<or> corner input y k then tmp[Suc y := SET_BIT (tmp ! Suc y) (Suc x) w] else tmp)"
  proof -
    have "\<And>row x. (GET_BIT row x w = 0) \<longleftrightarrow> \<not> bit row (w - 1 - x)" using GET_BIT_iff by blast
    then show ?thesis using assms(1,4) k(1,2)
      by (auto simp: smooth_pixel_def corner_def)
  qed
  have same: "?other \<Longrightarrow> bit (tmp ! Suc y) k" using assms(1,5) by (auto simp: smoothed_def)
  have "bit ((if ?other \<or> corner input y k then tmp[Suc y := SET_BIT (tmp ! Suc y) (Suc x) w] else tmp) ! y') k' \<longleftrightarrow>
      smoothed input w (insert (y, x) S) y' k'" if "y' < length input" for y' k'
  proof (cases "y' = Suc y")
    case True
    then show ?thesis using assms(1,4,5) same by (auto simp: ins set)
  next
    case False
    then have "tmp[Suc y := v] ! y' = tmp ! y'" for v by simp
    with False show ?thesis using that assms(5) by (simp add: ins)
  qed
  then show ?thesis using step assms(4) by simp
qed

lemma smooth_edges_spec:
  assumes "w \<le> 64"
  shows "\<exists>out. smooth_edges input w (length input) = Some out \<and> length out = length input \<and>
    (\<forall>y<length input. \<forall>k. bit (out ! y) k \<longleftrightarrow> bit (input ! y) k \<or> 0 < y \<and> k + 1 < w \<and> corner input (y - 1) k)"
proof -
  let ?pts = "concat (map (\<lambda>y. map (Pair y) [0..<w - 1]) [0..<length input - 1])"
  have "\<exists>out. for_each (smooth_pixel input w) pts tmp = Some out \<and> length out = length input \<and>
      (\<forall>y<length input. \<forall>k. bit (out ! y) k \<longleftrightarrow> smoothed input w (set pts \<union> S) y k)"
    if "set pts \<subseteq> set ?pts" "length tmp = length input"
      "\<forall>y<length input. \<forall>k. bit (tmp ! y) k \<longleftrightarrow> smoothed input w S y k" for pts tmp S
    using that
  proof (induction pts arbitrary: tmp S)
    case (Cons p pts)
    obtain y x where p: "p = (y, x)" by fastforce
    have "Suc y < length input" "Suc x < w" using Cons.prems(1) by (auto simp: p)
    then obtain tmp' where t: "smooth_pixel input w p tmp = Some tmp'" "length tmp' = length input"
      "\<forall>y'<length input. \<forall>k. bit (tmp' ! y') k \<longleftrightarrow> smoothed input w (insert p S) y' k"
      using smooth_pixel_step [OF _ _ assms Cons.prems(2,3), of y x] unfolding p by blast
    have "set pts \<subseteq> set ?pts" using Cons.prems(1) by simp
    from Cons.IH [OF this t(2,3)] show ?case by (simp add: t(1))
  qed simp
  from this [of ?pts input "{}"] obtain out where o: "for_each (smooth_pixel input w) ?pts input = Some out"
    "length out = length input" "\<And>y k. y < length input \<Longrightarrow> bit (out ! y) k \<longleftrightarrow> smoothed input w (set ?pts) y k"
    by (auto simp: smoothed_def)
  have "smoothed input w (set ?pts) y k \<longleftrightarrow> bit (input ! y) k \<or> 0 < y \<and> k + 1 < w \<and> corner input (y - 1) k"
    if "y < length input" for y k
  proof -
    have "set ?pts = {(y, x). y < length input - 1 \<and> x < w - 1}" by auto
    then show ?thesis using that by (auto simp: smoothed_def)
  qed
  with o show ?thesis by (simp add: smooth_edges_def)
qed

text \<open>Zoom by 2 to 4 is defined and makes \<open>scale\<close> times as many rows. A pixel of the result is set
  iff the pixel of the glyph it comes from is set, or it is the inner corner of a diagonal from
  upper right to lower left. (Diagonals in the other direction are not smoothed.)\<close>

theorem shinonome_zoom:
  assumes "1 < scale" "sz * scale \<le> 64" "length rows = sz" "width \<le> 64"
  shows "\<exists>out. zoom_rows sz scale (of_nat width) rows = Some out \<and> length out = sz * scale \<and>
    (let pixel = \<lambda>y k. k < sz * scale \<and> bit (rows ! (y div scale)) (k div scale) in
     \<forall>y < sz * scale. \<forall>k. bit (out ! y) k \<longleftrightarrow> pixel y k \<or>
       0 < y \<and> k + 1 < width \<and> pixel (y - 1) k \<and> pixel y (k + 1) \<and> \<not> pixel (y - 1) (k + 1) \<and> \<not> pixel y k)"
proof -
  let ?in = "concat (map (\<lambda>row. replicate scale (expand_bits row sz scale)) rows)"
  have "?in = concat (map (\<lambda>i. replicate scale (expand_bits (rows ! i) sz scale)) [0..<length rows])"
    by (metis (no_types, lifting) map_nth map_map comp_apply map_cong)
  then have nth: "?in ! (i * scale + r) = expand_bits (rows ! i) sz scale" if "i < sz" "r < scale" for i r
    using nth_concat_blocks(1) [of "\<lambda>i. replicate scale (expand_bits (rows ! i) sz scale)" scale i sz r] that assms(3)
    by simp
  have "length (concat (map (\<lambda>row. replicate scale (f row)) rows)) = length rows * scale" for f :: "u64 \<Rightarrow> u64" and rows
    by (induction rows) simp_all
  then have len: "length ?in = sz * scale" using assms(3) by simp
  have nth: "?in ! y = expand_bits (rows ! (y div scale)) sz scale" if "y < sz * scale" for y
    using nth [of "y div scale" "y mod scale"] that assms(1) by (simp add: less_mult_imp_div_less)
  have bits: "bit (?in ! y) k \<longleftrightarrow> k < sz * scale \<and> bit (rows ! (y div scale)) (k div scale)" if "y < sz * scale" for y k
    using nth [OF that] expand_bits_spec [of scale sz "rows ! (y div scale)" k] assms(1,2) by simp
  obtain out where out: "smooth_edges ?in width (sz * scale) = Some out" "length out = sz * scale"
    "\<forall>y < sz * scale. \<forall>k. bit (out ! y) k \<longleftrightarrow> bit (?in ! y) k \<or> 0 < y \<and> k + 1 < width \<and> corner ?in (y - 1) k"
    using smooth_edges_spec [OF assms(4), of ?in] unfolding len by blast
  have "unat (of_nat width :: u64) = width" using assms(4) by (simp add: unsigned_of_nat take_bit_nat_eq_self)
  with out(1) have "zoom_rows sz scale (of_nat width) rows = Some out" by (simp add: zoom_rows_def)
  moreover have "corner ?in (y - 1) k \<longleftrightarrow> (bit (?in ! (y - 1)) k \<and> bit (?in ! y) (k + 1) \<and>
      \<not> bit (?in ! (y - 1)) (k + 1) \<and> \<not> bit (?in ! y) k)" if "0 < y" for y k
    using that by (simp add: corner_def)
  ultimately show ?thesis using out(2,3) bits by (auto simp: Let_def)
qed

lemma shinonome_zoom_witness:
  "\<exists>out. zoom_rows 2 2 4 [1, 2] = Some out \<and> bit (out ! 2) 2 \<and> bit (out ! 2) 1"
proof -
  obtain out where out: "zoom_rows 2 2 4 [1, 2] = Some out"
    and bits: "\<And>y k. y < 4 \<Longrightarrow> bit (out ! y) k \<longleftrightarrow> (k < 4 \<and> bit ([1, 2 :: u64] ! (y div 2)) (k div 2)) \<or>
       0 < y \<and> k + 1 < 4 \<and> (k < 4 \<and> bit ([1, 2 :: u64] ! ((y - 1) div 2)) (k div 2)) \<and>
       (k + 1 < 4 \<and> bit ([1, 2 :: u64] ! (y div 2)) ((k + 1) div 2)) \<and>
       \<not> (k + 1 < 4 \<and> bit ([1, 2 :: u64] ! ((y - 1) div 2)) ((k + 1) div 2)) \<and> \<not> (k < 4 \<and> bit ([1, 2 :: u64] ! (y div 2)) (k div 2))"
    using shinonome_zoom [of 2 2 "[1, 2]" 4] by (auto simp: Let_def)
  show ?thesis using out bits [of 2 2] bits [of 2 1] by (simp add: bit_iff_odd)
qed

section \<open>Characters without a glyph\<close>

text \<open>The decoder never yields more than 16 bits, so that the error \<^verbatim>\<open>Invalid unicode\<close> is never
  raised; a character that is not in the JIS table is read from before the start of the font.\<close>

lemma utf8_16_bits: "utf8_to_unicode p = Some (c, p') \<Longrightarrow> c < 0x10000"
proof -
  have s: "(x :: u8) AND 0x1F = take_bit 5 x" "x AND 0x0F = take_bit 4 x" "x AND 0x3F = take_bit 6 x" for x
    by (simp_all add: take_bit_eq_mask mask_eq_exp_minus_1)
  have lt: "c < 0x10000" if "\<And>k. bit c k \<Longrightarrow> k < 16" for c :: u32
  proof -
    have "take_bit 16 c = c" by (rule bit_word_eqI) (auto simp: bit_take_bit_iff dest: that)
    moreover have "unat (take_bit 16 c) < 2 ^ 16" using take_bit_nat_less_exp [of 16 "unat c"] by (simp add: unsigned_take_bit_eq)
    ultimately show ?thesis by (simp add: word_less_nat_alt)
  qed
  assume "utf8_to_unicode p = Some (c, p')"
  then show ?thesis unfolding utf8_to_unicode_def s
    by (auto simp: bit_or_iff bit_push_bit_iff bit_ucast_iff bit_take_bit_iff intro!: lt
        split: if_splits Option.bind_splits dest: bit_imp_le_length)
      (use bit_imp_le_length in \<open>fastforce\<close>)
qed

lemma shinonome_never_invalid: "array_of_shinonome_sub u p sz a j = Some (ok, p', lines) \<Longrightarrow> ok"
  by (auto simp: array_of_shinonome_sub_def Let_def dest!: utf8_16_bits split: if_splits Option.bind_splits)

lemma shinonome_unknown_char:
  assumes "sorted_wrt (<) (map fst u)" "utf8_to_unicode p = Some (c, p')" "0x80 \<le> c" "map_of u (ucast c) = None"
  shows "array_of_shinonome_sub u p sz a j = None"
proof -
  have "unicode_to_jis u (ucast c) = Some 0"
    using jis_search_spec [OF assms(1), of 0 "int (length u) - 1" "ucast c"] assms(4) by (simp add: unicode_to_jis_def)
  moreover have "jis_row j 0 = None" by (simp add: jis_row_def)
  moreover have "(c < 0x80) = False" using assms(3) by (simp add: not_less)
  ultimately show ?thesis
    using assms(2) utf8_16_bits [OF assms(2)] by (simp only: array_of_shinonome_sub_def) simp
qed

end
