(* ===== verification/Encoder.thy ===== *)
theory Encoder
  imports Prelude
begin

text \<open>
  The rotary encoders of \<^verbatim>\<open>picoruby-prk-rotary_encoder\<close>: the interrupt handler that decodes the two
  switches of each encoder, and the methods of \<^verbatim>\<open>RotaryEncoder\<close> (mruby/c only). The levels of the pins
  are the argument \<open>gpio_get\<close>; the calls that set up a pin are a log. \<open>None\<close> is an index
  outside the arrays.
\<close>

definition MAX_ENCODER_COUNT :: nat where "MAX_ENCODER_COUNT = 5"

datatype gpio_call =
    Gpio_init u8
  | Gpio_set_dir_in u8
  | Gpio_pull_up u8
  | Gpio_irq u8 bool

record encoders =
  encoder_count :: u8
  pins_a :: "u8 list"
  pins_b :: "u8 list"
  status :: "u8 list"
  rotation_count :: "u8 list"
  gpio_log :: "gpio_call list"

text \<open>The variables have the type \<^verbatim>\<open>int8_t\<close>: their value is \<open>sint\<close>.\<close>

definition encoders_init :: encoders where
  "encoders_init = \<lparr>encoder_count = 0, pins_a = replicate MAX_ENCODER_COUNT (- 1),
     pins_b = replicate MAX_ENCODER_COUNT (- 1), status = replicate MAX_ENCODER_COUNT 0,
     rotation_count = replicate MAX_ENCODER_COUNT 0, gpio_log = []\<rparr>"

section \<open>The interrupt handler\<close>

text \<open>The body of the loop for one encoder: its status and its count.\<close>

definition encoder_step :: "u8 \<Rightarrow> u8 \<times> u8 \<Rightarrow> u8 \<times> u8" where
  "encoder_step current = (\<lambda>(status, count).
     let prev = status AND 3; rotation = drop_bit 4 (status AND 0x30) in
     if current \<noteq> prev then
       let (rotation, count) =
         (if rotation = 0 then (if current = 1 \<or> current = 2 then current else rotation, count)
          else if current = 0 then
            (0, if rotation = 2 \<and> prev = 1 then count + 1
                else if rotation = 1 \<and> prev = 2 then count - 1 else count)
          else (rotation, count))
       in (push_bit 4 rotation + push_bit 2 prev + current, count)
     else (status, count))"

definition encoder_reading :: "(u32 \<Rightarrow> bool) \<Rightarrow> u8 \<Rightarrow> u8 \<Rightarrow> u8" where
  "encoder_reading gpio_get a b = push_bit 1 (of_bool (\<not> gpio_get (scast a))) + of_bool (\<not> gpio_get (scast b))"

fun encoder_loop :: "(u32 \<Rightarrow> bool) \<Rightarrow> u32 \<Rightarrow> nat list \<Rightarrow> encoders \<Rightarrow> encoders" where
  "encoder_loop gpio_get gpio [] e = e"
| "encoder_loop gpio_get gpio (i # is) e =
     (let a = pins_a e ! i; b = pins_b e ! i in
      if sint a < 0 then e
      else if gpio = scast a \<or> gpio = scast b then
        let (s, n) = encoder_step (encoder_reading gpio_get a b) (status e ! i, rotation_count e ! i)
        in encoder_loop gpio_get gpio is (e\<lparr>status := (status e)[i := s], rotation_count := (rotation_count e)[i := n]\<rparr>)
      else encoder_loop gpio_get gpio is e)"

definition encoder_callback :: "(u32 \<Rightarrow> bool) \<Rightarrow> u32 \<Rightarrow> encoders \<Rightarrow> encoders" where
  "encoder_callback gpio_get gpio e = encoder_loop gpio_get gpio [0..<MAX_ENCODER_COUNT] e"

section \<open>The methods\<close>

definition c_consume_encoder :: "mrb_value list \<Rightarrow> encoders \<Rightarrow> (mrb_value \<times> encoders) option" where
  "c_consume_encoder args e = do {
     number \<leftarrow> map_option sint (GET_INT_ARG args 1);
     if number < 0 then None
     else do {
       n \<leftarrow> arr_get (rotation_count e) (nat number);
       Some (if 0 < sint n then (VInt 1, e\<lparr>rotation_count := (rotation_count e)[nat number := n - 1]\<rparr>)
         else if sint n < 0 then (VInt (- 1), e\<lparr>rotation_count := (rotation_count e)[nat number := n + 1]\<rparr>)
         else (VInt 0, e))
     }
   }"

definition setup_pin :: "u8 \<Rightarrow> gpio_call list" where
  "setup_pin pin = [Gpio_init pin, Gpio_set_dir_in pin, Gpio_pull_up pin, Gpio_irq pin True]"

definition c_init_encoder :: "mrb_value list \<Rightarrow> encoders \<Rightarrow> (mrb_value rb_result \<times> encoders) option" where
  "c_init_encoder args e =
     (if encoder_count e \<noteq> 0 \<and> sint (encoder_count e) = int MAX_ENCODER_COUNT
      then Some (Inl (RuntimeError ''RotaryEncoder limitation''), e)
      else do {
        let e = (if encoder_count e = 0 then e\<lparr>gpio_log := gpio_log e @ [Gpio_irq 0 False]\<rparr> else e);
        pin_a \<leftarrow> map_option ucast (GET_INT_ARG args 1);
        pin_b \<leftarrow> map_option ucast (GET_INT_ARG args 2);
        let i = unat (encoder_count e);
        a \<leftarrow> arr_set (pins_a e) i pin_a;
        b \<leftarrow> arr_set (pins_b e) i pin_b;
        Some (Inr (VInt (sint (encoder_count e))), e\<lparr>pins_a := a, pins_b := b,
          encoder_count := encoder_count e + 1, gpio_log := gpio_log e @ setup_pin pin_a @ setup_pin pin_b\<rparr>)
      })"

definition RotaryEncoder_reset :: "encoders \<Rightarrow> encoders" where
  "RotaryEncoder_reset e = e\<lparr>encoder_count := 0, pins_a := map (\<lambda>_. - 1) (pins_a e), pins_b := map (\<lambda>_. - 1) (pins_b e),
     status := map (\<lambda>_. 0) (status e), rotation_count := map (\<lambda>_. 0) (rotation_count e)\<rparr>"

section \<open>Tracking the position\<close>

text \<open>The position of the knob in quarter steps; a reading shows its phase, position 0 being a detent.
  The state of an encoder follows the position when the count and what was reported are the last
  detent, and between detents the status knows on which side that one is.\<close>

definition phase :: "int \<Rightarrow> u8" where
  "phase j = (if j = 0 then 0 else if j = 1 then 2 else if j = 2 then 3 else 1)"

text \<open>\<open>j\<close> is the phase, \<open>m\<close> the detent below the position, \<open>tot\<close> the last detent.\<close>

definition on_track :: "int \<Rightarrow> u8 \<Rightarrow> u8 \<Rightarrow> u8 \<Rightarrow> bool" where
  "on_track j m tot rotation \<longleftrightarrow>
     (if j = 0 then rotation = 0 \<and> tot = m
      else rotation = 2 \<and> tot = m \<or> rotation = 1 \<and> tot = m + 1)"

definition tracks :: "int \<Rightarrow> u8 \<Rightarrow> u8 \<times> u8 \<Rightarrow> bool" where
  "tracks p reported = (\<lambda>(st, n).
     st AND 3 = phase (p mod 4) \<and>
     on_track (p mod 4) (word_of_int (p div 4)) (n + reported) (drop_bit 4 (st AND 0x30)))"

lemma status_fields:
  fixes r p c :: u8
  assumes "r \<in> {0, 1, 2, 3}" "p \<in> {0, 1, 2, 3}" "c \<in> {0, 1, 2, 3}"
  shows "(push_bit 4 r + push_bit 2 p + c) AND 3 = c \<and> drop_bit 4 ((push_bit 4 r + push_bit 2 p + c) AND 0x30) = r"
  using assms by (elim insertE emptyE; hypsubst; simp)

text \<open>What a step does to the possible rotation and the count.\<close>

definition rot_step :: "u8 \<Rightarrow> u8 \<Rightarrow> u8 \<Rightarrow> u8" where
  "rot_step current prev rotation =
     (if current = prev then rotation
      else if rotation = 0 then (if current = 1 \<or> current = 2 then current else rotation)
      else if current = 0 then 0 else rotation)"

definition count_step :: "u8 \<Rightarrow> u8 \<Rightarrow> u8 \<Rightarrow> u8 \<Rightarrow> u8" where
  "count_step current prev rotation n =
     (if current = 0 \<and> rotation = 2 \<and> prev = 1 then n + 1
      else if current = 0 \<and> rotation = 1 \<and> prev = 2 then n - 1 else n)"

lemma encoder_step_fields:
  assumes "st AND 3 = prev" "drop_bit 4 (st AND 0x30) = rotation" "prev \<in> {0, 1, 2, 3}" "rotation \<in> {0, 1, 2, 3}"
    "current \<in> {0, 1, 2, 3}"
  shows "\<exists>st'. encoder_step current (st, n) = (st', count_step current prev rotation n) \<and>
    st' AND 3 = current \<and> drop_bit 4 (st' AND 0x30) = rot_step current prev rotation"
proof (cases "current = prev")
  case True
  then show ?thesis using assms by (auto simp: encoder_step_def rot_step_def count_step_def)
next
  case False
  have "rot_step current prev rotation \<in> {0, 1, 2, 3}" using assms(4,5) by (auto simp: rot_step_def)
  from status_fields [OF this assms(3,5)]
  have "(push_bit 4 (rot_step current prev rotation) + push_bit 2 prev + current) AND 3 = current \<and>
    drop_bit 4 ((push_bit 4 (rot_step current prev rotation) + push_bit 2 prev + current) AND 0x30) =
      rot_step current prev rotation" .
  moreover have "encoder_step current (st, n) =
      (push_bit 4 (rot_step current prev rotation) + push_bit 2 prev + current, count_step current prev rotation n)"
    unfolding encoder_step_def prod.case Let_def assms(1,2)
    using False by (simp add: rot_step_def count_step_def)
  ultimately show ?thesis by blast
qed

lemma on_track_step:
  assumes "on_track j m tot r"
    and "(j, j', e :: int) \<in> {(0, 3, - 1), (0, 0, 0), (0, 1, 0), (1, 0, 0), (1, 1, 0), (1, 2, 0), (2, 1, 0), (2, 2, 0), (2, 3, 0),
      (3, 2, 0), (3, 3, 0), (3, 0, 1)}"
  shows "on_track j' (m + word_of_int e) (count_step (phase j') (phase j) r tot) (rot_step (phase j') (phase j) r)"
proof -
  have "r = 0 \<or> r = 1 \<or> r = 2" using assms(1) by (auto simp: on_track_def split: if_splits)
  with assms show ?thesis
    by (elim insertE emptyE disjE; simp add: on_track_def phase_def rot_step_def count_step_def)
qed

lemma count_step_add: "count_step c p r n + k = count_step c p r (n + k)"
  by (simp add: count_step_def)

lemma tracks_step:
  assumes "tracks p reported (st, n)" "\<bar>d\<bar> \<le> 1"
  shows "tracks (p + d) reported (encoder_step (phase ((p + d) mod 4)) (st, n))"
proof -
  define r where "r = drop_bit 4 (st AND 0x30)"
  have ph: "phase q \<in> {0, 1, 2, 3}" for q by (simp add: phase_def)
  have on: "on_track (p mod 4) (word_of_int (p div 4)) (n + reported) r" "st AND 3 = phase (p mod 4)"
    using assms(1) by (simp_all add: tracks_def r_def)
  then have "r \<in> {0, 1, 2, 3}" by (auto simp: on_track_def split: if_splits)
  from encoder_step_fields [OF on(2) r_def [symmetric] ph this ph]
  obtain st' where st': "encoder_step (phase ((p + d) mod 4)) (st, n) =
      (st', count_step (phase ((p + d) mod 4)) (phase (p mod 4)) r n)"
    "st' AND 3 = phase ((p + d) mod 4)" "drop_bit 4 (st' AND 0x30) = rot_step (phase ((p + d) mod 4)) (phase (p mod 4)) r"
    by blast
  define e where "e = (p + d) div 4 - p div 4"
  have "(p mod 4, (p + d) mod 4, e) \<in> {(0, 3, - 1), (0, 0, 0), (0, 1, 0), (1, 0, 0), (1, 1, 0), (1, 2, 0), (2, 1, 0),
      (2, 2, 0), (2, 3, 0), (3, 2, 0), (3, 3, 0), (3, 0, 1)}"
  proof -
    define j q where "j = p mod 4" and "q = p div 4"
    have up: "(p + 1) mod 4 = (if j = 3 then 0 else j + 1)" "(p + 1) div 4 = (if j = 3 then q + 1 else q)"
      and down: "(p + - 1) mod 4 = (if j = 0 then 3 else j - 1)" "(p + - 1) div 4 = (if j = 0 then q - 1 else q)"
      unfolding j_def q_def by presburger+
    have "0 \<le> j" "j < 4" by (simp_all add: j_def)
    then have j: "j = 0 \<or> j = 1 \<or> j = 2 \<or> j = 3" by linarith
    consider "d = - 1" | "d = 0" | "d = 1" using assms(2) by linarith
    then show ?thesis
    proof cases
      case 1
      show ?thesis unfolding e_def 1 down unfolding j_def [symmetric] q_def [symmetric] using j by auto
    next
      case 2
      show ?thesis unfolding e_def 2 add_0_right j_def [symmetric] q_def [symmetric] using j by auto
    next
      case 3
      show ?thesis unfolding e_def 3 up unfolding j_def [symmetric] q_def [symmetric] using j by auto
    qed
  qed
  from on_track_step [OF on(1) this]
  have "on_track ((p + d) mod 4) (word_of_int ((p + d) div 4))
      (count_step (phase ((p + d) mod 4)) (phase (p mod 4)) r n + reported) (rot_step (phase ((p + d) mod 4)) (phase (p mod 4)) r)"
    by (simp add: e_def count_step_add)
  with st' show ?thesis by (simp add: tracks_def)
qed

section \<open>The arrays\<close>

definition entry :: "encoders \<Rightarrow> nat \<Rightarrow> u8 \<times> u8" where
  "entry e i = (status e ! i, rotation_count e ! i)"

definition on_pins :: "encoders \<Rightarrow> nat \<Rightarrow> u32 \<Rightarrow> bool" where
  "on_pins e i gpio \<longleftrightarrow> gpio = scast (pins_a e ! i) \<or> gpio = scast (pins_b e ! i)"

abbreviation reading :: "(u32 \<Rightarrow> bool) \<Rightarrow> encoders \<Rightarrow> nat \<Rightarrow> u8" where
  "reading gpio_get e i \<equiv> encoder_reading gpio_get (pins_a e ! i) (pins_b e ! i)"

text \<open>Encoder \<open>i\<close> and all before it are registered.\<close>

definition registered :: "encoders \<Rightarrow> nat \<Rightarrow> bool" where
  "registered e i \<longleftrightarrow> i < MAX_ENCODER_COUNT \<and> length (status e) = MAX_ENCODER_COUNT \<and>
     length (rotation_count e) = MAX_ENCODER_COUNT \<and> (\<forall>j\<le>i. 0 \<le> sint (pins_a e ! j))"

lemma loop_pins [simp]:
  "pins_a (encoder_loop gpio_get gpio is e) = pins_a e" "pins_b (encoder_loop gpio_get gpio is e) = pins_b e"
  "length (status (encoder_loop gpio_get gpio is e)) = length (status e)"
  "length (rotation_count (encoder_loop gpio_get gpio is e)) = length (rotation_count e)"
  by (induction "is" arbitrary: e) (simp_all add: Let_def case_prod_unfold)

lemma loop_other: "i \<notin> set is \<Longrightarrow> entry (encoder_loop gpio_get gpio is e) i = entry e i"
  by (induction "is" arbitrary: e) (simp_all add: Let_def case_prod_unfold entry_def)

lemma loop_entry:
  assumes "distinct (xs @ i # ys)" "\<forall>j\<in>set xs. 0 \<le> sint (pins_a e ! j)" "0 \<le> sint (pins_a e ! i)"
    "i < length (status e)" "i < length (rotation_count e)"
  shows "entry (encoder_loop gpio_get gpio (xs @ i # ys) e) i =
    (if on_pins e i gpio then encoder_step (reading gpio_get e i) (entry e i) else entry e i)"
  using assms
proof (induction xs arbitrary: e)
  case Nil
  then show ?case
    by (auto simp: Let_def case_prod_unfold loop_other on_pins_def) (simp_all add: entry_def)
next
  case (Cons j xs)
  define r where "r = encoder_step (reading gpio_get e j) (entry e j)"
  define e' where "e' = (if on_pins e j gpio
    then e\<lparr>status := (status e)[j := fst r], rotation_count := (rotation_count e)[j := snd r]\<rparr> else e)"
  have pins: "pins_a e' = pins_a e" "pins_b e' = pins_b e" "length (status e') = length (status e)"
    "length (rotation_count e') = length (rotation_count e)" by (simp_all add: e'_def)
  have "i \<noteq> j" "0 \<le> sint (pins_a e ! j)" using Cons.prems(1,2) by auto
  then have "entry e' i = entry e i"
    and "encoder_loop gpio_get gpio ((j # xs) @ i # ys) e = encoder_loop gpio_get gpio (xs @ i # ys) e'"
    by (simp_all add: entry_def e'_def on_pins_def r_def Let_def case_prod_unfold)
  moreover have "on_pins e' i gpio = on_pins e i gpio" "reading gpio_get e' i = reading gpio_get e i"
    by (simp_all add: on_pins_def pins)
  ultimately show ?case using Cons.IH [of e'] Cons.prems by (simp add: pins)
qed

lemma callback_entry:
  assumes "registered e i"
  shows "entry (encoder_callback gpio_get gpio e) i =
    (if on_pins e i gpio then encoder_step (reading gpio_get e i) (entry e i) else entry e i)"
proof -
  have i: "i < MAX_ENCODER_COUNT" using assms by (simp add: registered_def)
  then have split: "[0..<MAX_ENCODER_COUNT] = [0..<i] @ i # [Suc i..<MAX_ENCODER_COUNT]"
    by (metis upt_add_eq_append upt_conv_Cons le0 le_add_diff_inverse less_imp_le_nat)
  have "distinct ([0..<i] @ i # [Suc i..<MAX_ENCODER_COUNT])" by auto
  then show ?thesis unfolding encoder_callback_def split
    by (rule loop_entry) (use assms in \<open>auto simp: registered_def\<close>)
qed

lemma consume_entry:
  assumes "c_consume_encoder [VInt n] e = Some (v, e')" "0 \<le> n" "n < 128"
  shows "pins_a e' = pins_a e \<and> pins_b e' = pins_b e \<and> length (status e') = length (status e) \<and>
    length (rotation_count e') = length (rotation_count e) \<and>
    (\<exists>k. v = VInt k \<and> k = sgn (sint (rotation_count e ! nat n)) \<and>
      (\<forall>i. i < length (rotation_count e) \<longrightarrow> status e' ! i = status e ! i \<and>
        rotation_count e' ! i + (if int i = n then word_of_int k else 0) = rotation_count e ! i))"
proof -
  have n: "sint (word_of_int n :: u32) = n" using assms(2,3) c_int_small [of n] by (simp add: c_int_def)
  show ?thesis using assms n
    by (auto simp: c_consume_encoder_def GET_INT_ARG_def arr_get_eq_Some nth_list_update split: if_splits Option.bind_splits)
qed

section \<open>Runs\<close>

text \<open>The knob of encoder \<open>i\<close> moves by at most a quarter step between two interrupts of its pins (it may
  bounce and turn back at any time); interrupts of other pins and calls of \<^verbatim>\<open>consume_encoder\<close> for any
  encoder happen in between. \<open>p\<close> is the position, \<open>rep\<close> the sum of what was reported for \<open>i\<close>.\<close>

inductive encoder_run :: "nat \<Rightarrow> encoders \<Rightarrow> int \<Rightarrow> int \<Rightarrow> encoders \<Rightarrow> bool" for i e0 where
  start: "encoder_run i e0 0 0 e0"
| turn: "encoder_run i e0 p rep e \<Longrightarrow> \<bar>d\<bar> \<le> 1 \<Longrightarrow> on_pins e i gpio \<Longrightarrow>
    reading gpio_get e i = phase ((p + d) mod 4) \<Longrightarrow>
    encoder_run i e0 (p + d) rep (encoder_callback gpio_get gpio e)"
| other: "encoder_run i e0 p rep e \<Longrightarrow> \<not> on_pins e i gpio \<Longrightarrow>
    encoder_run i e0 p rep (encoder_callback gpio_get gpio e)"
| consume: "encoder_run i e0 p rep e \<Longrightarrow> 0 \<le> n \<Longrightarrow> n < int MAX_ENCODER_COUNT \<Longrightarrow>
    c_consume_encoder [VInt n] e = Some (VInt v, e') \<Longrightarrow>
    encoder_run i e0 p (if n = int i then rep + v else rep) e'"

lemma callback_shape [simp]:
  "pins_a (encoder_callback gpio_get gpio e) = pins_a e" "pins_b (encoder_callback gpio_get gpio e) = pins_b e"
  "registered (encoder_callback gpio_get gpio e) i = registered e i"
  by (simp_all add: encoder_callback_def registered_def)

lemma encoder_run_tracks:
  assumes "encoder_run i e0 p rep e" "registered e0 i" "entry e0 i = (0, 0)"
  shows "registered e i \<and> tracks p (word_of_int rep) (entry e i)"
  using assms
proof (induction rule: encoder_run.induct)
  case start
  then show ?case by (simp add: tracks_def on_track_def phase_def)
next
  case (turn p rep e d gpio gpio_get)
  then show ?case
    using callback_entry [of e i gpio_get gpio] tracks_step [of p "word_of_int rep" "fst (entry e i)" "snd (entry e i)" d]
    by simp
next
  case (other p rep e gpio gpio_get)
  then show ?case using callback_entry [of e i gpio_get gpio] by simp
next
  case (consume p rep e n v e')
  then have "n < 128" by (simp add: MAX_ENCODER_COUNT_def)
  note c = consume_entry [OF consume.hyps(4,2) this]
  have reg: "registered e' i" "i < length (rotation_count e)" using c consume by (auto simp: registered_def)
  have st: "status e' ! i = status e ! i"
    "rotation_count e' ! i + (if int i = n then word_of_int v else 0) = rotation_count e ! i"
    using c reg(2) by auto
  have "rotation_count e ! i + word_of_int rep =
      rotation_count e' ! i + word_of_int (if n = int i then rep + v else rep)"
    using st(2) by (auto simp: algebra_simps)
  then show ?case using consume reg st(1) by (simp add: tracks_def entry_def)
qed

text \<open>C20: An encoder registered with count 0 counts the detents of its knob. The knob moves at most a quarter
  step between two interrupts of its pins, in either direction, and so may bounce; its count is
  consumed at any time, where no interrupt of an encoder comes between the reading and the clearing
  of the count (the code does not prevent this); whenever it is at a detent, the sum of all reports
  and the count that is left is the number of detents the knob has moved, as long as the two numbers,
  moved and reported, are less than 128 apart (the count is an \<^verbatim>\<open>int8_t\<close>).\<close>

theorem encoder_tracks_position:
  assumes "registered e0 i" "entry e0 i = (0, 0)" "encoder_run i e0 (4 * k) rep e" "\<bar>k - rep\<bar> < 128"
  shows "rep + sint (rotation_count e ! i) = k"
proof -
  have "tracks (4 * k) (word_of_int rep) (entry e i)" using encoder_run_tracks [OF assms(3,1,2)] by simp
  then have "rotation_count e ! i + word_of_int rep = word_of_int k"
    by (simp add: tracks_def on_track_def entry_def)
  then have "rotation_count e ! i = word_of_int (k - rep)" by (simp add: algebra_simps)
  moreover have "sint (word_of_int (k - rep) :: u8) = k - rep"
    using assms(4) by (simp add: signed_of_int signed_take_bit_int_eq_self del: of_int_diff)
  ultimately show ?thesis by simp
qed

text \<open>One encoder on the pins 2 and 3, turned by one detent.\<close>

definition demo_encoders :: encoders where
  "demo_encoders = (case c_init_encoder [VInt 2, VInt 3] encoders_init of Some (_, e) \<Rightarrow> e)"

definition demo_levels :: "bool \<Rightarrow> bool \<Rightarrow> u32 \<Rightarrow> bool" where
  "demo_levels a b pin = (if pin = 2 then a else b)"

lemma demo_encoders: "demo_encoders = encoders_init\<lparr>pins_a := [2, - 1, - 1, - 1, - 1], pins_b := [3, - 1, - 1, - 1, - 1],
    encoder_count := 1, gpio_log := Gpio_irq 0 False # setup_pin 2 @ setup_pin 3\<rparr>"
proof -
  have "(replicate 5 (- 1))[0 := x] = [x, - 1, - 1, - 1, - 1]" for x :: u8 by (simp add: numeral_eq_Suc)
  then show ?thesis
    by (simp add: demo_encoders_def c_init_encoder_def GET_INT_ARG_def encoders_init_def MAX_ENCODER_COUNT_def)
qed

lemma encoder_tracks_position_witness:
  "\<exists>e. encoder_run 0 demo_encoders 4 0 e \<and> rotation_count e ! 0 = 1"
proof -
  have reg: "registered demo_encoders 0" "entry demo_encoders 0 = (0, 0)"
    by (simp_all add: demo_encoders encoders_init_def registered_def entry_def MAX_ENCODER_COUNT_def)
  have turn: "\<exists>e'. encoder_run 0 demo_encoders (p + 1) 0 e' \<and> pins_a e' = pins_a demo_encoders \<and> pins_b e' = pins_b demo_encoders"
    if "encoder_run 0 demo_encoders p 0 e" "pins_a e = pins_a demo_encoders" "pins_b e = pins_b demo_encoders"
      "encoder_reading (demo_levels a b) 2 3 = phase ((p + 1) mod 4)" for p e a b
    using encoder_run.turn [OF that(1), of 1 2 "demo_levels a b"] that(2-4)
    by (auto simp: demo_encoders on_pins_def encoders_init_def)
  have r: "encoder_reading (demo_levels a b) 2 3 = (if a then 0 else 2) + (if b then 0 else 1)" for a b
    by (simp add: encoder_reading_def demo_levels_def)
  obtain e1 where "encoder_run 0 demo_encoders 1 0 e1" "pins_a e1 = pins_a demo_encoders" "pins_b e1 = pins_b demo_encoders"
    using turn [OF encoder_run.start refl refl, of False True] by (auto simp: r phase_def)
  then obtain e2 where "encoder_run 0 demo_encoders 2 0 e2" "pins_a e2 = pins_a demo_encoders" "pins_b e2 = pins_b demo_encoders"
    using turn [of 1 e1 False False] by (auto simp: r phase_def)
  then obtain e3 where "encoder_run 0 demo_encoders 3 0 e3" "pins_a e3 = pins_a demo_encoders" "pins_b e3 = pins_b demo_encoders"
    using turn [of 2 e2 True False] by (auto simp: r phase_def)
  then obtain e4 where e4: "encoder_run 0 demo_encoders 4 0 e4"
    using turn [of 3 e3 True True] by (auto simp: r phase_def)
  then have "encoder_run 0 demo_encoders (4 * 1) 0 e4" by simp
  from encoder_tracks_position [OF reg this] have "sint (rotation_count e4 ! 0) = 1" by simp
  then have "rotation_count e4 ! 0 = 1" by (intro signed_word_eqI) simp
  with e4 show ?thesis by auto
qed

end
