(* ===== verification/SdCard.thy ===== *)
theory SdCard
  imports Prelude
begin

text \<open>
  The driver for MMC and SD cards in SPI mode
  (\<^verbatim>\<open>picoruby-filesystem-fat/ports/rp2040/sd_disk.c\<close>).

  The card is a parameter: from the history of everything the driver has sent (the level of
  the select line and the byte, oldest first) it gives the byte it answers in the last
  exchange, and how often the timer interrupt \<open>disk_timerproc\<close> has run during that exchange.
  \<open>None\<close> is a loop that does not end, or undefined behaviour.
\<close>

section \<open>Constants\<close>

definition STA_NOINIT :: u8 where "STA_NOINIT = 0x01"
definition STA_NODISK :: u8 where "STA_NODISK = 0x02"
definition STA_PROTECT :: u8 where "STA_PROTECT = 0x04"

datatype DRESULT = RES_OK | RES_ERROR | RES_WRPRT | RES_NOTRDY | RES_PARERR

definition CTRL_SYNC :: u8 where "CTRL_SYNC = 0"
definition GET_SECTOR_COUNT :: u8 where "GET_SECTOR_COUNT = 1"
definition GET_SECTOR_SIZE :: u8 where "GET_SECTOR_SIZE = 2"
definition GET_BLOCK_SIZE :: u8 where "GET_BLOCK_SIZE = 3"
definition CTRL_TRIM :: u8 where "CTRL_TRIM = 4"
definition MMC_GET_TYPE :: u8 where "MMC_GET_TYPE = 10"
definition MMC_GET_CSD :: u8 where "MMC_GET_CSD = 11"
definition MMC_GET_CID :: u8 where "MMC_GET_CID = 12"
definition MMC_GET_OCR :: u8 where "MMC_GET_OCR = 13"
definition MMC_GET_SDSTAT :: u8 where "MMC_GET_SDSTAT = 14"

definition SD_SECTOR_SIZE :: u32 where "SD_SECTOR_SIZE = 512"

definition CT_MMC3 :: u8 where "CT_MMC3 = 0x01"
definition CT_SDC1 :: u8 where "CT_SDC1 = 0x02"
definition CT_SDC2 :: u8 where "CT_SDC2 = 0x04"
definition CT_SDC :: u8 where "CT_SDC = 0x0C"
definition CT_BLOCK :: u8 where "CT_BLOCK = 0x10"

definition CMD0 :: u8 where "CMD0 = 0"
definition CMD1 :: u8 where "CMD1 = 1"
definition ACMD41 :: u8 where "ACMD41 = 0x80 + 41"
definition CMD8 :: u8 where "CMD8 = 8"
definition CMD9 :: u8 where "CMD9 = 9"
definition CMD10 :: u8 where "CMD10 = 10"
definition CMD12 :: u8 where "CMD12 = 12"
definition ACMD13 :: u8 where "ACMD13 = 0x80 + 13"
definition CMD16 :: u8 where "CMD16 = 16"
definition CMD17 :: u8 where "CMD17 = 17"
definition CMD18 :: u8 where "CMD18 = 18"
definition ACMD23 :: u8 where "ACMD23 = 0x80 + 23"
definition CMD24 :: u8 where "CMD24 = 24"
definition CMD25 :: u8 where "CMD25 = 25"
definition CMD32 :: u8 where "CMD32 = 32"
definition CMD33 :: u8 where "CMD33 = 33"
definition CMD38 :: u8 where "CMD38 = 38"
definition CMD55 :: u8 where "CMD55 = 55"
definition CMD58 :: u8 where "CMD58 = 58"

section \<open>State\<close>

text \<open>\<open>sd_cs\<close> is the level of the select line, \<open>sd_sent\<close> the history of the bus.\<close>

record sd_disk =
  SPI_UNIT :: "nat option"
  SPI_SCK_PIN :: int
  SPI_CIPO_PIN :: int
  SPI_COPI_PIN :: int
  SPI_CS_PIN :: int
  sd_Stat :: u8
  Timer1 :: u32
  Timer2 :: u32
  CardType :: u8
  sd_cs :: bool
  sd_sent :: "(bool \<times> u8) list"

type_synonym sd_card = "(bool \<times> u8) list \<Rightarrow> u8 \<times> nat"

definition sd_disk_init :: sd_disk where
  "sd_disk_init =
     \<lparr>SPI_UNIT = None, SPI_SCK_PIN = - 1, SPI_CIPO_PIN = - 1, SPI_COPI_PIN = - 1, SPI_CS_PIN = - 1,
      sd_Stat = STA_NOINIT, Timer1 = 0, Timer2 = 0, CardType = 0, sd_cs = False, sd_sent = []\<rparr>"

definition FAT_set_spi_unit ::
    "string \<Rightarrow> int \<Rightarrow> int \<Rightarrow> int \<Rightarrow> int \<Rightarrow> sd_disk \<Rightarrow> int \<times> sd_disk" where
  "FAT_set_spi_unit name sck cipo copi cs s =
     (let s' = s\<lparr>SPI_SCK_PIN := sck, SPI_CIPO_PIN := cipo, SPI_COPI_PIN := copi, SPI_CS_PIN := cs\<rparr>
      in if name = ''RP2040_SPI0'' then (0, s'\<lparr>SPI_UNIT := Some 0\<rparr>)
         else if name = ''RP2040_SPI1'' then (0, s'\<lparr>SPI_UNIT := Some 1\<rparr>)
         else (- 1, s))"

section \<open>The timer interrupt\<close>

text \<open>
  \<^verbatim>\<open>n\<close> is a \<^verbatim>\<open>WORD\<close>. \<^verbatim>\<open>MMC_CD\<close> is 1 and \<^verbatim>\<open>MMC_WP\<close> is 0: a card is always present and never protected.
\<close>

definition timer_down :: "u32 \<Rightarrow> u32" where
  "timer_down t = (let n = (ucast t :: u16) in if n \<noteq> 0 then ucast (n - 1) else t)"

definition disk_timerproc :: "sd_disk \<Rightarrow> sd_disk" where
  "disk_timerproc s =
     s\<lparr>Timer1 := timer_down (Timer1 s), Timer2 := timer_down (Timer2 s),
       sd_Stat := (sd_Stat s AND NOT STA_PROTECT) AND NOT STA_NODISK\<rparr>"

section \<open>The bus\<close>

definition xchg_spi :: "sd_card \<Rightarrow> u8 \<Rightarrow> sd_disk \<Rightarrow> u8 \<times> sd_disk" where
  "xchg_spi mmc dat s =
     (let sent = sd_sent s @ [(sd_cs s, dat)];
          (dst, ticks) = mmc sent
      in (dst, (disk_timerproc ^^ ticks) (s\<lparr>sd_sent := sent\<rparr>)))"

text \<open>The multi-byte transfers of the SDK: \<^verbatim>\<open>spi_read_blocking\<close> sends 0xFF for every byte it
  reads, \<^verbatim>\<open>spi_write_blocking\<close> drops the answers.\<close>

fun rcvr_spi_multi :: "sd_card \<Rightarrow> nat \<Rightarrow> sd_disk \<Rightarrow> bytes \<times> sd_disk" where
  "rcvr_spi_multi mmc 0 s = ([], s)"
| "rcvr_spi_multi mmc (Suc n) s =
     (let (b, s) = xchg_spi mmc 0xFF s; (bs, s) = rcvr_spi_multi mmc n s in (b # bs, s))"

fun xmit_spi_multi :: "sd_card \<Rightarrow> bytes \<Rightarrow> sd_disk \<Rightarrow> sd_disk" where
  "xmit_spi_multi mmc [] s = s"
| "xmit_spi_multi mmc (b # bs) s = xmit_spi_multi mmc bs (snd (xchg_spi mmc b s))"

partial_function (option) wait_ready_loop :: "sd_card \<Rightarrow> sd_disk \<Rightarrow> (u8 \<times> sd_disk) option" where
  "wait_ready_loop mmc s =
     (let (d, s) = xchg_spi mmc 0xFF s
      in if d \<noteq> 0xFF \<and> Timer2 s \<noteq> 0 then wait_ready_loop mmc s else Some (d, s))"

definition wait_ready :: "sd_card \<Rightarrow> u32 \<Rightarrow> sd_disk \<Rightarrow> (bool \<times> sd_disk) option" where
  "wait_ready mmc wt s = do {
     (d, s) \<leftarrow> wait_ready_loop mmc (s\<lparr>Timer2 := wt\<rparr>);
     Some (d = 0xFF, s)
   }"

definition deselect :: "sd_card \<Rightarrow> sd_disk \<Rightarrow> sd_disk" where
  "deselect mmc s = snd (xchg_spi mmc 0xFF (s\<lparr>sd_cs := True\<rparr>))"

definition select :: "sd_card \<Rightarrow> sd_disk \<Rightarrow> (bool \<times> sd_disk) option" where
  "select mmc s = do {
     let s = snd (xchg_spi mmc 0xFF (s\<lparr>sd_cs := False\<rparr>));
     (ready, s) \<leftarrow> wait_ready mmc 500 s;
     Some (if ready then (True, s) else (False, deselect mmc s))
   }"

section \<open>Data blocks\<close>

partial_function (option) token_loop :: "sd_card \<Rightarrow> sd_disk \<Rightarrow> (u8 \<times> sd_disk) option" where
  "token_loop mmc s =
     (let (token, s) = xchg_spi mmc 0xFF s
      in if token = 0xFF \<and> Timer1 s \<noteq> 0 then token_loop mmc s else Some (token, s))"

definition rcvr_datablock ::
    "sd_card \<Rightarrow> bytes \<Rightarrow> nat \<Rightarrow> nat \<Rightarrow> sd_disk \<Rightarrow> (bool \<times> bytes \<times> sd_disk) option" where
  "rcvr_datablock mmc buff off btr s = do {
     (token, s) \<leftarrow> token_loop mmc (s\<lparr>Timer1 := 200\<rparr>);
     (if token \<noteq> 0xFE then Some (False, buff, s)
      else do {
        let (data, s) = rcvr_spi_multi mmc btr s;
        buff \<leftarrow> copy_into buff off data;
        let s = snd (xchg_spi mmc 0xFF s);
        let s = snd (xchg_spi mmc 0xFF s);
        Some (True, buff, s)
      })
   }"

definition xmit_datablock ::
    "sd_card \<Rightarrow> bytes \<Rightarrow> nat \<Rightarrow> u8 \<Rightarrow> sd_disk \<Rightarrow> (bool \<times> sd_disk) option" where
  "xmit_datablock mmc buff off token s = do {
     (ready, s) \<leftarrow> wait_ready mmc 500 s;
     (if \<not> ready then Some (False, s)
      else do {
        let s = snd (xchg_spi mmc token s);
        (if token \<noteq> 0xFD
         then do {
           data \<leftarrow> copy_from buff off 512;
           let s = xmit_spi_multi mmc data s;
           let s = snd (xchg_spi mmc 0xFF s);
           let s = snd (xchg_spi mmc 0xFF s);
           let (resp, s) = xchg_spi mmc 0xFF s;
           Some (resp AND 0x1F = 0x05, s)
         }
         else Some (True, s))
      })
   }"

section \<open>Commands\<close>

text \<open>\<open>response_loop\<close> makes at most \<open>n + 1\<close> attempts.\<close>

fun response_loop :: "sd_card \<Rightarrow> nat \<Rightarrow> sd_disk \<Rightarrow> u8 \<times> sd_disk" where
  "response_loop mmc 0 s = xchg_spi mmc 0xFF s"
| "response_loop mmc (Suc n) s =
     (let (res, s) = xchg_spi mmc 0xFF s
      in if res AND 0x80 \<noteq> 0 then response_loop mmc n s else (res, s))"

definition cmd_frame :: "u8 \<Rightarrow> u32 \<Rightarrow> bytes" where
  "cmd_frame cmd arg =
     [0x40 OR cmd, ucast (drop_bit 24 arg), ucast (drop_bit 16 arg), ucast (drop_bit 8 arg), ucast arg,
      if cmd = CMD8 then 0x87 else if cmd = CMD0 then 0x95 else 0x01]"

text \<open>The part of \<open>send_cmd\<close> behind the prefix of the application commands.\<close>

definition send_cmd_plain :: "sd_card \<Rightarrow> u8 \<Rightarrow> u32 \<Rightarrow> sd_disk \<Rightarrow> (u8 \<times> sd_disk) option" where
  "send_cmd_plain mmc cmd arg s = do {
     (ok, s) \<leftarrow> (if cmd \<noteq> CMD12 then select mmc (deselect mmc s) else Some (True, s));
     (if \<not> ok then Some (0xFF, s)
      else do {
        let s = xmit_spi_multi mmc (cmd_frame cmd arg) s;
        let s = (if cmd = CMD12 then snd (xchg_spi mmc 0xFF s) else s);
        Some (response_loop mmc 9 s)
      })
   }"

definition send_cmd :: "sd_card \<Rightarrow> u8 \<Rightarrow> u32 \<Rightarrow> sd_disk \<Rightarrow> (u8 \<times> sd_disk) option" where
  "send_cmd mmc cmd arg s =
     (if cmd AND 0x80 \<noteq> 0
      then do {
        (res, s) \<leftarrow> send_cmd_plain mmc CMD55 0 s;
        (if 1 < res then Some (res, s) else send_cmd_plain mmc (cmd AND 0x7F) arg s)
      }
      else send_cmd_plain mmc cmd arg s)"

section \<open>Initialisation\<close>

definition SD_disk_erase :: int where "SD_disk_erase = 0"

text \<open>The loop \<^verbatim>\<open>while (Timer1 && send_cmd(cmd, arg)) ;\<close>.\<close>

partial_function (option) init_loop :: "sd_card \<Rightarrow> u8 \<Rightarrow> u32 \<Rightarrow> sd_disk \<Rightarrow> sd_disk option" where
  "init_loop mmc cmd arg s =
     (if Timer1 s = 0 then Some s
      else do {
        (res, s) \<leftarrow> send_cmd mmc cmd arg s;
        (if res \<noteq> 0 then init_loop mmc cmd arg s else Some s)
      })"

definition sd_init_v2 :: "sd_card \<Rightarrow> sd_disk \<Rightarrow> (u8 \<times> sd_disk) option" where
  "sd_init_v2 mmc s = do {
     let (ocr, s) = rcvr_spi_multi mmc 4 s;
     (if ocr ! 2 = 0x01 \<and> ocr ! 3 = 0xAA
      then do {
        s \<leftarrow> init_loop mmc ACMD41 (push_bit 30 1) s;
        (if Timer1 s \<noteq> 0
         then do {
           (res, s) \<leftarrow> send_cmd mmc CMD58 0 s;
           (if res = 0
            then let (ocr, s) = rcvr_spi_multi mmc 4 s
                 in Some (if ocr ! 0 AND 0x40 \<noteq> 0 then CT_SDC2 OR CT_BLOCK else CT_SDC2, s)
            else Some (0, s))
         }
         else Some (0, s))
      }
      else Some (0, s))
   }"

definition sd_init_v1 :: "sd_card \<Rightarrow> sd_disk \<Rightarrow> (u8 \<times> sd_disk) option" where
  "sd_init_v1 mmc s = do {
     (res, s) \<leftarrow> send_cmd mmc ACMD41 0 s;
     let (ty, cmd) = (if res \<le> 1 then (CT_SDC1, ACMD41) else (CT_MMC3, CMD1));
     s \<leftarrow> init_loop mmc cmd 0 s;
     (if Timer1 s = 0 then Some (0, s)
      else do {
        (res, s) \<leftarrow> send_cmd mmc CMD16 SD_SECTOR_SIZE s;
        Some (if res \<noteq> 0 then 0 else ty, s)
      })
   }"

definition sd_init_type :: "sd_card \<Rightarrow> sd_disk \<Rightarrow> (u8 \<times> sd_disk) option" where
  "sd_init_type mmc s = do {
     (res, s) \<leftarrow> send_cmd mmc CMD0 0 s;
     (if res = 1
      then do {
        (res, s) \<leftarrow> send_cmd mmc CMD8 0x1AA (s\<lparr>Timer1 := 1000\<rparr>);
        (if res = 1 then sd_init_v2 mmc s else sd_init_v1 mmc s)
      }
      else Some (0, s))
   }"

definition SD_disk_initialize :: "sd_card \<Rightarrow> sd_disk \<Rightarrow> (u8 \<times> sd_disk) option" where
  "SD_disk_initialize mmc s =
     (if sd_Stat s AND STA_NODISK \<noteq> 0 then Some (sd_Stat s, s)
      else do {
        let s = snd (rcvr_spi_multi mmc 10 s);
        (ty, s) \<leftarrow> sd_init_type mmc s;
        let s = deselect mmc (s\<lparr>CardType := ty\<rparr>);
        let s = (if ty \<noteq> 0 then s\<lparr>sd_Stat := sd_Stat s AND NOT STA_NOINIT\<rparr> else s\<lparr>sd_Stat := STA_NOINIT\<rparr>);
        Some (sd_Stat s, s)
      })"

definition SD_disk_status :: "sd_disk \<Rightarrow> u8" where
  "SD_disk_status s = sd_Stat s"

section \<open>Reading and writing sectors\<close>

text \<open>The argument of a transfer command: cards without block addressing count bytes.\<close>

definition sd_address :: "sd_disk \<Rightarrow> u32 \<Rightarrow> u32" where
  "sd_address s sector = (if CardType s AND CT_BLOCK = 0 then sector * 512 else sector)"

text \<open>The loops over the blocks; the first result is the number of blocks left.\<close>

fun read_blocks ::
    "sd_card \<Rightarrow> nat \<Rightarrow> bytes \<Rightarrow> nat \<Rightarrow> sd_disk \<Rightarrow> (nat \<times> bytes \<times> sd_disk) option" where
  "read_blocks mmc 0 buff off s = Some (0, buff, s)"
| "read_blocks mmc (Suc n) buff off s = do {
     (ok, buff, s) \<leftarrow> rcvr_datablock mmc buff off 512 s;
     (if \<not> ok then Some (Suc n, buff, s) else read_blocks mmc n buff (off + 512) s)
   }"

fun write_blocks :: "sd_card \<Rightarrow> nat \<Rightarrow> bytes \<Rightarrow> nat \<Rightarrow> sd_disk \<Rightarrow> (nat \<times> sd_disk) option" where
  "write_blocks mmc 0 buff off s = Some (0, s)"
| "write_blocks mmc (Suc n) buff off s = do {
     (ok, s) \<leftarrow> xmit_datablock mmc buff off 0xFC s;
     (if \<not> ok then Some (Suc n, s) else write_blocks mmc n buff (off + 512) s)
   }"

definition SD_disk_read ::
    "sd_card \<Rightarrow> bytes \<Rightarrow> u32 \<Rightarrow> u32 \<Rightarrow> sd_disk \<Rightarrow> (DRESULT \<times> bytes \<times> sd_disk) option" where
  "SD_disk_read mmc buff sector count s =
     (if count = 0 then Some (RES_PARERR, buff, s)
      else if sd_Stat s AND STA_NOINIT \<noteq> 0 then Some (RES_NOTRDY, buff, s)
      else do {
        let sect = sd_address s sector;
        (left, buff, s) \<leftarrow>
          (if count = 1
           then do {
             (res, s) \<leftarrow> send_cmd mmc CMD17 sect s;
             (if res = 0
              then do { (ok, buff, s) \<leftarrow> rcvr_datablock mmc buff 0 512 s; Some (if ok then 0 else 1, buff, s) }
              else Some (1, buff, s))
           }
           else do {
             (res, s) \<leftarrow> send_cmd mmc CMD18 sect s;
             (if res = 0
              then do {
                (left, buff, s) \<leftarrow> read_blocks mmc (unat count) buff 0 s;
                (res, s) \<leftarrow> send_cmd mmc CMD12 0 s;
                Some (left, buff, s)
              }
              else Some (unat count, buff, s))
           });
        Some (if left \<noteq> 0 then RES_ERROR else RES_OK, buff, deselect mmc s)
      })"

definition SD_disk_write ::
    "sd_card \<Rightarrow> bytes \<Rightarrow> u32 \<Rightarrow> u32 \<Rightarrow> sd_disk \<Rightarrow> (DRESULT \<times> sd_disk) option" where
  "SD_disk_write mmc buff sector count s =
     (if count = 0 then Some (RES_PARERR, s)
      else if sd_Stat s AND STA_NOINIT \<noteq> 0 then Some (RES_NOTRDY, s)
      else if sd_Stat s AND STA_PROTECT \<noteq> 0 then Some (RES_WRPRT, s)
      else do {
        let sect = sd_address s sector;
        (left, s) \<leftarrow>
          (if count = 1
           then do {
             (res, s) \<leftarrow> send_cmd mmc CMD24 sect s;
             (if res = 0
              then do { (ok, s) \<leftarrow> xmit_datablock mmc buff 0 0xFE s; Some (if ok then 0 else 1, s) }
              else Some (1, s))
           }
           else do {
             s \<leftarrow> (if CardType s AND CT_SDC \<noteq> 0
                   then map_option snd (send_cmd mmc ACMD23 count s) else Some s);
             (res, s) \<leftarrow> send_cmd mmc CMD25 sect s;
             (if res = 0
              then do {
                (left, s) \<leftarrow> write_blocks mmc (unat count) buff 0 s;
                (ok, s) \<leftarrow> xmit_datablock mmc [] 0 0xFD s;
                Some (if \<not> ok then 1 else left, s)
              }
              else Some (unat count, s))
           });
        Some (if left \<noteq> 0 then RES_ERROR else RES_OK, deselect mmc s)
      })"

section \<open>Control commands\<close>

datatype ioctl_out = NoOut | OutB u8 | OutW u16 | OutD u32 | OutBytes bytes

text \<open>A command that reads a register of \<open>n\<close> bytes.\<close>

definition read_register :: "sd_card \<Rightarrow> u8 \<Rightarrow> nat \<Rightarrow> sd_disk \<Rightarrow> (bytes option \<times> sd_disk) option" where
  "read_register mmc cmd n s = do {
     (res, s) \<leftarrow> send_cmd mmc cmd 0 s;
     (if res = 0
      then do {
        let s = (if cmd = ACMD13 then snd (xchg_spi mmc 0xFF s) else s);
        (ok, csd, s) \<leftarrow> rcvr_datablock mmc (replicate n 0) 0 n s;
        Some (if ok then Some csd else None, s)
      }
      else Some (None, s))
   }"

definition csd_sector_count :: "bytes \<Rightarrow> u32 option" where
  "csd_sector_count csd =
     (if drop_bit 6 (csd ! 0) = 1
      then let csize = ucast (csd ! 9) + push_bit 8 (ucast (csd ! 8))
                       + push_bit 16 (ucast (csd ! 7 AND 63)) + 1
           in Some (push_bit 10 csize)
      else let n = (csd ! 5 AND 15) + drop_bit 7 (csd ! 10 AND 128) + push_bit 1 (csd ! 9 AND 3) + 2;
               csize = ucast (drop_bit 6 (csd ! 8)) + push_bit 2 (ucast (csd ! 7))
                       + push_bit 10 (ucast (csd ! 6 AND 3)) + 1
           in if n < 9 then None else Some (push_bit (unat n - 9) csize))"

definition csd_block_size :: "u8 \<Rightarrow> bytes \<Rightarrow> u32 option" where
  "csd_block_size ty csd =
     (if ty AND CT_SDC1 \<noteq> 0
      then let m = push_bit 1 (ucast (csd ! 10 AND 63)) + drop_bit 7 (ucast (csd ! 11 AND 128)) + 1
           in if drop_bit 6 (csd ! 13) = 0 then None
              else Some (push_bit (unat (drop_bit 6 (csd ! 13)) - 1) m)
      else Some ((drop_bit 2 (ucast (csd ! 10 AND 124)) + 1)
                 * (push_bit 3 (ucast (csd ! 11 AND 3)) + drop_bit 5 (ucast (csd ! 11 AND 224)) + 1)))"

definition ioctl_sector_count :: "sd_card \<Rightarrow> sd_disk \<Rightarrow> (DRESULT \<times> ioctl_out \<times> sd_disk) option" where
  "ioctl_sector_count mmc s = do {
     (r, s) \<leftarrow> read_register mmc CMD9 16 s;
     (case r of
        None \<Rightarrow> Some (RES_ERROR, NoOut, s)
      | Some csd \<Rightarrow> do { n \<leftarrow> csd_sector_count csd; Some (RES_OK, OutD n, s) })
   }"

definition ioctl_block_size :: "sd_card \<Rightarrow> sd_disk \<Rightarrow> (DRESULT \<times> ioctl_out \<times> sd_disk) option" where
  "ioctl_block_size mmc s =
     (if CardType s AND CT_SDC2 \<noteq> 0
      then do {
        (r, s) \<leftarrow> read_register mmc ACMD13 16 s;
        (case r of
           None \<Rightarrow> Some (RES_ERROR, NoOut, s)
         | Some csd \<Rightarrow>
             let s = snd (rcvr_spi_multi mmc 48 s)
             in Some (RES_OK, OutD (push_bit (unat (drop_bit 4 (csd ! 10))) 16), s))
      }
      else do {
        (r, s) \<leftarrow> read_register mmc CMD9 16 s;
        (case r of
           None \<Rightarrow> Some (RES_ERROR, NoOut, s)
         | Some csd \<Rightarrow> do { n \<leftarrow> csd_block_size (CardType s) csd; Some (RES_OK, OutD n, s) })
      })"

definition ioctl_register ::
    "sd_card \<Rightarrow> u8 \<Rightarrow> nat \<Rightarrow> sd_disk \<Rightarrow> (DRESULT \<times> ioctl_out \<times> sd_disk) option" where
  "ioctl_register mmc cmd n s = do {
     (r, s) \<leftarrow> read_register mmc cmd n s;
     Some (case r of None \<Rightarrow> (RES_ERROR, NoOut, s) | Some csd \<Rightarrow> (RES_OK, OutBytes csd, s))
   }"

text \<open>The inner call \<^verbatim>\<open>SD_disk_ioctl(MMC_GET_CSD, csd)\<close> deselects the card before it returns.\<close>

definition ioctl_trim :: "sd_card \<Rightarrow> u32 \<Rightarrow> u32 \<Rightarrow> sd_disk \<Rightarrow> (DRESULT \<times> sd_disk) option" where
  "ioctl_trim mmc st ed s =
     (if CardType s AND CT_SDC = 0 then Some (RES_ERROR, s)
      else do {
        (r, s) \<leftarrow> (if sd_Stat s AND STA_NOINIT \<noteq> 0 then Some (None, s)
                  else do { (r, s) \<leftarrow> read_register mmc CMD9 16 s; Some (r, deselect mmc s) });
        (case r of
           None \<Rightarrow> Some (RES_ERROR, s)
         | Some csd \<Rightarrow>
             (if csd ! 10 AND 0x40 = 0 then Some (RES_ERROR, s)
              else do {
                let st = sd_address s st;
                let ed = sd_address s ed;
                (r1, s) \<leftarrow> send_cmd mmc CMD32 st s;
                (if r1 \<noteq> 0 then Some (RES_ERROR, s)
                 else do {
                   (r2, s) \<leftarrow> send_cmd mmc CMD33 ed s;
                   (if r2 \<noteq> 0 then Some (RES_ERROR, s)
                    else do {
                      (r3, s) \<leftarrow> send_cmd mmc CMD38 0 s;
                      (if r3 \<noteq> 0 then Some (RES_ERROR, s)
                       else do {
                         (ok, s) \<leftarrow> wait_ready mmc 30000 s;
                         Some (if ok then RES_OK else RES_ERROR, s)
                       })
                    })
                 })
              }))
      })"

definition ioctl_ocr :: "sd_card \<Rightarrow> sd_disk \<Rightarrow> (DRESULT \<times> ioctl_out \<times> sd_disk) option" where
  "ioctl_ocr mmc s = do {
     (res, s) \<leftarrow> send_cmd mmc CMD58 0 s;
     Some (if res = 0
           then let (ocr, s) = rcvr_spi_multi mmc 4 s in (RES_OK, OutBytes ocr, s)
           else (RES_ERROR, NoOut, s))
   }"

text \<open>\<open>st\<close> and \<open>ed\<close> are the two sector numbers that \<^verbatim>\<open>buff\<close> holds for \<open>CTRL_TRIM\<close>.\<close>

definition SD_disk_ioctl ::
    "sd_card \<Rightarrow> u8 \<Rightarrow> u32 \<Rightarrow> u32 \<Rightarrow> sd_disk \<Rightarrow> (DRESULT \<times> ioctl_out \<times> sd_disk) option" where
  "SD_disk_ioctl mmc cmd st ed s =
     (if sd_Stat s AND STA_NOINIT \<noteq> 0 then Some (RES_NOTRDY, NoOut, s)
      else do {
        (res, out, s) \<leftarrow>
          (if cmd = CTRL_SYNC
           then do { (ok, s) \<leftarrow> select mmc s; Some (if ok then RES_OK else RES_ERROR, NoOut, s) }
           else if cmd = GET_SECTOR_COUNT then ioctl_sector_count mmc s
           else if cmd = GET_BLOCK_SIZE then ioctl_block_size mmc s
           else if cmd = CTRL_TRIM
           then do { (res, s) \<leftarrow> ioctl_trim mmc st ed s; Some (res, NoOut, s) }
           else if cmd = MMC_GET_TYPE then Some (RES_OK, OutB (CardType s), s)
           else if cmd = MMC_GET_CSD then ioctl_register mmc CMD9 16 s
           else if cmd = MMC_GET_CID then ioctl_register mmc CMD10 16 s
           else if cmd = MMC_GET_OCR then ioctl_ocr mmc s
           else if cmd = MMC_GET_SDSTAT then ioctl_register mmc ACMD13 64 s
           else if cmd = GET_SECTOR_SIZE then Some (RES_OK, OutW (ucast SD_SECTOR_SIZE), s)
           else Some (RES_PARERR, NoOut, s));
        Some (res, out, deselect mmc s)
      })"

end
