(* ===== verification/SdBus.thy ===== *)
theory SdBus
  imports SdCard
begin

text \<open>
  What the functions of the card driver do on the bus: the bytes they send, the fields they
  leave alone, how the timers run down, and, if the timer interrupt keeps running, that their
  loops end.
\<close>

section \<open>The timer interrupt\<close>

text \<open>The number of timer interrupts while \<open>xs\<close> is sent after the history \<open>h\<close>.\<close>

fun timer_ticks :: "sd_card \<Rightarrow> (bool \<times> u8) list \<Rightarrow> (bool \<times> u8) list \<Rightarrow> nat" where
  "timer_ticks mmc h [] = 0"
| "timer_ticks mmc h (x # xs) = snd (mmc (h @ [x])) + timer_ticks mmc (h @ [x]) xs"

lemma timer_ticks_append [simp]:
  "timer_ticks mmc h (xs @ ys) = timer_ticks mmc h xs + timer_ticks mmc (h @ xs) ys"
  by (induction xs arbitrary: h) auto

lemma timer_down_unat:
  assumes "t < 65536"
  shows "timer_down t < 65536" "unat (timer_down t) = unat t - 1"
proof -
  have t: "unat t < 65536" using assms by (simp add: word_less_nat_alt)
  then have u: "unat (ucast t :: u16) = unat t" by (simp add: unsigned_ucast_eq take_bit_nat_eq_self)
  have "unat (timer_down t) = unat t - 1"
  proof (cases "(ucast t :: u16) = 0")
    case True
    then show ?thesis using u by (simp add: timer_down_def)
  next
    case False
    then have "unat ((ucast t :: u16) - 1) = unat t - 1"
      using u by (simp add: unat_minus_one)
    then show ?thesis using False t
      by (simp add: timer_down_def Let_def unsigned_ucast_eq take_bit_nat_eq_self)
  qed
  then show "unat (timer_down t) = unat t - 1" .
  then show "timer_down t < 65536" using t by (simp add: word_less_nat_alt)
qed

lemma timerproc_frame [simp]:
  "sd_sent ((disk_timerproc ^^ n) s) = sd_sent s"
  "sd_cs ((disk_timerproc ^^ n) s) = sd_cs s"
  "CardType ((disk_timerproc ^^ n) s) = CardType s"
  by (induction n) (simp_all add: disk_timerproc_def)

lemma timerproc_timers:
  "Timer1 s < 65536 \<Longrightarrow> Timer1 ((disk_timerproc ^^ n) s) < 65536
     \<and> unat (Timer1 ((disk_timerproc ^^ n) s)) = unat (Timer1 s) - n"
  "Timer2 s < 65536 \<Longrightarrow> Timer2 ((disk_timerproc ^^ n) s) < 65536
     \<and> unat (Timer2 ((disk_timerproc ^^ n) s)) = unat (Timer2 s) - n"
  by (induction n) (auto simp: disk_timerproc_def timer_down_unat)

text \<open>The interrupt only clears the two status bits for a missing and a protected card.\<close>

definition card_present :: "sd_disk \<Rightarrow> bool" where
  "card_present s \<longleftrightarrow> sd_Stat s AND STA_NODISK = 0 \<and> sd_Stat s AND STA_PROTECT = 0"

lemma and_not_absorb: "(a::'a::len word) AND b = 0 \<Longrightarrow> a AND NOT b = a"
  by (metis bit.conj_disj_distrib bit.conj_one_right bit.disj_cancel_right or.left_neutral)

lemma timerproc_stat:
  assumes "card_present s"
  shows "sd_Stat ((disk_timerproc ^^ n) s) = sd_Stat s"
  using assms
  by (induction n) (auto simp: disk_timerproc_def card_present_def and_not_absorb)

lemma stat_mask_noinit:
  "((x AND NOT STA_PROTECT) AND NOT STA_NODISK) AND STA_NOINIT = x AND STA_NOINIT"
  by (simp add: STA_NOINIT_def STA_NODISK_def STA_PROTECT_def and.assoc)

lemma timerproc_noinit [simp]:
  "sd_Stat ((disk_timerproc ^^ n) s) AND STA_NOINIT = sd_Stat s AND STA_NOINIT"
  by (induction n) (simp_all add: disk_timerproc_def [of "(disk_timerproc ^^ m) s" for m] stat_mask_noinit)

section \<open>Runs on the bus\<close>

text \<open>
  From \<open>s\<close> to \<open>s'\<close> the driver has sent \<open>xs\<close> and the first timer has run down accordingly;
  card type and status are unchanged.
\<close>

definition bus_run :: "sd_card \<Rightarrow> (bool \<times> u8) list \<Rightarrow> sd_disk \<Rightarrow> sd_disk \<Rightarrow> bool" where
  "bus_run mmc xs s s' \<longleftrightarrow>
     sd_sent s' = sd_sent s @ xs \<and> CardType s' = CardType s
     \<and> (card_present s \<longrightarrow> sd_Stat s' = sd_Stat s)
     \<and> sd_Stat s' AND STA_NOINIT = sd_Stat s AND STA_NOINIT
     \<and> (Timer1 s < 65536 \<longrightarrow> Timer1 s' < 65536
          \<and> unat (Timer1 s') = unat (Timer1 s) - timer_ticks mmc (sd_sent s) xs)"

lemma card_present_cong: "sd_Stat s' = sd_Stat s \<Longrightarrow> card_present s' = card_present s"
  by (simp add: card_present_def)

lemma bus_run_refl [simp, intro]: "bus_run mmc [] s s"
  by (simp add: bus_run_def)

lemma bus_run_trans [trans]:
  "bus_run mmc xs s s' \<Longrightarrow> bus_run mmc ys s' s'' \<Longrightarrow> bus_run mmc (xs @ ys) s s''"
  by (auto simp: bus_run_def card_present_def)

lemma bus_run_cs [simp]:
  "bus_run mmc xs (s\<lparr>sd_cs := c\<rparr>) s' = bus_run mmc xs s s'"
  "bus_run mmc xs (s\<lparr>Timer2 := t\<rparr>) s' = bus_run mmc xs s s'"
  "bus_run mmc xs s (s'\<lparr>sd_cs := c\<rparr>) = bus_run mmc xs s s'"
  "bus_run mmc xs s (s'\<lparr>Timer2 := t\<rparr>) = bus_run mmc xs s s'"
  by (auto simp: bus_run_def card_present_def)

lemma xchg_run:
  assumes "xchg_spi mmc dat s = (d, s')"
  shows "bus_run mmc [(sd_cs s, dat)] s s'" "sd_cs s' = sd_cs s"
    "d = fst (mmc (sd_sent s @ [(sd_cs s, dat)]))"
    "Timer2 s < 65536 \<Longrightarrow> Timer2 s' < 65536
       \<and> unat (Timer2 s') = unat (Timer2 s) - snd (mmc (sd_sent s @ [(sd_cs s, dat)]))"
  using assms timerproc_timers [of "s\<lparr>sd_sent := sd_sent s @ [(sd_cs s, dat)]\<rparr>"]
    timerproc_stat [of "s\<lparr>sd_sent := sd_sent s @ [(sd_cs s, dat)]\<rparr>"]
  by (auto simp: xchg_spi_def Let_def bus_run_def card_present_def split: prod.splits)

lemma xchg_run_snd:
  "bus_run mmc [(sd_cs s, dat)] s (snd (xchg_spi mmc dat s))"
  "sd_cs (snd (xchg_spi mmc dat s)) = sd_cs s"
  using xchg_run [of mmc dat s "fst (xchg_spi mmc dat s)" "snd (xchg_spi mmc dat s)"] by simp_all

lemma rcvr_run:
  assumes "rcvr_spi_multi mmc n s = (bs, s')"
  shows "bus_run mmc (replicate n (sd_cs s, 0xFF)) s s' \<and> sd_cs s' = sd_cs s \<and> length bs = n"
  using assms
proof (induction n arbitrary: s bs s')
  case (Suc n)
  obtain b s1 where x: "xchg_spi mmc 0xFF s = (b, s1)" by fastforce
  obtain bs' s2 where r: "rcvr_spi_multi mmc n s1 = (bs', s2)" by fastforce
  from Suc.prems x r have "bs = b # bs'" "s' = s2" by simp_all
  moreover have "bus_run mmc ([(sd_cs s, 0xFF)] @ replicate n (sd_cs s1, 0xFF)) s s2"
    using xchg_run(1) [OF x] Suc.IH [OF r] bus_run_trans by blast
  ultimately show ?case using Suc.IH [OF r] xchg_run(2) [OF x] by simp
qed simp

lemma xmit_run:
  "bus_run mmc (map (Pair (sd_cs s)) bs) s (xmit_spi_multi mmc bs s)
     \<and> sd_cs (xmit_spi_multi mmc bs s) = sd_cs s"
proof (induction bs arbitrary: s)
  case (Cons b bs)
  have "bus_run mmc ([(sd_cs s, b)] @ map (Pair (sd_cs s)) bs) s (xmit_spi_multi mmc (b # bs) s)"
    using bus_run_trans [OF xchg_run_snd(1)] Cons.IH [of "snd (xchg_spi mmc b s)"] xchg_run_snd(2) [of mmc b s]
    by simp
  then show ?case using Cons.IH [of "snd (xchg_spi mmc b s)"] xchg_run_snd(2) [of mmc b s] by simp
qed simp

lemma deselect_run: "bus_run mmc [(True, 0xFF)] s (deselect mmc s)"
  using xchg_run_snd(1) [where mmc = mmc and s = "s\<lparr>sd_cs := True\<rparr>" and dat = "0xFF"] by (simp add: deselect_def)

lemma response_run:
  "response_loop mmc n s = (res, s') \<Longrightarrow>
   \<exists>k. bus_run mmc (replicate (Suc k) (sd_cs s, 0xFF)) s s'"
proof (induction n arbitrary: s)
  case 0
  then show ?case using xchg_run(1) [where mmc = mmc and dat = "0xFF" and s = s] by (auto intro!: exI [of _ 0])
next
  case (Suc n)
  obtain r s1 where x: "xchg_spi mmc 0xFF s = (r, s1)" by fastforce
  show ?case
  proof (cases "r AND 0x80 = 0")
    case True
    then show ?thesis using Suc.prems x xchg_run(1) [OF x] by (auto intro!: exI [of _ 0])
  next
    case False
    then obtain k where "bus_run mmc (replicate (Suc k) (sd_cs s1, 0xFF)) s1 s'"
      using Suc x by auto
    from bus_run_trans [OF xchg_run(1) [OF x] this]
    show ?thesis using xchg_run(2) [OF x] by (auto intro!: exI [of _ "Suc k"])
  qed
qed

section \<open>A running timer\<close>

text \<open>The timer runs: it fires at least once while any \<open>K\<close> bytes are exchanged.\<close>

definition timer_runs :: "sd_card \<Rightarrow> nat \<Rightarrow> bool" where
  "timer_runs mmc K \<longleftrightarrow> (\<forall>h xs. length xs = K \<longrightarrow> 0 < timer_ticks mmc h xs)"

text \<open>The exchanges since the timer has fired last.\<close>

fun idle_rev :: "sd_card \<Rightarrow> (bool \<times> u8) list \<Rightarrow> nat" where
  "idle_rev mmc [] = 0"
| "idle_rev mmc (x # r) = (if snd (mmc (rev (x # r))) = 0 then Suc (idle_rev mmc r) else 0)"

definition idle :: "sd_card \<Rightarrow> (bool \<times> u8) list \<Rightarrow> nat" where
  "idle mmc h = idle_rev mmc (rev h)"

lemma idle_snoc:
  "idle mmc (h @ [x]) = (if snd (mmc (h @ [x])) = 0 then Suc (idle mmc h) else 0)"
  by (simp add: idle_def)

lemma idle_suffix:
  "\<exists>g xs. h = g @ xs \<and> length xs = idle mmc h \<and> timer_ticks mmc g xs = 0"
proof (induction h rule: rev_induct)
  case (snoc x h)
  then obtain g xs where *: "h = g @ xs" "length xs = idle mmc h" "timer_ticks mmc g xs = 0" by blast
  show ?case
  proof (cases "snd (mmc (h @ [x])) = 0")
    case True
    have "h @ [x] = g @ (xs @ [x]) \<and> length (xs @ [x]) = idle mmc (h @ [x])
      \<and> timer_ticks mmc g (xs @ [x]) = 0"
      using * True idle_snoc [of mmc h x] by simp
    then show ?thesis by blast
  next
    case False
    then have "h @ [x] = (h @ [x]) @ [] \<and> length [] = idle mmc (h @ [x])
      \<and> timer_ticks mmc (h @ [x]) [] = 0"
      by (simp add: idle_snoc)
    then show ?thesis by blast
  qed
qed (simp add: idle_def)

lemma idle_less:
  assumes "timer_runs mmc K"
  shows "idle mmc h < K"
proof (rule ccontr)
  assume "\<not> idle mmc h < K"
  moreover obtain g xs where *: "length xs = idle mmc h" "timer_ticks mmc g xs = 0"
    using idle_suffix by blast
  ultimately have "length (take K xs) = K" by simp
  then have "0 < timer_ticks mmc g (take K xs)" using assms by (auto simp: timer_runs_def)
  moreover have "timer_ticks mmc g xs
      = timer_ticks mmc g (take K xs) + timer_ticks mmc (g @ take K xs) (drop K xs)"
    by (metis append_take_drop_id timer_ticks_append)
  ultimately show False using *(2) by simp
qed

text \<open>A bound for the exchanges until a timer with value \<open>t\<close> has run down.\<close>

definition patience :: "sd_card \<Rightarrow> nat \<Rightarrow> nat \<Rightarrow> (bool \<times> u8) list \<Rightarrow> nat" where
  "patience mmc K t h = t * K + (K - idle mmc h)"

lemma patience_snoc:
  assumes K: "timer_runs mmc K" and t: "0 < t - snd (mmc (h @ [x]))"
  shows "patience mmc K (t - snd (mmc (h @ [x]))) (h @ [x]) < patience mmc K t h"
proof (cases "snd (mmc (h @ [x])) = 0")
  case True
  then show ?thesis using idle_less [OF K, of "h @ [x]"] by (simp add: patience_def idle_snoc)
next
  case False
  define n where "n = snd (mmc (h @ [x]))"
  have "t - n + 1 \<le> t" using False t by (simp add: n_def)
  then have "(t - n + 1) * K \<le> t * K" by (rule mult_le_mono1)
  then have "(t - n) * K + K \<le> t * K" by simp
  then show ?thesis using False idle_less [OF K, of h] by (simp add: patience_def idle_snoc n_def)
qed

lemma patience_run:
  assumes "timer_runs mmc K" "xs \<noteq> []" "0 < t - timer_ticks mmc h xs"
  shows "patience mmc K (t - timer_ticks mmc h xs) (h @ xs) < patience mmc K t h"
  using assms(2,3)
proof (induction xs arbitrary: t h)
  case (Cons x xs)
  have 1: "patience mmc K (t - snd (mmc (h @ [x]))) (h @ [x]) < patience mmc K t h"
    using patience_snoc [OF assms(1)] Cons.prems by simp
  show ?case
  proof (cases "xs = []")
    case False
    then show ?thesis using Cons.IH [of "t - snd (mmc (h @ [x]))" "h @ [x]"] Cons.prems 1 by simp
  qed (use 1 in simp)
qed simp

end
