(* ===== verification/SdTotal.thy ===== *)
theory SdTotal
  imports SdBus
begin

text \<open>
  The operations of the card driver return when the timer interrupt keeps running, whatever
  the card answers.
\<close>

text \<open>The operation returns, and on the way there it has sent something and kept card type and
  status; the first timer has only run down.\<close>

definition returns :: "sd_card \<Rightarrow> sd_disk \<Rightarrow> ('a \<times> sd_disk) option \<Rightarrow> bool" where
  "returns mmc s r \<longleftrightarrow> (\<exists>x s' xs. r = Some (x, s') \<and> xs \<noteq> [] \<and> bus_run mmc xs s s')"

lemma returnsI: "r = Some (x, s') \<Longrightarrow> xs \<noteq> [] \<Longrightarrow> bus_run mmc xs s s' \<Longrightarrow> returns mmc s r"
  by (auto simp: returns_def)

lemma returnsE:
  assumes "returns mmc s r"
  obtains x s' xs where "r = Some (x, s')" "xs \<noteq> []" "bus_run mmc xs s s'"
  using assms by (auto simp: returns_def)

lemma returns_after:
  assumes "bus_run mmc xs s s1" "returns mmc s1 r"
  shows "returns mmc s r"
  using assms bus_run_trans unfolding returns_def by (metis append_is_Nil_conv)

lemma wait_ready_loop_returns:
  assumes K: "timer_runs mmc K"
  shows "Timer2 s < 65536 \<Longrightarrow> returns mmc s (wait_ready_loop mmc s)"
proof (induction "patience mmc K (unat (Timer2 s)) (sd_sent s)" arbitrary: s rule: less_induct)
  case less
  obtain d s1 where x: "xchg_spi mmc 0xFF s = (d, s1)" by fastforce
  note run = xchg_run(1) [OF x] and t2 = xchg_run(4) [OF x less.prems]
  show ?case
  proof (cases "d \<noteq> 0xFF \<and> Timer2 s1 \<noteq> 0")
    case True
    then have "0 < unat (Timer2 s1)" by (simp add: unat_gt_0)
    then have "patience mmc K (unat (Timer2 s1)) (sd_sent s1) < patience mmc K (unat (Timer2 s)) (sd_sent s)"
      using patience_snoc [OF K] t2 run by (simp add: bus_run_def)
    then have "returns mmc s1 (wait_ready_loop mmc s1)" using less.hyps t2 by blast
    moreover have "wait_ready_loop mmc s = wait_ready_loop mmc s1"
      using x True by (subst wait_ready_loop.simps) simp
    ultimately show ?thesis using returns_after [OF run] by simp
  next
    case False
    then have "wait_ready_loop mmc s = Some (d, s1)"
      using x by (subst wait_ready_loop.simps) auto
    then show ?thesis using run by (auto intro: returnsI)
  qed
qed

lemma wait_ready_returns:
  assumes "timer_runs mmc K" "wt < 65536"
  shows "returns mmc s (wait_ready mmc wt s)"
  using wait_ready_loop_returns [OF assms(1), of "s\<lparr>Timer2 := wt\<rparr>"] assms(2)
  by (auto simp: wait_ready_def returns_def)

lemma select_returns:
  assumes "timer_runs mmc K"
  shows "returns mmc s (select mmc s)"
proof -
  define s1 where "s1 = snd (xchg_spi mmc 0xFF (s\<lparr>sd_cs := False\<rparr>))"
  have 1: "bus_run mmc [(False, 0xFF)] s s1"
    using xchg_run_snd(1) [where mmc = mmc and dat = "0xFF" and s = "s\<lparr>sd_cs := False\<rparr>"]
    by (simp add: s1_def)
  from wait_ready_returns [OF assms, of 500 s1] obtain ok s2 xs where
    2: "wait_ready mmc 500 s1 = Some (ok, s2)" "bus_run mmc xs s1 s2"
    by (auto elim: returnsE)
  note 12 = bus_run_trans [OF 1 2(2)]
  show ?thesis
  proof (cases ok)
    case True
    then show ?thesis using 2 12 by (intro returnsI [OF _ _ 12]) (simp_all add: select_def s1_def)
  next
    case False
    then show ?thesis using 2 bus_run_trans [OF 12 deselect_run]
      by (intro returnsI [OF _ _ bus_run_trans [OF 12 deselect_run]]) (simp_all add: select_def s1_def)
  qed
qed

lemma send_frame_returns:
  "returns mmc s (Some (response_loop mmc 9
     (if c then snd (xchg_spi mmc 0xFF (xmit_spi_multi mmc bs s)) else xmit_spi_multi mmc bs s)))"
proof -
  define s1 where
    "s1 = (if c then snd (xchg_spi mmc 0xFF (xmit_spi_multi mmc bs s)) else xmit_spi_multi mmc bs s)"
  note sent = xmit_run [where mmc = mmc and s = s and bs = bs, THEN conjunct1]
  have "\<exists>xs. bus_run mmc xs s s1"
    using sent bus_run_trans [OF sent xchg_run_snd(1)] by (cases c) (auto simp: s1_def)
  then obtain xs where 1: "bus_run mmc xs s s1" ..
  obtain r s2 where r: "response_loop mmc 9 s1 = (r, s2)" by fastforce
  then obtain k where "bus_run mmc (replicate (Suc k) (sd_cs s1, 0xFF)) s1 s2"
    using response_run by blast
  then have "returns mmc s1 (Some (response_loop mmc 9 s1))" using r by (auto intro: returnsI)
  then show ?thesis using returns_after [OF 1] unfolding s1_def by blast
qed

lemma send_cmd_plain_returns:
  assumes "timer_runs mmc K"
  shows "returns mmc s (send_cmd_plain mmc cmd arg s)"
proof (cases "cmd = CMD12")
  case True
  then show ?thesis using send_frame_returns [of mmc s True] by (simp add: send_cmd_plain_def)
next
  case False
  obtain ok s1 xs where 1: "select mmc (deselect mmc s) = Some (ok, s1)" "xs \<noteq> []" "bus_run mmc xs s s1"
    using returns_after [OF deselect_run select_returns [OF assms]] by (blast elim: returnsE)
  show ?thesis
  proof (cases ok)
    case True
    then show ?thesis using False 1 returns_after [OF 1(3) send_frame_returns [of mmc s1 False]]
      by (simp add: send_cmd_plain_def)
  next
    case notok: False
    then show ?thesis using False 1 by (auto simp: send_cmd_plain_def intro: returnsI)
  qed
qed

lemma send_cmd_returns:
  assumes "timer_runs mmc K"
  shows "returns mmc s (send_cmd mmc cmd arg s)"
proof (cases "cmd AND 0x80 = 0")
  case True
  then show ?thesis using send_cmd_plain_returns [OF assms] by (simp add: send_cmd_def)
next
  case False
  obtain r s1 xs where 1: "send_cmd_plain mmc CMD55 0 s = Some (r, s1)" "xs \<noteq> []" "bus_run mmc xs s s1"
    using send_cmd_plain_returns [OF assms] by (blast elim: returnsE)
  then show ?thesis
    using False returns_after [OF 1(3) send_cmd_plain_returns [OF assms]]
    by (auto simp: send_cmd_def intro: returnsI)
qed

section \<open>Operations\<close>

lemma token_loop_total:
  assumes K: "timer_runs mmc K"
  shows "Timer1 s < 65536 \<Longrightarrow> \<exists>r. token_loop mmc s = Some r"
proof (induction "patience mmc K (unat (Timer1 s)) (sd_sent s)" arbitrary: s rule: less_induct)
  case less
  obtain d s1 where x: "xchg_spi mmc 0xFF s = (d, s1)" by fastforce
  note run = xchg_run(1) [OF x]
  show ?case
  proof (cases "d = 0xFF \<and> Timer1 s1 \<noteq> 0")
    case True
    then have "0 < unat (Timer1 s1)" by (simp add: unat_gt_0)
    then have "patience mmc K (unat (Timer1 s1)) (sd_sent s1) < patience mmc K (unat (Timer1 s)) (sd_sent s)"
      using patience_snoc [OF K] run less.prems by (simp add: bus_run_def)
    then have "\<exists>r. token_loop mmc s1 = Some r" using less run by (simp add: bus_run_def)
    moreover have "token_loop mmc s = token_loop mmc s1"
      using x True by (subst token_loop.simps) simp
    ultimately show ?thesis by simp
  next
    case False
    then have "token_loop mmc s = Some (d, s1)"
      using x by (subst token_loop.simps) auto
    then show ?thesis by simp
  qed
qed

lemma init_loop_total:
  assumes K: "timer_runs mmc K"
  shows "Timer1 s < 65536 \<Longrightarrow> \<exists>r. init_loop mmc cmd arg s = Some r"
proof (induction "patience mmc K (unat (Timer1 s)) (sd_sent s)" arbitrary: s rule: less_induct)
  case less
  show ?case
  proof (cases "Timer1 s = 0")
    case True
    then show ?thesis by (subst init_loop.simps) simp
  next
    case False
    obtain r s1 xs where
      1: "send_cmd mmc cmd arg s = Some (r, s1)" "xs \<noteq> []" "bus_run mmc xs s s1"
      using send_cmd_returns [OF K] by (blast elim: returnsE)
    have "\<exists>r. init_loop mmc cmd arg s1 = Some r"
    proof (cases "Timer1 s1 = 0")
      case True
      then show ?thesis by (subst init_loop.simps) simp
    next
      case False
      then have "0 < unat (Timer1 s1)" by (simp add: unat_gt_0)
      then have "patience mmc K (unat (Timer1 s1)) (sd_sent s1)
          < patience mmc K (unat (Timer1 s)) (sd_sent s)"
        using patience_run [OF K 1(2)] 1(3) less.prems by (simp add: bus_run_def)
      then show ?thesis using less 1(3) by (simp add: bus_run_def)
    qed
    then show ?thesis using 1(1) False by (subst init_loop.simps) auto
  qed
qed

text \<open>Totality of the parts, in the form in which the operations use them.\<close>

lemma ex_wait_ready: "timer_runs mmc K \<Longrightarrow> wt < 65536 \<Longrightarrow> \<exists>x s'. wait_ready mmc wt s = Some (x, s')"
  using wait_ready_returns by (blast elim: returnsE)

lemma ex_select: "timer_runs mmc K \<Longrightarrow> \<exists>x s'. select mmc s = Some (x, s')"
  using select_returns by (blast elim: returnsE)

lemma ex_send_cmd: "timer_runs mmc K \<Longrightarrow> \<exists>x s'. send_cmd mmc cmd arg s = Some (x, s')"
  using send_cmd_returns by (blast elim: returnsE)

lemma copy_into_length: "copy_into dst off src = Some b \<Longrightarrow> length b = length dst"
  by (auto simp: copy_into_def split: if_splits)

lemma ex_rcvr:
  assumes "timer_runs mmc K" "off + btr \<le> length buff"
  shows "\<exists>ok b s'. rcvr_datablock mmc buff off btr s = Some (ok, b, s') \<and> length b = length buff"
proof -
  obtain tok s1 where t: "token_loop mmc (s\<lparr>Timer1 := 200\<rparr>) = Some (tok, s1)"
    using token_loop_total [OF assms(1), of "s\<lparr>Timer1 := 200\<rparr>"] by auto
  obtain bs s2 where r: "rcvr_spi_multi mmc btr s1 = (bs, s2)" by fastforce
  then have "length bs = btr" using rcvr_run by blast
  then show ?thesis using t r assms(2)
    by (auto simp: rcvr_datablock_def copy_into_def)
qed

lemma ex_xmit:
  assumes "timer_runs mmc K" "token \<noteq> 0xFD \<longrightarrow> off + 512 \<le> length buff"
  shows "\<exists>ok s'. xmit_datablock mmc buff off token s = Some (ok, s')"
proof -
  obtain ok s1 where w: "wait_ready mmc 500 s = Some (ok, s1)"
    using ex_wait_ready [OF assms(1), of 500 s] by auto
  then show ?thesis using assms(2)
    by (auto simp: xmit_datablock_def copy_from_def Let_def split: prod.splits)
qed

lemma ex_read_blocks:
  assumes "timer_runs mmc K"
  shows "off + 512 * n \<le> length buff \<Longrightarrow> \<exists>x b s'. read_blocks mmc n buff off s = Some (x, b, s')"
proof (induction n arbitrary: buff off s)
  case (Suc n)
  obtain ok b s1 where "rcvr_datablock mmc buff off 512 s = Some (ok, b, s1)" "length b = length buff"
    using ex_rcvr [OF assms, of off 512 buff s] Suc.prems by auto
  then show ?case using Suc by auto
qed simp

lemma ex_write_blocks:
  assumes "timer_runs mmc K"
  shows "off + 512 * n \<le> length buff \<Longrightarrow> \<exists>x s'. write_blocks mmc n buff off s = Some (x, s')"
proof (induction n arbitrary: off s)
  case (Suc n)
  obtain ok s1 where "xmit_datablock mmc buff off 0xFC s = Some (ok, s1)"
    using ex_xmit [OF assms, of "0xFC" off buff s] Suc.prems by auto
  then show ?case using Suc by auto
qed simp

lemma ex_read_register:
  assumes "timer_runs mmc K"
  shows "\<exists>r s'. read_register mmc cmd n s = Some (r, s') \<and> (\<forall>csd. r = Some csd \<longrightarrow> length csd = n)"
proof -
  obtain res s1 where c: "send_cmd mmc cmd 0 s = Some (res, s1)" using ex_send_cmd [OF assms] by blast
  define s2 where "s2 = (if cmd = ACMD13 then snd (xchg_spi mmc 0xFF s1) else s1)"
  obtain ok b s3 where r: "rcvr_datablock mmc (replicate n 0) 0 n s2 = Some (ok, b, s3)" "length b = n"
    using ex_rcvr [OF assms, of 0 n "replicate n 0" s2] by auto
  show ?thesis using c r by (cases "res = 0") (simp_all add: read_register_def s2_def)
qed

section \<open>Results\<close>

lemma ex_init_v2:
  assumes K: "timer_runs mmc K" and "Timer1 s < 65536"
  shows "\<exists>r. sd_init_v2 mmc s = Some r"
proof -
  obtain ocr s1 where r: "rcvr_spi_multi mmc 4 s = (ocr, s1)" by fastforce
  then have "Timer1 s1 < 65536" using rcvr_run [OF r] assms(2) by (simp add: bus_run_def)
  then obtain s2 where "init_loop mmc ACMD41 (push_bit 30 1) s1 = Some s2"
    using init_loop_total [OF K] by blast
  moreover obtain res s3 where "send_cmd mmc CMD58 0 s2 = Some (res, s3)" using ex_send_cmd [OF K] by blast
  ultimately show ?thesis using r
    by (auto simp: sd_init_v2_def Let_def split: prod.splits simp del: push_bit_of_1)
qed

lemma ex_init_v1:
  assumes K: "timer_runs mmc K" and "Timer1 s < 65536"
  shows "\<exists>r. sd_init_v1 mmc s = Some r"
proof -
  obtain res s1 xs where c: "send_cmd mmc ACMD41 0 s = Some (res, s1)" "bus_run mmc xs s s1"
    using send_cmd_returns [OF K] by (blast elim: returnsE)
  then have "Timer1 s1 < 65536" using assms(2) by (simp add: bus_run_def)
  then obtain s2 where i: "init_loop mmc (if res \<le> 1 then ACMD41 else CMD1) 0 s1 = Some s2"
    using init_loop_total [OF K] by blast
  obtain res' s3 where "send_cmd mmc CMD16 SD_SECTOR_SIZE s2 = Some (res', s3)"
    using ex_send_cmd [OF K] by blast
  then show ?thesis using c i by (cases "res \<le> 1") (simp_all add: sd_init_v1_def)
qed

lemma ex_init_type:
  assumes K: "timer_runs mmc K"
  shows "\<exists>r. sd_init_type mmc s = Some r"
proof -
  obtain res s1 where c: "send_cmd mmc CMD0 0 s = Some (res, s1)" using ex_send_cmd [OF K] by blast
  obtain res' s2 xs where d: "send_cmd mmc CMD8 0x1AA (s1\<lparr>Timer1 := 1000\<rparr>) = Some (res', s2)"
    "bus_run mmc xs (s1\<lparr>Timer1 := 1000\<rparr>) s2"
    using send_cmd_returns [OF K] by (blast elim: returnsE)
  then have "Timer1 s2 < 65536" by (simp add: bus_run_def)
  then obtain r r' where "sd_init_v2 mmc s2 = Some r" "sd_init_v1 mmc s2 = Some r'"
    using ex_init_v2 [OF K] ex_init_v1 [OF K] by blast
  then show ?thesis using c d by (simp add: sd_init_type_def)
qed

lemma SD_disk_initialize_total:
  assumes "timer_runs mmc K"
  shows "\<exists>r. SD_disk_initialize mmc s = Some r"
proof -
  obtain ty s1 where "sd_init_type mmc (snd (rcvr_spi_multi mmc 10 s)) = Some (ty, s1)"
    using ex_init_type [OF assms] by fastforce
  then show ?thesis by (auto simp: SD_disk_initialize_def Let_def)
qed

lemma SD_disk_read_total:
  assumes K: "timer_runs mmc K" and len: "512 * unat count \<le> length buff"
  shows "\<exists>r. SD_disk_read mmc buff sector count s = Some r"
proof (cases "count = 1")
  case True
  obtain res s1 where c: "send_cmd mmc CMD17 (sd_address s sector) s = Some (res, s1)"
    using ex_send_cmd [OF K] by blast
  obtain ok b s2 where "rcvr_datablock mmc buff 0 512 s1 = Some (ok, b, s2)"
    using ex_rcvr [OF K, of 0 512 buff s1] len True by auto
  then show ?thesis using True c by (simp add: SD_disk_read_def)
next
  case False
  obtain res s1 where c: "send_cmd mmc CMD18 (sd_address s sector) s = Some (res, s1)"
    using ex_send_cmd [OF K] by blast
  obtain n b s2 where r: "read_blocks mmc (unat count) buff 0 s1 = Some (n, b, s2)"
    using ex_read_blocks [OF K, of 0 "unat count" buff s1] len by auto
  obtain res' s3 where "send_cmd mmc CMD12 0 s2 = Some (res', s3)" using ex_send_cmd [OF K] by blast
  then show ?thesis using False c r by (simp add: SD_disk_read_def)
qed

lemma SD_disk_write_total:
  assumes K: "timer_runs mmc K" and len: "512 * unat count \<le> length buff"
  shows "\<exists>r. SD_disk_write mmc buff sector count s = Some r"
proof (cases "count = 1")
  case True
  obtain res s1 where c: "send_cmd mmc CMD24 (sd_address s sector) s = Some (res, s1)"
    using ex_send_cmd [OF K] by blast
  obtain ok s2 where "xmit_datablock mmc buff 0 0xFE s1 = Some (ok, s2)"
    using ex_xmit [OF K, of "0xFE" 0 buff s1] len True by auto
  then show ?thesis using True c by (simp add: SD_disk_write_def)
next
  case False
  have "\<exists>s0. (if CardType s AND CT_SDC \<noteq> 0
      then map_option snd (send_cmd mmc ACMD23 count s) else Some s) = Some s0"
    using ex_send_cmd [OF K, of ACMD23 count s] by (cases "CardType s AND CT_SDC = 0") auto
  then obtain s0 where p: "(if CardType s AND CT_SDC \<noteq> 0
      then map_option snd (send_cmd mmc ACMD23 count s) else Some s) = Some s0" ..
  obtain res s1 where c: "send_cmd mmc CMD25 (sd_address s sector) s0 = Some (res, s1)"
    using ex_send_cmd [OF K] by blast
  obtain n s2 where r: "write_blocks mmc (unat count) buff 0 s1 = Some (n, s2)"
    using ex_write_blocks [OF K, of 0 "unat count" buff s1] len by auto
  obtain ok s3 where "xmit_datablock mmc [] 0 0xFD s2 = Some (ok, s3)"
    using ex_xmit [OF K, of "0xFD" 0 "[]" s2] by auto
  then show ?thesis using False p c r by (simp add: SD_disk_write_def)
qed

lemma ioctl_trim_total:
  assumes K: "timer_runs mmc K"
  shows "\<exists>r. ioctl_trim mmc st ed s = Some r"
proof (cases "CardType s AND CT_SDC = 0 \<or> sd_Stat s AND STA_NOINIT \<noteq> 0")
  case True
  then show ?thesis by (auto simp: ioctl_trim_def)
next
  case False
  obtain r s1 where 1: "read_register mmc CMD9 16 s = Some (r, s1)" using ex_read_register [OF K] by blast
  define s2 where "s2 = deselect mmc s1"
  obtain r1 s3 where 3: "send_cmd mmc CMD32 (sd_address s2 st) s2 = Some (r1, s3)" using ex_send_cmd [OF K] by blast
  obtain r2 s4 where 4: "send_cmd mmc CMD33 (sd_address s2 ed) s3 = Some (r2, s4)" using ex_send_cmd [OF K] by blast
  obtain r3 s5 where 5: "send_cmd mmc CMD38 0 s4 = Some (r3, s5)" using ex_send_cmd [OF K] by blast
  obtain ok s6 where 6: "wait_ready mmc 30000 s5 = Some (ok, s6)" using ex_wait_ready [OF K, of 30000] by fastforce
  show ?thesis using False 1 3 4 5 6
    by (cases r) (auto simp: ioctl_trim_def Let_def simp flip: s2_def)
qed

text \<open>The sector count and the block size are left out here: for a card with an impossible
  register they shift by a negative amount.\<close>

lemma SD_disk_ioctl_total:
  assumes K: "timer_runs mmc K" and "cmd \<noteq> GET_SECTOR_COUNT" "cmd \<noteq> GET_BLOCK_SIZE"
  shows "\<exists>r. SD_disk_ioctl mmc cmd st ed s = Some r"
proof -
  obtain ok s1 where 1: "select mmc s = Some (ok, s1)" using ex_select [OF K] by blast
  obtain rt where 2: "ioctl_trim mmc st ed s = Some rt" using ioctl_trim_total [OF K] by blast
  have 3: "\<exists>r o' s'. ioctl_register mmc c n s = Some (r, o', s')" for c n
    using ex_read_register [OF K, of c n s] by (auto simp: ioctl_register_def split: option.splits)
  have 4: "\<exists>r o' s'. ioctl_ocr mmc s = Some (r, o', s')"
    using ex_send_cmd [OF K, of CMD58 0 s] by (auto simp: ioctl_ocr_def Let_def split: prod.splits)
  show ?thesis
    using assms(2,3) 1 2 3 [of CMD9 16] 3 [of CMD10 16] 3 [of ACMD13 64] 4
    by (auto simp: SD_disk_ioctl_def Let_def split: prod.splits)
qed

section \<open>A stopped timer\<close>

text \<open>The timer interrupt never runs, and the card never reports that it is ready.\<close>

definition stuck :: "sd_card \<Rightarrow> bool" where
  "stuck mmc \<longleftrightarrow> (\<forall>h. snd (mmc h) = 0 \<and> fst (mmc h) \<noteq> 0xFF)"

lemma xchg_stuck: "stuck mmc \<Longrightarrow> xchg_spi mmc dat s = (d, s') \<Longrightarrow> d \<noteq> 0xFF \<and> Timer2 s' = Timer2 s"
  by (auto simp: xchg_spi_def stuck_def Let_def split: prod.splits)
    (metis fst_conv funpow_0 sd_disk.select_convs(8) snd_conv sd_disk.surjective sd_disk.update_convs(11))+

lemma wait_ready_loop_stuck:
  assumes "stuck mmc" "Timer2 s \<noteq> 0"
  shows "wait_ready_loop mmc s = None"
proof -
  have "stuck m \<longrightarrow> Timer2 t = 0" if "wait_ready_loop m t = Some r" for m t r
  proof (rule wait_ready_loop.raw_induct [where P = "\<lambda>m t r. stuck m \<longrightarrow> Timer2 t = 0", OF _ that])
    fix loop m t r
    assume IH: "\<And>s b y. loop s b = Some y \<Longrightarrow> stuck s \<longrightarrow> Timer2 b = 0"
      and body: "(let (d, s) = xchg_spi m 255 t
        in if d \<noteq> 255 \<and> Timer2 s \<noteq> 0 then loop m s else Some (d, s)) = Some r"
    obtain d t1 where x: "xchg_spi m 0xFF t = (d, t1)" by fastforce
    show "stuck m \<longrightarrow> Timer2 t = 0"
      using xchg_stuck [OF _ x] IH [of m t1 r] body x by (auto split: if_splits)
  qed
  then show ?thesis using assms by (metis option.exhaust)
qed

lemma wait_ready_stuck: "stuck mmc \<Longrightarrow> wt \<noteq> 0 \<Longrightarrow> wait_ready mmc wt s = None"
  by (simp add: wait_ready_def wait_ready_loop_stuck)

lemma send_cmd_stuck: "stuck mmc \<Longrightarrow> cmd AND 0x7F \<noteq> CMD12 \<Longrightarrow> cmd \<noteq> CMD12 \<Longrightarrow> send_cmd mmc cmd arg s = None"
  by (auto simp: send_cmd_def send_cmd_plain_def select_def wait_ready_stuck CMD55_def CMD12_def Let_def)

end
