(* ===== verification/SdProto.thy ===== *)
theory SdProto
  imports SdTotal
begin

text \<open>
  The protocol of the card driver. A dialog is a list of exchanges: the level of the select
  line, the byte sent, and the byte the card answers where the driver looks at it. This theory
  gives the dialogs of a command and of a data block, and shows that the functions of the
  driver succeed exactly along such dialogs.
\<close>

section \<open>Dialogs\<close>

type_synonym sd_exchange = "(bool \<times> u8) \<times> u8 option"

fun says :: "sd_card \<Rightarrow> (bool \<times> u8) list \<Rightarrow> sd_exchange list \<Rightarrow> bool" where
  "says mmc h [] = True"
| "says mmc h ((x, r) # q) =
     ((case r of None \<Rightarrow> True | Some b \<Rightarrow> fst (mmc (h @ [x])) = b) \<and> says mmc (h @ [x]) q)"

lemma says_append [simp]:
  "says mmc h (q @ q') \<longleftrightarrow> says mmc h q \<and> says mmc (h @ map fst q) q'"
  by (induction q arbitrary: h) auto

text \<open>The driver polls with 0xFF and gets the bytes \<open>rs\<close>; the driver sends \<open>bs\<close> and drops the answers.\<close>

definition polled :: "bytes \<Rightarrow> sd_exchange list" where
  "polled rs = map (\<lambda>r. ((False, 0xFF), Some r)) rs"

definition put :: "bytes \<Rightarrow> sd_exchange list" where
  "put bs = map (\<lambda>b. ((False, b), None)) bs"

lemma polled_simps [simp]:
  "polled [] = []" "polled (r # rs) = ((False, 0xFF), Some r) # polled rs"
  "map fst (polled rs) = replicate (length rs) (False, 0xFF)"
  by (simp_all add: polled_def map_replicate_const comp_def)

lemma polled_append: "polled (rs @ rs') = polled rs @ polled rs'"
  by (simp add: polled_def)

lemma put_simps [simp]:
  "put [] = []" "put (b # bs) = ((False, b), None) # put bs"
  "map fst (put bs) = map (Pair False) bs" "says mmc h (put bs)"
  by (induction bs arbitrary: h) (simp_all add: put_def)

text \<open>A state that has come from \<open>s\<close> by sending \<open>xs\<close>, and one that has come along a dialog.\<close>

definition via :: "sd_disk \<Rightarrow> (bool \<times> u8) list \<Rightarrow> sd_disk \<Rightarrow> bool" where
  "via s xs s' \<longleftrightarrow> sd_sent s' = sd_sent s @ xs \<and> CardType s' = CardType s
     \<and> (card_present s \<longrightarrow> sd_Stat s' = sd_Stat s)
     \<and> sd_Stat s' AND STA_NOINIT = sd_Stat s AND STA_NOINIT"

definition dialog :: "sd_card \<Rightarrow> sd_exchange list \<Rightarrow> sd_disk \<Rightarrow> sd_disk \<Rightarrow> bool" where
  "dialog mmc q s s' \<longleftrightarrow> says mmc (sd_sent s) q \<and> via s (map fst q) s'"

lemma bus_run_via: "bus_run mmc xs s s' \<Longrightarrow> via s xs s'"
  by (simp add: bus_run_def via_def)

lemma via_refl [simp, intro]: "via s [] s"
  by (simp add: via_def)

lemma via_trans [trans]: "via s xs s' \<Longrightarrow> via s' ys s'' \<Longrightarrow> via s (xs @ ys) s''"
  by (auto simp: via_def card_present_def)

lemma via_upd [simp]:
  "via (s\<lparr>sd_cs := c\<rparr>) xs s' = via s xs s'" "via (s\<lparr>Timer1 := t\<rparr>) xs s' = via s xs s'"
  "via (s\<lparr>Timer2 := t\<rparr>) xs s' = via s xs s'"
  by (auto simp: via_def card_present_def)

lemma dialog_upd [simp]:
  "dialog mmc q (s\<lparr>sd_cs := c\<rparr>) s' = dialog mmc q s s'"
  "dialog mmc q (s\<lparr>Timer1 := t\<rparr>) s' = dialog mmc q s s'"
  "dialog mmc q (s\<lparr>Timer2 := t\<rparr>) s' = dialog mmc q s s'"
  by (auto simp: dialog_def)

lemma dialog_refl [simp, intro]: "dialog mmc [] s s"
  by (simp add: dialog_def)

lemma dialog_trans [trans]:
  "dialog mmc q s s' \<Longrightarrow> dialog mmc q' s' s'' \<Longrightarrow> dialog mmc (q @ q') s s''"
  by (auto simp: dialog_def intro: via_trans) (simp add: via_def)

lemma dialog_xchg:
  assumes "xchg_spi mmc d s = (r, s')"
  shows "dialog mmc [((sd_cs s, d), Some r)] s s'" "dialog mmc [((sd_cs s, d), None)] s s'"
    "sd_cs s' = sd_cs s"
  using xchg_run [OF assms] bus_run_via by (auto simp: dialog_def)

lemma dialog_snd:
  assumes "\<not> sd_cs s"
  shows "dialog mmc (put [d]) s (snd (xchg_spi mmc d s))" "\<not> sd_cs (snd (xchg_spi mmc d s))"
  using assms dialog_xchg [of mmc d s "fst (xchg_spi mmc d s)" "snd (xchg_spi mmc d s)"]
  by simp_all

lemma dialog_put:
  assumes "\<not> sd_cs s"
  shows "dialog mmc (put bs) s (xmit_spi_multi mmc bs s)" "\<not> sd_cs (xmit_spi_multi mmc bs s)"
  using assms xmit_run [where mmc = mmc and s = s and bs = bs] bus_run_via
  by (auto simp: dialog_def)

lemma dialog_rcvr:
  "rcvr_spi_multi mmc n s = (bs, s') \<Longrightarrow> \<not> sd_cs s \<Longrightarrow>
   dialog mmc (polled bs) s s' \<and> \<not> sd_cs s' \<and> length bs = n"
proof (induction n arbitrary: s bs s')
  case (Suc n)
  obtain b s1 where x: "xchg_spi mmc 0xFF s = (b, s1)" by fastforce
  obtain bs' s2 where r: "rcvr_spi_multi mmc n s1 = (bs', s2)" by fastforce
  have "bs = b # bs'" "s' = s2" using Suc.prems x r by simp_all
  moreover have "dialog mmc (polled [b] @ polled bs') s s2"
    using dialog_trans [of mmc "polled [b]" s s1] dialog_xchg [OF x] Suc.IH [OF r] Suc.prems by simp
  ultimately show ?case using Suc.IH [OF r] dialog_xchg(3) [OF x] Suc.prems by simp
qed simp

lemma dialog_deselect: "dialog mmc [((True, 0xFF), None)] s (deselect mmc s)"
  using bus_run_via [OF deselect_run] by (simp add: dialog_def)

section \<open>Commands and data blocks\<close>

text \<open>
  A command: unless it stops a transfer the card is selected anew and waited for; behind the
  frame come at most nine bytes with bit 7 set and the response, the tenth byte in any case.
\<close>

definition cmd_dialog :: "u8 \<Rightarrow> u32 \<Rightarrow> u8 \<Rightarrow> sd_exchange list \<Rightarrow> bool" where
  "cmd_dialog cmd arg res q \<longleftrightarrow>
     (\<exists>busy pre. (\<forall>b\<in>set busy. b \<noteq> 0xFF) \<and> length pre \<le> 9 \<and> (\<forall>b\<in>set pre. b AND 0x80 \<noteq> 0)
        \<and> (res AND 0x80 = 0 \<or> length pre = 9)
        \<and> q = (if cmd = CMD12 then [] else ((True, 0xFF), None) # put [0xFF] @ polled (busy @ [0xFF]))
              @ put (cmd_frame cmd arg @ (if cmd = CMD12 then [0xFF] else []))
              @ polled (pre @ [res]))"

text \<open>A data block from the card: the token 0xFE after some polls, the data and two bytes of checksum.\<close>

definition read_dialog :: "bytes \<Rightarrow> sd_exchange list \<Rightarrow> bool" where
  "read_dialog data q \<longleftrightarrow>
     (\<exists>n. q = polled (replicate n 0xFF @ 0xFE # data) @ put [0xFF, 0xFF])"

text \<open>A data block to the card, which accepts it.\<close>

definition write_dialog :: "u8 \<Rightarrow> bytes \<Rightarrow> sd_exchange list \<Rightarrow> bool" where
  "write_dialog token data q \<longleftrightarrow>
     (\<exists>busy resp. (\<forall>b\<in>set busy. b \<noteq> 0xFF) \<and> resp AND 0x1F = 0x05
        \<and> q = polled (busy @ [0xFF]) @ put (token # data @ [0xFF, 0xFF]) @ polled [resp])"

definition stop_dialog :: "sd_exchange list \<Rightarrow> bool" where
  "stop_dialog q \<longleftrightarrow> (\<exists>busy. (\<forall>b\<in>set busy. b \<noteq> 0xFF) \<and> q = polled (busy @ [0xFF]) @ put [0xFD])"

fun read_dialogs :: "bytes list \<Rightarrow> sd_exchange list \<Rightarrow> bool" where
  "read_dialogs [] q = (q = [])"
| "read_dialogs (d # ds) q = (\<exists>q1 q2. q = q1 @ q2 \<and> read_dialog d q1 \<and> read_dialogs ds q2)"

fun write_dialogs :: "bytes list \<Rightarrow> sd_exchange list \<Rightarrow> bool" where
  "write_dialogs [] q = (q = [])"
| "write_dialogs (d # ds) q = (\<exists>q1 q2. q = q1 @ q2 \<and> write_dialog 0xFC d q1 \<and> write_dialogs ds q2)"

section \<open>What a success means\<close>

lemma wait_ready_loop_sound:
  assumes "wait_ready_loop mmc s = Some r" "\<not> sd_cs s"
  shows "\<exists>busy. (\<forall>b\<in>set busy. b \<noteq> 0xFF) \<and> dialog mmc (polled (busy @ [fst r])) s (snd r) \<and> \<not> sd_cs (snd r)"
proof -
  define P where "P m t x \<longleftrightarrow> \<not> sd_cs t \<longrightarrow> (\<exists>busy. (\<forall>b\<in>set busy. b \<noteq> 0xFF)
      \<and> dialog m (polled (busy @ [fst x])) t (snd x) \<and> \<not> sd_cs (snd x))"
    for m :: sd_card and t :: sd_disk and x :: "u8 \<times> sd_disk"
  have "P mmc s r"
  proof (rule wait_ready_loop.raw_induct [of P, OF _ assms(1)])
    fix loop m t x
    assume IH: "\<And>m t x. loop m t = Some x \<Longrightarrow> P m t x"
      and body: "(let (d, s) = xchg_spi m 255 t
        in if d \<noteq> 255 \<and> Timer2 s \<noteq> 0 then loop m s else Some (d, s)) = Some x"
    obtain d t1 where e: "xchg_spi m 0xFF t = (d, t1)" by fastforce
    show "P m t x"
    proof (unfold P_def, rule impI)
      assume cs: "\<not> sd_cs t"
      then have 1: "dialog m (polled [d]) t t1" "\<not> sd_cs t1" using dialog_xchg [OF e] by simp_all
      show "\<exists>busy. (\<forall>b\<in>set busy. b \<noteq> 0xFF) \<and> dialog m (polled (busy @ [fst x])) t (snd x) \<and> \<not> sd_cs (snd x)"
      proof (cases "d \<noteq> 0xFF \<and> Timer2 t1 \<noteq> 0")
        case True
        then have "loop m t1 = Some x" using body e by simp
        then obtain busy where "\<forall>b\<in>set busy. b \<noteq> 0xFF" "dialog m (polled (busy @ [fst x])) t1 (snd x)"
          "\<not> sd_cs (snd x)"
          using IH [of m t1 x] 1(2) by (auto simp only: P_def)
        then show ?thesis using True dialog_trans [OF 1(1)] by (intro exI [of _ "d # busy"]) simp
      next
        case False
        then have "x = (d, t1)" using body e by auto
        then show ?thesis using 1 by (intro exI [of _ "[]"]) simp
      qed
    qed
  qed
  then show ?thesis using assms(2) by (simp add: P_def)
qed

lemma wait_ready_sound:
  assumes "wait_ready mmc wt s = Some (True, s')" "\<not> sd_cs s"
  shows "\<exists>busy. (\<forall>b\<in>set busy. b \<noteq> 0xFF) \<and> dialog mmc (polled (busy @ [0xFF])) s s' \<and> \<not> sd_cs s'"
proof -
  obtain d where "wait_ready_loop mmc (s\<lparr>Timer2 := wt\<rparr>) = Some (d, s')" "d = 0xFF"
    using assms(1) by (auto simp: wait_ready_def bind_eq_Some_conv)
  from wait_ready_loop_sound [OF this(1)] this(2) assms(2) show ?thesis by simp
qed

lemma token_loop_sound:
  assumes "token_loop mmc s = Some r" "\<not> sd_cs s" "fst r \<noteq> 0xFF"
  shows "\<exists>n. dialog mmc (polled (replicate n 0xFF @ [fst r])) s (snd r) \<and> \<not> sd_cs (snd r)"
proof -
  define P where "P m t x \<longleftrightarrow> \<not> sd_cs t \<longrightarrow> fst x \<noteq> 0xFF \<longrightarrow>
      (\<exists>n. dialog m (polled (replicate n 0xFF @ [fst x])) t (snd x) \<and> \<not> sd_cs (snd x))"
    for m :: sd_card and t :: sd_disk and x :: "u8 \<times> sd_disk"
  have "P mmc s r"
  proof (rule token_loop.raw_induct [of P, OF _ assms(1)])
    fix loop m t x
    assume IH: "\<And>m t x. loop m t = Some x \<Longrightarrow> P m t x"
      and body: "(let (d, s) = xchg_spi m 255 t
        in if d = 255 \<and> Timer1 s \<noteq> 0 then loop m s else Some (d, s)) = Some x"
    obtain d t1 where e: "xchg_spi m 0xFF t = (d, t1)" by fastforce
    show "P m t x"
    proof (unfold P_def, intro impI)
      assume cs: "\<not> sd_cs t" and tok: "fst x \<noteq> 0xFF"
      then have 1: "dialog m (polled [d]) t t1" "\<not> sd_cs t1" using dialog_xchg [OF e] by simp_all
      show "\<exists>n. dialog m (polled (replicate n 0xFF @ [fst x])) t (snd x) \<and> \<not> sd_cs (snd x)"
      proof (cases "d = 0xFF \<and> Timer1 t1 \<noteq> 0")
        case True
        then have "loop m t1 = Some x" using body e by simp
        then obtain n where "dialog m (polled (replicate n 0xFF @ [fst x])) t1 (snd x)" "\<not> sd_cs (snd x)"
          using IH [of m t1 x] 1(2) tok by (auto simp only: P_def)
        then show ?thesis using True dialog_trans [OF 1(1)] by (intro exI [of _ "Suc n"]) simp
      next
        case False
        then have "x = (d, t1)" using body e by auto
        then show ?thesis using 1 by (intro exI [of _ 0]) simp
      qed
    qed
  qed
  then show ?thesis using assms(2,3) by (simp add: P_def)
qed

lemma response_sound:
  "response_loop mmc n s = (res, s') \<Longrightarrow> \<not> sd_cs s \<Longrightarrow>
   \<exists>pre. length pre \<le> n \<and> (\<forall>b\<in>set pre. b AND 0x80 \<noteq> 0) \<and> (res AND 0x80 = 0 \<or> length pre = n)
     \<and> dialog mmc (polled (pre @ [res])) s s' \<and> \<not> sd_cs s'"
proof (induction n arbitrary: s)
  case 0
  then show ?case using dialog_xchg [of mmc "0xFF" s res s'] by (auto intro!: exI [of _ "[]"])
next
  case (Suc n)
  obtain r s1 where x: "xchg_spi mmc 0xFF s = (r, s1)" by fastforce
  have 1: "dialog mmc (polled [r]) s s1" "\<not> sd_cs s1" using dialog_xchg [OF x] Suc.prems by simp_all
  show ?case
  proof (cases "r AND 0x80 = 0")
    case True
    then show ?thesis using Suc.prems x 1 by (intro exI [of _ "[]"]) simp
  next
    case False
    then obtain pre where "length pre \<le> n" "\<forall>b\<in>set pre. b AND 0x80 \<noteq> 0"
      "res AND 0x80 = 0 \<or> length pre = n" "dialog mmc (polled (pre @ [res])) s1 s'" "\<not> sd_cs s'"
      using Suc.IH [of s1] Suc.prems x 1 by auto
    then show ?thesis using False dialog_trans [OF 1(1)] by (intro exI [of _ "r # pre"]) simp
  qed
qed

lemma put_append: "put (bs @ bs') = put bs @ put bs'"
  by (simp add: put_def)

lemma select_sound:
  assumes "select mmc s = Some (True, s')"
  shows "\<exists>busy. (\<forall>b\<in>set busy. b \<noteq> 0xFF)
    \<and> dialog mmc (put [0xFF] @ polled (busy @ [0xFF])) s s' \<and> \<not> sd_cs s'"
proof -
  define s1 where "s1 = snd (xchg_spi mmc 0xFF (s\<lparr>sd_cs := False\<rparr>))"
  have 1: "dialog mmc (put [0xFF]) s s1" "\<not> sd_cs s1"
    using dialog_snd [of "s\<lparr>sd_cs := False\<rparr>" mmc "0xFF"] by (simp_all add: s1_def)
  have "wait_ready mmc 500 s1 = Some (True, s')"
    using assms by (auto simp: select_def Let_def bind_eq_Some_conv simp flip: s1_def split: if_splits)
  from wait_ready_sound [OF this 1(2)] dialog_trans [OF 1(1)] show ?thesis by blast
qed

lemma send_cmd_plain_sound:
  assumes c: "send_cmd_plain mmc cmd arg s = Some (res, s')" and res: "res \<noteq> 0xFF \<or> cmd = CMD12"
    and cs: "cmd = CMD12 \<longrightarrow> \<not> sd_cs s"
  shows "\<exists>q. cmd_dialog cmd arg res q \<and> dialog mmc q s s' \<and> \<not> sd_cs s'"
proof -
  define sel where "sel busy = (if cmd = CMD12 then [] else
      ((True, 0xFF), None) # put [0xFF] @ polled (busy @ [0xFF]))" for busy
  define bs where "bs = cmd_frame cmd arg @ (if cmd = CMD12 then [0xFF] else [])"
  have "\<exists>busy s1. (\<forall>b\<in>set busy. b \<noteq> 0xFF) \<and> dialog mmc (sel busy) s s1 \<and> \<not> sd_cs s1
      \<and> response_loop mmc 9 (xmit_spi_multi mmc bs s1) = (res, s')"
  proof (cases "cmd = CMD12")
    case True
    have "xmit_spi_multi mmc bs s = snd (xchg_spi mmc 0xFF (xmit_spi_multi mmc (cmd_frame cmd arg) s))"
      using True by (simp add: bs_def cmd_frame_def)
    then show ?thesis using True c cs
      by (intro exI [of _ "[]"] exI [of _ s]) (simp add: send_cmd_plain_def sel_def Let_def)
  next
    case False
    then obtain ok s1 where 1: "select mmc (deselect mmc s) = Some (ok, s1)"
      using c by (auto simp: send_cmd_plain_def bind_eq_Some_conv)
    then have ok: "ok" using False c res by (cases ok) (simp_all add: send_cmd_plain_def)
    with 1 obtain busy where busy: "\<forall>b\<in>set busy. b \<noteq> 0xFF" "\<not> sd_cs s1"
      "dialog mmc (put [0xFF] @ polled (busy @ [0xFF])) (deselect mmc s) s1"
      using select_sound [of mmc "deselect mmc s" s1] by auto
    have "dialog mmc (sel busy) s s1"
      using dialog_trans [OF dialog_deselect busy(3)] False by (simp add: sel_def)
    moreover have "response_loop mmc 9 (xmit_spi_multi mmc bs s1) = (res, s')"
      using False 1 ok c by (simp add: send_cmd_plain_def bs_def)
    ultimately show ?thesis using busy by blast
  qed
  then obtain busy s1 where 1: "\<forall>b\<in>set busy. b \<noteq> 0xFF" "dialog mmc (sel busy) s s1" "\<not> sd_cs s1"
    "response_loop mmc 9 (xmit_spi_multi mmc bs s1) = (res, s')" by blast
  note 2 = dialog_put [OF 1(3), of mmc bs]
  from response_sound [OF 1(4) 2(2)] obtain pre where 3: "length pre \<le> 9" "\<forall>b\<in>set pre. b AND 0x80 \<noteq> 0"
    "res AND 0x80 = 0 \<or> length pre = 9"
    "dialog mmc (polled (pre @ [res])) (xmit_spi_multi mmc bs s1) s'" "\<not> sd_cs s'" by blast
  have "dialog mmc (sel busy @ put bs @ polled (pre @ [res])) s s'"
    using dialog_trans [OF 1(2) dialog_trans [OF 2(1) 3(4)]] .
  moreover have "cmd_dialog cmd arg res (sel busy @ put bs @ polled (pre @ [res]))"
    using 1(1) 3(1-3) unfolding cmd_dialog_def sel_def bs_def by blast
  ultimately show ?thesis using 3(5) by blast
qed

lemma rcvr_sound:
  assumes r: "rcvr_datablock mmc buff off btr s = Some (True, b, s')" and cs: "\<not> sd_cs s"
  shows "\<exists>data q. length data = btr \<and> copy_into buff off data = Some b
    \<and> read_dialog data q \<and> dialog mmc q s s' \<and> \<not> sd_cs s'"
proof -
  obtain tok s1 where t: "token_loop mmc (s\<lparr>Timer1 := 200\<rparr>) = Some (tok, s1)" "tok = 0xFE"
    using r by (auto simp: rcvr_datablock_def bind_eq_Some_conv split: if_splits)
  obtain data s2 where d: "rcvr_spi_multi mmc btr s1 = (data, s2)" by fastforce
  have c: "copy_into buff off data = Some b"
    and s': "s' = snd (xchg_spi mmc 0xFF (snd (xchg_spi mmc 0xFF s2)))"
    using r t d by (auto simp: rcvr_datablock_def bind_eq_Some_conv Let_def)
  obtain n where 1: "dialog mmc (polled (replicate n 0xFF @ [0xFE])) s s1" "\<not> sd_cs s1"
    using token_loop_sound [OF t(1)] t(2) cs by auto
  note 2 = dialog_rcvr [OF d 1(2)]
  have "s' = xmit_spi_multi mmc [0xFF, 0xFF] s2" by (simp add: s')
  then have 3: "dialog mmc (put [0xFF, 0xFF]) s2 s'" "\<not> sd_cs s'"
    using dialog_put [of s2 mmc "[0xFF, 0xFF]"] 2 by simp_all
  have "dialog mmc (polled (replicate n 0xFF @ 0xFE # data) @ put [0xFF, 0xFF]) s s'"
    using dialog_trans [OF 1(1) dialog_trans [OF _ 3(1)], of "polled data"] 2
    by (simp add: polled_append)
  moreover have "read_dialog data (polled (replicate n 0xFF @ 0xFE # data) @ put [0xFF, 0xFF])"
    unfolding read_dialog_def by blast
  ultimately show ?thesis using c 2 3(2) by blast
qed

lemma xmit_sound:
  assumes x: "xmit_datablock mmc buff off token s = Some (True, s')" and cs: "\<not> sd_cs s"
    and token: "token \<noteq> 0xFD"
  shows "\<exists>data q. copy_from buff off 512 = Some data
    \<and> write_dialog token data q \<and> dialog mmc q s s' \<and> \<not> sd_cs s'"
proof -
  obtain s1 where w: "wait_ready mmc 500 s = Some (True, s1)"
    using x by (auto simp: xmit_datablock_def bind_eq_Some_conv split: if_splits)
  obtain busy where 1: "\<forall>b\<in>set busy. b \<noteq> 0xFF" "dialog mmc (polled (busy @ [0xFF])) s s1" "\<not> sd_cs s1"
    using wait_ready_sound [OF w cs] by blast
  obtain data where d: "copy_from buff off 512 = Some data"
    using x w token by (auto simp: xmit_datablock_def bind_eq_Some_conv Let_def)
  define s2 where "s2 = xmit_spi_multi mmc (token # data @ [0xFF, 0xFF]) s1"
  have xa: "xmit_spi_multi mmc (bs @ bs') t = xmit_spi_multi mmc bs' (xmit_spi_multi mmc bs t)" for bs bs' t
    by (induction bs arbitrary: t) auto
  obtain resp where r: "xchg_spi mmc 0xFF s2 = (resp, s')" "resp AND 0x1F = 0x05"
    using x w d token by (auto simp: xmit_datablock_def Let_def s2_def xa split: prod.splits)
  note 2 = dialog_put [OF 1(3), of mmc "token # data @ [0xFF, 0xFF]", folded s2_def]
  have 3: "dialog mmc (polled [resp]) s2 s'" "\<not> sd_cs s'" using dialog_xchg [OF r(1)] 2(2) by simp_all
  have "dialog mmc (polled (busy @ [0xFF]) @ put (token # data @ [0xFF, 0xFF]) @ polled [resp]) s s'"
    using dialog_trans [OF 1(2) dialog_trans [OF 2(1) 3(1)]] .
  then show ?thesis using d 1(1) r(2) 3(2) unfolding write_dialog_def by blast
qed

lemma stop_sound:
  assumes x: "xmit_datablock mmc buff off 0xFD s = Some (True, s')" and cs: "\<not> sd_cs s"
  shows "\<exists>q. stop_dialog q \<and> dialog mmc q s s' \<and> \<not> sd_cs s'"
proof -
  obtain s1 where w: "wait_ready mmc 500 s = Some (True, s1)" "s' = snd (xchg_spi mmc 0xFD s1)"
    using x by (auto simp: xmit_datablock_def bind_eq_Some_conv Let_def split: if_splits)
  obtain busy where 1: "\<forall>b\<in>set busy. b \<noteq> 0xFF" "dialog mmc (polled (busy @ [0xFF])) s s1" "\<not> sd_cs s1"
    using wait_ready_sound [OF w(1) cs] by blast
  note 2 = dialog_snd [OF 1(3), of mmc "0xFD", folded w(2)]
  from 1(1) dialog_trans [OF 1(2) 2(1)] 2(2) show ?thesis unfolding stop_dialog_def by blast
qed

end
