(* ===== verification/SdComplete.thy ===== *)
theory SdComplete
  imports SdProto
begin

text \<open>
  The converse direction of the protocol: when the card answers along a dialog, fast enough
  for the timers, the functions of the driver succeed along it.
\<close>

lemma xchg_says:
  assumes "says mmc (sd_sent s) [((False, d), Some r)]" "\<not> sd_cs s"
  shows "\<exists>s'. xchg_spi mmc d s = (r, s') \<and> dialog mmc [((False, d), Some r)] s s' \<and> \<not> sd_cs s'
    \<and> (Timer2 s < 65536 \<longrightarrow> Timer2 s' < 65536
         \<and> unat (Timer2 s') = unat (Timer2 s) - timer_ticks mmc (sd_sent s) [(False, d)])
    \<and> (Timer1 s < 65536 \<longrightarrow> Timer1 s' < 65536
         \<and> unat (Timer1 s') = unat (Timer1 s) - timer_ticks mmc (sd_sent s) [(False, d)])"
proof -
  obtain r' s' where x: "xchg_spi mmc d s = (r', s')" by fastforce
  have "r' = r" using xchg_run(3) [OF x] assms by simp
  then show ?thesis using x dialog_xchg [OF x] xchg_run(1,4) [OF x] assms(2)
    by (simp add: bus_run_def)
qed

lemma dialog_sent: "dialog mmc q s s' \<Longrightarrow> sd_sent s' = sd_sent s @ map fst q"
  by (simp add: dialog_def via_def)

lemma wait_ready_loop_complete:
  "says mmc (sd_sent s) (polled (busy @ [0xFF])) \<Longrightarrow> \<forall>b\<in>set busy. b \<noteq> 0xFF \<Longrightarrow> \<not> sd_cs s \<Longrightarrow>
   Timer2 s < 65536 \<Longrightarrow> timer_ticks mmc (sd_sent s) (map fst (polled busy)) < unat (Timer2 s) \<Longrightarrow>
   \<exists>s'. wait_ready_loop mmc s = Some (0xFF, s') \<and> dialog mmc (polled (busy @ [0xFF])) s s' \<and> \<not> sd_cs s'"
proof (induction busy arbitrary: s)
  case Nil
  then obtain s' where "xchg_spi mmc 0xFF s = (0xFF, s')" "dialog mmc (polled [0xFF]) s s'" "\<not> sd_cs s'"
    using xchg_says [of mmc s "0xFF" "0xFF"] by auto
  then show ?case by (subst wait_ready_loop.simps) simp
next
  case (Cons b busy)
  obtain s1 where 1: "xchg_spi mmc 0xFF s = (b, s1)" "dialog mmc (polled [b]) s s1" "\<not> sd_cs s1"
    "Timer2 s1 < 65536" "unat (Timer2 s1) = unat (Timer2 s) - timer_ticks mmc (sd_sent s) [(False, 0xFF)]"
    using xchg_says [of mmc s "0xFF" b] Cons.prems by auto
  have sent: "sd_sent s1 = sd_sent s @ [(False, 0xFF)]" using dialog_sent [OF 1(2)] by simp
  have "timer_ticks mmc (sd_sent s1) (map fst (polled busy)) < unat (Timer2 s1)"
    using Cons.prems(5) 1(5) sent by simp
  moreover from this have "Timer2 s1 \<noteq> 0" by auto
  ultimately obtain s' where 2: "wait_ready_loop mmc s1 = Some (0xFF, s')"
    "dialog mmc (polled (busy @ [0xFF])) s1 s'" "\<not> sd_cs s'"
    using Cons.IH [of s1] Cons.prems 1 sent by auto
  have "wait_ready_loop mmc s = wait_ready_loop mmc s1"
    using 1(1) Cons.prems(2) \<open>Timer2 s1 \<noteq> 0\<close> by (subst wait_ready_loop.simps) simp
  then show ?case using 2 dialog_trans [OF 1(2) 2(2)] by simp
qed

lemma token_loop_complete:
  "says mmc (sd_sent s) (polled (replicate n 0xFF @ [tok])) \<Longrightarrow> tok \<noteq> 0xFF \<Longrightarrow> \<not> sd_cs s \<Longrightarrow>
   Timer1 s < 65536 \<Longrightarrow> timer_ticks mmc (sd_sent s) (replicate n (False, 0xFF)) < unat (Timer1 s) \<Longrightarrow>
   \<exists>s'. token_loop mmc s = Some (tok, s') \<and> dialog mmc (polled (replicate n 0xFF @ [tok])) s s' \<and> \<not> sd_cs s'"
proof (induction n arbitrary: s)
  case 0
  then obtain s' where "xchg_spi mmc 0xFF s = (tok, s')" "dialog mmc (polled [tok]) s s'" "\<not> sd_cs s'"
    using xchg_says [of mmc s "0xFF" tok] by auto
  then show ?case using 0 by (subst token_loop.simps) simp
next
  case (Suc n)
  obtain s1 where 1: "xchg_spi mmc 0xFF s = (0xFF, s1)" "dialog mmc (polled [0xFF]) s s1" "\<not> sd_cs s1"
    "Timer1 s1 < 65536" "unat (Timer1 s1) = unat (Timer1 s) - timer_ticks mmc (sd_sent s) [(False, 0xFF)]"
    using xchg_says [of mmc s "0xFF" "0xFF"] Suc.prems by auto
  have sent: "sd_sent s1 = sd_sent s @ [(False, 0xFF)]" using dialog_sent [OF 1(2)] by simp
  have "timer_ticks mmc (sd_sent s1) (replicate n (False, 0xFF)) < unat (Timer1 s1)"
    using Suc.prems(5) 1(5) sent by simp
  moreover from this have "Timer1 s1 \<noteq> 0" by auto
  ultimately obtain s' where 2: "token_loop mmc s1 = Some (tok, s')"
    "dialog mmc (polled (replicate n 0xFF @ [tok])) s1 s'" "\<not> sd_cs s'"
    using Suc.IH [of s1] Suc.prems 1 sent by auto
  have "token_loop mmc s = token_loop mmc s1"
    using 1(1) \<open>Timer1 s1 \<noteq> 0\<close> by (subst token_loop.simps) simp
  then show ?case using 2 dialog_trans [OF 1(2) 2(2)] by simp
qed

lemma response_complete:
  "says mmc (sd_sent s) (polled (pre @ [res])) \<Longrightarrow> \<forall>b\<in>set pre. b AND 0x80 \<noteq> 0 \<Longrightarrow>
   res AND 0x80 = 0 \<or> length pre = n \<Longrightarrow> length pre \<le> n \<Longrightarrow> \<not> sd_cs s \<Longrightarrow>
   \<exists>s'. response_loop mmc n s = (res, s') \<and> dialog mmc (polled (pre @ [res])) s s' \<and> \<not> sd_cs s'"
proof (induction pre arbitrary: n s)
  case Nil
  then obtain s' where "xchg_spi mmc 0xFF s = (res, s')" "dialog mmc (polled [res]) s s'" "\<not> sd_cs s'"
    using xchg_says [of mmc s "0xFF" res] by auto
  then show ?case using Nil by (cases n) simp_all
next
  case (Cons b pre)
  then obtain m where n: "n = Suc m" by (cases n) auto
  obtain s1 where 1: "xchg_spi mmc 0xFF s = (b, s1)" "dialog mmc (polled [b]) s s1" "\<not> sd_cs s1"
    using xchg_says [of mmc s "0xFF" b] Cons.prems by auto
  have sent: "sd_sent s1 = sd_sent s @ [(False, 0xFF)]" using dialog_sent [OF 1(2)] by simp
  obtain s' where 2: "response_loop mmc m s1 = (res, s')" "dialog mmc (polled (pre @ [res])) s1 s'" "\<not> sd_cs s'"
    using Cons.IH [of s1 m] Cons.prems n 1 sent by auto
  then show ?case using n 1(1) Cons.prems(2) dialog_trans [OF 1(2) 2(2)] by simp
qed

lemma rcvr_multi_complete:
  "says mmc (sd_sent s) (polled bs) \<Longrightarrow> \<not> sd_cs s \<Longrightarrow>
   \<exists>s'. rcvr_spi_multi mmc (length bs) s = (bs, s') \<and> dialog mmc (polled bs) s s' \<and> \<not> sd_cs s'"
proof (induction bs arbitrary: s)
  case (Cons b bs)
  obtain s1 where 1: "xchg_spi mmc 0xFF s = (b, s1)" "dialog mmc (polled [b]) s s1" "\<not> sd_cs s1"
    using xchg_says [of mmc s "0xFF" b] Cons.prems by auto
  have sent: "sd_sent s1 = sd_sent s @ [(False, 0xFF)]" using dialog_sent [OF 1(2)] by simp
  obtain s' where 2: "rcvr_spi_multi mmc (length bs) s1 = (bs, s')" "dialog mmc (polled bs) s1 s'" "\<not> sd_cs s'"
    using Cons.IH [of s1] Cons.prems 1 sent by auto
  then show ?case using 1(1) dialog_trans [OF 1(2) 2(2)] by simp
qed simp

text \<open>A dialog that the card goes along from \<open>s\<close> in less than 200 ticks of the timer.\<close>

definition prompt :: "sd_card \<Rightarrow> sd_disk \<Rightarrow> sd_exchange list \<Rightarrow> bool" where
  "prompt mmc s q \<longleftrightarrow> says mmc (sd_sent s) q \<and> timer_ticks mmc (sd_sent s) (map fst q) < 200"

lemma prompt_appendD:
  assumes "prompt mmc s (q @ q')"
  shows "prompt mmc s q" "dialog mmc q s s' \<Longrightarrow> prompt mmc s' q'"
  using assms by (auto simp: prompt_def dialog_sent)

lemma prompt_upd [simp]:
  "prompt mmc (s\<lparr>sd_cs := c\<rparr>) q = prompt mmc s q" "prompt mmc (s\<lparr>Timer1 := t\<rparr>) q = prompt mmc s q"
  "prompt mmc (s\<lparr>Timer2 := t\<rparr>) q = prompt mmc s q"
  by (simp_all add: prompt_def)

lemma wait_ready_complete:
  assumes p: "prompt mmc s (polled (busy @ [0xFF]))" and "\<forall>b\<in>set busy. b \<noteq> 0xFF" "\<not> sd_cs s"
  shows "\<exists>s'. wait_ready mmc 500 s = Some (True, s') \<and> dialog mmc (polled (busy @ [0xFF])) s s' \<and> \<not> sd_cs s'"
proof -
  have "timer_ticks mmc (sd_sent s) (map fst (polled busy)) < 500"
    using p by (simp add: prompt_def polled_append)
  then show ?thesis using wait_ready_loop_complete [of mmc "s\<lparr>Timer2 := 500\<rparr>" busy] assms
    by (auto simp: prompt_def wait_ready_def)
qed

lemma cmd_complete:
  assumes p: "prompt mmc s q" and c: "cmd_dialog cmd arg res q"
    and cs: "cmd = CMD12 \<longrightarrow> \<not> sd_cs s" and noapp: "cmd AND 0x80 = 0"
  shows "\<exists>s'. send_cmd mmc cmd arg s = Some (res, s') \<and> dialog mmc q s s' \<and> \<not> sd_cs s'"
proof -
  define sel where "sel busy = (if cmd = CMD12 then [] else
      ((True, 0xFF), None) # put [0xFF] @ polled (busy @ [0xFF]))" for busy
  define bs where "bs = cmd_frame cmd arg @ (if cmd = CMD12 then [0xFF] else [])"
  obtain busy pre where q: "q = sel busy @ put bs @ polled (pre @ [res])"
    and busy: "\<forall>b\<in>set busy. b \<noteq> 0xFF" and pre: "length pre \<le> 9" "\<forall>b\<in>set pre. b AND 0x80 \<noteq> 0"
    and res: "res AND 0x80 = 0 \<or> length pre = 9"
    using c unfolding cmd_dialog_def sel_def bs_def by blast
  have "\<exists>s1. dialog mmc (sel busy) s s1 \<and> \<not> sd_cs s1
      \<and> send_cmd_plain mmc cmd arg s = Some (response_loop mmc 9 (xmit_spi_multi mmc bs s1))"
  proof (cases "cmd = CMD12")
    case True
    have "xmit_spi_multi mmc bs s = snd (xchg_spi mmc 0xFF (xmit_spi_multi mmc (cmd_frame cmd arg) s))"
      using True by (simp add: bs_def cmd_frame_def)
    then show ?thesis using True cs
      by (intro exI [of _ s]) (simp add: send_cmd_plain_def sel_def Let_def)
  next
    case False
    define s0 where "s0 = deselect mmc s"
    define s1 where "s1 = snd (xchg_spi mmc 0xFF (s0\<lparr>sd_cs := False\<rparr>))"
    have 0: "dialog mmc [((True, 0xFF), None)] s s0" by (simp add: s0_def dialog_deselect)
    have 1: "dialog mmc (put [0xFF]) s0 s1" "\<not> sd_cs s1"
      using dialog_snd [of "s0\<lparr>sd_cs := False\<rparr>" mmc "0xFF"] by (simp_all add: s1_def)
    have 01: "dialog mmc ([((True, 0xFF), None)] @ put [0xFF]) s s1" by (rule dialog_trans [OF 0 1(1)])
    have "prompt mmc s (([((True, 0xFF), None)] @ put [0xFF]) @ polled (busy @ [0xFF]))"
      using prompt_appendD(1) [OF p [unfolded q]] False by (simp add: sel_def)
    from prompt_appendD(2) [OF this 01] obtain s2 where
      2: "wait_ready mmc 500 s1 = Some (True, s2)" "dialog mmc (polled (busy @ [0xFF])) s1 s2" "\<not> sd_cs s2"
      using wait_ready_complete [OF _ busy 1(2)] by blast
    have "select mmc s0 = Some (True, s2)" using 2(1) by (simp add: select_def Let_def flip: s1_def)
    then show ?thesis using False 2(3) dialog_trans [OF 01 2(2)]
      by (intro exI [of _ s2]) (simp add: send_cmd_plain_def sel_def bs_def flip: s0_def)
  qed
  then obtain s1 where 1: "dialog mmc (sel busy) s s1" "\<not> sd_cs s1"
    "send_cmd_plain mmc cmd arg s = Some (response_loop mmc 9 (xmit_spi_multi mmc bs s1))" by blast
  note 2 = dialog_put [OF 1(2), of mmc bs]
  note 12 = dialog_trans [OF 1(1) 2(1)]
  have "prompt mmc s ((sel busy @ put bs) @ polled (pre @ [res]))" using p q by simp
  from prompt_appendD(2) [OF this 12] obtain s2 where
    3: "response_loop mmc 9 (xmit_spi_multi mmc bs s1) = (res, s2)"
      "dialog mmc (polled (pre @ [res])) (xmit_spi_multi mmc bs s1) s2" "\<not> sd_cs s2"
    using response_complete [OF _ pre(2) res pre(1) 2(2)] by (auto simp: prompt_def)
  then show ?thesis using 1(3) q noapp dialog_trans [OF 12 3(2)] by (simp add: send_cmd_def)
qed

lemma rcvr_complete:
  assumes p: "prompt mmc s q" and d: "read_dialog data q" and cs: "\<not> sd_cs s"
    and b: "copy_into buff off data = Some b"
  shows "\<exists>s'. rcvr_datablock mmc buff off (length data) s = Some (True, b, s')
    \<and> dialog mmc q s s' \<and> \<not> sd_cs s'"
proof -
  obtain n where q: "q = polled (replicate n 0xFF @ [0xFE]) @ polled data @ put [0xFF, 0xFF]"
    using d by (auto simp: read_dialog_def polled_append)
  have p1: "prompt mmc s (polled (replicate n 0xFF @ [0xFE]))" using p q prompt_appendD(1) by blast
  then have "timer_ticks mmc (sd_sent s) (replicate n (False, 0xFF)) < 200"
    by (simp add: prompt_def polled_append)
  then obtain s1 where 1: "token_loop mmc (s\<lparr>Timer1 := 200\<rparr>) = Some (0xFE, s1)"
    "dialog mmc (polled (replicate n 0xFF @ [0xFE])) s s1" "\<not> sd_cs s1"
    using token_loop_complete [of mmc "s\<lparr>Timer1 := 200\<rparr>" n "0xFE"] p1 cs by (auto simp: prompt_def)
  have p2: "prompt mmc s1 (polled data @ put [0xFF, 0xFF])" using prompt_appendD(2) [OF _ 1(2)] p q by blast
  then obtain s2 where 2: "rcvr_spi_multi mmc (length data) s1 = (data, s2)"
    "dialog mmc (polled data) s1 s2" "\<not> sd_cs s2"
    using rcvr_multi_complete [OF _ 1(3)] by (auto simp: prompt_def)
  note 3 = dialog_put [OF 2(3), of mmc "[0xFF, 0xFF]"]
  show ?thesis using 1(1) 2(1) b q 3(2) dialog_trans [OF 1(2) dialog_trans [OF 2(2) 3(1)]]
    by (auto simp: rcvr_datablock_def)
qed

lemma xmit_complete:
  assumes p: "prompt mmc s q" and d: "write_dialog token data q" and cs: "\<not> sd_cs s"
    and b: "copy_from buff off 512 = Some data" and token: "token \<noteq> 0xFD"
  shows "\<exists>s'. xmit_datablock mmc buff off token s = Some (True, s') \<and> dialog mmc q s s' \<and> \<not> sd_cs s'"
proof -
  define bs where "bs = token # data @ [0xFF, 0xFF]"
  obtain busy resp where q: "q = (polled (busy @ [0xFF]) @ put bs) @ polled [resp]"
    and busy: "\<forall>b\<in>set busy. b \<noteq> 0xFF" and resp: "resp AND 0x1F = 0x05"
    using d by (auto simp: write_dialog_def bs_def)
  have "prompt mmc s (polled (busy @ [0xFF]))" using p q prompt_appendD(1) by (metis append_assoc)
  from wait_ready_complete [OF this busy cs] obtain s1 where
    1: "wait_ready mmc 500 s = Some (True, s1)" "dialog mmc (polled (busy @ [0xFF])) s s1" "\<not> sd_cs s1" by blast
  note 2 = dialog_put [OF 1(3), of mmc bs]
  note 12 = dialog_trans [OF 1(2) 2(1)]
  have "prompt mmc (xmit_spi_multi mmc bs s1) (polled [resp])" using prompt_appendD(2) [OF _ 12] p q by blast
  then obtain s2 where 3: "xchg_spi mmc 0xFF (xmit_spi_multi mmc bs s1) = (resp, s2)"
    "dialog mmc (polled [resp]) (xmit_spi_multi mmc bs s1) s2" "\<not> sd_cs s2"
    using xchg_says [of mmc "xmit_spi_multi mmc bs s1" "0xFF" resp] 2(2) by (auto simp: prompt_def)
  have "xmit_spi_multi mmc bs s1 = snd (xchg_spi mmc 0xFF (snd (xchg_spi mmc 0xFF
      (xmit_spi_multi mmc data (snd (xchg_spi mmc token s1))))))"
  proof -
    have "xmit_spi_multi mmc (xs @ ys) t = xmit_spi_multi mmc ys (xmit_spi_multi mmc xs t)" for xs ys t
      by (induction xs arbitrary: t) auto
    then show ?thesis by (simp add: bs_def)
  qed
  then show ?thesis using 1(1) b token resp 3 q dialog_trans [OF 12 3(2)]
    by (simp add: xmit_datablock_def Let_def)
qed

lemma stop_complete:
  assumes p: "prompt mmc s q" and d: "stop_dialog q" and cs: "\<not> sd_cs s"
  shows "\<exists>s'. xmit_datablock mmc buff off 0xFD s = Some (True, s') \<and> dialog mmc q s s' \<and> \<not> sd_cs s'"
proof -
  obtain busy where q: "q = polled (busy @ [0xFF]) @ put [0xFD]" and busy: "\<forall>b\<in>set busy. b \<noteq> 0xFF"
    using d by (auto simp: stop_dialog_def)
  have "prompt mmc s (polled (busy @ [0xFF]))" using p q prompt_appendD(1) by blast
  from wait_ready_complete [OF this busy cs] obtain s1 where
    1: "wait_ready mmc 500 s = Some (True, s1)" "dialog mmc (polled (busy @ [0xFF])) s s1" "\<not> sd_cs s1" by blast
  note 2 = dialog_snd [OF 1(3), of mmc "0xFD"]
  show ?thesis using 1(1) 2(2) q dialog_trans [OF 1(2) 2(1)] by (simp add: xmit_datablock_def Let_def)
qed

section \<open>Several blocks\<close>

lemma read_blocks_complete:
  "read_dialogs datas q \<Longrightarrow> prompt mmc s q \<Longrightarrow> \<not> sd_cs s \<Longrightarrow> \<forall>d\<in>set datas. length d = 512 \<Longrightarrow>
   off + 512 * length datas \<le> length buff \<Longrightarrow>
   \<exists>b s'. read_blocks mmc (length datas) buff off s = Some (0, b, s')
     \<and> b = take off buff @ concat datas @ drop (off + 512 * length datas) buff
     \<and> dialog mmc q s s' \<and> \<not> sd_cs s'"
proof (induction datas arbitrary: buff off q s)
  case (Cons d datas)
  obtain q1 q2 where q: "q = q1 @ q2" "read_dialog d q1" "read_dialogs datas q2"
    using Cons.prems(1) by auto
  define b1 where "b1 = take off buff @ d @ drop (off + 512) buff"
  have len: "length d = 512" "off + 512 \<le> length buff" "length b1 = length buff"
    using Cons.prems(4,5) by (auto simp: b1_def)
  then have "copy_into buff off d = Some b1" by (simp add: copy_into_def b1_def)
  from rcvr_complete [OF _ q(2) Cons.prems(3) this] obtain s1 where
    1: "rcvr_datablock mmc buff off 512 s = Some (True, b1, s1)" "dialog mmc q1 s s1" "\<not> sd_cs s1"
    using Cons.prems(2) prompt_appendD(1) q(1) len(1) by metis
  obtain b s' where 2: "read_blocks mmc (length datas) b1 (off + 512) s1 = Some (0, b, s')"
    "b = take (off + 512) b1 @ concat datas @ drop (off + 512 + 512 * length datas) b1"
    "dialog mmc q2 s1 s'" "\<not> sd_cs s'"
    using Cons.IH [OF q(3) prompt_appendD(2) [OF Cons.prems(2) [unfolded q(1)] 1(2)] 1(3), of "off + 512" b1]
      Cons.prems(4,5) len(3) by auto
  have e: "off + 512 * length (d # datas) = off + 512 + 512 * length datas" by simp
  have "b = take off buff @ concat (d # datas) @ drop (off + 512 * length (d # datas)) buff"
    unfolding e 2(2) using len(1,2) by (simp add: b1_def add.commute)
  then show ?case using 1(1) 2(1,4) q(1) dialog_trans [OF 1(2) 2(3)] by simp
qed simp

lemma write_blocks_complete:
  "write_dialogs datas q \<Longrightarrow> prompt mmc s q \<Longrightarrow> \<not> sd_cs s \<Longrightarrow>
   \<forall>i<length datas. copy_from buff (off + 512 * i) 512 = Some (datas ! i) \<Longrightarrow>
   \<exists>s'. write_blocks mmc (length datas) buff off s = Some (0, s') \<and> dialog mmc q s s' \<and> \<not> sd_cs s'"
proof (induction datas arbitrary: off q s)
  case (Cons d datas)
  obtain q1 q2 where q: "q = q1 @ q2" "write_dialog 0xFC d q1" "write_dialogs datas q2"
    using Cons.prems(1) by auto
  have "copy_from buff off 512 = Some d" using Cons.prems(4) by force
  from xmit_complete [OF _ q(2) Cons.prems(3) this] obtain s1 where
    1: "xmit_datablock mmc buff off 0xFC s = Some (True, s1)" "dialog mmc q1 s s1" "\<not> sd_cs s1"
    using prompt_appendD(1) [OF Cons.prems(2) [unfolded q(1)]] by auto
  have "\<forall>i<length datas. copy_from buff (off + 512 + 512 * i) 512 = Some (datas ! i)"
  proof (intro allI impI)
    fix i assume "i < length datas"
    then show "copy_from buff (off + 512 + 512 * i) 512 = Some (datas ! i)"
      using Cons.prems(4) [rule_format, of "Suc i"] by (simp add: add.assoc)
  qed
  from Cons.IH [OF q(3) prompt_appendD(2) [OF Cons.prems(2) [unfolded q(1)] 1(2)] 1(3) this]
  obtain s' where "write_blocks mmc (length datas) buff (off + 512) s1 = Some (0, s')"
    "dialog mmc q2 s1 s'" "\<not> sd_cs s'" by blast
  then show ?case using 1(1) q(1) dialog_trans [OF 1(2)] by auto
qed simp

end
