(* ===== verification/SdProps.thy ===== *)
theory SdProps
  imports SdComplete
begin

text \<open>
  The properties of the card driver: its operations return when the timer runs and hang when it
  does not, a successful transfer means that the card has sent or accepted every block, a card
  that follows the protocol is read and written, and the capacity is the one of the register.
\<close>

section \<open>Several blocks\<close>

lemma read_blocks_sound:
  "read_blocks mmc n buff off s = Some (0, b, s') \<Longrightarrow> \<not> sd_cs s \<Longrightarrow> off \<le> length buff \<Longrightarrow>
   \<exists>datas q. length datas = n \<and> (\<forall>d\<in>set datas. length d = 512) \<and> off + 512 * n \<le> length buff
     \<and> b = take off buff @ concat datas @ drop (off + 512 * n) buff
     \<and> read_dialogs datas q \<and> dialog mmc q s s' \<and> \<not> sd_cs s'"
proof (induction n arbitrary: buff off s)
  case 0
  then show ?case by (intro exI [of _ "[]"] exI [of _ "[]"]) simp
next
  case (Suc n)
  obtain b1 s1 where r: "rcvr_datablock mmc buff off 512 s = Some (True, b1, s1)"
    and rest: "read_blocks mmc n b1 (off + 512) s1 = Some (0, b, s')"
    using Suc.prems(1) by (auto simp: bind_eq_Some_conv split: if_splits)
  obtain d q1 where 1: "length d = 512" "copy_into buff off d = Some b1" "read_dialog d q1"
    "dialog mmc q1 s s1" "\<not> sd_cs s1"
    using rcvr_sound [OF r Suc.prems(2)] by blast
  have len: "off + 512 \<le> length buff" and b1: "b1 = take off buff @ d @ drop (off + 512) buff"
    using 1(1,2) by (auto simp: copy_into_def split: if_splits)
  then have "off + 512 \<le> length b1" using 1(1) by simp
  from Suc.IH [OF rest 1(5) this] obtain datas q2 where
    2: "length datas = n" "\<forall>d\<in>set datas. length d = 512" "off + 512 + 512 * n \<le> length b1"
      "b = take (off + 512) b1 @ concat datas @ drop (off + 512 + 512 * n) b1"
      "read_dialogs datas q2" "dialog mmc q2 s1 s'" "\<not> sd_cs s'" by blast
  have e: "off + 512 * Suc n = off + 512 + 512 * n" by simp
  have "b = take off buff @ concat (d # datas) @ drop (off + 512 * Suc n) buff"
    unfolding e using 2(4) b1 len 1(1) by (simp add: add.commute)
  moreover have "read_dialogs (d # datas) (q1 @ q2)" using 1(3) 2(5) by auto
  ultimately show ?case
    using 1(1) 2 b1 len dialog_trans [OF 1(4) 2(6)]
    by (intro exI [of _ "d # datas"] exI [of _ "q1 @ q2"]) auto
qed

lemma write_blocks_sound:
  "write_blocks mmc n buff off s = Some (0, s') \<Longrightarrow> \<not> sd_cs s \<Longrightarrow>
   \<exists>datas q. length datas = n \<and> (\<forall>i<n. copy_from buff (off + 512 * i) 512 = Some (datas ! i))
     \<and> write_dialogs datas q \<and> dialog mmc q s s' \<and> \<not> sd_cs s'"
proof (induction n arbitrary: off s)
  case 0
  then show ?case by (intro exI [of _ "[]"] exI [of _ "[]"]) simp
next
  case (Suc n)
  obtain s1 where x: "xmit_datablock mmc buff off 0xFC s = Some (True, s1)"
    and rest: "write_blocks mmc n buff (off + 512) s1 = Some (0, s')"
    using Suc.prems(1) by (auto simp: bind_eq_Some_conv split: if_splits)
  obtain d q1 where 1: "copy_from buff off 512 = Some d" "write_dialog 0xFC d q1"
    "dialog mmc q1 s s1" "\<not> sd_cs s1"
    using xmit_sound [OF x Suc.prems(2)] by auto
  from Suc.IH [OF rest 1(4)] obtain datas q2 where
    2: "length datas = n" "\<forall>i<n. copy_from buff (off + 512 + 512 * i) 512 = Some (datas ! i)"
      "write_dialogs datas q2" "dialog mmc q2 s1 s'" "\<not> sd_cs s'" by blast
  have "\<forall>i<Suc n. copy_from buff (off + 512 * i) 512 = Some ((d # datas) ! i)"
    using 1(1) 2(2) by (auto simp: less_Suc_eq_0_disj add.assoc)
  moreover have "write_dialogs (d # datas) (q1 @ q2)" using 1(2) 2(3) by auto
  ultimately show ?case
    using 2 dialog_trans [OF 1(3) 2(4)]
    by (intro exI [of _ "d # datas"] exI [of _ "q1 @ q2"]) auto
qed

lemma copy_from_length: "copy_from src off n = Some d \<Longrightarrow> length d = n"
  by (auto simp: copy_from_def split: if_splits)

text \<open>The blocks that are sent make up the buffer.\<close>

lemma blocks_concat:
  "(\<forall>i<length datas. copy_from buff (off + 512 * i) 512 = Some (datas ! i)) \<Longrightarrow> off \<le> length buff \<Longrightarrow>
   concat datas = take (512 * length datas) (drop off buff) \<and> off + 512 * length datas \<le> length buff"
proof (induction datas arbitrary: off)
  case (Cons d datas)
  have 0: "copy_from buff off 512 = Some d" using Cons.prems(1) by force
  then have d: "d = take 512 (drop off buff)" and len: "off + 512 \<le> length buff"
    by (auto simp: copy_from_def split: if_splits)
  have "\<forall>i<length datas. copy_from buff (off + 512 + 512 * i) 512 = Some (datas ! i)"
  proof (intro allI impI)
    fix i assume "i < length datas"
    then show "copy_from buff (off + 512 + 512 * i) 512 = Some (datas ! i)"
      using Cons.prems(1) [rule_format, of "Suc i"] by (simp add: add.assoc)
  qed
  from Cons.IH [OF this len] show ?case using d
    by (simp add: take_add add.commute add.left_commute)
qed simp

lemma send_cmd_sound:
  assumes "send_cmd mmc cmd arg s = Some (res, s')" "res \<noteq> 0xFF \<or> cmd = CMD12" "cmd AND 0x80 = 0"
    and "cmd = CMD12 \<longrightarrow> \<not> sd_cs s"
  shows "\<exists>q. cmd_dialog cmd arg res q \<and> dialog mmc q s s' \<and> \<not> sd_cs s'"
  using assms send_cmd_plain_sound [of mmc cmd arg s res s'] by (simp add: send_cmd_def)

lemma cmd_no_app [simp]:
  "CMD17 AND 0x80 = 0" "CMD18 AND 0x80 = 0" "CMD24 AND 0x80 = 0" "CMD25 AND 0x80 = 0" "CMD12 AND 0x80 = 0"
  "CMD17 \<noteq> CMD12" "CMD18 \<noteq> CMD12" "CMD24 \<noteq> CMD12" "CMD25 \<noteq> CMD12"
  by (simp_all add: CMD17_def CMD18_def CMD24_def CMD25_def CMD12_def)

section \<open>Transfers\<close>

text \<open>The dialogs of a whole transfer; the driver stops a transfer of several blocks.\<close>

definition sd_read_dialog :: "u32 \<Rightarrow> bytes list \<Rightarrow> sd_exchange list \<Rightarrow> bool" where
  "sd_read_dialog addr datas q \<longleftrightarrow>
     (\<exists>q1 q2 q3. q = q1 @ q2 @ q3 \<and> cmd_dialog (if length datas = 1 then CMD17 else CMD18) addr 0 q1
        \<and> read_dialogs datas q2
        \<and> (if length datas = 1 then q3 = [] else \<exists>res. cmd_dialog CMD12 0 res q3))"

definition sd_write_dialog :: "u32 \<Rightarrow> bytes list \<Rightarrow> sd_exchange list \<Rightarrow> bool" where
  "sd_write_dialog addr datas q \<longleftrightarrow>
     (\<exists>q1 q2 q3. q = q1 @ q2 @ q3 \<and> cmd_dialog (if length datas = 1 then CMD24 else CMD25) addr 0 q1
        \<and> (if length datas = 1 then write_dialog 0xFE (hd datas) q2 \<and> q3 = []
           else write_dialogs datas q2 \<and> stop_dialog q3))"

lemma unat_is_one: "unat (w :: u32) = 1 \<longleftrightarrow> w = 1"
  by (metis unat_1 word_unat_eq_iff)

text \<open>C21: When a read succeeds, whatever the card is, it has acknowledged the command with the
  sector's address and has sent every block of the result behind a data token.\<close>

theorem sd_read_sound:
  assumes r: "SD_disk_read mmc buff sector count s = Some (RES_OK, b, s')"
  shows "count \<noteq> 0 \<and> sd_Stat s AND STA_NOINIT = 0 \<and> 512 * unat count \<le> length buff
    \<and> (\<exists>datas q. length datas = unat count \<and> (\<forall>d\<in>set datas. length d = 512)
         \<and> b = concat datas @ drop (512 * unat count) buff
         \<and> sd_read_dialog (sd_address s sector) datas q
         \<and> dialog mmc (q @ [((True, 0xFF), None)]) s s')"
proof -
  have ok: "count \<noteq> 0" "sd_Stat s AND STA_NOINIT = 0"
    using r by (auto simp: SD_disk_read_def split: if_splits)
  define addr where "addr = sd_address s sector"
  have "\<exists>datas q s1. length datas = unat count \<and> (\<forall>d\<in>set datas. length d = 512)
      \<and> 512 * unat count \<le> length buff \<and> b = concat datas @ drop (512 * unat count) buff
      \<and> sd_read_dialog addr datas q \<and> dialog mmc q s s1 \<and> s' = deselect mmc s1"
  proof (cases "count = 1")
    case True
    obtain s1 s2 where 1: "send_cmd mmc CMD17 addr s = Some (0, s1)"
      "rcvr_datablock mmc buff 0 512 s1 = Some (True, b, s2)" "s' = deselect mmc s2"
      using r ok True by (auto simp: SD_disk_read_def bind_eq_Some_conv addr_def split: if_splits)
    obtain q1 where q1: "cmd_dialog CMD17 addr 0 q1" "dialog mmc q1 s s1" "\<not> sd_cs s1"
      using send_cmd_sound [OF 1(1)] by auto
    obtain d q2 where q2: "length d = 512" "copy_into buff 0 d = Some b" "read_dialog d q2"
      "dialog mmc q2 s1 s2"
      using rcvr_sound [OF 1(2) q1(3)] by blast
    have "sd_read_dialog addr [d] (q1 @ q2)"
      using q1(1) q2(3) by (auto simp: sd_read_dialog_def)
    then show ?thesis using True q2 1(3) dialog_trans [OF q1(2) q2(4)]
      by (intro exI [of _ "[d]"] exI [of _ "q1 @ q2"] exI [of _ s2])
        (auto simp: copy_into_def split: if_splits)
  next
    case False
    obtain s1 s2 r3 s3 where 1: "send_cmd mmc CMD18 addr s = Some (0, s1)"
      "read_blocks mmc (unat count) buff 0 s1 = Some (0, b, s2)"
      "send_cmd mmc CMD12 0 s2 = Some (r3, s3)" "s' = deselect mmc s3"
      using r ok False
      by (auto simp: SD_disk_read_def bind_eq_Some_conv addr_def unat_eq_zero split: if_splits)
    obtain q1 where q1: "cmd_dialog CMD18 addr 0 q1" "dialog mmc q1 s s1" "\<not> sd_cs s1"
      using send_cmd_sound [OF 1(1)] by auto
    obtain datas q2 where q2: "length datas = unat count" "\<forall>d\<in>set datas. length d = 512"
      "512 * unat count \<le> length buff" "b = concat datas @ drop (512 * unat count) buff"
      "read_dialogs datas q2" "dialog mmc q2 s1 s2" "\<not> sd_cs s2"
      using read_blocks_sound [OF 1(2) q1(3)] by auto
    obtain q3 where q3: "cmd_dialog CMD12 0 r3 q3" "dialog mmc q3 s2 s3"
      using send_cmd_sound [OF 1(3)] q2(7) by auto
    have "length datas \<noteq> 1" using q2(1) False unat_is_one by metis
    then have "sd_read_dialog addr datas (q1 @ q2 @ q3)"
      using q1(1) q2(5) q3(1) unfolding sd_read_dialog_def by auto
    then show ?thesis using q2(1-4) 1(4) dialog_trans [OF q1(2) dialog_trans [OF q2(6) q3(2)]] by blast
  qed
  then obtain datas q s1 where *: "length datas = unat count" "\<forall>d\<in>set datas. length d = 512"
    "512 * unat count \<le> length buff" "b = concat datas @ drop (512 * unat count) buff"
    "sd_read_dialog addr datas q" "dialog mmc q s s1" "s' = deselect mmc s1" by blast
  have "dialog mmc (q @ [((True, 0xFF), None)]) s s'"
    unfolding *(7) by (rule dialog_trans [OF *(6) dialog_deselect])
  then show ?thesis using ok * unfolding addr_def by blast
qed

text \<open>Several blocks are announced to a card that the driver takes for an SD card.\<close>

definition announces :: "sd_card \<Rightarrow> u32 \<Rightarrow> sd_disk \<Rightarrow> sd_disk \<Rightarrow> bool" where
  "announces mmc count s s0 \<longleftrightarrow>
     (if count \<noteq> 1 \<and> CardType s AND CT_SDC \<noteq> 0 then map_option snd (send_cmd mmc ACMD23 count s) = Some s0
      else s0 = s)"

text \<open>C22: When a write succeeds, whatever the card is, it has accepted every block of the buffer, sent
  with the sector's address, and several blocks have been closed with the stop token.\<close>

theorem sd_write_sound:
  assumes w: "SD_disk_write mmc buff sector count s = Some (RES_OK, s')"
  shows "count \<noteq> 0 \<and> sd_Stat s AND STA_NOINIT = 0 \<and> sd_Stat s AND STA_PROTECT = 0
    \<and> 512 * unat count \<le> length buff
    \<and> (\<exists>datas q s0. length datas = unat count \<and> (\<forall>d\<in>set datas. length d = 512)
         \<and> concat datas = take (512 * unat count) buff
         \<and> sd_write_dialog (sd_address s sector) datas q
         \<and> announces mmc count s s0
         \<and> dialog mmc (q @ [((True, 0xFF), None)]) s0 s')"
proof -
  have ok: "count \<noteq> 0" "sd_Stat s AND STA_NOINIT = 0" "sd_Stat s AND STA_PROTECT = 0"
    using w by (auto simp: SD_disk_write_def split: if_splits)
  define addr where "addr = sd_address s sector"
  have "\<exists>datas q s0 s1. length datas = unat count
      \<and> (\<forall>i<length datas. copy_from buff (0 + 512 * i) 512 = Some (datas ! i))
      \<and> sd_write_dialog addr datas q
      \<and> announces mmc count s s0
      \<and> dialog mmc q s0 s1 \<and> s' = deselect mmc s1"
  proof (cases "count = 1")
    case True
    obtain s1 s2 where 1: "send_cmd mmc CMD24 addr s = Some (0, s1)"
      "xmit_datablock mmc buff 0 0xFE s1 = Some (True, s2)" "s' = deselect mmc s2"
      using w ok True by (auto simp: SD_disk_write_def bind_eq_Some_conv addr_def split: if_splits)
    obtain q1 where q1: "cmd_dialog CMD24 addr 0 q1" "dialog mmc q1 s s1" "\<not> sd_cs s1"
      using send_cmd_sound [OF 1(1)] by auto
    obtain d q2 where q2: "copy_from buff 0 512 = Some d" "write_dialog 0xFE d q2" "dialog mmc q2 s1 s2"
      using xmit_sound [OF 1(2) q1(3)] by auto
    have "sd_write_dialog addr [d] (q1 @ q2)"
      using q1(1) q2(2) by (auto simp: sd_write_dialog_def)
    then show ?thesis using True q2(1) 1(3) dialog_trans [OF q1(2) q2(3)]
      by (intro exI [of _ "[d]"] exI [of _ "q1 @ q2"] exI [of _ s] exI [of _ s2]) (auto simp: announces_def)
  next
    case False
    obtain s0 s1 s2 s3 where 0: "(if CardType s AND CT_SDC \<noteq> 0
        then map_option snd (send_cmd mmc ACMD23 count s) else Some s) = Some s0"
      and 1: "send_cmd mmc CMD25 addr s0 = Some (0, s1)"
      "write_blocks mmc (unat count) buff 0 s1 = Some (0, s2)"
      "xmit_datablock mmc [] 0 0xFD s2 = Some (True, s3)" "s' = deselect mmc s3"
      using w ok False
      by (auto simp: SD_disk_write_def bind_eq_Some_conv addr_def unat_eq_zero split: if_splits)
    have ann: "announces mmc count s s0" using 0 False by (auto simp: announces_def)
    obtain q1 where q1: "cmd_dialog CMD25 addr 0 q1" "dialog mmc q1 s0 s1" "\<not> sd_cs s1"
      using send_cmd_sound [OF 1(1)] by auto
    obtain datas q2 where q2: "length datas = unat count"
      "\<forall>i<unat count. copy_from buff (0 + 512 * i) 512 = Some (datas ! i)"
      "write_dialogs datas q2" "dialog mmc q2 s1 s2" "\<not> sd_cs s2"
      using write_blocks_sound [OF 1(2) q1(3)] by blast
    obtain q3 where q3: "stop_dialog q3" "dialog mmc q3 s2 s3"
      using stop_sound [OF 1(3) q2(5)] by blast
    have "length datas \<noteq> 1" using q2(1) False unat_is_one by metis
    then have "sd_write_dialog addr datas (q1 @ q2 @ q3)"
      using q1(1) q2(3) q3(1) unfolding sd_write_dialog_def by auto
    then show ?thesis using ann q2(1,2) 1(4) dialog_trans [OF q1(2) dialog_trans [OF q2(4) q3(2)]]
      by (intro exI [of _ datas] exI [of _ "q1 @ q2 @ q3"] exI [of _ s0] exI [of _ s3]) simp
  qed
  then obtain datas q s0 s1 where *: "length datas = unat count"
    "\<forall>i<length datas. copy_from buff (0 + 512 * i) 512 = Some (datas ! i)"
    "sd_write_dialog addr datas q" "announces mmc count s s0"
    "dialog mmc q s0 s1" "s' = deselect mmc s1" by blast
  have "\<forall>d\<in>set datas. length d = 512"
    using *(2) copy_from_length by (metis in_set_conv_nth)
  moreover have "concat datas = take (512 * unat count) buff" "512 * unat count \<le> length buff"
    using blocks_concat [OF *(2)] *(1) by simp_all
  moreover have "dialog mmc (q @ [((True, 0xFF), None)]) s0 s'"
    unfolding *(6) by (rule dialog_trans [OF *(5) dialog_deselect])
  ultimately show ?thesis using ok * unfolding addr_def by blast
qed

lemma sd_read_complete:
  assumes d: "sd_read_dialog (sd_address s sector) datas q" and p: "prompt mmc s q"
    and n: "length datas = unat count" "count \<noteq> 0" and d512: "\<forall>d\<in>set datas. length d = 512"
    and len: "512 * unat count \<le> length buff" and st: "sd_Stat s AND STA_NOINIT = 0"
  shows "\<exists>s'. SD_disk_read mmc buff sector count s
      = Some (RES_OK, concat datas @ drop (512 * unat count) buff, s')
    \<and> dialog mmc (q @ [((True, 0xFF), None)]) s s'"
proof (cases "count = 1")
  case True
  then obtain d where ds: "datas = [d]" "length d = 512" using n(1) d512 by (cases datas) auto
  obtain q1 q2 where q: "q = q1 @ q2" "cmd_dialog CMD17 (sd_address s sector) 0 q1" "read_dialog d q2"
    using d ds by (auto simp: sd_read_dialog_def)
  obtain s1 where 1: "send_cmd mmc CMD17 (sd_address s sector) s = Some (0, s1)" "dialog mmc q1 s s1" "\<not> sd_cs s1"
    using cmd_complete [OF prompt_appendD(1) [OF p [unfolded q(1)]] q(2)] by auto
  have "copy_into buff 0 d = Some (d @ drop 512 buff)" using len True ds by (simp add: copy_into_def)
  from rcvr_complete [OF prompt_appendD(2) [OF p [unfolded q(1)] 1(2)] q(3) 1(3) this]
  obtain s2 where 2: "rcvr_datablock mmc buff 0 512 s1 = Some (True, d @ drop 512 buff, s2)" "dialog mmc q2 s1 s2"
    using ds by auto
  show ?thesis using True st 1(1) 2(1) ds q(1)
      dialog_trans [OF dialog_trans [OF 1(2) 2(2)] dialog_deselect]
    by (simp add: SD_disk_read_def)
next
  case False
  then have n1: "length datas \<noteq> 1" using n(1) unat_is_one by metis
  then obtain q1 q2 q3 res where q: "q = q1 @ q2 @ q3" "cmd_dialog CMD18 (sd_address s sector) 0 q1"
    "read_dialogs datas q2" "cmd_dialog CMD12 0 res q3"
    using d by (auto simp: sd_read_dialog_def)
  obtain s1 where 1: "send_cmd mmc CMD18 (sd_address s sector) s = Some (0, s1)" "dialog mmc q1 s s1" "\<not> sd_cs s1"
    using cmd_complete [OF prompt_appendD(1) [OF p [unfolded q(1)]] q(2)] by auto
  note p23 = prompt_appendD(2) [OF p [unfolded q(1)] 1(2)]
  obtain s2 where 2: "read_blocks mmc (unat count) buff 0 s1
      = Some (0, concat datas @ drop (512 * unat count) buff, s2)" "dialog mmc q2 s1 s2" "\<not> sd_cs s2"
    using read_blocks_complete [OF q(3) prompt_appendD(1) [OF p23] 1(3) d512, of 0 buff] n(1) len by auto
  obtain s3 where 3: "send_cmd mmc CMD12 0 s2 = Some (res, s3)" "dialog mmc q3 s2 s3"
    using cmd_complete [OF prompt_appendD(2) [OF p23 2(2)] q(4)] 2(3) by auto
  show ?thesis using False st n(2) 1(1) 2(1) 3(1) q(1)
      dialog_trans [OF dialog_trans [OF 1(2) dialog_trans [OF 2(2) 3(2)]] dialog_deselect]
    by (simp add: SD_disk_read_def)
qed

lemma sd_write_complete:
  assumes d: "sd_write_dialog (sd_address s sector) datas q" and p: "prompt mmc s0 q"
    and a: "announces mmc count s s0"
    and n: "length datas = unat count" "count \<noteq> 0"
    and data: "\<forall>i<length datas. copy_from buff (512 * i) 512 = Some (datas ! i)"
    and st: "sd_Stat s AND STA_NOINIT = 0" "sd_Stat s AND STA_PROTECT = 0"
  shows "\<exists>s'. SD_disk_write mmc buff sector count s = Some (RES_OK, s')
    \<and> dialog mmc (q @ [((True, 0xFF), None)]) s0 s'"
proof (cases "count = 1")
  case True
  then obtain d where ds: "datas = [d]" using n(1) by (cases datas) auto
  have s0: "s0 = s" using a True by (simp add: announces_def)
  obtain q1 q2 where q: "q = q1 @ q2" "cmd_dialog CMD24 (sd_address s sector) 0 q1" "write_dialog 0xFE d q2"
    using d ds by (auto simp: sd_write_dialog_def)
  obtain s1 where 1: "send_cmd mmc CMD24 (sd_address s sector) s = Some (0, s1)" "dialog mmc q1 s s1" "\<not> sd_cs s1"
    using cmd_complete [OF prompt_appendD(1) [OF p [unfolded q(1) s0]] q(2)] by auto
  have "copy_from buff 0 512 = Some d" using data ds by simp
  from xmit_complete [OF prompt_appendD(2) [OF p [unfolded q(1) s0] 1(2)] q(3) 1(3) this]
  obtain s2 where 2: "xmit_datablock mmc buff 0 0xFE s1 = Some (True, s2)" "dialog mmc q2 s1 s2"
    by auto
  show ?thesis using True st 1(1) 2(1) q(1) s0
      dialog_trans [OF dialog_trans [OF 1(2) 2(2)] dialog_deselect]
    by (simp add: SD_disk_write_def)
next
  case False
  then have n1: "length datas \<noteq> 1" using n(1) unat_is_one by metis
  then obtain q1 q2 q3 where q: "q = q1 @ q2 @ q3" "cmd_dialog CMD25 (sd_address s sector) 0 q1"
    "write_dialogs datas q2" "stop_dialog q3"
    using d by (auto simp: sd_write_dialog_def)
  have s0: "(if CardType s AND CT_SDC \<noteq> 0 then map_option snd (send_cmd mmc ACMD23 count s) else Some s) = Some s0"
    using a False by (auto simp: announces_def)
  obtain s1 where 1: "send_cmd mmc CMD25 (sd_address s sector) s0 = Some (0, s1)" "dialog mmc q1 s0 s1" "\<not> sd_cs s1"
    using cmd_complete [OF prompt_appendD(1) [OF p [unfolded q(1)]] q(2)] by auto
  note p23 = prompt_appendD(2) [OF p [unfolded q(1)] 1(2)]
  obtain s2 where 2: "write_blocks mmc (unat count) buff 0 s1 = Some (0, s2)" "dialog mmc q2 s1 s2" "\<not> sd_cs s2"
    using write_blocks_complete [OF q(3) prompt_appendD(1) [OF p23] 1(3), of buff 0] n(1) data by auto
  obtain s3 where 3: "xmit_datablock mmc [] 0 0xFD s2 = Some (True, s3)" "dialog mmc q3 s2 s3"
    using stop_complete [OF prompt_appendD(2) [OF p23 2(2)] q(4) 2(3)] by blast
  show ?thesis using False st n(2) s0 1(1) 2(1) 3(1) q(1)
      dialog_trans [OF dialog_trans [OF 1(2) dialog_trans [OF 2(2) 3(2)]] dialog_deselect]
    by (simp add: SD_disk_write_def)
qed

section \<open>The capacity\<close>

text \<open>Bits \<open>hi\<close> to \<open>lo\<close> of the register, which is sent with its most significant byte first.\<close>

definition csd_field :: "bytes \<Rightarrow> nat \<Rightarrow> nat \<Rightarrow> nat" where
  "csd_field csd hi lo = foldl (\<lambda>a b. 256 * a + unat b) 0 csd div 2 ^ lo mod 2 ^ (hi - lo + 1)"

lemma foldl_bytes_append:
  "foldl (\<lambda>a b. 256 * a + unat (b :: u8)) x (xs @ ys)
     = foldl (\<lambda>a b. 256 * a + unat b) x xs * 256 ^ length ys + foldl (\<lambda>a b. 256 * a + unat b) 0 ys"
proof (induction ys arbitrary: x rule: rev_induct)
  case (snoc y ys)
  then show ?case by (simp flip: append_assoc add: algebra_simps)
qed simp

lemma foldl_bytes_less: "foldl (\<lambda>a b. 256 * a + unat (b :: u8)) 0 ys < 256 ^ length ys"
proof (induction ys rule: rev_induct)
  case (snoc y ys)
  have "unat y < 256" using unsigned_less [of y] by simp
  then show ?case using snoc by simp
qed simp

lemma foldl_bytes_div:
  "foldl (\<lambda>a b. 256 * a + unat (b :: u8)) 0 (xs @ ys) div 256 ^ length ys
     = foldl (\<lambda>a b. 256 * a + unat b) 0 xs"
  unfolding foldl_bytes_append using foldl_bytes_less [of ys] by simp

lemma csd_field_prefix:
  assumes "csd = xs @ ys" "k = 8 * length ys"
  shows "csd_field csd (k + hi) (k + lo) = csd_field xs hi lo"
proof -
  have "(2::nat) ^ (k + lo) = 256 ^ length ys * 2 ^ lo" by (simp add: assms(2) power_add power_mult)
  then show ?thesis unfolding csd_field_def assms(1)
    by (simp only: div_mult2_eq foldl_bytes_div) simp
qed

lemma list_16:
  assumes "length (xs :: 'a list) = 16"
  obtains a b c d e f g h i j k l m n p q where "xs = [a, b, c, d, e, f, g, h, i, j, k, l, m, n, p, q]"
  using assms by (auto simp: eval_nat_numeral length_Suc_conv)

lemma byte_less: "unat (c :: u8) < 256"
  using unsigned_less [of c, where 'a = nat] by simp

lemma byte_and_unat:
  "unat (c AND 63) = unat c mod 64" "unat (c AND 15) = unat c mod 16" "unat (c AND 3) = unat c mod 4"
  "unat (drop_bit 6 c) = unat c div 64" "unat (drop_bit 7 (c AND 128)) = unat c div 128"
  for c :: u8
proof -
  have m: "unat (x AND mask n) = unat x mod 2 ^ n" for n and x :: u8
    by (simp flip: take_bit_eq_mask add: unsigned_take_bit_eq) (simp add: take_bit_eq_mod)
  show "unat (c AND 63) = unat c mod 64" "unat (c AND 15) = unat c mod 16" "unat (c AND 3) = unat c mod 4"
    using m [of c 6] m [of c 4] m [of c 2] by (simp_all add: mask_eq_exp_minus_1)
  have d: "unat (drop_bit n c) = unat c div 2 ^ n" for n
    using byte_less [of c] by (simp add: unsigned_drop_bit_eq) (simp add: drop_bit_eq_div take_bit_nat_eq_self)
  show "unat (drop_bit 6 c) = unat c div 64" using d [of 6] by simp
  have "drop_bit 7 (c AND 128) = drop_bit 7 c AND mask 1" by (simp add: mask_eq_exp_minus_1)
  moreover have "unat (drop_bit 7 c AND mask 1) = unat (drop_bit 7 c) mod 2 ^ 1" by (rule m)
  moreover have "unat (drop_bit 7 c) = unat c div 128" using d [of 7] by simp
  moreover have "unat c div 128 < 2" using byte_less [of c] by simp
  ultimately show "unat (drop_bit 7 (c AND 128)) = unat c div 128" by simp
qed

lemma u32_of_bytes:
  "(ucast (a :: u8) :: u32) = of_nat (unat a)" "push_bit n (of_nat x :: u32) = of_nat (2 ^ n * x)"
  by (simp_all add: push_bit_of_nat push_bit_eq_mult mult.commute)

text \<open>The parts of the register that the driver combines.\<close>

lemma csd_v2_size:
  "csd_field [c0, c1, c2, c3, c4, c5, c6, c7, c8, c9, c10, c11, c12, c13, c14, c15] 69 48
     = unat c9 + 256 * unat c8 + 65536 * (unat c7 mod 64)"
proof -
  have b: "unat c9 < 256" "unat c8 < 256" using unsigned_less [of c9] unsigned_less [of c8] by simp_all
  define r where "r = unat c7 mod 64"
  obtain k where k: "unat c7 = 64 * k + r" unfolding r_def by (metis mult_div_mod_eq)
  have "csd_field [c0, c1, c2, c3, c4, c5, c6, c7, c8, c9, c10, c11, c12, c13, c14, c15] 69 48
      = csd_field [c0, c1, c2, c3, c4, c5, c6, c7, c8, c9] 21 0"
    using csd_field_prefix [of _ "[c0, c1, c2, c3, c4, c5, c6, c7, c8, c9]" "[c10, c11, c12, c13, c14, c15]" 48 21 0]
    by simp
  also have "\<dots> = ((foldl (\<lambda>a b. 256 * a + unat b) 0 [c0, c1, c2, c3, c4, c5, c6] * 4 + k) * 4194304
      + (unat c9 + 256 * unat c8 + 65536 * r)) mod 4194304"
    by (simp add: csd_field_def k algebra_simps)
  also have "\<dots> = unat c9 + 256 * unat c8 + 65536 * r"
  proof -
    have "r < 64" by (simp add: r_def)
    then show ?thesis using b by (subst mod_mult_self3) simp
  qed
  finally show ?thesis by (simp add: r_def)
qed

lemma csd_v1_size:
  "csd_field [c0, c1, c2, c3, c4, c5, c6, c7, c8, c9, c10, c11, c12, c13, c14, c15] 73 62
     = unat c8 div 64 + 4 * unat c7 + 1024 * (unat c6 mod 4)"
proof -
  have b: "unat c7 < 256" "unat c8 < 256" using unsigned_less [of c7] unsigned_less [of c8] by simp_all
  define r where "r = unat c6 mod 4"
  obtain k where k: "unat c6 = 4 * k + r" unfolding r_def by (metis mult_div_mod_eq)
  have "csd_field [c0, c1, c2, c3, c4, c5, c6, c7, c8, c9, c10, c11, c12, c13, c14, c15] 73 62
      = csd_field [c0, c1, c2, c3, c4, c5, c6, c7, c8] 17 6"
    using csd_field_prefix [of _ "[c0, c1, c2, c3, c4, c5, c6, c7, c8]" "[c9, c10, c11, c12, c13, c14, c15]" 56 17 6]
    by simp
  also have "\<dots> = (64 * ((foldl (\<lambda>a b. 256 * a + unat b) 0 [c0, c1, c2, c3, c4, c5] * 64 + k) * 4096
      + (4 * unat c7 + 1024 * r)) + unat c8) div 64 mod 4096"
    by (simp add: csd_field_def k algebra_simps)
  also have "\<dots> = ((foldl (\<lambda>a b. 256 * a + unat b) 0 [c0, c1, c2, c3, c4, c5] * 64 + k) * 4096
      + (4 * unat c7 + 1024 * r) + unat c8 div 64) mod 4096"
    by (subst div_mult_self4) simp_all
  also have "\<dots> = unat c8 div 64 + 4 * unat c7 + 1024 * r"
  proof -
    have "r < 4" by (simp add: r_def)
    then show ?thesis using b by (subst add.assoc, subst mod_mult_self3) simp
  qed
  finally show ?thesis by (simp add: r_def)
qed

lemma csd_v1_mult:
  "csd_field [c0, c1, c2, c3, c4, c5, c6, c7, c8, c9, c10, c11, c12, c13, c14, c15] 49 47
     = 2 * (unat c9 mod 4) + unat c10 div 128"
proof -
  have b: "unat c10 < 256" using unsigned_less [of c10] by simp
  define r where "r = unat c9 mod 4"
  obtain k where k: "unat c9 = 4 * k + r" unfolding r_def by (metis mult_div_mod_eq)
  have "csd_field [c0, c1, c2, c3, c4, c5, c6, c7, c8, c9, c10, c11, c12, c13, c14, c15] 49 47
      = csd_field [c0, c1, c2, c3, c4, c5, c6, c7, c8, c9, c10] 9 7"
    using csd_field_prefix [of _ "[c0, c1, c2, c3, c4, c5, c6, c7, c8, c9, c10]" "[c11, c12, c13, c14, c15]" 40 9 7]
    by simp
  also have "\<dots> = (128 * ((foldl (\<lambda>a b. 256 * a + unat b) 0 [c0, c1, c2, c3, c4, c5, c6, c7, c8] * 64 + k) * 8
      + 2 * r) + unat c10) div 128 mod 8"
    by (simp add: csd_field_def k algebra_simps)
  also have "\<dots> = ((foldl (\<lambda>a b. 256 * a + unat b) 0 [c0, c1, c2, c3, c4, c5, c6, c7, c8] * 64 + k) * 8
      + 2 * r + unat c10 div 128) mod 8"
    by (subst div_mult_self4) simp_all
  also have "\<dots> = 2 * r + unat c10 div 128"
  proof -
    have "r < 4" by (simp add: r_def)
    then show ?thesis using b by (subst add.assoc, subst mod_mult_self3) simp
  qed
  finally show ?thesis by (simp add: r_def)
qed

lemma csd_v1_len:
  "csd_field [c0, c1, c2, c3, c4, c5, c6, c7, c8, c9, c10, c11, c12, c13, c14, c15] 83 80 = unat c5 mod 16"
proof -
  have "csd_field [c0, c1, c2, c3, c4, c5, c6, c7, c8, c9, c10, c11, c12, c13, c14, c15] 83 80
      = csd_field [c0, c1, c2, c3, c4, c5] 3 0"
    using csd_field_prefix [of _ "[c0, c1, c2, c3, c4, c5]" "[c6, c7, c8, c9, c10, c11, c12, c13, c14, c15]" 80 3 0]
    by simp
  also have "\<dots> = (unat c5 + foldl (\<lambda>a b. 256 * a + unat b) 0 [c0, c1, c2, c3, c4] * 16 * 16) mod 16"
    by (simp add: csd_field_def algebra_simps)
  also have "\<dots> = unat c5 mod 16" by (subst mod_mult_self1) simp
  finally show ?thesis .
qed

lemma csd_structure:
  "csd_field [c0, c1, c2, c3, c4, c5, c6, c7, c8, c9, c10, c11, c12, c13, c14, c15] 127 126 = unat c0 div 64"
proof -
  have "csd_field [c0, c1, c2, c3, c4, c5, c6, c7, c8, c9, c10, c11, c12, c13, c14, c15] 127 126
      = csd_field [c0] 7 6"
    using csd_field_prefix [of _ "[c0]" "[c1, c2, c3, c4, c5, c6, c7, c8, c9, c10, c11, c12, c13, c14, c15]" 120 7 6]
    by simp
  also have "\<dots> = unat c0 div 64"
  proof -
    have "unat c0 < 256" using unsigned_less [of c0] by simp
    then show ?thesis by (simp add: csd_field_def)
  qed
  finally show ?thesis .
qed

lemma csd_sector_count_v2:
  assumes "drop_bit 6 (csd ! 0) = 1" "length csd = 16"
  shows "csd_sector_count csd = Some (of_nat ((csd_field csd 69 48 + 1) * 1024))"
proof -
  obtain c0 c1 c2 c3 c4 c5 c6 c7 c8 c9 c10 c11 c12 c13 c14 c15 where
    csd: "csd = [c0, c1, c2, c3, c4, c5, c6, c7, c8, c9, c10, c11, c12, c13, c14, c15]"
    using list_16 [OF assms(2)] by metis
  have "ucast c9 + push_bit 8 (ucast c8) + push_bit 16 (ucast (c7 AND 63)) + 1
      = (of_nat (unat c9 + 2 ^ 8 * unat c8 + 2 ^ 16 * (unat c7 mod 64) + 1) :: u32)"
    by (simp only: u32_of_bytes byte_and_unat of_nat_add of_nat_1)
  moreover have "csd_sector_count csd
      = Some (push_bit 10 (ucast c9 + push_bit 8 (ucast c8) + push_bit 16 (ucast (c7 AND 63)) + 1))"
    using assms(1) by (simp add: csd_sector_count_def csd)
  ultimately have "csd_sector_count csd
      = Some (push_bit 10 (of_nat (unat c9 + 2 ^ 8 * unat c8 + 2 ^ 16 * (unat c7 mod 64) + 1)))"
    by (simp only:)
  then show ?thesis unfolding csd csd_v2_size u32_of_bytes by (simp add: mult.commute)
qed

lemma csd_sector_count_v1:
  fixes csd :: bytes
  defines "n \<equiv> csd_field csd 83 80 + csd_field csd 49 47 + 2"
  assumes "drop_bit 6 (csd ! 0) \<noteq> 1" "length csd = 16"
  shows "csd_sector_count csd =
    (if n < 9 then None else Some (of_nat (2 ^ (n - 9) * (csd_field csd 73 62 + 1))))"
proof -
  obtain c0 c1 c2 c3 c4 c5 c6 c7 c8 c9 c10 c11 c12 c13 c14 c15 where
    csd: "csd = [c0, c1, c2, c3, c4, c5, c6, c7, c8, c9, c10, c11, c12, c13, c14, c15]"
    using list_16 [OF assms(3)] by metis
  define w where "w = (c5 AND 15) + drop_bit 7 (c10 AND 128) + push_bit 1 (c9 AND 3) + 2"
  have "unat w = n"
  proof -
    have b: "unat c10 div 128 \<le> 1" using byte_less [of c10] by simp
    have "w = of_nat (unat c5 mod 16) + of_nat (unat c10 div 128) + of_nat (2 * (unat c9 mod 4)) + of_nat 2"
      unfolding w_def
      by (simp flip: byte_and_unat add: push_bit_eq_mult)
    also have "\<dots> = of_nat (unat c5 mod 16 + unat c10 div 128 + 2 * (unat c9 mod 4) + 2)" by simp
    finally have "unat w = unat (of_nat (unat c5 mod 16 + unat c10 div 128 + 2 * (unat c9 mod 4) + 2) :: u8)"
      by simp
    also have "\<dots> = unat c5 mod 16 + unat c10 div 128 + 2 * (unat c9 mod 4) + 2"
    proof -
      have "unat c5 mod 16 < 16" "unat c9 mod 4 < 4" by simp_all
      then have "unat c5 mod 16 + unat c10 div 128 + 2 * (unat c9 mod 4) + 2 < 2 ^ LENGTH(8)"
        using b by simp
      then show ?thesis by (simp only: unsigned_of_nat take_bit_nat_eq_self of_nat_id)
    qed
    finally show ?thesis by (simp add: n_def csd csd_v1_len csd_v1_mult)
  qed
  moreover from this have "w < 9 \<longleftrightarrow> n < 9" by (simp add: word_less_nat_alt)
  moreover have "ucast (drop_bit 6 c8) + push_bit 2 (ucast c7) + push_bit 10 (ucast (c6 AND 3)) + 1
      = (of_nat (unat c8 div 64 + 2 ^ 2 * unat c7 + 2 ^ 10 * (unat c6 mod 4) + 1) :: u32)"
    by (simp only: u32_of_bytes byte_and_unat of_nat_add of_nat_1)
  moreover have "csd_sector_count csd = (if w < 9 then None else Some (push_bit (unat w - 9)
      (ucast (drop_bit 6 c8) + push_bit 2 (ucast c7) + push_bit 10 (ucast (c6 AND 3)) + 1)))"
    using assms(2) by (simp add: csd_sector_count_def csd Let_def w_def)
  ultimately have "csd_sector_count csd = (if n < 9 then None else Some (push_bit (n - 9)
      (of_nat (unat c8 div 64 + 2 ^ 2 * unat c7 + 2 ^ 10 * (unat c6 mod 4) + 1))))"
    by (simp only:)
  then show ?thesis unfolding csd csd_v1_size u32_of_bytes by simp
qed

text \<open>For an MMC the multiplier of the erase group is in the bits 41 to 37; the driver takes its two
  upper bits from the wrong byte.\<close>

lemma mmc_erase_group_wrong:
  "\<exists>csd. length csd = 16 \<and> csd_block_size CT_MMC3 csd
     \<noteq> Some (of_nat ((csd_field csd 46 42 + 1) * (csd_field csd 41 37 + 1)))"
  by (rule exI [of _ "[0, 0, 0, 0, 0, 0, 0, 0, 0, 0, 1, 0, 0, 0, 0, 0]"])
    (simp add: csd_block_size_def csd_field_def CT_MMC3_def CT_SDC1_def)

section \<open>Properties\<close>

text \<open>A card for the witnesses: it answers along a given dialog, and the timer never runs.\<close>

definition answers :: "sd_exchange list \<Rightarrow> sd_card" where
  "answers q h =
     ((if length h \<le> length q then (case snd (q ! (length h - 1)) of None \<Rightarrow> 0xFF | Some b \<Rightarrow> b) else 0xFF), 0)"

lemma answers_says:
  "p = p0 @ q \<Longrightarrow> length h = length p0 \<Longrightarrow> says (answers p) h q"
proof (induction q arbitrary: p0 h)
  case (Cons x q)
  obtain y r where x: "x = (y, r)" by fastforce
  have "p ! length p0 = x" using Cons.prems(1) by simp
  then have "case r of None \<Rightarrow> True | Some b \<Rightarrow> fst (answers p (h @ [y])) = b"
    using Cons.prems x by (simp add: answers_def split: option.splits)
  moreover have "says (answers p) (h @ [y]) q"
    using Cons.IH [of "p0 @ [x]" "h @ [y]"] Cons.prems by simp
  ultimately show ?case using x by simp
qed simp

lemma answers_ticks: "timer_ticks (answers p) h xs = 0"
  by (induction xs arbitrary: h) (simp_all add: answers_def)

lemma answers_prompt: "sd_sent s = [] \<Longrightarrow> prompt (answers q) s q"
  by (simp add: prompt_def answers_ticks answers_says)

definition ready_sd :: sd_disk where
  "ready_sd = sd_disk_init\<lparr>sd_Stat := 0, CardType := CT_SDC2 OR CT_BLOCK\<rparr>"

definition demo_cmd :: "u8 \<Rightarrow> u32 \<Rightarrow> sd_exchange list" where
  "demo_cmd cmd arg =
     ((True, 0xFF), None) # put [0xFF] @ polled ([0] @ [0xFF]) @ put (cmd_frame cmd arg) @ polled ([0xFF] @ [0])"

lemma demo_cmd_dialog: "cmd \<noteq> CMD12 \<Longrightarrow> cmd_dialog cmd arg 0 (demo_cmd cmd arg)"
  unfolding cmd_dialog_def demo_cmd_def
  by (intro exI [of _ "[0]"] exI [of _ "[0xFF]"]) simp

definition demo_read :: "sd_exchange list" where
  "demo_read = demo_cmd CMD17 7 @ polled (replicate 3 0xFF @ 0xFE # replicate 512 0x5A) @ put [0xFF, 0xFF]"

lemma demo_read_dialog: "sd_read_dialog 7 [replicate 512 0x5A] demo_read"
proof -
  have "read_dialog (replicate 512 0x5A) (polled (replicate 3 0xFF @ 0xFE # replicate 512 0x5A) @ put [0xFF, 0xFF])"
    unfolding read_dialog_def by blast
  then show ?thesis unfolding sd_read_dialog_def demo_read_def
    by (intro exI [of _ "demo_cmd CMD17 7"]
      exI [of _ "polled (replicate 3 0xFF @ 0xFE # replicate 512 0x5A) @ put [0xFF, 0xFF]"] exI [of _ "[]"]) (simp add: demo_cmd_dialog del: polled_simps put_simps)
qed

definition demo_write :: "sd_exchange list" where
  "demo_write = demo_cmd CMD24 7 @ polled ([0] @ [0xFF])
     @ put (0xFE # replicate 512 0x5A @ [0xFF, 0xFF]) @ polled [0xE5]"

lemma demo_write_dialog: "sd_write_dialog 7 [replicate 512 0x5A] demo_write"
proof -
  have "write_dialog 0xFE (replicate 512 0x5A) (polled ([0] @ [0xFF])
      @ put (0xFE # replicate 512 0x5A @ [0xFF, 0xFF]) @ polled [0xE5])"
    unfolding write_dialog_def by (intro exI [of _ "[0]"] exI [of _ "0xE5"]) simp
  then show ?thesis unfolding sd_write_dialog_def demo_write_def
    by (intro exI [of _ "demo_cmd CMD24 7"] exI [of _ "polled ([0] @ [0xFF])
      @ put (0xFE # replicate 512 0x5A @ [0xFF, 0xFF]) @ polled [0xE5]"] exI [of _ "[]"]) (simp add: demo_cmd_dialog del: polled_simps put_simps)
qed

lemma ready_sd_simps [simp]:
  "sd_address ready_sd sector = sector" "sd_Stat ready_sd = 0" "sd_sent ready_sd = []"
  by (simp_all add: ready_sd_def sd_disk_init_def sd_address_def CT_SDC2_def CT_BLOCK_def)

lemma demo_read_runs:
  "\<exists>s'. SD_disk_read (answers demo_read) (replicate 512 0) 7 1 ready_sd = Some (RES_OK, replicate 512 0x5A, s')"
  using sd_read_complete [of ready_sd 7 "[replicate 512 0x5A]" demo_read "answers demo_read" 1 "replicate 512 0"]
  by (auto simp: demo_read_dialog answers_prompt)

lemma demo_write_runs:
  "\<exists>s'. SD_disk_write (answers demo_write) (replicate 512 0x5A) 7 1 ready_sd = Some (RES_OK, s')"
  using sd_write_complete [of ready_sd 7 "[replicate 512 0x5A]" demo_write "answers demo_write" ready_sd 1 "replicate 512 0x5A"]
  by (auto simp: demo_write_dialog answers_prompt announces_def copy_from_def)

text \<open>C24: If the timer interrupt runs at least once in every \<open>K\<close> exchanges, initialisation, reading into
  and writing from a buffer that is long enough, and every control command except
  \<^verbatim>\<open>GET_SECTOR_COUNT\<close> and \<^verbatim>\<open>GET_BLOCK_SIZE\<close> return, whatever the card answers. The two exceptions decode the
  card's register, where some answers make the code shift by too much, which is undefined.\<close>

theorem sd_returns_if_timer_runs:
  assumes "timer_runs mmc K" and "512 * unat count \<le> length buff"
    and "cmd \<noteq> GET_SECTOR_COUNT" and "cmd \<noteq> GET_BLOCK_SIZE"
  shows "SD_disk_initialize mmc s \<noteq> None \<and> SD_disk_read mmc buff sector count s \<noteq> None
    \<and> SD_disk_write mmc buff sector count s \<noteq> None \<and> SD_disk_ioctl mmc cmd st ed s \<noteq> None"
  using SD_disk_initialize_total [OF assms(1), of s] SD_disk_read_total [OF assms(1,2), of sector s]
    SD_disk_write_total [OF assms(1,2), of sector s] SD_disk_ioctl_total [OF assms(1,3,4), of st ed s]
  by auto

theorem sd_returns_witness:
  "SD_disk_initialize (\<lambda>h. (0, if even (length h) then 1 else 0)) sd_disk_init \<noteq> None"
proof -
  have "timer_runs (\<lambda>h. (0, if even (length h) then 1 else 0)) (Suc (Suc 0))"
    by (auto simp: timer_runs_def length_Suc_conv)
  then show ?thesis
    using sd_returns_if_timer_runs [of "\<lambda>h. (0, if even (length h) then 1 else 0)" "Suc (Suc 0)" 0 "[]" CTRL_SYNC sd_disk_init 0 0 0]
    by (simp add: CTRL_SYNC_def GET_SECTOR_COUNT_def GET_BLOCK_SIZE_def)
qed

text \<open>If the timer interrupt never runs and the card never answers 0xFF, initialisation does not
  return, nor does reading, writing or synchronising a drive that is initialised.\<close>

theorem sd_hangs_without_timer:
  assumes "stuck mmc" and "sd_Stat s AND STA_NODISK = 0"
  shows "SD_disk_initialize mmc s = None
    \<and> (sd_Stat s AND STA_NOINIT = 0 \<longrightarrow> SD_disk_ioctl mmc CTRL_SYNC st ed s = None
       \<and> (count \<noteq> 0 \<longrightarrow> SD_disk_read mmc buff sector count s = None)
       \<and> (count \<noteq> 0 \<and> sd_Stat s AND STA_PROTECT = 0 \<longrightarrow> SD_disk_write mmc buff sector count s = None))"
proof -
  have c: "send_cmd mmc cmd arg t = None" if "cmd \<in> {CMD0, CMD17, CMD18, CMD24, CMD25, ACMD23}" for cmd arg t
    using that send_cmd_stuck [OF assms(1), of cmd arg t]
    by (auto simp: CMD0_def CMD17_def CMD18_def CMD24_def CMD25_def ACMD23_def CMD12_def)
  have "select mmc t = None" for t by (simp add: select_def wait_ready_stuck [OF assms(1)])
  then show ?thesis using assms(2)
    by (auto simp: SD_disk_initialize_def sd_init_type_def SD_disk_read_def SD_disk_write_def
        SD_disk_ioctl_def c Let_def)
qed

theorem sd_hangs_witness: "SD_disk_initialize (\<lambda>h. (0, 0)) sd_disk_init = None"
  using sd_hangs_without_timer [of "\<lambda>h. (0, 0)" sd_disk_init]
  by (simp add: stuck_def sd_disk_init_def STA_NOINIT_def STA_NODISK_def)

theorem sd_read_ok_witness: "\<exists>q s'. sd_read_dialog 7 [replicate 512 0x5A] q
    \<and> dialog (answers demo_read) (q @ [((True, 0xFF), None)]) ready_sd s'"
proof -
  obtain s' where r: "SD_disk_read (answers demo_read) (replicate 512 0) 7 1 ready_sd
      = Some (RES_OK, replicate 512 0x5A, s')"
    using demo_read_runs by blast
  obtain datas q where *: "length datas = 1" "replicate 512 0x5A = concat datas @ drop 512 (replicate 512 0)"
    "sd_read_dialog 7 datas q" "dialog (answers demo_read) (q @ [((True, 0xFF), None)]) ready_sd s'"
    using sd_read_sound [OF r] by auto
  moreover have "datas = [replicate 512 0x5A]" using *(1,2) by (cases datas) auto
  ultimately show ?thesis by blast
qed

theorem sd_write_ok_witness: "\<exists>q s'. sd_write_dialog 7 [replicate 512 0x5A] q
    \<and> dialog (answers demo_write) (q @ [((True, 0xFF), None)]) ready_sd s'"
proof -
  obtain s' where r: "SD_disk_write (answers demo_write) (replicate 512 0x5A) 7 1 ready_sd = Some (RES_OK, s')"
    using demo_write_runs by blast
  obtain datas q s0 where *: "length datas = 1" "concat datas = replicate 512 0x5A"
    "sd_write_dialog 7 datas q" "announces (answers demo_write) 1 ready_sd s0"
    "dialog (answers demo_write) (q @ [((True, 0xFF), None)]) s0 s'"
    using sd_write_sound [OF r] by auto
  moreover have "datas = [replicate 512 0x5A]" using *(1,2) by (cases datas) auto
  moreover have "s0 = ready_sd" using *(4) by (simp add: announces_def)
  ultimately show ?thesis by blast
qed

text \<open>C23: A card that answers along the protocol is read and written successfully, if it has been
  initialised, is not write-protected, at least one block is asked for, and the whole dialogue takes
  less than 200 ticks of the timer, that is, 200 milliseconds, the shortest of the timeouts of the
  driver (a longer dialogue in which every single wait keeps its own timeout is not covered): the
  buffer, which has room for the blocks of 512 bytes, gets the blocks the card sends, and the card
  gets the blocks of the buffer.\<close>

theorem sd_protocol_succeeds:
  assumes "length datas = unat count" and "count \<noteq> 0" and "\<forall>d\<in>set datas. length d = 512"
    and "512 * unat count \<le> length buff" and "sd_Stat s AND STA_NOINIT = 0" and "sd_Stat s AND STA_PROTECT = 0"
    and "sd_read_dialog (sd_address s sector) datas q" and "prompt mmc s q"
    and "\<forall>i<length datas. copy_from buff' (512 * i) 512 = Some (datas ! i)"
    and "announces mmc' count s s0"
    and "sd_write_dialog (sd_address s sector) datas q'" and "prompt mmc' s0 q'"
  shows "(\<exists>s'. SD_disk_read mmc buff sector count s
        = Some (RES_OK, concat datas @ drop (512 * unat count) buff, s')
      \<and> dialog mmc (q @ [((True, 0xFF), None)]) s s')
    \<and> (\<exists>s'. SD_disk_write mmc' buff' sector count s = Some (RES_OK, s')
      \<and> dialog mmc' (q' @ [((True, 0xFF), None)]) s0 s')"
  using sd_read_complete [OF assms(7,8,1,2,3,4,5)] sd_write_complete [OF assms(11,12,10,1,2,9,5,6)] ..

theorem sd_protocol_witness:
  "(\<exists>s'. SD_disk_read (answers demo_read) (replicate 600 0) 7 1 ready_sd
      = Some (RES_OK, replicate 512 0x5A @ replicate 88 0, s'))
   \<and> (\<exists>s'. SD_disk_write (answers demo_write) (replicate 512 0x5A) 7 1 ready_sd = Some (RES_OK, s'))"
  using sd_protocol_succeeds [of "[replicate 512 0x5A]" 1 "replicate 600 0" ready_sd 7 demo_read
      "answers demo_read" "replicate 512 0x5A" "answers demo_write" ready_sd demo_write]
  by (auto simp: demo_read_dialog demo_write_dialog answers_prompt announces_def copy_from_def)

text \<open>The sector count is computed from the fields of the 16-byte register as its definition says:
  1024 sectors per unit of C_SIZE in version 2, (C_SIZE + 1) * 2^(C_SIZE_MULT + 2) blocks of
  2^READ_BL_LEN bytes otherwise; it is undefined only for blocks so small that there is no sector.\<close>

theorem sd_capacity:
  assumes "length csd = 16"
  shows "csd_sector_count csd =
    (if csd_field csd 127 126 = 1 then Some (of_nat ((csd_field csd 69 48 + 1) * 1024))
     else if csd_field csd 83 80 + csd_field csd 49 47 + 2 < 9 then None
     else Some (of_nat ((csd_field csd 73 62 + 1) * 2 ^ (csd_field csd 49 47 + 2)
                        * 2 ^ csd_field csd 83 80 div 512)))"
proof -
  have s: "drop_bit 6 (csd ! 0) = 1 \<longleftrightarrow> csd_field csd 127 126 = 1"
  proof -
    obtain c0 c1 c2 c3 c4 c5 c6 c7 c8 c9 c10 c11 c12 c13 c14 c15 where
      csd: "csd = [c0, c1, c2, c3, c4, c5, c6, c7, c8, c9, c10, c11, c12, c13, c14, c15]"
      using list_16 [OF assms] by metis
    have "drop_bit 6 c0 = 1 \<longleftrightarrow> unat (drop_bit 6 c0) = 1" by (metis unat_1 word_unat_eq_iff)
    then show ?thesis by (simp add: csd csd_structure byte_and_unat)
  qed
  have p: "(c + 1) * 2 ^ (m + 2) * 2 ^ r div 512 = 2 ^ (r + m + 2 - 9) * (c + 1)"
    if "\<not> r + m + 2 < 9" for c m r :: nat
  proof -
    have "(c + 1) * 2 ^ (m + 2) * 2 ^ r = (c + 1) * 2 ^ (r + m + 2 - 9 + 9)"
      using that by (simp add: mult.assoc flip: power_add) (simp add: algebra_simps power_add)
    also have "\<dots> = (c + 1) * 2 ^ (r + m + 2 - 9) * 512" by (simp only: power_add) simp
    finally show ?thesis by (simp add: mult.commute)
  qed
  show ?thesis
    using csd_sector_count_v2 [OF _ assms] csd_sector_count_v1 [OF _ assms] s p by auto
qed

theorem sd_capacity_witness:
  "csd_sector_count [0x40, 0, 0, 0, 0, 0, 0, 0, 0x3B, 0x37, 0, 0, 0, 0, 0, 0] = Some 15523840"
  using sd_capacity [of "[0x40, 0, 0, 0, 0, 0, 0, 0, 0x3B, 0x37, 0, 0, 0, 0, 0, 0]"]
  by (simp add: csd_field_def)

end
