(* ===== verification/Disk.thy ===== *)
theory Disk
  imports SdCard
begin

text \<open>
  The drives under the FAT file system: the RAM disk (\<^verbatim>\<open>picoruby-filesystem-fat/src/hal/ram_disk.c\<close>),
  the flash disk (\<^verbatim>\<open>ports/rp2040/flash_disk.c\<close>), the dispatch on the drive number
  (\<^verbatim>\<open>src/hal/diskio.c\<close>) and the USB mass storage callbacks (\<^verbatim>\<open>ports/rp2040/msc_disk.c\<close>).
  \<open>None\<close> is undefined behaviour, mostly an access outside of an array, or a loop of the card driver
  that does not end.
\<close>

section \<open>RAM disk\<close>

definition SECTOR_SIZE :: u32 where "SECTOR_SIZE = 512"
definition SECTOR_COUNT :: u32 where "SECTOR_COUNT = 192"

text \<open>\<open>ram_disk\<close> is a null pointer or points to an array; \<open>mem\<close> is what the allocator returns.\<close>

type_synonym ram_disk = "bytes option"

definition RAM_disk_erase :: "ram_disk \<Rightarrow> u8 \<times> ram_disk" where
  "RAM_disk_erase ram = (case ram of None \<Rightarrow> (STA_NODISK, None) | Some d \<Rightarrow> (0, None))"

definition RAM_disk_initialize :: "bytes option \<Rightarrow> ram_disk \<Rightarrow> u8 \<times> ram_disk" where
  "RAM_disk_initialize mem ram =
     (case ram of
        Some d \<Rightarrow> (0, ram)
      | None \<Rightarrow> (case mem of Some d \<Rightarrow> (0, Some d) | None \<Rightarrow> (STA_NODISK, None)))"

definition RAM_disk_status :: "ram_disk \<Rightarrow> u8" where
  "RAM_disk_status ram = (case ram of Some d \<Rightarrow> 0 | None \<Rightarrow> STA_NOINIT)"

definition RAM_disk_read :: "bytes \<Rightarrow> u32 \<Rightarrow> u32 \<Rightarrow> ram_disk \<Rightarrow> bytes option" where
  "RAM_disk_read buff sector count ram = do {
     d \<leftarrow> ram;
     data \<leftarrow> copy_from d (unat (sector * SECTOR_SIZE)) (unat (count * SECTOR_SIZE));
     copy_into buff 0 data
   }"

definition RAM_disk_write :: "bytes \<Rightarrow> u32 \<Rightarrow> u32 \<Rightarrow> ram_disk \<Rightarrow> ram_disk option" where
  "RAM_disk_write buff sector count ram = do {
     d \<leftarrow> ram;
     data \<leftarrow> copy_from buff 0 (unat (count * SECTOR_SIZE));
     d \<leftarrow> copy_into d (unat (sector * SECTOR_SIZE)) data;
     Some (Some d)
   }"

definition RAM_disk_ioctl :: "u8 \<Rightarrow> DRESULT \<times> ioctl_out" where
  "RAM_disk_ioctl cmd =
     (if cmd = CTRL_SYNC then (RES_OK, NoOut)
      else if cmd = GET_BLOCK_SIZE then (RES_OK, OutD 1)
      else if cmd = CTRL_TRIM then (RES_ERROR, NoOut)
      else if cmd = GET_SECTOR_SIZE then (RES_OK, OutW (ucast SECTOR_SIZE))
      else if cmd = GET_SECTOR_COUNT then (RES_OK, OutD SECTOR_COUNT)
      else (RES_PARERR, NoOut))"

section \<open>Flash disk\<close>

definition FLASH_TARGET_OFFSET :: u32 where "FLASH_TARGET_OFFSET = 0x00140000"
definition FLASH_SECTOR_SIZE :: u32 where "FLASH_SECTOR_SIZE = 4096"
definition FLASH_SECTOR_COUNT :: u32 where "FLASH_SECTOR_COUNT = 192"

text \<open>
  The flash chip is the array that the processor sees at \<^verbatim>\<open>XIP_BASE\<close>. The functions of the SDK that
  erase and program it, the platform register and the handler behind the breakpoint instruction
  are parameters. Interrupts are disabled meanwhile, so an operation is one step.
\<close>

record flash_sdk =
  flash_range_erase :: "u32 \<Rightarrow> nat \<Rightarrow> bytes \<Rightarrow> bytes"
  flash_range_program :: "u32 \<Rightarrow> bytes \<Rightarrow> bytes \<Rightarrow> bytes"
  break_flash_range_program :: "u32 \<Rightarrow> bytes \<Rightarrow> bytes \<Rightarrow> bytes"
  sysinfo_platform :: u32

definition is_rp2040js :: "flash_sdk \<Rightarrow> bool" where
  "is_rp2040js sdk \<longleftrightarrow> sysinfo_platform sdk AND 0x01000000 \<noteq> 0"

definition custom_flash_range_program :: "flash_sdk \<Rightarrow> u32 \<Rightarrow> bytes \<Rightarrow> bytes \<Rightarrow> bytes" where
  "custom_flash_range_program sdk offs data flash =
     (if is_rp2040js sdk then break_flash_range_program sdk offs data flash
      else flash_range_program sdk offs data flash)"

definition FLASH_disk_erase :: "flash_sdk \<Rightarrow> bytes \<Rightarrow> u8 \<times> bytes" where
  "FLASH_disk_erase sdk flash =
     (0, flash_range_erase sdk FLASH_TARGET_OFFSET (unat (FLASH_SECTOR_SIZE * FLASH_SECTOR_COUNT)) flash)"

definition FLASH_disk_initialize :: u8 where "FLASH_disk_initialize = 0"
definition FLASH_disk_status :: u8 where "FLASH_disk_status = 0"

definition FLASH_disk_read :: "bytes \<Rightarrow> u32 \<Rightarrow> u32 \<Rightarrow> bytes \<Rightarrow> bytes option" where
  "FLASH_disk_read buff sector count flash = do {
     data \<leftarrow> copy_from flash (unat (FLASH_TARGET_OFFSET + sector * FLASH_SECTOR_SIZE))
                    (unat (count * FLASH_SECTOR_SIZE));
     copy_into buff 0 data
   }"

definition FLASH_disk_write :: "flash_sdk \<Rightarrow> bytes \<Rightarrow> u32 \<Rightarrow> u32 \<Rightarrow> bytes \<Rightarrow> bytes option" where
  "FLASH_disk_write sdk buff sector count flash = do {
     let offs = FLASH_TARGET_OFFSET + sector * FLASH_SECTOR_SIZE;
     let n = unat (FLASH_SECTOR_SIZE * count);
     let flash = flash_range_erase sdk offs n flash;
     data \<leftarrow> copy_from buff 0 n;
     Some (custom_flash_range_program sdk offs data flash)
   }"

definition FLASH_disk_ioctl :: "u8 \<Rightarrow> DRESULT \<times> ioctl_out" where
  "FLASH_disk_ioctl cmd =
     (if cmd = CTRL_SYNC then (RES_OK, NoOut)
      else if cmd = GET_BLOCK_SIZE then (RES_OK, OutD (FLASH_SECTOR_SIZE div FLASH_SECTOR_SIZE))
      else if cmd = CTRL_TRIM then (RES_ERROR, NoOut)
      else if cmd = GET_SECTOR_SIZE then (RES_OK, OutW (ucast FLASH_SECTOR_SIZE))
      else if cmd = GET_SECTOR_COUNT then (RES_OK, OutD FLASH_SECTOR_COUNT)
      else (RES_PARERR, NoOut))"

text \<open>The fields of a mounted volume and the first sector of a file's cluster; the address is
  relative to \<^verbatim>\<open>XIP_BASE\<close>.\<close>

record FATFS =
  n_fatent :: u32
  database :: u32
  csize :: u16

definition clst2sect :: "FATFS \<Rightarrow> u32 \<Rightarrow> u32" where
  "clst2sect fs clst =
     (let clst = clst - 2
      in if n_fatent fs - 2 \<le> clst then 0 else database fs + ucast (csize fs) * clst)"

definition FILE_physical_address :: "FATFS \<Rightarrow> u32 \<Rightarrow> u32" where
  "FILE_physical_address fs sclust = FLASH_TARGET_OFFSET + clst2sect fs sclust * FLASH_SECTOR_SIZE"

definition FILE_sector_size :: u32 where "FILE_sector_size = FLASH_SECTOR_SIZE"

section \<open>Dispatch\<close>

definition DEV_RAM :: u8 where "DEV_RAM = 0"
definition DEV_FLASH :: u8 where "DEV_FLASH = 1"
definition DEV_SD :: u8 where "DEV_SD = 2"

text \<open>The switches of the build, the hardware and the answer of the allocator.\<close>

record disk_config =
  use_flash :: bool
  use_sd :: bool
  sdk_flash :: flash_sdk
  sdk_card :: sd_card
  allocated :: "bytes option"

record disks =
  dk_ram :: ram_disk
  dk_flash :: bytes
  dk_sd :: sd_disk

definition disk_erase :: "disk_config \<Rightarrow> u8 \<Rightarrow> disks \<Rightarrow> u8 \<times> disks" where
  "disk_erase cfg pdrv s =
     (if pdrv = DEV_RAM then let (r, d) = RAM_disk_erase (dk_ram s) in (r, s\<lparr>dk_ram := d\<rparr>)
      else if pdrv = DEV_FLASH \<and> use_flash cfg
      then let (r, d) = FLASH_disk_erase (sdk_flash cfg) (dk_flash s) in (r, s\<lparr>dk_flash := d\<rparr>)
      else if pdrv = DEV_SD \<and> use_sd cfg then (word_of_int SD_disk_erase, s)
      else (STA_NOINIT, s))"

definition disk_status :: "disk_config \<Rightarrow> u8 \<Rightarrow> disks \<Rightarrow> u8" where
  "disk_status cfg pdrv s =
     (if pdrv = DEV_RAM then RAM_disk_status (dk_ram s)
      else if pdrv = DEV_FLASH \<and> use_flash cfg then FLASH_disk_status
      else if pdrv = DEV_SD \<and> use_sd cfg then SD_disk_status (dk_sd s)
      else STA_NOINIT)"

definition disk_initialize :: "disk_config \<Rightarrow> u8 \<Rightarrow> disks \<Rightarrow> (u8 \<times> disks) option" where
  "disk_initialize cfg pdrv s =
     (if pdrv = DEV_RAM
      then let (r, d) = RAM_disk_initialize (allocated cfg) (dk_ram s) in Some (r, s\<lparr>dk_ram := d\<rparr>)
      else if pdrv = DEV_FLASH \<and> use_flash cfg then Some (FLASH_disk_initialize, s)
      else if pdrv = DEV_SD \<and> use_sd cfg
      then do { (r, d) \<leftarrow> SD_disk_initialize (sdk_card cfg) (dk_sd s); Some (r, s\<lparr>dk_sd := d\<rparr>) }
      else Some (STA_NOINIT, s))"

definition disk_read ::
    "disk_config \<Rightarrow> u8 \<Rightarrow> bytes \<Rightarrow> u32 \<Rightarrow> u32 \<Rightarrow> disks \<Rightarrow> (DRESULT \<times> bytes \<times> disks) option" where
  "disk_read cfg pdrv buff sector count s =
     (if pdrv = DEV_RAM then do { b \<leftarrow> RAM_disk_read buff sector count (dk_ram s); Some (RES_OK, b, s) }
      else if pdrv = DEV_FLASH \<and> use_flash cfg
      then do { b \<leftarrow> FLASH_disk_read buff sector count (dk_flash s); Some (RES_OK, b, s) }
      else if pdrv = DEV_SD \<and> use_sd cfg
      then do { (r, b, d) \<leftarrow> SD_disk_read (sdk_card cfg) buff sector count (dk_sd s); Some (r, b, s\<lparr>dk_sd := d\<rparr>) }
      else Some (RES_PARERR, buff, s))"

definition disk_write ::
    "disk_config \<Rightarrow> u8 \<Rightarrow> bytes \<Rightarrow> u32 \<Rightarrow> u32 \<Rightarrow> disks \<Rightarrow> (DRESULT \<times> disks) option" where
  "disk_write cfg pdrv buff sector count s =
     (if pdrv = DEV_RAM
      then do { d \<leftarrow> RAM_disk_write buff sector count (dk_ram s); Some (RES_OK, s\<lparr>dk_ram := d\<rparr>) }
      else if pdrv = DEV_FLASH \<and> use_flash cfg
      then do { d \<leftarrow> FLASH_disk_write (sdk_flash cfg) buff sector count (dk_flash s); Some (RES_OK, s\<lparr>dk_flash := d\<rparr>) }
      else if pdrv = DEV_SD \<and> use_sd cfg
      then do { (r, d) \<leftarrow> SD_disk_write (sdk_card cfg) buff sector count (dk_sd s); Some (r, s\<lparr>dk_sd := d\<rparr>) }
      else Some (RES_PARERR, s))"

definition disk_ioctl ::
    "disk_config \<Rightarrow> u8 \<Rightarrow> u8 \<Rightarrow> u32 \<Rightarrow> u32 \<Rightarrow> disks \<Rightarrow> (DRESULT \<times> ioctl_out \<times> disks) option" where
  "disk_ioctl cfg pdrv cmd st ed s =
     (if pdrv = DEV_RAM then let (r, b) = RAM_disk_ioctl cmd in Some (r, b, s)
      else if pdrv = DEV_FLASH \<and> use_flash cfg then let (r, b) = FLASH_disk_ioctl cmd in Some (r, b, s)
      else if pdrv = DEV_SD \<and> use_sd cfg
      then do { (r, b, d) \<leftarrow> SD_disk_ioctl (sdk_card cfg) cmd st ed (dk_sd s); Some (r, b, s\<lparr>dk_sd := d\<rparr>) }
      else Some (RES_PARERR, NoOut, s))"

section \<open>USB mass storage\<close>

text \<open>The build exports the flash disk or the card; a transfer of the wrong shape aborts the program.\<close>

datatype msc_medium = PICORUBY_MSC_FLASH | PICORUBY_MSC_SD
datatype 'a msc_result = MscAbort | MscReturn int 'a

definition MSC_SECTOR_SIZE :: "msc_medium \<Rightarrow> u32" where
  "MSC_SECTOR_SIZE m = (case m of PICORUBY_MSC_FLASH \<Rightarrow> FLASH_SECTOR_SIZE | PICORUBY_MSC_SD \<Rightarrow> SD_SECTOR_SIZE)"

definition check_sector_count :: "msc_medium \<Rightarrow> u32 \<Rightarrow> bool" where
  "check_sector_count m lba = (case m of PICORUBY_MSC_FLASH \<Rightarrow> lba < FLASH_SECTOR_COUNT | PICORUBY_MSC_SD \<Rightarrow> True)"

definition tud_msc_inquiry_cb :: "bytes \<Rightarrow> bytes \<Rightarrow> bytes \<Rightarrow> (bytes \<times> bytes \<times> bytes) option" where
  "tud_msc_inquiry_cb vendor_id product_id product_rev = do {
     let chars = map (of_char :: char \<Rightarrow> u8);
     v \<leftarrow> copy_into vendor_id 0 (chars ''PicoRuby'');
     p \<leftarrow> copy_into product_id 0 (chars ''PicoRuby MSC'');
     r \<leftarrow> copy_into product_rev 0 (chars ''1.0'');
     Some (v, p, r)
   }"

text \<open>A refused test sets the sense data to NOT READY, 0x3a.\<close>

definition tud_msc_test_unit_ready_cb :: "msc_medium \<Rightarrow> bool \<Rightarrow> disks \<Rightarrow> bool" where
  "tud_msc_test_unit_ready_cb m ejected s =
     (if m = PICORUBY_MSC_SD \<and> SD_disk_status (dk_sd s) AND (STA_NOINIT OR STA_NODISK) \<noteq> 0 then False
      else if ejected then False else True)"

definition tud_msc_capacity_cb ::
    "disk_config \<Rightarrow> msc_medium \<Rightarrow> u32 \<Rightarrow> disks \<Rightarrow> (u32 \<times> u16 \<times> disks) option" where
  "tud_msc_capacity_cb cfg m block_count s =
     (case m of
        PICORUBY_MSC_FLASH \<Rightarrow> Some (FLASH_SECTOR_COUNT, ucast (MSC_SECTOR_SIZE m), s)
      | PICORUBY_MSC_SD \<Rightarrow> do {
          (r, b, d) \<leftarrow> SD_disk_ioctl (sdk_card cfg) GET_SECTOR_COUNT 0 0 (dk_sd s);
          Some (case b of OutD n \<Rightarrow> n | _ \<Rightarrow> block_count, ucast (MSC_SECTOR_SIZE m), s\<lparr>dk_sd := d\<rparr>)
        })"

definition tud_msc_start_stop_cb :: "bool \<Rightarrow> bool \<Rightarrow> bool \<Rightarrow> bool \<times> bool" where
  "tud_msc_start_stop_cb start load_eject ejected =
     (True, if load_eject then (if start then ejected else True) else ejected)"

definition tud_msc_read10_cb ::
    "disk_config \<Rightarrow> msc_medium \<Rightarrow> u32 \<Rightarrow> u32 \<Rightarrow> bytes \<Rightarrow> u32 \<Rightarrow> disks \<Rightarrow> (bytes \<times> disks) msc_result option" where
  "tud_msc_read10_cb cfg m lba offset buffer bufsize s =
     (if \<not> check_sector_count m lba then Some (MscReturn (- 1) (buffer, s))
      else if 0 < offset \<or> bufsize \<noteq> MSC_SECTOR_SIZE m then Some MscAbort
      else (case m of
        PICORUBY_MSC_FLASH \<Rightarrow> do {
          b \<leftarrow> FLASH_disk_read buffer lba 1 (dk_flash s);
          Some (MscReturn (uint (MSC_SECTOR_SIZE m)) (b, s))
        }
      | PICORUBY_MSC_SD \<Rightarrow> do {
          (r, b, d) \<leftarrow> SD_disk_read (sdk_card cfg) buffer lba 1 (dk_sd s);
          Some (MscReturn (uint (MSC_SECTOR_SIZE m)) (b, s\<lparr>dk_sd := d\<rparr>))
        }))"

definition tud_msc_is_writable_cb :: "bool \<Rightarrow> bool" where
  "tud_msc_is_writable_cb readonly = (\<not> readonly)"

definition tud_msc_write10_cb ::
    "disk_config \<Rightarrow> msc_medium \<Rightarrow> u32 \<Rightarrow> u32 \<Rightarrow> bytes \<Rightarrow> u32 \<Rightarrow> disks \<Rightarrow> disks msc_result option" where
  "tud_msc_write10_cb cfg m lba offset buffer bufsize s =
     (if \<not> check_sector_count m lba then Some (MscReturn (- 1) s)
      else if 0 < offset \<or> bufsize \<noteq> MSC_SECTOR_SIZE m then Some MscAbort
      else (case m of
        PICORUBY_MSC_FLASH \<Rightarrow> do {
          d \<leftarrow> FLASH_disk_write (sdk_flash cfg) buffer lba 1 (dk_flash s);
          Some (MscReturn (uint (MSC_SECTOR_SIZE m)) (s\<lparr>dk_flash := d\<rparr>))
        }
      | PICORUBY_MSC_SD \<Rightarrow> do {
          (r, d) \<leftarrow> SD_disk_write (sdk_card cfg) buffer lba 1 (dk_sd s);
          Some (MscReturn (uint (MSC_SECTOR_SIZE m)) (s\<lparr>dk_sd := d\<rparr>))
        }))"

text \<open>The command that prevents removal is a constant of the USB stack; every other command is
  refused with ILLEGAL REQUEST, 0x20. No command has a response.\<close>

definition tud_msc_scsi_cb :: "u8 \<Rightarrow> u8 \<Rightarrow> int" where
  "tud_msc_scsi_cb prevent_removal scsi_cmd = (if scsi_cmd = prevent_removal then 0 else - 1)"

end
