(* ===== verification/DiskProps.thy ===== *)
theory DiskProps
  imports Disk
begin

text \<open>
  The contract of a drive as a locale, its interpretation on the RAM disk and on the flash disk,
  and the properties of the dispatch and of the mass storage callbacks.
\<close>

section \<open>Chunks of an array\<close>

definition chunks :: "nat \<Rightarrow> nat \<Rightarrow> bytes \<Rightarrow> bytes list" where
  "chunks ss n d = map (\<lambda>i. take ss (drop (i * ss) d)) [0..<n]"

lemma length_chunks [simp]: "length (chunks ss n d) = n"
  by (simp add: chunks_def)

lemma chunks_Suc: "chunks ss (Suc n) d = take ss d # chunks ss n (drop ss d)"
  by (simp add: chunks_def upt_conv_Cons map_Suc_upt [symmetric] comp_def add.commute del: upt_Suc)

lemma concat_chunks: "concat (chunks ss n d) = take (n * ss) d"
proof (induction n arbitrary: d)
  case (Suc n)
  then show ?case by (simp add: chunks_Suc take_add)
qed (simp add: chunks_def)

lemma chunks_length: "n * ss \<le> length d \<Longrightarrow> x \<in> set (chunks ss n d) \<Longrightarrow> length x = ss"
proof (induction n arbitrary: d)
  case (Suc n)
  then show ?case using Suc.IH [of "drop ss d"] by (auto simp: chunks_Suc)
qed (simp add: chunks_def)

lemma take_drop_chunks:
  assumes "a + c \<le> n"
  shows "concat (take c (drop a (chunks ss n d))) = take (c * ss) (drop (a * ss) d)"
proof -
  have "take c (drop a (chunks ss n d)) = map (\<lambda>i. take ss (drop (i * ss) d)) [a..<a + c]"
    using assms by (simp add: chunks_def take_map drop_map)
  also have "\<dots> = chunks ss c (drop (a * ss) d)"
  proof -
    have "[a..<a + c] = map (\<lambda>i. i + a) [0..<c]" using map_add_upt [of a c] by (simp add: add.commute)
    then show ?thesis by (simp add: chunks_def comp_def algebra_simps)
  qed
  finally show ?thesis by (simp add: concat_chunks)
qed

lemma take_drop_prefix:
  assumes "i + n \<le> m" "m \<le> length xs"
  shows "take n (drop i (take m xs @ ys)) = take n (drop i xs)"
proof -
  have "n \<le> length (drop i (take m xs))" "i \<le> length (take m xs)" using assms by simp_all
  then have "take n (drop i (take m xs @ ys)) = take n (drop i (take m xs))" by simp
  also have "\<dots> = take n (drop i xs)" using assms by (simp add: drop_take min_def)
  finally show ?thesis .
qed

lemma chunks_take: "chunks ss n (take (n * ss) d) = chunks ss n d"
proof -
  have "take ss (drop (i * ss) (take (n * ss) d)) = take ss (drop (i * ss) d)" if "i < n" for i
    using mult_le_mono1 [of "Suc i" n ss] that by (simp add: drop_take min_def)
  then show ?thesis by (auto simp: chunks_def)
qed

lemma chunks_overwrite:
  assumes "length d = n * ss" and "a + c \<le> n" and "length data = c * ss"
  shows "chunks ss n (take (a * ss) d @ data @ drop (a * ss + c * ss) d)
    = take a (chunks ss n d) @ chunks ss c data @ drop (a + c) (chunks ss n d)"
proof (rule nth_equalityI)
  show "length (chunks ss n (take (a * ss) d @ data @ drop (a * ss + c * ss) d))
      = length (take a (chunks ss n d) @ chunks ss c data @ drop (a + c) (chunks ss n d))"
    using assms(2) by simp
next
  fix i assume "i < length (chunks ss n (take (a * ss) d @ data @ drop (a * ss + c * ss) d))"
  then have i: "i < n" by simp
  define e where "e = take (a * ss) d @ data @ drop (a * ss + c * ss) d"
  have ac: "a * ss + c * ss \<le> length d" using assms(1,2) by (simp flip: add_mult_distrib)
  then have la: "length (take (a * ss) d) = a * ss" by simp
  consider "i < a" | "a \<le> i" "i < a + c" | "a + c \<le> i" by linarith
  then have "take ss (drop (i * ss) e)
      = (take a (chunks ss n d) @ chunks ss c data @ drop (a + c) (chunks ss n d)) ! i"
  proof cases
    case 1
    then have "Suc i * ss \<le> a * ss" by (intro mult_le_mono1) simp
    then have "i * ss + ss \<le> a * ss" by simp
    then have "take ss (drop (i * ss) e) = take ss (drop (i * ss) d)"
      using take_drop_prefix [of "i * ss" ss "a * ss" d] ac by (simp add: e_def)
    then show ?thesis using 1 i by (simp add: nth_append chunks_def)
  next
    case 2
    then obtain j where j: "i = a + j" "j < c" by (metis le_Suc_ex nat_add_left_cancel_less)
    then have "Suc j * ss \<le> c * ss" by (intro mult_le_mono1) simp
    then have "j * ss + ss \<le> length data" using assms(3) by simp
    moreover have "drop (i * ss) e = drop (j * ss) (data @ drop (a * ss + c * ss) d)"
      using la by (simp add: e_def j(1) add_mult_distrib)
    ultimately have "take ss (drop (i * ss) e) = take ss (drop (j * ss) data)" by simp
    then show ?thesis using j assms(2) by (simp add: nth_append chunks_def)
  next
    case 3
    then obtain j where j: "i = a + c + j" by (metis le_Suc_ex)
    have "drop (i * ss) e = drop (j * ss) (drop (a * ss + c * ss) d)"
      using la assms(3) by (simp add: e_def j add_mult_distrib)
    then have "drop (i * ss) e = drop (i * ss) d" by (simp add: j add_mult_distrib algebra_simps)
    then show ?thesis using 3 i j assms(2) by (simp add: nth_append chunks_def)
  qed
  then show "chunks ss n (take (a * ss) d @ data @ drop (a * ss + c * ss) d) ! i
      = (take a (chunks ss n d) @ chunks ss c data @ drop (a + c) (chunks ss n d)) ! i"
    using i by (simp add: chunks_def e_def)
qed

text \<open>Copies of whole sectors.\<close>

lemma copy_from_sectors:
  assumes "length d = cnt * ss" "sector + count \<le> cnt"
  shows "copy_from d (sector * ss) (count * ss) = Some (concat (take count (drop sector (chunks ss cnt d))))"
proof -
  have "sector * ss + count * ss \<le> length d" using assms by (simp flip: add_mult_distrib)
  then show ?thesis by (simp add: copy_from_def take_drop_chunks [OF assms(2)])
qed

lemma copy_into_sectors:
  assumes "length d = cnt * ss" "sector + count \<le> cnt" "length data = count * ss"
  shows "\<exists>d'. copy_into d (sector * ss) data = Some d' \<and> length d' = cnt * ss
    \<and> chunks ss cnt d' = take sector (chunks ss cnt d) @ chunks ss count data @ drop (sector + count) (chunks ss cnt d)"
proof -
  have le: "sector * ss + count * ss \<le> length d" using assms by (simp flip: add_mult_distrib)
  then show ?thesis using chunks_overwrite [OF assms] assms(1,3) by (simp add: copy_into_def)
qed

lemma copy_from_prefix: "n \<le> length buff \<Longrightarrow> copy_from buff 0 n = Some (take n buff)"
  by (simp add: copy_from_def)

lemma copy_into_prefix: "length data \<le> length buff \<Longrightarrow> copy_into buff 0 data = Some (data @ drop (length data) buff)"
  by (simp add: copy_into_def)

section \<open>The contract of a drive\<close>

text \<open>A drive is an array of \<open>cnt\<close> sectors of \<open>ss\<close> bytes: reading gives the sectors, writing
  replaces them.\<close>

locale block_device =
  fixes wf :: "'s \<Rightarrow> bool"
    and sectors :: "'s \<Rightarrow> bytes list"
    and ss cnt :: nat
    and rd :: "bytes \<Rightarrow> u32 \<Rightarrow> u32 \<Rightarrow> 's \<Rightarrow> bytes option"
    and wr :: "bytes \<Rightarrow> u32 \<Rightarrow> u32 \<Rightarrow> 's \<Rightarrow> 's option"
  assumes length_sectors: "wf s \<Longrightarrow> length (sectors s) = cnt"
    and length_sector: "wf s \<Longrightarrow> x \<in> set (sectors s) \<Longrightarrow> length x = ss"
    and rd_sectors: "wf s \<Longrightarrow> unat sector + unat count \<le> cnt \<Longrightarrow> unat count * ss \<le> length buff \<Longrightarrow>
      rd buff sector count s
        = Some (concat (take (unat count) (drop (unat sector) (sectors s))) @ drop (unat count * ss) buff)"
    and wr_sectors: "wf s \<Longrightarrow> unat sector + unat count \<le> cnt \<Longrightarrow> unat count * ss \<le> length buff \<Longrightarrow>
      \<exists>s'. wr buff sector count s = Some s' \<and> wf s'
        \<and> sectors s' = take (unat sector) (sectors s) @ chunks ss (unat count) buff
            @ drop (unat sector + unat count) (sectors s)"
begin

lemma read_after_write:
  assumes "wf s" "unat sector + unat count \<le> cnt" "length data = unat count * ss" "unat count * ss \<le> length buff"
  shows "\<exists>s'. wr data sector count s = Some s' \<and> wf s'
    \<and> rd buff sector count s' = Some (data @ drop (unat count * ss) buff)"
proof -
  obtain s' where s': "wr data sector count s = Some s'" "wf s'"
    "sectors s' = take (unat sector) (sectors s) @ chunks ss (unat count) data
      @ drop (unat sector + unat count) (sectors s)"
    using wr_sectors [OF assms(1,2), of data] assms(3) by auto
  have "take (unat count) (drop (unat sector) (sectors s')) = chunks ss (unat count) data"
    using s'(3) length_sectors [OF assms(1)] assms(2) by simp
  then show ?thesis using s' rd_sectors [OF s'(2) assms(2,4)] assms(3) by (auto simp: concat_chunks)
qed

lemma write_elsewhere:
  assumes "wf s" "unat sector + unat count \<le> cnt" "unat count * ss \<le> length data"
    and "unat i + unat n \<le> cnt" "unat n * ss \<le> length buff"
    and "unat i + unat n \<le> unat sector \<or> unat sector + unat count \<le> unat i"
  shows "\<exists>s'. wr data sector count s = Some s' \<and> wf s' \<and> rd buff i n s' = rd buff i n s"
proof -
  obtain s' where s': "wr data sector count s = Some s'" "wf s'"
    "sectors s' = take (unat sector) (sectors s) @ chunks ss (unat count) data
      @ drop (unat sector + unat count) (sectors s)"
    using wr_sectors [OF assms(1-3)] by blast
  have len: "length (sectors s) = cnt" by (rule length_sectors [OF assms(1)])
  have "take (unat n) (drop (unat i) (sectors s')) = take (unat n) (drop (unat i) (sectors s))"
  proof (cases "unat i + unat n \<le> unat sector")
    case True
    then show ?thesis unfolding s'(3) using len assms(2) by (intro take_drop_prefix) simp_all
  next
    case False
    then obtain j where j: "unat i = unat sector + unat count + j" using assms(6) by (metis le_Suc_ex)
    then show ?thesis using s'(3) len assms(2) by (simp add: add.commute add.left_commute)
  qed
  then show ?thesis using s' rd_sectors [OF s'(2) assms(4,5)] rd_sectors [OF assms(1,4,5)] by auto
qed

end

section \<open>RAM disk\<close>

definition ram_wf :: "ram_disk \<Rightarrow> bool" where
  "ram_wf ram \<longleftrightarrow> (case ram of None \<Rightarrow> False | Some d \<Rightarrow> length d = 192 * 512)"

definition ram_sectors :: "ram_disk \<Rightarrow> bytes list" where
  "ram_sectors ram = (case ram of None \<Rightarrow> [] | Some d \<Rightarrow> chunks 512 192 d)"

text \<open>Offsets within a drive do not wrap around.\<close>

lemma unat_sectors:
  assumes "unat (n :: u32) \<le> 192" "unat (k :: u32) \<le> 4096"
  shows "unat (n * k) = unat n * unat k" "unat (k * n) = unat n * unat k"
proof -
  have "unat n * unat k \<le> 192 * 4096" using assms by (rule mult_le_mono)
  then have "unat n * unat k < 2 ^ LENGTH(32)" by simp
  then show "unat (n * k) = unat n * unat k" "unat (k * n) = unat n * unat k"
    by (simp_all add: unat_word_ariths mult.commute)
qed

lemma RAM_offsets:
  assumes "unat (sector :: u32) + unat (count :: u32) \<le> 192"
  shows "unat (sector * SECTOR_SIZE) = unat sector * 512" "unat (count * SECTOR_SIZE) = unat count * 512"
  using assms unat_sectors(1) [of sector SECTOR_SIZE] unat_sectors(1) [of count SECTOR_SIZE]
  by (simp_all add: SECTOR_SIZE_def)

lemma concat_sectors_length:
  assumes "length d = cnt * ss" "sector + count \<le> cnt"
  shows "length (concat (take count (drop sector (chunks ss cnt d)))) = count * ss"
proof -
  have "sector * ss + count * ss \<le> length d" using assms by (simp flip: add_mult_distrib)
  then show ?thesis by (simp add: take_drop_chunks [OF assms(2)])
qed

lemma RAM_read_sectors:
  assumes "ram_wf ram" "unat sector + unat count \<le> 192" "unat count * 512 \<le> length buff"
  shows "RAM_disk_read buff sector count ram
    = Some (concat (take (unat count) (drop (unat sector) (ram_sectors ram))) @ drop (unat count * 512) buff)"
proof -
  obtain d where d: "ram = Some d" "length d = 192 * 512"
    using assms(1) by (auto simp only: ram_wf_def split: option.splits)
  show ?thesis
    unfolding RAM_disk_read_def d(1) bind.bind_lunit RAM_offsets [OF assms(2)] ram_sectors_def option.case
      copy_from_sectors [OF d(2) assms(2)]
    using copy_into_prefix [of _ buff] concat_sectors_length [OF d(2) assms(2)] assms(3) by simp
qed

lemma RAM_write_sectors:
  assumes "ram_wf ram" "unat sector + unat count \<le> 192" "unat count * 512 \<le> length buff"
  shows "\<exists>ram'. RAM_disk_write buff sector count ram = Some ram' \<and> ram_wf ram'
    \<and> ram_sectors ram' = take (unat sector) (ram_sectors ram) @ chunks 512 (unat count) buff
        @ drop (unat sector + unat count) (ram_sectors ram)"
proof -
  obtain d where d: "ram = Some d" "length d = 192 * 512"
    using assms(1) by (auto simp only: ram_wf_def split: option.splits)
  have "length (take (unat count * 512) buff) = unat count * 512" using assms(3) by simp
  from copy_into_sectors [OF d(2) assms(2) this] obtain d' where
    d': "copy_into d (unat sector * 512) (take (unat count * 512) buff) = Some d'" "length d' = 192 * 512"
    "chunks 512 192 d' = take (unat sector) (chunks 512 192 d) @ chunks 512 (unat count) buff
      @ drop (unat sector + unat count) (chunks 512 192 d)"
    unfolding chunks_take by blast
  have "RAM_disk_write buff sector count ram = Some (Some d')"
    unfolding RAM_disk_write_def d(1) bind.bind_lunit RAM_offsets [OF assms(2)]
      copy_from_prefix [OF assms(3)] d'(1) ..
  then show ?thesis using d'(2,3) d(1) by (simp add: ram_wf_def ram_sectors_def)
qed

interpretation ram: block_device ram_wf ram_sectors 512 192 RAM_disk_read RAM_disk_write
proof
  show "length (ram_sectors s) = 192" if "ram_wf s" for s
    using that by (auto simp: ram_wf_def ram_sectors_def split: option.splits)
  show "length x = 512" if s: "ram_wf s" and x: "x \<in> set (ram_sectors s)" for s x
  proof -
    obtain d where "s = Some d" "192 * 512 \<le> length d"
      using s by (auto simp: ram_wf_def split: option.splits)
    then show ?thesis using x chunks_length [of 192 512 d x] by (simp add: ram_sectors_def)
  qed
qed (use RAM_read_sectors RAM_write_sectors in auto)

section \<open>Flash disk\<close>

text \<open>
  What the SDK documents of its two functions: on whole sectors of 4096 bytes erasing sets all bits,
  on whole pages of 256 bytes programming clears the bits that are 0 in the data. Under the
  emulator the handler behind the breakpoint programs in the same way.
\<close>

definition programs :: "(u32 \<Rightarrow> bytes \<Rightarrow> bytes \<Rightarrow> bytes) \<Rightarrow> bool" where
  "programs f \<longleftrightarrow> (\<forall>offs data flash.
     256 dvd unat offs \<and> 256 dvd length data \<and> unat offs + length data \<le> length flash \<longrightarrow>
     f offs data flash = take (unat offs) flash
       @ map2 (AND) (take (length data) (drop (unat offs) flash)) data
       @ drop (unat offs + length data) flash)"

definition erases :: "(u32 \<Rightarrow> nat \<Rightarrow> bytes \<Rightarrow> bytes) \<Rightarrow> bool" where
  "erases f \<longleftrightarrow> (\<forall>offs n flash.
     4096 dvd unat offs \<and> 4096 dvd n \<and> unat offs + n \<le> length flash \<longrightarrow>
     f offs n flash = take (unat offs) flash @ replicate n 0xFF @ drop (unat offs + n) flash)"

definition flash_sdk_ok :: "flash_sdk \<Rightarrow> bool" where
  "flash_sdk_ok sdk \<longleftrightarrow> erases (flash_range_erase sdk) \<and> programs (flash_range_program sdk)
     \<and> programs (break_flash_range_program sdk)"

definition flash_wf :: "flash_sdk \<Rightarrow> bytes \<Rightarrow> bool" where
  "flash_wf sdk flash \<longleftrightarrow> flash_sdk_ok sdk \<and> 0x140000 + 192 * 4096 \<le> length flash \<and> length flash < 2 ^ 32"

text \<open>The drive lies behind the program, in the second part of the chip.\<close>

definition flash_drive :: "bytes \<Rightarrow> bytes" where
  "flash_drive flash = take (192 * 4096) (drop 0x140000 flash)"

definition flash_sectors :: "bytes \<Rightarrow> bytes list" where
  "flash_sectors flash = chunks 4096 192 (flash_drive flash)"

lemma flash_drive_length: "flash_wf sdk flash \<Longrightarrow> length (flash_drive flash) = 192 * 4096"
  by (auto simp: flash_wf_def flash_drive_def min_def)

lemma flash_offsets:
  assumes "unat (sector :: u32) + unat (count :: u32) \<le> 192"
  shows "unat (FLASH_TARGET_OFFSET + sector * FLASH_SECTOR_SIZE) = 0x140000 + unat sector * 4096"
    "unat (count * FLASH_SECTOR_SIZE) = unat count * 4096" "unat (FLASH_SECTOR_SIZE * count) = unat count * 4096"
proof -
  have s: "unat (sector * FLASH_SECTOR_SIZE) = unat sector * 4096"
    using assms unat_sectors(1) [of sector FLASH_SECTOR_SIZE] by (simp add: FLASH_SECTOR_SIZE_def)
  have "unat sector * 4096 \<le> 192 * 4096" using assms by (intro mult_le_mono1) simp
  then have "unat FLASH_TARGET_OFFSET + unat (sector * FLASH_SECTOR_SIZE) < 2 ^ LENGTH(32)"
    unfolding s by (simp add: FLASH_TARGET_OFFSET_def)
  then have "unat (FLASH_TARGET_OFFSET + sector * FLASH_SECTOR_SIZE)
      = unat FLASH_TARGET_OFFSET + unat (sector * FLASH_SECTOR_SIZE)"
    by (rule unat_add_lem [THEN iffD1])
  then show "unat (FLASH_TARGET_OFFSET + sector * FLASH_SECTOR_SIZE) = 0x140000 + unat sector * 4096"
    unfolding s by (simp add: FLASH_TARGET_OFFSET_def)
  show "unat (count * FLASH_SECTOR_SIZE) = unat count * 4096" "unat (FLASH_SECTOR_SIZE * count) = unat count * 4096"
    using assms unat_sectors [of count FLASH_SECTOR_SIZE] by (simp_all add: FLASH_SECTOR_SIZE_def)
qed

text \<open>An offset into the drive is an offset into the chip.\<close>

lemma copy_from_drop:
  assumes "copy_from (take n (drop k xs)) i m = Some ys" "k \<le> length xs"
  shows "copy_from xs (k + i) m = Some ys"
  using assms by (auto simp: copy_from_def drop_take min_def add.commute split: if_splits)

lemma FLASH_read_sectors:
  assumes wf: "flash_wf sdk flash" and r: "unat sector + unat count \<le> 192" and b: "unat count * 4096 \<le> length buff"
  shows "FLASH_disk_read buff sector count flash
    = Some (concat (take (unat count) (drop (unat sector) (flash_sectors flash))) @ drop (unat count * 4096) buff)"
proof -
  note d = flash_drive_length [OF wf]
  have "0x140000 \<le> length flash" using wf by (simp add: flash_wf_def)
  note c = copy_from_drop [OF copy_from_sectors [OF d r, unfolded flash_drive_def] this,
    folded flash_drive_def flash_sectors_def]
  show ?thesis
    unfolding FLASH_disk_read_def flash_offsets(1,2) [OF r] c bind.bind_lunit
    using copy_into_prefix [of _ buff] concat_sectors_length [OF d r] b by (simp add: flash_sectors_def)
qed

text \<open>Erasing and programming together overwrite.\<close>

lemma map2_and_ones: "length data = n \<Longrightarrow> map2 (AND) (replicate n (0xFF :: u8)) data = data"
proof (induction data arbitrary: n)
  case (Cons b data)
  have ones: "(0xFF :: u8) = - 1" by simp
  have "0xFF AND b = b" unfolding ones by simp
  then show ?case using Cons by (cases n) auto
qed simp

lemma flash_overwrite:
  assumes "erases er" "programs pr" "4096 dvd unat offs" "4096 dvd length data" "unat offs + length data \<le> length flash"
  shows "pr offs data (er offs (length data) flash)
    = take (unat offs) flash @ data @ drop (unat offs + length data) flash"
proof -
  define k where "k = unat offs"
  define n where "n = length data"
  have e: "er offs n flash = take k flash @ replicate n 0xFF @ drop (k + n) flash"
    using assms(1,3,4,5) unfolding erases_def k_def n_def by blast
  have "(256 :: nat) dvd 4096" by simp
  then have "256 dvd unat offs" "256 dvd length data" using assms(3,4) dvd_trans by blast+
  moreover have "unat offs + length data \<le> length (er offs n flash)"
    unfolding e using assms(5) by (simp add: k_def n_def)
  ultimately have "pr offs data (er offs n flash) = take k (er offs n flash)
      @ map2 (AND) (take n (drop k (er offs n flash))) data @ drop (k + n) (er offs n flash)"
    using assms(2) unfolding programs_def k_def n_def by blast
  also have "\<dots> = take k flash @ data @ drop (k + n) flash"
    unfolding e using assms(5) map2_and_ones [of data n] by (simp add: k_def n_def)
  finally show ?thesis by (simp add: k_def n_def)
qed

lemma window_overwrite:
  assumes "t + n \<le> length xs" "k + length data \<le> n"
  shows "take n (drop t (take (t + k) xs @ data @ drop (t + k + length data) xs))
    = take k (take n (drop t xs)) @ data @ drop (k + length data) (take n (drop t xs))"
proof -
  define a b c d e where "a = take t xs" and "b = take k (drop t xs)"
    and "c = take (length data) (drop (t + k) xs)"
    and "d = take (n - (k + length data)) (drop (t + k + length data) xs)" and "e = drop (t + n) xs"
  have xs: "xs = a @ b @ c @ d @ e"
  proof -
    have "d @ e = drop (t + k + length data) xs"
      using assms(2) append_take_drop_id [of "n - (k + length data)" "drop (t + k + length data) xs"]
      by (simp add: d_def e_def add.commute add.left_commute)
    then have "c @ d @ e = drop (t + k) xs"
      using append_take_drop_id [of "length data" "drop (t + k) xs"]
      by (simp add: c_def add.commute add.left_commute)
    then have "b @ c @ d @ e = drop t xs"
      using append_take_drop_id [of k "drop t xs"] by (simp add: b_def add.commute)
    then show ?thesis by (simp add: a_def)
  qed
  have "length a = t" "length b = k" "length c = length data" "n = k + length data + length d"
    using assms by (simp_all add: a_def b_def c_def d_def)
  then show ?thesis unfolding xs by simp
qed

lemma FLASH_write_sectors:
  assumes wf: "flash_wf sdk flash" and r: "unat sector + unat count \<le> 192" and b: "unat count * 4096 \<le> length buff"
  shows "\<exists>flash'. FLASH_disk_write sdk buff sector count flash = Some flash' \<and> flash_wf sdk flash'
    \<and> flash_sectors flash' = take (unat sector) (flash_sectors flash) @ chunks 4096 (unat count) buff
        @ drop (unat sector + unat count) (flash_sectors flash)
    \<and> take 0x140000 flash' = take 0x140000 flash \<and> drop (0x140000 + 192 * 4096) flash' = drop (0x140000 + 192 * 4096) flash"
proof -
  define data where "data = take (unat count * 4096) buff"
  have len: "length data = unat count * 4096" using b by (simp add: data_def)
  define k where "k = unat sector * 4096"
  have "(unat sector + unat count) * 4096 \<le> 192 * 4096" using r by (rule mult_le_mono1)
  then have kn: "k + length data \<le> 192 * 4096" unfolding len k_def add_mult_distrib .
  have chip: "0x140000 + 192 * 4096 \<le> length flash" using wf by (simp add: flash_wf_def)
  define flash' where "flash' = take (0x140000 + k) flash @ data @ drop (0x140000 + k + length data) flash"
  have dv: "4096 dvd unat (FLASH_TARGET_OFFSET + sector * FLASH_SECTOR_SIZE)" "4096 dvd length data"
  proof -
    have "0x140000 = 320 * (4096 :: nat)" by simp
    then have "0x140000 + unat sector * 4096 = (320 + unat sector) * 4096" by (simp only: add_mult_distrib)
    then show "4096 dvd unat (FLASH_TARGET_OFFSET + sector * FLASH_SECTOR_SIZE)" "4096 dvd length data"
      unfolding flash_offsets(1) [OF r] len by (simp_all only: dvd_triv_right)
  qed
  have "unat (FLASH_TARGET_OFFSET + sector * FLASH_SECTOR_SIZE) + length data \<le> length flash"
    unfolding flash_offsets(1) [OF r] using kn chip by (simp add: k_def)
  then have "f (FLASH_TARGET_OFFSET + sector * FLASH_SECTOR_SIZE) data
      (flash_range_erase sdk (FLASH_TARGET_OFFSET + sector * FLASH_SECTOR_SIZE) (length data) flash) = flash'"
    if "programs f" for f
    using flash_overwrite [OF _ that dv] wf flash_offsets(1) [OF r]
    by (simp add: flash_wf_def flash_sdk_ok_def flash'_def k_def)
  then have w: "FLASH_disk_write sdk buff sector count flash = Some flash'"
    unfolding FLASH_disk_write_def Let_def flash_offsets(3) [OF r] copy_from_prefix [OF b] bind.bind_lunit
    using wf len by (simp add: flash_wf_def flash_sdk_ok_def custom_flash_range_program_def data_def)
  have same: "length flash' = length flash" "take 0x140000 flash' = take 0x140000 flash"
    using kn chip by (simp_all add: flash'_def)
  have "flash_drive flash' = take k (flash_drive flash) @ data @ drop (k + length data) (flash_drive flash)"
    unfolding flash'_def flash_drive_def by (rule window_overwrite [OF chip kn])
  then have "copy_into (flash_drive flash) k data = Some (flash_drive flash')"
    using kn flash_drive_length [OF wf] by (simp add: copy_into_def)
  moreover obtain d' where "copy_into (flash_drive flash) k data = Some d'"
    "chunks 4096 192 d' = take (unat sector) (flash_sectors flash) @ chunks 4096 (unat count) data
        @ drop (unat sector + unat count) (flash_sectors flash)"
    using copy_into_sectors [OF flash_drive_length [OF wf] r len] by (auto simp: k_def flash_sectors_def)
  moreover have "chunks 4096 (unat count) data = chunks 4096 (unat count) buff"
    unfolding data_def by (rule chunks_take)
  moreover have "drop (0x140000 + 192 * 4096) flash' = drop (0x140000 + 192 * 4096) flash"
  proof -
    obtain j where j: "192 * 4096 = k + length data + j" using kn le_Suc_ex by blast
    show ?thesis unfolding j using chip kn by (simp add: flash'_def ac_simps)
  qed
  ultimately show ?thesis unfolding w using same wf by (simp add: flash_sectors_def flash_wf_def)
qed

interpretation fl: block_device "flash_wf sdk" flash_sectors 4096 192 FLASH_disk_read "FLASH_disk_write sdk" for sdk
proof
  show "length (flash_sectors s) = 192" for s by (simp add: flash_sectors_def)
  show "length x = 4096" if "flash_wf sdk s" "x \<in> set (flash_sectors s)" for s x
    using that chunks_length [of 192 4096 "flash_drive s" x] flash_drive_length by (simp add: flash_sectors_def)
qed (use FLASH_read_sectors FLASH_write_sectors in blast)+

section \<open>Properties\<close>

text \<open>The drives that are arrays of sectors: the RAM disk and, if it is built in, the flash disk.\<close>

definition array_drive :: "disk_config \<Rightarrow> u8 \<Rightarrow> disks \<Rightarrow> bool" where
  "array_drive cfg pdrv s \<longleftrightarrow>
     (pdrv = DEV_RAM \<and> ram_wf (dk_ram s))
     \<or> (pdrv = DEV_FLASH \<and> use_flash cfg \<and> flash_wf (sdk_flash cfg) (dk_flash s))"

definition drive_ss :: "u8 \<Rightarrow> nat" where
  "drive_ss pdrv = (if pdrv = DEV_RAM then 512 else 4096)"

text \<open>The state of the other drives.\<close>

definition others_same :: "u8 \<Rightarrow> disks \<Rightarrow> disks \<Rightarrow> bool" where
  "others_same pdrv s s' \<longleftrightarrow> dk_sd s' = dk_sd s
     \<and> (if pdrv = DEV_RAM then dk_flash s' = dk_flash s else dk_ram s' = dk_ram s)"

text \<open>C25: On the RAM and the flash disk, a read returns what was written to the same sectors last, and a
  write changes neither the other sectors nor the other drives; both always succeed within the
  192 sectors.\<close>

theorem disk_read_after_write:
  assumes d: "array_drive cfg pdrv s" and r: "unat sector + unat count \<le> 192"
    and len: "length data = unat count * drive_ss pdrv"
  shows "\<exists>s'. disk_write cfg pdrv data sector count s = Some (RES_OK, s')
    \<and> array_drive cfg pdrv s' \<and> others_same pdrv s s'
    \<and> (\<forall>buff. length data \<le> length buff \<longrightarrow>
         disk_read cfg pdrv buff sector count s' = Some (RES_OK, data @ drop (length data) buff, s'))
    \<and> (\<forall>buff i n. unat i + unat n \<le> 192 \<and> unat n * drive_ss pdrv \<le> length buff
         \<and> (unat i + unat n \<le> unat sector \<or> unat sector + unat count \<le> unat i) \<longrightarrow>
         (\<exists>b. disk_read cfg pdrv buff i n s = Some (RES_OK, b, s)
              \<and> disk_read cfg pdrv buff i n s' = Some (RES_OK, b, s')))"
proof (cases "pdrv = DEV_RAM")
  case True
  then have wf: "ram_wf (dk_ram s)" and l: "length data = unat count * 512"
    using d len by (auto simp: array_drive_def drive_ss_def DEV_RAM_def DEV_FLASH_def)
  obtain ram' where w: "RAM_disk_write data sector count (dk_ram s) = Some ram'" "ram_wf ram'"
    using ram.wr_sectors [OF wf r, of data] l by auto
  have rw: "RAM_disk_read buff sector count ram' = Some (data @ drop (length data) buff)"
    if "length data \<le> length buff" for buff
    using ram.read_after_write [OF wf r l, of buff] that w l by simp
  have el: "RAM_disk_read buff i n ram' = RAM_disk_read buff i n (dk_ram s)"
    if "unat i + unat n \<le> 192" "unat n * 512 \<le> length buff"
      "unat i + unat n \<le> unat sector \<or> unat sector + unat count \<le> unat i" for buff i n
    using ram.write_elsewhere [OF wf r, of data i n buff] that w l by auto
  have rd: "\<exists>b. RAM_disk_read buff i n (dk_ram s) = Some b"
    if "unat i + unat n \<le> 192" "unat n * 512 \<le> length buff" for buff i n
    using ram.rd_sectors [OF wf that] by blast
  show ?thesis
    using True w rw el rd
    by (fastforce simp: disk_write_def disk_read_def array_drive_def others_same_def drive_ss_def)
next
  case False
  then have fl: "pdrv = DEV_FLASH" "use_flash cfg" and wf: "flash_wf (sdk_flash cfg) (dk_flash s)"
    and l: "length data = unat count * 4096"
    using d len by (auto simp: array_drive_def drive_ss_def)
  obtain f' where w: "FLASH_disk_write (sdk_flash cfg) data sector count (dk_flash s) = Some f'"
    "flash_wf (sdk_flash cfg) f'"
    using fl.wr_sectors [OF wf r, of data] l by auto
  have rw: "FLASH_disk_read buff sector count f' = Some (data @ drop (length data) buff)"
    if "length data \<le> length buff" for buff
    using fl.read_after_write [OF wf r l, of buff] that w l by simp
  have el: "FLASH_disk_read buff i n f' = FLASH_disk_read buff i n (dk_flash s)"
    if "unat i + unat n \<le> 192" "unat n * 4096 \<le> length buff"
      "unat i + unat n \<le> unat sector \<or> unat sector + unat count \<le> unat i" for buff i n
    using fl.write_elsewhere [OF wf r, of data i n buff] that w l by auto
  have rd: "\<exists>b. FLASH_disk_read buff i n (dk_flash s) = Some b"
    if "unat i + unat n \<le> 192" "unat n * 4096 \<le> length buff" for buff i n
    using fl.rd_sectors [OF wf that] by blast
  show ?thesis
    using False fl w rw el rd
    by (fastforce simp: disk_write_def disk_read_def array_drive_def others_same_def drive_ss_def)
qed

definition demo_sdk :: flash_sdk where
  "demo_sdk =
     \<lparr>flash_range_erase = (\<lambda>offs n flash. take (unat offs) flash @ replicate n 0xFF @ drop (unat offs + n) flash),
      flash_range_program = (\<lambda>offs data flash. take (unat offs) flash
        @ map2 (AND) (take (length data) (drop (unat offs) flash)) data @ drop (unat offs + length data) flash),
      break_flash_range_program = (\<lambda>offs data flash. take (unat offs) flash
        @ map2 (AND) (take (length data) (drop (unat offs) flash)) data @ drop (unat offs + length data) flash),
      sysinfo_platform = 2\<rparr>"

lemma demo_sdk_ok: "flash_sdk_ok demo_sdk"
  by (simp add: flash_sdk_ok_def erases_def programs_def demo_sdk_def)

definition demo_config :: disk_config where
  "demo_config = \<lparr>use_flash = True, use_sd = False, sdk_flash = demo_sdk, sdk_card = (\<lambda>h. (0xFF, 0)), allocated = None\<rparr>"

definition demo_disks :: disks where
  "demo_disks = \<lparr>dk_ram = Some (replicate (192 * 512) 0), dk_flash = replicate 0x200000 0, dk_sd = sd_disk_init\<rparr>"

theorem disk_read_after_write_witness:
  "(\<exists>s'. disk_write demo_config 0 (replicate 1024 7) 190 2 demo_disks = Some (RES_OK, s'))
   \<and> (\<exists>s'. disk_write demo_config 1 (replicate 4096 7) 191 1 demo_disks = Some (RES_OK, s'))"
proof -
  have "array_drive demo_config 0 demo_disks" "array_drive demo_config 1 demo_disks"
    using demo_sdk_ok by (simp_all add: array_drive_def demo_disks_def demo_config_def DEV_RAM_def
      DEV_FLASH_def ram_wf_def flash_wf_def)
  then show ?thesis
    using disk_read_after_write [of demo_config 0 demo_disks 190 2 "replicate 1024 7"]
      disk_read_after_write [of demo_config 1 demo_disks 191 1 "replicate 4096 7"]
    by (auto simp: drive_ss_def DEV_RAM_def)
qed

text \<open>C26: A host that transfers whole sectors never aborts the program, reads back what it has written
  to the flash disk, changes no other sector and not the program in front of the drive, and is
  refused with -1 behind the last sector.\<close>

theorem msc_flash_roundtrip:
  assumes wf: "flash_wf (sdk_flash cfg) (dk_flash s)" and len: "length data = 4096" "length buffer = 4096"
  shows "(if lba < 192
     then \<exists>s'. tud_msc_write10_cb cfg PICORUBY_MSC_FLASH lba 0 data 4096 s = Some (MscReturn 4096 s')
        \<and> tud_msc_read10_cb cfg PICORUBY_MSC_FLASH lba 0 buffer 4096 s' = Some (MscReturn 4096 (data, s'))
        \<and> flash_sectors (dk_flash s') = (flash_sectors (dk_flash s))[unat lba := data]
        \<and> take 0x140000 (dk_flash s') = take 0x140000 (dk_flash s)
     else tud_msc_write10_cb cfg PICORUBY_MSC_FLASH lba 0 data 4096 s = Some (MscReturn (- 1) s)
        \<and> tud_msc_read10_cb cfg PICORUBY_MSC_FLASH lba 0 buffer 4096 s = Some (MscReturn (- 1) (buffer, s)))"
proof (cases "lba < 192")
  case True
  then have "unat lba < 192" by (simp add: word_less_nat_alt)
  then have r: "unat lba + unat (1 :: u32) \<le> 192" by simp
  have l: "unat (1 :: u32) * 4096 \<le> length data" "length data = unat (1 :: u32) * 4096"
    "unat (1 :: u32) * 4096 \<le> length buffer" using len by simp_all
  obtain f' where w: "FLASH_disk_write (sdk_flash cfg) data lba 1 (dk_flash s) = Some f'"
    "flash_sectors f' = take (unat lba) (flash_sectors (dk_flash s)) @ [data] @ drop (Suc (unat lba)) (flash_sectors (dk_flash s))"
    "take 0x140000 f' = take 0x140000 (dk_flash s)"
    using FLASH_write_sectors [OF wf r l(1)] len by (auto simp: chunks_def)
  moreover have "FLASH_disk_read buffer lba 1 f' = Some data"
    using fl.read_after_write [OF wf r l(2,3)] w(1) len by auto
  moreover have "flash_sectors f' = (flash_sectors (dk_flash s))[unat lba := data]"
    using w(2) \<open>unat lba < 192\<close> by (simp add: upd_conv_take_nth_drop flash_sectors_def)
  ultimately show ?thesis using True
    by (simp add: tud_msc_write10_cb_def tud_msc_read10_cb_def check_sector_count_def MSC_SECTOR_SIZE_def
        FLASH_SECTOR_COUNT_def FLASH_SECTOR_SIZE_def)
next
  case False
  then show ?thesis
    by (simp add: tud_msc_write10_cb_def tud_msc_read10_cb_def check_sector_count_def FLASH_SECTOR_COUNT_def)
qed

theorem msc_flash_roundtrip_witness:
  "\<exists>s'. tud_msc_write10_cb demo_config PICORUBY_MSC_FLASH 191 0 (replicate 4096 7) 4096 demo_disks
      = Some (MscReturn 4096 s')
    \<and> flash_sectors (dk_flash s') = (flash_sectors (dk_flash demo_disks))[191 := replicate 4096 7]"
proof -
  have "flash_wf (sdk_flash demo_config) (dk_flash demo_disks)"
    using demo_sdk_ok by (simp add: demo_disks_def demo_config_def flash_wf_def)
  from msc_flash_roundtrip [OF this, of "replicate 4096 7" "replicate 4096 0" 191]
  show ?thesis by auto
qed

text \<open>A card that is not initialised: the host is told that a sector has been read, and its buffer
  is what it was.\<close>

lemma msc_sd_error_ignored:
  "tud_msc_read10_cb cfg PICORUBY_MSC_SD lba 0 buffer 512 (s\<lparr>dk_sd := sd_disk_init\<rparr>)
     = Some (MscReturn 512 (buffer, s\<lparr>dk_sd := sd_disk_init\<rparr>))"
  by (simp add: tud_msc_read10_cb_def check_sector_count_def MSC_SECTOR_SIZE_def SD_SECTOR_SIZE_def
      SD_disk_read_def sd_disk_init_def STA_NOINIT_def)

text \<open>An ejected medium stays ejected, also when the host loads it again.\<close>

lemma msc_ejected_for_ever: "snd (tud_msc_start_stop_cb start load_eject True)"
  by (simp add: tud_msc_start_stop_cb_def)

text \<open>The address of a file's first cluster shows the sectors that the drive reads there.\<close>

lemma physical_address_reads:
  assumes wf: "flash_wf sdk flash"
    and sec: "unat (clst2sect fs sclust) < 192"
  shows "FLASH_disk_read (replicate 4096 0) (clst2sect fs sclust) 1 flash
    = copy_from flash (unat (FILE_physical_address fs sclust)) 4096"
proof -
  have r: "unat (clst2sect fs sclust) + unat (1 :: u32) \<le> 192" using sec by simp
  have "0x140000 + unat (clst2sect fs sclust) * 4096 + 4096 \<le> 0x140000 + 192 * 4096"
    using sec mult_le_mono1 [of "Suc (unat (clst2sect fs sclust))" 192 4096] by simp
  also have "\<dots> \<le> length flash" using wf by (simp add: flash_wf_def)
  finally show ?thesis
    using flash_offsets(1,2) [OF r]
    by (simp add: FLASH_disk_read_def FILE_physical_address_def copy_from_def copy_into_def)
qed

end
