(* ===== verification/Fat.thy ===== *)
theory Fat
  imports Disk
begin

text \<open>
  The classes \<^verbatim>\<open>FAT\<close>, \<^verbatim>\<open>FAT::File\<close>, \<^verbatim>\<open>FAT::Dir\<close> and \<^verbatim>\<open>FAT::Stat\<close> for both virtual machines
  (\<^verbatim>\<open>picoruby-filesystem-fat/src/fat.c\<close> and the files under \<^verbatim>\<open>src/mruby\<close> and \<^verbatim>\<open>src/mrubyc\<close>). The FatFs
  library is a parameter: its functions on a state \<open>'v\<close> that holds the volumes and the open
  files and directories, which are named by the address of their \<^verbatim>\<open>FIL\<close> and \<^verbatim>\<open>DIR\<close> structures.
  \<open>None\<close> is undefined behaviour, or a loop that does not end.
\<close>

section \<open>Time stamps\<close>

record FILINFO =
  fsize :: u32
  fdate :: u16
  ftime :: u16
  fattrib :: u8
  fname :: string

definition FILINFO_zero :: FILINFO where
  "FILINFO_zero = \<lparr>fsize = 0, fdate = 0, ftime = 0, fattrib = 0, fname = []\<rparr>"

text \<open>A left shift of an \<^verbatim>\<open>int\<close>; it is undefined when the result does not fit.\<close>

definition int_shl :: "int \<Rightarrow> nat \<Rightarrow> int option" where
  "int_shl a n = (if 0 \<le> a \<and> a * 2 ^ n < 2 ^ 31 then Some (a * 2 ^ n) else None)"

text \<open>\<open>now\<close> is the result of \<^verbatim>\<open>time\<close>, \<open>localtime\<close> and \<open>mktime\<close> are those of the C library.\<close>

definition get_fattime :: "(int \<Rightarrow> tm) \<Rightarrow> int \<Rightarrow> int \<Rightarrow> u32 option" where
  "get_fattime localtime now unixtime_offset = do {
     let t = localtime (now + unixtime_offset);
     y \<leftarrow> int_shl (tm_year t + 1900 - 1980) 25;
     mo \<leftarrow> int_shl (tm_mon t + 1) 21;
     d \<leftarrow> int_shl (tm_mday t) 16;
     h \<leftarrow> int_shl (tm_hour t) 11;
     mi \<leftarrow> int_shl (tm_min t) 5;
     Some (word_of_int (y OR mo OR d OR h OR mi OR c_div (tm_sec t) 2))
   }"

definition unixtime2fno :: "(int \<Rightarrow> tm) \<Rightarrow> int \<Rightarrow> FILINFO \<Rightarrow> FILINFO option" where
  "unixtime2fno localtime unixtime fno = do {
     let t = localtime unixtime;
     y \<leftarrow> int_shl (tm_year t + 1900 - 1980) 9;
     mo \<leftarrow> int_shl (tm_mon t + 1) 5;
     h \<leftarrow> int_shl (tm_hour t) 11;
     mi \<leftarrow> int_shl (tm_min t) 5;
     Some (fno\<lparr>fdate := word_of_int (y OR mo OR tm_mday t),
               ftime := word_of_int (h OR mi OR c_div (tm_sec t) 2)\<rparr>)
   }"

definition fno2tm :: "FILINFO \<Rightarrow> tm" where
  "fno2tm fno =
     \<lparr>tm_sec = uint (ftime fno AND 31) * 2,
      tm_min = uint (drop_bit 5 (ftime fno) AND 63),
      tm_hour = uint (drop_bit 11 (ftime fno)),
      tm_mday = uint (fdate fno AND 31),
      tm_mon = uint (drop_bit 5 (fdate fno) AND 15) - 1,
      tm_year = uint (drop_bit 9 (fdate fno)) + 1980 - 1900\<rparr>"

definition fno2unixtime :: "(tm \<Rightarrow> int) \<Rightarrow> FILINFO \<Rightarrow> int" where
  "fno2unixtime mktime fno = mktime (fno2tm fno)"

section \<open>Errors\<close>

datatype FRESULT =
    FR_OK | FR_DISK_ERR | FR_INT_ERR | FR_NOT_READY | FR_NO_FILE | FR_NO_PATH | FR_INVALID_NAME
  | FR_DENIED | FR_EXIST | FR_INVALID_OBJECT | FR_WRITE_PROTECTED | FR_INVALID_DRIVE
  | FR_NOT_ENABLED | FR_NO_FILESYSTEM | FR_MKFS_ABORTED | FR_TIMEOUT | FR_LOCKED
  | FR_NOT_ENOUGH_CORE | FR_TOO_MANY_OPEN_FILES | FR_INVALID_PARAMETER

fun fat_message :: "FRESULT \<Rightarrow> string" where
  "fat_message FR_OK = []"
| "fat_message FR_DISK_ERR = ''Unrecoverable hard error''"
| "fat_message FR_INT_ERR = ''Insanity is detected''"
| "fat_message FR_NOT_READY = ''Storage device not ready''"
| "fat_message FR_NO_FILE = ''No such file''"
| "fat_message FR_NO_PATH = ''No such path''"
| "fat_message FR_INVALID_NAME = ''Invalid as a path name''"
| "fat_message FR_DENIED = ''Permission denied''"
| "fat_message FR_EXIST = ''File exists''"
| "fat_message FR_INVALID_OBJECT = ''Invalid object''"
| "fat_message FR_WRITE_PROTECTED = ''Write protected''"
| "fat_message FR_INVALID_DRIVE = ''Invalid drive number''"
| "fat_message FR_NOT_ENABLED = ''Drive not mounted''"
| "fat_message FR_NO_FILESYSTEM = ''No valid FAT volume found''"
| "fat_message FR_MKFS_ABORTED = ''Volume format could not start''"
| "fat_message FR_TIMEOUT = ''Timeout''"
| "fat_message FR_LOCKED = ''Object locked''"
| "fat_message FR_NOT_ENOUGH_CORE = ''No enough memory''"
| "fat_message FR_TOO_MANY_OPEN_FILES = ''Too many open files''"
| "fat_message FR_INVALID_PARAMETER = ''Invalid parameter''"

text \<open>\<^verbatim>\<open>sprintf\<close> writes the text and a NUL into a buffer of \<open>size\<close> bytes.\<close>

definition sprintf_at :: "nat \<Rightarrow> string \<Rightarrow> string \<Rightarrow> string option" where
  "sprintf_at sz message func =
     (let text = message @ '' @ '' @ func in if length text < sz then Some text else None)"

definition FAT_prepare_exception :: "nat \<Rightarrow> FRESULT \<Rightarrow> string \<Rightarrow> (int \<times> string) option" where
  "FAT_prepare_exception sz res func =
     (if res = FR_OK then Some (0, [])
      else do { text \<leftarrow> sprintf_at sz (fat_message res) func; Some (- 1, text) })"

text \<open>\<^verbatim>\<open>mrb_raise\<close> leaves the method; \<^verbatim>\<open>mrbc_raise\<close> only records the exception, the last one counts.\<close>

definition mrb_raise_iff_f_error :: "FRESULT \<Rightarrow> string \<Rightarrow> rb_error option option" where
  "mrb_raise_iff_f_error res func = do {
     (r, buff) \<leftarrow> FAT_prepare_exception 64 res func;
     Some (if r < 0 then Some (RuntimeError buff) else None)
   }"

definition mrbc_raise_iff_f_error :: "FRESULT \<Rightarrow> string \<Rightarrow> rb_error option \<Rightarrow> rb_error option option" where
  "mrbc_raise_iff_f_error res func exc = do {
     (r, buff) \<leftarrow> FAT_prepare_exception 64 res func;
     Some (if r < 0 then Some (RuntimeError buff) else exc)
   }"

section \<open>The FatFs library\<close>

definition FA_READ :: u8 where "FA_READ = 0x01"
definition FA_WRITE :: u8 where "FA_WRITE = 0x02"
definition FA_CREATE_NEW :: u8 where "FA_CREATE_NEW = 0x04"
definition FA_CREATE_ALWAYS :: u8 where "FA_CREATE_ALWAYS = 0x08"
definition FA_OPEN_APPEND :: u8 where "FA_OPEN_APPEND = 0x30"
definition AM_RDO :: u8 where "AM_RDO = 0x01"
definition AM_HID :: u8 where "AM_HID = 0x02"
definition AM_SYS :: u8 where "AM_SYS = 0x04"
definition AM_DIR :: u8 where "AM_DIR = 0x10"
definition AM_ARC :: u8 where "AM_ARC = 0x20"

text \<open>\<open>f_fs\<close> is the volume of an open file, \<open>f_sect\<close> its current sector, \<open>f_sclust\<close> its first cluster.\<close>

record 'v fatfs_lib =
  f_mkfs :: "string \<Rightarrow> 'v \<Rightarrow> FRESULT \<times> 'v"
  f_getfree :: "string \<Rightarrow> 'v \<Rightarrow> FRESULT \<times> u32 \<times> FATFS \<times> 'v"
  f_mount :: "string \<Rightarrow> 'v \<Rightarrow> FRESULT \<times> 'v"
  f_unmount :: "string \<Rightarrow> 'v \<Rightarrow> FRESULT \<times> 'v"
  f_chdir :: "string \<Rightarrow> 'v \<Rightarrow> FRESULT \<times> 'v"
  f_utime :: "string \<Rightarrow> FILINFO \<Rightarrow> 'v \<Rightarrow> FRESULT \<times> 'v"
  f_mkdir :: "string \<Rightarrow> 'v \<Rightarrow> FRESULT \<times> 'v"
  f_chmod :: "string \<Rightarrow> u8 \<Rightarrow> u8 \<Rightarrow> 'v \<Rightarrow> FRESULT \<times> 'v"
  f_stat :: "string \<Rightarrow> FILINFO \<Rightarrow> 'v \<Rightarrow> FRESULT \<times> FILINFO \<times> 'v"
  f_setlabel :: "string \<Rightarrow> 'v \<Rightarrow> FRESULT \<times> 'v"
  f_getlabel :: "string \<Rightarrow> 'v \<Rightarrow> FRESULT \<times> string \<times> 'v"
  f_unlink :: "string \<Rightarrow> 'v \<Rightarrow> FRESULT \<times> 'v"
  f_rename :: "string \<Rightarrow> string \<Rightarrow> 'v \<Rightarrow> FRESULT \<times> 'v"
  f_open :: "nat \<Rightarrow> string \<Rightarrow> u8 \<Rightarrow> 'v \<Rightarrow> FRESULT \<times> 'v"
  f_close :: "nat \<Rightarrow> 'v \<Rightarrow> FRESULT \<times> 'v"
  f_read :: "nat \<Rightarrow> u32 \<Rightarrow> 'v \<Rightarrow> FRESULT \<times> bytes \<times> 'v"
  f_write :: "nat \<Rightarrow> bytes \<Rightarrow> 'v \<Rightarrow> FRESULT \<times> u32 \<times> 'v"
  f_lseek :: "nat \<Rightarrow> u32 \<Rightarrow> 'v \<Rightarrow> FRESULT \<times> 'v"
  f_expand :: "nat \<Rightarrow> u32 \<Rightarrow> 'v \<Rightarrow> FRESULT \<times> 'v"
  f_sync :: "nat \<Rightarrow> 'v \<Rightarrow> FRESULT \<times> 'v"
  f_size :: "nat \<Rightarrow> 'v \<Rightarrow> u32"
  f_tell :: "nat \<Rightarrow> 'v \<Rightarrow> u32"
  f_eof :: "nat \<Rightarrow> 'v \<Rightarrow> bool"
  f_sect :: "nat \<Rightarrow> 'v \<Rightarrow> u32"
  f_fs :: "nat \<Rightarrow> 'v \<Rightarrow> FATFS option"
  f_sclust :: "nat \<Rightarrow> 'v \<Rightarrow> u32"
  f_opendir :: "nat \<Rightarrow> string \<Rightarrow> 'v \<Rightarrow> FRESULT \<times> 'v"
  f_closedir :: "nat \<Rightarrow> 'v \<Rightarrow> FRESULT \<times> 'v"
  f_findnext :: "nat \<Rightarrow> FILINFO \<Rightarrow> 'v \<Rightarrow> FRESULT \<times> FILINFO \<times> 'v"
  f_set_pat :: "nat \<Rightarrow> string \<Rightarrow> 'v \<Rightarrow> 'v"
  f_readdir :: "nat \<Rightarrow> FILINFO \<Rightarrow> 'v \<Rightarrow> FRESULT \<times> FILINFO \<times> 'v"
  f_rewinddir :: "nat \<Rightarrow> 'v \<Rightarrow> 'v"

text \<open>The results of a method: mruby leaves it with an exception or a value, mruby/c with the
  exception that is set, if any, and the return value.\<close>

type_synonym 'v mrb_out = "(mrb_value rb_result \<times> 'v) option"
type_synonym 'v mrbc_out = "(rb_error option \<times> mrb_value \<times> 'v) option"

text \<open>A method that calls one function and raises its error, or returns a value.\<close>

definition mrb_call :: "string \<Rightarrow> mrb_value \<Rightarrow> FRESULT \<times> 'v \<Rightarrow> 'v mrb_out" where
  "mrb_call func ret rv = do {
     e \<leftarrow> mrb_raise_iff_f_error (fst rv) func;
     Some (case e of Some err \<Rightarrow> Inl err | None \<Rightarrow> Inr ret, snd rv)
   }"

definition mrbc_call :: "string \<Rightarrow> mrb_value \<Rightarrow> FRESULT \<times> 'v \<Rightarrow> 'v mrbc_out" where
  "mrbc_call func ret rv = do {
     e \<leftarrow> mrbc_raise_iff_f_error (fst rv) func None;
     Some (e, ret, snd rv)
   }"

end
