(* ===== verification/FatClass.thy ===== *)
theory FatClass
  imports Fat
begin

text \<open>
  The methods of the class \<^verbatim>\<open>FAT\<close> and \<^verbatim>\<open>FAT::Stat\<close> for mruby
  (\<^verbatim>\<open>picoruby-filesystem-fat/src/mruby/fat.c\<close>) and mruby/c (\<^verbatim>\<open>src/mrubyc/fat.c\<close>). Arguments come
  parsed: strings as the C strings that the code reads, integers as numbers.
\<close>

section \<open>Drives\<close>

definition mrb_unixtime_offset_e :: "int \<Rightarrow> int \<times> mrb_value" where
  "mrb_unixtime_offset_e offset = (offset, VInt 0)"

definition c_unixtime_offset_eq :: "u32 \<Rightarrow> int \<times> mrb_value" where
  "c_unixtime_offset_eq arg = (sint arg, VInt (sint arg))"

definition VolumeStr :: "string list" where "VolumeStr = [''ram'', ''flash'', ''sd'']"

text \<open>The search over the volumes gives \<^verbatim>\<open>FF_VOLUMES\<close>, the length of the table, for an unknown name.\<close>

fun volume_index :: "string list \<Rightarrow> string \<Rightarrow> nat" where
  "volume_index [] volume = 0"
| "volume_index (v # vs) volume = (if v = volume then 0 else Suc (volume_index vs volume))"

text \<open>The last byte of the argument is overwritten in place; an empty string has no last byte.\<close>

definition mrb__erase :: "disk_config \<Rightarrow> string \<Rightarrow> disks \<Rightarrow> (mrb_value rb_result \<times> disks) option" where
  "mrb__erase cfg volume s =
     (if volume = [] then None
      else let i = volume_index VolumeStr (butlast volume)
           in Some (if i < length VolumeStr
                    then (Inr (VInt 0), snd (disk_erase cfg (of_nat i) s))
                    else (Inl (RuntimeError ''Volume not found in disk_erase''), s)))"

definition c__erase :: "disk_config \<Rightarrow> string \<Rightarrow> disks \<Rightarrow> (rb_error option \<times> mrb_value \<times> disks) option" where
  "c__erase cfg volume s =
     (if volume = [] then None
      else let i = volume_index VolumeStr (butlast volume)
           in Some (if i < length VolumeStr
                    then (None, VInt 0, snd (disk_erase cfg (of_nat i) s))
                    else (Some (RuntimeError ''Volume not found in disk_erase''), mrbc_self, s)))"

definition mrb__mkfs :: "'v fatfs_lib \<Rightarrow> string \<Rightarrow> 'v \<Rightarrow> 'v mrb_out" where
  "mrb__mkfs L path v = mrb_call ''f_mkfs'' (VInt 0) (f_mkfs L path v)"

definition c__mkfs :: "'v fatfs_lib \<Rightarrow> string \<Rightarrow> 'v \<Rightarrow> 'v mrbc_out" where
  "c__mkfs L path v = mrbc_call ''f_mkfs'' (VInt 0) (f_mkfs L path v)"

text \<open>Total and free sectors in one integer.\<close>

definition pack_free :: "FATFS \<Rightarrow> u32 \<Rightarrow> u32" where
  "pack_free fs fre_clust =
     (let tot_sect = (n_fatent fs - 2) * ucast (csize fs);
          fre_sect = fre_clust * ucast (csize fs)
      in push_bit 16 tot_sect OR fre_sect)"

definition mrb_getfree :: "'v fatfs_lib \<Rightarrow> string \<Rightarrow> 'v \<Rightarrow> 'v mrb_out" where
  "mrb_getfree L path v =
     (let (res, fre_clust, fs, v) = f_getfree L path v
      in mrb_call ''f_getfree'' (VInt (uint (pack_free fs fre_clust))) (res, v))"

definition c_getfree :: "'v fatfs_lib \<Rightarrow> string \<Rightarrow> 'v \<Rightarrow> 'v mrbc_out" where
  "c_getfree L path v =
     (let (res, fre_clust, fs, v) = f_getfree L path v
      in mrbc_call ''f_getfree'' (VInt (sint (pack_free fs fre_clust))) (res, v))"

text \<open>
  In mruby the structure behind a FAT object holds the prefix: it is a null pointer, points to a
  structure, or to one that has been freed. \<open>mrb_fatfs_free\<close> runs when the volume is unmounted,
  and when the object is collected.
\<close>

datatype fatfs_ptr = PNull | PData "string option" | PFreed

definition mrb_fatfs_free :: "'v fatfs_lib \<Rightarrow> fatfs_ptr \<Rightarrow> 'v \<Rightarrow> (rb_error option \<times> fatfs_ptr \<times> 'v) option" where
  "mrb_fatfs_free L p v =
     (case p of
        PNull \<Rightarrow> Some (None, PNull, v)
      | PFreed \<Rightarrow> None
      | PData None \<Rightarrow> Some (None, PFreed, v)
      | PData (Some prefix) \<Rightarrow> do {
          let (res, v) = f_unmount L prefix v;
          e \<leftarrow> mrb_raise_iff_f_error res ''f_mount'';
          Some (case e of Some err \<Rightarrow> (Some err, p, v) | None \<Rightarrow> (None, PFreed, v))
        })"

definition mrb__mount ::
    "'v fatfs_lib \<Rightarrow> string option \<Rightarrow> string \<Rightarrow> 'v \<Rightarrow> (mrb_value rb_result \<times> fatfs_ptr \<times> 'v) option" where
  "mrb__mount L prefix path v =
     (case prefix of
        None \<Rightarrow> Some (Inl (RuntimeError ''Prefix not found in FATFS#_mount''), PData None, v)
      | Some pr \<Rightarrow> do {
          (r, v) \<leftarrow> mrb_call ''f_mount'' (VInt 0) (f_mount L path v);
          Some (r, PData (Some pr), v)
        })"

definition mrb__unmount ::
    "'v fatfs_lib \<Rightarrow> fatfs_ptr \<Rightarrow> 'v \<Rightarrow> (mrb_value rb_result \<times> fatfs_ptr \<times> 'v) option" where
  "mrb__unmount L p v = do {
     (e, p, v) \<leftarrow> mrb_fatfs_free L p v;
     Some (case e of Some err \<Rightarrow> Inl err | None \<Rightarrow> Inr (VInt 0), p, v)
   }"

definition c__mount :: "'v fatfs_lib \<Rightarrow> string \<Rightarrow> 'v \<Rightarrow> 'v mrbc_out" where
  "c__mount L path v = mrbc_call ''f_mount'' (VInt 0) (f_mount L path v)"

definition c__unmount :: "'v fatfs_lib \<Rightarrow> string \<Rightarrow> 'v \<Rightarrow> 'v mrbc_out" where
  "c__unmount L path v = mrbc_call ''f_unmount'' (VInt 0) (f_unmount L path v)"

section \<open>Paths\<close>

definition mrb__chdir :: "'v fatfs_lib \<Rightarrow> string \<Rightarrow> 'v \<Rightarrow> 'v mrb_out" where
  "mrb__chdir L name v = mrb_call ''f_chdir'' (VInt 0) (f_chdir L name v)"

definition c__chdir :: "'v fatfs_lib \<Rightarrow> string \<Rightarrow> 'v \<Rightarrow> 'v mrbc_out" where
  "c__chdir L name v = mrbc_call ''f_chdir'' (VInt 0) (f_chdir L name v)"

definition mrb__utime :: "'v fatfs_lib \<Rightarrow> (int \<Rightarrow> tm) \<Rightarrow> int \<Rightarrow> string \<Rightarrow> 'v \<Rightarrow> 'v mrb_out" where
  "mrb__utime L localtime unixtime name v = do {
     fno \<leftarrow> unixtime2fno localtime unixtime FILINFO_zero;
     mrb_call ''f_utime'' (VInt 1) (f_utime L name fno v)
   }"

definition c__utime :: "'v fatfs_lib \<Rightarrow> (int \<Rightarrow> tm) \<Rightarrow> u32 \<Rightarrow> string \<Rightarrow> 'v \<Rightarrow> 'v mrbc_out" where
  "c__utime L localtime unixtime name v = do {
     fno \<leftarrow> unixtime2fno localtime (sint unixtime) FILINFO_zero;
     mrbc_call ''f_utime'' (VInt 1) (f_utime L name fno v)
   }"

definition mrb__mkdir :: "'v fatfs_lib \<Rightarrow> string \<Rightarrow> 'v \<Rightarrow> 'v mrb_out" where
  "mrb__mkdir L name v = mrb_call ''f_mkdir'' (VInt 0) (f_mkdir L name v)"

definition c__mkdir :: "'v fatfs_lib \<Rightarrow> string \<Rightarrow> 'v \<Rightarrow> 'v mrbc_out" where
  "c__mkdir L name v = mrbc_call ''f_mkdir'' (VInt 0) (f_mkdir L name v)"

definition chmod_mask :: u8 where
  "chmod_mask = AM_RDO OR AM_ARC OR AM_SYS OR AM_HID"

definition mrb__chmod :: "'v fatfs_lib \<Rightarrow> int \<Rightarrow> string \<Rightarrow> 'v \<Rightarrow> 'v mrb_out" where
  "mrb__chmod L attr path v = mrb_call ''f_chmod'' (VInt 0) (f_chmod L path (word_of_int attr) chmod_mask v)"

definition c__chmod :: "'v fatfs_lib \<Rightarrow> u32 \<Rightarrow> string \<Rightarrow> 'v \<Rightarrow> 'v mrbc_out" where
  "c__chmod L attr path v = mrbc_call ''f_chmod'' (VInt 0) (f_chmod L path (ucast attr) chmod_mask v)"

definition mrb__stat :: "'v fatfs_lib \<Rightarrow> (tm \<Rightarrow> int) \<Rightarrow> string \<Rightarrow> 'v \<Rightarrow> 'v mrb_out" where
  "mrb__stat L mktime path v =
     (let (res, fno, v) = f_stat L path FILINFO_zero v
      in mrb_call ''f_stat''
           (VHash [(VSym ''size'', VInt (uint (fsize fno))),
                   (VSym ''unixtime'', VInt (fno2unixtime mktime fno)),
                   (VSym ''mode'', VInt (uint (fattrib fno)))])
           (res, v))"

definition c__stat :: "'v fatfs_lib \<Rightarrow> (tm \<Rightarrow> int) \<Rightarrow> string \<Rightarrow> 'v \<Rightarrow> 'v mrbc_out" where
  "c__stat L mktime path v =
     (let (res, fno, v) = f_stat L path FILINFO_zero v
      in mrbc_call ''f_stat''
           (VHash [(VSym ''size'', VInt (sint (fsize fno))),
                   (VSym ''unixtime'', VInt (c_int (fno2unixtime mktime fno))),
                   (VSym ''mode'', VInt (uint (fattrib fno)))])
           (res, v))"

text \<open>The two predicates raise nothing.\<close>

definition mrb__directory_p :: "'v fatfs_lib \<Rightarrow> string \<Rightarrow> 'v \<Rightarrow> mrb_value \<times> 'v" where
  "mrb__directory_p L path v =
     (let (res, fno, v) = f_stat L path FILINFO_zero v
      in (if res = FR_OK \<and> fattrib fno AND AM_DIR \<noteq> 0 then VTrue else VFalse, v))"

definition mrb__exist_p :: "'v fatfs_lib \<Rightarrow> string \<Rightarrow> 'v \<Rightarrow> mrb_value \<times> 'v" where
  "mrb__exist_p L path v =
     (let (res, fno, v) = f_stat L path FILINFO_zero v in (if res = FR_OK then VTrue else VFalse, v))"

definition c__directory_q :: "'v fatfs_lib \<Rightarrow> string \<Rightarrow> 'v \<Rightarrow> mrb_value \<times> 'v" where
  "c__directory_q L path v =
     (let (res, fno, v) = f_stat L path FILINFO_zero v
      in (if res = FR_OK \<and> fattrib fno AND AM_DIR \<noteq> 0 then VTrue else VFalse, v))"

definition c__exist_q :: "'v fatfs_lib \<Rightarrow> string \<Rightarrow> 'v \<Rightarrow> mrb_value \<times> 'v" where
  "c__exist_q L path v =
     (let (res, fno, v) = f_stat L path FILINFO_zero v in (if res = FR_OK then VTrue else VFalse, v))"

definition mrb__unlink :: "'v fatfs_lib \<Rightarrow> string \<Rightarrow> 'v \<Rightarrow> 'v mrb_out" where
  "mrb__unlink L path v = mrb_call ''f_unlink'' (VInt 0) (f_unlink L path v)"

definition c__unlink :: "'v fatfs_lib \<Rightarrow> string \<Rightarrow> 'v \<Rightarrow> 'v mrbc_out" where
  "c__unlink L path v = mrbc_call ''f_unlink'' (VInt 0) (f_unlink L path v)"

definition mrb__rename :: "'v fatfs_lib \<Rightarrow> string \<Rightarrow> string \<Rightarrow> 'v \<Rightarrow> 'v mrb_out" where
  "mrb__rename L from to v = mrb_call ''f_rename'' (VInt 0) (f_rename L from to v)"

definition c__rename :: "'v fatfs_lib \<Rightarrow> string \<Rightarrow> string \<Rightarrow> 'v \<Rightarrow> 'v mrbc_out" where
  "c__rename L from to v = mrbc_call ''f_rename'' (VInt 0) (f_rename L from to v)"

definition mrb__setlabel :: "'v fatfs_lib \<Rightarrow> string \<Rightarrow> 'v \<Rightarrow> 'v mrb_out" where
  "mrb__setlabel L label v = mrb_call ''f_setlabel'' (VInt 0) (f_setlabel L label v)"

definition c__setlabel :: "'v fatfs_lib \<Rightarrow> string \<Rightarrow> 'v \<Rightarrow> 'v mrbc_out" where
  "c__setlabel L label v = mrbc_call ''f_setlabel'' (VInt 0) (f_setlabel L label v)"

text \<open>The label is written to an array of 12 bytes. Where mruby/c goes on after an error, it returns
  what the library has left there.\<close>

definition mrb__getlabel :: "'v fatfs_lib \<Rightarrow> string \<Rightarrow> 'v \<Rightarrow> 'v mrb_out" where
  "mrb__getlabel L path v =
     (let (res, label, v) = f_getlabel L path v
      in if 12 \<le> length label then None else mrb_call ''f_getlabel'' (str_value label) (res, v))"

definition c__getlabel :: "'v fatfs_lib \<Rightarrow> string \<Rightarrow> 'v \<Rightarrow> 'v mrbc_out" where
  "c__getlabel L path v =
     (let (res, label, v) = f_getlabel L path v
      in if 12 \<le> length label then None else mrbc_call ''f_getlabel'' (str_value label) (res, v))"

section \<open>Contiguous files\<close>

text \<open>The loop over the sectors of the open file \<open>fil\<close>; the result is the method's, with whether the
  file has been closed. In mruby/c the loop goes on after an error.\<close>

partial_function (option) mrb_contiguous_loop ::
    "'v fatfs_lib \<Rightarrow> nat \<Rightarrow> u32 \<Rightarrow> u32 \<Rightarrow> u32 \<Rightarrow> 'v \<Rightarrow> 'v mrb_out" where
  "mrb_contiguous_loop L fil file_size offset prev_sect v =
     (if offset < file_size
      then do {
        let offset = offset + FILE_sector_size;
        let (res, v) = f_lseek L fil offset v;
        e \<leftarrow> mrb_raise_iff_f_error res ''f_lseek in File.contiguous?'';
        (case e of
           Some err \<Rightarrow> Some (Inl err, v)
         | None \<Rightarrow>
             (if prev_sect + 1 \<noteq> f_sect L fil v then Some (Inr VFalse, snd (f_close L fil v))
              else mrb_contiguous_loop L fil file_size offset (f_sect L fil v) v))
      }
      else Some (Inr VTrue, v))"

definition mrb__contiguous_p :: "'v fatfs_lib \<Rightarrow> nat \<Rightarrow> string \<Rightarrow> 'v \<Rightarrow> 'v mrb_out" where
  "mrb__contiguous_p L fil path v = do {
     let (res, fno, v) = f_stat L path FILINFO_zero v;
     (if res = FR_OK \<and> fattrib fno AND AM_DIR \<noteq> 0
      then Some (Inl (RuntimeError ''Is a directory''), v)
      else do {
        let (res, v) = f_open L fil path FA_READ v;
        e \<leftarrow> mrb_raise_iff_f_error res ''f_open in File.contiguous?'';
        (case e of
           Some err \<Rightarrow> Some (Inl err, v)
         | None \<Rightarrow>
             (if f_size L fil v < FILE_sector_size then Some (Inr VTrue, snd (f_close L fil v))
              else if f_sect L fil v = 0
              then Some (Inl (RuntimeError ''Invalid sector number''), snd (f_close L fil v))
              else mrb_contiguous_loop L fil (f_size L fil v) 0 (f_sect L fil v) v))
      })
   }"

partial_function (option) c_contiguous_loop ::
    "'v fatfs_lib \<Rightarrow> nat \<Rightarrow> u32 \<Rightarrow> u32 \<Rightarrow> u32 \<Rightarrow> rb_error option \<Rightarrow> 'v \<Rightarrow> 'v mrbc_out" where
  "c_contiguous_loop L fil file_size offset prev_sect exc v =
     (if offset < file_size
      then do {
        let offset = offset + FILE_sector_size;
        let (res, v) = f_lseek L fil offset v;
        exc \<leftarrow> mrbc_raise_iff_f_error res ''f_lseek in File.contiguous?'' exc;
        (if prev_sect + 1 \<noteq> f_sect L fil v then Some (exc, VFalse, snd (f_close L fil v))
         else c_contiguous_loop L fil file_size offset (f_sect L fil v) exc v)
      }
      else Some (exc, VTrue, snd (f_close L fil v)))"

definition c__contiguous_q :: "'v fatfs_lib \<Rightarrow> nat \<Rightarrow> string \<Rightarrow> 'v \<Rightarrow> 'v mrbc_out" where
  "c__contiguous_q L fil path v = do {
     let (res, fno, v) = f_stat L path FILINFO_zero v;
     (if res = FR_OK \<and> fattrib fno AND AM_DIR \<noteq> 0
      then Some (Some (RuntimeError ''Is a directory''), mrbc_self, v)
      else do {
        let (res, v) = f_open L fil path FA_READ v;
        e \<leftarrow> mrbc_raise_iff_f_error res ''f_open in File.contiguous?'' None;
        (if res \<noteq> FR_OK then Some (e, mrbc_self, v)
         else if f_size L fil v < FILE_sector_size then Some (e, VTrue, snd (f_close L fil v))
         else if f_sect L fil v = 0
         then Some (Some (RuntimeError ''Invalid sector number''), mrbc_self, snd (f_close L fil v))
         else c_contiguous_loop L fil (f_size L fil v) 0 (f_sect L fil v) e v)
      })
   }"

section \<open>The SPI unit of the card\<close>

definition mrb_FAT_init_spi :: "string \<Rightarrow> int \<Rightarrow> int \<Rightarrow> int \<Rightarrow> int \<Rightarrow> sd_disk \<Rightarrow> mrb_value rb_result \<times> sd_disk" where
  "mrb_FAT_init_spi unit_name sck cipo copi cs s =
     (let (r, s) = FAT_set_spi_unit unit_name (c_int sck) (c_int cipo) (c_int copi) (c_int cs) s
      in if r < 0 then (Inl (RuntimeError ''Invalid SPI unit.''), s) else (Inr (VInt 0), s))"

definition c_FAT_init_spi ::
    "string \<Rightarrow> u32 \<Rightarrow> u32 \<Rightarrow> u32 \<Rightarrow> u32 \<Rightarrow> sd_disk \<Rightarrow> rb_error option \<times> mrb_value \<times> sd_disk" where
  "c_FAT_init_spi unit_name sck cipo copi cs s =
     (let (r, s) = FAT_set_spi_unit unit_name (sint sck) (sint cipo) (sint copi) (sint cs) s
      in if r < 0 then (Some (RuntimeError ''Invalid SPI unit.''), mrbc_self, s) else (None, VInt 0, s))"

end
