(* ===== verification/FatFile.thy ===== *)
theory FatFile
  imports FatClass
begin

text \<open>
  The methods of \<^verbatim>\<open>FAT::File\<close> and \<^verbatim>\<open>FAT::Dir\<close> for mruby (\<^verbatim>\<open>src/mruby/fat_file.c\<close>,
  \<^verbatim>\<open>src/mruby/fat_dir.c\<close>) and mruby/c (\<^verbatim>\<open>src/mrubyc/fat_file.c\<close>, \<^verbatim>\<open>src/mrubyc/fat_dir.c\<close>). \<open>fil\<close> is
  the address of the \<^verbatim>\<open>FIL\<close> structure behind a file, \<open>dp\<close> that of the \<^verbatim>\<open>DIR\<close> structure behind a
  directory.
\<close>

section \<open>Opening and closing\<close>

fun open_mode :: "string \<Rightarrow> u8 option" where
  "open_mode mode_str =
     (if mode_str = ''r'' then Some FA_READ
      else if mode_str = ''r+'' then Some (FA_READ OR FA_WRITE)
      else if mode_str = ''w'' then Some (FA_CREATE_ALWAYS OR FA_WRITE)
      else if mode_str = ''w+'' then Some (FA_CREATE_ALWAYS OR FA_WRITE OR FA_READ)
      else if mode_str = ''a'' then Some (FA_OPEN_APPEND OR FA_WRITE)
      else if mode_str = ''a+'' then Some (FA_OPEN_APPEND OR FA_WRITE OR FA_READ)
      else if mode_str = ''wx'' then Some (FA_CREATE_NEW OR FA_WRITE)
      else if mode_str = ''w+x'' then Some (FA_CREATE_NEW OR FA_WRITE OR FA_READ)
      else None)"

declare open_mode.simps [simp del]

text \<open>
  In mruby the object owns the structure from the start. The second result tells whether \<open>f_open\<close>
  has filled it: if not, the finalizer reads memory that has never been written.
\<close>

definition mrb_File_new ::
    "'v fatfs_lib \<Rightarrow> nat \<Rightarrow> string \<Rightarrow> string \<Rightarrow> 'v \<Rightarrow> (mrb_value rb_result \<times> bool \<times> 'v) option" where
  "mrb_File_new L fil path mode_str v =
     (case open_mode mode_str of
        None \<Rightarrow> Some (Inl (ArgumentError ''Unknown file open mode''), False, v)
      | Some mode \<Rightarrow> do {
          (r, v) \<leftarrow> mrb_call path (VObj fil) (f_open L fil path mode v);
          Some (r, True, v)
        })"

definition mrb_fat_file_free :: "'v fatfs_lib \<Rightarrow> nat \<Rightarrow> bool \<Rightarrow> 'v \<Rightarrow> 'v option" where
  "mrb_fat_file_free L fil filled v = (if filled then Some (snd (f_close L fil v)) else None)"

definition c_File_new :: "'v fatfs_lib \<Rightarrow> nat \<Rightarrow> string \<Rightarrow> string \<Rightarrow> 'v \<Rightarrow> 'v mrbc_out" where
  "c_File_new L fil path mode_str v = do {
     let (exc, mode) = (case open_mode mode_str of
                          Some mode \<Rightarrow> (None, mode)
                        | None \<Rightarrow> (Some (ArgumentError ''Unknown file open mode''), 0));
     let (res, v) = f_open L fil path mode v;
     exc \<leftarrow> mrbc_raise_iff_f_error res path exc;
     Some (exc, VObj fil, v)
   }"

definition mrb_File_close :: "'v fatfs_lib \<Rightarrow> nat \<Rightarrow> 'v \<Rightarrow> 'v mrb_out" where
  "mrb_File_close L fil v = mrb_call ''f_close'' VNil (f_close L fil v)"

definition c_File_close :: "'v fatfs_lib \<Rightarrow> nat \<Rightarrow> 'v \<Rightarrow> 'v mrbc_out" where
  "c_File_close L fil v = mrbc_call ''f_close'' VNil (f_close L fil v)"

section \<open>Position and size\<close>

text \<open>The addresses differ in the class of the error and in the width of the integer.\<close>

definition mrb_sector_size :: mrb_value where
  "mrb_sector_size = VInt (uint FILE_sector_size)"

definition c_sector_size :: mrb_value where
  "c_sector_size = VInt (sint FILE_sector_size)"

definition mrb_physical_address :: "'v fatfs_lib \<Rightarrow> nat \<Rightarrow> 'v \<Rightarrow> mrb_value rb_result" where
  "mrb_physical_address L fil v =
     (case f_fs L fil v of
        None \<Rightarrow> Inl (RuntimeError ''Invalid file object'')
      | Some fs \<Rightarrow> Inr (VInt (uint (FILE_physical_address fs (f_sclust L fil v)))))"

definition c_physical_address :: "'v fatfs_lib \<Rightarrow> nat \<Rightarrow> 'v \<Rightarrow> rb_error option \<times> mrb_value" where
  "c_physical_address L fil v =
     (case f_fs L fil v of
        None \<Rightarrow> (Some (ArgumentError ''Invalid file object''), mrbc_self)
      | Some fs \<Rightarrow> (None, VInt (sint (FILE_physical_address fs (f_sclust L fil v)))))"

definition mrb_tell :: "'v fatfs_lib \<Rightarrow> nat \<Rightarrow> 'v \<Rightarrow> mrb_value" where
  "mrb_tell L fil v = VInt (uint (f_tell L fil v))"

definition c_tell :: "'v fatfs_lib \<Rightarrow> nat \<Rightarrow> 'v \<Rightarrow> mrb_value" where
  "c_tell L fil v = VInt (sint (f_tell L fil v))"

definition mrb_size :: "'v fatfs_lib \<Rightarrow> nat \<Rightarrow> 'v \<Rightarrow> mrb_value" where
  "mrb_size L fil v = VInt (uint (f_size L fil v))"

definition c_size :: "'v fatfs_lib \<Rightarrow> nat \<Rightarrow> 'v \<Rightarrow> mrb_value" where
  "c_size L fil v = VInt (sint (f_size L fil v))"

definition mrb_eof_p :: "'v fatfs_lib \<Rightarrow> nat \<Rightarrow> 'v \<Rightarrow> mrb_value" where
  "mrb_eof_p L fil v = (if f_eof L fil v then VTrue else VFalse)"

definition c_eof_q :: "'v fatfs_lib \<Rightarrow> nat \<Rightarrow> 'v \<Rightarrow> mrb_value" where
  "c_eof_q L fil v = (if f_eof L fil v then VTrue else VFalse)"


text \<open>The position is unsigned: the test for a negative one never succeeds and is left out.\<close>

definition seek_pos :: "'v fatfs_lib \<Rightarrow> nat \<Rightarrow> u32 \<Rightarrow> int \<Rightarrow> 'v \<Rightarrow> u32 option" where
  "seek_pos L fil ofs whence v =
     (if whence = SEEK_SET then Some ofs
      else if whence = SEEK_CUR then Some (f_tell L fil v + ofs)
      else if whence = SEEK_END then Some (f_size L fil v + ofs)
      else None)"

text \<open>A seek behind the end allocates the space and flushes.\<close>

definition expand_sync :: "'v fatfs_lib \<Rightarrow> nat \<Rightarrow> u32 \<Rightarrow> 'v \<Rightarrow> FRESULT \<times> 'v" where
  "expand_sync L fil sz v =
     (let (res, v) = f_expand L fil sz v in if res = FR_OK then f_sync L fil v else (res, v))"

definition mrb_seek :: "'v fatfs_lib \<Rightarrow> nat \<Rightarrow> int \<Rightarrow> int \<Rightarrow> 'v \<Rightarrow> 'v mrb_out" where
  "mrb_seek L fil ofs whence v =
     (case seek_pos L fil (word_of_int ofs) whence v of
        None \<Rightarrow> Some (Inl (ArgumentError ''Unknown whence''), v)
      | Some new_pos \<Rightarrow> do {
          (r, v) \<leftarrow> (if f_size L fil v < new_pos
                    then mrb_call ''f_lseek|f_expand|f_sync'' VNil (expand_sync L fil new_pos v)
                    else Some (Inr VNil, v));
          (case r of
             Inl err \<Rightarrow> Some (Inl err, v)
           | Inr _ \<Rightarrow> mrb_call ''f_lseek'' (VInt 0) (f_lseek L fil new_pos v))
        })"

text \<open>In mruby/c the file pointer moves also after an error.\<close>

definition c_seek :: "'v fatfs_lib \<Rightarrow> nat \<Rightarrow> u32 \<Rightarrow> u32 \<Rightarrow> 'v \<Rightarrow> 'v mrbc_out" where
  "c_seek L fil ofs whence v =
     (case seek_pos L fil ofs (sint whence) v of
        None \<Rightarrow> Some (Some (ArgumentError ''Unknown whence''), mrbc_self, v)
      | Some new_pos \<Rightarrow> do {
          (exc, _, v) \<leftarrow> (if f_size L fil v < new_pos
                         then mrbc_call ''f_lseek|f_expand|f_sync'' VNil (expand_sync L fil new_pos v)
                         else Some (None, VNil, v));
          let (res, v) = f_lseek L fil new_pos v;
          exc \<leftarrow> mrbc_raise_iff_f_error res ''f_lseek'' exc;
          Some (exc, VInt 0, v)
        })"

definition mrb_expand :: "'v fatfs_lib \<Rightarrow> nat \<Rightarrow> int \<Rightarrow> 'v \<Rightarrow> 'v mrb_out" where
  "mrb_expand L fil sz v =
     mrb_call ''f_expand|f_sync'' (VInt sz) (expand_sync L fil (word_of_int sz) v)"

definition c_expand :: "'v fatfs_lib \<Rightarrow> nat \<Rightarrow> u32 \<Rightarrow> 'v \<Rightarrow> 'v mrbc_out" where
  "c_expand L fil sz v = mrbc_call ''f_expand|f_sync'' (VInt (sint sz)) (expand_sync L fil sz v)"

definition mrb_fsync :: "'v fatfs_lib \<Rightarrow> nat \<Rightarrow> 'v \<Rightarrow> 'v mrb_out" where
  "mrb_fsync L fil v = mrb_call ''f_sync'' (VInt 0) (f_sync L fil v)"

definition c_fsync :: "'v fatfs_lib \<Rightarrow> nat \<Rightarrow> 'v \<Rightarrow> 'v mrbc_out" where
  "c_fsync L fil v = mrbc_call ''f_sync'' (VInt 0) (f_sync L fil v)"

section \<open>Reading and writing\<close>

text \<open>The buffer is an array of \<open>btr\<close> bytes on the stack; an array of a negative size, or in mruby/c
  one of more than half of the address space, is undefined.\<close>

definition read_value :: "bytes \<Rightarrow> mrb_value" where
  "read_value data = (if data = [] then VNil else VStr data)"

definition mrb_File_read :: "'v fatfs_lib \<Rightarrow> nat \<Rightarrow> int \<Rightarrow> 'v \<Rightarrow> 'v mrb_out" where
  "mrb_File_read L fil btr v =
     (if btr < 0 then None
      else let (res, data, v) = f_read L fil (word_of_int btr) v
           in mrb_call ''f_read'' (read_value data) (res, v))"

definition c_File_read :: "'v fatfs_lib \<Rightarrow> nat \<Rightarrow> u32 \<Rightarrow> 'v \<Rightarrow> 'v mrbc_out" where
  "c_File_read L fil btr v =
     (if sint btr < 0 then None
      else let (res, data, v) = f_read L fil btr v
           in mrbc_call ''f_read'' (read_value data) (res, v))"

definition mrb_getbyte :: "'v fatfs_lib \<Rightarrow> nat \<Rightarrow> 'v \<Rightarrow> 'v mrb_out" where
  "mrb_getbyte L fil v =
     (let (res, data, v) = f_read L fil 1 v
      in mrb_call ''f_read'' (case data of [c] \<Rightarrow> VInt (uint c) | _ \<Rightarrow> VNil) (res, v))"

text \<open>The byte goes through a \<^verbatim>\<open>char\<close>, which is signed on some processors.\<close>

definition c_getbyte :: "bool \<Rightarrow> 'v fatfs_lib \<Rightarrow> nat \<Rightarrow> 'v \<Rightarrow> 'v mrbc_out" where
  "c_getbyte char_signed L fil v =
     (let (res, data, v) = f_read L fil 1 v
      in mrbc_call ''f_read''
           (case data of [] \<Rightarrow> VNil | c # _ \<Rightarrow> VInt (if char_signed then sint c else uint c)) (res, v))"

definition write_sync :: "'v fatfs_lib \<Rightarrow> nat \<Rightarrow> bytes \<Rightarrow> 'v \<Rightarrow> u32 \<times> FRESULT \<times> 'v" where
  "write_sync L fil str v =
     (let (res, bw, v) = f_write L fil str v
      in (bw, if res = FR_OK then f_sync L fil v else (res, v)))"

definition mrb_File_write :: "'v fatfs_lib \<Rightarrow> nat \<Rightarrow> bytes \<Rightarrow> 'v \<Rightarrow> 'v mrb_out" where
  "mrb_File_write L fil str v =
     (let (bw, rv) = write_sync L fil str v in mrb_call ''f_write|f_sync'' (VInt (uint bw)) rv)"

definition c_File_write :: "'v fatfs_lib \<Rightarrow> nat \<Rightarrow> bytes \<Rightarrow> 'v \<Rightarrow> 'v mrbc_out" where
  "c_File_write L fil str v =
     (let (bw, rv) = write_sync L fil str v in mrbc_call ''f_write|f_sync'' (VInt (sint bw)) rv)"

section \<open>The table of methods for other gems\<close>

text \<open>The slots of \<^verbatim>\<open>prb_vfs_methods\<close> and the methods that the two tables put there, in order.\<close>

datatype vfs_slot =
    file_new | file_close | file_read | file_write | file_seek | file_tell | file_size | file_fsync
  | file_exist_q | file_unlink | file_stat

datatype vfs_method =
    M_new | M_close | M_read | M_getbyte | M_write | M_seek | M_tell | M_size | M_fsync
  | M_exist | M_unlink

definition vfs_slots :: "vfs_slot list" where
  "vfs_slots = [file_new, file_close, file_read, file_write, file_seek, file_tell, file_size,
                file_fsync, file_exist_q, file_unlink, file_stat]"

definition mrb_s_vfs_methods :: "vfs_slot \<Rightarrow> vfs_method option" where
  "mrb_s_vfs_methods = map_of (zip vfs_slots
     [M_new, M_close, M_read, M_getbyte, M_write, M_seek, M_tell, M_size, M_fsync, M_exist, M_unlink])"

definition c_vfs_methods :: "vfs_slot \<Rightarrow> vfs_method option" where
  "c_vfs_methods = map_of (zip vfs_slots
     [M_new, M_close, M_read, M_write, M_seek, M_tell, M_size, M_fsync, M_exist, M_unlink])"

section \<open>Directories\<close>

definition not_a_directory :: rb_error where
  "not_a_directory = RuntimeError ''Not a directory @ dir_initialize''"

definition mrb_Dir_initialize :: "'v fatfs_lib \<Rightarrow> nat \<Rightarrow> string \<Rightarrow> 'v \<Rightarrow> 'v mrb_out" where
  "mrb_Dir_initialize L dp path v = do {
     let (res, fno, v) = f_stat L path FILINFO_zero v;
     e \<leftarrow> (if res \<noteq> FR_INVALID_NAME then mrb_raise_iff_f_error res ''f_stat'' else Some None);
     (case e of
        Some err \<Rightarrow> Some (Inl err, v)
      | None \<Rightarrow>
          (if res = FR_OK \<and> fattrib fno AND AM_DIR = 0 then Some (Inl not_a_directory, v)
           else mrb_call ''f_opendir'' (VObj dp) (f_opendir L dp path v)))
   }"

definition c_Dir_new :: "'v fatfs_lib \<Rightarrow> nat \<Rightarrow> string \<Rightarrow> 'v \<Rightarrow> 'v mrbc_out" where
  "c_Dir_new L dp path v = do {
     let (res, fno, v) = f_stat L path FILINFO_zero v;
     exc \<leftarrow> (if res \<noteq> FR_INVALID_NAME then mrbc_raise_iff_f_error res ''f_stat'' None else Some None);
     (if res = FR_OK \<and> fattrib fno AND AM_DIR = 0 then Some (Some not_a_directory, mrbc_self, v)
      else do {
        let (res, v) = f_opendir L dp path v;
        exc \<leftarrow> mrbc_raise_iff_f_error res ''f_opendir'' exc;
        Some (exc, VObj dp, v)
      })
   }"

definition mrb_fat_dir_free :: "'v fatfs_lib \<Rightarrow> nat \<Rightarrow> 'v \<Rightarrow> 'v" where
  "mrb_fat_dir_free L dp v = snd (f_closedir L dp v)"

definition mrb_Dir_close :: "'v fatfs_lib \<Rightarrow> nat \<Rightarrow> 'v \<Rightarrow> 'v mrb_out" where
  "mrb_Dir_close L dp v = mrb_call ''f_close'' VNil (f_closedir L dp v)"

definition c_Dir_close :: "'v fatfs_lib \<Rightarrow> nat \<Rightarrow> 'v \<Rightarrow> 'v mrbc_out" where
  "c_Dir_close L dp v = mrbc_call ''f_close'' VNil (f_closedir L dp v)"

text \<open>Errors of \<open>f_findnext\<close> look like the end of the directory.\<close>

definition name_value :: "string \<Rightarrow> mrb_value" where
  "name_value s = (if s = [] then VNil else str_value s)"

definition mrb_findnext :: "'v fatfs_lib \<Rightarrow> nat \<Rightarrow> 'v \<Rightarrow> mrb_value \<times> 'v" where
  "mrb_findnext L dp v =
     (let (fr, fno, v) = f_findnext L dp FILINFO_zero v
      in (if fr = FR_OK then name_value (fname fno) else VNil, v))"

definition c_findnext :: "'v fatfs_lib \<Rightarrow> nat \<Rightarrow> 'v \<Rightarrow> mrb_value \<times> 'v" where
  "c_findnext L dp v =
     (let (fr, fno, v) = f_findnext L dp FILINFO_zero v
      in (if fr = FR_OK then name_value (fname fno) else VNil, v))"

definition mrb_pat_e :: "'v fatfs_lib \<Rightarrow> nat \<Rightarrow> string \<Rightarrow> 'v \<Rightarrow> mrb_value \<times> 'v" where
  "mrb_pat_e L dp pat v = (VInt 0, f_set_pat L dp pat v)"

definition c_pat_eq :: "'v fatfs_lib \<Rightarrow> nat \<Rightarrow> string \<Rightarrow> 'v \<Rightarrow> mrb_value \<times> 'v" where
  "c_pat_eq L dp pat v = (VInt 0, f_set_pat L dp pat v)"

definition mrb_Dir_read :: "'v fatfs_lib \<Rightarrow> nat \<Rightarrow> 'v \<Rightarrow> 'v mrb_out" where
  "mrb_Dir_read L dp v =
     (let (res, fno, v) = f_readdir L dp FILINFO_zero v
      in mrb_call ''f_readdir'' (name_value (fname fno)) (res, v))"

definition c_Dir_read :: "'v fatfs_lib \<Rightarrow> nat \<Rightarrow> 'v \<Rightarrow> 'v mrbc_out" where
  "c_Dir_read L dp v =
     (let (res, fno, v) = f_readdir L dp FILINFO_zero v
      in mrbc_call ''f_readdir'' (name_value (fname fno)) (res, v))"

definition mrb_rewind :: "'v fatfs_lib \<Rightarrow> nat \<Rightarrow> 'v \<Rightarrow> mrb_value \<times> 'v" where
  "mrb_rewind L dp v = (mrbc_self, f_rewinddir L dp v)"

definition c_rewind :: "'v fatfs_lib \<Rightarrow> nat \<Rightarrow> 'v \<Rightarrow> mrb_value \<times> 'v" where
  "c_rewind L dp v = (mrbc_self, f_rewinddir L dp v)"

end
