(* ===== verification/FatProps.thy ===== *)
theory FatProps
  imports FatFile
begin

text \<open>
  What the FAT classes promise: time stamps survive, every error of the library becomes an exception
  whose text fits its buffer, the two virtual machines agree, and a file gives back what has been
  written to it.
\<close>

section \<open>Error texts\<close>

definition fat_error :: "FRESULT \<Rightarrow> string \<Rightarrow> rb_error" where
  "fat_error res func = RuntimeError (fat_message res @ '' @ '' @ func)"

lemma fat_message_length: "length (fat_message res) \<le> 29"
  by (cases res) simp_all

lemma raise_fits [simp]:
  "length func \<le> 31 \<Longrightarrow>
     mrb_raise_iff_f_error res func = Some (if res = FR_OK then None else Some (fat_error res func))"
  "length func \<le> 31 \<Longrightarrow>
     mrbc_raise_iff_f_error res func exc = Some (if res = FR_OK then exc else Some (fat_error res func))"
  using fat_message_length [of res]
  by (simp_all add: mrb_raise_iff_f_error_def mrbc_raise_iff_f_error_def FAT_prepare_exception_def
      sprintf_at_def fat_error_def Let_def)

lemma call_fits [simp]:
  "length func \<le> 31 \<Longrightarrow>
     mrb_call func ret (res, v) = Some (if res = FR_OK then Inr ret else Inl (fat_error res func), v)"
  "length func \<le> 31 \<Longrightarrow>
     mrbc_call func ret (res, v) = Some (if res = FR_OK then None else Some (fat_error res func), ret, v)"
  by (simp_all add: mrb_call_def mrbc_call_def)

lemma call_fits_pair:
  "length func \<le> 31 \<Longrightarrow>
     mrb_call func ret rv = Some (if fst rv = FR_OK then Inr ret else Inl (fat_error (fst rv) func), snd rv)"
  "length func \<le> 31 \<Longrightarrow>
     mrbc_call func ret rv = Some (if fst rv = FR_OK then None else Some (fat_error (fst rv) func), ret, snd rv)"
  by (cases rv, simp)+

text \<open>A long path that does not exist does not fit.\<close>

lemma open_overflows:
  assumes "open_mode mode_str = Some mode" and "f_open L fil path mode v = (FR_NO_FILE, v')"
    and "49 \<le> length path"
  shows "mrb_File_new L fil path mode_str v = None"
    and "c_File_new L fil path mode_str v = None"
  using assms
  by (simp_all add: mrb_File_new_def c_File_new_def mrb_call_def mrb_raise_iff_f_error_def
      mrbc_raise_iff_f_error_def FAT_prepare_exception_def sprintf_at_def)

section \<open>Contiguous files\<close>

text \<open>The offset does not wrap around below the last sector of 4 GB, and the loop ends.\<close>

lemma next_offset:
  assumes "sz \<le> 0xFFFFF000" and "offset < (sz :: u32)"
  shows "unat (offset + FILE_sector_size) = unat offset + 4096"
    and "unat sz - unat (offset + FILE_sector_size) < unat sz - unat offset"
proof -
  from assms have "unat sz \<le> 0xFFFFF000" and "unat offset < unat sz"
    by (simp_all add: word_le_nat_alt word_less_nat_alt)
  moreover from this have "unat offset + unat (4096 :: u32) < 2 ^ 32"
    by simp
  ultimately show "unat (offset + FILE_sector_size) = unat offset + 4096"
    by (subst unat_add_lem [THEN iffD1]) (simp_all add: FILE_sector_size_def FLASH_SECTOR_SIZE_def)
  with \<open>unat offset < unat sz\<close>
  show "unat sz - unat (offset + FILE_sector_size) < unat sz - unat offset"
    by simp
qed

lemma mrb_contiguous_loop_returns:
  "sz \<le> 0xFFFFF000 \<Longrightarrow> mrb_contiguous_loop L fil sz offset prev v \<noteq> None"
proof (induction "unat sz - unat offset" arbitrary: offset prev v rule: less_induct)
  case less
  show ?case
  proof (cases "offset < sz")
    case True
    with less have "mrb_contiguous_loop L fil sz (offset + FILE_sector_size) p w \<noteq> None" for p w
      using next_offset(2) by blast
    with True show ?thesis
      by (subst mrb_contiguous_loop.simps) (auto simp: case_prod_beta Let_def)
  qed (simp add: mrb_contiguous_loop.simps)
qed

lemma c_contiguous_loop_returns:
  "sz \<le> 0xFFFFF000 \<Longrightarrow> c_contiguous_loop L fil sz offset prev exc v \<noteq> None"
proof (induction "unat sz - unat offset" arbitrary: offset prev exc v rule: less_induct)
  case less
  show ?case
  proof (cases "offset < sz")
    case True
    with less have "c_contiguous_loop L fil sz (offset + FILE_sector_size) p e w \<noteq> None" for p e w
      using next_offset(2) by blast
    with True show ?thesis
      by (subst c_contiguous_loop.simps) (auto simp: case_prod_beta Let_def)
  qed (simp add: c_contiguous_loop.simps)
qed

text \<open>A file that has just been opened has no current sector, so the loop is never reached.\<close>

lemma contiguous_gives_up:
  assumes "f_stat L path FILINFO_zero v = (FR_OK, fno, v1)" and "fattrib fno AND AM_DIR = 0"
    and "f_open L fil path FA_READ v1 = (FR_OK, v2)"
    and "f_sect L fil v2 = 0" and "FILE_sector_size \<le> f_size L fil v2"
  shows "mrb__contiguous_p L fil path v =
           Some (Inl (RuntimeError ''Invalid sector number''), snd (f_close L fil v2))"
    and "c__contiguous_q L fil path v =
           Some (Some (RuntimeError ''Invalid sector number''), mrbc_self, snd (f_close L fil v2))"
  using assms by (simp_all add: mrb__contiguous_p_def c__contiguous_q_def not_less)

section \<open>Drives\<close>

text \<open>The packed numbers come back from \<^verbatim>\<open>FAT#sector_count\<close> if both fit 16 bits.\<close>

lemma pack_free_fields:
  defines "tot fs \<equiv> (n_fatent fs - 2) * ucast (csize fs)"
    and "fre fs n \<equiv> n * ucast (csize fs)"
  assumes "tot fs < 0x10000" and "fre fs n < 0x10000"
  shows "drop_bit 16 (pack_free fs n) = tot fs" and "pack_free fs n AND 0xFFFF = fre fs n"
proof -
  have eq: "pack_free fs n = push_bit 16 (tot fs) OR fre fs n"
    by (simp add: pack_free_def tot_def fre_def)
  have high: "k < 16" if "x < 0x10000" and "bit x k" for x :: u32 and k
  proof -
    have "x = take_bit 16 x"
      using that(1) by (simp add: word_unat_eq_iff unsigned_take_bit_eq take_bit_nat_eq_self
          word_less_nat_alt)
    with that(2) show ?thesis by (metis bit_take_bit_iff)
  qed
  have m: "(0xFFFF :: u32) = mask 16" by (simp add: mask_eq_exp_minus_1)
  show "drop_bit 16 (pack_free fs n) = tot fs"
    unfolding eq using high [OF assms(3)] high [OF assms(4)]
    by (intro bit_eqI) (auto simp: bit_simps)
  show "pack_free fs n AND 0xFFFF = fre fs n"
    unfolding eq m using high [OF assms(4)] by (intro bit_eqI) (auto simp: bit_simps)
qed

text \<open>After an unmount the object is left with a pointer to freed memory, which its finalizer uses.\<close>

lemma unmounted_twice:
  assumes "mrb__unmount L (PData prefix) v = Some (Inr x, p, v')"
  shows "mrb_fatfs_free L p v' = None"
  using assms
  by (auto simp: mrb__unmount_def mrb_fatfs_free_def split: option.splits bind_splits prod.splits)

section \<open>Time stamps\<close>

text \<open>A date that a FAT volume can hold.\<close>

definition fat_date :: "tm \<Rightarrow> bool" where
  "fat_date t \<longleftrightarrow> tm_sec t \<in> {0..59} \<and> tm_min t \<in> {0..59} \<and> tm_hour t \<in> {0..23} \<and> tm_mday t \<in> {1..31}
     \<and> tm_mon t \<in> {0..11} \<and> tm_year t + 1900 \<in> {1980..2107}"

lemma int_bit_less: "0 \<le> a \<Longrightarrow> a < 2 ^ n \<Longrightarrow> bit (a :: int) k \<Longrightarrow> k < n"
  by (metis bit_take_bit_iff take_bit_int_eq_self_iff)

lemma c_div_pos: "0 \<le> a \<Longrightarrow> 0 < b \<Longrightarrow> c_div a b = a div b"
  by (cases "a = 0") (simp_all add: c_div_def)

lemma int_shl_push: "0 \<le> a \<Longrightarrow> a * 2 ^ n < 2 ^ 31 \<Longrightarrow> int_shl a n = Some (push_bit n a)"
  by (simp add: int_shl_def push_bit_eq_mult)

lemma date_fields:
  fixes y m d :: int
  assumes "0 \<le> y" "y < 128" "0 \<le> m" "m < 16" "0 \<le> d" "d < 32"
  defines "w \<equiv> (word_of_int (push_bit 9 y OR push_bit 5 m OR d) :: u16)"
  shows "uint (drop_bit 9 w) = y" and "uint (drop_bit 5 w AND 15) = m" and "uint (w AND 31) = d"
proof -
  have b: "bit y k \<Longrightarrow> k < 7" "bit m k \<Longrightarrow> k < 4" "bit d k \<Longrightarrow> k < 5" for k
    using assms by (auto intro: int_bit_less)
  have m4: "(15 :: u16) = mask 4" and m5: "(31 :: u16) = mask 5"
    by (simp_all add: mask_eq_exp_minus_1)
  show "uint (drop_bit 9 w) = y"
    unfolding w_def by (rule bit_eqI) (auto simp: bit_simps dest: b)
  show "uint (drop_bit 5 w AND 15) = m"
    unfolding w_def m4 by (rule bit_eqI) (auto simp: bit_simps dest: b)
  show "uint (w AND 31) = d"
    unfolding w_def m5 by (rule bit_eqI) (auto simp: bit_simps dest: b)
qed

lemma time_fields:
  fixes h m x :: int
  assumes "0 \<le> h" "h < 32" "0 \<le> m" "m < 64" "0 \<le> x" "x < 32"
  defines "w \<equiv> (word_of_int (push_bit 11 h OR push_bit 5 m OR x) :: u16)"
  shows "uint (drop_bit 11 w) = h" and "uint (drop_bit 5 w AND 63) = m" and "uint (w AND 31) = x"
proof -
  have b: "bit h k \<Longrightarrow> k < 5" "bit m k \<Longrightarrow> k < 6" "bit x k \<Longrightarrow> k < 5" for k
    using assms by (auto intro: int_bit_less)
  have m6: "(63 :: u16) = mask 6" and m5: "(31 :: u16) = mask 5"
    by (simp_all add: mask_eq_exp_minus_1)
  show "uint (drop_bit 11 w) = h"
    unfolding w_def by (rule bit_eqI) (auto simp: bit_simps dest: b)
  show "uint (drop_bit 5 w AND 63) = m"
    unfolding w_def m6 by (rule bit_eqI) (auto simp: bit_simps dest: b)
  show "uint (w AND 31) = x"
    unfolding w_def m5 by (rule bit_eqI) (auto simp: bit_simps dest: b)
qed

definition date_bits :: "tm \<Rightarrow> int" where
  "date_bits t = push_bit 9 (tm_year t - 80) OR push_bit 5 (tm_mon t + 1) OR tm_mday t"

definition time_bits :: "tm \<Rightarrow> int" where
  "time_bits t = push_bit 11 (tm_hour t) OR push_bit 5 (tm_min t) OR tm_sec t div 2"

lemma unixtime2fno_eq:
  assumes "fat_date (localtime u)"
  shows "unixtime2fno localtime u fno =
           Some (fno\<lparr>fdate := word_of_int (date_bits (localtime u)),
                     ftime := word_of_int (time_bits (localtime u))\<rparr>)"
  using assms by (simp add: unixtime2fno_def fat_date_def int_shl_push Let_def date_bits_def
      time_bits_def c_div_pos or.assoc)

lemma fno2tm_eq:
  assumes "fat_date t"
  shows "fno2tm (fno\<lparr>fdate := word_of_int (date_bits t), ftime := word_of_int (time_bits t)\<rparr>) =
           t\<lparr>tm_sec := tm_sec t - tm_sec t mod 2\<rparr>"
proof -
  have "tm_sec t div 2 < 32"
    using assms by (auto simp: fat_date_def)
  with assms show ?thesis
    using date_fields [of "tm_year t - 80" "tm_mon t + 1" "tm_mday t"]
      time_fields [of "tm_hour t" "tm_min t" "tm_sec t div 2"]
    by (cases t) (simp add: fno2tm_def fat_date_def date_bits_def time_bits_def minus_mod_eq_div_mult)
qed

lemma get_fattime_eq:
  assumes "fat_date (localtime (now + offset))" and "tm_year (localtime (now + offset)) + 1900 < 2044"
  shows "get_fattime localtime now offset =
           Some (push_bit 16 (ucast (word_of_int (date_bits (localtime (now + offset))) :: u16)) OR
                 ucast (word_of_int (time_bits (localtime (now + offset))) :: u16))"
proof -
  define t where "t = localtime (now + offset)"
  have d: "fat_date t" "tm_year t + 1900 < 2044"
    using assms by (simp_all add: t_def)
  have b: "bit (tm_year t - 80) k \<Longrightarrow> k < 6" "bit (tm_mon t + 1) k \<Longrightarrow> k < 4" "bit (tm_mday t) k \<Longrightarrow> k < 5"
    "bit (tm_hour t) k \<Longrightarrow> k < 5" "bit (tm_min t) k \<Longrightarrow> k < 6" "bit (tm_sec t div 2) k \<Longrightarrow> k < 5" for k
    using d int_bit_less [of "tm_year t - 80" 6 k] int_bit_less [of "tm_mon t + 1" 4 k]
      int_bit_less [of "tm_mday t" 5 k] int_bit_less [of "tm_hour t" 5 k]
      int_bit_less [of "tm_min t" 6 k] int_bit_less [of "tm_sec t div 2" 5 k]
    by (auto simp: fat_date_def)
  have "get_fattime localtime now offset =
      Some (word_of_int (push_bit 25 (tm_year t - 80) OR push_bit 21 (tm_mon t + 1) OR
        push_bit 16 (tm_mday t) OR push_bit 11 (tm_hour t) OR push_bit 5 (tm_min t) OR tm_sec t div 2))"
    using d by (simp add: get_fattime_def fat_date_def int_shl_push Let_def c_div_pos t_def [symmetric] or.assoc)
  moreover have "(word_of_int (push_bit 25 (tm_year t - 80) OR push_bit 21 (tm_mon t + 1) OR
        push_bit 16 (tm_mday t) OR push_bit 11 (tm_hour t) OR push_bit 5 (tm_min t) OR tm_sec t div 2) :: u32) =
      push_bit 16 (ucast (word_of_int (date_bits t) :: u16)) OR ucast (word_of_int (time_bits t) :: u16)"
    by (rule bit_eqI) (auto simp: bit_simps date_bits_def time_bits_def dest: b)
  ultimately show ?thesis
    by (simp add: t_def)
qed

text \<open>C27: A date from 1980 to 2107 survives being stored in a directory entry, up to the odd second,
  and the time stamp that the library asks for is that of a file set to the same time (as long as the
  year fits a signed shift, that is before 2044).\<close>

theorem fat_time_roundtrip:
  assumes "fat_date (localtime unixtime)"
  shows "\<exists>fno'. unixtime2fno localtime unixtime fno = Some fno'
           \<and> fno2tm fno' = (localtime unixtime)\<lparr>tm_sec := tm_sec (localtime unixtime) - tm_sec (localtime unixtime) mod 2\<rparr>
           \<and> (tm_year (localtime unixtime) + 1900 < 2044 \<longrightarrow>
                get_fattime localtime (unixtime - offset) offset =
                  Some (push_bit 16 (ucast (fdate fno')) OR ucast (ftime fno')))"
  using assms by (simp add: unixtime2fno_eq fno2tm_eq get_fattime_eq)

text \<open>4 May 2024, 13:45:31.\<close>

theorem fat_time_roundtrip_witness:
  "\<exists>fno'. unixtime2fno (\<lambda>_. \<lparr>tm_sec = 31, tm_min = 45, tm_hour = 13, tm_mday = 4, tm_mon = 4, tm_year = 124\<rparr>)
              1714830331 FILINFO_zero = Some fno'
     \<and> fno2tm fno' = \<lparr>tm_sec = 30, tm_min = 45, tm_hour = 13, tm_mday = 4, tm_mon = 4, tm_year = 124\<rparr>"
  using fat_time_roundtrip [of "\<lambda>_. \<lparr>tm_sec = 31, tm_min = 45, tm_hour = 13, tm_mday = 4, tm_mon = 4, tm_year = 124\<rparr>"
      1714830331 FILINFO_zero 0]
  by (auto simp: fat_date_def)

text \<open>From 2044 on the shift of the year is undefined.\<close>

lemma get_fattime_2044:
  assumes "tm_year (localtime (now + offset)) = 144"
  shows "get_fattime localtime now offset = None"
  using assms by (simp add: get_fattime_def int_shl_def Let_def)

section \<open>A library to run the methods on\<close>

text \<open>The state is the content of one open file, which may grow to 100 bytes, and its position.\<close>

definition demo_fs :: FATFS where
  "demo_fs = \<lparr>n_fatent = 98, database = 4, csize = 2\<rparr>"

definition demo_lib :: "(bytes \<times> nat) fatfs_lib" where
  "demo_lib = \<lparr>
     f_mkfs = (\<lambda>_ v. (FR_OK, v)), f_getfree = (\<lambda>_ v. (FR_OK, 3, demo_fs, v)),
     f_mount = (\<lambda>_ v. (FR_OK, v)), f_unmount = (\<lambda>_ v. (FR_OK, v)), f_chdir = (\<lambda>_ v. (FR_NO_PATH, v)),
     f_utime = (\<lambda>_ _ v. (FR_OK, v)), f_mkdir = (\<lambda>_ v. (FR_EXIST, v)), f_chmod = (\<lambda>_ _ _ v. (FR_OK, v)),
     f_stat = (\<lambda>_ fno v. (FR_OK, fno, v)), f_setlabel = (\<lambda>_ v. (FR_OK, v)),
     f_getlabel = (\<lambda>_ v. (FR_OK, ''PICO'', v)), f_unlink = (\<lambda>_ v. (FR_DENIED, v)),
     f_rename = (\<lambda>_ _ v. (FR_OK, v)), f_open = (\<lambda>_ _ _ v. (FR_OK, v)), f_close = (\<lambda>_ v. (FR_OK, v)),
     f_read = (\<lambda>_ n (d, p). (FR_OK, take (unat n) (drop p d), d, min (length d) (p + unat n))),
     f_write = (\<lambda>_ x (d, p). if p + length x \<le> 100
                  then (FR_OK, of_nat (length x), take p d @ x @ drop (p + length x) d, p + length x)
                  else (FR_OK, 0, d, p)),
     f_lseek = (\<lambda>_ ofs (d, p). if unat ofs \<le> length d then (FR_OK, d, unat ofs) else (FR_DENIED, d, p)),
     f_expand = (\<lambda>_ _ v. (FR_DENIED, v)), f_sync = (\<lambda>_ v. (FR_OK, v)),
     f_size = (\<lambda>_ (d, p). of_nat (min 100 (length d))), f_tell = (\<lambda>_ (d, p). of_nat p),
     f_eof = (\<lambda>_ (d, p). p = length d), f_sect = (\<lambda>_ _. 0), f_fs = (\<lambda>_ _. Some demo_fs),
     f_sclust = (\<lambda>_ _. 2), f_opendir = (\<lambda>_ _ v. (FR_OK, v)), f_closedir = (\<lambda>_ v. (FR_OK, v)),
     f_findnext = (\<lambda>_ fno v. (FR_OK, fno, v)), f_set_pat = (\<lambda>_ _ v. v),
     f_readdir = (\<lambda>_ fno v. (FR_OK, fno, v)), f_rewinddir = (\<lambda>_ v. v)\<rparr>"

section \<open>The methods of the two virtual machines\<close>

text \<open>The same value, or an error in both. After an error the state may differ, since a method of
  mruby/c goes on.\<close>

fun same_outcome :: "'v mrb_out \<Rightarrow> 'v mrbc_out \<Rightarrow> bool" where
  "same_outcome None c = (c = None)"
| "same_outcome (Some (Inr x, v)) c = (c = Some (None, x, v))"
| "same_outcome (Some (Inl e, v)) c = (case c of Some (Some _, _) \<Rightarrow> True | _ \<Rightarrow> False)"

lemma same_outcome_call [simp]:
  "length func \<le> 31 \<Longrightarrow> same_outcome (mrb_call func x rv) (mrbc_call func x rv)"
  by (simp add: call_fits_pair)

lemma same_outcome_call':
  "length func \<le> 31 \<Longrightarrow> (fst rv = FR_OK \<Longrightarrow> x = y) \<Longrightarrow>
     same_outcome (mrb_call func x rv) (mrbc_call func y rv)"
  by (simp add: call_fits_pair)

lemma raise_agree:
  "mrbc_raise_iff_f_error res func exc =
     map_option (\<lambda>e. case e of Some err \<Rightarrow> Some err | None \<Rightarrow> exc) (mrb_raise_iff_f_error res func)"
  by (auto simp: mrbc_raise_iff_f_error_def mrb_raise_iff_f_error_def FAT_prepare_exception_def
      sprintf_at_def Let_def)

lemma seek_agrees: "same_outcome (mrb_seek L fil (sint ofs) (sint whence) v) (c_seek L fil ofs whence v)"
  by (auto simp: mrb_seek_def c_seek_def call_fits_pair case_prod_beta Let_def split: option.split)

lemma new_agrees:
  assumes "length path \<le> 31"
  shows "same_outcome (map_option (\<lambda>(r, _, v). (r, v)) (mrb_File_new L fil path mode_str v))
           (c_File_new L fil path mode_str v)"
  using assms by (auto simp: mrb_File_new_def c_File_new_def call_fits_pair Let_def case_prod_beta
      split: option.split)

lemma dir_new_agrees: "same_outcome (mrb_Dir_initialize L dp path v) (c_Dir_new L dp path v)"
proof (cases "f_stat L path FILINFO_zero v")
  case (fields res fno w)
  then show ?thesis
    by (cases "f_opendir L dp path w")
      (auto simp: mrb_Dir_initialize_def c_Dir_new_def split: option.split)
qed

lemma uint_sint_small:
  fixes w :: u32
  assumes "unat w < 2 ^ 31"
  shows "sint w = uint w"
proof -
  have "int (unat w) < int (2 ^ 31)"
    using assms by (simp only: of_nat_less_iff)
  then have "uint w < 2 ^ 31" by simp
  moreover have "- (2 ^ 31) \<le> uint w"
    by (rule order_trans [OF _ uint_ge_0]) simp
  ultimately show ?thesis
    unfolding sint_uint by (subst signed_take_bit_int_eq_self) simp_all
qed

lemma scast_down: "(scast (w :: u32) :: u8) = ucast w"
  by (rule bit_eqI) (simp add: bit_simps min_def)

text \<open>C29: These methods return the same value in both virtual machines and leave the volume in the same
  state, or both raise an exception: \<^verbatim>\<open>File\<close> new, seek, read, getbyte, write, expand, fsync and close,
  \<^verbatim>\<open>Dir\<close> new and read, \<^verbatim>\<open>_utime\<close>, \<^verbatim>\<open>_chmod\<close> and \<^verbatim>\<open>_getlabel\<close> of \<^verbatim>\<open>FAT\<close>; for paths of at most 31 bytes,
  arguments that are 32-bit integers, a written count below \<open>2 ^ 31\<close>, a library that reads at most
  one byte when it is asked for one, and a \<^verbatim>\<open>char\<close> that is unsigned (where it is signed, getbyte of
  mruby/c is negative from 128 on). The other methods are not compared.\<close>

theorem fat_bindings_agree:
  assumes "length path \<le> 31" and "unat (fst (snd (f_write L fil str v))) < 2 ^ 31"
    and "length (fst (snd (f_read L fil 1 v))) \<le> 1"
  shows "same_outcome (map_option (\<lambda>(r, _, v). (r, v)) (mrb_File_new L fil path mode_str v))
           (c_File_new L fil path mode_str v)
    \<and> same_outcome (mrb_seek L fil (sint ofs) (sint whence) v) (c_seek L fil ofs whence v)
    \<and> same_outcome (mrb_File_read L fil (sint btr) v) (c_File_read L fil btr v)
    \<and> same_outcome (mrb_getbyte L fil v) (c_getbyte False L fil v)
    \<and> same_outcome (mrb_File_write L fil str v) (c_File_write L fil str v)
    \<and> same_outcome (mrb_expand L fil (sint sz) v) (c_expand L fil sz v)
    \<and> same_outcome (mrb_fsync L fil v) (c_fsync L fil v)
    \<and> same_outcome (mrb_File_close L fil v) (c_File_close L fil v)
    \<and> same_outcome (mrb_Dir_initialize L dp path v) (c_Dir_new L dp path v)
    \<and> same_outcome (mrb_Dir_read L dp v) (c_Dir_read L dp v)
    \<and> same_outcome (mrb__utime L localtime (sint time) path v) (c__utime L localtime time path v)
    \<and> same_outcome (mrb__chmod L (sint attr) path v) (c__chmod L attr path v)
    \<and> same_outcome (mrb__getlabel L path v) (c__getlabel L path v)"
proof -
  have rd: "same_outcome (mrb_File_read L fil (sint btr) v) (c_File_read L fil btr v)"
    by (auto simp: mrb_File_read_def c_File_read_def case_prod_beta Let_def)
  have wr: "same_outcome (mrb_File_write L fil str v) (c_File_write L fil str v)"
    using assms(2)
    by (auto simp: mrb_File_write_def c_File_write_def write_sync_def case_prod_beta Let_def
        uint_sint_small intro!: same_outcome_call')
  have ut: "same_outcome (mrb__utime L localtime (sint time) path v) (c__utime L localtime time path v)"
    by (cases "unixtime2fno localtime (sint time) FILINFO_zero")
      (auto simp: mrb__utime_def c__utime_def)
  have gl: "same_outcome (mrb__getlabel L path v) (c__getlabel L path v)"
    by (auto simp: mrb__getlabel_def c__getlabel_def case_prod_beta Let_def)
  have gb: "same_outcome (mrb_getbyte L fil v) (c_getbyte False L fil v)"
    using assms(3) by (auto simp: mrb_getbyte_def c_getbyte_def case_prod_beta Let_def le_Suc_eq
        length_Suc_conv intro!: same_outcome_call' split: list.split)
  show ?thesis
    by (intro conjI new_agrees seek_agrees dir_new_agrees rd wr ut gl gb assms(1))
      (simp_all add: mrb_expand_def c_expand_def mrb_fsync_def c_fsync_def mrb_File_close_def
        c_File_close_def mrb_Dir_read_def c_Dir_read_def mrb__chmod_def c__chmod_def scast_down
        case_prod_beta Let_def)
qed

lemmas demo_simps = demo_lib_def demo_fs_def

theorem fat_bindings_agree_witness:
  "same_outcome (mrb_seek demo_lib 0 (sint (2 :: u32)) (sint (0 :: u32)) ([7, 8, 9], 0)) (c_seek demo_lib 0 2 0 ([7, 8, 9], 0))
   \<and> same_outcome (mrb_File_write demo_lib 0 [1, 2] ([7, 8, 9], 0)) (c_File_write demo_lib 0 [1, 2] ([7, 8, 9], 0))
   \<and> mrb_File_write demo_lib 0 [1, 2] ([7, 8, 9], 0) = Some (Inr (VInt 2), [1, 2, 9], 2)"
  using fat_bindings_agree [of "''a.txt''" demo_lib 0 "[1, 2]" "([7, 8, 9], 0)" "''r''" 2 0]
  by (simp add: mrb_File_write_def write_sync_def demo_simps)

text \<open>C28: These methods of mruby neither overflow the 64-byte buffer of the exception text nor loop for
  ever, but return a value or raise, whatever the library answers: of \<^verbatim>\<open>File\<close> new, close, seek, expand,
  fsync, read, getbyte and write; of \<^verbatim>\<open>Dir\<close> initialize, close and read; of \<^verbatim>\<open>FAT\<close> \<^verbatim>\<open>_mkfs\<close>, getfree,
  \<^verbatim>\<open>_mount\<close>, \<^verbatim>\<open>_unmount\<close>, \<^verbatim>\<open>_chdir\<close>, \<^verbatim>\<open>_mkdir\<close>, \<^verbatim>\<open>_chmod\<close>, \<^verbatim>\<open>_stat\<close>, \<^verbatim>\<open>_unlink\<close>, \<^verbatim>\<open>_rename\<close>, \<^verbatim>\<open>_setlabel\<close>,
  \<^verbatim>\<open>_getlabel\<close> and \<^verbatim>\<open>contiguous?\<close>, the last one with mruby/c as well. It takes a path of at most 31 bytes
  for \<^verbatim>\<open>File.new\<close>, a length that is not negative for read, a volume that has not been unmounted
  already for \<^verbatim>\<open>_unmount\<close>, a label of at most 11 bytes from the library, and files of at most
  \<open>0xFFFFF000\<close> bytes. Not covered: \<^verbatim>\<open>_utime\<close>, \<^verbatim>\<open>_erase\<close> (which writes in front of an empty name) and the
  other methods of mruby/c.\<close>

theorem fat_methods_defined:
  assumes "length path \<le> 31" and "0 \<le> btr"
    and "\<And>p w. length (fst (snd (f_getlabel L p w))) < 12"
    and "\<And>w. f_size L fil w \<le> 0xFFFFF000"
  shows "mrb_File_new L fil path mode_str v \<noteq> None \<and> mrb_File_close L fil v \<noteq> None
    \<and> mrb_seek L fil ofs whence v \<noteq> None \<and> mrb_expand L fil sz v \<noteq> None \<and> mrb_fsync L fil v \<noteq> None
    \<and> mrb_File_read L fil btr v \<noteq> None \<and> mrb_getbyte L fil v \<noteq> None \<and> mrb_File_write L fil str v \<noteq> None
    \<and> mrb_Dir_initialize L dp name v \<noteq> None \<and> mrb_Dir_close L dp v \<noteq> None \<and> mrb_Dir_read L dp v \<noteq> None
    \<and> mrb__mkfs L name v \<noteq> None \<and> mrb_getfree L name v \<noteq> None \<and> mrb__mount L prefix name v \<noteq> None
    \<and> mrb__unmount L (PData prefix) v \<noteq> None \<and> mrb__chdir L name v \<noteq> None \<and> mrb__mkdir L name v \<noteq> None
    \<and> mrb__chmod L attr name v \<noteq> None \<and> mrb__stat L mktime name v \<noteq> None \<and> mrb__unlink L name v \<noteq> None
    \<and> mrb__rename L name to v \<noteq> None \<and> mrb__setlabel L name v \<noteq> None \<and> mrb__getlabel L name v \<noteq> None
    \<and> mrb__contiguous_p L fil name v \<noteq> None \<and> c__contiguous_q L fil name v \<noteq> None"
proof -
  have seek: "mrb_seek L fil ofs whence v \<noteq> None"
    by (auto simp: mrb_seek_def call_fits_pair split: option.split)
  have dir: "mrb_Dir_initialize L dp name v \<noteq> None"
    by (cases "f_stat L name FILINFO_zero v")
      (auto simp: mrb_Dir_initialize_def call_fits_pair)
  have unmount: "mrb__unmount L (PData prefix) v \<noteq> None"
    by (cases prefix) (auto simp: mrb__unmount_def mrb_fatfs_free_def case_prod_beta Let_def)
  have m: "mrb_contiguous_loop L fil (f_size L fil w) 0 s w \<noteq> None"
    and c: "c_contiguous_loop L fil (f_size L fil w) 0 s e w \<noteq> None" for s w e
    using assms(4) by (simp_all only: mrb_contiguous_loop_returns c_contiguous_loop_returns not_False_eq_True)
  have contiguous: "mrb__contiguous_p L fil name v \<noteq> None" "c__contiguous_q L fil name v \<noteq> None"
    using m c by (auto simp: mrb__contiguous_p_def c__contiguous_q_def case_prod_beta Let_def)
  show ?thesis
    using assms(1-3)
    by (intro conjI seek dir unmount contiguous)
      (auto simp: mrb_File_new_def mrb_File_close_def mrb_expand_def mrb_fsync_def mrb_File_read_def
        mrb_getbyte_def mrb_File_write_def mrb_Dir_close_def mrb_Dir_read_def mrb__mkfs_def mrb_getfree_def
        mrb__mount_def mrb__chdir_def mrb__mkdir_def mrb__chmod_def mrb__stat_def mrb__unlink_def
        mrb__rename_def mrb__setlabel_def mrb__getlabel_def call_fits_pair case_prod_beta Let_def
        not_le not_less split: option.split)
qed

theorem fat_methods_defined_witness:
  "mrb_File_new demo_lib 0 ''/flash/app.rb'' ''w'' ([], 0) \<noteq> None
   \<and> c__contiguous_q demo_lib 0 ''/flash/app.rb'' ([], 0) \<noteq> None"
proof -
  have "f_size demo_lib 0 w \<le> 0xFFFFF000" for w
  proof -
    have "unat (of_nat (min 100 (length (fst w))) :: u32) \<le> 100"
      by (simp only: unat_of_nat) (rule order_trans [OF mod_less_eq_dividend min.cobounded1])
    then show ?thesis
      by (cases w) (simp add: demo_simps word_le_nat_alt del: unsigned_of_nat)
  qed
  then show ?thesis
    using fat_methods_defined [of "''/flash/app.rb''" 1 demo_lib 0 "''w''" "([], 0)" 0 0 0 "[]" 0
        "''/flash/app.rb''" None 0 "\<lambda>_. 0" "[]"]
    by (simp add: demo_lib_def)
qed

section \<open>A file gives back what was written\<close>

definition overwrite :: "bytes \<Rightarrow> nat \<Rightarrow> bytes \<Rightarrow> bytes" where
  "overwrite d p x = take p d @ x @ drop (p + length x) d"

lemma overwrite_read: "p \<le> length d \<Longrightarrow> take (length x) (drop p (overwrite d p x)) = x"
  by (simp add: overwrite_def)

lemma overwrite_length: "p \<le> length d \<Longrightarrow> p + length x \<le> length (overwrite d p x)"
  by (simp add: overwrite_def)

text \<open>
  The documented behaviour of FatFs for a file that is open for reading and writing on a volume
  without errors: \<open>cont\<close> is its content, which may grow to \<open>cap\<close> bytes, and \<open>ok\<close> the states in which
  this holds.
\<close>

definition file_laws ::
    "'v fatfs_lib \<Rightarrow> nat \<Rightarrow> nat \<Rightarrow> ('v \<Rightarrow> bool) \<Rightarrow> ('v \<Rightarrow> bytes) \<Rightarrow> bool" where
  "file_laws L fil cap ok cont \<longleftrightarrow> (\<forall>v. ok v \<longrightarrow>
     unat (f_tell L fil v) \<le> length (cont v) \<and> unat (f_size L fil v) = length (cont v)
     \<and> (\<forall>x res bw v'. f_write L fil x v = (res, bw, v') \<longrightarrow> unat (f_tell L fil v) + length x \<le> cap \<longrightarrow>
          res = FR_OK \<and> unat bw = length x \<and> ok v' \<and> cont v' = overwrite (cont v) (unat (f_tell L fil v)) x
          \<and> unat (f_tell L fil v') = unat (f_tell L fil v) + length x)
     \<and> (\<forall>res v'. f_sync L fil v = (res, v') \<longrightarrow>
          res = FR_OK \<and> ok v' \<and> cont v' = cont v \<and> f_tell L fil v' = f_tell L fil v)
     \<and> (\<forall>ofs res v'. f_lseek L fil ofs v = (res, v') \<longrightarrow> unat ofs \<le> length (cont v) \<longrightarrow>
          res = FR_OK \<and> ok v' \<and> cont v' = cont v \<and> f_tell L fil v' = ofs)
     \<and> (\<forall>n res y v'. f_read L fil n v = (res, y, v') \<longrightarrow>
          res = FR_OK \<and> y = take (unat n) (drop (unat (f_tell L fil v)) (cont v)) \<and> ok v' \<and> cont v' = cont v))"

lemma file_lawsD:
  assumes "file_laws L fil cap ok cont" and "ok v"
  shows "unat (f_tell L fil v) \<le> length (cont v)" and "unat (f_size L fil v) = length (cont v)"
    and "\<lbrakk>f_write L fil x v = (res, bw, v'); unat (f_tell L fil v) + length x \<le> cap\<rbrakk> \<Longrightarrow>
           res = FR_OK \<and> unat bw = length x \<and> ok v' \<and> cont v' = overwrite (cont v) (unat (f_tell L fil v)) x
           \<and> unat (f_tell L fil v') = unat (f_tell L fil v) + length x"
    and "f_sync L fil v = (res, v') \<Longrightarrow>
           res = FR_OK \<and> ok v' \<and> cont v' = cont v \<and> f_tell L fil v' = f_tell L fil v"
    and "\<lbrakk>f_lseek L fil ofs v = (res, v'); unat ofs \<le> length (cont v)\<rbrakk> \<Longrightarrow>
           res = FR_OK \<and> ok v' \<and> cont v' = cont v \<and> f_tell L fil v' = ofs"
    and "f_read L fil n v = (res, y, v') \<Longrightarrow>
           res = FR_OK \<and> y = take (unat n) (drop (unat (f_tell L fil v)) (cont v)) \<and> ok v' \<and> cont v' = cont v"
  using assms(1) [unfolded file_laws_def, rule_format, OF assms(2)]
  by blast+

lemma write_step:
  assumes "file_laws L fil cap ok cont" and "ok v" and "unat (f_tell L fil v) + length x \<le> cap"
    and "cap < 2 ^ 31"
  shows "\<exists>v'. mrb_File_write L fil x v = Some (Inr (VInt (int (length x))), v')
    \<and> c_File_write L fil x v = Some (None, VInt (int (length x)), v')
    \<and> ok v' \<and> cont v' = overwrite (cont v) (unat (f_tell L fil v)) x
    \<and> unat (f_tell L fil v') = unat (f_tell L fil v) + length x"
proof -
  obtain res bw w where w: "f_write L fil x v = (res, bw, w)" by (cases "f_write L fil x v")
  note w' = file_lawsD(3) [OF assms(1,2) w assms(3)]
  obtain res' v' where s: "f_sync L fil w = (res', v')" by (cases "f_sync L fil w")
  note s' = file_lawsD(4) [OF assms(1) _ s]
  have "uint bw = int (unat bw)" by simp
  then have "uint bw = int (length x)" "sint bw = int (length x)"
    using w' assms(3,4) uint_sint_small [of bw] by simp_all
  with w s w' s' show ?thesis
    by (simp add: mrb_File_write_def c_File_write_def write_sync_def)
qed

lemma seek_step:
  assumes "file_laws L fil cap ok cont" and "ok v" and "seek_pos L fil ofs (sint whence) v = Some pos"
    and "unat pos \<le> length (cont v)"
  shows "\<exists>v'. mrb_seek L fil (sint ofs) (sint whence) v = Some (Inr (VInt 0), v')
    \<and> c_seek L fil ofs whence v = Some (None, VInt 0, v')
    \<and> ok v' \<and> cont v' = cont v \<and> f_tell L fil v' = pos"
proof -
  obtain res v' where r: "f_lseek L fil pos v = (res, v')" by (cases "f_lseek L fil pos v")
  have "\<not> f_size L fil v < pos"
    using assms(4) file_lawsD(2) [OF assms(1,2)] by (simp add: word_less_nat_alt)
  with r file_lawsD(5) [OF assms(1,2) r assms(4)] show ?thesis
    using assms(3) by (simp add: mrb_seek_def c_seek_def)
qed

lemma read_step:
  assumes "file_laws L fil cap ok cont" and "ok v" and "0 \<le> sint n"
  shows "\<exists>v'. mrb_File_read L fil (sint n) v =
            Some (Inr (read_value (take (unat n) (drop (unat (f_tell L fil v)) (cont v)))), v')
    \<and> c_File_read L fil n v =
            Some (None, read_value (take (unat n) (drop (unat (f_tell L fil v)) (cont v))), v')
    \<and> ok v' \<and> cont v' = cont v"
proof -
  obtain res y v' where r: "f_read L fil n v = (res, y, v')" by (cases "f_read L fil n v")
  with file_lawsD(6) [OF assms(1,2) r] show ?thesis
    using assms(3) by (simp add: mrb_File_read_def c_File_read_def)
qed

lemma sint_of_int_small:
  assumes "- (2 ^ 31) \<le> i" and "i < 2 ^ 31"
  shows "sint (word_of_int i :: u32) = i"
  using assms by (simp add: signed_of_int signed_take_bit_int_eq_self)

lemma of_nat_small:
  assumes "n < 2 ^ 31"
  shows "unat (of_nat n :: u32) = n" and "sint (of_nat n :: u32) = int n"
    and "sint (- of_nat n :: u32) = - int n"
proof -
  have "int n < int (2 ^ 31)"
    using assms by (simp only: of_nat_less_iff)
  then have "int n < 2 ^ 31" by simp
  then show "sint (of_nat n :: u32) = int n" "sint (- of_nat n :: u32) = - int n"
    using sint_of_int_small [of "int n"] sint_of_int_small [of "- int n"] by simp_all
  show "unat (of_nat n :: u32) = n"
    unfolding unat_of_nat using assms by simp
qed

text \<open>C30: On a file that FatFs keeps as it documents (\<open>file_laws\<close>), with a capacity below \<open>2 ^ 31\<close>: seeking to
  a position that is not behind the end of the file (seeking beyond it raises, \<open>seek_past_end\<close>),
  writing a string that is not empty and ends within the capacity, seeking back by its length and
  reading gives what was written, and the file holds it there; mruby and mruby/c do the same.\<close>

theorem fat_file_roundtrip:
  assumes "file_laws L fil cap ok cont" and "ok v" and "cap < 2 ^ 31" and "x \<noteq> []"
    and "p \<le> length (cont v)" and "p + length x \<le> cap"
  shows "\<exists>v1 v2 v3 v4.
      mrb_seek L fil (int p) 0 v = Some (Inr (VInt 0), v1)
    \<and> mrb_File_write L fil x v1 = Some (Inr (VInt (int (length x))), v2)
    \<and> mrb_seek L fil (- int (length x)) 1 v2 = Some (Inr (VInt 0), v3)
    \<and> mrb_File_read L fil (int (length x)) v3 = Some (Inr (VStr x), v4)
    \<and> c_seek L fil (of_nat p) 0 v = Some (None, VInt 0, v1)
    \<and> c_File_write L fil x v1 = Some (None, VInt (int (length x)), v2)
    \<and> c_seek L fil (- of_nat (length x)) 1 v2 = Some (None, VInt 0, v3)
    \<and> c_File_read L fil (of_nat (length x)) v3 = Some (None, VStr x, v4)
    \<and> ok v4 \<and> cont v4 = overwrite (cont v) p x"
proof -
  have "p < 2 ^ 31" and "length x < 2 ^ 31"
    using assms(3,6) by linarith+
  note p = of_nat_small [OF this(1)] and n = of_nat_small [OF this(2)]
  obtain v1 where v1: "mrb_seek L fil (int p) 0 v = Some (Inr (VInt 0), v1)"
      "c_seek L fil (of_nat p) 0 v = Some (None, VInt 0, v1)"
      "ok v1" "cont v1 = cont v" "f_tell L fil v1 = of_nat p"
    using seek_step [OF assms(1,2), of "of_nat p" 0 "of_nat p"] assms(5)
    by (auto simp: p seek_pos_def SEEK_SET_def)
  obtain v2 where v2: "mrb_File_write L fil x v1 = Some (Inr (VInt (int (length x))), v2)"
      "c_File_write L fil x v1 = Some (None, VInt (int (length x)), v2)"
      "ok v2" "cont v2 = overwrite (cont v) p x" "unat (f_tell L fil v2) = p + length x"
    using write_step [OF assms(1) v1(3), of x] assms(3,6) v1(4,5) by (auto simp: p)
  have "f_tell L fil v2 = of_nat (p + length x)"
    by (simp flip: v2(5))
  then have "f_tell L fil v2 + - of_nat (length x) = of_nat p"
    by simp
  then obtain v3 where v3: "mrb_seek L fil (- int (length x)) 1 v2 = Some (Inr (VInt 0), v3)"
      "c_seek L fil (- of_nat (length x)) 1 v2 = Some (None, VInt 0, v3)"
      "ok v3" "cont v3 = overwrite (cont v) p x" "f_tell L fil v3 = of_nat p"
    using seek_step [OF assms(1) v2(3), of "- of_nat (length x)" 1 "of_nat p"] v2(4)
      overwrite_length [OF assms(5), of x]
    by (auto simp: p n seek_pos_def SEEK_SET_def SEEK_CUR_def)
  show ?thesis
    using v1 v2 v3 read_step [OF assms(1) v3(3), of "of_nat (length x)"] assms(4)
    by (auto simp: p n overwrite_read [OF assms(5)] read_value_def)
qed

definition demo_ok :: "bytes \<times> nat \<Rightarrow> bool" where
  "demo_ok v \<longleftrightarrow> snd v \<le> length (fst v) \<and> length (fst v) \<le> 100"

lemma demo_laws: "file_laws demo_lib 0 100 demo_ok fst"
  unfolding file_laws_def
proof (intro allI impI)
  fix v :: "bytes \<times> nat"
  assume "demo_ok v"
  moreover obtain d p where "v = (d, p)" by (cases v)
  ultimately have v: "v = (d, p)" "p \<le> length d" "length d \<le> 100"
    by (simp_all add: demo_ok_def)
  have n: "unat (of_nat k :: u32) = k" if "k \<le> 100" for k
    unfolding unat_of_nat using that by simp
  show "unat (f_tell demo_lib 0 v) \<le> length (fst v) \<and> unat (f_size demo_lib 0 v) = length (fst v)
     \<and> (\<forall>x res bw v'. f_write demo_lib 0 x v = (res, bw, v') \<longrightarrow> unat (f_tell demo_lib 0 v) + length x \<le> 100 \<longrightarrow>
          res = FR_OK \<and> unat bw = length x \<and> demo_ok v' \<and> fst v' = overwrite (fst v) (unat (f_tell demo_lib 0 v)) x
          \<and> unat (f_tell demo_lib 0 v') = unat (f_tell demo_lib 0 v) + length x)
     \<and> (\<forall>res v'. f_sync demo_lib 0 v = (res, v') \<longrightarrow>
          res = FR_OK \<and> demo_ok v' \<and> fst v' = fst v \<and> f_tell demo_lib 0 v' = f_tell demo_lib 0 v)
     \<and> (\<forall>ofs res v'. f_lseek demo_lib 0 ofs v = (res, v') \<longrightarrow> unat ofs \<le> length (fst v) \<longrightarrow>
          res = FR_OK \<and> demo_ok v' \<and> fst v' = fst v \<and> f_tell demo_lib 0 v' = ofs)
     \<and> (\<forall>n res y v'. f_read demo_lib 0 n v = (res, y, v') \<longrightarrow>
          res = FR_OK \<and> y = take (unat n) (drop (unat (f_tell demo_lib 0 v)) (fst v)) \<and> demo_ok v' \<and> fst v' = fst v)"
    using v(2,3) by (auto simp: v(1) demo_lib_def demo_ok_def n overwrite_def simp del: unsigned_of_nat)
qed

theorem fat_file_roundtrip_witness:
  "\<exists>v2 v4. mrb_File_write demo_lib 0 [1, 2] ([7, 8, 9], 1) = Some (Inr (VInt 2), v2)
     \<and> c_File_read demo_lib 0 2 (fst v2, 1) = Some (None, VStr [1, 2], v4) \<and> fst v4 = [7, 1, 2]"
  using fat_file_roundtrip [OF demo_laws, of "([7, 8, 9], 0)" "[1, 2]" 1]
  by (auto simp: demo_ok_def demo_lib_def overwrite_def mrb_seek_def seek_pos_def SEEK_SET_def SEEK_CUR_def
      word_less_nat_alt mrb_File_write_def c_File_read_def write_sync_def read_value_def)

section \<open>Where the methods deviate\<close>

text \<open>\<open>f_expand\<close> refuses a file that is not empty, so a seek beyond its end always raises.\<close>

lemma seek_past_end:
  assumes "f_expand L fil pos v = (FR_DENIED, v')" and "f_size L fil v < pos"
  shows "mrb_seek L fil (uint pos) 0 v =
           Some (Inl (RuntimeError ''Permission denied @ f_lseek|f_expand|f_sync''), v')"
  using assms by (simp add: mrb_seek_def seek_pos_def SEEK_SET_def expand_sync_def fat_error_def)

text \<open>A negative position is not rejected, but asks for almost 4 GB.\<close>

lemma seek_negative:
  assumes "f_expand L fil (- 1) v = (FR_OK, v1)" and "f_sync L fil v1 = (FR_OK, v2)"
    and "f_size L fil v < (- 1)"
  shows "mrb_seek L fil (- 1) 0 v = mrb_call ''f_lseek'' (VInt 0) (f_lseek L fil (- 1) v2)"
  using assms by (simp add: mrb_seek_def seek_pos_def SEEK_SET_def expand_sync_def)

text \<open>The table of mruby has one method too many in the middle.\<close>

lemma vfs_table_shifted:
  "mrb_s_vfs_methods file_write = Some M_getbyte" "c_vfs_methods file_write = Some M_write"
  "mrb_s_vfs_methods file_unlink = Some M_exist" "c_vfs_methods file_stat = None"
  by (simp_all add: mrb_s_vfs_methods_def c_vfs_methods_def vfs_slots_def)

text \<open>A file object whose mode was unknown is finalized with a structure that was never filled.\<close>

lemma unknown_mode_finalized:
  assumes "open_mode mode_str = None"
  shows "\<exists>e. mrb_File_new L fil path mode_str v = Some (Inl e, False, v)"
    and "mrb_fat_file_free L fil False v = None"
  using assms by (simp_all add: mrb_File_new_def mrb_fat_file_free_def)

text \<open>A negative length is the size of an array.\<close>

lemma read_negative: "btr < 0 \<Longrightarrow> mrb_File_read L fil btr v = None"
  by (simp add: mrb_File_read_def)

end
