(* ===== verification/Net.thy ===== *)
theory Net
  imports Prelude
begin

text \<open>
  The network clients of \<^verbatim>\<open>picoruby-net\<close>: name resolution (\<^verbatim>\<open>src/net.c\<close>, \<^verbatim>\<open>src/dns.c\<close>), TCP requests
  (\<^verbatim>\<open>src/tcp.c\<close>), UDP datagrams (\<^verbatim>\<open>src/udp.c\<close>) and the methods of both virtual machines
  (\<^verbatim>\<open>src/mruby/net.c\<close>, \<^verbatim>\<open>src/mrubyc/net.c\<close>).

  The library lwIP is a parameter: the results of its functions, and the callbacks it makes while
  the program sleeps. The allocated blocks that pass between the functions are an explicit heap.
  \<open>None\<close> is undefined behaviour (an access to a block that has been freed, or behind its end), or a
  loop that does not end.
\<close>

section \<open>The library and the heap\<close>

definition ERR_OK :: int where "ERR_OK = 0"
definition ERR_MEM :: int where "ERR_MEM = - 1"
definition ERR_VAL :: int where "ERR_VAL = - 6"
definition ERR_ABRT :: int where "ERR_ABRT = - 13"
definition ERR_ARG :: int where "ERR_ARG = - 16"

text \<open>A packet buffer is a chain of payloads; an address of version 4 is its number.\<close>

type_synonym pbuf = "bytes list"

datatype net_event =
    RecvEvent "pbuf option" int
  | SentEvent u16
  | ConnectedEvent int
  | PollEvent
  | ErrEvent int

text \<open>
  \<open>dns_ip n\<close> is the address behind the pointer after \<open>n\<close> sleeps, 0 as long as there is none.
  \<open>early_events\<close> are the callbacks between the call of \<open>altcp_connect\<close> and the assignment that
  follows it, \<open>net_events k\<close> and \<open>udp_events k\<close> those during the \<open>k\<close>-th sleep. \<open>realloc_at\<close> and
  \<open>calloc_at\<close> are the addresses that the allocator returns.
\<close>

record lwip =
  dns_ip :: "nat \<Rightarrow> u32"
  altcp_new_ok :: bool
  altcp_tls_new_ok :: bool
  altcp_connect :: "u32 \<Rightarrow> int \<Rightarrow> int"
  altcp_write :: "bytes \<Rightarrow> int"
  altcp_close :: int
  early_events :: "net_event list"
  net_events :: "nat \<Rightarrow> net_event list"
  udp_new_ok :: bool
  pbuf_alloc_ok :: bool
  udp_sendto :: "bytes \<Rightarrow> u32 \<Rightarrow> int \<Rightarrow> int"
  udp_events :: "nat \<Rightarrow> pbuf option list"
  realloc_at :: "(nat \<Rightarrow> bytes option) \<Rightarrow> nat \<Rightarrow> nat \<Rightarrow> nat option"
  calloc_at :: "(nat \<Rightarrow> bytes option) \<Rightarrow> nat"
  ipaddr_ntoa :: "u32 \<Rightarrow> string"

datatype net_call =
    CallNew bool
  | CallHostname string
  | CallConnect u32 int
  | CallWrite bytes
  | CallOutput
  | CallRecved nat
  | CallClose
  | CallAbort
  | CallFreeTls
  | CallSendto bytes u32 int
  | CallRemove

text \<open>
  \<open>nt_cs\<close> is the connection's block, if it is allocated, \<open>nt_live\<close> whether lwIP still has the control
  block behind \<^verbatim>\<open>cs->pcb\<close>, \<open>nt_registered\<close> whether the callbacks are set, \<open>nt_lock\<close> how often
  \<^verbatim>\<open>lwip_begin\<close> has been called without \<^verbatim>\<open>lwip_end\<close>.
\<close>

record 'c net =
  nt_heap :: "nat \<Rightarrow> bytes option"
  nt_cs :: "'c option"
  nt_live :: bool
  nt_registered :: bool
  nt_lock :: int
  nt_calls :: "net_call list"

definition net_call :: "net_call \<Rightarrow> 'c net \<Rightarrow> 'c net" where
  "net_call c s = s\<lparr>nt_calls := nt_calls s @ [c]\<rparr>"

definition lwip_begin :: "'c net \<Rightarrow> 'c net" where
  "lwip_begin s = s\<lparr>nt_lock := nt_lock s + 1\<rparr>"

definition lwip_end :: "'c net \<Rightarrow> 'c net" where
  "lwip_end s = s\<lparr>nt_lock := nt_lock s - 1\<rparr>"

text \<open>A block that grows may move. Its new bytes are not specified, and 0 in the model.\<close>

definition picorb_realloc :: "lwip \<Rightarrow> nat \<Rightarrow> nat \<Rightarrow> 'c net \<Rightarrow> (nat option \<times> 'c net) option" where
  "picorb_realloc lw p sz s = do {
     old \<leftarrow> nt_heap s p;
     Some (case realloc_at lw (nt_heap s) p sz of
             None \<Rightarrow> (None, s)
           | Some q \<Rightarrow>
               (Some q, s\<lparr>nt_heap := (nt_heap s)(p := None, q := Some (take sz old @ replicate (sz - length old) 0))\<rparr>))
   }"

definition picorb_free :: "nat \<Rightarrow> 'c net \<Rightarrow> 'c net option" where
  "picorb_free p s = (case nt_heap s p of None \<Rightarrow> None | Some _ \<Rightarrow> Some (s\<lparr>nt_heap := (nt_heap s)(p := None)\<rparr>))"

text \<open>Requests and responses; the data of a response is in a block of the heap.\<close>

record net_request =
  rq_host :: string
  rq_port :: int
  rq_send_data :: bytes
  rq_is_tls :: bool

record net_response =
  rs_recv_data :: nat
  rs_recv_data_len :: nat

section \<open>Name resolution\<close>

definition isloopback :: "u32 \<Rightarrow> bool" where
  "isloopback ip \<longleftrightarrow> drop_bit 24 ip = 127"

definition loopback :: u32 where "loopback = 0x7F000001"

text \<open>The callback: a name that is not found becomes the loopback address.\<close>

definition dns_found :: "u32 option \<Rightarrow> u32" where
  "dns_found ip = (case ip of Some a \<Rightarrow> a | None \<Rightarrow> loopback)"

partial_function (option) get_ip_loop :: "lwip \<Rightarrow> nat \<Rightarrow> u32 option" where
  "get_ip_loop lw n = (if dns_ip lw n = 0 then get_ip_loop lw (Suc n) else Some (dns_ip lw n))"

definition Net_get_ip :: "lwip \<Rightarrow> u32 option" where
  "Net_get_ip lw = get_ip_loop lw 0"

definition DNS_OUTBUF_SIZE :: nat where "DNS_OUTBUF_SIZE = 16"

text \<open>\<^verbatim>\<open>ipaddr_ntoa_r\<close> leaves the buffer alone when it is too small; it is not initialised.\<close>

definition DNS_resolve :: "lwip \<Rightarrow> string option" where
  "DNS_resolve lw = do {
     ip \<leftarrow> Net_get_ip lw;
     (if \<not> isloopback ip
      then (if length (ipaddr_ntoa lw ip) < DNS_OUTBUF_SIZE then Some (ipaddr_ntoa lw ip) else None)
      else Some [])
   }"

section \<open>TCP connections\<close>

definition NET_TCP_STATE_NONE :: int where "NET_TCP_STATE_NONE = 0"
definition NET_TCP_STATE_CONNECTION_STARTED :: int where "NET_TCP_STATE_CONNECTION_STARTED = 1"
definition NET_TCP_STATE_CONNECTED :: int where "NET_TCP_STATE_CONNECTED = 2"
definition NET_TCP_STATE_WAITING_PACKET :: int where "NET_TCP_STATE_WAITING_PACKET = 3"
definition NET_TCP_STATE_PACKET_RECVED :: int where "NET_TCP_STATE_PACKET_RECVED = 4"
definition NET_TCP_STATE_FINISHED :: int where "NET_TCP_STATE_FINISHED = 6"
definition NET_TCP_STATE_ERROR :: int where "NET_TCP_STATE_ERROR = 99"
definition NET_TCP_STATE_TIMEOUT :: int where "NET_TCP_STATE_TIMEOUT = 100"

text \<open>\<open>tc_pcb\<close> is whether the pointer to the control block is not null, \<open>tc_recv_data\<close> an address.\<close>

record tcp_connection_state =
  tc_state :: int
  tc_pcb :: bool
  tc_send_data :: bytes
  tc_recv_data :: nat
  tc_recv_data_len :: nat
  tc_tls_config :: bool

type_synonym tcp_net = "tcp_connection_state net"

definition set_tcp_state :: "int \<Rightarrow> tcp_net \<Rightarrow> tcp_net option" where
  "set_tcp_state st s = do { cs \<leftarrow> nt_cs s; Some (s\<lparr>nt_cs := Some (cs\<lparr>tc_state := st\<rparr>)\<rparr>) }"

definition TCPClient_free_tls_config :: "tcp_connection_state \<Rightarrow> tcp_net \<Rightarrow> tcp_net" where
  "TCPClient_free_tls_config cs s = (if tc_tls_config cs then net_call CallFreeTls s else s)"

definition TCPClient_close :: "lwip \<Rightarrow> tcp_net \<Rightarrow> (int \<times> tcp_net) option" where
  "TCPClient_close lw s = do {
     cs \<leftarrow> nt_cs s;
     (if \<not> tc_pcb cs then Some (ERR_ARG, s)
      else if \<not> nt_live s then None
      else do {
        let s = lwip_begin s;
        let s = net_call CallClose (s\<lparr>nt_registered := False, nt_live := False\<rparr>);
        let (err, s) = (if altcp_close lw \<noteq> ERR_OK then (ERR_ABRT, net_call CallAbort s) else (ERR_OK, s));
        let s = lwip_end s;
        let s = TCPClient_free_tls_config cs s;
        Some (err, s\<lparr>nt_cs := None\<rparr>)
      })
   }"

text \<open>The copy of a chain into the buffer: each payload goes behind the one before.\<close>

fun copy_chain :: "pbuf \<Rightarrow> nat \<Rightarrow> bytes \<Rightarrow> bytes option" where
  "copy_chain [] offset tmpbuf = Some tmpbuf"
| "copy_chain (p # ps) offset tmpbuf = do {
     tmpbuf \<leftarrow> copy_into tmpbuf offset p;
     copy_chain ps (offset + length p) tmpbuf
   }"

definition tot_len :: "pbuf \<Rightarrow> nat" where
  "tot_len p = sum_list (map length p)"

text \<open>The received bytes are appended to the block of the connection. The result is null when there
  is no memory; else it is the address and the length of the new block.\<close>

definition append_recv ::
    "lwip \<Rightarrow> nat \<Rightarrow> nat \<Rightarrow> bytes \<Rightarrow> 'c net \<Rightarrow> ((nat \<times> nat) option \<times> 'c net) option" where
  "append_recv lw recv_data len tmpbuf s = do {
     (q, s) \<leftarrow> picorb_realloc lw recv_data (len + length tmpbuf + 1) s;
     (case q of
        None \<Rightarrow> Some (None, s)
      | Some q \<Rightarrow> do {
          block \<leftarrow> nt_heap s q;
          block \<leftarrow> copy_into block len tmpbuf;
          Some (Some (q, len + length tmpbuf), s\<lparr>nt_heap := (nt_heap s)(q := Some block)\<rparr>)
        })
   }"

definition TCPClient_recv_cb :: "lwip \<Rightarrow> pbuf option \<Rightarrow> int \<Rightarrow> tcp_net \<Rightarrow> (int \<times> tcp_net) option" where
  "TCPClient_recv_cb lw pbuf err s = do {
     cs \<leftarrow> nt_cs s;
     (if err \<noteq> ERR_OK then do { s \<leftarrow> set_tcp_state NET_TCP_STATE_ERROR s; TCPClient_close lw s }
      else case pbuf of
        None \<Rightarrow> do { s \<leftarrow> set_tcp_state NET_TCP_STATE_FINISHED s; Some (ERR_OK, s) }
      | Some p \<Rightarrow> do {
          tmpbuf \<leftarrow> copy_chain p 0 (replicate (tot_len p + 1) 0);
          tmpbuf \<leftarrow> arr_set tmpbuf (tot_len p) 0;
          (r, s) \<leftarrow> append_recv lw (tc_recv_data cs) (tc_recv_data_len cs) (take (tot_len p) tmpbuf) s;
          (case r of
             None \<Rightarrow> Some (ERR_MEM, s)
           | Some (q, len) \<Rightarrow>
               Some (ERR_OK, net_call (CallRecved (tot_len p))
                 (s\<lparr>nt_cs := Some (cs\<lparr>tc_recv_data := q, tc_recv_data_len := len,
                                      tc_state := NET_TCP_STATE_PACKET_RECVED\<rparr>)\<rparr>)))
        })
   }"

definition TCPClient_sent_cb :: "u16 \<Rightarrow> tcp_net \<Rightarrow> int \<times> tcp_net" where
  "TCPClient_sent_cb len s = (ERR_OK, s)"

definition TCPClient_connected_cb :: "lwip \<Rightarrow> int \<Rightarrow> tcp_net \<Rightarrow> (int \<times> tcp_net) option" where
  "TCPClient_connected_cb lw err s =
     (if err \<noteq> ERR_OK then TCPClient_close lw s
      else do { s \<leftarrow> set_tcp_state NET_TCP_STATE_CONNECTED s; Some (ERR_OK, s) })"

definition TCPClient_poll_cb :: "tcp_net \<Rightarrow> (int \<times> tcp_net) option" where
  "TCPClient_poll_cb s = do { s \<leftarrow> set_tcp_state NET_TCP_STATE_TIMEOUT s; Some (ERR_OK, s) }"

definition TCPClient_err_cb :: "int \<Rightarrow> tcp_net \<Rightarrow> tcp_net option" where
  "TCPClient_err_cb err s = set_tcp_state NET_TCP_STATE_ERROR s"

text \<open>
  lwIP makes the callbacks of a control block that exists and has them registered. It frees the
  control block when it reports an error through \<open>TCPClient_err_cb\<close>.
\<close>

definition tcp_event :: "lwip \<Rightarrow> net_event \<Rightarrow> tcp_net \<Rightarrow> tcp_net option" where
  "tcp_event lw e s =
     (if \<not> nt_live s \<or> \<not> nt_registered s then Some s
      else case e of
        RecvEvent p err \<Rightarrow> map_option snd (TCPClient_recv_cb lw p err s)
      | SentEvent len \<Rightarrow> Some (snd (TCPClient_sent_cb len s))
      | ConnectedEvent err \<Rightarrow> map_option snd (TCPClient_connected_cb lw err s)
      | PollEvent \<Rightarrow> map_option snd (TCPClient_poll_cb s)
      | ErrEvent err \<Rightarrow> map_option (\<lambda>s. s\<lparr>nt_live := False\<rparr>) (TCPClient_err_cb err s))"

definition TCPClient_new_connection :: "lwip \<Rightarrow> net_request \<Rightarrow> net_response \<Rightarrow> tcp_net \<Rightarrow> tcp_net" where
  "TCPClient_new_connection lw req res s =
     net_call (CallNew False)
       (s\<lparr>nt_live := altcp_new_ok lw, nt_registered := altcp_new_ok lw,
          nt_cs := Some \<lparr>tc_state = NET_TCP_STATE_NONE, tc_pcb = altcp_new_ok lw,
                         tc_send_data = rq_send_data req, tc_recv_data = rs_recv_data res,
                         tc_recv_data_len = rs_recv_data_len res, tc_tls_config = False\<rparr>\<rparr>)"

text \<open>The result is null when there is no control block; the connection has been freed then.\<close>

definition TCPClient_new_tls_connection ::
    "lwip \<Rightarrow> net_request \<Rightarrow> net_response \<Rightarrow> tcp_net \<Rightarrow> bool \<times> tcp_net" where
  "TCPClient_new_tls_connection lw req res s =
     (let s = net_call (CallNew True) s
      in if \<not> altcp_tls_new_ok lw then (False, net_call CallFreeTls s)
         else (True, net_call (CallHostname (rq_host req))
           (s\<lparr>nt_live := True, nt_registered := True,
              nt_cs := Some \<lparr>tc_state = NET_TCP_STATE_NONE, tc_pcb = True,
                             tc_send_data = rq_send_data req, tc_recv_data = rs_recv_data res,
                             tc_recv_data_len = rs_recv_data_len res, tc_tls_config = True\<rparr>\<rparr>)))"

text \<open>Without a control block \<open>altcp_connect\<close> refuses.\<close>

definition TCPClient_connect_impl ::
    "lwip \<Rightarrow> u32 \<Rightarrow> net_request \<Rightarrow> net_response \<Rightarrow> tcp_net \<Rightarrow> (bool \<times> tcp_net) option" where
  "TCPClient_connect_impl lw ip req res s = do {
     let (ok, s) = (if rq_is_tls req then TCPClient_new_tls_connection lw req res s
                    else (True, TCPClient_new_connection lw req res s));
     (if \<not> ok then Some (False, s)
      else do {
        let s = lwip_begin s;
        let err = (if nt_live s then altcp_connect lw ip (rq_port req) else ERR_VAL);
        let s = net_call (CallConnect ip (rq_port req)) s;
        (if err \<noteq> ERR_OK
         then do { s \<leftarrow> set_tcp_state NET_TCP_STATE_ERROR s; Some (True, lwip_end s) }
         else do {
           let s = lwip_end s;
           s \<leftarrow> for_each (tcp_event lw) (early_events lw) s;
           s \<leftarrow> set_tcp_state NET_TCP_STATE_CONNECTION_STARTED s;
           Some (True, s)
         })
      })
   }"

text \<open>The length of \<^verbatim>\<open>altcp_write\<close> is 16 bits wide.\<close>

definition TCPClient_poll_impl :: "lwip \<Rightarrow> tcp_net \<Rightarrow> (int \<times> tcp_net) option" where
  "TCPClient_poll_impl lw s = do {
     cs \<leftarrow> nt_cs s;
     (if tc_state cs = NET_TCP_STATE_CONNECTED
      then do {
        s \<leftarrow> set_tcp_state NET_TCP_STATE_WAITING_PACKET s;
        let s = lwip_begin s;
        let data = take (unat (of_nat (length (tc_send_data cs)) :: u16)) (tc_send_data cs);
        (if \<not> nt_live s then None
         else if altcp_write lw data \<noteq> ERR_OK
         then do { s \<leftarrow> set_tcp_state NET_TCP_STATE_ERROR s; Some (1, s) }
         else Some (NET_TCP_STATE_WAITING_PACKET,
                    lwip_end (net_call CallOutput (net_call (CallWrite data) s))))
      }
      else if tc_state cs = NET_TCP_STATE_PACKET_RECVED
      then do {
        s \<leftarrow> set_tcp_state NET_TCP_STATE_WAITING_PACKET s;
        Some (NET_TCP_STATE_WAITING_PACKET, s)
      }
      else if tc_state cs \<in> {NET_TCP_STATE_FINISHED, NET_TCP_STATE_ERROR, NET_TCP_STATE_TIMEOUT}
      then Some (0, s)
      else Some (tc_state cs, s))
   }"

text \<open>The loop that waits: \<open>max_wait\<close> sleeps are left, \<open>k\<close> have passed. The first result is the
  counter behind the loop.\<close>

fun tcp_wait_loop :: "lwip \<Rightarrow> nat \<Rightarrow> nat \<Rightarrow> tcp_net \<Rightarrow> (int \<times> tcp_net) option" where
  "tcp_wait_loop lw 0 k s = do {
     (r, s) \<leftarrow> TCPClient_poll_impl lw s;
     Some (if r = 0 then 0 else - 1, s)
   }"
| "tcp_wait_loop lw (Suc max_wait) k s = do {
     (r, s) \<leftarrow> TCPClient_poll_impl lw s;
     (if r = 0 then Some (int (Suc max_wait), s)
      else do {
        s \<leftarrow> for_each (tcp_event lw) (net_events lw k) s;
        tcp_wait_loop lw max_wait (Suc k) s
      })
   }"

definition TCPClient_send ::
    "lwip \<Rightarrow> net_request \<Rightarrow> net_response \<Rightarrow> tcp_net \<Rightarrow> (bool \<times> net_response \<times> tcp_net) option" where
  "TCPClient_send lw req res s = do {
     ip \<leftarrow> Net_get_ip lw;
     (if isloopback ip then Some (False, res, s)
      else do {
        (ok, s) \<leftarrow> TCPClient_connect_impl lw ip req res s;
        (if \<not> ok then Some (False, res, s)
         else do {
           (max_wait, s) \<leftarrow> tcp_wait_loop lw 200 0 s;
           cs \<leftarrow> nt_cs s;
           let res = (if max_wait \<le> 0 then res
                      else \<lparr>rs_recv_data = tc_recv_data cs, rs_recv_data_len = tc_recv_data_len cs\<rparr>);
           (_, s) \<leftarrow> TCPClient_close lw s;
           Some (tc_state cs = NET_TCP_STATE_FINISHED, res, s)
         })
      })
   }"

section \<open>UDP datagrams\<close>

definition NET_UDP_STATE_NONE :: int where "NET_UDP_STATE_NONE = 0"
definition NET_UDP_STATE_WAITING :: int where "NET_UDP_STATE_WAITING = 2"
definition NET_UDP_STATE_RECEIVED :: int where "NET_UDP_STATE_RECEIVED = 3"
definition NET_UDP_STATE_FINISHED :: int where "NET_UDP_STATE_FINISHED = 4"
definition NET_UDP_STATE_ERROR :: int where "NET_UDP_STATE_ERROR = 99"

record udp_connection_state =
  uc_state :: int
  uc_send_data :: bytes
  uc_recv_data :: nat
  uc_recv_data_len :: nat
  uc_remote_ip :: u32
  uc_remote_port :: u16

type_synonym udp_net = "udp_connection_state net"

definition set_udp_state :: "int \<Rightarrow> udp_net \<Rightarrow> udp_net option" where
  "set_udp_state st s = do { cs \<leftarrow> nt_cs s; Some (s\<lparr>nt_cs := Some (cs\<lparr>uc_state := st\<rparr>)\<rparr>) }"

definition UDPClient_recv_cb :: "lwip \<Rightarrow> pbuf option \<Rightarrow> udp_net \<Rightarrow> udp_net option" where
  "UDPClient_recv_cb lw p s = do {
     cs \<leftarrow> nt_cs s;
     (case p of
        None \<Rightarrow> set_udp_state NET_UDP_STATE_ERROR s
      | Some p \<Rightarrow> do {
          (r, s) \<leftarrow> append_recv lw (uc_recv_data cs) (uc_recv_data_len cs) (concat p) s;
          (case r of
             None \<Rightarrow> set_udp_state NET_UDP_STATE_ERROR s
           | Some (q, len) \<Rightarrow>
               Some (s\<lparr>nt_cs := Some (cs\<lparr>uc_recv_data := q, uc_recv_data_len := len,
                                         uc_state := NET_UDP_STATE_RECEIVED\<rparr>)\<rparr>))
        })
   }"

definition udp_event :: "lwip \<Rightarrow> pbuf option \<Rightarrow> udp_net \<Rightarrow> udp_net option" where
  "udp_event lw p s = (if nt_live s \<and> nt_registered s then UDPClient_recv_cb lw p s else Some s)"

text \<open>Without a control block the connection is lost: it is neither returned nor freed.\<close>

definition UDPClient_new_connection ::
    "lwip \<Rightarrow> net_request \<Rightarrow> net_response \<Rightarrow> udp_net \<Rightarrow> bool \<times> udp_net" where
  "UDPClient_new_connection lw req res s =
     (udp_new_ok lw,
      net_call (CallNew False)
        (s\<lparr>nt_live := udp_new_ok lw, nt_registered := udp_new_ok lw,
           nt_cs := Some \<lparr>uc_state = NET_UDP_STATE_NONE, uc_send_data = rq_send_data req,
                          uc_recv_data = rs_recv_data res, uc_recv_data_len = rs_recv_data_len res,
                          uc_remote_ip = 0, uc_remote_port = 0\<rparr>\<rparr>))"

text \<open>The length of \<^verbatim>\<open>pbuf_alloc\<close> is 16 bits wide, the copy is not shortened.\<close>

definition UDPClient_send_impl ::
    "lwip \<Rightarrow> u32 \<Rightarrow> net_request \<Rightarrow> net_response \<Rightarrow> udp_net \<Rightarrow> (bool \<times> udp_net) option" where
  "UDPClient_send_impl lw ip req res s = do {
     let (ok, s) = UDPClient_new_connection lw req res s;
     (if \<not> ok then Some (False, s)
      else do {
        cs \<leftarrow> nt_cs s;
        let s = s\<lparr>nt_cs := Some (cs\<lparr>uc_remote_ip := ip, uc_remote_port := word_of_int (rq_port req)\<rparr>)\<rparr>;
        (if \<not> pbuf_alloc_ok lw
         then do { s \<leftarrow> set_udp_state NET_UDP_STATE_ERROR s; Some (True, s) }
         else do {
           let payload = replicate (unat (of_nat (length (uc_send_data cs)) :: u16)) 0;
           payload \<leftarrow> copy_into payload 0 (uc_send_data cs);
           let s = lwip_end (net_call (CallSendto payload ip (rq_port req)) (lwip_begin s));
           s \<leftarrow> set_udp_state (if udp_sendto lw payload ip (rq_port req) = ERR_OK
                              then NET_UDP_STATE_WAITING else NET_UDP_STATE_ERROR) s;
           Some (True, s)
         })
      })
   }"

definition UDPClient_poll_impl :: "udp_net \<Rightarrow> (int \<times> udp_net) option" where
  "UDPClient_poll_impl s = do {
     cs \<leftarrow> nt_cs s;
     (if uc_state cs = NET_UDP_STATE_RECEIVED
      then do { s \<leftarrow> set_udp_state NET_UDP_STATE_FINISHED s; Some (0, s) }
      else if uc_state cs = NET_UDP_STATE_ERROR then Some (0, s)
      else Some (uc_state cs, s))
   }"

definition UDPClient_close :: "udp_net \<Rightarrow> udp_net option" where
  "UDPClient_close s = do {
     cs \<leftarrow> nt_cs s;
     Some (lwip_end (net_call CallRemove (lwip_begin s))\<lparr>nt_live := False, nt_registered := False, nt_cs := None\<rparr>)
   }"

fun udp_wait_loop :: "lwip \<Rightarrow> nat \<Rightarrow> nat \<Rightarrow> udp_net \<Rightarrow> (int \<times> udp_net) option" where
  "udp_wait_loop lw 0 k s = do {
     (r, s) \<leftarrow> UDPClient_poll_impl s;
     Some (if r = 0 then 0 else - 1, s)
   }"
| "udp_wait_loop lw (Suc max_wait) k s = do {
     (r, s) \<leftarrow> UDPClient_poll_impl s;
     (if r = 0 then Some (int (Suc max_wait), s)
      else do {
        s \<leftarrow> for_each (udp_event lw) (udp_events lw k) s;
        udp_wait_loop lw max_wait (Suc k) s
      })
   }"

definition UDPClient_send ::
    "lwip \<Rightarrow> net_request \<Rightarrow> net_response \<Rightarrow> udp_net \<Rightarrow> (bool \<times> net_response \<times> udp_net) option" where
  "UDPClient_send lw req res s = do {
     ip \<leftarrow> Net_get_ip lw;
     (if isloopback ip then Some (False, res, s)
      else do {
        (ok, s) \<leftarrow> UDPClient_send_impl lw ip req res s;
        (if \<not> ok then Some (False, res, s)
         else do {
           (max_wait, s) \<leftarrow> udp_wait_loop lw 50 0 s;
           cs \<leftarrow> nt_cs s;
           let res = (if max_wait \<le> 0 then res
                      else \<lparr>rs_recv_data = uc_recv_data cs, rs_recv_data_len = uc_recv_data_len cs\<rparr>);
           s \<leftarrow> UDPClient_close s;
           Some (uc_state cs = NET_UDP_STATE_FINISHED, res, s)
         })
      })
   }"

section \<open>Methods\<close>

definition mrb_net_dns_s_resolve :: "lwip \<Rightarrow> mrb_value option" where
  "mrb_net_dns_s_resolve lw = do {
     outbuf \<leftarrow> DNS_resolve lw;
     Some (if outbuf = [] then VNil else VStr (map of_char outbuf))
   }"

text \<open>The two request methods differ in the function they call. The response starts as a block of
  one byte and is freed behind the copy into a string.\<close>

definition request_with ::
    "(lwip \<Rightarrow> net_request \<Rightarrow> net_response \<Rightarrow> 'c net \<Rightarrow> (bool \<times> net_response \<times> 'c net) option) \<Rightarrow>
     lwip \<Rightarrow> net_request \<Rightarrow> 'c net \<Rightarrow> (mrb_value \<times> 'c net) option" where
  "request_with send lw req s = do {
     let p = calloc_at lw (nt_heap s);
     let s = s\<lparr>nt_heap := (nt_heap s)(p := Some [0])\<rparr>;
     (ok, res, s) \<leftarrow> send lw req \<lparr>rs_recv_data = p, rs_recv_data_len = 0\<rparr> s;
     ret \<leftarrow> (if ok
            then do {
              block \<leftarrow> nt_heap s (rs_recv_data res);
              data \<leftarrow> copy_from block 0 (rs_recv_data_len res);
              Some (VStr data)
            }
            else Some VNil);
     s \<leftarrow> picorb_free (rs_recv_data res) s;
     Some (ret, s)
   }"

definition mrb_net_tcpclient_s__request_impl ::
    "lwip \<Rightarrow> string \<Rightarrow> int \<Rightarrow> bytes \<Rightarrow> bool \<Rightarrow> tcp_net \<Rightarrow> (mrb_value \<times> tcp_net) option" where
  "mrb_net_tcpclient_s__request_impl lw host port data use_dtls s =
     request_with TCPClient_send lw
       \<lparr>rq_host = host, rq_port = c_int port, rq_send_data = data, rq_is_tls = use_dtls\<rparr> s"

definition mrb_net_udpclient_s__send_impl ::
    "lwip \<Rightarrow> string \<Rightarrow> int \<Rightarrow> bytes \<Rightarrow> bool \<Rightarrow> udp_net \<Rightarrow> (mrb_value \<times> udp_net) option" where
  "mrb_net_udpclient_s__send_impl lw host port data use_dtls s =
     request_with UDPClient_send lw
       \<lparr>rq_host = host, rq_port = c_int port, rq_send_data = data, rq_is_tls = use_dtls\<rparr> s"

text \<open>mruby/c checks the types of the arguments itself.\<close>

definition c_string :: "bytes \<Rightarrow> string" where
  "c_string b = map (\<lambda>x. char_of (unat x)) (takeWhile (\<lambda>x. x \<noteq> 0) b)"

definition c_net_dns_resolve :: "lwip \<Rightarrow> mrb_value list \<Rightarrow> mrb_value rb_result option" where
  "c_net_dns_resolve lw args =
     (if length args < 1 \<or> 2 < length args
      then Some (Inl (ArgumentError ''wrong number of arguments''))
      else case args ! 0 of
        VStr host \<Rightarrow> do {
          outbuf \<leftarrow> DNS_resolve lw;
          Some (Inr (if outbuf = [] then VNil else VStr (map of_char outbuf)))
        }
      | _ \<Rightarrow> Some (Inl (TypeError ''wrong type of argument'')))"

definition c_net_tcpclient__request_impl ::
    "lwip \<Rightarrow> mrb_value list \<Rightarrow> tcp_net \<Rightarrow> (mrb_value rb_result \<times> tcp_net) option" where
  "c_net_tcpclient__request_impl lw args s =
     (if length args \<noteq> 4 then Some (Inl (ArgumentError ''wrong number of arguments''), s)
      else case args ! 0 of
        VStr host \<Rightarrow> (case args ! 1 of
          VInt port \<Rightarrow> (case args ! 2 of
            VStr data \<Rightarrow>
              (if args ! 3 \<noteq> VTrue \<and> args ! 3 \<noteq> VFalse
               then Some (Inl (TypeError ''wrong type of argument''), s)
               else do {
                 (ret, s) \<leftarrow> request_with TCPClient_send lw
                   \<lparr>rq_host = c_string host, rq_port = c_int port, rq_send_data = data,
                    rq_is_tls = (args ! 3 = VTrue)\<rparr> s;
                 Some (Inr ret, s)
               })
          | _ \<Rightarrow> Some (Inl (TypeError ''wrong type of argument''), s))
        | _ \<Rightarrow> Some (Inl (TypeError ''wrong type of argument''), s))
      | _ \<Rightarrow> Some (Inl (TypeError ''wrong type of argument''), s))"

definition c_net_udpclient__send_impl ::
    "lwip \<Rightarrow> mrb_value list \<Rightarrow> udp_net \<Rightarrow> (mrb_value rb_result \<times> udp_net) option" where
  "c_net_udpclient__send_impl lw args s =
     (if length args \<noteq> 4 then Some (Inl (ArgumentError ''wrong number of arguments''), s)
      else case args ! 0 of
        VStr host \<Rightarrow> (case args ! 1 of
          VInt port \<Rightarrow> (case args ! 2 of
            VStr data \<Rightarrow>
              (if args ! 3 \<noteq> VTrue \<and> args ! 3 \<noteq> VFalse
               then Some (Inl (TypeError ''wrong type of argument for is_tls''), s)
               else do {
                 (ret, s) \<leftarrow> request_with UDPClient_send lw
                   \<lparr>rq_host = c_string host, rq_port = c_int port, rq_send_data = data,
                    rq_is_tls = (args ! 3 = VTrue)\<rparr> s;
                 Some (Inr ret, s)
               })
          | _ \<Rightarrow> Some (Inl (TypeError ''wrong type of argument for data''), s))
        | _ \<Rightarrow> Some (Inl (TypeError ''wrong type of argument for port''), s))
      | _ \<Rightarrow> Some (Inl (TypeError ''wrong type of argument for host''), s))"

end
