(* ===== verification/NetProps.thy ===== *)
theory NetProps
  imports Net
begin

text \<open>
  Properties of the network clients: a request that is answered returns what the server has sent,
  frees what it has allocated and balances the lock of lwIP. Also what happens after errors and
  timeouts.
\<close>

section \<open>The block of received data\<close>

text \<open>The heap \<open>h\<close> is \<open>h0\<close> with one more block, at \<open>q\<close>, that starts with \<open>buf\<close>.\<close>

definition holds :: "(nat \<Rightarrow> bytes option) \<Rightarrow> bytes \<Rightarrow> nat \<Rightarrow> nat \<Rightarrow> (nat \<Rightarrow> bytes option) \<Rightarrow> bool" where
  "holds h0 buf q len h \<longleftrightarrow> (\<exists>block. h = h0(q := Some block) \<and> h0 q = None \<and> len = length buf
     \<and> len < length block \<and> take len block = buf)"

text \<open>An allocator that never fails and returns addresses that are not in use.\<close>

definition allocator :: "lwip \<Rightarrow> bool" where
  "allocator lw \<longleftrightarrow> (\<forall>h. finite (dom h) \<longrightarrow> h (calloc_at lw h) = None)
     \<and> (\<forall>h p sz. \<exists>q. realloc_at lw h p sz = Some q \<and> (q = p \<or> h q = None))"



lemma append_recv_holds:
  assumes "allocator lw" and "holds h0 buf p len (nt_heap s)"
  shows "\<exists>q h. append_recv lw p len x s = Some (Some (q, len + length x), s\<lparr>nt_heap := h\<rparr>)
           \<and> holds h0 (buf @ x) q (len + length x) h"
proof -
  obtain block where b: "nt_heap s = h0(p := Some block)" "h0 p = None" "len = length buf"
    "len < length block" "take len block = buf"
    using assms(2) by (auto simp: holds_def)
  obtain q where q: "realloc_at lw (nt_heap s) p (len + length x + 1) = Some q" "q = p \<or> nt_heap s q = None"
    using assms(1) unfolding allocator_def by blast
  have q0: "h0 q = None" using q(2) b(1,2) by (auto split: if_splits)
  define new where "new = take (len + length x + 1) block @ replicate (len + length x + 1 - length block) 0"
  have n: "length new = len + length x + 1" "take len new = buf"
    using b(4,5) by (auto simp: new_def min_def)
  define block' where "block' = take len new @ x @ drop (len + length x) new"
  have "(nt_heap s)(p := None, q := Some new, q := Some block') = h0(q := Some block')"
    using b(1,2) by (auto simp: fun_eq_iff)
  moreover have "holds h0 (buf @ x) q (len + length x) (h0(q := Some block'))"
    using n q0 b(3) by (auto simp: holds_def block'_def intro!: exI [of _ block'])
  ultimately show ?thesis
    using q(1) b n(1)
    by (intro exI [of _ q] exI [of _ "h0(q := Some block')"])
      (simp add: append_recv_def picorb_realloc_def copy_into_def block'_def new_def)
qed

section \<open>A TCP connection that works\<close>


fun is_write :: "net_call \<Rightarrow> bool" where
  "is_write (CallWrite _) = True"
| "is_write _ = False"



text \<open>
  The connection is open in one of the states \<open>S\<close>; \<open>W\<close> has been written to it and \<open>buf\<close> received;
  apart from its block the heap is \<open>h0\<close>, and the lock is taken \<open>l0\<close> times.
\<close>

definition tcp_run ::
    "(nat \<Rightarrow> bytes option) \<Rightarrow> int \<Rightarrow> net_call list \<Rightarrow> bytes \<Rightarrow> int set \<Rightarrow> bytes \<Rightarrow> tcp_net \<Rightarrow> bool" where
  "tcp_run h0 l0 W data S buf s \<longleftrightarrow> (\<exists>cs. nt_cs s = Some cs \<and> tc_state cs \<in> S \<and> tc_pcb cs
     \<and> tc_send_data cs = data \<and> nt_live s \<and> nt_registered s \<and> nt_lock s = l0
     \<and> filter is_write (nt_calls s) = W
     \<and> holds h0 buf (tc_recv_data cs) (tc_recv_data_len cs) (nt_heap s))"












lemma close_run:
  assumes "tcp_run h0 l0 W data S buf s"
  shows "\<exists>err s'. TCPClient_close lw s = Some (err, s') \<and> nt_heap s' = nt_heap s \<and> nt_lock s' = l0
    \<and> nt_cs s' = None \<and> filter is_write (nt_calls s') = W"
  using assms
  by (auto simp: tcp_run_def TCPClient_close_def lwip_begin_def lwip_end_def net_call_def
      TCPClient_free_tls_config_def Let_def)




text \<open>The methods around it free the block of the answer.\<close>

lemma request_frees:
  assumes "allocator lw" and "finite (dom (nt_heap s))"
    and "\<And>res s1. holds (nt_heap s) [] (rs_recv_data res) (rs_recv_data_len res) (nt_heap s1) \<Longrightarrow>
           nt_lock s1 = nt_lock s \<Longrightarrow> nt_calls s1 = nt_calls s \<Longrightarrow>
           \<exists>q len s2. send lw req res s1 = Some (True, \<lparr>rs_recv_data = q, rs_recv_data_len = len\<rparr>, s2)
             \<and> holds (nt_heap s) x q len (nt_heap s2) \<and> P s2"
    and "\<And>s2 h. P (s2\<lparr>nt_heap := h\<rparr>) = P s2"
  shows "\<exists>s'. request_with send lw req s = Some (VStr x, s') \<and> nt_heap s' = nt_heap s \<and> P s'"
proof -
  define p where "p = calloc_at lw (nt_heap s)"
  define s1 where "s1 = s\<lparr>nt_heap := (nt_heap s)(p := Some [0])\<rparr>"
  have "holds (nt_heap s) [] p 0 (nt_heap s1)"
    using assms(1,2) by (auto simp: holds_def allocator_def p_def s1_def)
  then obtain q len s2 where s2: "send lw req \<lparr>rs_recv_data = p, rs_recv_data_len = 0\<rparr> s1
      = Some (True, \<lparr>rs_recv_data = q, rs_recv_data_len = len\<rparr>, s2)"
      "holds (nt_heap s) x q len (nt_heap s2)" "P s2"
    using assms(3) [of "\<lparr>rs_recv_data = p, rs_recv_data_len = 0\<rparr>" s1] by (auto simp: s1_def)
  then obtain block where "nt_heap s2 = (nt_heap s)(q := Some block)" "nt_heap s q = None"
    "len < length block" "take len block = x"
    by (auto simp: holds_def)
  with s2(1,3) assms(4) show ?thesis
    by (simp add: request_with_def Let_def p_def [symmetric] s1_def copy_from_def picorb_free_def fun_upd_idem)
qed

section \<open>A UDP exchange that works\<close>

lemmas udp_states = NET_UDP_STATE_NONE_def NET_UDP_STATE_WAITING_def NET_UDP_STATE_RECEIVED_def
  NET_UDP_STATE_FINISHED_def NET_UDP_STATE_ERROR_def

fun is_sendto :: "net_call \<Rightarrow> bool" where
  "is_sendto (CallSendto _ _ _) = True"
| "is_sendto _ = False"

definition udp_run ::
    "(nat \<Rightarrow> bytes option) \<Rightarrow> int \<Rightarrow> net_call list \<Rightarrow> int \<Rightarrow> bytes \<Rightarrow> udp_net \<Rightarrow> bool" where
  "udp_run h0 l0 W st buf s \<longleftrightarrow> (\<exists>cs. nt_cs s = Some cs \<and> uc_state cs = st \<and> nt_live s \<and> nt_registered s
     \<and> nt_lock s = l0 \<and> filter is_sendto (nt_calls s) = W
     \<and> holds h0 buf (uc_recv_data cs) (uc_recv_data_len cs) (nt_heap s))"

lemma udp_step:
  assumes "allocator lw" and "udp_run h0 l0 W st buf s"
  shows "\<exists>s'. udp_event lw (Some p) s = Some s'
    \<and> udp_run h0 l0 W NET_UDP_STATE_RECEIVED (buf @ concat p) s'"
proof -
  obtain cs where cs: "nt_cs s = Some cs" "nt_live s" "nt_registered s" "nt_lock s = l0"
    "filter is_sendto (nt_calls s) = W" "holds h0 buf (uc_recv_data cs) (uc_recv_data_len cs) (nt_heap s)"
    using assms(2) by (auto simp: udp_run_def)
  obtain q h where "append_recv lw (uc_recv_data cs) (uc_recv_data_len cs) (concat p) s
      = Some (Some (q, uc_recv_data_len cs + length (concat p)), s\<lparr>nt_heap := h\<rparr>)"
    "holds h0 (buf @ concat p) q (uc_recv_data_len cs + length (concat p)) h"
    using append_recv_holds [OF assms(1) cs(6)] by blast
  with cs show ?thesis
    by (simp add: udp_event_def UDPClient_recv_cb_def udp_run_def)
qed

lemma udp_steps:
  assumes "allocator lw"
  shows "udp_run h0 l0 W st buf s \<Longrightarrow>
    \<exists>s'. for_each (udp_event lw) (map Some ps) s = Some s'
       \<and> udp_run h0 l0 W (if ps = [] then st else NET_UDP_STATE_RECEIVED) (buf @ concat (map concat ps)) s'"
proof (induction ps arbitrary: s buf st)
  case (Cons p ps)
  then obtain s1 where s1: "udp_event lw (Some p) s = Some s1"
      "udp_run h0 l0 W NET_UDP_STATE_RECEIVED (buf @ concat p) s1"
    using udp_step [OF assms Cons.prems] by blast
  then show ?case
    using Cons.IH [OF s1(2)] by (simp split: if_splits)
qed simp

lemma udp_wait:
  assumes "allocator lw" and "ps \<noteq> []"
  shows "udp_events lw (k + d) = map Some ps \<Longrightarrow> udp_run h0 l0 W NET_UDP_STATE_WAITING buf s \<Longrightarrow>
    \<forall>j<d. udp_events lw (k + j) = [] \<Longrightarrow> Suc d < n \<Longrightarrow>
    \<exists>s'. udp_wait_loop lw n k s = Some (int (n - Suc d), s')
       \<and> udp_run h0 l0 W NET_UDP_STATE_FINISHED (buf @ concat (map concat ps)) s'"
proof (induction d arbitrary: n k)
  case 0
  obtain m where n: "n = Suc (Suc m)"
    using 0(4) by (cases n; cases "n - 1") auto
  have "UDPClient_poll_impl s = Some (NET_UDP_STATE_WAITING, s)"
    using 0(2) by (auto simp: udp_run_def UDPClient_poll_impl_def udp_states)
  moreover obtain s1 where s1: "for_each (udp_event lw) (map Some ps) s = Some s1"
      "udp_run h0 l0 W NET_UDP_STATE_RECEIVED (buf @ concat (map concat ps)) s1"
    using udp_steps [OF assms(1) 0(2), of ps] assms(2) by auto
  moreover obtain s2 where "UDPClient_poll_impl s1 = Some (0, s2)"
      "udp_run h0 l0 W NET_UDP_STATE_FINISHED (buf @ concat (map concat ps)) s2"
    using s1(2) by (auto simp: udp_run_def UDPClient_poll_impl_def set_udp_state_def udp_states)
  ultimately show ?case
    using 0(1) by (simp add: n udp_states)
next
  case (Suc d)
  obtain m where n: "n = Suc m" "Suc d < m"
    using Suc.prems(4) by (cases n) auto
  have "udp_events lw k = []"
    using Suc.prems(3) by force
  moreover have "UDPClient_poll_impl s = Some (NET_UDP_STATE_WAITING, s)"
    using Suc.prems(2) by (auto simp: udp_run_def UDPClient_poll_impl_def udp_states)
  moreover have "\<forall>j<d. udp_events lw (Suc k + j) = []" "udp_events lw (Suc k + d) = map Some ps"
    using Suc.prems(1,3) by (metis Suc_mono add_Suc_shift)+
  ultimately show ?case
    using Suc.IH [of "Suc k" m] Suc.prems(2) n by (simp add: udp_states)
qed

lemma udp_send_succeeds:
  assumes "allocator lw" and "Net_get_ip lw = Some ip" and "\<not> isloopback ip" and "udp_new_ok lw"
    and "pbuf_alloc_ok lw" and "udp_sendto lw (rq_send_data req) ip (rq_port req) = ERR_OK"
    and "length (rq_send_data req) < 65536" and "\<forall>k<b. udp_events lw k = []"
    and "udp_events lw b = map Some ps" and "ps \<noteq> []" and "b < 49"
    and "holds h0 [] (rs_recv_data res) (rs_recv_data_len res) (nt_heap s)"
  shows "\<exists>q len s'. UDPClient_send lw req res s
      = Some (True, \<lparr>rs_recv_data = q, rs_recv_data_len = len\<rparr>, s')
    \<and> holds h0 (concat (map concat ps)) q len (nt_heap s') \<and> nt_lock s' = nt_lock s \<and> nt_cs s' = None
    \<and> filter is_sendto (nt_calls s') = filter is_sendto (nt_calls s) @ [CallSendto (rq_send_data req) ip (rq_port req)]"
proof -
  define W where "W = filter is_sendto (nt_calls s) @ [CallSendto (rq_send_data req) ip (rq_port req)]"
  have "unat (of_nat (length (rq_send_data req)) :: u16) = length (rq_send_data req)"
    unfolding unat_of_nat using assms(7) by simp
  then obtain s1 where s1: "UDPClient_send_impl lw ip req res s = Some (True, s1)"
    "udp_run h0 (nt_lock s) W NET_UDP_STATE_WAITING [] s1"
    using assms(4-6,12)
    by (simp add: UDPClient_send_impl_def UDPClient_new_connection_def net_call_def copy_into_def
        lwip_begin_def lwip_end_def set_udp_state_def udp_run_def W_def Let_def del: unsigned_of_nat)
  obtain s2 where s2: "udp_wait_loop lw 50 0 s1 = Some (int (50 - Suc b), s2)"
    "udp_run h0 (nt_lock s) W NET_UDP_STATE_FINISHED (concat (map concat ps)) s2"
    using udp_wait [OF assms(1,10) _ s1(2), of 0 b 50] assms(8,9,11) by auto
  with s1(1) assms(2,3,11) show ?thesis
    by (auto simp: UDPClient_send_def UDPClient_close_def udp_run_def net_call_def lwip_begin_def
        lwip_end_def W_def)
qed

section \<open>Properties\<close>


text \<open>A server at 93.184.216.34 that answers "Hi" and "!" and closes the connection; a UDP peer that
  answers "ok".\<close>

definition demo_lwip :: lwip where
  "demo_lwip = \<lparr>
     dns_ip = (\<lambda>n. if n < 2 then 0 else 0x5DB8D822), altcp_new_ok = True, altcp_tls_new_ok = True,
     altcp_connect = (\<lambda>_ _. 0), altcp_write = (\<lambda>_. 0), altcp_close = 0, early_events = [],
     net_events = (\<lambda>k. if k = 3 then [ConnectedEvent 0]
                       else if k = 5 then [RecvEvent (Some [[72], [105]]) 0]
                       else if k = 6 then [SentEvent 4, RecvEvent (Some [[33]]) 0, RecvEvent None 0] else []),
     udp_new_ok = True, pbuf_alloc_ok = True, udp_sendto = (\<lambda>_ _ _. 0),
     udp_events = (\<lambda>k. if k = 1 then [Some [[111, 107]]] else []),
     realloc_at = (\<lambda>h p sz. if h (p + 7) = None then Some (p + 7) else Some p),
     calloc_at = (\<lambda>h. Suc (Max (insert 0 (dom h)))), ipaddr_ntoa = (\<lambda>_. ''93.184.216.34'')\<rparr>"

lemma demo_allocator: "allocator demo_lwip"
proof -
  have "h (Suc (Max (insert 0 (dom h)))) = None" if "finite (dom h)" for h :: "nat \<Rightarrow> bytes option"
  proof (rule ccontr)
    assume "\<not> ?thesis"
    then have "Suc (Max (insert 0 (dom h))) \<le> Max (insert 0 (dom h))"
      using that by (intro Max_ge) auto
    then show False by simp
  qed
  then show ?thesis
    by (auto simp: allocator_def demo_lwip_def)
qed

lemma demo_ip: "Net_get_ip demo_lwip = Some 0x5DB8D822"
  by (simp add: Net_get_ip_def get_ip_loop.simps [of _ 0] get_ip_loop.simps [of _ "Suc 0"]
      get_ip_loop.simps [of _ "Suc (Suc 0)"] demo_lwip_def)

definition no_net :: "'c net" where
  "no_net = \<lparr>nt_heap = (\<lambda>_. None), nt_cs = None, nt_live = False, nt_registered = False, nt_lock = 0, nt_calls = []\<rparr>"


lemma demo_fields:
  "altcp_new_ok demo_lwip" "altcp_tls_new_ok demo_lwip" "altcp_connect demo_lwip ip port = ERR_OK"
  "early_events demo_lwip = []" "altcp_write demo_lwip data = ERR_OK" "udp_new_ok demo_lwip"
  "pbuf_alloc_ok demo_lwip" "udp_sendto demo_lwip data ip port = ERR_OK"
  by (simp_all add: demo_lwip_def ERR_OK_def)


text \<open>A UDP request whose peer answers within five seconds returns the datagrams of the first sleep
  in which any arrive; the data is sent exactly once, nothing stays allocated, and the lock is
  released. Both virtual machines do the same.\<close>

theorem udp_request_succeeds:
  assumes "allocator lw" and "finite (dom (nt_heap s))" and "Net_get_ip lw = Some ip" and "\<not> isloopback ip"
    and "udp_new_ok lw" and "pbuf_alloc_ok lw" and "udp_sendto lw data ip (c_int port) = ERR_OK"
    and "length data < 65536" and "\<forall>k<b. udp_events lw k = []" and "udp_events lw b = map Some ps"
    and "ps \<noteq> []" and "b < 49"
  shows "\<exists>s1 s2. mrb_net_udpclient_s__send_impl lw host port data dtls s = Some (VStr (concat (map concat ps)), s1)
    \<and> c_net_udpclient__send_impl lw [VStr name, VInt port, VStr data, if dtls then VTrue else VFalse] s
        = Some (Inr (VStr (concat (map concat ps))), s2)
    \<and> (\<forall>s'\<in>{s1, s2}. nt_heap s' = nt_heap s \<and> nt_lock s' = nt_lock s \<and> nt_cs s' = None
         \<and> filter is_sendto (nt_calls s') = filter is_sendto (nt_calls s) @ [CallSendto data ip (c_int port)])"
proof -
  let ?P = "\<lambda>s'. nt_lock s' = nt_lock s \<and> nt_cs s' = None
    \<and> filter is_sendto (nt_calls s') = filter is_sendto (nt_calls s) @ [CallSendto data ip (c_int port)]"
  have r: "\<exists>s'. request_with UDPClient_send lw req s = Some (VStr (concat (map concat ps)), s')
      \<and> nt_heap s' = nt_heap s \<and> ?P s'" if req: "rq_port req = c_int port" "rq_send_data req = data" for req
  proof (rule request_frees [OF assms(1,2)])
    fix res :: net_response and s1 :: udp_net
    assume s1: "holds (nt_heap s) [] (rs_recv_data res) (rs_recv_data_len res) (nt_heap s1)"
      "nt_lock s1 = nt_lock s" "nt_calls s1 = nt_calls s"
    show "\<exists>q len s2. UDPClient_send lw req res s1 = Some (True, \<lparr>rs_recv_data = q, rs_recv_data_len = len\<rparr>, s2)
        \<and> holds (nt_heap s) (concat (map concat ps)) q len (nt_heap s2) \<and> ?P s2"
      using udp_send_succeeds [OF assms(1,3-6), of req b ps, OF _ _ assms(9-12) s1(1)] assms(7,8)
      by (simp add: req s1(2,3))
  qed simp
  show ?thesis
    using r [of "\<lparr>rq_host = host, rq_port = c_int port, rq_send_data = data, rq_is_tls = dtls\<rparr>"]
      r [of "\<lparr>rq_host = c_string name, rq_port = c_int port, rq_send_data = data, rq_is_tls = dtls\<rparr>"]
    by (auto simp: mrb_net_udpclient_s__send_impl_def c_net_udpclient__send_impl_def)
qed

theorem udp_request_succeeds_witness:
  "\<exists>s1. mrb_net_udpclient_s__send_impl demo_lwip ''pool.ntp.org'' 123 [27] False no_net
      = Some (VStr [111, 107], s1) \<and> nt_heap s1 = (\<lambda>_. None)"
proof -
  have e: "\<forall>k<1. udp_events demo_lwip k = []" "udp_events demo_lwip 1 = map Some [[[111, 107]]]"
    by (simp_all add: demo_lwip_def)
  have "finite (dom (nt_heap (no_net :: udp_net)))" "\<not> isloopback 0x5DB8D822"
    by (simp_all add: no_net_def isloopback_def)
  from udp_request_succeeds [OF demo_allocator this(1) demo_ip this(2) demo_fields(6-8) _ e, where data = "[27]" and host = "''pool.ntp.org''" and port = 123 and dtls = False]
  show ?thesis
    by (auto simp: no_net_def)
qed

section \<open>Where the clients go wrong\<close>

text \<open>Name resolution waits for ever when no answer comes.\<close>

lemma get_ip_found:
  assumes "get_ip_loop lw n = Some ip"
  shows "ip \<noteq> 0 \<and> (\<exists>m\<ge>n. dns_ip lw m = ip)"
proof (rule get_ip_loop.raw_induct [where P = "\<lambda>lw n ip. ip \<noteq> 0 \<and> (\<exists>m\<ge>n. dns_ip lw m = ip)", OF _ assms])
  fix f and lw :: lwip and n ip
  assume *: "\<And>lw n ip. f lw n = Some ip \<Longrightarrow> ip \<noteq> 0 \<and> (\<exists>m\<ge>n. dns_ip lw m = ip)"
    and r: "(if dns_ip lw n = 0 then f lw (Suc n) else Some (dns_ip lw n)) = Some ip"
  show "ip \<noteq> 0 \<and> (\<exists>m\<ge>n. dns_ip lw m = ip)"
    using r * [of lw "Suc n" ip] by (auto split: if_splits dest: Suc_leD)
qed

lemma get_ip_hangs: "\<forall>n. dns_ip lw n = 0 \<Longrightarrow> Net_get_ip lw = None"
  using get_ip_found [of lw 0] by (cases "Net_get_ip lw") (auto simp: Net_get_ip_def)

text \<open>
  After an error, lwIP has freed the control block that \<open>TCPClient_close\<close> uses; a refused connection
  or an error while receiving frees the connection that the waiting loop looks at next.
\<close>

lemma err_then_close:
  assumes "nt_cs s = Some cs" and "tc_pcb cs" and "nt_live s" and "nt_registered s"
  shows "\<exists>s'. tcp_event lw (ErrEvent err) s = Some s' \<and> TCPClient_close lw s' = None"
  using assms by (auto simp: tcp_event_def TCPClient_err_cb_def set_tcp_state_def TCPClient_close_def)

lemma refused_then_poll:
  assumes "nt_cs s = Some cs" and "tc_pcb cs" and "nt_live s" and "nt_registered s" and "err \<noteq> ERR_OK"
  shows "\<exists>s'. tcp_event lw (ConnectedEvent err) s = Some s' \<and> TCPClient_poll_impl lw s' = None"
    and "\<exists>s'. tcp_event lw (RecvEvent p err) s = Some s' \<and> TCPClient_poll_impl lw s' = None"
  using assms
  by (auto simp: tcp_event_def TCPClient_connected_cb_def TCPClient_recv_cb_def set_tcp_state_def
      TCPClient_close_def TCPClient_poll_impl_def net_call_def Let_def lwip_begin_def lwip_end_def
      TCPClient_free_tls_config_def)

text \<open>The connection may be made before \<open>TCPClient_connect_impl\<close> sets its state: then the state is lost,
  and the request is never written.\<close>

lemma connected_too_early:
  assumes "nt_cs s = Some cs" and "nt_live s" and "nt_registered s"
  shows "\<exists>s1 s2 cs'. for_each (tcp_event lw) [ConnectedEvent ERR_OK] s = Some s1
    \<and> set_tcp_state NET_TCP_STATE_CONNECTION_STARTED s1 = Some s2
    \<and> nt_cs s2 = Some cs' \<and> tc_state cs' = NET_TCP_STATE_CONNECTION_STARTED"
  using assms by (auto simp: tcp_event_def TCPClient_connected_cb_def set_tcp_state_def)

text \<open>A write that fails leaves the lock of lwIP taken.\<close>

lemma write_failure_keeps_lock:
  assumes "nt_cs s = Some cs" and "tc_state cs = NET_TCP_STATE_CONNECTED" and "nt_live s"
    and "\<And>x. altcp_write lw x \<noteq> ERR_OK"
  shows "\<exists>s'. TCPClient_poll_impl lw s = Some (1, s') \<and> nt_lock s' = nt_lock s + 1"
  using assms by (auto simp: TCPClient_poll_impl_def set_tcp_state_def lwip_begin_def)

text \<open>A datagram of 64 KB or more is copied behind the end of its buffer.\<close>

lemma udp_overflow:
  assumes "udp_new_ok lw" and "pbuf_alloc_ok lw" and "65536 \<le> length (rq_send_data req)"
  shows "UDPClient_send_impl lw ip req res s = None"
proof -
  have "unat (of_nat (length (rq_send_data req)) :: u16) < 65536"
    unfolding unat_of_nat by simp
  with assms show ?thesis
    by (simp add: UDPClient_send_impl_def UDPClient_new_connection_def net_call_def copy_into_def
        Let_def del: unsigned_of_nat)
qed

text \<open>After a timeout the response still has the address of the first block, although the received
  bytes have moved: that block has been freed, and the method frees it again.\<close>

lemma timeout_frees_twice:
  assumes "Net_get_ip lw = Some ip" and "\<not> isloopback ip"
    and "TCPClient_connect_impl lw ip req res s = Some (True, s1)"
    and "tcp_wait_loop lw 200 0 s1 = Some (w, s2)" and "w \<le> 0" and "tcp_run h0 l0 W data S buf s2"
    and "h0 (rs_recv_data res) = None" and "map_option tc_recv_data (nt_cs s2) \<noteq> Some (rs_recv_data res)"
  shows "\<exists>ok s3. TCPClient_send lw req res s = Some (ok, res, s3) \<and> picorb_free (rs_recv_data res) s3 = None"
proof -
  obtain cs where cs: "nt_cs s2 = Some cs" "holds h0 buf (tc_recv_data cs) (tc_recv_data_len cs) (nt_heap s2)"
    using assms(6) by (auto simp: tcp_run_def)
  obtain err s3 where "TCPClient_close lw s2 = Some (err, s3)" "nt_heap s3 = nt_heap s2"
    using close_run [OF assms(6)] by blast
  with cs assms(1-5,7,8) show ?thesis
    by (auto simp: TCPClient_send_def holds_def picorb_free_def)
qed

end
