(* ===== verification/PosixIo.thy ===== *)
theory PosixIo
  imports Prelude
begin

text \<open>
  Reading and writing of the class \<^verbatim>\<open>IO\<close> on POSIX systems (\<^verbatim>\<open>picoruby-posix-io/src/io.c\<close>, for mruby/c): the
  read buffer of an object and the methods on it. The system calls are the fields of the record
  \<open>posix\<close>, on a state \<open>'k\<close> of the operating system. \<open>None\<close> is undefined behaviour, a failed
  assertion, or a loop that does not end.
\<close>

section \<open>System calls\<close>

text \<open>
  \<open>sys_read d n\<close> is \<open>None\<close> when \<^verbatim>\<open>read\<close> gives \<open>-1\<close>, else the bytes it has stored; \<open>sys_fork\<close> gives the
  result of \<^verbatim>\<open>fork\<close>. \<open>sys_select\<close> takes the highest descriptor, three optional sets and a timeout of
  seconds and microseconds, and gives the result with the sets it leaves. \<open>sys_exec\<close> tells
  whether the program could be replaced. The last fields are constants of the platform.
\<close>

record 'k posix =
  sys_read :: "int \<Rightarrow> nat \<Rightarrow> 'k \<Rightarrow> bytes option \<times> 'k"
  sys_pread :: "int \<Rightarrow> nat \<Rightarrow> int \<Rightarrow> 'k \<Rightarrow> bytes option \<times> 'k"
  sys_write :: "int \<Rightarrow> bytes \<Rightarrow> 'k \<Rightarrow> int \<times> 'k"
  sys_pwrite :: "int \<Rightarrow> bytes \<Rightarrow> int \<Rightarrow> 'k \<Rightarrow> int \<times> 'k"
  sys_lseek :: "int \<Rightarrow> int \<Rightarrow> int \<Rightarrow> 'k \<Rightarrow> int \<times> 'k"
  sys_isatty :: "int \<Rightarrow> 'k \<Rightarrow> bool"
  sys_open :: "bytes \<Rightarrow> int \<Rightarrow> int \<Rightarrow> 'k \<Rightarrow> int \<times> 'k"
  sys_close :: "int \<Rightarrow> 'k \<Rightarrow> int \<times> 'k"
  sys_pipe :: "'k \<Rightarrow> (int \<times> int) option \<times> 'k"
  sys_dup2 :: "int \<Rightarrow> int \<Rightarrow> 'k \<Rightarrow> 'k"
  sys_fork :: "'k \<Rightarrow> int \<times> 'k"
  sys_exec :: "bytes \<Rightarrow> 'k \<Rightarrow> bool \<times> 'k"
  sys_waitpid :: "int \<Rightarrow> 'k \<Rightarrow> int \<times> int \<times> 'k"
  sys_getfd :: "int \<Rightarrow> 'k \<Rightarrow> int \<times> 'k"
  sys_setfd :: "int \<Rightarrow> int \<Rightarrow> 'k \<Rightarrow> int \<times> 'k"
  sys_select ::
    "int \<Rightarrow> int set option \<Rightarrow> int set option \<Rightarrow> int set option \<Rightarrow> (int \<times> int) option \<Rightarrow> 'k
       \<Rightarrow> int \<times> int set \<times> int set \<times> int set \<times> 'k"
  sys_errno :: "'k \<Rightarrow> int"
  sys_set_errno :: "int \<Rightarrow> 'k \<Rightarrow> 'k"
  WEXITSTATUS :: "int \<Rightarrow> int"
  FD_CLOEXEC :: int
  NOFILE :: nat
  EINTR :: int
  EMFILE :: int
  ENFILE :: int
  ENOENT :: int

section \<open>The state of a method\<close>

definition PICORB_IO_BUF_SIZE :: nat where "PICORB_IO_BUF_SIZE = 4096"

text \<open>\<open>b_mem\<close> is as long as the memory that has been allocated.\<close>

record io_buf =
  b_start :: int
  b_len :: int
  b_mem :: bytes

text \<open>\<open>buf\<close> is \<open>None\<close> for the null pointer.\<close>

record picorb_io =
  readable :: bool
  writable :: bool
  eof :: bool
  sync :: bool
  close_fd :: bool
  close_fd2 :: bool
  fd :: int
  fd2 :: int
  pid :: int
  buf :: "io_buf option"

text \<open>The object, the operating system, the exception that is set, and the global variable \<^verbatim>\<open>$?\<close>.\<close>

record 'k io_state =
  fptr :: picorb_io
  os :: 'k
  exc :: "rb_error option"
  child_status :: "int option"

type_synonym 'k io_out = "(mrb_value \<times> 'k io_state) option"

definition mrbc_raise :: "rb_error \<Rightarrow> 'k io_state \<Rightarrow> 'k io_state" where
  "mrbc_raise e s = s\<lparr>exc := Some e\<rparr>"

definition eof_error :: "'k io_state \<Rightarrow> 'k io_state" where
  "eof_error = mrbc_raise (EOFError ''end of file reached'')"

definition set_buf :: "io_buf \<Rightarrow> 'k io_state \<Rightarrow> 'k io_state" where
  "set_buf b s = s\<lparr>fptr := (fptr s)\<lparr>buf := Some b\<rparr>\<rparr>"

text \<open>The conversion to \<^verbatim>\<open>short\<close>, and an access behind a pointer with a signed offset.\<close>

definition c_short :: "int \<Rightarrow> int" where
  "c_short i = sint (word_of_int i :: u16)"

definition mem_range :: "bytes \<Rightarrow> int \<Rightarrow> int \<Rightarrow> bytes option" where
  "mem_range m off n = (if 0 \<le> off \<and> 0 \<le> n then copy_from m (nat off) (nat n) else None)"

text \<open>
  The structure behind \<^verbatim>\<open>v[0]\<close>. It is part of the object, so its address is never null; a value that
  is not an object has no such structure.
\<close>

definition io_data_get_ptr :: "mrb_value \<Rightarrow> 'k io_state \<Rightarrow> picorb_io option" where
  "io_data_get_ptr io s = (case io of VObj _ \<Rightarrow> Some (fptr s) | _ \<Rightarrow> None)"

text \<open>The pointer that these functions return is \<open>None\<close> when it is null.\<close>

definition io_get_open_fptr ::
    "mrb_value \<Rightarrow> 'k io_state \<Rightarrow> (picorb_io option \<times> 'k io_state) option" where
  "io_get_open_fptr io s = do {
     f \<leftarrow> io_data_get_ptr io s;
     Some (if fd f < 0 then (None, mrbc_raise (IOError ''closed stream'') s) else (Some f, s))
   }"

definition io_get_read_fptr ::
    "mrb_value \<Rightarrow> 'k io_state \<Rightarrow> (picorb_io option \<times> 'k io_state) option" where
  "io_get_read_fptr io s = do {
     (p, s) \<leftarrow> io_get_open_fptr io s;
     f \<leftarrow> p;
     Some (if \<not> readable f then (None, mrbc_raise (IOError ''not opened for reading'') s)
           else (Some f, s))
   }"

definition io_get_write_fptr ::
    "mrb_value \<Rightarrow> 'k io_state \<Rightarrow> (picorb_io option \<times> 'k io_state) option" where
  "io_get_write_fptr io s = do {
     (p, s) \<leftarrow> io_get_open_fptr io s;
     Some (case p of
       None \<Rightarrow> (None, s)
     | Some f \<Rightarrow> (if \<not> writable f then (None, mrbc_raise (IOError ''not opened for writing'') s)
                 else (Some f, s)))
   }"

definition io_get_write_fd :: "picorb_io \<Rightarrow> int" where
  "io_get_write_fd f = (if fd2 f = - 1 then fd f else fd2 f)"

section \<open>The read buffer\<close>

definition io_fill_buf :: "'k posix \<Rightarrow> 'k io_state \<Rightarrow> 'k io_state option" where
  "io_fill_buf P s = do {
     b \<leftarrow> buf (fptr s);
     (if 0 < b_len b then Some s
      else let (r, k) = sys_read P (fd (fptr s)) PICORB_IO_BUF_SIZE (os s); s = s\<lparr>os := k\<rparr>
           in (case r of
                 None \<Rightarrow> Some (mrbc_raise (RuntimeError ''sysread failed'') s)
               | Some data \<Rightarrow> do {
                   m \<leftarrow> copy_into (b_mem b) 0 data;
                   let s = (if data = [] then s\<lparr>fptr := (fptr s)\<lparr>eof := True\<rparr>\<rparr> else s);
                   Some (set_buf \<lparr>b_start = 0, b_len = c_short (int (length data)), b_mem = m\<rparr> s)
                 }))
   }"

definition io_buf_reset :: "io_buf \<Rightarrow> io_buf" where
  "io_buf_reset b = b\<lparr>b_start := 0, b_len := 0\<rparr>"

definition io_buf_shift :: "io_buf \<Rightarrow> int \<Rightarrow> io_buf option" where
  "io_buf_shift b n =
     (if n \<le> 32767
      then Some (b\<lparr>b_start := c_short (b_start b + c_short n), b_len := c_short (b_len b - c_short n)\<rparr>)
      else None)"

text \<open>\<open>outbuf\<close> is the content of the string that bytes are appended to.\<close>

definition io_buf_cat :: "bytes \<Rightarrow> io_buf \<Rightarrow> int \<Rightarrow> (bytes \<times> io_buf) option" where
  "io_buf_cat outbuf b n =
     (if n \<le> b_len b
      then do {
        data \<leftarrow> mem_range (b_mem b) (b_start b) n;
        b \<leftarrow> io_buf_shift b n;
        Some (outbuf @ data, b)
      }
      else None)"

definition io_buf_cat_all :: "bytes \<Rightarrow> io_buf \<Rightarrow> (bytes \<times> io_buf) option" where
  "io_buf_cat_all outbuf b = do {
     data \<leftarrow> mem_range (b_mem b) (b_start b) (b_len b);
     Some (outbuf @ data, io_buf_reset b)
   }"

definition picorb_io_read_data_pending :: "picorb_io \<Rightarrow> bool" where
  "picorb_io_read_data_pending f = (case buf f of None \<Rightarrow> False | Some b \<Rightarrow> 0 < b_len b)"

text \<open>The search compares the first byte, then the whole separator, at \<open>n\<close> places from \<open>i\<close> on.\<close>

fun find_index_loop :: "bytes \<Rightarrow> bytes \<Rightarrow> int \<Rightarrow> nat \<Rightarrow> int option" where
  "find_index_loop p rs i 0 = Some (- 1)"
| "find_index_loop p rs i (Suc n) = do {
     c \<leftarrow> mem_range p i 1;
     m \<leftarrow> (if c \<noteq> take 1 rs then Some False
          else if length rs = 1 then Some True
          else map_option (\<lambda>x. x = rs) (mem_range p i (int (length rs))));
     (if m then Some i else find_index_loop p rs (i + 1) n)
   }"

definition io_find_index :: "io_buf \<Rightarrow> bytes \<Rightarrow> int option" where
  "io_find_index b rs =
     (if rs = [] then None
      else let limit = b_len b - int (length rs) + 1
           in do {
             p \<leftarrow> (if limit \<le> 0 then Some []
                  else mem_range (b_mem b) (b_start b) (int (length (b_mem b)) - b_start b));
             find_index_loop p rs 0 (nat limit)
           })"

section \<open>Reading through the buffer\<close>

partial_function (option) io_read_all ::
    "'k posix \<Rightarrow> bytes \<Rightarrow> 'k io_state \<Rightarrow> (bytes \<times> 'k io_state) option" where
  "io_read_all P outbuf s = do {
     s \<leftarrow> io_fill_buf P s;
     (if eof (fptr s) then Some (outbuf, s)
      else do {
        b \<leftarrow> buf (fptr s);
        (outbuf, b) \<leftarrow> io_buf_cat_all outbuf b;
        io_read_all P outbuf (set_buf b s)
      })
   }"

definition io_reset_outbuf :: "mrb_value \<Rightarrow> mrb_value" where
  "io_reset_outbuf outbuf = (if outbuf = VNil then VStr [] else outbuf)"

definition str_data :: "mrb_value \<Rightarrow> bytes option" where
  "str_data v = (case v of VStr x \<Rightarrow> Some x | _ \<Rightarrow> None)"

text \<open>A string argument, which the code does not check, or an argument that may be missing.\<close>

definition GET_STRING :: "mrb_value list \<Rightarrow> nat \<Rightarrow> bytes option" where
  "GET_STRING args n = do { v \<leftarrow> arr_get args (n - 1); str_data v }"

definition opt_arg :: "mrb_value list \<Rightarrow> nat \<Rightarrow> mrb_value" where
  "opt_arg args n = (if length args < n then VNil else args ! (n - 1))"

partial_function (option) io_read_loop ::
    "'k posix \<Rightarrow> int \<Rightarrow> bytes \<Rightarrow> 'k io_state \<Rightarrow> (mrb_value \<times> 'k io_state) option" where
  "io_read_loop P n outbuf s = do {
     s \<leftarrow> io_fill_buf P s;
     (if eof (fptr s) \<or> n = 0
      then Some (if outbuf = [] then VNil else VStr outbuf, s)
      else do {
        b \<leftarrow> buf (fptr s);
        (if b_len b < n
         then do {
           (outbuf, b') \<leftarrow> io_buf_cat_all outbuf b;
           io_read_loop P (n - b_len b) outbuf (set_buf b' s)
         }
         else do {
           (outbuf, b) \<leftarrow> io_buf_cat outbuf b n;
           Some (VStr outbuf, set_buf b s)
         })
      })
   }"

text \<open>A negative length raises an error, but the method goes on.\<close>

definition c_io_read :: "'k posix \<Rightarrow> mrb_value list \<Rightarrow> 'k io_state \<Rightarrow> 'k io_out" where
  "c_io_read P args s = do {
     (p, s) \<leftarrow> io_get_read_fptr mrbc_self s;
     (case p of
        None \<Rightarrow> Some (mrbc_self, s)
      | Some _ \<Rightarrow>
          (case opt_arg args 1 of
             VNil \<Rightarrow> do {
               out0 \<leftarrow> str_data (io_reset_outbuf (opt_arg args 2));
               (out, s) \<leftarrow> io_read_all P out0 s;
               Some (VStr out, s)
             }
           | VInt n \<Rightarrow> do {
               let s = (if n < 0 then mrbc_raise (ArgumentError ''negative length given'') s else s);
               (if n = 0 then Some (io_reset_outbuf (opt_arg args 2), s)
                else do {
                  out0 \<leftarrow> str_data (io_reset_outbuf (opt_arg args 2));
                  io_read_loop P n out0 s
                })
             }
           | _ \<Rightarrow> None))
   }"

definition c_io_getbyte :: "'k posix \<Rightarrow> 'k io_state \<Rightarrow> 'k io_out" where
  "c_io_getbyte P s = do {
     (p, s) \<leftarrow> io_get_read_fptr mrbc_self s;
     _ \<leftarrow> p;
     s \<leftarrow> io_fill_buf P s;
     (if eof (fptr s) then Some (VNil, s)
      else do {
        b \<leftarrow> buf (fptr s);
        c \<leftarrow> mem_range (b_mem b) (b_start b) 1;
        b \<leftarrow> io_buf_shift b 1;
        Some (VInt (uint (hd c)), set_buf b s)
      })
   }"

definition c_io_readbyte :: "'k posix \<Rightarrow> 'k io_state \<Rightarrow> 'k io_out" where
  "c_io_readbyte P s = do {
     (v, s) \<leftarrow> c_io_getbyte P s;
     Some (v, if v = VNil then eof_error s else s)
   }"

definition c_io_getc :: "'k posix \<Rightarrow> 'k io_state \<Rightarrow> 'k io_out" where
  "c_io_getc P s = do {
     (p, s) \<leftarrow> io_get_read_fptr mrbc_self s;
     _ \<leftarrow> p;
     s \<leftarrow> io_fill_buf P s;
     (if eof (fptr s) then Some (VNil, s)
      else do {
        b \<leftarrow> buf (fptr s);
        c \<leftarrow> mem_range (b_mem b) (b_start b) 1;
        b \<leftarrow> io_buf_shift b 1;
        Some (VStr c, set_buf b s)
      })
   }"

definition c_io_readchar :: "'k posix \<Rightarrow> 'k io_state \<Rightarrow> 'k io_out" where
  "c_io_readchar P s = do {
     (v, s) \<leftarrow> c_io_getc P s;
     Some (v, if v = VNil then eof_error s else s)
   }"

definition c_io_eof_q :: "'k posix \<Rightarrow> 'k io_state \<Rightarrow> 'k io_out" where
  "c_io_eof_q P s = do {
     (p, s) \<leftarrow> io_get_read_fptr mrbc_self s;
     f \<leftarrow> p;
     (if eof f then Some (VTrue, s)
      else do {
        b \<leftarrow> buf f;
        (if 0 < b_len b then Some (VFalse, s)
         else do {
           s \<leftarrow> io_fill_buf P s;
           Some (if eof (fptr s) then VTrue else VFalse, s)
         })
      })
   }"

section \<open>Lines\<close>

text \<open>
  The arguments of \<^verbatim>\<open>gets\<close>: the separator, the limit, and whether they are given, in the three steps of
  the code.
\<close>

type_synonym gets_opts = "mrb_value \<times> int \<times> bool \<times> bool"

definition newline :: u8 where "newline = 10"

definition gets_argc :: "mrb_value list \<Rightarrow> gets_opts rb_result option" where
  "gets_argc args =
     (case args of
        [] \<Rightarrow> Some (Inr (VNil, - 1, False, False))
      | [rs] \<Rightarrow> Some (Inr (rs, - 1, True, False))
      | [rs, limit] \<Rightarrow> do { l \<leftarrow> GET_INT_ARG args 2; Some (Inr (rs, sint l, True, True)) }
      | _ \<Rightarrow> Some (Inl (ArgumentError ''wrong number of arguments'')))"

definition gets_type_error :: rb_error where
  "gets_type_error = TypeError ''wrong argument type (expected String)''"

definition rb_then :: "'a rb_result \<Rightarrow> ('a \<Rightarrow> 'b rb_result) \<Rightarrow> 'b rb_result" where
  "rb_then r f = (case r of Inl e \<Rightarrow> Inl e | Inr x \<Rightarrow> f x)"

definition gets_limit :: "gets_opts \<Rightarrow> gets_opts rb_result" where
  "gets_limit = (\<lambda>(rs, limit, rs_given, limit_given).
     if \<not> limit_given \<and> rs_given
     then (case rs of
             VNil \<Rightarrow> Inr (rs, limit, False, limit_given)
           | VInt i \<Rightarrow> Inr (VNil, i, rs_given, True)
           | VStr _ \<Rightarrow> Inr (rs, limit, rs_given, limit_given)
           | _ \<Rightarrow> Inl gets_type_error)
     else Inr (rs, limit, rs_given, limit_given))"

definition gets_rs :: "gets_opts \<Rightarrow> gets_opts rb_result" where
  "gets_rs = (\<lambda>(rs, limit, rs_given, limit_given).
     if rs_given
     then (case rs of
             VNil \<Rightarrow> Inr (rs, limit, False, limit_given)
           | VStr x \<Rightarrow> Inr (VStr (if x = [] then [newline, newline] else x), limit, rs_given, limit_given)
           | _ \<Rightarrow> Inl gets_type_error)
     else Inr (VStr [newline], limit, True, limit_given))"

partial_function (option) gets_loop ::
    "'k posix \<Rightarrow> bytes option \<Rightarrow> int option \<Rightarrow> bytes \<Rightarrow> 'k io_state \<Rightarrow> (mrb_value \<times> 'k io_state) option" where
  "gets_loop P rs limit outbuf s = do {
     b \<leftarrow> buf (fptr s);
     found \<leftarrow> (case rs of None \<Rightarrow> Some None
               | Some r \<Rightarrow> do { i \<leftarrow> io_find_index b r;
                               Some (if 0 \<le> i then Some (i + int (length r)) else None) });
     (case found of
        Some n \<Rightarrow> do {
          (out, b) \<leftarrow> io_buf_cat outbuf b
                       (case limit of Some l \<Rightarrow> if l < n then l else n | None \<Rightarrow> n);
          Some (VStr out, set_buf b s)
        }
      | None \<Rightarrow>
          (if (case limit of Some l \<Rightarrow> l \<le> b_len b | None \<Rightarrow> False)
           then do {
             (out, b) \<leftarrow> io_buf_cat outbuf b (the limit);
             Some (VStr out, set_buf b s)
           }
           else do {
             (out, b') \<leftarrow> io_buf_cat_all outbuf b;
             s \<leftarrow> io_fill_buf P (set_buf b' s);
             (if eof (fptr s) then Some (if out = [] then VNil else VStr out, s)
              else gets_loop P rs (map_option (\<lambda>l. l - b_len b) limit) out s)
           }))
   }"

definition c_io_gets :: "'k posix \<Rightarrow> mrb_value \<Rightarrow> mrb_value list \<Rightarrow> 'k io_state \<Rightarrow> 'k io_out" where
  "c_io_gets P self args s = do {
     (p, s) \<leftarrow> io_get_read_fptr self s;
     _ \<leftarrow> p;
     opts \<leftarrow> gets_argc args;
     (case rb_then (rb_then opts gets_limit) gets_rs of
        Inl e \<Rightarrow> Some (self, mrbc_raise e s)
      | Inr (rs, limit, rs_given, limit_given) \<Rightarrow>
          (if rs = VNil \<and> \<not> limit_given
           then do { (out, s) \<leftarrow> io_read_all P [] s; Some (VStr out, s) }
           else do {
             s \<leftarrow> io_fill_buf P s;
             (if eof (fptr s) then Some (VNil, s)
              else if limit_given \<and> limit < 0 then None
              else if limit_given \<and> limit = 0 then Some (VStr [], s)
              else do {
                r \<leftarrow> (if rs_given then map_option Some (str_data rs) else Some None);
                gets_loop P r (if limit_given then Some limit else None) [] s
              })
           }))
   }"

definition c_io_readline :: "'k posix \<Rightarrow> mrb_value list \<Rightarrow> 'k io_state \<Rightarrow> 'k io_out" where
  "c_io_readline P args s = do {
     (v, s) \<leftarrow> c_io_gets P mrbc_self args s;
     Some (v, if v = VNil then eof_error s else s)
   }"

text \<open>\<^verbatim>\<open>gets\<close> stores the line in \<^verbatim>\<open>v[0]\<close>, where the next call finds its receiver.\<close>

partial_function (option) c_io_readlines ::
    "'k posix \<Rightarrow> mrb_value \<Rightarrow> mrb_value list \<Rightarrow> mrb_value list \<Rightarrow> 'k io_state \<Rightarrow> 'k io_out" where
  "c_io_readlines P self args ary s = do {
     (v, s) \<leftarrow> c_io_gets P self args s;
     (if v = VNil then Some (VArray ary, s) else c_io_readlines P v args (ary @ [v]) s)
   }"

end
