(* ===== verification/PosixPos.thy ===== *)
theory PosixPos
  imports PosixIo
begin

text \<open>
  The methods of \<^verbatim>\<open>IO\<close> that write, seek, push bytes back, or read past the buffer
  (\<^verbatim>\<open>picoruby-posix-io/src/io.c\<close>).
\<close>

section \<open>Unbuffered transfers\<close>

text \<open>
  \<^verbatim>\<open>io_read_common\<close> reads into an array of \<open>maxlen\<close> bytes whose content is not initialised, \<open>junk\<close>, and
  appends it as a C string: up to the first NUL, which may be missing. After an error the code goes
  on with \<^verbatim>\<open>nil\<close> for the string.
\<close>

definition buf_cstr :: "bytes \<Rightarrow> bytes option" where
  "buf_cstr m = (if 0 \<in> set m then Some (takeWhile (\<lambda>c. c \<noteq> 0) m) else None)"

definition io_read_common ::
    "('k posix \<Rightarrow> int \<Rightarrow> nat \<Rightarrow> 'k \<Rightarrow> bytes option \<times> 'k) \<Rightarrow> (nat \<Rightarrow> u8) \<Rightarrow> 'k posix \<Rightarrow> mrb_value \<Rightarrow> int
       \<Rightarrow> 'k io_state \<Rightarrow> 'k io_out" where
  "io_read_common readfunc junk P outbuf maxlen s =
     (if maxlen < 0
      then Some (VNil, mrbc_raise (ArgumentError ''negative expanding string size'') s)
      else if maxlen = 0 then Some (VStr [], s)
      else do {
        (p, s) \<leftarrow> io_get_read_fptr mrbc_self s;
        f \<leftarrow> p;
        let (r, k) = readfunc P (fd f) (nat maxlen) (os s); let s = s\<lparr>os := k\<rparr>;
        (case r of
           None \<Rightarrow> None
         | Some data \<Rightarrow>
             (if nat maxlen < length data \<or> data = [] then None
              else do {
                out \<leftarrow> str_data (io_reset_outbuf outbuf);
                x \<leftarrow> buf_cstr (data @ map junk [length data ..< nat maxlen]);
                Some (VStr (out @ x), s)
              }))
      })"

definition sysread :: "'k posix \<Rightarrow> int \<Rightarrow> nat \<Rightarrow> 'k \<Rightarrow> bytes option \<times> 'k" where
  "sysread P d n = sys_read P d n"

definition c_io_sysread :: "(nat \<Rightarrow> u8) \<Rightarrow> 'k posix \<Rightarrow> mrb_value list \<Rightarrow> 'k io_state \<Rightarrow> 'k io_out" where
  "c_io_sysread junk P args s =
     (if length args < 1
      then Some (mrbc_self, mrbc_raise (ArgumentError ''wrong number of arguments'') s)
      else do {
        maxlen \<leftarrow> GET_INT_ARG args 1;
        (res, s) \<leftarrow> io_read_common sysread junk P (opt_arg args 2) (sint maxlen) s;
        Some (if res = VNil then mrbc_self else res, s)
      })"

definition c_io_pread :: "(nat \<Rightarrow> u8) \<Rightarrow> 'k posix \<Rightarrow> mrb_value list \<Rightarrow> 'k io_state \<Rightarrow> 'k io_out" where
  "c_io_pread junk P args s =
     (if length args < 2 \<or> 3 < length args
      then Some (mrbc_self, mrbc_raise (ArgumentError ''wrong number of arguments'') s)
      else if opt_arg args 3 \<noteq> VNil \<and> str_data (opt_arg args 3) = None
      then Some (mrbc_self, mrbc_raise (TypeError ''expected String'') s)
      else do {
        maxlen \<leftarrow> GET_INT_ARG args 1;
        off \<leftarrow> GET_INT_ARG args 2;
        (res, s) \<leftarrow> io_read_common (\<lambda>P d n. sys_pread P d n (sint off)) junk P (opt_arg args 3) (sint maxlen) s;
        Some (if res = VNil then mrbc_self else res, s)
      })"

text \<open>Here a null pointer is dereferenced when the stream cannot be written.\<close>

definition io_write_common ::
    "('k posix \<Rightarrow> int \<Rightarrow> bytes \<Rightarrow> 'k \<Rightarrow> int \<times> 'k) \<Rightarrow> 'k posix \<Rightarrow> picorb_io option \<Rightarrow> bytes \<Rightarrow> 'k io_state
       \<Rightarrow> 'k io_out" where
  "io_write_common writefunc P p str s = do {
     f \<leftarrow> p;
     let (n, k) = writefunc P (io_get_write_fd f) str (os s);
     Some (if n = - 1 then VNil else VInt (c_int n), s\<lparr>os := k\<rparr>)
   }"

definition syswrite :: "'k posix \<Rightarrow> int \<Rightarrow> bytes \<Rightarrow> 'k \<Rightarrow> int \<times> 'k" where
  "syswrite P d str = sys_write P d str"

definition c_io_syswrite :: "'k posix \<Rightarrow> mrb_value list \<Rightarrow> 'k io_state \<Rightarrow> 'k io_out" where
  "c_io_syswrite P args s =
     (if length args < 1
      then Some (mrbc_self, mrbc_raise (ArgumentError ''wrong number of arguments'') s)
      else do {
        (p, s) \<leftarrow> io_get_write_fptr mrbc_self s;
        str \<leftarrow> GET_STRING args 1;
        (res, s) \<leftarrow> io_write_common syswrite P p str s;
        Some (if res = VNil then (mrbc_self, mrbc_raise (RuntimeError ''syswrite failed'') s)
              else (res, s))
      })"

definition c_io_pwrite :: "'k posix \<Rightarrow> mrb_value list \<Rightarrow> 'k io_state \<Rightarrow> 'k io_out" where
  "c_io_pwrite P args s =
     (if length args < 2
      then Some (mrbc_self, mrbc_raise (ArgumentError ''wrong number of arguments'') s)
      else do {
        off \<leftarrow> GET_INT_ARG args 2;
        (p, s) \<leftarrow> io_get_write_fptr mrbc_self s;
        str \<leftarrow> GET_STRING args 1;
        (res, s) \<leftarrow> io_write_common (\<lambda>P d x. sys_pwrite P d x (sint off)) P p str s;
        Some (if res = VNil then (mrbc_self, mrbc_raise (IOError ''pwrite failed'') s) else (res, s))
      })"

section \<open>Writing\<close>

text \<open>The loop offers the whole string to \<^verbatim>\<open>write\<close> each time, and counts an error as \<open>-1\<close>.\<close>

partial_function (option) fd_write_loop ::
    "'k posix \<Rightarrow> int \<Rightarrow> bytes \<Rightarrow> int \<Rightarrow> 'k io_state \<Rightarrow> 'k io_state option" where
  "fd_write_loop P d str n0 s =
     (if n0 < int (length str)
      then let (n, k) = sys_write P d str (os s); s = s\<lparr>os := k\<rparr>
           in fd_write_loop P d str (n0 + n)
                (if n = - 1 then mrbc_raise (RuntimeError ''syswrite failed'') s else s)
      else Some s)"

definition fd_write :: "'k posix \<Rightarrow> int \<Rightarrow> mrb_value \<Rightarrow> 'k io_state \<Rightarrow> (int \<times> 'k io_state) option" where
  "fd_write P d v s = do {
     str \<leftarrow> str_data v;
     (if str = [] then Some (0, s)
      else do { s \<leftarrow> fd_write_loop P d str 0 s; Some (int (length str), s) })
   }"

fun write_args ::
    "'k posix \<Rightarrow> int \<Rightarrow> mrb_value list \<Rightarrow> int \<Rightarrow> 'k io_state \<Rightarrow> (int option \<times> 'k io_state) option" where
  "write_args P d [] n s = Some (Some n, s)"
| "write_args P d (v # vs) n s = do {
     (m, s) \<leftarrow> fd_write P d v s;
     (if exc s \<noteq> None then Some (None, s) else write_args P d vs (n + m) s)
   }"

text \<open>Bytes that have been read ahead are given back first.\<close>

definition unread_buf :: "'k posix \<Rightarrow> int \<Rightarrow> 'k io_state \<Rightarrow> 'k io_state" where
  "unread_buf P d s =
     (case buf (fptr s) of
        None \<Rightarrow> s
      | Some b \<Rightarrow>
          (if 0 < b_len b
           then let (n, k) = sys_lseek P d 0 SEEK_CUR (os s); s = s\<lparr>os := k\<rparr>
                in (if n = - 1 then mrbc_raise (RuntimeError ''lseek failed'') s
                    else let (m, k) = sys_lseek P d (n - b_len b) SEEK_SET (os s); s = s\<lparr>os := k\<rparr>
                         in (if m = - 1 then mrbc_raise (RuntimeError ''lseek(2) failed'') s
                             else set_buf (b\<lparr>b_start := 0, b_len := 0\<rparr>) s))
           else s))"

definition c_io_write :: "'k posix \<Rightarrow> mrb_value list \<Rightarrow> 'k io_state \<Rightarrow> 'k io_out" where
  "c_io_write P args s = do {
     (p, s) \<leftarrow> io_get_write_fptr mrbc_self s;
     (case p of
        None \<Rightarrow> Some (mrbc_self, s)
      | Some f \<Rightarrow>
          (let d = io_get_write_fd f; s = unread_buf P d s
           in (if exc s \<noteq> None then Some (mrbc_self, s)
               else do {
                 (n, s) \<leftarrow> write_args P d args 0 s;
                 Some (case n of Some n \<Rightarrow> VInt (c_int n) | None \<Rightarrow> mrbc_self, s)
               })))
   }"

section \<open>Positions\<close>

text \<open>\<^verbatim>\<open>off_t\<close> has 64 bits, an integer of mruby/c 32.\<close>

definition c_io_sysseek :: "'k posix \<Rightarrow> mrb_value list \<Rightarrow> 'k io_state \<Rightarrow> 'k io_out" where
  "c_io_sysseek P args s = do {
     offset \<leftarrow> (if 1 \<le> length args then map_option sint (GET_INT_ARG args 1) else Some 0);
     whence \<leftarrow> (if 2 \<le> length args then map_option sint (GET_INT_ARG args 2) else Some (- 1));
     let whence = (if whence < 0 then 0 else whence);
     (p, s) \<leftarrow> io_get_open_fptr mrbc_self s;
     f \<leftarrow> p;
     let (pos, k) = sys_lseek P (fd f) offset whence (os s); let s = s\<lparr>os := k\<rparr>;
     Some (if pos = - 1 then (mrbc_self, mrbc_raise (RuntimeError ''sysseek failed'') s)
           else let s = s\<lparr>fptr := (fptr s)\<lparr>eof := False\<rparr>\<rparr>
                in (if pos > 2 ^ 31 - 1
                    then (mrbc_self, mrbc_raise (IOError ''sysseek reached too far for mrbc_int_t'') s)
                    else (VInt pos, s)))
   }"

definition c_io_seek :: "'k posix \<Rightarrow> mrb_value list \<Rightarrow> 'k io_state \<Rightarrow> 'k io_out" where
  "c_io_seek P args s = do {
     (p, s) \<leftarrow> io_get_open_fptr mrbc_self s;
     f \<leftarrow> p;
     let s = (case buf f of None \<Rightarrow> s | Some b \<Rightarrow> set_buf (b\<lparr>b_start := 0, b_len := 0\<rparr>) s);
     (v, s) \<leftarrow> c_io_sysseek P args s;
     Some (if exc s \<noteq> None then v else VInt 0, s)
   }"

definition c_io_pos :: "'k posix \<Rightarrow> 'k io_state \<Rightarrow> 'k io_out" where
  "c_io_pos P s = do {
     (p, s) \<leftarrow> io_get_open_fptr mrbc_self s;
     f \<leftarrow> p;
     let (pos, k) = sys_lseek P (fd f) 0 SEEK_CUR (os s); let s = s\<lparr>os := k\<rparr>;
     Some (if pos = - 1 then (mrbc_self, mrbc_raise (RuntimeError ''lseek failed'') s)
           else (VInt (c_int (case buf f of Some b \<Rightarrow> pos - b_len b | None \<Rightarrow> pos)), s))
   }"

section \<open>Pushing back\<close>

text \<open>The buffer grows if the string does not fit; it is reallocated to what both need together.\<close>

definition ungetc_realloc :: "io_buf \<Rightarrow> nat \<Rightarrow> bytes" where
  "ungetc_realloc b n =
     (if int n > int PICORB_IO_BUF_SIZE - b_len b
      then let sz = nat (b_len b + int n)
           in take sz (b_mem b) @ replicate (sz - length (b_mem b)) 0
      else b_mem b)"

definition c_io_ungetc :: "'k posix \<Rightarrow> mrb_value list \<Rightarrow> 'k io_state \<Rightarrow> 'k io_out" where
  "c_io_ungetc P args s = do {
     (p, s) \<leftarrow> io_get_read_fptr mrbc_self s;
     f \<leftarrow> p;
     (if length args < 1
      then Some (mrbc_self, mrbc_raise (ArgumentError ''wrong number of arguments'') s)
      else do {
        str \<leftarrow> GET_STRING args 1;
        (if length str > 32767
         then Some (mrbc_self, mrbc_raise (ArgumentError ''string too long to ungetc'') s)
         else do {
           b \<leftarrow> buf f;
           let m = ungetc_realloc b (length str);
           data \<leftarrow> mem_range m (b_start b) (b_len b);
           m \<leftarrow> copy_into m (length str) data;
           m \<leftarrow> copy_into m 0 str;
           Some (VNil, set_buf \<lparr>b_start = 0, b_len = c_short (b_len b + int (length str)), b_mem = m\<rparr> s)
         })
      })
   }"

section \<open>Attributes\<close>

definition c_io_closed_q :: "'k io_state \<Rightarrow> 'k io_out" where
  "c_io_closed_q s = do {
     f \<leftarrow> io_data_get_ptr mrbc_self s;
     Some (if 0 \<le> fd f then VFalse else VTrue, s)
   }"

definition c_io_flush :: "'k io_state \<Rightarrow> 'k io_out" where
  "c_io_flush s = do { (_, s) \<leftarrow> io_get_open_fptr mrbc_self s; Some (mrbc_self, s) }"

definition picorb_io_fileno :: "'k io_state \<Rightarrow> (int \<times> 'k io_state) option" where
  "picorb_io_fileno s = do {
     (p, s) \<leftarrow> io_get_open_fptr mrbc_self s;
     f \<leftarrow> p;
     Some (fd f, s)
   }"

definition c_io_fileno :: "'k io_state \<Rightarrow> 'k io_out" where
  "c_io_fileno s = do {
     (p, s) \<leftarrow> io_get_open_fptr mrbc_self s;
     f \<leftarrow> p;
     Some (VInt (fd f), s)
   }"

definition c_io_pid :: "'k io_state \<Rightarrow> 'k io_out" where
  "c_io_pid s = do {
     (p, s) \<leftarrow> io_get_open_fptr mrbc_self s;
     f \<leftarrow> p;
     Some (if 0 < pid f then VInt (pid f) else VNil, s)
   }"

definition c_io_isatty :: "'k posix \<Rightarrow> 'k io_state \<Rightarrow> 'k io_out" where
  "c_io_isatty P s = do {
     (p, s) \<leftarrow> io_get_open_fptr mrbc_self s;
     f \<leftarrow> p;
     Some (if sys_isatty P (fd f) (os s) then VTrue else VFalse, s)
   }"

definition c_io_sync :: "mrb_value list \<Rightarrow> 'k io_state \<Rightarrow> 'k io_out" where
  "c_io_sync args s = do {
     (p, s) \<leftarrow> io_get_open_fptr mrbc_self s;
     (if args = [] then do { f \<leftarrow> p; Some (if sync f then VTrue else VFalse, s) }
      else Some (mrbc_self, s))
   }"

definition c_io_sync_eq :: "mrb_value list \<Rightarrow> 'k io_state \<Rightarrow> 'k io_out" where
  "c_io_sync_eq args s = do {
     (p, s) \<leftarrow> io_get_open_fptr mrbc_self s;
     v \<leftarrow> arr_get args 0;
     _ \<leftarrow> p;
     Some (mrbc_self, s\<lparr>fptr := (fptr s)\<lparr>sync := (v \<noteq> VFalse)\<rparr>\<rparr>)
   }"

end
