(* ===== verification/PosixProc.thy ===== *)
theory PosixProc
  imports PosixPos
begin

text \<open>
  Opening, closing, pipes, processes and \<^verbatim>\<open>IO.select\<close> (\<^verbatim>\<open>picoruby-posix-io/src/io.c\<close> and \<^verbatim>\<open>include/io.h\<close>).
\<close>

section \<open>Modes\<close>

definition PICORB_O_RDONLY :: int where "PICORB_O_RDONLY = 0x0000"
definition PICORB_O_WRONLY :: int where "PICORB_O_WRONLY = 0x0001"
definition PICORB_O_RDWR :: int where "PICORB_O_RDWR = 0x0002"
definition PICORB_O_ACCMODE :: int where "PICORB_O_ACCMODE = PICORB_O_RDONLY OR PICORB_O_WRONLY OR PICORB_O_RDWR"
definition PICORB_O_NONBLOCK :: int where "PICORB_O_NONBLOCK = 0x0004"
definition PICORB_O_APPEND :: int where "PICORB_O_APPEND = 0x0008"
definition PICORB_O_SYNC :: int where "PICORB_O_SYNC = 0x0010"
definition PICORB_O_NOFOLLOW :: int where "PICORB_O_NOFOLLOW = 0x0020"
definition PICORB_O_CREAT :: int where "PICORB_O_CREAT = 0x0040"
definition PICORB_O_TRUNC :: int where "PICORB_O_TRUNC = 0x0080"
definition PICORB_O_EXCL :: int where "PICORB_O_EXCL = 0x0100"
definition PICORB_O_NOCTTY :: int where "PICORB_O_NOCTTY = 0x0200"
definition PICORB_O_DIRECT :: int where "PICORB_O_DIRECT = 0x0400"
definition PICORB_O_BINARY :: int where "PICORB_O_BINARY = 0x0800"
definition PICORB_O_SHARE_DELETE :: int where "PICORB_O_SHARE_DELETE = 0x1000"
definition PICORB_O_TMPFILE :: int where "PICORB_O_TMPFILE = 0x2000"
definition PICORB_O_NOATIME :: int where "PICORB_O_NOATIME = 0x4000"
definition PICORB_O_DSYNC :: int where "PICORB_O_DSYNC = 0x00008000"
definition PICORB_O_RSYNC :: int where "PICORB_O_RSYNC = 0x00010000"

text \<open>
  The constants of \<^verbatim>\<open>fcntl.h\<close>. One that the platform does not define is \<open>0\<close>, which has the effect of
  leaving out its statement.
\<close>

record open_flags =
  O_RDONLY :: int
  O_WRONLY :: int
  O_RDWR :: int
  O_APPEND :: int
  O_CREAT :: int
  O_EXCL :: int
  O_TRUNC :: int
  O_NONBLOCK :: int
  O_NOCTTY :: int
  O_BINARY :: int
  O_SHARE_DELETE :: int
  O_SYNC :: int
  O_DSYNC :: int
  O_RSYNC :: int
  O_NOFOLLOW :: int
  O_NOATIME :: int
  O_DIRECT :: int
  O_TMPFILE :: int
  O_CLOEXEC :: int

definition OPEN_ACCESS_MODE_FLAGS :: "open_flags \<Rightarrow> int" where
  "OPEN_ACCESS_MODE_FLAGS F = O_RDONLY F OR O_WRONLY F OR O_RDWR F"

definition OPEN_RDONLY_P :: "open_flags \<Rightarrow> int \<Rightarrow> bool" where
  "OPEN_RDONLY_P F f = (f AND OPEN_ACCESS_MODE_FLAGS F = O_RDONLY F)"

definition OPEN_WRONLY_P :: "open_flags \<Rightarrow> int \<Rightarrow> bool" where
  "OPEN_WRONLY_P F f = (f AND OPEN_ACCESS_MODE_FLAGS F = O_WRONLY F)"

definition OPEN_RDWR_P :: "open_flags \<Rightarrow> int \<Rightarrow> bool" where
  "OPEN_RDWR_P F f = (f AND OPEN_ACCESS_MODE_FLAGS F = O_RDWR F)"

definition OPEN_READABLE_P :: "open_flags \<Rightarrow> int \<Rightarrow> bool" where
  "OPEN_READABLE_P F f = (OPEN_RDONLY_P F f \<or> OPEN_RDWR_P F f)"

definition OPEN_WRITABLE_P :: "open_flags \<Rightarrow> int \<Rightarrow> bool" where
  "OPEN_WRITABLE_P F f = (OPEN_WRONLY_P F f \<or> OPEN_RDWR_P F f)"

text \<open>The letters of a mode; \<open>None\<close> is the jump to \<^verbatim>\<open>modeerr\<close>.\<close>

fun modestr_loop :: "open_flags \<Rightarrow> char \<Rightarrow> string \<Rightarrow> int \<Rightarrow> int option" where
  "modestr_loop F first [] flags = Some flags"
| "modestr_loop F first (c # m) flags =
     (if c = CHR ''b'' then modestr_loop F first m (flags OR O_BINARY F)
      else if c = CHR ''x''
      then (if first \<noteq> CHR ''w'' then None else modestr_loop F first m (flags OR O_EXCL F))
      else if c = CHR ''+''
      then modestr_loop F first m ((flags AND NOT (OPEN_ACCESS_MODE_FLAGS F)) OR O_RDWR F)
      else None)"

definition modestr_first :: "open_flags \<Rightarrow> char \<Rightarrow> int option" where
  "modestr_first F c =
     (if c = CHR ''r'' then Some (O_RDONLY F)
      else if c = CHR ''w'' then Some (O_WRONLY F OR O_CREAT F OR O_TRUNC F)
      else if c = CHR ''a'' then Some (O_WRONLY F OR O_CREAT F OR O_APPEND F)
      else None)"

definition mode_error :: rb_error where
  "mode_error = ArgumentError ''illegal access mode''"

text \<open>After raising the error the function returns \<open>0\<close>. A Ruby string ends with a NUL.\<close>

definition io_modestr_to_flags :: "open_flags \<Rightarrow> string \<Rightarrow> 'k io_state \<Rightarrow> int \<times> 'k io_state" where
  "io_modestr_to_flags F mode s =
     (case (case mode of [] \<Rightarrow> None
            | c # m \<Rightarrow> modestr_first F c \<bind> modestr_loop F c m) of
        Some flags \<Rightarrow> (flags, s)
      | None \<Rightarrow> (0, mrbc_raise mode_error s))"

definition mode_bits :: "open_flags \<Rightarrow> (int \<times> int) list" where
  "mode_bits F =
     [(PICORB_O_APPEND, O_APPEND F), (PICORB_O_CREAT, O_CREAT F), (PICORB_O_EXCL, O_EXCL F),
      (PICORB_O_TRUNC, O_TRUNC F), (PICORB_O_NONBLOCK, O_NONBLOCK F), (PICORB_O_NOCTTY, O_NOCTTY F),
      (PICORB_O_BINARY, O_BINARY F), (PICORB_O_SHARE_DELETE, O_SHARE_DELETE F),
      (PICORB_O_SYNC, O_SYNC F), (PICORB_O_DSYNC, O_DSYNC F), (PICORB_O_RSYNC, O_RSYNC F),
      (PICORB_O_NOFOLLOW, O_NOFOLLOW F), (PICORB_O_NOATIME, O_NOATIME F),
      (PICORB_O_DIRECT, O_DIRECT F), (PICORB_O_TMPFILE, O_TMPFILE F)]"

definition io_modeint_to_flags :: "open_flags \<Rightarrow> int \<Rightarrow> 'k io_state \<Rightarrow> int \<times> 'k io_state" where
  "io_modeint_to_flags F flags0 s =
     (let acc = flags0 AND PICORB_O_ACCMODE;
          (flags, s) = (if acc = PICORB_O_RDONLY then (O_RDONLY F, s)
                        else if acc = PICORB_O_WRONLY then (O_WRONLY F, s)
                        else if acc = PICORB_O_RDWR then (O_RDWR F, s)
                        else (0, mrbc_raise mode_error s))
      in (foldl (\<lambda>f (p, fl). if flags0 AND p \<noteq> 0 then f OR fl else f) flags (mode_bits F), s))"

definition c_chars :: "bytes \<Rightarrow> string" where
  "c_chars x = map (\<lambda>c. char_of (unat c)) (takeWhile (\<lambda>c. c \<noteq> 0) x)"

definition io_mode_to_flags :: "open_flags \<Rightarrow> mrb_value \<Rightarrow> 'k io_state \<Rightarrow> (int \<times> 'k io_state) option" where
  "io_mode_to_flags F mode s =
     (case mode of
        VNil \<Rightarrow> Some (O_RDONLY F, s)
      | VStr x \<Rightarrow> Some (io_modestr_to_flags F (c_chars x) s)
      | VInt i \<Rightarrow> Some (io_modeint_to_flags F i s)
      | _ \<Rightarrow> None)"

section \<open>Descriptors\<close>

definition io_fd_cloexec :: "'k posix \<Rightarrow> int \<Rightarrow> 'k io_state \<Rightarrow> 'k io_state" where
  "io_fd_cloexec P d s =
     (let (flags, k) = sys_getfd P d (os s); s = s\<lparr>os := k\<rparr>
      in if flags < 0 then mrbc_raise (RuntimeError ''cloexec GETFD failed'') s
         else let flags2 = (if d \<le> 2 then flags AND NOT (FD_CLOEXEC P) else flags OR FD_CLOEXEC P)
              in if flags \<noteq> flags2
                 then let (r, k) = sys_setfd P d flags2 (os s); s = s\<lparr>os := k\<rparr>
                      in if r < 0 then mrbc_raise (RuntimeError ''cloexec SETFD failed'') s else s
                 else s)"

definition io_cloexec_open :: "open_flags \<Rightarrow> 'k posix \<Rightarrow> bytes \<Rightarrow> int \<Rightarrow> int \<Rightarrow> 'k io_state \<Rightarrow> int \<times> 'k io_state" where
  "io_cloexec_open F P path flags mode s =
     (let flags = flags OR O_CLOEXEC F;
          (d, k) = sys_open P path flags mode (os s);
          (d, k) = (if d = - 1 \<and> (sys_errno P k = ENFILE P \<or> sys_errno P k = EMFILE P)
                    then sys_open P path flags mode k else (d, k));
          s = s\<lparr>os := k\<rparr>
      in if d = - 1 then (- 1, mrbc_raise (RuntimeError ''open failed'') s)
         else (d, if d \<le> 2 then io_fd_cloexec P d s else s))"

definition c_io_sysopen :: "open_flags \<Rightarrow> 'k posix \<Rightarrow> mrb_value list \<Rightarrow> 'k io_state \<Rightarrow> 'k io_out" where
  "c_io_sysopen F P args s =
     (if length args < 1
      then Some (mrbc_self, mrbc_raise (ArgumentError ''wrong number of arguments'') s)
      else (case args ! 0 of
        VStr x \<Rightarrow> do {
          perm \<leftarrow> (if 2 < length args then map_option sint (GET_INT_ARG args 3) else Some (- 1));
          let perm = (if perm < 0 then 0x1B6 else perm);
          (flags, s) \<leftarrow> io_mode_to_flags F (opt_arg args 2) s;
          let (d, s) = io_cloexec_open F P x flags perm s;
          Some (VInt d, s)
        }
      | _ \<Rightarrow> Some (mrbc_self, mrbc_raise (TypeError ''wrong argument type'') s)))"

definition c_io__sysclose :: "'k posix \<Rightarrow> mrb_value list \<Rightarrow> 'k io_state \<Rightarrow> 'k io_out" where
  "c_io__sysclose P args s =
     (if length args < 1
      then Some (mrbc_self, mrbc_raise (ArgumentError ''wrong number of arguments'') s)
      else (case args ! 0 of
        VInt d \<Rightarrow>
          (let (r, k) = sys_close P (c_int d) (os s); s = s\<lparr>os := k\<rparr>
           in Some (if r = - 1 then (mrbc_self, mrbc_raise (RuntimeError ''close failed'') s)
                    else (VInt 0, s)))
      | _ \<Rightarrow> Some (mrbc_self, mrbc_raise (TypeError ''wrong argument type'') s)))"

section \<open>Objects\<close>

definition io_alloc :: "picorb_io \<Rightarrow> picorb_io" where
  "io_alloc f = f\<lparr>fd := - 1, fd2 := - 1, pid := 0, buf := None, readable := False, writable := False,
                  sync := False, eof := False, close_fd := True, close_fd2 := True\<rparr>"

text \<open>A structure after \<^verbatim>\<open>memset\<close>. Memory from the allocator is not initialised; it is written before it is read.\<close>

definition io_zero :: picorb_io where
  "io_zero = \<lparr>readable = False, writable = False, eof = False, sync = False, close_fd = False,
              close_fd2 = False, fd = 0, fd2 = 0, pid = 0, buf = None\<rparr>"

definition io_init_buf :: "picorb_io \<Rightarrow> picorb_io" where
  "io_init_buf f =
     (if readable f
      then f\<lparr>buf := Some \<lparr>b_start = 0, b_len = 0, b_mem = replicate PICORB_IO_BUF_SIZE 0\<rparr>\<rparr> else f)"

definition io_set_process_status :: "'k posix \<Rightarrow> int \<Rightarrow> 'k io_state \<Rightarrow> 'k io_state" where
  "io_set_process_status P st s = s\<lparr>child_status := Some (WEXITSTATUS P st)\<rparr>"

partial_function (option) waitpid_loop :: "'k posix \<Rightarrow> int \<Rightarrow> 'k \<Rightarrow> (int \<times> int \<times> 'k) option" where
  "waitpid_loop P child k =
     (let (r, st, k) = sys_waitpid P child k
      in if r = - 1 \<and> sys_errno P k = EINTR P then waitpid_loop P child k else Some (r, st, k))"

text \<open>The descriptors are closed one after the other; the error of the first one counts.\<close>

definition finalize_fd :: "'k posix \<Rightarrow> int \<Rightarrow> 'k io_state \<Rightarrow> int \<times> 'k io_state" where
  "finalize_fd P limit s =
     (let f = fptr s
      in if limit \<le> fd f
         then let (saved, s) =
                (if fd f \<noteq> - 1 \<and> close_fd f
                 then let (r, k) = sys_close P (fd f) (os s)
                      in (if r = - 1 then sys_errno P k else 0, s\<lparr>os := k\<rparr>)
                 else (0, s))
              in (saved, s\<lparr>fptr := f\<lparr>fd := - 1\<rparr>\<rparr>)
         else (0, s))"

definition finalize_fd2 :: "'k posix \<Rightarrow> int \<Rightarrow> int \<Rightarrow> 'k io_state \<Rightarrow> int \<times> 'k io_state" where
  "finalize_fd2 P limit saved s =
     (let f = fptr s
      in if limit \<le> fd2 f
         then let (saved, s) =
                (if close_fd2 f
                 then let (r, k) = sys_close P (fd2 f) (os s)
                      in (if r = - 1 \<and> saved = 0 then sys_errno P k else saved, s\<lparr>os := k\<rparr>)
                 else (saved, s))
              in (saved, s\<lparr>fptr := f\<lparr>fd2 := - 1\<rparr>\<rparr>)
         else (saved, s))"

definition fptr_finalize :: "'k posix \<Rightarrow> bool \<Rightarrow> 'k io_state \<Rightarrow> 'k io_state option" where
  "fptr_finalize P quiet s = do {
     let limit = (if quiet then 3 else 0);
     let (saved, s) = finalize_fd P limit s;
     let (saved, s) = finalize_fd2 P limit saved s;
     let child = pid (fptr s);
     s \<leftarrow> (if child \<noteq> 0
           then do {
             (r, st, k) \<leftarrow> waitpid_loop P child (os s);
             let s = s\<lparr>os := k\<rparr>;
             let s = (if \<not> quiet \<and> r = child then io_set_process_status P st s else s);
             Some (s\<lparr>fptr := (fptr s)\<lparr>pid := 0\<rparr>\<rparr>)
           }
           else Some s);
     let s = s\<lparr>fptr := (fptr s)\<lparr>buf := None\<rparr>\<rparr>;
     Some (if \<not> quiet \<and> saved \<noteq> 0
           then mrbc_raise (RuntimeError ''fptr_finalize failed'') (s\<lparr>os := sys_set_errno P saved (os s)\<rparr>)
           else s)
   }"

text \<open>\<open>block\<close> tells whether the call has a block. After an illegal mode the object is created all the same.\<close>

definition c_io_new :: "open_flags \<Rightarrow> 'k posix \<Rightarrow> bool \<Rightarrow> mrb_value list \<Rightarrow> 'k io_state \<Rightarrow> 'k io_out" where
  "c_io_new F P block args s =
     (if block
      then Some (mrbc_self, mrbc_raise (StandardError ''IO.new does not take block; use IO.open instead'') s)
      else (case opt_arg args 1 of
        VInt d \<Rightarrow> do {
          (flags, s) \<leftarrow> io_mode_to_flags F (opt_arg args 2) s;
          s \<leftarrow> fptr_finalize P True (s\<lparr>fptr := io_zero\<rparr>);
          let f = (io_alloc (fptr s))\<lparr>fd := c_int d, readable := OPEN_READABLE_P F flags,
                                     writable := OPEN_WRITABLE_P F flags\<rparr>;
          Some (mrbc_self, s\<lparr>fptr := io_init_buf f\<rparr>)
        }
      | _ \<Rightarrow> Some (mrbc_self, mrbc_raise (ArgumentError ''file descriptor should be an integer'') s)))"

definition c_io_close :: "'k posix \<Rightarrow> 'k io_state \<Rightarrow> 'k io_out" where
  "c_io_close P s = do {
     (p, s) \<leftarrow> io_get_open_fptr mrbc_self s;
     s \<leftarrow> (case p of None \<Rightarrow> Some s | Some _ \<Rightarrow> fptr_finalize P False s);
     Some (VNil, s)
   }"

definition c_io_close_write :: "'k posix \<Rightarrow> 'k io_state \<Rightarrow> 'k io_out" where
  "c_io_close_write P s = do {
     (p, s) \<leftarrow> io_get_open_fptr mrbc_self s;
     f \<leftarrow> p;
     let (r, k) = sys_close P (fd2 f) (os s);
     let s = s\<lparr>os := k\<rparr>;
     Some (if r = - 1 then (mrbc_self, mrbc_raise (RuntimeError ''close failed'') s) else (VNil, s))
   }"

text \<open>One descriptor of the two: \<open>Some\<close> error, or the new state.\<close>

definition set_cloexec :: "'k posix \<Rightarrow> int \<Rightarrow> int \<Rightarrow> 'k io_state \<Rightarrow> bool \<times> 'k io_state" where
  "set_cloexec P d flag s =
     (let (ret, k) = sys_getfd P d (os s); s = s\<lparr>os := k\<rparr>
      in if ret = - 1 then (False, mrbc_raise (RuntimeError ''F_GETFD failed'') s)
         else if ret AND FD_CLOEXEC P \<noteq> flag
         then let (ret, k) = sys_setfd P d ((ret AND NOT (FD_CLOEXEC P)) OR flag) (os s); s = s\<lparr>os := k\<rparr>
              in if ret = - 1 then (False, mrbc_raise (RuntimeError ''F_SETFD failed'') s) else (True, s)
         else (True, s))"

definition c_io_close_on_exec_eq :: "'k posix \<Rightarrow> mrb_value list \<Rightarrow> 'k io_state \<Rightarrow> 'k io_out" where
  "c_io_close_on_exec_eq P args s =
     (if length args < 1
      then Some (mrbc_self, mrbc_raise (ArgumentError ''wrong number of arguments'') s)
      else do {
        (p, s) \<leftarrow> io_get_open_fptr mrbc_self s;
        let b = args ! 0;
        let flag = (if b \<noteq> VFalse then FD_CLOEXEC P else 0);
        f \<leftarrow> p;
        let (ok, s) = (if 0 \<le> fd2 f then set_cloexec P (fd2 f) flag s else (True, s));
        (if \<not> ok then Some (mrbc_self, s)
         else let (ok, s) = set_cloexec P (fd f) flag s
              in Some (if ok then b else mrbc_self, s))
      })"

definition c_io_close_on_exec_q :: "'k posix \<Rightarrow> 'k io_state \<Rightarrow> 'k io_out" where
  "c_io_close_on_exec_q P s = do {
     (p, s) \<leftarrow> io_get_open_fptr mrbc_self s;
     f \<leftarrow> p;
     let (ret2, k) = (if 0 \<le> fd2 f then sys_getfd P (fd2 f) (os s) else (FD_CLOEXEC P, os s));
     let s = s\<lparr>os := k\<rparr>;
     (if ret2 = - 1 \<and> 0 \<le> fd2 f then Some (mrbc_self, mrbc_raise (RuntimeError ''F_GETFD failed'') s)
      else if ret2 AND FD_CLOEXEC P = 0 \<and> 0 \<le> fd2 f then Some (VFalse, s)
      else let (ret, k) = sys_getfd P (fd f) (os s); s = s\<lparr>os := k\<rparr>
           in Some (if ret = - 1 then (mrbc_self, mrbc_raise (RuntimeError ''F_GETFD failed'') s)
                    else if ret AND FD_CLOEXEC P = 0 then (VFalse, s) else (VTrue, s)))
   }"

end
