(* ===== verification/PosixPopen.thy ===== *)
theory PosixPopen
  imports PosixProc
begin

text \<open>
  Pipes, child processes and \<^verbatim>\<open>IO.select\<close> (\<^verbatim>\<open>picoruby-posix-io/src/io.c\<close>).
\<close>

section \<open>Pipes\<close>

definition io_cloexec_pipe :: "'k posix \<Rightarrow> 'k io_state \<Rightarrow> (int \<times> int) option \<times> 'k io_state" where
  "io_cloexec_pipe P s =
     (let (r, k) = sys_pipe P (os s); s = s\<lparr>os := k\<rparr>
      in (case r of
            None \<Rightarrow> (None, s)
          | Some (d0, d1) \<Rightarrow> (Some (d0, d1), io_fd_cloexec P d1 (io_fd_cloexec P d0 s))))"

definition io_pipe :: "'k posix \<Rightarrow> 'k io_state \<Rightarrow> (int \<times> int) option \<times> 'k io_state" where
  "io_pipe P s =
     (let (r, s) = io_cloexec_pipe P s
      in if r = None \<and> (sys_errno P (os s) = EMFILE P \<or> sys_errno P (os s) = ENFILE P)
         then io_cloexec_pipe P s else (r, s))"

text \<open>The objects of the two ends. The memory of a new object is not initialised: \<open>junk\<close>.\<close>

definition c_io__pipe ::
    "picorb_io \<Rightarrow> 'k posix \<Rightarrow> 'k io_state \<Rightarrow> (picorb_io \<times> picorb_io) option \<times> 'k io_state" where
  "c_io__pipe junk P s =
     (let (r, s) = io_pipe P s
      in (case r of
            None \<Rightarrow> (None, mrbc_raise (RuntimeError ''pipe failed'') s)
          | Some (d0, d1) \<Rightarrow>
              (Some (io_init_buf ((io_alloc junk)\<lparr>fd := d0, readable := True\<rparr>),
                     (io_alloc junk)\<lparr>fd := d1, writable := True, sync := True\<rparr>), s)))"

section \<open>Processes\<close>

text \<open>The method returns, its process runs another program, or it exits.\<close>

datatype 'k popen_out =
    Returned mrb_value "'k io_state"
  | Replaced 'k
  | Exited int "'k io_state"

text \<open>\<open>ios i\<close> is the structure of the object \<open>i\<close> if its class is \<^verbatim>\<open>IO\<close>.\<close>

definition option_to_fd ::
    "(nat \<Rightarrow> picorb_io option) \<Rightarrow> mrb_value \<Rightarrow> 'k io_state \<Rightarrow> (int \<times> 'k io_state) option" where
  "option_to_fd ios v s =
     (case v of
        VNil \<Rightarrow> Some (- 1, s)
      | VInt i \<Rightarrow> Some (c_int i, s)
      | VObj i \<Rightarrow>
          (case ios i of
             Some f \<Rightarrow> (if fd f < 0 then None else Some (fd f, s))
           | None \<Rightarrow> Some (- 1, mrbc_raise (ArgumentError ''wrong exec redirect action'') s))
      | _ \<Rightarrow> Some (- 1, mrbc_raise (ArgumentError ''wrong exec redirect action'') s))"

definition close_nofail :: "'k posix \<Rightarrow> int \<Rightarrow> 'k io_state \<Rightarrow> 'k io_state" where
  "close_nofail P d s = s\<lparr>os := snd (sys_close P d (os s))\<rparr>"

definition close_valid :: "'k posix \<Rightarrow> int \<Rightarrow> 'k io_state \<Rightarrow> 'k io_state" where
  "close_valid P d s = (if d \<noteq> - 1 then close_nofail P d s else s)"

definition dup2_to :: "'k posix \<Rightarrow> int \<Rightarrow> int \<Rightarrow> 'k io_state \<Rightarrow> 'k io_state" where
  "dup2_to P d e s = s\<lparr>os := sys_dup2 P d e (os s)\<rparr>"

text \<open>The pipe that the parent reads from: the ends stay \<open>-1\<close> when it cannot be made.\<close>

definition popen_pipe_r :: "'k posix \<Rightarrow> bool \<Rightarrow> 'k io_state \<Rightarrow> (int \<times> int) \<times> 'k io_state" where
  "popen_pipe_r P wanted s =
     (if wanted
      then let (r, k) = sys_pipe P (os s); s = s\<lparr>os := k\<rparr>;
               s = (if r = None then mrbc_raise (RuntimeError ''pipe failed'') s else s);
               (pr0, pr1) = (case r of Some p \<Rightarrow> p | None \<Rightarrow> (- 1, - 1))
           in ((pr0, pr1), io_fd_cloexec P pr1 (io_fd_cloexec P pr0 s))
      else ((- 1, - 1), s))"

definition popen_pipe_w :: "'k posix \<Rightarrow> bool \<Rightarrow> int \<times> int \<Rightarrow> 'k io_state \<Rightarrow> (int \<times> int) \<times> 'k io_state" where
  "popen_pipe_w P wanted pr s =
     (if wanted
      then let (r, k) = sys_pipe P (os s); s = s\<lparr>os := k\<rparr>;
               s = (if r = None
                    then mrbc_raise (RuntimeError ''pipe failed'')
                           (close_valid P (snd pr) (close_valid P (fst pr) s))
                    else s);
               (pw0, pw1) = (case r of Some p \<Rightarrow> p | None \<Rightarrow> (- 1, - 1))
           in ((pw0, pw1), io_fd_cloexec P pw1 (io_fd_cloexec P pw0 s))
      else ((- 1, - 1), s))"

definition is_blank :: "u8 \<Rightarrow> bool" where
  "is_blank c \<longleftrightarrow> c = 0x20 \<or> c = 0x09 \<or> c = 0x0A"

definition io_process_exec :: "'k posix \<Rightarrow> bytes \<Rightarrow> 'k io_state \<Rightarrow> bool \<times> 'k io_state" where
  "io_process_exec P pname s =
     (if dropWhile is_blank pname = []
      then (False, s\<lparr>os := sys_set_errno P (ENOENT P) (os s)\<rparr>)
      else let (ok, k) = sys_exec P pname (os s) in (ok, s\<lparr>os := k\<rparr>))"

text \<open>What the child does after \<^verbatim>\<open>fork\<close>. \<open>cmd\<close> ends at its NUL.\<close>

definition popen_child ::
    "open_flags \<Rightarrow> 'k posix \<Rightarrow> bytes \<Rightarrow> int \<Rightarrow> int \<times> int \<times> int \<Rightarrow> int \<times> int \<Rightarrow> int \<times> int \<Rightarrow> 'k io_state
       \<Rightarrow> 'k popen_out" where
  "popen_child F P cmd flags opts pr pw s =
     (let (opt_in, opt_out, opt_err) = opts;
          s = (if opt_in \<noteq> - 1 then dup2_to P opt_in 0 s else s);
          s = (if opt_out \<noteq> - 1 then dup2_to P opt_out 1 s else s);
          s = (if opt_err \<noteq> - 1 then dup2_to P opt_err 2 s else s);
          s = (if OPEN_READABLE_P F flags
               then let s = close_nofail P (fst pr) s
                    in if snd pr \<noteq> 1 then close_nofail P (snd pr) (dup2_to P (snd pr) 1 s) else s
               else s);
          s = (if OPEN_WRITABLE_P F flags
               then let s = close_nofail P (snd pw) s
                    in if fst pw \<noteq> 0 then close_nofail P (fst pw) (dup2_to P (fst pw) 0 s) else s
               else s)
      in if cmd \<noteq> [0x2D]
         then let s = fold (\<lambda>d. close_nofail P (int d)) [3 ..< NOFILE P] s;
                  (ok, s) = io_process_exec P cmd s
              in if ok then Replaced (os s)
                 else Exited 127 (mrbc_raise (IOError ''command not found'') s)
         else Returned VNil s)"

text \<open>What the parent does: it keeps its ends of the pipes, in \<open>fd\<close> and \<open>fd2\<close> when both are open.\<close>

definition popen_parent ::
    "open_flags \<Rightarrow> 'k posix \<Rightarrow> int \<Rightarrow> int \<Rightarrow> int \<times> int \<Rightarrow> int \<times> int \<Rightarrow> 'k io_state \<Rightarrow> 'k io_state" where
  "popen_parent F P flags child pr pw s =
     (let (d, write_fd, s) =
        (if OPEN_RDWR_P F flags
         then (fst pr, snd pw, close_nofail P (fst pw) (close_nofail P (snd pr) s))
         else if OPEN_RDONLY_P F flags then (fst pr, - 1, close_nofail P (snd pr) s)
         else (snd pw, - 1, close_nofail P (fst pw) s));
          f = (io_alloc io_zero)\<lparr>fd := d, fd2 := write_fd, pid := child,
                                readable := OPEN_READABLE_P F flags,
                                writable := OPEN_WRITABLE_P F flags\<rparr>
      in s\<lparr>fptr := io_init_buf f\<rparr>)"

definition popen_fork_error ::
    "open_flags \<Rightarrow> 'k posix \<Rightarrow> int \<Rightarrow> int \<times> int \<Rightarrow> int \<times> int \<Rightarrow> 'k io_state \<Rightarrow> 'k io_state" where
  "popen_fork_error F P flags pr pw s =
     (let saved = sys_errno P (os s);
          s = (if OPEN_READABLE_P F flags then close_nofail P (snd pr) (close_nofail P (fst pr) s) else s);
          s = (if OPEN_WRITABLE_P F flags then close_nofail P (snd pw) (close_nofail P (fst pw) s) else s)
      in mrbc_raise (RuntimeError ''pipe_open failed'') (s\<lparr>os := sys_set_errno P saved (os s)\<rparr>))"

text \<open>Flushing \<^verbatim>\<open>stdout\<close> and \<^verbatim>\<open>stderr\<close> before a fork without a command is left out.\<close>

definition c_io__popen ::
    "open_flags \<Rightarrow> 'k posix \<Rightarrow> (nat \<Rightarrow> picorb_io option) \<Rightarrow> mrb_value list \<Rightarrow> 'k io_state
       \<Rightarrow> 'k popen_out option" where
  "c_io__popen F P ios args s = do {
     x \<leftarrow> GET_STRING args 1;
     let cmd = takeWhile (\<lambda>c. c \<noteq> 0) x;
     mode \<leftarrow> arr_get args 1;
     (flags, s) \<leftarrow> io_mode_to_flags F mode s;
     a3 \<leftarrow> arr_get args 2;
     (opt_in, s) \<leftarrow> option_to_fd ios a3 s;
     a4 \<leftarrow> arr_get args 3;
     (opt_out, s) \<leftarrow> option_to_fd ios a4 s;
     a5 \<leftarrow> arr_get args 4;
     (opt_err, s) \<leftarrow> option_to_fd ios a5 s;
     let (pr, s) = popen_pipe_r P (OPEN_READABLE_P F flags) s;
     let (pw, s) = popen_pipe_w P (OPEN_WRITABLE_P F flags) pr s;
     Some (if exc s \<noteq> None
       then Returned mrbc_self
              (close_valid P (snd pw) (close_valid P (fst pw)
                (close_valid P (snd pr) (close_valid P (fst pr) s))))
       else let (child, k) = sys_fork P (os s); s = s\<lparr>os := k\<rparr>
            in if child = 0 then popen_child F P cmd flags (opt_in, opt_out, opt_err) pr pw s
               else if child = - 1 then Returned VNil (popen_fork_error F P flags pr pw s)
               else Returned mrbc_self (popen_parent F P flags child pr pw s))
   }"

section \<open>Waiting for several objects\<close>

definition FD_SETSIZE :: int where "FD_SETSIZE = 1024"

text \<open>The elements of an array of open objects: \<open>ios i\<close> is the structure of the object \<open>i\<close>.\<close>

fun select_objs :: "(nat \<Rightarrow> picorb_io option) \<Rightarrow> mrb_value list \<Rightarrow> (mrb_value \<times> picorb_io) list option" where
  "select_objs ios [] = Some []"
| "select_objs ios (v # vs) = do {
     f \<leftarrow> (case v of VObj i \<Rightarrow> ios i | _ \<Rightarrow> None);
     _ \<leftarrow> (if fd f < 0 then None else Some ());
     r \<leftarrow> select_objs ios vs;
     Some ((v, f) # r)
   }"

text \<open>The sets, the objects with data in their buffer, and the highest descriptor.\<close>

fun read_sets :: "picorb_io list \<Rightarrow> int set \<times> int set \<times> int \<Rightarrow> int set \<times> int set \<times> int" where
  "read_sets [] r = r"
| "read_sets (f # fs) (rset, pset, mx) =
     read_sets fs
       (if FD_SETSIZE \<le> fd f then (rset, pset, mx)
        else (insert (fd f) rset,
              if picorb_io_read_data_pending f then insert (fd f) pset else pset,
              max mx (fd f)))"

text \<open>The second descriptor is put into the set whether it fits or not.\<close>

fun write_sets :: "picorb_io list \<Rightarrow> int set \<times> int \<Rightarrow> (int set \<times> int) option" where
  "write_sets [] r = Some r"
| "write_sets (f # fs) (wset, mx) =
     (if FD_SETSIZE \<le> fd f then write_sets fs (wset, mx)
      else if 0 \<le> fd2 f
      then (if FD_SETSIZE \<le> fd2 f then None
            else write_sets fs (insert (fd2 f) (insert (fd f) wset), max (max mx (fd f)) (fd2 f)))
      else write_sets fs (insert (fd f) wset, max mx (fd f)))"

text \<open>A test for a descriptor that does not fit the set reads behind it.\<close>

definition FD_ISSET :: "int \<Rightarrow> int set \<Rightarrow> bool option" where
  "FD_ISSET d A = (if 0 \<le> d \<and> d < FD_SETSIZE then Some (d \<in> A) else None)"

fun ready_read :: "int set \<Rightarrow> int set \<Rightarrow> (mrb_value \<times> picorb_io) list \<Rightarrow> mrb_value list option" where
  "ready_read rset pset [] = Some []"
| "ready_read rset pset ((v, f) # r) = do {
     a \<leftarrow> FD_ISSET (fd f) rset;
     b \<leftarrow> (if a then Some True else FD_ISSET (fd f) pset);
     vs \<leftarrow> ready_read rset pset r;
     Some (if b then v # vs else vs)
   }"

fun ready_write :: "int set \<Rightarrow> (mrb_value \<times> picorb_io) list \<Rightarrow> mrb_value list option" where
  "ready_write wset [] = Some []"
| "ready_write wset ((v, f) # r) = do {
     a \<leftarrow> FD_ISSET (fd f) wset;
     b \<leftarrow> (if a then Some True else if 0 \<le> fd2 f then FD_ISSET (fd2 f) wset else Some False);
     vs \<leftarrow> ready_write wset r;
     Some (if b then v # vs else vs)
   }"

definition time2timeval :: "(u64 \<Rightarrow> int \<times> int) \<Rightarrow> mrb_value \<Rightarrow> (int \<times> int) rb_result" where
  "time2timeval float_time v =
     (case v of
        VInt i \<Rightarrow> Inr (i, 0)
      | VFloat x \<Rightarrow> Inr (float_time x)
      | _ \<Rightarrow> Inl (TypeError ''wrong argument class''))"

text \<open>Without a timeout the call is repeated after a signal, on the sets that it has left.\<close>

partial_function (option) select_loop ::
    "'k posix \<Rightarrow> int \<Rightarrow> int set option \<Rightarrow> int set option \<Rightarrow> int set option \<Rightarrow> (int \<times> int) option \<Rightarrow> 'k
       \<Rightarrow> (int \<times> int set \<times> int set \<times> int set \<times> 'k) option" where
  "select_loop P mx rp wp ep tp k =
     (let (n, r, w, e, k) = sys_select P mx rp wp ep tp k
      in if n < 0 \<and> sys_errno P k = EINTR P \<and> tp = None
         then select_loop P mx (map_option (\<lambda>_. r) rp) (map_option (\<lambda>_. w) wp) (map_option (\<lambda>_. e) ep) tp k
         else Some (n, r, w, e, k))"

definition array_arg :: "mrb_value \<Rightarrow> mrb_value list option rb_result" where
  "array_arg v = (case v of VNil \<Rightarrow> Inr None | VArray x \<Rightarrow> Inr (Some x)
                  | _ \<Rightarrow> Inl (TypeError ''expected Array''))"

definition objs_of ::
    "(nat \<Rightarrow> picorb_io option) \<Rightarrow> mrb_value list option \<Rightarrow> (mrb_value \<times> picorb_io) list option option" where
  "objs_of ios l = (case l of None \<Rightarrow> Some None | Some vs \<Rightarrow> map_option Some (select_objs ios vs))"

definition list_of :: "'a list option \<Rightarrow> 'a list" where
  "list_of l = (case l of None \<Rightarrow> [] | Some x \<Rightarrow> x)"

definition select_result ::
    "int \<Rightarrow> bool \<Rightarrow> (mrb_value \<times> picorb_io) list option \<Rightarrow> (mrb_value \<times> picorb_io) list option
       \<Rightarrow> (mrb_value \<times> picorb_io) list option \<Rightarrow> int set \<Rightarrow> int set \<times> int set \<times> int set \<Rightarrow> mrb_value option" where
  "select_result n interrupted rl wl el pset sets =
     (if n = 0 \<and> pset = {} then Some VNil
      else if interrupted then Some (VArray [VArray [], VArray [], VArray []])
      else do {
        let (r, w, e) = sets;
        rr \<leftarrow> (case rl of None \<Rightarrow> Some [] | Some l \<Rightarrow> ready_read r pset l);
        ww \<leftarrow> (case wl of None \<Rightarrow> Some [] | Some l \<Rightarrow> ready_write w l);
        ee \<leftarrow> (case el of None \<Rightarrow> Some [] | Some l \<Rightarrow> ready_write e l);
        Some (VArray [VArray rr, VArray ww, VArray ee])
      })"

definition c_io_select ::
    "(u64 \<Rightarrow> int \<times> int) \<Rightarrow> 'k posix \<Rightarrow> (nat \<Rightarrow> picorb_io option) \<Rightarrow> mrb_value list \<Rightarrow> 'k io_state \<Rightarrow> 'k io_out" where
  "c_io_select float_time P ios args s =
     (if length args < 1 \<or> 4 < length args
      then Some (mrbc_self, mrbc_raise (ArgumentError ''wrong number of arguments. (1..4 required)'') s)
      else
        (case (if opt_arg args 4 = VNil then Inr None
               else rb_then (time2timeval float_time (opt_arg args 4)) (\<lambda>t. Inr (Some t))) of
           Inl e \<Rightarrow> Some (mrbc_self, mrbc_raise e s)
         | Inr tp \<Rightarrow>
        (case array_arg (opt_arg args 1) of Inl e \<Rightarrow> Some (mrbc_self, mrbc_raise e s) | Inr ra \<Rightarrow> do {
           rl \<leftarrow> objs_of ios ra;
           let (rset, pset, mx) = read_sets (map snd (list_of rl)) ({}, {}, 0);
           let tp = (if pset \<noteq> {} then Some (0, 0) else tp);
        (case array_arg (opt_arg args 2) of Inl e \<Rightarrow> Some (mrbc_self, mrbc_raise e s) | Inr wa \<Rightarrow> do {
           wl \<leftarrow> objs_of ios wa;
           (wset, mx) \<leftarrow> write_sets (map snd (list_of wl)) ({}, mx);
        (case array_arg (opt_arg args 3) of Inl e \<Rightarrow> Some (mrbc_self, mrbc_raise e s) | Inr ea \<Rightarrow> do {
           el \<leftarrow> objs_of ios ea;
           (eset, mx) \<leftarrow> write_sets (map snd (list_of el)) ({}, mx);
           (n, r, w, e, k) \<leftarrow> select_loop P (mx + 1) (map_option (\<lambda>_. rset) rl) (map_option (\<lambda>_. wset) wl)
                                (map_option (\<lambda>_. eset) el) tp (os s);
           let s = s\<lparr>os := k\<rparr>;
           (if n < 0 \<and> sys_errno P k \<noteq> EINTR P
            then Some (mrbc_self, mrbc_raise (RuntimeError ''select failed'') s)
            else do {
              v \<leftarrow> select_result n (n < 0) rl wl el pset (r, w, e);
              Some (v, s)
            })
        })})})))"

end
