(* ===== verification/PosixFile.thy ===== *)
theory PosixFile
  imports PosixPopen
begin

text \<open>
  The classes \<^verbatim>\<open>File\<close> and \<^verbatim>\<open>FileTest\<close> (\<^verbatim>\<open>picoruby-posix-io/src/file.c\<close>, \<^verbatim>\<open>file_test.c\<close>) for POSIX systems.
  The system calls on paths are the fields of \<open>posix_fs\<close>; paths are C strings, without their NUL.
\<close>

section \<open>System calls\<close>

record file_stat =
  st_mode :: int
  st_size :: int
  st_atime :: int
  st_mtime :: int
  st_ctime :: int

record 'k posix_fs =
  fs_umask :: "int \<Rightarrow> 'k \<Rightarrow> int \<times> 'k"
  fs_unlink :: "bytes \<Rightarrow> 'k \<Rightarrow> int \<times> 'k"
  fs_rename :: "bytes \<Rightarrow> bytes \<Rightarrow> 'k \<Rightarrow> int \<times> 'k"
  fs_symlink :: "bytes \<Rightarrow> bytes \<Rightarrow> 'k \<Rightarrow> int \<times> 'k"
  fs_chmod :: "bytes \<Rightarrow> int \<Rightarrow> 'k \<Rightarrow> int \<times> 'k"
  fs_readlink :: "bytes \<Rightarrow> nat \<Rightarrow> 'k \<Rightarrow> bytes option"
  fs_dirname :: "bytes \<Rightarrow> bytes option"
  fs_basename :: "bytes \<Rightarrow> bytes option \<times> bytes"
  fs_realpath :: "bytes \<Rightarrow> 'k \<Rightarrow> bytes option"
  fs_getcwd :: "nat \<Rightarrow> 'k \<Rightarrow> bytes option \<times> 'k"
  fs_home :: "'k \<Rightarrow> bytes option"
  fs_getpwnam :: "bytes \<Rightarrow> 'k \<Rightarrow> bytes option"
  fs_fstat :: "int \<Rightarrow> 'k \<Rightarrow> file_stat option"
  fs_stat :: "bytes \<Rightarrow> 'k \<Rightarrow> file_stat option"
  fs_lstat :: "bytes \<Rightarrow> 'k \<Rightarrow> file_stat option"
  fs_flock :: "int \<Rightarrow> int \<Rightarrow> 'k \<Rightarrow> int \<times> 'k"
  fs_ftruncate :: "int \<Rightarrow> int \<Rightarrow> 'k \<Rightarrow> int \<times> 'k"
  fs_opendir :: "bytes \<Rightarrow> 'k \<Rightarrow> nat option \<times> 'k"
  fs_closedir :: "nat \<Rightarrow> 'k \<Rightarrow> int \<times> 'k"
  fs_readdir :: "nat \<Rightarrow> 'k \<Rightarrow> bytes option \<times> 'k"
  fs_rewinddir :: "nat \<Rightarrow> 'k \<Rightarrow> 'k"
  fs_seekdir :: "nat \<Rightarrow> int \<Rightarrow> 'k \<Rightarrow> 'k"
  fs_telldir :: "nat \<Rightarrow> 'k \<Rightarrow> int"
  fs_rmdir :: "bytes \<Rightarrow> 'k \<Rightarrow> int \<times> 'k"
  fs_mkdir :: "bytes \<Rightarrow> int \<Rightarrow> 'k \<Rightarrow> int \<times> 'k"
  fs_chdir :: "bytes \<Rightarrow> 'k \<Rightarrow> int \<times> 'k"
  fs_chroot :: "bytes \<Rightarrow> 'k \<Rightarrow> int \<times> 'k"
  S_ISDIR :: "int \<Rightarrow> bool"
  S_ISREG :: "int \<Rightarrow> bool"
  S_ISFIFO :: "int \<Rightarrow> bool"
  S_ISLNK :: "int \<Rightarrow> bool"
  S_ISSOCK :: "int \<Rightarrow> bool"
  EAGAIN :: int
  EWOULDBLOCK :: int
  ERANGE :: int

definition raise_wrong_args :: "'k io_state \<Rightarrow> 'k io_out" where
  "raise_wrong_args s = Some (mrbc_self, mrbc_raise (ArgumentError ''wrong number of arguments'') s)"

text \<open>The C string that a Ruby string holds.\<close>

definition RSTRING_CSTR :: "mrb_value \<Rightarrow> bytes option" where
  "RSTRING_CSTR v = map_option (takeWhile (\<lambda>c. c \<noteq> 0)) (str_data v)"

definition CSTR_ARG :: "mrb_value list \<Rightarrow> nat \<Rightarrow> bytes option" where
  "CSTR_ARG args n = do { v \<leftarrow> arr_get args (n - 1); RSTRING_CSTR v }"

section \<open>Paths\<close>

definition c_file_umask :: "'k posix_fs \<Rightarrow> mrb_value list \<Rightarrow> 'k io_state \<Rightarrow> 'k io_out" where
  "c_file_umask Q args s =
     (if args = []
      then let (omask, k) = fs_umask Q 0 (os s); (_, k) = fs_umask Q omask k
           in Some (VInt (c_int omask), s\<lparr>os := k\<rparr>)
      else do {
        m \<leftarrow> GET_INT_ARG args 1;
        let (omask, k) = fs_umask Q (sint m) (os s);
        Some (VInt (c_int omask), s\<lparr>os := k\<rparr>)
      })"

text \<open>A path that is not a string raises an error, but the code goes on to read it.\<close>

fun unlink_loop :: "'k posix_fs \<Rightarrow> mrb_value list \<Rightarrow> 'k io_state \<Rightarrow> (bool \<times> 'k io_state) option" where
  "unlink_loop Q [] s = Some (True, s)"
| "unlink_loop Q (v # vs) s = do {
     path \<leftarrow> RSTRING_CSTR v;
     let (res, k) = fs_unlink Q path (os s);
     let s = s\<lparr>os := k\<rparr>;
     (if res < 0 then Some (False, mrbc_raise (RuntimeError ''unlink failed'') s)
      else unlink_loop Q vs s)
   }"

definition c_file_unlink :: "'k posix_fs \<Rightarrow> mrb_value list \<Rightarrow> 'k io_state \<Rightarrow> 'k io_out" where
  "c_file_unlink Q args s = do {
     (ok, s) \<leftarrow> unlink_loop Q args s;
     Some (if ok then VInt (int (length args)) else mrbc_self, s)
   }"

definition c_file_rename :: "'k posix_fs \<Rightarrow> mrb_value list \<Rightarrow> 'k io_state \<Rightarrow> 'k io_out" where
  "c_file_rename Q args s =
     (if length args \<noteq> 2 then raise_wrong_args s
      else do {
        src \<leftarrow> CSTR_ARG args 1;
        dst \<leftarrow> CSTR_ARG args 2;
        let (r, k) = fs_rename Q src dst (os s);
        let s = s\<lparr>os := k\<rparr>;
        Some (if r < 0 then (mrbc_self, mrbc_raise (RuntimeError ''rename failed'') s) else (VInt 0, s))
      })"

definition c_file_symlink :: "'k posix_fs \<Rightarrow> mrb_value list \<Rightarrow> 'k io_state \<Rightarrow> 'k io_out" where
  "c_file_symlink Q args s =
     (if length args \<noteq> 2 then raise_wrong_args s
      else do {
        src \<leftarrow> CSTR_ARG args 1;
        dst \<leftarrow> CSTR_ARG args 2;
        let (r, k) = fs_symlink Q src dst (os s);
        let s = s\<lparr>os := k\<rparr>;
        Some (if r = - 1 then (mrbc_self, mrbc_raise (RuntimeError ''symlink failed'') s) else (VInt 0, s))
      })"

fun chmod_loop :: "'k posix_fs \<Rightarrow> int \<Rightarrow> mrb_value list \<Rightarrow> 'k io_state \<Rightarrow> bool \<times> 'k io_state" where
  "chmod_loop Q mode [] s = (True, s)"
| "chmod_loop Q mode (v # vs) s =
     (case RSTRING_CSTR v of
        None \<Rightarrow> (False, mrbc_raise (TypeError ''wrong argument type'') s)
      | Some path \<Rightarrow>
          (let (r, k) = fs_chmod Q path mode (os s); s = s\<lparr>os := k\<rparr>
           in if r = - 1 then (False, mrbc_raise (RuntimeError ''chmod failed'') s)
              else chmod_loop Q mode vs s))"

text \<open>The result counts the mode as well.\<close>

definition c_file_chmod :: "'k posix_fs \<Rightarrow> mrb_value list \<Rightarrow> 'k io_state \<Rightarrow> 'k io_out" where
  "c_file_chmod Q args s =
     (if length args < 2 then raise_wrong_args s
      else do {
        m \<leftarrow> GET_INT_ARG args 1;
        let (ok, s) = chmod_loop Q (sint m) (tl args) s;
        Some (if ok then VInt (int (length args)) else mrbc_self, s)
      })"

text \<open>The buffer doubles until the target of the link is shorter.\<close>

partial_function (option) readlink_loop ::
    "'k posix_fs \<Rightarrow> bytes \<Rightarrow> nat \<Rightarrow> 'k \<Rightarrow> bytes option option" where
  "readlink_loop Q path bufsize k =
     (let r = fs_readlink Q path bufsize k
      in if map_option length r = Some bufsize then readlink_loop Q path (bufsize * 2) k else Some r)"

definition c_file_readlink :: "'k posix_fs \<Rightarrow> mrb_value list \<Rightarrow> 'k io_state \<Rightarrow> 'k io_out" where
  "c_file_readlink Q args s =
     (if length args \<noteq> 1 then raise_wrong_args s
      else do {
        path \<leftarrow> CSTR_ARG args 1;
        r \<leftarrow> readlink_loop Q path 100 (os s);
        Some (case r of None \<Rightarrow> (mrbc_self, mrbc_raise (RuntimeError ''readlink failed'') s)
              | Some target \<Rightarrow> (VStr target, s))
      })"

definition c_file_dirname :: "'k posix_fs \<Rightarrow> mrb_value list \<Rightarrow> 'k io_state \<Rightarrow> 'k io_out" where
  "c_file_dirname Q args s =
     (if length args \<noteq> 1 then raise_wrong_args s
      else do {
        path \<leftarrow> CSTR_ARG args 1;
        Some (case fs_dirname Q path of
                None \<Rightarrow> (mrbc_self, mrbc_raise (RuntimeError ''dirname failed'') s)
              | Some d \<Rightarrow> (VStr d, s))
      })"

text \<open>
  \<^verbatim>\<open>basename\<close> may write to its argument, which is the memory of the caller's string: the second result
  is what it leaves there. The name \<^verbatim>\<open>//\<close> is cut to \<^verbatim>\<open>/\<close>.
\<close>

definition c_file_basename ::
    "'k posix_fs \<Rightarrow> mrb_value list \<Rightarrow> 'k io_state \<Rightarrow> (mrb_value \<times> bytes option \<times> 'k io_state) option" where
  "c_file_basename Q args s =
     (if length args \<noteq> 1
      then Some (mrbc_self, None, mrbc_raise (ArgumentError ''wrong number of arguments'') s)
      else do {
        path \<leftarrow> CSTR_ARG args 1;
        let (b, path') = fs_basename Q path;
        Some (case b of
                None \<Rightarrow> (mrbc_self, Some path', mrbc_raise (RuntimeError ''basename failed'') s)
              | Some b \<Rightarrow> (VStr (if b = [0x2F, 0x2F] then [0x2F] else b), Some path', s))
      })"

text \<open>After a wrong number of arguments the code goes on; without any it reads the slot of the block.\<close>

definition c_file_realpath :: "'k posix_fs \<Rightarrow> mrb_value list \<Rightarrow> 'k io_state \<Rightarrow> 'k io_out" where
  "c_file_realpath Q args s = do {
     let s = (if length args < 1 \<or> 2 < length args
              then mrbc_raise (ArgumentError ''wrong number of arguments'') s else s);
     pathname \<leftarrow> GET_STRING args 1;
     pathname \<leftarrow> (if length args = 2
                 then do { dir \<leftarrow> GET_STRING args 2; Some (dir @ [0x2F] @ pathname) }
                 else Some pathname);
     Some (case fs_realpath Q (takeWhile (\<lambda>c. c \<noteq> 0) pathname) (os s) of
             None \<Rightarrow> (mrbc_self, mrbc_raise (RuntimeError ''realpath failed'') s)
           | Some r \<Rightarrow> (VStr r, s))
   }"

definition MAXPATHLEN :: nat where "MAXPATHLEN = 4096"

definition c_file__getwd :: "'k posix_fs \<Rightarrow> 'k io_state \<Rightarrow> 'k io_out" where
  "c_file__getwd Q s =
     (let (r, k) = fs_getcwd Q MAXPATHLEN (os s); s = s\<lparr>os := k\<rparr>
      in Some (case r of None \<Rightarrow> (mrbc_self, mrbc_raise (RuntimeError ''getcwd failed'') s)
               | Some d \<Rightarrow> (VStr d, s)))"

definition file_is_absolute_path :: "bytes \<Rightarrow> bool" where
  "file_is_absolute_path path = (take 1 path = [0x2F])"

definition c_file__gethome :: "'k posix_fs \<Rightarrow> mrb_value list \<Rightarrow> 'k io_state \<Rightarrow> 'k io_out" where
  "c_file__gethome Q args s = do {
     (home, msg) \<leftarrow> (if args = [] then Some (fs_home Q (os s), ''non-absolute home'')
                    else do { user \<leftarrow> CSTR_ARG args 1;
                              Some (fs_getpwnam Q user (os s), ''non-absolute home of user'') });
     Some (case home of
             None \<Rightarrow> (VNil, s)
           | Some h \<Rightarrow> (if \<not> file_is_absolute_path h then (mrbc_self, mrbc_raise (ArgumentError msg) s)
                       else (VStr h, s)))
   }"

section \<open>Open files\<close>

text \<open>A time that does not fit the integer becomes a float, here \<open>to_float\<close>, if there are floats.\<close>

definition time_value :: "(int \<Rightarrow> u64) \<Rightarrow> int \<Rightarrow> mrb_value" where
  "time_value to_float t = (if t > 2 ^ 31 - 1 \<or> t < - (2 ^ 31) then VFloat (to_float t) else VInt t)"

definition stat_time ::
    "(file_stat \<Rightarrow> int) \<Rightarrow> string \<Rightarrow> (int \<Rightarrow> u64) \<Rightarrow> 'k posix_fs \<Rightarrow> 'k io_state \<Rightarrow> 'k io_out" where
  "stat_time field msg to_float Q s = do {
     (d, s) \<leftarrow> picorb_io_fileno s;
     Some (case fs_fstat Q d (os s) of
             None \<Rightarrow> (mrbc_self, mrbc_raise (RuntimeError msg) s)
           | Some st \<Rightarrow> (time_value to_float (field st), s))
   }"

definition c_file_atime :: "(int \<Rightarrow> u64) \<Rightarrow> 'k posix_fs \<Rightarrow> 'k io_state \<Rightarrow> 'k io_out" where
  "c_file_atime = stat_time st_atime ''atime failed''"

definition c_file_ctime :: "(int \<Rightarrow> u64) \<Rightarrow> 'k posix_fs \<Rightarrow> 'k io_state \<Rightarrow> 'k io_out" where
  "c_file_ctime = stat_time st_ctime ''ctime failed''"

definition c_file_mtime :: "(int \<Rightarrow> u64) \<Rightarrow> 'k posix_fs \<Rightarrow> 'k io_state \<Rightarrow> 'k io_out" where
  "c_file_mtime = stat_time st_mtime ''mtime failed''"

definition c_file__size :: "(int \<Rightarrow> u64) \<Rightarrow> 'k posix_fs \<Rightarrow> 'k io_state \<Rightarrow> 'k io_out" where
  "c_file__size to_float Q s = do {
     (d, s) \<leftarrow> picorb_io_fileno s;
     Some (case fs_fstat Q d (os s) of
             None \<Rightarrow> (mrbc_self, mrbc_raise (IOError ''fstat failed'') s)
           | Some st \<Rightarrow> (if st_size st > 2 ^ 31 - 1 then (VFloat (to_float (st_size st)), s)
                        else (VInt (st_size st), s)))
   }"

definition LOCK_NB :: int where "LOCK_NB = 4"

partial_function (option) flock_loop ::
    "'k posix \<Rightarrow> 'k posix_fs \<Rightarrow> int \<Rightarrow> int \<Rightarrow> 'k \<Rightarrow> (int \<times> 'k) option" where
  "flock_loop P Q d operation k =
     (let (r, k) = fs_flock Q d operation k
      in if r = - 1 \<and> sys_errno P k = EINTR P then flock_loop P Q d operation k else Some (r, k))"

definition c_file_flock :: "'k posix \<Rightarrow> 'k posix_fs \<Rightarrow> mrb_value list \<Rightarrow> 'k io_state \<Rightarrow> 'k io_out" where
  "c_file_flock P Q args s =
     (if length args \<noteq> 1 then raise_wrong_args s
      else do {
        op \<leftarrow> map_option sint (GET_INT_ARG args 1);
        (d, s) \<leftarrow> picorb_io_fileno s;
        (r, k) \<leftarrow> flock_loop P Q d op (os s);
        let s = s\<lparr>os := k\<rparr>;
        let e = sys_errno P k;
        Some (if r \<noteq> - 1 then (VInt 0, s)
              else if (e = EAGAIN Q \<or> e = EWOULDBLOCK Q) \<and> op AND LOCK_NB \<noteq> 0 then (VFalse, s)
              else (mrbc_self, mrbc_raise (IOError ''flock failed'') s))
      })"

definition file_ftruncate :: "'k posix_fs \<Rightarrow> int \<Rightarrow> int \<Rightarrow> 'k \<Rightarrow> int \<times> 'k" where
  "file_ftruncate Q d n k = fs_ftruncate Q d n k"

definition c_file_truncate :: "'k posix_fs \<Rightarrow> mrb_value list \<Rightarrow> 'k io_state \<Rightarrow> 'k io_out" where
  "c_file_truncate Q args s =
     (if length args \<noteq> 1 then raise_wrong_args s
      else do {
        n \<leftarrow> GET_INT_ARG args 1;
        (d, s) \<leftarrow> picorb_io_fileno s;
        let (r, k) = file_ftruncate Q d (sint n) (os s);
        let s = s\<lparr>os := k\<rparr>;
        Some (if r \<noteq> 0 then (mrbc_self, mrbc_raise (IOError ''ftruncate failed'') s) else (VInt 0, s))
      })"

section \<open>Tests of files\<close>

text \<open>\<open>ios i\<close> is the structure of the object \<open>i\<close> if it is an \<^verbatim>\<open>IO\<close>; other objects have no path.\<close>

definition filetest_stat0 ::
    "'k posix_fs \<Rightarrow> (nat \<Rightarrow> picorb_io option) \<Rightarrow> mrb_value \<Rightarrow> bool \<Rightarrow> 'k io_state
       \<Rightarrow> (file_stat option \<times> 'k io_state) option" where
  "filetest_stat0 Q ios obj do_lstat s =
     (case (case obj of VObj i \<Rightarrow> ios i | _ \<Rightarrow> None) of
        Some f \<Rightarrow> Some (if 0 \<le> fd f then (fs_fstat Q (fd f) (os s), s)
                       else (None, mrbc_raise (IOError ''closed stream'') s))
      | None \<Rightarrow> do {
          path \<leftarrow> RSTRING_CSTR obj;
          Some (if do_lstat then fs_lstat Q path (os s) else fs_stat Q path (os s), s)
        })"

text \<open>A method with one argument that asks for its status.\<close>

definition filetest ::
    "bool \<Rightarrow> (file_stat option \<Rightarrow> 'k io_state \<Rightarrow> mrb_value \<times> 'k io_state) \<Rightarrow> 'k posix_fs
       \<Rightarrow> (nat \<Rightarrow> picorb_io option) \<Rightarrow> mrb_value list \<Rightarrow> 'k io_state \<Rightarrow> 'k io_out" where
  "filetest do_lstat answer Q ios args s =
     (if length args \<noteq> 1 then raise_wrong_args s
      else do { (st, s) \<leftarrow> filetest_stat0 Q ios (args ! 0) do_lstat s; Some (answer st s) })"

definition answer_if :: "(file_stat \<Rightarrow> bool) \<Rightarrow> file_stat option \<Rightarrow> 'k io_state \<Rightarrow> mrb_value \<times> 'k io_state" where
  "answer_if p st s = ((case st of Some x \<Rightarrow> if p x then VTrue else VFalse | None \<Rightarrow> VFalse), s)"

definition c_filetest_directory_p where
  "c_filetest_directory_p Q = filetest False (answer_if (\<lambda>st. S_ISDIR Q (st_mode st))) Q"

definition c_filetest_pipe_p where
  "c_filetest_pipe_p Q = filetest False (answer_if (\<lambda>st. S_ISFIFO Q (st_mode st))) Q"

definition c_filetest_symlink_p where
  "c_filetest_symlink_p Q = filetest True (answer_if (\<lambda>st. S_ISLNK Q (st_mode st))) Q"

definition c_filetest_socket_p where
  "c_filetest_socket_p Q = filetest False (answer_if (\<lambda>st. S_ISSOCK Q (st_mode st))) Q"

definition c_filetest_exist_p where
  "c_filetest_exist_p Q = filetest False (answer_if (\<lambda>st. True)) Q"

definition c_filetest_file_p where
  "c_filetest_file_p Q = filetest False (answer_if (\<lambda>st. S_ISREG Q (st_mode st))) Q"

definition c_filetest_zero_p where
  "c_filetest_zero_p Q = filetest False (answer_if (\<lambda>st. st_size st = 0)) Q"

definition c_filetest_size where
  "c_filetest_size Q = filetest False (\<lambda>st s. case st of
     None \<Rightarrow> (mrbc_self, mrbc_raise (RuntimeError ''filetest_stat'') s)
   | Some x \<Rightarrow> (VInt (c_int (st_size x)), s)) Q"

definition c_filetest_size_p where
  "c_filetest_size_p Q = filetest False (\<lambda>st s. case st of
     None \<Rightarrow> (VNil, s)
   | Some x \<Rightarrow> (if st_size x = 0 then VNil else VInt (c_int (st_size x)), s)) Q"

end
