(* ===== verification/PosixDir.thy ===== *)
theory PosixDir
  imports PosixFile
begin

text \<open>
  The class \<^verbatim>\<open>Dir\<close> on POSIX systems (\<^verbatim>\<open>picoruby-dir/src/dir.c\<close>). An object holds the address of a
  \<^verbatim>\<open>DIR\<close>, or the null pointer, here \<open>dir :: nat option\<close>; the rest of the state is that of \<open>io_state\<close>,
  whose stream is not used.
\<close>

section \<open>The check of names\<close>

text \<open>
  The string is read byte by byte up to its NUL; \<open>None\<close> would be an access behind it.
\<close>

definition is_cont :: "u8 \<Rightarrow> bool" where
  "is_cont c \<longleftrightarrow> c AND 0xC0 = 0x80"

text \<open>The test of \<open>n\<close> bytes that follow the first one: none of them is NUL, and each is a continuation.\<close>

fun nonzero_at :: "bytes \<Rightarrow> nat list \<Rightarrow> bool option" where
  "nonzero_at str [] = Some True"
| "nonzero_at str (i # js) = do {
     c \<leftarrow> arr_get str i;
     (if c = 0 then Some False else nonzero_at str js)
   }"

fun cont_at :: "bytes \<Rightarrow> nat list \<Rightarrow> bool option" where
  "cont_at str [] = Some True"
| "cont_at str (i # js) = do {
     c \<leftarrow> arr_get str i;
     (if is_cont c then cont_at str js else Some False)
   }"

definition tail_ok :: "bytes \<Rightarrow> nat \<Rightarrow> bool option" where
  "tail_ok str n = do {
     a \<leftarrow> nonzero_at str [1 ..< Suc n];
     (if a then cont_at str [1 ..< Suc n] else Some False)
   }"

function is_valid_utf8 :: "bytes \<Rightarrow> bool option" where
  "is_valid_utf8 str = do {
     c \<leftarrow> arr_get str 0;
     (if c = 0 then Some True
      else if c < 0x80
      then (if c < 0x20 \<and> c \<noteq> 0x0A \<and> c \<noteq> 0x0D \<and> c \<noteq> 0x09 then Some False
            else is_valid_utf8 (drop 1 str))
      else if c AND 0xE0 = 0xC0
      then do { ok \<leftarrow> tail_ok str 1; (if ok then is_valid_utf8 (drop 2 str) else Some False) }
      else if c AND 0xF0 = 0xE0
      then do { ok \<leftarrow> tail_ok str 2; (if ok then is_valid_utf8 (drop 3 str) else Some False) }
      else if c AND 0xF8 = 0xF0
      then do { ok \<leftarrow> tail_ok str 3; (if ok then is_valid_utf8 (drop 4 str) else Some False) }
      else Some False)
   }"
  by pat_completeness auto

termination
  by (relation "measure length") (auto simp: arr_get_eq_Some)

declare is_valid_utf8.simps [simp del]

section \<open>Methods of the class\<close>

definition raise_args :: "string \<Rightarrow> 'k io_state \<Rightarrow> 'k io_state" where
  "raise_args m s = mrbc_raise (ArgumentError (m @ '': wrong number of arguments'')) s"

text \<open>Several methods go on after a wrong number of arguments: \<open>warn\<close> is their test.\<close>

definition warn_args :: "string \<Rightarrow> mrb_value list \<Rightarrow> 'k io_state \<Rightarrow> 'k io_state" where
  "warn_args m args s = (if length args \<noteq> 1 then raise_args m s else s)"

definition c_dir_init :: "'k posix_fs \<Rightarrow> mrb_value list \<Rightarrow> 'k io_state \<Rightarrow> (mrb_value \<times> nat option \<times> 'k io_state) option" where
  "c_dir_init Q args s = do {
     let s = warn_args ''Dir.new'' args s;
     path \<leftarrow> CSTR_ARG args 1;
     let (d, k) = fs_opendir Q path (os s);
     let s = s\<lparr>os := k\<rparr>;
     Some (case d of
             None \<Rightarrow> (mrbc_self, None, mrbc_raise (RuntimeError ''cannot open directory'') s)
           | Some dir \<Rightarrow> (mrbc_self, Some dir, s))
   }"

definition c_dir_delete :: "'k posix_fs \<Rightarrow> mrb_value list \<Rightarrow> 'k io_state \<Rightarrow> 'k io_out" where
  "c_dir_delete Q args s = do {
     let s = warn_args ''Dir.delete'' args s;
     path \<leftarrow> CSTR_ARG args 1;
     let (r, k) = fs_rmdir Q path (os s);
     let s = s\<lparr>os := k\<rparr>;
     Some (if r = - 1 then (mrbc_self, mrbc_raise (RuntimeError ''cannot remove directory'') s)
           else (VInt 0, s))
   }"

definition c_dir_exist_q :: "'k posix_fs \<Rightarrow> mrb_value list \<Rightarrow> 'k io_state \<Rightarrow> 'k io_out" where
  "c_dir_exist_q Q args s = do {
     let s = warn_args ''Dir.exist?'' args s;
     path \<leftarrow> CSTR_ARG args 1;
     Some (case fs_stat Q path (os s) of
             Some st \<Rightarrow> if S_ISDIR Q (st_mode st) then VTrue else VFalse
           | None \<Rightarrow> VFalse, s)
   }"

text \<open>
  The buffer doubles while the path does not fit, but the address that the allocator returns is not
  stored: if the block has \<open>moved\<close>, the next call writes to memory that has been freed.
\<close>

partial_function (option) getwd_loop ::
    "(nat \<Rightarrow> bool) \<Rightarrow> 'k posix \<Rightarrow> 'k posix_fs \<Rightarrow> nat \<Rightarrow> 'k \<Rightarrow> (bytes option \<times> 'k) option" where
  "getwd_loop moved P Q sz k =
     (let (r, k) = fs_getcwd Q sz k
      in (case r of
            Some d \<Rightarrow> Some (Some d, k)
          | None \<Rightarrow>
              (if sys_errno P k \<noteq> ERANGE Q then Some (None, k)
               else if moved (sz * 2) then None
               else getwd_loop moved P Q (sz * 2) k)))"

definition c_dir_getwd :: "(nat \<Rightarrow> bool) \<Rightarrow> 'k posix \<Rightarrow> 'k posix_fs \<Rightarrow> 'k io_state \<Rightarrow> 'k io_out" where
  "c_dir_getwd moved P Q s = do {
     (r, k) \<leftarrow> getwd_loop moved P Q 64 (os s);
     let s = s\<lparr>os := k\<rparr>;
     Some (case r of
             None \<Rightarrow> (mrbc_self, mrbc_raise (RuntimeError ''cannot get current directory'') s)
           | Some d \<Rightarrow> (VStr d, s))
   }"

definition c_dir_mkdir :: "'k posix_fs \<Rightarrow> mrb_value list \<Rightarrow> 'k io_state \<Rightarrow> 'k io_out" where
  "c_dir_mkdir Q args s =
     (if length args < 1 \<or> 2 < length args then Some (mrbc_self, raise_args ''Dir.mkdir'' s)
      else do {
        path \<leftarrow> CSTR_ARG args 1;
        mode \<leftarrow> (if length args = 2 then map_option sint (GET_INT_ARG args 2) else Some 0x1FF);
        let (r, k) = fs_mkdir Q path mode (os s);
        let s = s\<lparr>os := k\<rparr>;
        Some (if r = - 1 then (mrbc_self, mrbc_raise (RuntimeError ''cannot create directory'') s)
              else (VInt 0, s))
      })"

definition c_dir__chdir :: "'k posix_fs \<Rightarrow> mrb_value list \<Rightarrow> 'k io_state \<Rightarrow> 'k io_out" where
  "c_dir__chdir Q args s =
     (if length args \<noteq> 1 then Some (mrbc_self, raise_args ''Dir.chdir'' s)
      else do {
        path \<leftarrow> CSTR_ARG args 1;
        let (r, k) = fs_chdir Q path (os s);
        let s = s\<lparr>os := k\<rparr>;
        Some (if r = - 1 then (mrbc_self, mrbc_raise (RuntimeError ''cannot change directory'') s)
              else (VInt 0, s))
      })"

definition c_dir_chroot :: "'k posix_fs \<Rightarrow> mrb_value list \<Rightarrow> 'k io_state \<Rightarrow> 'k io_out" where
  "c_dir_chroot Q args s =
     (if length args \<noteq> 1 then Some (mrbc_self, raise_args ''Dir.chroot'' s)
      else do {
        path \<leftarrow> CSTR_ARG args 1;
        let (r, k) = fs_chroot Q path (os s);
        let s = s\<lparr>os := k\<rparr>;
        Some (if r = - 1 then (mrbc_self, mrbc_raise (RuntimeError ''cannot change root directory'') s)
              else (VInt r, s))
      })"

definition skip_name_p :: "bytes \<Rightarrow> bool" where
  "skip_name_p name \<longleftrightarrow> name = [0x2E] \<or> name = [0x2E, 0x2E]"

text \<open>The value that the loop sets is lost: the method sets \<^verbatim>\<open>true\<close> behind it.\<close>

partial_function (option) empty_loop :: "'k posix_fs \<Rightarrow> nat \<Rightarrow> 'k \<Rightarrow> 'k option" where
  "empty_loop Q dir k =
     (let (dp, k) = fs_readdir Q dir k
      in (case dp of
            None \<Rightarrow> Some k
          | Some name \<Rightarrow> (if \<not> skip_name_p name then Some k else empty_loop Q dir k)))"

definition c_dir_empty_q :: "'k posix_fs \<Rightarrow> mrb_value list \<Rightarrow> 'k io_state \<Rightarrow> 'k io_out" where
  "c_dir_empty_q Q args s = do {
     let s = warn_args ''Dir.empty?'' args s;
     path \<leftarrow> CSTR_ARG args 1;
     let (d, k) = fs_opendir Q path (os s);
     let s = s\<lparr>os := k\<rparr>;
     (case d of
        None \<Rightarrow> Some (mrbc_self, mrbc_raise (RuntimeError ''cannot open directory'') s)
      | Some dir \<Rightarrow> do {
          k \<leftarrow> empty_loop Q dir (os s);
          Some (VTrue, s\<lparr>os := snd (fs_closedir Q dir k)\<rparr>)
        })
   }"

section \<open>Methods of an open directory\<close>

definition closed_directory :: "'k io_state \<Rightarrow> 'k io_state" where
  "closed_directory = mrbc_raise (IOError ''closed directory'')"

definition c_dir_close ::
    "'k posix_fs \<Rightarrow> nat option \<Rightarrow> 'k io_state \<Rightarrow> mrb_value \<times> nat option \<times> 'k io_state" where
  "c_dir_close Q dir s =
     (case dir of
        None \<Rightarrow> (mrbc_self, None, closed_directory s)
      | Some d \<Rightarrow>
          (let (r, k) = fs_closedir Q d (os s); s = s\<lparr>os := k\<rparr>
           in if r = - 1 then (mrbc_self, dir, mrbc_raise (RuntimeError ''cannot close directory'') s)
              else (VNil, None, s)))"

text \<open>\<^verbatim>\<open>d_name\<close> and the buffer have 256 bytes; the name is checked after it has been copied.\<close>

definition c_dir_read :: "'k posix \<Rightarrow> 'k posix_fs \<Rightarrow> nat option \<Rightarrow> 'k io_state \<Rightarrow> 'k io_out" where
  "c_dir_read P Q dir s =
     (case dir of
        None \<Rightarrow> Some (mrbc_self, closed_directory s)
      | Some d \<Rightarrow>
          (let (dp, k) = fs_readdir Q d (sys_set_errno P 0 (os s)); s = s\<lparr>os := k\<rparr>
           in (case dp of
                 None \<Rightarrow> Some (if sys_errno P k \<noteq> 0
                               then (mrbc_self, mrbc_raise (RuntimeError ''readdir failed'') s)
                               else (VNil, s))
               | Some name \<Rightarrow>
                   (if length name = 0 \<or> 256 \<le> length name
                    then Some (mrbc_self, mrbc_raise (RuntimeError ''invalid directory entry'') s)
                    else do {
                      ok \<leftarrow> is_valid_utf8 (take 255 name @ replicate (256 - length (take 255 name)) 0);
                      Some (if \<not> ok
                            then (mrbc_self, mrbc_raise
                                   (RuntimeError ''invalid character encoding in directory entry'') s)
                            else (VStr name, s))
                    }))))"

definition c_dir_rewind :: "'k posix_fs \<Rightarrow> nat option \<Rightarrow> 'k io_state \<Rightarrow> 'k io_out" where
  "c_dir_rewind Q dir s =
     Some (mrbc_self, case dir of None \<Rightarrow> closed_directory s
                      | Some d \<Rightarrow> s\<lparr>os := fs_rewinddir Q d (os s)\<rparr>)"

definition c_dir_seek :: "'k posix_fs \<Rightarrow> mrb_value list \<Rightarrow> nat option \<Rightarrow> 'k io_state \<Rightarrow> 'k io_out" where
  "c_dir_seek Q args dir s =
     (if length args \<noteq> 1 then Some (mrbc_self, raise_args ''Dir.seek'' s)
      else (case dir of
              None \<Rightarrow> Some (mrbc_self, closed_directory s)
            | Some d \<Rightarrow> do {
                n \<leftarrow> GET_INT_ARG args 1;
                Some (mrbc_self, s\<lparr>os := fs_seekdir Q d (sint n) (os s)\<rparr>)
              }))"

definition c_dir_tell :: "'k posix_fs \<Rightarrow> nat option \<Rightarrow> 'k io_state \<Rightarrow> 'k io_out" where
  "c_dir_tell Q dir s =
     Some (case dir of None \<Rightarrow> (mrbc_self, closed_directory s)
           | Some d \<Rightarrow> (VInt (c_int (fs_telldir Q d (os s))), s))"

end
