(* ===== verification/PosixStream.thy ===== *)
theory PosixStream
  imports PosixDir
begin

text \<open>
  What the reading methods of \<^verbatim>\<open>IO\<close> do, in terms of the bytes that are still to come: the live part of the
  buffer, then what the descriptor has left. The operating system is free to give the bytes in pieces
  of any size.
\<close>

section \<open>The buffer\<close>

named_theorems io_simps \<open>updates of the state of a method\<close>

lemma c_short_id [simp]: "- 32768 \<le> i \<Longrightarrow> i \<le> 32767 \<Longrightarrow> c_short i = i"
  by (simp add: c_short_def signed_of_int signed_take_bit_int_eq_self)

definition buf_ok :: "io_buf \<Rightarrow> bool" where
  "buf_ok b \<longleftrightarrow> 0 \<le> b_start b \<and> 0 \<le> b_len b \<and> b_start b + b_len b \<le> int (length (b_mem b))
     \<and> PICORB_IO_BUF_SIZE \<le> length (b_mem b) \<and> length (b_mem b) \<le> 32767"

definition live :: "io_buf \<Rightarrow> bytes" where
  "live b = take (nat (b_len b)) (drop (nat (b_start b)) (b_mem b))"

lemma length_live: "buf_ok b \<Longrightarrow> int (length (live b)) = b_len b"
  by (simp add: buf_ok_def live_def) arith

lemma mem_range_eq:
  assumes "0 \<le> off" "0 \<le> n" "off + n \<le> int (length m)"
  shows "mem_range m off n = Some (take (nat n) (drop (nat off) m))"
  using assms by (simp add: mem_range_def copy_from_def nat_le_eq_zle flip: nat_add_distrib)

lemma io_buf_shift_ok:
  assumes "buf_ok b" "0 \<le> n" "n \<le> b_len b"
  shows "\<exists>b'. io_buf_shift b n = Some b' \<and> buf_ok b' \<and> live b' = drop (nat n) (live b)
           \<and> b_len b' = b_len b - n"
proof -
  have "nat (b_start b + n) = nat n + nat (b_start b)"
    using assms by (simp add: buf_ok_def nat_add_distrib)
  moreover have "nat (b_len b - n) = nat (b_len b) - nat n"
    using assms by (simp add: nat_diff_distrib)
  ultimately show ?thesis
    using assms by (simp add: io_buf_shift_def buf_ok_def live_def drop_take)
qed

lemma io_buf_cat_ok:
  assumes "buf_ok b" "0 \<le> n" "n \<le> b_len b"
  obtains b' where "io_buf_cat out b n = Some (out @ take (nat n) (live b), b')" "buf_ok b'"
    "live b' = drop (nat n) (live b)" "b_len b' = b_len b - n"
proof -
  obtain b' where b': "io_buf_shift b n = Some b'" "buf_ok b'" "live b' = drop (nat n) (live b)"
    "b_len b' = b_len b - n"
    using io_buf_shift_ok [OF assms] by blast
  have "mem_range (b_mem b) (b_start b) n = Some (take (nat n) (drop (nat (b_start b)) (b_mem b)))"
    using assms by (intro mem_range_eq) (auto simp: buf_ok_def)
  moreover have "take (nat n) (live b) = take (nat n) (drop (nat (b_start b)) (b_mem b))"
    using assms by (simp add: live_def min_absorb1 nat_mono)
  ultimately show thesis
    using that b' assms by (simp add: io_buf_cat_def)
qed

lemma io_buf_cat_all_ok:
  assumes "buf_ok b"
  obtains b' where "io_buf_cat_all out b = Some (out @ live b, b')" "buf_ok b'" "live b' = []" "b_len b' = 0"
proof -
  have "mem_range (b_mem b) (b_start b) (b_len b) = Some (live b)"
    using assms by (auto simp: live_def buf_ok_def intro!: mem_range_eq)
  moreover have "buf_ok (io_buf_reset b)" "live (io_buf_reset b) = []" "b_len (io_buf_reset b) = 0"
    using assms by (auto simp: buf_ok_def io_buf_reset_def live_def)
  ultimately show thesis
    using that by (simp add: io_buf_cat_all_def)
qed

text \<open>The separator is found at its first place, if it is a single byte.\<close>

lemma find_index_loop_byte:
  assumes "k + n = length p"
  shows "find_index_loop (p @ q) [c] (int k) n =
           Some (if c \<in> set (drop k p) then int (k + length (takeWhile (\<lambda>x. x \<noteq> c) (drop k p))) else - 1)"
  using assms
proof (induction n arbitrary: k)
  case (Suc n)
  have k: "k < length p" using Suc.prems by simp
  then have d: "drop k p = p ! k # drop (Suc k) p"
    by (simp add: Cons_nth_drop_Suc)
  have "mem_range (p @ q) (int k) 1 = Some (take 1 (drop k (p @ q)))"
    using k by (subst mem_range_eq) simp_all
  then have m: "mem_range (p @ q) (int k) 1 = Some [p ! k]"
    using k d by simp
  have IH: "find_index_loop (p @ q) [c] (1 + int k) n =
      Some (if c \<in> set (drop (Suc k) p)
            then int (Suc k + length (takeWhile (\<lambda>x. x \<noteq> c) (drop (Suc k) p))) else - 1)"
    using Suc.IH [of "Suc k"] Suc.prems by simp
  show ?case
    by (simp add: m d IH add.commute)
qed simp

lemma io_find_index_byte:
  assumes "buf_ok b"
  shows "io_find_index b [c] =
           Some (if c \<in> set (live b) then int (length (takeWhile (\<lambda>x. x \<noteq> c) (live b))) else - 1)"
proof (cases "b_len b \<le> 0")
  case True
  then have "live b = []" by (simp add: live_def)
  then show ?thesis using True by (simp add: io_find_index_def)
next
  case False
  have "mem_range (b_mem b) (b_start b) (int (length (b_mem b)) - b_start b)
          = Some (drop (nat (b_start b)) (b_mem b))"
    using assms by (subst mem_range_eq) (auto simp: buf_ok_def nat_diff_distrib')
  moreover have "drop (nat (b_start b)) (b_mem b) = live b @ drop (nat (b_len b)) (drop (nat (b_start b)) (b_mem b))"
    by (simp only: live_def append_take_drop_id)
  moreover have "nat (b_len b) = length (live b)"
    using length_live [OF assms] by simp
  ultimately show ?thesis
    using False find_index_loop_byte [of 0 "length (live b)" "live b"]
    by (simp add: io_find_index_def)
qed

section \<open>The stream of an object\<close>

text \<open>
  \<open>content\<close> and \<open>offset\<close> describe the descriptor \<open>d\<close> as POSIX does: what it holds, or will ever deliver, and how
  much of it has been read. A call of \<^verbatim>\<open>read\<close> succeeds and gives at least one byte unless there is none.
\<close>

definition reads_from :: "'k posix \<Rightarrow> int \<Rightarrow> ('k \<Rightarrow> bytes) \<Rightarrow> ('k \<Rightarrow> nat) \<Rightarrow> bool" where
  "reads_from P d content offset \<longleftrightarrow>
     (\<forall>n k. 0 < n \<longrightarrow> (\<exists>m k'. sys_read P d n k = (Some (take m (drop (offset k) (content k))), k')
        \<and> m \<le> n \<and> (offset k < length (content k) \<longrightarrow> 0 < m) \<and> content k' = content k
        \<and> offset k' = offset k + min m (length (content k) - offset k)))"

definition pending :: "picorb_io \<Rightarrow> bytes" where
  "pending f = (case buf f of None \<Rightarrow> [] | Some b \<Rightarrow> live b)"

definition stream :: "('k \<Rightarrow> bytes) \<Rightarrow> ('k \<Rightarrow> nat) \<Rightarrow> 'k io_state \<Rightarrow> bytes" where
  "stream content offset s = pending (fptr s) @ drop (offset (os s)) (content (os s))"

definition position :: "('k \<Rightarrow> nat) \<Rightarrow> 'k io_state \<Rightarrow> int" where
  "position offset s = int (offset (os s)) - int (length (pending (fptr s)))"

definition reader :: "'k posix \<Rightarrow> ('k \<Rightarrow> bytes) \<Rightarrow> ('k \<Rightarrow> nat) \<Rightarrow> 'k io_state \<Rightarrow> bool" where
  "reader P content offset s \<longleftrightarrow>
     reads_from P (fd (fptr s)) content offset \<and> 0 \<le> fd (fptr s) \<and> readable (fptr s)
     \<and> (\<exists>b. buf (fptr s) = Some b \<and> buf_ok b)
     \<and> (eof (fptr s) \<longrightarrow> stream content offset s = [])"

text \<open>What a method that reads leaves alone, and what it does to the stream when it takes \<open>j\<close> bytes.\<close>

definition same_io :: "'k io_state \<Rightarrow> 'k io_state \<Rightarrow> bool" where
  "same_io s s' \<longleftrightarrow> exc s' = exc s
     \<and> (fptr s')\<lparr>eof := False, buf := None\<rparr> = (fptr s)\<lparr>eof := False, buf := None\<rparr>"

definition consumes ::
    "'k posix \<Rightarrow> ('k \<Rightarrow> bytes) \<Rightarrow> ('k \<Rightarrow> nat) \<Rightarrow> 'k io_state \<Rightarrow> nat \<Rightarrow> 'k io_state \<Rightarrow> bool" where
  "consumes P content offset s j s' \<longleftrightarrow>
     reader P content offset s' \<and> j \<le> length (stream content offset s)
     \<and> stream content offset s' = drop j (stream content offset s)
     \<and> position offset s' = position offset s + int j
     \<and> content (os s') = content (os s) \<and> same_io s s'"

lemma consumes_refl: "reader P content offset s \<Longrightarrow> consumes P content offset s 0 s"
  by (simp add: consumes_def same_io_def)

lemma consumes_trans:
  assumes "consumes P content offset s i t" "consumes P content offset t j u"
  shows "consumes P content offset s (i + j) u"
  using assms by (auto simp: consumes_def same_io_def add.commute)

lemma same_ioD:
  "same_io s s' \<Longrightarrow> exc s' = exc s"
  "same_io s s' \<Longrightarrow> fd (fptr s') = fd (fptr s)"
  "same_io s s' \<Longrightarrow> fd2 (fptr s') = fd2 (fptr s)"
  "same_io s s' \<Longrightarrow> readable (fptr s') = readable (fptr s)"
  "same_io s s' \<Longrightarrow> writable (fptr s') = writable (fptr s)"
  unfolding same_io_def by (auto dest: arg_cong [where f = fd] arg_cong [where f = fd2]
    arg_cong [where f = readable] arg_cong [where f = writable])

section \<open>One refill\<close>

lemma pending_set_buf [io_simps]: "pending (fptr (set_buf b s)) = live b"
  by (simp add: pending_def set_buf_def)

lemma set_buf_simps [io_simps]:
  "os (set_buf b s) = os s" "exc (set_buf b s) = exc s" "buf (fptr (set_buf b s)) = Some b"
  "eof (fptr (set_buf b s)) = eof (fptr s)" "fd (fptr (set_buf b s)) = fd (fptr s)"
  "readable (fptr (set_buf b s)) = readable (fptr s)"
  by (simp_all add: set_buf_def)

lemma same_io_set_buf [io_simps]: "same_io s (set_buf b s)"
  by (simp add: same_io_def set_buf_def)

text \<open>Taking bytes from the front of a buffer takes them from the stream.\<close>

lemma consumes_set_buf:
  assumes "reader P content offset s" "buf (fptr s) = Some b" "buf_ok b" "buf_ok b'"
    and "live b' = drop j (live b)" "j \<le> length (live b)"
  shows "consumes P content offset s j (set_buf b' s)"
proof -
  have "pending (fptr s) = live b" using assms by (simp add: pending_def)
  then have "stream content offset s = live b @ drop (offset (os s)) (content (os s))"
    "stream content offset (set_buf b' s) = drop j (live b) @ drop (offset (os s)) (content (os s))"
    "position offset (set_buf b' s) = position offset s + int j"
    using assms by (auto simp: stream_def position_def io_simps)
  then show ?thesis
    using assms by (simp add: consumes_def reader_def io_simps)
qed

lemma io_fill_buf_ok:
  assumes r: "reader P content offset s"
  obtains s' b where "io_fill_buf P s = Some s'" "consumes P content offset s 0 s'"
    "eof (fptr s') \<longleftrightarrow> stream content offset s = []" "buf (fptr s') = Some b" "buf_ok b"
    "stream content offset s \<noteq> [] \<longrightarrow> live b \<noteq> []"
proof -
  obtain b where b: "buf (fptr s) = Some b" "buf_ok b" using r by (auto simp: reader_def)
  then have p: "pending (fptr s) = live b" by (simp add: pending_def)
  show thesis
  proof (cases "0 < b_len b")
    case True
    then have "live b \<noteq> []" using length_live [OF b(2)] by auto
    moreover have "\<not> eof (fptr s)" using r calculation p by (auto simp: reader_def stream_def)
    ultimately show thesis
      using that [of s b] r b True p consumes_refl [OF r] by (simp add: io_fill_buf_def stream_def)
  next
    case False
    then have l: "live b = []" by (simp add: live_def)
    define rest where "rest = drop (offset (os s)) (content (os s))"
    have st: "stream content offset s = rest" by (simp add: stream_def p l rest_def)
    have "reads_from P (fd (fptr s)) content offset" using r by (simp add: reader_def)
    moreover have "0 < PICORB_IO_BUF_SIZE" by (simp add: PICORB_IO_BUF_SIZE_def)
    ultimately obtain m k where m: "sys_read P (fd (fptr s)) PICORB_IO_BUF_SIZE (os s) = (Some (take m rest), k)"
      "m \<le> PICORB_IO_BUF_SIZE" "rest \<noteq> [] \<longrightarrow> 0 < m" "content k = content (os s)"
      "offset k = offset (os s) + min m (length rest)"
      unfolding reads_from_def rest_def drop_eq_Nil length_drop by (metis linorder_not_le)
    have sz: "length (take m rest) \<le> PICORB_IO_BUF_SIZE" "PICORB_IO_BUF_SIZE \<le> length (b_mem b)"
      "length (b_mem b) \<le> 32767"
      using b m(2) by (auto simp: buf_ok_def)
    define b' where "b' = \<lparr>b_start = 0, b_len = int (length (take m rest)),
                           b_mem = take m rest @ drop (length (take m rest)) (b_mem b)\<rparr>"
    have b': "buf_ok b'" "live b' = take m rest"
      using sz by (auto simp: b'_def buf_ok_def live_def min_def)
    have ci: "copy_into (b_mem b) 0 (take m rest) = Some (b_mem b')"
      using sz by (simp add: copy_into_def b'_def)
    have cs: "c_short (int (length (take m rest))) = int (length (take m rest))"
      using sz by simp
    define s1 where "s1 = s\<lparr>os := k, fptr := (fptr s)\<lparr>eof := (eof (fptr s) \<or> rest = [])\<rparr>\<rparr>"
    have e: "take m rest = [] \<longleftrightarrow> rest = []" using m(3) by auto
    have fill: "io_fill_buf P s = Some (set_buf b' s1)"
    proof -
      have b'': "\<lparr>b_start = 0, b_len = c_short (int (length (take m rest))), b_mem = b_mem b'\<rparr> = b'"
        using cs by (simp add: b'_def)
      have s1: "s1 = (if take m rest = [] then s\<lparr>os := k\<rparr>\<lparr>fptr := (fptr (s\<lparr>os := k\<rparr>))\<lparr>eof := True\<rparr>\<rparr>
                     else s\<lparr>os := k\<rparr>)"
        unfolding e by (auto simp: s1_def)
      show ?thesis
        using False b(1)
        by (simp only: io_fill_buf_def m(1) Let_def option.case prod.case ci bind.bind_lunit
          if_False s1 b'' option.sel)
    qed
    have r0: "rest \<noteq> [] \<Longrightarrow> \<not> eof (fptr s)" using r st by (auto simp: reader_def)
    have "drop (offset k) (content k) = drop (min m (length rest)) rest"
      by (simp add: m(4,5) rest_def add.commute)
    also have "\<dots> = drop m rest" by (simp add: min_def)
    finally have "drop (offset k) (content k) = drop m rest" .
    then have st': "stream content offset (set_buf b' s1) = rest"
      by (simp add: stream_def io_simps b' s1_def)
    have pos: "position offset (set_buf b' s1) = position offset s"
      by (simp add: position_def io_simps b' s1_def m(5) p l min.commute)
    have "same_io s (set_buf b' s1)" by (simp add: same_io_def set_buf_def s1_def)
    moreover have "reader P content offset (set_buf b' s1)"
      using r b' st' r0 st by (auto simp: reader_def set_buf_def s1_def)
    ultimately have "consumes P content offset s 0 (set_buf b' s1)"
      using st st' pos m(4) by (simp add: consumes_def set_buf_def s1_def)
    moreover have "eof (fptr (set_buf b' s1)) \<longleftrightarrow> rest = []"
      using r0 by (auto simp: set_buf_def s1_def)
    ultimately show thesis
      using that [of "set_buf b' s1" b'] fill st b' e m(3) by (simp add: io_simps)
  qed
qed

section \<open>Reading\<close>

lemma consumes_reader: "consumes P content offset s j s' \<Longrightarrow> reader P content offset s'"
  by (simp add: consumes_def)

lemma consumes_stream:
  "consumes P content offset s j s' \<Longrightarrow> stream content offset s' = drop j (stream content offset s)"
  by (simp add: consumes_def)

lemma io_get_read_fptr_ok:
  "reader P content offset s \<Longrightarrow> io_get_read_fptr (VObj i) s = Some (Some (fptr s), s)"
  by (simp add: io_get_read_fptr_def io_get_open_fptr_def io_data_get_ptr_def reader_def)

lemma stream_live:
  "buf (fptr s) = Some b \<Longrightarrow> stream content offset s = live b @ drop (offset (os s)) (content (os s))"
  by (simp add: stream_def pending_def)

lemma cat_all_step:
  assumes "reader P content offset t" "buf (fptr t) = Some b" "buf_ok b"
  obtains b' where "io_buf_cat_all out b = Some (out @ live b, b')"
    "consumes P content offset t (length (live b)) (set_buf b' t)"
    "stream content offset t = live b @ stream content offset (set_buf b' t)"
proof -
  obtain b' where b': "io_buf_cat_all out b = Some (out @ live b, b')" "buf_ok b'" "live b' = []"
    using io_buf_cat_all_ok [OF assms(3)] by metis
  have "consumes P content offset t (length (live b)) (set_buf b' t)"
    by (rule consumes_set_buf [OF assms b'(2)]) (simp_all add: b'(3))
  then show thesis
    using that [OF b'(1)] stream_live [OF assms(2)] consumes_stream by fastforce
qed

lemma cat_step:
  assumes "reader P content offset t" "buf (fptr t) = Some b" "buf_ok b" "n \<le> length (live b)"
  obtains b' where "io_buf_cat out b (int n) = Some (out @ take n (stream content offset t), b')"
    "consumes P content offset t n (set_buf b' t)"
proof -
  have n: "0 \<le> int n" "int n \<le> b_len b" using assms(4) length_live [OF assms(3)] by simp_all
  obtain b' where b': "io_buf_cat out b (int n) = Some (out @ take (nat (int n)) (live b), b')" "buf_ok b'"
    "live b' = drop (nat (int n)) (live b)"
    by (rule io_buf_cat_ok [OF assms(3) n])
  have "consumes P content offset t n (set_buf b' t)"
    by (rule consumes_set_buf [OF assms(1-3) b'(2)]) (simp_all add: b'(3) assms(4))
  then show thesis
    using that b'(1) stream_live [OF assms(2)] assms(4) by simp
qed

lemma io_read_all_ok:
  "reader P content offset s \<Longrightarrow>
     \<exists>s'. io_read_all P out s = Some (out @ stream content offset s, s')
       \<and> consumes P content offset s (length (stream content offset s)) s'"
proof (induction "length (stream content offset s)" arbitrary: s out rule: less_induct)
  case less
  let ?st = "stream content offset"
  obtain t b where t: "io_fill_buf P s = Some t" "consumes P content offset s 0 t"
    "eof (fptr t) \<longleftrightarrow> ?st s = []" "buf (fptr t) = Some b" "buf_ok b" "?st s \<noteq> [] \<longrightarrow> live b \<noteq> []"
    by (rule io_fill_buf_ok [OF less.prems])
  show ?case
  proof (cases "?st s = []")
    case True
    then show ?thesis using t by (subst io_read_all.simps) simp
  next
    case False
    obtain b' where b': "io_buf_cat_all out b = Some (out @ live b, b')"
      "consumes P content offset t (length (live b)) (set_buf b' t)" "?st t = live b @ ?st (set_buf b' t)"
      by (rule cat_all_step [OF consumes_reader [OF t(2)] t(4,5)])
    let ?u = "set_buf b' t"
    have st: "?st s = ?st t" using t(2) by (simp add: consumes_def)
    have "live b \<noteq> []" using t(6) False by blast
    then have "length (?st ?u) < length (?st s)" unfolding st b'(3) by simp
    then obtain v where v: "io_read_all P (out @ live b) ?u = Some ((out @ live b) @ ?st ?u, v)"
      "consumes P content offset ?u (length (?st ?u)) v"
      using less.hyps [of ?u "out @ live b"] consumes_reader [OF b'(2)] by blast
    have "consumes P content offset s (0 + length (live b) + length (?st ?u)) v"
      using t(2) b'(2) v(2) consumes_trans by blast
    moreover have "io_read_all P out s = io_read_all P (out @ live b) ?u"
      by (subst io_read_all.simps) (simp add: t(1,3,4) b'(1) False)
    ultimately show ?thesis
      unfolding v(1) st b'(3) by (intro exI [of _ v]) simp
  qed
qed

lemma io_read_loop_ok:
  assumes "reader P content offset s" "0 < n"
  shows "\<exists>s'. io_read_loop P (int n) out s =
              Some (if out = [] \<and> stream content offset s = [] then VNil
                    else VStr (out @ take n (stream content offset s)), s')
       \<and> consumes P content offset s (min n (length (stream content offset s))) s'"
  using assms
proof (induction "length (stream content offset s)" arbitrary: s out n rule: less_induct)
  case less
  let ?st = "stream content offset"
  obtain t b where t: "io_fill_buf P s = Some t" "consumes P content offset s 0 t"
    "eof (fptr t) \<longleftrightarrow> ?st s = []" "buf (fptr t) = Some b" "buf_ok b" "?st s \<noteq> [] \<longrightarrow> live b \<noteq> []"
    by (rule io_fill_buf_ok [OF less.prems(1)])
  have st: "?st s = ?st t" using t(2) by (simp add: consumes_def)
  have len: "b_len b = int (length (live b))" using length_live [OF t(5)] by simp
  show ?case
  proof (cases "?st s = []")
    case True
    then show ?thesis using t by (subst io_read_loop.simps) simp
  next
    case False
    show ?thesis
    proof (cases "length (live b) < n")
      case True
      obtain b' where b': "io_buf_cat_all out b = Some (out @ live b, b')"
        "consumes P content offset t (length (live b)) (set_buf b' t)" "?st t = live b @ ?st (set_buf b' t)"
        by (rule cat_all_step [OF consumes_reader [OF t(2)] t(4,5)])
      let ?u = "set_buf b' t" and ?m = "n - length (live b)"
      have ne: "live b \<noteq> []" using t(6) False by blast
      then have "length (?st ?u) < length (?st s)" unfolding st b'(3) by simp
      then obtain v where v: "io_read_loop P (int ?m) (out @ live b) ?u =
          Some (VStr ((out @ live b) @ take ?m (?st ?u)), v)"
        "consumes P content offset ?u (min ?m (length (?st ?u))) v"
        using less.hyps [of ?u ?m "out @ live b"] consumes_reader [OF b'(2)] True ne by auto
      have "consumes P content offset s (0 + length (live b) + min ?m (length (?st ?u))) v"
        using t(2) b'(2) v(2) consumes_trans by blast
      moreover have "length (live b) + min ?m (length (?st ?u)) = min n (length (?st s))"
        unfolding st b'(3) using True by simp
      ultimately have c: "consumes P content offset s (min n (length (?st s))) v" by simp
      have "io_read_loop P (int n) out s = io_read_loop P (int ?m) (out @ live b) ?u"
        using True less.prems(2)
        by (subst io_read_loop.simps) (simp add: t(1,3,4) b'(1) False len of_nat_diff)
      moreover have "(out @ live b) @ take ?m (?st ?u) = out @ take n (?st s)"
        unfolding st b'(3) using True by simp
      ultimately show ?thesis
        using c v(1) False by (intro exI [of _ v]) simp
    next
      case nl: False
      obtain b' where b': "io_buf_cat out b (int n) = Some (out @ take n (?st t), b')"
        "consumes P content offset t n (set_buf b' t)"
        using cat_step [OF consumes_reader [OF t(2)] t(4,5), of n out] nl by (metis linorder_not_less)
      have "consumes P content offset s n (set_buf b' t)"
        using consumes_trans [OF t(2) b'(2)] by simp
      moreover have "min n (length (?st s)) = n"
        using nl st stream_live [OF t(4)] by simp
      ultimately show ?thesis
        using nl less.prems(2) st
        by (subst io_read_loop.simps) (simp add: t(1,3,4) b'(1) False False [unfolded st] len)
    qed
  qed
qed

section \<open>Lines\<close>

text \<open>The first line of the bytes, with its separator.\<close>

definition line_of :: "u8 \<Rightarrow> bytes \<Rightarrow> bytes" where
  "line_of c xs = takeWhile (\<lambda>x. x \<noteq> c) xs @ take 1 (dropWhile (\<lambda>x. x \<noteq> c) xs)"

lemma length_takeWhile_in: "c \<in> set xs \<Longrightarrow> Suc (length (takeWhile (\<lambda>x. x \<noteq> c) xs)) \<le> length xs"
  by (induction xs) auto

lemma line_of_append_in: "c \<in> set xs \<Longrightarrow> line_of c (xs @ ys) = take (Suc (length (takeWhile (\<lambda>x. x \<noteq> c) xs))) xs"
  by (induction xs) (auto simp: line_of_def)

lemma line_of_append_notin: "c \<notin> set xs \<Longrightarrow> line_of c (xs @ ys) = xs @ line_of c ys"
  by (simp add: line_of_def takeWhile_append dropWhile_append)

lemma line_of_prefix: "line_of c xs = take (length (line_of c xs)) xs"
  by (induction xs) (auto simp: line_of_def)

lemma line_of_length: "length (line_of c xs) \<le> length xs"
  by (metis length_take line_of_prefix min.cobounded1 nat_le_linear)

lemma line_of_Nil [simp]: "line_of c [] = []"
  by (simp add: line_of_def)

text \<open>The bytes that a call of \<^verbatim>\<open>gets\<close> takes: the line or everything, at most as many as the limit.\<close>

definition gets_len :: "u8 option \<Rightarrow> nat option \<Rightarrow> bytes \<Rightarrow> nat" where
  "gets_len sep limit xs =
     (let n = (case sep of None \<Rightarrow> length xs | Some c \<Rightarrow> length (line_of c xs))
      in case limit of None \<Rightarrow> n | Some l \<Rightarrow> min l n)"

lemma gets_len_le: "gets_len sep limit xs \<le> length xs"
  using line_of_length by (auto simp: gets_len_def Let_def min_def split: option.splits intro: le_trans)

text \<open>The part of \<open>gets_len\<close> that lies in the buffer \<open>xs\<close>, if the call ends there.\<close>

lemma gets_len_found:
  assumes "c \<in> set xs"
  shows "gets_len (Some c) limit (xs @ ys) =
           (let n = Suc (length (takeWhile (\<lambda>x. x \<noteq> c) xs)) in case limit of None \<Rightarrow> n | Some l \<Rightarrow> min l n)"
proof -
  have "length (line_of c (xs @ ys)) = Suc (length (takeWhile (\<lambda>x. x \<noteq> c) xs))"
    using line_of_append_in [OF assms, of ys] length_takeWhile_in [OF assms] by simp
  then show ?thesis by (simp add: gets_len_def)
qed

lemma gets_len_notfound:
  assumes "\<forall>c. sep = Some c \<longrightarrow> c \<notin> set xs"
  shows "gets_len sep limit (xs @ ys) =
           (case limit of
              Some l \<Rightarrow> (if l \<le> length xs then l else length xs + gets_len sep (Some (l - length xs)) ys)
            | None \<Rightarrow> length xs + gets_len sep None ys)"
  using assms line_of_append_notin
  by (auto simp: gets_len_def Let_def min_def split: option.splits)

lemma gets_loop_ok:
  assumes "reader P content offset s" "stream content offset s \<noteq> []" "buf (fptr s) = Some b" "live b \<noteq> []"
    and "\<forall>l. limit = Some l \<longrightarrow> 0 < l"
  shows "\<exists>s'. gets_loop P (map_option (\<lambda>c. [c]) sep) (map_option int limit) out s =
              Some (VStr (out @ take (gets_len sep limit (stream content offset s)) (stream content offset s)), s')
       \<and> consumes P content offset s (gets_len sep limit (stream content offset s)) s'"
  using assms
proof (induction "length (stream content offset s)" arbitrary: s b out limit rule: less_induct)
  case less
  let ?st = "stream content offset" and ?rs = "map_option (\<lambda>c. [c]) sep"
  have bok: "buf_ok b" using less.prems(1,3) by (auto simp: reader_def)
  have len: "b_len b = int (length (live b))" using length_live [OF bok] by simp
  have find: "io_find_index b [c] =
      Some (if c \<in> set (live b) then int (length (takeWhile (\<lambda>x. x \<noteq> c) (live b))) else - 1)" for c
    by (rule io_find_index_byte [OF bok])
  have split: "?st s = live b @ drop (offset (os s)) (content (os s))"
    by (rule stream_live [OF less.prems(3)])
  let ?j = "gets_len sep limit (?st s)"
  have ends: "\<exists>s'. gets_loop P ?rs (map_option int limit) out s = Some (VStr (out @ take ?j (?st s)), s')
      \<and> consumes P content offset s ?j s'"
    if j: "?j \<le> length (live b)"
      and step: "\<And>b'. io_buf_cat out b (int ?j) = Some (out @ take ?j (?st s), b') \<Longrightarrow>
          gets_loop P ?rs (map_option int limit) out s = Some (VStr (out @ take ?j (?st s)), set_buf b' s)"
    using cat_step [OF less.prems(1,3) bok j, of out] step by blast
  show ?case
  proof (cases "\<exists>c. sep = Some c \<and> c \<in> set (live b)")
    case True
    then obtain c where c: "sep = Some c" "c \<in> set (live b)" by blast
    define n where "n = Suc (length (takeWhile (\<lambda>x. x \<noteq> c) (live b)))"
    have n: "n \<le> length (live b)" unfolding n_def by (rule length_takeWhile_in [OF c(2)])
    have j: "?j = (case limit of None \<Rightarrow> n | Some l \<Rightarrow> min l n)"
      unfolding split c(1) gets_len_found [OF c(2)] Let_def n_def ..
    have found: "io_find_index b [c] = Some (int n - 1)" using c(2) by (simp add: find n_def)
    have n0: "0 < n" by (simp add: n_def)
    have less: "(if int l < int n then int l else int n) = int (min l n)" for l by simp
    show ?thesis
    proof (rule ends)
      show "?j \<le> length (live b)" using n unfolding j by (auto split: option.splits)
      show "io_buf_cat out b (int ?j) = Some (out @ take ?j (?st s), b') \<Longrightarrow>
          gets_loop P ?rs (map_option int limit) out s = Some (VStr (out @ take ?j (?st s)), set_buf b' s)" for b'
        using n0 unfolding j unfolding c(1)
        by (cases limit; subst gets_loop.simps) (simp_all add: less.prems(3) found less del: of_nat_less_iff)
    qed
  next
    case False
    then have sep: "\<forall>c. sep = Some c \<longrightarrow> c \<notin> set (live b)" by blast
    have nf: "(case ?rs of None \<Rightarrow> Some None
        | Some r \<Rightarrow> do { i \<leftarrow> io_find_index b r; Some (if 0 \<le> i then Some (i + int (length r)) else None) })
        = Some None"
      using sep by (auto simp: find split: option.splits)
    show ?thesis
    proof (cases "\<exists>l. limit = Some l \<and> l \<le> length (live b)")
      case True
      then obtain l where l: "limit = Some l" "l \<le> length (live b)" by blast
      have j: "?j = l" unfolding split gets_len_notfound [OF sep] using l by simp
      show ?thesis
      proof (rule ends)
        show "?j \<le> length (live b)" using j l by simp
        show "io_buf_cat out b (int ?j) = Some (out @ take ?j (?st s), b') \<Longrightarrow>
            gets_loop P ?rs (map_option int limit) out s = Some (VStr (out @ take ?j (?st s)), set_buf b' s)" for b'
          using l unfolding j by (subst gets_loop.simps) (simp add: less.prems(3) nf len del: case_map_option)
      qed
    next
      case long: False
      obtain b' where b': "io_buf_cat_all out b = Some (out @ live b, b')"
        "consumes P content offset s (length (live b)) (set_buf b' s)" "?st s = live b @ ?st (set_buf b' s)"
        by (rule cat_all_step [OF less.prems(1,3) bok])
      let ?u = "set_buf b' s"
      obtain t d where t: "io_fill_buf P ?u = Some t" "consumes P content offset ?u 0 t"
        "eof (fptr t) \<longleftrightarrow> ?st ?u = []" "buf (fptr t) = Some d" "buf_ok d" "?st ?u \<noteq> [] \<longrightarrow> live d \<noteq> []"
        by (rule io_fill_buf_ok [OF consumes_reader [OF b'(2)]])
      have st: "?st t = ?st ?u" using consumes_stream [OF t(2)] by simp
      have c0: "consumes P content offset s (length (live b)) t"
        using consumes_trans [OF b'(2) t(2)] by simp
      let ?lim = "map_option (\<lambda>l. l - length (live b)) limit"
      have j: "?j = length (live b) + gets_len sep ?lim (?st t)"
        using long unfolding b'(3) gets_len_notfound [OF sep] st
        by (cases limit) (auto simp: not_le)
      have nl: "\<not> (case map_option int limit of None \<Rightarrow> False | Some l \<Rightarrow> l \<le> b_len b)"
        using long by (auto simp: len split: option.splits)
      have lim: "map_option (\<lambda>l. l - b_len b) (map_option int limit) = map_option int ?lim"
        using long by (cases limit) (auto simp: len of_nat_diff)
      show ?thesis
      proof (cases "?st t = []")
        case True
        have "gets_len sep ?lim [] = 0" by (simp add: gets_len_def Let_def split: option.splits)
        then have jl: "?j = length (live b)" using j True by simp
        have "gets_loop P ?rs (map_option int limit) out s = Some (VStr (out @ live b), t)"
          using True st less.prems(4)
          by (subst gets_loop.simps) (simp add: less.prems(3) nf nl b'(1) t(1,3) del: case_map_option)
        then show ?thesis using c0 jl unfolding b'(3) by simp
      next
        case False
        then have ne: "?st ?u \<noteq> []" "live d \<noteq> []" using st t(6) by auto
        have "length (?st t) < length (?st s)" unfolding st b'(3) using less.prems(4) by simp
        moreover have "\<forall>l. ?lim = Some l \<longrightarrow> 0 < l" using long by (cases limit) auto
        ultimately obtain v where v:
          "gets_loop P ?rs (map_option int ?lim) (out @ live b) t =
             Some (VStr ((out @ live b) @ take (gets_len sep ?lim (?st t)) (?st t)), v)"
          "consumes P content offset t (gets_len sep ?lim (?st t)) v"
          using less.hyps [of t d ?lim "out @ live b"] consumes_reader [OF t(2)] False t(4) ne by blast
        have "gets_loop P ?rs (map_option int limit) out s = gets_loop P ?rs (map_option int ?lim) (out @ live b) t"
          by (subst gets_loop.simps) (simp only: less.prems(3) nf nl b'(1) t(1,3) ne lim bind.bind_lunit
            option.case if_False prod.case)
        moreover have "take ?j (?st s) = live b @ take (gets_len sep ?lim (?st t)) (?st t)"
          unfolding j unfolding b'(3) st by simp
        moreover have "consumes P content offset s ?j v"
          unfolding j by (rule consumes_trans [OF c0 v(2)])
        ultimately show ?thesis using v(1) by (intro exI [of _ v]) simp
      qed
    qed
  qed
qed

end
