(* ===== verification/PosixProps.thy ===== *)
theory PosixProps
  imports PosixStream
begin

text \<open>
  The methods of \<^verbatim>\<open>IO\<close> refine an abstract stream of bytes, and on a regular file an abstract file with a
  position, for every sequence of calls and however the operating system cuts the data.
\<close>

section \<open>Refinement of sequences of calls\<close>

primrec run_calls :: "('o \<Rightarrow> 's \<Rightarrow> ('v \<times> 's) option) \<Rightarrow> 'o list \<Rightarrow> 's \<Rightarrow> ('v list \<times> 's) option" where
  "run_calls step [] s = Some ([], s)"
| "run_calls step (c # cs) s = do {
     (v, s) \<leftarrow> step c s;
     (vs, s) \<leftarrow> run_calls step cs s;
     Some (v # vs, s)
   }"

primrec abs_calls :: "('o \<Rightarrow> 'a \<Rightarrow> 'v \<times> 'a) \<Rightarrow> 'o list \<Rightarrow> 'a \<Rightarrow> 'v list \<times> 'a" where
  "abs_calls astep [] a = ([], a)"
| "abs_calls astep (c # cs) a =
     (let (v, a) = astep c a; (vs, a) = abs_calls astep cs a in (v # vs, a))"

primrec calls_ok :: "('o \<Rightarrow> 'a \<Rightarrow> bool) \<Rightarrow> ('o \<Rightarrow> 'a \<Rightarrow> 'v \<times> 'a) \<Rightarrow> 'o list \<Rightarrow> 'a \<Rightarrow> bool" where
  "calls_ok pre astep [] a = True"
| "calls_ok pre astep (c # cs) a = (pre c a \<and> calls_ok pre astep cs (snd (astep c a)))"

text \<open>
  A program whose calls, from states in \<open>inv\<close> that represent \<open>a\<close>, answer like an abstract machine.
\<close>

locale simulation =
  fixes inv :: "'s \<Rightarrow> bool"
    and abs :: "'s \<Rightarrow> 'a"
    and step :: "'o \<Rightarrow> 's \<Rightarrow> ('v \<times> 's) option"
    and astep :: "'o \<Rightarrow> 'a \<Rightarrow> 'v \<times> 'a"
    and pre :: "'o \<Rightarrow> 'a \<Rightarrow> bool"
  assumes step_ok: "inv s \<Longrightarrow> pre c (abs s) \<Longrightarrow>
      \<exists>s'. step c s = Some (fst (astep c (abs s)), s') \<and> inv s' \<and> abs s' = snd (astep c (abs s))"
begin

lemma run_ok:
  assumes "inv s" "calls_ok pre astep cs (abs s)"
  shows "\<exists>s'. run_calls step cs s = Some (fst (abs_calls astep cs (abs s)), s') \<and> inv s'
           \<and> abs s' = snd (abs_calls astep cs (abs s))"
  using assms
proof (induction cs arbitrary: s)
  case (Cons c cs)
  obtain t where t: "step c s = Some (fst (astep c (abs s)), t)" "inv t" "abs t = snd (astep c (abs s))"
    using step_ok [of s c] Cons.prems by auto
  obtain u where u: "run_calls step cs t = Some (fst (abs_calls astep cs (abs t)), u)" "inv u"
    "abs u = snd (abs_calls astep cs (abs t))"
    using Cons.IH [OF t(2)] Cons.prems t(3) by auto
  show ?case
    using t u by (simp add: split_beta Let_def)
qed simp

end

section \<open>Calls that read\<close>

datatype gets_call = GetsLine | GetsNil | GetsSep u8 | GetsSepLimit u8 nat | GetsNilLimit nat | GetsLimit nat

datatype read_call = Read nat | ReadAll | Getbyte | Getc | EofQ | Gets gets_call

definition gets_args :: "gets_call \<Rightarrow> mrb_value list" where
  "gets_args g = (case g of
     GetsLine \<Rightarrow> [] | GetsNil \<Rightarrow> [VNil] | GetsSep c \<Rightarrow> [VStr [c]]
   | GetsSepLimit c l \<Rightarrow> [VStr [c], VInt (int l)] | GetsNilLimit l \<Rightarrow> [VNil, VInt (int l)]
   | GetsLimit l \<Rightarrow> [VInt (int l)])"

definition read_call :: "'k posix \<Rightarrow> read_call \<Rightarrow> 'k io_state \<Rightarrow> 'k io_out" where
  "read_call P c s = (case c of
     Read n \<Rightarrow> c_io_read P [VInt (int n)] s
   | ReadAll \<Rightarrow> c_io_read P [] s
   | Getbyte \<Rightarrow> c_io_getbyte P s
   | Getc \<Rightarrow> c_io_getc P s
   | EofQ \<Rightarrow> c_io_eof_q P s
   | Gets g \<Rightarrow> c_io_gets P mrbc_self (gets_args g) s)"

text \<open>The answer of an abstract stream, and how many bytes the call takes.\<close>

definition gets_sep :: "gets_call \<Rightarrow> u8 option" where
  "gets_sep g = (case g of
     GetsLine \<Rightarrow> Some newline | GetsNil \<Rightarrow> Some newline | GetsSep c \<Rightarrow> Some c | GetsSepLimit c l \<Rightarrow> Some c
   | GetsNilLimit l \<Rightarrow> None | GetsLimit l \<Rightarrow> None)"

definition gets_lim :: "gets_call \<Rightarrow> nat option" where
  "gets_lim g = (case g of
     GetsSepLimit c l \<Rightarrow> Some l | GetsNilLimit l \<Rightarrow> Some l | GetsLimit l \<Rightarrow> Some l | _ \<Rightarrow> None)"

definition read_answer :: "read_call \<Rightarrow> bytes \<Rightarrow> mrb_value \<times> nat" where
  "read_answer c xs = (case c of
     Read n \<Rightarrow> (if xs = [] \<and> 0 < n then VNil else VStr (take n xs), min n (length xs))
   | ReadAll \<Rightarrow> (VStr xs, length xs)
   | Getbyte \<Rightarrow> (case xs of [] \<Rightarrow> (VNil, 0) | x # _ \<Rightarrow> (VInt (uint x), 1))
   | Getc \<Rightarrow> (case xs of [] \<Rightarrow> (VNil, 0) | x # _ \<Rightarrow> (VStr [x], 1))
   | EofQ \<Rightarrow> (if xs = [] then VTrue else VFalse, 0)
   | Gets g \<Rightarrow> (if xs = [] then VNil else VStr (take (gets_len (gets_sep g) (gets_lim g) xs) xs),
               gets_len (gets_sep g) (gets_lim g) xs))"

definition stream_step :: "read_call \<Rightarrow> bytes \<Rightarrow> mrb_value \<times> bytes" where
  "stream_step c xs = (fst (read_answer c xs), drop (snd (read_answer c xs)) xs)"

definition small_limit :: "read_call \<Rightarrow> bool" where
  "small_limit c = (case c of Gets g \<Rightarrow> (case gets_lim g of Some l \<Rightarrow> l < 2 ^ 31 | None \<Rightarrow> True) | _ \<Rightarrow> True)"

lemma c_io_read_ok:
  assumes "reader P content offset s"
  shows "\<exists>s'. c_io_read P [VInt (int n)] s = Some (fst (read_answer (Read n) (stream content offset s)), s')
           \<and> consumes P content offset s (snd (read_answer (Read n) (stream content offset s))) s'"
proof (cases "n = 0")
  case True
  then show ?thesis
    using assms consumes_refl [OF assms]
    by (simp add: c_io_read_def io_get_read_fptr_ok mrbc_self_def opt_arg_def io_reset_outbuf_def read_answer_def)
next
  case False
  then show ?thesis
    using assms io_read_loop_ok [OF assms, of n "[]"]
    by (cases "stream content offset s = []") (auto simp: c_io_read_def io_get_read_fptr_ok mrbc_self_def
        opt_arg_def io_reset_outbuf_def read_answer_def str_data_def)
qed

lemma c_io_read_all_ok:
  assumes "reader P content offset s"
  shows "\<exists>s'. c_io_read P [] s = Some (VStr (stream content offset s), s')
           \<and> consumes P content offset s (length (stream content offset s)) s'"
  using io_read_all_ok [OF assms, of "[]"] assms
  by (auto simp: c_io_read_def io_get_read_fptr_ok mrbc_self_def opt_arg_def io_reset_outbuf_def str_data_def)

text \<open>One byte from the front of a buffer that is not empty.\<close>

lemma shift_one:
  assumes "reader P content offset t" "buf (fptr t) = Some b" "buf_ok b" "live b \<noteq> []"
  obtains b' where "mem_range (b_mem b) (b_start b) 1 = Some [hd (stream content offset t)]"
    "io_buf_shift b 1 = Some b'" "consumes P content offset t 1 (set_buf b' t)"
proof -
  have len: "1 \<le> b_len b" using assms(4) length_live [OF assms(3)] by (cases "live b") auto
  obtain b' where b': "io_buf_shift b 1 = Some b'" "buf_ok b'" "live b' = drop (nat 1) (live b)"
    using io_buf_shift_ok [OF assms(3), of 1] len by auto
  have "mem_range (b_mem b) (b_start b) 1 = Some (take 1 (live b))"
    using assms(3) len by (subst mem_range_eq) (auto simp: buf_ok_def live_def min_def)
  moreover have "take 1 (live b) = [hd (stream content offset t)]"
    using assms(4) stream_live [OF assms(2), of content offset] by (cases "live b") auto
  moreover have "consumes P content offset t 1 (set_buf b' t)"
    using assms(4) by (intro consumes_set_buf [OF assms(1-3) b'(2)]) (auto simp: b'(3) Suc_leI)
  ultimately show thesis using that b'(1) by simp
qed

lemma byte_ok:
  assumes "reader P content offset s"
  shows "\<exists>s'. c_io_getbyte P s = Some (fst (read_answer Getbyte (stream content offset s)), s')
           \<and> consumes P content offset s (snd (read_answer Getbyte (stream content offset s))) s'"
    and "\<exists>s'. c_io_getc P s = Some (fst (read_answer Getc (stream content offset s)), s')
           \<and> consumes P content offset s (snd (read_answer Getc (stream content offset s))) s'"
proof -
  let ?st = "stream content offset"
  obtain t b where t: "io_fill_buf P s = Some t" "consumes P content offset s 0 t"
    "eof (fptr t) \<longleftrightarrow> ?st s = []" "buf (fptr t) = Some b" "buf_ok b" "?st s \<noteq> [] \<longrightarrow> live b \<noteq> []"
    by (rule io_fill_buf_ok [OF assms])
  have st: "?st t = ?st s" using consumes_stream [OF t(2)] by simp
  note defs = c_io_getbyte_def c_io_getc_def io_get_read_fptr_ok [OF assms] mrbc_self_def read_answer_def t(1,3,4)
  have "(\<exists>s'. c_io_getbyte P s = Some (fst (read_answer Getbyte (?st s)), s')
           \<and> consumes P content offset s (snd (read_answer Getbyte (?st s))) s')
      \<and> (\<exists>s'. c_io_getc P s = Some (fst (read_answer Getc (?st s)), s')
           \<and> consumes P content offset s (snd (read_answer Getc (?st s))) s')"
  proof (cases "?st s")
    case Nil
    then show ?thesis using t(2) by (simp add: defs)
  next
    case (Cons x xs)
    obtain b' where b': "mem_range (b_mem b) (b_start b) 1 = Some [hd (?st t)]"
      "io_buf_shift b 1 = Some b'" "consumes P content offset t 1 (set_buf b' t)"
      using shift_one [OF consumes_reader [OF t(2)] t(4,5)] t(6) Cons by auto
    have "consumes P content offset s 1 (set_buf b' t)"
      using consumes_trans [OF t(2) b'(3)] by simp
    then show ?thesis using Cons st by (simp add: defs b')
  qed
  then show "\<exists>s'. c_io_getbyte P s = Some (fst (read_answer Getbyte (?st s)), s')
           \<and> consumes P content offset s (snd (read_answer Getbyte (?st s))) s'"
    and "\<exists>s'. c_io_getc P s = Some (fst (read_answer Getc (?st s)), s')
           \<and> consumes P content offset s (snd (read_answer Getc (?st s))) s'"
    by blast+
qed

lemma c_io_eof_q_ok:
  assumes "reader P content offset s"
  shows "\<exists>s'. c_io_eof_q P s = Some (fst (read_answer EofQ (stream content offset s)), s')
           \<and> consumes P content offset s 0 s'"
proof -
  let ?st = "stream content offset"
  obtain b where b: "buf (fptr s) = Some b" "buf_ok b" using assms by (auto simp: reader_def)
  obtain t d where t: "io_fill_buf P s = Some t" "consumes P content offset s 0 t"
    "eof (fptr t) \<longleftrightarrow> ?st s = []" "buf (fptr t) = Some d"
    by (rule io_fill_buf_ok [OF assms])
  have "eof (fptr s) \<Longrightarrow> ?st s = []" using assms by (simp add: reader_def)
  moreover have "0 < b_len b \<Longrightarrow> ?st s \<noteq> []"
    using length_live [OF b(2)] stream_live [OF b(1), of content offset] by auto
  ultimately show ?thesis
    using b(1) t consumes_refl [OF assms]
    by (auto simp: c_io_eof_q_def io_get_read_fptr_ok [OF assms] mrbc_self_def read_answer_def)
qed

lemma sint_of_nat_small: "l < 2 ^ 31 \<Longrightarrow> sint (word_of_nat l :: u32) = int l"
  using c_int_small [of "int l"] by (simp add: c_int_def)

lemma gets_opts_ok:
  assumes "case gets_lim g of Some l \<Rightarrow> l < 2 ^ 31 | None \<Rightarrow> True"
  shows "\<exists>rs lim. (do { o1 \<leftarrow> gets_argc (gets_args g); Some (rb_then (rb_then o1 gets_limit) gets_rs) })
           = Some (Inr (rs, lim, gets_sep g \<noteq> None, gets_lim g \<noteq> None))
         \<and> rs = (case gets_sep g of None \<Rightarrow> VNil | Some c \<Rightarrow> VStr [c])
         \<and> (\<forall>l. gets_lim g = Some l \<longrightarrow> lim = int l)"
  using assms
  by (cases g) (auto simp: gets_args_def gets_argc_def gets_limit_def gets_rs_def rb_then_def gets_sep_def
      gets_lim_def GET_INT_ARG_def arr_get_def sint_of_nat_small)

lemma c_io_gets_ok:
  assumes r: "reader P content offset s" and small: "small_limit (Gets g)"
  shows "\<exists>s'. c_io_gets P mrbc_self (gets_args g) s = Some (fst (read_answer (Gets g) (stream content offset s)), s')
           \<and> consumes P content offset s (snd (read_answer (Gets g) (stream content offset s))) s'"
proof -
  let ?st = "stream content offset" and ?sep = "gets_sep g" and ?lim = "gets_lim g"
  obtain o1 rs lim where o1: "gets_argc (gets_args g) = Some o1"
    "rb_then (rb_then o1 gets_limit) gets_rs = Inr (rs, lim, ?sep \<noteq> None, ?lim \<noteq> None)"
    and rs: "rs = (case ?sep of None \<Rightarrow> VNil | Some c \<Rightarrow> VStr [c])" and lim: "\<forall>l. ?lim = Some l \<longrightarrow> lim = int l"
    using gets_opts_ok [of g] small by (auto simp: small_limit_def bind_eq_Some_conv)
  have lim': "(if ?lim \<noteq> None then Some lim else None) = map_option int ?lim"
    using lim by (cases ?lim) auto
  have rs': "(if ?sep \<noteq> None then map_option Some (str_data rs) else Some None) = Some (map_option (\<lambda>c. [c]) ?sep)"
    by (auto simp: rs str_data_def split: option.splits)
  have given: "\<not> (rs = VNil \<and> \<not> ?lim \<noteq> None)"
    by (cases g) (auto simp: rs gets_sep_def gets_lim_def)
  obtain t b where t: "io_fill_buf P s = Some t" "consumes P content offset s 0 t"
    "eof (fptr t) \<longleftrightarrow> ?st s = []" "buf (fptr t) = Some b" "buf_ok b" "?st s \<noteq> [] \<longrightarrow> live b \<noteq> []"
    by (rule io_fill_buf_ok [OF r])
  have st: "?st t = ?st s" using consumes_stream [OF t(2)] by simp
  have len0: "gets_len ?sep ?lim [] = 0"
    by (simp add: gets_len_def Let_def split: option.splits)
  have unfold: "c_io_gets P mrbc_self (gets_args g) s =
      (if ?st s = [] then Some (VNil, t)
       else if ?lim \<noteq> None \<and> lim < 0 then None
       else if ?lim \<noteq> None \<and> lim = 0 then Some (VStr [], t)
       else gets_loop P (map_option (\<lambda>c. [c]) ?sep) (map_option int ?lim) [] t)"
    unfolding c_io_gets_def mrbc_self_def io_get_read_fptr_ok [OF r]
    by (simp only: bind.bind_lunit prod.case o1 sum.case given if_False t(1,3) rs' lim')
  show ?thesis
  proof (cases "?st s = []")
    case True
    then show ?thesis using t(2) unfold len0 by (simp add: read_answer_def)
  next
    case False
    show ?thesis
    proof (cases "?lim = Some 0")
      case True
      then have "gets_len ?sep ?lim (?st s) = 0" by (simp add: gets_len_def Let_def)
      then show ?thesis using t(2) unfold False True lim by (simp add: read_answer_def)
    next
      case nz: False
      then have pos: "\<forall>l. ?lim = Some l \<longrightarrow> 0 < l" by (cases ?lim) auto
      obtain v where v: "gets_loop P (map_option (\<lambda>c. [c]) ?sep) (map_option int ?lim) [] t =
          Some (VStr ([] @ take (gets_len ?sep ?lim (?st t)) (?st t)), v)"
        "consumes P content offset t (gets_len ?sep ?lim (?st t)) v"
        using gets_loop_ok [OF consumes_reader [OF t(2)], of b ?lim ?sep "[]"] False st t(4,6) pos by auto
      have "consumes P content offset s (gets_len ?sep ?lim (?st s)) v"
        using consumes_trans [OF t(2) v(2)] st by simp
      moreover have "\<not> (?lim \<noteq> None \<and> lim < 0)" "\<not> (?lim \<noteq> None \<and> lim = 0)"
        using pos lim by auto
      ultimately show ?thesis using unfold v(1) False st by (auto simp: read_answer_def)
    qed
  qed
qed

lemma read_call_ok:
  assumes "reader P content offset s" "small_limit c"
  shows "\<exists>s'. read_call P c s = Some (fst (read_answer c (stream content offset s)), s')
           \<and> consumes P content offset s (snd (read_answer c (stream content offset s))) s'"
proof (cases c)
  case ReadAll
  then show ?thesis using c_io_read_all_ok [OF assms(1)] by (simp add: read_call_def read_answer_def)
next
  case EofQ
  then show ?thesis using c_io_eof_q_ok [OF assms(1)] by (simp add: read_call_def read_answer_def)
qed (use assms c_io_read_ok byte_ok c_io_gets_ok in \<open>auto simp: read_call_def\<close>)

interpretation io_stream: simulation "reader P content offset" "stream content offset" "read_call P"
  stream_step "\<lambda>c _. small_limit c"
  for P :: "'k posix" and content offset
proof
  show "\<exists>s'. read_call P c s = Some (fst (stream_step c (stream content offset s)), s')
          \<and> reader P content offset s' \<and> stream content offset s' = snd (stream_step c (stream content offset s))"
    if "reader P content offset s" "small_limit c" for s c
    using read_call_ok [OF that] by (auto simp: stream_step_def consumes_def)
qed

section \<open>The stream\<close>

lemma calls_ok_const: "\<forall>c \<in> set cs. pre c \<Longrightarrow> calls_ok (\<lambda>c _. pre c) astep cs a"
  by (induction cs arbitrary: a) auto

text \<open>C32: Any sequence of the methods read, getbyte, getc, eof? and gets (without a separator, with a separator
  of one byte, with a limit below 2 GB, or both) returns on every object whose descriptor never fails to read, however
  the operating system cuts the data, and answers exactly like the sequence of bytes that are in the buffer and that
  the descriptor still delivers; the bytes that have not been taken stay, in their order. A separator of several
  bytes can be missed (\<open>gets_split_separator\<close>), and an error that does not go away is never left (\<open>read_error_loops\<close>).\<close>

theorem io_reads_stream:
  assumes "reader P content offset s" and "\<forall>c \<in> set cs. small_limit c"
  shows "\<exists>s'. run_calls (read_call P) cs s
              = Some (fst (abs_calls stream_step cs (stream content offset s)), s')
           \<and> reader P content offset s'
           \<and> stream content offset s' = snd (abs_calls stream_step cs (stream content offset s))"
  using io_stream.run_ok [OF assms(1)] calls_ok_const [OF assms(2)] .

section \<open>Pushing back\<close>

text \<open>C34: ungetc of a string that is not empty succeeds and puts it in front of everything that is still to be
  read: reading as many bytes gives it back and restores the stream. The buffer must not have reported the end of the
  data, must hold at most 32767 bytes together with the string (\<open>ungetc_length_wraps\<close>), and must not have grown
  beyond its usual size or, if that is more, the size that is needed now (\<open>ungetc_shrinks\<close>); it grows if it is too small.\<close>

theorem io_ungetc_restores:
  assumes r: "reader P content offset s" and e: "\<not> eof (fptr s)"
    and n: "length (pending (fptr s)) + length x \<le> 32767" "x \<noteq> []"
    and g: "length (b_mem (the (buf (fptr s)))) \<le> max PICORB_IO_BUF_SIZE (length (pending (fptr s)) + length x)"
  shows "\<exists>t u. c_io_ungetc P [VStr x] s = Some (VNil, t)
           \<and> reader P content offset t \<and> stream content offset t = x @ stream content offset s
           \<and> c_io_read P [VInt (int (length x))] t = Some (VStr x, u)
           \<and> reader P content offset u \<and> stream content offset u = stream content offset s"
proof -
  obtain b where b: "buf (fptr s) = Some b" "buf_ok b" using r by (auto simp: reader_def)
  have len: "b_len b = int (length (live b))" using length_live [OF b(2)] by simp
  obtain m z where m: "ungetc_realloc b (length x) = m" "m = b_mem b @ z" "length m \<le> 32767"
    "length (live b) + length x \<le> length m"
  proof (cases "int (length x) > int PICORB_IO_BUF_SIZE - b_len b")
    case True
    let ?sz = "length (live b) + length x"
    have sz: "nat (b_len b + int (length x)) = ?sz" by (simp add: len nat_add_distrib)
    have "length (b_mem b) \<le> ?sz" using g True b len by (simp add: pending_def)
    then show thesis
      using that [of "b_mem b @ replicate (?sz - length (b_mem b)) 0"] True n(1) b sz
      by (simp add: ungetc_realloc_def pending_def)
  next
    case False
    then show thesis using that [of "b_mem b" "[]"] b(2) len by (simp add: ungetc_realloc_def buf_ok_def)
  qed
  have fits: "length (live b) + length x \<le> length m" "length m \<le> 32767" "length x \<le> 32767"
    "PICORB_IO_BUF_SIZE \<le> length m"
    using m b(2) n(1) by (auto simp: buf_ok_def)
  have d: "mem_range m (b_start b) (b_len b) = Some (live b)"
    using b(2) m(2) by (subst mem_range_eq) (auto simp: buf_ok_def live_def)
  obtain m1 where m1: "copy_into m (length x) (live b) = Some m1"
    "m1 = take (length x) m @ live b @ drop (length x + length (live b)) m"
    using fits(1) by (simp add: copy_into_def add.commute)
  have l1: "length m1 = length m" using fits(1) m1(2) by simp
  obtain m2 where m2: "copy_into m1 0 x = Some m2" "m2 = x @ drop (length x) m1"
    using fits(1) l1 by (simp add: copy_into_def)
  have d1: "drop (length x) m1 = live b @ drop (length x + length (live b)) m"
    using fits(1) m1(2) by simp
  define b2 where "b2 = \<lparr>b_start = 0, b_len = int (length (live b) + length x), b_mem = m2\<rparr>"
  have ok: "buf_ok b2" using fits(1,2,4) l1 m2(2) by (simp add: b2_def buf_ok_def)
  have lv: "live b2 = x @ live b"
    by (simp add: b2_def live_def m2(2) d1 nat_add_distrib min_def flip: of_nat_add)
  let ?t = "set_buf b2 s"
  have cs: "\<lparr>b_start = 0, b_len = c_short (b_len b + int (length x)), b_mem = m2\<rparr> = b2"
    using fits len by (simp add: b2_def)
  have un: "c_io_ungetc P [VStr x] s = Some (VNil, ?t)"
    using fits(3) m1(1) m2(1)
    by (simp add: c_io_ungetc_def mrbc_self_def io_get_read_fptr_ok [OF r] GET_STRING_def arr_get_def str_data_def
        b(1) m(1) d cs)
  have st: "stream content offset ?t = x @ stream content offset s"
    using stream_live [OF b(1), of content offset] by (simp add: stream_def io_simps lv)
  have rt: "reader P content offset ?t" using r e ok by (simp add: reader_def io_simps)
  obtain u where u: "c_io_read P [VInt (int (length x))] ?t = Some (VStr x, u)"
    "consumes P content offset ?t (length x) u"
    using c_io_read_ok [OF rt, of "length x"] st n(2) by (auto simp: read_answer_def)
  show ?thesis
    using un rt st u consumes_stream [OF u(2)] consumes_reader [OF u(2)] by auto
qed

section \<open>An instance\<close>

text \<open>One file of the operating system, given in pieces of at most three bytes; its state is what the file holds
  and the offset.\<close>

definition demo_os :: "(bytes \<times> nat) posix" where
  "demo_os = \<lparr>
     sys_read = (\<lambda>d n (c, p). (Some (take (min n 3) (drop p c)), (c, p + min (min n 3) (length c - p)))),
     sys_pread = (\<lambda>d n off k. (None, k)),
     sys_write = (\<lambda>d x (c, p). (int (length x),
        (if x = [] then c else take p (c @ replicate (p - length c) 0) @ x @ drop (p + length x) c, p + length x))),
     sys_pwrite = (\<lambda>d x off k. (- 1, k)),
     sys_lseek = (\<lambda>d n w (c, p). let q = (if w = 0 then nat n else p + nat n) in (int q, (c, q))),
     sys_isatty = (\<lambda>d k. False),
     sys_open = (\<lambda>path fl m k. (3, k)),
     sys_close = (\<lambda>d k. (0, k)),
     sys_pipe = (\<lambda>k. (None, k)),
     sys_dup2 = (\<lambda>d e k. k),
     sys_fork = (\<lambda>k. (- 1, k)),
     sys_exec = (\<lambda>x k. (False, k)),
     sys_waitpid = (\<lambda>c k. (c, 0, k)),
     sys_getfd = (\<lambda>d k. (0, k)),
     sys_setfd = (\<lambda>d f k. (0, k)),
     sys_select = (\<lambda>m r w e t k. (0, {}, {}, {}, k)),
     sys_errno = (\<lambda>k. 0),
     sys_set_errno = (\<lambda>e k. k),
     WEXITSTATUS = (\<lambda>x. x), FD_CLOEXEC = 1, NOFILE = 64, EINTR = 4, EMFILE = 24, ENFILE = 23, ENOENT = 2\<rparr>"

definition demo_io :: "bytes \<Rightarrow> (bytes \<times> nat) io_state" where
  "demo_io c = \<lparr>fptr = io_init_buf (io_zero\<lparr>fd := 3, fd2 := - 1, readable := True, writable := True\<rparr>),
                os = (c, 0), exc = None, child_status = None\<rparr>"

lemma demo_reads: "reads_from demo_os d fst snd"
  by (auto simp: reads_from_def demo_os_def split_beta)

lemma demo_io_reader:
  "reader demo_os fst snd (demo_io c)" "stream fst snd (demo_io c) = c" "eof (fptr (demo_io c)) = False"
  by (auto simp: reader_def demo_reads demo_io_def io_init_buf_def io_zero_def buf_ok_def live_def pending_def
      stream_def PICORB_IO_BUF_SIZE_def)

theorem io_reads_stream_witness:
  "\<exists>s'. run_calls (read_call demo_os) [Gets GetsLine, EofQ, Getbyte, Read 4, ReadAll, Gets GetsLine]
          (demo_io [72, 105, 10, 116, 104, 101, 114, 101, 33])
        = Some ([VStr [72, 105, 10], VFalse, VInt 116, VStr [104, 101, 114, 101], VStr [33], VNil], s')"
  using io_reads_stream [OF demo_io_reader(1), of "[Gets GetsLine, EofQ, Getbyte, Read 4, ReadAll, Gets GetsLine]"
      "[72, 105, 10, 116, 104, 101, 114, 101, 33]"]
  by (auto simp: demo_io_reader small_limit_def gets_lim_def gets_sep_def stream_step_def read_answer_def
      gets_len_def line_of_def newline_def)

theorem io_ungetc_restores_witness:
  "\<exists>t u. c_io_ungetc demo_os [VStr [1, 2]] (demo_io [3]) = Some (VNil, t)
     \<and> stream fst snd t = [1, 2, 3] \<and> c_io_read demo_os [VInt 2] t = Some (VStr [1, 2], u)
     \<and> stream fst snd u = [3]"
  using io_ungetc_restores [OF demo_io_reader(1), of "[3]" "[1, 2]"] demo_io_reader(2) [of "[3]"]
  by (auto simp: demo_io_reader pending_def demo_io_def io_init_buf_def io_zero_def live_def PICORB_IO_BUF_SIZE_def)

end
