(* ===== verification/PosixRefine.thy ===== *)
theory PosixRefine
  imports PosixProps
begin

text \<open>
  Reading, writing and seeking on a regular file: the object, its buffer and the descriptor together
  are a file with one position.
\<close>

section \<open>Regular files\<close>

text \<open>Writing at a position; a gap behind the end is filled with zeros.\<close>

definition write_at :: "nat \<Rightarrow> bytes \<Rightarrow> bytes \<Rightarrow> bytes" where
  "write_at p x c = (if x = [] then c
     else take p (c @ replicate (p - length c) 0) @ x @ drop (p + length x) c)"

lemma drop_write_at: "p \<le> length c \<Longrightarrow> drop p (write_at p x c) = x @ drop (p + length x) c"
  by (simp add: write_at_def)


definition posix_file_laws :: "'k posix \<Rightarrow> int \<Rightarrow> ('k \<Rightarrow> bytes) \<Rightarrow> ('k \<Rightarrow> nat) \<Rightarrow> bool" where
  "posix_file_laws P d content offset \<longleftrightarrow>
     reads_from P d content offset
   \<and> (\<forall>x k. x \<noteq> [] \<longrightarrow> (\<exists>k'. sys_write P d x k = (int (length x), k')
        \<and> content k' = write_at (offset k) x (content k) \<and> offset k' = offset k + length x))
   \<and> (\<forall>k. \<exists>k'. sys_lseek P d 0 SEEK_CUR k = (int (offset k), k')
        \<and> content k' = content k \<and> offset k' = offset k)
   \<and> (\<forall>n k. \<exists>k'. sys_lseek P d (int n) SEEK_SET k = (int n, k') \<and> content k' = content k \<and> offset k' = n)"

text \<open>The buffer holds what the file has before the offset of the descriptor.\<close>

definition file_io :: "'k posix \<Rightarrow> ('k \<Rightarrow> bytes) \<Rightarrow> ('k \<Rightarrow> nat) \<Rightarrow> 'k io_state \<Rightarrow> bool" where
  "file_io P content offset s \<longleftrightarrow>
     reader P content offset s \<and> posix_file_laws P (fd (fptr s)) content offset
     \<and> writable (fptr s) \<and> fd2 (fptr s) = - 1 \<and> exc s = None \<and> 0 \<le> position offset s
     \<and> stream content offset s = drop (nat (position offset s)) (content (os s))"











text \<open>A relative seek forgets the bytes that have been read ahead, but starts from the offset of the descriptor, which is
  behind them: it lands as much too far as there are bytes in the buffer.\<close>

lemma seek_relative_readahead:
  assumes s: "file_io P content offset s" and n: "n < 2 ^ 31"
    and k: "sys_lseek P (fd (fptr s)) (int n) SEEK_CUR (os s) = (int (offset (os s) + n), k)"
      "offset k = offset (os s) + n" "offset (os s) + n < 2 ^ 31"
  shows "\<exists>s'. c_io_seek P [VInt (int n), VInt SEEK_CUR] s = Some (VInt 0, s')
     \<and> position offset s' = position offset s + int n + int (length (pending (fptr s)))"
proof -
  obtain b where b: "buf (fptr s) = Some b" "buf_ok b" using s by (auto simp: file_io_def reader_def)
  let ?b = "b\<lparr>b_start := 0, b_len := 0\<rparr>"
  let ?u = "s\<lparr>fptr := (fptr s)\<lparr>buf := Some ?b, eof := False\<rparr>, os := k\<rparr>"
  have "0 \<le> fd (fptr s)" "exc s = None" using s by (auto simp: file_io_def reader_def)
  moreover have "int (offset (os s)) + int n \<le> 2147483647" using k(3) by simp
  ultimately have "c_io_seek P [VInt (int n), VInt SEEK_CUR] s = Some (VInt 0, ?u)"
    using b(1) k(1) sint_of_nat_small [OF n]
    by (simp add: c_io_seek_def c_io_sysseek_def io_get_open_fptr_def io_data_get_ptr_def mrbc_self_def
        set_buf_def GET_INT_ARG_def SEEK_CUR_def Let_def)
  moreover have "position offset ?u = int (offset (os s)) + int n"
    using k(2) by (simp add: position_def pending_def live_def)
  ultimately show ?thesis by (auto simp: position_def)
qed



section \<open>The property\<close>





end
