(* ===== verification/PosixSys.thy ===== *)
theory PosixSys
  imports PosixRefine
begin

text \<open>
  Modes, descriptors of child processes, \<^verbatim>\<open>IO.select\<close> and names of directory entries; and what the code
  of \<^verbatim>\<open>picoruby-posix-io\<close> and \<^verbatim>\<open>picoruby-dir\<close> does where it deviates.
\<close>

section \<open>Modes\<close>

text \<open>The access mode is in the two lowest bits, as on Linux, and the other flags do not touch them.\<close>

definition flags_ok :: "open_flags \<Rightarrow> bool" where
  "flags_ok F \<longleftrightarrow> O_RDONLY F = 0 \<and> O_WRONLY F = 1 \<and> O_RDWR F = 2
     \<and> (\<forall>x \<in> snd ` set (mode_bits F). x AND 3 = 0)"

definition valid_mode :: "string \<Rightarrow> bool" where
  "valid_mode m \<longleftrightarrow> (case m of [] \<Rightarrow> False | c # r \<Rightarrow>
     c \<in> {CHR ''r'', CHR ''w'', CHR ''a''} \<and> set r \<subseteq> {CHR ''b'', CHR ''x'', CHR ''+''}
     \<and> (CHR ''x'' \<in> set r \<longrightarrow> c = CHR ''w''))"

text \<open>The integer mode that says the same.\<close>

definition int_mode :: "string \<Rightarrow> int" where
  "int_mode m =
     (if CHR ''+'' \<in> set m then PICORB_O_RDWR else if hd m = CHR ''r'' then PICORB_O_RDONLY else PICORB_O_WRONLY)
     OR (if hd m = CHR ''w'' then PICORB_O_CREAT OR PICORB_O_TRUNC
         else if hd m = CHR ''a'' then PICORB_O_CREAT OR PICORB_O_APPEND else 0)
     OR (if CHR ''b'' \<in> set m then PICORB_O_BINARY else 0)
     OR (if CHR ''x'' \<in> set m then PICORB_O_EXCL else 0)"

lemma access_bits: "flags_ok F \<Longrightarrow> OPEN_ACCESS_MODE_FLAGS F = 3"
  by (simp add: flags_ok_def OPEN_ACCESS_MODE_FLAGS_def)

lemma bit_3: "bit (3 :: int) n \<longleftrightarrow> n < 2"
  using bit_mask_iff [where 'a = int, of 2 n] by (simp add: mask_eq_exp_minus_1)

lemma high_bits: "(x :: int) AND 3 = 0 \<Longrightarrow> n < 2 \<Longrightarrow> \<not> bit x n"
  by (metis bit_0_eq bit_3 bit_and_iff bot_apply bot_bool_def)

lemma flags_high:
  assumes "flags_ok F"
  shows "O_BINARY F AND 3 = 0" "O_EXCL F AND 3 = 0" "O_CREAT F AND 3 = 0" "O_TRUNC F AND 3 = 0"
    "O_APPEND F AND 3 = 0"
  using assms by (auto simp: flags_ok_def mode_bits_def)

lemma modestr_loop_eq:
  assumes F: "flags_ok F"
  shows "modestr_loop F c m flags =
     (if set m \<subseteq> {CHR ''b'', CHR ''x'', CHR ''+''} \<and> (CHR ''x'' \<in> set m \<longrightarrow> c = CHR ''w'')
      then Some ((if CHR ''+'' \<in> set m then (flags AND NOT 3) OR 2 else flags)
                 OR (if CHR ''b'' \<in> set m then O_BINARY F else 0)
                 OR (if CHR ''x'' \<in> set m then O_EXCL F else 0))
      else None)"
proof (induction m arbitrary: flags)
  case (Cons d m)
  have b: "((flags OR O_BINARY F) AND NOT 3) = (flags AND NOT 3) OR O_BINARY F"
    and x: "((flags OR O_EXCL F) AND NOT 3) = (flags AND NOT 3) OR O_EXCL F" for flags
    using high_bits [OF flags_high(1) [OF F]] high_bits [OF flags_high(2) [OF F]]
    by (auto intro!: bit_eqI simp: bit_simps bit_3)
  have p: "(((flags AND NOT 3) OR 2) AND NOT 3) OR 2 = (flags AND NOT 3) OR (2 :: int)" for flags
    by (rule bit_eqI) (auto simp: bit_simps bit_3)
  have rw: "O_RDWR F = 2" using F by (simp add: flags_ok_def)
  note or_ac = or.assoc or.commute or.left_commute or.left_idem
  consider "d = CHR ''b''" | "d = CHR ''x''" | "d = CHR ''+''"
    | "d \<notin> {CHR ''b'', CHR ''x'', CHR ''+''}"
    by blast
  then show ?case
  proof cases
    case 1
    then have "modestr_loop F c (d # m) flags = modestr_loop F c m (flags OR O_BINARY F)" by simp
    then show ?thesis using 1 unfolding Cons.IH b by (simp add: or_ac)
  next
    case 2
    then have "modestr_loop F c (d # m) flags =
        (if c \<noteq> CHR ''w'' then None else modestr_loop F c m (flags OR O_EXCL F))" by simp
    then show ?thesis using 2 unfolding Cons.IH x by (simp add: or_ac)
  next
    case 3
    then have "modestr_loop F c (d # m) flags = modestr_loop F c m ((flags AND NOT 3) OR 2)"
      by (simp add: access_bits [OF F] rw)
    then show ?thesis using 3 unfolding Cons.IH p by simp
  next
    case 4
    then show ?thesis by simp
  qed
qed simp

text \<open>The flags of a mode, as one word.\<close>

definition mode_flags :: "open_flags \<Rightarrow> string \<Rightarrow> int" where
  "mode_flags F m =
     (if CHR ''+'' \<in> set m then 2 else if hd m = CHR ''r'' then 0 else 1)
     OR (if hd m = CHR ''w'' then O_CREAT F OR O_TRUNC F
         else if hd m = CHR ''a'' then O_CREAT F OR O_APPEND F else 0)
     OR (if CHR ''b'' \<in> set m then O_BINARY F else 0)
     OR (if CHR ''x'' \<in> set m then O_EXCL F else 0)"

lemma modestr_flags:
  assumes F: "flags_ok F"
  shows "io_modestr_to_flags F m s =
           (if valid_mode m then (mode_flags F m, s) else (0, mrbc_raise mode_error s))"
proof (cases m)
  case (Cons c r)
  have acc: "O_RDONLY F = 0" "O_WRONLY F = 1" "O_RDWR F = 2" using F by (auto simp: flags_ok_def)
  note high = high_bits [OF flags_high(3) [OF F]] high_bits [OF flags_high(4) [OF F]]
    high_bits [OF flags_high(5) [OF F]]
  have "(1 OR (O_CREAT F OR O_TRUNC F)) AND NOT 3 = O_CREAT F OR O_TRUNC F"
    "(1 OR (O_CREAT F OR O_APPEND F)) AND NOT 3 = O_CREAT F OR O_APPEND F"
    using high by (auto intro!: bit_eqI simp: bit_simps bit_3)
  then show ?thesis
    using Cons by (auto simp: io_modestr_to_flags_def modestr_first_def modestr_loop_eq [OF F] valid_mode_def
        mode_flags_def acc or.assoc or.commute or.left_commute)
qed (simp add: io_modestr_to_flags_def valid_mode_def)

lemma modeint_flags:
  assumes F: "flags_ok F" and m: "valid_mode m"
  shows "io_modeint_to_flags F (int_mode m) s = (mode_flags F m, s)"
proof -
  have acc: "O_RDONLY F = 0" "O_WRONLY F = 1" "O_RDWR F = 2" using F by (auto simp: flags_ok_def)
  obtain c r where "m = c # r" using m by (cases m) (auto simp: valid_mode_def)
  then have hd: "hd m = CHR ''r'' \<or> hd m = CHR ''w'' \<or> hd m = CHR ''a''"
    using m by (auto simp: valid_mode_def)
  let ?i = "int_mode m"
  note cdefs = PICORB_O_RDONLY_def PICORB_O_WRONLY_def PICORB_O_RDWR_def PICORB_O_ACCMODE_def PICORB_O_NONBLOCK_def
    PICORB_O_APPEND_def PICORB_O_SYNC_def PICORB_O_NOFOLLOW_def PICORB_O_CREAT_def PICORB_O_TRUNC_def
    PICORB_O_EXCL_def PICORB_O_NOCTTY_def PICORB_O_DIRECT_def PICORB_O_BINARY_def PICORB_O_SHARE_DELETE_def
    PICORB_O_TMPFILE_def PICORB_O_NOATIME_def PICORB_O_DSYNC_def PICORB_O_RSYNC_def
  have i: "?i = (if CHR ''+'' \<in> set m then 2 else if hd m = CHR ''r'' then 0 else 1)
      + (if hd m = CHR ''w'' then 0xC0 else if hd m = CHR ''a'' then 0x48 else 0)
      + (if CHR ''b'' \<in> set m then 0x800 else 0) + (if CHR ''x'' \<in> set m then 0x100 else 0)"
    by (simp add: int_mode_def cdefs)
  have acc_i: "?i AND PICORB_O_ACCMODE = (if CHR ''+'' \<in> set m then 2 else if hd m = CHR ''r'' then 0 else 1)"
    unfolding i cdefs by simp
  have bits: "?i AND PICORB_O_APPEND \<noteq> 0 \<longleftrightarrow> hd m = CHR ''a''"
    "?i AND PICORB_O_CREAT \<noteq> 0 \<longleftrightarrow> hd m = CHR ''w'' \<or> hd m = CHR ''a''"
    "?i AND PICORB_O_EXCL \<noteq> 0 \<longleftrightarrow> CHR ''x'' \<in> set m"
    "?i AND PICORB_O_TRUNC \<noteq> 0 \<longleftrightarrow> hd m = CHR ''w''"
    "?i AND PICORB_O_BINARY \<noteq> 0 \<longleftrightarrow> CHR ''b'' \<in> set m"
    unfolding i cdefs by simp_all
  have none: "?i AND PICORB_O_NONBLOCK = 0" "?i AND PICORB_O_NOCTTY = 0" "?i AND PICORB_O_SHARE_DELETE = 0"
    "?i AND PICORB_O_SYNC = 0" "?i AND PICORB_O_DSYNC = 0" "?i AND PICORB_O_RSYNC = 0" "?i AND PICORB_O_NOFOLLOW = 0"
    "?i AND PICORB_O_NOATIME = 0" "?i AND PICORB_O_DIRECT = 0" "?i AND PICORB_O_TMPFILE = 0"
    unfolding i cdefs by simp_all
  have acc3: "(let acc = ?i AND PICORB_O_ACCMODE in
      (if acc = PICORB_O_RDONLY then (O_RDONLY F, s) else if acc = PICORB_O_WRONLY then (O_WRONLY F, s)
       else if acc = PICORB_O_RDWR then (O_RDWR F, s) else (0, mrbc_raise mode_error s)))
      = (if CHR ''+'' \<in> set m then 2 else if hd m = CHR ''r'' then 0 else 1, s)"
    unfolding acc_i acc by (simp add: PICORB_O_RDONLY_def PICORB_O_WRONLY_def PICORB_O_RDWR_def)
  show ?thesis
    using acc3 unfolding io_modeint_to_flags_def mode_bits_def foldl.simps prod.case bits none Let_def
    by (simp add: mode_flags_def or.assoc)
      (use hd in \<open>auto simp: or.assoc or.commute or.left_commute\<close>)
qed

lemma mode_flags_access:
  assumes F: "flags_ok F" and m: "valid_mode m"
  shows "OPEN_READABLE_P F (mode_flags F m) \<longleftrightarrow> hd m = CHR ''r'' \<or> CHR ''+'' \<in> set m"
    and "OPEN_WRITABLE_P F (mode_flags F m) \<longleftrightarrow> hd m \<noteq> CHR ''r'' \<or> CHR ''+'' \<in> set m"
proof -
  have acc: "O_RDONLY F = 0" "O_WRONLY F = 1" "O_RDWR F = 2" using F by (auto simp: flags_ok_def)
  have "mode_flags F m AND 3 = (if CHR ''+'' \<in> set m then 2 else if hd m = CHR ''r'' then 0 else 1)"
    by (simp add: mode_flags_def bit.conj_disj_distrib2 flags_high [OF F])
  then show "OPEN_READABLE_P F (mode_flags F m) \<longleftrightarrow> hd m = CHR ''r'' \<or> CHR ''+'' \<in> set m"
    and "OPEN_WRITABLE_P F (mode_flags F m) \<longleftrightarrow> hd m \<noteq> CHR ''r'' \<or> CHR ''+'' \<in> set m"
    by (auto simp: OPEN_READABLE_P_def OPEN_WRITABLE_P_def OPEN_RDONLY_P_def OPEN_WRONLY_P_def OPEN_RDWR_P_def
        access_bits [OF F] acc)
qed

text \<open>A mode string is accepted exactly if it is r, w or a, followed by b, + and, after w, x in any order; then
  it gives the same flags as the integer mode with the corresponding constants, and the stream can be read if
  it starts with r or contains +, and written if it does not start with r or contains +. Any other string raises an
  ArgumentError, with the flags of a read-only stream.\<close>

theorem io_modes:
  assumes "flags_ok F"
  shows "io_mode_to_flags F (VStr x) s =
           Some (if valid_mode (c_chars x) then (mode_flags F (c_chars x), s) else (0, mrbc_raise mode_error s))
       \<and> (valid_mode (c_chars x) \<longrightarrow>
             io_mode_to_flags F (VInt (int_mode (c_chars x))) s = io_mode_to_flags F (VStr x) s
           \<and> (OPEN_READABLE_P F (mode_flags F (c_chars x)) \<longleftrightarrow>
                hd (c_chars x) = CHR ''r'' \<or> CHR ''+'' \<in> set (c_chars x))
           \<and> (OPEN_WRITABLE_P F (mode_flags F (c_chars x)) \<longleftrightarrow>
                hd (c_chars x) \<noteq> CHR ''r'' \<or> CHR ''+'' \<in> set (c_chars x)))"
  using assms by (auto simp: io_mode_to_flags_def modestr_flags modeint_flags mode_flags_access)

definition linux_flags :: open_flags where
  "linux_flags = \<lparr>O_RDONLY = 0, O_WRONLY = 1, O_RDWR = 2, O_APPEND = 0x400, O_CREAT = 0x40, O_EXCL = 0x80,
     O_TRUNC = 0x200, O_NONBLOCK = 0x800, O_NOCTTY = 0x100, O_BINARY = 0, O_SHARE_DELETE = 0, O_SYNC = 0x101000,
     O_DSYNC = 0x1000, O_RSYNC = 0x101000, O_NOFOLLOW = 0x20000, O_NOATIME = 0x40000, O_DIRECT = 0x4000,
     O_TMPFILE = 0x410000, O_CLOEXEC = 0x80000\<rparr>"

lemma linux_flags_ok: "flags_ok linux_flags"
  by (simp add: flags_ok_def linux_flags_def mode_bits_def)

theorem io_modes_witness:
  "io_mode_to_flags linux_flags (VStr [0x77, 0x62, 0x2B]) (demo_io []) = Some (0x242, demo_io [])
   \<and> io_mode_to_flags linux_flags (VInt 0x8C2) (demo_io []) = Some (0x242, demo_io [])
   \<and> io_mode_to_flags linux_flags (VStr [0x72, 0x78]) (demo_io []) = Some (0, mrbc_raise mode_error (demo_io []))"
  using io_modes [OF linux_flags_ok, of "[0x77, 0x62, 0x2B]" "demo_io []"]
    io_modes [OF linux_flags_ok, of "[0x72, 0x78]" "demo_io []"]
  by (simp add: c_chars_def valid_mode_def int_mode_def mode_flags_def linux_flags_def PICORB_O_RDWR_def
      PICORB_O_CREAT_def PICORB_O_TRUNC_def PICORB_O_BINARY_def char_of_def bit_simps)

section \<open>Descriptors\<close>

text \<open>
  \<open>fds\<close> is the set of open descriptors, as POSIX keeps it; the other calls leave it alone. \<^verbatim>\<open>fork\<close> is seen from
  the parent, and \<^verbatim>\<open>waitpid\<close> is not interrupted for ever.
\<close>

definition fd_laws :: "'k posix \<Rightarrow> ('k \<Rightarrow> int set) \<Rightarrow> bool" where
  "fd_laws P fds \<longleftrightarrow>
     (\<forall>d k. fds (snd (sys_close P d k)) = fds k - {d})
   \<and> (\<forall>k. - 1 \<notin> fds k)
   \<and> (\<forall>k a b k'. sys_pipe P k = (Some (a, b), k') \<longrightarrow>
        a \<noteq> b \<and> 0 \<le> a \<and> 0 \<le> b \<and> a \<notin> fds k \<and> b \<notin> fds k \<and> fds k' = {a, b} \<union> fds k)
   \<and> (\<forall>k k'. sys_pipe P k = (None, k') \<longrightarrow> fds k' = fds k)
   \<and> (\<forall>d k. fds (snd (sys_getfd P d k)) = fds k)
   \<and> (\<forall>d e k. fds (snd (sys_setfd P d e k)) = fds k)
   \<and> (\<forall>k. fds (snd (sys_fork P k)) = fds k \<and> fst (sys_fork P k) \<noteq> 0)
   \<and> (\<forall>e k. fds (sys_set_errno P e k) = fds k)
   \<and> (\<forall>c k. fds (snd (snd (sys_waitpid P c k))) = fds k
        \<and> (fst (sys_waitpid P c k) = - 1 \<longrightarrow> sys_errno P (snd (snd (sys_waitpid P c k))) \<noteq> EINTR P))"

lemma fd_lawsD:
  assumes "fd_laws P fds"
  shows "fds (snd (sys_close P d k)) = fds k - {d}" and "- 1 \<notin> fds k"
    and "sys_pipe P k = (Some (a, b), k') \<Longrightarrow>
           a \<noteq> b \<and> 0 \<le> a \<and> 0 \<le> b \<and> a \<notin> fds k \<and> b \<notin> fds k \<and> fds k' = {a, b} \<union> fds k"
    and "sys_pipe P k = (None, k') \<Longrightarrow> fds k' = fds k"
    and "fds (snd (sys_getfd P d k)) = fds k" and "fds (snd (sys_setfd P d e k)) = fds k"
    and "fds (snd (sys_fork P k)) = fds k" and "fst (sys_fork P k) \<noteq> 0"
    and "fds (sys_set_errno P e k) = fds k"
    and "fds (snd (snd (sys_waitpid P c k))) = fds k"
    and "fst (sys_waitpid P c k) = - 1 \<Longrightarrow> sys_errno P (snd (snd (sys_waitpid P c k))) \<noteq> EINTR P"
  using assms by (simp_all add: fd_laws_def)

text \<open>The descriptors of an object.\<close>

definition owned :: "picorb_io \<Rightarrow> int set" where
  "owned f = {fd f, fd2 f} - {- 1}"

lemma fds_raise [simp]: "os (mrbc_raise e s) = os s" "exc (mrbc_raise e s) = Some e" "fptr (mrbc_raise e s) = fptr s"
  by (simp_all add: mrbc_raise_def)

lemma fds_cloexec:
  assumes "fd_laws P fds"
  shows "fds (os (io_fd_cloexec P d s)) = fds (os s)" "exc s \<noteq> None \<Longrightarrow> exc (io_fd_cloexec P d s) \<noteq> None"
proof -
  obtain fl k where g: "sys_getfd P d (os s) = (fl, k)" by fastforce
  have k: "fds k = fds (os s)" using fd_lawsD(5) [OF assms, of d "os s"] g by simp
  obtain r l where e: "sys_setfd P d (if d \<le> 2 then fl AND NOT (FD_CLOEXEC P) else fl OR FD_CLOEXEC P) k = (r, l)"
    by fastforce
  have l: "fds l = fds k" using fd_lawsD(6) [OF assms, of d _ k] e by (metis snd_conv)
  show "fds (os (io_fd_cloexec P d s)) = fds (os s)" "exc s \<noteq> None \<Longrightarrow> exc (io_fd_cloexec P d s) \<noteq> None"
    using g e k l by (auto simp: io_fd_cloexec_def Let_def split: prod.splits)
qed

lemma fds_close:
  assumes "fd_laws P fds"
  shows "fds (os (close_nofail P d s)) = fds (os s) - {d}" "fds (os (close_valid P d s)) = fds (os s) - {d}"
    "exc (close_nofail P d s) = exc s" "exc (close_valid P d s) = exc s"
  using fd_lawsD(1,2) [OF assms] by (auto simp: close_nofail_def close_valid_def)

text \<open>A pipe that is wanted is open and new, or an exception is set; one that is not has no ends.\<close>

definition pipe_made :: "('k \<Rightarrow> int set) \<Rightarrow> bool \<Rightarrow> int \<times> int \<Rightarrow> int set \<Rightarrow> bool \<Rightarrow> bool" where
  "pipe_made fds wanted p A raised \<longleftrightarrow>
     (if fst p = - 1 then snd p = - 1 \<and> (wanted \<longrightarrow> raised)
      else wanted \<and> fst p \<noteq> snd p \<and> 0 \<le> fst p \<and> 0 \<le> snd p \<and> fst p \<notin> A \<and> snd p \<notin> A)"

lemma popen_pipe_r_ok:
  assumes "fd_laws P fds" "popen_pipe_r P wanted s = (p, t)"
  shows "pipe_made fds wanted p (fds (os s)) (exc t \<noteq> None)"
    and "fds (os t) = fds (os s) \<union> ({fst p, snd p} - {- 1})" and "exc s \<noteq> None \<Longrightarrow> exc t \<noteq> None"
proof -
  obtain r k where pp: "sys_pipe P (os s) = (r, k)" by fastforce
  have "pipe_made fds wanted p (fds (os s)) (exc t \<noteq> None)
      \<and> fds (os t) = fds (os s) \<union> ({fst p, snd p} - {- 1}) \<and> (exc s \<noteq> None \<longrightarrow> exc t \<noteq> None)"
  proof (cases wanted)
    case True
    show ?thesis
    proof (cases r)
      case None
      then have "fds k = fds (os s)" using fd_lawsD(4) [OF assms(1)] pp by simp
      let ?t = "io_fd_cloexec P (- 1) (io_fd_cloexec P (- 1) (mrbc_raise (RuntimeError ''pipe failed'') (s\<lparr>os := k\<rparr>)))"
      have pt: "p = (- 1, - 1)" "t = ?t"
        using assms(2) pp None True by (simp_all add: popen_pipe_r_def)
      have "exc ?t \<noteq> None" by (intro fds_cloexec(2) [OF assms(1)]) simp
      then show ?thesis
        using \<open>fds k = fds (os s)\<close> unfolding pt by (simp add: pipe_made_def fds_cloexec(1) [OF assms(1)])
    next
      case (Some ab)
      obtain a b where ab: "ab = (a, b)" by fastforce
      let ?t = "io_fd_cloexec P b (io_fd_cloexec P a (s\<lparr>os := k\<rparr>))"
      have f: "a \<noteq> b" "0 \<le> a" "0 \<le> b" "a \<notin> fds (os s)" "b \<notin> fds (os s)" "fds k = {a, b} \<union> fds (os s)"
        using fd_lawsD(3) [OF assms(1), of "os s"] pp Some ab by simp_all
      have pt: "p = (a, b)" "t = ?t"
        using assms(2) pp Some ab True by (simp_all add: popen_pipe_r_def)
      have "exc s \<noteq> None \<Longrightarrow> exc ?t \<noteq> None" by (intro fds_cloexec(2) [OF assms(1)]) simp
      then show ?thesis
        using f True unfolding pt by (auto simp: pipe_made_def fds_cloexec(1) [OF assms(1)])
    qed
  next
    case False
    then show ?thesis using assms(2) by (auto simp: popen_pipe_r_def pipe_made_def)
  qed
  then show "pipe_made fds wanted p (fds (os s)) (exc t \<noteq> None)"
    and "fds (os t) = fds (os s) \<union> ({fst p, snd p} - {- 1})" and "exc s \<noteq> None \<Longrightarrow> exc t \<noteq> None"
    by simp_all
qed

lemma popen_pipe_w_ok:
  assumes L: "fd_laws P fds" and w: "popen_pipe_w P wanted pr s = (p, t)"
  shows "pipe_made fds wanted p (fds (os s)) (exc t \<noteq> None)"
    and "fds (os t) = fds (os s) \<union> ({fst p, snd p} - {- 1})
         \<or> fds (os t) = fds (os s) - {fst pr, snd pr} \<and> p = (- 1, - 1) \<and> exc t \<noteq> None"
    and "exc s \<noteq> None \<Longrightarrow> exc t \<noteq> None"
proof -
  obtain r k where pp: "sys_pipe P (os s) = (r, k)" by fastforce
  have "pipe_made fds wanted p (fds (os s)) (exc t \<noteq> None)
      \<and> (fds (os t) = fds (os s) \<union> ({fst p, snd p} - {- 1})
         \<or> fds (os t) = fds (os s) - {fst pr, snd pr} \<and> p = (- 1, - 1) \<and> exc t \<noteq> None)
      \<and> (exc s \<noteq> None \<longrightarrow> exc t \<noteq> None)"
  proof (cases wanted)
    case True
    show ?thesis
    proof (cases r)
      case None
      then have k: "fds k = fds (os s)" using fd_lawsD(4) [OF L] pp by simp
      let ?c = "mrbc_raise (RuntimeError ''pipe failed'')
        (close_valid P (snd pr) (close_valid P (fst pr) (s\<lparr>os := k\<rparr>)))"
      let ?t = "io_fd_cloexec P (- 1) (io_fd_cloexec P (- 1) ?c)"
      have pt: "p = (- 1, - 1)" "t = ?t"
        using w pp None True by (simp_all add: popen_pipe_w_def)
      have "exc ?t \<noteq> None" by (intro fds_cloexec(2) [OF L]) simp
      then show ?thesis
        using k unfolding pt by (auto simp: pipe_made_def fds_cloexec(1) [OF L] fds_close [OF L])
    next
      case (Some ab)
      obtain a b where ab: "ab = (a, b)" by fastforce
      let ?t = "io_fd_cloexec P b (io_fd_cloexec P a (s\<lparr>os := k\<rparr>))"
      have f: "a \<noteq> b" "0 \<le> a" "0 \<le> b" "a \<notin> fds (os s)" "b \<notin> fds (os s)" "fds k = {a, b} \<union> fds (os s)"
        using fd_lawsD(3) [OF L, of "os s"] pp Some ab by simp_all
      have pt: "p = (a, b)" "t = ?t"
        using w pp Some ab True by (simp_all add: popen_pipe_w_def)
      have "exc s \<noteq> None \<Longrightarrow> exc ?t \<noteq> None" by (intro fds_cloexec(2) [OF L]) simp
      then show ?thesis
        using f True unfolding pt by (auto simp: pipe_made_def fds_cloexec(1) [OF L])
    qed
  next
    case False
    then show ?thesis using w by (auto simp: popen_pipe_w_def pipe_made_def)
  qed
  then show "pipe_made fds wanted p (fds (os s)) (exc t \<noteq> None)"
    and "fds (os t) = fds (os s) \<union> ({fst p, snd p} - {- 1})
         \<or> fds (os t) = fds (os s) - {fst pr, snd pr} \<and> p = (- 1, - 1) \<and> exc t \<noteq> None"
    and "exc s \<noteq> None \<Longrightarrow> exc t \<noteq> None"
    by simp_all
qed

text \<open>Modes and redirections do not touch the operating system; an exception stays.\<close>

lemma foldl_access:
  "\<forall>x \<in> snd ` set l. x AND 3 = 0 \<Longrightarrow>
     (foldl (\<lambda>f (p, fl). if i AND p \<noteq> (0::int) then f OR fl else f) a l) AND 3 = a AND (3 :: int)"
  by (induction l arbitrary: a) (auto simp: bit.conj_disj_distrib2)

lemma io_mode_to_flags_ok:
  assumes F: "flags_ok F" and m: "io_mode_to_flags F mode s = Some (flags, t)"
  shows "os t = os s" "exc s \<noteq> None \<Longrightarrow> exc t \<noteq> None"
    and "exc t = None \<Longrightarrow> flags AND 3 \<in> {0, 1, 2}"
proof -
  have acc: "O_RDONLY F = 0" "O_WRONLY F = 1" "O_RDWR F = 2" using F by (auto simp: flags_ok_def)
  have mf: "mode_flags F x AND 3 \<in> {0, 1, 2}" for x
    by (simp add: mode_flags_def bit.conj_disj_distrib2 flags_high [OF F])
  have mb: "\<forall>x \<in> snd ` set (mode_bits F). x AND 3 = 0" using F by (simp add: flags_ok_def)
  have "os t = os s \<and> (exc s \<noteq> None \<longrightarrow> exc t \<noteq> None) \<and> (exc t = None \<longrightarrow> flags AND 3 \<in> {0, 1, 2})"
  proof (cases mode)
    case (VStr x)
    then show ?thesis using m mf [of "c_chars x"]
      by (auto simp: io_mode_to_flags_def modestr_flags [OF F] split: if_splits)
  next
    case (VInt i)
    then show ?thesis using m
      by (auto simp: io_mode_to_flags_def io_modeint_to_flags_def acc foldl_access [OF mb] Let_def split: if_splits)
  qed (use m acc in \<open>auto simp: io_mode_to_flags_def\<close>)
  then show "os t = os s" "exc s \<noteq> None \<Longrightarrow> exc t \<noteq> None"
    and "exc t = None \<Longrightarrow> flags AND 3 \<in> {0, 1, 2}" by simp_all
qed

lemma option_to_fd_ok:
  assumes "option_to_fd ios v s = Some (d, t)"
  shows "os t = os s \<and> (exc s \<noteq> None \<longrightarrow> exc t \<noteq> None)"
  using assms by (auto simp: option_to_fd_def split: mrb_value.splits option.splits if_splits)

text \<open>The parent keeps one end of each pipe, and nothing else.\<close>

lemma popen_parent_ok:
  assumes L: "fd_laws P fds" and F: "flags_ok F" "flags AND 3 \<in> {0, 1, 2}"
    and r: "pipe_made fds (OPEN_READABLE_P F flags) pr A False"
    and w: "pipe_made fds (OPEN_WRITABLE_P F flags) pw (A \<union> ({fst pr, snd pr} - {- 1})) False"
    and o: "fds (os s) = A \<union> ({fst pr, snd pr} - {- 1}) \<union> ({fst pw, snd pw} - {- 1})"
    and t_def: "t = popen_parent F P flags child pr pw s"
  shows "fds (os t) = A \<union> owned (fptr t)" "owned (fptr t) \<inter> A = {}" "0 \<le> fd (fptr t)"
    "exc t = exc s" "close_fd (fptr t)" "close_fd2 (fptr t)"
    "fd2 (fptr t) = - 1 \<or> 0 \<le> fd2 (fptr t) \<and> fd2 (fptr t) \<noteq> fd (fptr t)"
proof -
  have acc: "O_RDONLY F = 0" "O_WRONLY F = 1" "O_RDWR F = 2" using F by (auto simp: flags_ok_def)
  note op = OPEN_READABLE_P_def OPEN_WRITABLE_P_def OPEN_RDONLY_P_def OPEN_WRONLY_P_def OPEN_RDWR_P_def
    access_bits [OF F(1)] acc
  have "fds (os t) = A \<union> owned (fptr t) \<and> owned (fptr t) \<inter> A = {} \<and> 0 \<le> fd (fptr t) \<and> exc t = exc s
      \<and> close_fd (fptr t) \<and> close_fd2 (fptr t)
      \<and> (fd2 (fptr t) = - 1 \<or> 0 \<le> fd2 (fptr t) \<and> fd2 (fptr t) \<noteq> fd (fptr t))"
  proof -
    have m1: "- 1 \<notin> A" using o fd_lawsD(2) [OF L, of "os s"] by auto
    have al: "close_fd (fptr t)" "close_fd2 (fptr t)" "exc t = exc s"
      by (simp_all add: t_def popen_parent_def io_init_buf_def io_alloc_def fds_close [OF L] split_beta Let_def)
    consider "flags AND 3 = 0" | "flags AND 3 = 1" | "flags AND 3 = 2" using F(2) by blast
    then show ?thesis
    proof cases
      case 1
      then have t: "fd (fptr t) = fst pr" "fd2 (fptr t) = - 1" "fds (os t) = fds (os s) - {snd pr}"
        by (simp_all add: t_def popen_parent_def op fds_close [OF L] io_init_buf_def io_alloc_def)
      have "fst pr \<noteq> snd pr" "0 \<le> fst pr" "0 \<le> snd pr" "fst pr \<notin> A" "snd pr \<notin> A" "pw = (- 1, - 1)"
        using 1 r w by (auto simp: pipe_made_def op prod_eq_iff split: if_splits)
      then show ?thesis using al m1 unfolding t o owned_def by auto
    next
      case 2
      then have t: "fd (fptr t) = snd pw" "fd2 (fptr t) = - 1" "fds (os t) = fds (os s) - {fst pw}"
        by (simp_all add: t_def popen_parent_def op fds_close [OF L] io_init_buf_def io_alloc_def)
      have "fst pw \<noteq> snd pw" "0 \<le> fst pw" "0 \<le> snd pw" "fst pw \<notin> A" "snd pw \<notin> A" "pr = (- 1, - 1)"
        using 2 r w by (auto simp: pipe_made_def op prod_eq_iff split: if_splits)
      then show ?thesis using al m1 unfolding t o owned_def by auto
    next
      case 3
      then have t: "fd (fptr t) = fst pr" "fd2 (fptr t) = snd pw"
        "fds (os t) = fds (os s) - {snd pr} - {fst pw}"
        by (simp_all add: t_def popen_parent_def op fds_close [OF L] io_init_buf_def io_alloc_def)
      have "fst pr \<noteq> snd pr" "0 \<le> fst pr" "0 \<le> snd pr" "fst pr \<notin> A" "snd pr \<notin> A"
        using 3 r by (auto simp: pipe_made_def op split: if_splits)
      moreover have "fst pw \<noteq> snd pw" "0 \<le> fst pw" "0 \<le> snd pw" "fst pw \<notin> A \<union> {fst pr, snd pr}"
        "snd pw \<notin> A \<union> {fst pr, snd pr}"
        using 3 w calculation by (auto simp: pipe_made_def op split: if_splits)
      ultimately show ?thesis using al m1 unfolding t o owned_def by auto
    qed
  qed
  then show "fds (os t) = A \<union> owned (fptr t)" "owned (fptr t) \<inter> A = {}" "0 \<le> fd (fptr t)"
    "exc t = exc s" "close_fd (fptr t)" "close_fd2 (fptr t)"
    "fd2 (fptr t) = - 1 \<or> 0 \<le> fd2 (fptr t) \<and> fd2 (fptr t) \<noteq> fd (fptr t)" by simp_all
qed

lemma waitpid_ok:
  assumes "fd_laws P fds"
  shows "\<exists>r st k'. waitpid_loop P c k = Some (r, st, k') \<and> fds k' = fds k"
proof -
  obtain r st k' where w: "sys_waitpid P c k = (r, st, k')" by (metis prod_cases3)
  have "\<not> (r = - 1 \<and> sys_errno P k' = EINTR P)" "fds k' = fds k"
    using fd_lawsD(10,11) [OF assms, of c k] w by auto
  then show ?thesis using w by (subst waitpid_loop.simps) auto
qed

lemma finalize_ok:
  assumes L: "fd_laws P fds"
  shows "\<exists>e t. finalize_fd P 0 s = (e, t) \<and> fds (os t) = fds (os s) - (if 0 \<le> fd (fptr s) \<and> close_fd (fptr s) then {fd (fptr s)} else {})
           \<and> fptr t = (fptr s)\<lparr>fd := (if 0 \<le> fd (fptr s) then - 1 else fd (fptr s))\<rparr>"
    and "\<exists>e' t. finalize_fd2 P 0 e s = (e', t) \<and> fds (os t) = fds (os s) - (if 0 \<le> fd2 (fptr s) \<and> close_fd2 (fptr s) then {fd2 (fptr s)} else {})
           \<and> fptr t = (fptr s)\<lparr>fd2 := (if 0 \<le> fd2 (fptr s) then - 1 else fd2 (fptr s))\<rparr>"
proof -
  obtain r k where c: "sys_close P (fd (fptr s)) (os s) = (r, k)" by fastforce
  have k: "fds k = fds (os s) - {fd (fptr s)}" using fd_lawsD(1) [OF L, of "fd (fptr s)" "os s"] c by simp
  obtain r2 k2 where c2: "sys_close P (fd2 (fptr s)) (os s) = (r2, k2)" by fastforce
  have k2: "fds k2 = fds (os s) - {fd2 (fptr s)}" using fd_lawsD(1) [OF L, of "fd2 (fptr s)" "os s"] c2 by simp
  show "\<exists>e t. finalize_fd P 0 s = (e, t) \<and> fds (os t) = fds (os s) - (if 0 \<le> fd (fptr s) \<and> close_fd (fptr s) then {fd (fptr s)} else {})
           \<and> fptr t = (fptr s)\<lparr>fd := (if 0 \<le> fd (fptr s) then - 1 else fd (fptr s))\<rparr>"
    by (cases "0 \<le> fd (fptr s)"; cases "close_fd (fptr s)") (simp_all add: finalize_fd_def c k)
  show "\<exists>e' t. finalize_fd2 P 0 e s = (e', t) \<and> fds (os t) = fds (os s) - (if 0 \<le> fd2 (fptr s) \<and> close_fd2 (fptr s) then {fd2 (fptr s)} else {})
           \<and> fptr t = (fptr s)\<lparr>fd2 := (if 0 \<le> fd2 (fptr s) then - 1 else fd2 (fptr s))\<rparr>"
    by (cases "0 \<le> fd2 (fptr s)"; cases "close_fd2 (fptr s)") (simp_all add: finalize_fd2_def c2 k2)
qed

lemma io_close_ok:
  assumes L: "fd_laws P fds" and f: "0 \<le> fd (fptr s)" "close_fd (fptr s)" "close_fd2 (fptr s)"
    "fd2 (fptr s) = - 1 \<or> 0 \<le> fd2 (fptr s)"
  shows "\<exists>u. c_io_close P s = Some (VNil, u) \<and> fds (os u) = fds (os s) - owned (fptr s)
           \<and> fd (fptr u) = - 1 \<and> fd2 (fptr u) = - 1 \<and> buf (fptr u) = None"
proof -
  obtain e1 t1 where t1: "finalize_fd P 0 s = (e1, t1)" "fds (os t1) = fds (os s) - {fd (fptr s)}"
    "fptr t1 = (fptr s)\<lparr>fd := - 1\<rparr>"
  proof -
    have c: "(0 \<le> fd (fptr s)) = True" "close_fd (fptr s) = True" using f by simp_all
    show thesis using finalize_ok(1) [OF L, of s, unfolded c simp_thms if_True] that by blast
  qed
  obtain e2 t2 where t2: "finalize_fd2 P 0 e1 t1 = (e2, t2)"
    "fds (os t2) = fds (os t1) - (if 0 \<le> fd2 (fptr s) then {fd2 (fptr s)} else {})"
    "fptr t2 = (fptr t1)\<lparr>fd2 := - 1\<rparr>"
  proof -
    have c: "fd2 (fptr t1) = fd2 (fptr s)" "close_fd2 (fptr t1) = True" using t1(3) f(3) by simp_all
    obtain e' u where u: "finalize_fd2 P 0 e1 t1 = (e', u)"
      "fds (os u) = fds (os t1) - (if 0 \<le> fd2 (fptr s) then {fd2 (fptr s)} else {})"
      "fptr u = (fptr t1)\<lparr>fd2 := (if 0 \<le> fd2 (fptr s) then - 1 else fd2 (fptr s))\<rparr>"
      using finalize_ok(2) [OF L, where s = t1 and e = e1, unfolded c simp_thms] by blast
    have "(if 0 \<le> fd2 (fptr s) then - 1 else fd2 (fptr s)) = - 1" using f(4) by auto
    then show thesis using that [OF u(1,2)] u(3) by simp
  qed
  have A: "fds (os t2) = fds (os s) - owned (fptr s)"
  proof -
    have o: "owned (fptr s) = {fd (fptr s)} \<union> (if 0 \<le> fd2 (fptr s) then {fd2 (fptr s)} else {})"
      using f(1) f(4) unfolding owned_def by force
    show ?thesis unfolding t2(2) t1(2) o by blast
  qed
  have fdt: "fd (fptr t2) = - 1" "fd2 (fptr t2) = - 1" using t1(3) t2(3) by simp_all
  obtain t3 where t3: "(if pid (fptr t2) \<noteq> 0
           then do {
             (r, st, k) \<leftarrow> waitpid_loop P (pid (fptr t2)) (os t2);
             let s = t2\<lparr>os := k\<rparr>;
             let s = (if \<not> False \<and> r = pid (fptr t2) then io_set_process_status P st s else s);
             Some (s\<lparr>fptr := (fptr s)\<lparr>pid := 0\<rparr>\<rparr>)
           }
           else Some t2) = Some t3" "fds (os t3) = fds (os t2)" "fd (fptr t3) = - 1" "fd2 (fptr t3) = - 1"
  proof (cases "pid (fptr t2) = 0")
    case True
    then show thesis using that [of t2] fdt by simp
  next
    case False
    obtain r st k where w: "waitpid_loop P (pid (fptr t2)) (os t2) = Some (r, st, k)" "fds k = fds (os t2)"
      using waitpid_ok [OF L] by blast
    let ?s = "if r = pid (fptr t2) then io_set_process_status P st (t2\<lparr>os := k\<rparr>) else t2\<lparr>os := k\<rparr>"
    show thesis
      by (rule that [of "?s\<lparr>fptr := (fptr ?s)\<lparr>pid := 0\<rparr>\<rparr>"])
        (simp_all add: False w fdt io_set_process_status_def)
  qed
  let ?u = "t3\<lparr>fptr := (fptr t3)\<lparr>buf := None\<rparr>\<rparr>"
  have fin: "fptr_finalize P False s = Some (if e2 \<noteq> 0
      then mrbc_raise (RuntimeError ''fptr_finalize failed'') (?u\<lparr>os := sys_set_errno P e2 (os ?u)\<rparr>) else ?u)"
    unfolding fptr_finalize_def if_False Let_def t1(1) t2(1) prod.case
    by (subst t3(1) [unfolded Let_def]) (simp add: Let_def)
  show ?thesis
    using fin f(1) t3(2-4) A fd_lawsD(9) [OF L, of e2 "os t3"]
    by (simp add: c_io_close_def io_get_open_fptr_def io_data_get_ptr_def mrbc_self_def)
qed

lemma popen_closes_all:
  assumes L: "fd_laws P fds"
    and r: "pipe_made fds wr pr A e1" and w: "pipe_made fds ww pw (A \<union> ({fst pr, snd pr} - {- 1})) e2"
    and o: "fds (os s) = A \<union> ({fst pr, snd pr} - {- 1}) \<union> ({fst pw, snd pw} - {- 1})
            \<or> fds (os s) = A \<and> pw = (- 1, - 1)"
    and "- 1 \<notin> A"
  shows "fds (os s) - {fst pr, snd pr, fst pw, snd pw} = A"
proof -
  have "A \<inter> {fst pr, snd pr} = {}" "A \<inter> {fst pw, snd pw} = {}"
    using r w assms(5) by (auto simp: pipe_made_def split: if_splits)
  then show ?thesis using o assms(5) by auto
qed

text \<open>The steps of the method up to \<^verbatim>\<open>fork\<close>: its arguments, and the pipes.\<close>

definition popen_run :: "open_flags \<Rightarrow> 'k posix \<Rightarrow> bytes \<Rightarrow> int \<Rightarrow> int \<times> int \<times> int \<Rightarrow> int \<times> int \<Rightarrow> int \<times> int \<Rightarrow> 'k io_state \<Rightarrow> 'k popen_out" where
  "popen_run F P cmd flags opts pr pw s =
     (if exc s \<noteq> None
      then Returned mrbc_self (close_valid P (snd pw) (close_valid P (fst pw)
             (close_valid P (snd pr) (close_valid P (fst pr) s))))
      else let (child, k) = sys_fork P (os s); s = s\<lparr>os := k\<rparr>
           in if child = 0 then popen_child F P cmd flags opts pr pw s
              else if child = - 1 then Returned VNil (popen_fork_error F P flags pr pw s)
              else Returned mrbc_self (popen_parent F P flags child pr pw s))"

lemma popen_start:
  assumes F: "flags_ok F" and p: "c_io__popen F P ios args s = Some res"
  obtains cmd flags opts t pr u pw w where "os t = os s" "exc t = None \<longrightarrow> flags AND 3 \<in> {0, 1, 2}"
    "popen_pipe_r P (OPEN_READABLE_P F flags) t = (pr, u)" "popen_pipe_w P (OPEN_WRITABLE_P F flags) pr u = (pw, w)"
    "res = popen_run F P cmd flags opts pr pw w"
proof -
  from p obtain x mode a3 a4 a5 flags s1 i3 s2 i4 s3 i5 t where m: "io_mode_to_flags F mode s = Some (flags, s1)"
    and o: "option_to_fd ios a3 s1 = Some (i3, s2)" "option_to_fd ios a4 s2 = Some (i4, s3)"
      "option_to_fd ios a5 s3 = Some (i5, t)"
    and r: "(case popen_pipe_r P (OPEN_READABLE_P F flags) t of (pr, s) \<Rightarrow>
         case popen_pipe_w P (OPEN_WRITABLE_P F flags) pr s of (pw, s) \<Rightarrow>
           Some (popen_run F P (takeWhile (\<lambda>c. c \<noteq> 0) x) flags (i3, i4, i5) pr pw s)) = Some res"
    unfolding c_io__popen_def by (auto simp: bind_eq_Some_conv Let_def popen_run_def)
  obtain pr u where pr: "popen_pipe_r P (OPEN_READABLE_P F flags) t = (pr, u)" by fastforce
  obtain pw w where pw: "popen_pipe_w P (OPEN_WRITABLE_P F flags) pr u = (pw, w)" by fastforce
  have k: "os t = os s" using io_mode_to_flags_ok(1) [OF F m] o [THEN option_to_fd_ok] by simp
  have e: "exc t = None \<longrightarrow> flags AND 3 \<in> {0, 1, 2}"
  proof
    assume "exc t = None"
    then have "exc s1 = None" using o [THEN option_to_fd_ok] by simp
    then show "flags AND 3 \<in> {0, 1, 2}" by (rule io_mode_to_flags_ok(3) [OF F m])
  qed
  have "res = popen_run F P (takeWhile (\<lambda>c. c \<noteq> 0) x) flags (i3, i4, i5) pr pw w"
    using r by (simp add: pr pw)
  then show thesis by (rule that [OF k e pr pw])
qed

lemma popen_pipes_ok:
  assumes L: "fd_laws P fds" and pr: "popen_pipe_r P wr t = (pr, u)" and pw: "popen_pipe_w P ww pr u = (pw, w)"
  shows "pipe_made fds wr pr (fds (os t)) (exc u \<noteq> None)"
    and "pipe_made fds ww pw (fds (os t) \<union> ({fst pr, snd pr} - {- 1})) (exc w \<noteq> None)"
    and "fds (os w) = fds (os t) \<union> ({fst pr, snd pr} - {- 1}) \<union> ({fst pw, snd pw} - {- 1})
         \<or> fds (os w) = fds (os t) \<and> pw = (- 1, - 1) \<and> exc w \<noteq> None"
    and "exc w = None \<Longrightarrow> exc u = None \<and> exc t = None"
proof -
  note r = popen_pipe_r_ok [OF L pr] and q = popen_pipe_w_ok [OF L pw]
  show r1: "pipe_made fds wr pr (fds (os t)) (exc u \<noteq> None)" using r(1) .
  show "pipe_made fds ww pw (fds (os t) \<union> ({fst pr, snd pr} - {- 1})) (exc w \<noteq> None)" using q(1) unfolding r(2) .
  have "fds (os t) \<inter> {fst pr, snd pr} = {}"
    using r1 fd_lawsD(2) [OF L, of "os t"] by (auto simp: pipe_made_def split: if_splits)
  then have "fds (os t) \<union> ({fst pr, snd pr} - {- 1}) - {fst pr, snd pr} = fds (os t)" by blast
  then show "fds (os w) = fds (os t) \<union> ({fst pr, snd pr} - {- 1}) \<union> ({fst pw, snd pw} - {- 1})
         \<or> fds (os w) = fds (os t) \<and> pw = (- 1, - 1) \<and> exc w \<noteq> None"
    using q(2) unfolding r(2) by simp
  show "exc w = None \<Longrightarrow> exc u = None \<and> exc t = None" using q(3) r(3) by blast
qed

lemma popen_fork_error_ok:
  assumes L: "fd_laws P fds" and "pipe_made fds (OPEN_READABLE_P F flags) pr A e1"
    and "pipe_made fds (OPEN_WRITABLE_P F flags) pw B e2"
  shows "exc (popen_fork_error F P flags pr pw s) \<noteq> None"
    and "fds (os (popen_fork_error F P flags pr pw s)) = fds (os s) - {fst pr, snd pr, fst pw, snd pw}"
proof -
  show "exc (popen_fork_error F P flags pr pw s) \<noteq> None" by (simp add: popen_fork_error_def Let_def)
  show "fds (os (popen_fork_error F P flags pr pw s)) = fds (os s) - {fst pr, snd pr, fst pw, snd pw}"
    using assms(2,3) fd_lawsD(2) [OF L, of "os s"] fd_lawsD(9) [OF L]
    by (auto simp: popen_fork_error_def Let_def fds_close [OF L] pipe_made_def split: if_splits)
qed

text \<open>C35: A call of IO._popen by the parent either raises an exception and leaves the set of open descriptors as it
  was, whichever system call failed; or it returns an object that owns exactly the descriptors that have been
  opened meanwhile, and closing this object restores the set.\<close>

theorem popen_no_leak:
  assumes "fd_laws P fds" and "flags_ok F"
    and "c_io__popen F P ios args s = Some res"
  shows "\<exists>v t. res = Returned v t
     \<and> (exc t \<noteq> None \<and> fds (os t) = fds (os s)
        \<or> exc t = None \<and> fds (os t) = fds (os s) \<union> owned (fptr t) \<and> owned (fptr t) \<inter> fds (os s) = {}
          \<and> (\<exists>u. c_io_close P t = Some (VNil, u) \<and> fds (os u) = fds (os s)))"
proof -
  note L = assms(1)
  obtain cmd flags opts t pr u pw w where st: "os t = os s" "exc t = None \<longrightarrow> flags AND 3 \<in> {0, 1, 2}"
    and pr: "popen_pipe_r P (OPEN_READABLE_P F flags) t = (pr, u)"
    and pw: "popen_pipe_w P (OPEN_WRITABLE_P F flags) pr u = (pw, w)"
    and res: "res = popen_run F P cmd flags opts pr pw w"
    by (rule popen_start [OF assms(2,3)]) (rule that)
  define A where "A = fds (os s)"
  note p = popen_pipes_ok [OF L pr pw, unfolded st(1), folded A_def]
  have m1: "- 1 \<notin> A" using fd_lawsD(2) [OF L] by (simp add: A_def)
  show ?thesis
  proof (cases "exc w = None")
    case False
    have "fds (os w) - {fst pr, snd pr, fst pw, snd pw} = A"
    proof (rule popen_closes_all [OF L p(1,2) _ m1])
      show "fds (os w) = A \<union> ({fst pr, snd pr} - {- 1}) \<union> ({fst pw, snd pw} - {- 1})
          \<or> fds (os w) = A \<and> pw = (- 1, - 1)"
        using p(3) by (elim disjE) simp_all
    qed
    moreover have "fds (os w) - {fst pr} - {snd pr} - {fst pw} - {snd pw} =
        fds (os w) - {fst pr, snd pr, fst pw, snd pw}" by blast
    ultimately show ?thesis
      using False unfolding res popen_run_def A_def [symmetric] by (simp add: fds_close [OF L])
  next
    case True
    obtain child k where f: "sys_fork P (os w) = (child, k)" by fastforce
    have k: "fds k = fds (os w)" "child \<noteq> 0" using fd_lawsD(7,8) [OF L, of "os w"] f by simp_all
    let ?s = "w\<lparr>os := k\<rparr>"
    have A7: "fds (os ?s) = A \<union> ({fst pr, snd pr} - {- 1}) \<union> ({fst pw, snd pw} - {- 1})"
      using p(3) True k(1) by simp
    note e = popen_fork_error_ok [OF L p(1,2), of ?s]
    have "fds (os ?s) - {fst pr, snd pr, fst pw, snd pw} = A"
      by (rule popen_closes_all [OF L p(1,2) disjI1 [OF A7] m1])
    then have err: "fds (os (popen_fork_error F P flags pr pw ?s)) = A" unfolding e(2) .
    have fl: "flags AND 3 \<in> {0, 1, 2}" using st(2) p(4) [OF True] by simp
    have "pipe_made fds (OPEN_READABLE_P F flags) pr A False"
      "pipe_made fds (OPEN_WRITABLE_P F flags) pw (A \<union> ({fst pr, snd pr} - {- 1})) False"
      using p(1,2) True p(4) by (simp_all add: pipe_made_def)
    note q = popen_parent_ok [OF L assms(2) fl this A7 refl, of child]
    obtain v where v: "c_io_close P (popen_parent F P flags child pr pw ?s) = Some (VNil, v)" "fds (os v) = A"
      using io_close_ok [OF L q(3,5,6)] q(1,2,7) by blast
    show ?thesis
      using True k(2) e(1) err v q(1,2,4) unfolding res popen_run_def f Let_def prod.case A_def [symmetric]
      by (cases "child = - 1") simp_all
  qed
qed

text \<open>A system where every call fails, and one that hands out the descriptors in order.\<close>

definition no_os :: "'k posix" where
  "no_os = \<lparr>
     sys_read = (\<lambda>d n k. (None, k)), sys_pread = (\<lambda>d n off k. (None, k)),
     sys_write = (\<lambda>d x k. (- 1, k)), sys_pwrite = (\<lambda>d x off k. (- 1, k)),
     sys_lseek = (\<lambda>d n w k. (- 1, k)), sys_isatty = (\<lambda>d k. False), sys_open = (\<lambda>path fl m k. (- 1, k)),
     sys_close = (\<lambda>d k. (- 1, k)), sys_pipe = (\<lambda>k. (None, k)), sys_dup2 = (\<lambda>d e k. k),
     sys_fork = (\<lambda>k. (- 1, k)), sys_exec = (\<lambda>x k. (False, k)), sys_waitpid = (\<lambda>c k. (- 1, 0, k)),
     sys_getfd = (\<lambda>d k. (0, k)), sys_setfd = (\<lambda>d f k. (0, k)),
     sys_select = (\<lambda>m r w e t k. (- 1, {}, {}, {}, k)), sys_errno = (\<lambda>k. 0), sys_set_errno = (\<lambda>e k. k),
     WEXITSTATUS = (\<lambda>x. x), FD_CLOEXEC = 1, NOFILE = 64, EINTR = 4, EMFILE = 24, ENFILE = 23, ENOENT = 2\<rparr>"

definition pipe_os :: "int list posix" where
  "pipe_os = no_os\<lparr>
     sys_close := (\<lambda>d k. (if d \<in> set k then 0 else - 1, removeAll d k)),
     sys_pipe := (\<lambda>k. let n = foldr max k 2 in (Some (n + 1, n + 2), (n + 1) # (n + 2) # k)),
     sys_fork := (\<lambda>k. (100, k)), sys_waitpid := (\<lambda>c k. (c, 0, k))\<rparr>"

definition open_set :: "int list \<Rightarrow> int set" where
  "open_set k = set k - {- 1}"

lemma foldr_max_upper: "2 \<le> foldr max k (2 :: int)" "x \<in> set k \<Longrightarrow> x \<le> foldr max k 2"
  by (induction k) auto

lemma pipe_os_laws: "fd_laws pipe_os open_set"
proof -
  have "foldr max k 2 + i \<notin> set k" "0 \<le> foldr max k 2 + i" if "0 < i" for i and k :: "int list"
    using that foldr_max_upper(1) [of k] foldr_max_upper(2) [of _ k] by fastforce+
  moreover have "2 + foldr max k (2 :: int) \<noteq> 0" "3 + foldr max k (2 :: int) \<noteq> 0" for k
    using foldr_max_upper(1) [of k] by linarith+
  ultimately show ?thesis
    by (auto simp: fd_laws_def pipe_os_def no_os_def open_set_def Let_def)
qed

definition popen_demo :: "int list io_state" where
  "popen_demo = \<lparr>fptr = io_zero, os = [0, 1, 2], exc = None, child_status = None\<rparr>"

lemma popen_demo_run:
  "(case c_io__popen linux_flags pipe_os (\<lambda>_. None) [VStr [0x63, 0x61, 0x74], VStr [0x72, 0x2B], VNil, VNil, VNil] popen_demo
    of Some (Returned v t) \<Rightarrow> v = mrbc_self \<and> exc t = None \<and> fd (fptr t) = 3 \<and> fd2 (fptr t) = 6 \<and> os t = [6, 3, 0, 1, 2] | _ \<Rightarrow> False)"
  by code_simp

theorem popen_no_leak_witness:
  "\<exists>t u. c_io__popen linux_flags pipe_os (\<lambda>_. None) [VStr [0x63, 0x61, 0x74], VStr [0x72, 0x2B], VNil, VNil, VNil]
            popen_demo = Some (Returned mrbc_self t)
     \<and> owned (fptr t) = {3, 6} \<and> open_set (os t) = {0, 1, 2, 3, 6}
     \<and> c_io_close pipe_os t = Some (VNil, u) \<and> open_set (os u) = {0, 1, 2}"
proof -
  obtain v t where t: "c_io__popen linux_flags pipe_os (\<lambda>_. None)
      [VStr [0x63, 0x61, 0x74], VStr [0x72, 0x2B], VNil, VNil, VNil] popen_demo = Some (Returned v t)"
    "v = mrbc_self" "exc t = None" "fd (fptr t) = 3" "fd2 (fptr t) = 6" "os t = [6, 3, 0, 1, 2]"
    using popen_demo_run by (auto split: option.splits popen_out.splits)
  have "open_set (os popen_demo) = {0, 1, 2}" by (auto simp: open_set_def popen_demo_def)
  then show ?thesis
    using popen_no_leak [OF pipe_os_laws linux_flags_ok t(1)] t
    by (auto simp: owned_def open_set_def)
qed

end
