(* ===== verification/PosixSelect.thy ===== *)
theory PosixSelect
  imports PosixSys
begin

text \<open>
  What \<^verbatim>\<open>IO.select\<close> asks the system for, and what it returns.
\<close>

section \<open>Waiting\<close>

text \<open>The sets of descriptors are those of the objects, and the highest one bounds them.\<close>

definition pending_fds :: "picorb_io list \<Rightarrow> int set" where
  "pending_fds fs = fd ` {f \<in> set fs. picorb_io_read_data_pending f}"

definition write_fds :: "picorb_io \<Rightarrow> int set" where
  "write_fds f = (if 0 \<le> fd2 f then {fd f, fd2 f} else {fd f})"

lemma pending_fds_simps [simp]:
  "pending_fds [] = {}"
  "pending_fds (f # fs) = (if picorb_io_read_data_pending f then {fd f} else {}) \<union> pending_fds fs"
  by (auto simp: pending_fds_def)

lemma read_sets_eq:
  "\<forall>f \<in> set fs. fd f < FD_SETSIZE \<Longrightarrow>
     read_sets fs (A, B, m) = (fd ` set fs \<union> A, pending_fds fs \<union> B, fold max (map fd fs) m)"
  by (induction fs arbitrary: A B m) (auto simp: max.commute)

lemma fold_max_upper: "m \<le> fold max l (m :: int)" "d \<in> set l \<Longrightarrow> d \<le> fold max l m"
proof -
  have "m \<le> fold max l m \<and> (\<forall>d \<in> set l. d \<le> fold max l m)" for m
  proof (induction l arbitrary: m)
    case (Cons a l)
    show ?case using Cons [of "max a m"] by auto
  qed simp
  then show "m \<le> fold max l m" "d \<in> set l \<Longrightarrow> d \<le> fold max l m" by blast+
qed

lemma write_sets_Cons:
  "fd f < FD_SETSIZE \<Longrightarrow> fd2 f < FD_SETSIZE \<Longrightarrow>
     write_sets (f # fs) (A, m) = write_sets fs (write_fds f \<union> A, if 0 \<le> fd2 f then max (max m (fd f)) (fd2 f) else max m (fd f))"
  by (simp add: write_fds_def insert_commute)

lemma write_sets_ok:
  "\<forall>f \<in> set fs. fd f < FD_SETSIZE \<and> fd2 f < FD_SETSIZE \<Longrightarrow>
     \<exists>mw. write_sets fs (A, m) = Some ((\<Union>f \<in> set fs. write_fds f) \<union> A, mw) \<and> m \<le> mw
     \<and> (\<forall>f \<in> set fs. \<forall>d \<in> write_fds f. d \<le> mw)"
proof (induction fs arbitrary: A m)
  case (Cons f fs)
  let ?m = "if 0 \<le> fd2 f then max (max m (fd f)) (fd2 f) else max m (fd f)"
  have w: "write_sets (f # fs) (A, m) = write_sets fs (write_fds f \<union> A, ?m)"
    by (rule write_sets_Cons) (use Cons(2) in simp_all)
  obtain mw where IH: "write_sets fs (write_fds f \<union> A, ?m) = Some ((\<Union>f \<in> set fs. write_fds f) \<union> (write_fds f \<union> A), mw)"
    "?m \<le> mw" "\<forall>g \<in> set fs. \<forall>d \<in> write_fds g. d \<le> mw"
    using Cons(1) [of "write_fds f \<union> A" ?m] Cons(2) by auto
  have "m \<le> ?m" "\<forall>d \<in> write_fds f. d \<le> ?m" by (auto simp: write_fds_def)
  then have "m \<le> mw" "\<forall>d \<in> write_fds f. d \<le> mw" using IH(2) by (blast intro: order_trans)+
  moreover have "(\<Union>f \<in> set fs. write_fds f) \<union> (write_fds f \<union> A) = (\<Union>f \<in> set (f # fs). write_fds f) \<union> A" by auto
  ultimately show ?case unfolding w IH(1) using IH(3) by auto
qed simp

lemma ready_read_eq:
  "\<forall>p \<in> set l. 0 \<le> fd (snd p) \<and> fd (snd p) < FD_SETSIZE \<Longrightarrow>
     ready_read A B l = Some (map fst (filter (\<lambda>p. fd (snd p) \<in> A \<union> B) l))"
proof (induction l)
  case (Cons p l)
  then show ?case by (cases p) (simp add: FD_ISSET_def)
qed simp

lemma ready_write_eq:
  "\<forall>p \<in> set l. 0 \<le> fd (snd p) \<and> fd (snd p) < FD_SETSIZE \<and> fd2 (snd p) < FD_SETSIZE \<Longrightarrow>
     ready_write A l = Some (map fst (filter (\<lambda>p. write_fds (snd p) \<inter> A \<noteq> {}) l))"
proof (induction l)
  case (Cons p l)
  then show ?case by (cases p) (auto simp: FD_ISSET_def write_fds_def)
qed simp

lemma select_objs_open: "select_objs ios vs = Some l \<Longrightarrow> \<forall>p \<in> set l. 0 \<le> fd (snd p)"
proof (induction vs arbitrary: l)
  case (Cons v vs)
  then show ?case by (fastforce simp: bind_eq_Some_conv split: if_splits)
qed simp

text \<open>C36: IO.select with two arrays, of readers and of writers, and neither a third array nor a timeout, on objects
  that are open and whose descriptors are below \<^verbatim>\<open>FD_SETSIZE\<close> (the code leaves out a reader or writer beyond), where
  \<^verbatim>\<open>select\<close> does not fail: it waits for nothing when one of the readers has data in its buffer, and otherwise until the
  system reports a descriptor; it asks the system for exactly the descriptors of the objects, both of the writers with
  two, and returns, in the order of the arguments, the readers that are reported or have data in their buffer, and the
  writers with a descriptor that is reported.\<close>

theorem select_ready:
  fixes rl wl :: "(mrb_value \<times> picorb_io) list"
  defines "R \<equiv> fd ` set (map snd rl)" and "W \<equiv> (\<Union>f \<in> set (map snd wl). write_fds f)"
    and "B \<equiv> pending_fds (map snd rl)"
  assumes rl: "select_objs ios rs = Some rl" and wl: "select_objs ios ws = Some wl"
    and "\<forall>f \<in> snd ` set (rl @ wl). fd f < FD_SETSIZE \<and> fd2 f < FD_SETSIZE"
    and "\<And>m. \<forall>d \<in> R \<union> W. d < m \<Longrightarrow>
      sys_select P m (Some R) (Some W) None (if B = {} then None else Some (0, 0)) (os s) = (n, r, w, e, k)"
    and "0 \<le> n"
  shows "c_io_select ft P ios [VArray rs, VArray ws] s =
    Some (if n = 0 \<and> B = {} then VNil
          else VArray [VArray (map fst (filter (\<lambda>p. fd (snd p) \<in> r \<union> B) rl)),
                       VArray (map fst (filter (\<lambda>p. write_fds (snd p) \<inter> w \<noteq> {}) wl)), VArray []],
          s\<lparr>os := k\<rparr>)"
proof -
  obtain m where rd: "read_sets (map snd rl) ({}, {}, 0) = (R, B, m)" "\<forall>d \<in> R. d \<le> m"
    using read_sets_eq [of "map snd rl" "{}" "{}" 0] assms(6) fold_max_upper(2) [of _ "map fd (map snd rl)" 0]
    by (simp add: R_def B_def image_image)
  obtain mw where wr: "write_sets (map snd wl) ({}, m) = Some (W, mw)" "m \<le> mw" "\<forall>d \<in> W. d \<le> mw"
    using write_sets_ok [of "map snd wl" "{}" m] assms(6) unfolding W_def by auto
  have "\<forall>d \<in> R \<union> W. d < mw + 1" using rd(2) wr(2,3) by force
  note sel = assms(7) [OF this]
  have loop: "select_loop P (mw + 1) (Some R) (Some W) None (if B = {} then None else Some (0, 0)) (os s) = Some (n, r, w, e, k)"
    using assms(8) by (subst select_loop.simps) (simp add: sel)
  have rr: "ready_read r B rl = Some (map fst (filter (\<lambda>p. fd (snd p) \<in> r \<union> B) rl))"
    by (rule ready_read_eq) (use select_objs_open [OF rl] assms(6) in auto)
  have ww: "ready_write w wl = Some (map fst (filter (\<lambda>p. write_fds (snd p) \<inter> w \<noteq> {}) wl))"
    by (rule ready_write_eq) (use select_objs_open [OF wl] assms(6) in auto)
  show ?thesis
    using assms(8) loop rr by (cases "B = {}")
      (simp_all add: c_io_select_def opt_arg_def array_arg_def objs_of_def list_of_def rl wl rd(1) wr(1) not_less
        select_result_def ww)
qed

text \<open>The reader 4 has a byte in its buffer, and the system reports the second descriptor of the writer 2.\<close>

definition select_os :: "unit posix" where
  "select_os = no_os\<lparr>sys_select := (\<lambda>m r w e t k. (1, {}, case w of Some A \<Rightarrow> A \<inter> {6} | None \<Rightarrow> {}, {}, k))\<rparr>"

definition select_ios :: "nat \<Rightarrow> picorb_io option" where
  "select_ios i =
     (if i = 4 then Some (io_zero\<lparr>fd := 3, fd2 := - 1, buf := Some \<lparr>b_start = 0, b_len = 1, b_mem = [0]\<rparr>\<rparr>)
      else if i = 2 then Some (io_zero\<lparr>fd := 5, fd2 := 6\<rparr>)
      else if i = 3 then Some (io_zero\<lparr>fd := 7, fd2 := - 1\<rparr>) else None)"

theorem select_ready_witness:
  "c_io_select (\<lambda>_. (0, 0)) select_os select_ios [VArray [VObj 3, VObj 4], VArray [VObj 2]]
     \<lparr>fptr = io_zero, os = (), exc = None, child_status = None\<rparr>
   = Some (VArray [VArray [VObj 4], VArray [VObj 2], VArray []],
           \<lparr>fptr = io_zero, os = (), exc = None, child_status = None\<rparr>)"
proof -
  let ?f = "\<lambda>i. the (select_ios i)"
  have o: "select_objs select_ios [VObj 3, VObj 4] = Some [(VObj 3, ?f 3), (VObj 4, ?f 4)]"
    "select_objs select_ios [VObj 2] = Some [(VObj 2, ?f 2)]"
    by (simp_all add: select_ios_def)
  have p: "pending_fds (map snd [(VObj 3, ?f 3), (VObj 4, ?f 4)]) = {3}"
    by (simp add: select_ios_def picorb_io_read_data_pending_def io_zero_def)
  show ?thesis
    by (rule select_ready [OF o, of select_os "\<lparr>fptr = io_zero, os = (), exc = None, child_status = None\<rparr>" 1 "{}" "{6}" "{}" "()"
        "\<lambda>_. (0, 0)", unfolded p, THEN trans])
      (simp_all add: select_ios_def FD_SETSIZE_def select_os_def write_fds_def io_zero_def)
qed

end
