(* ===== verification/PosixNames.thy ===== *)
theory PosixNames
  imports PosixSys PosixDir
begin

text \<open>
  What \<^verbatim>\<open>Dir#read\<close> and \<^verbatim>\<open>File.readlink\<close> give back: the names that the check of UTF-8 lets through, and the
  target of a link of any length.
\<close>

section \<open>Names of directory entries\<close>

text \<open>The characters that the check lets through, by the pattern of their bytes; surrogates and encodings that are longer
  than necessary are not told apart.\<close>

definition utf8_char :: "bytes \<Rightarrow> bool" where
  "utf8_char x \<longleftrightarrow>
     (case x of
        [] \<Rightarrow> False
      | c # r \<Rightarrow> list_all is_cont r
          \<and> (if length r = 0 then c < 0x80 \<and> (0x20 \<le> c \<or> c \<in> {0x0A, 0x0D, 0x09})
             else if length r = 1 then c AND 0xE0 = 0xC0
             else if length r = 2 then c AND 0xF0 = 0xE0
             else length r = 3 \<and> c AND 0xF8 = 0xF0))"

inductive utf8_text :: "bytes \<Rightarrow> bool" where
  "utf8_text []"
| "utf8_char x \<Longrightarrow> utf8_text y \<Longrightarrow> utf8_text (x @ y)"

text \<open>How many bytes the first one announces.\<close>

definition utf8_len :: "u8 \<Rightarrow> nat" where
  "utf8_len c = (if c < 0x80 then 1 else if c AND 0xE0 = 0xC0 then 2 else if c AND 0xF0 = 0xE0 then 3 else 4)"

lemma masked_bit: "c AND m = v \<Longrightarrow> bit m n \<Longrightarrow> bit c n = bit v n" for c :: u8
  by (auto simp: bit_and_iff)

lemma ascii_bit: "c < 0x80 \<Longrightarrow> \<not> bit c 7" for c :: u8
proof -
  assume "c < 0x80"
  then have "unat c div 128 = 0" by (simp add: word_less_nat_alt)
  then have "\<not> bit (unat c) 7" by (simp add: bit_iff_odd)
  then show ?thesis by (simp add: bit_unsigned_iff)
qed

lemma lead_bits:
  "c AND 0xE0 = 0xC0 \<Longrightarrow> bit c 7 \<and> bit c 6 \<and> \<not> bit c 5"
  "c AND 0xF0 = 0xE0 \<Longrightarrow> bit c 7 \<and> bit c 6 \<and> bit c 5 \<and> \<not> bit c 4"
  "c AND 0xF8 = 0xF0 \<Longrightarrow> bit c 7 \<and> bit c 6 \<and> bit c 5 \<and> bit c 4"
  "is_cont c \<Longrightarrow> bit c 7 \<and> \<not> bit c 6" for c :: u8
  using masked_bit [of c "0xE0" "0xC0"] masked_bit [of c "0xF0" "0xE0"] masked_bit [of c "0xF8" "0xF0"]
    masked_bit [of c "0xC0" "0x80"] by (auto simp: is_cont_def bit_numeral_rec)

lemma utf8_char_len: "utf8_char (c # r) \<Longrightarrow> length r + 1 = utf8_len c"
  using lead_bits(1-3) [of c] ascii_bit [of c]
  by (auto simp: utf8_char_def utf8_len_def not_less [symmetric] split: if_splits)

inductive_cases utf8_textE: "utf8_text x"

lemma utf8_text_Cons:
  "utf8_text (c # r) \<longleftrightarrow> utf8_len c \<le> length (c # r) \<and> utf8_char (take (utf8_len c) (c # r))
     \<and> utf8_text (drop (utf8_len c) (c # r))"
proof
  have nil: "\<not> utf8_char []" by (simp add: utf8_char_def)
  assume "utf8_text (c # r)"
  then obtain x y where xy: "c # r = x @ y" "utf8_char x" "utf8_text y" by (auto elim: utf8_textE)
  then obtain x' where x: "x = c # x'" using nil by (cases x) auto
  then have "length x = utf8_len c" using utf8_char_len xy(2) by fastforce
  then show "utf8_len c \<le> length (c # r) \<and> utf8_char (take (utf8_len c) (c # r))
     \<and> utf8_text (drop (utf8_len c) (c # r))"
    using xy by (metis append_eq_conv_conj length_append le_add1)
next
  assume "utf8_len c \<le> length (c # r) \<and> utf8_char (take (utf8_len c) (c # r))
     \<and> utf8_text (drop (utf8_len c) (c # r))"
  then show "utf8_text (c # r)" by (metis append_take_drop_id utf8_text.intros(2))
qed

lemma nonzero_at_tail:
  "i \<le> j \<Longrightarrow> 0 \<notin> set x \<Longrightarrow> i \<le> length x \<Longrightarrow> nonzero_at (x @ 0 # junk) [i ..< j] = Some (j \<le> length x)"
proof (induction rule: inc_induct)
  case (step i)
  then show ?case
    using nth_mem [of i x] by (auto simp: upt_conv_Cons nth_append le_Suc_eq simp del: nth_mem)
qed simp

lemma cont_at_tail:
  "i \<le> j \<Longrightarrow> j \<le> length x \<Longrightarrow> cont_at (x @ z) [i ..< j] = Some (list_all is_cont (drop i (take j x)))"
proof (induction rule: inc_induct)
  case (step i)
  have "drop i (take j x) = x ! i # drop (Suc i) (take j x)"
    using step by (simp add: Cons_nth_drop_Suc [symmetric])
  then show ?case using step by (simp add: upt_conv_Cons nth_append)
qed simp

lemma tail_ok_eq:
  assumes "0 \<notin> set r" "c \<noteq> 0"
  shows "tail_ok (c # r @ 0 # junk) n = Some (n \<le> length r \<and> list_all is_cont (take n r))"
  using assms nonzero_at_tail [of 1 "Suc n" "c # r" junk] cont_at_tail [of 1 "Suc n" "c # r" "0 # junk"]
  by (auto simp: tail_ok_def simp del: upt_Suc)

lemma is_valid_utf8_eq:
  "0 \<notin> set x \<Longrightarrow> is_valid_utf8 (x @ 0 # junk) = Some (utf8_text x)"
proof (induction x rule: length_induct)
  case (1 x)
  show ?case
  proof (cases x)
    case Nil
    then show ?thesis by (simp add: is_valid_utf8.simps utf8_text.intros(1))
  next
    case (Cons c r)
    have c: "c \<noteq> 0" "0 \<notin> set r" using 1(2) Cons by auto
    have IH: "is_valid_utf8 (drop n r @ 0 # junk) = Some (utf8_text (drop n r))" for n
    proof -
      have "length (drop n r) < length x" "0 \<notin> set (drop n r)"
        using c(2) Cons in_set_dropD [of 0 n r] by auto
      then show ?thesis using 1(1) by blast
    qed
    have dr: "n \<le> length r \<Longrightarrow> drop n (r @ 0 # junk) = drop n r @ 0 # junk" for n by simp
    note tl = tail_ok_eq [OF c(2,1), of junk]
    note bits = lead_bits(1-3) [of c] ascii_bit [of c]
    consider "c < 0x80" | "\<not> c < 0x80" "c AND 0xE0 = 0xC0" | "\<not> c < 0x80" "c AND 0xF0 = 0xE0" "c AND 0xE0 \<noteq> 0xC0"
      | "\<not> c < 0x80" "c AND 0xF8 = 0xF0" "c AND 0xF0 \<noteq> 0xE0" "c AND 0xE0 \<noteq> 0xC0"
      | "\<not> c < 0x80" "c AND 0xF8 \<noteq> 0xF0" "c AND 0xF0 \<noteq> 0xE0" "c AND 0xE0 \<noteq> 0xC0" by blast
    then show ?thesis
    proof cases
      case 1
      then show ?thesis using c IH [of 0]
        by (subst is_valid_utf8.simps)
          (auto simp: Cons utf8_text_Cons utf8_len_def utf8_char_def not_less)
    next
      case 2
      then show ?thesis using c IH [of 1] tl [of 1]
        by (subst is_valid_utf8.simps)
          (auto simp: Cons utf8_text_Cons utf8_len_def utf8_char_def simp del: drop_Suc_Cons)
    next
      case 3
      then show ?thesis using c IH [of 2] tl [of 2]
        by (subst is_valid_utf8.simps) (auto simp: Cons utf8_text_Cons utf8_len_def utf8_char_def)
    next
      case 4
      then show ?thesis using c IH [of 3] tl [of 3]
        by (subst is_valid_utf8.simps) (auto simp: Cons utf8_text_Cons utf8_len_def utf8_char_def)
    next
      case 5
      then show ?thesis using c
        by (subst is_valid_utf8.simps) (auto simp: Cons utf8_text_Cons utf8_len_def utf8_char_def min_def)
    qed
  qed
qed

text \<open>Every text of code points that are not control characters passes, in the encoding of the standard.\<close>

definition utf8_bytes :: "nat \<Rightarrow> bytes" where
  "utf8_bytes n =
     (let tail = (\<lambda>m. 0x80 OR word_of_nat (m mod 64))
      in if n < 0x80 then [word_of_nat n]
         else if n < 0x800 then [0xC0 OR word_of_nat (n div 64), tail n]
         else if n < 0x10000 then [0xE0 OR word_of_nat (n div 64 div 64), tail (n div 64), tail n]
         else [0xF0 OR word_of_nat (n div 64 div 64 div 64), tail (n div 64 div 64), tail (n div 64), tail n])"

lemma small_bit: "m < 2 ^ j \<Longrightarrow> bit (word_of_nat m :: u8) i \<Longrightarrow> i < j"
proof -
  assume a: "m < 2 ^ j" "bit (word_of_nat m :: u8) i"
  have "bit m i" using a(2) by (simp add: bit_of_nat_iff)
  then have "m div 2 ^ i \<noteq> 0" by (metis bit_iff_odd even_zero)
  then have "(2 :: nat) ^ i \<le> m" by (simp add: div_eq_0_iff not_less)
  then have "(2 :: nat) ^ i < 2 ^ j" using a(1) by linarith
  then show "i < j" by (rule power_less_imp_less_exp [rotated]) simp
qed

lemma mask_small:
  assumes "m < 2 ^ j" "\<And>i. i < j \<Longrightarrow> \<not> bit k i"
  shows "(a OR word_of_nat m) AND k = a AND (k :: u8)"
proof (rule bit_eqI)
  fix i
  show "bit ((a OR word_of_nat m) AND k) i = bit (a AND k) i"
    using small_bit [OF assms(1), of i] assms(2) [of i] by (auto simp: bit_and_iff bit_or_iff)
qed

lemma utf8_bytes_char:
  assumes "n < 0x110000" "0x20 \<le> n \<or> n \<in> {0x0A, 0x0D, 0x09}"
  shows "utf8_char (utf8_bytes n)"
proof -
  have low: "\<not> bit (v :: u8) i" if "v AND mask j = 0" "i < j" "j \<le> 8" for i j v
  proof -
    have "bit (v AND mask j) i = bit v i" using that(2,3) by (auto simp: bit_and_iff bit_mask_iff)
    then show ?thesis using that(1) by simp
  qed
  have t: "is_cont (0x80 OR word_of_nat (m mod 64))" for m
    using mask_small [of "m mod 64" 6 "0xC0" "0x80"] low [of "0xC0" 6] by (simp add: is_cont_def mask_numeral)
  consider "n < 0x80" | "\<not> n < 0x80" "n < 0x800" | "\<not> n < 0x800" "n < 0x10000" | "\<not> n < 0x10000" by linarith
  then show ?thesis
  proof cases
    case 1
    have w: "unat (word_of_nat n :: u8) = n" using 1 by (simp add: unat_of_nat)
    have "word_of_nat n < (0x80 :: u8)" "0x20 \<le> n \<Longrightarrow> 0x20 \<le> (word_of_nat n :: u8)"
      using 1 w by (simp_all add: word_less_nat_alt word_le_nat_alt)
    then show ?thesis using 1 assms(2) by (auto simp: utf8_bytes_def utf8_char_def)
  next
    case 2
    then have "(0xC0 OR word_of_nat (n div 64)) AND 0xE0 = (0xC0 :: u8)"
      using mask_small [of "n div 64" 5 "0xE0" "0xC0"] low [of "0xE0" 5] by (simp add: mask_numeral)
    then show ?thesis using 2 t by (simp add: utf8_bytes_def utf8_char_def)
  next
    case 3
    then have "(0xE0 OR word_of_nat (n div 64 div 64)) AND 0xF0 = (0xE0 :: u8)"
      using mask_small [of "n div 64 div 64" 4 "0xF0" "0xE0"] low [of "0xF0" 4] by (simp add: mask_numeral)
    then show ?thesis using 3 t by (simp add: utf8_bytes_def utf8_char_def Let_def)
  next
    case 4
    then have "(0xF0 OR word_of_nat (n div 64 div 64 div 64)) AND 0xF8 = (0xF0 :: u8)"
      using assms(1) mask_small [of "n div 64 div 64 div 64" 3 "0xF8" "0xF0"] low [of "0xF8" 3]
      by (simp add: mask_numeral)
    then show ?thesis using 4 t by (simp add: utf8_bytes_def utf8_char_def Let_def)
  qed
qed

lemma utf8_bytes_text:
  "list_all (\<lambda>n. n < 0x110000 \<and> (0x20 \<le> n \<or> n \<in> {0x0A, 0x0D, 0x09})) ns \<Longrightarrow> utf8_text (concat (map utf8_bytes ns))"
  by (induction ns) (auto intro: utf8_text.intros utf8_bytes_char)

text \<open>C37: Dir#read gives the name of the next entry as it is if it has 1 to 255 bytes and is a sequence of characters
  whose bytes have the patterns of UTF-8 and that are none of the control characters below \<open>0x20\<close> other than tab, line
  feed and carriage return; it raises an exception for every other name; the check never reads behind the NUL.\<close>

theorem dir_read_names:
  assumes "fs_readdir Q d (sys_set_errno P 0 (os s)) = (Some name, k)" "0 \<notin> set name"
  shows "c_dir_read P Q (Some d) s =
    Some (if name = [] \<or> 256 \<le> length name
          then (mrbc_self, mrbc_raise (RuntimeError ''invalid directory entry'') (s\<lparr>os := k\<rparr>))
          else if utf8_text name then (VStr name, s\<lparr>os := k\<rparr>)
          else (mrbc_self, mrbc_raise (RuntimeError ''invalid character encoding in directory entry'') (s\<lparr>os := k\<rparr>)))"
proof (cases "name = [] \<or> 256 \<le> length name")
  case True
  then show ?thesis using assms(1) by (auto simp: c_dir_read_def)
next
  case False
  then have l: "take 255 name = name" "replicate (256 - length name) (0 :: u8) = 0 # replicate (255 - length name) 0"
    by (auto simp: Suc_diff_le simp flip: replicate_Suc)
  show ?thesis
    using False assms(1) is_valid_utf8_eq [OF assms(2), of "replicate (255 - length name) 0"]
    by (simp add: c_dir_read_def l)
qed

section \<open>Symbolic links\<close>

text \<open>File.readlink always returns, with the whole target of the link whatever its length, or with an exception if
  the path is not a link.\<close>

theorem readlink_returns:
  assumes "\<And>n. fs_readlink Q path n (os s) = map_option (take n) target"
    and "RSTRING_CSTR v = Some path"
  shows "c_file_readlink Q [v] s =
    Some (case target of None \<Rightarrow> (mrbc_self, mrbc_raise (RuntimeError ''readlink failed'') s)
          | Some x \<Rightarrow> (VStr x, s))"
proof -
  have "readlink_loop Q path n (os s) = Some target" if "0 < n" for n
  proof (cases target)
    case None
    then show ?thesis by (subst readlink_loop.simps) (simp add: assms(1))
  next
    case (Some x)
    show ?thesis using that
    proof (induction "length x + 1 - n" arbitrary: n rule: less_induct)
      case less
      show ?case
      proof (cases "n \<le> length x")
        case True
        then have "readlink_loop Q path (n * 2) (os s) = Some target" using less by simp
        then show ?thesis using True by (subst readlink_loop.simps) (simp add: assms(1) Some)
      next
        case False
        then show ?thesis by (subst readlink_loop.simps) (simp add: assms(1) Some)
      qed
    qed
  qed
  then show ?thesis by (simp add: c_file_readlink_def CSTR_ARG_def assms(2))
qed

section \<open>Examples\<close>

text \<open>A file system whose state is what is left of one directory, with one link to \<open>target\<close>.\<close>

definition name_fs :: "bytes \<Rightarrow> bytes list posix_fs" where
  "name_fs target = \<lparr>
     fs_umask = (\<lambda>m k. (0, k)), fs_unlink = (\<lambda>p k. (- 1, k)), fs_rename = (\<lambda>p q k. (- 1, k)),
     fs_symlink = (\<lambda>p q k. (- 1, k)), fs_chmod = (\<lambda>p m k. (- 1, k)),
     fs_readlink = (\<lambda>p n k. if p = [0x6C] then Some (take n target) else None),
     fs_dirname = (\<lambda>p. None), fs_basename = (\<lambda>p. (None, p)), fs_realpath = (\<lambda>p k. None),
     fs_getcwd = (\<lambda>n k. (None, k)), fs_home = (\<lambda>k. None), fs_getpwnam = (\<lambda>p k. None),
     fs_fstat = (\<lambda>d k. None), fs_stat = (\<lambda>p k. None), fs_lstat = (\<lambda>p k. None),
     fs_flock = (\<lambda>d m k. (- 1, k)), fs_ftruncate = (\<lambda>d m k. (- 1, k)), fs_opendir = (\<lambda>p k. (None, k)),
     fs_closedir = (\<lambda>d k. (0, k)),
     fs_readdir = (\<lambda>d k. case k of [] \<Rightarrow> (None, []) | x # xs \<Rightarrow> (Some x, xs)),
     fs_rewinddir = (\<lambda>d k. k), fs_seekdir = (\<lambda>d n k. k), fs_telldir = (\<lambda>d k. 0),
     fs_rmdir = (\<lambda>p k. (- 1, k)), fs_mkdir = (\<lambda>p m k. (- 1, k)), fs_chdir = (\<lambda>p k. (- 1, k)),
     fs_chroot = (\<lambda>p k. (- 1, k)), S_ISDIR = (\<lambda>m. False), S_ISREG = (\<lambda>m. False), S_ISFIFO = (\<lambda>m. False),
     S_ISLNK = (\<lambda>m. False), S_ISSOCK = (\<lambda>m. False), EAGAIN = 11, EWOULDBLOCK = 11, ERANGE = 34\<rparr>"

definition name_state :: "bytes list \<Rightarrow> bytes list io_state" where
  "name_state k = \<lparr>fptr = io_zero, os = k, exc = None, child_status = None\<rparr>"

text \<open>A name of an ASCII letter and the character U+00E9, which ends too early in the second one.\<close>

theorem dir_read_names_witness:
  "c_dir_read no_os (name_fs []) (Some 1) (name_state [[0x61, 0xC3, 0xA9]]) = Some (VStr [0x61, 0xC3, 0xA9], name_state [])
   \<and> c_dir_read no_os (name_fs []) (Some 1) (name_state [[0x61, 0xC3]])
      = Some (mrbc_self, mrbc_raise (RuntimeError ''invalid character encoding in directory entry'') (name_state []))"
proof -
  have t: "utf8_text [0x61, 0xC3, 0xA9]" "\<not> utf8_text [0x61, 0xC3]"
    by (simp_all add: utf8_text_Cons utf8_len_def utf8_char_def is_cont_def utf8_text.intros(1))
  have r: "fs_readdir (name_fs []) 1 (sys_set_errno no_os 0 (os (name_state [x]))) = (Some x, [])" for x
    by (simp add: name_fs_def no_os_def name_state_def)
  show ?thesis
    using dir_read_names [OF r, of "[0x61, 0xC3, 0xA9]"] dir_read_names [OF r, of "[0x61, 0xC3]"] t
    by (simp add: name_state_def)
qed

theorem readlink_returns_witness:
  "c_file_readlink (name_fs (replicate 250 0x78)) [VStr [0x6C]] (name_state []) = Some (VStr (replicate 250 0x78), name_state [])
   \<and> c_file_readlink (name_fs []) [VStr [0x6D]] (name_state [])
      = Some (mrbc_self, mrbc_raise (RuntimeError ''readlink failed'') (name_state []))"
  using readlink_returns [of "name_fs (replicate 250 0x78)" "[0x6C]" "name_state []" "Some (replicate 250 0x78)" "VStr [0x6C]"]
    readlink_returns [of "name_fs []" "[0x6D]" "name_state []" None "VStr [0x6D]"]
  by (simp add: name_fs_def RSTRING_CSTR_def str_data_def)

end
