(* ===== verification/PosixFaults.thy ===== *)
theory PosixFaults
  imports PosixSelect PosixNames
begin

text \<open>
  Where the code of \<^verbatim>\<open>picoruby-posix-io\<close> and \<^verbatim>\<open>picoruby-dir\<close> does not do what its methods are for.
\<close>

section \<open>Streams\<close>

text \<open>A method on a closed stream goes on with the null pointer after it has set the exception.\<close>

lemma closed_stream_null:
  assumes "fd (fptr s) < 0"
  shows "c_io_read P args s = None" "c_io_getbyte P s = None" "c_io_gets P mrbc_self args s = None"
    "c_io_pos P s = None" "c_io_fileno s = None" "c_io_close_write P s = None"
  using assms
  by (simp_all add: c_io_read_def c_io_getbyte_def c_io_gets_def c_io_pos_def c_io_fileno_def c_io_close_write_def
      io_get_read_fptr_def io_get_open_fptr_def io_data_get_ptr_def mrbc_self_def)

text \<open>Reading everything from a descriptor that gives an error, and writing to one, does not end.\<close>

lemma read_error_loops:
  assumes "\<And>k. fst (sys_read P d PICORB_IO_BUF_SIZE k) = None" "fd (fptr s) = d"
    "buf (fptr s) = Some \<lparr>b_start = 0, b_len = 0, b_mem = m\<rparr>" "\<not> eof (fptr s)"
  shows "io_read_all P out s = None"
proof -
  let ?bad = "\<lambda>s :: 'a io_state. fd (fptr s) = d \<and> (\<exists>m. buf (fptr s) = Some \<lparr>b_start = 0, b_len = 0, b_mem = m\<rparr>) \<and> \<not> eof (fptr s)"
  have step: "\<not> ?bad s" if IH: "\<And>out s r. f P out s = Some r \<Longrightarrow> \<not> ?bad s"
      and step: "(io_fill_buf P s \<bind> (\<lambda>s. if eof (fptr s) then Some (out, s)
          else buf (fptr s) \<bind> (\<lambda>b. io_buf_cat_all out b \<bind> (\<lambda>(out, b). f P out (set_buf b s))))) = Some r"
    for f s out r
  proof
    assume bad: "?bad s"
    obtain k where k: "sys_read P d PICORB_IO_BUF_SIZE (os s) = (None, k)"
      using assms(1) [of "os s"] by (cases "sys_read P d PICORB_IO_BUF_SIZE (os s)") auto
    have fill: "io_fill_buf P s = Some (mrbc_raise (RuntimeError ''sysread failed'') (s\<lparr>os := k\<rparr>))"
      using bad k by (auto simp: io_fill_buf_def)
    obtain out' where "f P out' (set_buf (the (buf (fptr s))) (mrbc_raise (RuntimeError ''sysread failed'') (s\<lparr>os := k\<rparr>))) = Some r"
      using step bad unfolding fill
      by (auto simp: io_buf_cat_all_def io_buf_reset_def bind_eq_Some_conv)
    from IH [OF this] show False using bad by (auto simp: set_buf_def)
  qed
  have "\<not> ?bad s" if "io_read_all P out s = Some r" for r
  proof -
    let ?p = "\<lambda>((Q, out :: bytes), s) (r :: bytes \<times> 'a io_state). Q = P \<longrightarrow> \<not> ?bad s"
    have "?p ((P, out), s) r"
    proof (rule io_read_all.raw_induct [where Pa = ?p, OF _ that], unfold prod.case, intro impI)
      fix f Q out s r
      assume IH: "\<And>Q out s r. f Q out s = Some r \<Longrightarrow> Q = P \<longrightarrow> \<not> ?bad s"
        and st: "io_fill_buf Q s \<bind> (\<lambda>s. if eof (fptr s) then Some (out, s)
          else buf (fptr s) \<bind> (\<lambda>b. io_buf_cat_all out b \<bind> (\<lambda>(out, b). f Q out (set_buf b s)))) = Some r"
        and Q: "Q = P"
      show "\<not> ?bad s" using IH by (intro step [of f s out r, OF _ st [unfolded Q]]) simp
    qed
    then show ?thesis by simp
  qed
  then show ?thesis using assms(2-4) by (cases "io_read_all P out s") auto
qed

lemma write_error_loops:
  assumes "\<And>k. fst (sys_write P d str k) = - 1" "n0 < int (length str)"
  shows "fd_write_loop P d str n0 s = None"
proof -
  have step: "int (length str) \<le> n0"
    if IH: "\<And>n0 s r. f P d str n0 s = Some r \<Longrightarrow> int (length str) \<le> n0"
      and step: "(if n0 < int (length str)
        then let (n, k) = sys_write P d str (os s); s = s\<lparr>os := k\<rparr>
             in f P d str (n0 + n) (if n = - 1 then mrbc_raise (RuntimeError ''syswrite failed'') s else s)
        else Some s) = Some r" for f n0 s r
  proof (rule ccontr)
    assume "\<not> int (length str) \<le> n0"
    then show False
      using step assms(1) [of "os s"] IH [of "n0 - 1"]
      by (cases "sys_write P d str (os s)") (auto simp: Let_def)
  qed
  have "int (length str) \<le> n0" if "fd_write_loop P d str n0 s = Some r" for r
  proof -
    let ?p = "\<lambda>((((Q, e), x), n), s :: 'a io_state) (r :: 'a io_state).
      Q = P \<longrightarrow> e = d \<longrightarrow> x = str \<longrightarrow> int (length str) \<le> n"
    have "?p ((((P, d), str), n0), s) r"
    proof (rule fd_write_loop.raw_induct [where Pa = ?p, OF _ that], unfold prod.case, intro impI)
      fix f Q e x n s r
      assume IH: "\<And>Q e x n s r. f Q e x n s = Some r \<Longrightarrow>
          Q = P \<longrightarrow> e = d \<longrightarrow> x = str \<longrightarrow> int (length str) \<le> n"
        and st: "(if n < int (length x)
          then let (m, k) = sys_write Q e x (os s); s = s\<lparr>os := k\<rparr>
               in f Q e x (n + m) (if m = - 1 then mrbc_raise (RuntimeError ''syswrite failed'') s else s)
          else Some s) = Some r"
        and eq: "Q = P" "e = d" "x = str"
      show "int (length str) \<le> n" using IH by (intro step [of f n s r, OF _ st [unfolded eq]]) simp
    qed
    then show ?thesis by simp
  qed
  then show ?thesis using assms(2) by (cases "fd_write_loop P d str n0 s") auto
qed

text \<open>
  Pushing back reallocates the buffer to the size that is needed if this is more than 4096 bytes, also when the buffer
  is larger: the bytes at its end are lost before they are moved. More than 32767 bytes overflow the length.
\<close>

lemma ungetc_shrinks:
  assumes "0 \<le> fd (fptr s)" "readable (fptr s)" "buf (fptr s) = Some b" "length x \<le> 32767"
    and "int PICORB_IO_BUF_SIZE < b_len b + int (length x)" "int (length x) < b_start b"
    and "b_start b + b_len b \<le> int (length (b_mem b))"
  shows "c_io_ungetc P [VStr x] s = None"
proof -
  have "mem_range (ungetc_realloc b (length x)) (b_start b) (b_len b) = None"
    using assms(5-7) by (auto simp: mem_range_def copy_from_def ungetc_realloc_def)
  then show ?thesis
    using assms(1-4) by (simp add: c_io_ungetc_def io_get_read_fptr_def io_get_open_fptr_def io_data_get_ptr_def
        mrbc_self_def GET_STRING_def str_data_def)
qed

lemma ungetc_length_wraps:
  assumes "c_io_ungetc P [VStr x] s = Some (VNil, t)" "buf (fptr s) = Some b" "b_len b \<le> 32767" "length x \<le> 32767"
    and "32767 < b_len b + int (length x)"
  shows "\<exists>c. buf (fptr t) = Some c \<and> b_len c < 0"
proof -
  have wrap: "c_short i = i - 65536" if "32767 < i" "i \<le> 65534" for i
  proof -
    have "(i + 32768) mod 65536 = (i - 32768 + 65536) mod 65536" by (simp add: add.commute)
    also have "\<dots> = i - 32768" using that by (simp only: mod_add_self2) (simp add: mod_pos_pos_trivial)
    finally have "(i + 32768) mod 65536 = i - 32768" .
    then show ?thesis unfolding c_short_def int_word_sint by simp
  qed
  have "c_short (b_len b + int (length x)) = b_len b + int (length x) - 65536"
    by (rule wrap) (use assms(3-5) in simp_all)
  then show ?thesis
    using assms by (auto simp: c_io_ungetc_def Let_def bind_eq_Some_conv set_buf_def io_get_read_fptr_def io_get_open_fptr_def
        io_data_get_ptr_def mrbc_self_def GET_STRING_def str_data_def split: if_splits)
qed

text \<open>\<^verbatim>\<open>readlines\<close> uses the first line as the receiver of the second call.\<close>

lemma readlines_fails:
  "c_io_gets P self args s = Some (VStr x, t) \<Longrightarrow> c_io_readlines P self args ary s = None"
  by (subst c_io_readlines.simps, simp, subst c_io_readlines.simps)
    (simp add: c_io_gets_def io_get_read_fptr_def io_get_open_fptr_def io_data_get_ptr_def)

text \<open>Bytes that are read past the buffer become a C string, of memory that is not initialised behind them.\<close>

lemma sysread_no_nul:
  assumes "sys_read P d (nat n) k = (Some data, k')" "0 < n" "0 \<notin> set data" "\<And>i. junk i \<noteq> 0"
    "fd (fptr s) = d" "os s = k"
  shows "io_read_common sysread junk P v n s = None"
  using assms by (auto simp: io_read_common_def sysread_def buf_cstr_def io_get_read_fptr_def io_get_open_fptr_def
      io_data_get_ptr_def mrbc_self_def bind_eq_None_conv split: option.splits)

lemma sysread_eof:
  assumes "sys_read P d (nat n) k = (Some [], k')" "0 < n" "fd (fptr s) = d" "os s = k"
  shows "io_read_common sysread junk P v n s = None"
  using assms by (auto simp: io_read_common_def sysread_def io_get_read_fptr_def io_get_open_fptr_def
      io_data_get_ptr_def mrbc_self_def)

text \<open>The second descriptor stays in the object after it has been closed.\<close>

lemma close_write_keeps_fd2:
  "c_io_close_write P s = Some (v, t) \<Longrightarrow> fd2 (fptr t) = fd2 (fptr s)"
  by (cases "sys_close P (fd2 (fptr s)) (os s)")
    (auto simp: c_io_close_write_def io_get_open_fptr_def io_data_get_ptr_def mrbc_self_def Let_def split: if_splits)

text \<open>An illegal mode is an exception, but the file is opened.\<close>

lemma sysopen_illegal_mode:
  "c_io_sysopen F P [VStr path, VStr [0x7A]] s
   = (let (d, t) = io_cloexec_open F P path 0 0x1B6 (mrbc_raise mode_error s) in Some (VInt d, t))"
  by (simp add: c_io_sysopen_def opt_arg_def io_mode_to_flags_def io_modestr_to_flags_def modestr_first_def c_chars_def
      char_of_def bit_simps)

section \<open>Names and directories\<close>

lemma unlink_not_string:
  "c_file_unlink Q [VInt i] s = None"
  by (simp add: c_file_unlink_def RSTRING_CSTR_def str_data_def)

lemma dir_empty_always:
  assumes "CSTR_ARG args 1 = Some path" "fs_opendir Q path (os s) = (Some d, k)"
    and "c_dir_empty_q Q args s = Some (v, t)"
  shows "v = VTrue"
proof -
  have "os (warn_args ''Dir.empty?'' args s) = os s" by (simp add: warn_args_def raise_args_def)
  then show ?thesis using assms by (auto simp: c_dir_empty_q_def bind_eq_Some_conv Let_def)
qed

lemma getwd_moved:
  assumes "fs_getcwd Q 64 (os s) = (None, k)" "sys_errno P k = ERANGE Q" "moved 128"
  shows "c_dir_getwd moved P Q s = None"
  using assms by (simp add: c_dir_getwd_def getwd_loop.simps)

text \<open>A position of more than 31 bits is cut to 32.\<close>

lemma pos_truncated:
  assumes "sys_lseek P (fd (fptr s)) 0 SEEK_CUR (os s) = (2 ^ 32 + 5, k)" "0 \<le> fd (fptr s)" "buf (fptr s) = None"
  shows "c_io_pos P s = Some (VInt 5, s\<lparr>os := k\<rparr>)"
  using assms by (simp add: c_io_pos_def io_get_open_fptr_def io_data_get_ptr_def mrbc_self_def c_int_def)

section \<open>Lines\<close>

text \<open>The following examples have a buffer of eight bytes; the system transfers three at a time.\<close>

definition small_io :: "bytes \<Rightarrow> (bytes \<times> nat) io_state" where
  "small_io c = demo_io c \<lparr>fptr := (fptr (demo_io c))\<lparr>buf := Some \<lparr>b_start = 0, b_len = 0, b_mem = replicate 8 0\<rparr>\<rparr>\<rparr>"

lemmas run_gets = small_io_def demo_io_def io_init_buf_def io_zero_def demo_os_def c_io_gets_def io_get_read_fptr_def
  io_get_open_fptr_def io_data_get_ptr_def mrbc_self_def gets_argc_def rb_then_def gets_limit_def gets_rs_def
  io_fill_buf_def set_buf_def str_data_def io_find_index_def io_buf_cat_def io_buf_cat_all_def io_buf_shift_def
  io_buf_reset_def c_short_def newline_def mem_range_def copy_from_def copy_into_def

lemmas find_index_numeral = find_index_loop.simps(2) [where n = "pred_numeral n" for n, folded numeral_eq_Suc]

text \<open>A separator of two bytes is missed when a transfer ends between them; a limit alone, or \<^verbatim>\<open>nil\<close>, changes
  the meaning of the separator.\<close>

lemma gets_split_separator:
  "\<exists>t. c_io_gets demo_os mrbc_self [VStr [13, 10]] (small_io [97, 98, 13, 10, 99]) = Some (VStr [97, 98, 13, 10, 99], t)"
  by (simp add: run_gets gets_loop.simps PICORB_IO_BUF_SIZE_def find_index_numeral)

lemma gets_limit_newline:
  "\<exists>t. c_io_gets demo_os mrbc_self [VInt 4] (small_io [97, 10, 98, 99, 100]) = Some (VStr [97, 10, 98, 99], t)"
  by (simp add: run_gets gets_loop.simps PICORB_IO_BUF_SIZE_def find_index_numeral)

lemma gets_nil_line:
  "\<exists>t. c_io_gets demo_os mrbc_self [VNil] (small_io [97, 10, 98]) = Some (VStr [97, 10], t)"
  by (simp add: run_gets gets_loop.simps PICORB_IO_BUF_SIZE_def find_index_numeral)

text \<open>After a transfer of two bytes of three the loop begins again with the first byte.\<close>

definition short_os :: "(bytes \<times> nat) posix" where
  "short_os = demo_os\<lparr>sys_write := (\<lambda>d x (c, p). (int (length (take 2 x)), (take p c @ take 2 x, p + length (take 2 x))))\<rparr>"

lemma short_write_repeats:
  "\<exists>t. c_io_write short_os [VStr [1, 2, 3]] (small_io []) = Some (VInt 3, t) \<and> fst (os t) = [1, 2, 1, 2]"
  by (simp add: run_gets c_io_write_def io_get_write_fptr_def io_get_write_fd_def unread_buf_def fd_write_def
      fd_write_loop.simps short_os_def c_int_def)

end
