(* ===== verification/TimeClass.thy ===== *)
theory TimeClass
  imports Prelude
begin

text \<open>
  The class \<^verbatim>\<open>Time\<close> of mruby/c (\<^verbatim>\<open>picoruby-time-class/src/time.c\<close>, \<^verbatim>\<open>include/time-class.h\<close>). The C library is
  the record \<open>time_lib\<close>, on a state \<open>'k\<close> that holds its time zone and its clock. Microseconds need the
  64-bit integers of \<^verbatim>\<open>PICORUBY_INT64\<close>, which are modelled here; an overflow of a signed integer, a string that
  does not fit its buffer and an access outside of an array are \<open>None\<close>.
\<close>

section \<open>The C library\<close>

record day_tm = tm +
  tm_wday :: int

text \<open>\<open>tl_clock\<close> gives seconds and nanoseconds; \<open>tl_mktime\<close> also gives the date in the form that it leaves behind
  its pointer. \<open>tl_atoi\<close> and \<open>tl_float\<close> are functions of the virtual machine and of the platform.\<close>

record 'k time_lib =
  tl_setenv_tz :: "bytes \<Rightarrow> 'k \<Rightarrow> 'k"
  tl_mktime :: "day_tm \<Rightarrow> 'k \<Rightarrow> int \<times> day_tm"
  tl_localtime :: "int \<Rightarrow> 'k \<Rightarrow> day_tm"
  tl_timezone :: "'k \<Rightarrow> int"
  tl_clock :: "'k \<Rightarrow> (int \<times> int) \<times> 'k"
  tl_atoi :: "bytes \<Rightarrow> int"
  tl_seconds :: "int \<Rightarrow> u64"
  tl_micros :: "u64 \<Rightarrow> int"

section \<open>Values\<close>

record picoruby_time =
  tm_of :: day_tm
  unixtime_us :: int
  timezone :: int

text \<open>An argument or a result: an object of the class, or any other value.\<close>

datatype time_val = TTime picoruby_time | TVal mrb_value

text \<open>The exception that is set, the result, and the state of the library.\<close>

type_synonym 'k time_out = "(rb_error option \<times> time_val \<times> 'k) option"

definition USEC :: int where "USEC = 1000000"

text \<open>Nothing in the gem sets the offset.\<close>

definition unixtime_offset :: int where "unixtime_offset = 0"

definition i64 :: "int \<Rightarrow> int option" where
  "i64 i = (if - (2 ^ 63) \<le> i \<and> i < 2 ^ 63 then Some i else None)"

definition i32 :: "int \<Rightarrow> int option" where
  "i32 i = (if - (2 ^ 31) \<le> i \<and> i < 2 ^ 31 then Some i else None)"

section \<open>Integers in arguments\<close>

text \<open>The digits without underscores; \<open>None\<close> is the jump to the error.\<close>

fun int_digits :: "bytes \<Rightarrow> bytes option" where
  "int_digits [] = Some []"
| "int_digits (c # r) =
     (if c = 0x5F then int_digits r
      else if 47 < c \<and> c < 58 then map_option ((#) c) (int_digits r)
      else None)"

definition int_error :: rb_error where
  "int_error = ArgumentError ''invalid value for Integer()''"

text \<open>
  The array \<^verbatim>\<open>str\<close> has as many bytes as the string, so the final NUL does not fit it if there is no sign and no
  underscore. Without a digit the code looks at an array that is not initialised, \<open>junk\<close>.
\<close>

definition mrbc_Integer :: "'k time_lib \<Rightarrow> u8 \<Rightarrow> time_val \<Rightarrow> (rb_error option \<times> int) option" where
  "mrbc_Integer T junk value =
     (case value of
        TVal (VInt i) \<Rightarrow> Some (None, i)
      | TVal (VStr data) \<Rightarrow>
          (if data = [] then None
           else let signed = (hd data = 0x2D \<or> hd data = 0x2B)
                in if hd data = 0x5F \<or> last data = 0x5F then Some (Some int_error, 0)
                   else (case int_digits (if signed then tl data else data) of
                           None \<Rightarrow> Some (Some int_error, 0)
                         | Some str \<Rightarrow>
                             (if str = [] \<and> junk = 0 then Some (Some int_error, 0)
                              else if length str = length data then None
                              else do {
                                n \<leftarrow> i64 (if hd data = 0x2D then tl_atoi T str * - 1 else tl_atoi T str);
                                Some (None, n)
                              })))
      | _ \<Rightarrow> Some (Some int_error, 0))"

section \<open>New objects\<close>

definition tz_env_set :: "'k time_lib \<Rightarrow> mrb_value option \<Rightarrow> 'k \<Rightarrow> 'k" where
  "tz_env_set T tz k = (case tz of Some (VStr x) \<Rightarrow> tl_setenv_tz T (takeWhile (\<lambda>c. c \<noteq> 0) x) k | _ \<Rightarrow> k)"

definition new_from_unixtime_us ::
    "'k time_lib \<Rightarrow> mrb_value option \<Rightarrow> int \<Rightarrow> 'k \<Rightarrow> (picoruby_time \<times> 'k) option" where
  "new_from_unixtime_us T tz us k = do {
     let k = tz_env_set T tz k;
     off \<leftarrow> i64 (unixtime_offset * USEC);
     us \<leftarrow> i64 (us + off);
     Some (\<lparr>tm_of = tl_localtime T (c_div us USEC) k, unixtime_us = us, timezone = tl_timezone T k\<rparr>, k)
   }"

definition new_from_tm ::
    "'k time_lib \<Rightarrow> mrb_value option \<Rightarrow> day_tm \<Rightarrow> 'k \<Rightarrow> (picoruby_time \<times> 'k) option" where
  "new_from_tm T tz t k = do {
     let k = tz_env_set T tz k;
     let (sec, t) = tl_mktime T t k;
     us \<leftarrow> i64 (sec * USEC);
     Some (\<lparr>tm_of = t, unixtime_us = us, timezone = tl_timezone T k\<rparr>, k)
   }"

text \<open>An argument of a date: a value out of range sets an exception, and is used all the same.\<close>

definition date_arg ::
    "'k time_lib \<Rightarrow> (nat \<Rightarrow> u8) \<Rightarrow> time_val list \<Rightarrow> nat \<Rightarrow> int \<Rightarrow> int \<Rightarrow> string \<Rightarrow> int \<Rightarrow> rb_error option
       \<Rightarrow> (rb_error option \<times> int) option" where
  "date_arg T junk args n lo hi msg dflt e =
     (if n < length args
      then do {
        (e', i) \<leftarrow> mrbc_Integer T (junk n) (args ! n);
        let e = (if e' \<noteq> None then e' else e);
        let i = c_int i;
        Some (if i < lo \<or> hi < i then Some (ArgumentError (msg @ '' out of range'')) else e, i)
      }
      else Some (e, dflt))"

definition c_local ::
    "'k time_lib \<Rightarrow> (nat \<Rightarrow> u8) \<Rightarrow> mrb_value option \<Rightarrow> time_val list \<Rightarrow> 'k \<Rightarrow> 'k time_out" where
  "c_local T junk tz args k =
     (if args = [] \<or> 6 < length args
      then Some (Some (ArgumentError ''wrong number of arguments (expected 1..6)''), TVal mrbc_self, k)
      else do {
        (e, year) \<leftarrow> mrbc_Integer T (junk 0) (args ! 0);
        year \<leftarrow> i64 (year - 1900);
        (e, mon) \<leftarrow> date_arg T junk args 1 1 12 ''mon'' 1 e;
        (e, mday) \<leftarrow> date_arg T junk args 2 1 31 ''mday'' 1 e;
        (e, hour) \<leftarrow> date_arg T junk args 3 0 23 ''hour'' 0 e;
        (e, mi) \<leftarrow> date_arg T junk args 4 0 59 ''min'' 0 e;
        (e, sec) \<leftarrow> date_arg T junk args 5 0 60 ''sec'' 0 e;
        mon \<leftarrow> i32 (mon - 1);
        (t, k) \<leftarrow> new_from_tm T tz \<lparr>tm_sec = sec, tm_min = mi, tm_hour = hour, tm_mday = mday, tm_mon = mon,
                                     tm_year = c_int year, tm_wday = 0\<rparr> k;
        Some (e, TTime t, k)
      })"

definition c_at :: "'k time_lib \<Rightarrow> mrb_value option \<Rightarrow> time_val list \<Rightarrow> 'k \<Rightarrow> 'k time_out" where
  "c_at T tz args k =
     (case args of
        [v] \<Rightarrow> do {
          n \<leftarrow> (case v of TVal (VInt i) \<Rightarrow> Some i | _ \<Rightarrow> None);
          n \<leftarrow> i64 (n - unixtime_offset);
          us \<leftarrow> i64 (n * USEC);
          (t, k) \<leftarrow> new_from_unixtime_us T tz us k;
          Some (None, TTime t, k)
        }
      | _ \<Rightarrow> Some (Some (ArgumentError ''wrong number of arguments (expected 1)''), TVal mrbc_self, k))"

definition c_now :: "'k time_lib \<Rightarrow> mrb_value option \<Rightarrow> time_val list \<Rightarrow> 'k \<Rightarrow> 'k time_out" where
  "c_now T tz args k =
     (if args \<noteq> [] then Some (Some (ArgumentError ''wrong number of arguments''), TVal mrbc_self, k)
      else do {
        let ((sec, nsec), k) = tl_clock T k;
        s \<leftarrow> i64 (sec * USEC);
        us \<leftarrow> i64 (s + c_div nsec 1000);
        (t, k) \<leftarrow> new_from_unixtime_us T tz us k;
        Some (None, TTime t, k)
      })"

definition c_new ::
    "'k time_lib \<Rightarrow> (nat \<Rightarrow> u8) \<Rightarrow> mrb_value option \<Rightarrow> time_val list \<Rightarrow> 'k \<Rightarrow> 'k time_out" where
  "c_new T junk tz args k =
     (if args = [] then c_now T tz [] k
      else if 6 < length args
      then Some (Some (ArgumentError ''wrong number of arguments (expected 0..6)''), TVal mrbc_self, k)
      else c_local T junk tz args k)"

section \<open>Fields\<close>

definition c_to_i :: "picoruby_time \<Rightarrow> mrb_value" where
  "c_to_i t = VInt (c_div (unixtime_us t) USEC)"

definition c_to_f :: "'k time_lib \<Rightarrow> picoruby_time \<Rightarrow> mrb_value" where
  "c_to_f T t = VFloat (tl_seconds T (unixtime_us t))"

definition c_year :: "picoruby_time \<Rightarrow> mrb_value option" where
  "c_year t = map_option VInt (i32 (tm_year (tm_of t) + 1900))"

definition c_mon :: "picoruby_time \<Rightarrow> mrb_value option" where
  "c_mon t = map_option VInt (i32 (tm_mon (tm_of t) + 1))"

definition c_mday :: "picoruby_time \<Rightarrow> mrb_value" where "c_mday t = VInt (tm_mday (tm_of t))"
definition c_hour :: "picoruby_time \<Rightarrow> mrb_value" where "c_hour t = VInt (tm_hour (tm_of t))"
definition c_min :: "picoruby_time \<Rightarrow> mrb_value" where "c_min t = VInt (tm_min (tm_of t))"
definition c_sec :: "picoruby_time \<Rightarrow> mrb_value" where "c_sec t = VInt (tm_sec (tm_of t))"
definition c_usec :: "picoruby_time \<Rightarrow> mrb_value" where "c_usec t = VInt (c_mod (unixtime_us t) USEC)"
definition c_wday :: "picoruby_time \<Rightarrow> mrb_value" where "c_wday t = VInt (tm_wday (tm_of t))"

section \<open>Text\<close>

text \<open>\<^verbatim>\<open>sprintf\<close> of an integer with \<open>w\<close> places, filled with zeros behind the sign.\<close>

fun dec_digits :: "nat \<Rightarrow> string" where
  "dec_digits n = (if n < 10 then [] else dec_digits (n div 10)) @ [char_of (48 + n mod 10)]"

declare dec_digits.simps [simp del]

definition fmt_d :: "nat \<Rightarrow> int \<Rightarrow> string" where
  "fmt_d w i = (let s = (if i < 0 then ''-'' else ''''); d = dec_digits (nat \<bar>i\<bar>)
                in s @ replicate (w - length s - length d) CHR ''0'' @ d)"

definition INSPECT_LENGTH :: nat where "INSPECT_LENGTH = 80"

definition fmt_year :: "int \<Rightarrow> string" where
  "fmt_year year = (if year < 0 then fmt_d 5 year else if year < 10000 then fmt_d 4 year else fmt_d 0 year)"

definition fmt_zone :: "int \<Rightarrow> string" where
  "fmt_zone tz = (let a = c_div \<bar>tz\<bar> 60
                  in [if 0 < tz then CHR ''-'' else if tz = 0 then CHR '' '' else CHR ''+'']
                     @ fmt_d 2 (c_int (c_div a 60)) @ fmt_d 2 (c_int (c_mod a 60)))"

text \<open>The text of a date, with what is printed between the seconds and the zone.\<close>

definition time_text :: "picoruby_time \<Rightarrow> string \<Rightarrow> string option" where
  "time_text t usec = do {
     let tm = tm_of t;
     year \<leftarrow> i32 (tm_year tm + 1900);
     mon \<leftarrow> i32 (tm_mon tm + 1);
     let str = fmt_year year @ ''-'' @ fmt_d 2 mon @ ''-'' @ fmt_d 2 (tm_mday tm) @ '' '' @ fmt_d 2 (tm_hour tm)
               @ '':'' @ fmt_d 2 (tm_min tm) @ '':'' @ fmt_d 2 (tm_sec tm) @ usec @ '' '' @ fmt_zone (timezone t);
     (if length str < INSPECT_LENGTH then Some str else None)
   }"

definition c_to_s :: "picoruby_time \<Rightarrow> mrb_value option" where
  "c_to_s t = map_option str_value (time_text t '''')"

definition c_inspect :: "picoruby_time option \<Rightarrow> mrb_value option" where
  "c_inspect self =
     (case self of
        None \<Rightarrow> Some (str_value ''Time'')
      | Some t \<Rightarrow> map_option str_value (time_text t (''.'' @ fmt_d 6 (c_mod (unixtime_us t) USEC))))"

section \<open>Comparison and arithmetic\<close>

definition mrbc_time_compare :: "picoruby_time \<Rightarrow> time_val \<Rightarrow> int" where
  "mrbc_time_compare self other =
     (case other of
        TTime o' \<Rightarrow> (if unixtime_us self < unixtime_us o' then - 1
                    else if unixtime_us o' < unixtime_us self then 1 else 0)
      | _ \<Rightarrow> - 2)"

definition mrbc_time_comparison_failed :: "rb_error option" where
  "mrbc_time_comparison_failed = Some (ArgumentError ''comparison of Time failed'')"

definition c_compare :: "picoruby_time \<Rightarrow> time_val \<Rightarrow> mrb_value" where
  "c_compare self other = VInt (mrbc_time_compare self other)"

definition c_eq :: "picoruby_time \<Rightarrow> time_val \<Rightarrow> mrb_value" where
  "c_eq self other = (if mrbc_time_compare self other = 0 then VTrue else VFalse)"

definition c_lt :: "picoruby_time \<Rightarrow> time_val \<Rightarrow> rb_error option \<times> mrb_value" where
  "c_lt self other =
     (let c = mrbc_time_compare self other
      in if c = - 1 then (None, VTrue) else if c = 0 \<or> c = 1 then (None, VFalse)
         else (mrbc_time_comparison_failed, mrbc_self))"

definition c_lte :: "picoruby_time \<Rightarrow> time_val \<Rightarrow> rb_error option \<times> mrb_value" where
  "c_lte self other =
     (let c = mrbc_time_compare self other
      in if c = - 1 \<or> c = 0 then (None, VTrue) else if c = 1 then (None, VFalse)
         else (mrbc_time_comparison_failed, mrbc_self))"

definition c_gt :: "picoruby_time \<Rightarrow> time_val \<Rightarrow> rb_error option \<times> mrb_value" where
  "c_gt self other =
     (let c = mrbc_time_compare self other
      in if c = - 1 \<or> c = 0 then (None, VFalse) else if c = 1 then (None, VTrue)
         else (mrbc_time_comparison_failed, mrbc_self))"

definition c_gte :: "picoruby_time \<Rightarrow> time_val \<Rightarrow> rb_error option \<times> mrb_value" where
  "c_gte self other =
     (let c = mrbc_time_compare self other
      in if c = - 1 then (None, VFalse) else if c = 0 \<or> c = 1 then (None, VTrue)
         else (mrbc_time_comparison_failed, mrbc_self))"

text \<open>An argument that is not an object has no class to compare.\<close>

definition c_sub :: "'k time_lib \<Rightarrow> mrb_value option \<Rightarrow> picoruby_time \<Rightarrow> time_val \<Rightarrow> 'k \<Rightarrow> 'k time_out" where
  "c_sub T tz self arg k =
     (case arg of
        TVal (VInt i) \<Rightarrow> do {
          d \<leftarrow> i64 (i * USEC);
          us \<leftarrow> i64 (unixtime_us self - d);
          (t, k) \<leftarrow> new_from_unixtime_us T tz us k;
          Some (None, TTime t, k)
        }
      | TVal (VFloat x) \<Rightarrow> do {
          d \<leftarrow> i64 (tl_micros T x);
          us \<leftarrow> i64 (unixtime_us self - d);
          (t, k) \<leftarrow> new_from_unixtime_us T tz us k;
          Some (None, TTime t, k)
        }
      | TTime o' \<Rightarrow> do {
          d \<leftarrow> i64 (unixtime_us self - unixtime_us o');
          Some (None, TVal (VFloat (tl_seconds T d)), k)
        }
      | TVal (VObj _) \<Rightarrow> Some (Some (ArgumentError ''wrong argument type''), TVal mrbc_self, k)
      | TVal _ \<Rightarrow> None)"

definition c_add :: "'k time_lib \<Rightarrow> mrb_value option \<Rightarrow> picoruby_time \<Rightarrow> time_val \<Rightarrow> 'k \<Rightarrow> 'k time_out" where
  "c_add T tz self arg k =
     (case arg of
        TVal (VInt i) \<Rightarrow> do {
          d \<leftarrow> i64 (i * USEC);
          us \<leftarrow> i64 (unixtime_us self + d);
          (t, k) \<leftarrow> new_from_unixtime_us T tz us k;
          Some (None, TTime t, k)
        }
      | TVal (VFloat x) \<Rightarrow> do {
          d \<leftarrow> i64 (tl_micros T x);
          us \<leftarrow> i64 (unixtime_us self + d);
          (t, k) \<leftarrow> new_from_unixtime_us T tz us k;
          Some (None, TTime t, k)
        }
      | _ \<Rightarrow> Some (Some (ArgumentError ''wrong argument type''), TVal mrbc_self, k))"

end
