(* ===== verification/TimeProps.thy ===== *)
theory TimeProps
  imports TimeClass
begin

text \<open>
  Texts of dates can be read back and fit their buffer; times can be added to and compared.
\<close>

section \<open>Decimal numbers\<close>

definition num :: "string \<Rightarrow> nat" where
  "num s = foldl (\<lambda>a c. 10 * a + (of_char c - 48)) 0 s"

lemma num_dec: "num (dec_digits n) = n"
proof (induction n rule: dec_digits.induct)
  case (1 n)
  show ?case
  proof (cases "n < 10")
    case True
    then show ?thesis by (subst dec_digits.simps) (simp add: num_def)
  next
    case False
    then show ?thesis using 1 by (subst dec_digits.simps) (simp add: num_def)
  qed
qed

lemma length_dec: "n < 10 ^ w \<Longrightarrow> 0 < w \<Longrightarrow> length (dec_digits n) \<le> w"
proof (induction w arbitrary: n)
  case (Suc w)
  show ?case
  proof (cases "n < 10")
    case True
    then show ?thesis by (subst dec_digits.simps) simp
  next
    case False
    then have "0 < w" "n div 10 < 10 ^ w" using Suc(2) by (cases w; simp)+
    then show ?thesis using Suc(1) False by (subst dec_digits.simps) simp
  qed
qed simp

lemma dec_nonempty: "1 \<le> length (dec_digits n)"
  by (subst dec_digits.simps) simp

lemma num_zeros: "num (replicate m CHR ''0'' @ s) = num s"
  by (induction m) (simp_all add: num_def)

text \<open>A number that is not negative and fits its places.\<close>

lemma fmt_ok:
  assumes "0 \<le> i" "i < 10 ^ w" "0 < w"
  shows "length (fmt_d w i) = w" "num (fmt_d w i) = nat i"
proof -
  have "nat i < 10 ^ w" using assms(1,2) by (simp add: nat_less_iff)
  then have "length (dec_digits (nat i)) \<le> w" using length_dec assms(3) by blast
  then show "length (fmt_d w i) = w" "num (fmt_d w i) = nat i"
    using assms(1) by (simp_all add: fmt_d_def Let_def num_zeros num_dec)
qed

lemma fmt_2: "0 \<le> i \<Longrightarrow> i < 100 \<Longrightarrow> length (fmt_d 2 i) = 2 \<and> num (fmt_d 2 i) = nat i"
  using fmt_ok [of i 2] by simp

lemma fmt_length:
  assumes "\<bar>i\<bar> < 10 ^ v" "w \<le> Suc v" "0 < v"
  shows "length (fmt_d w i) \<le> Suc v"
proof -
  have "nat \<bar>i\<bar> < 10 ^ v" using assms(1) by (simp add: nat_less_iff)
  then have "length (dec_digits (nat \<bar>i\<bar>)) \<le> v" using length_dec assms(3) by blast
  then show ?thesis using assms(2) by (auto simp: fmt_d_def Let_def)
qed

section \<open>Texts\<close>

text \<open>What \<^verbatim>\<open>localtime\<close> gives: a date in its usual ranges, with a leap second.\<close>

definition normal_tm :: "day_tm \<Rightarrow> bool" where
  "normal_tm d \<longleftrightarrow> 0 \<le> tm_sec d \<and> tm_sec d \<le> 60 \<and> 0 \<le> tm_min d \<and> tm_min d < 60 \<and> 0 \<le> tm_hour d \<and> tm_hour d < 24
     \<and> 1 \<le> tm_mday d \<and> tm_mday d \<le> 31 \<and> 0 \<le> tm_mon d \<and> tm_mon d < 12 \<and> i32 (tm_year d + 1900) \<noteq> None"

text \<open>Year, month, day, hour, minute and second at their places in the text.\<close>

definition read_date :: "string \<Rightarrow> nat list" where
  "read_date s = map (\<lambda>(i, w). num (take w (drop i s))) [(0, 4), (5, 2), (8, 2), (11, 2), (14, 2), (17, 2)]"

definition tm_fields :: "day_tm \<Rightarrow> int list" where
  "tm_fields d = [tm_year d + 1900, tm_mon d + 1, tm_mday d, tm_hour d, tm_min d, tm_sec d]"

lemma c_div_mod_60: "0 \<le> a \<Longrightarrow> c_div a 60 = a div 60 \<and> c_mod a 60 = a mod 60"
  by (cases "a = 0") (auto simp: c_div_def c_mod_def minus_div_mult_eq_mod)

lemma zone_part:
  assumes "0 \<le> a" "a < 6000"
  shows "length (fmt_d 2 (c_int (c_div a 60))) = 2" "length (fmt_d 2 (c_int (c_mod a 60))) = 2"
proof -
  have r: "0 \<le> a div 60" "a div 60 < 100" "0 \<le> a mod 60" "a mod 60 < 100" using assms by auto
  then have "c_int (a div 60) = a div 60" "c_int (a mod 60) = a mod 60" by simp_all
  then show "length (fmt_d 2 (c_int (c_div a 60))) = 2" "length (fmt_d 2 (c_int (c_mod a 60))) = 2"
    using r fmt_2 by (simp_all only: c_div_mod_60 [OF assms(1)])
qed

lemma zone_length:
  assumes "\<bar>tz\<bar> < 360000"
  shows "length (fmt_zone tz) = 5"
proof -
  have "0 \<le> c_div \<bar>tz\<bar> 60" "c_div \<bar>tz\<bar> 60 < 6000" using assms c_div_mod_60 [of "\<bar>tz\<bar>"] by auto
  from zone_part [OF this] show ?thesis by (simp add: fmt_zone_def Let_def)
qed

lemma year_text:
  assumes "i32 y \<noteq> None"
  shows "length (fmt_year y) \<le> 11" "0 \<le> y \<Longrightarrow> y < 10000 \<Longrightarrow> length (fmt_year y) = 4 \<and> num (fmt_year y) = nat y"
proof -
  have "\<bar>y\<bar> < 10 ^ 10" using assms by (auto simp: i32_def split: if_splits)
  then show "length (fmt_year y) \<le> 11"
    using fmt_length [of y 10] by (auto simp: fmt_year_def)
  show "0 \<le> y \<Longrightarrow> y < 10000 \<Longrightarrow> length (fmt_year y) = 4 \<and> num (fmt_year y) = nat y"
    using fmt_ok [of y 4] by (simp add: fmt_year_def)
qed

lemma time_text_ok:
  assumes n: "normal_tm (tm_of t)" and z: "\<bar>timezone t\<bar> < 360000" and u: "length usec \<le> 8"
  shows "\<exists>s. time_text t usec = Some s
           \<and> (0 \<le> tm_year (tm_of t) + 1900 \<and> tm_year (tm_of t) + 1900 < 10000
                \<longrightarrow> map int (read_date s) = tm_fields (tm_of t))"
proof -
  let ?d = "tm_of t"
  let ?y = "fmt_year (tm_year ?d + 1900)"
  have y: "length ?y \<le> 11" using n year_text(1) by (simp add: normal_tm_def)
  have i: "i32 (tm_year ?d + 1900) = Some (tm_year ?d + 1900)" "i32 (tm_mon ?d + 1) = Some (tm_mon ?d + 1)"
    using n by (auto simp: normal_tm_def i32_def split: if_splits)
  have f: "length (fmt_d 2 (tm_mon ?d + 1)) = 2" "num (fmt_d 2 (tm_mon ?d + 1)) = nat (tm_mon ?d + 1)"
    "length (fmt_d 2 (tm_mday ?d)) = 2" "num (fmt_d 2 (tm_mday ?d)) = nat (tm_mday ?d)"
    "length (fmt_d 2 (tm_hour ?d)) = 2" "num (fmt_d 2 (tm_hour ?d)) = nat (tm_hour ?d)"
    "length (fmt_d 2 (tm_min ?d)) = 2" "num (fmt_d 2 (tm_min ?d)) = nat (tm_min ?d)"
    "length (fmt_d 2 (tm_sec ?d)) = 2" "num (fmt_d 2 (tm_sec ?d)) = nat (tm_sec ?d)"
    using n fmt_2 [of "tm_mon ?d + 1"] fmt_2 [of "tm_mday ?d"] fmt_2 [of "tm_hour ?d"] fmt_2 [of "tm_min ?d"]
      fmt_2 [of "tm_sec ?d"]
    by (simp_all add: normal_tm_def)
  let ?s = "?y @ ''-'' @ fmt_d 2 (tm_mon ?d + 1) @ ''-'' @ fmt_d 2 (tm_mday ?d) @ '' '' @ fmt_d 2 (tm_hour ?d)
    @ '':'' @ fmt_d 2 (tm_min ?d) @ '':'' @ fmt_d 2 (tm_sec ?d) @ usec @ '' '' @ fmt_zone (timezone t)"
  have s: "time_text t usec = Some ?s"
    using y f u zone_length [OF z] i by (simp add: time_text_def Let_def INSPECT_LENGTH_def)
  have "map int (read_date ?s) = tm_fields ?d" if "0 \<le> tm_year ?d + 1900" "tm_year ?d + 1900 < 10000"
  proof -
    have y4: "length ?y = 4" "num ?y = nat (tm_year ?d + 1900)" using year_text(2) i(1) that by simp_all
    show ?thesis using y4 f that(1) n
      by (simp add: read_date_def tm_fields_def normal_tm_def)
  qed
  then show ?thesis using s by blast
qed

text \<open>C38: For a date in the usual ranges, of any year, and a time zone of less than 100 hours, to_s and inspect write into
  their buffer of 80 bytes without overflow; for the years 0 to 9999 the fields that are read from the text of to_s
  are those of the date (the fields in the text of inspect are not covered).\<close>

theorem time_text_roundtrip:
  assumes "normal_tm (tm_of t)" "\<bar>timezone t\<bar> < 360000"
  shows "c_inspect (Some t) \<noteq> None \<and> (\<exists>s. c_to_s t = Some (str_value s)
           \<and> (0 \<le> tm_year (tm_of t) + 1900 \<and> tm_year (tm_of t) + 1900 < 10000
                \<longrightarrow> map int (read_date s) = tm_fields (tm_of t)))"
proof
  have "\<bar>c_mod (unixtime_us t) USEC\<bar> < 10 ^ 6"
    by (auto simp: c_mod_def c_div_def USEC_def sgn_if minus_div_mult_eq_mod abs_if)
  then have "length (''.'' @ fmt_d 6 (c_mod (unixtime_us t) USEC)) \<le> 8"
    using fmt_length [of "c_mod (unixtime_us t) USEC" 6 6] by simp
  then show "c_inspect (Some t) \<noteq> None"
    using time_text_ok [OF assms] by (fastforce simp: c_inspect_def)
  show "\<exists>s. c_to_s t = Some (str_value s)
           \<and> (0 \<le> tm_year (tm_of t) + 1900 \<and> tm_year (tm_of t) + 1900 < 10000
                \<longrightarrow> map int (read_date s) = tm_fields (tm_of t))"
    using time_text_ok [OF assms, of "''''"] by (auto simp: c_to_s_def)
qed

section \<open>Arithmetic\<close>

lemma i64_small: "\<bar>i\<bar> \<le> 9000000000000000000 \<Longrightarrow> i64 i = Some i"
  unfolding i64_def abs_le_iff by simp

lemma new_from_unixtime_us_ok:
  assumes "\<bar>us\<bar> \<le> 9000000000000000000"
  shows "new_from_unixtime_us T tz us k =
    Some (\<lparr>tm_of = tl_localtime T (c_div us USEC) (tz_env_set T tz k), unixtime_us = us,
           timezone = tl_timezone T (tz_env_set T tz k)\<rparr>, tz_env_set T tz k)"
  using assms i64_small [of 0] i64_small [of us] by (simp add: new_from_unixtime_us_def unixtime_offset_def Let_def)

lemma c_div_USEC: "c_div (n * USEC) USEC = n" "c_mod (n * USEC) USEC = 0"
  by (auto simp: c_div_def c_mod_def USEC_def abs_mult sgn_mult mult_sgn_abs)

lemma add_seconds:
  assumes "\<bar>unixtime_us t\<bar> \<le> 4500000000000000000" "\<bar>m\<bar> \<le> 4500000000000"
  obtains u k' where "c_add T tz t (TVal (VInt m)) k = Some (None, TTime u, k')" "unixtime_us u = unixtime_us t + m * USEC"
proof -
  have m: "\<bar>m * USEC\<bar> \<le> 4500000000000000000" "i64 (m * USEC) = Some (m * USEC)"
    using assms(2) by (auto simp: USEC_def abs_mult intro!: i64_small)
  then have "\<bar>unixtime_us t + m * USEC\<bar> \<le> 9000000000000000000" using assms(1) by linarith
  from i64_small [OF this] new_from_unixtime_us_ok [OF this, of T tz k] show thesis
    using m(2) that by (simp add: c_add_def)
qed

lemma sub_seconds:
  assumes "\<bar>unixtime_us t - m * USEC\<bar> \<le> 9000000000000000000" "\<bar>m\<bar> \<le> 4500000000000"
  obtains u k' where "c_sub T tz t (TVal (VInt m)) k = Some (None, TTime u, k')" "unixtime_us u = unixtime_us t - m * USEC"
proof -
  have "i64 (m * USEC) = Some (m * USEC)" using assms(2) by (auto simp: USEC_def abs_mult intro!: i64_small)
  with i64_small [OF assms(1)] new_from_unixtime_us_ok [OF assms(1), of T tz k] show thesis
    using that by (simp add: c_sub_def)
qed

text \<open>Within 140000 years of the epoch, Time.at and to_i are inverse, adding seconds adds them, subtracting them again
  gives an equal time, and the comparisons agree with the sign of what was added.\<close>

theorem time_arithmetic:
  assumes "\<bar>n\<bar> \<le> 4500000000000" "\<bar>m\<bar> \<le> 4500000000000"
  shows "\<exists>t k1 u k2 w k3.
      c_at T tz [TVal (VInt n)] k = Some (None, TTime t, k1) \<and> c_to_i t = VInt n \<and> c_usec t = VInt 0
    \<and> c_add T tz t (TVal (VInt m)) k1 = Some (None, TTime u, k2) \<and> c_to_i u = VInt (n + m)
    \<and> c_sub T tz u (TVal (VInt m)) k2 = Some (None, TTime w, k3) \<and> c_eq w (TTime t) = VTrue
    \<and> c_lt t (TTime u) = (None, if 0 < m then VTrue else VFalse) \<and> c_gte t (TTime u) = (None, if 0 < m then VFalse else VTrue)
    \<and> c_gt t (TTime u) = (None, if m < 0 then VTrue else VFalse) \<and> c_lte t (TTime u) = (None, if m < 0 then VFalse else VTrue)
    \<and> c_compare t (TTime u) = VInt (- sgn m)"
proof -
  have n: "\<bar>n * USEC\<bar> \<le> 4500000000000000000" using assms(1) by (auto simp: USEC_def abs_mult)
  have "i64 n = Some n" using assms(1) by (intro i64_small) linarith
  moreover have "\<bar>n * USEC\<bar> \<le> 9000000000000000000" using n by linarith
  ultimately obtain t k1 where t: "c_at T tz [TVal (VInt n)] k = Some (None, TTime t, k1)" "unixtime_us t = n * USEC"
    using new_from_unixtime_us_ok [of "n * USEC" T tz k] i64_small [of "n * USEC"]
    by (simp add: c_at_def unixtime_offset_def)
  obtain u k2 where u: "c_add T tz t (TVal (VInt m)) k1 = Some (None, TTime u, k2)" "unixtime_us u = (n + m) * USEC"
    using add_seconds [OF _ assms(2), of t T tz k1] t(2) n by (metis distrib_right)
  have "unixtime_us u - m * USEC = n * USEC" using u(2) by (simp add: algebra_simps)
  then obtain w k3 where w: "c_sub T tz u (TVal (VInt m)) k2 = Some (None, TTime w, k3)" "unixtime_us w = n * USEC"
    using sub_seconds [OF _ assms(2), of u T tz k2] \<open>\<bar>n * USEC\<bar> \<le> 9000000000000000000\<close> by metis
  have "mrbc_time_compare t (TTime u) = - sgn m"
    using t(2) u(2) by (auto simp: mrbc_time_compare_def USEC_def sgn_if)
  then show ?thesis
    using t u w
    by (auto simp: c_to_i_def c_usec_def c_div_USEC c_eq_def mrbc_time_compare_def c_lt_def c_lte_def c_gt_def c_gte_def
        c_compare_def sgn_if)
qed

section \<open>Examples\<close>

text \<open>A library whose only zone is UTC and whose dates are those of one day.\<close>

definition utc_lib :: "unit time_lib" where
  "utc_lib = \<lparr>tl_setenv_tz = (\<lambda>x k. k), tl_mktime = (\<lambda>d k. (tm_hour d * 3600 + tm_min d * 60 + tm_sec d, d)),
     tl_localtime = (\<lambda>t k. \<lparr>tm_sec = t mod 60, tm_min = t div 60 mod 60, tm_hour = t div 3600 mod 24, tm_mday = 1,
                            tm_mon = 0, tm_year = 70, tm_wday = 4\<rparr>),
     tl_timezone = (\<lambda>k. 0), tl_clock = (\<lambda>k. ((0, 0), k)), tl_atoi = (\<lambda>x. int (num (map (\<lambda>c. char_of (unat c)) x))),
     tl_seconds = (\<lambda>i. 0), tl_micros = (\<lambda>x. 0)\<rparr>"

definition demo_time :: picoruby_time where
  "demo_time = \<lparr>tm_of = tl_localtime utc_lib 3661 (), unixtime_us = 3661000000, timezone = 0\<rparr>"

theorem time_text_roundtrip_witness:
  "c_to_s demo_time = Some (str_value ''1970-01-01 01:01:01  0000'')
   \<and> (\<exists>s. c_to_s demo_time = Some (str_value s) \<and> map int (read_date s) = [1970, 1, 1, 1, 1, 1])"
proof -
  have "normal_tm (tm_of demo_time)" "\<bar>timezone demo_time\<bar> < 360000"
    by (simp_all add: demo_time_def utc_lib_def normal_tm_def i32_def)
  from time_text_roundtrip [OF this] have "\<exists>s. c_to_s demo_time = Some (str_value s)
      \<and> map int (read_date s) = [1970, 1, 1, 1, 1, 1]"
    by (auto simp: demo_time_def utc_lib_def tm_fields_def)
  moreover have "c_to_s demo_time = Some (str_value ''1970-01-01 01:01:01  0000'')" by code_simp
  ultimately show ?thesis by blast
qed

section \<open>Where the class goes wrong\<close>

text \<open>
  A string of digits without sign and underscore overflows the array by its NUL; dates before 1970 with
  microseconds are printed with a second sign; a date out of range is an object all the same; comparing with another
  value gives a number; subtracting \<^verbatim>\<open>nil\<close> looks at the class of a value that is not an object.
\<close>

lemma int_digits_all: "\<forall>c \<in> set x. 47 < c \<and> c < 58 \<Longrightarrow> int_digits x = Some x"
proof (induction x)
  case (Cons c x)
  have "c \<noteq> 0x5F" using Cons(2) by auto
  then show ?case using Cons by simp
qed simp

lemma digits_overflow:
  assumes "\<forall>c \<in> set x. 47 < c \<and> c < 58" "x \<noteq> []"
  shows "mrbc_Integer T junk (TVal (VStr x)) = None"
proof -
  have ne: "c \<noteq> 0x2D \<and> c \<noteq> 0x2B \<and> c \<noteq> 0x5F" if "c \<in> set x" for c using assms(1) that by auto
  show ?thesis
    using ne [of "hd x"] ne [of "last x"] int_digits_all [OF assms(1)] assms(2) by (simp add: mrbc_Integer_def)
qed

lemma inspect_negative_usec:
  "c_inspect (Some (demo_time\<lparr>unixtime_us := - 5\<rparr>)) = Some (str_value ''1970-01-01 01:01:01.-00005  0000'')"
  by code_simp

lemma month_out_of_range:
  "\<exists>t k. c_local utc_lib (\<lambda>_. 0) None [TVal (VInt 2024), TVal (VInt 13)] ()
     = Some (Some (ArgumentError ''mon out of range''), TTime t, k) \<and> tm_mon (tm_of t) = 12"
  by (simp add: c_local_def mrbc_Integer_def date_arg_def i64_def i32_def new_from_tm_def utc_lib_def tz_env_set_def USEC_def)

lemma compare_other: "c_compare t (TVal v) = VInt (- 2)"
  by (simp add: c_compare_def mrbc_time_compare_def)

lemma sub_nil: "c_sub T tz t (TVal VNil) k = None"
  by (simp add: c_sub_def)

end
