(* ===== verification/Bus.thy ===== *)
theory Bus
  imports Prelude
begin

unbundle bit_operations_syntax

text \<open>
  The class I2C (\<^verbatim>\<open>picoruby-i2c\<close>) for both virtual machines, its port to the RP2040, and what it has in
  common with the class SPI: the bytes of a transaction are collected from the arguments of a
  method, which are integers, arrays of integers and strings, in an array on the stack or, when
  they are many, in a block of the heap.

  A state holds what lies behind the SDK (of any type), the number of blocks the functions
  have allocated and not yet freed, and the exception of a mruby/c method, which goes on after
  \<^verbatim>\<open>mrbc_raise\<close>. Whether the allocator has a block of a size, and what an array holds before it is
  written, are parameters (\<open>heap\<close> and \<open>mem\<close>). \<^verbatim>\<open>size_t\<close> has 32 bits, as on the boards.
\<close>

section \<open>Arguments and buffers\<close>

record 'k bus =
  bus_dev :: 'k
  bus_blocks :: nat
  bus_exc :: "rb_error option"

definition MAX_STACK_BUFFER_SIZE :: u32 where "MAX_STACK_BUFFER_SIZE = 256"

definition fresh_array :: "(nat \<Rightarrow> u8) \<Rightarrow> nat \<Rightarrow> bytes" where
  "fresh_array mem n = map mem [0..<n]"

definition bus_raise :: "rb_error \<Rightarrow> 'k bus \<Rightarrow> 'k bus" where
  "bus_raise e s = s\<lparr>bus_exc := Some e\<rparr>"

text \<open>The first pass adds up the sizes; \<open>None\<close> is an argument of another type.\<close>

fun output_size :: "mrb_value \<Rightarrow> u32 option" where
  "output_size (VArray xs) = Some (of_nat (length xs))"
| "output_size (VInt i) = Some 1"
| "output_size (VStr x) = Some (of_nat (length x))"
| "output_size v = None"

fun outputs_size :: "mrb_value list \<Rightarrow> u32 \<Rightarrow> u32 option" where
  "outputs_size [] total_size = Some total_size"
| "outputs_size (arg # args) total_size = do {
     n \<leftarrow> output_size arg;
     outputs_size args (total_size + n)
   }"

text \<open>The second pass fills the buffer. It stops at an element of an array that is no integer;
  an argument of another type has been found by the first pass.\<close>

datatype filled = Filled | Bad_element | Bad_argument

fun fill_array :: "mrb_value list \<Rightarrow> bytes \<Rightarrow> nat \<Rightarrow> (filled \<times> bytes \<times> nat) option" where
  "fill_array [] buffer pos = Some (Filled, buffer, pos)"
| "fill_array (VInt i # xs) buffer pos = do {
     buffer \<leftarrow> arr_set buffer pos (word_of_int i);
     fill_array xs buffer (pos + 1)
   }"
| "fill_array (x # xs) buffer pos = Some (Bad_element, buffer, pos)"

fun fill_output :: "mrb_value \<Rightarrow> bytes \<Rightarrow> nat \<Rightarrow> (filled \<times> bytes \<times> nat) option" where
  "fill_output (VArray xs) buffer pos = fill_array xs buffer pos"
| "fill_output (VInt i) buffer pos = do {
     buffer \<leftarrow> arr_set buffer pos (word_of_int i);
     Some (Filled, buffer, pos + 1)
   }"
| "fill_output (VStr x) buffer pos = do {
     buffer \<leftarrow> copy_into buffer pos x;
     Some (Filled, buffer, pos + length x)
   }"
| "fill_output v buffer pos = Some (Bad_argument, buffer, pos)"

fun fill_outputs :: "mrb_value list \<Rightarrow> bytes \<Rightarrow> nat \<Rightarrow> (filled \<times> bytes \<times> nat) option" where
  "fill_outputs [] buffer pos = Some (Filled, buffer, pos)"
| "fill_outputs (arg # args) buffer pos = do {
     (r, buffer, pos) \<leftarrow> fill_output arg buffer pos;
     (if r = Filled then fill_outputs args buffer pos else Some (r, buffer, pos))
   }"

text \<open>The choice of the buffer: \<^verbatim>\<open>needs_free\<close>, and no value when the memory is exhausted.\<close>

definition take_buffer :: "(u32 \<Rightarrow> bool) \<Rightarrow> (nat \<Rightarrow> u8) \<Rightarrow> u32 \<Rightarrow> 'k bus \<Rightarrow> (bool \<times> bytes \<times> 'k bus) option" where
  "take_buffer heap mem total_size s =
     (if total_size < MAX_STACK_BUFFER_SIZE then Some (False, fresh_array mem (unat MAX_STACK_BUFFER_SIZE), s)
      else if heap total_size then Some (True, fresh_array mem (unat total_size), s\<lparr>bus_blocks := bus_blocks s + 1\<rparr>)
      else None)"

definition free_buffer :: "bool \<Rightarrow> 'k bus \<Rightarrow> 'k bus" where
  "free_buffer needs_free s = (if needs_free then s\<lparr>bus_blocks := bus_blocks s - 1\<rparr> else s)"

section \<open>The port to the RP2040\<close>

text \<open>
  The functions of the SDK: a write gives the number of bytes or a negative error, a read also
  the bytes that it stores from the start of the array. The default pins are those of the board.
\<close>

record 'k i2c_sdk =
  i2c_write_timeout_us :: "nat \<Rightarrow> u8 \<Rightarrow> bytes \<Rightarrow> bool \<Rightarrow> u32 \<Rightarrow> 'k \<Rightarrow> int \<times> 'k"
  i2c_read_timeout_us :: "nat \<Rightarrow> u8 \<Rightarrow> nat \<Rightarrow> bool \<Rightarrow> u32 \<Rightarrow> 'k \<Rightarrow> int \<times> bytes \<times> 'k"
  i2c_init :: "nat \<Rightarrow> u32 \<Rightarrow> 'k \<Rightarrow> 'k"
  i2c_gpio_set_function :: "u32 \<Rightarrow> 'k \<Rightarrow> 'k"
  i2c_gpio_pull_up :: "u32 \<Rightarrow> 'k \<Rightarrow> 'k"
  PICO_DEFAULT_I2C_SDA_PIN :: int
  PICO_DEFAULT_I2C_SCL_PIN :: int

definition I2C_ERROR_INVALID_UNIT :: int where "I2C_ERROR_INVALID_UNIT = - 1"

definition i2c_unit_select :: "int \<Rightarrow> nat option" where
  "i2c_unit_select unit_num = (if unit_num = 0 then Some 0 else if unit_num = 1 then Some 1 else None)"

definition I2C_write_timeout_us :: "'k i2c_sdk \<Rightarrow> int \<Rightarrow> u8 \<Rightarrow> bytes \<Rightarrow> bool \<Rightarrow> u32 \<Rightarrow> 'k \<Rightarrow> int \<times> 'k" where
  "I2C_write_timeout_us S unit_num addr src nostop timeout k =
     (case i2c_unit_select unit_num of
        None \<Rightarrow> (I2C_ERROR_INVALID_UNIT, k)
      | Some u \<Rightarrow> i2c_write_timeout_us S u addr src nostop timeout k)"

definition I2C_read_timeout_us :: "'k i2c_sdk \<Rightarrow> int \<Rightarrow> u8 \<Rightarrow> bytes \<Rightarrow> nat \<Rightarrow> bool \<Rightarrow> u32 \<Rightarrow> 'k \<Rightarrow> (int \<times> bytes \<times> 'k) option" where
  "I2C_read_timeout_us S unit_num addr dst n nostop timeout k =
     (case i2c_unit_select unit_num of
        None \<Rightarrow> Some (I2C_ERROR_INVALID_UNIT, dst, k)
      | Some u \<Rightarrow> (let (r, bs, k) = i2c_read_timeout_us S u addr n nostop timeout k
                   in do { dst \<leftarrow> copy_into dst 0 bs; Some (r, dst, k) }))"

definition I2C_unit_name_to_unit_num :: "string \<Rightarrow> int" where
  "I2C_unit_name_to_unit_num unit_name =
     (if unit_name = ''RP2040_I2C0'' then 0 else if unit_name = ''RP2040_I2C1'' then 1 else I2C_ERROR_INVALID_UNIT)"

text \<open>The pins are of type \<^verbatim>\<open>int8_t\<close>; the second default goes to the wrong variable.\<close>

definition I2C_gpio_init :: "'k i2c_sdk \<Rightarrow> int \<Rightarrow> u32 \<Rightarrow> 8 word \<Rightarrow> 8 word \<Rightarrow> 'k \<Rightarrow> int \<times> 'k" where
  "I2C_gpio_init S unit_num frequency sda_pin scl_pin k =
     (case i2c_unit_select unit_num of
        None \<Rightarrow> (I2C_ERROR_INVALID_UNIT, k)
      | Some u \<Rightarrow>
         let k = i2c_init S u frequency k;
             sda_pin = (if sint sda_pin < 0 then word_of_int (PICO_DEFAULT_I2C_SDA_PIN S) else sda_pin);
             sda_pin = (if sint scl_pin < 0 then word_of_int (PICO_DEFAULT_I2C_SCL_PIN S) else sda_pin);
             k = i2c_gpio_set_function S (scast sda_pin) k;
             k = i2c_gpio_set_function S (scast scl_pin) k;
             k = i2c_gpio_pull_up S (scast sda_pin) k;
             k = i2c_gpio_pull_up S (scast scl_pin) k
         in (0, k))"

section \<open>The class I2C of mruby\<close>

text \<open>The instance variables \<^verbatim>\<open>@unit_num\<close> and \<^verbatim>\<open>@timeout\<close>. A method for mruby raises or returns, with
  the state after it; \<open>None\<close> is undefined behaviour.\<close>

record i2c_obj =
  i2c_unit_num :: int
  i2c_timeout :: int

type_synonym 'k bus_result = "(mrb_value rb_result \<times> 'k bus) option"

definition mrb_i2c_write_outputs :: "'k i2c_sdk \<Rightarrow> (u32 \<Rightarrow> bool) \<Rightarrow> (nat \<Rightarrow> u8) \<Rightarrow> int \<Rightarrow> int \<Rightarrow> mrb_value list
    \<Rightarrow> int \<Rightarrow> bool \<Rightarrow> 'k bus \<Rightarrow> (int rb_result \<times> 'k bus) option" where
  "mrb_i2c_write_outputs S heap mem unit_num i2c_adrs_7 args timeout_ms nostop s =
     (case outputs_size args 0 of
        None \<Rightarrow> Some (Inl (TypeError ''argument must be Integer, Array or String''), s)
      | Some total_size \<Rightarrow>
         (case take_buffer heap mem total_size s of
            None \<Rightarrow> Some (Inl (NoMemoryError ''Out of memory''), s)
          | Some (needs_free, buffer, s) \<Rightarrow> do {
              (r, buffer, pos) \<leftarrow> fill_outputs args buffer 0;
              (case r of
                 Bad_element \<Rightarrow> Some (Inl (TypeError ''array element must be Fixnum''), free_buffer needs_free s)
               | Bad_argument \<Rightarrow> Some (Inl (ArgumentError ''argument must be Inteter, Array[Integer], or String''), s)
               | Filled \<Rightarrow> do {
                   src \<leftarrow> copy_from buffer 0 (unat total_size);
                   let (res, k) = I2C_write_timeout_us S (uint (word_of_int unit_num :: u8)) (word_of_int i2c_adrs_7) src
                                    nostop (word_of_int timeout_ms * 1000) (bus_dev s);
                   Some (Inr res, free_buffer needs_free (s\<lparr>bus_dev := k\<rparr>))
                 })
            }))"

text \<open>A keyword argument that is not an integer is read as one all the same (\<open>None\<close>).\<close>

definition i2c_kw_timeout :: "i2c_obj \<Rightarrow> mrb_value option \<Rightarrow> int option" where
  "i2c_kw_timeout o1 kw =
     (case kw of None \<Rightarrow> Some (i2c_timeout o1) | Some (VInt t) \<Rightarrow> Some t | Some _ \<Rightarrow> None)"

definition mrb_i2c_write :: "'k i2c_sdk \<Rightarrow> (u32 \<Rightarrow> bool) \<Rightarrow> (nat \<Rightarrow> u8) \<Rightarrow> i2c_obj \<Rightarrow> int \<Rightarrow> mrb_value list
    \<Rightarrow> mrb_value option \<Rightarrow> 'k bus \<Rightarrow> 'k bus_result" where
  "mrb_i2c_write S heap mem o1 i2c_adrs_7 args kw s = do {
     timeout_ms \<leftarrow> i2c_kw_timeout o1 kw;
     (r, s) \<leftarrow> mrb_i2c_write_outputs S heap mem (i2c_unit_num o1) i2c_adrs_7 args timeout_ms False s;
     Some (case r of
             Inl e \<Rightarrow> (Inl e, s)
           | Inr total_bytes \<Rightarrow>
              (if total_bytes < 0 then (Inl (IOError ''I2C write failed''), s) else (Inr (VInt total_bytes), s)))
   }"

text \<open>
  The array \<^verbatim>\<open>rxdata\<close> on the stack has the length of the argument, which C requires to be
  positive; a length of half the address space or more is undefined too.
\<close>

definition i2c_receive :: "'k i2c_sdk \<Rightarrow> (nat \<Rightarrow> u8) \<Rightarrow> int \<Rightarrow> int \<Rightarrow> int \<Rightarrow> int \<Rightarrow> 'k bus \<Rightarrow> (bytes option \<times> 'k bus) option" where
  "i2c_receive S mem unit_num i2c_adrs_7 n timeout_ms s =
     (if n \<le> 0 \<or> 2 ^ 31 \<le> n then None
      else do {
        (ret, rxdata, k) \<leftarrow> I2C_read_timeout_us S (uint (word_of_int unit_num :: u8)) (word_of_int i2c_adrs_7)
          (fresh_array mem (nat n)) (nat n) False (word_of_int timeout_ms * 1000) (bus_dev s);
        let s = s\<lparr>bus_dev := k\<rparr>;
        (if 0 < ret then do { x \<leftarrow> copy_from rxdata 0 (nat ret); Some (Some x, s) } else Some (None, s))
      })"

definition mrb_i2c_read :: "'k i2c_sdk \<Rightarrow> (u32 \<Rightarrow> bool) \<Rightarrow> (nat \<Rightarrow> u8) \<Rightarrow> i2c_obj \<Rightarrow> int \<Rightarrow> int \<Rightarrow> mrb_value list
    \<Rightarrow> mrb_value option \<Rightarrow> 'k bus \<Rightarrow> 'k bus_result" where
  "mrb_i2c_read S heap mem o1 i2c_adrs_7 n args kw s = do {
     timeout_ms \<leftarrow> i2c_kw_timeout o1 kw;
     (r, s) \<leftarrow> (if args \<noteq> [] then mrb_i2c_write_outputs S heap mem (i2c_unit_num o1) i2c_adrs_7 args timeout_ms True s
               else Some (Inr 0, s));
     (case r of
        Inl e \<Rightarrow> Some (Inl e, s)
      | Inr res \<Rightarrow>
         (if res < 0 then Some (Inl (IOError ''I2C write (for read) failed''), s)
          else do {
            (x, s) \<leftarrow> i2c_receive S mem (i2c_unit_num o1) i2c_adrs_7 n timeout_ms s;
            Some (case x of Some x \<Rightarrow> Inr (VStr x) | None \<Rightarrow> Inl (IOError ''I2C read failed''), s)
          }))
   }"

definition mrb_i2c__init :: "'k i2c_sdk \<Rightarrow> string \<Rightarrow> int \<Rightarrow> int \<Rightarrow> int \<Rightarrow> 'k bus \<Rightarrow> 'k bus_result" where
  "mrb_i2c__init S unit_name frequency sda_pin scl_pin s =
     (let unit_num = I2C_unit_name_to_unit_num unit_name;
          (status, k) = I2C_gpio_init S unit_num (word_of_int frequency) (word_of_int sda_pin) (word_of_int scl_pin) (bus_dev s);
          s = s\<lparr>bus_dev := k\<rparr>
      in Some (if status < 0
               then (Inl (IOError (if status = I2C_ERROR_INVALID_UNIT then ''Invalid I2C unit'' else ''Unknow I2C error'')), s)
               else (Inr (VInt unit_num), s)))"

section \<open>The class I2C of mruby/c\<close>

type_synonym 'k busc_result = "(mrb_value \<times> 'k bus) option"

definition mrbc_i2c_write_outputs :: "'k i2c_sdk \<Rightarrow> (u32 \<Rightarrow> bool) \<Rightarrow> (nat \<Rightarrow> u8) \<Rightarrow> int \<Rightarrow> int \<Rightarrow> mrb_value list
    \<Rightarrow> int \<Rightarrow> bool \<Rightarrow> 'k bus \<Rightarrow> (int \<times> 'k bus) option" where
  "mrbc_i2c_write_outputs S heap mem unit_num i2c_adrs_7 args timeout_ms nostop s =
     (case outputs_size args 0 of
        None \<Rightarrow> Some (- 1, bus_raise (TypeError ''argument must be Integer, Array or String'') s)
      | Some total_size \<Rightarrow>
         (case take_buffer heap mem total_size s of
            None \<Rightarrow> Some (- 1, bus_raise (StandardError ''Failed to allocate memory'') s)
          | Some (needs_free, buffer, s) \<Rightarrow> do {
              (r, buffer, pos) \<leftarrow> fill_outputs args buffer 0;
              (case r of
                 Bad_element \<Rightarrow> Some (- 1, bus_raise (TypeError ''array element must be Integer'') (free_buffer needs_free s))
               | Bad_argument \<Rightarrow> Some (- 1, bus_raise (TypeError ''argument must be Integer, Array or String'') (free_buffer needs_free s))
               | Filled \<Rightarrow> do {
                   src \<leftarrow> copy_from buffer 0 (unat total_size);
                   let (res, k) = I2C_write_timeout_us S (uint (word_of_int unit_num :: u8)) (word_of_int i2c_adrs_7) src
                                    nostop (word_of_int timeout_ms * 1000) (bus_dev s);
                   let s = free_buffer needs_free (s\<lparr>bus_dev := k\<rparr>);
                   Some (if res < 0 then (- 1, bus_raise (IOError ''I2C write failed'') s) else (res, s))
                 })
            }))"

text \<open>The test for a hash in the place of the last of \<open>args\<close>: the timeout and the arguments that are left.\<close>

definition busc_hash_int :: "string \<Rightarrow> nat \<Rightarrow> mrb_value list \<Rightarrow> int \<Rightarrow> int \<times> mrb_value list" where
  "busc_hash_int key n args t =
     (if n < length args
      then case last args of
             VHash h \<Rightarrow> ((case map_of h (VSym key) of Some (VInt i) \<Rightarrow> i | _ \<Rightarrow> t), butlast args)
           | _ \<Rightarrow> (t, args)
      else (t, args))"

definition c_i2c_write :: "'k i2c_sdk \<Rightarrow> (u32 \<Rightarrow> bool) \<Rightarrow> (nat \<Rightarrow> u8) \<Rightarrow> i2c_obj \<Rightarrow> mrb_value list \<Rightarrow> 'k bus \<Rightarrow> 'k busc_result" where
  "c_i2c_write S heap mem o1 args s = do {
     i2c_adrs_7 \<leftarrow> GET_INT_ARG args 1;
     let (timeout_ms, args) = busc_hash_int ''timeout'' 1 args (i2c_timeout o1);
     (total_bytes, s) \<leftarrow> mrbc_i2c_write_outputs S heap mem (i2c_unit_num o1) (sint i2c_adrs_7) (drop 1 args) timeout_ms False s;
     Some (if total_bytes < 0 then mrbc_self else VInt total_bytes, s)
   }"

definition c_i2c_read :: "'k i2c_sdk \<Rightarrow> (u32 \<Rightarrow> bool) \<Rightarrow> (nat \<Rightarrow> u8) \<Rightarrow> i2c_obj \<Rightarrow> mrb_value list \<Rightarrow> 'k bus \<Rightarrow> 'k busc_result" where
  "c_i2c_read S heap mem o1 args s = do {
     i2c_adrs_7 \<leftarrow> GET_INT_ARG args 1;
     n \<leftarrow> GET_INT_ARG args 2;
     let (timeout_ms, args) = busc_hash_int ''timeout'' 2 args (i2c_timeout o1);
     (write_result, s) \<leftarrow> (if 2 < length args
        then mrbc_i2c_write_outputs S heap mem (i2c_unit_num o1) (sint i2c_adrs_7) (drop 2 args) timeout_ms True s
        else Some (0, s));
     (if write_result < 0 then Some (mrbc_self, s)
      else do {
        (x, s) \<leftarrow> i2c_receive S mem (i2c_unit_num o1) (sint i2c_adrs_7) (sint n) timeout_ms s;
        Some (case x of Some x \<Rightarrow> (VStr x, s) | None \<Rightarrow> (mrbc_self, bus_raise (IOError ''I2C read failed'') s))
      })
   }"

text \<open>The call of \<^verbatim>\<open>mrbc_raise\<close> stands in the last case of the \<^verbatim>\<open>switch\<close>, behind the \<^verbatim>\<open>break\<close> of the other.\<close>

definition c_i2c__init :: "'k i2c_sdk \<Rightarrow> string \<Rightarrow> mrb_value list \<Rightarrow> 'k bus \<Rightarrow> 'k busc_result" where
  "c_i2c__init S unit_name args s = do {
     let unit_num = I2C_unit_name_to_unit_num unit_name;
     frequency \<leftarrow> GET_INT_ARG args 2;
     sda_pin \<leftarrow> GET_INT_ARG args 3;
     scl_pin \<leftarrow> GET_INT_ARG args 4;
     let (status, k) = I2C_gpio_init S unit_num frequency (ucast sda_pin) (ucast scl_pin) (bus_dev s);
     let s = s\<lparr>bus_dev := k\<rparr>;
     Some (if status < 0 \<and> status \<noteq> I2C_ERROR_INVALID_UNIT
           then (mrbc_self, bus_raise (IOError ''Unknows I2C error'') s)
           else (VInt unit_num, s))
   }"

end
