(* ===== verification/BusProps.thy ===== *)
theory BusProps
  imports Bus
begin

unbundle bit_operations_syntax

text \<open>
  What the class I2C sends and receives: one transaction with the bytes of the arguments, the same
  for both virtual machines, or none and an exception. The lemmas on the arguments serve SPI as well.
\<close>

section \<open>The bytes of the arguments\<close>

fun int_bytes :: "mrb_value list \<Rightarrow> bytes option" where
  "int_bytes [] = Some []"
| "int_bytes (VInt i # xs) = map_option (Cons (word_of_int i)) (int_bytes xs)"
| "int_bytes (x # xs) = None"

fun wire_bytes :: "mrb_value \<Rightarrow> bytes option" where
  "wire_bytes (VArray xs) = int_bytes xs"
| "wire_bytes (VInt i) = Some [word_of_int i]"
| "wire_bytes (VStr x) = Some x"
| "wire_bytes v = None"

fun wire :: "mrb_value list \<Rightarrow> bytes option" where
  "wire [] = Some []"
| "wire (a # as) = do { x \<leftarrow> wire_bytes a; y \<leftarrow> wire as; Some (x @ y) }"

text \<open>How many bytes the first pass counts.\<close>

fun out_len :: "mrb_value \<Rightarrow> nat" where
  "out_len (VArray xs) = length xs"
| "out_len (VInt i) = 1"
| "out_len (VStr x) = length x"
| "out_len v = 0"

definition outs_len :: "mrb_value list \<Rightarrow> nat" where "outs_len args = sum_list (map out_len args)"

definition bus_fits :: "(u32 \<Rightarrow> bool) \<Rightarrow> nat \<Rightarrow> bool" where
  "bus_fits heap n \<longleftrightarrow> n < 2 ^ 32 \<and> (n < 256 \<or> heap (of_nat n))"

lemma outs_len_simps [simp]: "outs_len [] = 0" "outs_len (a # as) = out_len a + outs_len as"
  by (simp_all add: outs_len_def)

lemma int_bytes_length: "int_bytes xs = Some bs \<Longrightarrow> length bs = length xs"
  by (induction xs arbitrary: bs rule: int_bytes.induct) auto

lemma wire_bytes_length: "wire_bytes a = Some bs \<Longrightarrow> length bs = out_len a"
  by (cases a) (auto dest: int_bytes_length)

lemma wire_length: "wire args = Some bs \<Longrightarrow> length bs = outs_len args"
  by (induction args arbitrary: bs) (auto simp: bind_eq_Some_conv dest: wire_bytes_length)

lemma output_size_len: "output_size a = Some n \<Longrightarrow> n = of_nat (out_len a)"
  by (cases a) auto

lemma outputs_size_len: "outputs_size args t = Some n \<Longrightarrow> n = t + of_nat (outs_len args)"
proof (induction args arbitrary: t)
  case (Cons a args)
  then obtain m where "output_size a = Some m" "outputs_size args (t + m) = Some n" by (auto simp: bind_eq_Some_conv)
  then show ?case using Cons.IH [of "t + m"] output_size_len [of a m] by (simp add: add.assoc)
qed simp

lemma outputs_size_wire: "wire args = Some bs \<Longrightarrow> outputs_size args t = Some (t + of_nat (length bs))"
proof (induction args arbitrary: t bs)
  case (Cons a args)
  then obtain x y where "wire_bytes a = Some x" "wire args = Some y" "bs = x @ y"
    by (auto simp: bind_eq_Some_conv)
  moreover from this have "output_size a = Some (of_nat (length x))"
    by (cases a) (auto dest: int_bytes_length)
  ultimately show ?case using Cons.IH [of y] by (simp add: algebra_simps)
qed simp

text \<open>The second pass puts the bytes into the buffer, or finds the element that is no integer.\<close>

lemma copy_into_Cons:
  "pos + Suc (length bs) \<le> length buf \<Longrightarrow> copy_into (buf[pos := b]) (Suc pos) bs = copy_into buf pos (b # bs)"
  by (auto simp: copy_into_def take_Suc_conv_app_nth list_update_beyond upd_conv_take_nth_drop add.commute)

lemma copy_into_append:
  assumes "pos + length xs + length ys \<le> length buf" and "copy_into buf pos xs = Some buf'"
  shows "copy_into buf' (pos + length xs) ys = copy_into buf pos (xs @ ys)"
  using assms by (auto simp: copy_into_def add_ac split: if_splits)

lemma bus_copy_length: "copy_into buf pos xs = Some buf' \<Longrightarrow> length buf' = length buf"
  by (auto simp: copy_into_def split: if_splits)

lemma fill_array_wire:
  assumes "int_bytes xs = Some bs" "pos + length bs \<le> length buf"
  shows "fill_array xs buf pos = map_option (\<lambda>b. (Filled, b, pos + length bs)) (copy_into buf pos bs)"
  using assms
proof (induction xs arbitrary: buf pos bs rule: int_bytes.induct)
  case (2 i xs)
  then obtain cs where c: "int_bytes xs = Some cs" "bs = word_of_int i # cs" by auto
  then show ?case
    using 2(1) [of cs "pos + 1" "buf[pos := word_of_int i]"] 2(3) copy_into_Cons [of pos cs buf "word_of_int i"] by simp
qed (auto simp: copy_into_def)

lemma fill_output_wire:
  assumes "wire_bytes a = Some bs" "pos + length bs \<le> length buf"
  shows "fill_output a buf pos = map_option (\<lambda>b. (Filled, b, pos + length bs)) (copy_into buf pos bs)"
  using assms fill_array_wire
  by (cases a) (auto simp: copy_into_def upd_conv_take_nth_drop)

lemma fill_outputs_wire:
  assumes "wire args = Some bs" "pos + length bs \<le> length buf"
  shows "fill_outputs args buf pos = map_option (\<lambda>b. (Filled, b, pos + length bs)) (copy_into buf pos bs)"
  using assms
proof (induction args arbitrary: buf pos bs)
  case (Cons a args)
  then obtain x y where w: "wire_bytes a = Some x" "wire args = Some y" "bs = x @ y"
    by (auto simp: bind_eq_Some_conv)
  obtain b where b: "copy_into buf pos x = Some b" using Cons.prems w(3) by (simp add: copy_into_def)
  have "fill_output a buf pos = Some (Filled, b, pos + length x)"
    using fill_output_wire [OF w(1), of pos buf] Cons.prems w(3) b by simp
  then show ?case
    using Cons.IH [OF w(2), of "pos + length x" b] bus_copy_length [OF b] Cons.prems w(3)
      copy_into_append [OF _ b, of y] by (simp add: add.assoc)
qed (simp add: copy_into_def)

lemma fill_array_bad:
  "int_bytes xs = None \<Longrightarrow> pos + length xs \<le> length buf \<Longrightarrow> \<exists>b p. fill_array xs buf pos = Some (Bad_element, b, p) \<and> length b = length buf"
proof (induction xs arbitrary: buf pos rule: int_bytes.induct)
  case (2 i xs)
  then show ?case using "2.IH" [of "pos + 1" "buf[pos := word_of_int i]"] by simp
qed simp_all

lemma fill_outputs_bad:
  assumes "wire args = None" "outputs_size args t = Some n" "pos + outs_len args \<le> length buf"
  shows "\<exists>b p. fill_outputs args buf pos = Some (Bad_element, b, p) \<and> length b = length buf"
  using assms
proof (induction args arbitrary: buf pos t)
  case (Cons a args)
  show ?case
  proof (cases "wire_bytes a")
    case None
    then obtain xs where "a = VArray xs" "int_bytes xs = None" using Cons.prems(2) by (cases a) auto
    then show ?thesis using fill_array_bad [of xs pos buf] Cons.prems(3) by auto
  next
    case (Some x)
    then have w: "wire args = None" using Cons.prems(1) by (cases "wire args") auto
    have l: "length x = out_len a" using wire_bytes_length [OF Some] .
    obtain b where b: "copy_into buf pos x = Some b" using Cons.prems(3) l by (simp add: copy_into_def)
    obtain m where "outputs_size args (t + m) = Some n" using Cons.prems(2) by (auto simp: bind_eq_Some_conv)
    then show ?thesis
      using Cons.IH [OF w, of "t + m" "pos + length x" b] fill_output_wire [OF Some, of pos buf] b bus_copy_length [OF b]
        Cons.prems(3) l by simp
  qed
qed simp

text \<open>Both passes together.\<close>

lemma unat_of_nat32: "n < 2 ^ 32 \<Longrightarrow> unat (of_nat n :: u32) = n"
  by (simp add: unat_of_nat take_bit_nat_eq_self)

lemma length_fresh_array [simp]: "length (fresh_array mem n) = n"
  by (simp add: fresh_array_def)

lemma take_buffer_ok:
  assumes "bus_fits heap n"
  obtains nf buf where "take_buffer heap mem (of_nat n) s = Some (nf, buf, if nf then s\<lparr>bus_blocks := bus_blocks s + 1\<rparr> else s)"
    "n \<le> length buf"
proof (cases "n < 256")
  case True
  then have "(of_nat n :: u32) < 256" by (simp add: word_less_nat_alt unat_of_nat32)
  then show ?thesis using True by (intro that [of False "fresh_array mem 256"]) (simp_all add: take_buffer_def MAX_STACK_BUFFER_SIZE_def)
next
  case False
  then have "\<not> (of_nat n :: u32) < 256" using assms by (simp add: bus_fits_def word_less_nat_alt unat_of_nat32)
  then show ?thesis using False assms
    by (intro that [of True "fresh_array mem n"]) (simp_all add: take_buffer_def MAX_STACK_BUFFER_SIZE_def bus_fits_def unat_of_nat32)
qed

lemma copy_into_from: "copy_into buf 0 bs = Some b \<Longrightarrow> copy_from b 0 (length bs) = Some bs"
  by (auto simp: copy_into_def copy_from_def split: if_splits)

lemma fill_and_take:
  assumes "wire args = Some bs" "length bs \<le> length buf"
  obtains b where "fill_outputs args buf 0 = Some (Filled, b, length bs)" "copy_from b 0 (length bs) = Some bs"
proof -
  obtain b where b: "copy_into buf 0 bs = Some b" using assms(2) by (simp add: copy_into_def)
  show ?thesis using that [OF _ copy_into_from [OF b]] fill_outputs_wire [OF assms(1), of 0 buf] assms(2) b by simp
qed

lemma free_taken: "free_buffer nf ((if nf then s\<lparr>bus_blocks := bus_blocks s + 1\<rparr> else s)\<lparr>bus_dev := k\<rparr>) = s\<lparr>bus_dev := k\<rparr>"
  "free_buffer nf (if nf then s\<lparr>bus_blocks := bus_blocks s + 1\<rparr> else s) = s"
  "bus_dev (if nf then s\<lparr>bus_blocks := n\<rparr> else s) = bus_dev s"
  by (simp_all add: free_buffer_def)

text \<open>Arguments that are bytes to send are no hash, and the size of the others is at most the number of values.\<close>

lemma busc_hash_int_wire: "wire args = Some bs \<Longrightarrow> length pre = n \<Longrightarrow> busc_hash_int key n (pre @ args) t = (t, pre @ args)"
proof (cases args rule: rev_cases)
  case (snoc as a)
  assume "wire args = Some bs"
  then have "wire (as @ [a]) \<noteq> None" using snoc by simp
  then have "wire_bytes a \<noteq> None" by (induction as) (auto simp: bind_eq_Some_conv split: bind_splits)
  then have "\<nexists>h. a = VHash h" by auto
  then show ?thesis using snoc by (cases a) (simp_all add: busc_hash_int_def)
qed (simp add: busc_hash_int_def)

lemma scast_cut8: "scast (word_of_int a :: u32) = (word_of_int a :: u8)"
  by (rule bit_word_eqI) (simp add: bit_simps)

section \<open>I2C\<close>

text \<open>The transaction of a call, and what a method makes of its result.\<close>

definition i2c_transaction :: "'k i2c_sdk \<Rightarrow> i2c_obj \<Rightarrow> int \<Rightarrow> int \<Rightarrow> bytes \<Rightarrow> bool \<Rightarrow> 'k \<Rightarrow> int \<times> 'k" where
  "i2c_transaction S o1 adr t bs nostop k =
     I2C_write_timeout_us S (uint (word_of_int (i2c_unit_num o1) :: u8)) (word_of_int adr) bs nostop (word_of_int t * 1000) k"

lemma mrb_i2c_outputs_ok:
  assumes w: "wire args = Some bs" and f: "bus_fits heap (length bs)"
  shows "mrb_i2c_write_outputs S heap mem (i2c_unit_num o1) adr args t nostop s =
    (case i2c_transaction S o1 adr t bs nostop (bus_dev s) of (r, k) \<Rightarrow> Some (Inr r, s\<lparr>bus_dev := k\<rparr>))"
proof -
  obtain nf buf where b: "take_buffer heap mem (of_nat (length bs)) s = Some (nf, buf, if nf then s\<lparr>bus_blocks := bus_blocks s + 1\<rparr> else s)"
    "length bs \<le> length buf" by (rule take_buffer_ok [OF f])
  obtain b' where "fill_outputs args buf 0 = Some (Filled, b', length bs)" "copy_from b' 0 (length bs) = Some bs"
    by (rule fill_and_take [OF w b(2)])
  then show ?thesis
    using f outputs_size_wire [OF w, of 0] b(1)
    by (simp add: mrb_i2c_write_outputs_def bus_fits_def unat_of_nat32 free_taken i2c_transaction_def split: prod.splits)
qed

lemma mrbc_i2c_outputs_ok:
  assumes w: "wire args = Some bs" and f: "bus_fits heap (length bs)"
  shows "mrbc_i2c_write_outputs S heap mem (i2c_unit_num o1) adr args t nostop s =
    (case i2c_transaction S o1 adr t bs nostop (bus_dev s) of (r, k) \<Rightarrow>
       Some (if r < 0 then (- 1, bus_raise (IOError ''I2C write failed'') (s\<lparr>bus_dev := k\<rparr>)) else (r, s\<lparr>bus_dev := k\<rparr>)))"
proof -
  obtain nf buf where b: "take_buffer heap mem (of_nat (length bs)) s = Some (nf, buf, if nf then s\<lparr>bus_blocks := bus_blocks s + 1\<rparr> else s)"
    "length bs \<le> length buf" by (rule take_buffer_ok [OF f])
  obtain b' where "fill_outputs args buf 0 = Some (Filled, b', length bs)" "copy_from b' 0 (length bs) = Some bs"
    by (rule fill_and_take [OF w b(2)])
  then show ?thesis
    using f outputs_size_wire [OF w, of 0] b(1)
    by (simp add: mrbc_i2c_write_outputs_def bus_fits_def unat_of_nat32 free_taken i2c_transaction_def split: prod.splits)
qed

lemma mrb_i2c_outputs_bad:
  assumes w: "wire args = None" and f: "bus_fits heap (outs_len args)"
  shows "\<exists>m. mrb_i2c_write_outputs S heap mem u adr args t nostop s = Some (Inl (TypeError m), s)"
proof (cases "outputs_size args 0")
  case (Some n)
  then have n: "n = of_nat (outs_len args)" using outputs_size_len by fastforce
  obtain nf buf where b: "take_buffer heap mem n s = Some (nf, buf, if nf then s\<lparr>bus_blocks := bus_blocks s + 1\<rparr> else s)"
    "outs_len args \<le> length buf" unfolding n by (rule take_buffer_ok [OF f])
  then obtain b' p where "fill_outputs args buf 0 = Some (Bad_element, b', p)" using fill_outputs_bad [OF w Some, of 0 buf] by auto
  then show ?thesis using Some b(1) by (simp add: mrb_i2c_write_outputs_def free_taken)
qed (simp add: mrb_i2c_write_outputs_def)

lemma mrbc_i2c_outputs_bad:
  assumes w: "wire args = None" and f: "bus_fits heap (outs_len args)"
  shows "\<exists>m. mrbc_i2c_write_outputs S heap mem u adr args t nostop s = Some (- 1, bus_raise (TypeError m) s)"
proof (cases "outputs_size args 0")
  case (Some n)
  then have n: "n = of_nat (outs_len args)" using outputs_size_len by fastforce
  obtain nf buf where b: "take_buffer heap mem n s = Some (nf, buf, if nf then s\<lparr>bus_blocks := bus_blocks s + 1\<rparr> else s)"
    "outs_len args \<le> length buf" unfolding n by (rule take_buffer_ok [OF f])
  then obtain b' p where "fill_outputs args buf 0 = Some (Bad_element, b', p)" using fill_outputs_bad [OF w Some, of 0 buf] by auto
  then show ?thesis using Some b(1) by (simp add: mrbc_i2c_write_outputs_def free_taken; blast)
qed (simp add: mrbc_i2c_write_outputs_def; blast)

text \<open>C39: I2C#write without the keyword timeout, called with integers, arrays and strings and with memory for
  its buffer, sends the concatenated bytes of its arguments in one transaction and returns the result of the port, or
  raises IOError when that is negative; both virtual machines do the same, and no block stays allocated.\<close>

theorem i2c_write_sends:
  assumes "wire args = Some bs" "bus_fits heap (length bs)"
  shows "case i2c_transaction S o1 adr (i2c_timeout o1) bs False (bus_dev s) of (r, k) \<Rightarrow>
      mrb_i2c_write S heap mem o1 adr args None s =
        Some (if r < 0 then Inl (IOError ''I2C write failed'') else Inr (VInt r), s\<lparr>bus_dev := k\<rparr>)
    \<and> c_i2c_write S heap mem o1 (VInt adr # args) s =
        Some (if r < 0 then (mrbc_self, bus_raise (IOError ''I2C write failed'') (s\<lparr>bus_dev := k\<rparr>)) else (VInt r, s\<lparr>bus_dev := k\<rparr>))"
proof -
  have 8: "i2c_transaction S o1 (sint (word_of_int adr :: u32)) t bs n k = i2c_transaction S o1 adr t bs n k" for t n k
    by (simp add: i2c_transaction_def scast_cut8)
  show ?thesis
    using busc_hash_int_wire [OF assms(1), of "[VInt adr]" 1 "''timeout''" "i2c_timeout o1"]
    by (simp add: mrb_i2c_write_def c_i2c_write_def i2c_kw_timeout_def GET_INT_ARG_def mrb_i2c_outputs_ok [OF assms]
        mrbc_i2c_outputs_ok [OF assms] 8 split: prod.splits)
qed

theorem i2c_write_rejects:
  assumes "wire args = None" "bus_fits heap (outs_len args)" "\<forall>h. last args \<noteq> VHash h"
  shows "\<exists>m. mrb_i2c_write S heap mem o1 adr args None s = Some (Inl (TypeError m), s)"
    and "\<exists>m. c_i2c_write S heap mem o1 (VInt adr # args) s = Some (mrbc_self, bus_raise (TypeError m) s)"
proof -
  have "args \<noteq> []" using assms(1) by auto
  then have h: "busc_hash_int ''timeout'' (Suc 0) (VInt adr # args) t = (t, VInt adr # args)" for t
    using assms(3) by (cases "last args") (simp_all add: busc_hash_int_def)
  show "\<exists>m. mrb_i2c_write S heap mem o1 adr args None s = Some (Inl (TypeError m), s)"
    using mrb_i2c_outputs_bad [OF assms(1,2), of S mem "i2c_unit_num o1" adr "i2c_timeout o1" False s]
    by (auto simp: mrb_i2c_write_def i2c_kw_timeout_def)
  show "\<exists>m. c_i2c_write S heap mem o1 (VInt adr # args) s = Some (mrbc_self, bus_raise (TypeError m) s)"
    using mrbc_i2c_outputs_bad [OF assms(1,2), of S mem "i2c_unit_num o1" "sint (word_of_int adr :: u32)" "i2c_timeout o1" False s]
    by (auto simp: c_i2c_write_def GET_INT_ARG_def h)
qed

text \<open>The documented result of a read of the SDK: how many bytes it has stored, or an error.\<close>

definition i2c_reads :: "'k i2c_sdk \<Rightarrow> bool" where
  "i2c_reads S \<longleftrightarrow> (\<forall>u a n ns t k. case i2c_read_timeout_us S u a n ns t k of
     (r, xs, k') \<Rightarrow> length xs \<le> n \<and> (0 < r \<longrightarrow> r = int (length xs)))"

lemma copy_prefix: "length xs \<le> length buf \<Longrightarrow> \<exists>b. copy_into buf 0 xs = Some b \<and> copy_from b 0 (length xs) = Some xs"
  by (simp add: copy_into_def copy_from_def)

lemma i2c_receive_ok:
  assumes S: "i2c_reads S" and n: "0 < n" "n < 2 ^ 31" and u: "i2c_unit_select (uint (word_of_int un :: u8)) = Some u"
    and r: "i2c_read_timeout_us S u (word_of_int adr) (nat n) False (word_of_int t * 1000) (bus_dev s) = (r, xs, k)"
  shows "i2c_receive S mem un adr n t s = Some (if 0 < r then Some xs else None, s\<lparr>bus_dev := k\<rparr>)"
proof -
  have x: "length xs \<le> nat n" "0 < r \<longrightarrow> r = int (length xs)"
    using S [unfolded i2c_reads_def, rule_format, where u = u and a = "word_of_int adr" and n = "nat n"
        and ns = False and t = "word_of_int t * 1000" and k = "bus_dev s"] r
    by simp_all
  obtain b where "copy_into (fresh_array mem (nat n)) 0 xs = Some b" "copy_from b 0 (length xs) = Some xs"
    using copy_prefix [of xs "fresh_array mem (nat n)"] x(1) by auto
  then show ?thesis using n x(2) by (auto simp: i2c_receive_def I2C_read_timeout_us_def u r)
qed

text \<open>A method that reads sends the bytes of its arguments first, without the stop condition.\<close>

theorem i2c_read_receives:
  assumes S: "i2c_reads S" and "wire args = Some bs" "args \<noteq> []" "bus_fits heap (length bs)" "0 < n" "n < 2 ^ 31"
    and u: "i2c_unit_select (uint (word_of_int (i2c_unit_num o1) :: u8)) = Some u"
    and w: "i2c_transaction S o1 adr (i2c_timeout o1) bs True (bus_dev s) = (w, k)" "0 \<le> w"
    and r: "i2c_read_timeout_us S u (word_of_int adr) (nat n) False (word_of_int (i2c_timeout o1) * 1000) k = (r, xs, k')"
  shows "mrb_i2c_read S heap mem o1 adr n args None s =
      Some (if 0 < r then Inr (VStr xs) else Inl (IOError ''I2C read failed''), s\<lparr>bus_dev := k'\<rparr>)"
    and "c_i2c_read S heap mem o1 (VInt adr # VInt n # args) s =
      Some (if 0 < r then (VStr xs, s\<lparr>bus_dev := k'\<rparr>) else (mrbc_self, bus_raise (IOError ''I2C read failed'') (s\<lparr>bus_dev := k'\<rparr>)))"
proof -
  let ?a = "sint (word_of_int adr :: u32)"
  have 8: "i2c_transaction S o1 ?a t bs b k = i2c_transaction S o1 adr t bs b k" for t b k
    by (simp add: i2c_transaction_def scast_cut8)
  have n: "sint (word_of_int n :: u32) = n" using c_int_small [of n] assms(5,6) by (simp add: c_int_def)
  note rc = i2c_receive_ok [OF S assms(5,6) u, where s = "s\<lparr>bus_dev := k\<rparr>"]
  show "mrb_i2c_read S heap mem o1 adr n args None s =
      Some (if 0 < r then Inr (VStr xs) else Inl (IOError ''I2C read failed''), s\<lparr>bus_dev := k'\<rparr>)"
    using assms(3) w(2) rc [of adr "i2c_timeout o1" r xs k' mem] r
    by (simp add: mrb_i2c_read_def i2c_kw_timeout_def mrb_i2c_outputs_ok [OF assms(2,4)] w(1))
  show "c_i2c_read S heap mem o1 (VInt adr # VInt n # args) s =
      Some (if 0 < r then (VStr xs, s\<lparr>bus_dev := k'\<rparr>) else (mrbc_self, bus_raise (IOError ''I2C read failed'') (s\<lparr>bus_dev := k'\<rparr>)))"
    using assms(3) w(2) rc [of ?a "i2c_timeout o1" r xs k' mem] r
      busc_hash_int_wire [OF assms(2), of "[VInt adr, VInt n]" 2 "''timeout''" "i2c_timeout o1"]
    by (simp add: c_i2c_read_def GET_INT_ARG_def mrbc_i2c_outputs_ok [OF assms(2,4)] 8 w(1) n scast_cut8)
qed

section \<open>Deviations\<close>

text \<open>Without pins, as by default, the clock pin is set up in the place of the data pin, and pin -1 as the clock pin.\<close>

theorem i2c_default_pins:
  assumes "PICO_DEFAULT_I2C_SDA_PIN S = 4" "PICO_DEFAULT_I2C_SCL_PIN S = 5"
  shows "snd (I2C_gpio_init S 0 f (- 1) (- 1) k) =
    i2c_gpio_pull_up S (- 1) (i2c_gpio_pull_up S 5 (i2c_gpio_set_function S (- 1)
      (i2c_gpio_set_function S 5 (i2c_init S 0 f k))))"
  using assms by (simp add: I2C_gpio_init_def i2c_unit_select_def Let_def)

text \<open>In mruby/c a unit of an unknown name is no error, but the unit -1.\<close>

theorem i2c_unknown_unit:
  assumes "name \<noteq> ''RP2040_I2C0''" "name \<noteq> ''RP2040_I2C1''"
  shows "c_i2c__init S name [VStr [], VInt f, VInt a, VInt b] s = Some (VInt (- 1), s)"
    and "mrb_i2c__init S name f a b s = Some (Inl (IOError ''Invalid I2C unit''), s)"
  using assms
  by (simp_all add: c_i2c__init_def mrb_i2c__init_def I2C_unit_name_to_unit_num_def I2C_gpio_init_def i2c_unit_select_def
      I2C_ERROR_INVALID_UNIT_def GET_INT_ARG_def arr_get_def)

text \<open>A timeout of more than 4294967 milliseconds becomes a short one.\<close>

theorem i2c_timeout_wraps:
  assumes "i2c_unit_num o1 = 0"
  shows "i2c_transaction S o1 adr 4294968 bs nostop k = i2c_write_timeout_us S 0 (word_of_int adr) bs nostop 704 k"
proof -
  have e: "(4294968000 :: u32) = 704" by simp
  show ?thesis using assms by (simp add: e i2c_transaction_def I2C_write_timeout_us_def i2c_unit_select_def)
qed

section \<open>Witnesses\<close>

text \<open>A bus that keeps the bytes of all writes and answers with their number.\<close>

definition i2c_log :: "bytes list i2c_sdk" where
  "i2c_log = \<lparr>
     i2c_write_timeout_us = (\<lambda>u a src ns t k. (int (length src), k @ [src])),
     i2c_read_timeout_us = (\<lambda>u a n ns t k. (int n, replicate n 0, k)),
     i2c_init = (\<lambda>u f k. k), i2c_gpio_set_function = (\<lambda>p k. k), i2c_gpio_pull_up = (\<lambda>p k. k),
     PICO_DEFAULT_I2C_SDA_PIN = 4, PICO_DEFAULT_I2C_SCL_PIN = 5\<rparr>"

theorem i2c_write_sends_witness:
  "mrb_i2c_write i2c_log (\<lambda>n. False) (\<lambda>i. 0) \<lparr>i2c_unit_num = 1, i2c_timeout = 500\<rparr> 0x3C
     [VInt 0x40, VArray [VInt 1, VInt 258], VStr [7]] None \<lparr>bus_dev = [], bus_blocks = 0, bus_exc = None\<rparr>
   = Some (Inr (VInt 4), \<lparr>bus_dev = [[0x40, 1, 2, 7]], bus_blocks = 0, bus_exc = None\<rparr>)"
  using i2c_write_sends [of "[VInt 0x40, VArray [VInt 1, VInt 258], VStr [7]]" "[0x40, 1, 2, 7]" "\<lambda>n. False" i2c_log "\<lambda>i. 0"
      "\<lparr>i2c_unit_num = 1, i2c_timeout = 500\<rparr>" "0x3C" "\<lparr>bus_dev = [], bus_blocks = 0, bus_exc = None\<rparr>"]
  by (simp add: bus_fits_def i2c_transaction_def I2C_write_timeout_us_def i2c_unit_select_def i2c_log_def)

end
