(* ===== verification/Spi.thy ===== *)
theory Spi
  imports Bus
begin

unbundle bit_operations_syntax

text \<open>
  The class SPI (\<^verbatim>\<open>picoruby-spi\<close>) for both virtual machines and its port to the RP2040, with the
  hardware units and the unit \<^verbatim>\<open>BITBANG\<close>, which drives the pins itself.

  What lies behind the SDK is the list of the calls so far: the levels of the pins, transfers and
  waiting. What the device answers is a function of that list, the same for all questions, so
  that it covers every device.
\<close>

section \<open>The pins and the hardware\<close>

datatype spi_event =
    Gpio_init int
  | Gpio_set_dir int bool
  | Gpio_put int bool
  | Gpio_get int
  | Gpio_function_spi int
  | Busy_wait nat
  | Spi_init nat u32
  | Spi_set_format nat u8 bool bool u8
  | Spi_read nat u8 nat
  | Spi_write nat bytes
  | Spi_write_read nat bytes

record spi_env =
  gpio_get :: "spi_event list \<Rightarrow> int \<Rightarrow> bool"
  spi_read_blocking :: "spi_event list \<Rightarrow> int \<times> bytes"
  spi_write_blocking :: "spi_event list \<Rightarrow> int"
  spi_write_read_blocking :: "spi_event list \<Rightarrow> int \<times> bytes"
  PICO_DEFAULT_SPI_SCK_PIN :: int
  PICO_DEFAULT_SPI_RX_PIN :: int
  PICO_DEFAULT_SPI_TX_PIN :: int

record spi_unit_info =
  frequency :: u32
  unit_num :: u8
  sck_pin :: u8
  copi_pin :: u8
  cipo_pin :: u8
  cs_pin :: u8
  spi_mode :: u8
  first_bit :: u8
  data_bits :: u8

text \<open>The macro \<^verbatim>\<open>UNIT_SELECT\<close>: no unit, the pins, or a hardware unit.\<close>

datatype spi_unit = Spi_pins | Spi_hw nat

definition spi_unit_select :: "spi_unit_info \<Rightarrow> spi_unit option" where
  "spi_unit_select ui =
     (if unit_num ui = 0 then Some Spi_pins
      else if unit_num ui = 1 then Some (Spi_hw 0)
      else if unit_num ui = 2 then Some (Spi_hw 1) else None)"

definition SPI_ERROR_INVALID_UNIT :: int where "SPI_ERROR_INVALID_UNIT = - 1"
definition SPI_ERROR_INVALID_MODE :: int where "SPI_ERROR_INVALID_MODE = - 2"
definition SPI_ERROR_INVALID_FIRST_BIT :: int where "SPI_ERROR_INVALID_FIRST_BIT = - 3"
definition SPI_ERROR_NOT_IMPLEMENTED :: int where "SPI_ERROR_NOT_IMPLEMENTED = - 4"

text \<open>The inner loops over the bits of a byte, and the loops over the bytes. The pins are of type \<^verbatim>\<open>int8_t\<close>.\<close>

fun read_bits :: "spi_env \<Rightarrow> spi_unit_info \<Rightarrow> nat \<Rightarrow> u8 \<Rightarrow> spi_event list \<Rightarrow> u8 \<times> spi_event list" where
  "read_bits E ui 0 temp k = (temp, k)"
| "read_bits E ui (Suc n) temp k =
     (let k = k @ [Busy_wait 1, Gpio_put (sint (sck_pin ui)) False, Busy_wait 1];
          b = gpio_get E k (sint (cipo_pin ui));
          k = k @ [Gpio_get (sint (cipo_pin ui)), Busy_wait 20, Gpio_put (sint (sck_pin ui)) True]
      in read_bits E ui n (push_bit 1 temp OR of_bool b) k)"

fun bitbang_read_loop :: "spi_env \<Rightarrow> spi_unit_info \<Rightarrow> nat \<Rightarrow> nat \<Rightarrow> bytes \<Rightarrow> spi_event list \<Rightarrow> (bytes \<times> spi_event list) option" where
  "bitbang_read_loop E ui 0 i dst k = Some (dst, k)"
| "bitbang_read_loop E ui (Suc n) i dst k = do {
     let (temp, k) = read_bits E ui 8 0 k;
     dst \<leftarrow> arr_set dst i temp;
     bitbang_read_loop E ui n (i + 1) dst k
   }"

definition bitbang_read_blocking :: "spi_env \<Rightarrow> spi_unit_info \<Rightarrow> bytes \<Rightarrow> nat \<Rightarrow> spi_event list \<Rightarrow> (int \<times> bytes \<times> spi_event list) option" where
  "bitbang_read_blocking E ui dst n k = do {
     (dst, k) \<leftarrow> bitbang_read_loop E ui n 0 dst (k @ [Gpio_set_dir (sint (cipo_pin ui)) False]);
     Some (int n, dst, k)
   }"

fun write_bits :: "spi_unit_info \<Rightarrow> nat \<Rightarrow> u8 \<Rightarrow> spi_event list \<Rightarrow> spi_event list" where
  "write_bits ui 0 temp k = k"
| "write_bits ui (Suc n) temp k =
     write_bits ui n (push_bit 1 temp)
       (k @ [Gpio_put (sint (sck_pin ui)) False, Busy_wait 1, Gpio_put (sint (copi_pin ui)) (temp AND 0x80 \<noteq> 0),
             Gpio_put (sint (sck_pin ui)) True, Busy_wait 1])"

fun bitbang_write_loop :: "spi_unit_info \<Rightarrow> bytes \<Rightarrow> spi_event list \<Rightarrow> spi_event list" where
  "bitbang_write_loop ui [] k = k"
| "bitbang_write_loop ui (b # src) k = bitbang_write_loop ui src (write_bits ui 8 b k)"

definition bitbang_write_blocking :: "spi_unit_info \<Rightarrow> bytes \<Rightarrow> spi_event list \<Rightarrow> int \<times> spi_event list" where
  "bitbang_write_blocking ui src k =
     (int (length src), bitbang_write_loop ui src (k @ [Gpio_set_dir (sint (copi_pin ui)) True]))"

definition SPI_read_blocking :: "spi_env \<Rightarrow> spi_unit_info \<Rightarrow> bytes \<Rightarrow> nat \<Rightarrow> u8 \<Rightarrow> spi_event list \<Rightarrow> (int \<times> bytes \<times> spi_event list) option" where
  "SPI_read_blocking E ui dst n repeated_tx_data k =
     (case spi_unit_select ui of
        None \<Rightarrow> Some (SPI_ERROR_INVALID_UNIT, dst, k)
      | Some Spi_pins \<Rightarrow> bitbang_read_blocking E ui dst n k
      | Some (Spi_hw u) \<Rightarrow> do {
          let k = k @ [Spi_read u repeated_tx_data n];
          let (r, bs) = spi_read_blocking E k;
          dst \<leftarrow> copy_into dst 0 bs;
          Some (r, dst, k)
        })"

definition SPI_write_blocking :: "spi_env \<Rightarrow> spi_unit_info \<Rightarrow> bytes \<Rightarrow> spi_event list \<Rightarrow> int \<times> spi_event list" where
  "SPI_write_blocking E ui src k =
     (case spi_unit_select ui of
        None \<Rightarrow> (SPI_ERROR_INVALID_UNIT, k)
      | Some Spi_pins \<Rightarrow> bitbang_write_blocking ui src k
      | Some (Spi_hw u) \<Rightarrow> (let k = k @ [Spi_write u src] in (spi_write_blocking E k, k)))"

text \<open>The receive array starts at \<open>off\<close> in the block \<open>dst\<close>.\<close>

definition SPI_transfer :: "spi_env \<Rightarrow> spi_unit_info \<Rightarrow> bytes \<Rightarrow> bytes \<Rightarrow> nat \<Rightarrow> spi_event list \<Rightarrow> (int \<times> bytes \<times> spi_event list) option" where
  "SPI_transfer E ui txdata dst off k =
     (case spi_unit_select ui of
        None \<Rightarrow> Some (SPI_ERROR_INVALID_UNIT, dst, k)
      | Some Spi_pins \<Rightarrow> Some (SPI_ERROR_NOT_IMPLEMENTED, dst, k)
      | Some (Spi_hw u) \<Rightarrow> do {
          let k = k @ [Spi_write_read u txdata];
          let (r, bs) = spi_write_read_blocking E k;
          dst \<leftarrow> copy_into dst off bs;
          Some (r, dst, k)
        })"

definition SPI_unit_name_to_unit_num :: "string \<Rightarrow> int" where
  "SPI_unit_name_to_unit_num unit_name =
     (if unit_name = ''RP2040_SPI0'' then 1 else if unit_name = ''RP2040_SPI1'' then 2 else SPI_ERROR_INVALID_UNIT)"

text \<open>The SDK's constant \<^verbatim>\<open>SPI_MSB_FIRST\<close> is 1.\<close>

definition SPI_gpio_init :: "spi_env \<Rightarrow> spi_unit_info \<Rightarrow> spi_event list \<Rightarrow> int \<times> spi_unit_info \<times> spi_event list" where
  "SPI_gpio_init E ui k =
     (case spi_unit_select ui of
        None \<Rightarrow> (SPI_ERROR_INVALID_UNIT, ui, k)
      | Some u \<Rightarrow>
         let ui = (if sint (sck_pin ui) < 0 then ui\<lparr>sck_pin := word_of_int (PICO_DEFAULT_SPI_SCK_PIN E)\<rparr> else ui);
             ui = (if sint (cipo_pin ui) < 0 then ui\<lparr>cipo_pin := word_of_int (PICO_DEFAULT_SPI_RX_PIN E)\<rparr> else ui);
             ui = (if sint (copi_pin ui) < 0 then ui\<lparr>copi_pin := word_of_int (PICO_DEFAULT_SPI_TX_PIN E)\<rparr> else ui);
             sck = sint (sck_pin ui); cipo = sint (cipo_pin ui); copi = sint (copi_pin ui)
         in (case u of
               Spi_hw n \<Rightarrow>
                (let k = k @ [Spi_init n (frequency ui), Gpio_function_spi sck, Gpio_function_spi cipo, Gpio_function_spi copi]
                 in if first_bit ui \<noteq> 1 then (SPI_ERROR_INVALID_FIRST_BIT, ui, k)
                    else if spi_mode ui < 4
                    then (0, ui, k @ [Spi_set_format n (data_bits ui) (spi_mode ui = 2 \<or> spi_mode ui = 3)
                                        (spi_mode ui = 1 \<or> spi_mode ui = 3) (first_bit ui)])
                    else (SPI_ERROR_INVALID_MODE, ui, k))
             | Spi_pins \<Rightarrow>
                (0, ui, k @ [Gpio_init sck, Gpio_put sck True, Gpio_init cipo, Gpio_set_dir sck True, Gpio_set_dir cipo False]
                          @ (if copi_pin ui \<noteq> cipo_pin ui then [Gpio_init copi, Gpio_set_dir copi True] else []))))"

section \<open>The class SPI of mruby\<close>

type_synonym spi_state = "spi_event list bus"

text \<open>\<open>additional_bytes\<close> is converted to \<^verbatim>\<open>size_t\<close>, also when it is negative.\<close>

definition mrb_spi_calculate_buffer_size :: "mrb_value list \<Rightarrow> u32 \<Rightarrow> u32 rb_result" where
  "mrb_spi_calculate_buffer_size args additional_bytes =
     (case outputs_size args additional_bytes of
        None \<Rightarrow> Inl (ArgumentError ''argument must be Integer, Array or String'')
      | Some total_size \<Rightarrow> Inr total_size)"

fun fill_zeros :: "nat \<Rightarrow> bytes \<Rightarrow> nat \<Rightarrow> bytes option" where
  "fill_zeros 0 buffer pos = Some buffer"
| "fill_zeros (Suc n) buffer pos = do { buffer \<leftarrow> arr_set buffer pos 0; fill_zeros n buffer (pos + 1) }"

definition mrb_spi_fill_buffer :: "bytes \<Rightarrow> mrb_value list \<Rightarrow> u32 \<Rightarrow> bytes rb_result option" where
  "mrb_spi_fill_buffer buffer args additional_zeros = do {
     (r, buffer, pos) \<leftarrow> fill_outputs args buffer 0;
     (case r of
        Bad_element \<Rightarrow> Some (Inl (TypeError ''array element must be Fixnum''))
      | Bad_argument \<Rightarrow> Some (Inl (ArgumentError ''argument must be Integer, Array or String''))
      | Filled \<Rightarrow> map_option Inr (fill_zeros (unat additional_zeros) buffer pos))
   }"

text \<open>An exception leaves the function without freeing the block.\<close>

definition mrb_spi_write_outputs :: "spi_env \<Rightarrow> (u32 \<Rightarrow> bool) \<Rightarrow> (nat \<Rightarrow> u8) \<Rightarrow> spi_unit_info \<Rightarrow> mrb_value list
    \<Rightarrow> spi_state \<Rightarrow> (int rb_result \<times> spi_state) option" where
  "mrb_spi_write_outputs E heap mem ui args s =
     (case mrb_spi_calculate_buffer_size args 0 of
        Inl e \<Rightarrow> Some (Inl e, s)
      | Inr total_size \<Rightarrow>
         (if total_size = 0 then Some (Inr (- 1), s)
          else case take_buffer heap mem total_size s of
            None \<Rightarrow> Some (Inl (NoMemoryError ''Out of memory''), s)
          | Some (needs_free, buffer, s) \<Rightarrow> do {
              r \<leftarrow> mrb_spi_fill_buffer buffer args 0;
              (case r of
                 Inl e \<Rightarrow> Some (Inl e, s)
               | Inr buffer \<Rightarrow> do {
                   src \<leftarrow> copy_from buffer 0 (unat total_size);
                   let (res, k) = SPI_write_blocking E ui src (bus_dev s);
                   Some (Inr res, free_buffer needs_free (s\<lparr>bus_dev := k\<rparr>))
                 })
            }))"

definition mrb_spi_write :: "spi_env \<Rightarrow> (u32 \<Rightarrow> bool) \<Rightarrow> (nat \<Rightarrow> u8) \<Rightarrow> spi_unit_info \<Rightarrow> mrb_value list
    \<Rightarrow> spi_state \<Rightarrow> (mrb_value rb_result \<times> spi_state) option" where
  "mrb_spi_write E heap mem ui args s = do {
     (r, s) \<leftarrow> mrb_spi_write_outputs E heap mem ui args s;
     Some (case r of
             Inl e \<Rightarrow> (Inl e, s)
           | Inr total_bytes \<Rightarrow>
              (if total_bytes < 0 then (Inl (IOError ''SPI write failed''), s) else (Inr (VInt total_bytes), s)))
   }"

text \<open>
  The array \<^verbatim>\<open>rxdata\<close> on the stack has the length of the argument, which C requires to be
  positive; a length of half the address space or more, such as a negative one of mruby/c that
  is converted to \<^verbatim>\<open>size_t\<close>, is undefined too.
\<close>

definition spi_receive :: "spi_env \<Rightarrow> (nat \<Rightarrow> u8) \<Rightarrow> spi_unit_info \<Rightarrow> int \<Rightarrow> u8 \<Rightarrow> spi_state \<Rightarrow> (bytes option \<times> spi_state) option" where
  "spi_receive E mem ui n repeated_tx_data s =
     (if n \<le> 0 \<or> 2 ^ 31 \<le> n then None
      else do {
        (ret_len, rxdata, k) \<leftarrow> SPI_read_blocking E ui (fresh_array mem (nat n)) (nat n) repeated_tx_data (bus_dev s);
        let s = s\<lparr>bus_dev := k\<rparr>;
        (if - 1 < ret_len then do { x \<leftarrow> copy_from rxdata 0 (nat ret_len); Some (Some x, s) } else Some (None, s))
      })"

definition mrb_spi_read :: "spi_env \<Rightarrow> (nat \<Rightarrow> u8) \<Rightarrow> spi_unit_info \<Rightarrow> int \<Rightarrow> int option \<Rightarrow> spi_state \<Rightarrow> (mrb_value rb_result \<times> spi_state) option" where
  "mrb_spi_read E mem ui n repeated_tx_data s = do {
     (x, s) \<leftarrow> spi_receive E mem ui n (case repeated_tx_data of None \<Rightarrow> 0 | Some d \<Rightarrow> word_of_int d) s;
     Some (case x of Some x \<Rightarrow> Inr (VStr x) | None \<Rightarrow> Inl (IOError ''SPI read failed''), s)
   }"

text \<open>
  The buffers of \<^verbatim>\<open>transfer\<close>: two arrays on the stack, or the two halves of one block, whose size
  is computed with 32 bits. Here both are parts of one list, the second from \<open>off\<close> on, and for
  the arrays the first ends there (\<open>tx\<close>).
\<close>

definition take_buffers :: "(u32 \<Rightarrow> bool) \<Rightarrow> (nat \<Rightarrow> u8) \<Rightarrow> u32 \<Rightarrow> spi_state \<Rightarrow> (bool \<times> bytes \<times> bytes option \<times> spi_state) option" where
  "take_buffers heap mem total_size s =
     (if total_size < MAX_STACK_BUFFER_SIZE
      then Some (False, fresh_array mem (unat MAX_STACK_BUFFER_SIZE), Some (fresh_array mem (unat MAX_STACK_BUFFER_SIZE)), s)
      else if heap (total_size * 2)
      then Some (True, fresh_array mem (unat (total_size * 2)), None, s\<lparr>bus_blocks := bus_blocks s + 1\<rparr>)
      else None)"

definition transfer_filled :: "spi_env \<Rightarrow> spi_unit_info \<Rightarrow> bytes \<Rightarrow> bytes option \<Rightarrow> u32 \<Rightarrow> spi_state
    \<Rightarrow> (int \<times> bytes option \<times> spi_state) option" where
  "transfer_filled E ui tx rx total_size s = do {
     src \<leftarrow> copy_from tx 0 (unat total_size);
     let (dst, off) = (case rx of Some dst \<Rightarrow> (dst, 0) | None \<Rightarrow> (tx, unat total_size));
     (ret_len, dst, k) \<leftarrow> SPI_transfer E ui src dst off (bus_dev s);
     let s = s\<lparr>bus_dev := k\<rparr>;
     (if word_of_int ret_len = total_size
      then do { x \<leftarrow> copy_from dst off (unat total_size); Some (ret_len, Some x, s) }
      else Some (ret_len, None, s))
   }"

definition mrb_spi_transfer :: "spi_env \<Rightarrow> (u32 \<Rightarrow> bool) \<Rightarrow> (nat \<Rightarrow> u8) \<Rightarrow> spi_unit_info \<Rightarrow> mrb_value list
    \<Rightarrow> mrb_value option \<Rightarrow> spi_state \<Rightarrow> (mrb_value rb_result \<times> spi_state) option" where
  "mrb_spi_transfer E heap mem ui args kw s = do {
     additional_read_bytes \<leftarrow> (case kw of None \<Rightarrow> Some 0 | Some (VInt n) \<Rightarrow> Some (word_of_int n) | Some _ \<Rightarrow> None);
     (case mrb_spi_calculate_buffer_size args additional_read_bytes of
        Inl e \<Rightarrow> Some (Inl e, s)
      | Inr total_size \<Rightarrow>
         (case take_buffers heap mem total_size s of
            None \<Rightarrow> Some (Inl (NoMemoryError ''Out of memory''), s)
          | Some (needs_free, txdata, rxdata, s) \<Rightarrow> do {
              r \<leftarrow> mrb_spi_fill_buffer txdata args additional_read_bytes;
              (case r of
                 Inl e \<Rightarrow> Some (Inl e, s)
               | Inr txdata \<Rightarrow> do {
                   (ret_len, x, s) \<leftarrow> transfer_filled E ui txdata rxdata total_size s;
                   Some (case x of Some x \<Rightarrow> Inr (VStr x) | None \<Rightarrow> Inl (IOError ''SPI transfer failed''),
                         free_buffer needs_free s)
                 })
            }))
   }"

definition mrb_sck_pin :: "spi_unit_info \<Rightarrow> mrb_value" where "mrb_sck_pin ui = VInt (sint (sck_pin ui))"
definition mrb_copi_pin :: "spi_unit_info \<Rightarrow> mrb_value" where "mrb_copi_pin ui = VInt (sint (copi_pin ui))"
definition mrb_cipo_pin :: "spi_unit_info \<Rightarrow> mrb_value" where "mrb_cipo_pin ui = VInt (sint (cipo_pin ui))"
definition mrb_cs_pin :: "spi_unit_info \<Rightarrow> mrb_value" where "mrb_cs_pin ui = VInt (sint (cs_pin ui))"

text \<open>The record from the eight numbers of \<^verbatim>\<open>SPI.init\<close>, each cut to its width.\<close>

definition new_unit_info :: "int \<Rightarrow> int list \<Rightarrow> spi_unit_info option" where
  "new_unit_info n xs =
     (case xs of
        [freq, sck, cipo, copi, cs, mode, first, bits] \<Rightarrow>
          Some \<lparr>frequency = word_of_int freq, unit_num = word_of_int n, sck_pin = word_of_int sck,
                copi_pin = word_of_int copi, cipo_pin = word_of_int cipo, cs_pin = word_of_int cs,
                spi_mode = word_of_int mode, first_bit = word_of_int first, data_bits = word_of_int bits\<rparr>
      | _ \<Rightarrow> None)"

definition spi_init_message :: "int \<Rightarrow> string" where
  "spi_init_message status =
     (if status = SPI_ERROR_INVALID_UNIT then ''Invalid SPI unit''
      else if status = SPI_ERROR_INVALID_MODE then ''Invalid SPI mode''
      else if status = SPI_ERROR_INVALID_FIRST_BIT then ''Invalid SPI first bit'' else ''Unknown SPI error'')"

definition mrb_spi_s_init :: "spi_env \<Rightarrow> string \<Rightarrow> int list \<Rightarrow> spi_state \<Rightarrow> (spi_unit_info rb_result \<times> spi_state) option" where
  "mrb_spi_s_init E unit_name xs s =
     (let n = (if unit_name \<noteq> ''BITBANG'' then SPI_unit_name_to_unit_num unit_name else 0)
      in if n < 0 then Some (Inl (IOError ''Invalid SPI unit name''), s)
         else do {
           ui \<leftarrow> new_unit_info n xs;
           let (status, ui, k) = SPI_gpio_init E ui (bus_dev s);
           let s = s\<lparr>bus_dev := k\<rparr>;
           Some (if status < 0 then Inl (IOError (spi_init_message status)) else Inr ui, s)
         })"

section \<open>The class SPI of mruby/c\<close>

definition mrbc_spi_calculate_buffer_size :: "mrb_value list \<Rightarrow> u32 \<Rightarrow> 'k bus \<Rightarrow> u32 \<times> 'k bus" where
  "mrbc_spi_calculate_buffer_size args additional_bytes s =
     (case outputs_size args additional_bytes of
        None \<Rightarrow> (0, bus_raise (TypeError ''argument must be Integer, Array or String'') s)
      | Some total_size \<Rightarrow> (total_size, s))"

text \<open>After an exception the buffer stays as it is then, and the caller does not notice.\<close>

definition mrbc_spi_fill_buffer :: "bytes \<Rightarrow> mrb_value list \<Rightarrow> u32 \<Rightarrow> 'k bus \<Rightarrow> (bytes \<times> 'k bus) option" where
  "mrbc_spi_fill_buffer buffer args additional_zeros s = do {
     (r, buffer, pos) \<leftarrow> fill_outputs args buffer 0;
     (case r of
        Bad_element \<Rightarrow> Some (buffer, bus_raise (TypeError ''array element must be Integer'') s)
      | Bad_argument \<Rightarrow> Some (buffer, bus_raise (TypeError ''argument must be Integer, Array or String'') s)
      | Filled \<Rightarrow> do { buffer \<leftarrow> fill_zeros (unat additional_zeros) buffer pos; Some (buffer, s) })
   }"

definition mrbc_spi_write_outputs :: "spi_env \<Rightarrow> (u32 \<Rightarrow> bool) \<Rightarrow> (nat \<Rightarrow> u8) \<Rightarrow> spi_unit_info \<Rightarrow> mrb_value list
    \<Rightarrow> spi_state \<Rightarrow> (int \<times> spi_state) option" where
  "mrbc_spi_write_outputs E heap mem ui args s =
     (let (total_size, s) = mrbc_spi_calculate_buffer_size args 0 s
      in if total_size = 0 then Some (- 1, s)
         else case take_buffer heap mem total_size s of
           None \<Rightarrow> Some (- 1, bus_raise (StandardError ''Failed to allocate memory'') s)
         | Some (needs_free, buffer, s) \<Rightarrow> do {
             (buffer, s) \<leftarrow> mrbc_spi_fill_buffer buffer args 0 s;
             src \<leftarrow> copy_from buffer 0 (unat total_size);
             let (res, k) = SPI_write_blocking E ui src (bus_dev s);
             Some (res, free_buffer needs_free (s\<lparr>bus_dev := k\<rparr>))
           })"

definition c_spi_write :: "spi_env \<Rightarrow> (u32 \<Rightarrow> bool) \<Rightarrow> (nat \<Rightarrow> u8) \<Rightarrow> spi_unit_info \<Rightarrow> mrb_value list
    \<Rightarrow> spi_state \<Rightarrow> (mrb_value \<times> spi_state) option" where
  "c_spi_write E heap mem ui args s = do {
     (total_bytes, s) \<leftarrow> mrbc_spi_write_outputs E heap mem ui args s;
     Some (if total_bytes < 0 then (mrbc_self, bus_raise (IOError ''SPI write failed'') s) else (VInt total_bytes, s))
   }"

definition c_spi_read :: "spi_env \<Rightarrow> (nat \<Rightarrow> u8) \<Rightarrow> spi_unit_info \<Rightarrow> mrb_value list \<Rightarrow> spi_state \<Rightarrow> (mrb_value \<times> spi_state) option" where
  "c_spi_read E mem ui args s = do {
     n \<leftarrow> GET_INT_ARG args 1;
     repeated_tx_data \<leftarrow> (if 1 < length args then map_option ucast (GET_INT_ARG args 2) else Some 0);
     (x, s) \<leftarrow> spi_receive E mem ui (uint n) repeated_tx_data s;
     Some (case x of Some x \<Rightarrow> (VStr x, s) | None \<Rightarrow> (mrbc_self, bus_raise (IOError ''SPI read failed'') s))
   }"

definition c_spi_transfer :: "spi_env \<Rightarrow> (u32 \<Rightarrow> bool) \<Rightarrow> (nat \<Rightarrow> u8) \<Rightarrow> spi_unit_info \<Rightarrow> mrb_value list
    \<Rightarrow> spi_state \<Rightarrow> (mrb_value \<times> spi_state) option" where
  "c_spi_transfer E heap mem ui args s =
     (let (additional_read_bytes, args) = busc_hash_int ''additional_read_bytes'' 0 args 0;
          (total_size, s) = mrbc_spi_calculate_buffer_size args (word_of_int additional_read_bytes) s
      in if total_size = 0 then Some (mrbc_self, s)
         else case take_buffers heap mem total_size s of
           None \<Rightarrow> Some (mrbc_self, bus_raise (StandardError ''Failed to allocate memory'') s)
         | Some (needs_free, txdata, rxdata, s) \<Rightarrow> do {
             (txdata, s) \<leftarrow> mrbc_spi_fill_buffer txdata args (word_of_int additional_read_bytes) s;
             (ret_len, x, s) \<leftarrow> transfer_filled E ui txdata rxdata total_size s;
             let s = free_buffer needs_free s;
             Some (case x of Some x \<Rightarrow> (VStr x, s) | None \<Rightarrow> (mrbc_self, bus_raise (IOError ''SPI transfer failed'') s))
           })"

definition c_sck_pin :: "spi_unit_info \<Rightarrow> mrb_value" where "c_sck_pin ui = VInt (sint (sck_pin ui))"
definition c_copi_pin :: "spi_unit_info \<Rightarrow> mrb_value" where "c_copi_pin ui = VInt (sint (copi_pin ui))"
definition c_cipo_pin :: "spi_unit_info \<Rightarrow> mrb_value" where "c_cipo_pin ui = VInt (sint (cipo_pin ui))"
definition c_cs_pin :: "spi_unit_info \<Rightarrow> mrb_value" where "c_cs_pin ui = VInt (sint (cs_pin ui))"

definition c_spi_init_message :: "int \<Rightarrow> string" where
  "c_spi_init_message status =
     (if status = SPI_ERROR_INVALID_UNIT then ''Invalid SPI unit''
      else if status = SPI_ERROR_INVALID_MODE then ''Invalid SPI mode''
      else if status = SPI_ERROR_INVALID_FIRST_BIT then ''Invalid SPI firt bit'' else ''Unknown SPI error'')"

text \<open>The object that \<^verbatim>\<open>SPI.init\<close> makes is its record; after an exception nothing is returned.\<close>

definition c_spi_s_init :: "spi_env \<Rightarrow> string \<Rightarrow> mrb_value list \<Rightarrow> spi_state \<Rightarrow> (spi_unit_info option \<times> spi_state) option" where
  "c_spi_s_init E unit_name args s = do {
     let n = (if unit_name \<noteq> ''BITBANG'' then SPI_unit_name_to_unit_num unit_name else 0);
     a2 \<leftarrow> GET_INT_ARG args 2; a3 \<leftarrow> GET_INT_ARG args 3; a4 \<leftarrow> GET_INT_ARG args 4; a5 \<leftarrow> GET_INT_ARG args 5;
     a6 \<leftarrow> GET_INT_ARG args 6; a7 \<leftarrow> GET_INT_ARG args 7; a8 \<leftarrow> GET_INT_ARG args 8; a9 \<leftarrow> GET_INT_ARG args 9;
     ui \<leftarrow> new_unit_info n (map sint [a2, a3, a4, a5, a6, a7, a8, a9]);
     let (status, ui, k) = SPI_gpio_init E ui (bus_dev s);
     let s = s\<lparr>bus_dev := k\<rparr>;
     Some (if status < 0 then (None, bus_raise (IOError (c_spi_init_message status)) s) else (Some ui, s))
   }"

end
