(* ===== verification/SpiProps.thy ===== *)
theory SpiProps
  imports BusProps Spi
begin

unbundle bit_operations_syntax

text \<open>
  What the class SPI sends and receives. On the pins of the unit \<^verbatim>\<open>BITBANG\<close>, a device that samples at the
  rising edge of the clock receives the bytes of the arguments, and what a device shifts out at
  the falling edges is what is read. At the end, where the code deviates.
\<close>

section \<open>What a device on the pins sees\<close>

text \<open>
  A device at the clock \<open>sck\<close> and the data line \<open>copi\<close>: the levels of both, the bits it has sampled,
  one at each rising edge of the clock, and how many falling edges there were.
\<close>

record spi_line =
  clock :: bool
  data :: bool
  sampled :: "bool list"
  falls :: nat

fun line_step :: "int \<Rightarrow> int \<Rightarrow> spi_line \<Rightarrow> spi_event \<Rightarrow> spi_line" where
  "line_step sck copi l (Gpio_put p v) =
     (if p = sck then l\<lparr>clock := v, sampled := (if v \<and> \<not> clock l then sampled l @ [data l] else sampled l),
                        falls := (if \<not> v \<and> clock l then falls l + 1 else falls l)\<rparr>
      else if p = copi then l\<lparr>data := v\<rparr> else l)"
| "line_step sck copi l e = l"

definition line :: "spi_unit_info \<Rightarrow> spi_event list \<Rightarrow> spi_line" where
  "line ui k = foldl (line_step (sint (sck_pin ui)) (sint (copi_pin ui))) \<lparr>clock = False, data = False, sampled = [], falls = 0\<rparr> k"

definition msb_bits :: "u8 \<Rightarrow> bool list" where
  "msb_bits b = map (\<lambda>i. bit b (7 - i)) [0..<8]"

definition bytes_bits :: "bytes \<Rightarrow> bool list" where
  "bytes_bits bs = concat (map msb_bits bs)"

lemma line_append: "line ui (k @ es) = foldl (line_step (sint (sck_pin ui)) (sint (copi_pin ui))) (line ui k) es"
  by (simp add: line_def)

lemma length_bytes_bits [simp]: "length (bytes_bits bs) = 8 * length bs"
  by (induction bs) (simp_all add: bytes_bits_def msb_bits_def)

lemma upt_shift: "map f [0..<Suc n] = f 0 # map (\<lambda>i. f (Suc i)) [0..<n]"
  by (simp add: upt_conv_Cons map_Suc_upt [symmetric] del: upt_Suc)


lemma bit_shl: "bit ((t :: u8) * 2) j \<longleftrightarrow> 0 < j \<and> j < 8 \<and> bit t (j - 1)"
  by (auto simp: mult.commute [of t] bit_double_iff)





text \<open>A device that shifts out the bits \<open>ds\<close>: after the \<open>n\<close>th falling edge its line has the \<open>n\<close>th bit.\<close>

definition presents :: "spi_env \<Rightarrow> spi_unit_info \<Rightarrow> bool list \<Rightarrow> bool" where
  "presents E ui ds \<longleftrightarrow> (\<forall>k. 0 < falls (line ui k) \<and> falls (line ui k) \<le> length ds
     \<longrightarrow> gpio_get E k (sint (cipo_pin ui)) = ds ! (falls (line ui k) - 1))"

fun bits_value :: "u8 \<Rightarrow> bool list \<Rightarrow> u8" where
  "bits_value temp [] = temp"
| "bits_value temp (b # bs) = bits_value (push_bit 1 temp OR of_bool b) bs"

lemma bit_bits_value:
  assumes "j < 8"
  shows "bit (bits_value temp bs) j = (if j < length bs then rev bs ! j else bit temp (j - length bs))"
proof (induction bs arbitrary: temp)
  case (Cons b bs)
  have "bit (bits_value temp (b # bs)) j = (if j < length bs then rev bs ! j else bit (temp * 2 OR of_bool b) (j - length bs))"
    using Cons.IH [of "temp * 2 OR of_bool b"] by simp
  also have "\<dots> = (if j < Suc (length bs) then rev (b # bs) ! j else bit temp (j - Suc (length bs)))"
    using assms by (auto simp: bit_or_iff bit_shl nth_append less_Suc_eq bit_of_bool_iff)
  finally show ?case by simp
qed simp

lemma bits_value_byte: "bits_value 0 (msb_bits b) = b"
proof (rule bit_word_eqI)
  fix j assume "j < LENGTH(8)"
  then have j: "j < 8" by simp
  have "[0..<8] ! (7 - j) = 7 - j" using nth_upt [of 0 "7 - j" 8] by simp
  then have "rev (msb_bits b) ! j = bit b j" using j by (simp add: msb_bits_def rev_nth del: upt_Suc)
  then show "bit (bits_value 0 (msb_bits b)) j = bit b j" using bit_bits_value [OF j, of 0 "msb_bits b"] j
    by (simp add: msb_bits_def del: upt_Suc)
qed

lemma read_bits_line:
  assumes P: "presents E ui ds" and c: "clock (line ui k)" and l: "falls (line ui k) + n \<le> length ds"
  shows "fst (read_bits E ui n temp k) = bits_value temp (take n (drop (falls (line ui k)) ds))
    \<and> clock (line ui (snd (read_bits E ui n temp k))) \<and> falls (line ui (snd (read_bits E ui n temp k))) = falls (line ui k) + n"
  using c l
proof (induction n arbitrary: temp k)
  case (Suc n)
  let ?k1 = "k @ [Busy_wait 1, Gpio_put (sint (sck_pin ui)) False, Busy_wait 1]"
  let ?k2 = "?k1 @ [Gpio_get (sint (cipo_pin ui)), Busy_wait 20, Gpio_put (sint (sck_pin ui)) True]"
  have f: "falls (line ui ?k1) = Suc (falls (line ui k))" using Suc.prems(1) by (simp add: line_append)
  then have g: "gpio_get E ?k1 (sint (cipo_pin ui)) = ds ! falls (line ui k)"
    using P Suc.prems(2) unfolding presents_def by (metis One_nat_def add_Suc_right add_leD1 add_Suc diff_Suc_1 zero_less_Suc)
  have k2: "clock (line ui ?k2)" "falls (line ui ?k2) = Suc (falls (line ui k))"
    using Suc.prems(1) by (simp_all add: line_append)
  have d: "take (Suc n) (drop (falls (line ui k)) ds) = ds ! falls (line ui k) # take n (drop (Suc (falls (line ui k))) ds)"
    using Suc.prems(2) by (simp add: Cons_nth_drop_Suc [symmetric])
  show ?case
    using Suc.IH [OF k2(1)] Suc.prems(2) k2(2) d g by (simp add: Let_def)
qed simp

lemma read_loop_line:
  assumes P: "presents E ui ds"
  shows "clock (line ui k) \<Longrightarrow> drop (falls (line ui k)) ds = bytes_bits bs @ rest \<Longrightarrow> i + length bs \<le> length dst \<Longrightarrow>
    \<exists>k'. bitbang_read_loop E ui (length bs) i dst k = map_option (\<lambda>d. (d, k')) (copy_into dst i bs) \<and> clock (line ui k')
      \<and> falls (line ui k') = falls (line ui k) + 8 * length bs"
proof (induction bs arbitrary: i dst k)
  case Nil
  then show ?case by (simp add: copy_into_def)
next
  case (Cons b bs)
  have d: "drop (falls (line ui k)) ds = msb_bits b @ bytes_bits bs @ rest" using Cons.prems(2) by (simp add: bytes_bits_def)
  have l8: "length (msb_bits b) = 8" by (simp add: msb_bits_def)
  have len: "falls (line ui k) + 8 \<le> length ds"
  proof -
    have "8 \<le> length (drop (falls (line ui k)) ds)" unfolding d by (simp add: l8)
    then show ?thesis by simp
  qed
  obtain t k1 where r: "read_bits E ui 8 0 k = (t, k1)" by fastforce
  have t: "t = b" "clock (line ui k1)" "falls (line ui k1) = falls (line ui k) + 8"
    using read_bits_line [OF P Cons.prems(1) len, of 0] r d by (simp_all add: l8 bits_value_byte)
  have "drop (falls (line ui k1)) ds = bytes_bits bs @ rest"
    unfolding t(3) using arg_cong [OF d, of "drop 8"] by (simp add: l8 add.commute)
  then show ?case
    using Cons.IH [OF t(2), of "i + 1" "dst[i := b]"] Cons.prems(3) r t copy_into_Cons [of i bs dst b] by (simp add: add.assoc)
qed

section \<open>SPI\<close>



text \<open>After \<^verbatim>\<open>SPI.init\<close> for the unit \<^verbatim>\<open>BITBANG\<close> the clock is high, as it is after every transfer.\<close>

lemma spi_init_idle:
  assumes "unit_num ui = 0" "SPI_gpio_init E ui k = (status, ui', k')" "copi_pin ui' \<noteq> sck_pin ui'"
  shows "status = 0" "clock (line ui' k')"
proof -
  have "sint (copi_pin ui') \<noteq> sint (sck_pin ui')" using assms(3) by (metis signed_word_eqI)
  then show "status = 0" "clock (line ui' k')"
    using assms(1,2) by (auto simp: SPI_gpio_init_def spi_unit_select_def Let_def line_append split: if_splits)
qed

text \<open>The setting \<open>first_bit\<close> has no effect on the unit BITBANG, where \<^verbatim>\<open>LSB_FIRST\<close> is not refused either.\<close>

lemma write_bits_first_bit: "write_bits (ui\<lparr>first_bit := fb\<rparr>) n t k = write_bits ui n t k"
  by (induction n arbitrary: t k) simp_all

lemma write_loop_first_bit: "bitbang_write_loop (ui\<lparr>first_bit := fb\<rparr>) bs k = bitbang_write_loop ui bs k"
  by (induction bs arbitrary: k) (simp_all add: write_bits_first_bit)

theorem spi_bitbang_ignores_first_bit:
  assumes "unit_num ui = 0"
  shows "fst (SPI_gpio_init E (ui\<lparr>first_bit := fb\<rparr>) k) = 0"
    and "SPI_write_blocking E (ui\<lparr>first_bit := fb\<rparr>) bs k = SPI_write_blocking E ui bs k"
  using assms
  by (simp_all add: SPI_gpio_init_def SPI_write_blocking_def spi_unit_select_def bitbang_write_blocking_def
      write_loop_first_bit Let_def)


lemma spi_receive_bits:
  assumes u: "unit_num ui = 0" and P: "presents E ui ds" and c: "clock (line ui (bus_dev s))"
    and d: "drop (falls (line ui (bus_dev s))) ds = bytes_bits bs @ rest" and "bs \<noteq> []" "length bs < 2 ^ 31"
  shows "\<exists>k. spi_receive E mem ui (int (length bs)) t s = Some (Some bs, s\<lparr>bus_dev := k\<rparr>)
    \<and> clock (line ui k) \<and> falls (line ui k) = falls (line ui (bus_dev s)) + 8 * length bs"
proof -
  let ?k = "bus_dev s @ [Gpio_set_dir (sint (cipo_pin ui)) False]" and ?d = "fresh_array mem (length bs)"
  have l: "line ui ?k = line ui (bus_dev s)" by (simp add: line_append)
  obtain k' where r: "bitbang_read_loop E ui (length bs) 0 ?d ?k = map_option (\<lambda>d. (d, k')) (copy_into ?d 0 bs)"
    "clock (line ui k')" "falls (line ui k') = falls (line ui (bus_dev s)) + 8 * length bs"
    using read_loop_line [OF P, of ?k bs rest 0 ?d] c d unfolding l by auto
  obtain b where "copy_into ?d 0 bs = Some b" "copy_from b 0 (length bs) = Some bs" using copy_prefix [of bs ?d] by auto
  then show ?thesis
    using r \<open>bs \<noteq> []\<close> \<open>length bs < 2 ^ 31\<close> by (intro exI [of _ k'])
      (simp add: spi_receive_def SPI_read_blocking_def spi_unit_select_def u bitbang_read_blocking_def)
qed

text \<open>And reading gives the bytes whose bits the device shifts out.\<close>

theorem spi_bitbang_read:
  assumes "unit_num ui = 0" "presents E ui ds" "clock (line ui (bus_dev s))"
    "drop (falls (line ui (bus_dev s))) ds = bytes_bits bs @ rest" "bs \<noteq> []" "length bs < 2 ^ 31"
  shows "\<exists>k. mrb_spi_read E mem ui (int (length bs)) None s = Some (Inr (VStr bs), s\<lparr>bus_dev := k\<rparr>)
    \<and> c_spi_read E mem ui [VInt (int (length bs))] s = Some (VStr bs, s\<lparr>bus_dev := k\<rparr>)
    \<and> clock (line ui k) \<and> falls (line ui k) = falls (line ui (bus_dev s)) + 8 * length bs"
proof -
  have "uint (word_of_int (int (length bs)) :: u32) = int (length bs)"
    using assms(6) by (simp add: unsigned_of_nat take_bit_nat_eq_self)
  then show ?thesis
    using spi_receive_bits [OF assms(1-6), of mem 0] by (auto simp: mrb_spi_read_def c_spi_read_def GET_INT_ARG_def)
qed

section \<open>Transfers in both directions\<close>

lemma fill_zeros_eq: "pos + n \<le> length buf \<Longrightarrow> fill_zeros n buf pos = copy_into buf pos (replicate n 0)"
proof (induction n arbitrary: buf pos)
  case (Suc n)
  then show ?case using copy_into_Cons [of pos "replicate n 0" buf 0] by simp
qed (simp add: copy_into_def)

lemma fill_zeros_out: "pos \<le> length buf \<Longrightarrow> length buf < pos + n \<Longrightarrow> fill_zeros n buf pos = None"
proof (induction n arbitrary: buf pos)
  case (Suc n)
  then show ?case by (cases "pos < length buf") (simp_all add: arr_set_def)
qed simp

lemma fill_with_zeros:
  assumes "wire args = Some bs" "length bs + n \<le> length buf"
  obtains b c where "fill_outputs args buf 0 = Some (Filled, b, length bs)" "fill_zeros n b (length bs) = Some c"
    "length c = length buf" "copy_from c 0 (length bs + n) = Some (bs @ replicate n 0)"
proof -
  obtain b where b: "copy_into buf 0 bs = Some b" using assms(2) by (simp add: copy_into_def)
  obtain c where c: "copy_into b (length bs) (replicate n 0) = Some c"
    using assms(2) bus_copy_length [OF b] by (simp add: copy_into_def)
  have "copy_into buf 0 (bs @ replicate n 0) = Some c"
    using copy_into_append [OF _ b, of "replicate n 0"] assms(2) c by simp
  then have f: "copy_from c 0 (length bs + n) = Some (bs @ replicate n 0)" using copy_into_from by fastforce
  show ?thesis
    using that [OF _ _ _ f] fill_outputs_wire [OF assms(1), of 0 buf] b c bus_copy_length [OF b] bus_copy_length [OF c]
      fill_zeros_eq [of "length bs" n b] assms(2) by simp
qed

lemma copy_into_from_off: "copy_into d off xs = Some e \<Longrightarrow> copy_from e off (length xs) = Some xs"
  by (auto simp: copy_into_def copy_from_def split: if_splits)

lemma transfer_filled_ok:
  assumes u: "spi_unit_select ui = Some (Spi_hw u)" and t: "m < 2 ^ 31" and src: "copy_from tx 0 m = Some src"
    and rx: "case rx of None \<Rightarrow> 2 * m \<le> length tx | Some d \<Rightarrow> m \<le> length d"
    and r: "spi_write_read_blocking E (bus_dev s @ [Spi_write_read u src]) = (int m, xs)" "length xs = m"
  shows "transfer_filled E ui tx rx (of_nat m) s =
    Some (int m, Some xs, s\<lparr>bus_dev := bus_dev s @ [Spi_write_read u src]\<rparr>)"
proof -
  have n: "unat (of_nat m :: u32) = m" using t by (simp add: unat_of_nat32)
  obtain dst off where d: "(case rx of Some dst \<Rightarrow> (dst, 0) | None \<Rightarrow> (tx, m)) = (dst, off)" by fastforce
  have "off + m \<le> length dst" using rx d by (auto split: option.splits)
  then obtain e where e: "copy_into dst off xs = Some e" using r(2) by (simp add: copy_into_def)
  have "copy_from e off m = Some xs" using copy_into_from_off [OF e] r(2) by simp
  then show ?thesis using src e r unfolding transfer_filled_def n d by (simp add: SPI_transfer_def u)
qed

text \<open>The two buffers of a transfer of \<open>m\<close> bytes.\<close>

lemma take_buffers_ok:
  assumes "0 < m" "m < 2 ^ 31" "m < 256 \<or> heap (of_nat m * 2)"
  obtains nf tx rx where "take_buffers heap mem (of_nat m) s = Some (nf, tx, rx, if nf then s\<lparr>bus_blocks := bus_blocks s + 1\<rparr> else s)"
    "m \<le> length tx" "case rx of None \<Rightarrow> 2 * m \<le> length tx | Some d \<Rightarrow> m \<le> length d"
proof (cases "m < 256")
  case True
  then have "(of_nat m :: u32) < 256" by (simp add: word_less_nat_alt unat_of_nat32)
  then show ?thesis
    using True by (intro that [of False "fresh_array mem 256" "Some (fresh_array mem 256)"])
      (simp_all add: take_buffers_def MAX_STACK_BUFFER_SIZE_def)
next
  case False
  then have g: "\<not> (of_nat m :: u32) < 256" using assms by (simp add: word_less_nat_alt unat_of_nat32)
  have e: "(of_nat m * 2 :: u32) = of_nat (2 * m)" by (simp add: mult.commute)
  have "2 * m < 2 ^ 32" using assms(2) by simp
  then have "unat (of_nat m * 2 :: u32) = 2 * m" unfolding e by (rule unat_of_nat32)
  then show ?thesis
    using False assms g by (intro that [of True "fresh_array mem (2 * m)" None])
      (simp_all add: take_buffers_def MAX_STACK_BUFFER_SIZE_def)
qed

text \<open>On a hardware unit, \<^verbatim>\<open>transfer\<close> sends the bytes and as many zeros as should be read in addition, and
  returns what arrives meanwhile.\<close>

theorem spi_transfer_exchanges:
  assumes w: "wire args = Some bs" and u: "spi_unit_select ui = Some (Spi_hw u)"
    and t: "0 < length bs + n" "length bs + n < 2 ^ 31" "length bs + n < 256 \<or> heap (of_nat (length bs + n) * 2)"
    and r: "spi_write_read_blocking E (bus_dev s @ [Spi_write_read u (bs @ replicate n 0)]) = (int (length bs + n), xs)"
      "length xs = length bs + n"
  shows "mrb_spi_transfer E heap mem ui args (Some (VInt (int n))) s =
      Some (Inr (VStr xs), s\<lparr>bus_dev := bus_dev s @ [Spi_write_read u (bs @ replicate n 0)]\<rparr>)"
    and "c_spi_transfer E heap mem ui (args @ [VHash [(VSym ''additional_read_bytes'', VInt (int n))]]) s =
      Some (VStr xs, s\<lparr>bus_dev := bus_dev s @ [Spi_write_read u (bs @ replicate n 0)]\<rparr>)"
proof -
  let ?n = "of_nat (length bs + n) :: u32" and ?k = "bus_dev s @ [Spi_write_read u (bs @ replicate n 0)]"
  obtain nf tx rx where b: "take_buffers heap mem ?n s = Some (nf, tx, rx, if nf then s\<lparr>bus_blocks := bus_blocks s + 1\<rparr> else s)"
    "length bs + n \<le> length tx" "case rx of None \<Rightarrow> 2 * (length bs + n) \<le> length tx | Some d \<Rightarrow> length bs + n \<le> length d"
    by (rule take_buffers_ok [where m = "length bs + n" and heap = heap, OF t])
  obtain b' c where f: "fill_outputs args tx 0 = Some (Filled, b', length bs)" "fill_zeros n b' (length bs) = Some c"
    "length c = length tx" "copy_from c 0 (length bs + n) = Some (bs @ replicate n 0)"
    by (rule fill_with_zeros [OF w b(2)])
  have z: "unat (of_nat n :: u32) = n" using t(2) by (simp add: unat_of_nat32)
  have size: "outputs_size args (of_nat n) = Some ?n" using outputs_size_wire [OF w] by (simp add: add.commute)
  have m: "unat ?n = length bs + n" by (rule unat_of_nat32) (use t(2) in simp)
  have nz: "?n \<noteq> 0" using m t(1) by (metis unat_0 less_numeral_extra(3))
  let ?s = "if nf then s\<lparr>bus_blocks := bus_blocks s + 1\<rparr> else s"
  have d: "bus_dev ?s = bus_dev s" by simp
  have x: "transfer_filled E ui c rx ?n ?s = Some (int (length bs + n), Some xs, ?s\<lparr>bus_dev := ?k\<rparr>)"
    by (rule transfer_filled_ok [OF u t(2) f(4), of rx E ?s xs, unfolded d, OF b(3) [folded f(3)] r])
  show "mrb_spi_transfer E heap mem ui args (Some (VInt (int n))) s = Some (Inr (VStr xs), s\<lparr>bus_dev := ?k\<rparr>)"
    using b(1) size f(1,2) x
    by (simp add: mrb_spi_transfer_def mrb_spi_calculate_buffer_size_def mrb_spi_fill_buffer_def z free_taken del: of_nat_add)
  show "c_spi_transfer E heap mem ui (args @ [VHash [(VSym ''additional_read_bytes'', VInt (int n))]]) s =
      Some (VStr xs, s\<lparr>bus_dev := ?k\<rparr>)"
    using b(1) size f(1,2) x nz
    by (simp add: c_spi_transfer_def busc_hash_int_def mrbc_spi_calculate_buffer_size_def mrbc_spi_fill_buffer_def z free_taken del: of_nat_add)
qed

section \<open>Deviations\<close>

lemma fresh_array_two: "fresh_array mem (Suc (Suc n)) = mem 0 # mem 1 # map (\<lambda>i. mem (Suc (Suc i))) [0..<n]"
  unfolding fresh_array_def upt_shift by simp

text \<open>In mruby/c an element that is no integer raises, but the transfer takes place, with what the buffer held by chance.\<close>

theorem spi_bad_element_sent:
  assumes "spi_unit_select ui = Some (Spi_hw u)" "spi_write_blocking E (bus_dev s @ [Spi_write u [1, mem 1]]) = 2"
  shows "c_spi_write E heap mem ui [VArray [VInt 1, VNil]] s =
    Some (VInt 2, bus_raise (TypeError ''array element must be Integer'') (s\<lparr>bus_dev := bus_dev s @ [Spi_write u [1, mem 1]]\<rparr>))"
proof -
  have b: "take_buffer heap mem 2 s = Some (False, fresh_array mem 256, s)"
    by (simp add: take_buffer_def MAX_STACK_BUFFER_SIZE_def)
  have f: "fill_outputs [VArray [VInt 1, VNil]] (fresh_array mem 256) 0 = Some (Bad_element, (fresh_array mem 256)[0 := 1], 1)"
    by simp
  have "fresh_array mem 256 = mem 0 # mem 1 # map (\<lambda>i. mem (Suc (Suc i))) [0..<254]"
    using fresh_array_two [of mem 254] by simp
  then have c: "copy_from ((fresh_array mem 256)[0 := 1]) 0 2 = Some [1, mem 1]" by (simp add: copy_from_def)
  show ?thesis
    using assms b f c
    by (simp add: c_spi_write_def mrbc_spi_write_outputs_def mrbc_spi_calculate_buffer_size_def mrbc_spi_fill_buffer_def
        SPI_write_blocking_def free_buffer_def bus_raise_def)
qed

text \<open>In mruby the exception leaves the function before the block is freed.\<close>

theorem spi_block_lost:
  assumes "length xs = 255" "heap 256"
  shows "mrb_spi_write E heap mem ui [VArray (VNil # xs)] s =
    Some (Inl (TypeError ''array element must be Fixnum''), s\<lparr>bus_blocks := bus_blocks s + 1\<rparr>)"
  using assms
  by (simp add: mrb_spi_write_def mrb_spi_write_outputs_def mrb_spi_calculate_buffer_size_def take_buffer_def
      MAX_STACK_BUFFER_SIZE_def mrb_spi_fill_buffer_def)

text \<open>A negative number of additional bytes: the zeros are written past the end of the buffer.\<close>

theorem spi_negative_overflow:
  "mrb_spi_transfer E heap mem ui [VInt 1, VInt 2] (Some (VInt (- 1))) s = None"
proof -
  have b: "take_buffers heap mem 1 s = Some (False, fresh_array mem 256, Some (fresh_array mem 256), s)"
    by (simp add: take_buffers_def MAX_STACK_BUFFER_SIZE_def)
  have n: "unat (- 1 :: u32) = 2 ^ 32 - 1" by (simp add: unsigned_minus_1_eq_mask mask_eq_exp_minus_1)
  have "fill_zeros (unat (- 1 :: u32)) b (Suc (Suc 0)) = None" if "length b = 256" for b
    unfolding n using that by (intro fill_zeros_out) simp_all
  then show ?thesis
    by (simp add: mrb_spi_transfer_def mrb_spi_calculate_buffer_size_def b mrb_spi_fill_buffer_def)
qed

text \<open>Writing nothing is an error, and in mruby/c it hides the error of an argument of the wrong type.\<close>

theorem spi_write_nothing:
  "mrb_spi_write E heap mem ui [VStr []] s = Some (Inl (IOError ''SPI write failed''), s)"
  by (simp add: mrb_spi_write_def mrb_spi_write_outputs_def mrb_spi_calculate_buffer_size_def)

theorem spi_error_hidden:
  "c_spi_write E heap mem ui [VNil] s = Some (mrbc_self, bus_raise (IOError ''SPI write failed'') s)"
  by (simp add: c_spi_write_def mrbc_spi_write_outputs_def mrbc_spi_calculate_buffer_size_def bus_raise_def)

section \<open>Witnesses\<close>




end
