(* ===== verification/Gpio.thy ===== *)
theory Gpio
  imports Bus
begin

text \<open>
  The classes GPIO (\<^verbatim>\<open>picoruby-gpio\<close>) and ADC (\<^verbatim>\<open>picoruby-adc\<close>) for both virtual machines, with their ports to
  the RP2040. The functions of the SDK are a parameter; the state is that of theory \<open>Bus\<close>. The text
  of an exception leaves out the argument that mruby appends.
\<close>

section \<open>The port of GPIO\<close>

record 'k gpio_sdk =
  sdk_gpio_init :: "u8 \<Rightarrow> 'k \<Rightarrow> 'k"
  sdk_gpio_set_dir :: "u8 \<Rightarrow> bool \<Rightarrow> 'k \<Rightarrow> 'k"
  sdk_gpio_pull_up :: "u8 \<Rightarrow> 'k \<Rightarrow> 'k"
  sdk_gpio_pull_down :: "u8 \<Rightarrow> 'k \<Rightarrow> 'k"
  sdk_gpio_get :: "u8 \<Rightarrow> 'k \<Rightarrow> bool"
  sdk_gpio_put :: "u8 \<Rightarrow> bool \<Rightarrow> 'k \<Rightarrow> 'k"
  sdk_gpio_set_function :: "u8 \<Rightarrow> u8 \<Rightarrow> 'k \<Rightarrow> 'k"

definition GPIO_IN :: u8 where "GPIO_IN = 1"
definition GPIO_OUT :: u8 where "GPIO_OUT = 2"
definition GPIO_HIGH_Z :: u8 where "GPIO_HIGH_Z = 4"

definition GPIO_pin_num_from_char :: "bytes \<Rightarrow> int" where
  "GPIO_pin_num_from_char str = - 1"

definition GPIO_init :: "'k gpio_sdk \<Rightarrow> u8 \<Rightarrow> 'k \<Rightarrow> 'k" where
  "GPIO_init G pin k = sdk_gpio_init G pin k"

definition GPIO_set_dir :: "'k gpio_sdk \<Rightarrow> u8 \<Rightarrow> u8 \<Rightarrow> 'k \<Rightarrow> 'k" where
  "GPIO_set_dir G pin dir k =
     (if dir = GPIO_IN then sdk_gpio_set_dir G pin False k
      else if dir = GPIO_OUT then sdk_gpio_set_dir G pin True k
      else k)"

definition GPIO_open_drain :: "u8 \<Rightarrow> 'k \<Rightarrow> 'k" where
  "GPIO_open_drain pin k = k"

definition GPIO_pull_up :: "'k gpio_sdk \<Rightarrow> u8 \<Rightarrow> 'k \<Rightarrow> 'k" where
  "GPIO_pull_up G pin k = sdk_gpio_pull_up G pin k"

definition GPIO_pull_down :: "'k gpio_sdk \<Rightarrow> u8 \<Rightarrow> 'k \<Rightarrow> 'k" where
  "GPIO_pull_down G pin k = sdk_gpio_pull_down G pin k"

definition GPIO_read :: "'k gpio_sdk \<Rightarrow> u8 \<Rightarrow> 'k \<Rightarrow> int" where
  "GPIO_read G pin k = of_bool (sdk_gpio_get G pin k)"

definition GPIO_write :: "'k gpio_sdk \<Rightarrow> u8 \<Rightarrow> u8 \<Rightarrow> 'k \<Rightarrow> 'k" where
  "GPIO_write G pin val k = sdk_gpio_put G pin (val = 1) k"

definition GPIO_set_function :: "'k gpio_sdk \<Rightarrow> u8 \<Rightarrow> u8 \<Rightarrow> 'k \<Rightarrow> 'k" where
  "GPIO_set_function G pin function k = sdk_gpio_set_function G pin function k"

section \<open>The class GPIO of mruby\<close>

definition mrb_pin_num :: "mrb_value \<Rightarrow> int rb_result" where
  "mrb_pin_num pin =
     (let pin_number = (case pin of
          VInt n \<Rightarrow> c_int n
        | VStr x \<Rightarrow> GPIO_pin_num_from_char x
        | VSym x \<Rightarrow> GPIO_pin_num_from_char (map of_char x)
        | _ \<Rightarrow> - 1)
      in if pin_number < 0 then Inl (ArgumentError ''Wrong GPIO pin name'') else Inr pin_number)"

text \<open>A method that calls a function of the port with the pin and returns 0.\<close>

definition mrb_at_pin :: "(u8 \<Rightarrow> 'k \<Rightarrow> 'k) \<Rightarrow> mrb_value \<Rightarrow> 'k bus \<Rightarrow> mrb_value rb_result \<times> 'k bus" where
  "mrb_at_pin f pin s =
     (case mrb_pin_num pin of
        Inl e \<Rightarrow> (Inl e, s)
      | Inr n \<Rightarrow> (Inr (VInt 0), s\<lparr>bus_dev := f (word_of_int n) (bus_dev s)\<rparr>))"

definition mrb_gpio__init :: "'k gpio_sdk \<Rightarrow> mrb_value \<Rightarrow> 'k bus \<Rightarrow> mrb_value rb_result \<times> 'k bus" where
  "mrb_gpio__init G = mrb_at_pin (GPIO_init G)"

definition mrb_s_set_function_at :: "'k gpio_sdk \<Rightarrow> mrb_value \<Rightarrow> int \<Rightarrow> 'k bus \<Rightarrow> mrb_value rb_result \<times> 'k bus" where
  "mrb_s_set_function_at G pin alt_function = mrb_at_pin (\<lambda>p. GPIO_set_function G p (word_of_int alt_function)) pin"

definition mrb_s_set_dir_at :: "'k gpio_sdk \<Rightarrow> mrb_value \<Rightarrow> int \<Rightarrow> 'k bus \<Rightarrow> mrb_value rb_result \<times> 'k bus" where
  "mrb_s_set_dir_at G pin flags = mrb_at_pin (\<lambda>p. GPIO_set_dir G p (word_of_int flags)) pin"

definition mrb_s_open_drain_at :: "mrb_value \<Rightarrow> 'k bus \<Rightarrow> mrb_value rb_result \<times> 'k bus" where
  "mrb_s_open_drain_at = mrb_at_pin GPIO_open_drain"

definition mrb_s_pull_up_at :: "'k gpio_sdk \<Rightarrow> mrb_value \<Rightarrow> 'k bus \<Rightarrow> mrb_value rb_result \<times> 'k bus" where
  "mrb_s_pull_up_at G = mrb_at_pin (GPIO_pull_up G)"

definition mrb_s_pull_down_at :: "'k gpio_sdk \<Rightarrow> mrb_value \<Rightarrow> 'k bus \<Rightarrow> mrb_value rb_result \<times> 'k bus" where
  "mrb_s_pull_down_at G = mrb_at_pin (GPIO_pull_down G)"

text \<open>The methods that read do not change anything. \<open>pin\<close> is an argument or \<^verbatim>\<open>@pin\<close>, as an integer.\<close>

definition mrb_s_high_at_p :: "'k gpio_sdk \<Rightarrow> int \<Rightarrow> 'k bus \<Rightarrow> mrb_value" where
  "mrb_s_high_at_p G pin s = (if GPIO_read G (word_of_int pin) (bus_dev s) = 0 then VFalse else VTrue)"

definition mrb_s_low_at_p :: "'k gpio_sdk \<Rightarrow> int \<Rightarrow> 'k bus \<Rightarrow> mrb_value" where
  "mrb_s_low_at_p G pin s = (if GPIO_read G (word_of_int pin) (bus_dev s) = 0 then VTrue else VFalse)"

definition mrb_s_read_at :: "'k gpio_sdk \<Rightarrow> mrb_value \<Rightarrow> 'k bus \<Rightarrow> mrb_value rb_result" where
  "mrb_s_read_at G pin s =
     (case mrb_pin_num pin of
        Inl e \<Rightarrow> Inl e
      | Inr n \<Rightarrow> Inr (VInt (GPIO_read G (word_of_int n) (bus_dev s))))"

definition mrb_s_write_at :: "'k gpio_sdk \<Rightarrow> mrb_value \<Rightarrow> int \<Rightarrow> 'k bus \<Rightarrow> mrb_value rb_result \<times> 'k bus" where
  "mrb_s_write_at G pin val s =
     (case mrb_pin_num pin of
        Inl e \<Rightarrow> (Inl e, s)
      | Inr n \<Rightarrow>
         (if c_int val \<noteq> 0 \<and> c_int val \<noteq> 1 then (Inl (ArgumentError ''Wrong value. 0 and 1 are only valid''), s)
          else (Inr (VInt 0), s\<lparr>bus_dev := GPIO_write G (word_of_int n) (word_of_int (c_int val)) (bus_dev s)\<rparr>)))"

definition mrb_high_p :: "'k gpio_sdk \<Rightarrow> int \<Rightarrow> 'k bus \<Rightarrow> mrb_value" where
  "mrb_high_p G pin s = (if GPIO_read G (word_of_int pin) (bus_dev s) = 0 then VFalse else VTrue)"

definition mrb_low_p :: "'k gpio_sdk \<Rightarrow> int \<Rightarrow> 'k bus \<Rightarrow> mrb_value" where
  "mrb_low_p G pin s = (if GPIO_read G (word_of_int pin) (bus_dev s) = 0 then VTrue else VFalse)"

definition mrb_gpio_read :: "'k gpio_sdk \<Rightarrow> int \<Rightarrow> 'k bus \<Rightarrow> mrb_value" where
  "mrb_gpio_read G pin s = VInt (GPIO_read G (word_of_int pin) (bus_dev s))"

definition mrb_gpio_write :: "'k gpio_sdk \<Rightarrow> int \<Rightarrow> int \<Rightarrow> 'k bus \<Rightarrow> mrb_value rb_result \<times> 'k bus" where
  "mrb_gpio_write G pin val s =
     (if val \<noteq> 0 \<and> val \<noteq> 1 then (Inl (ArgumentError ''Wrong value. 0 and 1 are only valid''), s)
      else (Inr (VInt 0), s\<lparr>bus_dev := GPIO_write G (word_of_int pin) (word_of_int val) (bus_dev s)\<rparr>))"

section \<open>The class GPIO of mruby/c\<close>

text \<open>The pin is -1 after an exception, which only \<^verbatim>\<open>_init\<close> looks at.\<close>

definition c_pin_num :: "mrb_value \<Rightarrow> 'k bus \<Rightarrow> int \<times> 'k bus" where
  "c_pin_num pin s =
     (case pin of
        VInt n \<Rightarrow> (c_int n, s)
      | VStr x \<Rightarrow> (GPIO_pin_num_from_char x, s)
      | VSym x \<Rightarrow> (GPIO_pin_num_from_char (map of_char x), s)
      | _ \<Rightarrow> (- 1, bus_raise (ArgumentError ''Wrong GPIO pin value'') s))"

definition c_at_pin :: "(u8 \<Rightarrow> 'k \<Rightarrow> 'k) \<Rightarrow> mrb_value \<Rightarrow> 'k bus \<Rightarrow> mrb_value \<times> 'k bus" where
  "c_at_pin f pin s =
     (let (n, s) = c_pin_num pin s in (VInt 0, s\<lparr>bus_dev := f (word_of_int n) (bus_dev s)\<rparr>))"

definition c_gpio__init :: "'k gpio_sdk \<Rightarrow> mrb_value \<Rightarrow> 'k bus \<Rightarrow> mrb_value \<times> 'k bus" where
  "c_gpio__init G pin s =
     (let (n, s) = c_pin_num pin s
      in (VInt 0, if - 1 < n then s\<lparr>bus_dev := GPIO_init G (word_of_int n) (bus_dev s)\<rparr> else s))"

definition c_set_function_at :: "'k gpio_sdk \<Rightarrow> mrb_value list \<Rightarrow> 'k bus \<Rightarrow> (mrb_value \<times> 'k bus) option" where
  "c_set_function_at G args s = do {
     pin \<leftarrow> arr_get args 0;
     f \<leftarrow> GET_INT_ARG args 2;
     Some (c_at_pin (\<lambda>p. GPIO_set_function G p (ucast f)) pin s)
   }"

definition c_set_dir_at :: "'k gpio_sdk \<Rightarrow> mrb_value list \<Rightarrow> 'k bus \<Rightarrow> (mrb_value \<times> 'k bus) option" where
  "c_set_dir_at G args s = do {
     pin \<leftarrow> arr_get args 0;
     d \<leftarrow> GET_INT_ARG args 2;
     Some (c_at_pin (\<lambda>p. GPIO_set_dir G p (ucast d)) pin s)
   }"

definition c_open_drain_at :: "mrb_value \<Rightarrow> 'k bus \<Rightarrow> mrb_value \<times> 'k bus" where
  "c_open_drain_at = c_at_pin GPIO_open_drain"

definition c_pull_up_at :: "'k gpio_sdk \<Rightarrow> mrb_value \<Rightarrow> 'k bus \<Rightarrow> mrb_value \<times> 'k bus" where
  "c_pull_up_at G = c_at_pin (GPIO_pull_up G)"

definition c_pull_down_at :: "'k gpio_sdk \<Rightarrow> mrb_value \<Rightarrow> 'k bus \<Rightarrow> mrb_value \<times> 'k bus" where
  "c_pull_down_at G = c_at_pin (GPIO_pull_down G)"

text \<open>The macro \<^verbatim>\<open>READ\<close>.\<close>

definition c_READ :: "'k gpio_sdk \<Rightarrow> mrb_value \<Rightarrow> 'k bus \<Rightarrow> int \<times> 'k bus" where
  "c_READ G pin s = (let (n, s) = c_pin_num pin s in (GPIO_read G (word_of_int n) (bus_dev s), s))"

definition c_high_at_q :: "'k gpio_sdk \<Rightarrow> mrb_value list \<Rightarrow> 'k bus \<Rightarrow> mrb_value option" where
  "c_high_at_q G args s = do {
     n \<leftarrow> GET_INT_ARG args 1;
     Some (if GPIO_read G (ucast n) (bus_dev s) = 0 then VFalse else VTrue)
   }"

definition c_low_at_q :: "'k gpio_sdk \<Rightarrow> mrb_value \<Rightarrow> 'k bus \<Rightarrow> mrb_value \<times> 'k bus" where
  "c_low_at_q G pin s = (let (x, s) = c_READ G pin s in (if x = 0 then VTrue else VFalse, s))"

definition c_high_q :: "'k gpio_sdk \<Rightarrow> mrb_value \<Rightarrow> 'k bus \<Rightarrow> mrb_value \<times> 'k bus" where
  "c_high_q G iv_pin s = (let (x, s) = c_READ G iv_pin s in (if x = 0 then VFalse else VTrue, s))"

definition c_low_q :: "'k gpio_sdk \<Rightarrow> mrb_value \<Rightarrow> 'k bus \<Rightarrow> mrb_value \<times> 'k bus" where
  "c_low_q G iv_pin s = (let (x, s) = c_READ G iv_pin s in (if x = 0 then VTrue else VFalse, s))"

definition c_read_at :: "'k gpio_sdk \<Rightarrow> mrb_value \<Rightarrow> 'k bus \<Rightarrow> mrb_value \<times> 'k bus" where
  "c_read_at G pin s = (let (x, s) = c_READ G pin s in (VInt x, s))"

definition c_gpio_read :: "'k gpio_sdk \<Rightarrow> mrb_value \<Rightarrow> 'k bus \<Rightarrow> mrb_value \<times> 'k bus" where
  "c_gpio_read G iv_pin s = (let (x, s) = c_READ G iv_pin s in (VInt x, s))"

text \<open>The value of a write has to be an integer, of any value. \<open>pin\<close> is an argument or \<^verbatim>\<open>@pin\<close>.\<close>

definition c_gpio_write :: "'k gpio_sdk \<Rightarrow> mrb_value \<Rightarrow> mrb_value \<Rightarrow> 'k bus \<Rightarrow> mrb_value \<times> 'k bus" where
  "c_gpio_write G iv_pin val s =
     (case val of
        VInt v \<Rightarrow> c_at_pin (\<lambda>p. GPIO_write G p (word_of_int v)) iv_pin s
      | _ \<Rightarrow> (mrbc_self, bus_raise (ArgumentError ''Wrong value. 0 and 1 are only valid'') s))"

definition c_write_at :: "'k gpio_sdk \<Rightarrow> mrb_value \<Rightarrow> mrb_value \<Rightarrow> 'k bus \<Rightarrow> mrb_value \<times> 'k bus" where
  "c_write_at G pin val s =
     (case val of
        VInt v \<Rightarrow> c_at_pin (\<lambda>p. GPIO_write G p (word_of_int v)) pin s
      | _ \<Rightarrow> (mrbc_self, bus_raise (ArgumentError ''Wrong value. 0 and 1 are only valid'') s))"

section \<open>ADC\<close>

text \<open>The static variable \<^verbatim>\<open>init\<close> is part of the state; the conversion to volts is floating-point
  arithmetic of the platform (\<open>volts\<close>).\<close>

record 'k adc_sdk =
  sdk_adc_init :: "'k \<Rightarrow> 'k"
  sdk_adc_gpio_init :: "nat \<Rightarrow> 'k \<Rightarrow> 'k"
  sdk_adc_set_temp_sensor_enabled :: "'k \<Rightarrow> 'k"
  sdk_adc_select_input :: "u8 \<Rightarrow> 'k \<Rightarrow> 'k"
  sdk_adc_read :: "'k \<Rightarrow> u16 \<times> 'k"
  volts :: "u16 \<Rightarrow> u64"

record 'k adc_state =
  adc_dev :: 'k
  adc_inited :: bool
  adc_exc :: "rb_error option"

definition TEMPERATURE :: int where "TEMPERATURE = 255"

definition ADC_pin_num_from_char :: "bytes \<Rightarrow> int" where
  "ADC_pin_num_from_char str = (if takeWhile (\<lambda>c. c \<noteq> 0) str = map of_char ''temperature'' then TEMPERATURE else - 1)"

definition adc_input :: "u8 \<Rightarrow> nat option" where
  "adc_input pin =
     (if pin = 26 then Some 0 else if pin = 27 then Some 1 else if pin = 28 then Some 2 else if pin = 29 then Some 3
      else if pin = word_of_int TEMPERATURE then Some 4 else None)"

definition ADC_init :: "'k adc_sdk \<Rightarrow> u8 \<Rightarrow> 'k adc_state \<Rightarrow> int \<times> 'k adc_state" where
  "ADC_init A pin s =
     (let s = (if \<not> adc_inited s then s\<lparr>adc_dev := sdk_adc_init A (adc_dev s), adc_inited := True\<rparr> else s)
      in case adc_input pin of
           None \<Rightarrow> (- 1, s)
         | Some input \<Rightarrow>
            (int input, s\<lparr>adc_dev := (if pin = word_of_int TEMPERATURE then sdk_adc_set_temp_sensor_enabled A (adc_dev s)
                                     else sdk_adc_gpio_init A input (adc_dev s))\<rparr>))"

definition ADC_read_raw :: "'k adc_sdk \<Rightarrow> u8 \<Rightarrow> 'k adc_state \<Rightarrow> u32 \<times> 'k adc_state" where
  "ADC_read_raw A input s =
     (let (x, k) = sdk_adc_read A (sdk_adc_select_input A input (adc_dev s)) in (ucast x, s\<lparr>adc_dev := k\<rparr>))"

definition ADC_read_voltage :: "'k adc_sdk \<Rightarrow> u8 \<Rightarrow> 'k adc_state \<Rightarrow> u64 \<times> 'k adc_state" where
  "ADC_read_voltage A input s =
     (let (x, k) = sdk_adc_read A (sdk_adc_select_input A input (adc_dev s)) in (volts A x, s\<lparr>adc_dev := k\<rparr>))"

definition mrb_adc_pin_num :: "mrb_value \<Rightarrow> int rb_result" where
  "mrb_adc_pin_num pin =
     (let pin_number = (case pin of
          VInt n \<Rightarrow> c_int n
        | VStr x \<Rightarrow> ADC_pin_num_from_char x
        | VSym x \<Rightarrow> ADC_pin_num_from_char (map of_char x)
        | _ \<Rightarrow> - 1)
      in if pin_number < 0 then Inl (ArgumentError ''Wrong ADC pin name'') else Inr pin_number)"

definition mrb_adc__init :: "'k adc_sdk \<Rightarrow> mrb_value \<Rightarrow> 'k adc_state \<Rightarrow> mrb_value rb_result \<times> 'k adc_state" where
  "mrb_adc__init A pin s =
     (case mrb_adc_pin_num pin of
        Inl e \<Rightarrow> (Inl e, s)
      | Inr n \<Rightarrow>
         (let (input, s) = ADC_init A (word_of_int n) s
          in if input < 0 then (Inl (ArgumentError ''Wrong ADC pin value''), s) else (Inr (VInt input), s)))"

definition mrb_read_raw :: "'k adc_sdk \<Rightarrow> int \<Rightarrow> 'k adc_state \<Rightarrow> mrb_value \<times> 'k adc_state" where
  "mrb_read_raw A ivar_input s = (let (x, s) = ADC_read_raw A (word_of_int ivar_input) s in (VInt (uint x), s))"

definition mrb_read_voltage :: "'k adc_sdk \<Rightarrow> int \<Rightarrow> 'k adc_state \<Rightarrow> mrb_value \<times> 'k adc_state" where
  "mrb_read_voltage A ivar_input s = (let (x, s) = ADC_read_voltage A (word_of_int ivar_input) s in (VFloat x, s))"

definition c_adc_pin_num :: "mrb_value \<Rightarrow> int" where
  "c_adc_pin_num pin =
     (case pin of
        VInt n \<Rightarrow> c_int n
      | VStr x \<Rightarrow> ADC_pin_num_from_char x
      | VSym x \<Rightarrow> ADC_pin_num_from_char (map of_char x)
      | _ \<Rightarrow> - 1)"

definition c_adc__init :: "'k adc_sdk \<Rightarrow> mrb_value \<Rightarrow> 'k adc_state \<Rightarrow> mrb_value \<times> 'k adc_state" where
  "c_adc__init A pin s =
     (let n = c_adc_pin_num pin
      in if - 1 < n
         then (let (input, s) = ADC_init A (word_of_int n) s;
                   s = (if input < 0 then s\<lparr>adc_exc := Some (ArgumentError ''Wrong ADC pin value'')\<rparr> else s)
               in (VInt input, s))
         else (mrbc_self, s\<lparr>adc_exc := Some (ArgumentError ''Wrong GPIO pin value'')\<rparr>))"

definition c_read_raw :: "'k adc_sdk \<Rightarrow> int \<Rightarrow> 'k adc_state \<Rightarrow> mrb_value \<times> 'k adc_state" where
  "c_read_raw A ivar_input s = (let (x, s) = ADC_read_raw A (word_of_int ivar_input) s in (VInt (sint x), s))"

definition c_read_voltage :: "'k adc_sdk \<Rightarrow> int \<Rightarrow> 'k adc_state \<Rightarrow> mrb_value \<times> 'k adc_state" where
  "c_read_voltage A ivar_input s = (let (x, s) = ADC_read_voltage A (word_of_int ivar_input) s in (VFloat x, s))"

section \<open>Properties\<close>

lemma word8_c_int: "(word_of_int (c_int v) :: u8) = word_of_int v"
  unfolding c_int_def by (rule bit_word_eqI) (simp add: bit_simps)

text \<open>On a pin that is given as a number, both classes do the same, and write only levels.\<close>

lemma pin_num_agree: "0 \<le> c_int n \<Longrightarrow> mrb_pin_num (VInt n) = Inr (c_int n) \<and> c_pin_num (VInt n) s = (c_int n, s)"
  by (simp add: mrb_pin_num_def c_pin_num_def)

lemma gpio_at_pin_agree: "0 \<le> c_int n \<Longrightarrow> (case c_at_pin f (VInt n) s of (v, s') \<Rightarrow> mrb_at_pin f (VInt n) s = (Inr v, s'))"
  using pin_num_agree [of n s] by (simp add: c_at_pin_def mrb_at_pin_def)

theorem gpio_write_agree:
  assumes "0 \<le> c_int n" "v = 0 \<or> v = 1"
  shows "mrb_s_write_at G (VInt n) v s = (Inr (VInt 0), s\<lparr>bus_dev := sdk_gpio_put G (word_of_int n) (v = 1) (bus_dev s)\<rparr>)"
    and "c_write_at G (VInt n) (VInt v) s = (VInt 0, s\<lparr>bus_dev := sdk_gpio_put G (word_of_int n) (v = 1) (bus_dev s)\<rparr>)"
  using assms pin_num_agree [OF assms(1), of s]
  by (auto simp: mrb_s_write_at_def c_write_at_def c_at_pin_def GPIO_write_def word8_c_int)

text \<open>Whatever is written before, reading with both classes gives the level of the pin.\<close>

theorem gpio_read_agree:
  assumes "0 \<le> c_int n"
  shows "mrb_s_read_at G (VInt n) s = Inr (fst (c_read_at G (VInt n) s))" "snd (c_read_at G (VInt n) s) = s"
    and "fst (c_read_at G (VInt n) s) = VInt (of_bool (sdk_gpio_get G (word_of_int n) (bus_dev s)))"
  using pin_num_agree [OF assms, of s]
  by (simp_all add: mrb_s_read_at_def c_read_at_def c_READ_def GPIO_read_def word8_c_int)

text \<open>Of the pins only 26 to 29 and the sensor are analog inputs; both classes agree on them.\<close>

theorem adc_init_agree:
  assumes "0 \<le> c_int n"
  shows "case ADC_init A (word_of_int n) s of (i, s') \<Rightarrow>
      mrb_adc__init A (VInt n) s = (if i < 0 then Inl (ArgumentError ''Wrong ADC pin value'') else Inr (VInt i), s')
    \<and> c_adc__init A (VInt n) s = (VInt i, if i < 0 then s'\<lparr>adc_exc := Some (ArgumentError ''Wrong ADC pin value'')\<rparr> else s')"
  using assms by (auto simp: mrb_adc__init_def mrb_adc_pin_num_def c_adc__init_def c_adc_pin_num_def word8_c_int split: prod.splits)

section \<open>Deviations\<close>

text \<open>The pin 26 is not prepared for analog input, but the pin 0.\<close>

theorem adc_init_wrong_pin:
  "ADC_init A 26 s = (0, s\<lparr>adc_dev := sdk_adc_gpio_init A 0 (if adc_inited s then adc_dev s else sdk_adc_init A (adc_dev s)),
     adc_inited := True\<rparr>)"
  by (simp add: ADC_init_def adc_input_def TEMPERATURE_def Let_def)

text \<open>In mruby/c other numbers than 0 and 1 are written, as the level low, or high when they are 1 modulo 256.\<close>

theorem gpio_any_value:
  "c_write_at G (VInt 3) (VInt 2) s = (VInt 0, s\<lparr>bus_dev := sdk_gpio_put G 3 False (bus_dev s)\<rparr>)"
  "c_write_at G (VInt 3) (VInt 257) s = (VInt 0, s\<lparr>bus_dev := sdk_gpio_put G 3 True (bus_dev s)\<rparr>)"
  "mrb_s_write_at G (VInt 3) 2 s = (Inl (ArgumentError ''Wrong value. 0 and 1 are only valid''), s)"
  by (simp_all add: c_write_at_def c_at_pin_def c_pin_num_def GPIO_write_def mrb_s_write_at_def mrb_pin_num_def)

text \<open>A pin by name, which the port does not know, is the pin 255 (the byte -1) in mruby/c, without an exception.\<close>

theorem gpio_named_pin:
  "c_pull_up_at G (VSym ''PA0'') s = (VInt 0, s\<lparr>bus_dev := sdk_gpio_pull_up G (- 1) (bus_dev s)\<rparr>)"
  "mrb_s_pull_up_at G (VSym ''PA0'') s = (Inl (ArgumentError ''Wrong GPIO pin name''), s)"
  by (simp_all add: c_pull_up_at_def c_at_pin_def c_pin_num_def GPIO_pull_up_def mrb_s_pull_up_at_def mrb_at_pin_def
      mrb_pin_num_def GPIO_pin_num_from_char_def)

text \<open>A pin that is no pin raises in mruby/c, but the pin 255 is changed all the same.\<close>

theorem gpio_raise_goes_on:
  "c_pull_up_at G VNil s = (VInt 0, bus_raise (ArgumentError ''Wrong GPIO pin value'') (s\<lparr>bus_dev := sdk_gpio_pull_up G (- 1) (bus_dev s)\<rparr>))"
  by (simp add: c_pull_up_at_def c_at_pin_def c_pin_num_def GPIO_pull_up_def bus_raise_def)

end
