(* ===== verification/Spec2Isabelle.thy ===== *)
theory Spec2Isabelle
  imports TaskProps Irq PsgProps UartProps CodecProps VramPages FontProps Encoder SdProps DiskProps FatProps NetProps PosixFaults TimeProps SpiProps Gpio
begin

text \<open>
  \<^bold>\<open>PicoRuby.\<close> PicoRuby runs Ruby on microcontrollers. It is a set of gems under \<^verbatim>\<open>src/mrbgems\<close> for one
  of two virtual machines, mruby and mruby/c, which are submodules and not part of the repository.
  This development models the C code that carries the logic of its own: the task scheduler that
  the repository adds to mruby, and the gems that keep state between calls, are driven by
  interrupts, or transform data. Everything the virtual machines, the SDKs of the boards and the
  vendored libraries do is a parameter of the definitions that use it.

  \<^bold>\<open>Parts and theories.\<close> (Paths are relative to \<^verbatim>\<open>src/mrbgems\<close>.)

  \<^item> \<open>Prelude\<close>: machine integers, Ruby values and exceptions, the locale of a bounded queue, and
    general lemmas.
  \<^item> \<open>TaskQueue\<close>, \<open>Scheduler\<close>: \<^verbatim>\<open>picoruby-mruby/src/task.c\<close> and \<^verbatim>\<open>include/task.h\<close>. A task control block is
    a record, the four queues are heads of linked lists whose links are a map from address to
    address; each function of the file is a definition, its loops are partial functions that are
    \<open>None\<close> on a cyclic list. \<open>SchedInv\<close> states when the queues are well formed and that every
    operation keeps it, \<open>SchedOps\<close> and \<open>SchedTick\<close> give the effect of the operations and of the
    tick interrupt on represented queues, \<open>SchedRun\<close> is the dispatch loop \<^verbatim>\<open>mrb_tasks_run\<close> as a step
    relation, and \<open>TaskProps\<close> has the properties: which operations are defined in a reachable state,
    sleeping tasks wake on time also when the tick counter wraps around, the highest priority
    runs, equal priorities take turns, suspension is undone by resumption. A run may contain any
    defined operation of a task at any time; two assumptions on runs are named where a property
    needs them (\<open>sched_reach A\<close>): \<open>Prompt\<close>, that \<open>Task.pass\<close> is called by tasks that are running or have
    terminated themselves, without which the ready queue can lose its order, and \<open>InTime\<close>, that no
    sleep and no suspension in a sleep is too long for the signed comparison of ticks.
    \<open>MRB_TICK_UNIT = 4\<close> and \<open>MRB_TIMESLICE_TICK_COUNT = 3\<close> are the defaults of \<^verbatim>\<open>hal.h\<close> (the build
    configurations for the Pico 2 with mruby set 1 and 10).
  \<^item> \<open>RingBuffer\<close>, \<open>Irq\<close>: the three ring buffers of the repository behind one locale; GPIO events,
    debouncing and handlers (\<^verbatim>\<open>picoruby-irq\<close>). The clock is the 32-bit counter of microseconds.
  \<^item> \<open>Psg\<close>, \<open>PsgSys\<close>, \<open>PsgProps\<close>: the sound chip (\<^verbatim>\<open>picoruby-psg\<close>), its packets, the timer and the
    renderer on the two cores. Packets are executed at the tick their delays add up to, as in the
    reference \<open>psg_schedule\<close>; tables are not left and samples fit twelve bits.
  \<^item> \<open>Uart\<close>, \<open>UartProps\<close>: serial ports (\<^verbatim>\<open>picoruby-uart\<close>), from the receive interrupt to the methods.
  \<^item> \<open>Codec\<close>, \<open>CodecProps\<close>: Base16, Base64 and CRC-32. Round trips, agreement of both virtual machines, and
    the checksum against its bit-serial definition.
  \<^item> \<open>Vram\<close>, \<open>VramProps\<close>, \<open>VramLine\<close>, \<open>VramPages\<close>: the frame buffer (\<^verbatim>\<open>picoruby-vram\<close>), refining a set of
    points; Bresenham's line; changed pages are reported as dirty, with their position where the number
    of columns is the one the code computes again.
  \<^item> \<open>Fonts\<close>, \<open>FontProps\<close>: the bitmap fonts (\<^verbatim>\<open>picoruby-shinonome\<close>, \<^verbatim>\<open>picoruby-terminus\<close>): decoding, lookup,
    glyph rows and smoothed zoom.
  \<^item> \<open>Encoder\<close>: rotary encoders (\<^verbatim>\<open>picoruby-prk-rotary_encoder\<close>).
  \<^item> \<open>SdCard\<close>: the driver of SD and MMC cards (\<^verbatim>\<open>picoruby-filesystem-fat/ports/rp2040/sd_disk.c\<close>), one
    definition per function and per loop. The card answers each byte as a function of all bytes
    sent so far, and the same function tells how often the timer interrupt runs meanwhile; so
    every card and every timing is covered. \<open>SdBus\<close> has what each function sends and changes,
    \<open>SdTotal\<close> that all operations return when the timer keeps running, \<open>SdProto\<close> the dialogs of the
    protocol and that success implies one, \<open>SdComplete\<close> the converse, \<open>SdProps\<close> the properties.
  \<^item> \<open>Disk\<close>, \<open>DiskProps\<close>: the RAM disk, the flash disk, the dispatch of FatFs on the drive number
    (\<^verbatim>\<open>src/hal\<close>, \<^verbatim>\<open>ports/rp2040/flash_disk.c\<close>) and USB mass storage (\<^verbatim>\<open>msc_disk.c\<close>). The contract of a drive,
    that it is an array of sectors, is the locale \<open>block_device\<close>, interpreted on both disks.
  \<^item> \<open>Fat\<close>, \<open>FatClass\<close>, \<open>FatFile\<close>, \<open>FatProps\<close>: the classes FAT, FAT::File, FAT::Dir and FAT::Stat for both
    virtual machines (\<^verbatim>\<open>src/fat.c\<close>, \<^verbatim>\<open>src/mruby\<close>, \<^verbatim>\<open>src/mrubyc\<close>) over FatFs, whose functions are the fields
    of the record \<open>fatfs_lib\<close> on a state of any type.
  \<^item> \<open>Net\<close>, \<open>NetProps\<close>: the clients of \<^verbatim>\<open>picoruby-net\<close> (\<^verbatim>\<open>src/tcp.c\<close>, \<^verbatim>\<open>src/udp.c\<close>, \<^verbatim>\<open>src/net.c\<close>, \<^verbatim>\<open>src/dns.c\<close> and
    both bindings) over lwIP, whose callbacks are lists of events for each sleep of the program. The
    block that collects the answer lives in an explicit heap, so that addresses that dangle are seen.
  \<^item> \<open>PosixIo\<close>, \<open>PosixPos\<close>, \<open>PosixProc\<close>, \<open>PosixPopen\<close>, \<open>PosixFile\<close>, \<open>PosixDir\<close>: the classes IO, File, FileTest and Dir
    of mruby/c on POSIX systems (\<^verbatim>\<open>picoruby-posix-io/src/io.c\<close>, \<^verbatim>\<open>file.c\<close>, \<^verbatim>\<open>file_test.c\<close>, \<^verbatim>\<open>include/io.h\<close>,
    \<^verbatim>\<open>picoruby-dir/src/dir.c\<close>): one definition per function, over the records \<open>posix\<close> and \<open>posix_fs\<close> of the system
    calls. \<open>PosixStream\<close> has the loops that read through the buffer, \<open>PosixProps\<close> and \<open>PosixRefine\<close> instantiate the
    locale \<open>simulation\<close> twice: calls on an object are calls on a list of bytes, and on a file with one position.
    \<open>PosixSys\<close> has the modes and the descriptors of \<^verbatim>\<open>popen\<close>, \<open>PosixSelect\<close> waiting, \<open>PosixNames\<close> the names of files,
    \<open>PosixFaults\<close> the deviations.
  \<^item> \<open>TimeClass\<close>, \<open>TimeProps\<close>: the class Time of mruby/c (\<^verbatim>\<open>picoruby-time-class/src/time.c\<close>) over the calendar of the
    C library, the record \<open>time_lib\<close>: texts that fit their buffer and can be read back, arithmetic and comparison.
  \<^item> \<open>Bus\<close>, \<open>BusProps\<close>: I2C (\<^verbatim>\<open>picoruby-i2c\<close>), and how both serial buses collect the bytes of a transaction from the
    arguments of a method. \<open>Spi\<close>, \<open>SpiProps\<close>: SPI (\<^verbatim>\<open>picoruby-spi\<close>); what a device at the pins of the unit \<^verbatim>\<open>BITBANG\<close>
    samples is computed from the levels that the driver gives them. \<open>Gpio\<close>: the classes GPIO and ADC
    (\<^verbatim>\<open>picoruby-gpio\<close>, \<^verbatim>\<open>picoruby-adc\<close>). All with the ports to the RP2040.

  \<^bold>\<open>How the parts interact.\<close> The tick interrupt and the dispatch loop share the queues; the interrupt
  handlers of GPIO, UART, sound and rotary encoders fill buffers that methods empty, and the model
  has each handler as an operation between two steps of the method, with critical sections as one
  step. Some steps of the model are not covered by a critical section in the code, among them the
  computation of a sample of the sound chip and consuming the count of an encoder; interrupts within
  them are not modelled. FatFs calls the drives, USB mass storage calls the flash disk or the card past FatFs. The two
  bindings of a gem share its C core; where both exist, both are modelled and compared.

  \<^bold>\<open>Conventions.\<close> \<^verbatim>\<open>uint8_t\<close> to \<^verbatim>\<open>uint64_t\<close> are words of their width. Integers of mruby are unbounded in
  the model, those of mruby/c are 32-bit words, as in builds without \<^verbatim>\<open>PICORUBY_INT64\<close>, except
  in \<open>TimeClass\<close>; most build configurations for mruby/c define it, and there results from \<open>2 ^ 31\<close> on do not
  become negative. Definitions whose results can be undefined in C (access outside of an array, null
  pointers, overflow of a signed shift, a buffer that is too small) return an option and are
  \<open>None\<close> there. In mruby an exception leaves the method: a result is an error or a value. In mruby/c
  raising only records it: a result has an optional error and a value, and the code goes on behind
  \<^verbatim>\<open>mrbc_raise\<close> unless it returns. Loops with a clear bound are recursive functions
  on it; loops that depend on lists, hardware or parameters are \<open>partial_function (option)\<close>, so that a
  loop that does not end is \<open>None\<close>, and the theorems prove that it is not. There is no fuel, apart
  from the ten attempts of \<open>response_loop\<close>, which the code makes itself.

  \<^bold>\<open>What the parameters assume.\<close> Properties that depend on a parameter state it as a hypothesis: the
  timer interrupt runs at least once in so many exchanges (\<open>timer_runs\<close>), a card follows the
  protocol in time (\<open>prompt\<close>), erasing the flash sets bits and programming clears them
  (\<open>flash_sdk_ok\<close>), FatFs keeps the content and position of an open file as documented
  (\<open>file_laws\<close>), the allocator returns addresses that are not in use (\<open>allocator\<close>), and a server
  accepts, answers and closes before the poll callback ends the request (\<open>answers_tcp\<close>), \<^verbatim>\<open>read\<close>, \<^verbatim>\<open>write\<close> and \<^verbatim>\<open>lseek\<close> work on a content and an offset
  and are never cut short for a regular file (\<open>reads_from\<close>, \<open>posix_file_laws\<close>), \<^verbatim>\<open>pipe\<close> and \<^verbatim>\<open>close\<close> change the set of open descriptors (\<open>fd_laws\<close>), and the
  flags of \<^verbatim>\<open>open\<close> do not overlap with the access mode (\<open>flags_ok\<close>). Each has an instance in the witness of the property.

  \<^bold>\<open>Deviations.\<close> Where the code does not do what it should, the model does what the code does, and a
  lemma shows it; among them: \<open>sd_hangs_without_timer\<close>, \<open>mmc_erase_group_wrong\<close>, \<open>msc_sd_error_ignored\<close>,
  \<open>open_overflows\<close>, \<open>contiguous_gives_up\<close>, \<open>unmounted_twice\<close>, \<open>seek_past_end\<close>, \<open>vfs_table_shifted\<close>,
  \<open>uart_overflow\<close>, \<open>timeout_frees_twice\<close>, \<open>err_then_close\<close>, \<open>refused_then_poll\<close>, \<open>udp_overflow\<close>,
  \<open>closed_stream_null\<close>, \<open>short_write_repeats\<close>, \<open>readlines_fails\<close>, \<open>dir_empty_always\<close>, \<open>i2c_default_pins\<close>,
  \<open>spi_bad_element_sent\<close>, \<open>adc_init_wrong_pin\<close>, \<open>sleep_after_terminate\<close>, \<open>irq_debounce_wraps\<close>,
  \<open>vram_cols_recomputed\<close>, \<open>seek_relative_readahead\<close>, \<open>spi_bitbang_ignores_first_bit\<close>.

  \<^bold>\<open>Not modelled.\<close> Vendored code (FatFs, SQLite, the TLS layer of lwIP, the fonts' data) and what comes
  from submodules (the compiler and both virtual machines, and so the gems that only pass objects
  to them: sandbox, eval, require, shell, metaprog). Drivers that only write registers (the ports of
  the other peripheral gems and to other boards, clocks, sleep modes), and glue without state or logic
  (mbedTLS, Bluetooth, WebAssembly, SQLite). The pitch detector and PWM work on floating point numbers.
  A local array on the stack has the size the code asks for: the stack does not overflow in the model,
  except where a negative length becomes a huge one, which is undefined. Method registration and
  argument parsing are left out everywhere.
\<close>

end
